(* ===== verification/Prelude.thy ===== *)
theory Prelude
  imports Main
begin

text \<open>
  The prelude of the development: Rust strings, the operations of Rust's
  standard library the modelled code calls on them, saturating machine
  integers, and the generic lemmas and interfaces (locales) the component
  theories share.

  A Rust \<open>str\<close> is a sequence of Unicode scalar values, modelled as a list of
  code points.  An ASCII literal of the source is written \<open>lit ''...''\<close>, a
  non-ASCII one as the list of its code points.  \<open>len()\<close>, which counts UTF-8
  bytes, is \<open>byte_len\<close>; \<open>chars().count()\<close> is \<open>length\<close>.
\<close>

section \<open>Collections of facts\<close>

named_theorems str_simps \<open>equations that evaluate the string operations\<close>
named_theorems wire_simps \<open>spellings of the persisted enums\<close>

section \<open>Strings\<close>

type_synonym rchar = nat
type_synonym rstr = "nat list"

definition lit :: "string \<Rightarrow> rstr" where
  "lit s = map of_char s"

lemma lit_Nil [simp]: "lit [] = []"
  by (simp add: lit_def)

lemma lit_Cons [str_simps]: "lit (c # s) = of_char c # lit s"
  by (simp add: lit_def)

lemma of_char_nat_eq [simp]: "(of_char c :: nat) = of_char d \<longleftrightarrow> c = d"
  by (metis char_of_char)

lemma lit_inj [simp]: "lit s = lit t \<longleftrightarrow> s = t"
  by (auto simp: lit_def inj_map_eq_map inj_def)

lemma lit_eq_Nil [simp]: "lit s = [] \<longleftrightarrow> s = []" "[] = lit s \<longleftrightarrow> s = []"
  by (auto simp: lit_def)

lemma length_lit [simp]: "length (lit s) = length s"
  by (simp add: lit_def)

text \<open>\<open>char::is_whitespace\<close>: the Unicode White\_Space property.\<close>

definition is_whitespace :: "rchar \<Rightarrow> bool" where
  "is_whitespace c \<longleftrightarrow>
     (9 \<le> c \<and> c \<le> 13) \<or> c = 32 \<or> c = 133 \<or> c = 160 \<or> c = 5760 \<or>
     (8192 \<le> c \<and> c \<le> 8202) \<or> c = 8232 \<or> c = 8233 \<or> c = 8239 \<or> c = 8287 \<or> c = 12288"

definition is_ascii_digit :: "rchar \<Rightarrow> bool" where
  "is_ascii_digit c \<longleftrightarrow> 48 \<le> c \<and> c \<le> 57"

definition is_ascii_upper :: "rchar \<Rightarrow> bool" where
  "is_ascii_upper c \<longleftrightarrow> 65 \<le> c \<and> c \<le> 90"

definition is_ascii_lower :: "rchar \<Rightarrow> bool" where
  "is_ascii_lower c \<longleftrightarrow> 97 \<le> c \<and> c \<le> 122"

definition is_ascii_alphanumeric :: "rchar \<Rightarrow> bool" where
  "is_ascii_alphanumeric c \<longleftrightarrow> is_ascii_digit c \<or> is_ascii_upper c \<or> is_ascii_lower c"

definition ascii_lower :: "rchar \<Rightarrow> rchar" where
  "ascii_lower c = (if is_ascii_upper c then c + 32 else c)"

definition to_ascii_lowercase :: "rstr \<Rightarrow> rstr" where
  "to_ascii_lowercase s = map ascii_lower s"

definition trim_start_matches :: "(rchar \<Rightarrow> bool) \<Rightarrow> rstr \<Rightarrow> rstr" where
  "trim_start_matches p s = dropWhile p s"

definition trim_end_matches :: "(rchar \<Rightarrow> bool) \<Rightarrow> rstr \<Rightarrow> rstr" where
  "trim_end_matches p s = rev (dropWhile p (rev s))"

definition trim_start :: "rstr \<Rightarrow> rstr" where
  "trim_start s = trim_start_matches is_whitespace s"

definition trim_end :: "rstr \<Rightarrow> rstr" where
  "trim_end s = trim_end_matches is_whitespace s"

definition trim :: "rstr \<Rightarrow> rstr" where
  "trim s = trim_end (trim_start s)"

fun strip_prefix :: "rstr \<Rightarrow> rstr \<Rightarrow> rstr option" where
  "strip_prefix [] s = Some s"
| "strip_prefix (p # ps) [] = None"
| "strip_prefix (p # ps) (c # cs) = (if p = c then strip_prefix ps cs else None)"

definition starts_with :: "rstr \<Rightarrow> rstr \<Rightarrow> bool" where
  "starts_with p s = (strip_prefix p s \<noteq> None)"

definition ends_with :: "rstr \<Rightarrow> rstr \<Rightarrow> bool" where
  "ends_with p s = starts_with (rev p) (rev s)"

text \<open>\<open>str::find\<close> for a string pattern, as an offset in code points.\<close>

fun find_sub :: "rstr \<Rightarrow> rstr \<Rightarrow> nat option" where
  "find_sub p [] = (if p = [] then Some 0 else None)"
| "find_sub p (c # cs) =
     (if starts_with p (c # cs) then Some 0 else map_option Suc (find_sub p cs))"

definition contains :: "rstr \<Rightarrow> rstr \<Rightarrow> bool" where
  "contains p s = (find_sub p s \<noteq> None)"

fun split_on :: "(rchar \<Rightarrow> bool) \<Rightarrow> rstr \<Rightarrow> rstr list" where
  "split_on p [] = [[]]"
| "split_on p (c # cs) =
     (if p c then [] # split_on p cs
      else (case split_on p cs of [] \<Rightarrow> [[c]] | q # qs \<Rightarrow> (c # q) # qs))"

definition split_char :: "rchar \<Rightarrow> rstr \<Rightarrow> rstr list" where
  "split_char c s = split_on (\<lambda>d. d = c) s"

text \<open>\<open>str::split_once\<close> at a character.\<close>

fun split_once :: "rchar \<Rightarrow> rstr \<Rightarrow> (rstr \<times> rstr) option" where
  "split_once c [] = None"
| "split_once c (d # ds) =
     (if d = c then Some ([], ds)
      else map_option (\<lambda>(a, b). (d # a, b)) (split_once c ds))"

lemma split_once_at: "c \<notin> set a \<Longrightarrow> split_once c (a @ c # b) = Some (a, b)"
  by (induction a) auto

definition split_whitespace :: "rstr \<Rightarrow> rstr list" where
  "split_whitespace s = filter (\<lambda>w. w \<noteq> []) (split_on is_whitespace s)"

fun join :: "rstr \<Rightarrow> rstr list \<Rightarrow> rstr" where
  "join sep [] = []"
| "join sep [x] = x"
| "join sep (x # y # ys) = x @ sep @ join sep (y # ys)"

definition strip_cr :: "rstr \<Rightarrow> rstr" where
  "strip_cr s = (if s \<noteq> [] \<and> last s = 13 then butlast s else s)"

text \<open>\<open>str::lines\<close>: pieces ended by \<open>\n\<close> or \<open>\r\n\<close>, no empty last piece.\<close>

definition str_lines :: "rstr \<Rightarrow> rstr list" where
  "str_lines s =
     (let ps = split_char 10 s
      in map strip_cr (butlast ps) @ (if last ps = [] then [] else [last ps]))"

text \<open>UTF-8 width of a scalar value, and the byte length of a string.\<close>

definition utf8_len :: "rchar \<Rightarrow> nat" where
  "utf8_len c = (if c < 128 then 1 else if c < 2048 then 2 else if c < 65536 then 3 else 4)"

fun byte_len :: "rstr \<Rightarrow> nat" where
  "byte_len [] = 0"
| "byte_len (c # cs) = utf8_len c + byte_len cs"

definition utf8_char :: "rchar \<Rightarrow> nat list" where
  "utf8_char c =
     (if c < 128 then [c]
      else if c < 2048 then [192 + c div 64, 128 + c mod 64]
      else if c < 65536 then [224 + c div 4096, 128 + c div 64 mod 64, 128 + c mod 64]
      else [240 + c div 262144, 128 + c div 4096 mod 64, 128 + c div 64 mod 64, 128 + c mod 64])"

definition utf8_encode :: "rstr \<Rightarrow> nat list" where
  "utf8_encode s = concat (map utf8_char s)"

text \<open>Decimal rendering of an unsigned integer and \<open>str::parse\<close> for one.\<close>

fun show_nat :: "nat \<Rightarrow> rstr" where
  "show_nat n = (if n < 10 then [48 + n] else show_nat (n div 10) @ [48 + n mod 10])"

declare show_nat.simps [simp del]

fun digits_value :: "nat \<Rightarrow> rstr \<Rightarrow> nat option" where
  "digits_value acc [] = Some acc"
| "digits_value acc (c # cs) =
     (if is_ascii_digit c then digits_value (acc * 10 + (c - 48)) cs else None)"

section \<open>Machine integers\<close>

definition u32_max :: nat where "u32_max = 4294967295"
definition u64_max :: nat where "u64_max = 18446744073709551615"

text \<open>\<open>saturating_add\<close> at a width given by its largest value.\<close>

definition sat_add :: "nat \<Rightarrow> nat \<Rightarrow> nat \<Rightarrow> nat" where
  "sat_add m a b = min m (a + b)"

abbreviation sat_add32 :: "nat \<Rightarrow> nat \<Rightarrow> nat" where
  "sat_add32 \<equiv> sat_add u32_max"

abbreviation sat_add64 :: "nat \<Rightarrow> nat \<Rightarrow> nat" where
  "sat_add64 \<equiv> sat_add u64_max"

text \<open>\<open>str::parse\<close> for \<open>u64\<close>: an optional \<open>+\<close>, then digits, no overflow.\<close>

definition parse_u64 :: "rstr \<Rightarrow> nat option" where
  "parse_u64 s =
     (let d = (case s of [] \<Rightarrow> [] | c # cs \<Rightarrow> if c = 43 then cs else s)
      in if d = [] then None
         else case digits_value 0 d of None \<Rightarrow> None
              | Some n \<Rightarrow> if n \<le> u64_max then Some n else None)"

lemma sat_add_le [simp]: "sat_add m a b \<le> m"
  by (simp add: sat_add_def)

lemma sat_add_mono_left: "a \<le> m \<Longrightarrow> a \<le> sat_add m a b"
  by (simp add: sat_add_def)

lemma sat_add_zero [simp]: "a \<le> m \<Longrightarrow> sat_add m a 0 = a"
  by (simp add: sat_add_def)

lemma sat_add_exact: "a + b \<le> m \<Longrightarrow> sat_add m a b = a + b"
  by (simp add: sat_add_def)

lemma sat_add_assoc: "sat_add m (sat_add m a b) c = sat_add m a (sat_add m b c)"
  by (simp add: sat_add_def)

section \<open>Facts about the string operations\<close>

lemma strip_prefix_Some_iff: "strip_prefix p s = Some r \<longleftrightarrow> s = p @ r"
  by (induction p s rule: strip_prefix.induct) auto

lemma strip_prefix_append [simp]: "strip_prefix p (p @ s) = Some s"
  by (simp add: strip_prefix_Some_iff)

lemma starts_with_iff: "starts_with p s \<longleftrightarrow> (\<exists>r. s = p @ r)"
  by (auto simp: starts_with_def strip_prefix_Some_iff)

lemma ends_with_iff: "ends_with p s \<longleftrightarrow> (\<exists>r. s = r @ p)"
proof
  assume "ends_with p s"
  then obtain r where "rev s = rev p @ r"
    by (auto simp: ends_with_def starts_with_iff)
  then have "rev (rev s) = rev (rev p @ r)" by (rule arg_cong)
  then have "s = rev r @ p" by simp
  then show "\<exists>r. s = r @ p" ..
next
  assume "\<exists>r. s = r @ p"
  then show "ends_with p s" by (auto simp: ends_with_def starts_with_iff)
qed

lemma find_sub_None: "find_sub p s = None \<Longrightarrow> \<not> (\<exists>a b. s = a @ p @ b)"
proof (induction s)
  case Nil
  then show ?case by (auto split: if_splits)
next
  case (Cons c s)
  then have no: "\<not> starts_with p (c # s)" and rest: "\<not> (\<exists>a b. s = a @ p @ b)"
    by (auto split: if_splits)
  show ?case
  proof
    assume "\<exists>a b. c # s = a @ p @ b"
    then obtain a b where ab: "c # s = a @ p @ b" by blast
    show False
    proof (cases a)
      case Nil
      with ab no show False by (auto simp: starts_with_iff)
    next
      case (Cons d a')
      with ab rest show False by auto
    qed
  qed
qed

lemma find_sub_Some: "find_sub p s = Some i \<Longrightarrow> \<exists>a b. s = a @ p @ b \<and> length a = i"
proof (induction s arbitrary: i)
  case Nil
  then show ?case by (auto split: if_splits)
next
  case (Cons c s)
  show ?case
  proof (cases "starts_with p (c # s)")
    case True
    with Cons.prems show ?thesis by (auto simp: starts_with_iff)
  next
    case False
    with Cons.prems obtain j where j: "find_sub p s = Some j" "i = Suc j" by auto
    with Cons.IH obtain a b where "s = a @ p @ b" "length a = j" by blast
    with j have "c # s = (c # a) @ p @ b \<and> length (c # a) = i" by simp
    then show ?thesis by blast
  qed
qed

lemma contains_iff: "contains p s \<longleftrightarrow> (\<exists>a b. s = a @ p @ b)"
proof
  assume "contains p s"
  then obtain i where "find_sub p s = Some i" by (auto simp: contains_def)
  then show "\<exists>a b. s = a @ p @ b" by (blast dest: find_sub_Some)
next
  assume "\<exists>a b. s = a @ p @ b"
  then show "contains p s" using find_sub_None [of p s] by (auto simp: contains_def)
qed

lemma split_on_not_Nil [simp]: "split_on p s \<noteq> []"
  by (induction s) (auto split: list.splits)

lemma split_char_not_Nil [simp]: "split_char c s \<noteq> []"
  by (simp add: split_char_def)

lemma join_Cons: "ls \<noteq> [] \<Longrightarrow> join sep (l # ls) = l @ sep @ join sep ls"
  by (cases ls) simp_all

lemma join_snoc: "ls \<noteq> [] \<Longrightarrow> join sep (ls @ [l]) = join sep ls @ sep @ l"
  by (induction sep ls rule: join.induct) auto

lemma join_split_char [simp]: "join [c] (split_char c s) = s"
proof (induction s)
  case Nil
  show ?case by (simp add: split_char_def)
next
  case (Cons d s)
  obtain q qs where q: "split_char c s = q # qs"
    by (cases "split_char c s") auto
  with Cons show ?case
    by (cases qs) (auto simp: split_char_def)
qed

lemma split_char_no_sep: "l \<in> set (split_char c s) \<Longrightarrow> c \<notin> set l"
proof (induction s arbitrary: l)
  case Nil
  then show ?case by (simp add: split_char_def)
next
  case (Cons d s)
  then show ?case
    by (fastforce simp: split_char_def split: list.splits if_splits)
qed

lemma split_char_id: "c \<notin> set l \<Longrightarrow> split_char c l = [l]"
  by (induction l) (auto simp: split_char_def)

lemma split_char_append: "c \<notin> set l \<Longrightarrow> split_char c (l @ c # s) = l # split_char c s"
  by (induction l) (auto simp: split_char_def)

lemma split_char_join:
  assumes "ls \<noteq> []" and "\<forall>l \<in> set ls. c \<notin> set l"
  shows "split_char c (join [c] ls) = ls"
  using assms
proof (induction "[c]" ls rule: join.induct)
  case 1
  then show ?case by simp
next
  case (2 x)
  then show ?case by (simp add: split_char_id)
next
  case (3 x y ys)
  then show ?case by (simp add: split_char_append)
qed

lemma join_eq_Nil_iff: "join [c] ls = [] \<longleftrightarrow> ls = [] \<or> ls = [[]]"
  by (cases "([c], ls)" rule: join.cases) auto

lemma trim_start_Nil [simp]: "trim_start [] = []"
  by (simp add: trim_start_def trim_start_matches_def)

lemma trim_Nil [simp]: "trim [] = []"
  by (simp add: trim_def trim_end_def trim_end_matches_def)

lemma trim_ascii_word:
  assumes "s \<noteq> []" and "\<not> is_whitespace (hd s)" and "\<not> is_whitespace (last s)"
  shows "trim s = s"
proof -
  obtain c cs where s: "s = c # cs" using assms(1) by (cases s) auto
  obtain ds d where r: "s = ds @ [d]" using assms(1) by (cases s rule: rev_cases) auto
  have "trim_start s = s"
    using assms(2) s by (simp add: trim_start_def trim_start_matches_def)
  moreover have "trim_end s = s"
    using assms(3) r by (simp add: trim_end_def trim_end_matches_def)
  ultimately show ?thesis by (simp add: trim_def)
qed

lemma dropWhile_idem_rev: "dropWhile p (dropWhile p xs) = dropWhile p xs"
  by (induction xs) auto

lemma trim_start_eq_Nil: "trim_start s = [] \<longleftrightarrow> (\<forall>c \<in> set s. is_whitespace c)"
  by (simp add: trim_start_def trim_start_matches_def dropWhile_eq_Nil_conv)

lemma trim_decomp:
  "\<exists>a b. s = a @ trim s @ b \<and> (trim s \<noteq> [] \<longrightarrow>
     \<not> is_whitespace (hd (trim s)) \<and> \<not> is_whitespace (last (trim s)))"
proof -
  define u where "u = dropWhile is_whitespace s"
  define v where "v = dropWhile is_whitespace (rev u)"
  have t: "trim s = rev v"
    by (simp add: trim_def trim_end_def trim_end_matches_def trim_start_def
        trim_start_matches_def u_def v_def)
  have s: "s = takeWhile is_whitespace s @ u" by (simp add: u_def)
  have ru: "rev u = takeWhile is_whitespace (rev u) @ v" by (simp add: v_def)
  then have "rev (rev u) = rev v @ rev (takeWhile is_whitespace (rev u))"
    by (metis rev_append)
  then have u: "u = rev v @ rev (takeWhile is_whitespace (rev u))" by simp
  have "\<not> is_whitespace (hd (rev v)) \<and> \<not> is_whitespace (last (rev v))" if "rev v \<noteq> []"
  proof
    have "u \<noteq> []" using u that by auto
    then have "\<not> is_whitespace (hd u)" using hd_dropWhile [of is_whitespace s] by (simp add: u_def)
    moreover have "hd u = hd (rev v)" using u that by (metis hd_append2)
    ultimately show "\<not> is_whitespace (hd (rev v))" by simp
    have "v \<noteq> []" using that by simp
    then have "\<not> is_whitespace (hd v)" using hd_dropWhile [of is_whitespace "rev u"] by (simp add: v_def)
    then show "\<not> is_whitespace (last (rev v))" using that by (simp add: last_rev)
  qed
  moreover have "s = takeWhile is_whitespace s @ rev v @ rev (takeWhile is_whitespace (rev u))"
    using s u by simp
  ultimately show ?thesis unfolding t by blast
qed

lemma trim_trim [simp]: "trim (trim s) = trim s"
proof (cases "trim s = []")
  case False
  then show ?thesis using trim_decomp [of s] by (intro trim_ascii_word) auto
qed simp

lemma byte_len_append [simp]: "byte_len (a @ b) = byte_len a + byte_len b"
  by (induction a) auto

lemma utf8_len_bounds: "1 \<le> utf8_len c \<and> utf8_len c \<le> 4"
  by (simp add: utf8_len_def)

lemma byte_len_ge_length: "length s \<le> byte_len s"
  by (induction s) (auto simp: utf8_len_def)

lemma utf8_encode_append [simp]: "utf8_encode (a @ b) = utf8_encode a @ utf8_encode b"
  by (simp add: utf8_encode_def)

lemma utf8_char_length: "length (utf8_char c) = utf8_len c"
  by (simp add: utf8_char_def utf8_len_def)

lemma utf8_encode_length: "length (utf8_encode s) = byte_len s"
  by (induction s) (simp_all add: utf8_encode_def utf8_char_length)

lemma utf8_char_bytes: "b \<in> set (utf8_char c) \<Longrightarrow> b < 128 \<Longrightarrow> b = c"
  by (auto simp: utf8_char_def split: if_splits)

lemma utf8_encode_no_ascii: "b < 128 \<Longrightarrow> b \<notin> set s \<Longrightarrow> b \<notin> set (utf8_encode s)"
  by (auto simp: utf8_encode_def dest: utf8_char_bytes)

section \<open>Decimal numerals\<close>

lemma show_nat_not_Nil [simp]: "show_nat n \<noteq> []"
  by (subst show_nat.simps) simp

lemma show_nat_digits: "c \<in> set (show_nat n) \<Longrightarrow> is_ascii_digit c"
proof (induction n rule: show_nat.induct)
  case (1 n)
  show ?case
  proof (cases "n < 10")
    case True
    with "1.prems" show ?thesis by (simp add: show_nat.simps [of n] is_ascii_digit_def)
  next
    case False
    have "n mod 10 < 10" by simp
    with False "1.prems" "1.IH" show ?thesis
      by (auto simp: show_nat.simps [of n] is_ascii_digit_def)
  qed
qed

lemma digits_value_append:
  "digits_value a (s @ t) = (case digits_value a s of None \<Rightarrow> None | Some b \<Rightarrow> digits_value b t)"
  by (induction a s rule: digits_value.induct) auto

lemma digits_value_show_nat: "digits_value 0 (show_nat n) = Some n"
proof (induction n rule: show_nat.induct)
  case (1 n)
  show ?case
  proof (cases "n < 10")
    case True
    then show ?thesis by (simp add: show_nat.simps [of n] is_ascii_digit_def)
  next
    case False
    have "n mod 10 < 10" by simp
    with False "1.IH" show ?thesis
      by (simp add: show_nat.simps [of n] digits_value_append is_ascii_digit_def)
  qed
qed

lemma parse_u64_show_nat: "n \<le> u64_max \<Longrightarrow> parse_u64 (show_nat n) = Some n"
proof -
  assume n: "n \<le> u64_max"
  obtain c cs where cc: "show_nat n = c # cs"
    using show_nat_not_Nil by (cases "show_nat n") auto
  then have "is_ascii_digit c" using show_nat_digits [of c n] by simp
  then have "c \<noteq> 43" by (simp add: is_ascii_digit_def)
  with n cc digits_value_show_nat [of n] show ?thesis by (simp add: parse_u64_def)
qed

lemma show_nat_inj [simp]: "show_nat a = show_nat b \<longleftrightarrow> a = b"
  by (metis digits_value_show_nat option.inject)

end
