(* ===== verification/Interfaces.thy ===== *)
theory Interfaces
  imports Prelude
begin

text \<open>
  The contracts several components share, each stated once as a locale and
  interpreted on the model's definitions in the theory of the component that
  provides them.

  \<^item> \<open>wire_enum\<close>, \<open>strict_wire_enum\<close>: an enum that is persisted as a string
    (the crate documentation of leveler-lifecycle: every enum round-trips
    through a wire string and an unknown value is a named error).
  \<^item> \<open>chunk_decoder\<close>: an incremental decoder fed a stream in arbitrary pieces.
  \<^item> \<open>strictest_verdict\<close>: a decision over a list of parts in which the strictest
    part wins (permission rules, the segments of a script).
  \<^item> \<open>transition_system\<close>: a component whose state only moves by its operations.
\<close>

section \<open>Persisted enums\<close>

locale wire_enum =
  fixes as_str :: "'a \<Rightarrow> rstr"
    and from_str :: "rstr \<Rightarrow> 'e + 'a"
  assumes from_as: "from_str (as_str x) = Inr x"
begin

lemma as_str_inject: "as_str x = as_str y \<longleftrightarrow> x = y"
  by (metis from_as sum.inject(2))

lemma every_value_decodes: "\<exists>s. from_str s = Inr x"
  using from_as by blast

end

text \<open>
  A strict enum reads back only its own spellings (after the aliases \<open>canon\<close>
  resolves) and reports everything else with the offending value.
\<close>

locale strict_wire_enum = wire_enum as_str from_str
  for as_str :: "'a \<Rightarrow> rstr" and from_str :: "rstr \<Rightarrow> 'e + 'a" +
  fixes canon :: "rstr \<Rightarrow> rstr"
    and err :: "rstr \<Rightarrow> 'e"
  assumes from_canon: "from_str s = Inr x \<Longrightarrow> canon s = as_str x"
    and from_err: "from_str s = Inl e \<Longrightarrow> e = err s"
begin

lemma unknown_is_error:
  assumes "\<forall>x. canon s \<noteq> as_str x"
  shows "from_str s = Inl (err s)"
proof (cases "from_str s")
  case (Inl e)
  then show ?thesis using from_err by blast
next
  case (Inr x)
  with assms from_canon show ?thesis by blast
qed

lemma decode_unique: "from_str s = Inr x \<Longrightarrow> from_str t = Inr y \<Longrightarrow> canon s = canon t \<Longrightarrow> x = y"
  using from_canon as_str_inject by metis

end

section \<open>Incremental decoders\<close>

text \<open>
  A decoder consumes one unit at a time and either moves to a new state with
  the items that unit completed or stops with an error and the state it leaves
  behind.
\<close>

locale chunk_decoder =
  fixes step :: "'s \<Rightarrow> 'b \<Rightarrow> ('x \<times> 's) + ('s \<times> 'o list)"
begin

fun run :: "'s \<Rightarrow> 'b list \<Rightarrow> 'o list \<Rightarrow> ('x \<times> 's) + ('s \<times> 'o list)" where
  "run s [] out = Inr (s, out)"
| "run s (b # bs) out =
     (case step s b of Inl e \<Rightarrow> Inl e | Inr (s', os) \<Rightarrow> run s' bs (out @ os))"

lemma run_append:
  "run s (xs @ ys) out =
     (case run s xs out of Inl e \<Rightarrow> Inl e | Inr (s', out') \<Rightarrow> run s' ys out')"
  by (induction xs arbitrary: s out) (auto split: sum.splits prod.splits)

lemma run_out:
  "run s bs out = (case run s bs [] of Inl e \<Rightarrow> Inl e | Inr (s', os) \<Rightarrow> Inr (s', out @ os))"
proof (induction bs arbitrary: s out)
  case Nil
  show ?case by simp
next
  case (Cons b bs)
  show ?case
  proof (cases "step s b")
    case (Inl e)
    then show ?thesis by simp
  next
    case (Inr so)
    obtain s' os where so: "so = (s', os)" by (cases so)
    have "run s' bs (out @ os) =
        (case run s' bs [] of Inl e \<Rightarrow> Inl e | Inr (s'', os') \<Rightarrow> Inr (s'', (out @ os) @ os'))"
      by (rule Cons.IH)
    moreover have "run s' bs os =
        (case run s' bs [] of Inl e \<Rightarrow> Inl e | Inr (s'', os') \<Rightarrow> Inr (s'', os @ os'))"
      by (rule Cons.IH)
    ultimately show ?thesis using Inr so by (auto split: sum.splits)
  qed
qed

lemma run_invariant:
  assumes step_inv: "\<And>s b s' os. I s \<Longrightarrow> step s b = Inr (s', os) \<Longrightarrow> I s'"
    and "I s" and "run s bs out = Inr (s', os)"
  shows "I s'"
  using assms(2,3)
proof (induction bs arbitrary: s out)
  case Nil
  then show ?case by simp
next
  case (Cons b bs)
  then show ?case by (auto split: sum.splits prod.splits intro: step_inv)
qed

end

section \<open>Transition systems\<close>

locale transition_system =
  fixes init :: "'s \<Rightarrow> bool"
    and step :: "'s \<Rightarrow> 's \<Rightarrow> bool"
    and inv :: "'s \<Rightarrow> bool"
  assumes inv_init: "init s \<Longrightarrow> inv s"
    and inv_step: "inv s \<Longrightarrow> step s t \<Longrightarrow> inv t"
begin

inductive reach :: "'s \<Rightarrow> bool" where
  reach_init: "init s \<Longrightarrow> reach s"
| reach_step: "reach s \<Longrightarrow> step s t \<Longrightarrow> reach t"

lemma reach_inv: "reach s \<Longrightarrow> inv s"
  by (induction rule: reach.induct) (auto intro: inv_init inv_step)

end

section \<open>Strictest verdict wins\<close>

text \<open>
  A judgement of a list is the strictest of the judgements of its members, under
  a rank that tells the verdicts apart.
\<close>

locale strictest_verdict =
  fixes judge :: "'a list \<Rightarrow> 'v"
    and one :: "'a \<Rightarrow> 'v"
    and rank :: "'v \<Rightarrow> nat"
  assumes rank_inj: "rank v = rank w \<Longrightarrow> v = w"
    and judge_rank: "rank (judge xs) = foldr (\<lambda>x. max (rank (one x))) xs 0"
begin

lemma foldr_max_append:
  "foldr (\<lambda>x. max (f x)) xs (n::nat) = max (foldr (\<lambda>x. max (f x)) xs 0) n"
  by (induction xs) (auto simp: max.assoc)

lemma foldr_max_le_iff: "foldr (\<lambda>x. max (f x)) xs (0::nat) \<le> n \<longleftrightarrow> (\<forall>x \<in> set xs. f x \<le> n)"
  by (induction xs) auto

lemma judge_append: "rank (judge (xs @ ys)) = max (rank (judge xs)) (rank (judge ys))"
  by (simp add: judge_rank) (rule foldr_max_append)

lemma judge_le_iff: "rank (judge xs) \<le> n \<longleftrightarrow> (\<forall>x \<in> set xs. rank (one x) \<le> n)"
  by (simp add: judge_rank foldr_max_le_iff)

lemma judge_set: "set xs = set ys \<Longrightarrow> judge xs = judge ys"
  using judge_le_iff [of xs "rank (judge ys)"] judge_le_iff [of ys "rank (judge xs)"]
    judge_le_iff [of xs "rank (judge xs)"] judge_le_iff [of ys "rank (judge ys)"]
  by (intro rank_inj antisym) auto

lemma judge_mono: "set xs \<subseteq> set ys \<Longrightarrow> rank (judge xs) \<le> rank (judge ys)"
  using judge_le_iff [of ys "rank (judge ys)"] by (auto simp: judge_le_iff)

end

end
