(* ===== verification/Lifecycle_Vocabulary.thy ===== *)
theory Lifecycle_Vocabulary
  imports Interfaces
begin

text \<open>
  The lifecycle vocabulary (leveler-lifecycle: axes.rs, workflow.rs, runtime.rs
  and the persisted enums of checkpoint.rs and findings.rs).  Every enum has its
  \<open>as_str\<close> and \<open>from_str\<close>; the interpretations of \<open>strict_wire_enum\<close> show the
  round trip and that an unknown persisted value is a named error.
\<close>

record unknown_variant =
  uv_kind :: rstr
  uv_value :: rstr

definition unknown :: "string \<Rightarrow> rstr \<Rightarrow> unknown_variant" where
  "unknown k v = \<lparr>uv_kind = lit k, uv_value = v\<rparr>"

section \<open>Collaboration axis\<close>

datatype collaboration_mode = CM_Chat | CM_Plan | CM_Goal

definition collaboration_default :: collaboration_mode where
  "collaboration_default = CM_Goal"

definition interactive_session :: collaboration_mode where
  "interactive_session = CM_Chat"

fun collaboration_as_str :: "collaboration_mode \<Rightarrow> rstr" where
  "collaboration_as_str CM_Chat = lit ''chat''"
| "collaboration_as_str CM_Plan = lit ''plan''"
| "collaboration_as_str CM_Goal = lit ''goal''"

definition collaboration_from_str :: "rstr \<Rightarrow> unknown_variant + collaboration_mode" where
  "collaboration_from_str s =
     (if s = lit ''chat'' then Inr CM_Chat
      else if s = lit ''plan'' then Inr CM_Plan
      else if s = lit ''goal'' then Inr CM_Goal
      else Inl (unknown ''collaboration mode'' s))"

section \<open>Coding workflow\<close>

datatype agent_state =
    AS_Understand | AS_Localize | AS_Plan | AS_CheckPlan | AS_Execute | AS_VerifyStep
  | AS_Repair | AS_VerifyTask | AS_Review | AS_Complete | AS_Failed | AS_Cancelled

fun agent_state_as_str :: "agent_state \<Rightarrow> rstr" where
  "agent_state_as_str AS_Understand = lit ''understand''"
| "agent_state_as_str AS_Localize = lit ''localize''"
| "agent_state_as_str AS_Plan = lit ''plan''"
| "agent_state_as_str AS_CheckPlan = lit ''check_plan''"
| "agent_state_as_str AS_Execute = lit ''execute''"
| "agent_state_as_str AS_VerifyStep = lit ''verify_step''"
| "agent_state_as_str AS_Repair = lit ''repair''"
| "agent_state_as_str AS_VerifyTask = lit ''verify_task''"
| "agent_state_as_str AS_Review = lit ''review''"
| "agent_state_as_str AS_Complete = lit ''complete''"
| "agent_state_as_str AS_Failed = lit ''failed''"
| "agent_state_as_str AS_Cancelled = lit ''cancelled''"

fun agent_state_is_terminal :: "agent_state \<Rightarrow> bool" where
  "agent_state_is_terminal AS_Complete = True"
| "agent_state_is_terminal AS_Failed = True"
| "agent_state_is_terminal AS_Cancelled = True"
| "agent_state_is_terminal _ = False"

definition agent_state_from_str :: "rstr \<Rightarrow> unknown_variant + agent_state" where
  "agent_state_from_str s =
     (if s = lit ''understand'' then Inr AS_Understand
      else if s = lit ''localize'' then Inr AS_Localize
      else if s = lit ''plan'' then Inr AS_Plan
      else if s = lit ''check_plan'' then Inr AS_CheckPlan
      else if s = lit ''execute'' then Inr AS_Execute
      else if s = lit ''verify_step'' then Inr AS_VerifyStep
      else if s = lit ''repair'' then Inr AS_Repair
      else if s = lit ''verify_task'' then Inr AS_VerifyTask
      else if s = lit ''review'' then Inr AS_Review
      else if s = lit ''complete'' then Inr AS_Complete
      else if s = lit ''failed'' then Inr AS_Failed
      else if s = lit ''cancelled'' then Inr AS_Cancelled
      else Inl (unknown ''agent state'' s))"

section \<open>Runtime lifecycle\<close>

datatype session_status =
    SS_Created | SS_Running | SS_Completed | SS_Incomplete | SS_Blocked
  | SS_Interrupted | SS_Cancelled | SS_Failed

fun session_status_as_str :: "session_status \<Rightarrow> rstr" where
  "session_status_as_str SS_Created = lit ''created''"
| "session_status_as_str SS_Running = lit ''running''"
| "session_status_as_str SS_Completed = lit ''completed''"
| "session_status_as_str SS_Incomplete = lit ''incomplete''"
| "session_status_as_str SS_Blocked = lit ''blocked''"
| "session_status_as_str SS_Interrupted = lit ''interrupted''"
| "session_status_as_str SS_Cancelled = lit ''cancelled''"
| "session_status_as_str SS_Failed = lit ''failed''"

definition session_status_from_str :: "rstr \<Rightarrow> unknown_variant + session_status" where
  "session_status_from_str s =
     (if s = lit ''created'' then Inr SS_Created
      else if s = lit ''running'' then Inr SS_Running
      else if s = lit ''completed'' then Inr SS_Completed
      else if s = lit ''incomplete'' then Inr SS_Incomplete
      else if s = lit ''blocked'' then Inr SS_Blocked
      else if s = lit ''interrupted'' then Inr SS_Interrupted
      else if s = lit ''cancelled'' \<or> s = lit ''canceled'' then Inr SS_Cancelled
      else if s = lit ''failed'' then Inr SS_Failed
      else Inl (unknown ''session status'' s))"

datatype task_outcome =
    TO_Completed | TO_Blocked | TO_BudgetLimited | TO_Failed | TO_Interrupted | TO_Cancelled

fun task_outcome_as_str :: "task_outcome \<Rightarrow> rstr" where
  "task_outcome_as_str TO_Completed = lit ''completed''"
| "task_outcome_as_str TO_Blocked = lit ''blocked''"
| "task_outcome_as_str TO_BudgetLimited = lit ''budget_limited''"
| "task_outcome_as_str TO_Failed = lit ''failed''"
| "task_outcome_as_str TO_Interrupted = lit ''interrupted''"
| "task_outcome_as_str TO_Cancelled = lit ''cancelled''"

definition task_outcome_is_completed :: "task_outcome \<Rightarrow> bool" where
  "task_outcome_is_completed t = (t = TO_Completed)"

definition task_outcome_from_str :: "rstr \<Rightarrow> unknown_variant + task_outcome" where
  "task_outcome_from_str s =
     (if s = lit ''completed'' then Inr TO_Completed
      else if s = lit ''blocked'' then Inr TO_Blocked
      else if s = lit ''budget_limited'' then Inr TO_BudgetLimited
      else if s = lit ''failed'' then Inr TO_Failed
      else if s = lit ''interrupted'' then Inr TO_Interrupted
      else if s = lit ''cancelled'' \<or> s = lit ''canceled'' then Inr TO_Cancelled
      else Inl (unknown ''task outcome'' s))"

datatype turn_outcome = TN_Completed | TN_Failed | TN_Interrupted

fun turn_outcome_as_str :: "turn_outcome \<Rightarrow> rstr" where
  "turn_outcome_as_str TN_Completed = lit ''completed''"
| "turn_outcome_as_str TN_Failed = lit ''failed''"
| "turn_outcome_as_str TN_Interrupted = lit ''interrupted''"

text \<open>The default outcome of a turn.\<close>

definition turn_outcome_default :: turn_outcome where
  "turn_outcome_default = TN_Completed"

datatype child_limit =
    CL_Duration | CL_ModelTokens | CL_Cost | CL_Commands | CL_ModifiedFiles
  | CL_RoundWindow | CL_RoundCeiling

datatype child_stop =
  CS_Completed | CS_Incomplete | CS_Budget | CS_Cancelled | CS_Failed | CS_Lost

fun child_stop_as_str :: "child_stop \<Rightarrow> rstr" where
  "child_stop_as_str CS_Completed = lit ''completed''"
| "child_stop_as_str CS_Incomplete = lit ''incomplete''"
| "child_stop_as_str CS_Budget = lit ''budget''"
| "child_stop_as_str CS_Cancelled = lit ''cancelled''"
| "child_stop_as_str CS_Failed = lit ''failed''"
| "child_stop_as_str CS_Lost = lit ''lost''"

datatype stop_reason =
    SR_Completed | SR_Answered | SR_Incomplete | SR_BudgetExhausted
  | SR_TurnLimitReached | SR_Blocked | SR_Stalled

section \<open>Checkpoint reasons\<close>

datatype checkpoint_reason =
  CR_Manual | CR_Milestone | CR_ContextCompaction | CR_Interrupted

fun checkpoint_reason_as_str :: "checkpoint_reason \<Rightarrow> rstr" where
  "checkpoint_reason_as_str CR_Manual = lit ''manual''"
| "checkpoint_reason_as_str CR_Milestone = lit ''milestone''"
| "checkpoint_reason_as_str CR_ContextCompaction = lit ''context_compaction''"
| "checkpoint_reason_as_str CR_Interrupted = lit ''interrupted''"

definition checkpoint_reason_parse :: "rstr \<Rightarrow> checkpoint_reason option" where
  "checkpoint_reason_parse s =
     (if s = lit ''manual'' then Some CR_Manual
      else if s = lit ''milestone'' then Some CR_Milestone
      else if s = lit ''context_compaction'' then Some CR_ContextCompaction
      else if s = lit ''interrupted'' then Some CR_Interrupted
      else None)"

section \<open>Finding kinds\<close>

datatype finding_kind =
    FK_RelevantFile | FK_RelevantSymbol | FK_Dependency | FK_Callsite | FK_Risk
  | FK_Test | FK_Config | FK_Observation | FK_Correctness

fun finding_kind_label :: "finding_kind \<Rightarrow> rstr" where
  "finding_kind_label FK_RelevantFile = lit ''relevant_file''"
| "finding_kind_label FK_RelevantSymbol = lit ''relevant_symbol''"
| "finding_kind_label FK_Dependency = lit ''dependency''"
| "finding_kind_label FK_Callsite = lit ''callsite''"
| "finding_kind_label FK_Risk = lit ''risk''"
| "finding_kind_label FK_Test = lit ''test''"
| "finding_kind_label FK_Config = lit ''config''"
| "finding_kind_label FK_Observation = lit ''observation''"
| "finding_kind_label FK_Correctness = lit ''correctness''"

definition finding_kind_parse :: "rstr \<Rightarrow> finding_kind option" where
  "finding_kind_parse s =
     (let t = trim s in
      if t = lit ''relevant_file'' then Some FK_RelevantFile
      else if t = lit ''relevant_symbol'' then Some FK_RelevantSymbol
      else if t = lit ''dependency'' then Some FK_Dependency
      else if t = lit ''callsite'' then Some FK_Callsite
      else if t = lit ''risk'' then Some FK_Risk
      else if t = lit ''test'' then Some FK_Test
      else if t = lit ''config'' then Some FK_Config
      else if t = lit ''observation'' then Some FK_Observation
      else if t = lit ''correctness'' then Some FK_Correctness
      else None)"

section \<open>Child result labels\<close>

datatype child_status =
  CD_CompletedWithFindings | CD_CompletedNoFindings | CD_IncompletePartial | CD_IncompleteNoResult

fun child_status_label :: "child_status \<Rightarrow> rstr" where
  "child_status_label CD_CompletedWithFindings = lit ''COMPLETED_WITH_FINDINGS''"
| "child_status_label CD_CompletedNoFindings = lit ''COMPLETED_NO_FINDINGS''"
| "child_status_label CD_IncompletePartial = lit ''INCOMPLETE_PARTIAL''"
| "child_status_label CD_IncompleteNoResult = lit ''INCOMPLETE_NO_RESULT''"

fun child_status_completed :: "child_status \<Rightarrow> bool" where
  "child_status_completed CD_CompletedWithFindings = True"
| "child_status_completed CD_CompletedNoFindings = True"
| "child_status_completed _ = False"

section \<open>The round trips\<close>

text \<open>A parser that answers \<open>Option\<close> seen through the enum interface.\<close>

definition of_option :: "'a option \<Rightarrow> unit + 'a" where
  "of_option r = (case r of None \<Rightarrow> Inl () | Some x \<Rightarrow> Inr x)"

lemma of_option_simps [simp]:
  "of_option (Some x) = Inr x" "of_option None = Inl ()"
  "of_option r = Inr y \<longleftrightarrow> r = Some y" "of_option r = Inl u \<longleftrightarrow> r = None"
  by (auto simp: of_option_def split: option.splits)

text \<open>The British and American spellings of a cancelled value.\<close>

definition canon_cancelled :: "rstr \<Rightarrow> rstr" where
  "canon_cancelled s = (if s = lit ''canceled'' then lit ''cancelled'' else s)"

interpretation collab: strict_wire_enum collaboration_as_str collaboration_from_str
    id "unknown ''collaboration mode''"
proof
  show "collaboration_from_str (collaboration_as_str x) = Inr x" for x
    by (cases x) (simp_all add: collaboration_from_str_def)
  show "id s = collaboration_as_str x" if "collaboration_from_str s = Inr x" for s x
    using that by (auto simp: collaboration_from_str_def split: if_splits)
  show "e = unknown ''collaboration mode'' s" if "collaboration_from_str s = Inl e" for s e
    using that by (auto simp: collaboration_from_str_def split: if_splits)
qed

interpretation agent_st: strict_wire_enum agent_state_as_str agent_state_from_str
    id "unknown ''agent state''"
proof
  show "agent_state_from_str (agent_state_as_str x) = Inr x" for x
    by (cases x) (simp_all add: agent_state_from_str_def)
  show "id s = agent_state_as_str x" if "agent_state_from_str s = Inr x" for s x
    using that by (auto simp: agent_state_from_str_def split: if_splits)
  show "e = unknown ''agent state'' s" if "agent_state_from_str s = Inl e" for s e
    using that by (auto simp: agent_state_from_str_def split: if_splits)
qed

interpretation session_st: strict_wire_enum session_status_as_str session_status_from_str
    canon_cancelled "unknown ''session status''"
proof
  show "session_status_from_str (session_status_as_str x) = Inr x" for x
    by (cases x) (simp_all add: session_status_from_str_def)
  show "canon_cancelled s = session_status_as_str x" if "session_status_from_str s = Inr x" for s x
    using that by (auto simp: session_status_from_str_def canon_cancelled_def split: if_splits)
  show "e = unknown ''session status'' s" if "session_status_from_str s = Inl e" for s e
    using that by (auto simp: session_status_from_str_def split: if_splits)
qed

interpretation task_out: strict_wire_enum task_outcome_as_str task_outcome_from_str
    canon_cancelled "unknown ''task outcome''"
proof
  show "task_outcome_from_str (task_outcome_as_str x) = Inr x" for x
    by (cases x) (simp_all add: task_outcome_from_str_def)
  show "canon_cancelled s = task_outcome_as_str x" if "task_outcome_from_str s = Inr x" for s x
    using that by (auto simp: task_outcome_from_str_def canon_cancelled_def split: if_splits)
  show "e = unknown ''task outcome'' s" if "task_outcome_from_str s = Inl e" for s e
    using that by (auto simp: task_outcome_from_str_def split: if_splits)
qed

interpretation ckpt_reason: strict_wire_enum checkpoint_reason_as_str
    "\<lambda>s. of_option (checkpoint_reason_parse s)" id "\<lambda>_. ()"
proof
  show "of_option (checkpoint_reason_parse (checkpoint_reason_as_str x)) = Inr x" for x
    by (cases x) (simp_all add: checkpoint_reason_parse_def)
  show "id s = checkpoint_reason_as_str x" if "of_option (checkpoint_reason_parse s) = Inr x" for s x
    using that by (auto simp: checkpoint_reason_parse_def split: if_splits)
qed simp

lemma finding_kind_label_trim: "trim (finding_kind_label k) = finding_kind_label k"
  by (rule trim_ascii_word; cases k; simp add: lit_def is_whitespace_def)

interpretation finding_k: strict_wire_enum finding_kind_label
    "\<lambda>s. of_option (finding_kind_parse s)" trim "\<lambda>_. ()"
proof
  show "of_option (finding_kind_parse (finding_kind_label x)) = Inr x" for x
    unfolding finding_kind_parse_def finding_kind_label_trim
    by (cases x) (simp_all add: Let_def)
  show "trim s = finding_kind_label x" if "of_option (finding_kind_parse s) = Inr x" for s x
    using that by (auto simp: finding_kind_parse_def Let_def split: if_splits)
qed simp

section \<open>Properties\<close>

text \<open>Persisted lifecycle values are read strictly.  A session status that
  decodes came from its own spelling (or the American spelling of
  \<open>cancelled\<close>), every status decodes from its own spelling, two different
  statuses never share one, and a value that is no status's spelling is an
  error naming the kind and the offending text, never a default.\<close>

theorem session_status_strict:
  "(session_status_from_str s = Inr x \<longleftrightarrow> canon_cancelled s = session_status_as_str x)
   \<and> (session_status_as_str x = session_status_as_str y \<longleftrightarrow> x = y)
   \<and> ((\<forall>z. canon_cancelled s \<noteq> session_status_as_str z)
        \<longleftrightarrow> session_status_from_str s = Inl \<lparr>uv_kind = lit ''session status'', uv_value = s\<rparr>)"
proof -
  have same: "session_status_from_str s = session_status_from_str (canon_cancelled s)"
    if "session_status_from_str (canon_cancelled s) = Inr z" for z
  proof (cases "s = lit ''canceled''")
    case True
    then show ?thesis by (simp add: session_status_from_str_def canon_cancelled_def)
  next
    case False
    then show ?thesis by (simp add: canon_cancelled_def)
  qed
  have dec: "session_status_from_str s = Inr z \<longleftrightarrow> canon_cancelled s = session_status_as_str z" for z
    using session_st.from_canon session_st.from_as same by metis
  have err: "(\<forall>z. canon_cancelled s \<noteq> session_status_as_str z)
      \<longleftrightarrow> session_status_from_str s = Inl (unknown ''session status'' s)"
    using session_st.unknown_is_error [of s] dec by (metis sum.distinct(1))
  show ?thesis using dec err session_st.as_str_inject by (simp add: unknown_def)
qed

end
