(* ===== verification/Lifecycle_State.thy ===== *)
theory Lifecycle_State
  imports Lifecycle_Vocabulary
begin

text \<open>
  The lifecycle records of leveler-lifecycle and their operations: the declared
  plan (plan.rs), the progress ledger of a task epoch (progress.rs), the
  evidence ledger with its findings (ledger.rs, findings.rs) and the objective
  anchor (objective.rs).  Counters are naturals with the saturation and the
  truncating casts of the source written out.
\<close>

section \<open>The declared plan\<close>

datatype plan_origin = ModelExplicit | HostImplicit

record plan_step =
  ps_step :: rstr
  ps_status :: rstr
  ps_id :: "rstr option"
  ps_origin :: plan_origin

definition ABANDONED :: rstr where
  "ABANDONED = lit ''abandoned''"

definition is_closed :: "rstr \<Rightarrow> bool" where
  "is_closed status \<longleftrightarrow> status = lit ''completed'' \<or> status = ABANDONED"

record plan_state =
  pl_steps :: "plan_step list"

definition plan_is_empty :: "plan_state \<Rightarrow> bool" where
  "plan_is_empty p = (pl_steps p = [])"

definition plan_get_origin :: "plan_state \<Rightarrow> plan_origin option" where
  "plan_get_origin p =
     (case pl_steps p of
        [] \<Rightarrow> None
      | s # _ \<Rightarrow> if list_all (\<lambda>t. ps_origin t = ps_origin s) (pl_steps p)
                then Some (ps_origin s) else None)"

definition is_host_implicit :: "plan_state \<Rightarrow> bool" where
  "is_host_implicit p = (plan_get_origin p = Some HostImplicit)"

definition is_model_explicit :: "plan_state \<Rightarrow> bool" where
  "is_model_explicit p = (plan_get_origin p = Some ModelExplicit)"

definition is_fully_completed :: "plan_state \<Rightarrow> bool" where
  "is_fully_completed p \<longleftrightarrow>
     pl_steps p \<noteq> [] \<and> list_all (\<lambda>s. ps_status s = lit ''completed'') (pl_steps p)"

definition open_steps :: "plan_state \<Rightarrow> plan_step list" where
  "open_steps p = filter (\<lambda>s. \<not> is_closed (ps_status s)) (pl_steps p)"

text \<open>The step text is capped at 200 characters with U+2026 appended.\<close>

definition host_implicit_single_step :: "rstr \<Rightarrow> plan_state" where
  "host_implicit_single_step task =
     (let txt = trim task;
          s = (if txt = [] then lit ''Complete the goal''
               else take 200 txt @ (if length txt > 200 then [8230] else []))
      in \<lparr>pl_steps = [\<lparr>ps_step = s, ps_status = lit ''in_progress'',
             ps_id = Some (lit ''host-implicit-0''), ps_origin = HostImplicit\<rparr>]\<rparr>)"

definition mark_all_completed :: "plan_state \<Rightarrow> plan_state" where
  "mark_all_completed p =
     p\<lparr>pl_steps := map (\<lambda>s. s\<lparr>ps_status := lit ''completed''\<rparr>) (pl_steps p)\<rparr>"

definition from_model_explicit :: "plan_step list \<Rightarrow> rstr + plan_state" where
  "from_model_explicit steps =
     (if steps = [] then Inl (lit ''plan must have at least one step'')
      else Inr \<lparr>pl_steps = map (\<lambda>s. s\<lparr>ps_origin := ModelExplicit\<rparr>) steps\<rparr>)"

section \<open>The progress ledger\<close>

datatype turn_phase =
  TP_Active | TP_AwaitingModel | TP_ToolBatch | TP_Closing | TP_AwaitingUser | TP_Closed

record progress_caps =
  no_progress_rounds :: nat

definition progress_caps_default :: progress_caps where
  "progress_caps_default = \<lparr>no_progress_rounds = 2\<rparr>"

record progress_ledger =
  budget_scope :: "rstr option"
  has_unpriced_model_attempt :: bool
  round_no :: nat
  last_progress_round :: nat
  no_progress_streak :: nat
  closing :: bool
  phase :: turn_phase
  objective_version :: nat
  cumulative_model_steps :: nat
  cumulative_model_tokens :: nat
  cumulative_estimated_model_tokens :: nat
  cumulative_commands :: nat
  cumulative_cost_usd_micros :: nat
  cumulative_duration_ms :: nat
  cumulative_modified_files :: nat
  cumulative_modified_paths :: "rstr list"
  scoped_rule_sources :: "rstr list"
  outstanding_children :: "rstr list"
  children_spawned_total :: nat
  denied_network :: bool
  denied_unrestricted_fs :: bool

definition progress_default :: progress_ledger where
  "progress_default =
     \<lparr>budget_scope = None, has_unpriced_model_attempt = False, round_no = 0,
      last_progress_round = 0, no_progress_streak = 0, closing = False, phase = TP_Active,
      objective_version = 0, cumulative_model_steps = 0, cumulative_model_tokens = 0,
      cumulative_estimated_model_tokens = 0, cumulative_commands = 0,
      cumulative_cost_usd_micros = 0, cumulative_duration_ms = 0,
      cumulative_modified_files = 0, cumulative_modified_paths = [],
      scoped_rule_sources = [], outstanding_children = [], children_spawned_total = 0,
      denied_network = False, denied_unrestricted_fs = False\<rparr>"

definition with_objective_version :: "nat \<Rightarrow> progress_ledger \<Rightarrow> progress_ledger" where
  "with_objective_version v l = l\<lparr>objective_version := v\<rparr>"

definition is_terminal_for_inheritance :: "progress_ledger \<Rightarrow> bool" where
  "is_terminal_for_inheritance l \<longleftrightarrow>
     closing l \<or> phase l = TP_Closing \<or> phase l = TP_Closed"

definition enter_closing :: "progress_ledger \<Rightarrow> progress_ledger" where
  "enter_closing l = l\<lparr>closing := True, phase := TP_Closing\<rparr>"

definition enter_closed :: "progress_ledger \<Rightarrow> progress_ledger" where
  "enter_closed l = l\<lparr>closing := True, phase := TP_Closed\<rparr>"

definition accumulate_drive_model_steps :: "nat \<Rightarrow> progress_ledger \<Rightarrow> progress_ledger" where
  "accumulate_drive_model_steps n l =
     l\<lparr>cumulative_model_steps := sat_add32 (cumulative_model_steps l) n\<rparr>"

definition set_epoch_spend ::
  "nat \<Rightarrow> nat \<Rightarrow> nat \<Rightarrow> nat \<Rightarrow> nat \<Rightarrow> nat \<Rightarrow> nat \<Rightarrow> progress_ledger \<Rightarrow> progress_ledger" where
  "set_epoch_spend steps tokens estimated commands cost duration modified l =
     l\<lparr>cumulative_model_steps := steps, cumulative_model_tokens := tokens,
       cumulative_estimated_model_tokens := estimated, cumulative_commands := commands,
       cumulative_cost_usd_micros := cost, cumulative_duration_ms := duration,
       cumulative_modified_files := modified\<rparr>"

fun merge_paths :: "rstr list \<Rightarrow> rstr list \<Rightarrow> rstr list" where
  "merge_paths known [] = known"
| "merge_paths known (p # ps) =
     (if p = [] \<or> p \<in> set known then merge_paths known ps
      else merge_paths (known @ [p]) ps)"

text \<open>The count is \<open>len() as u32\<close>.\<close>

definition merge_modified_paths :: "rstr list \<Rightarrow> progress_ledger \<Rightarrow> progress_ledger" where
  "merge_modified_paths paths l =
     (let merged = merge_paths (cumulative_modified_paths l) paths
      in l\<lparr>cumulative_modified_paths := merged,
           cumulative_modified_files := length merged mod 2 ^ 32\<rparr>)"

definition absorb_child_work :: "progress_ledger \<Rightarrow> progress_ledger \<Rightarrow> progress_ledger" where
  "absorb_child_work child l =
     merge_modified_paths (cumulative_modified_paths child)
       (l\<lparr>has_unpriced_model_attempt :=
            (has_unpriced_model_attempt l \<or> has_unpriced_model_attempt child),
          cumulative_model_steps :=
            sat_add32 (cumulative_model_steps l) (cumulative_model_steps child),
          cumulative_commands := sat_add32 (cumulative_commands l) (cumulative_commands child)\<rparr>)"

definition absorb_request_spend :: "nat \<Rightarrow> nat \<Rightarrow> nat \<Rightarrow> progress_ledger \<Rightarrow> progress_ledger" where
  "absorb_request_spend reported estimated cost l =
     l\<lparr>cumulative_model_tokens :=
         sat_add64 (sat_add64 (cumulative_model_tokens l) reported) estimated,
       cumulative_estimated_model_tokens :=
         sat_add64 (cumulative_estimated_model_tokens l) estimated,
       cumulative_cost_usd_micros := sat_add64 (cumulative_cost_usd_micros l) cost\<rparr>"

text \<open>\<open>sync_epoch_progress\<close> of the drive: the epoch's paths are merged, then the
  absolute totals written with the merged count.  The duration is the clock's.\<close>

definition sync_epoch_progress ::
  "nat \<Rightarrow> nat \<Rightarrow> nat \<Rightarrow> nat \<Rightarrow> nat \<Rightarrow> nat \<Rightarrow> nat \<Rightarrow> rstr list \<Rightarrow> progress_ledger \<Rightarrow> progress_ledger"
  where
  "sync_epoch_progress steps_at_start duration steps tokens estimated commands cost modified l =
     (let l1 = merge_modified_paths modified l
      in set_epoch_spend (sat_add32 steps_at_start steps) tokens estimated commands cost duration
           (cumulative_modified_files l1) l1)"

definition new_context_epoch :: progress_ledger where
  "new_context_epoch = enter_closed progress_default"

definition note_progress :: "nat \<Rightarrow> progress_ledger \<Rightarrow> progress_ledger" where
  "note_progress r l = l\<lparr>round_no := r, last_progress_round := r, no_progress_streak := 0\<rparr>"

definition note_no_progress_round :: "nat \<Rightarrow> progress_ledger \<Rightarrow> progress_ledger" where
  "note_no_progress_round r l =
     l\<lparr>round_no := r, no_progress_streak := sat_add32 (no_progress_streak l) 1\<rparr>"

definition should_hard_stop_no_progress :: "progress_caps \<Rightarrow> progress_ledger \<Rightarrow> bool" where
  "should_hard_stop_no_progress caps l \<longleftrightarrow> no_progress_streak l \<ge> no_progress_rounds caps"

definition record_human_denial :: "bool \<Rightarrow> bool \<Rightarrow> progress_ledger \<Rightarrow> progress_ledger" where
  "record_human_denial network unrestricted_fs l =
     (let l1 = (if network then l\<lparr>denied_network := True\<rparr> else l)
      in if unrestricted_fs then l1\<lparr>denied_unrestricted_fs := True\<rparr> else l1)"

definition human_boundary_seen :: "progress_ledger \<Rightarrow> bool" where
  "human_boundary_seen l \<longleftrightarrow> denied_network l \<or> denied_unrestricted_fs l"

definition covers_denied_request :: "bool \<Rightarrow> bool \<Rightarrow> progress_ledger \<Rightarrow> bool" where
  "covers_denied_request network unrestricted_fs l \<longleftrightarrow>
     (network \<and> denied_network l) \<or> (unrestricted_fs \<and> denied_unrestricted_fs l)"

section \<open>The evidence ledger\<close>

record finding_record =
  fr_id :: rstr
  fr_source_child :: rstr
  fr_role :: rstr
  fr_kind :: finding_kind
  fr_summary :: rstr
  fr_file :: "rstr option"
  fr_symbol :: "rstr option"

record mutation_record =
  mu_seq :: nat
  mu_tool_call_id :: rstr
  mu_tool :: rstr
  mu_paths :: "rstr list"

record intercept_record =
  in_kind :: rstr
  in_detail :: rstr

record evidence_ledger =
  el_plan :: plan_state
  el_mutations :: "mutation_record list"
  el_intercepts :: "intercept_record list"
  el_next_seq :: nat
  el_total_mutation_ops :: nat
  el_last_mutation_op_seq :: nat
  el_findings :: "finding_record list"
  el_next_finding_seq :: nat

definition evidence_default :: evidence_ledger where
  "evidence_default =
     \<lparr>el_plan = \<lparr>pl_steps = []\<rparr>, el_mutations = [], el_intercepts = [], el_next_seq = 0,
      el_total_mutation_ops = 0, el_last_mutation_op_seq = 0, el_findings = [],
      el_next_finding_seq = 0\<rparr>"

definition note_mutation_op :: "evidence_ledger \<Rightarrow> evidence_ledger" where
  "note_mutation_op l =
     (let n = sat_add64 (el_next_seq l) 1
      in l\<lparr>el_total_mutation_ops := sat_add64 (el_total_mutation_ops l) 1,
           el_next_seq := n, el_last_mutation_op_seq := n\<rparr>)"

definition last_mutation_seq :: "evidence_ledger \<Rightarrow> nat" where
  "last_mutation_seq l =
     max (if el_mutations l = [] then 0 else mu_seq (last (el_mutations l)))
         (el_last_mutation_op_seq l)"

definition record_mutation ::
  "rstr \<Rightarrow> rstr \<Rightarrow> rstr list \<Rightarrow> evidence_ledger \<Rightarrow> evidence_ledger" where
  "record_mutation tool_call_id tool paths l =
     (let n = sat_add64 (el_next_seq l) 1
      in l\<lparr>el_next_seq := n,
           el_mutations := el_mutations l @
             [\<lparr>mu_seq = n, mu_tool_call_id = tool_call_id, mu_tool = tool, mu_paths = paths\<rparr>]\<rparr>)"

definition record_intercept :: "rstr \<Rightarrow> rstr \<Rightarrow> evidence_ledger \<Rightarrow> evidence_ledger" where
  "record_intercept kind detail l =
     l\<lparr>el_intercepts := el_intercepts l @ [\<lparr>in_kind = kind, in_detail = detail\<rparr>]\<rparr>"

definition finding_id :: "nat \<Rightarrow> rstr" where
  "finding_id n = lit ''f-'' @ show_nat n"

definition record_finding ::
  "finding_kind \<Rightarrow> rstr \<Rightarrow> rstr option \<Rightarrow> rstr option \<Rightarrow> evidence_ledger \<Rightarrow> evidence_ledger \<times> rstr"
  where
  "record_finding kind summary fl symb l =
     (let n = sat_add64 (el_next_finding_seq l) 1
      in (l\<lparr>el_next_finding_seq := n,
            el_findings := el_findings l @
              [\<lparr>fr_id = finding_id n, fr_source_child = [], fr_role = [], fr_kind = kind,
                fr_summary = summary, fr_file = fl, fr_symbol = symb\<rparr>]\<rparr>,
          finding_id n))"

definition adopt_finding ::
  "rstr \<Rightarrow> rstr \<Rightarrow> finding_record \<Rightarrow> evidence_ledger \<Rightarrow> evidence_ledger \<times> rstr" where
  "adopt_finding source_child role rec l =
     (let n = sat_add64 (el_next_finding_seq l) 1
      in (l\<lparr>el_next_finding_seq := n,
            el_findings := el_findings l @
              [rec\<lparr>fr_id := finding_id n, fr_source_child := source_child, fr_role := role\<rparr>]\<rparr>,
          finding_id n))"

definition get_finding :: "rstr \<Rightarrow> evidence_ledger \<Rightarrow> finding_record option" where
  "get_finding i l = find (\<lambda>f. fr_id f = i) (el_findings l)"

section \<open>Child result projections\<close>

record child_result_projection =
  cr_child_id :: rstr
  cr_role :: rstr
  cr_profile_id :: "rstr option"
  cr_profile_role :: "rstr option"
  cr_read_only :: bool
  cr_findings_total :: nat

definition child_result_from_findings ::
  "rstr \<Rightarrow> rstr \<Rightarrow> finding_record list \<Rightarrow> child_result_projection" where
  "child_result_from_findings child_id role findings =
     \<lparr>cr_child_id = child_id, cr_role = role, cr_profile_id = None, cr_profile_role = None,
      cr_read_only = False,
      cr_findings_total = length (filter (\<lambda>f. fr_source_child f = child_id) findings) mod 2 ^ 32\<rparr>"

definition child_result_with_profile ::
  "rstr \<Rightarrow> rstr \<Rightarrow> bool \<Rightarrow> child_result_projection \<Rightarrow> child_result_projection" where
  "child_result_with_profile profile_id profile_role read_only c =
     c\<lparr>cr_profile_id := Some profile_id, cr_profile_role := Some profile_role,
       cr_read_only := read_only\<rparr>"

section \<open>The objective anchor\<close>

datatype objective_source = ThisTurnUser | SessionGoal | ContinueActive

record objective_anchor =
  oa_text :: rstr
  oa_version :: nat
  oa_source :: objective_source
  oa_primary :: "rstr option"
  oa_amendments :: "rstr list"

definition objective_new :: "rstr \<Rightarrow> objective_source \<Rightarrow> objective_anchor" where
  "objective_new txt source =
     \<lparr>oa_text = txt, oa_version = 1, oa_source = source, oa_primary = Some txt, oa_amendments = []\<rparr>"

definition from_user_message :: "rstr \<Rightarrow> objective_anchor" where
  "from_user_message txt = objective_new txt ThisTurnUser"

definition from_session_goal :: "rstr \<Rightarrow> objective_anchor" where
  "from_session_goal txt = objective_new txt SessionGoal"

definition objective_is_empty :: "objective_anchor \<Rightarrow> bool" where
  "objective_is_empty a = (trim (oa_text a) = [])"

definition latest_instruction :: "objective_anchor \<Rightarrow> rstr" where
  "latest_instruction a =
     (if oa_amendments a \<noteq> [] \<and> trim (last (oa_amendments a)) \<noteq> [] then last (oa_amendments a)
      else (case oa_primary a of
              Some p \<Rightarrow> if trim p \<noteq> [] then p else oa_text a
            | None \<Rightarrow> oa_text a))"

definition amend :: "rstr \<Rightarrow> objective_anchor \<Rightarrow> objective_anchor" where
  "amend amendment a =
     (let t = trim amendment
      in if t = [] \<or> t \<in> set (oa_amendments a) then a
         else a\<lparr>oa_primary := (case oa_primary a of None \<Rightarrow> Some (oa_text a) | Some p \<Rightarrow> Some p),
                oa_amendments := oa_amendments a @ [t],
                oa_version := sat_add32 (oa_version a) 1,
                oa_text := oa_text a @ [10, 10] @ lit ''Continuation amendment:'' @ [10] @ t\<rparr>)"

end
