(* ===== verification/Lifecycle_State_Correct.thy ===== *)
theory Lifecycle_State_Correct
  imports Lifecycle_State "HOL-Library.Multiset"
begin

text \<open>
  What the lifecycle records promise: spend is counted once and in any order,
  the invariants of a task epoch hold in every reachable ledger, a human denial
  is never forgotten within it, finding ids are fresh and the evidence sequence
  moves on every change, and an amendment becomes the latest instruction.
\<close>

section \<open>Spend\<close>

type_synonym spend = "nat \<times> nat \<times> nat"

definition absorb_spend :: "spend \<Rightarrow> progress_ledger \<Rightarrow> progress_ledger" where
  "absorb_spend r l = (case r of (reported, estimated, cost) \<Rightarrow>
     absorb_request_spend reported estimated cost l)"

definition spend_bounded :: "progress_ledger \<Rightarrow> bool" where
  "spend_bounded l \<longleftrightarrow>
     cumulative_model_tokens l \<le> u64_max \<and> cumulative_estimated_model_tokens l \<le> u64_max
     \<and> cumulative_cost_usd_micros l \<le> u64_max"

lemma sat_add_cap: "sat_add m (min m a) b = min m (a + b)"
  by (simp add: sat_add_def)

lemma absorb_spend_closed_form:
  assumes "spend_bounded l"
  shows "fold absorb_spend rs l =
    l\<lparr>cumulative_model_tokens :=
        min u64_max (cumulative_model_tokens l + (\<Sum>(r, e, c) \<leftarrow> rs. r + e)),
      cumulative_estimated_model_tokens :=
        min u64_max (cumulative_estimated_model_tokens l + (\<Sum>(r, e, c) \<leftarrow> rs. e)),
      cumulative_cost_usd_micros :=
        min u64_max (cumulative_cost_usd_micros l + (\<Sum>(r, e, c) \<leftarrow> rs. c))\<rparr>"
  using assms
proof (induction rs arbitrary: l)
  case Nil
  then show ?case by (simp add: spend_bounded_def)
next
  case (Cons x rs)
  obtain r e c where x: "x = (r, e, c)" by (cases x)
  have "spend_bounded (absorb_spend x l)"
    by (simp add: spend_bounded_def x absorb_spend_def absorb_request_spend_def)
  note IH = Cons.IH [OF this]
  have min_min: "min u64_max (min u64_max a + b) = min u64_max (a + b)" for a b :: nat by simp
  show ?case
    by (simp add: IH) (simp add: x absorb_spend_def absorb_request_spend_def sat_add_def
        min_min add.assoc add.commute add.left_commute)
qed

text \<open>The epoch's spend is a function of which requests were made.  However
  the finalized requests of a task (the root's, its children's, the reviewer's)
  interleave, folding them leaves the same ledger: tokens, estimated tokens
  and cost are the sums of the requests, capped at \<open>u64::MAX\<close>, and no other field
  moves.\<close>

theorem spend_order_irrelevant:
  assumes "spend_bounded l" and "mset rs = mset rs'"
  shows "fold absorb_spend rs l = fold absorb_spend rs' l
    \<and> cumulative_model_tokens (fold absorb_spend rs l)
        = min u64_max (cumulative_model_tokens l + (\<Sum>(r, e, c) \<leftarrow> rs. r + e))"
proof -
  have sums: "(\<Sum>x \<leftarrow> rs. f x) = (\<Sum>x \<leftarrow> rs'. f x)" for f :: "spend \<Rightarrow> nat"
    using assms(2) by (metis mset_map sum_mset_sum_list)
  show ?thesis
    by (simp only: absorb_spend_closed_form [OF assms(1)] sums) simp
qed

theorem spend_order_irrelevant_witness:
  "fold absorb_spend [(10, 0, 3), (0, 7, 1)] progress_default
     = fold absorb_spend [(0, 7, 1), (10, 0, 3)] progress_default
   \<and> cumulative_model_tokens (fold absorb_spend [(10, 0, 3), (0, 7, 1)] progress_default) = 17"
proof -
  have b: "spend_bounded progress_default" by (simp add: spend_bounded_def progress_default_def)
  have m: "mset [(10, 0, 3), (0, 7, 1)] = mset [(0, 7, 1), (10, 0, 3 :: nat)]" by simp
  have v: "min u64_max (cumulative_model_tokens progress_default +
      (\<Sum>(r, e, c) \<leftarrow> [(10, 0, 3), (0, 7, 1 :: nat)]. r + e)) = 17"
    by (simp add: progress_default_def u64_max_def)
  show ?thesis using spend_order_irrelevant [OF b m] unfolding v .
qed

section \<open>The modified-path set\<close>

lemma merge_paths_set: "set (merge_paths known ps) = set known \<union> (set ps - {[]})"
  by (induction known ps rule: merge_paths.induct) auto

lemma merge_paths_distinct: "distinct known \<Longrightarrow> distinct (merge_paths known ps)"
  by (induction known ps rule: merge_paths.induct) auto

lemma merge_paths_prefix: "\<exists>new. merge_paths known ps = known @ new"
  by (induction known ps rule: merge_paths.induct) auto

lemma merge_paths_subset: "set ps \<subseteq> insert [] (set known) \<Longrightarrow> merge_paths known ps = known"
  by (induction known ps rule: merge_paths.induct) auto

section \<open>Reachable epoch ledgers\<close>

text \<open>One step of an epoch ledger: any operation of the drive.  A child's ledger is
  itself well formed, and an absolute total written at a flush counts its
  estimated share inside the token total.\<close>

definition epoch_ok :: "progress_ledger \<Rightarrow> bool" where
  "epoch_ok l \<longleftrightarrow>
     distinct (cumulative_modified_paths l) \<and> [] \<notin> set (cumulative_modified_paths l)
     \<and> cumulative_modified_files l = length (cumulative_modified_paths l) mod 2 ^ 32
     \<and> cumulative_estimated_model_tokens l \<le> cumulative_model_tokens l
     \<and> spend_bounded l
     \<and> cumulative_model_steps l \<le> u32_max \<and> cumulative_commands l \<le> u32_max
     \<and> no_progress_streak l \<le> u32_max"

inductive progress_step :: "progress_ledger \<Rightarrow> progress_ledger \<Rightarrow> bool" where
  step_closing: "progress_step l (enter_closing l)"
| step_closed: "progress_step l (enter_closed l)"
| step_version: "progress_step l (with_objective_version v l)"
| step_model_steps: "progress_step l (accumulate_drive_model_steps n l)"
| step_paths: "progress_step l (merge_modified_paths ps l)"
| step_child: "epoch_ok child \<Longrightarrow> progress_step l (absorb_child_work child l)"
| step_request: "progress_step l (absorb_request_spend r e c l)"
| step_progress: "progress_step l (note_progress n l)"
| step_no_progress: "progress_step l (note_no_progress_round n l)"
| step_denial: "progress_step l (record_human_denial net fs l)"
| step_flush:
    "e \<le> t \<Longrightarrow> t \<le> u64_max \<Longrightarrow> c \<le> u64_max \<Longrightarrow> cmds \<le> u32_max \<Longrightarrow>
     progress_step l (sync_epoch_progress s0 d s t e cmds c ps l)"

definition fresh_epoch :: "progress_ledger \<Rightarrow> bool" where
  "fresh_epoch l \<longleftrightarrow> l = progress_default \<or> l = new_context_epoch"

lemma epoch_ok_default: "epoch_ok progress_default"
  by (simp add: epoch_ok_def spend_bounded_def progress_default_def)

lemma epoch_ok_merge: "epoch_ok l \<Longrightarrow> epoch_ok (merge_modified_paths ps l)"
  by (simp add: epoch_ok_def spend_bounded_def merge_modified_paths_def Let_def
      merge_paths_distinct merge_paths_set)

lemma epoch_ok_step:
  assumes "epoch_ok l" and "progress_step l l'"
  shows "epoch_ok l'"
  using assms(2,1)
proof cases
  case step_closing
  with assms(1) show ?thesis by (simp add: epoch_ok_def spend_bounded_def enter_closing_def)
next
  case step_closed
  with assms(1) show ?thesis by (simp add: epoch_ok_def spend_bounded_def enter_closed_def)
next
  case step_version
  with assms(1) show ?thesis by (simp add: epoch_ok_def spend_bounded_def with_objective_version_def)
next
  case step_model_steps
  with assms(1) show ?thesis
    by (simp add: epoch_ok_def spend_bounded_def accumulate_drive_model_steps_def)
next
  case step_paths
  with assms(1) show ?thesis by (simp add: epoch_ok_merge)
next
  case (step_child child)
  show ?thesis
    unfolding step_child(1) absorb_child_work_def
    by (rule epoch_ok_merge) (use assms(1) in \<open>simp add: epoch_ok_def spend_bounded_def\<close>)
next
  case step_request
  with assms(1) show ?thesis
    by (auto simp: epoch_ok_def spend_bounded_def absorb_request_spend_def sat_add_def)
next
  case step_progress
  with assms(1) show ?thesis by (simp add: epoch_ok_def spend_bounded_def note_progress_def)
next
  case step_no_progress
  with assms(1) show ?thesis by (simp add: epoch_ok_def spend_bounded_def note_no_progress_round_def)
next
  case step_denial
  with assms(1) show ?thesis
    by (auto simp: epoch_ok_def spend_bounded_def record_human_denial_def Let_def)
next
  case step_flush
  have "epoch_ok (merge_modified_paths ps l)" for ps using assms(1) by (rule epoch_ok_merge)
  with step_flush show ?thesis
    by (simp add: epoch_ok_def spend_bounded_def sync_epoch_progress_def set_epoch_spend_def Let_def)
qed

interpretation epoch: transition_system fresh_epoch progress_step epoch_ok
proof
  show "epoch_ok s" if "fresh_epoch s" for s
    using that epoch_ok_default
    by (auto simp: fresh_epoch_def new_context_epoch_def enter_closed_def epoch_ok_def spend_bounded_def)
  show "epoch_ok t" if "epoch_ok s" "progress_step s t" for s t
    using that by (rule epoch_ok_step)
qed

text \<open>
  In every ledger an epoch can reach, the modified paths are distinct and
  non-empty names and their count is the number of them (as a \<open>u32\<close>), so
  re-editing a file never inflates the file budget; the estimated share is
  inside the token total, so subtracting it cannot underflow; and the counters
  stay in their machine range.\<close>

theorem epoch_ledger_invariant:
  assumes "epoch.reach l"
  shows "distinct (cumulative_modified_paths l) \<and> [] \<notin> set (cumulative_modified_paths l)
    \<and> cumulative_modified_files l = length (cumulative_modified_paths l) mod 2 ^ 32
    \<and> cumulative_estimated_model_tokens l \<le> cumulative_model_tokens l
    \<and> cumulative_model_tokens l \<le> u64_max \<and> cumulative_model_steps l \<le> u32_max"
  using epoch.reach_inv [OF assms] by (simp add: epoch_ok_def spend_bounded_def)

lemma reach_two_merges:
  "epoch.reach (merge_modified_paths ps (merge_modified_paths qs progress_default))"
proof -
  have "epoch.reach progress_default" by (rule epoch.reach_init) (simp add: fresh_epoch_def)
  then have "epoch.reach (merge_modified_paths qs progress_default)"
    by (rule epoch.reach_step) (rule step_paths)
  then show ?thesis by (rule epoch.reach_step) (rule step_paths)
qed

theorem epoch_ledger_invariant_witness:
  "cumulative_modified_files
     (merge_modified_paths [lit ''b'', lit ''a''] (merge_modified_paths [lit ''a'', []] progress_default)) = 2
   \<and> distinct (cumulative_modified_paths
     (merge_modified_paths [lit ''b'', lit ''a''] (merge_modified_paths [lit ''a'', []] progress_default)))"
proof -
  let ?l = "merge_modified_paths [lit ''b'', lit ''a''] (merge_modified_paths [lit ''a'', []] progress_default)"
  have "length (cumulative_modified_paths ?l) = 2"
    by (simp add: merge_modified_paths_def Let_def progress_default_def)
  with epoch_ledger_invariant [OF reach_two_merges, of "[lit ''b'', lit ''a'']" "[lit ''a'', []]"]
  show ?thesis by simp
qed

section \<open>Denials\<close>

lemma denial_step:
  "progress_step l l' \<Longrightarrow> covers_denied_request net fs l \<Longrightarrow> covers_denied_request net fs l'"
  by (induction rule: progress_step.induct)
    (auto simp: covers_denied_request_def enter_closing_def enter_closed_def with_objective_version_def
      accumulate_drive_model_steps_def merge_modified_paths_def absorb_child_work_def
      absorb_request_spend_def note_progress_def note_no_progress_round_def
      record_human_denial_def sync_epoch_progress_def set_epoch_spend_def Let_def)

text \<open>What the user has refused stays refused.  After a human denial of a
  capability, every request that includes it is recognised as already denied in
  every later ledger of the epoch, whatever the drive does in between, and so
  is every wider request.\<close>

theorem denial_sticks:
  assumes "progress_step\<^sup>*\<^sup>* (record_human_denial net fs l) l'"
    and "(net \<and> net') \<or> (fs \<and> fs')"
  shows "covers_denied_request net' fs' l' \<and> human_boundary_seen l'"
proof -
  have "covers_denied_request net' fs' (record_human_denial net fs l)"
    using assms(2) by (auto simp: covers_denied_request_def record_human_denial_def Let_def)
  with assms(1) have "covers_denied_request net' fs' l'"
    by (induction rule: rtranclp_induct) (auto intro: denial_step)
  then show ?thesis by (auto simp: covers_denied_request_def human_boundary_seen_def)
qed

theorem denial_sticks_witness:
  "covers_denied_request True True
     (enter_closing (note_progress 4 (record_human_denial True False progress_default)))"
proof -
  let ?d = "record_human_denial True False progress_default"
  have "progress_step\<^sup>*\<^sup>* ?d (enter_closing (note_progress 4 ?d))"
    by (rule rtranclp.rtrancl_into_rtrancl [OF rtranclp.rtrancl_into_rtrancl [OF rtranclp.rtrancl_refl]])
      (rule step_progress step_closing)+
  from denial_sticks [OF this, of True True] show ?thesis by simp
qed

section \<open>The no-progress watchdog\<close>

lemma note_no_progress_streak:
  "no_progress_streak l \<le> u32_max \<Longrightarrow>
   no_progress_streak (fold note_no_progress_round rs l) = min u32_max (no_progress_streak l + length rs)"
proof (induction rs arbitrary: l)
  case (Cons r rs)
  then show ?case by (simp add: note_no_progress_round_def sat_add_def)
qed simp

text \<open>The watchdog counts consecutive fully refused rounds.  After a round with
  progress, the drive is stopped exactly when at least the cap's number of
  rounds (two by default) have passed without progress, whatever happened
  before: earlier refused rounds never count, and a stop needs no more than the
  cap.\<close>

theorem hard_stop_counts_since_progress:
  assumes "no_progress_rounds caps \<le> u32_max"
  shows "should_hard_stop_no_progress caps (fold note_no_progress_round rs (note_progress r l))
    \<longleftrightarrow> no_progress_rounds caps \<le> length rs"
  using assms note_no_progress_streak [of "note_progress r l" rs]
  by (auto simp: should_hard_stop_no_progress_def note_progress_def)

theorem hard_stop_counts_since_progress_witness:
  "should_hard_stop_no_progress progress_caps_default
     (fold note_no_progress_round [6, 7] (note_progress 5 progress_default))
   \<and> \<not> should_hard_stop_no_progress progress_caps_default
     (fold note_no_progress_round [6] (note_progress 5 (note_no_progress_round 4 progress_default)))"
proof -
  have c: "no_progress_rounds progress_caps_default \<le> u32_max"
    by (simp add: progress_caps_default_def u32_max_def)
  show ?thesis
    by (simp only: hard_stop_counts_since_progress [OF c]) (simp add: progress_caps_default_def)
qed

section \<open>The evidence ledger\<close>

text \<open>Steps of a drive's evidence ledger while its two counters are not exhausted.\<close>

inductive evidence_step :: "evidence_ledger \<Rightarrow> evidence_ledger \<Rightarrow> bool" where
  ev_op: "el_next_seq l < u64_max \<Longrightarrow> evidence_step l (note_mutation_op l)"
| ev_mutation: "el_next_seq l < u64_max \<Longrightarrow> evidence_step l (record_mutation i t ps l)"
| ev_intercept: "evidence_step l (record_intercept k d l)"
| ev_finding:
    "el_next_finding_seq l < u64_max \<Longrightarrow> evidence_step l (fst (record_finding k sm fl sy l))"
| ev_adopt:
    "el_next_finding_seq l < u64_max \<Longrightarrow> evidence_step l (fst (adopt_finding c r rec l))"

definition evidence_ok :: "evidence_ledger \<Rightarrow> bool" where
  "evidence_ok l \<longleftrightarrow>
     map fr_id (el_findings l) = map finding_id [1..<Suc (el_next_finding_seq l)]
     \<and> sorted_wrt (<) (map mu_seq (el_mutations l))
     \<and> last_mutation_seq l = el_next_seq l
     \<and> (\<forall>m \<in> set (el_mutations l). mu_seq m \<le> el_next_seq l)
     \<and> el_last_mutation_op_seq l \<le> el_next_seq l"

lemma finding_id_inj [simp]: "finding_id m = finding_id n \<longleftrightarrow> m = n"
  by (simp add: finding_id_def)

lemma evidence_ok_step:
  assumes "evidence_ok l" and "evidence_step l l'"
  shows "evidence_ok l'"
  using assms(2,1)
proof cases
  case ev_op
  with assms(1) show ?thesis
    by (auto simp: evidence_ok_def note_mutation_op_def last_mutation_seq_def sat_add_def Let_def
        dest!: last_in_set)
next
  case ev_mutation
  with assms(1) show ?thesis
    by (auto simp: evidence_ok_def record_mutation_def last_mutation_seq_def sat_add_def Let_def
        sorted_wrt_append)
next
  case ev_intercept
  with assms(1) show ?thesis
    by (simp add: evidence_ok_def record_intercept_def last_mutation_seq_def split: if_splits)
next
  case ev_finding
  with assms(1) show ?thesis
    by (simp add: evidence_ok_def record_finding_def last_mutation_seq_def sat_add_def Let_def split: if_splits)
next
  case ev_adopt
  with assms(1) show ?thesis
    by (simp add: evidence_ok_def adopt_finding_def last_mutation_seq_def sat_add_def Let_def split: if_splits)
qed

interpretation evidence: transition_system "\<lambda>l. l = evidence_default" evidence_step evidence_ok
proof
  show "evidence_ok s" if "s = evidence_default" for s
    using that by (simp add: evidence_ok_def evidence_default_def last_mutation_seq_def)
  show "evidence_ok t" if "evidence_ok s" "evidence_step s t" for s t
    using that by (rule evidence_ok_step)
qed

lemma get_finding_append_new:
  "i \<notin> set (map fr_id fs) \<Longrightarrow> find (\<lambda>f. fr_id f = i) (fs @ [g]) = (if fr_id g = i then Some g else None)"
  by (induction fs) auto

lemma get_finding_append_old:
  "fr_id g \<noteq> j \<Longrightarrow> find (\<lambda>f. fr_id f = j) (fs @ [g]) = find (\<lambda>f. fr_id f = j) fs"
  by (induction fs) auto

text \<open>A child's finding keeps its content and never its id.  Adopting a
  finding into a reachable parent ledger returns an id no finding of the parent
  has, looking that id up returns the child's finding attributed to the child
  and its role, and every id handed out before still means the same finding:
  ids of different ledgers cannot collide after adoption.\<close>

theorem adopt_finding_fresh:
  assumes "evidence.reach l" and "el_next_finding_seq l < u64_max"
    and "adopt_finding child role rec l = (l', i)"
  shows "get_finding i l = None
    \<and> get_finding i l' = Some (rec\<lparr>fr_id := i, fr_source_child := child, fr_role := role\<rparr>)
    \<and> (\<forall>j. j \<noteq> i \<longrightarrow> get_finding j l' = get_finding j l)"
proof -
  have ok: "map fr_id (el_findings l) = map finding_id [1..<Suc (el_next_finding_seq l)]"
    using evidence.reach_inv [OF assms(1)] by (simp add: evidence_ok_def)
  have i: "i = finding_id (Suc (el_next_finding_seq l))"
    and l': "el_findings l' = el_findings l @
       [rec\<lparr>fr_id := i, fr_source_child := child, fr_role := role\<rparr>]"
    using assms(2,3) by (auto simp: adopt_finding_def Let_def sat_add_def)
  have new: "i \<notin> set (map fr_id (el_findings l))" unfolding ok i by auto
  then have "get_finding i l = None" by (auto simp: get_finding_def find_None_iff)
  moreover have "get_finding i l' = Some (rec\<lparr>fr_id := i, fr_source_child := child, fr_role := role\<rparr>)"
    unfolding get_finding_def l' by (subst get_finding_append_new [OF new]) simp
  moreover have "get_finding j l' = get_finding j l" if "j \<noteq> i" for j
    unfolding get_finding_def l' using that by (intro get_finding_append_old) simp
  ultimately show ?thesis by blast
qed

theorem adopt_finding_fresh_witness:
  "get_finding (finding_id 2)
     (fst (adopt_finding (lit ''c1'') (lit ''reviewer'')
        \<lparr>fr_id = finding_id 1, fr_source_child = [], fr_role = [], fr_kind = FK_Risk,
         fr_summary = lit ''leak'', fr_file = None, fr_symbol = None\<rparr>
        (fst (record_finding FK_Test (lit ''own'') None None evidence_default))))
   = Some \<lparr>fr_id = finding_id 2, fr_source_child = lit ''c1'', fr_role = lit ''reviewer'',
       fr_kind = FK_Risk, fr_summary = lit ''leak'', fr_file = None, fr_symbol = None\<rparr>"
proof -
  let ?l = "fst (record_finding FK_Test (lit ''own'') None None evidence_default)"
  let ?rec = "\<lparr>fr_id = finding_id 1, fr_source_child = [], fr_role = [], fr_kind = FK_Risk,
         fr_summary = lit ''leak'', fr_file = None, fr_symbol = None\<rparr>"
  have "evidence.reach evidence_default" by (rule evidence.reach_init) simp
  then have r: "evidence.reach ?l"
    by (rule evidence.reach_step) (rule ev_finding, simp add: evidence_default_def u64_max_def)
  have n: "el_next_finding_seq ?l = 1"
    by (simp add: record_finding_def evidence_default_def sat_add_def u64_max_def Let_def)
  have a: "adopt_finding (lit ''c1'') (lit ''reviewer'') ?rec ?l
      = (fst (adopt_finding (lit ''c1'') (lit ''reviewer'') ?rec ?l), finding_id 2)"
    using n by (simp add: adopt_finding_def Let_def sat_add_def u64_max_def)
  have lt: "el_next_finding_seq ?l < u64_max" using n by (simp add: u64_max_def)
  show ?thesis using adopt_finding_fresh [OF r lt a] by simp
qed

text \<open>The evidence sequence moves on every change to the tree: after any
  mutating call the latest change has a sequence number larger than every
  earlier one, also when the call re-edited files the run already wrote, and
  the recorded mutations stay strictly ordered.\<close>

theorem mutation_freshness:
  assumes "evidence.reach l" and "el_next_seq l < u64_max"
  shows "last_mutation_seq l < last_mutation_seq (note_mutation_op l)
    \<and> last_mutation_seq l < last_mutation_seq (record_mutation i t ps l)
    \<and> sorted_wrt (<) (map mu_seq (el_mutations (record_mutation i t ps l)))"
proof -
  have ok: "evidence_ok l" by (rule evidence.reach_inv [OF assms(1)])
  have "evidence_ok (note_mutation_op l)" and m: "evidence_ok (record_mutation i t ps l)"
    using ok assms(2) by (auto intro: evidence_ok_step evidence_step.intros)
  then have "last_mutation_seq (note_mutation_op l) = Suc (el_next_seq l)"
    and "last_mutation_seq (record_mutation i t ps l) = Suc (el_next_seq l)"
    using assms(2)
    by (auto simp: evidence_ok_def note_mutation_op_def record_mutation_def Let_def sat_add_def)
  with ok m show ?thesis by (simp add: evidence_ok_def)
qed

theorem mutation_freshness_witness:
  "last_mutation_seq evidence_default < last_mutation_seq (note_mutation_op evidence_default)"
proof -
  have "evidence.reach evidence_default" by (rule evidence.reach_init) simp
  from mutation_freshness [OF this] show ?thesis by (simp add: evidence_default_def u64_max_def)
qed

section \<open>The objective\<close>

text \<open>A new amendment becomes the user's latest instruction, raises the
  version by one and is appended to the objective's text; amending with the
  same words again changes nothing.\<close>

theorem amend_latest_and_idempotent:
  assumes "trim t \<noteq> []" and "trim t \<notin> set (oa_amendments a)"
  shows "latest_instruction (amend t a) = trim t
    \<and> oa_version (amend t a) = min u32_max (oa_version a + 1)
    \<and> oa_text (amend t a) = oa_text a @ [10, 10] @ lit ''Continuation amendment:'' @ [10] @ trim t
    \<and> amend t (amend t a) = amend t a"
  using assms by (simp add: amend_def latest_instruction_def Let_def sat_add_def)

theorem amend_latest_and_idempotent_witness:
  "latest_instruction (amend (lit '' go on '') (from_user_message (lit ''fix it''))) = lit ''go on''"
proof -
  have t: "trim (lit '' go on '') = lit ''go on''"
    by (simp add: lit_def trim_def trim_end_def trim_end_matches_def trim_start_def
        trim_start_matches_def is_whitespace_def)
  show ?thesis
    using amend_latest_and_idempotent [of "lit '' go on ''" "from_user_message (lit ''fix it'')"]
    by (simp add: t from_user_message_def objective_new_def)
qed

end
