(* ===== verification/User_Boundary.thy ===== *)
theory User_Boundary
  imports Lifecycle_State
begin

text \<open>
  The explicit user execution boundaries of leveler-lifecycle
  (user_boundary.rs): reading a pause directive out of a user's message,
  reading a release, and the boundary a sequence of messages leaves in force.
  Text is a list of code points, so the source's byte offsets into the
  lowercased sentence (ASCII lowercasing keeps offsets) are code-point offsets
  here.  Phrases outside ASCII are written as their code points, in the order
  of the source's tables.
\<close>

section \<open>Phrase tables\<close>

definition boundary_markers :: "rstr list" where
  "boundary_markers =
    [[31561, 24453, 29992, 25143], [31561, 24453, 20320], [31561, 24453, 25105],
     [31561, 25105], [31561, 24453, 30830, 35748], [29992, 25143, 30830, 35748],
     [30830, 35748, 21518, 20877], [20877, 32487, 32493], [26242, 20572], [20572, 19979],
     lit ''wait for the user'', lit ''wait for you'', lit ''wait for me'',
     lit ''wait for confirmation'', lit ''await confirmation'', lit ''pause'',
     lit ''stop here'']"

definition continuation_acknowledgements :: "rstr list" where
  "continuation_acknowledgements =
    [[22909, 30340], [22909], [30830, 35748], [30830, 35748, 19968, 19979],
     [26126, 30333, 20102], [25910, 21040], [27809, 38382, 39064], [21487, 20197],
     [34892], [26159, 30340], [23545, 30340], lit ''okay'', lit ''ok'', lit ''yes'',
     lit ''sure'', lit ''alright'', lit ''all right'', lit ''go ahead'']"

definition continuation_cues :: "rstr list" where
  "continuation_cues =
    [[32487, 32493], [25509, 30528], [24448, 19979], lit ''go on'', lit ''continue'',
     lit ''resume'', lit ''proceed'', lit ''carry on'']"

definition pause_cues :: "rstr list" where
  "pause_cues =
    [[31561, 25105, 30475, 21040], [31561, 25105, 30830, 35748],
     [31561, 25105, 22238, 22797], [31561, 24453, 30830, 35748], [31561, 24453, 25105],
     [31561, 25105], [30830, 35748, 21518, 20877], [30830, 35748, 20043, 21518],
     [20572, 19979, 26469], [20808, 20572], [20572, 19979], [26242, 20572],
     [32467, 26463, 26412, 36718], [32467, 26463, 36825, 19968, 36718],
     [20572, 27490, 26412, 36718], lit ''stop and wait'', lit ''then stop'',
     lit ''then pause'', lit ''do not continue until'', lit ''don't continue until'',
     lit ''wait until i'', lit ''wait until you'', lit ''wait for my'',
     lit ''wait for me'', lit ''stop after'', lit ''stop when'', lit ''stop here'',
     lit ''stop now'', lit ''pause after'', lit ''pause here'', lit ''hold off'',
     lit ''end this turn'', lit ''end the turn'']"

text \<open>The two halves of the negation test: those tested as written and those that
  end in a space.\<close>

definition negations_plain :: "rstr list" where
  "negations_plain =
    [[19981, 35201], [19981, 29992], [19981, 24517], [26080, 38656],
     [19981, 38656, 35201], [21035], [21247], [31105, 27490]]"

definition negations_spaced :: "rstr list" where
  "negations_spaced =
    [lit ''do not '', lit ''don't '', lit ''dont '', lit ''never '', lit ''without '',
     lit ''no need to '', lit ''not '']"

definition release_phrases :: "rstr list" where
  "release_phrases =
    [[19981, 35201, 20572], [19981, 29992, 20572], [19981, 24517, 20572], [21035, 20572],
     [19981, 35201, 26242, 20572], [19981, 29992, 26242, 20572], [21035, 26242, 20572],
     [19981, 35201, 31561], [19981, 29992, 31561], [19981, 29992, 20877, 31561],
     [26080, 38656, 20877, 31561], [19981, 24517, 20877, 31561], [19981, 24517, 31561],
     [21035, 31561], [26080, 38656, 31561], [26080, 38656, 30830, 35748],
     [19981, 29992, 20877, 30830, 35748], [19981, 38656, 35201, 31561], lit ''donotstop'',
     lit ''dontstop'', lit ''donotwait'', lit ''dontwait'', lit ''donotwaitforme'',
     lit ''noneedtowait'', lit ''noneedtoconfirm'', lit ''withoutstopping'']"

definition completion_cues :: "rstr list" where
  "completion_cues =
    [[20570, 23436], [23436, 25104, 21518], [23436, 25104, 20043, 21518],
     [23436, 25104, 26102], [32467, 26463, 21518], [32467, 26463, 20043, 21518],
     [20132, 20184, 23436], [20889, 23436, 21518], [23454, 29616, 23436], [36305, 23436],
     [36890, 36807, 21518], [20043, 21518], [20197, 21518], [28982, 21518, 20572],
     [20877, 20572], lit ''done'', lit ''finished'', lit ''finish'', lit ''complete'',
     lit ''afterfinishing'', lit ''afteryoufinish'', lit ''whenfinished'',
     lit ''oncefinished'']"

definition is_clause_punctuation_or_space :: "rchar \<Rightarrow> bool" where
  "is_clause_punctuation_or_space c \<longleftrightarrow> is_whitespace c \<or> c = 65292 \<or> c = 12290 \<or> c = 12289 \<or> c = 65307 \<or> c = 65306 \<or> c = 65281 \<or> c = 65311 \<or> c = 44 \<or> c = 46 \<or> c = 59 \<or> c = 58 \<or> c = 33 \<or> c = 63 \<or> c = 126"

definition sentence_end :: "rchar \<Rightarrow> bool" where
  "sentence_end c \<longleftrightarrow> c = 12290 \<or> c = 65281 \<or> c = 33 \<or> c = 65311 \<or> c = 63 \<or> c = 10 \<or> c = 65307 \<or> c = 59"

definition clause_end :: "rchar \<Rightarrow> bool" where
  "clause_end c \<longleftrightarrow> c = 65292 \<or> c = 44 \<or> c = 65307 \<or> c = 59 \<or> c = 12290 \<or> c = 65281 \<or> c = 33 \<or> c = 65311 \<or> c = 63 \<or> c = 10"

definition negation_trim :: "rchar \<Rightarrow> bool" where
  "negation_trim c \<longleftrightarrow> c = 32 \<or> c = 9 \<or> c = 65292 \<or> c = 44 \<or> c = 65306 \<or> c = 58"

definition any_phrase :: "rstr list \<Rightarrow> rstr \<Rightarrow> bool" where
  "any_phrase phrases s = list_ex (\<lambda>p. contains p s) phrases"

text \<open>The lowercased text without its white space.\<close>

definition normalized :: "rstr \<Rightarrow> rstr" where
  "normalized s = filter (\<lambda>c. \<not> is_whitespace c) (to_ascii_lowercase s)"

definition split_sentences :: "rstr \<Rightarrow> rstr list" where
  "split_sentences s = filter (\<lambda>t. t \<noteq> []) (map trim (split_on sentence_end s))"

section \<open>Stage markers\<close>

fun chinese_numeral :: "rchar \<Rightarrow> rstr option" where
  "chinese_numeral c =
     (if c = 19968 then Some (lit ''1'')
      else if c = 20108 \<or> c = 20004 then Some (lit ''2'')
      else if c = 19977 then Some (lit ''3'')
      else if c = 22235 then Some (lit ''4'')
      else if c = 20116 then Some (lit ''5'')
      else if c = 20845 then Some (lit ''6'')
      else if c = 19971 then Some (lit ''7'')
      else if c = 20843 then Some (lit ''8'')
      else if c = 20061 then Some (lit ''9'')
      else if c = 21313 then Some (lit ''10'')
      else None)"

definition number_sep :: "rchar \<Rightarrow> bool" where
  "number_sep c \<longleftrightarrow> is_whitespace c \<or> c = 58 \<or> c = 65306 \<or> c = 35"

text \<open>The number that follows position \<open>start\<close>, with the position after it.\<close>

definition number_after :: "rstr \<Rightarrow> nat \<Rightarrow> (rstr \<times> nat) option" where
  "number_after chars start =
     (let s = drop start chars;
          index = start + length (takeWhile number_sep s);
          r = dropWhile number_sep s;
          ds = takeWhile is_ascii_digit r
      in if ds \<noteq> [] then Some (ds, index + length ds)
         else (case r of [] \<Rightarrow> None
               | c # _ \<Rightarrow> map_option (\<lambda>n. (n, index + 1)) (chinese_numeral c)))"

definition ordinal_sep :: "rchar \<Rightarrow> bool" where
  "ordinal_sep c \<longleftrightarrow> is_whitespace c \<or> c = 31532"

text \<open>The number that ends right before position \<open>at\<close>.\<close>

definition number_before :: "rstr \<Rightarrow> nat \<Rightarrow> rstr option" where
  "number_before chars at =
     (case dropWhile ordinal_sep (rev (take at chars)) of
        [] \<Rightarrow> None
      | c # cs \<Rightarrow> if is_ascii_digit c then Some (rev (takeWhile is_ascii_digit (c # cs)))
                  else chinese_numeral c)"

definition at_word :: "rstr \<Rightarrow> nat \<Rightarrow> rstr \<Rightarrow> bool" where
  "at_word chars index needle \<longleftrightarrow>
     starts_with needle (drop index chars)
     \<and> \<not> (0 < index \<and> index - 1 < length chars \<and> is_ascii_alphanumeric (chars ! (index - 1)))
     \<and> (index + length needle < length chars \<longrightarrow>
          \<not> is_ascii_alphanumeric (chars ! (index + length needle)))"

definition marker :: "string \<Rightarrow> rstr \<Rightarrow> rstr" where
  "marker kind number = lit kind @ number"

definition push_marker :: "rstr \<Rightarrow> rstr list \<Rightarrow> rstr list" where
  "push_marker m ms = (if m \<in> set ms then ms else ms @ [m])"

text \<open>The keyword at a position: the marker found there and where to go on.  The
  keywords are U+9636 U+6BB5, U+6B65, \<open>phase\<close>, \<open>stage\<close> and \<open>step\<close>.\<close>

definition word_marker :: "rstr \<Rightarrow> nat \<Rightarrow> rstr \<Rightarrow> string \<Rightarrow> rstr option \<times> nat" where
  "word_marker lower index word kind =
     (case number_after lower (index + length word) of
        Some (n, e) \<Rightarrow> (Some (marker kind n), e)
      | None \<Rightarrow> (None, index + 1))"

definition stage_at :: "rstr \<Rightarrow> rstr \<Rightarrow> nat \<Rightarrow> rstr option \<times> nat" where
  "stage_at chars lower index =
     (if starts_with [38454, 27573] (drop index chars) then
        (case number_after chars (index + 2) of
           Some (n, e) \<Rightarrow> (Some (marker ''stage'' n), e)
         | None \<Rightarrow> (map_option (marker ''stage'') (number_before chars index), index + 1))
      else if chars ! index = 27493 then
        (map_option (marker ''step'') (number_before chars index), index + 1)
      else if at_word lower index (lit ''phase'') then word_marker lower index (lit ''phase'') ''stage''
      else if at_word lower index (lit ''stage'') then word_marker lower index (lit ''stage'') ''stage''
      else if at_word lower index (lit ''step'') then word_marker lower index (lit ''step'') ''step''
      else (None, index + 1))"

lemma number_after_forward: "number_after chars start = Some (n, e) \<Longrightarrow> start < e"
  by (auto simp: number_after_def Let_def split: if_splits list.splits)

lemma word_marker_forward: "index < snd (word_marker lower index word kind)"
  by (auto simp: word_marker_def split: option.splits dest!: number_after_forward)

lemma stage_at_forward: "index < snd (stage_at chars lower index)"
  using word_marker_forward
  by (auto simp: stage_at_def split: option.splits dest!: number_after_forward)

function stage_scan :: "rstr \<Rightarrow> rstr \<Rightarrow> nat \<Rightarrow> rstr list \<Rightarrow> rstr list" where
  "stage_scan chars lower index markers =
     (if index < length chars then
        (let (m, next_index) = stage_at chars lower index
         in stage_scan chars lower next_index
              (case m of None \<Rightarrow> markers | Some x \<Rightarrow> push_marker x markers))
      else markers)"
  by pat_completeness auto
termination
proof (relation "measure (\<lambda>(chars, _, index, _). length chars - index)")
  fix chars lower :: rstr and index :: nat and markers :: "rstr list" and x m next_index
  assume "index < length chars" and "x = stage_at chars lower index" and "(m, next_index) = x"
  then have "index < next_index" by (metis snd_conv stage_at_forward)
  with \<open>index < length chars\<close>
  show "((chars, lower, next_index, case m of None \<Rightarrow> markers | Some x \<Rightarrow> push_marker x markers),
      chars, lower, index, markers) \<in> measure (\<lambda>(chars, _, index, _). length chars - index)"
    by simp
qed simp

declare stage_scan.simps [simp del]

definition extract_stage_markers :: "rstr \<Rightarrow> rstr list" where
  "extract_stage_markers s = stage_scan s (to_ascii_lowercase s) 0 []"

section \<open>Pause directives\<close>

datatype user_pause_boundary = Now | AfterAny | AfterStages "rstr list"

definition has_completion_cue :: "rstr \<Rightarrow> bool" where
  "has_completion_cue s = any_phrase completion_cues (normalized s)"

definition releases_pause :: "rstr \<Rightarrow> bool" where
  "releases_pause s = any_phrase release_phrases (normalized s)"

definition completed_stage_markers :: "rstr \<Rightarrow> rstr list" where
  "completed_stage_markers prior =
     fold push_marker
       (concat (map extract_stage_markers (filter has_completion_cue (split_on clause_end prior)))) []"

text \<open>The negation test looks at the last ten characters before the cue, with
  trailing separators (a space among them) removed.\<close>

definition negation_tail :: "rstr \<Rightarrow> rstr" where
  "negation_tail prior =
     trim_end_matches negation_trim
       (to_ascii_lowercase (drop (length prior - 10) prior))"

definition cue_negated :: "rstr \<Rightarrow> bool" where
  "cue_negated prior \<longleftrightarrow>
     list_ex (\<lambda>n. ends_with n (negation_tail prior)) negations_plain
     \<or> list_ex (\<lambda>n. ends_with n (negation_tail prior)) negations_spaced"

lemma find_sub_bound: "find_sub p s = Some i \<Longrightarrow> i + length p \<le> length s"
  by (drule find_sub_Some) auto

text \<open>The first occurrence of a cue that is not negated.  No cue of the table is
  empty; the guard only keeps the function total.\<close>

function cue_from :: "rstr \<Rightarrow> rstr \<Rightarrow> nat \<Rightarrow> nat option" where
  "cue_from cue lower start =
     (case find_sub cue (drop start lower) of
        None \<Rightarrow> None
      | Some rel \<Rightarrow>
          if \<not> cue_negated (take (start + rel) lower) then Some (start + rel)
          else if cue = [] then None
          else cue_from cue lower (start + rel + length cue))"
  by pat_completeness auto
termination
proof (relation "measure (\<lambda>(_, lower, start). length lower - start)")
  fix cue lower :: rstr and start rel :: nat
  assume "find_sub cue (drop start lower) = Some rel" and "cue \<noteq> []"
  then have "rel + length cue \<le> length lower - start" and "1 \<le> length cue"
    using find_sub_bound by (fastforce, cases cue, simp_all)
  then show "((cue, lower, start + rel + length cue), cue, lower, start)
      \<in> measure (\<lambda>(_, lower, start). length lower - start)" by simp
qed simp

declare cue_from.simps [simp del]

definition min_opt :: "nat option \<Rightarrow> nat option \<Rightarrow> nat option" where
  "min_opt a b =
     (case a of None \<Rightarrow> b | Some x \<Rightarrow> (case b of None \<Rightarrow> Some x | Some y \<Rightarrow> Some (min x y)))"

definition first_positive_pause_cue :: "rstr \<Rightarrow> nat option" where
  "first_positive_pause_cue sentence =
     fold (\<lambda>cue best. min_opt best (cue_from cue (to_ascii_lowercase sentence) 0)) pause_cues None"

definition pause_in_sentence :: "rstr \<Rightarrow> user_pause_boundary option" where
  "pause_in_sentence sentence =
     (case first_positive_pause_cue sentence of
        None \<Rightarrow> None
      | Some cue \<Rightarrow>
          (let prior = take cue sentence; stages = completed_stage_markers prior
           in if stages \<noteq> [] then Some (AfterStages stages)
              else if extract_stage_markers sentence \<noteq> [] \<or> has_completion_cue prior
                   then Some AfterAny
              else Some Now))"

fun merge_boundaries :: "user_pause_boundary \<Rightarrow> user_pause_boundary \<Rightarrow> user_pause_boundary" where
  "merge_boundaries (AfterStages a) (AfterStages b) = AfterStages (fold push_marker b a)"
| "merge_boundaries (AfterStages a) _ = AfterStages a"
| "merge_boundaries _ (AfterStages b) = AfterStages b"
| "merge_boundaries AfterAny _ = AfterAny"
| "merge_boundaries _ AfterAny = AfterAny"
| "merge_boundaries Now Now = Now"

definition pause_step :: "rstr \<Rightarrow> user_pause_boundary option \<Rightarrow> user_pause_boundary option" where
  "pause_step sentence boundary =
     (if releases_pause sentence then None
      else (case pause_in_sentence sentence of
              None \<Rightarrow> boundary
            | Some found \<Rightarrow> Some (case boundary of None \<Rightarrow> found
                                  | Some existing \<Rightarrow> merge_boundaries existing found)))"

definition extract_user_pause :: "rstr \<Rightarrow> user_pause_boundary option" where
  "extract_user_pause txt = fold pause_step (split_sentences txt) None"

section \<open>Whether a plan has reached the boundary\<close>

definition is_boundary_step :: "rstr \<Rightarrow> bool" where
  "is_boundary_step s = any_phrase boundary_markers (to_ascii_lowercase s)"

definition names_stage :: "rstr list \<Rightarrow> rstr \<Rightarrow> bool" where
  "names_stage markers s = list_ex (\<lambda>m. m \<in> set (extract_stage_markers s)) markers"

definition step_done :: "rstr \<times> rstr \<Rightarrow> bool" where
  "step_done s = (snd s = lit ''completed'')"

fun reached_steps :: "user_pause_boundary \<Rightarrow> (rstr \<times> rstr) list \<Rightarrow> bool" where
  "reached_steps Now steps = True"
| "reached_steps AfterAny steps \<longleftrightarrow>
     \<not> list_ex (\<lambda>s. snd s = lit ''in_progress'') steps \<and> list_ex step_done steps"
| "reached_steps (AfterStages markers) steps \<longleftrightarrow>
     markers \<noteq> [] \<and>
     (let named = filter (\<lambda>s. names_stage markers (fst s)) steps;
          work = filter (\<lambda>s. \<not> is_boundary_step (fst s)) named;
          decisive = (if work = [] then named else work)
      in decisive \<noteq> [] \<and> list_all step_done decisive)"

definition boundary_reached :: "user_pause_boundary \<Rightarrow> plan_state \<Rightarrow> bool" where
  "boundary_reached b p = reached_steps b (map (\<lambda>s. (ps_step s, ps_status s)) (pl_steps p))"

definition user_pause_reached :: "rstr \<Rightarrow> plan_state \<Rightarrow> bool" where
  "user_pause_reached txt p =
     (case extract_user_pause txt of None \<Rightarrow> False | Some b \<Rightarrow> boundary_reached b p)"

section \<open>Continuation directives\<close>

definition starts_with_continuation_cue :: "rstr \<Rightarrow> bool" where
  "starts_with_continuation_cue s =
     list_ex (\<lambda>cue. starts_with cue (to_ascii_lowercase s)) continuation_cues"

text \<open>One pass over the acknowledgements: \<open>None\<close> is the early return of the empty
  text, \<open>Some\<close> the rest after the first one that applies.\<close>

fun ack_pass :: "rstr list \<Rightarrow> rstr \<Rightarrow> rstr option" where
  "ack_pass [] rest = Some rest"
| "ack_pass (a # acks) rest =
     (case strip_prefix a rest of
        None \<Rightarrow> ack_pass acks rest
      | Some [] \<Rightarrow> None
      | Some (c # cs) \<Rightarrow>
          if is_clause_punctuation_or_space c
          then Some (trim_start_matches is_clause_punctuation_or_space (c # cs))
          else if starts_with_continuation_cue (c # cs) then Some (c # cs)
          else ack_pass acks rest)"

lemma ack_pass_suffix: "ack_pass acks rest = Some r \<Longrightarrow> \<exists>p. rest = p @ r"
proof (induction acks rest rule: ack_pass.induct)
  case (2 a acks rest)
  have drop_suffix: "\<exists>p. xs = p @ trim_start_matches P xs" for P and xs :: rstr
    by (metis trim_start_matches_def takeWhile_dropWhile_id)
  show ?case
  proof (cases "strip_prefix a rest")
    case None
    with 2 show ?thesis by simp
  next
    case (Some tl)
    then have rest: "rest = a @ tl" by (simp add: strip_prefix_Some_iff)
    show ?thesis
    proof (cases tl)
      case Nil
      with 2 Some show ?thesis by simp
    next
      case (Cons c cs)
      obtain p where "c # cs = p @ trim_start_matches is_clause_punctuation_or_space (c # cs)"
        using drop_suffix by blast
      then have "rest = (a @ p) @ trim_start_matches is_clause_punctuation_or_space (c # cs)"
        using rest Cons by simp
      moreover have "ack_pass (a # acks) rest =
          (if is_clause_punctuation_or_space c
           then Some (trim_start_matches is_clause_punctuation_or_space (c # cs))
           else if starts_with_continuation_cue (c # cs) then Some (c # cs)
           else ack_pass acks rest)"
        using Some Cons by simp
      ultimately show ?thesis using "2.IH" "2.prems" rest Some Cons
        by (metis option.inject)
    qed
  qed
qed simp

function strip_ack_loop :: "rstr \<Rightarrow> rstr" where
  "strip_ack_loop rest =
     (case ack_pass continuation_acknowledgements rest of
        None \<Rightarrow> []
      | Some r \<Rightarrow> if r = rest then rest else strip_ack_loop r)"
  by pat_completeness auto
termination
  by (relation "measure length") (auto dest!: ack_pass_suffix)

declare strip_ack_loop.simps [simp del]

definition strip_acknowledgements :: "rstr \<Rightarrow> rstr" where
  "strip_acknowledgements s =
     strip_ack_loop (trim_start_matches is_clause_punctuation_or_space s)"

definition authorizes_continuation :: "rstr \<Rightarrow> bool" where
  "authorizes_continuation txt =
     list_ex (\<lambda>s. releases_pause s \<or> starts_with_continuation_cue (strip_acknowledgements s))
       (split_sentences txt)"

section \<open>A sequence of instructions\<close>

datatype authorization_signal = Pause | Continue

definition signal_step ::
  "rstr \<Rightarrow> authorization_signal option \<Rightarrow> authorization_signal option" where
  "signal_step txt current =
     (if extract_user_pause txt \<noteq> None then Some Pause
      else if authorizes_continuation txt then Some Continue
      else current)"

definition latest_authorization_signal :: "rstr list \<Rightarrow> authorization_signal option" where
  "latest_authorization_signal texts = fold signal_step texts None"

definition pause_in_force :: "bool \<Rightarrow> rstr list \<Rightarrow> bool" where
  "pause_in_force durable texts \<longleftrightarrow> durable \<and> latest_authorization_signal texts \<noteq> Some Continue"

definition boundary_step ::
  "rstr \<Rightarrow> user_pause_boundary option \<Rightarrow> user_pause_boundary option" where
  "boundary_step txt current =
     (case extract_user_pause txt of
        Some found \<Rightarrow> Some found
      | None \<Rightarrow> if authorizes_continuation txt then None else current)"

definition effective_user_pause :: "rstr list \<Rightarrow> user_pause_boundary option" where
  "effective_user_pause texts = fold boundary_step texts None"

text \<open>\<open>user_pause_state\<close> of the drive: whether the goal's durable pause is in force,
  and whether the plan has reached the boundary.  The goal's scope (its pause
  column and its stored amendments) is what the goal binder returns.\<close>

definition anchor_user_texts :: "objective_anchor \<Rightarrow> rstr list" where
  "anchor_user_texts a =
     (case oa_primary a of Some p \<Rightarrow> p | None \<Rightarrow> oa_text a) # oa_amendments a"

record goal_scope =
  gs_objective :: rstr
  gs_acceptance :: "rstr list"
  gs_amendments :: "rstr list"
  gs_user_paused_at :: "nat option"

definition reached_by :: "plan_state \<Rightarrow> user_pause_boundary option \<Rightarrow> bool" where
  "reached_by plan boundary \<longleftrightarrow>
     is_model_explicit plan \<and> (case boundary of None \<Rightarrow> False | Some b \<Rightarrow> boundary_reached b plan)"

definition user_pause_state ::
  "bool \<Rightarrow> goal_scope option \<Rightarrow> objective_anchor \<Rightarrow> plan_state \<Rightarrow> bool \<times> bool" where
  "user_pause_state goal_mode scope objective plan =
     (if \<not> goal_mode then
        (False, reached_by plan (effective_user_pause (anchor_user_texts objective)))
      else
        (let texts = anchor_user_texts objective @
                 (case scope of None \<Rightarrow> [] | Some g \<Rightarrow> gs_amendments g);
             goal_paused = (case scope of None \<Rightarrow> False
                            | Some g \<Rightarrow> pause_in_force (gs_user_paused_at g \<noteq> None) texts)
         in (goal_paused, reached_by plan (effective_user_pause texts))))"

end
