(* ===== verification/User_Boundary_Correct.thy ===== *)
theory User_Boundary_Correct
  imports User_Boundary
begin

text \<open>
  What the reading of the user's boundary guarantees: the boundary in force is
  the last one stated and not released, stage markers are exact numbers,
  a stage boundary is decided by the stage's own work, and a boundary read from
  text always names a stage when it claims to.  The last section states where
  the reading departs from what the source documents.
\<close>

lemmas ub_eval =
  extract_user_pause_def pause_step_def split_sentences_def sentence_end_def releases_pause_def
  pause_in_sentence_def first_positive_pause_cue_def cue_from.simps min_opt_def any_phrase_def
  normalized_def to_ascii_lowercase_def ascii_lower_def is_ascii_upper_def is_whitespace_def
  trim_def trim_end_def trim_end_matches_def trim_start_def trim_start_matches_def
  contains_def starts_with_def ends_with_def cue_negated_def negation_tail_def negation_trim_def
  pause_cues_def release_phrases_def negations_plain_def negations_spaced_def
  completed_stage_markers_def has_completion_cue_def completion_cues_def clause_end_def
  push_marker_def lit_def

lemmas stage_eval =
  extract_stage_markers_def stage_scan.simps stage_at_def word_marker_def at_word_def
  number_after_def number_before_def number_sep_def ordinal_sep_def marker_def push_marker_def
  to_ascii_lowercase_def ascii_lower_def is_ascii_upper_def is_ascii_lower_def is_ascii_digit_def
  is_ascii_alphanumeric_def is_whitespace_def starts_with_def lit_def

lemmas continue_eval =
  authorizes_continuation_def strip_acknowledgements_def strip_ack_loop.simps
  continuation_acknowledgements_def continuation_cues_def starts_with_continuation_cue_def
  is_clause_punctuation_or_space_def

section \<open>The boundary in force\<close>

lemma effective_snoc: "effective_user_pause (ts @ [t]) = boundary_step t (effective_user_pause ts)"
  by (simp add: effective_user_pause_def)

lemma latest_snoc: "latest_authorization_signal (ts @ [t]) = signal_step t (latest_authorization_signal ts)"
  by (simp add: latest_authorization_signal_def)

lemma effective_Some_iff:
  "effective_user_pause ts = Some b \<longleftrightarrow>
     (\<exists>xs t ys. ts = xs @ t # ys \<and> extract_user_pause t = Some b
        \<and> (\<forall>y \<in> set ys. extract_user_pause y = None \<and> \<not> authorizes_continuation y))"
  (is "_ \<longleftrightarrow> ?R ts")
proof (induction ts rule: rev_induct)
  case Nil
  show ?case by (simp add: effective_user_pause_def)
next
  case (snoc u ts)
  show ?case
  proof
    assume eff: "effective_user_pause (ts @ [u]) = Some b"
    show "?R (ts @ [u])"
    proof (cases "extract_user_pause u")
      case (Some c)
      with eff have "c = b" by (simp add: effective_snoc boundary_step_def)
      with Some have "ts @ [u] = ts @ u # [] \<and> extract_user_pause u = Some b
        \<and> (\<forall>y \<in> set []. extract_user_pause y = None \<and> \<not> authorizes_continuation y)" by simp
      then show ?thesis by blast
    next
      case None
      with eff have "\<not> authorizes_continuation u" and "effective_user_pause ts = Some b"
        by (auto simp: effective_snoc boundary_step_def split: if_splits)
      with snoc obtain xs t ys where "ts = xs @ t # ys" "extract_user_pause t = Some b"
        "\<forall>y \<in> set ys. extract_user_pause y = None \<and> \<not> authorizes_continuation y" by blast
      with None \<open>\<not> authorizes_continuation u\<close>
      have "ts @ [u] = xs @ t # (ys @ [u]) \<and> extract_user_pause t = Some b
        \<and> (\<forall>y \<in> set (ys @ [u]). extract_user_pause y = None \<and> \<not> authorizes_continuation y)" by simp
      then show ?thesis by blast
    qed
  next
    assume "?R (ts @ [u])"
    then obtain xs t ys where split: "ts @ [u] = xs @ t # ys" and t: "extract_user_pause t = Some b"
      and ys: "\<forall>y \<in> set ys. extract_user_pause y = None \<and> \<not> authorizes_continuation y" by blast
    show "effective_user_pause (ts @ [u]) = Some b"
    proof (cases ys rule: rev_cases)
      case Nil
      with split t show ?thesis by (simp add: effective_snoc boundary_step_def)
    next
      case (snoc zs z)
      with split have "ts = xs @ t # zs" and "u = z" by auto
      with snoc.IH t ys snoc have "effective_user_pause ts = Some b" by auto
      with ys snoc \<open>u = z\<close> show ?thesis by (simp add: effective_snoc boundary_step_def)
    qed
  qed
qed

lemma latest_signal_agrees:
  "latest_authorization_signal ts = Some Pause \<longleftrightarrow> effective_user_pause ts \<noteq> None"
proof (induction ts rule: rev_induct)
  case Nil
  show ?case by (simp add: latest_authorization_signal_def effective_user_pause_def)
next
  case (snoc u ts)
  then show ?case
    by (auto simp: latest_snoc effective_snoc signal_step_def boundary_step_def split: option.splits)
qed

text \<open>
  C10. The boundary in force is the last one the user stated and did not
  release.  A sequence of messages leaves boundary \<open>b\<close> exactly when some message
  states \<open>b\<close> and no later message states a boundary or authorizes continuing:
  questions and supplements never lose it.  The two readings agree, so while a
  boundary is in force a recorded pause of the goal is in force as well.\<close>

theorem boundary_in_force:
  "(effective_user_pause ts = Some b \<longleftrightarrow>
     (\<exists>xs t ys. ts = xs @ t # ys \<and> extract_user_pause t = Some b
        \<and> (\<forall>y \<in> set ys. extract_user_pause y = None \<and> \<not> authorizes_continuation y)))
   \<and> (effective_user_pause ts \<noteq> None \<longleftrightarrow> latest_authorization_signal ts = Some Pause)
   \<and> (effective_user_pause ts \<noteq> None \<longrightarrow> pause_in_force durable ts = durable)"
  using effective_Some_iff [of ts b] latest_signal_agrees [of ts]
  by (auto simp: pause_in_force_def)

lemma stop_now_is_pause: "extract_user_pause (lit ''stop now'') = Some Now"
  by (simp add: ub_eval stage_eval)

lemma go_on_releases:
  "extract_user_pause (lit ''go on'') = None" "authorizes_continuation (lit ''go on'')"
  by (simp_all add: ub_eval continue_eval)

theorem boundary_in_force_witness:
  "pause_in_force True [lit ''go on'', lit ''stop now''] = True"
proof -
  have "effective_user_pause [lit ''go on'', lit ''stop now''] \<noteq> None"
    using stop_now_is_pause by (simp add: effective_user_pause_def boundary_step_def)
  with boundary_in_force [of "[lit ''go on'', lit ''stop now'']" _ True] show ?thesis by blast
qed

section \<open>Stage markers\<close>

lemma push_marker_distinct: "distinct ms \<Longrightarrow> distinct (push_marker m ms)"
  by (simp add: push_marker_def)

lemma fold_push_marker_distinct: "distinct acc \<Longrightarrow> distinct (fold push_marker ms acc)"
  by (induction ms arbitrary: acc) (simp_all add: push_marker_distinct)

lemma fold_push_marker_not_Nil: "acc \<noteq> [] \<Longrightarrow> fold push_marker ms acc \<noteq> []"
  by (induction ms arbitrary: acc) (simp_all add: push_marker_def)

lemma takeWhile_all: "\<forall>x \<in> set xs. P x \<Longrightarrow> takeWhile P xs = xs"
  by (simp add: takeWhile_eq_all_conv)

lemma digits_are_digits: "\<forall>c \<in> set (show_nat n). is_ascii_digit c"
  using show_nat_digits by blast

lemma lower_digits: "to_ascii_lowercase (show_nat n) = show_nat n"
  using digits_are_digits [of n]
  by (auto simp: to_ascii_lowercase_def ascii_lower_def is_ascii_upper_def is_ascii_digit_def
      intro!: map_idI)

lemma hd_digit: "\<exists>d ds. show_nat n = d # ds \<and> is_ascii_digit d \<and> \<not> number_sep d"
proof -
  obtain d ds where d: "show_nat n = d # ds" using show_nat_not_Nil by (cases "show_nat n") auto
  then have "is_ascii_digit d" using digits_are_digits [of n] by simp
  moreover from this have "\<not> number_sep d"
    by (auto simp: is_ascii_digit_def number_sep_def is_whitespace_def)
  ultimately show ?thesis using d by blast
qed

lemma number_after_digits:
  assumes "drop start chars = sep @ show_nat n" and "\<forall>c \<in> set sep. number_sep c"
  shows "number_after chars start = Some (show_nat n, start + length sep + length (show_nat n))"
proof -
  obtain d ds where d: "show_nat n = d # ds" "\<not> number_sep d" using hd_digit by blast
  have tw: "takeWhile number_sep (sep @ show_nat n) = sep"
    using assms(2) d by (simp add: takeWhile_append2)
  have dw: "dropWhile number_sep (sep @ show_nat n) = show_nat n"
    using assms(2) d by (simp add: dropWhile_append2)
  have td: "takeWhile is_ascii_digit (show_nat n) = show_nat n"
    by (rule takeWhile_all) (rule digits_are_digits)
  show ?thesis by (simp only: number_after_def assms(1) tw dw td Let_def) simp
qed

text \<open>The two spellings of a stage with a number: U+9636 U+6BB5 and \<open>phase\<close>.\<close>

definition stage_text :: "nat \<Rightarrow> rstr" where
  "stage_text n = [38454, 27573] @ show_nat n"

definition phase_text :: "nat \<Rightarrow> rstr" where
  "phase_text n = lit ''phase '' @ show_nat n"

lemma stage_scan_last: "index \<ge> length chars \<Longrightarrow> stage_scan chars lower index ms = ms"
  by (simp add: stage_scan.simps)

lemma stage_text_marker: "extract_stage_markers (stage_text n) = [marker ''stage'' (show_nat n)]"
proof -
  have na: "number_after (stage_text n) 2 = Some (show_nat n, 2 + length (show_nat n))"
    using number_after_digits [of 2 "stage_text n" "[]" n] by (simp add: stage_text_def)
  have at: "stage_at (stage_text n) lower 0
      = (Some (marker ''stage'' (show_nat n)), 2 + length (show_nat n))" for lower
    using na by (simp add: stage_at_def starts_with_def stage_text_def numeral_2_eq_2)
  have "0 < length (stage_text n)" by (simp add: stage_text_def)
  then show ?thesis
    by (simp add: extract_stage_markers_def stage_scan.simps [of _ _ 0] at push_marker_def)
      (simp add: stage_scan_last stage_text_def)
qed

lemma phase_text_marker: "extract_stage_markers (phase_text n) = [marker ''stage'' (show_nat n)]"
proof -
  have lower: "to_ascii_lowercase (phase_text n) = phase_text n"
    using lower_digits by (simp add: phase_text_def to_ascii_lowercase_def lit_def ascii_lower_def
        is_ascii_upper_def)
  have dr: "drop 5 (phase_text n) = [32] @ show_nat n" by (simp add: phase_text_def lit_def)
  have na: "number_after (phase_text n) 5 = Some (show_nat n, 5 + 1 + length (show_nat n))"
    using number_after_digits [OF dr] by (simp add: number_sep_def is_whitespace_def)
  have l5: "length (lit ''phase'') = 5" by simp
  have st: "starts_with (lit ''phase'') (phase_text n)"
    "\<not> starts_with [38454, 27573] (phase_text n)" "phase_text n ! 0 \<noteq> 27493"
    "phase_text n ! 5 = 32"
    by (simp_all add: phase_text_def lit_def starts_with_def nth_append)
  have w: "at_word (phase_text n) 0 (lit ''phase'')"
    using st(1,4) by (simp add: at_word_def l5 is_ascii_alphanumeric_def is_ascii_digit_def
        is_ascii_upper_def is_ascii_lower_def del: length_lit)
  have at: "stage_at (phase_text n) (phase_text n) 0
      = (Some (marker ''stage'' (show_nat n)), 6 + length (show_nat n))"
    using st(2,3) w na by (simp add: stage_at_def word_marker_def l5 del: length_lit)
  have "0 < length (phase_text n)" by (simp add: phase_text_def)
  then show ?thesis
    by (simp add: extract_stage_markers_def lower stage_scan.simps [of _ _ 0] at push_marker_def)
      (simp add: stage_scan_last phase_text_def)
qed

text \<open>Stage markers are exact numbers.  A stage named in Chinese or as
  \<open>phase N\<close> is one and the same marker, and two stages are the same marker only
  when their numbers are equal.\<close>

theorem stage_markers_exact:
  "extract_stage_markers (stage_text m) = extract_stage_markers (phase_text m)
   \<and> (extract_stage_markers (stage_text m) = extract_stage_markers (stage_text n) \<longleftrightarrow> m = n)"
  by (simp add: stage_text_marker phase_text_marker marker_def)

section \<open>Reaching a boundary\<close>

text \<open>A stage boundary is decided by the work of the named stages alone.  It
  is reached exactly when the plan names one of the stages, every step of those
  stages that is work is completed, and, if all of them are the pause itself,
  those are completed; steps of other stages never matter.\<close>

theorem stage_boundary_reached_iff:
  "reached_steps (AfterStages ms) steps \<longleftrightarrow>
     (\<exists>s \<in> set steps. names_stage ms (fst s))
     \<and> (\<forall>s \<in> set steps. names_stage ms (fst s) \<longrightarrow>
          \<not> is_boundary_step (fst s) \<or> (\<forall>t \<in> set steps. names_stage ms (fst t) \<longrightarrow> is_boundary_step (fst t))
          \<longrightarrow> step_done s)"
proof -
  have ne: "ms \<noteq> []" if "names_stage ms (fst s)" for s
    using that by (auto simp: names_stage_def)
  let ?named = "filter (\<lambda>s. names_stage ms (fst s)) steps"
  let ?work = "filter (\<lambda>s. \<not> is_boundary_step (fst s)) ?named"
  show ?thesis
  proof (cases "?work = []")
    case True
    then have all: "\<forall>t \<in> set steps. names_stage ms (fst t) \<longrightarrow> is_boundary_step (fst t)"
      by (auto simp: filter_empty_conv)
    have "reached_steps (AfterStages ms) steps \<longleftrightarrow> ms \<noteq> [] \<and> ?named \<noteq> [] \<and> list_all step_done ?named"
      using True by (simp add: Let_def)
    with all ne show ?thesis by (auto simp: filter_empty_conv list_all_iff)
  next
    case False
    have "reached_steps (AfterStages ms) steps \<longleftrightarrow> ms \<noteq> [] \<and> list_all step_done ?work"
      using False by (simp add: Let_def)
    moreover have "\<exists>t \<in> set steps. names_stage ms (fst t) \<and> \<not> is_boundary_step (fst t)"
      using False by (auto simp: filter_empty_conv)
    ultimately show ?thesis using ne by (auto simp: list_all_iff)
  qed
qed

lemma two_stage_plan:
  "extract_stage_markers (lit ''phase 1: build'') = [lit ''stage1'']"
  "extract_stage_markers (lit ''phase 2: test'') = [lit ''stage2'']"
  "\<not> is_boundary_step (lit ''phase 1: build'')"
  by (simp_all add: stage_eval is_boundary_step_def any_phrase_def boundary_markers_def contains_def)

theorem stage_boundary_reached_iff_witness:
  "reached_steps (AfterStages [lit ''stage1''])
     [(lit ''phase 1: build'', lit ''completed''), (lit ''phase 2: test'', lit ''in_progress'')]
   \<and> \<not> reached_steps (AfterStages [lit ''stage2''])
     [(lit ''phase 1: build'', lit ''completed''), (lit ''phase 2: test'', lit ''in_progress'')]"
  unfolding stage_boundary_reached_iff
  by (simp add: names_stage_def two_stage_plan step_done_def)

section \<open>Boundaries read from text\<close>

definition boundary_wf :: "user_pause_boundary \<Rightarrow> bool" where
  "boundary_wf b \<longleftrightarrow> (\<forall>ms. b = AfterStages ms \<longrightarrow> ms \<noteq> [] \<and> distinct ms)"

lemma merge_wf: "boundary_wf a \<Longrightarrow> boundary_wf b \<Longrightarrow> boundary_wf (merge_boundaries a b)"
  by (induction a b rule: merge_boundaries.induct)
    (auto simp: boundary_wf_def fold_push_marker_distinct fold_push_marker_not_Nil)

lemma pause_in_sentence_wf: "pause_in_sentence t = Some b \<Longrightarrow> boundary_wf b"
  by (auto simp: pause_in_sentence_def boundary_wf_def Let_def completed_stage_markers_def
      fold_push_marker_distinct split: option.splits if_splits)

lemma fold_pause_step_wf:
  "(\<forall>b. acc = Some b \<longrightarrow> boundary_wf b) \<Longrightarrow> fold pause_step ts acc = Some b \<Longrightarrow> boundary_wf b"
proof (induction ts arbitrary: acc)
  case (Cons t ts)
  have "\<forall>b. pause_step t acc = Some b \<longrightarrow> boundary_wf b"
    using Cons.prems(1)
    by (auto simp: pause_step_def pause_in_sentence_wf merge_wf split: option.splits if_splits)
  with Cons show ?case by simp
qed simp

text \<open>A boundary read from a user's message is never vacuous: a stage boundary
  names at least one stage and none twice, so the reading cannot withhold the
  work on a stage nobody named.\<close>

theorem extracted_boundary_names_stages:
  assumes "extract_user_pause txt = Some (AfterStages ms)"
  shows "ms \<noteq> [] \<and> distinct ms"
  using fold_pause_step_wf [of None "split_sentences txt"] assms
  by (auto simp: extract_user_pause_def boundary_wf_def)

lemma phase_done_then_stop:
  "extract_user_pause (lit ''when phase 1 is done, then stop'') = Some (AfterStages [lit ''stage1''])"
  by (simp add: ub_eval stage_eval)

theorem extracted_boundary_names_stages_witness:
  "[lit ''stage1''] \<noteq> [] \<and> distinct [lit ''stage1'']"
  by (rule extracted_boundary_names_stages [OF phase_done_then_stop])

section \<open>The objective and its amendments\<close>

lemma anchor_texts_amend:
  "anchor_user_texts (amend t a) =
     (if trim t = [] \<or> trim t \<in> set (oa_amendments a) then anchor_user_texts a
      else anchor_user_texts a @ [trim t])"
  by (simp add: anchor_user_texts_def amend_def Let_def split: option.split)

text \<open>A directive that is new among the amendments takes effect, a repeated one
  does not.  Amending the objective with a pause not recorded before leaves that
  pause in force for the drive; but an amendment equal to any earlier one is
  dropped, so the boundary stays what it was, whatever the repeated words say.\<close>

theorem amended_directive_in_force:
  assumes "extract_user_pause (trim t) = Some b"
  shows "effective_user_pause (anchor_user_texts (amend t a)) =
    (if trim t \<in> set (oa_amendments a) then effective_user_pause (anchor_user_texts a) else Some b)"
proof -
  have "trim t \<noteq> []" using assms by (auto simp: extract_user_pause_def split_sentences_def)
  with assms show ?thesis by (simp add: anchor_texts_amend effective_snoc boundary_step_def)
qed

lemma trim_stop_now: "trim (lit ''stop now'') = lit ''stop now''"
  "trim (lit ''go on'') = lit ''go on''"
  by (simp_all add: lit_def trim_def trim_end_def trim_end_matches_def trim_start_def
      trim_start_matches_def is_whitespace_def)

theorem amended_directive_in_force_witness:
  "effective_user_pause (anchor_user_texts
     (amend (lit ''stop now'') (from_user_message (lit ''fix it'')))) = Some Now"
proof -
  have "extract_user_pause (trim (lit ''stop now'')) = Some Now"
    by (simp only: trim_stop_now stop_now_is_pause)
  from amended_directive_in_force [OF this, of "from_user_message (lit ''fix it'')"]
  show ?thesis by (simp add: from_user_message_def objective_new_def)
qed

text \<open>The user says stop, go on, and stop again: the second stop is lost.  The
  drive reads no boundary, although the same three messages read as a sequence
  leave the user's stop in force.\<close>

theorem repeated_pause_is_lost:
  "(let a = amend (lit ''stop now'') (amend (lit ''go on'') (amend (lit ''stop now'')
              (from_user_message (lit ''fix it''))))
    in effective_user_pause (anchor_user_texts a) = None
       \<and> \<not> snd (user_pause_state False None a plan))
   \<and> effective_user_pause
        [lit ''fix it'', lit ''stop now'', lit ''go on'', lit ''stop now''] = Some Now"
  using stop_now_is_pause go_on_releases
  by (simp add: Let_def from_user_message_def objective_new_def amend_def trim_stop_now
      anchor_user_texts_def effective_user_pause_def boundary_step_def user_pause_state_def
      reached_by_def)

section \<open>Where the reading departs from its documentation\<close>

lemma trim_end_matches_last:
  "trim_end_matches p s \<noteq> [] \<Longrightarrow> \<not> p (last (trim_end_matches p s))"
  using hd_dropWhile [of p "rev s"] by (simp add: trim_end_matches_def last_rev)

lemma spaced_negation_never_ends_tail:
  assumes "n \<in> set negations_spaced"
  shows "\<not> ends_with n (negation_tail s)"
proof
  assume "ends_with n (negation_tail s)"
  moreover have "n \<noteq> []" and "last n = 32"
    using assms by (auto simp: negations_spaced_def lit_def)
  ultimately have "negation_tail s \<noteq> []" and "last (negation_tail s) = 32"
    by (auto simp: ends_with_iff)
  then show False
    using trim_end_matches_last [of negation_trim "to_ascii_lowercase (drop (length s - 10) s)"]
    by (simp add: negation_tail_def negation_trim_def)
qed

lemma forbidden_pauses:
  "extract_user_pause (lit ''do not pause here'') = Some Now"
  "extract_user_pause (lit ''don't stop here'') = Some Now"
  subgoal by (simp add: ub_eval stage_eval)
  subgoal by (simp add: ub_eval stage_eval)
  done

text \<open>The English negations never apply.  The text before a cue is stripped of
  trailing spaces and then compared with negations that end in a space, so only
  the Chinese negations can negate a cue; a sentence that forbids pausing is
  read as an order to pause.\<close>

theorem english_negation_ignored:
  "(cue_negated s \<longleftrightarrow> (\<exists>n \<in> set negations_plain. ends_with n (negation_tail s)))
   \<and> extract_user_pause (lit ''do not pause here'') = Some Now
   \<and> extract_user_pause (lit ''don't stop here'') = Some Now"
proof (intro conjI)
  show "cue_negated s \<longleftrightarrow> (\<exists>n \<in> set negations_plain. ends_with n (negation_tail s))"
    using spaced_negation_never_ends_tail by (auto simp: cue_negated_def list_ex_iff)
qed (rule forbidden_pauses)+

text \<open>A stage named after the directive is not tied to it.  The module
  documents \<open>stop after phase 1\<close> as a stage boundary; it is read as "after any
  step", and a plan reaches it with phase 1 not started.\<close>

theorem stage_after_cue_not_named:
  "extract_user_pause (lit ''stop after phase 1'') = Some AfterAny
   \<and> reached_steps AfterAny
       [(lit ''read the code'', lit ''completed''), (lit ''phase 1: build'', lit ''pending'')]"
  by (simp add: ub_eval stage_eval step_done_def)

text \<open>A compound Chinese numeral names the wrong stage: "the eleventh stage" is
  the marker of stage 1 in one word order and of stage 10 in the other, so a plan
  whose eleventh stage is done reaches a boundary after stage 1.\<close>

theorem eleventh_stage_misread:
  "extract_stage_markers [31532, 21313, 19968, 38454, 27573] = [marker ''stage'' (lit ''1'')]
   \<and> extract_stage_markers [38454, 27573, 21313, 19968] = [marker ''stage'' (lit ''10'')]
   \<and> reached_steps (AfterStages [marker ''stage'' (lit ''1'')])
       [([31532, 21313, 19968, 38454, 27573], lit ''completed'')]"
proof -
  have "extract_stage_markers [31532, 21313, 19968, 38454, 27573] = [marker ''stage'' (lit ''1'')]"
    by (simp add: stage_eval)
  moreover have "extract_stage_markers [38454, 27573, 21313, 19968] = [marker ''stage'' (lit ''10'')]"
    by (simp add: stage_eval)
  ultimately show ?thesis by (simp add: names_stage_def step_done_def)
qed

text \<open>Acknowledgements are matched case-sensitively although the directive after
  them is not.\<close>

theorem capital_acknowledgement_not_a_release:
  "authorizes_continuation (lit ''yes, continue'') \<and> authorizes_continuation (lit ''Continue'')
   \<and> \<not> authorizes_continuation (lit ''Yes, continue'')"
  by (simp add: ub_eval continue_eval)

end
