(* ===== verification/Checkpoint.thy ===== *)
theory Checkpoint
  imports Lifecycle_State
begin

text \<open>
  The durable goal checkpoint (leveler-lifecycle, checkpoint.rs): its payload,
  the projection of the plan, the clamp that keeps it compact and the two
  renderings.  Slices of a Rust string are taken at UTF-8 byte offsets that the
  code first moves to a character boundary; \<open>slice_to\<close> and \<open>slice_from\<close> are those
  slices over code points.
\<close>

section \<open>Byte offsets of a string\<close>

fun is_char_boundary :: "rstr \<Rightarrow> nat \<Rightarrow> bool" where
  "is_char_boundary [] n = (n = 0)"
| "is_char_boundary (c # cs) n =
     (n = 0 \<or> (utf8_len c \<le> n \<and> is_char_boundary cs (n - utf8_len c)))"

fun slice_to :: "rstr \<Rightarrow> nat \<Rightarrow> rstr" where
  "slice_to [] n = []"
| "slice_to (c # cs) n = (if n = 0 then [] else c # slice_to cs (n - utf8_len c))"

fun slice_from :: "rstr \<Rightarrow> nat \<Rightarrow> rstr" where
  "slice_from [] n = []"
| "slice_from (c # cs) n = (if n = 0 then c # cs else slice_from cs (n - utf8_len c))"

fun floor_boundary :: "rstr \<Rightarrow> nat \<Rightarrow> nat" where
  "floor_boundary s 0 = 0"
| "floor_boundary s (Suc n) =
     (if is_char_boundary s (Suc n) then Suc n else floor_boundary s n)"

text \<open>The upward search stops at the latest at the end of the string; the bound
  keeps it total beyond it, where the source never calls it.\<close>

function ceil_boundary :: "rstr \<Rightarrow> nat \<Rightarrow> nat" where
  "ceil_boundary s n =
     (if is_char_boundary s n \<or> byte_len s \<le> n then n else ceil_boundary s (Suc n))"
  by pat_completeness auto
termination by (relation "measure (\<lambda>(s, n). byte_len s - n)") auto

declare ceil_boundary.simps [simp del]

section \<open>The payload\<close>

definition GOAL_CHECKPOINT_SCHEMA_VERSION :: int where
  "GOAL_CHECKPOINT_SCHEMA_VERSION = 1"

definition MAX_LIST_ITEMS :: nat where "MAX_LIST_ITEMS = 20"
definition MAX_TEXT_LEN :: nat where "MAX_TEXT_LEN = 8192"
definition MARKER_RESERVE :: nat where "MARKER_RESERVE = 64"

datatype checkpoint_findings = Known nat "rstr list" | Unknown

record checkpoint_child =
  cc_child_id :: rstr
  cc_nickname :: rstr
  cc_completed :: bool
  cc_contribution :: "child_result_projection option"

record checkpoint_workspace =
  cw_branch :: "rstr option"
  cw_head :: "rstr option"
  cw_dirty :: "bool option"
  cw_changed_paths :: "rstr list"

record checkpoint_plan =
  cp_total :: nat
  cp_completed :: nat
  cp_completed_steps :: "rstr list"
  cp_next_step :: "rstr option"

record goal_checkpoint =
  gc_objective :: rstr
  gc_lineage_root_turn_id :: "rstr option"
  gc_transcript_ordinal :: "nat option"
  gc_plan :: "checkpoint_plan option"
  gc_findings :: checkpoint_findings
  gc_children :: "checkpoint_child list"
  gc_artifact_refs :: "rstr list"
  gc_workspace :: checkpoint_workspace
  gc_goal_summary :: "rstr option"
  gc_phase :: "rstr option"
  gc_current_step :: "rstr option"
  gc_completed_milestones :: "rstr list"
  gc_known_limitations :: "rstr list"
  gc_unresolved_work :: "rstr list"
  gc_next_action :: "rstr option"
  gc_display_summary :: "rstr option"

section \<open>Clamping\<close>

text \<open>U+2026 is 8230.\<close>

definition elision_marker :: "nat \<Rightarrow> rstr" where
  "elision_marker n =
     [10] @ lit ''['' @ [8230] @ lit '' '' @ show_nat n @
     lit '' bytes elided to bound the checkpoint '' @ [8230] @ lit '']'' @ [10]"

definition bounded_text :: "rstr \<Rightarrow> rstr" where
  "bounded_text s =
     (if byte_len s \<le> MAX_TEXT_LEN then s
      else
        (let tail_budget = MAX_TEXT_LEN div 3;
             head = floor_boundary s (MAX_TEXT_LEN - tail_budget - MARKER_RESERVE);
             tl_at = ceil_boundary s (byte_len s - tail_budget)
         in slice_to s head @ elision_marker (tl_at - head) @ slice_from s tl_at))"

definition bounded_list :: "rstr list \<Rightarrow> rstr list" where
  "bounded_list xs = take MAX_LIST_ITEMS xs"

definition plan_from_state :: "plan_state \<Rightarrow> checkpoint_plan option" where
  "plan_from_state plan =
     (if plan_is_empty plan then None
      else
        (let completed = map ps_step (filter (\<lambda>s. ps_status s = lit ''completed'') (pl_steps plan));
             current_total = length (filter (\<lambda>s. ps_status s \<noteq> ABANDONED) (pl_steps plan)) mod 2 ^ 32
         in Some \<lparr>cp_total = current_total, cp_completed = length completed mod 2 ^ 32,
                  cp_completed_steps = bounded_list (map bounded_text completed),
                  cp_next_step = (case open_steps plan of [] \<Rightarrow> None
                                  | s # _ \<Rightarrow> Some (bounded_text (ps_step s)))\<rparr>))"

definition bounded_items :: "rstr list \<Rightarrow> rstr list" where
  "bounded_items xs = bounded_list (map bounded_text xs)"

definition bounded :: "goal_checkpoint \<Rightarrow> goal_checkpoint" where
  "bounded c =
     c\<lparr>gc_objective := bounded_text (gc_objective c),
       gc_goal_summary := map_option bounded_text (gc_goal_summary c),
       gc_phase := map_option bounded_text (gc_phase c),
       gc_current_step := map_option bounded_text (gc_current_step c),
       gc_next_action := map_option bounded_text (gc_next_action c),
       gc_display_summary := map_option bounded_text (gc_display_summary c),
       gc_artifact_refs := bounded_items (gc_artifact_refs c),
       gc_completed_milestones := bounded_items (gc_completed_milestones c),
       gc_known_limitations := bounded_items (gc_known_limitations c),
       gc_unresolved_work := bounded_items (gc_unresolved_work c)\<rparr>"

section \<open>Renderings\<close>

text \<open>The display line: U+8BA1 U+5212 (plan), U+9879 U+53D1 U+73B0 (findings),
  U+8FDB U+5EA6 U+5DF2 U+8BB0 U+5F55 (progress recorded), joined by U+00B7.\<close>

definition fallback_display_summary :: "goal_checkpoint \<Rightarrow> rstr" where
  "fallback_display_summary c =
     (let plan_part = (case gc_plan c of None \<Rightarrow> []
            | Some p \<Rightarrow> [[35745, 21010, 32] @ show_nat (cp_completed p) @ lit ''/'' @ show_nat (cp_total p)]);
          finding_part = (case gc_findings c of
              Known tot _ \<Rightarrow> if tot > 0 then [show_nat tot @ [32, 39033, 21457, 29616]] else []
            | Unknown \<Rightarrow> []);
          parts = plan_part @ finding_part
      in join [32, 183, 32] (if parts = [] then [[36827, 24230, 24050, 35760, 24405]] else parts))"

definition section_text :: "rstr \<Rightarrow> rstr \<Rightarrow> rstr" where
  "section_text title body = [10] @ title @ lit '':'' @ [10] @ body @ [10]"

definition list_text :: "rstr \<Rightarrow> rstr list \<Rightarrow> rstr" where
  "list_text title items =
     [10] @ title @ lit '':'' @ [10] @ concat (map (\<lambda>i. lit ''- '' @ i @ [10]) items)"

definition workspace_line :: "checkpoint_workspace \<Rightarrow> rstr option" where
  "workspace_line ws =
     (if cw_branch ws = None \<and> cw_head ws = None \<and> cw_dirty ws = None then None
      else
        (let branch = (case cw_branch ws of None \<Rightarrow> lit ''unknown-branch'' | Some b \<Rightarrow> b);
             head = (case cw_head ws of None \<Rightarrow> lit ''unknown-head'' | Some h \<Rightarrow> h);
             dirty = (case cw_dirty ws of Some True \<Rightarrow> lit ''dirty'' | Some False \<Rightarrow> lit ''clean''
                      | None \<Rightarrow> lit ''state unknown'')
         in Some (branch @ lit '' @ '' @ head @ lit '' ('' @ dirty @ lit '')'')))"

definition opt_section :: "string \<Rightarrow> rstr option \<Rightarrow> rstr" where
  "opt_section title body = (case body of None \<Rightarrow> [] | Some b \<Rightarrow> section_text (lit title) b)"

definition opt_list :: "string \<Rightarrow> rstr list \<Rightarrow> rstr" where
  "opt_list title items = (if items = [] then [] else list_text (lit title) items)"

definition plan_section :: "checkpoint_plan \<Rightarrow> rstr" where
  "plan_section p =
     section_text (lit ''Plan'')
       (show_nat (cp_completed p) @ lit ''/'' @ show_nat (cp_total p) @ lit '' steps completed'' @
        (case cp_next_step p of None \<Rightarrow> [] | Some n \<Rightarrow> lit ''; next step: '' @ n))"

text \<open>U+2014 is 8212.\<close>

definition findings_section :: "checkpoint_findings \<Rightarrow> rstr" where
  "findings_section f =
     section_text (lit ''Findings'')
       (case f of
          Known tot refs \<Rightarrow> show_nat tot @ lit '' total'' @
            (if refs = [] then [] else lit '' ('' @ join (lit '', '') refs @ lit '')'')
        | Unknown \<Rightarrow> lit ''unknown (ledger not read) '' @ [8212] @ lit '' NOT zero'')"

definition child_section :: "checkpoint_child \<Rightarrow> rstr" where
  "child_section ch =
     section_text (lit ''Child '' @ cc_nickname ch)
       (if cc_completed ch then
          (case cc_contribution ch of
             Some c \<Rightarrow> if cr_findings_total c = 0 then lit ''completed, no findings''
                       else lit ''completed, '' @ show_nat (cr_findings_total c) @ lit '' findings''
           | None \<Rightarrow> lit ''completed, contribution not measured'')
        else lit ''INCOMPLETE '' @ [8212] @ lit '' produced no result'')"

definition context_block :: "goal_checkpoint \<Rightarrow> rstr" where
  "context_block c =
     lit ''[GOAL CHECKPOINT]'' @ [10] @
     section_text (lit ''Goal'') (gc_objective c) @
     opt_section ''Summary'' (gc_goal_summary c) @
     opt_section ''Phase'' (gc_phase c) @
     opt_list ''Completed'' (gc_completed_milestones c) @
     (case gc_plan c of None \<Rightarrow> [] | Some p \<Rightarrow> plan_section p) @
     findings_section (gc_findings c) @
     concat (map child_section (gc_children c)) @
     opt_list ''Known limitations'' (gc_known_limitations c) @
     opt_list ''Unresolved'' (gc_unresolved_work c) @
     opt_section ''Workspace'' (workspace_line (gc_workspace c)) @
     opt_section ''Next'' (gc_next_action c) @
     [10] @ lit ''Events and messages after this checkpoint are newer than it.'' @ [10]"

section \<open>Slices at character boundaries\<close>

lemma boundary_zero [simp]: "is_char_boundary s 0"
  by (cases s) auto

lemma boundary_end: "is_char_boundary s (byte_len s)"
  by (induction s) (auto simp: utf8_len_def)

lemma boundary_le: "is_char_boundary s n \<Longrightarrow> n \<le> byte_len s"
  by (induction s n rule: is_char_boundary.induct) auto

lemma slice_split: "is_char_boundary s n \<Longrightarrow> slice_to s n @ slice_from s n = s"
  by (induction s n rule: is_char_boundary.induct) auto

lemma slice_to_len: "is_char_boundary s n \<Longrightarrow> byte_len (slice_to s n) = n"
  by (induction s n rule: is_char_boundary.induct) auto

lemma slice_from_len: "is_char_boundary s n \<Longrightarrow> byte_len (slice_from s n) = byte_len s - n"
  using slice_split [of s n] slice_to_len [of s n] byte_len_append [of "slice_to s n" "slice_from s n"]
  by simp

lemma slice_to_prefix:
  "is_char_boundary s m \<Longrightarrow> is_char_boundary s n \<Longrightarrow> m \<le> n \<Longrightarrow>
   \<exists>d. slice_to s n = slice_to s m @ d \<and> byte_len d = n - m"
proof (induction s m arbitrary: n rule: is_char_boundary.induct)
  case (1 m)
  then show ?case by simp
next
  case (2 c cs m)
  show ?case
  proof (cases "m = 0")
    case True
    with 2(3) slice_to_len [of "c # cs" n] show ?thesis by auto
  next
    case False
    with "2.prems" have n: "n \<noteq> 0" "utf8_len c \<le> m" "is_char_boundary cs (m - utf8_len c)"
      "is_char_boundary cs (n - utf8_len c)" by auto
    moreover have "m - utf8_len c \<le> n - utf8_len c" using "2.prems" by simp
    moreover have "m \<noteq> 0 \<and> utf8_len c \<le> m" using n False by simp
    ultimately obtain d where
      "slice_to cs (n - utf8_len c) = slice_to cs (m - utf8_len c) @ d"
      "byte_len d = n - utf8_len c - (m - utf8_len c)"
      using "2.IH" [of "n - utf8_len c"] by blast
    with n False "2.prems" show ?thesis by auto
  qed
qed

lemma floor_boundary_ok: "is_char_boundary s (floor_boundary s n) \<and> floor_boundary s n \<le> n"
  by (induction s n rule: floor_boundary.induct) auto

lemma ceil_boundary_ok:
  "n \<le> byte_len s \<Longrightarrow> is_char_boundary s (ceil_boundary s n) \<and> n \<le> ceil_boundary s n"
proof (induction s n rule: ceil_boundary.induct)
  case (1 s n)
  show ?case
  proof (cases "is_char_boundary s n \<or> byte_len s \<le> n")
    case True
    with "1.prems" boundary_end [of s] show ?thesis
      by (metis ceil_boundary.simps le_antisym order_refl)
  next
    case False
    then have "ceil_boundary s n = ceil_boundary s (Suc n)" by (subst ceil_boundary.simps) simp
    with 1 False show ?thesis by auto
  qed
qed

section \<open>Properties of the clamp\<close>

lemma show_nat_length: "n < 10 ^ k \<Longrightarrow> 1 \<le> k \<Longrightarrow> length (show_nat n) \<le> k"
proof (induction n arbitrary: k rule: show_nat.induct)
  case (1 n)
  show ?case
  proof (cases "n < 10")
    case True
    with "1.prems" show ?thesis by (simp add: show_nat.simps [of n])
  next
    case False
    with "1.prems" obtain j where k: "k = Suc j" "1 \<le> j" by (cases k; cases "k - 1") auto
    with "1.prems" have "n div 10 < 10 ^ j" by (simp add: less_mult_imp_div_less mult.commute)
    with "1.IH" [OF False this] k False show ?thesis by (simp add: show_nat.simps [of n])
  qed
qed

lemma ascii_byte_len: "\<forall>c \<in> set s. c < 128 \<Longrightarrow> byte_len s = length s"
  by (induction s) (auto simp: utf8_len_def)

lemma show_nat_byte_len: "byte_len (show_nat n) = length (show_nat n)"
  by (rule ascii_byte_len) (auto dest!: show_nat_digits simp: is_ascii_digit_def)

lemma elision_marker_len: "byte_len (elision_marker n) = 49 + length (show_nat n)"
  by (simp add: elision_marker_def show_nat_byte_len lit_def utf8_len_def)

lemma bounded_text_split:
  assumes "MAX_TEXT_LEN < byte_len s"
  shows "\<exists>a m b. s = a @ m @ b \<and> bounded_text s = a @ elision_marker (byte_len m) @ b
    \<and> byte_len a \<le> 5398 \<and> byte_len b \<le> 2730"
proof -
  define h where "h = floor_boundary s (MAX_TEXT_LEN - MAX_TEXT_LEN div 3 - MARKER_RESERVE)"
  define t where "t = ceil_boundary s (byte_len s - MAX_TEXT_LEN div 3)"
  have h: "is_char_boundary s h" "h \<le> 5398"
    using floor_boundary_ok [of s 5398] by (simp_all add: h_def MAX_TEXT_LEN_def MARKER_RESERVE_def)
  have t: "is_char_boundary s t" "byte_len s - 2730 \<le> t"
    using ceil_boundary_ok [of "byte_len s - 2730" s] by (simp_all add: t_def MAX_TEXT_LEN_def)
  have "h \<le> t" using h(2) t(2) assms by (simp add: MAX_TEXT_LEN_def)
  then obtain d where d: "slice_to s t = slice_to s h @ d" "byte_len d = t - h"
    using slice_to_prefix [OF h(1) t(1)] by blast
  have "s = slice_to s h @ d @ slice_from s t" using slice_split [OF t(1)] d by simp
  moreover have "bounded_text s = slice_to s h @ elision_marker (byte_len d) @ slice_from s t"
    using assms d by (simp add: bounded_text_def h_def t_def Let_def)
  moreover have "byte_len (slice_to s h) \<le> 5398" using slice_to_len [OF h(1)] h by simp
  moreover have "byte_len (slice_from s t) \<le> 2730"
    using slice_from_len [OF t(1)] t boundary_le [OF t(1)] by simp
  ultimately show ?thesis by blast
qed

lemma bounded_text_len:
  assumes "byte_len s < 10 ^ 15"
  shows "byte_len (bounded_text s) \<le> MAX_TEXT_LEN"
proof (cases "byte_len s \<le> MAX_TEXT_LEN")
  case True
  then show ?thesis by (simp add: bounded_text_def)
next
  case False
  then obtain a m b where split: "s = a @ m @ b"
    "bounded_text s = a @ elision_marker (byte_len m) @ b" "byte_len a \<le> 5398" "byte_len b \<le> 2730"
    using bounded_text_split [of s] by auto
  then have "byte_len m < 10 ^ 15" using assms by simp
  then have "length (show_nat (byte_len m)) \<le> 15" by (rule show_nat_length) simp
  with split show ?thesis by (simp add: elision_marker_len MAX_TEXT_LEN_def)
qed

lemma bounded_text_idem: "byte_len s < 10 ^ 15 \<Longrightarrow> bounded_text (bounded_text s) = bounded_text s"
  using bounded_text_len [of s] by (simp add: bounded_text_def)

text \<open>Clamping a text keeps both of its ends and fits the bound.  A text of at
  most 8192 bytes is untouched; a longer one is a prefix of at most 5398 bytes, a
  marker with the exact number of bytes left out, and a suffix of at most 2730
  bytes, cut between characters; for any text below 10^15 bytes the whole
  result is at most 8192 bytes, so clamping twice is clamping once.\<close>

theorem bounded_text_spec:
  assumes "byte_len s < 10 ^ 15"
  shows "byte_len (bounded_text s) \<le> MAX_TEXT_LEN
    \<and> (byte_len s \<le> MAX_TEXT_LEN \<longrightarrow> bounded_text s = s)
    \<and> (MAX_TEXT_LEN < byte_len s \<longrightarrow>
        (\<exists>a m b. s = a @ m @ b \<and> bounded_text s = a @ elision_marker (byte_len m) @ b
           \<and> byte_len a \<le> 5398 \<and> byte_len b \<le> 2730))
    \<and> bounded_text (bounded_text s) = bounded_text s"
  using bounded_text_len [OF assms] bounded_text_idem [OF assms] bounded_text_split [of s]
  by (simp add: bounded_text_def)

lemma byte_len_replicate: "byte_len (replicate n c) = n * utf8_len c"
  by (induction n) auto

theorem bounded_text_spec_witness:
  "byte_len (bounded_text (replicate 10000 20013)) \<le> MAX_TEXT_LEN"
proof -
  have "byte_len (replicate 10000 20013) < 10 ^ 15"
    by (simp add: byte_len_replicate utf8_len_def)
  from bounded_text_spec [OF this] show ?thesis by blast
qed

definition text_fits :: "rstr \<Rightarrow> bool" where
  "text_fits s \<longleftrightarrow> byte_len s < 10 ^ 15"

definition checkpoint_fits :: "goal_checkpoint \<Rightarrow> bool" where
  "checkpoint_fits c \<longleftrightarrow> text_fits (gc_objective c)
     \<and> (\<forall>w \<in> {gc_goal_summary c, gc_phase c, gc_current_step c, gc_next_action c, gc_display_summary c}.
          \<forall>s. w = Some s \<longrightarrow> text_fits s)
     \<and> (\<forall>xs \<in> {gc_artifact_refs c, gc_completed_milestones c, gc_known_limitations c, gc_unresolved_work c}.
          \<forall>s \<in> set xs. text_fits s)"

lemma bounded_list_idem: "bounded_list (bounded_list xs) = bounded_list xs"
  by (simp add: bounded_list_def)

lemma bounded_items_ok:
  assumes "\<forall>s \<in> set xs. text_fits s"
  shows "length (bounded_items xs) \<le> MAX_LIST_ITEMS"
    and "\<forall>s \<in> set (bounded_items xs). byte_len s \<le> MAX_TEXT_LEN"
    and "bounded_items (bounded_items xs) = bounded_items xs"
proof -
  show "length (bounded_items xs) \<le> MAX_LIST_ITEMS"
    by (simp add: bounded_items_def bounded_list_def)
  show "\<forall>s \<in> set (bounded_items xs). byte_len s \<le> MAX_TEXT_LEN"
    using assms bounded_text_len
    by (auto simp: bounded_items_def bounded_list_def text_fits_def dest!: in_set_takeD)
  have "map bounded_text (map bounded_text xs) = map bounded_text xs"
    using assms bounded_text_idem by (auto simp: text_fits_def)
  then show "bounded_items (bounded_items xs) = bounded_items xs"
    unfolding bounded_items_def bounded_list_def by (metis take_map take_take min.idem)
qed

text \<open>Clamping a checkpoint bounds what the semantic layer produced: every
  free text is at most 8192 bytes and every clamped list has at most 20 items,
  the structured facts (plan, findings, children, workspace, lineage) are not
  touched, and a clamped checkpoint is a fixed point.\<close>

theorem bounded_checkpoint:
  assumes "checkpoint_fits c"
  shows "byte_len (gc_objective (bounded c)) \<le> MAX_TEXT_LEN
    \<and> (\<forall>s. gc_goal_summary (bounded c) = Some s \<longrightarrow> byte_len s \<le> MAX_TEXT_LEN)
    \<and> length (gc_unresolved_work (bounded c)) \<le> MAX_LIST_ITEMS
    \<and> (\<forall>s \<in> set (gc_unresolved_work (bounded c)). byte_len s \<le> MAX_TEXT_LEN)
    \<and> gc_plan (bounded c) = gc_plan c \<and> gc_findings (bounded c) = gc_findings c
    \<and> gc_children (bounded c) = gc_children c \<and> gc_workspace (bounded c) = gc_workspace c
    \<and> gc_lineage_root_turn_id (bounded c) = gc_lineage_root_turn_id c
    \<and> bounded (bounded c) = bounded c"
proof -
  have opt: "map_option bounded_text (map_option bounded_text x) = map_option bounded_text x"
    if "x \<in> {gc_goal_summary c, gc_phase c, gc_current_step c, gc_next_action c, gc_display_summary c}" for x
    using assms that bounded_text_idem by (cases x) (auto simp: checkpoint_fits_def text_fits_def)
  have obj: "text_fits (gc_objective c)" using assms by (simp add: checkpoint_fits_def)
  note lists = bounded_items_ok [of "gc_artifact_refs c"] bounded_items_ok [of "gc_completed_milestones c"]
    bounded_items_ok [of "gc_known_limitations c"] bounded_items_ok [of "gc_unresolved_work c"]
  have idem: "bounded (bounded c) = bounded c"
    using obj bounded_text_idem assms lists(3,6,9,12) opt
    by (simp add: bounded_def checkpoint_fits_def text_fits_def)
  have summary: "byte_len s \<le> MAX_TEXT_LEN" if "gc_goal_summary (bounded c) = Some s" for s
    using that assms bounded_text_len by (auto simp: bounded_def checkpoint_fits_def text_fits_def)
  have len: "byte_len (gc_objective (bounded c)) \<le> MAX_TEXT_LEN"
    using obj bounded_text_len by (simp add: bounded_def text_fits_def)
  have unresolved: "length (gc_unresolved_work (bounded c)) \<le> MAX_LIST_ITEMS"
    "\<forall>s \<in> set (gc_unresolved_work (bounded c)). byte_len s \<le> MAX_TEXT_LEN"
    using assms lists(10,11) by (simp_all add: bounded_def checkpoint_fits_def)
  show ?thesis
    using idem summary len unresolved by (simp add: bounded_def)
qed

definition sample_checkpoint :: goal_checkpoint where
  "sample_checkpoint =
     \<lparr>gc_objective = lit ''fix'', gc_lineage_root_turn_id = None, gc_transcript_ordinal = None,
      gc_plan = None, gc_findings = Unknown, gc_children = [], gc_artifact_refs = [],
      gc_workspace = \<lparr>cw_branch = None, cw_head = None, cw_dirty = None, cw_changed_paths = []\<rparr>,
      gc_goal_summary = None, gc_phase = None, gc_current_step = None,
      gc_completed_milestones = [], gc_known_limitations = [],
      gc_unresolved_work = replicate 30 (lit ''todo''), gc_next_action = None,
      gc_display_summary = None\<rparr>"

theorem bounded_checkpoint_witness:
  "length (gc_unresolved_work (bounded sample_checkpoint)) \<le> MAX_LIST_ITEMS"
proof -
  have "checkpoint_fits sample_checkpoint"
    by (simp add: checkpoint_fits_def sample_checkpoint_def text_fits_def lit_def utf8_len_def)
  from bounded_checkpoint [OF this] show ?thesis by blast
qed

section \<open>Plan progress\<close>

lemma filter_length_split: "length (filter P xs) + length (filter (\<lambda>x. \<not> P x) xs) = length xs"
  by (induction xs) auto

text \<open>The checkpoint's plan progress counts declared steps and nothing else.
  For a plan below 2^32 steps the completed count never exceeds the total, an
  abandoned step is in neither, the next step is the first open one, and there
  is no next step exactly when the counts are equal.\<close>

theorem plan_projection:
  assumes "plan_from_state plan = Some c" and "length (pl_steps plan) < 2 ^ 32"
  shows "cp_total c = cp_completed c + length (open_steps plan)
    \<and> cp_completed c = length (filter (\<lambda>s. ps_status s = lit ''completed'') (pl_steps plan))
    \<and> cp_next_step c = map_option (bounded_text \<circ> ps_step) (find (\<lambda>s. \<not> is_closed (ps_status s)) (pl_steps plan))
    \<and> (cp_next_step c = None \<longleftrightarrow> cp_completed c = cp_total c)
    \<and> length (cp_completed_steps c) \<le> MAX_LIST_ITEMS"
proof -
  have ne: "lit ''completed'' \<noteq> ABANDONED" by (simp add: ABANDONED_def)
  have small: "length (filter P (pl_steps plan)) < 2 ^ 32" for P
    using assms(2) by (meson le_less_trans length_filter_le)
  have split: "length (filter (\<lambda>s. ps_status s \<noteq> ABANDONED) ss)
      = length (filter (\<lambda>s. ps_status s = lit ''completed'') ss)
        + length (filter (\<lambda>s. \<not> is_closed (ps_status s)) ss)" for ss
    by (induction ss) (use ne in \<open>auto simp: is_closed_def\<close>)
  have find_open: "find P ss = (case filter P ss of [] \<Rightarrow> None | x # _ \<Rightarrow> Some x)"
    for P and ss :: "plan_step list"
    by (induction ss) auto
  from assms(1) have "\<not> plan_is_empty plan" by (simp add: plan_from_state_def split: if_splits)
  with assms(1) have total: "cp_total c = length (filter (\<lambda>s. ps_status s \<noteq> ABANDONED) (pl_steps plan))"
    and compl: "cp_completed c = length (filter (\<lambda>s. ps_status s = lit ''completed'') (pl_steps plan))"
    and next_eq: "cp_next_step c = (case open_steps plan of [] \<Rightarrow> None | s # _ \<Rightarrow> Some (bounded_text (ps_step s)))"
    and few: "length (cp_completed_steps c) \<le> MAX_LIST_ITEMS"
    using small by (auto simp: plan_from_state_def Let_def bounded_list_def)
  have next_find: "cp_next_step c = map_option (bounded_text \<circ> ps_step)
      (find (\<lambda>s. \<not> is_closed (ps_status s)) (pl_steps plan))"
    by (simp add: next_eq open_steps_def find_open split: list.split)
  have sum: "cp_total c = cp_completed c + length (open_steps plan)"
    using total compl split by (simp add: open_steps_def)
  moreover have "cp_next_step c = None \<longleftrightarrow> open_steps plan = []"
    by (simp add: next_eq split: list.split)
  ultimately show ?thesis using compl few next_find by auto
qed

theorem plan_projection_witness:
  "\<exists>c. plan_from_state \<lparr>pl_steps =
      [\<lparr>ps_step = lit ''a'', ps_status = lit ''completed'', ps_id = None, ps_origin = ModelExplicit\<rparr>,
       \<lparr>ps_step = lit ''b'', ps_status = lit ''abandoned'', ps_id = None, ps_origin = ModelExplicit\<rparr>]\<rparr>
     = Some c \<and> cp_completed c = cp_total c \<and> cp_next_step c = None"
proof -
  let ?p = "\<lparr>pl_steps =
      [\<lparr>ps_step = lit ''a'', ps_status = lit ''completed'', ps_id = None, ps_origin = ModelExplicit\<rparr>,
       \<lparr>ps_step = lit ''b'', ps_status = lit ''abandoned'', ps_id = None, ps_origin = ModelExplicit\<rparr>]\<rparr>"
  obtain c where c: "plan_from_state ?p = Some c"
    by (simp add: plan_from_state_def plan_is_empty_def Let_def)
  have small: "length (pl_steps ?p) < 2 ^ 32" by simp
  have total: "cp_total c = cp_completed c + length (open_steps ?p)"
    using plan_projection [OF c small] by (rule conjunct1)
  have "cp_next_step c = None \<longleftrightarrow> cp_completed c = cp_total c"
    using plan_projection [OF c small] by blast
  moreover have "length (open_steps ?p) = 0" by (simp add: open_steps_def is_closed_def ABANDONED_def)
  ultimately show ?thesis using c total by simp
qed

end
