(* ===== verification/Patch_Parse.thy ===== *)
theory Patch_Parse
  imports Interfaces
begin

text \<open>
  The parser of the \<open>*** Begin Patch\<close> envelope and of unified diffs
  (leveler-tools: tools/patch/parse.rs).  The parallel vectors \<open>lines\<close> and
  \<open>orig_no\<close> of the source are one list of pairs (original line number, text),
  and the cursor \<open>idx\<close> is the remaining list.  A parse error keeps the
  parameters of its message: one constructor per message of the source.
\<close>

section \<open>Data\<close>

record update_chunk =
  context_label :: "rstr option"
  old_lines :: "rstr list"
  new_lines :: "rstr list"
  is_eof :: bool

definition default_chunk :: update_chunk where
  "default_chunk = \<lparr>context_label = None, old_lines = [], new_lines = [], is_eof = False\<rparr>"

datatype file_change =
    FC_Add rstr rstr
  | FC_Delete rstr
  | FC_Update rstr "rstr option" "update_chunk list"

datatype patch_error =
    MissingBegin
  | UnrecognizedHeader rstr
  | ConflictMarker nat rstr
  | BadHunkMarker nat rstr
  | NoHunks nat rstr
  | UnexpectedLine nat rstr
  | MissingEnd
  | DiffExpectedOldHeader rstr
  | DiffMissingNewHeader
  | DiffNoPath
  | DiffBadHunkLine rstr
  | DiffNoHunks rstr
  | DiffNoChanges

type_synonym nline = "nat \<times> rstr"

definition BEGIN_hdr :: rstr where "BEGIN_hdr = lit ''*** Begin Patch''"
definition END_hdr :: rstr where "END_hdr = lit ''*** End Patch''"
definition ADD_hdr :: rstr where "ADD_hdr = lit ''*** Add File: ''"
definition DELETE_hdr :: rstr where "DELETE_hdr = lit ''*** Delete File: ''"
definition UPDATE_hdr :: rstr where "UPDATE_hdr = lit ''*** Update File: ''"
definition MOVE_hdr :: rstr where "MOVE_hdr = lit ''*** Move to: ''"
definition EOF_hdr :: rstr where "EOF_hdr = lit ''*** End of File''"

lemmas hdr_defs = BEGIN_hdr_def END_hdr_def ADD_hdr_def DELETE_hdr_def UPDATE_hdr_def
  MOVE_hdr_def EOF_hdr_def

section \<open>Line classification\<close>

definition is_end :: "rstr \<Rightarrow> bool" where
  "is_end line = (let t = trim line in t = END_hdr \<or> t = lit ''End Patch'')"

definition is_file_header :: "rstr \<Rightarrow> bool" where
  "is_file_header line =
     (let t = trim_start line
      in starts_with ADD_hdr t \<or> starts_with DELETE_hdr t \<or> starts_with UPDATE_hdr t \<or> is_end line)"

definition normalize_line :: "rstr \<Rightarrow> rstr option" where
  "normalize_line line =
     (case strip_prefix (lit ''```'') line of
        Some rest \<Rightarrow> if list_all is_ascii_alphanumeric (trim rest) then None else Some rest
      | None \<Rightarrow> Some line)"

fun keep_lines :: "nat \<Rightarrow> rstr list \<Rightarrow> nline list" where
  "keep_lines n [] = []"
| "keep_lines n (raw # raws) =
     (case normalize_line raw of
        Some t \<Rightarrow> (n, t) # keep_lines (Suc n) raws
      | None \<Rightarrow> keep_lines (Suc n) raws)"

section \<open>Sections of the envelope\<close>

text \<open>The body of an Add File section, up to the next header.\<close>

fun add_body :: "nline list \<Rightarrow> rstr list \<Rightarrow> patch_error + (rstr list \<times> nline list)" where
  "add_body [] body = Inr (body, [])"
| "add_body ((n, l) # ls) body =
     (if is_file_header l then Inr (body, (n, l) # ls)
      else case strip_prefix (lit ''+'') l of
        Some rest \<Rightarrow> add_body ls (body @ [rest])
      | None \<Rightarrow>
          if trim l = [] then add_body ls (body @ [[]])
          else if starts_with (lit ''*** '') (trim_start l) then Inl (UnrecognizedHeader l)
          else add_body ls (body @ [l]))"

definition body_content :: "rstr list \<Rightarrow> rstr" where
  "body_content body = (let c = join [10] body in if c \<noteq> [] then c @ [10] else c)"

text \<open>The hunks of an Update File section, up to the next header.\<close>

definition cur_or_default :: "update_chunk option \<Rightarrow> update_chunk" where
  "cur_or_default cur = (case cur of Some c \<Rightarrow> c | None \<Rightarrow> default_chunk)"

definition push_cur :: "update_chunk list \<Rightarrow> update_chunk option \<Rightarrow> update_chunk list" where
  "push_cur chunks cur = (case cur of Some c \<Rightarrow> chunks @ [c] | None \<Rightarrow> chunks)"

definition labelled_chunk :: "rstr \<Rightarrow> update_chunk" where
  "labelled_chunk ctx =
     (let label = trim ctx
      in default_chunk\<lparr>context_label := (if label \<noteq> [] then Some label else None)\<rparr>)"

definition hunk_line :: "nat \<Rightarrow> rstr \<Rightarrow> update_chunk \<Rightarrow> patch_error + update_chunk" where
  "hunk_line n l chunk =
     (case l of
        [] \<Rightarrow> Inr (chunk\<lparr>old_lines := old_lines chunk @ [[]], new_lines := new_lines chunk @ [[]]\<rparr>)
      | marker # rest \<Rightarrow>
          if marker = 32 then
            Inr (chunk\<lparr>old_lines := old_lines chunk @ [rest], new_lines := new_lines chunk @ [rest]\<rparr>)
          else if marker = 45 then Inr (chunk\<lparr>old_lines := old_lines chunk @ [rest]\<rparr>)
          else if marker = 43 then Inr (chunk\<lparr>new_lines := new_lines chunk @ [rest]\<rparr>)
          else
            (let t = trim_start l in
             if starts_with (lit ''======='') t \<or> starts_with (lit ''<<<<<<<'') t
                \<or> starts_with (lit ''>>>>>>>'') t
             then Inl (ConflictMarker n l)
             else Inl (BadHunkMarker n l)))"

fun update_body ::
  "nline list \<Rightarrow> update_chunk list \<Rightarrow> update_chunk option
     \<Rightarrow> patch_error + (update_chunk list \<times> nline list)" where
  "update_body [] chunks cur = Inr (push_cur chunks cur, [])"
| "update_body ((n, l) # ls) chunks cur =
     (if is_file_header l then Inr (push_cur chunks cur, (n, l) # ls)
      else if trim l = EOF_hdr then
        update_body ls chunks (Some ((cur_or_default cur)\<lparr>is_eof := True\<rparr>))
      else case strip_prefix (lit ''@@'') l of
        Some ctx \<Rightarrow> update_body ls (push_cur chunks cur) (Some (labelled_chunk ctx))
      | None \<Rightarrow>
          (case hunk_line n l (cur_or_default cur) of
             Inl e \<Rightarrow> Inl e
           | Inr c \<Rightarrow> update_body ls chunks (Some c)))"

definition take_move :: "nline list \<Rightarrow> rstr option \<times> nline list" where
  "take_move ls =
     (case ls of
        [] \<Rightarrow> (None, [])
      | (n, l) # rest \<Rightarrow>
          (case strip_prefix MOVE_hdr l of
             Some m \<Rightarrow> (Some (trim m), rest)
           | None \<Rightarrow> (None, ls)))"

lemma add_body_shorter: "add_body ls body = Inr (b, rest) \<Longrightarrow> length rest \<le> length ls"
  by (induction ls body rule: add_body.induct) (force split: if_splits option.splits)+

lemma update_body_shorter:
  "update_body ls chunks cur = Inr (cs, rest) \<Longrightarrow> length rest \<le> length ls"
  by (induction ls chunks cur rule: update_body.induct)
    (force simp: Let_def split: if_splits option.splits sum.splits)+

lemma take_move_shorter: "take_move ls = (m, rest) \<Longrightarrow> length rest \<le> length ls"
  by (auto simp: take_move_def split: list.splits option.splits)

lemma update_section_shorter:
  assumes "(m, ls') = take_move ls" and "update_body ls' chunks cur = Inr (cs, rest)"
  shows "length rest < Suc (length ls)"
  using take_move_shorter [OF assms(1) [symmetric]] update_body_shorter [OF assms(2)] by simp

section \<open>The envelope\<close>

function (sequential) parse_changes ::
  "nline list \<Rightarrow> file_change list \<Rightarrow> patch_error + file_change list" where
  "parse_changes [] changes = Inl MissingEnd"
| "parse_changes ((n, l) # ls) changes =
     (let line = trim_start l in
      if is_end line then Inr changes
      else if trim line = [] then parse_changes ls changes
      else case strip_prefix ADD_hdr line of
        Some path \<Rightarrow>
          (case add_body ls [] of
             Inl e \<Rightarrow> Inl e
           | Inr (body, rest) \<Rightarrow>
               parse_changes rest (changes @ [FC_Add (trim path) (body_content body)]))
      | None \<Rightarrow>
        (case strip_prefix DELETE_hdr line of
           Some path \<Rightarrow> parse_changes ls (changes @ [FC_Delete (trim path)])
         | None \<Rightarrow>
           (case strip_prefix UPDATE_hdr line of
              Some path \<Rightarrow>
                (case take_move ls of
                   (move_to, ls') \<Rightarrow>
                     (case update_body ls' [] None of
                        Inl e \<Rightarrow> Inl e
                      | Inr (chunks, rest) \<Rightarrow>
                          if chunks = [] then Inl (NoHunks n (trim path))
                          else parse_changes rest
                                 (changes @ [FC_Update (trim path) move_to chunks])))
            | None \<Rightarrow> Inl (UnexpectedLine n line))))"
  by pat_completeness auto
termination
  by (relation "measure (\<lambda>(ls, changes). length ls)")
    (auto dest: add_body_shorter update_section_shorter)

declare parse_changes.simps(2) [simp del]

section \<open>Unified diffs\<close>

definition looks_like_unified_diff :: "nline list \<Rightarrow> bool" where
  "looks_like_unified_diff lines =
     list_ex (\<lambda>(n, l). starts_with (lit ''--- '') l \<or> starts_with (lit ''diff --git '') l) lines"

text \<open>\<open>trim_start_matches\<close> with a string pattern strips every repetition.\<close>

function strip_all :: "rstr \<Rightarrow> rstr \<Rightarrow> rstr" where
  "strip_all p s =
     (if p = [] then s else case strip_prefix p s of Some r \<Rightarrow> strip_all p r | None \<Rightarrow> s)"
  by pat_completeness auto
termination
  by (relation "measure (\<lambda>(p, s). length s)") (auto simp: strip_prefix_Some_iff)

declare strip_all.simps [simp del]

definition unified_path :: "rstr \<Rightarrow> rstr option" where
  "unified_path raw =
     (let path = (case split_whitespace raw of [] \<Rightarrow> raw | w # ws \<Rightarrow> w)
      in if path = lit ''/dev/null'' then None
         else Some (case strip_prefix (lit ''a/'') path of
                      Some r \<Rightarrow> r
                    | None \<Rightarrow> (case strip_prefix (lit ''b/'') path of Some r \<Rightarrow> r | None \<Rightarrow> path)))"

fun skip_preamble :: "nline list \<Rightarrow> nline list" where
  "skip_preamble [] = []"
| "skip_preamble ((n, l) # ls) =
     (if trim l = [] \<or> starts_with (lit ''diff --git '') l then skip_preamble ls else (n, l) # ls)"

definition ends_file :: "rstr \<Rightarrow> bool" where
  "ends_file l = (starts_with (lit ''--- '') l \<or> starts_with (lit ''diff --git '') l)"

definition ends_hunk :: "rstr \<Rightarrow> bool" where
  "ends_hunk l = (starts_with (lit ''@@'') l \<or> ends_file l)"

text \<open>One hunk: its chunk, the added body of a new file, and the rest.\<close>

fun diff_hunk ::
  "bool \<Rightarrow> nline list \<Rightarrow> update_chunk \<Rightarrow> rstr list
     \<Rightarrow> patch_error + (update_chunk \<times> rstr list \<times> nline list)" where
  "diff_hunk is_add [] chunk body = Inr (chunk, body, [])"
| "diff_hunk is_add ((n, l) # ls) chunk body =
     (if ends_hunk l then Inr (chunk, body, (n, l) # ls)
      else if starts_with [92, 32] l then diff_hunk is_add ls chunk body
      else case l of
        [] \<Rightarrow> diff_hunk is_add ls
               (chunk\<lparr>old_lines := old_lines chunk @ [[]], new_lines := new_lines chunk @ [[]]\<rparr>) body
      | marker # rest \<Rightarrow>
          if marker = 32 then
            diff_hunk is_add ls
              (chunk\<lparr>old_lines := old_lines chunk @ [rest], new_lines := new_lines chunk @ [rest]\<rparr>) body
          else if marker = 45 then
            diff_hunk is_add ls
              (if is_add then chunk else chunk\<lparr>old_lines := old_lines chunk @ [rest]\<rparr>) body
          else if marker = 43 then
            (if is_add then diff_hunk is_add ls chunk (body @ [rest])
             else diff_hunk is_add ls (chunk\<lparr>new_lines := new_lines chunk @ [rest]\<rparr>) body)
          else Inl (DiffBadHunkLine l))"

lemma diff_hunk_shorter:
  "diff_hunk a ls c b = Inr (c', b', rest) \<Longrightarrow> length rest \<le> length ls"
  by (induction a ls c b rule: diff_hunk.induct) (force split: if_splits list.splits)+

text \<open>The hunks of one file, up to the next file header.\<close>

function (sequential) diff_file ::
  "bool \<Rightarrow> bool \<Rightarrow> nline list \<Rightarrow> update_chunk list \<Rightarrow> rstr list
     \<Rightarrow> patch_error + (update_chunk list \<times> rstr list \<times> nline list)" where
  "diff_file is_add is_delete [] chunks body = Inr (chunks, body, [])"
| "diff_file is_add is_delete ((n, l) # ls) chunks body =
     (if ends_file l then Inr (chunks, body, (n, l) # ls)
      else if starts_with (lit ''@@'') l then
        (case diff_hunk is_add ls default_chunk body of
           Inl e \<Rightarrow> Inl e
         | Inr (chunk, body', rest) \<Rightarrow>
             diff_file is_add is_delete rest
               (if \<not> is_add \<and> \<not> is_delete then chunks @ [chunk] else chunks) body')
      else diff_file is_add is_delete ls chunks body)"
  by pat_completeness auto
termination
  by (relation "measure (\<lambda>(a, d, ls, c, b). length ls)") (auto dest!: diff_hunk_shorter)

lemma diff_file_shorter:
  "diff_file a d ls c b = Inr (c', b', rest) \<Longrightarrow> length rest \<le> length ls"
  by (induction a d ls c b rule: diff_file.induct)
    (force split: if_splits sum.splits prod.splits dest!: diff_hunk_shorter)+

lemma skip_preamble_shorter: "length (skip_preamble ls) \<le> length ls"
  by (induction ls rule: skip_preamble.induct) auto

lemma diff_files_shorter:
  assumes "skip_preamble lines = x # y # ls" and "diff_file a d ls c b = Inr (c', b', rest)"
  shows "length rest < length lines"
  using skip_preamble_shorter [of lines] diff_file_shorter [OF assms(2)] assms(1) by simp

function diff_files :: "nline list \<Rightarrow> file_change list \<Rightarrow> patch_error + file_change list" where
  "diff_files lines changes =
     (case skip_preamble lines of
        [] \<Rightarrow> (if changes = [] then Inl DiffNoChanges else Inr changes)
      | (n, l) # ls \<Rightarrow>
          if \<not> starts_with (lit ''--- '') l then Inl (DiffExpectedOldHeader l)
          else
            (let old_path = unified_path (trim (strip_all (lit ''--- '') l)) in
             case ls of
               [] \<Rightarrow> Inl DiffMissingNewHeader
             | (m, l2) # ls2 \<Rightarrow>
                 if \<not> starts_with (lit ''+++ '') l2 then Inl DiffMissingNewHeader
                 else
                   (let new_path = unified_path (trim (strip_all (lit ''+++ '') l2)) in
                    case (if new_path \<noteq> None then new_path else old_path) of
                      None \<Rightarrow> Inl DiffNoPath
                    | Some path \<Rightarrow>
                        (case diff_file (old_path = None) (new_path = None) ls2 [] [] of
                           Inl e \<Rightarrow> Inl e
                         | Inr (chunks, body, rest) \<Rightarrow>
                             if old_path = None then
                               diff_files rest (changes @ [FC_Add path (body_content body)])
                             else if new_path = None then
                               diff_files rest (changes @ [FC_Delete path])
                             else if chunks = [] then Inl (DiffNoHunks path)
                             else diff_files rest (changes @ [FC_Update path None chunks])))))"
  by pat_completeness auto
termination
  by (relation "measure (\<lambda>(ls, changes). length ls)") (auto dest: diff_files_shorter)

declare diff_files.simps [simp del]

section \<open>The whole parser\<close>

fun skip_blank :: "nline list \<Rightarrow> nline list" where
  "skip_blank [] = []"
| "skip_blank ((n, l) # ls) = (if trim l = [] then skip_blank ls else (n, l) # ls)"

definition parse_patch :: "rstr \<Rightarrow> patch_error + file_change list" where
  "parse_patch input =
     (let lines = skip_blank (keep_lines 1 (str_lines input)) in
      case lines of
        (n, l) # ls \<Rightarrow>
          if trim l = BEGIN_hdr then parse_changes ls []
          else if looks_like_unified_diff lines then diff_files lines []
          else Inl MissingBegin
      | [] \<Rightarrow> Inl MissingBegin)"

end
