(* ===== verification/Patch_Apply.thy ===== *)
theory Patch_Apply
  imports Patch_Parse
begin

text \<open>
  Applying parsed hunks to file content (leveler-tools: tools/patch/seek.rs,
  tools/patch/apply.rs and the rendering of located hunks in
  tools/applied_diff.rs).  An apply failure keeps the parameters of its message.
\<close>

section \<open>Locating a run of lines\<close>

function seek_from :: "rstr list \<Rightarrow> rstr list \<Rightarrow> nat \<Rightarrow> nat option" where
  "seek_from file pat i =
     (if i + length pat \<le> length file then
        if list_all (\<lambda>j. file ! (i + j) = pat ! j) [0..<length pat] then Some i
        else seek_from file pat (Suc i)
      else None)"
  by pat_completeness auto
termination
  by (relation "measure (\<lambda>(file, pat, i). Suc (length file) - i)") auto

declare seek_from.simps [simp del]

definition seek_sequence :: "rstr list \<Rightarrow> rstr list \<Rightarrow> nat \<Rightarrow> bool \<Rightarrow> nat option" where
  "seek_sequence file pat start eof =
     (if pat = [] then Some (min start (length file))
      else if length pat > length file then None
      else seek_from file pat
             (if eof then max (length file - length pat) start else start))"

section \<open>File conventions\<close>

definition BOM :: rchar where "BOM = 65279"

fun count_crlf :: "rstr \<Rightarrow> nat" where
  "count_crlf [] = 0"
| "count_crlf [c] = 0"
| "count_crlf (c # d # cs) = (if c = 13 \<and> d = 10 then Suc (count_crlf cs) else count_crlf (d # cs))"

definition detect_crlf :: "rstr \<Rightarrow> bool" where
  "detect_crlf s =
     (let crlf = count_crlf s; lf_only = count_list s 10 - crlf in crlf > lf_only)"

text \<open>\<open>replace("\r\n", "\n")\<close> and \<open>replace('\n', "\r\n")\<close>.\<close>

fun fold_crlf :: "rstr \<Rightarrow> rstr" where
  "fold_crlf [] = []"
| "fold_crlf [c] = [c]"
| "fold_crlf (c # d # cs) = (if c = 13 \<and> d = 10 then 10 # fold_crlf cs else c # fold_crlf (d # cs))"

fun unfold_crlf :: "rstr \<Rightarrow> rstr" where
  "unfold_crlf [] = []"
| "unfold_crlf (c # cs) = (if c = 10 then 13 # 10 # unfold_crlf cs else c # unfold_crlf cs)"

definition split_lines :: "rstr \<Rightarrow> rstr list" where
  "split_lines s =
     (if s = [] then []
      else let v = split_char 10 s in if last s = 10 then butlast v else v)"

section \<open>Resolving hunks\<close>

datatype apply_error =
    ContextLabelNotFound rstr nat
  | HunkNotFound update_chunk nat

text \<open>A resolved hunk: start, matched length, replacement.\<close>

type_synonym op = "nat \<times> nat \<times> rstr list"

definition unique_line_containing :: "rstr list \<Rightarrow> rstr \<Rightarrow> nat \<Rightarrow> nat option" where
  "unique_line_containing file label start =
     (let needle = trim label in
      if needle = [] then None
      else case filter (\<lambda>i. contains needle (file ! i)) [start..<length file] of
             [i] \<Rightarrow> Some i
           | _ \<Rightarrow> None)"

definition retry_without_trailing_blank ::
  "rstr list \<Rightarrow> update_chunk \<Rightarrow> nat \<Rightarrow> apply_error + (nat \<times> nat)" where
  "retry_without_trailing_blank file chunk start =
     (if old_lines chunk \<noteq> [] \<and> last (old_lines chunk) = [] then
        (let trimmed = butlast (old_lines chunk) in
         case seek_sequence file trimmed start (is_eof chunk) of
           Some i \<Rightarrow> Inr (i, length trimmed)
         | None \<Rightarrow> Inl (HunkNotFound chunk start))
      else Inl (HunkNotFound chunk start))"

text \<open>Where the search for a hunk's body starts, and whether a label pinned it.\<close>

definition anchor :: "rstr list \<Rightarrow> update_chunk \<Rightarrow> nat \<Rightarrow> apply_error + (nat \<times> bool)" where
  "anchor file chunk search_from =
     (case context_label chunk of
        None \<Rightarrow> Inr (search_from, False)
      | Some label \<Rightarrow>
          (case seek_sequence file [label] search_from False of
             Some i \<Rightarrow> Inr (i + 1, True)
           | None \<Rightarrow>
               (case unique_line_containing file label search_from of
                  Some i \<Rightarrow> Inr (if old_lines chunk \<noteq> [] then i else i + 1, True)
                | None \<Rightarrow> Inl (ContextLabelNotFound label search_from))))"

definition resolve_chunk :: "rstr list \<Rightarrow> update_chunk \<Rightarrow> nat \<Rightarrow> apply_error + (op \<times> nat)" where
  "resolve_chunk file chunk search_from =
     (case anchor file chunk search_from of
        Inl e \<Rightarrow> Inl e
      | Inr (start, had_label) \<Rightarrow>
          if old_lines chunk = [] then
            Inr ((if had_label then min start (length file) else length file, 0, new_lines chunk),
                 search_from)
          else
            (case seek_sequence file (old_lines chunk) start (is_eof chunk) of
               Some i \<Rightarrow>
                 Inr ((i, length (old_lines chunk), new_lines chunk),
                      i + length (old_lines chunk))
             | None \<Rightarrow>
                 (case retry_without_trailing_blank file chunk start of
                    Inl e \<Rightarrow> Inl e
                  | Inr (i, n) \<Rightarrow>
                      (let replacement =
                         (if new_lines chunk \<noteq> [] \<and> last (new_lines chunk) = []
                          then butlast (new_lines chunk) else new_lines chunk)
                       in Inr ((i, n, replacement), i + n)))))"

fun resolve_chunks :: "rstr list \<Rightarrow> update_chunk list \<Rightarrow> nat \<Rightarrow> apply_error + op list" where
  "resolve_chunks file [] search_from = Inr []"
| "resolve_chunks file (c # cs) search_from =
     (case resolve_chunk file c search_from of
        Inl e \<Rightarrow> Inl e
      | Inr (op, search_from') \<Rightarrow>
          (case resolve_chunks file cs search_from' of
             Inl e \<Rightarrow> Inl e
           | Inr ops \<Rightarrow> Inr (op # ops)))"

section \<open>Splicing\<close>

record applied_hunk =
  ah_old_start :: nat
  ah_old_lines :: "rstr list"
  ah_new_start :: nat
  ah_new_lines :: "rstr list"

definition locate_op :: "rstr list \<Rightarrow> op \<Rightarrow> int \<Rightarrow> applied_hunk" where
  "locate_op file op delta =
     (case op of (st, len, repl) \<Rightarrow>
        (let end' = min (st + len) (length file);
             start = min st (length file);
             old_start = start + 1
         in \<lparr>ah_old_start = old_start,
             ah_old_lines = take (end' - start) (drop start file),
             ah_new_start = nat (max (int old_start + delta) 1),
             ah_new_lines = repl\<rparr>))"

definition hunk_delta :: "applied_hunk \<Rightarrow> int" where
  "hunk_delta h = int (length (ah_new_lines h)) - int (length (ah_old_lines h))"

fun locate_ops :: "rstr list \<Rightarrow> op list \<Rightarrow> int \<Rightarrow> applied_hunk list" where
  "locate_ops file [] delta = []"
| "locate_ops file (op # ops) delta =
     locate_op file op delta # locate_ops file ops (delta + hunk_delta (locate_op file op delta))"

definition splice :: "op \<Rightarrow> rstr list \<Rightarrow> rstr list" where
  "splice op file =
     (case op of (st, len, repl) \<Rightarrow>
        (let end' = min (st + len) (length file); start = min st (length file)
         in take start file @ repl @ drop end' file))"

text \<open>Bottom-up: the last operation of the sorted list is spliced first.\<close>

definition splice_all :: "op list \<Rightarrow> rstr list \<Rightarrow> rstr list" where
  "splice_all ops file = foldr splice ops file"

definition finish :: "bool \<Rightarrow> bool \<Rightarrow> rstr list \<Rightarrow> rstr" where
  "finish had_bom uses_crlf file =
     (let out = join [10] file;
          out = (if out \<noteq> [] \<and> last out \<noteq> 10 then out @ [10] else out);
          out = (if uses_crlf then unfold_crlf out else out)
      in if had_bom then BOM # out else out)"

text \<open>The file as the hunks see it: BOM stripped, CRLF folded, split into lines.\<close>

definition had_bom :: "rstr \<Rightarrow> bool" where
  "had_bom original = starts_with [BOM] original"

definition strip_bom :: "rstr \<Rightarrow> rstr" where
  "strip_bom original = (case strip_prefix [BOM] original of Some r \<Rightarrow> r | None \<Rightarrow> original)"

definition uses_crlf :: "rstr \<Rightarrow> bool" where
  "uses_crlf original = detect_crlf (strip_bom original)"

definition file_lines :: "rstr \<Rightarrow> rstr list" where
  "file_lines original =
     (let stripped = strip_bom original in
      split_lines (if detect_crlf stripped then fold_crlf stripped else stripped))"

definition apply_update_located ::
  "rstr \<Rightarrow> update_chunk list \<Rightarrow> apply_error + (rstr \<times> applied_hunk list)" where
  "apply_update_located original chunks =
     (let file = file_lines original
      in case resolve_chunks file chunks 0 of
           Inl e \<Rightarrow> Inl e
         | Inr ops \<Rightarrow>
             (let ops = sort_key fst ops
              in Inr (finish (had_bom original) (uses_crlf original) (splice_all ops file),
                      locate_ops file ops 0)))"

definition apply_update :: "rstr \<Rightarrow> update_chunk list \<Rightarrow> apply_error + rstr" where
  "apply_update original chunks =
     (case apply_update_located original chunks of
        Inl e \<Rightarrow> Inl e | Inr (content, _) \<Rightarrow> Inr content)"

section \<open>Rendering located hunks\<close>

text \<open>How many lines at the start and at the end are identical on both sides.\<close>

definition shared_head :: "rstr list \<Rightarrow> rstr list \<Rightarrow> nat" where
  "shared_head old new =
     length (takeWhile (\<lambda>i. old ! i = new ! i) [0..<min (length old) (length new)])"

definition shared_ends :: "rstr list \<Rightarrow> rstr list \<Rightarrow> nat \<times> nat" where
  "shared_ends old new =
     (let limit = min (length old) (length new);
          head = shared_head old new;
          tail = length (takeWhile (\<lambda>i. old ! (length old - 1 - i) = new ! (length new - 1 - i))
                          [0..<limit - head])
      in (head, tail))"

definition hunk_body :: "applied_hunk \<Rightarrow> rstr list" where
  "hunk_body h =
     (let old = ah_old_lines h; new = ah_new_lines h in
      case shared_ends old new of (head, tail) \<Rightarrow>
        map (Cons 32) (take head old)
        @ map (Cons 45) (take (length old - tail - head) (drop head old))
        @ map (Cons 43) (take (length new - tail - head) (drop head new))
        @ map (Cons 32) (drop (length old - tail) old))"

definition hunk_header :: "applied_hunk \<Rightarrow> rstr" where
  "hunk_header h =
     lit ''@@ -'' @ show_nat (ah_old_start h) @ lit '','' @ show_nat (length (ah_old_lines h))
     @ lit '' +'' @ show_nat (ah_new_start h) @ lit '','' @ show_nat (length (ah_new_lines h))
     @ lit '' @@''"

definition unified_diff_with_paths :: "rstr \<Rightarrow> rstr \<Rightarrow> applied_hunk list \<Rightarrow> rstr option" where
  "unified_diff_with_paths before after hunks =
     (if hunks = [] \<or> list_all (\<lambda>h. ah_old_lines h = ah_new_lines h) hunks then None
      else Some (concat (map (\<lambda>l. l @ [10])
        ((lit ''--- a/'' @ before) # (lit ''+++ b/'' @ after)
         # concat (map (\<lambda>h. hunk_header h # hunk_body h)
             (filter (\<lambda>h. ah_old_lines h \<noteq> ah_new_lines h) hunks))))))"

definition unified_diff :: "rstr \<Rightarrow> applied_hunk list \<Rightarrow> rstr option" where
  "unified_diff path hunks = unified_diff_with_paths path path hunks"

definition whole_file_hunks :: "rstr \<Rightarrow> rstr \<Rightarrow> applied_hunk list" where
  "whole_file_hunks before after =
     (if before = after then []
      else [\<lparr>ah_old_start = 1, ah_old_lines = str_lines before,
             ah_new_start = 1, ah_new_lines = str_lines after\<rparr>])"

definition split_block :: "rstr \<Rightarrow> rstr list" where
  "split_block block = (if block = [] then [] else split_char 10 block)"

definition whole_file_hunk :: "rstr \<Rightarrow> bool \<Rightarrow> applied_hunk option" where
  "whole_file_hunk content added =
     (let lines = split_block (if content \<noteq> [] \<and> last content = 10 then butlast content else content)
      in if lines = [] then None
         else Some (if added
           then \<lparr>ah_old_start = 0, ah_old_lines = [], ah_new_start = 1, ah_new_lines = lines\<rparr>
           else \<lparr>ah_old_start = 1, ah_old_lines = lines, ah_new_start = 0, ah_new_lines = []\<rparr>))"

section \<open>Evaluation of closed edits\<close>

lemmas patch_eval = apply_update_def apply_update_located_def file_lines_def strip_bom_def
  had_bom_def uses_crlf_def detect_crlf_def split_lines_def split_char_def resolve_chunk_def
  anchor_def seek_sequence_def seek_from.simps locate_op_def finish_def splice_all_def splice_def
  default_chunk_def lit_def starts_with_def BOM_def hunk_delta_def unique_line_containing_def
  retry_without_trailing_blank_def

end
