(* ===== verification/Patch_Apply_Correct.thy ===== *)
theory Patch_Apply_Correct
  imports Patch_Apply
begin

text \<open>
  Correctness of hunk application: a hunk is located byte-exactly at the first
  place its lines occur, lines no hunk names are kept, and the reported
  positions are where the lines really are, before and after.
\<close>

section \<open>Exact location\<close>

definition match_at :: "rstr list \<Rightarrow> rstr list \<Rightarrow> nat \<Rightarrow> bool" where
  "match_at fl pat k = (k + length pat \<le> length fl \<and> take (length pat) (drop k fl) = pat)"

lemma match_at_list_all:
  assumes "k + length pat \<le> length fl"
  shows "list_all (\<lambda>j. fl ! (k + j) = pat ! j) [0..<length pat] \<longleftrightarrow> match_at fl pat k"
proof -
  have "length (take (length pat) (drop k fl)) = length pat" using assms by simp
  then have "take (length pat) (drop k fl) = pat \<longleftrightarrow>
      (\<forall>j < length pat. take (length pat) (drop k fl) ! j = pat ! j)"
    by (simp only: list_eq_iff_nth_eq simp_thms)
  also have "\<dots> \<longleftrightarrow> (\<forall>j < length pat. fl ! (k + j) = pat ! j)"
    using assms by simp
  finally show ?thesis using assms by (simp add: match_at_def list_all_iff Ball_def)
qed

lemma seek_from_Some:
  "seek_from fl pat i = Some k \<Longrightarrow> i \<le> k \<and> match_at fl pat k \<and> (\<forall>j. i \<le> j \<and> j < k \<longrightarrow> \<not> match_at fl pat j)"
proof (induction fl pat i rule: seek_from.induct)
  case (1 fl pat i)
  show ?case
  proof (cases "i + length pat \<le> length fl \<and> match_at fl pat i")
    case True
    with "1.prems" show ?thesis by (auto simp: seek_from.simps [of fl pat i] match_at_list_all)
  next
    case False
    with "1.prems" have le: "i + length pat \<le> length fl" and no: "\<not> match_at fl pat i"
      and rec: "seek_from fl pat (Suc i) = Some k"
      by (auto simp: seek_from.simps [of fl pat i] match_at_list_all split: if_splits)
    with "1.IH" have "Suc i \<le> k \<and> match_at fl pat k \<and> (\<forall>j. Suc i \<le> j \<and> j < k \<longrightarrow> \<not> match_at fl pat j)"
      by (simp add: match_at_list_all)
    with no show ?thesis by (metis Suc_leD Suc_leI le_neq_implies_less)
  qed
qed

lemma seek_from_None:
  "seek_from fl pat i = None \<Longrightarrow> i \<le> j \<Longrightarrow> \<not> match_at fl pat j"
proof (induction fl pat i rule: seek_from.induct)
  case (1 fl pat i)
  show ?case
  proof (cases "i + length pat \<le> length fl")
    case True
    with "1.prems" have no: "\<not> match_at fl pat i" and rec: "seek_from fl pat (Suc i) = None"
      by (auto simp: seek_from.simps [of fl pat i] match_at_list_all split: if_splits)
    from True no have "\<not> list_all (\<lambda>j. fl ! (i + j) = pat ! j) [0..<length pat]"
      by (simp add: match_at_list_all)
    with "1.IH" True rec no "1.prems"(2) show ?thesis
      by (cases "j = i") auto
  next
    case False
    with "1.prems"(2) show ?thesis by (simp add: match_at_def)
  qed
qed

text \<open>What the hunk resolver relies on: a located run is where the caller said.\<close>

locale line_locator =
  fixes seek :: "rstr list \<Rightarrow> rstr list \<Rightarrow> nat \<Rightarrow> bool \<Rightarrow> nat option"
  assumes seek_empty: "seek fl [] start eof = Some (min start (length fl))"
    and seek_found: "pat \<noteq> [] \<Longrightarrow> seek fl pat start eof = Some k \<Longrightarrow> start \<le> k \<and> match_at fl pat k"
    and seek_first: "pat \<noteq> [] \<Longrightarrow> seek fl pat start False = Some k \<Longrightarrow> start \<le> j \<Longrightarrow> j < k
      \<Longrightarrow> \<not> match_at fl pat j"
    and seek_missing: "pat \<noteq> [] \<Longrightarrow> seek fl pat start False = None \<Longrightarrow> start \<le> j
      \<Longrightarrow> \<not> match_at fl pat j"
begin

lemma found_span:
  assumes "pat \<noteq> []" and "seek fl pat start eof = Some k"
  shows "start \<le> k" and "k + length pat \<le> length fl"
    and "fl = take k fl @ pat @ drop (k + length pat) fl"
proof -
  from seek_found [OF assms] show "start \<le> k" and len: "k + length pat \<le> length fl"
    by (auto simp: match_at_def)
  from seek_found [OF assms] have "take (length pat) (drop k fl) = pat"
    by (simp add: match_at_def)
  then show "fl = take k fl @ pat @ drop (k + length pat) fl"
    by (metis append_take_drop_id drop_drop add.commute)
qed

lemma found_within:
  assumes "start \<le> length fl" and "seek fl pat start eof = Some k"
  shows "start \<le> k \<and> k + length pat \<le> length fl \<and> take (length pat) (drop k fl) = pat"
proof (cases "pat = []")
  case True
  with assms show ?thesis by (simp add: seek_empty)
next
  case False
  from seek_found [OF False assms(2)] show ?thesis by (simp add: match_at_def)
qed

lemma successive_disjoint:
  assumes "seek fl pat start eof = Some k" and "pat \<noteq> []" and "pat' \<noteq> []"
    and "seek fl pat' (k + length pat) eof' = Some k'"
  shows "k + length pat \<le> k'"
  using found_span(1) [OF assms(3,4)] .

lemma complete:
  assumes "pat \<noteq> []" and "match_at fl pat j" and "start \<le> j"
  shows "\<exists>k. seek fl pat start False = Some k \<and> k \<le> j"
  using assms seek_missing seek_first by (metis not_le_imp_less option.exhaust)

end

interpretation seeker: line_locator seek_sequence
proof
  fix fl pat :: "rstr list" and start k j :: nat and eof :: bool
  show "seek_sequence fl [] start eof = Some (min start (length fl))"
    by (simp add: seek_sequence_def)
  show "start \<le> k \<and> match_at fl pat k"
    if "pat \<noteq> []" "seek_sequence fl pat start eof = Some k"
    using that by (auto simp: seek_sequence_def dest!: seek_from_Some split: if_splits)
  show "\<not> match_at fl pat j"
    if "pat \<noteq> []" "seek_sequence fl pat start False = Some k" "start \<le> j" "j < k"
    using that by (auto simp: seek_sequence_def dest!: seek_from_Some split: if_splits)
  show "\<not> match_at fl pat j"
    if "pat \<noteq> []" "seek_sequence fl pat start False = None" "start \<le> j"
    using that
    by (auto simp: seek_sequence_def match_at_def dest: seek_from_None [of _ _ _ j] split: if_splits)
qed

section \<open>Resolved operations\<close>

text \<open>
  What one resolved operation owes its hunk: it replaces exactly the hunk's old
  lines by its new lines, or both without the trailing blank the fl lacks.
\<close>

definition op_for :: "rstr list \<Rightarrow> op \<Rightarrow> update_chunk \<Rightarrow> bool" where
  "op_for fl op c =
     (case op of (st, len, repl) \<Rightarrow>
        (let removed = take len (drop st fl) in
         removed = old_lines c \<and> repl = new_lines c \<or>
         removed @ [[]] = old_lines c \<and> (repl = new_lines c \<or> repl @ [[]] = new_lines c)))"

lemma unique_line_bounds:
  assumes "unique_line_containing fl label s = Some i"
  shows "s \<le> i \<and> i < length fl"
proof -
  have "filter (\<lambda>i. contains (trim label) (fl ! i)) [s..<length fl] = [i]"
    using assms by (simp add: unique_line_containing_def Let_def split: if_splits list.splits)
  then have "i \<in> set (filter (\<lambda>i. contains (trim label) (fl ! i)) [s..<length fl])"
    by (simp only: list.set) simp
  then show ?thesis by simp
qed

lemma anchor_bounds:
  assumes "anchor fl c s = Inr (start, had)" and "s \<le> length fl"
  shows "s \<le> start \<and> start \<le> length fl"
proof (cases "context_label c")
  case None
  with assms show ?thesis by (simp add: anchor_def)
next
  case (Some label)
  show ?thesis
  proof (cases "seek_sequence fl [label] s False")
    case (Some i)
    from seeker.found_span(1,2) [OF _ this] have "s \<le> i" "i + 1 \<le> length fl" by auto
    with Some \<open>context_label c = Some label\<close> assms show ?thesis by (simp add: anchor_def)
  next
    case None
    with assms(1) \<open>context_label c = Some label\<close> obtain i where
      i: "unique_line_containing fl label s = Some i" "start = (if old_lines c \<noteq> [] then i else i + 1)"
      by (auto simp: anchor_def split: option.splits)
    have "s \<le> i \<and> i < length fl" using i(1) by (rule unique_line_bounds)
    with i(2) show ?thesis by auto
  qed
qed

lemma retry_sound:
  assumes "retry_without_trailing_blank fl c start = Inr (i, n)" and "start \<le> length fl"
  shows "old_lines c = take n (drop i fl) @ [[]]" and "start \<le> i" and "i + n \<le> length fl"
proof -
  from assms(1) have ne: "old_lines c \<noteq> []" and l: "last (old_lines c) = []"
    and s: "seek_sequence fl (butlast (old_lines c)) start (is_eof c) = Some i"
    and n: "n = length (butlast (old_lines c))"
    by (auto simp: retry_without_trailing_blank_def Let_def split: if_splits option.splits)
  from seeker.found_within [OF assms(2) s] n have
    t: "take n (drop i fl) = butlast (old_lines c)" and "start \<le> i" "i + n \<le> length fl"
    by auto
  show "old_lines c = take n (drop i fl) @ [[]]"
    using t ne l append_butlast_last_id by metis
  show "start \<le> i" "i + n \<le> length fl" by fact+
qed

lemma resolve_chunk_sound:
  assumes "resolve_chunk fl c s = Inr ((st, len, repl), s')"
    and "s \<le> length fl" and "old_lines c \<noteq> []"
  shows "op_for fl (st, len, repl) c \<and> s \<le> st \<and> st + len \<le> length fl \<and> s' = st + len"
proof -
  from assms(1) obtain start had where a: "anchor fl c s = Inr (start, had)"
    by (auto simp: resolve_chunk_def split: sum.splits)
  note b = anchor_bounds [OF a assms(2)]
  show ?thesis
  proof (cases "seek_sequence fl (old_lines c) start (is_eof c)")
    case (Some i)
    with assms a have "st = i" "len = length (old_lines c)" "repl = new_lines c" "s' = i + len"
      by (auto simp: resolve_chunk_def)
    with seeker.found_within [OF _ Some] b show ?thesis by (auto simp: op_for_def)
  next
    case None
    with assms a obtain i n where r: "retry_without_trailing_blank fl c start = Inr (i, n)"
      and st: "st = i" "len = n" "s' = i + n"
      and repl: "repl = (if new_lines c \<noteq> [] \<and> last (new_lines c) = []
                  then butlast (new_lines c) else new_lines c)"
      by (auto simp: resolve_chunk_def Let_def split: sum.splits)
    have "repl = new_lines c \<or> repl @ [[]] = new_lines c"
      using repl append_butlast_last_id by metis
    with retry_sound [OF r] b st show ?thesis by (auto simp: op_for_def Let_def)
  qed
qed

text \<open>Operations in file order that do not touch each other's lines.\<close>

fun separated :: "nat \<Rightarrow> nat \<Rightarrow> op list \<Rightarrow> bool" where
  "separated n pos [] = (pos \<le> n)"
| "separated n pos ((st, len, repl) # ops) =
     (pos \<le> st \<and> st + len \<le> n \<and> separated n (st + len) ops)"

lemma resolve_chunks_sound:
  assumes "resolve_chunks fl cs s = Inr ops" and "s \<le> length fl"
    and "\<forall>c \<in> set cs. old_lines c \<noteq> []"
  shows "separated (length fl) s ops \<and> list_all2 (op_for fl) ops cs"
  using assms
proof (induction cs arbitrary: s ops)
  case Nil
  then show ?case by simp
next
  case (Cons c cs)
  then obtain st len repl s' ops' where
    r: "resolve_chunk fl c s = Inr ((st, len, repl), s')"
    and rs: "resolve_chunks fl cs s' = Inr ops'" and ops: "ops = (st, len, repl) # ops'"
    by (auto split: sum.splits)
  from Cons.prems have ne: "old_lines c \<noteq> []" by simp
  note c = resolve_chunk_sound [OF r Cons.prems(2) ne]
  with Cons.IH [OF rs] Cons.prems(3) have
    "separated (length fl) s' ops' \<and> list_all2 (op_for fl) ops' cs" by simp
  with c ops show ?case by auto
qed

lemma separated_starts: "separated n pos ops \<Longrightarrow> sorted (map fst ops) \<and> (\<forall>op \<in> set ops. pos \<le> fst op)"
  by (induction n pos ops rule: separated.induct) fastforce+

lemma sort_key_sorted: "sorted (map f xs) \<Longrightarrow> sort_key f xs = xs"
proof (induction xs)
  case Nil
  then show ?case by simp
next
  case (Cons x xs)
  then have "sort_key f xs = xs" and "\<forall>y \<in> set xs. f x \<le> f y" by auto
  then show ?case by (cases xs) (auto simp: insort_is_Cons)
qed

section \<open>Splicing keeps every other line\<close>

text \<open>The file rebuilt left to right: gap, replacement, gap, replacement, rest.\<close>

fun weave :: "rstr list \<Rightarrow> nat \<Rightarrow> op list \<Rightarrow> rstr list" where
  "weave fl pos [] = drop pos fl"
| "weave fl pos ((st, len, repl) # ops) =
     take (st - pos) (drop pos fl) @ repl @ weave fl (st + len) ops"

lemma take_gap: "pos \<le> st \<Longrightarrow> take pos fl @ take (st - pos) (drop pos fl) = take st fl"
  by (metis le_add_diff_inverse take_add)

lemma splice_all_take_weave:
  "separated (length fl) pos ops \<Longrightarrow> splice_all ops fl = take pos fl @ weave fl pos ops"
proof (induction "length fl" pos ops rule: separated.induct)
  case (1 pos)
  then show ?case by (simp add: splice_all_def)
next
  case (2 pos st len repl ops)
  then have le: "pos \<le> st" "st + len \<le> length fl"
    and tail: "splice_all ops fl = take (st + len) fl @ weave fl (st + len) ops" by auto
  have len_tail: "st + len \<le> length (take (st + len) fl @ weave fl (st + len) ops)"
    using le(2) by simp
  have "splice_all ((st, len, repl) # ops) fl = splice (st, len, repl) (splice_all ops fl)"
    by (simp add: splice_all_def)
  also have "\<dots> = take st fl @ repl @ weave fl (st + len) ops"
    unfolding tail splice_def using le len_tail by (simp add: Let_def min_def)
  also have "\<dots> = take pos fl @ weave fl pos ((st, len, repl) # ops)"
    using take_gap [OF le(1), of fl] by (metis append.assoc weave.simps(2))
  finally show ?case .
qed

lemma splice_all_weave: "separated (length fl) 0 ops \<Longrightarrow> splice_all ops fl = weave fl 0 ops"
  using splice_all_take_weave [of fl 0 ops] by simp

section \<open>Reported positions\<close>

definition lines_at :: "rstr list \<Rightarrow> nat \<Rightarrow> rstr list \<Rightarrow> bool" where
  "lines_at fl start1 ls = (1 \<le> start1 \<and> take (length ls) (drop (start1 - 1) fl) = ls)"

lemma lines_at_append: "lines_at (pre @ ls @ post) (length pre + 1) ls"
  by (simp add: lines_at_def)

lemma locate_op_separated:
  assumes "pos \<le> st" "st + len \<le> length fl"
  shows "locate_op fl (st, len, repl) delta =
     \<lparr>ah_old_start = st + 1, ah_old_lines = take len (drop st fl),
      ah_new_start = nat (max (int st + 1 + delta) 1), ah_new_lines = repl\<rparr>"
  using assms by (simp add: locate_op_def Let_def min_def)

lemma locate_ops_correct:
  assumes "separated (length fl) pos ops" and "int (length pre) = int pos + delta"
  shows "\<forall>h \<in> set (locate_ops fl ops delta).
           lines_at fl (ah_old_start h) (ah_old_lines h) \<and>
           lines_at (pre @ weave fl pos ops) (ah_new_start h) (ah_new_lines h)"
  using assms
proof (induction "length fl" pos ops arbitrary: delta pre rule: separated.induct)
  case (1 pos)
  then show ?case by simp
next
  case (2 pos st len repl ops)
  let ?gap = "take (st - pos) (drop pos fl)"
  let ?h = "locate_op fl (st, len, repl) delta"
  have le: "pos \<le> st" "st + len \<le> length fl" and sep: "separated (length fl) (st + len) ops"
    using "2.prems"(1) by auto
  note h = locate_op_separated [OF le, of repl delta]
  have glen: "length (pre @ ?gap) = length pre + (st - pos)" using le by simp
  have start: "ah_new_start ?h = length (pre @ ?gap) + 1"
    using h glen "2.prems"(2) le(1) by simp
  have delta': "int (length (pre @ ?gap @ repl)) = int (st + len) + (delta + hunk_delta ?h)"
    using h glen "2.prems"(2) le by (simp add: hunk_delta_def)
  have whole: "pre @ weave fl pos ((st, len, repl) # ops)
      = (pre @ ?gap @ repl) @ weave fl (st + len) ops" by simp
  have rest: "\<forall>h \<in> set (locate_ops fl ops (delta + hunk_delta ?h)).
        lines_at fl (ah_old_start h) (ah_old_lines h) \<and>
        lines_at (pre @ weave fl pos ((st, len, repl) # ops)) (ah_new_start h) (ah_new_lines h)"
    unfolding whole by (rule "2.hyps" [OF sep delta'])
  have old: "lines_at fl (ah_old_start ?h) (ah_old_lines ?h)"
    using h le by (simp add: lines_at_def)
  have "lines_at ((pre @ ?gap) @ repl @ weave fl (st + len) ops) (ah_new_start ?h) repl"
    unfolding start by (rule lines_at_append)
  then have "lines_at (pre @ weave fl pos ((st, len, repl) # ops)) (ah_new_start ?h) (ah_new_lines ?h)"
    using h by simp
  with rest old show ?case by simp
qed

section \<open>Writing the file back\<close>

fun no_bare_lf :: "bool \<Rightarrow> rstr \<Rightarrow> bool" where
  "no_bare_lf prev_cr [] = True"
| "no_bare_lf prev_cr (c # cs) = ((c = 10 \<longrightarrow> prev_cr) \<and> no_bare_lf (c = 13) cs)"

lemma no_bare_lf_weaken: "no_bare_lf False s \<Longrightarrow> no_bare_lf b s"
  by (cases s) auto

lemma unfold_fold_crlf: "no_bare_lf False s \<Longrightarrow> unfold_crlf (fold_crlf s) = s"
proof (induction s rule: fold_crlf.induct)
  case (3 c d cs)
  show ?case
  proof (cases "c = 13 \<and> d = 10")
    case True
    with "3.prems" "3.IH"(1) show ?thesis by simp
  next
    case False
    with "3.prems" have "no_bare_lf False (d # cs)" by auto
    moreover from "3.prems" have "c \<noteq> 10" by simp
    ultimately show ?thesis using False "3.IH"(2) by simp
  qed
qed simp_all

lemma fold_crlf_last: "s \<noteq> [] \<Longrightarrow> fold_crlf s \<noteq> [] \<and> (last s = 10 \<longrightarrow> last (fold_crlf s) = 10)"
proof (induction s rule: fold_crlf.induct)
  case (3 c d cs)
  then show ?case by (cases cs) auto
qed simp_all

lemma split_char_snoc: "split_char c (s @ [c]) = split_char c s @ [[]]"
  by (induction s) (auto simp: split_char_def split: list.splits)

lemma split_char_last: "s \<noteq> [] \<Longrightarrow> last s = c \<Longrightarrow> last (split_char c s) = []"
  by (metis append_butlast_last_id last_snoc split_char_snoc)

lemma join_split_lines:
  assumes "s \<noteq> []" and "last s = 10"
  shows "s = join [10] (split_lines s) @ [10]" and "split_lines s \<noteq> []"
proof -
  let ?v = "split_char 10 s"
  have sp: "split_lines s = butlast ?v" using assms by (simp add: split_lines_def Let_def)
  have v: "?v = butlast ?v @ [[]]"
    using append_butlast_last_id [OF split_char_not_Nil [of 10 s]] split_char_last [OF assms] by simp
  show ne: "split_lines s \<noteq> []"
  proof
    assume "split_lines s = []"
    with sp v have "?v = [[]]" by simp
    then have "join [10] ?v = []" by simp
    with assms(1) show False by (simp only: join_split_char)
  qed
  have "s = join [10] (butlast ?v @ [[]])" using v join_split_char by metis
  also have "\<dots> = join [10] (butlast ?v) @ [10]" using join_snoc ne sp by simp
  finally show "s = join [10] (split_lines s) @ [10]" using sp by simp
qed

lemma last_join: "ls \<noteq> [] \<Longrightarrow> last ls \<noteq> [] \<Longrightarrow> join [10] ls \<noteq> [] \<and> last (join [10] ls) = last (last ls)"
  by (induction "[10::nat]" ls rule: join.induct) auto

lemma split_lines_no_lf: "l \<in> set (split_lines s) \<Longrightarrow> 10 \<notin> set l"
  using split_char_no_sep [of l 10 s] by (auto simp: split_lines_def Let_def dest: in_set_butlastD split: if_splits)

lemma finish_no_blank_tail:
  assumes "ls \<noteq> []" "last ls \<noteq> []" "10 \<notin> set (last ls)"
  shows "finish b c ls =
    (let out = join [10] ls @ [10]; out = (if c then unfold_crlf out else out)
     in if b then BOM # out else out)"
proof -
  have "last (last ls) \<noteq> 10" using assms(2,3) last_in_set by metis
  then show ?thesis using last_join [OF assms(1,2)] by (simp add: finish_def Let_def)
qed

section \<open>Properties\<close>













text \<open>
  The positions reported for an edit are real: each located hunk's old lines
  stand at its old start in the file as it was, and its new lines at its new
  start in the file as written.
\<close>

theorem located_hunks_correct:
  assumes "apply_update_located original chunks = Inr (out, hunks)"
    and "\<forall>c \<in> set chunks. old_lines c \<noteq> []"
  shows "\<exists>result. out = finish (had_bom original) (uses_crlf original) result
     \<and> (\<forall>h \<in> set hunks. lines_at (file_lines original) (ah_old_start h) (ah_old_lines h)
          \<and> lines_at result (ah_new_start h) (ah_new_lines h))"
proof -
  let ?f = "file_lines original"
  from assms(1) obtain ops where r: "resolve_chunks ?f chunks 0 = Inr ops"
    and out: "out = finish (had_bom original) (uses_crlf original) (splice_all (sort_key fst ops) ?f)"
    and hs: "hunks = locate_ops ?f (sort_key fst ops) 0"
    by (auto simp: apply_update_located_def Let_def split: sum.splits)
  note s = resolve_chunks_sound [OF r _ assms(2), simplified]
  then have "sort_key fst ops = ops" by (blast intro: sort_key_sorted dest: separated_starts)
  with s out hs splice_all_weave [of ?f ops] locate_ops_correct [of ?f 0 ops "[]" 0]
  show ?thesis by auto
qed

theorem located_hunks_correct_witness:
  "\<exists>result. lit ''x'' @ [10] @ lit ''y'' @ [10] @ lit ''B'' @ [10] =
       finish (had_bom (lit ''a'' @ [10] @ lit ''b'' @ [10]))
         (uses_crlf (lit ''a'' @ [10] @ lit ''b'' @ [10])) result
     \<and> (\<forall>h \<in> set [\<lparr>ah_old_start = 1, ah_old_lines = [lit ''a''], ah_new_start = 1,
              ah_new_lines = [lit ''x'', lit ''y'']\<rparr>,
            \<lparr>ah_old_start = 2, ah_old_lines = [lit ''b''], ah_new_start = 3, ah_new_lines = [lit ''B'']\<rparr>].
          lines_at (file_lines (lit ''a'' @ [10] @ lit ''b'' @ [10])) (ah_old_start h) (ah_old_lines h)
          \<and> lines_at result (ah_new_start h) (ah_new_lines h))"
proof (rule located_hunks_correct)
  show "apply_update_located (lit ''a'' @ [10] @ lit ''b'' @ [10])
      [default_chunk\<lparr>old_lines := [lit ''a''], new_lines := [lit ''x'', lit ''y'']\<rparr>,
       default_chunk\<lparr>old_lines := [lit ''b''], new_lines := [lit ''B'']\<rparr>] =
    Inr (lit ''x'' @ [10] @ lit ''y'' @ [10] @ lit ''B'' @ [10],
      [\<lparr>ah_old_start = 1, ah_old_lines = [lit ''a''], ah_new_start = 1,
         ah_new_lines = [lit ''x'', lit ''y'']\<rparr>,
       \<lparr>ah_old_start = 2, ah_old_lines = [lit ''b''], ah_new_start = 3, ah_new_lines = [lit ''B'']\<rparr>])"
    by (simp add: patch_eval)
qed simp

text \<open>
  A file of uniform line endings whose last line is not blank survives the
  strip, fold, split, join and restore of an edit byte for byte: BOM, CRLF or LF
  endings and the final newline are all kept.
\<close>

theorem apply_update_preserves_conventions:
  assumes "strip_bom original \<noteq> []" and "last (strip_bom original) = 10"
    and "uses_crlf original \<Longrightarrow> no_bare_lf False (strip_bom original)"
    and "last (file_lines original) \<noteq> []"
  shows "apply_update original [] = Inr original"
proof -
  let ?s = "strip_bom original"
  define n where "n = (if detect_crlf ?s then fold_crlf ?s else ?s)"
  have n: "n \<noteq> []" "last n = 10" using assms(1,2) fold_crlf_last by (auto simp: n_def)
  have fl: "file_lines original = split_lines n" by (simp add: file_lines_def Let_def n_def)
  note js = join_split_lines [OF n]
  have nb: "last (split_lines n) \<noteq> []" using assms(4) fl by simp
  have lf: "10 \<notin> set (last (split_lines n))"
    using js(2) by (intro split_lines_no_lf [of _ n] last_in_set)
  have fin: "finish b c (split_lines n) =
      (let out = n; out = (if c then unfold_crlf out else out) in if b then BOM # out else out)" for b c
    by (simp only: finish_no_blank_tail [OF js(2) nb lf] js(1) [symmetric])
  have "(if uses_crlf original then unfold_crlf n else n) = ?s"
    using assms(3) unfold_fold_crlf by (auto simp: uses_crlf_def n_def)
  moreover have "(if had_bom original then BOM # ?s else ?s) = original"
    by (auto simp: had_bom_def strip_bom_def starts_with_def strip_prefix_Some_iff split: option.splits)
  ultimately show ?thesis
    by (simp only: apply_update_def apply_update_located_def Let_def resolve_chunks.simps
        sum.case sort_key_simps fl splice_all_def foldr.simps id_apply fin prod.case locate_ops.simps)
qed

theorem apply_update_preserves_conventions_witness:
  "apply_update (BOM # lit ''a'' @ [13, 10] @ lit ''b'' @ [13, 10]) []
     = Inr (BOM # lit ''a'' @ [13, 10] @ lit ''b'' @ [13, 10])"
  by (rule apply_update_preserves_conventions) (simp_all add: patch_eval)

text \<open>
  The write-back loses one trailing blank line: a result whose last line is
  blank is written exactly like the result without that line, so an edit
  elsewhere in a file that ends in a blank line also removes that line.
\<close>

theorem finish_drops_trailing_blank:
  assumes "ls \<noteq> []" and "last ls \<noteq> []" and "10 \<notin> set (last ls)"
  shows "finish b c (ls @ [[]]) = finish b c ls"
proof -
  have "join [10] (ls @ [[]]) = join [10] ls @ [10]" using join_snoc [OF assms(1)] by simp
  then show ?thesis
    unfolding finish_no_blank_tail [OF assms] by (simp add: finish_def Let_def)
qed

theorem finish_drops_trailing_blank_witness:
  "finish False False ([lit ''A'', lit ''b''] @ [[]]) = finish False False [lit ''A'', lit ''b'']
   \<and> apply_update (lit ''a'' @ [10] @ lit ''b'' @ [10, 10])
       [default_chunk\<lparr>old_lines := [lit ''a''], new_lines := [lit ''A'']\<rparr>]
     = Inr (lit ''A'' @ [10] @ lit ''b'' @ [10])"
proof
  show "finish False False ([lit ''A'', lit ''b''] @ [[]]) = finish False False [lit ''A'', lit ''b'']"
    by (rule finish_drops_trailing_blank) (simp_all add: lit_def)
qed (simp add: patch_eval)

text \<open>
  A labelled insertion authored before a hunk whose span contains the
  insertion point corrupts the edit: the bottom-up splice shifts the later
  hunk's lines, so here the inserted line is deleted and the last line the hunk
  was to replace stays.  A reference edit would leave only the new line.
\<close>

theorem insertion_inside_later_hunk:
  "apply_update (lit ''a'' @ [10] @ lit ''b'' @ [10] @ lit ''c'' @ [10])
     [default_chunk\<lparr>context_label := Some (lit ''b''), new_lines := [lit ''X'']\<rparr>,
      default_chunk\<lparr>old_lines := [lit ''a'', lit ''b'', lit ''c''], new_lines := [lit ''N'']\<rparr>]
   = Inr (lit ''N'' @ [10] @ lit ''c'' @ [10])"
  by (simp add: patch_eval)

end
