(* ===== verification/Patch_Parse_Correct.thy ===== *)
theory Patch_Parse_Correct
  imports Patch_Parse
begin

text \<open>
  Correctness of the patch parser: every update it returns carries a hunk, an
  envelope is accepted only up to its footer, and a canonical rendering of
  well-formed changes parses back to them.
\<close>

section \<open>Trimming and literals\<close>

lemma trim_end_append:
  assumes "s \<noteq> []" and "\<not> is_whitespace (last s)"
  shows "trim_end (s @ p) = s @ trim_end p"
proof -
  obtain t c where s: "s = t @ [c]" using assms(1) by (cases s rule: rev_cases) auto
  with assms(2) show ?thesis
    by (cases "\<forall>x \<in> set p. is_whitespace x")
      (auto simp: trim_end_def trim_end_matches_def dropWhile_append dropWhile_eq_Nil_conv)
qed

lemma trim_start_Cons [simp]: "\<not> is_whitespace c \<Longrightarrow> trim_start (c # l) = c # l"
  by (simp add: trim_start_def trim_start_matches_def)

lemma trim_Cons: "\<not> is_whitespace c \<Longrightarrow> trim (c # l) = c # trim_end l"
  using trim_end_append [of "[c]" l] by (simp add: trim_def)

lemma trim_append:
  "s \<noteq> [] \<Longrightarrow> \<not> is_whitespace (hd s) \<Longrightarrow> \<not> is_whitespace (last s) \<Longrightarrow> trim (s @ p) = s @ trim_end p"
proof -
  assume s: "s \<noteq> []" "\<not> is_whitespace (hd s)" "\<not> is_whitespace (last s)"
  then have "trim_start (s @ p) = s @ p" by (cases s) simp_all
  with s show ?thesis by (simp add: trim_def trim_end_append)
qed

lemma trim_idem: "trim p = p \<Longrightarrow> trim_end p = p"
proof -
  assume t: "trim p = p"
  have "trim_end (trim_end q) = trim_end q" for q
    by (simp add: trim_end_def trim_end_matches_def)
  then show ?thesis using t unfolding trim_def by metis
qed

lemma trim_last_not_ws: "trim p = p \<Longrightarrow> p \<noteq> [] \<Longrightarrow> \<not> is_whitespace (last p)"
proof -
  assume t: "trim p = p" and ne: "p \<noteq> []"
  from t have "rev (dropWhile is_whitespace (rev p)) = p"
    using trim_idem by (simp add: trim_end_def trim_end_matches_def)
  then have "dropWhile is_whitespace (rev p) = rev p" by (metis rev_rev_ident)
  then have "\<not> is_whitespace (hd (rev p))" using ne hd_dropWhile [of is_whitespace "rev p"] by simp
  then show ?thesis using ne by (simp add: hd_rev)
qed

lemmas char_simps = lit_def is_whitespace_def

lemma marker_line:
  assumes "c = 45 \<or> c = 43 \<or> c = 64"
  shows "\<not> is_file_header (c # l)" and "trim (c # l) \<noteq> EOF_hdr" and "trim (c # l) \<noteq> []"
  using assms
  by (auto simp: is_file_header_def is_end_def trim_Cons char_simps hdr_defs starts_with_def)

lemma header_lines:
  "is_file_header (ADD_hdr @ p)" "is_file_header (DELETE_hdr @ p)" "is_file_header (UPDATE_hdr @ p)"
  "is_file_header END_hdr"
  by (simp_all add: is_file_header_def is_end_def starts_with_def hdr_defs char_simps trim_Cons
      trim_end_def trim_end_matches_def)

lemma eof_line: "\<not> is_file_header EOF_hdr" "trim EOF_hdr = EOF_hdr"
  by (simp_all add: is_file_header_def is_end_def starts_with_def hdr_defs char_simps trim_Cons
      trim_end_def trim_end_matches_def)

lemma section_trim:
  "trim_start (ADD_hdr @ p) = ADD_hdr @ p" "trim_start (DELETE_hdr @ p) = DELETE_hdr @ p"
  "trim_start (UPDATE_hdr @ p) = UPDATE_hdr @ p" "trim_start END_hdr = END_hdr"
  by (simp_all add: hdr_defs char_simps)

lemma section_not_end:
  "\<not> is_end (ADD_hdr @ p)" "\<not> is_end (DELETE_hdr @ p)" "\<not> is_end (UPDATE_hdr @ p)"
  "trim (ADD_hdr @ p) \<noteq> []" "trim (DELETE_hdr @ p) \<noteq> []" "trim (UPDATE_hdr @ p) \<noteq> []"
proof -
  have *: "trim (lit s @ 32 # p) = lit s @ trim_end (32 # p)"
    if "s = ''*** Add File:'' \<or> s = ''*** Delete File:'' \<or> s = ''*** Update File:''" for s
    using that by (intro trim_append) (auto simp: char_simps)
  have sp: "ADD_hdr @ p = lit ''*** Add File:'' @ 32 # p"
    "DELETE_hdr @ p = lit ''*** Delete File:'' @ 32 # p"
    "UPDATE_hdr @ p = lit ''*** Update File:'' @ 32 # p"
    by (simp_all add: hdr_defs lit_def)
  show "\<not> is_end (ADD_hdr @ p)" "\<not> is_end (DELETE_hdr @ p)" "\<not> is_end (UPDATE_hdr @ p)"
    unfolding sp is_end_def Let_def by (simp_all add: * ) (simp_all add: lit_def END_hdr_def)
  show "trim (ADD_hdr @ p) \<noteq> []" "trim (DELETE_hdr @ p) \<noteq> []" "trim (UPDATE_hdr @ p) \<noteq> []"
    unfolding sp by (simp_all add: * )
qed

lemma section_prefix:
  "strip_prefix ADD_hdr (DELETE_hdr @ p) = None" "strip_prefix ADD_hdr (UPDATE_hdr @ p) = None"
  "strip_prefix DELETE_hdr (UPDATE_hdr @ p) = None"
  by (simp_all add: hdr_defs lit_def)

section \<open>Every update has a hunk\<close>

definition has_hunks :: "file_change \<Rightarrow> bool" where
  "has_hunks c = (case c of FC_Update p m chunks \<Rightarrow> chunks \<noteq> [] | _ \<Rightarrow> True)"

lemma add_body_suffix: "add_body ls b = Inr (x, rest) \<Longrightarrow> set rest \<subseteq> set ls"
  by (induction ls b rule: add_body.induct) (auto split: if_splits option.splits)

lemma update_body_suffix: "update_body ls cs cur = Inr (x, rest) \<Longrightarrow> set rest \<subseteq> set ls"
  by (induction ls cs cur rule: update_body.induct)
    (auto simp: Let_def split: if_splits option.splits sum.splits)

lemma take_move_suffix: "take_move ls = (m, rest) \<Longrightarrow> set rest \<subseteq> set ls"
  by (auto simp: take_move_def split: list.splits option.splits)

text \<open>One section of a successful parse.\<close>

lemma parse_changes_step:
  assumes "parse_changes ((n, l) # ls) acc = Inr cs"
  shows "is_end (trim_start l) \<and> cs = acc \<or>
    (\<exists>rest acc'. parse_changes rest acc' = Inr cs \<and> length rest \<le> length ls \<and> set rest \<subseteq> set ls
       \<and> (acc' = acc \<or> (\<exists>c. acc' = acc @ [c] \<and> has_hunks c)))"
proof (cases "is_end (trim_start l) \<or> trim (trim_start l) = []")
  case True
  with assms show ?thesis
    by (auto simp: parse_changes.simps(2) Let_def split: if_splits)
next
  case False
  then have ne: "\<not> is_end (trim_start l)" "trim (trim_start l) \<noteq> []" by auto
  show ?thesis
  proof (cases "strip_prefix ADD_hdr (trim_start l)")
    case (Some p)
    with assms ne obtain body rest where "add_body ls [] = Inr (body, rest)"
      and "parse_changes rest (acc @ [FC_Add (trim p) (body_content body)]) = Inr cs"
      by (auto simp: parse_changes.simps(2) Let_def split: sum.splits)
    then show ?thesis using add_body_shorter add_body_suffix
      by (metis has_hunks_def file_change.simps(10))
  next
    case noadd: None
    show ?thesis
    proof (cases "strip_prefix DELETE_hdr (trim_start l)")
      case (Some p)
      with assms ne noadd have "parse_changes ls (acc @ [FC_Delete (trim p)]) = Inr cs"
        by (simp add: parse_changes.simps(2) Let_def)
      moreover have "has_hunks (FC_Delete (trim p))" by (simp add: has_hunks_def)
      ultimately show ?thesis by blast
    next
      case nodel: None
      with assms ne noadd obtain p m ls' chunks rest where
        t: "take_move ls = (m, ls')" and u: "update_body ls' [] None = Inr (chunks, rest)"
        and "chunks \<noteq> []" "parse_changes rest (acc @ [FC_Update (trim p) m chunks]) = Inr cs"
        by (auto simp: parse_changes.simps(2) Let_def split: option.splits prod.splits sum.splits if_splits)
      moreover from this have "has_hunks (FC_Update (trim p) m chunks)" by (simp add: has_hunks_def)
      ultimately show ?thesis
        using order_trans [OF update_body_shorter [OF u] take_move_shorter [OF t]]
          subset_trans [OF update_body_suffix [OF u] take_move_suffix [OF t]] by blast
    qed
  qed
qed

lemma parse_changes_ok:
  "parse_changes ls acc = Inr cs \<Longrightarrow>
    (list_all has_hunks acc \<longrightarrow> list_all has_hunks cs) \<and> (\<exists>(n, l) \<in> set ls. is_end (trim_start l))"
proof (induction "length ls" arbitrary: ls acc rule: less_induct)
  case less
  then obtain n l ls' where ls: "ls = (n, l) # ls'" by (cases ls) auto
  from parse_changes_step [OF less.prems [unfolded ls]] show ?case
  proof (elim disjE exE conjE)
    assume "is_end (trim_start l)" "cs = acc"
    then show ?case using ls by auto
  next
    fix rest acc'
    assume r: "parse_changes rest acc' = Inr cs" "length rest \<le> length ls'" "set rest \<subseteq> set ls'"
      and acc: "acc' = acc"
    then have "length rest < length ls" using ls by simp
    from less.hyps [OF this r(1)] r(3) acc ls show ?case by auto
  next
    fix rest acc' c
    assume r: "parse_changes rest acc' = Inr cs" "length rest \<le> length ls'" "set rest \<subseteq> set ls'"
      and acc: "acc' = acc @ [c]" "has_hunks c"
    then have "length rest < length ls" using ls by simp
    from less.hyps [OF this r(1)] r(3) acc ls show ?case by auto
  qed
qed

text \<open>One file of a successful unified diff.\<close>

lemma diff_files_step:
  assumes "diff_files lines acc = Inr cs"
  shows "cs = acc \<or> (\<exists>rest c. diff_files rest (acc @ [c]) = Inr cs \<and> length rest < length lines \<and> has_hunks c)"
proof (cases "skip_preamble lines")
  case Nil
  with assms show ?thesis by (simp add: diff_files.simps [of lines acc] split: if_splits)
next
  case (Cons nl ls)
  obtain n l where nl: "nl = (n, l)" by (cases nl)
  show ?thesis
  proof (cases ls)
    case Nil
    with assms Cons nl show ?thesis by (simp add: diff_files.simps [of lines acc] Let_def split: if_splits)
  next
    case c2: (Cons ml ls2)
    obtain m l2 where ml: "ml = (m, l2)" by (cases ml)
    let ?old = "unified_path (trim (strip_all (lit ''--- '') l))"
    let ?new = "unified_path (trim (strip_all (lit ''+++ '') l2))"
    from assms Cons nl c2 ml obtain path chunks body rest where
      d: "diff_file (?old = None) (?new = None) ls2 [] [] = Inr (chunks, body, rest)"
      and r: "(if ?old = None then diff_files rest (acc @ [FC_Add path (body_content body)])
           else if ?new = None then diff_files rest (acc @ [FC_Delete path])
           else if chunks = [] then Inl (DiffNoHunks path)
           else diff_files rest (acc @ [FC_Update path None chunks])) = Inr cs"
      by (simp add: diff_files.simps [of lines acc] Let_def split: if_splits option.splits sum.splits prod.splits)
    have "length rest < length lines"
      using diff_files_shorter [OF _ d] Cons c2 by blast
    moreover have "\<exists>c. diff_files rest (acc @ [c]) = Inr cs \<and> has_hunks c"
      using r by (auto simp: has_hunks_def split: if_splits)
    ultimately show ?thesis by blast
  qed
qed

lemma diff_files_ok: "diff_files ls acc = Inr cs \<Longrightarrow> list_all has_hunks acc \<Longrightarrow> list_all has_hunks cs"
proof (induction "length ls" arbitrary: ls acc rule: less_induct)
  case less
  from diff_files_step [OF less.prems(1)] show ?case
    using less.hyps less.prems(2) by (auto simp del: list_all_append simp add: list_all_append)
qed

section \<open>Rendering changes\<close>

definition render_chunk :: "update_chunk \<Rightarrow> rstr list" where
  "render_chunk c =
     (lit ''@@'' @ (case context_label c of None \<Rightarrow> [] | Some l \<Rightarrow> 32 # l))
     # map (Cons 45) (old_lines c) @ map (Cons 43) (new_lines c)
     @ (if is_eof c then [EOF_hdr] else [])"

definition content_lines :: "rstr \<Rightarrow> rstr list" where
  "content_lines c = (if c = [] then [] else split_char 10 (butlast c))"

fun render_change :: "file_change \<Rightarrow> rstr list" where
  "render_change (FC_Add p c) = (ADD_hdr @ p) # map (Cons 43) (content_lines c)"
| "render_change (FC_Delete p) = [DELETE_hdr @ p]"
| "render_change (FC_Update p m cs) =
     (UPDATE_hdr @ p) # (case m of None \<Rightarrow> [] | Some t \<Rightarrow> [MOVE_hdr @ t])
     @ concat (map render_chunk cs)"

definition render_patch :: "file_change list \<Rightarrow> rstr" where
  "render_patch cs = join [10] (BEGIN_hdr # concat (map render_change cs) @ [END_hdr])"

definition wf_line :: "rstr \<Rightarrow> bool" where
  "wf_line l = (10 \<notin> set l \<and> (l = [] \<or> last l \<noteq> 13))"

definition wf_name :: "rstr \<Rightarrow> bool" where
  "wf_name p = (trim p = p \<and> 10 \<notin> set p)"

definition wf_chunk :: "update_chunk \<Rightarrow> bool" where
  "wf_chunk c =
     (list_all wf_line (old_lines c) \<and> list_all wf_line (new_lines c)
      \<and> (case context_label c of None \<Rightarrow> True | Some l \<Rightarrow> l \<noteq> [] \<and> wf_name l))"

fun wf_change :: "file_change \<Rightarrow> bool" where
  "wf_change (FC_Add p c) =
     (wf_name p \<and> (c = [] \<or> c \<noteq> [10] \<and> last c = 10) \<and> list_all wf_line (content_lines c))"
| "wf_change (FC_Delete p) = wf_name p"
| "wf_change (FC_Update p m cs) =
     (wf_name p \<and> (case m of None \<Rightarrow> True | Some t \<Rightarrow> wf_name t) \<and> cs \<noteq> [] \<and> list_all wf_chunk cs)"

definition at_header :: "nline list \<Rightarrow> bool" where
  "at_header rest = (rest = [] \<or> is_file_header (snd (hd rest)))"

lemma add_body_render:
  "map snd zs = map (Cons 43) bs \<Longrightarrow> at_header rest \<Longrightarrow> add_body (zs @ rest) acc = Inr (acc @ bs, rest)"
proof (induction bs arbitrary: zs acc)
  case Nil
  then show ?case by (cases rest) (auto simp: at_header_def)
next
  case (Cons b bs)
  then obtain n zs' where zs: "zs = (n, 43 # b) # zs'" "map snd zs' = map (Cons 43) bs" by auto
  have "strip_prefix (lit ''+'') (43 # b) = Some b" by (simp add: lit_def)
  with zs Cons.IH [OF zs(2) Cons.prems(2)] show ?case by (simp add: marker_line)
qed

lemma update_body_minus:
  "map snd zs = map (Cons 45) ls \<Longrightarrow>
     update_body (zs @ rest) dn (Some c) = update_body rest dn (Some (c\<lparr>old_lines := old_lines c @ ls\<rparr>))"
proof (induction ls arbitrary: zs c)
  case Nil
  then show ?case by simp
next
  case (Cons l ls)
  then obtain n zs' where zs: "zs = (n, 45 # l) # zs'" "map snd zs' = map (Cons 45) ls" by auto
  have "strip_prefix (lit ''@@'') (45 # l) = None" by (simp add: lit_def)
  with zs Cons.IH [OF zs(2)] show ?case
    by (simp add: marker_line hunk_line_def cur_or_default_def)
qed

lemma update_body_plus:
  "map snd zs = map (Cons 43) ls \<Longrightarrow>
     update_body (zs @ rest) dn (Some c) = update_body rest dn (Some (c\<lparr>new_lines := new_lines c @ ls\<rparr>))"
proof (induction ls arbitrary: zs c)
  case Nil
  then show ?case by simp
next
  case (Cons l ls)
  then obtain n zs' where zs: "zs = (n, 43 # l) # zs'" "map snd zs' = map (Cons 43) ls" by auto
  have "strip_prefix (lit ''@@'') (43 # l) = None" by (simp add: lit_def)
  with zs Cons.IH [OF zs(2)] show ?case
    by (simp add: marker_line hunk_line_def cur_or_default_def)
qed

lemma labelled_chunk_render:
  assumes "wf_chunk c"
  shows "labelled_chunk (case context_label c of None \<Rightarrow> [] | Some l \<Rightarrow> 32 # l)
       = default_chunk\<lparr>context_label := context_label c\<rparr>"
proof (cases "context_label c")
  case None
  then show ?thesis by (simp add: labelled_chunk_def Let_def default_chunk_def)
next
  case (Some l)
  with assms have "l \<noteq> []" "trim l = l" by (auto simp: wf_chunk_def wf_name_def)
  moreover have "trim (32 # l) = trim l"
    by (simp add: trim_def trim_start_def trim_start_matches_def is_whitespace_def)
  ultimately show ?thesis using Some by (simp add: labelled_chunk_def Let_def)
qed

lemma map_split:
  assumes "map f zs = a @ b"
  obtains us vs where "zs = us @ vs" "map f us = a" "map f vs = b"
  using assms by (auto simp: map_eq_append_conv)

lemma render_chunk_split:
  assumes "map snd zs = render_chunk c"
  shows "\<exists>n hs bs es. zs = (n, lit ''@@'' @ (case context_label c of None \<Rightarrow> [] | Some l \<Rightarrow> 32 # l)) # hs @ bs @ es
    \<and> map snd hs = map (Cons 45) (old_lines c) \<and> map snd bs = map (Cons 43) (new_lines c)
    \<and> map snd es = (if is_eof c then [EOF_hdr] else [])"
proof -
  from assms obtain n zs' where z: "zs = (n, lit ''@@'' @ (case context_label c of None \<Rightarrow> [] | Some l \<Rightarrow> 32 # l)) # zs'"
    and m: "map snd zs' = map (Cons 45) (old_lines c) @ map (Cons 43) (new_lines c)
              @ (if is_eof c then [EOF_hdr] else [])"
    by (auto simp: render_chunk_def)
  from m obtain hs ts where "zs' = hs @ ts" "map snd hs = map (Cons 45) (old_lines c)"
    and t: "map snd ts = map (Cons 43) (new_lines c) @ (if is_eof c then [EOF_hdr] else [])"
    by (rule map_split)
  moreover from t obtain bs es where "ts = bs @ es" "map snd bs = map (Cons 43) (new_lines c)"
    "map snd es = (if is_eof c then [EOF_hdr] else [])"
    by (rule map_split)
  ultimately show ?thesis using z by blast
qed

lemma update_body_chunk:
  assumes "map snd zs = render_chunk c" and "wf_chunk c"
  shows "update_body (zs @ rest) dn cur = update_body rest (push_cur dn cur) (Some c)"
proof -
  let ?lab = "case context_label c of None \<Rightarrow> [] | Some l \<Rightarrow> 32 # l"
  from assms(1) obtain n hs bs es where zs: "zs = (n, lit ''@@'' @ ?lab) # hs @ bs @ es"
    and hs: "map snd hs = map (Cons 45) (old_lines c)" and bs: "map snd bs = map (Cons 43) (new_lines c)"
    and es: "map snd es = (if is_eof c then [EOF_hdr] else [])"
    using render_chunk_split [OF assms(1)] by (elim exE conjE) (rule that)
  have at: "lit ''@@'' @ ?lab = 64 # 64 # ?lab" by (simp add: lit_def)
  let ?c1 = "default_chunk\<lparr>context_label := context_label c, old_lines := old_lines c, new_lines := new_lines c\<rparr>"
  have "update_body (zs @ rest) dn cur
      = update_body (hs @ bs @ es @ rest) (push_cur dn cur) (Some (labelled_chunk ?lab))"
    unfolding zs at by (simp add: marker_line) (simp add: lit_def)
  also have "\<dots> = update_body (es @ rest) (push_cur dn cur) (Some ?c1)"
    by (simp add: update_body_minus [OF hs] update_body_plus [OF bs] labelled_chunk_render [OF assms(2)]
        default_chunk_def)
  also have "\<dots> = update_body rest (push_cur dn cur) (Some c)"
  proof (cases "is_eof c")
    case True
    with es obtain m where "es = [(m, EOF_hdr)]" by auto
    moreover have "?c1\<lparr>is_eof := True\<rparr> = c" using True by (cases c) (simp add: default_chunk_def)
    ultimately show ?thesis by (simp add: eof_line cur_or_default_def)
  next
    case False
    with es have "es = []" by simp
    moreover have "?c1 = c" using False by (cases c) (simp add: default_chunk_def)
    ultimately show ?thesis by simp
  qed
  finally show ?thesis .
qed

lemma update_body_render:
  "map snd zs = concat (map render_chunk cs) \<Longrightarrow> list_all wf_chunk cs \<Longrightarrow> at_header rest \<Longrightarrow>
     update_body (zs @ rest) dn cur = Inr (push_cur dn cur @ cs, rest)"
proof (induction cs arbitrary: zs dn cur)
  case Nil
  then show ?case by (cases rest) (auto simp: at_header_def)
next
  case (Cons c cs)
  then obtain hs bs where zs: "zs = hs @ bs" and hs: "map snd hs = render_chunk c"
    and bs: "map snd bs = concat (map render_chunk cs)"
    by (auto simp: map_eq_append_conv)
  have "update_body (zs @ rest) dn cur = update_body (bs @ rest) (push_cur dn cur) (Some c)"
    using update_body_chunk [OF hs, of "bs @ rest"] Cons.prems(2) zs by simp
  also have "\<dots> = Inr (push_cur (push_cur dn cur) (Some c) @ cs, rest)"
    using Cons.IH [OF bs] Cons.prems(2,3) by simp
  finally show ?case by (simp add: push_cur_def)
qed

lemma take_move_render:
  assumes "map snd ms = (case m of None \<Rightarrow> [] | Some t \<Rightarrow> [MOVE_hdr @ t])"
    and "case m of None \<Rightarrow> True | Some t \<Rightarrow> wf_name t"
    and "map snd zs = concat (map render_chunk cs)" and "cs \<noteq> []"
  shows "take_move (ms @ zs @ rest) = (m, zs @ rest)"
proof (cases m)
  case None
  from assms(4) obtain c cs' where "cs = c # cs'" by (cases cs) auto
  with assms(3) obtain n l zs' where zs: "zs = (n, 64 # l) # zs'"
    by (auto simp: render_chunk_def lit_def map_eq_Cons_conv)
  have "strip_prefix MOVE_hdr (64 # l) = None" by (simp add: MOVE_hdr_def lit_def)
  with None assms(1) zs show ?thesis by (simp add: take_move_def)
next
  case (Some t)
  with assms(1) obtain n where "ms = [(n, MOVE_hdr @ t)]" by auto
  with Some assms(2) show ?thesis by (simp add: take_move_def wf_name_def)
qed

lemma body_content_lines:
  assumes "c = [] \<or> c \<noteq> [10] \<and> last c = 10"
  shows "body_content (content_lines c) = c"
proof (cases "c = []")
  case True
  then show ?thesis by (simp add: body_content_def content_lines_def)
next
  case False
  with assms have c: "c = butlast c @ [10]" "butlast c \<noteq> []"
    by (metis append_butlast_last_id) (metis assms False append_butlast_last_id append_Nil)
  with False show ?thesis by (simp add: body_content_def content_lines_def Let_def)
qed

lemma render_change_header:
  "map snd zs = concat (map render_change cs) \<Longrightarrow> at_header rest \<Longrightarrow> at_header (zs @ rest)"
proof (cases cs)
  case (Cons c cs')
  assume "map snd zs = concat (map render_change cs)"
  with Cons show ?thesis
    by (cases c) (auto simp: at_header_def header_lines)
qed simp

lemma parse_changes_render:
  "map snd zs = concat (map render_change cs) \<Longrightarrow> list_all wf_change cs \<Longrightarrow>
     parse_changes (zs @ [(k, END_hdr)]) acc = Inr (acc @ cs)"
proof (induction cs arbitrary: zs acc)
  case Nil
  then show ?case
    by (simp add: parse_changes.simps(2) Let_def section_trim is_end_def)
      (simp add: trim_ascii_word END_hdr_def char_simps trim_Cons trim_end_def trim_end_matches_def)
next
  case (Cons c cs)
  let ?fin = "[(k, END_hdr)]"
  from Cons.prems(1) obtain hs bs where zs: "zs = hs @ bs" and hs: "map snd hs = render_change c"
    and bs: "map snd bs = concat (map render_change cs)"
    by (auto simp: map_eq_append_conv)
  have hd: "at_header (bs @ ?fin)"
    by (rule render_change_header [OF bs]) (simp add: at_header_def header_lines)
  note IH = Cons.IH [OF bs]
  show ?case
  proof (cases c)
    case (FC_Add p ct)
    with hs obtain n hs' where a: "hs = (n, ADD_hdr @ p) # hs'" "map snd hs' = map (Cons 43) (content_lines ct)"
      by auto
    have "add_body (hs' @ bs @ ?fin) [] = Inr (content_lines ct, bs @ ?fin)"
      using add_body_render [OF a(2) hd, of "[]"] by simp
    with FC_Add Cons.prems(2) zs a(1) IH show ?thesis
      by (simp add: parse_changes.simps(2) Let_def section_trim section_not_end body_content_lines wf_name_def)
  next
    case (FC_Delete p)
    with hs obtain n where a: "hs = [(n, DELETE_hdr @ p)]" by auto
    with FC_Delete Cons.prems(2) zs IH show ?thesis
      by (simp add: parse_changes.simps(2) Let_def section_trim section_not_end section_prefix wf_name_def)
  next
    case (FC_Update p m chs)
    with hs obtain n ms us where a: "hs = (n, UPDATE_hdr @ p) # ms @ us"
      and ms: "map snd ms = (case m of None \<Rightarrow> [] | Some t \<Rightarrow> [MOVE_hdr @ t])"
      and us: "map snd us = concat (map render_chunk chs)"
      by (auto simp: map_eq_append_conv)
    from FC_Update Cons.prems(2) have wf: "wf_name p" "case m of None \<Rightarrow> True | Some t \<Rightarrow> wf_name t"
      "chs \<noteq> []" "list_all wf_chunk chs" by auto
    note mv = take_move_render [OF ms wf(2) us wf(3), of "bs @ ?fin"]
    note ub = update_body_render [OF us wf(4) hd, of "[]" None]
    from FC_Update Cons.prems(2) zs a IH mv ub wf show ?thesis
      by (simp add: parse_changes.simps(2) Let_def section_trim section_not_end section_prefix
          wf_name_def push_cur_def)
  qed
qed

section \<open>From lines to text\<close>

definition plain_line :: "rstr \<Rightarrow> bool" where
  "plain_line l = (l \<noteq> [] \<and> hd l \<noteq> 96 \<and> 10 \<notin> set l \<and> last l \<noteq> 13)"

lemma str_lines_join:
  assumes "ls \<noteq> []" and "list_all plain_line ls"
  shows "str_lines (join [10] ls) = ls"
proof -
  have sp: "split_char 10 (join [10] ls) = ls"
    using assms by (intro split_char_join) (auto simp: list_all_iff plain_line_def)
  have cr: "map strip_cr (butlast ls) = butlast ls"
    using assms(2) by (intro map_idI) (auto simp: strip_cr_def list_all_iff plain_line_def dest: in_set_butlastD)
  have "last ls \<noteq> []" using assms by (auto simp: list_all_iff plain_line_def)
  then show ?thesis using sp cr assms(1) by (simp add: str_lines_def)
qed

lemma keep_lines_plain: "list_all plain_line ls \<Longrightarrow> map snd (keep_lines n ls) = ls"
proof (induction ls arbitrary: n)
  case Nil
  then show ?case by simp
next
  case (Cons l ls)
  then have "normalize_line l = Some l"
    by (cases l) (auto simp: normalize_line_def plain_line_def lit_def)
  with Cons show ?case by simp
qed

lemma wf_name_last: "wf_name p \<Longrightarrow> p \<noteq> [] \<Longrightarrow> last p \<noteq> 13"
  using trim_last_not_ws [of p] by (auto simp: wf_name_def is_whitespace_def)

lemma plain_named:
  assumes "wf_name p" and "h \<noteq> []" "hd h \<noteq> 96" "10 \<notin> set h" "last h \<noteq> 13"
  shows "plain_line (h @ p)"
  using assms wf_name_last by (cases "p = []") (auto simp: plain_line_def wf_name_def)

lemma plain_marked: "wf_line l \<Longrightarrow> c \<noteq> 96 \<Longrightarrow> c \<noteq> 10 \<Longrightarrow> c \<noteq> 13 \<Longrightarrow> plain_line (c # l)"
  by (auto simp: plain_line_def wf_line_def)

lemma plain_headers:
  "plain_line BEGIN_hdr" "plain_line END_hdr" "plain_line EOF_hdr"
  by (simp_all add: hdr_defs lit_def plain_line_def)

lemma plain_named_headers:
  assumes "wf_name p"
  shows "plain_line (ADD_hdr @ p)" "plain_line (DELETE_hdr @ p)" "plain_line (UPDATE_hdr @ p)"
    "plain_line (MOVE_hdr @ p)"
  by (rule plain_named [OF assms]; simp add: hdr_defs lit_def)+

lemma plain_chunk: "wf_chunk c \<Longrightarrow> list_all plain_line (render_chunk c)"
proof -
  assume c: "wf_chunk c"
  have "plain_line (lit ''@@'' @ (case context_label c of None \<Rightarrow> [] | Some l \<Rightarrow> 32 # l))"
  proof (cases "context_label c")
    case None
    then show ?thesis by (simp add: plain_line_def lit_def)
  next
    case (Some l)
    with c have "wf_name l" by (simp add: wf_chunk_def)
    then have "plain_line ((lit ''@@'' @ [32]) @ l)" by (intro plain_named) (simp_all add: lit_def)
    with Some show ?thesis by simp
  qed
  with c show ?thesis
    by (auto simp: render_chunk_def wf_chunk_def list_all_iff plain_headers intro: plain_marked)
qed

lemma plain_change: "wf_change c \<Longrightarrow> list_all plain_line (render_change c)"
proof (cases c)
  case (FC_Update p m cs)
  moreover assume "wf_change c"
  ultimately show ?thesis
    using plain_chunk by (auto simp: plain_named_headers list_all_iff split: option.splits)
qed (auto simp: plain_named_headers list_all_iff intro: plain_marked)

section \<open>Properties\<close>

text \<open>
  C4. Printing well-formed file changes as an envelope and parsing the text
  gives the same changes back: paths, move targets, hunk labels, old and new
  lines, end-of-file anchors and file contents.
\<close>

theorem parse_patch_render:
  assumes "list_all wf_change cs"
  shows "parse_patch (render_patch cs) = Inr cs"
proof -
  let ?ls = "BEGIN_hdr # concat (map render_change cs) @ [END_hdr]"
  have plain: "list_all plain_line ?ls"
    using assms plain_change by (auto simp: list_all_iff plain_headers)
  have lines: "map snd (keep_lines 1 (str_lines (render_patch cs))) = ?ls"
    using str_lines_join [OF _ plain] keep_lines_plain [OF plain] by (simp add: render_patch_def)
  then obtain n zs k where kl: "keep_lines 1 (str_lines (render_patch cs)) = (n, BEGIN_hdr) # zs @ [(k, END_hdr)]"
    and zs: "map snd zs = concat (map render_change cs)"
    by (auto simp: map_eq_Cons_conv map_eq_append_conv)
  have "trim BEGIN_hdr = BEGIN_hdr" "BEGIN_hdr \<noteq> []"
    by (auto intro!: trim_ascii_word simp: BEGIN_hdr_def char_simps)
  then show ?thesis
    using parse_changes_render [OF zs assms, of k "[]"] kl by (simp add: parse_patch_def Let_def)
qed

theorem parse_patch_render_witness:
  "parse_patch (render_patch
     [FC_Add (lit ''a.txt'') (lit ''hi'' @ [10]), FC_Delete (lit ''b.txt''),
      FC_Update (lit ''c.txt'') (Some (lit ''d.txt''))
        [\<lparr>context_label = Some (lit ''fn main''), old_lines = [lit ''x''], new_lines = [], is_eof = True\<rparr>]])
   = Inr [FC_Add (lit ''a.txt'') (lit ''hi'' @ [10]), FC_Delete (lit ''b.txt''),
      FC_Update (lit ''c.txt'') (Some (lit ''d.txt''))
        [\<lparr>context_label = Some (lit ''fn main''), old_lines = [lit ''x''], new_lines = [], is_eof = True\<rparr>]]"
  by (rule parse_patch_render)
    (simp add: wf_name_def wf_line_def wf_chunk_def content_lines_def split_char_def lit_def trim_def
      trim_start_def trim_end_def trim_start_matches_def trim_end_matches_def is_whitespace_def)

text \<open>
  A parse never yields an update without a hunk, whichever of the two
  formats the text is in.
\<close>

theorem parse_patch_updates_have_hunks:
  assumes "parse_patch input = Inr cs" and "FC_Update p m chunks \<in> set cs"
  shows "chunks \<noteq> []"
proof -
  have "list_all has_hunks cs"
    using assms(1) parse_changes_ok [of _ "[]"] diff_files_ok [of _ "[]"]
    by (auto simp: parse_patch_def Let_def split: list.splits prod.splits if_splits)
  with assms(2) show ?thesis by (auto simp: list_all_iff has_hunks_def)
qed

theorem parse_patch_updates_have_hunks_witness:
  "[default_chunk\<lparr>old_lines := [lit ''x'']\<rparr>] \<noteq> ([] :: update_chunk list)"
proof (rule parse_patch_updates_have_hunks)
  show "parse_patch (render_patch [FC_Update (lit ''c'') None [default_chunk\<lparr>old_lines := [lit ''x'']\<rparr>]])
    = Inr [FC_Update (lit ''c'') None [default_chunk\<lparr>old_lines := [lit ''x'']\<rparr>]]"
    by (simp add: render_patch_def render_chunk_def parse_patch_def parse_changes.simps(2) hdr_defs
        default_chunk_def lit_def str_lines_def split_char_def strip_cr_def normalize_line_def
        trim_def trim_start_def trim_end_def trim_start_matches_def trim_end_matches_def
        is_whitespace_def is_end_def starts_with_def is_file_header_def take_move_def
        labelled_chunk_def hunk_line_def cur_or_default_def push_cur_def Let_def)
qed simp

text \<open>
  A truncated envelope is never accepted: text that opens with the begin
  line parses only if one of its lines is the end line.
\<close>

theorem parse_patch_needs_footer:
  assumes "parse_patch input = Inr cs"
    and "skip_blank (keep_lines 1 (str_lines input)) = (n, l) # ls" and "trim l = BEGIN_hdr"
  shows "\<exists>(m, e) \<in> set ls. is_end (trim_start e)"
  using assms parse_changes_ok [of ls "[]" cs] by (simp add: parse_patch_def)

theorem parse_patch_needs_footer_witness:
  "\<exists>(m, e) \<in> set [(2::nat, lit ''*** End Patch'')]. is_end (trim_start e)"
proof (rule parse_patch_needs_footer)
  show "parse_patch (render_patch []) = Inr []"
    by (simp add: render_patch_def parse_patch_def parse_changes.simps(2) hdr_defs lit_def
        str_lines_def split_char_def strip_cr_def normalize_line_def trim_def trim_start_def
        trim_end_def trim_start_matches_def trim_end_matches_def is_whitespace_def is_end_def Let_def)
  show "skip_blank (keep_lines 1 (str_lines (render_patch []))) =
      (1, lit ''*** Begin Patch'') # [(2, lit ''*** End Patch'')]"
    by (simp add: render_patch_def hdr_defs lit_def str_lines_def split_char_def strip_cr_def
        normalize_line_def trim_def trim_start_def trim_end_def trim_start_matches_def
        trim_end_matches_def is_whitespace_def)
  show "trim (lit ''*** Begin Patch'') = BEGIN_hdr"
    by (simp add: hdr_defs lit_def trim_def trim_start_def trim_end_def trim_start_matches_def
        trim_end_matches_def is_whitespace_def)
qed

end
