(* ===== verification/Agent_Loop.thy ===== *)
theory Agent_Loop
  imports Interfaces
begin

text \<open>
  The one model-tool loop (leveler-agent-core): the mechanical limits and the
  admission of a model step (limits.rs), the folded spend (usage.rs), the loop's
  own state (harness.rs, stop.rs) and \<open>Agent::run\<close> (agent.rs).  The harness, the
  model round and the clock are parameters: functions of an environment state
  \<open>'h\<close> that answer as the trait's methods do.  Messages are a type variable,
  read only through their text and their tool calls, as the loop reads them.
  Durations are nanoseconds.
\<close>

section \<open>Limits\<close>

definition DEFAULT_MODEL_STEP_CEILING :: nat where
  "DEFAULT_MODEL_STEP_CEILING = 200"

datatype budget_dimension = BD_ModelTokens | BD_Cost | BD_Duration | BD_Commands | BD_ModifiedFiles

fun budget_dimension_as_str :: "budget_dimension \<Rightarrow> rstr" where
  "budget_dimension_as_str BD_ModelTokens = lit ''model_tokens''"
| "budget_dimension_as_str BD_Cost = lit ''cost''"
| "budget_dimension_as_str BD_Duration = lit ''duration''"
| "budget_dimension_as_str BD_Commands = lit ''commands''"
| "budget_dimension_as_str BD_ModifiedFiles = lit ''modified_files''"

record budget_exhaustion =
  be_dimension :: budget_dimension
  be_spent :: nat
  be_cap :: nat

definition budget_exhaustion_new :: "budget_dimension \<Rightarrow> nat \<Rightarrow> nat \<Rightarrow> budget_exhaustion" where
  "budget_exhaustion_new d s c = \<lparr>be_dimension = d, be_spent = s, be_cap = c\<rparr>"

definition stop_detail :: "budget_exhaustion \<Rightarrow> rstr" where
  "stop_detail e =
     lit ''budget_exhausted dimension='' @ budget_dimension_as_str (be_dimension e) @
     lit '' spent='' @ show_nat (be_spent e) @ lit '' cap='' @ show_nat (be_cap e)"

record spent_before =
  sb_model_tokens :: nat
  sb_cost_usd_micros :: nat
  sb_duration :: nat

record model_step_limits =
  model_step_ceiling :: "nat option"
  model_step_window_limit :: "nat option"
  max_model_tokens :: "nat option"
  max_cost_usd_micros :: "nat option"
  max_duration :: "nat option"
  finalize_at :: "nat option"
  spent_before :: spent_before

definition model_step_limits_default :: model_step_limits where
  "model_step_limits_default =
     \<lparr>model_step_ceiling = Some DEFAULT_MODEL_STEP_CEILING, model_step_window_limit = None,
      max_model_tokens = None, max_cost_usd_micros = None, max_duration = None,
      finalize_at = None,
      spent_before = \<lparr>sb_model_tokens = 0, sb_cost_usd_micros = 0, sb_duration = 0\<rparr>\<rparr>"

definition allows_model_step_after :: "model_step_limits \<Rightarrow> nat \<Rightarrow> bool" where
  "allows_model_step_after l steps =
     (case model_step_window_limit l of None \<Rightarrow> True | Some m \<Rightarrow> steps < m)"

record admission_input =
  ai_model_steps :: nat
  ai_model_step_ceiling :: "nat option"
  ai_model_step_window_limit :: "nat option"
  ai_model_tokens_spent :: nat
  ai_max_model_tokens :: "nat option"
  ai_cost_spent_micros :: nat
  ai_max_cost_usd_micros :: "nat option"
  ai_elapsed :: nat
  ai_max_duration :: "nat option"
  ai_cancelled :: bool
  ai_deadline_expired :: bool

datatype model_step_admission =
    Admit
  | StopBudget budget_exhaustion
  | StopModelStepCeiling nat
  | StopModelStepWindowLimit
  | AdmissionCancelled

text \<open>\<open>as_millis().min(u64::MAX)\<close> of a duration in nanoseconds.\<close>

definition millis :: "nat \<Rightarrow> nat" where
  "millis d = min (d div 1000000) u64_max"

definition cap_reached :: "nat option \<Rightarrow> nat \<Rightarrow> bool" where
  "cap_reached cap spent = (case cap of None \<Rightarrow> False | Some m \<Rightarrow> spent \<ge> m)"

definition duration_spent :: "nat option \<Rightarrow> nat \<Rightarrow> bool" where
  "duration_spent cap elapsed = (case cap of None \<Rightarrow> False | Some m \<Rightarrow> m = 0 \<or> elapsed > m)"

definition admit_next_model_step :: "admission_input \<Rightarrow> model_step_admission" where
  "admit_next_model_step i =
     (if cap_reached (ai_max_model_tokens i) (ai_model_tokens_spent i) then
        StopBudget (budget_exhaustion_new BD_ModelTokens (ai_model_tokens_spent i)
                      (the (ai_max_model_tokens i)))
      else if cap_reached (ai_max_cost_usd_micros i) (ai_cost_spent_micros i) then
        StopBudget (budget_exhaustion_new BD_Cost (ai_cost_spent_micros i)
                      (the (ai_max_cost_usd_micros i)))
      else if cap_reached (ai_model_step_ceiling i) (ai_model_steps i) then
        StopModelStepCeiling (the (ai_model_step_ceiling i))
      else if cap_reached (ai_model_step_window_limit i) (ai_model_steps i) then
        StopModelStepWindowLimit
      else if ai_cancelled i \<and> \<not> ai_deadline_expired i then AdmissionCancelled
      else if duration_spent (ai_max_duration i) (ai_elapsed i) then
        StopBudget (budget_exhaustion_new BD_Duration (millis (ai_elapsed i))
                      (millis (the (ai_max_duration i))))
      else Admit)"

section \<open>Usage\<close>

record token_usage =
  tu_input_tokens :: nat
  tu_output_tokens :: nat
  tu_cached_input_tokens :: nat
  tu_cache_creation_input_tokens :: nat
  tu_reasoning_tokens :: "nat option"

text \<open>\<open>u64\<close> addition without a check wraps in a release build.\<close>

definition wrap_add64 :: "nat \<Rightarrow> nat \<Rightarrow> nat" where
  "wrap_add64 a b = (a + b) mod 2 ^ 64"

definition usage_total :: "token_usage \<Rightarrow> nat" where
  "usage_total u = wrap_add64 (tu_input_tokens u) (tu_output_tokens u)"

record usage_projection =
  up_requests :: nat
  up_input_tokens :: nat
  up_cached_input_tokens :: nat
  up_output_tokens :: nat
  up_reasoning_tokens :: nat
  up_records_without_reasoning_usage :: nat
  up_cost_usd_micros :: nat
  up_records_without_cost :: nat
  up_estimated_model_tokens :: nat
  up_records_without_usage :: nat

definition usage_default :: usage_projection where
  "usage_default =
     \<lparr>up_requests = 0, up_input_tokens = 0, up_cached_input_tokens = 0, up_output_tokens = 0,
      up_reasoning_tokens = 0, up_records_without_reasoning_usage = 0, up_cost_usd_micros = 0,
      up_records_without_cost = 0, up_estimated_model_tokens = 0, up_records_without_usage = 0\<rparr>"

definition record_reasoning :: "nat option \<Rightarrow> usage_projection \<Rightarrow> usage_projection" where
  "record_reasoning r p =
     (case r of
        Some n \<Rightarrow> p\<lparr>up_reasoning_tokens := sat_add64 (up_reasoning_tokens p) n\<rparr>
      | None \<Rightarrow> p\<lparr>up_records_without_reasoning_usage :=
                    wrap_add64 (up_records_without_reasoning_usage p) 1\<rparr>)"

definition record_cost :: "nat option \<Rightarrow> usage_projection \<Rightarrow> usage_projection" where
  "record_cost c p =
     (case c of
        Some n \<Rightarrow> p\<lparr>up_cost_usd_micros := sat_add64 (up_cost_usd_micros p) n\<rparr>
      | None \<Rightarrow> p\<lparr>up_records_without_cost := sat_add64 (up_records_without_cost p) 1\<rparr>)"

definition record_estimate :: "token_usage \<Rightarrow> nat option \<Rightarrow> usage_projection \<Rightarrow> usage_projection" where
  "record_estimate u est p =
     (if usage_total u = 0 then
        (let p1 = p\<lparr>up_records_without_usage := sat_add64 (up_records_without_usage p) 1\<rparr>
         in case est of
              Some e \<Rightarrow> p1\<lparr>up_estimated_model_tokens := sat_add64 (up_estimated_model_tokens p1) e\<rparr>
            | None \<Rightarrow> p1)
      else p)"

definition usage_record ::
  "token_usage \<Rightarrow> nat option \<Rightarrow> nat option \<Rightarrow> usage_projection \<Rightarrow> usage_projection" where
  "usage_record u cost est p =
     record_estimate u est (record_cost cost (record_reasoning (tu_reasoning_tokens u)
       (p\<lparr>up_requests := sat_add64 (up_requests p) 1,
          up_input_tokens := sat_add64 (up_input_tokens p) (tu_input_tokens u),
          up_output_tokens := sat_add64 (up_output_tokens p) (tu_output_tokens u),
          up_cached_input_tokens := sat_add64 (up_cached_input_tokens p) (tu_cached_input_tokens u)\<rparr>)))"

definition admission_model_tokens :: "usage_projection \<Rightarrow> nat" where
  "admission_model_tokens p =
     sat_add64 (sat_add64 (up_input_tokens p) (up_output_tokens p)) (up_estimated_model_tokens p)"

definition reported_model_tokens :: "usage_projection \<Rightarrow> nat" where
  "reported_model_tokens p = sat_add64 (up_input_tokens p) (up_output_tokens p)"

definition visible_output_tokens :: "usage_projection \<Rightarrow> nat option" where
  "visible_output_tokens p =
     (if up_requests p = 0 \<or> up_records_without_reasoning_usage p > 0 then None
      else if up_reasoning_tokens p \<le> up_output_tokens p
           then Some (up_output_tokens p - up_reasoning_tokens p) else None)"

section \<open>The loop's state\<close>

datatype 's flow = Continue | NextRound | Stop 's

datatype stop_reason_core =
    ModelEnd
  | SR_Cancelled
  | SR_ModelStepCeiling nat
  | SR_ModelStepWindowLimit nat
  | SR_BudgetExhausted budget_exhaustion

record loop_context =
  lc_model_steps :: nat
  lc_limits :: model_step_limits
  lc_usage :: usage_projection
  lc_last_text :: rstr

record 'm loop_stop =
  lp_reason :: stop_reason_core
  lp_model_steps :: nat
  lp_last_text :: rstr
  lp_messages :: "'m list"

definition loop_context_new :: "model_step_limits \<Rightarrow> loop_context" where
  "loop_context_new l =
     \<lparr>lc_model_steps = 0, lc_limits = l, lc_usage = usage_default, lc_last_text = []\<rparr>"

definition has_next_model_step :: "loop_context \<Rightarrow> bool" where
  "has_next_model_step c = allows_model_step_after (lc_limits c) (lc_model_steps c)"

definition model_tokens_spent :: "loop_context \<Rightarrow> nat" where
  "model_tokens_spent c =
     sat_add64 (sb_model_tokens (spent_before (lc_limits c))) (admission_model_tokens (lc_usage c))"

definition cost_spent_micros :: "loop_context \<Rightarrow> nat" where
  "cost_spent_micros c =
     sat_add64 (sb_cost_usd_micros (spent_before (lc_limits c))) (up_cost_usd_micros (lc_usage c))"

type_synonym attempt_spend = "token_usage \<times> nat option \<times> nat option"

definition record_spend :: "attempt_spend \<Rightarrow> loop_context \<Rightarrow> loop_context" where
  "record_spend s c = (case s of (u, cost, est) \<Rightarrow> c\<lparr>lc_usage := usage_record u cost est (lc_usage c)\<rparr>)"

text \<open>What the loop reads of the outside at one point: the run's own wall clock,
  whether its token is cancelled, whether its deadline timer fired.\<close>

record outside =
  os_elapsed :: nat
  os_cancelled :: bool
  os_deadline_expired :: bool

text \<open>\<open>Duration::MAX\<close> in nanoseconds, the bound of its saturating addition.\<close>

definition duration_max :: nat where
  "duration_max = u64_max * 1000000000 + 999999999"

definition admit :: "outside \<Rightarrow> loop_context \<Rightarrow> model_step_admission" where
  "admit w c =
     admit_next_model_step
       \<lparr>ai_model_steps = lc_model_steps c,
        ai_model_step_ceiling = model_step_ceiling (lc_limits c),
        ai_model_step_window_limit = model_step_window_limit (lc_limits c),
        ai_model_tokens_spent = model_tokens_spent c,
        ai_max_model_tokens = max_model_tokens (lc_limits c),
        ai_cost_spent_micros = cost_spent_micros c,
        ai_max_cost_usd_micros = max_cost_usd_micros (lc_limits c),
        ai_elapsed = sat_add duration_max (sb_duration (spent_before (lc_limits c))) (os_elapsed w),
        ai_max_duration = max_duration (lc_limits c),
        ai_cancelled = os_cancelled w, ai_deadline_expired = os_deadline_expired w\<rparr>"

definition advance_model_step :: "loop_context \<Rightarrow> loop_context" where
  "advance_model_step c = c\<lparr>lc_model_steps := sat_add32 (lc_model_steps c) 1\<rparr>"

definition note_text :: "rstr \<Rightarrow> loop_context \<Rightarrow> loop_context" where
  "note_text t c = (if trim t \<noteq> [] then c\<lparr>lc_last_text := t\<rparr> else c)"

definition loop_stop_of :: "stop_reason_core \<Rightarrow> nat \<Rightarrow> 'm list \<Rightarrow> loop_context \<Rightarrow> 'm loop_stop" where
  "loop_stop_of r n msgs c =
     \<lparr>lp_reason = r, lp_model_steps = n, lp_last_text = lc_last_text c, lp_messages = msgs\<rparr>"

section \<open>The loop\<close>

datatype core_error = CE_Model rstr | CE_Cancelled | CE_ToolRuntime rstr | CE_InvalidLimits rstr

datatype ('e, 'm) model_outcome = RoundOk 'm | RoundHost 'e | RoundCore core_error

text \<open>A seam answers with an error or a flow, and may fold spend and change the
  transcript; it cannot reach the counter or the limits.\<close>

type_synonym ('h, 'm, 's, 'e) seam =
  "'h \<Rightarrow> loop_context \<Rightarrow> 'm list \<Rightarrow> ('e + 's flow) \<times> 'h \<times> attempt_spend list \<times> 'm list"

record ('h, 'm, 'c, 's, 'e) harness =
  hn_round_start :: "('h, 'm, 's, 'e) seam"
  hn_round_admitted :: "('h, 'm, 's, 'e) seam"
  hn_model :: "'h \<Rightarrow> loop_context \<Rightarrow> 'm list \<Rightarrow> ('e, 'm) model_outcome \<times> 'h \<times> attempt_spend list"
  hn_model_error :: "core_error \<Rightarrow> ('h, 'm, 's, 'e) seam"
  hn_response :: "'m \<Rightarrow> ('h, 'm, 's, 'e) seam"
  hn_quiet :: "'m \<Rightarrow> ('h, 'm, 's, 'e) seam"
  hn_execute_calls :: "'m \<Rightarrow> 'c list \<Rightarrow> ('h, 'm, 's, 'e) seam"
  hn_on_stop :: "'h \<Rightarrow> loop_context \<Rightarrow> 'm loop_stop \<Rightarrow> ('e + 's) \<times> 'h"
  hn_outside :: "'h \<Rightarrow> outside"
  hn_text :: "'m \<Rightarrow> rstr"
  hn_calls :: "'m \<Rightarrow> 'c list"
  hn_of_core :: "core_error \<Rightarrow> 'e"

record ('h, 'm) run_state =
  rs_env :: 'h
  rs_ctx :: loop_context
  rs_messages :: "'m list"

datatype ('h, 'm, 's, 'e) iteration =
    Again "('h, 'm) run_state"
  | Finished "'e + 's" "('h, 'm) run_state"

definition call_seam ::
  "('h, 'm, 's, 'e) seam \<Rightarrow> ('h, 'm) run_state \<Rightarrow> ('e + 's flow) \<times> ('h, 'm) run_state" where
  "call_seam seam r =
     (case seam (rs_env r) (rs_ctx r) (rs_messages r) of
        (ans, h, spends, msgs) \<Rightarrow>
          (ans, \<lparr>rs_env = h, rs_ctx = fold record_spend spends (rs_ctx r), rs_messages = msgs\<rparr>))"

definition on_flow ::
  "('e + 's flow) \<times> ('h, 'm) run_state \<Rightarrow> (('h, 'm) run_state \<Rightarrow> ('h, 'm, 's, 'e) iteration)
     \<Rightarrow> ('h, 'm, 's, 'e) iteration" where
  "on_flow a proceed =
     (case a of
        (Inl e, r) \<Rightarrow> Finished (Inl e) r
      | (Inr Continue, r) \<Rightarrow> proceed r
      | (Inr NextRound, r) \<Rightarrow> Again r
      | (Inr (Stop s), r) \<Rightarrow> Finished (Inr s) r)"

definition stop_with ::
  "('h, 'm, 'c, 's, 'e) harness \<Rightarrow> stop_reason_core \<Rightarrow> nat \<Rightarrow> ('h, 'm) run_state
     \<Rightarrow> ('h, 'm, 's, 'e) iteration" where
  "stop_with hn reason steps r =
     (case hn_on_stop hn (rs_env r) (rs_ctx r) (loop_stop_of reason steps (rs_messages r) (rs_ctx r)) of
        (res, h) \<Rightarrow> Finished res (r\<lparr>rs_env := h\<rparr>))"

text \<open>The model answered: its message is appended and its calls are run, or the run
  goes quiet.\<close>

definition after_response ::
  "('h, 'm, 'c, 's, 'e) harness \<Rightarrow> 'm \<Rightarrow> ('h, 'm) run_state \<Rightarrow> ('h, 'm, 's, 'e) iteration" where
  "after_response hn assistant r =
     (let r1 = r\<lparr>rs_ctx := note_text (hn_text hn assistant) (rs_ctx r),
                 rs_messages := rs_messages r @ [assistant]\<rparr>
      in if hn_calls hn assistant = [] then
           on_flow (call_seam (hn_quiet hn assistant) r1)
             (\<lambda>r2. stop_with hn ModelEnd (lc_model_steps (rs_ctx r2)) r2)
         else on_flow (call_seam (hn_execute_calls hn assistant (hn_calls hn assistant)) r1) Again)"

definition model_round ::
  "('h, 'm, 'c, 's, 'e) harness \<Rightarrow> ('h, 'm) run_state \<Rightarrow> ('h, 'm, 's, 'e) iteration" where
  "model_round hn r =
     (case hn_model hn (rs_env r) (rs_ctx r) (rs_messages r) of
        (outcome, h, spends) \<Rightarrow>
          (let r1 = r\<lparr>rs_env := h, rs_ctx := fold record_spend spends (rs_ctx r)\<rparr>
           in case outcome of
                RoundHost e \<Rightarrow> Finished (Inl e) r1
              | RoundCore err \<Rightarrow>
                  (if err = CE_Cancelled \<and> os_deadline_expired (hn_outside hn h) then Again r1
                   else on_flow (call_seam (hn_model_error hn err) r1) Again)
              | RoundOk msg \<Rightarrow>
                  on_flow (call_seam (hn_response hn msg) r1) (after_response hn msg)))"

definition admitted_round ::
  "('h, 'm, 'c, 's, 'e) harness \<Rightarrow> ('h, 'm) run_state \<Rightarrow> ('h, 'm, 's, 'e) iteration" where
  "admitted_round hn r = on_flow (call_seam (hn_round_admitted hn) r) (model_round hn)"

text \<open>The admission in its two phases, before and after the counter advances.\<close>

definition decide ::
  "('h, 'm, 'c, 's, 'e) harness \<Rightarrow> ('h, 'm) run_state \<Rightarrow> ('h, 'm, 's, 'e) iteration" where
  "decide hn r =
     (let steps = lc_model_steps (rs_ctx r);
          r1 = r\<lparr>rs_ctx := advance_model_step (rs_ctx r)\<rparr>;
          steps1 = lc_model_steps (rs_ctx r1)
      in case admit (hn_outside hn (rs_env r)) (rs_ctx r) of
           StopBudget x \<Rightarrow>
             if be_dimension x \<noteq> BD_Duration then stop_with hn (SR_BudgetExhausted x) steps r
             else stop_with hn (SR_BudgetExhausted x) (steps1 - 1) r1
         | StopModelStepCeiling c \<Rightarrow> stop_with hn (SR_ModelStepCeiling c) steps r
         | StopModelStepWindowLimit \<Rightarrow>
             stop_with hn (SR_ModelStepWindowLimit (the (model_step_window_limit (lc_limits (rs_ctx r)))))
               steps r
         | AdmissionCancelled \<Rightarrow> stop_with hn SR_Cancelled steps1 r1
         | Admit \<Rightarrow> admitted_round hn r1)"

definition kernel_iteration ::
  "('h, 'm, 'c, 's, 'e) harness \<Rightarrow> ('h, 'm) run_state \<Rightarrow> ('h, 'm, 's, 'e) iteration" where
  "kernel_iteration hn r = on_flow (call_seam (hn_round_start hn) r) (decide hn)"

text \<open>The loop may run forever (a harness can answer every round start with
  \<open>NextRound\<close>), so it takes fuel, one unit per iteration.\<close>

fun kernel_loop ::
  "('h, 'm, 'c, 's, 'e) harness \<Rightarrow> nat \<Rightarrow> ('h, 'm) run_state \<Rightarrow> (('e + 's) \<times> ('h, 'm) run_state) option"
  where
  "kernel_loop hn 0 r = None"
| "kernel_loop hn (Suc n) r =
     (case kernel_iteration hn r of
        Finished res r' \<Rightarrow> Some (res, r') | Again r' \<Rightarrow> kernel_loop hn n r')"

definition agent_run ::
  "('h, 'm, 'c, 's, 'e) harness \<Rightarrow> nat \<Rightarrow> model_step_limits \<Rightarrow> bool \<Rightarrow> 'h \<Rightarrow> 'm list
     \<Rightarrow> (('e + 's) \<times> ('h, 'm) run_state) option" where
  "agent_run hn fuel limits priced env messages =
     (let r = \<lparr>rs_env = env, rs_ctx = loop_context_new limits, rs_messages = messages\<rparr>
      in if max_cost_usd_micros limits \<noteq> None \<and> \<not> priced
         then Some (Inl (hn_of_core hn
                (CE_InvalidLimits (lit ''a cost limit requires pricing on the agent''))), r)
         else kernel_loop hn fuel r)"

section \<open>Settling one physical attempt\<close>

record model_attempt =
  at_usage :: "token_usage option"
  at_cost_usd_micros :: "nat option"
  at_estimated_tokens :: "nat option"
  at_failed :: bool

definition no_usage :: token_usage where
  "no_usage =
     \<lparr>tu_input_tokens = 0, tu_output_tokens = 0, tu_cached_input_tokens = 0,
      tu_cache_creation_input_tokens = 0, tu_reasoning_tokens = None\<rparr>"

text \<open>The price table and the host's own hook are parameters; the answer is the
  context with the spend folded and what refuses a further attempt, if anything.\<close>

definition attempt_cost :: "(token_usage \<Rightarrow> nat option) \<Rightarrow> model_attempt \<Rightarrow> nat option" where
  "attempt_cost price a =
     (case at_cost_usd_micros a of
        Some c \<Rightarrow> Some c
      | None \<Rightarrow> (case at_usage a of None \<Rightarrow> None | Some u \<Rightarrow> price u))"

definition on_attempt ::
  "(token_usage \<Rightarrow> nat option) \<Rightarrow> 'e option \<Rightarrow> model_attempt \<Rightarrow> loop_context
     \<Rightarrow> loop_context \<times> ('e + core_error) option" where
  "on_attempt price hook a c =
     (let cost = attempt_cost price a;
          usage = (case at_usage a of None \<Rightarrow> no_usage | Some u \<Rightarrow> u);
          c1 = record_spend (usage, cost, at_estimated_tokens a) c;
          limits = lc_limits c
      in (c1,
          case hook of
            Some e \<Rightarrow> Some (Inl e)
          | None \<Rightarrow>
              if max_cost_usd_micros limits \<noteq> None \<and> cost = None then
                Some (Inr (CE_InvalidLimits (lit
                  ''provider usage is unavailable; the configured cost budget cannot admit further model calls'')))
              else if at_failed a \<and> (cap_reached (max_model_tokens limits) (model_tokens_spent c1)
                       \<or> cap_reached (max_cost_usd_micros limits) (cost_spent_micros c1)) then
                Some (Inr (CE_InvalidLimits (lit
                  ''model budget exhausted by a failed attempt; retry refused'')))
              else None))"

end
