(* ===== verification/Agent_Loop_Correct.thy ===== *)
theory Agent_Loop_Correct
  imports Agent_Loop
begin

text \<open>
  What the loop guarantees: the exact condition and order of an admission, an
  exact spend to measure caps against, no model call once a cap is spent, and
  termination within the step ceiling.
\<close>

section \<open>Admission\<close>

text \<open>A model step is admitted exactly while every cap still has room: tokens
  and cost strictly below their caps, the step counter strictly below ceiling
  and window, no cancellation other than the run's own deadline, and a
  duration cap that is positive and not exceeded.  A task budget is reported
  only for a resource that is really spent: the dimension, the amount and the
  cap it names are the ones that fired.\<close>

theorem admission_exact:
  "(admit_next_model_step i = Admit \<longleftrightarrow>
      \<not> cap_reached (ai_max_model_tokens i) (ai_model_tokens_spent i)
      \<and> \<not> cap_reached (ai_max_cost_usd_micros i) (ai_cost_spent_micros i)
      \<and> \<not> cap_reached (ai_model_step_ceiling i) (ai_model_steps i)
      \<and> \<not> cap_reached (ai_model_step_window_limit i) (ai_model_steps i)
      \<and> (ai_cancelled i \<longrightarrow> ai_deadline_expired i)
      \<and> \<not> duration_spent (ai_max_duration i) (ai_elapsed i))
   \<and> (\<forall>x. admit_next_model_step i = StopBudget x \<longrightarrow>
        (be_dimension x = BD_ModelTokens \<and> ai_max_model_tokens i = Some (be_cap x)
           \<and> be_spent x = ai_model_tokens_spent i \<and> be_cap x \<le> be_spent x)
      \<or> (be_dimension x = BD_Cost \<and> ai_max_cost_usd_micros i = Some (be_cap x)
           \<and> be_spent x = ai_cost_spent_micros i \<and> be_cap x \<le> be_spent x)
      \<or> (be_dimension x = BD_Duration
           \<and> (\<exists>m. ai_max_duration i = Some m \<and> be_cap x = millis m \<and> (m = 0 \<or> m < ai_elapsed i))))"
  by (auto simp: admit_next_model_step_def budget_exhaustion_new_def cap_reached_def
      duration_spent_def split: option.splits if_splits)

theorem admission_exact_witness:
  "\<exists>x. admit_next_model_step
     \<lparr>ai_model_steps = 3, ai_model_step_ceiling = Some 200, ai_model_step_window_limit = None,
      ai_model_tokens_spent = 50, ai_max_model_tokens = Some 40, ai_cost_spent_micros = 0,
      ai_max_cost_usd_micros = None, ai_elapsed = 0, ai_max_duration = None,
      ai_cancelled = True, ai_deadline_expired = False\<rparr> = StopBudget x
     \<and> be_dimension x = BD_ModelTokens \<and> be_spent x = 50"
proof -
  let ?i = "\<lparr>ai_model_steps = 3, ai_model_step_ceiling = Some 200, ai_model_step_window_limit = None,
      ai_model_tokens_spent = 50, ai_max_model_tokens = Some 40, ai_cost_spent_micros = 0,
      ai_max_cost_usd_micros = None, ai_elapsed = 0, ai_max_duration = None,
      ai_cancelled = True, ai_deadline_expired = False\<rparr> :: admission_input"
  obtain x where x: "admit_next_model_step ?i = StopBudget x"
    by (simp add: admit_next_model_step_def cap_reached_def)
  with admission_exact [of ?i] show ?thesis by auto
qed

section \<open>The spend a cap is measured against\<close>

definition usage_tokens :: "attempt_spend \<Rightarrow> nat" where
  "usage_tokens s = (case s of (u, cost, est) \<Rightarrow>
     tu_input_tokens u + tu_output_tokens u
     + (if usage_total u = 0 then (case est of None \<Rightarrow> 0 | Some e \<Rightarrow> e) else 0))"

definition spend_cost :: "attempt_spend \<Rightarrow> nat" where
  "spend_cost s = (case s of (u, cost, est) \<Rightarrow> case cost of None \<Rightarrow> 0 | Some c \<Rightarrow> c)"

definition fold_usage :: "attempt_spend \<Rightarrow> usage_projection \<Rightarrow> usage_projection" where
  "fold_usage s p = (case s of (u, cost, est) \<Rightarrow> usage_record u cost est p)"

definition usage_in_range :: "usage_projection \<Rightarrow> bool" where
  "usage_in_range p \<longleftrightarrow> up_input_tokens p \<le> u64_max \<and> up_output_tokens p \<le> u64_max
     \<and> up_estimated_model_tokens p \<le> u64_max \<and> up_cost_usd_micros p \<le> u64_max"

definition raw_tokens :: "usage_projection \<Rightarrow> nat" where
  "raw_tokens p = up_input_tokens p + up_output_tokens p + up_estimated_model_tokens p"

lemma admission_tokens_raw: "admission_model_tokens p = min u64_max (raw_tokens p)"
  by (simp add: admission_model_tokens_def raw_tokens_def sat_add_def)

lemma fold_usage_fields:
  "up_input_tokens (fold_usage (u, cost, est) p) = min u64_max (up_input_tokens p + tu_input_tokens u)"
  "up_output_tokens (fold_usage (u, cost, est) p) = min u64_max (up_output_tokens p + tu_output_tokens u)"
  "up_estimated_model_tokens (fold_usage (u, cost, est) p) =
     (if usage_total u = 0 \<and> est \<noteq> None then min u64_max (up_estimated_model_tokens p + the est)
      else up_estimated_model_tokens p)"
  "up_cost_usd_micros (fold_usage (u, cost, est) p) =
     (if cost \<noteq> None then min u64_max (up_cost_usd_micros p + the cost) else up_cost_usd_micros p)"
  by (cases "tu_reasoning_tokens u"; cases cost; cases est;
      simp add: fold_usage_def usage_record_def record_estimate_def record_cost_def
        record_reasoning_def sat_add_def Let_def)+

lemma min_three:
  "min m (min m x + min m y + z + k) = min m (x + y + z + k)"
  "min m (min m x + min m y + min m z + k) = min m (x + y + z + k)" for m x y z k :: nat
  by (simp_all add: min_def)

lemma fold_usage_step:
  "min u64_max (raw_tokens (fold_usage s p) + k) = min u64_max (raw_tokens p + usage_tokens s + k)"
proof -
  obtain u cost est where s: "s = (u, cost, est)" by (cases s)
  show ?thesis
  proof (cases "usage_total u = 0 \<and> est \<noteq> None")
    case True
    then obtain e where "est = Some e" "usage_total u = 0" by auto
    then show ?thesis
      by (simp add: s raw_tokens_def fold_usage_fields min_three usage_tokens_def)
  next
    case False
    then have "usage_tokens s = tu_input_tokens u + tu_output_tokens u"
      by (auto simp: s usage_tokens_def)
    moreover have "up_estimated_model_tokens (fold_usage (u, cost, est) p) = up_estimated_model_tokens p"
      using False by (simp only: fold_usage_fields if_False)
    ultimately show ?thesis
      by (simp add: s raw_tokens_def fold_usage_fields(1,2) min_three ac_simps)
  qed
qed

lemma fold_usage_cost:
  "min u64_max (up_cost_usd_micros (fold_usage s p) + k) = min u64_max (up_cost_usd_micros p + spend_cost s + k)"
proof -
  obtain u cost est where s: "s = (u, cost, est)" by (cases s)
  show ?thesis
    by (cases cost) (simp_all add: s fold_usage_fields spend_cost_def)
qed

lemma fold_usage_raw:
  "min u64_max (raw_tokens (fold fold_usage ss p) + k)
     = min u64_max (raw_tokens p + sum_list (map usage_tokens ss) + k)"
proof (induction ss arbitrary: p k)
  case (Cons s ss)
  have "min u64_max (raw_tokens (fold fold_usage (s # ss) p) + k)
      = min u64_max (raw_tokens (fold_usage s p) + (sum_list (map usage_tokens ss) + k))"
    using Cons.IH [of "fold_usage s p" k] by (simp add: add.assoc)
  also have "\<dots> = min u64_max (raw_tokens p + usage_tokens s + (sum_list (map usage_tokens ss) + k))"
    by (rule fold_usage_step)
  finally show ?case by (simp add: add.assoc)
qed simp

lemma fold_usage_costs:
  "min u64_max (up_cost_usd_micros (fold fold_usage ss p) + k)
     = min u64_max (up_cost_usd_micros p + sum_list (map spend_cost ss) + k)"
proof (induction ss arbitrary: p k)
  case (Cons s ss)
  have "min u64_max (up_cost_usd_micros (fold fold_usage (s # ss) p) + k)
      = min u64_max (up_cost_usd_micros (fold_usage s p) + (sum_list (map spend_cost ss) + k))"
    using Cons.IH [of "fold_usage s p" k] by (simp add: add.assoc)
  also have "\<dots> = min u64_max (up_cost_usd_micros p + spend_cost s + (sum_list (map spend_cost ss) + k))"
    by (rule fold_usage_cost)
  finally show ?case by (simp add: add.assoc)
qed simp

lemma fold_record_spend:
  "fold record_spend ss c = c\<lparr>lc_usage := fold fold_usage ss (lc_usage c)\<rparr>"
  by (induction ss arbitrary: c) (auto simp: record_spend_def fold_usage_def split: prod.splits)

text \<open>The number a budget is measured against is the bill.  After any sequence
  of model calls, the tokens a cap sees are the prior spend plus every reported
  input and output token plus the estimate of each call that reported none, and
  the cost is the prior cost plus every priced call, both capped at
  \<open>u64::MAX\<close>: nothing is lost, counted twice or dependent on the order.\<close>

theorem spend_is_the_bill:
  "model_tokens_spent (fold record_spend ss (loop_context_new l))
     = min u64_max (sb_model_tokens (spent_before l) + sum_list (map usage_tokens ss))
   \<and> cost_spent_micros (fold record_spend ss (loop_context_new l))
     = min u64_max (sb_cost_usd_micros (spent_before l) + sum_list (map spend_cost ss))"
proof -
  let ?p = "fold fold_usage ss usage_default"
  have r0: "raw_tokens usage_default = 0" "up_cost_usd_micros usage_default = 0"
    by (simp_all add: raw_tokens_def usage_default_def)
  have tokens: "min u64_max (a + raw_tokens ?p) = min u64_max (a + sum_list (map usage_tokens ss))"
    and cost: "min u64_max (a + up_cost_usd_micros ?p) = min u64_max (a + sum_list (map spend_cost ss))"
    for a
    using fold_usage_raw [of ss usage_default a] fold_usage_costs [of ss usage_default a] r0
    by (simp_all add: add.commute)
  have "sat_add64 a (min u64_max x) = min u64_max (a + x)" for a x
    by (simp add: sat_add_def)
  then show ?thesis
    by (simp add: model_tokens_spent_def cost_spent_micros_def fold_record_spend loop_context_new_def
        admission_tokens_raw tokens) (simp add: sat_add_def cost)
qed

section \<open>No call past a cap\<close>

definition replace_model ::
  "('h \<Rightarrow> loop_context \<Rightarrow> 'm list \<Rightarrow> ('e, 'm) model_outcome \<times> 'h \<times> attempt_spend list)
     \<Rightarrow> ('h, 'm, 'c, 's, 'e) harness \<Rightarrow> ('h, 'm, 'c, 's, 'e) harness" where
  "replace_model f hn = hn\<lparr>hn_model := f\<rparr>"

lemma stop_with_replace [simp]: "stop_with (replace_model f hn) = stop_with hn"
  by (simp add: stop_with_def replace_model_def fun_eq_iff)

lemma decide_not_admitted:
  assumes "admit (hn_outside hn (rs_env r)) (rs_ctx r) \<noteq> Admit"
  shows "decide (replace_model f hn) r = decide hn r"
  using assms
  by (cases "admit (hn_outside hn (rs_env r)) (rs_ctx r)")
    (simp_all add: decide_def Let_def replace_model_def stop_with_def)

text \<open>When a run has no room left, read off its limits, its bill and the clock: tokens or
  cost reached a cap, the counter reached the ceiling or the window, the run was
  cancelled by something other than its own deadline, or its time is over.\<close>

definition no_room :: "outside \<Rightarrow> loop_context \<Rightarrow> bool" where
  "no_room w c \<longleftrightarrow>
     (let l = lc_limits c; prior = spent_before l; u = lc_usage c
      in (\<exists>cap. max_model_tokens l = Some cap \<and>
            cap \<le> min u64_max (sb_model_tokens prior + up_input_tokens u + up_output_tokens u
                                + up_estimated_model_tokens u)) \<or>
         (\<exists>cap. max_cost_usd_micros l = Some cap \<and>
            cap \<le> min u64_max (sb_cost_usd_micros prior + up_cost_usd_micros u)) \<or>
         (\<exists>cap. model_step_ceiling l = Some cap \<and> cap \<le> lc_model_steps c) \<or>
         (\<exists>cap. model_step_window_limit l = Some cap \<and> cap \<le> lc_model_steps c) \<or>
         (os_cancelled w \<and> \<not> os_deadline_expired w) \<or>
         (\<exists>cap. max_duration l = Some cap \<and>
            (cap = 0 \<or> cap < min duration_max (sb_duration prior + os_elapsed w))))"

lemma tokens_spent_sum:
  "model_tokens_spent c =
     min u64_max (sb_model_tokens (spent_before (lc_limits c)) + up_input_tokens (lc_usage c)
                  + up_output_tokens (lc_usage c) + up_estimated_model_tokens (lc_usage c))"
  by (simp add: model_tokens_spent_def admission_tokens_raw raw_tokens_def sat_add_def)

lemma admit_iff: "admit w c = Admit \<longleftrightarrow> \<not> no_room w c"
  unfolding admit_def admit_next_model_step_def no_room_def Let_def tokens_spent_sum cost_spent_micros_def
    sat_add_def cap_reached_def duration_spent_def
  by (auto split: option.splits)

text \<open>
  C20. A spent cap stops the run before the model is asked.  In an iteration that
  finds no room left, in tokens, cost, steps or time, or finds the run cancelled, the
  model is not called: whatever the model would have answered, billed or changed, the
  iteration's outcome is the same, and the run is over.\<close>

theorem no_model_call_past_a_cap:
  assumes "call_seam (hn_round_start hn) r = (Inr Continue, r1)"
    and "no_room (hn_outside hn (rs_env r1)) (rs_ctx r1)"
  shows "kernel_iteration (replace_model f hn) r = kernel_iteration hn r
    \<and> (\<exists>res r2. kernel_iteration hn r = Finished res r2)"
proof
  have refused: "admit (hn_outside hn (rs_env r1)) (rs_ctx r1) \<noteq> Admit"
    using assms(2) by (simp add: admit_iff)
  have s: "call_seam (hn_round_start (replace_model f hn)) r = (Inr Continue, r1)"
    using assms(1) by (simp add: replace_model_def)
  show "kernel_iteration (replace_model f hn) r = kernel_iteration hn r"
    using decide_not_admitted [OF refused] s assms(1)
    by (simp add: kernel_iteration_def on_flow_def)
  have "\<exists>res r2. decide hn r1 = Finished res r2"
    using refused
    by (cases "admit (hn_outside hn (rs_env r1)) (rs_ctx r1)")
      (auto simp: decide_def Let_def stop_with_def split: prod.split)
  then show "\<exists>res r2. kernel_iteration hn r = Finished res r2"
    using assms(1) by (simp add: kernel_iteration_def on_flow_def)
qed

text \<open>A plain harness for the witnesses: every seam continues, the model answers
  with a message that asks for a call, stops are returned as they are.\<close>

definition plain_seam :: "(unit, nat, nat loop_stop, unit) seam" where
  "plain_seam h c msgs = (Inr Continue, h, [], msgs)"

definition plain_harness :: "(unit, nat, nat, nat loop_stop, unit) harness" where
  "plain_harness =
     \<lparr>hn_round_start = plain_seam, hn_round_admitted = plain_seam,
      hn_model = (\<lambda>h c msgs. (RoundOk 7, h, [(no_usage, Some 0, Some 100)])),
      hn_model_error = (\<lambda>e. plain_seam), hn_response = (\<lambda>m. plain_seam),
      hn_quiet = (\<lambda>m. plain_seam), hn_execute_calls = (\<lambda>m cs. plain_seam),
      hn_on_stop = (\<lambda>h c stop. (Inr stop, h)),
      hn_outside = (\<lambda>h. \<lparr>os_elapsed = 0, os_cancelled = False, os_deadline_expired = False\<rparr>),
      hn_text = (\<lambda>m. []), hn_calls = (\<lambda>m. [m]), hn_of_core = (\<lambda>e. ())\<rparr>"

definition spent_run :: "(unit, nat) run_state" where
  "spent_run =
     \<lparr>rs_env = (),
      rs_ctx = loop_context_new (model_step_limits_default\<lparr>max_model_tokens := Some 0\<rparr>),
      rs_messages = []\<rparr>"

theorem no_model_call_past_a_cap_witness:
  "kernel_iteration (replace_model (\<lambda>h c msgs. (RoundHost (), h, [])) plain_harness) spent_run
     = kernel_iteration plain_harness spent_run"
proof -
  have "call_seam (hn_round_start plain_harness) spent_run = (Inr Continue, spent_run)"
    by (simp add: call_seam_def plain_harness_def plain_seam_def spent_run_def)
  moreover have "no_room (hn_outside plain_harness (rs_env spent_run)) (rs_ctx spent_run)"
    by (simp add: no_room_def spent_run_def loop_context_new_def model_step_limits_default_def Let_def)
  ultimately show ?thesis using no_model_call_past_a_cap by blast
qed

section \<open>The ceiling ends every run\<close>

lemma record_spends_keep [simp]:
  "lc_model_steps (fold record_spend ss c) = lc_model_steps c"
  "lc_limits (fold record_spend ss c) = lc_limits c"
  by (simp_all add: fold_record_spend)

lemma note_text_keeps [simp]:
  "lc_model_steps (note_text t c) = lc_model_steps c" "lc_limits (note_text t c) = lc_limits c"
  by (simp_all add: note_text_def)

definition same_counter :: "('h, 'm) run_state \<Rightarrow> ('h, 'm) run_state \<Rightarrow> bool" where
  "same_counter r r' \<longleftrightarrow>
     lc_model_steps (rs_ctx r') = lc_model_steps (rs_ctx r) \<and> lc_limits (rs_ctx r') = lc_limits (rs_ctx r)"

lemma call_seam_counter: "call_seam seam r = (a, r') \<Longrightarrow> same_counter r r'"
  by (auto simp: call_seam_def same_counter_def split: prod.splits)

text \<open>Every state an iteration can leave behind, with the counter it has.\<close>

fun leaves :: "(('h, 'm) run_state \<Rightarrow> bool) \<Rightarrow> ('h, 'm, 's, 'e) iteration \<Rightarrow> bool" where
  "leaves P (Again r) = P r"
| "leaves P (Finished res r) = P r"

lemma leaves_on_flow:
  assumes "\<And>r. P r \<Longrightarrow> leaves P (proceed r)" and "P (snd a)"
  shows "leaves P (on_flow a proceed)"
proof -
  obtain ans r where a: "a = (ans, r)" by (cases a)
  show ?thesis using assms a by (auto simp: on_flow_def split: sum.split flow.split)
qed

lemma leaves_seam:
  assumes "\<And>r'. same_counter r0 r' \<Longrightarrow> leaves (same_counter r0) (proceed r')" and "same_counter r0 r"
  shows "leaves (same_counter r0) (on_flow (call_seam seam r) proceed)"
proof (rule leaves_on_flow)
  show "same_counter r0 (snd (call_seam seam r))"
    using assms(2) call_seam_counter [of seam r "fst (call_seam seam r)" "snd (call_seam seam r)"]
    by (simp add: same_counter_def)
qed (rule assms(1))

lemma leaves_stop: "same_counter r0 r \<Longrightarrow> leaves (same_counter r0) (stop_with hn reason n r)"
  by (auto simp: stop_with_def same_counter_def split: prod.split)

lemma leaves_after_response:
  "same_counter r0 r \<Longrightarrow> leaves (same_counter r0) (after_response hn msg r)"
  unfolding after_response_def Let_def
  by (auto intro!: leaves_seam leaves_stop simp: same_counter_def)

lemma leaves_model_round: "same_counter r0 r \<Longrightarrow> leaves (same_counter r0) (model_round hn r)"
  unfolding model_round_def Let_def
  by (auto intro!: leaves_seam leaves_after_response simp: same_counter_def
      split: prod.split model_outcome.split)

lemma leaves_admitted: "leaves (same_counter r) (admitted_round hn r)"
  unfolding admitted_round_def
  by (rule leaves_seam) (auto intro: leaves_model_round simp: same_counter_def)

lemma decide_again:
  assumes "decide hn r = Again r'"
  shows "admit (hn_outside hn (rs_env r)) (rs_ctx r) = Admit
    \<and> lc_model_steps (rs_ctx r') = sat_add32 (lc_model_steps (rs_ctx r)) 1
    \<and> lc_limits (rs_ctx r') = lc_limits (rs_ctx r)"
proof (cases "admit (hn_outside hn (rs_env r)) (rs_ctx r)")
  case Admit
  let ?r1 = "r\<lparr>rs_ctx := advance_model_step (rs_ctx r)\<rparr>"
  have "leaves (same_counter ?r1) (Again r')"
    using leaves_admitted [of ?r1 hn] Admit assms by (simp add: decide_def Let_def)
  with Admit show ?thesis by (simp add: same_counter_def advance_model_step_def)
qed (use assms in \<open>auto simp: decide_def Let_def stop_with_def split: prod.splits if_splits\<close>)

lemma admit_below_ceiling:
  "admit w c = Admit \<Longrightarrow> model_step_ceiling (lc_limits c) = Some k \<Longrightarrow> lc_model_steps c < k"
  by (auto simp: admit_def admit_next_model_step_def cap_reached_def split: if_splits)

definition never_skips :: "('h, 'm, 'c, 's, 'e) harness \<Rightarrow> bool" where
  "never_skips hn \<longleftrightarrow> (\<forall>h c msgs. fst (hn_round_start hn h c msgs) \<noteq> Inr NextRound)"

lemma iteration_again:
  assumes "kernel_iteration hn r = Again r'" and "never_skips hn"
    and "model_step_ceiling (lc_limits (rs_ctx r)) = Some k" and "k \<le> u32_max"
  shows "lc_model_steps (rs_ctx r') = Suc (lc_model_steps (rs_ctx r))
    \<and> lc_model_steps (rs_ctx r) < k \<and> lc_limits (rs_ctx r') = lc_limits (rs_ctx r)"
proof -
  obtain ans r1 where s: "call_seam (hn_round_start hn) r = (ans, r1)" by fastforce
  have "ans \<noteq> Inr NextRound"
    using s assms(2) [unfolded never_skips_def, rule_format, of "rs_env r" "rs_ctx r" "rs_messages r"]
    by (auto simp: call_seam_def split: prod.splits)
  with assms(1) s have d: "decide hn r1 = Again r'"
    by (auto simp: kernel_iteration_def on_flow_def split: sum.splits flow.splits)
  have same: "same_counter r r1" using s by (rule call_seam_counter)
  have "lc_model_steps (rs_ctx r1) < k"
    using decide_again [OF d] admit_below_ceiling same assms(3) by (metis same_counter_def)
  with decide_again [OF d] same assms(4) show ?thesis
    by (simp add: same_counter_def sat_add_def)
qed

lemma loop_returns:
  assumes "never_skips hn" and "model_step_ceiling (lc_limits (rs_ctx r)) = Some k" and "k \<le> u32_max"
    and "k - lc_model_steps (rs_ctx r) < n"
  shows "\<exists>out. kernel_loop hn n r = Some out"
  using assms
proof (induction n arbitrary: r)
  case (Suc n)
  show ?case
  proof (cases "kernel_iteration hn r")
    case (Again r')
    have "k - lc_model_steps (rs_ctx r') < n" and "model_step_ceiling (lc_limits (rs_ctx r')) = Some k"
      using iteration_again [OF Again Suc.prems(1-3)] Suc.prems by auto
    with Suc.IH [of r'] Suc.prems(1,3) Again show ?thesis by simp
  qed simp
qed simp

text \<open>
  C32. The ceiling is a circuit breaker.  With a step ceiling and a harness that
  does not skip rounds before admission, a run returns within one iteration
  more than the ceiling, whatever the model, the tools and the harness do, and
  without the ceiling ever being exceeded by an admitted step that goes on.\<close>

theorem run_returns_within_ceiling:
  assumes "never_skips hn" and "model_step_ceiling limits = Some k" and "k \<le> u32_max"
  shows "\<exists>out. agent_run hn (k + 1) limits priced env messages = Some out"
  using assms loop_returns [of hn _ k "k + 1"]
  by (simp add: agent_run_def Let_def loop_context_new_def)

theorem run_returns_within_ceiling_witness:
  "\<exists>out. agent_run plain_harness 201 model_step_limits_default False () [] = Some out"
proof -
  have n: "never_skips plain_harness"
    by (simp add: never_skips_def plain_harness_def plain_seam_def)
  have c: "model_step_ceiling model_step_limits_default = Some 200"
    by (simp add: model_step_limits_default_def DEFAULT_MODEL_STEP_CEILING_def)
  have k: "(200 :: nat) \<le> u32_max" by (simp add: u32_max_def)
  from run_returns_within_ceiling [OF n c k, of False "()" "[]"] show ?thesis by simp
qed

text \<open>A failed attempt cannot be retried past the budget: once its spend is
  folded, a failed attempt that brought tokens or cost to their cap, and any
  attempt whose cost cannot be priced under a cost cap, refuses the next one;
  the spend is folded in every case.\<close>

theorem failed_attempt_settles_first:
  "lc_usage (fst (on_attempt price hook a c)) =
      usage_record (case at_usage a of None \<Rightarrow> no_usage | Some u \<Rightarrow> u) (attempt_cost price a)
        (at_estimated_tokens a) (lc_usage c)
   \<and> (snd (on_attempt price None a c) = None \<longrightarrow>
        (max_cost_usd_micros (lc_limits c) = None \<or> attempt_cost price a \<noteq> None)
        \<and> (at_failed a \<longrightarrow>
             \<not> cap_reached (max_model_tokens (lc_limits c)) (model_tokens_spent (fst (on_attempt price None a c)))
             \<and> \<not> cap_reached (max_cost_usd_micros (lc_limits c)) (cost_spent_micros (fst (on_attempt price None a c)))))"
  by (auto simp: on_attempt_def Let_def record_spend_def split: if_splits)

theorem failed_attempt_settles_first_witness:
  "snd (on_attempt (\<lambda>u. None) None
     \<lparr>at_usage = None, at_cost_usd_micros = Some 5, at_estimated_tokens = Some 10, at_failed = True\<rparr>
     (loop_context_new (model_step_limits_default\<lparr>max_model_tokens := Some 10\<rparr>))) \<noteq> (None :: (unit + core_error) option)"
proof -
  let ?a = "\<lparr>at_usage = None, at_cost_usd_micros = Some 5, at_estimated_tokens = Some 10, at_failed = True\<rparr>"
  let ?c = "loop_context_new (model_step_limits_default\<lparr>max_model_tokens := Some 10\<rparr>)"
  have "cap_reached (max_model_tokens (lc_limits ?c))
      (model_tokens_spent (fst (on_attempt (\<lambda>u. None) (None :: unit option) ?a ?c)))"
    by (simp add: on_attempt_def Let_def attempt_cost_def cap_reached_def loop_context_new_def
        model_step_limits_default_def record_spend_def usage_record_def record_estimate_def
        record_cost_def record_reasoning_def usage_total_def wrap_add64_def no_usage_def u64_max_def
        usage_default_def model_tokens_spent_def admission_model_tokens_def sat_add_def)
  with failed_attempt_settles_first [of "\<lambda>u. None" "None :: unit option" ?a ?c]
  show ?thesis by auto
qed

end
