(* ===== verification/Sse_Decoder.thy ===== *)
theory Sse_Decoder
  imports Interfaces
begin

text \<open>
  The incremental decoder of a provider's event stream (leveler-protocol,
  sse.rs).  Bytes are naturals below 256.  \<open>String::from_utf8_lossy\<close> of the
  standard library is written out: every maximal ill-formed part becomes one
  U+FFFD.
\<close>

section \<open>UTF-8\<close>

type_synonym byte = nat

definition is_cont :: "byte list \<Rightarrow> nat \<Rightarrow> bool" where
  "is_cont bs i \<longleftrightarrow> i < length bs \<and> 128 \<le> bs ! i \<and> bs ! i < 192"

definition in_range :: "byte list \<Rightarrow> nat \<Rightarrow> nat \<Rightarrow> nat \<Rightarrow> bool" where
  "in_range bs i lo hi \<longleftrightarrow> i < length bs \<and> lo \<le> bs ! i \<and> bs ! i \<le> hi"

text \<open>The second byte a three- or four-byte sequence may have.\<close>

definition second_ok :: "byte list \<Rightarrow> bool" where
  "second_ok bs \<longleftrightarrow>
     (let b = bs ! 0 in
      if b = 224 then in_range bs 1 160 191
      else if b = 237 then in_range bs 1 128 159
      else if b = 240 then in_range bs 1 144 191
      else if b = 244 then in_range bs 1 128 143
      else in_range bs 1 128 191)"

text \<open>The character at the front of a non-empty byte string and its width.\<close>

definition utf8_next :: "byte list \<Rightarrow> rchar \<times> nat" where
  "utf8_next bs =
     (let b = bs ! 0 in
      if b < 128 then (b, 1)
      else if 194 \<le> b \<and> b \<le> 223 then
        (if is_cont bs 1 then ((b - 192) * 64 + (bs ! 1 - 128), 2) else (65533, 1))
      else if 224 \<le> b \<and> b \<le> 239 then
        (if \<not> second_ok bs then (65533, 1)
         else if \<not> is_cont bs 2 then (65533, 2)
         else ((b - 224) * 4096 + (bs ! 1 - 128) * 64 + (bs ! 2 - 128), 3))
      else if 240 \<le> b \<and> b \<le> 244 then
        (if \<not> second_ok bs then (65533, 1)
         else if \<not> is_cont bs 2 then (65533, 2)
         else if \<not> is_cont bs 3 then (65533, 3)
         else ((b - 240) * 262144 + (bs ! 1 - 128) * 4096 + (bs ! 2 - 128) * 64 + (bs ! 3 - 128), 4))
      else (65533, 1))"

lemma utf8_next_width: "1 \<le> snd (utf8_next bs)"
  by (simp add: utf8_next_def Let_def)

function from_utf8_lossy :: "byte list \<Rightarrow> rstr" where
  "from_utf8_lossy bs =
     (if bs = [] then []
      else (let (c, w) = utf8_next bs in c # from_utf8_lossy (drop w bs)))"
  by pat_completeness auto
termination
proof (relation "measure length")
  fix bs :: "byte list" and x c w
  assume "bs \<noteq> []" and "x = utf8_next bs" and "(c, w) = x"
  then have "1 \<le> w" using utf8_next_width by (metis snd_conv)
  with \<open>bs \<noteq> []\<close> show "(drop w bs, bs) \<in> measure length" by simp
qed simp

declare from_utf8_lossy.simps [simp del]

section \<open>The decoder\<close>

definition MAX_SSE_LINE_BYTES :: nat where
  "MAX_SSE_LINE_BYTES = 1024 * 1024"

definition MAX_SSE_EVENT_DATA_BYTES :: nat where
  "MAX_SSE_EVENT_DATA_BYTES = 8 * 1024 * 1024"

record sse_event =
  ev_event :: "rstr option"
  ev_data :: rstr

datatype sse_decode_error = LineTooLong nat | EventDataTooLarge nat

definition sse_error_display :: "sse_decode_error \<Rightarrow> rstr" where
  "sse_error_display e =
     (case e of
        LineTooLong limit \<Rightarrow> lit ''SSE line exceeded the '' @ show_nat limit @ lit ''-byte limit''
      | EventDataTooLarge limit \<Rightarrow>
          lit ''SSE event data exceeded the '' @ show_nat limit @ lit ''-byte limit'')"

record sse_decoder =
  sd_buffer :: "byte list"
  sd_pending_cr :: bool
  sd_current_event :: "rstr option"
  sd_data :: rstr
  sd_has_data :: bool
  sd_max_event_data_bytes :: nat
  sd_has_fields :: bool
  sd_failed :: "sse_decode_error option"

definition sse_default :: sse_decoder where
  "sse_default =
     \<lparr>sd_buffer = [], sd_pending_cr = False, sd_current_event = None, sd_data = [],
      sd_has_data = False, sd_max_event_data_bytes = MAX_SSE_EVENT_DATA_BYTES,
      sd_has_fields = False, sd_failed = None\<rparr>"

type_synonym sse_result = "(sse_decode_error \<times> sse_decoder) + (sse_decoder \<times> sse_event list)"

definition sse_fail :: "sse_decode_error \<Rightarrow> sse_decoder \<Rightarrow> sse_result" where
  "sse_fail e d =
     Inl (e, d\<lparr>sd_buffer := [], sd_current_event := None, sd_data := [], sd_has_data := False,
               sd_has_fields := False, sd_failed := Some e\<rparr>)"

definition dispatch :: "sse_decoder \<Rightarrow> sse_decoder \<times> sse_event list" where
  "dispatch d =
     (if \<not> sd_has_fields d then (d, [])
      else (d\<lparr>sd_current_event := None, sd_data := [], sd_has_data := False, sd_has_fields := False\<rparr>,
            [\<lparr>ev_event = sd_current_event d, ev_data = sd_data d\<rparr>]))"

text \<open>\<open>name: value\<close>, one space after the colon stripped.\<close>

definition field_value :: "rstr \<Rightarrow> rstr \<times> rstr" where
  "field_value txt =
     (case split_once 58 txt of
        Some (f, v) \<Rightarrow> (f, case v of [] \<Rightarrow> [] | c # cs \<Rightarrow> if c = 32 then cs else v)
      | None \<Rightarrow> (txt, []))"

definition data_field :: "rstr \<Rightarrow> sse_decoder \<Rightarrow> sse_result" where
  "data_field value d =
     (let sep = (if sd_has_data d then 1 else 0);
          next_size = byte_len (sd_data d) + sep + byte_len value
      in if next_size > u64_max \<or> next_size > sd_max_event_data_bytes d
         then sse_fail (EventDataTooLarge (sd_max_event_data_bytes d)) d
         else Inr (d\<lparr>sd_data := sd_data d @ (if sd_has_data d then [10] else []) @ value,
                     sd_has_data := True\<rparr>, []))"

definition process_line :: "byte list \<Rightarrow> sse_decoder \<Rightarrow> sse_result" where
  "process_line line d =
     (if line = [] then Inr (dispatch d)
      else if hd line = 58 then Inr (d, [])
      else
        (let (field, value) = field_value (from_utf8_lossy line);
             d1 = d\<lparr>sd_has_fields := True\<rparr>
         in if field = lit ''data'' then data_field value d1
            else if field = lit ''event'' then Inr (d1\<lparr>sd_current_event := Some value\<rparr>, [])
            else Inr (d1, [])))"

definition process_buffered_line :: "sse_decoder \<Rightarrow> sse_result" where
  "process_buffered_line d = process_line (sd_buffer d) (d\<lparr>sd_buffer := []\<rparr>)"

text \<open>The byte itself, after a held carriage return has been settled.\<close>

definition plain_byte :: "sse_decoder \<Rightarrow> byte \<Rightarrow> sse_result" where
  "plain_byte d b =
     (if b = 10 then process_buffered_line d
      else if b = 13 then Inr (d\<lparr>sd_pending_cr := True\<rparr>, [])
      else if length (sd_buffer d) = MAX_SSE_LINE_BYTES
           then sse_fail (LineTooLong MAX_SSE_LINE_BYTES) d
      else Inr (d\<lparr>sd_buffer := sd_buffer d @ [b]\<rparr>, []))"

definition sse_step :: "sse_decoder \<Rightarrow> byte \<Rightarrow> sse_result" where
  "sse_step d b =
     (if sd_pending_cr d then
        (case process_buffered_line (d\<lparr>sd_pending_cr := False\<rparr>) of
           Inl e \<Rightarrow> Inl e
         | Inr (d1, evs) \<Rightarrow>
             if b = 10 then Inr (d1, evs)
             else (case plain_byte d1 b of
                     Inl e \<Rightarrow> Inl e | Inr (d2, evs') \<Rightarrow> Inr (d2, evs @ evs')))
      else plain_byte d b)"

interpretation sse: chunk_decoder sse_step .

text \<open>One chunk: events completed before an error in the same chunk are lost with it.\<close>

definition try_feed :: "sse_decoder \<Rightarrow> byte list \<Rightarrow> (sse_decode_error + sse_event list) \<times> sse_decoder" where
  "try_feed d chunk =
     (case sd_failed d of
        Some e \<Rightarrow> (Inl e, d)
      | None \<Rightarrow> (case sse.run d chunk [] of
                   Inl (e, d') \<Rightarrow> (Inl e, d') | Inr (d', evs) \<Rightarrow> (Inr evs, d')))"

definition feed :: "sse_decoder \<Rightarrow> byte list \<Rightarrow> sse_event list \<times> sse_decoder" where
  "feed d chunk =
     (case try_feed d chunk of (Inl _, d') \<Rightarrow> ([], d') | (Inr evs, d') \<Rightarrow> (evs, d'))"

text \<open>
  A stream consumer: chunk after chunk until an error.  It keeps what it was handed before the
  error.
\<close>

fun feed_all ::
  "sse_decoder \<Rightarrow> byte list list \<Rightarrow> sse_event list \<times> sse_decode_error option \<times> sse_decoder" where
  "feed_all d [] = ([], None, d)"
| "feed_all d (c # cs) =
     (case try_feed d c of
        (Inl e, d') \<Rightarrow> ([], Some e, d')
      | (Inr evs, d') \<Rightarrow>
          (case feed_all d' cs of (evs', e, d'') \<Rightarrow> (evs @ evs', e, d'')))"

section \<open>Every step keeps the bounds\<close>

definition within_bounds :: "sse_decoder \<Rightarrow> bool" where
  "within_bounds d \<longleftrightarrow>
     length (sd_buffer d) \<le> MAX_SSE_LINE_BYTES \<and> byte_len (sd_data d) \<le> sd_max_event_data_bytes d"

lemma process_line_ok:
  assumes "process_line line d = Inr (d', evs)" and "sd_failed d = None" and "within_bounds d"
  shows "sd_failed d' = None \<and> within_bounds d'
    \<and> sd_max_event_data_bytes d' = sd_max_event_data_bytes d \<and> sd_buffer d' = sd_buffer d
    \<and> sd_pending_cr d' = sd_pending_cr d"
  using assms
  by (auto simp: process_line_def dispatch_def data_field_def sse_fail_def within_bounds_def Let_def
      utf8_len_def split: if_splits prod.splits)

lemma process_line_error:
  "process_line line d = Inl (e, d') \<Longrightarrow>
   sd_failed d' = Some e \<and> sd_buffer d' = [] \<and> sd_data d' = [] \<and> sd_current_event d' = None"
  by (auto simp: process_line_def dispatch_def data_field_def sse_fail_def Let_def
      split: if_splits prod.splits)

lemma process_buffered_ok:
  assumes "process_buffered_line d = Inr (d', evs)" and "sd_failed d = None" and "within_bounds d"
  shows "sd_failed d' = None \<and> within_bounds d'
    \<and> sd_max_event_data_bytes d' = sd_max_event_data_bytes d"
  using process_line_ok [of "sd_buffer d" "d\<lparr>sd_buffer := []\<rparr>" d' evs] assms
  by (simp add: process_buffered_line_def within_bounds_def)

lemma process_buffered_error:
  "process_buffered_line d = Inl (e, d') \<Longrightarrow>
   sd_failed d' = Some e \<and> sd_buffer d' = [] \<and> sd_data d' = [] \<and> sd_current_event d' = None"
  unfolding process_buffered_line_def by (rule process_line_error)

lemma plain_byte_ok:
  assumes "plain_byte d b = Inr (d', evs)" and "sd_failed d = None" and "within_bounds d"
  shows "sd_failed d' = None \<and> within_bounds d'
    \<and> sd_max_event_data_bytes d' = sd_max_event_data_bytes d"
  using assms process_buffered_ok [of d d' evs]
  by (auto simp: plain_byte_def sse_fail_def within_bounds_def split: if_splits)

lemma plain_byte_error:
  "plain_byte d b = Inl (e, d') \<Longrightarrow>
   sd_failed d' = Some e \<and> sd_buffer d' = [] \<and> sd_data d' = [] \<and> sd_current_event d' = None"
  by (auto simp: plain_byte_def sse_fail_def dest: process_buffered_error split: if_splits)

definition healthy :: "nat \<Rightarrow> sse_decoder \<Rightarrow> bool" where
  "healthy m d \<longleftrightarrow> sd_failed d = None \<and> within_bounds d \<and> sd_max_event_data_bytes d = m"

lemma sse_step_ok:
  assumes "sse_step d b = Inr (d', evs)" and "healthy m d"
  shows "healthy m d'"
proof (cases "sd_pending_cr d")
  case False
  with assms plain_byte_ok [of d b d' evs] show ?thesis
    by (simp add: sse_step_def healthy_def)
next
  case True
  with assms(1) obtain d1 evs1 where p: "process_buffered_line (d\<lparr>sd_pending_cr := False\<rparr>) = Inr (d1, evs1)"
    and rest: "b = 10 \<and> d' = d1 \<or> (\<exists>evs2. plain_byte d1 b = Inr (d', evs2))"
    by (auto simp: sse_step_def split: sum.splits prod.splits if_splits)
  have "healthy m d1"
    using process_buffered_ok [OF p] assms(2) by (simp add: healthy_def within_bounds_def)
  with rest show ?thesis using plain_byte_ok [of d1 b d'] by (auto simp: healthy_def)
qed

lemma sse_step_error:
  assumes "sse_step d b = Inl (e, d')"
  shows "sd_failed d' = Some e \<and> sd_buffer d' = [] \<and> sd_data d' = [] \<and> sd_current_event d' = None"
proof (cases "sd_pending_cr d")
  case False
  with assms show ?thesis by (auto simp: sse_step_def dest: plain_byte_error)
next
  case True
  with assms show ?thesis
    by (auto simp: sse_step_def split: sum.splits prod.splits if_splits
        dest: plain_byte_error process_buffered_error)
qed

lemma run_error:
  "sse.run d bs out = Inl (e, d') \<Longrightarrow>
   sd_failed d' = Some e \<and> sd_buffer d' = [] \<and> sd_data d' = [] \<and> sd_current_event d' = None"
  by (induction bs arbitrary: d out)
    (auto split: sum.splits prod.splits dest: sse_step_error)

lemma run_healthy: "sse.run d bs out = Inr (d', evs) \<Longrightarrow> healthy m d \<Longrightarrow> healthy m d'"
  using sse.run_invariant [of "healthy m"] sse_step_ok by blast

lemma run_not_failed:
  assumes "sse.run d bs out = Inr (d', evs)" and "sd_failed d = None"
  shows "sd_failed d' = None"
proof (rule sse.run_invariant [of "\<lambda>d. sd_failed d = None"])
  show "sd_failed s' = None" if "sd_failed s = None" "sse_step s b = Inr (s', os)" for s b s' os
    using that
    by (auto simp: sse_step_def plain_byte_def process_buffered_line_def process_line_def dispatch_def
        data_field_def sse_fail_def Let_def split: if_splits sum.splits prod.splits)
qed (use assms in auto)

section \<open>Fragmentation\<close>

lemma try_feed_run:
  "sd_failed d = None \<Longrightarrow>
   try_feed d c = (case sse.run d c [] of Inl (e, d') \<Rightarrow> (Inl e, d') | Inr (d', evs) \<Rightarrow> (Inr evs, d'))"
  by (simp add: try_feed_def)

lemma feed_all_run:
  assumes "sd_failed d = None"
  shows "case sse.run d (concat chunks) [] of
      Inr (d', evs) \<Rightarrow> feed_all d chunks = (evs, None, d')
    | Inl (e, d') \<Rightarrow> \<exists>before c after evs d1. chunks = before @ c # after \<and>
        sse.run d (concat before) [] = Inr (d1, evs) \<and> sse.run d1 c [] = Inl (e, d') \<and>
        feed_all d chunks = (evs, Some e, d')"
  using assms
proof (induction chunks arbitrary: d)
  case Nil
  then show ?case by simp
next
  case (Cons c cs)
  show ?case
  proof (cases "sse.run d c []")
    case (Inl ed)
    obtain e d' where ed: "ed = (e, d')" by (cases ed)
    have "\<exists>before x after evs d1. c # cs = before @ x # after \<and>
        sse.run d (concat before) [] = Inr (d1, evs) \<and> sse.run d1 x [] = Inl (e, d') \<and>
        feed_all d (c # cs) = (evs, Some e, d')"
      by (rule exI [of _ "[]"], rule exI [of _ c], rule exI [of _ cs], rule exI [of _ "[]"], rule exI [of _ d])
        (use Inl ed Cons.prems in \<open>simp add: try_feed_run\<close>)
    with Inl ed show ?thesis by (simp add: sse.run_append)
  next
    case (Inr de)
    obtain d1 evs where de: "de = (d1, evs)" by (cases de)
    have ok: "sd_failed d1 = None" using run_not_failed Inr de Cons.prems by blast
    have split: "sse.run d (c @ bs) [] = (case sse.run d1 bs [] of Inl e \<Rightarrow> Inl e | Inr (s', os) \<Rightarrow> Inr (s', evs @ os))" for bs
      by (simp add: sse.run_append Inr de) (rule sse.run_out)
    show ?thesis
    proof (cases "sse.run d1 (concat cs) []")
      case (Inl ed)
      obtain e d' where ed: "ed = (e, d')" by (cases ed)
      from Cons.IH [OF ok] Inl ed obtain before x after evs2 d2 where ih: "cs = before @ x # after"
        "sse.run d1 (concat before) [] = Inr (d2, evs2)" "sse.run d2 x [] = Inl (e, d')"
        "feed_all d1 cs = (evs2, Some e, d')" by auto
      have "c # cs = (c # before) @ x # after" using ih(1) by simp
      moreover have "sse.run d (concat (c # before)) [] = Inr (d2, evs @ evs2)"
        using split [of "concat before"] ih(2) by simp
      moreover have "feed_all d (c # cs) = (evs @ evs2, Some e, d')"
        using Inr de ih(4) Cons.prems by (simp add: try_feed_run \<open>sse.run d c [] = Inr de\<close>)
      ultimately have "\<exists>before c' after evs d1. c # cs = before @ c' # after \<and>
          sse.run d (concat before) [] = Inr (d1, evs) \<and> sse.run d1 c' [] = Inl (e, d') \<and>
          feed_all d (c # cs) = (evs, Some e, d')"
        using ih(3) by blast
      moreover have "sse.run d (concat (c # cs)) [] = Inl (e, d')" using split [of "concat cs"] Inl ed by simp
      ultimately show ?thesis by simp
    next
      case (Inr p)
      obtain d' evs2 where "p = (d', evs2)" by (cases p)
      with Cons.IH [OF ok] Inr split [of "concat cs"] \<open>sse.run d c [] = Inr de\<close> de Cons.prems
      show ?thesis by (simp add: try_feed_run)
    qed
  qed
qed

text \<open>
  C31. The decoder never depends on how the network cut the stream, for every way of cutting it:
  inside a character, a line ending or an event.  A stream without an error gives the same
  events and the same final state fed in chunks as fed at once.  A stream with an error gives
  the same error and the same final state, but not the same events: fed at once it hands over
  none, and fed in chunks it has handed over exactly what the chunks before the first
  failing one decode to.  After the error every further chunk is answered with that error.
\<close>

theorem fragmentation_independent:
  assumes "sd_failed d = None"
  shows "case try_feed d (concat chunks) of
      (Inr evs, d') \<Rightarrow> feed_all d chunks = (evs, None, d')
    | (Inl e, d') \<Rightarrow> \<exists>before c after evs d1. chunks = before @ c # after \<and>
        try_feed d (concat before) = (Inr evs, d1) \<and> try_feed d1 c = (Inl e, d') \<and>
        feed_all d chunks = (evs, Some e, d') \<and> (\<forall>more. try_feed d' more = (Inl e, d'))"
proof (cases "sse.run d (concat chunks) []")
  case (Inr p)
  with feed_all_run [OF assms, of chunks] assms show ?thesis
    by (cases p) (simp add: try_feed_run)
next
  case (Inl p)
  obtain e d' where p: "p = (e, d')" by (cases p)
  with feed_all_run [OF assms, of chunks] Inl obtain before c after evs d1 where
    r: "chunks = before @ c # after" "sse.run d (concat before) [] = Inr (d1, evs)" "sse.run d1 c [] = Inl (e, d')"
      "feed_all d chunks = (evs, Some e, d')" by auto
  have "sd_failed d1 = None" using run_not_failed [OF r(2) assms] .
  moreover have "\<forall>more. try_feed d' more = (Inl e, d')"
    using run_error [of d "concat chunks" "[]" e d'] Inl p by (simp add: try_feed_def)
  ultimately have "try_feed d (concat before) = (Inr evs, d1)" "try_feed d1 c = (Inl e, d')"
    "try_feed d (concat chunks) = (Inl e, d')" "\<forall>more. try_feed d' more = (Inl e, d')"
    using r assms Inl p by (simp_all add: try_feed_run)
  with r(1,4) show ?thesis by (simp del: feed_all.simps) blast
qed
lemma sample_stream:
  "try_feed sse_default [100, 97, 116, 97, 58, 104, 105, 13, 10, 10] =
     (Inr [\<lparr>ev_event = None, ev_data = [104, 105]\<rparr>], sse_default)"
  by (simp add: try_feed_def sse_default_def sse_step_def plain_byte_def process_buffered_line_def
      process_line_def dispatch_def data_field_def field_value_def from_utf8_lossy.simps utf8_next_def
      Let_def lit_def utf8_len_def u64_max_def MAX_SSE_LINE_BYTES_def MAX_SSE_EVENT_DATA_BYTES_def)

theorem fragmentation_independent_witness:
  "feed_all sse_default [[100, 97], [116, 97, 58, 104, 105, 13], [], [10], [10]]
     = ([\<lparr>ev_event = None, ev_data = [104, 105]\<rparr>], None, sse_default)"
proof -
  let ?cs = "[[100, 97], [116, 97, 58, 104, 105, 13], [], [10], [10]] :: byte list list"
  have "sd_failed sse_default = None" by (simp add: sse_default_def)
  from fragmentation_independent [OF this, of ?cs] show ?thesis
    using sample_stream by (simp del: feed_all.simps)
qed

section \<open>Memory and failure\<close>

lemma healthy_default: "healthy MAX_SSE_EVENT_DATA_BYTES sse_default"
  by (simp add: healthy_def within_bounds_def sse_default_def)

text \<open>A peer cannot make the decoder grow.  After any bytes on a fresh stream
  the unfinished line holds at most 1 MiB and the event being assembled at most
  8 MiB; a stream that would exceed a bound is a reported error that clears
  what was buffered, and from then on the decoder answers every chunk with that
  same error and changes no more.\<close>

theorem decoder_bounded_and_poisoned:
  "try_feed sse_default bytes = (r, d) \<Longrightarrow>
     length (sd_buffer d) \<le> MAX_SSE_LINE_BYTES
   \<and> byte_len (sd_data d) \<le> MAX_SSE_EVENT_DATA_BYTES
   \<and> (\<forall>e. r = Inl e \<longrightarrow> sd_buffer d = [] \<and> sd_data d = [] \<and> (\<forall>more. try_feed d more = (Inl e, d)))"
proof -
  assume r: "try_feed sse_default bytes = (r, d)"
  have nf: "sd_failed sse_default = None" by (simp add: sse_default_def)
  show ?thesis
  proof (cases "sse.run sse_default bytes []")
    case (Inl ed)
    obtain e d' where ed: "ed = (e, d')" by (cases ed)
    with r Inl nf have "d = d'" "r = Inl e" by (auto simp: try_feed_run)
    with run_error [of sse_default bytes "[]" e d'] Inl ed show ?thesis
      by (simp add: try_feed_def)
  next
    case (Inr de)
    obtain d' evs where de: "de = (d', evs)" by (cases de)
    with r Inr nf have "d = d'" "r = Inr evs" by (auto simp: try_feed_run)
    with run_healthy [of sse_default bytes "[]" d' evs] healthy_default Inr de show ?thesis
      by (auto simp: healthy_def within_bounds_def)
  qed
qed

theorem decoder_bounded_and_poisoned_witness:
  "length (sd_buffer (snd (try_feed sse_default [100, 97, 116, 97, 58, 104, 105, 13, 10, 10])))
     \<le> MAX_SSE_LINE_BYTES"
  using decoder_bounded_and_poisoned [OF sample_stream] sample_stream by simp

section \<open>Well-formed UTF-8\<close>

definition scalar :: "rchar \<Rightarrow> bool" where
  "scalar c \<longleftrightarrow> c < 55296 \<or> (57343 < c \<and> c < 1114112)"

lemma div_mod_64: "(c :: nat) = c div 64 * 64 + c mod 64" by simp

lemma split_3: "(c :: nat) = c div 4096 * 4096 + c div 64 mod 64 * 64 + c mod 64"
proof -
  have "c div 64 = c div 64 div 64 * 64 + c div 64 mod 64" by simp
  moreover have "c div 64 div 64 = c div 4096" by (simp add: div_mult2_eq [symmetric])
  ultimately show ?thesis using div_mod_64 [of c] by linarith
qed

lemma split_4: "(c :: nat) = c div 262144 * 262144 + c div 4096 mod 64 * 4096 + c div 64 mod 64 * 64 + c mod 64"
proof -
  have "c div 4096 = c div 4096 div 64 * 64 + c div 4096 mod 64" by simp
  moreover have "c div 4096 div 64 = c div 262144" by (simp add: div_mult2_eq [symmetric])
  ultimately show ?thesis using split_3 [of c] by linarith
qed

lemma second_ok_3_bytes:
  "h \<le> 15 \<Longrightarrow> k < 64 \<Longrightarrow> (h = 0 \<Longrightarrow> 32 \<le> k) \<Longrightarrow> (h = 13 \<Longrightarrow> k \<le> 31) \<Longrightarrow>
   second_ok ((224 + h) # (128 + k) # rest)"
  by (auto simp: second_ok_def in_range_def Let_def)

lemma second_ok_4_bytes:
  "h \<le> 4 \<Longrightarrow> k < 64 \<Longrightarrow> (h = 0 \<Longrightarrow> 16 \<le> k) \<Longrightarrow> (h = 4 \<Longrightarrow> k \<le> 15) \<Longrightarrow>
   second_ok ((240 + h) # (128 + k) # rest)"
  by (auto simp: second_ok_def in_range_def Let_def)

lemma second_ok_3:
  assumes "scalar c" and "2048 \<le> c" and "c < 65536"
  shows "second_ok ((224 + c div 4096) # (128 + c div 64 mod 64) # x # rest)"
proof -
  have m: "c div 64 mod 64 < 64" by simp
  have low: "32 \<le> c div 64 mod 64" if "c div 4096 = 0"
  proof -
    have "c < 4096" using that by simp
    then have "c div 64 < 64" by simp
    moreover have "32 \<le> c div 64" using assms(2) by simp
    ultimately show ?thesis by simp
  qed
  have high: "c div 64 mod 64 \<le> 31" if "c div 4096 = 13"
  proof (rule ccontr)
    assume "\<not> c div 64 mod 64 \<le> 31"
    with that split_3 [of c] have "55296 \<le> c" by simp
    moreover have "c < 57344" using that by simp
    ultimately show False using assms(1) by (simp add: scalar_def)
  qed
  have "c div 4096 \<le> 15" using assms(3) by simp
  then show ?thesis using m low high by (rule second_ok_3_bytes)
qed

lemma second_ok_4:
  assumes "scalar c" and "65536 \<le> c"
  shows "second_ok ((240 + c div 262144) # (128 + c div 4096 mod 64) # x # y # rest)"
proof -
  have m: "c div 4096 mod 64 < 64" by simp
  have low: "16 \<le> c div 4096 mod 64" if "c div 262144 = 0"
  proof -
    have "c < 262144" using that by simp
    then have "c div 4096 < 64" by simp
    moreover have "16 \<le> c div 4096" using assms(2) by simp
    ultimately show ?thesis by simp
  qed
  have high: "c div 4096 mod 64 \<le> 15" if "c div 262144 = 4"
  proof (rule ccontr)
    assume "\<not> c div 4096 mod 64 \<le> 15"
    with that split_4 [of c] have "1114112 \<le> c" by simp
    then show False using assms(1) by (simp add: scalar_def)
  qed
  have "c < 1114112" using assms by (auto simp: scalar_def)
  then have "c div 262144 \<le> 4" by simp
  then show ?thesis using m low high by (rule second_ok_4_bytes)
qed

lemma utf8_next_char:
  assumes "scalar c"
  shows "utf8_next (utf8_char c @ rest) = (c, utf8_len c)"
proof -
  consider "c < 128" | "128 \<le> c" "c < 2048" | "2048 \<le> c" "c < 65536" | "65536 \<le> c" by linarith
  then show ?thesis
  proof cases
    case 1
    then show ?thesis by (simp add: utf8_next_def utf8_char_def utf8_len_def)
  next
    case 2
    then have "2 \<le> c div 64" "c div 64 \<le> 31" by simp_all
    with 2 show ?thesis
      by (simp add: utf8_next_def utf8_char_def utf8_len_def is_cont_def Let_def)
  next
    case 3
    have "c div 4096 \<le> 15" using 3 by simp
    with 3 second_ok_3 [OF assms 3] split_3 [of c] show ?thesis
      by (simp add: utf8_next_def utf8_char_def utf8_len_def is_cont_def Let_def)
  next
    case 4
    have "c < 1114112" using assms 4 by (auto simp: scalar_def)
    then have "c div 262144 \<le> 4" by simp
    with 4 second_ok_4 [OF assms 4] split_4 [of c] show ?thesis
      by (simp add: utf8_next_def utf8_char_def utf8_len_def is_cont_def Let_def)
  qed
qed

lemma lossy_encode: "\<forall>c \<in> set s. scalar c \<Longrightarrow> from_utf8_lossy (utf8_encode s) = s"
proof (induction s)
  case Nil
  then show ?case by (simp add: from_utf8_lossy.simps utf8_encode_def)
next
  case (Cons c s)
  have ne: "utf8_char c \<noteq> []" by (simp add: utf8_char_def)
  have e: "utf8_encode (c # s) = utf8_char c @ utf8_encode s" by (simp add: utf8_encode_def)
  have d: "drop (utf8_len c) (utf8_char c @ utf8_encode s) = utf8_encode s"
    by (simp flip: utf8_char_length)
  have "from_utf8_lossy (utf8_char c @ utf8_encode s) = c # from_utf8_lossy (utf8_encode s)"
    using ne Cons.prems utf8_next_char [of c "utf8_encode s"] d
    by (subst from_utf8_lossy.simps) simp
  with Cons e show ?case by simp
qed

section \<open>Streams written by a server\<close>

definition sse_field :: "string \<Rightarrow> rstr \<Rightarrow> rstr" where
  "sse_field name value = lit name @ lit '': '' @ value"

definition event_lines :: "sse_event \<Rightarrow> rstr list" where
  "event_lines e =
     (case ev_event e of None \<Rightarrow> [] | Some n \<Rightarrow> [sse_field ''event'' n])
     @ map (sse_field ''data'') (split_char 10 (ev_data e))"

definition render_line :: "rstr \<Rightarrow> byte list" where
  "render_line l = utf8_encode l @ [10]"

definition render_event :: "sse_event \<Rightarrow> byte list" where
  "render_event e = concat (map render_line (event_lines e)) @ [10]"

definition line_ok :: "rstr \<Rightarrow> bool" where
  "line_ok l \<longleftrightarrow> (\<forall>c \<in> set l. scalar c \<and> c \<noteq> 10 \<and> c \<noteq> 13) \<and> byte_len l + 7 \<le> MAX_SSE_LINE_BYTES"

definition event_ok :: "sse_event \<Rightarrow> bool" where
  "event_ok e \<longleftrightarrow>
     (\<forall>n. ev_event e = Some n \<longrightarrow> line_ok n) \<and> (\<forall>l \<in> set (split_char 10 (ev_data e)). line_ok l)
     \<and> byte_len (ev_data e) \<le> MAX_SSE_EVENT_DATA_BYTES"

lemma run_plain_bytes:
  "\<forall>b \<in> set bs. b \<noteq> 10 \<and> b \<noteq> 13 \<Longrightarrow> \<not> sd_pending_cr d \<Longrightarrow>
   length (sd_buffer d) + length bs \<le> MAX_SSE_LINE_BYTES \<Longrightarrow>
   sse.run d bs out = Inr (d\<lparr>sd_buffer := sd_buffer d @ bs\<rparr>, out)"
proof (induction bs arbitrary: d)
  case (Cons b bs)
  then have "sse_step d b = Inr (d\<lparr>sd_buffer := sd_buffer d @ [b]\<rparr>, [])"
    by (simp add: sse_step_def plain_byte_def)
  with Cons show ?case by simp
qed simp

lemma run_line:
  assumes "\<forall>c \<in> set l. scalar c \<and> c \<noteq> 10 \<and> c \<noteq> 13" and "byte_len l \<le> MAX_SSE_LINE_BYTES"
    and "sd_buffer d = []" and "\<not> sd_pending_cr d"
    and "process_line (utf8_encode l) d = Inr (d', evs)"
  shows "sse.run d (render_line l @ rest) out = sse.run d' rest (out @ evs)"
proof -
  have "10 \<notin> set (utf8_encode l)" "13 \<notin> set (utf8_encode l)"
    using assms(1) utf8_encode_no_ascii [of 10 l] utf8_encode_no_ascii [of 13 l] by auto
  then have "\<forall>b \<in> set (utf8_encode l). b \<noteq> 10 \<and> b \<noteq> 13" by auto
  from run_plain_bytes [OF this assms(4)] assms(2,3)
  have run: "sse.run d (utf8_encode l) out = Inr (d\<lparr>sd_buffer := utf8_encode l\<rparr>, out)"
    by (simp add: utf8_encode_length)
  have same: "d\<lparr>sd_buffer := []\<rparr> = d" using assms(3) by (cases d) simp
  have "sse_step (d\<lparr>sd_buffer := utf8_encode l\<rparr>) 10 = Inr (d', evs)"
    using assms(4,5) same by (simp add: sse_step_def plain_byte_def process_buffered_line_def)
  with run show ?thesis by (simp add: render_line_def sse.run_append)
qed

lemma encode_not_special:
  "l \<noteq> [] \<Longrightarrow> hd l < 128 \<Longrightarrow> utf8_encode l \<noteq> [] \<and> hd (utf8_encode l) = hd l"
  by (cases l) (auto simp: utf8_encode_def utf8_char_def)

lemma field_line:
  assumes "name \<in> {''data'', ''event''}" and "\<forall>c \<in> set v. scalar c"
  shows "field_value (from_utf8_lossy (utf8_encode (sse_field name v))) = (lit name, v)"
    and "utf8_encode (sse_field name v) \<noteq> []" and "hd (utf8_encode (sse_field name v)) \<noteq> 58"
proof -
  have sc: "\<forall>c \<in> set (sse_field name v). scalar c"
    using assms by (auto simp: sse_field_def lit_def scalar_def)
  have nc: "58 \<notin> set (lit name)" using assms(1) by (auto simp: lit_def)
  have eq: "sse_field name v = lit name @ 58 # 32 # v" by (simp add: sse_field_def lit_def)
  show "field_value (from_utf8_lossy (utf8_encode (sse_field name v))) = (lit name, v)"
    using lossy_encode [OF sc] split_once_at [OF nc] by (simp add: field_value_def eq)
  have "sse_field name v \<noteq> []" "hd (sse_field name v) < 128" "hd (sse_field name v) \<noteq> 58"
    using assms(1) by (auto simp: sse_field_def lit_def)
  then show "utf8_encode (sse_field name v) \<noteq> []" "hd (utf8_encode (sse_field name v)) \<noteq> 58"
    using encode_not_special [of "sse_field name v"] by simp_all
qed

text \<open>The decoder after the data lines joined so far.\<close>

definition with_data :: "rstr \<Rightarrow> sse_decoder \<Rightarrow> sse_decoder" where
  "with_data txt d = d\<lparr>sd_has_fields := True, sd_data := txt, sd_has_data := True\<rparr>"

lemma with_data_simps [simp]:
  "sd_buffer (with_data t d) = sd_buffer d" "sd_pending_cr (with_data t d) = sd_pending_cr d"
  "sd_has_data (with_data t d)" "sd_data (with_data t d) = t"
  "sd_max_event_data_bytes (with_data t d) = sd_max_event_data_bytes d"
  "with_data t (with_data u d) = with_data t d"
  by (simp_all add: with_data_def)

lemma data_line_step:
  assumes "\<forall>c \<in> set l. scalar c" and "sd_max_event_data_bytes d = MAX_SSE_EVENT_DATA_BYTES"
    and "byte_len (sd_data d @ (if sd_has_data d then [10] else []) @ l) \<le> MAX_SSE_EVENT_DATA_BYTES"
  shows "process_line (utf8_encode (sse_field ''data'' l)) d
    = Inr (with_data (sd_data d @ (if sd_has_data d then [10] else []) @ l) d, [])"
proof -
  have "MAX_SSE_EVENT_DATA_BYTES \<le> u64_max"
    by (simp add: MAX_SSE_EVENT_DATA_BYTES_def u64_max_def)
  with assms field_line [of "''data''" l] show ?thesis
    by (auto simp: process_line_def data_field_def with_data_def utf8_len_def Let_def split: if_splits)
qed

lemma run_data_lines:
  "\<forall>l \<in> set ls. line_ok l \<Longrightarrow> sd_buffer d = [] \<Longrightarrow> \<not> sd_pending_cr d \<Longrightarrow>
   sd_max_event_data_bytes d = MAX_SSE_EVENT_DATA_BYTES \<Longrightarrow>
   byte_len (join [10] (acc # ls)) \<le> MAX_SSE_EVENT_DATA_BYTES \<Longrightarrow>
   sse.run (with_data acc d) (concat (map (\<lambda>l. render_line (sse_field ''data'' l)) ls) @ rest) out
     = sse.run (with_data (join [10] (acc # ls)) d) rest out"
proof (induction ls arbitrary: acc)
  case (Cons l ls)
  have j: "join [10] (acc # l # ls) = join [10] ((acc @ 10 # l) # ls)"
    by (cases ls) simp_all
  have "byte_len (acc @ 10 # l) \<le> byte_len (join [10] ((acc @ 10 # l) # ls))"
    by (cases ls) simp_all
  also have "\<dots> \<le> MAX_SSE_EVENT_DATA_BYTES" using Cons.prems(5) unfolding j .
  finally have fits: "byte_len (acc @ [10] @ l) \<le> MAX_SSE_EVENT_DATA_BYTES" by simp
  have step: "process_line (utf8_encode (sse_field ''data'' l)) (with_data acc d)
      = Inr (with_data (acc @ [10] @ l) d, [])"
    using data_line_step [of l "with_data acc d"] Cons.prems fits by (simp add: line_ok_def)
  have "\<forall>c \<in> set (sse_field ''data'' l). scalar c \<and> c \<noteq> 10 \<and> c \<noteq> 13"
    using Cons.prems(1) by (auto simp: sse_field_def line_ok_def lit_def scalar_def)
  moreover have "byte_len (sse_field ''data'' l) \<le> MAX_SSE_LINE_BYTES"
    using Cons.prems(1) by (simp add: sse_field_def line_ok_def lit_def utf8_len_def)
  ultimately have "sse.run (with_data acc d)
      (concat (map (\<lambda>l. render_line (sse_field ''data'' l)) (l # ls)) @ rest) out
      = sse.run (with_data (acc @ [10] @ l) d)
          (concat (map (\<lambda>l. render_line (sse_field ''data'' l)) ls) @ rest) out"
    using run_line [OF _ _ _ _ step] Cons.prems by simp
  also have "\<dots> = sse.run (with_data (join [10] ((acc @ [10] @ l) # ls)) d) rest out"
    using Cons.IH [of "acc @ [10] @ l"] Cons.prems(1-4) Cons.prems(5) [unfolded j] by simp
  finally show ?case using j by simp
qed simp

lemma run_first_data_line:
  assumes "\<forall>l \<in> set (split_char 10 dt). line_ok l" and "byte_len dt \<le> MAX_SSE_EVENT_DATA_BYTES"
    and "sd_buffer d = []" and "\<not> sd_pending_cr d" and "\<not> sd_has_data d" and "sd_data d = []"
    and "sd_max_event_data_bytes d = MAX_SSE_EVENT_DATA_BYTES"
  shows "sse.run d (concat (map (\<lambda>l. render_line (sse_field ''data'' l)) (split_char 10 dt)) @ rest) out
    = sse.run (with_data dt d) rest out"
proof -
  obtain l ls where ls: "split_char 10 dt = l # ls" by (cases "split_char 10 dt") auto
  have dt: "join [10] (l # ls) = dt" using join_split_char [of 10 dt] ls by simp
  have "byte_len l \<le> byte_len (join [10] (l # ls))" by (cases ls) simp_all
  then have fits: "byte_len l \<le> MAX_SSE_EVENT_DATA_BYTES" using assms(2) dt by simp
  have l: "line_ok l" "\<forall>m \<in> set ls. line_ok m" using assms(1) ls by simp_all
  have step: "process_line (utf8_encode (sse_field ''data'' l)) d = Inr (with_data l d, [])"
    using data_line_step [of l d] l assms fits by (simp add: line_ok_def)
  have "\<forall>c \<in> set (sse_field ''data'' l). scalar c \<and> c \<noteq> 10 \<and> c \<noteq> 13"
    using l by (auto simp: sse_field_def line_ok_def lit_def scalar_def)
  moreover have "byte_len (sse_field ''data'' l) \<le> MAX_SSE_LINE_BYTES"
    using l by (simp add: sse_field_def line_ok_def lit_def utf8_len_def)
  ultimately have "sse.run d (concat (map (\<lambda>l. render_line (sse_field ''data'' l)) (l # ls)) @ rest) out
      = sse.run (with_data l d) (concat (map (\<lambda>l. render_line (sse_field ''data'' l)) ls) @ rest) out"
    using run_line [OF _ _ _ _ step] assms by simp
  also have "\<dots> = sse.run (with_data (join [10] (l # ls)) d) rest out"
    by (rule run_data_lines) (use l assms dt in auto)
  finally show ?thesis using ls dt by simp
qed

lemma run_blank_line:
  assumes "sd_buffer d = []" and "\<not> sd_pending_cr d" and "sd_has_fields d"
  shows "sse.run d (10 # rest) out =
    sse.run (d\<lparr>sd_current_event := None, sd_data := [], sd_has_data := False, sd_has_fields := False\<rparr>) rest
      (out @ [\<lparr>ev_event = sd_current_event d, ev_data = sd_data d\<rparr>])"
proof -
  have "sse_step d 10 = Inr (d\<lparr>sd_current_event := None, sd_data := [], sd_has_data := False,
      sd_has_fields := False\<rparr>, [\<lparr>ev_event = sd_current_event d, ev_data = sd_data d\<rparr>])"
    using assms
    by (cases d) (simp add: sse_step_def plain_byte_def process_buffered_line_def process_line_def dispatch_def)
  then show ?thesis by simp
qed

lemma run_event:
  assumes "event_ok e"
  shows "sse.run sse_default (render_event e @ rest) out = sse.run sse_default rest (out @ [e])"
proof -
  let ?data = "concat (map (\<lambda>l. render_line (sse_field ''data'' l)) (split_char 10 (ev_data e)))"
  have ok: "\<forall>l \<in> set (split_char 10 (ev_data e)). line_ok l"
    "byte_len (ev_data e) \<le> MAX_SSE_EVENT_DATA_BYTES" using assms by (simp_all add: event_ok_def)
  have same: "\<lparr>ev_event = ev_event e, ev_data = ev_data e\<rparr> = e" by (cases e) simp
  have tl: "sse.run d (?data @ 10 # rest) out = sse.run sse_default rest (out @ [e])"
    if d: "d = sse_default\<lparr>sd_current_event := ev_event e, sd_has_fields := f\<rparr>" for d f
  proof -
    have "sse.run d (?data @ 10 # rest) out = sse.run (with_data (ev_data e) d) (10 # rest) out"
      by (rule run_first_data_line) (use ok d in \<open>simp_all add: sse_default_def\<close>)
    also have "\<dots> = sse.run sse_default rest (out @ [e])"
      by (subst run_blank_line) (simp_all add: d with_data_def sse_default_def same)
    finally show ?thesis .
  qed
  have render: "render_event e = concat (map render_line
      (case ev_event e of None \<Rightarrow> [] | Some n \<Rightarrow> [sse_field ''event'' n])) @ ?data @ [10]"
    by (simp add: render_event_def event_lines_def comp_def)
  show ?thesis
  proof (cases "ev_event e")
    case None
    with tl [of sse_default False] render show ?thesis by (simp add: sse_default_def)
  next
    case (Some n)
    have n: "line_ok n" using assms Some by (simp add: event_ok_def)
    let ?d = "sse_default\<lparr>sd_current_event := ev_event e, sd_has_fields := True\<rparr>"
    have step: "process_line (utf8_encode (sse_field ''event'' n)) sse_default = Inr (?d, [])"
      using field_line [of "''event''" n] n Some
      by (simp add: process_line_def line_ok_def sse_default_def)
    have "\<forall>c \<in> set (sse_field ''event'' n). scalar c \<and> c \<noteq> 10 \<and> c \<noteq> 13"
      using n by (auto simp: sse_field_def line_ok_def lit_def scalar_def)
    moreover have "byte_len (sse_field ''event'' n) \<le> MAX_SSE_LINE_BYTES"
      using n by (simp add: sse_field_def line_ok_def lit_def utf8_len_def)
    ultimately have "sse.run sse_default (render_line (sse_field ''event'' n) @ ?data @ 10 # rest) out
        = sse.run ?d (?data @ 10 # rest) out"
      using run_line [OF _ _ _ _ step] by (simp add: sse_default_def)
    with tl [of ?d True] render Some show ?thesis by simp
  qed
qed

lemma run_events:
  "\<forall>e \<in> set es. event_ok e \<Longrightarrow>
   sse.run sse_default (concat (map render_event es)) out = Inr (sse_default, out @ es)"
  by (induction es arbitrary: out) (simp_all add: run_event)

text \<open>
  C19. What a server writes is what the client reads.  A sequence of events
  written as event streams do (an \<open>event:\<close> line, one \<open>data:\<close> line per line of the
  payload, a blank line), with lines within the bounds, is decoded to exactly
  that sequence, for any Unicode text without carriage returns and any cutting
  of the bytes into chunks, and the decoder is back in its initial state.\<close>

theorem sse_roundtrip:
  assumes "\<forall>e \<in> set es. event_ok e" and "concat chunks = concat (map render_event es)"
  shows "feed_all sse_default chunks = (es, None, sse_default)"
proof -
  have "sd_failed sse_default = None" by (simp add: sse_default_def)
  then show ?thesis
    using feed_all_run [of sse_default chunks] run_events [of es "[]"] assms by simp
qed

theorem sse_roundtrip_witness:
  "feed_all sse_default [render_event \<lparr>ev_event = Some (lit ''delta''), ev_data = [20013, 10, 97]\<rparr>]
     = ([\<lparr>ev_event = Some (lit ''delta''), ev_data = [20013, 10, 97]\<rparr>], None, sse_default)"
proof -
  let ?e = "\<lparr>ev_event = Some (lit ''delta''), ev_data = [20013, 10, 97]\<rparr>"
  have "\<forall>e \<in> set [?e]. event_ok e"
    by (simp add: event_ok_def line_ok_def split_char_def lit_def scalar_def utf8_len_def
        MAX_SSE_LINE_BYTES_def MAX_SSE_EVENT_DATA_BYTES_def)
  moreover have "concat [render_event ?e] = concat (map render_event [?e])" by simp
  ultimately show ?thesis by (rule sse_roundtrip)
qed

end
