(* ===== verification/Update_Version.thy ===== *)
theory Update_Version
  imports Interfaces "HOL-Library.List_Lexorder" "HOL-Library.Product_Lexorder"
begin

text \<open>
  Release versions (leveler-update, version.rs): parsing, printing, the SemVer
  precedence and the upgrade decisions.  The precedence is compared with the
  lexicographic order of the library on a key of the version, for which the
  identifiers of a pre-release are made a linear order.
\<close>

section \<open>Versions\<close>

record version =
  v_major :: nat
  v_minor :: nat
  v_patch :: nat
  v_pre :: "rstr list"

datatype ordering = Less | Equal | Greater

definition nat_cmp :: "nat \<Rightarrow> nat \<Rightarrow> ordering" where
  "nat_cmp a b = (if a < b then Less else if a = b then Equal else Greater)"

text \<open>\<open>str::cmp\<close>: UTF-8 preserves the order of the code points.\<close>

fun str_cmp :: "rstr \<Rightarrow> rstr \<Rightarrow> ordering" where
  "str_cmp [] [] = Equal"
| "str_cmp [] (_ # _) = Less"
| "str_cmp (_ # _) [] = Greater"
| "str_cmp (a # as) (b # bs) = (if a = b then str_cmp as bs else nat_cmp a b)"

definition then_with :: "ordering \<Rightarrow> ordering \<Rightarrow> ordering" where
  "then_with a b = (if a = Equal then b else a)"

definition version_display :: "version \<Rightarrow> rstr" where
  "version_display v =
     show_nat (v_major v) @ [46] @ show_nat (v_minor v) @ [46] @ show_nat (v_patch v) @
     (if v_pre v = [] then [] else [45] @ join [46] (v_pre v))"

definition ident_cmp :: "rstr \<Rightarrow> rstr \<Rightarrow> ordering" where
  "ident_cmp x y =
     (case (parse_u64 x, parse_u64 y) of
        (Some nx, Some ny) \<Rightarrow> nat_cmp nx ny
      | (Some _, None) \<Rightarrow> Less
      | (None, Some _) \<Rightarrow> Greater
      | (None, None) \<Rightarrow> str_cmp x y)"

fun cmp_shared :: "(rstr \<times> rstr) list \<Rightarrow> ordering" where
  "cmp_shared [] = Equal"
| "cmp_shared ((x, y) # ps) =
     (if ident_cmp x y \<noteq> Equal then ident_cmp x y else cmp_shared ps)"

definition cmp_pre :: "rstr list \<Rightarrow> rstr list \<Rightarrow> ordering" where
  "cmp_pre a b =
     (if cmp_shared (zip a b) \<noteq> Equal then cmp_shared (zip a b)
      else nat_cmp (length a) (length b))"

definition version_cmp :: "version \<Rightarrow> version \<Rightarrow> ordering" where
  "version_cmp a b =
     then_with
       (then_with (nat_cmp (v_major a) (v_major b))
         (then_with (nat_cmp (v_minor a) (v_minor b)) (nat_cmp (v_patch a) (v_patch b))))
       (case (v_pre a = [], v_pre b = []) of
          (True, True) \<Rightarrow> Equal
        | (True, False) \<Rightarrow> Greater
        | (False, True) \<Rightarrow> Less
        | (False, False) \<Rightarrow> cmp_pre (v_pre a) (v_pre b))"

definition is_prerelease :: "version \<Rightarrow> bool" where
  "is_prerelease v = (v_pre v \<noteq> [])"

text \<open>\<open>v\<close> is 118, \<open>+\<close> 43, \<open>-\<close> 45, \<open>.\<close> 46.\<close>

definition parse_core :: "rstr \<Rightarrow> (nat \<times> nat \<times> nat) option" where
  "parse_core core =
     (case map parse_u64 (split_char 46 core) of
        [Some major, Some minor, Some patch] \<Rightarrow> Some (major, minor, patch)
      | _ \<Rightarrow> None)"

definition parse_version :: "rstr \<Rightarrow> version option" where
  "parse_version raw =
     (let s = trim raw;
          s = (case strip_prefix [118] s of Some r \<Rightarrow> r | None \<Rightarrow> s);
          s = hd (split_char 43 s);
          (core, pre_text) = (case split_once 45 s of
             Some (c, r) \<Rightarrow> (c, Some r) | None \<Rightarrow> (s, None));
          pre = (case pre_text of None \<Rightarrow> [] | Some r \<Rightarrow> split_char 46 r)
      in if pre_text = Some [] \<or> [] \<in> set pre then None
         else (case parse_core core of
                 None \<Rightarrow> None
               | Some (major, minor, patch) \<Rightarrow>
                   Some \<lparr>v_major = major, v_minor = minor, v_patch = patch, v_pre = pre\<rparr>))"

definition should_upgrade :: "version \<Rightarrow> version \<Rightarrow> bool \<Rightarrow> bool" where
  "should_upgrade current target force \<longleftrightarrow> force \<or> version_cmp target current = Greater"

definition is_stable_target :: "version \<Rightarrow> version \<Rightarrow> bool" where
  "is_stable_target current target \<longleftrightarrow>
     \<not> is_prerelease target
     \<and> (is_prerelease current \<or> version_cmp target current = Greater \<or> target = current)"

section \<open>The precedence as a linear order\<close>

text \<open>An identifier's rank: numeric identifiers by number, below all others.\<close>

datatype ident_key = Numeric nat | Alpha rstr

instantiation ident_key :: linorder
begin

fun less_eq_ident_key :: "ident_key \<Rightarrow> ident_key \<Rightarrow> bool" where
  "Numeric m \<le> Numeric n \<longleftrightarrow> m \<le> n"
| "Numeric m \<le> Alpha t \<longleftrightarrow> True"
| "Alpha s \<le> Numeric n \<longleftrightarrow> False"
| "Alpha s \<le> Alpha t \<longleftrightarrow> s \<le> t"

definition less_ident_key :: "ident_key \<Rightarrow> ident_key \<Rightarrow> bool" where
  "less_ident_key a b \<longleftrightarrow> a \<le> b \<and> \<not> b \<le> a"

instance
proof
  fix x y z :: ident_key
  show "x < y \<longleftrightarrow> x \<le> y \<and> \<not> y \<le> x" by (simp add: less_ident_key_def)
  show "x \<le> x" by (cases x) simp_all
  show "x \<le> z" if "x \<le> y" "y \<le> z" using that by (cases x; cases y; cases z) auto
  show "x = y" if "x \<le> y" "y \<le> x" using that by (cases x; cases y) auto
  show "x \<le> y \<or> y \<le> x" by (cases x; cases y) auto
qed

end

definition compare_by :: "'a::linorder \<Rightarrow> 'a \<Rightarrow> ordering" where
  "compare_by a b = (if a < b then Less else if a = b then Equal else Greater)"

definition ident_key :: "rstr \<Rightarrow> ident_key" where
  "ident_key x = (case parse_u64 x of Some n \<Rightarrow> Numeric n | None \<Rightarrow> Alpha x)"

text \<open>A release ranks above all its pre-releases.\<close>

definition version_key :: "version \<Rightarrow> (nat \<times> nat \<times> nat) \<times> (nat \<times> ident_key list)" where
  "version_key v =
     ((v_major v, v_minor v, v_patch v),
      (if v_pre v = [] then 1 else 0, map ident_key (v_pre v)))"

lemma nat_cmp_compare: "nat_cmp a b = compare_by a b"
  by (simp add: nat_cmp_def compare_by_def)

lemma str_cmp_compare: "str_cmp s t = compare_by s t"
  by (induction s t rule: str_cmp.induct) (auto simp: compare_by_def nat_cmp_def)

lemma ident_cmp_compare: "ident_cmp x y = compare_by (ident_key x) (ident_key y)"
  by (auto simp: ident_cmp_def ident_key_def nat_cmp_compare str_cmp_compare compare_by_def
      less_ident_key_def split: option.splits)

lemma cmp_pre_compare: "cmp_pre a b = compare_by (map ident_key a) (map ident_key b)"
proof (induction a arbitrary: b)
  case Nil
  show ?case by (cases b) (simp_all add: cmp_pre_def nat_cmp_def compare_by_def)
next
  case (Cons x xs)
  show ?case
  proof (cases b)
    case Nil
    then show ?thesis by (simp add: cmp_pre_def nat_cmp_def compare_by_def)
  next
    case (Cons y ys)
    have "cmp_pre (x # xs) (y # ys) = (if ident_cmp x y \<noteq> Equal then ident_cmp x y else cmp_pre xs ys)"
      by (simp add: cmp_pre_def nat_cmp_def)
    with Cons Cons.IH [of ys] show ?thesis
      by (auto simp: ident_cmp_compare compare_by_def split: if_splits)
  qed
qed

lemma version_cmp_compare: "version_cmp a b = compare_by (version_key a) (version_key b)"
  by (auto simp: version_cmp_def version_key_def then_with_def nat_cmp_compare cmp_pre_compare
      compare_by_def split: if_splits)

section \<open>Precedence\<close>

lemma compare_by_simps:
  "compare_by a b = Less \<longleftrightarrow> a < b" "compare_by a b = Greater \<longleftrightarrow> b < a"
  "compare_by a b = Equal \<longleftrightarrow> a = b"
  by (auto simp: compare_by_def)

text \<open>
  Version precedence is a total preorder: it is the order of the key
  (numbers, release above pre-release, identifiers), so comparing two versions
  the other way round flips the answer, it is transitive, and exactly the
  versions with equal keys compare as equal.\<close>

theorem version_order:
  "(version_cmp a b = Greater \<longleftrightarrow> version_cmp b a = Less)
   \<and> (version_cmp a b \<noteq> Greater \<longrightarrow> version_cmp b c \<noteq> Greater \<longrightarrow> version_cmp a c \<noteq> Greater)
   \<and> (version_cmp a b = Equal \<longleftrightarrow> version_key a = version_key b)
   \<and> (v_pre a = [] \<longrightarrow> v_pre b \<noteq> [] \<longrightarrow>
       (v_major a, v_minor a, v_patch a) = (v_major b, v_minor b, v_patch b) \<longrightarrow>
       version_cmp a b = Greater)"
proof (intro conjI impI)
  show "version_cmp a b = Greater \<longleftrightarrow> version_cmp b a = Less"
    by (simp add: version_cmp_compare compare_by_simps)
  show "version_cmp a c \<noteq> Greater" if "version_cmp a b \<noteq> Greater" "version_cmp b c \<noteq> Greater"
    using that unfolding version_cmp_compare compare_by_simps by (meson not_less order_trans)
  show "version_cmp a b = Equal \<longleftrightarrow> version_key a = version_key b"
    by (simp add: version_cmp_compare compare_by_simps)
  show "version_cmp a b = Greater" if "v_pre a = []" "v_pre b \<noteq> []"
    "(v_major a, v_minor a, v_patch a) = (v_major b, v_minor b, v_patch b)"
    using that by (simp add: version_cmp_def then_with_def nat_cmp_def)
qed

definition release :: "nat \<Rightarrow> nat \<Rightarrow> nat \<Rightarrow> rstr list \<Rightarrow> version" where
  "release x y z pre = \<lparr>v_major = x, v_minor = y, v_patch = z, v_pre = pre\<rparr>"

theorem version_order_witness:
  "version_cmp (release 1 10 0 []) (release 1 9 0 []) = Greater
   \<and> version_cmp (release 1 0 0 []) (release 1 0 0 [lit ''rc'', lit ''1'']) = Greater"
proof -
  have "version_cmp (release 1 9 0 []) (release 1 10 0 []) = Less"
    by (simp add: version_cmp_def then_with_def nat_cmp_def release_def)
  then have "version_cmp (release 1 10 0 []) (release 1 9 0 []) = Greater"
    using version_order [of "release 1 10 0 []" "release 1 9 0 []"] by blast
  moreover have "version_cmp (release 1 0 0 []) (release 1 0 0 [lit ''rc'', lit ''1'']) = Greater"
    using version_order [of "release 1 0 0 []" "release 1 0 0 [lit ''rc'', lit ''1'']"]
    by (simp add: release_def)
  ultimately show ?thesis by blast
qed

lemma should_upgrade_iff: "should_upgrade x y False \<longleftrightarrow> version_key x < version_key y"
  by (simp only: should_upgrade_def version_cmp_compare compare_by_simps simp_thms)

text \<open>An unforced install never downgrades and never loops: when an upgrade
  from one version to another proceeds, the way back does not, and a chain of
  unforced upgrades never returns to an earlier precedence.\<close>

theorem upgrade_never_downgrades:
  assumes "should_upgrade a b False" and "should_upgrade b c False"
  shows "\<not> should_upgrade b a False \<and> should_upgrade a c False \<and> version_key a \<noteq> version_key c"
proof -
  have ab: "version_key a < version_key b" and bc: "version_key b < version_key c"
    using assms by (simp_all only: should_upgrade_iff)
  have ac: "version_key a < version_key c" by (rule less_trans [OF ab bc])
  have "\<not> version_key b < version_key a" by (rule less_not_sym [OF ab])
  moreover have "version_key a \<noteq> version_key c" by (rule less_imp_neq [OF ac])
  ultimately show ?thesis unfolding should_upgrade_iff using ac by (intro conjI)
qed

theorem upgrade_never_downgrades_witness:
  "should_upgrade (release 1 9 0 []) (release 2 0 0 []) False"
proof -
  have "should_upgrade (release 1 9 0 []) (release 1 10 0 []) False"
    "should_upgrade (release 1 10 0 []) (release 2 0 0 []) False"
    by (simp_all add: should_upgrade_def version_cmp_def then_with_def nat_cmp_def release_def)
  from upgrade_never_downgrades [OF this] show ?thesis by blast
qed

section \<open>Printing and parsing\<close>

definition version_ok :: "version \<Rightarrow> bool" where
  "version_ok v \<longleftrightarrow>
     v_major v \<le> u64_max \<and> v_minor v \<le> u64_max \<and> v_patch v \<le> u64_max
     \<and> (\<forall>p \<in> set (v_pre v). p \<noteq> [] \<and> (\<forall>c \<in> set p. is_ascii_alphanumeric c \<or> c = 45))"

lemma split_once_None: "c \<notin> set s \<Longrightarrow> split_once c s = None"
  by (induction s) auto

lemma digit_chars: "c \<in> set (show_nat n) \<Longrightarrow> 48 \<le> c \<and> c \<le> 57"
  using show_nat_digits [of c n] by (simp add: is_ascii_digit_def)

lemma not_in_digits: "c < 48 \<or> 57 < c \<Longrightarrow> c \<notin> set (show_nat n)"
  using digit_chars by fastforce

lemma parse_core_print:
  assumes "x \<le> u64_max" and "y \<le> u64_max" and "z \<le> u64_max"
  shows "parse_core (show_nat x @ [46] @ show_nat y @ [46] @ show_nat z) = Some (x, y, z)"
proof -
  have "split_char 46 (show_nat x @ 46 # show_nat y @ 46 # show_nat z) = [show_nat x, show_nat y, show_nat z]"
    by (simp add: split_char_append split_char_id not_in_digits)
  with assms show ?thesis by (simp add: parse_core_def parse_u64_show_nat)
qed

lemma ident_char:
  assumes "is_ascii_alphanumeric c \<or> c = 45"
  shows "c \<noteq> 46 \<and> c \<noteq> 43 \<and> \<not> is_whitespace c"
  using assms
  by (auto simp: is_ascii_alphanumeric_def is_ascii_digit_def is_ascii_upper_def is_ascii_lower_def
      is_whitespace_def)

lemma set_join: "set (join [d] ls) \<subseteq> insert d (\<Union>l \<in> set ls. set l)"
  by (induction "[d]" ls rule: join.induct) auto

lemma last_join_ne: "ls \<noteq> [] \<Longrightarrow> \<forall>l \<in> set ls. l \<noteq> [] \<Longrightarrow> last (join sep ls) = last (last ls) \<and> join sep ls \<noteq> []"
  by (induction sep ls rule: join.induct) auto

definition core_text :: "version \<Rightarrow> rstr" where
  "core_text v = show_nat (v_major v) @ [46] @ show_nat (v_minor v) @ [46] @ show_nat (v_patch v)"

lemma core_text_chars: "c \<in> set (core_text v) \<Longrightarrow> c = 46 \<or> (48 \<le> c \<and> c \<le> 57)"
  using digit_chars by (auto simp: core_text_def)

lemma display_trim:
  assumes "version_ok v"
  shows "trim (version_display v) = version_display v" and "43 \<notin> set (version_display v)"
    and "strip_prefix [118] (version_display v) = None"
proof -
  let ?pre = "if v_pre v = [] then [] else [45] @ join [46] (v_pre v)"
  have disp: "version_display v = core_text v @ ?pre" by (simp add: version_display_def core_text_def)
  obtain d ds where d: "show_nat (v_major v) = d # ds"
    using show_nat_not_Nil by (cases "show_nat (v_major v)") auto
  then have dd: "48 \<le> d \<and> d \<le> 57" using digit_chars [of d "v_major v"] by simp
  have hd: "hd (version_display v) = d" and ne: "version_display v \<noteq> []"
    by (simp_all add: version_display_def d)
  have pre_chars: "c = 45 \<or> c = 46 \<or> is_ascii_alphanumeric c" if "c \<in> set ?pre" for c
    using that assms set_join [of 46 "v_pre v"] by (fastforce simp: version_ok_def split: if_splits)
  have last_ok: "\<not> is_whitespace (last (version_display v))"
  proof (cases "v_pre v = []")
    case True
    have "last (core_text v) = last (show_nat (v_patch v))" by (simp add: core_text_def)
    moreover have "last (show_nat (v_patch v)) \<in> set (show_nat (v_patch v))" by simp
    ultimately show ?thesis using digit_chars [of _ "v_patch v"] True
      by (fastforce simp: disp is_whitespace_def)
  next
    case False
    then have "last (version_display v) = last (last (v_pre v))"
      using last_join_ne [of "v_pre v" "[46]"] assms by (auto simp: disp version_ok_def)
    moreover have "last (v_pre v) \<in> set (v_pre v)" using False by simp
    ultimately show ?thesis using assms ident_char by (auto simp: version_ok_def)
  qed
  show "trim (version_display v) = version_display v"
    using ne hd last_ok dd by (intro trim_ascii_word) (auto simp: is_whitespace_def)
  show "43 \<notin> set (version_display v)"
    using core_text_chars [of 43 v] pre_chars [of 43]
    by (auto simp: disp is_ascii_alphanumeric_def is_ascii_digit_def is_ascii_upper_def
        is_ascii_lower_def split: if_splits)
  show "strip_prefix [118] (version_display v) = None"
    using dd by (simp add: version_display_def d)
qed

text \<open>A version prints and parses back: the text of a version whose numbers fit
  64 bits and whose identifiers are SemVer identifiers parses to that version.\<close>

theorem version_roundtrip:
  assumes "version_ok v"
  shows "parse_version (version_display v) = Some v"
proof -
  note t = display_trim [OF assms]
  have core: "parse_core (core_text v) = Some (v_major v, v_minor v, v_patch v)"
    using assms parse_core_print by (simp add: core_text_def version_ok_def)
  have nodash: "45 \<notin> set (core_text v)" using core_text_chars by fastforce
  have hd: "hd (split_char 43 (version_display v)) = version_display v"
    using t(2) by (simp add: split_char_id)
  show ?thesis
  proof (cases "v_pre v = []")
    case True
    then have disp: "version_display v = core_text v" by (simp add: version_display_def core_text_def)
    have so: "split_once 45 (version_display v) = None" using nodash disp by (simp add: split_once_None)
    show ?thesis
      by (simp add: parse_version_def t hd so core [folded disp] Let_def True [symmetric])
  next
    case False
    then have disp: "version_display v = core_text v @ 45 # join [46] (v_pre v)"
      by (simp add: version_display_def core_text_def)
    have so: "split_once 45 (version_display v) = Some (core_text v, join [46] (v_pre v))"
      unfolding disp by (rule split_once_at [OF nodash])
    have "\<forall>p \<in> set (v_pre v). 46 \<notin> set p" using assms ident_char by (fastforce simp: version_ok_def)
    then have sp: "split_char 46 (join [46] (v_pre v)) = v_pre v"
      by (rule split_char_join [OF False])
    have "[] \<notin> set (v_pre v)" using assms by (auto simp: version_ok_def)
    moreover have "join [46] (v_pre v) \<noteq> []"
      using False assms last_join_ne [of "v_pre v" "[46]"] by (auto simp: version_ok_def)
    ultimately show ?thesis by (simp add: parse_version_def t hd so core sp Let_def)
  qed
qed

theorem version_roundtrip_witness:
  "parse_version (version_display (release 1 10 0 [lit ''beta'', lit ''2'']))
     = Some (release 1 10 0 [lit ''beta'', lit ''2''])"
  by (rule version_roundtrip)
    (simp add: version_ok_def release_def u64_max_def lit_def is_ascii_alphanumeric_def
      is_ascii_digit_def is_ascii_upper_def is_ascii_lower_def)

section \<open>Where the code departs from its comments\<close>

text \<open>A pre-release build may be auto-replaced by an older stable line: the
  check accepts 1.0.0 as the target of a 2.0.0 pre-release although 1.0.0 is the
  lower version.\<close>

theorem prerelease_accepts_older_stable:
  "is_stable_target (release 2 0 0 [lit ''beta'']) (release 1 0 0 [])
   \<and> version_cmp (release 1 0 0 []) (release 2 0 0 [lit ''beta'']) = Less"
  by (simp add: is_stable_target_def is_prerelease_def version_cmp_def then_with_def nat_cmp_def release_def)

text \<open>Precedence and equality disagree: two versions that compare as equal need not
  be the same value, as the orderings of the standard library ask of a type.\<close>

theorem equal_precedence_not_equal:
  "version_cmp (release 1 0 0 [lit ''1'']) (release 1 0 0 [lit ''01'']) = Equal
   \<and> release 1 0 0 [lit ''1''] \<noteq> release 1 0 0 [lit ''01'']"
  by (simp add: version_cmp_def then_with_def nat_cmp_def release_def cmp_pre_def ident_cmp_def
      parse_u64_def is_ascii_digit_def u64_max_def lit_def)

end
