(* ===== verification/Git_Effects.thy ===== *)
theory Git_Effects
  imports Interfaces
begin

text \<open>
  What a Git invocation mechanically does (leveler-execution: git_effects.rs),
  with the configuration keys and environment names that decide whether Git runs
  a local program (git_isolation.rs).  An argv is a list of words; the index loops
  over it are recursions over the words that are left.  Paths are those of Unix.
\<close>

section \<open>Program-bearing configuration\<close>

definition one_of :: "string list \<Rightarrow> rstr \<Rightarrow> bool" where
  "one_of ws s = (s \<in> set (map lit ws))"

definition effect_critical_config_key :: "rstr \<Rightarrow> bool \<Rightarrow> bool" where
  "effect_critical_config_key raw workspace_mutation =
     (let key = to_ascii_lowercase raw;
          st = (\<lambda>p. starts_with (lit p) key); en = (\<lambda>p. ends_with (lit p) key)
      in (st ''url.'' \<and> (en ''.insteadof'' \<or> en ''.pushinsteadof''))
         \<or> st ''submodule.''
         \<or> key = lit ''fetch.recursesubmodules''
         \<or> key = lit ''push.recursesubmodules''
         \<or> key = lit ''core.sshcommand''
         \<or> key = lit ''core.hookspath''
         \<or> key = lit ''core.fsmonitor''
         \<or> (st ''http.'' \<and> (en ''.proxy'' \<or> en ''.extraheader'' \<or> en ''.sslcert''
              \<or> en ''.sslkey'' \<or> en ''.cookiefile''))
         \<or> (workspace_mutation \<and>
              (st ''filter.'' \<or> (st ''diff.'' \<and> (en ''.command'' \<or> en ''.textconv''))))
         \<or> st ''include''
         \<or> (st ''remote.'' \<and> (en ''.uploadpack'' \<or> en ''.receivepack'' \<or> en ''.proxy''
              \<or> en ''.vcs'')))"

definition config_key_executes_program :: "rstr \<Rightarrow> bool" where
  "config_key_executes_program raw =
     (let key = to_ascii_lowercase (trim raw);
          st = (\<lambda>p. starts_with (lit p) key); en = (\<lambda>p. ends_with (lit p) key)
      in key = []
         \<or> effect_critical_config_key key True
         \<or> key = lit ''credential.helper''
         \<or> (st ''credential.'' \<and> en ''.helper'')
         \<or> st ''alias.''
         \<or> key = lit ''core.editor''
         \<or> key = lit ''core.pager''
         \<or> key = lit ''sequence.editor''
         \<or> key = lit ''core.askpass''
         \<or> key = lit ''interactive.difffilter''
         \<or> ((st ''mergetool.'' \<or> st ''difftool.'') \<and> en ''.cmd''))"

definition config_spec_executes_program :: "rstr \<Rightarrow> bool" where
  "config_spec_executes_program spec =
     config_key_executes_program (case split_once 61 spec of Some (k, _) \<Rightarrow> k | None \<Rightarrow> spec)"

definition git_env_changes_authority :: "rstr \<Rightarrow> bool" where
  "git_env_changes_authority name \<longleftrightarrow>
     one_of [''GIT_DIR'', ''GIT_WORK_TREE'', ''GIT_COMMON_DIR'', ''GIT_OBJECT_DIRECTORY'',
       ''GIT_NAMESPACE'', ''GIT_INDEX_FILE'', ''GIT_ALTERNATE_OBJECT_DIRECTORIES'', ''GIT_SSH'',
       ''GIT_SSH_COMMAND'', ''GIT_SSH_VARIANT'', ''GIT_EXEC_PATH'', ''GIT_EXTERNAL_DIFF'',
       ''GIT_EDITOR'', ''GIT_PAGER'', ''GIT_SEQUENCE_EDITOR'', ''GIT_CONFIG'',
       ''GIT_CONFIG_GLOBAL'', ''GIT_CONFIG_SYSTEM'', ''GIT_CONFIG_COUNT'',
       ''GIT_CONFIG_PARAMETERS''] name
     \<or> starts_with (lit ''GIT_CONFIG_KEY_'') name
     \<or> starts_with (lit ''GIT_CONFIG_VALUE_'') name"

section \<open>Effects\<close>

record git_effects =
  ge_metadata_read :: bool
  ge_metadata_write :: bool
  ge_workspace_mutation :: bool
  ge_remote_read :: bool
  ge_remote_write :: bool
  ge_config_write :: bool
  ge_irreversible :: bool

definition no_effects :: git_effects where
  "no_effects =
     \<lparr>ge_metadata_read = False, ge_metadata_write = False, ge_workspace_mutation = False,
      ge_remote_read = False, ge_remote_write = False, ge_config_write = False,
      ge_irreversible = False\<rparr>"

definition effects_is_empty :: "git_effects \<Rightarrow> bool" where
  "effects_is_empty e = (e = no_effects)"

definition effects_merge :: "git_effects \<Rightarrow> git_effects \<Rightarrow> git_effects" where
  "effects_merge a b =
     \<lparr>ge_metadata_read = (ge_metadata_read a \<or> ge_metadata_read b),
      ge_metadata_write = (ge_metadata_write a \<or> ge_metadata_write b),
      ge_workspace_mutation = (ge_workspace_mutation a \<or> ge_workspace_mutation b),
      ge_remote_read = (ge_remote_read a \<or> ge_remote_read b),
      ge_remote_write = (ge_remote_write a \<or> ge_remote_write b),
      ge_config_write = (ge_config_write a \<or> ge_config_write b),
      ge_irreversible = (ge_irreversible a \<or> ge_irreversible b)\<rparr>"

definition needs_repository_write :: "git_effects \<Rightarrow> bool" where
  "needs_repository_write e \<longleftrightarrow> ge_metadata_write e \<or> ge_config_write e"

definition effect_capabilities :: "git_effects \<Rightarrow> rstr list" where
  "effect_capabilities e =
     (if ge_metadata_read e then [lit ''git_metadata.read''] else []) @
     (if ge_metadata_write e then [lit ''git_metadata.write''] else []) @
     (if ge_workspace_mutation e then [lit ''git_workspace.write''] else []) @
     (if ge_remote_read e then [lit ''git_remote.read''] else []) @
     (if ge_remote_write e then [lit ''git_remote.write''] else []) @
     (if ge_config_write e then [lit ''git_config.write''] else []) @
     (if ge_irreversible e then [lit ''git_history.destroy''] else [])"

record git_command_effects_rec =
  gc_effects :: git_effects
  gc_resolved :: bool
  gc_relocated :: bool
  gc_explicit_remote :: bool

definition resolved :: "git_effects \<Rightarrow> git_command_effects_rec" where
  "resolved e = \<lparr>gc_effects = e, gc_resolved = True, gc_relocated = False, gc_explicit_remote = False\<rparr>"

definition unresolved :: "git_effects \<Rightarrow> git_command_effects_rec" where
  "unresolved e = \<lparr>gc_effects = e, gc_resolved = False, gc_relocated = False, gc_explicit_remote = False\<rparr>"

record call_git_effects_rec =
  cg_effects :: git_effects
  cg_any_git :: bool
  cg_fully_git :: bool
  cg_unresolved :: bool
  cg_relocated :: bool
  cg_explicit_remote :: bool

definition call_effects_default :: call_git_effects_rec where
  "call_effects_default =
     \<lparr>cg_effects = no_effects, cg_any_git = False, cg_fully_git = False, cg_unresolved = False,
      cg_relocated = False, cg_explicit_remote = False\<rparr>"

definition grants_metadata_write_by_effect :: "call_git_effects_rec \<Rightarrow> bool" where
  "grants_metadata_write_by_effect c \<longleftrightarrow>
     cg_fully_git c \<and> \<not> cg_unresolved c \<and> \<not> cg_relocated c \<and>
     needs_repository_write (cg_effects c) \<and> \<not> ge_workspace_mutation (cg_effects c) \<and>
     \<not> ge_remote_write (cg_effects c) \<and> \<not> ge_config_write (cg_effects c) \<and>
     \<not> ge_irreversible (cg_effects c)"

definition gated :: "call_git_effects_rec \<Rightarrow> bool" where
  "gated c \<longleftrightarrow>
     cg_any_git c \<and>
     (cg_unresolved c \<or> ge_workspace_mutation (cg_effects c) \<or> ge_remote_write (cg_effects c) \<or>
      ge_config_write (cg_effects c) \<or> ge_irreversible (cg_effects c) \<or>
      (cg_explicit_remote c \<and> (ge_remote_read (cg_effects c) \<or> ge_metadata_write (cg_effects c))) \<or>
      (cg_relocated c \<and> (needs_repository_write (cg_effects c) \<or> ge_remote_read (cg_effects c))))"

definition needs_repository_write_scope :: "call_git_effects_rec \<Rightarrow> bool" where
  "needs_repository_write_scope c \<longleftrightarrow>
     cg_fully_git c \<and> \<not> cg_unresolved c \<and> \<not> cg_relocated c \<and> needs_repository_write (cg_effects c)"

definition call_capabilities :: "call_git_effects_rec \<Rightarrow> rstr list" where
  "call_capabilities c =
     effect_capabilities (cg_effects c) @
     (if cg_unresolved c then [lit ''git_argv.unresolved''] else []) @
     (if cg_relocated c then [lit ''git_target.relocated''] else [])"

section \<open>Reading an argv\<close>

text \<open>\<open>Path::file_name\<close> of a Unix path.\<close>

definition file_name :: "rstr \<Rightarrow> rstr option" where
  "file_name p =
     (let cs = filter (\<lambda>c. c \<noteq> [] \<and> c \<noteq> lit ''.'') (split_char 47 p)
      in if cs = [] \<or> last cs = lit ''..'' then None else Some (last cs))"

definition git_basename :: "rstr \<Rightarrow> rstr" where
  "git_basename program = (case file_name program of Some n \<Rightarrow> n | None \<Rightarrow> program)"

definition is_option :: "rstr \<Rightarrow> bool" where
  "is_option a = starts_with (lit ''-'') a"

text \<open>\<open>flag\<close> or \<open>flag=...\<close>.\<close>

definition flag_or_value :: "string \<Rightarrow> rstr \<Rightarrow> bool" where
  "flag_or_value f a \<longleftrightarrow> a = lit f \<or> starts_with (lit (f @ ''='')) a"

definition names_transport_exec_override :: "rstr list \<Rightarrow> bool" where
  "names_transport_exec_override args =
     list_ex (\<lambda>a. list_ex (\<lambda>f. flag_or_value f a) [''--upload-pack'', ''--receive-pack'', ''--exec'']) args"

record parsed_invocation =
  pi_subcommand :: rstr
  pi_args :: "rstr list"
  pi_rule_override :: bool
  pi_target_relocation :: bool

definition invocation_at :: "rstr list \<Rightarrow> bool \<Rightarrow> bool \<Rightarrow> parsed_invocation option" where
  "invocation_at args ovr reloc =
     (case args of [] \<Rightarrow> None
      | sub # rest \<Rightarrow> Some \<lparr>pi_subcommand = sub, pi_args = rest, pi_rule_override = ovr,
                             pi_target_relocation = reloc\<rparr>)"

text \<open>What one global option does: whether it overrides the rules, whether it moves
  the target, and whether its value is the next word.\<close>

datatype global_option = GlobalOption (go_override: bool) (go_relocation: bool) (go_takes_value: bool)

definition first_word :: "rstr list \<Rightarrow> rstr" where
  "first_word ws = (case ws of [] \<Rightarrow> [] | w # _ \<Rightarrow> w)"

definition attached :: "string \<Rightarrow> rstr \<Rightarrow> bool" where
  "attached f arg \<longleftrightarrow> starts_with (lit f) arg \<and> \<not> starts_with (lit ''--'') arg \<and> length arg > 2"

definition harmless_git_global :: "rstr \<Rightarrow> bool" where
  "harmless_git_global arg =
     one_of [''--no-pager'', ''--no-optional-locks'', ''--no-replace-objects'',
       ''--literal-pathspecs'', ''--glob-pathspecs'', ''--noglob-pathspecs'',
       ''--icase-pathspecs'', ''--no-lazy-fetch'', ''--version''] arg"

definition read_global :: "rstr \<Rightarrow> rstr list \<Rightarrow> global_option" where
  "read_global arg rest =
     (if one_of [''-C'', ''--git-dir'', ''--work-tree'', ''--namespace''] arg
        then GlobalOption False True True
      else if list_ex (\<lambda>n. starts_with (lit (n @ ''='')) arg)
             [''--git-dir'', ''--work-tree'', ''--namespace'']
        then GlobalOption False True False
      else if one_of [''-c'', ''--config-env''] arg
        then GlobalOption (config_spec_executes_program (first_word rest)) False True
      else case strip_prefix (lit ''--config-env='') arg of
        Some spec \<Rightarrow> GlobalOption (config_spec_executes_program spec) False False
      | None \<Rightarrow>
          if one_of [''--exec-path'', ''--super-prefix'', ''--shallow-file''] arg
            then GlobalOption True False True
          else if list_ex (\<lambda>n. starts_with (lit (n @ ''='')) arg)
                 [''--exec-path'', ''--super-prefix'', ''--shallow-file'']
            then GlobalOption True False False
          else if attached ''-C'' arg then GlobalOption False True False
          else if attached ''-c'' arg
            then GlobalOption (config_spec_executes_program (drop 2 arg)) False False
          else GlobalOption (\<not> harmless_git_global arg) False False)"

fun split_from :: "rstr list \<Rightarrow> bool \<Rightarrow> bool \<Rightarrow> parsed_invocation option" where
  "split_from [] ovr reloc = None"
| "split_from (arg # rest) ovr reloc =
     (if arg = lit ''--'' then invocation_at rest ovr reloc
      else if \<not> is_option arg \<or> arg = lit ''-'' then invocation_at (arg # rest) ovr reloc
      else (let g = read_global arg rest
            in split_from (if go_takes_value g then drop 1 rest else rest)
                 (ovr \<or> go_override g) (reloc \<or> go_relocation g)))"

definition split_subcommand :: "rstr list \<Rightarrow> parsed_invocation option" where
  "split_subcommand args = split_from args False False"

text \<open>\<open>config_overrides_execute_program\<close> stops at the first word that is no option.\<close>

fun config_overrides_execute_program :: "rstr list \<Rightarrow> bool" where
  "config_overrides_execute_program [] = False"
| "config_overrides_execute_program (arg # rest) =
     (if arg = lit ''--'' \<or> \<not> is_option arg \<or> arg = lit ''-'' then False
      else if one_of [''-c'', ''--config-env''] arg then
        config_spec_executes_program (first_word rest) \<or> config_overrides_execute_program (drop 1 rest)
      else case strip_prefix (lit ''--config-env='') arg of
        Some spec \<Rightarrow> config_spec_executes_program spec \<or> config_overrides_execute_program rest
      | None \<Rightarrow>
          (attached ''-c'' arg \<and> config_spec_executes_program (drop 2 arg))
          \<or> config_overrides_execute_program rest)"

definition config_command_executes_program :: "rstr list \<Rightarrow> bool" where
  "config_command_executes_program args =
     (if list_ex (one_of [''--get'', ''--get-all'', ''--get-regexp'', ''--get-urlmatch'', ''--list'', ''-l'']) args
      then False
      else case find (\<lambda>a. \<not> is_option a) args of
             Some key \<Rightarrow> config_key_executes_program key | None \<Rightarrow> True)"

definition git_argv_executes_local_program :: "rstr list \<Rightarrow> bool" where
  "git_argv_executes_local_program argv =
     (case argv of [] \<Rightarrow> False
      | program # args \<Rightarrow>
          program = lit ''git'' \<and>
          (list_ex (\<lambda>a. list_ex (\<lambda>f. flag_or_value f a)
               [''--upload-pack'', ''--receive-pack'', ''--exec'', ''--exec-path'']) args
           \<or> config_overrides_execute_program args
           \<or> (case split_subcommand args of None \<Rightarrow> False
              | Some p \<Rightarrow> pi_subcommand p = lit ''config'' \<and>
                           config_command_executes_program (pi_args p))))"

definition git_read_ignores_arguments :: "rstr \<Rightarrow> bool" where
  "git_read_ignores_arguments sub =
     one_of [''status'', ''diff'', ''log'', ''show'', ''rev-parse'', ''rev-list'', ''ls-files'',
       ''ls-tree'', ''cat-file'', ''describe'', ''blame'', ''annotate'', ''shortlog'',
       ''whatchanged'', ''grep'', ''merge-base'', ''cherry'', ''name-rev'', ''show-ref'',
       ''for-each-ref'', ''verify-commit'', ''verify-tag'', ''check-ignore'', ''check-attr'',
       ''check-ref-format'', ''count-objects'', ''var'', ''version'', ''help'', ''range-diff'',
       ''diff-tree'', ''diff-index'', ''diff-files'', ''verify-pack'', ''merge-tree'',
       ''get-tar-commit-id'', ''fsck'', ''format-patch''] sub"

section \<open>Transport options\<close>

datatype transport_option = TO_Flag | TO_Value | TO_OptionalValue

definition push_option :: "rstr \<Rightarrow> transport_option option" where
  "push_option n =
     (if one_of [''--repo'', ''--receive-pack'', ''--exec'', ''--push-option'', ''-o''] n then Some TO_Value
      else if one_of [''--force-with-lease'', ''--recurse-submodules'', ''--signed''] n
        then Some TO_OptionalValue
      else if one_of [''--all'', ''--branches'', ''--prune'', ''--mirror'', ''--tags'',
                 ''--follow-tags'', ''--dry-run'', ''-n'', ''--porcelain'', ''--delete'', ''-d'',
                 ''--force'', ''-f'', ''--force-if-includes'', ''--set-upstream'', ''-u'', ''--thin'',
                 ''--atomic'', ''--verbose'', ''-v'', ''--quiet'', ''-q'', ''--progress'', ''--ipv4'',
                 ''-4'', ''--ipv6'', ''-6'', ''--verify''] n
        then Some TO_Flag
      else None)"

text \<open>The options \<open>fetch\<close> and \<open>pull\<close> share, tried after the ones of their own that
  come earlier in the table.\<close>

definition sync_flag :: "rstr \<Rightarrow> bool" where
  "sync_flag n =
     one_of [''--all'', ''--append'', ''-a'', ''--force'', ''-f'', ''--tags'', ''-t'', ''-n'',
       ''--prune'', ''-p'', ''--dry-run'', ''--keep'', ''-k'', ''--progress'', ''--unshallow'',
       ''--update-shallow'', ''--ipv4'', ''-4'', ''--ipv6'', ''-6'', ''--show-forced-updates'',
       ''--set-upstream'', ''--verbose'', ''-v'', ''--quiet'', ''-q''] n"

definition sync_value :: "rstr \<Rightarrow> bool" where
  "sync_value n =
     one_of [''--depth'', ''--deepen'', ''--shallow-since'', ''--shallow-exclude'', ''--refmap'',
       ''--server-option'', ''-o'', ''--negotiation-tip'', ''--upload-pack''] n"

definition fetch_option :: "rstr \<Rightarrow> transport_option option" where
  "fetch_option n =
     (if sync_value n then Some TO_Value
      else if one_of [''--jobs'', ''-j'', ''--filter''] n then Some TO_Value
      else if n = lit ''--recurse-submodules'' then Some TO_OptionalValue
      else if sync_flag n then Some TO_Flag
      else if one_of [''--atomic'', ''--multiple'', ''-m'', ''--prefetch'', ''--prune-tags'', ''-P'',
                 ''--porcelain'', ''--write-fetch-head'', ''--update-head-ok'', ''-u'', ''--refetch'',
                 ''--negotiate-only'', ''--auto-maintenance'', ''--auto-gc'', ''--write-commit-graph'',
                 ''--stdin''] n
        then Some TO_Flag
      else None)"

definition pull_option :: "rstr \<Rightarrow> transport_option option" where
  "pull_option n =
     (if sync_value n then Some TO_Value
      else if n = lit ''--jobs'' then Some TO_OptionalValue
      else if one_of [''-j'', ''--cleanup'', ''--strategy'', ''-s'', ''--strategy-option'', ''-X''] n
        then Some TO_Value
      else if n = lit ''--recurse-submodules'' then Some TO_OptionalValue
      else if one_of [''--rebase'', ''--log'', ''--signoff'', ''--gpg-sign'', ''-S''] n
        then Some TO_OptionalValue
      else if sync_flag n then Some TO_Flag
      else if one_of [''-r'', ''--stat'', ''--squash'', ''--commit'', ''--edit'', ''-e'', ''--ff'',
                 ''--ff-only'', ''--verify'', ''--verify-signatures'', ''--autostash'',
                 ''--allow-unrelated-histories''] n
        then Some TO_Flag
      else None)"

definition ls_remote_option :: "rstr \<Rightarrow> transport_option option" where
  "ls_remote_option n =
     (if one_of [''--upload-pack'', ''--sort'', ''--server-option'', ''-o''] n then Some TO_Value
      else if one_of [''--quiet'', ''-q'', ''--tags'', ''-t'', ''--heads'', ''-h'', ''--branches'',
                 ''-b'', ''--refs'', ''--get-url'', ''--exit-code'', ''--symref''] n
        then Some TO_Flag
      else None)"

definition archive_option :: "rstr \<Rightarrow> transport_option option" where
  "archive_option n =
     (if one_of [''--format'', ''--prefix'', ''--add-file'', ''--add-virtual-file'', ''--output'',
             ''-o'', ''--mtime'', ''--remote'', ''--exec''] n then Some TO_Value
      else if one_of [''--worktree-attributes'', ''--verbose'', ''-v'', ''--list'', ''-l'', ''-0'',
                 ''-1'', ''-2'', ''-3'', ''-4'', ''-5'', ''-6'', ''-7'', ''-8'', ''-9''] n
        then Some TO_Flag
      else None)"

definition transport_table :: "rstr \<Rightarrow> rstr \<Rightarrow> transport_option option" where
  "transport_table sub n =
     (if sub = lit ''push'' then push_option n
      else if sub = lit ''fetch'' then fetch_option n
      else if sub = lit ''pull'' then pull_option n
      else if sub = lit ''ls-remote'' then ls_remote_option n
      else if sub = lit ''archive'' then archive_option n
      else None)"

text \<open>\<open>--no-x\<close> is a flag whenever \<open>--x\<close> is an option.\<close>

function transport_option_of :: "rstr \<Rightarrow> rstr \<Rightarrow> transport_option option" where
  "transport_option_of sub n =
     (case strip_prefix (lit ''--no-'') n of
        Some p \<Rightarrow> map_option (\<lambda>_. TO_Flag) (transport_option_of sub (lit ''--'' @ p))
      | None \<Rightarrow> transport_table sub n)"
  by pat_completeness auto
termination
  by (relation "measure (length \<circ> snd)") (auto simp: strip_prefix_Some_iff)

declare transport_option_of.simps [simp del]

record transport_args =
  ta_positional :: "rstr list"
  ta_archive_remote :: "rstr option"
  ta_multiple :: bool
  ta_resolved :: bool

text \<open>An option word: its name and the value written into it.  A short option's
  name is its first two bytes, which is no name when they split a character.\<close>

definition option_word :: "rstr \<Rightarrow> (rstr \<times> rstr option) option" where
  "option_word arg =
     (if starts_with (lit ''--'') arg then
        (case split_once 61 arg of Some (n, v) \<Rightarrow> Some (n, Some v) | None \<Rightarrow> Some (arg, None))
      else if byte_len arg > 2 then
        (if byte_len (take 2 arg) = 2 then Some (take 2 arg, Some (drop 2 arg)) else None)
      else Some (arg, None))"

definition note_option ::
  "rstr \<Rightarrow> rstr \<Rightarrow> transport_option \<Rightarrow> rstr option \<Rightarrow> rstr option \<Rightarrow> transport_args \<Rightarrow> transport_args"
  where
  "note_option sub n kind inline value t =
     t\<lparr>ta_resolved := ta_resolved t
          \<and> \<not> (kind = TO_Flag \<and> inline \<noteq> None)
          \<and> \<not> (kind = TO_Value \<and> (value = None \<or> value = Some []))
          \<and> \<not> one_of [''--upload-pack'', ''--receive-pack'', ''--exec'', ''--repo''] n,
       ta_multiple := ta_multiple t \<or> one_of [''--multiple'', ''-m''] n,
       ta_archive_remote :=
         (if sub = lit ''archive'' \<and> n = lit ''--remote'' then value else ta_archive_remote t)\<rparr>"

fun transport_loop :: "rstr \<Rightarrow> rstr list \<Rightarrow> bool \<Rightarrow> transport_args \<Rightarrow> transport_args" where
  "transport_loop sub [] opts t = t"
| "transport_loop sub (arg # rest) opts t =
     (if opts \<and> arg = lit ''--'' then transport_loop sub rest False t
      else if \<not> opts \<or> \<not> is_option arg \<or> arg = lit ''-'' then
        transport_loop sub rest opts (t\<lparr>ta_positional := ta_positional t @ [arg]\<rparr>)
      else case option_word arg of
        None \<Rightarrow> transport_loop sub rest opts (t\<lparr>ta_resolved := False\<rparr>)
      | Some (n, inline) \<Rightarrow>
          (case transport_option_of sub n of
             None \<Rightarrow> transport_loop sub rest opts (t\<lparr>ta_resolved := False\<rparr>)
           | Some TO_Value \<Rightarrow>
               (case inline of
                  Some v \<Rightarrow> transport_loop sub rest opts (note_option sub n TO_Value inline (Some v) t)
                | None \<Rightarrow> transport_loop sub (drop 1 rest) opts
                    (note_option sub n TO_Value inline
                       (case rest of [] \<Rightarrow> None | v # _ \<Rightarrow> Some v) t))
           | Some TO_OptionalValue \<Rightarrow>
               transport_loop sub rest opts (note_option sub n TO_OptionalValue inline inline t)
           | Some TO_Flag \<Rightarrow>
               transport_loop sub rest opts (note_option sub n TO_Flag inline None t)))"

definition transport_arguments :: "rstr \<Rightarrow> rstr list \<Rightarrow> transport_args" where
  "transport_arguments sub args =
     transport_loop sub args True
       \<lparr>ta_positional = [], ta_archive_remote = None, ta_multiple = False, ta_resolved = True\<rparr>"

definition names_explicit_remote :: "rstr list \<Rightarrow> bool" where
  "names_explicit_remote positional =
     (case positional of [] \<Rightarrow> False
      | value # _ \<Rightarrow>
          58 \<in> set value \<or> 47 \<in> set value \<or> 92 \<in> set value \<or>
          starts_with (lit ''/'') value \<or> starts_with (lit ''./'') value \<or>
          starts_with (lit ''../'') value \<or> starts_with (lit ''~'') value)"

definition remote_text_is_explicit :: "rstr \<Rightarrow> bool" where
  "remote_text_is_explicit value = names_explicit_remote [value]"

definition explicit_target :: "transport_args \<Rightarrow> bool" where
  "explicit_target t =
     (if ta_multiple t then list_ex (\<lambda>p. names_explicit_remote [p]) (ta_positional t)
      else names_explicit_remote (ta_positional t))"

section \<open>The subcommand vocabulary\<close>

abbreviation read_fx :: git_effects where
  "read_fx \<equiv> no_effects\<lparr>ge_metadata_read := True\<rparr>"

abbreviation metadata_fx :: git_effects where
  "metadata_fx \<equiv> no_effects\<lparr>ge_metadata_write := True\<rparr>"

abbreviation workspace_fx :: git_effects where
  "workspace_fx \<equiv> no_effects\<lparr>ge_metadata_write := True, ge_workspace_mutation := True\<rparr>"

abbreviation identity_fx :: git_effects where
  "identity_fx \<equiv> no_effects\<lparr>ge_metadata_read := True, ge_config_write := True\<rparr>"

definition has :: "rstr list \<Rightarrow> string list \<Rightarrow> bool" where
  "has args fs = list_ex (one_of fs) args"

definition any_prefix :: "rstr list \<Rightarrow> string list \<Rightarrow> bool" where
  "any_prefix args ps = list_ex (\<lambda>a. list_ex (\<lambda>p. starts_with (lit p) a) ps) args"

definition first_is :: "rstr list \<Rightarrow> string list \<Rightarrow> bool" where
  "first_is args ws = (case args of [] \<Rightarrow> False | a # _ \<Rightarrow> one_of ws a)"

definition reflog_fx :: "rstr list \<Rightarrow> git_command_effects_rec" where
  "reflog_fx args =
     resolved (if first_is args [''expire'', ''delete''] then metadata_fx else read_fx)"

definition symbolic_ref_fx :: "rstr list \<Rightarrow> git_command_effects_rec" where
  "symbolic_ref_fx args =
     resolved (if has args [''-d'', ''--delete'', ''-m''] then metadata_fx else read_fx)"

definition config_fx :: "rstr list \<Rightarrow> git_command_effects_rec" where
  "config_fx args =
     resolved (if has args [''--get'', ''--get-all'', ''--get-regexp'', ''--get-urlmatch'', ''--list'', ''-l'']
               then read_fx else identity_fx)"

definition is_verbose :: "rstr \<Rightarrow> bool" where
  "is_verbose a = one_of [''-v'', ''--verbose''] a"

definition remote_fx :: "rstr list \<Rightarrow> git_command_effects_rec" where
  "remote_fx args =
     (let rest = dropWhile is_verbose args
      in if rest = [] \<or> hd rest = lit ''get-url'' then resolved read_fx
         else if hd rest = lit ''show'' then
           (resolved (read_fx\<lparr>ge_remote_read := \<not> has args [''-n'']\<rparr>))
             \<lparr>gc_explicit_remote :=
                list_ex (\<lambda>a. names_explicit_remote [a]) (filter (\<lambda>a. \<not> is_option a) (tl rest))\<rparr>
         else resolved identity_fx)"

definition branch_fx :: "rstr list \<Rightarrow> git_command_effects_rec" where
  "branch_fx args =
     resolved
       (if has args [''-u'', ''--set-upstream'', ''--unset-upstream'', ''--edit-description'']
             \<or> any_prefix args [''--set-upstream-to''] then identity_fx
        else if has args [''-d'', ''-D''] \<or> any_prefix args [''--delete'']
          then metadata_fx\<lparr>ge_irreversible := True\<rparr>
        else if has args [''-l'', ''--list'', ''--show-current'', ''-a'', ''--all'', ''-r'', ''--remotes'',
                          ''-v'', ''--verbose'']
             \<or> any_prefix args [''--contains'', ''--merged'', ''--no-merged'', ''--points-at'', ''--format'']
             \<or> args = [] then read_fx
        else metadata_fx)"

definition tag_fx :: "rstr list \<Rightarrow> git_command_effects_rec" where
  "tag_fx args =
     resolved
       (if has args [''-d''] \<or> any_prefix args [''--delete''] then metadata_fx\<lparr>ge_irreversible := True\<rparr>
        else if has args [''-l'', ''--list'']
             \<or> any_prefix args [''--contains'', ''--points-at'', ''--format''] \<or> args = [] then read_fx
        else metadata_fx)"

definition stash_fx :: "rstr list \<Rightarrow> git_command_effects_rec" where
  "stash_fx args =
     resolved
       (if first_is args [''list'', ''show''] then read_fx
        else if first_is args [''drop'', ''clear''] then workspace_fx\<lparr>ge_irreversible := True\<rparr>
        else workspace_fx)"

definition worktree_fx :: "rstr list \<Rightarrow> git_command_effects_rec" where
  "worktree_fx args =
     resolved
       (if args = [] \<or> first_is args [''list''] then read_fx
        else if first_is args [''remove'', ''prune''] \<and> has args [''-f'', ''--force'']
          then workspace_fx\<lparr>ge_irreversible := True\<rparr>
        else workspace_fx)"

definition submodule_fx :: "rstr list \<Rightarrow> git_command_effects_rec" where
  "submodule_fx args =
     resolved (if args = [] \<or> first_is args [''status'', ''summary''] then read_fx else identity_fx)"

definition notes_fx :: "rstr list \<Rightarrow> git_command_effects_rec" where
  "notes_fx args = resolved (if first_is args [''list'', ''show''] then read_fx else metadata_fx)"

definition metadata_subcommand :: "rstr \<Rightarrow> bool" where
  "metadata_subcommand sub =
     one_of [''add'', ''commit'', ''update-index'', ''hash-object'', ''mktree'', ''write-tree'',
       ''commit-tree'', ''pack-refs'', ''update-server-info'', ''pack-objects'', ''index-pack'',
       ''unpack-objects'', ''commit-graph'', ''multi-pack-index'', ''repack'', ''gc'',
       ''maintenance'', ''rerere'', ''replace''] sub"

definition archive_fx :: "rstr list \<Rightarrow> git_command_effects_rec" where
  "archive_fx args =
     (let t = transport_arguments (lit ''archive'') args
      in (resolved (read_fx\<lparr>ge_remote_read := ta_archive_remote t \<noteq> None\<rparr>))
           \<lparr>gc_resolved := ta_resolved t,
            gc_explicit_remote :=
              (case ta_archive_remote t of None \<Rightarrow> False | Some v \<Rightarrow> names_explicit_remote [v])\<rparr>)"

definition fetch_fx :: "rstr list \<Rightarrow> git_command_effects_rec" where
  "fetch_fx args =
     (let t = transport_arguments (lit ''fetch'') args
      in (resolved (metadata_fx\<lparr>ge_remote_read := True,
            ge_config_write := has args [''-u'', ''--set-upstream''] \<or> any_prefix args [''--set-upstream-to'']\<rparr>))
           \<lparr>gc_resolved := ta_resolved t, gc_explicit_remote := explicit_target t\<rparr>)"

definition ls_remote_fx :: "rstr list \<Rightarrow> git_command_effects_rec" where
  "ls_remote_fx args =
     (let t = transport_arguments (lit ''ls-remote'') args
      in (resolved (read_fx\<lparr>ge_remote_read := True\<rparr>))
           \<lparr>gc_resolved := ta_resolved t, gc_explicit_remote := explicit_target t\<rparr>)"

definition pull_fx :: "rstr list \<Rightarrow> git_command_effects_rec" where
  "pull_fx args =
     (let t = transport_arguments (lit ''pull'') args
      in (resolved (workspace_fx\<lparr>ge_remote_read := True,
            ge_config_write := has args [''-u'', ''--set-upstream'']\<rparr>))
           \<lparr>gc_resolved := ta_resolved t, gc_explicit_remote := explicit_target t\<rparr>)"

definition push_is_forced :: "rstr list \<Rightarrow> bool" where
  "push_is_forced args \<longleftrightarrow>
     has args [''-f'', ''--force'', ''--mirror'', ''--delete'', ''-d'', ''--prune'']
     \<or> any_prefix args [''--force-with-lease'', ''--force-if-includes'']
     \<or> list_ex (\<lambda>a. starts_with (lit ''+'') a \<or> starts_with (lit '':'') a)
         (filter (\<lambda>a. \<not> is_option a) args)"

definition push_fx :: "rstr list \<Rightarrow> git_command_effects_rec" where
  "push_fx args =
     (let t = transport_arguments (lit ''push'') args
      in (resolved (no_effects\<lparr>ge_metadata_read := True, ge_metadata_write := True,
            ge_remote_write := True, ge_config_write := has args [''-u'', ''--set-upstream''],
            ge_irreversible := push_is_forced args\<rparr>))
           \<lparr>gc_resolved := ta_resolved t, gc_explicit_remote := names_explicit_remote (ta_positional t)\<rparr>)"

definition clone_fx :: git_command_effects_rec where
  "clone_fx = (resolved (workspace_fx\<lparr>ge_remote_read := True\<rparr>))\<lparr>gc_explicit_remote := True\<rparr>"

definition checkout_fx :: "rstr list \<Rightarrow> git_command_effects_rec" where
  "checkout_fx args =
     resolved (if has args [''-f'', ''--force'', ''--''] then workspace_fx\<lparr>ge_irreversible := True\<rparr>
               else metadata_fx)"

definition clean_fx :: "rstr list \<Rightarrow> git_command_effects_rec" where
  "clean_fx args =
     resolved (no_effects\<lparr>ge_workspace_mutation := True,
       ge_irreversible := any_prefix args [''-f''] \<or> has args [''--force'']\<rparr>)"

text \<open>The arms from \<open>update-ref\<close> down, in the order of the source.\<close>

definition classify_rest :: "rstr \<Rightarrow> rstr list \<Rightarrow> git_command_effects_rec" where
  "classify_rest sub args =
     (if sub = lit ''update-ref'' then
        resolved (metadata_fx\<lparr>ge_irreversible := has args [''-d'', ''--delete'']\<rparr>)
      else if sub = lit ''sparse-checkout'' then resolved workspace_fx
      else if sub = lit ''send-email'' then resolved (read_fx\<lparr>ge_remote_write := True\<rparr>)
      else if sub = lit ''archive'' then archive_fx args
      else if sub = lit ''prune'' then resolved (metadata_fx\<lparr>ge_irreversible := True\<rparr>)
      else if sub = lit ''fetch'' then fetch_fx args
      else if sub = lit ''ls-remote'' then ls_remote_fx args
      else if sub = lit ''pull'' then pull_fx args
      else if sub = lit ''push'' then push_fx args
      else if sub = lit ''clone'' then clone_fx
      else if sub = lit ''merge'' then resolved metadata_fx
      else if one_of [''rebase'', ''cherry-pick'', ''revert'', ''am'', ''apply'', ''bisect''] sub
        then resolved workspace_fx
      else if one_of [''checkout'', ''switch''] sub then checkout_fx args
      else if sub = lit ''reset'' then
        resolved (workspace_fx\<lparr>ge_irreversible := has args [''--hard'', ''--merge'']\<rparr>)
      else if sub = lit ''restore'' then resolved (workspace_fx\<lparr>ge_irreversible := True\<rparr>)
      else if sub = lit ''clean'' then clean_fx args
      else if one_of [''rm'', ''mv''] sub then
        resolved (workspace_fx\<lparr>ge_irreversible := (sub = lit ''rm'')\<rparr>)
      else if sub = lit ''init'' then resolved identity_fx
      else unresolved read_fx)"

definition classify_subcommand :: "rstr \<Rightarrow> rstr list \<Rightarrow> git_command_effects_rec" where
  "classify_subcommand sub args =
     (if git_read_ignores_arguments sub then resolved read_fx
      else if sub = lit ''reflog'' then reflog_fx args
      else if sub = lit ''symbolic-ref'' then symbolic_ref_fx args
      else if sub = lit ''config'' then config_fx args
      else if sub = lit ''remote'' then remote_fx args
      else if sub = lit ''branch'' then branch_fx args
      else if sub = lit ''tag'' then tag_fx args
      else if sub = lit ''stash'' then stash_fx args
      else if sub = lit ''worktree'' then worktree_fx args
      else if sub = lit ''submodule'' then submodule_fx args
      else if sub = lit ''notes'' then notes_fx args
      else if metadata_subcommand sub then resolved metadata_fx
      else classify_rest sub args)"

section \<open>Invocations and calls\<close>

definition git_command_effects :: "rstr list \<Rightarrow> git_command_effects_rec option" where
  "git_command_effects argv =
     (case argv of [] \<Rightarrow> None
      | program # args \<Rightarrow>
          if git_basename program \<noteq> lit ''git'' then None
          else case split_subcommand args of
            None \<Rightarrow> Some (resolved read_fx)
          | Some p \<Rightarrow>
              (let e = classify_subcommand (pi_subcommand p) (pi_args p)
               in Some (e\<lparr>gc_resolved := gc_resolved e \<and> \<not> pi_rule_override p
                                       \<and> \<not> names_transport_exec_override (pi_args p),
                          gc_relocated := gc_relocated e \<or> pi_target_relocation p\<rparr>)))"

definition add_command :: "rstr list \<Rightarrow> call_git_effects_rec \<Rightarrow> call_git_effects_rec" where
  "add_command command out =
     (case git_command_effects command of
        None \<Rightarrow> out
      | Some g \<Rightarrow>
          out\<lparr>cg_any_git := True,
              cg_effects := effects_merge (cg_effects out) (gc_effects g),
              cg_unresolved := cg_unresolved out \<or> \<not> gc_resolved g,
              cg_relocated := cg_relocated out \<or> gc_relocated g,
              cg_explicit_remote := cg_explicit_remote out \<or> gc_explicit_remote g\<rparr>)"

definition call_git_effects :: "rstr list list \<Rightarrow> bool \<Rightarrow> call_git_effects_rec" where
  "call_git_effects commands complete =
     (let out = fold add_command commands call_effects_default;
          all_git = (commands \<noteq> [] \<and> list_all (\<lambda>c. git_command_effects c \<noteq> None) commands)
      in out\<lparr>cg_fully_git := all_git \<and> complete,
             cg_unresolved := cg_unresolved out \<or> (cg_any_git out \<and> \<not> complete)\<rparr>)"

record git_grant_selection_rec =
  gs_effects :: git_effects
  gs_remote_name :: "rstr option"

definition remote_selection :: "git_effects \<Rightarrow> rstr list \<Rightarrow> git_grant_selection_rec option" where
  "remote_selection e args =
     (case filter (\<lambda>a. \<not> is_verbose a) args of
        first # name # _ \<Rightarrow>
          if first \<noteq> lit ''show'' \<or> has args [''-n''] then None
          else if is_option name \<or> names_explicit_remote [name] then None
          else Some \<lparr>gs_effects = e, gs_remote_name = Some name\<rparr>
      | _ \<Rightarrow> None)"

definition archive_selection :: "git_effects \<Rightarrow> rstr list \<Rightarrow> git_grant_selection_rec option" where
  "archive_selection e args =
     (let t = transport_arguments (lit ''archive'') args
      in if \<not> ta_resolved t then None
         else case ta_archive_remote t of
           None \<Rightarrow> None
         | Some v \<Rightarrow> if v = [] \<or> remote_text_is_explicit v then None
                     else Some \<lparr>gs_effects = e, gs_remote_name = Some v\<rparr>)"

definition transport_selection :: "git_effects \<Rightarrow> rstr \<Rightarrow> rstr list \<Rightarrow> git_grant_selection_rec option" where
  "transport_selection e sub args =
     (let t = transport_arguments sub args
      in if \<not> ta_resolved t \<or> ta_multiple t \<or> has args [''--all'', ''--stdin'']
            \<or> any_prefix args [''--recurse-submodules''] then None
         else case ta_positional t of
           [] \<Rightarrow> None
         | n # _ \<Rightarrow> if n = [] \<or> names_explicit_remote [n] then None
                     else Some \<lparr>gs_effects = e, gs_remote_name = Some n\<rparr>)"

definition git_grant_selection :: "rstr list \<Rightarrow> git_grant_selection_rec option" where
  "git_grant_selection argv =
     (case argv of [] \<Rightarrow> None
      | program # args \<Rightarrow>
          if program \<noteq> lit ''git'' then None
          else case git_command_effects argv of
            None \<Rightarrow> None
          | Some g \<Rightarrow>
              if \<not> gc_resolved g \<or> gc_relocated g \<or> gc_explicit_remote g then None
              else case split_subcommand args of
                None \<Rightarrow> None
              | Some p \<Rightarrow>
                  (let e = gc_effects g; sub = pi_subcommand p; rest = pi_args p
                   in if \<not> ge_remote_read e \<and> \<not> ge_remote_write e
                        then Some \<lparr>gs_effects = e, gs_remote_name = None\<rparr>
                      else if sub = lit ''archive'' then archive_selection e rest
                      else if sub = lit ''remote'' then remote_selection e rest
                      else if one_of [''fetch'', ''ls-remote'', ''push'', ''pull''] sub
                        then transport_selection e sub rest
                      else None))"

definition explicit_candidate :: "rstr \<Rightarrow> rstr list \<Rightarrow> rstr option" where
  "explicit_candidate sub args =
     (if sub = lit ''clone'' then find (\<lambda>a. \<not> is_option a) args
      else if one_of [''fetch'', ''ls-remote'', ''push'', ''pull''] sub then
        (let t = transport_arguments sub args
         in if \<not> ta_resolved t \<or> ta_multiple t \<or> length (ta_positional t) \<noteq> 1 then None
            else Some (hd (ta_positional t)))
      else if sub = lit ''archive'' then
        (let t = transport_arguments (lit ''archive'') args
         in if \<not> ta_resolved t then None else ta_archive_remote t)
      else if sub = lit ''remote'' then
        (case filter (\<lambda>a. \<not> is_verbose a) args of
           first # name # _ \<Rightarrow> if first = lit ''show'' then Some name else None
         | _ \<Rightarrow> None)
      else None)"

definition single_explicit_remote_target :: "rstr list \<Rightarrow> rstr option" where
  "single_explicit_remote_target argv =
     (case argv of [] \<Rightarrow> None
      | program # args \<Rightarrow>
          if program \<noteq> lit ''git'' then None
          else case split_subcommand args of
            None \<Rightarrow> None
          | Some p \<Rightarrow>
              (case explicit_candidate (pi_subcommand p) (pi_args p) of
                 None \<Rightarrow> None
               | Some v \<Rightarrow> if remote_text_is_explicit v then Some v else None))"

definition sync_is_special :: "rstr list \<Rightarrow> bool" where
  "sync_is_special args \<longleftrightarrow>
     has args [''--all'', ''--stdin'', ''--multiple'', ''-m''] \<or> any_prefix args [''--recurse-submodules'']"

definition git_remote_credential_unbrokered :: "rstr list \<Rightarrow> bool" where
  "git_remote_credential_unbrokered argv =
     (case git_command_effects argv of
        None \<Rightarrow> False
      | Some g \<Rightarrow>
          if \<not> ge_remote_read (gc_effects g) \<and> \<not> ge_remote_write (gc_effects g) then False
          else if \<not> gc_resolved g then True
          else if (case git_grant_selection argv of None \<Rightarrow> False | Some s \<Rightarrow> gs_remote_name s \<noteq> None)
            then False
          else if single_explicit_remote_target argv \<noteq> None then False
          else case split_subcommand (tl argv) of
            None \<Rightarrow> True
          | Some p \<Rightarrow>
              if one_of [''fetch'', ''pull'', ''push'', ''ls-remote''] (pi_subcommand p)
              then sync_is_special (pi_args p)
                   \<or> ta_positional (transport_arguments (pi_subcommand p) (pi_args p)) \<noteq> []
              else True)"

end
