(* ===== verification/Git_Effects_Correct.thy ===== *)
theory Git_Effects_Correct
  imports Git_Effects
begin

text \<open>
  What the reading of Git invocations guarantees: which calls earn the metadata
  capability from their effects alone, that a call which pushes is always gated,
  that gating is monotone, and that a reading subcommand reads whatever follows it.
\<close>

section \<open>A call is the union of its invocations\<close>

definition invocations :: "rstr list list \<Rightarrow> git_command_effects_rec list" where
  "invocations commands = List.map_filter git_command_effects commands"

definition some_fx :: "(git_effects \<Rightarrow> bool) \<Rightarrow> git_command_effects_rec list \<Rightarrow> bool" where
  "some_fx f gs \<longleftrightarrow> (\<exists>g \<in> set gs. f (gc_effects g))"

lemma some_fx_simps [simp]:
  "some_fx f [] = False" "some_fx f (g # gs) = (f (gc_effects g) \<or> some_fx f gs)"
  by (simp_all add: some_fx_def)

lemma invocations_simps [simp]:
  "invocations [] = []"
  "invocations (c # cs) =
     (case git_command_effects c of None \<Rightarrow> invocations cs | Some g \<Rightarrow> g # invocations cs)"
  by (simp_all add: invocations_def map_filter_simps split: option.splits)

lemma add_command_simps:
  "git_command_effects c = None \<Longrightarrow> add_command c out = out"
  "git_command_effects c = Some g \<Longrightarrow> add_command c out =
     out\<lparr>cg_any_git := True,
         cg_effects := effects_merge (cg_effects out) (gc_effects g),
         cg_unresolved := cg_unresolved out \<or> \<not> gc_resolved g,
         cg_relocated := cg_relocated out \<or> gc_relocated g,
         cg_explicit_remote := cg_explicit_remote out \<or> gc_explicit_remote g\<rparr>"
  by (simp_all add: add_command_def)

lemma fold_add_command:
  "fold add_command cs out =
     out\<lparr>cg_any_git := cg_any_git out \<or> invocations cs \<noteq> [],
         cg_effects :=
           \<lparr>ge_metadata_read = (ge_metadata_read (cg_effects out) \<or> some_fx ge_metadata_read (invocations cs)),
            ge_metadata_write = (ge_metadata_write (cg_effects out) \<or> some_fx ge_metadata_write (invocations cs)),
            ge_workspace_mutation =
              (ge_workspace_mutation (cg_effects out) \<or> some_fx ge_workspace_mutation (invocations cs)),
            ge_remote_read = (ge_remote_read (cg_effects out) \<or> some_fx ge_remote_read (invocations cs)),
            ge_remote_write = (ge_remote_write (cg_effects out) \<or> some_fx ge_remote_write (invocations cs)),
            ge_config_write = (ge_config_write (cg_effects out) \<or> some_fx ge_config_write (invocations cs)),
            ge_irreversible = (ge_irreversible (cg_effects out) \<or> some_fx ge_irreversible (invocations cs))\<rparr>,
         cg_unresolved := cg_unresolved out \<or> (\<exists>g \<in> set (invocations cs). \<not> gc_resolved g),
         cg_relocated := cg_relocated out \<or> (\<exists>g \<in> set (invocations cs). gc_relocated g),
         cg_explicit_remote := cg_explicit_remote out \<or> (\<exists>g \<in> set (invocations cs). gc_explicit_remote g)\<rparr>"
proof (induction cs arbitrary: out)
  case Nil
  show ?case by simp
next
  case (Cons c cs)
  show ?case
    by (cases "git_command_effects c")
      (simp_all add: Cons.IH add_command_simps effects_merge_def disj_assoc)
qed

lemma call_fields:
  "cg_any_git (call_git_effects cs complete) \<longleftrightarrow> invocations cs \<noteq> []"
  "cg_fully_git (call_git_effects cs complete) \<longleftrightarrow>
     cs \<noteq> [] \<and> (\<forall>c \<in> set cs. git_command_effects c \<noteq> None) \<and> complete"
  "cg_unresolved (call_git_effects cs complete) \<longleftrightarrow>
     (\<exists>g \<in> set (invocations cs). \<not> gc_resolved g) \<or> (invocations cs \<noteq> [] \<and> \<not> complete)"
  "cg_relocated (call_git_effects cs complete) \<longleftrightarrow> (\<exists>g \<in> set (invocations cs). gc_relocated g)"
  "cg_explicit_remote (call_git_effects cs complete) \<longleftrightarrow> (\<exists>g \<in> set (invocations cs). gc_explicit_remote g)"
  "ge_metadata_write (cg_effects (call_git_effects cs complete)) \<longleftrightarrow> some_fx ge_metadata_write (invocations cs)"
  "ge_workspace_mutation (cg_effects (call_git_effects cs complete)) \<longleftrightarrow>
     some_fx ge_workspace_mutation (invocations cs)"
  "ge_remote_read (cg_effects (call_git_effects cs complete)) \<longleftrightarrow> some_fx ge_remote_read (invocations cs)"
  "ge_remote_write (cg_effects (call_git_effects cs complete)) \<longleftrightarrow> some_fx ge_remote_write (invocations cs)"
  "ge_config_write (cg_effects (call_git_effects cs complete)) \<longleftrightarrow> some_fx ge_config_write (invocations cs)"
  "ge_irreversible (cg_effects (call_git_effects cs complete)) \<longleftrightarrow> some_fx ge_irreversible (invocations cs)"
  by (simp_all add: call_git_effects_def Let_def fold_add_command call_effects_default_def
      no_effects_def list_all_iff)

lemma invocations_all:
  "\<forall>c \<in> set cs. git_command_effects c \<noteq> None \<Longrightarrow>
     set (invocations cs) = (\<lambda>c. the (git_command_effects c)) ` set cs"
  by (induction cs) auto

lemma invocation_member: "c \<in> set cs \<Longrightarrow> git_command_effects c = Some g \<Longrightarrow> g \<in> set (invocations cs)"
  by (induction cs) (auto split: option.splits)

lemma invocation_source: "g \<in> set (invocations cs) \<Longrightarrow> \<exists>c \<in> set cs. git_command_effects c = Some g"
  by (induction cs) (auto split: option.splits)

section \<open>The capability that is never asked for\<close>

text \<open>A plain metadata write: readable, on the repository at hand, and nothing else.\<close>

definition plain_metadata :: "git_command_effects_rec \<Rightarrow> bool" where
  "plain_metadata g \<longleftrightarrow>
     gc_resolved g \<and> \<not> gc_relocated g \<and> \<not> ge_workspace_mutation (gc_effects g) \<and>
     \<not> ge_remote_write (gc_effects g) \<and> \<not> ge_config_write (gc_effects g) \<and>
     \<not> ge_irreversible (gc_effects g)"

text \<open>A call is granted the repository-metadata write without asking exactly when
  its command list is the whole list, every command in it is a Git invocation that
  was read completely, points at this repository and neither changes the working
  tree, the configuration or a remote nor destroys anything, and at least one of
  them writes metadata.  One command of any other kind, anywhere in the call, takes
  the grant away.\<close>

theorem metadata_grant_exact:
  "grants_metadata_write_by_effect (call_git_effects commands complete) \<longleftrightarrow>
     complete \<and>
     (\<forall>c \<in> set commands. \<exists>g. git_command_effects c = Some g \<and> plain_metadata g) \<and>
     (\<exists>c \<in> set commands. \<exists>g. git_command_effects c = Some g \<and> ge_metadata_write (gc_effects g))"
proof -
  let ?call = "call_git_effects commands complete"
  show ?thesis
  proof
    assume g: "grants_metadata_write_by_effect ?call"
    then have all: "\<forall>c \<in> set commands. git_command_effects c \<noteq> None" and compl: complete
      by (auto simp: grants_metadata_write_by_effect_def call_fields)
    from g have "\<forall>x \<in> set (invocations commands). plain_metadata x"
      by (auto simp: grants_metadata_write_by_effect_def call_fields some_fx_def plain_metadata_def)
    then have "\<forall>c \<in> set commands. \<exists>g. git_command_effects c = Some g \<and> plain_metadata g"
      using all invocation_member by blast
    moreover from g have "\<exists>x \<in> set (invocations commands). ge_metadata_write (gc_effects x)"
      by (auto simp: grants_metadata_write_by_effect_def call_fields some_fx_def needs_repository_write_def)
    ultimately show "complete \<and>
        (\<forall>c \<in> set commands. \<exists>g. git_command_effects c = Some g \<and> plain_metadata g) \<and>
        (\<exists>c \<in> set commands. \<exists>g. git_command_effects c = Some g \<and> ge_metadata_write (gc_effects g))"
      using compl by (blast dest: invocation_source)
  next
    assume r: "complete \<and>
        (\<forall>c \<in> set commands. \<exists>g. git_command_effects c = Some g \<and> plain_metadata g) \<and>
        (\<exists>c \<in> set commands. \<exists>g. git_command_effects c = Some g \<and> ge_metadata_write (gc_effects g))"
    then have plain: "plain_metadata x" if "x \<in> set (invocations commands)" for x
      using invocation_source [OF that] by fastforce
    have "\<exists>x \<in> set (invocations commands). ge_metadata_write (gc_effects x)"
      using r by (blast intro: invocation_member)
    then show "grants_metadata_write_by_effect ?call"
      using r plain
      by (auto simp: grants_metadata_write_by_effect_def call_fields some_fx_def plain_metadata_def
          needs_repository_write_def)
  qed
qed

theorem metadata_grant_exact_witness:
  "grants_metadata_write_by_effect
     (call_git_effects [map lit [''git'', ''add'', ''.''], map lit [''git'', ''commit'', ''-m'', ''x'']] True)"
  unfolding metadata_grant_exact
  by (simp add: git_command_effects_def git_basename_def file_name_def split_char_def lit_def
      split_subcommand_def invocation_at_def is_option_def starts_with_def classify_subcommand_def
      git_read_ignores_arguments_def one_of_def metadata_subcommand_def resolved_def
      names_transport_exec_override_def flag_or_value_def plain_metadata_def no_effects_def)

section \<open>What is always gated\<close>

lemma gating_monotone:
  assumes "gated (call_git_effects cs complete)" and "set cs \<subseteq> set ds" and "complete' \<longrightarrow> complete"
  shows "gated (call_git_effects ds complete')"
proof -
  have sub: "set (invocations cs) \<subseteq> set (invocations ds)"
    using assms(2) by (auto dest!: invocation_source intro: invocation_member)
  then have mono: "some_fx f (invocations cs) \<Longrightarrow> some_fx f (invocations ds)" for f
    by (auto simp: some_fx_def)
  have "invocations cs \<noteq> [] \<Longrightarrow> invocations ds \<noteq> []" using sub by auto
  then show ?thesis
    using assms(1,3) sub mono by (auto simp: gated_def call_fields needs_repository_write_def)
qed

text \<open>The subcommands that change a remote, the working tree, the configuration or
  destroy work whatever their arguments are.\<close>

definition gated_subcommand :: "rstr \<Rightarrow> bool" where
  "gated_subcommand sub =
     one_of [''push'', ''pull'', ''clone'', ''send-email'', ''rebase'', ''cherry-pick'', ''revert'',
       ''am'', ''apply'', ''bisect'', ''reset'', ''restore'', ''clean'', ''rm'', ''mv'', ''init'',
       ''prune'', ''sparse-checkout''] sub"

definition gating_fx :: "git_effects \<Rightarrow> bool" where
  "gating_fx e \<longleftrightarrow> ge_workspace_mutation e \<or> ge_remote_write e \<or> ge_config_write e \<or> ge_irreversible e"

lemma gated_subcommand_fx:
  assumes "gated_subcommand sub"
  shows "gating_fx (gc_effects (classify_subcommand sub args))"
  using assms unfolding gated_subcommand_def one_of_def list.map list.set insert_iff empty_iff
  by (elim disjE FalseE; hypsubst)
    (simp_all add: gating_fx_def classify_subcommand_def one_of_def git_read_ignores_arguments_def
      metadata_subcommand_def classify_rest_def push_fx_def pull_fx_def clone_fx_def clean_fx_def
      resolved_def no_effects_def Let_def)

lemma invocation_of:
  "git_basename program = lit ''git'' \<Longrightarrow> split_subcommand args = Some p \<Longrightarrow>
     \<exists>g. git_command_effects (program # args) = Some g \<and>
         gc_effects g = gc_effects (classify_subcommand (pi_subcommand p) (pi_args p))"
  by (simp add: git_command_effects_def Let_def)

text \<open>
  C21. A call that pushes never rides on the decision for a fetch.  If any command
  of the call is a Git invocation of a subcommand that changes a remote, the working
  tree or the configuration or destroys work (push, pull, reset, clean, ...), then
  whatever its global options, its arguments and the other commands of the call are,
  and whether or not the list is complete, the call is gated and is not granted the
  metadata write from its effects.\<close>

theorem push_never_rides_a_fetch:
  assumes "program # args \<in> set commands" and "git_basename program = lit ''git''"
    and "split_subcommand args = Some p" and "gated_subcommand (pi_subcommand p)"
  shows "gated (call_git_effects commands complete) \<and>
         \<not> grants_metadata_write_by_effect (call_git_effects commands complete)"
proof -
  obtain g where g: "git_command_effects (program # args) = Some g"
    and fx: "gc_effects g = gc_effects (classify_subcommand (pi_subcommand p) (pi_args p))"
    using invocation_of assms(2,3) by blast
  have mem: "g \<in> set (invocations commands)" using assms(1) g by (rule invocation_member)
  moreover have "gating_fx (gc_effects g)" unfolding fx using assms(4) by (rule gated_subcommand_fx)
  ultimately show ?thesis
    by (auto simp: gating_fx_def gated_def grants_metadata_write_by_effect_def call_fields some_fx_def)
qed

theorem push_never_rides_a_fetch_witness:
  "gated (call_git_effects [map lit [''git'', ''fetch''], map lit [''git'', ''-C'', ''x'', ''push'', ''-n'']] True)"
proof -
  have "git_basename (lit ''git'') = lit ''git''"
    by (simp add: git_basename_def file_name_def split_char_def lit_def)
  moreover have "split_subcommand (map lit [''-C'', ''x'', ''push'', ''-n'']) =
      Some \<lparr>pi_subcommand = lit ''push'', pi_args = [lit ''-n''], pi_rule_override = False,
            pi_target_relocation = True\<rparr>"
    by (simp add: split_subcommand_def lit_def is_option_def starts_with_def read_global_def one_of_def
        invocation_at_def)
  ultimately show ?thesis
    using push_never_rides_a_fetch [of "lit ''git''" "map lit [''-C'', ''x'', ''push'', ''-n'']"
        "[map lit [''git'', ''fetch''], map lit [''git'', ''-C'', ''x'', ''push'', ''-n'']]" _ True]
    by (simp add: gated_subcommand_def one_of_def)
qed

lemma fixed_reads: "git_read_ignores_arguments sub \<Longrightarrow> classify_subcommand sub args = resolved read_fx"
  by (simp add: classify_subcommand_def)

end
