(* ===== verification/Shell_Words.thy ===== *)
theory Shell_Words
  imports Git_Effects
begin

text \<open>
  A command line read as text (leveler-execution, approval.rs): program names and
  shell wrappers, the segments and words of a script, the redirect scanner, the
  \<open>cmd.exe\<close> expansions, deletion targets and credential stores.  The loops over
  the characters of a script are recursions over the characters that are left.
\<close>

section \<open>Programs and shell wrappers\<close>

definition is_path_sep :: "rchar \<Rightarrow> bool" where
  "is_path_sep c \<longleftrightarrow> c = 47 \<or> c = 92"

definition basename :: "rstr \<Rightarrow> rstr" where
  "basename program = last (split_on is_path_sep program)"

definition is_cmd_exe :: "rstr \<Rightarrow> bool" where
  "is_cmd_exe base = one_of [''cmd'', ''cmd.exe''] (to_ascii_lowercase base)"

definition is_shell_wrapper_program :: "rstr \<Rightarrow> bool" where
  "is_shell_wrapper_program program \<longleftrightarrow>
     one_of [''sh'', ''bash'', ''zsh'', ''dash'', ''ash'', ''ksh''] (basename program)
     \<or> is_cmd_exe (basename program)"

definition is_shell_c_flag :: "rstr \<Rightarrow> bool" where
  "is_shell_c_flag arg \<longleftrightarrow>
     to_ascii_lowercase arg = lit ''/c'' \<or> arg = lit ''-c'' \<or>
     (case strip_prefix (lit ''-'') arg of
        None \<Rightarrow> False
      | Some flags \<Rightarrow>
          \<not> starts_with (lit ''-'') flags \<and> 2 \<le> byte_len flags \<and> byte_len flags \<le> 3 \<and>
          ends_with (lit ''c'') flags \<and> list_all is_ascii_lower flags)"

fun shell_c_script :: "rstr list \<Rightarrow> rstr option" where
  "shell_c_script [] = None"
| "shell_c_script (a # rest) =
     (if is_shell_c_flag a then (case rest of [] \<Rightarrow> None | s # _ \<Rightarrow> Some s) else shell_c_script rest)"

definition is_host_escape_program :: "rstr \<Rightarrow> bool" where
  "is_host_escape_program program =
     one_of [''open'', ''xdg-open'', ''gio'', ''start'', ''start.exe''] (basename program)"

definition is_remote_publish_program :: "rstr \<Rightarrow> rstr option \<Rightarrow> bool" where
  "is_remote_publish_program program first \<longleftrightarrow>
     (program = lit ''git'' \<and> first = Some (lit ''push'')) \<or>
     (one_of [''cargo'', ''npm'', ''pnpm'', ''yarn''] program \<and> first = Some (lit ''publish''))"

definition DESTRUCTIVE :: "string list" where
  "DESTRUCTIVE = [''rm'', ''rmdir'', ''dd'', ''mkfs'', ''shutdown'', ''reboot'', ''halt'', ''poweroff'']"

definition PRIVILEGED :: "string list" where
  "PRIVILEGED = [''sudo'', ''su'', ''doas'']"

section \<open>Deletion targets and credential stores\<close>

definition workdir_literal_path :: "rstr \<Rightarrow> bool" where
  "workdir_literal_path path =
     (if path = [] \<or> starts_with (lit ''/'') path \<or> starts_with [92] path \<or> starts_with (lit ''~'') path
         \<or> list_ex (\<lambda>c. c \<in> set [36, 96, 42, 63, 91, 123, 10, 13]) path then False
      else if (case path of
                 a # b # _ \<Rightarrow> (is_ascii_lower a \<or> is_ascii_upper a) \<and> b = 58
               | _ \<Rightarrow> False) then False
      else \<not> list_ex (\<lambda>seg. seg = lit ''..'') (split_on is_path_sep path))"

text \<open>The operands: what is not an option, everything after \<open>--\<close>.\<close>

fun deletion_operands :: "rstr list \<Rightarrow> bool \<Rightarrow> rstr list" where
  "deletion_operands [] ended = []"
| "deletion_operands (arg # rest) ended =
     (if \<not> ended \<and> arg = lit ''--'' then deletion_operands rest True
      else if \<not> ended \<and> is_option arg \<and> arg \<noteq> lit ''-'' then deletion_operands rest ended
      else arg # deletion_operands rest ended)"

definition deletion_targets_stay_in_workdir :: "rstr \<Rightarrow> rstr list \<Rightarrow> bool" where
  "deletion_targets_stay_in_workdir program args \<longleftrightarrow>
     one_of [''rm'', ''rmdir''] program \<and>
     deletion_operands args False \<noteq> [] \<and>
     list_all workdir_literal_path (deletion_operands args False)"

definition is_credential_store_read :: "rstr \<Rightarrow> rstr list \<Rightarrow> bool" where
  "is_credential_store_read program args =
     (if program = lit ''security'' then
        first_is args [''find-generic-password'', ''find-internet-password'', ''dump-keychain'',
          ''find-key'', ''export'']
      else if program = lit ''secret-tool'' then first_is args [''lookup'']
      else if program = lit ''pass'' then first_is args [''show'', ''grep'']
      else if program = lit ''git'' then
        (case args of [] \<Rightarrow> False
         | a # _ \<Rightarrow> a = lit ''credential'' \<or> starts_with (lit ''credential-'') a)
      else starts_with (lit ''git-credential-'') program)"

section \<open>Segments and words\<close>

definition is_quote :: "rchar \<Rightarrow> bool" where
  "is_quote c \<longleftrightarrow> c = 39 \<or> c = 34"

definition push_segment :: "rstr list \<Rightarrow> rstr \<Rightarrow> rstr list" where
  "push_segment segs cur = (if trim cur \<noteq> [] then segs @ [trim cur] else segs)"

fun segment_loop :: "rstr \<Rightarrow> rchar option \<Rightarrow> rstr \<Rightarrow> rstr list \<Rightarrow> rstr list" where
  "segment_loop [] quote cur segs = push_segment segs cur"
| "segment_loop (c # cs) (Some q) cur segs =
     segment_loop cs (if c = q then None else Some q) (cur @ [c]) segs"
| "segment_loop (c # cs) None cur segs =
     (if is_quote c then segment_loop cs (Some c) (cur @ [c]) segs
      else if c = 124 \<or> c = 38 \<or> c = 59 \<or> c = 10
        then segment_loop cs None [] (push_segment segs cur)
      else segment_loop cs None (cur @ [c]) segs)"

definition split_shell_segments :: "rstr \<Rightarrow> rstr list" where
  "split_shell_segments script = segment_loop script None [] []"

definition trim_quotes :: "rstr \<Rightarrow> rstr" where
  "trim_quotes t = trim_end_matches is_quote (trim_start_matches is_quote t)"

definition shell_tokens :: "rstr \<Rightarrow> rstr list" where
  "shell_tokens segment = filter (\<lambda>t. t \<noteq> []) (map trim_quotes (split_whitespace segment))"

definition nested_shell_c_body :: "rstr list \<Rightarrow> rstr option" where
  "nested_shell_c_body tokens =
     (case tokens of [] \<Rightarrow> None
      | prog # rest \<Rightarrow>
          if \<not> is_shell_wrapper_program prog then None
          else case dropWhile (\<lambda>a. \<not> is_shell_c_flag a) rest of
            [] \<Rightarrow> None
          | _ # inner \<Rightarrow>
              (let body = join (lit '' '') inner in if body = [] then None else Some body))"

definition authority_assignment :: "rstr \<Rightarrow> bool" where
  "authority_assignment token =
     (case split_once 61 token of
        None \<Rightarrow> False
      | Some (name, _) \<Rightarrow> name \<noteq> [] \<and> 47 \<notin> set name \<and> git_env_changes_authority name)"

definition segment_changes_git_authority :: "rstr list \<Rightarrow> bool" where
  "segment_changes_git_authority tokens \<longleftrightarrow>
     list_ex authority_assignment tokens \<and>
     list_ex (\<lambda>t. \<not> authority_assignment t \<and>
                  (basename t = lit ''git'' \<or> is_shell_wrapper_program (basename t))) tokens"

section \<open>What cmd.exe substitutes\<close>

lemma split_once_shorter: "split_once c s = Some (a, b) \<Longrightarrow> length a + length b < length s"
  by (induction s arbitrary: a b) (auto split: if_splits)

definition is_env_name :: "rstr \<Rightarrow> bool" where
  "is_env_name name \<longleftrightarrow> name \<noteq> [] \<and> list_all (\<lambda>c. is_ascii_alphanumeric c \<or> c = 95) name"

function cmd_expands :: "rstr \<Rightarrow> bool" where
  "cmd_expands word =
     (case split_once 37 word of
        None \<Rightarrow> False
      | Some (_, after) \<Rightarrow>
          (case split_once 37 after of
             None \<Rightarrow> False
           | Some (inner, rest) \<Rightarrow> is_env_name (hd (split_char 58 inner)) \<or> cmd_expands rest))"
  by pat_completeness auto
termination
  by (relation "measure length") (auto dest!: split_once_shorter)

declare cmd_expands.simps [simp del]

definition cmd_word :: "rstr \<Rightarrow> bool \<Rightarrow> rstr option" where
  "cmd_word word windows_cmd = (if windows_cmd \<and> cmd_expands word then None else Some word)"

section \<open>Redirect targets\<close>

definition ends_bare_target :: "rchar \<Rightarrow> bool" where
  "ends_bare_target c \<longleftrightarrow> is_whitespace c \<or> c \<in> set [38, 124, 59, 60, 62]"

fun read_target :: "bool \<Rightarrow> rchar option \<Rightarrow> rstr \<Rightarrow> rstr \<times> rstr" where
  "read_target win delim [] = ([], [])"
| "read_target win delim (c # cs) =
     (if delim = Some c \<or> (delim = None \<and> ends_bare_target c) then ([], c # cs)
      else if win \<and> delim = None \<and> c = 94 then
        (case cs of
           [] \<Rightarrow> ([], [])
         | e # es \<Rightarrow> apfst (Cons e) (read_target win delim es))
      else apfst (Cons c) (read_target win delim cs))"

lemma read_target_shorter: "length (snd (read_target win delim s)) \<le> length s"
proof (induction s rule: length_induct)
  case (1 s)
  show ?case
  proof (cases s)
    case (Cons c cs)
    have ih: "length (snd (read_target win delim t)) \<le> length cs" if "length t \<le> length cs" for t
      using 1 that Cons by (metis le_imp_less_Suc length_Cons order_trans)
    have esc: "length (snd (case cs of [] \<Rightarrow> ([], []) | e # es \<Rightarrow> apfst (Cons e) (read_target win delim es)))
        \<le> length cs"
      using ih [of "tl cs"] by (cases cs) simp_all
    show ?thesis
      unfolding Cons read_target.simps(2) using esc ih [of cs] by (simp add: le_SucI del: read_target.simps)
  qed simp
qed

definition opens_quote :: "bool \<Rightarrow> rchar \<Rightarrow> bool" where
  "opens_quote win c \<longleftrightarrow> c = 34 \<or> (\<not> win \<and> c = 39)"

text \<open>After the operator \<open>ch\<close>: None for a duplicated descriptor, with the rest of the
  script, or the target and the rest.\<close>

definition redirect_target :: "bool \<Rightarrow> rchar \<Rightarrow> rstr \<Rightarrow> rstr option \<times> rstr" where
  "redirect_target win ch cs =
     (let r1 = dropWhile (\<lambda>n. n = ch \<or> is_whitespace n) cs
      in if r1 \<noteq> [] \<and> hd r1 = 38 then (None, tl r1)
         else if r1 \<noteq> [] \<and> opens_quote win (hd r1) then
           (let (t, r) = read_target win (Some (hd r1)) (tl r1) in (Some t, drop 1 r))
         else (let (t, r) = read_target win None r1 in (Some t, r)))"

lemma redirect_target_shorter: "length (snd (redirect_target win ch cs)) \<le> length cs"
proof -
  define r1 where "r1 = dropWhile (\<lambda>n. n = ch \<or> is_whitespace n) cs"
  have r1: "length r1 \<le> length cs" by (simp add: r1_def length_dropWhile_le)
  have "length (tl r1) \<le> length cs" using r1 by (cases r1) auto
  then show ?thesis
    using r1 read_target_shorter [of win "Some (hd r1)" "tl r1"] read_target_shorter [of win None r1]
    by (auto simp: redirect_target_def Let_def r1_def [symmetric] split: prod.splits)
qed

definition std_device :: "rstr \<Rightarrow> bool" where
  "std_device t = one_of [''/dev/null'', ''/dev/stdout'', ''/dev/stderr''] t"

text \<open>A literal target outside the working directory, with the shared temporary
  directories, which the host knows, as a parameter.\<close>

definition fallback_target_dangerous :: "(rstr \<Rightarrow> bool) \<Rightarrow> rstr \<Rightarrow> bool" where
  "fallback_target_dangerous temp t =
     (if std_device t then False
      else if list_ex (\<lambda>seg. seg = lit ''..'') (split_on is_path_sep t) then True
      else if temp t then False
      else starts_with (lit ''/'') t \<or> starts_with [92] t
           \<or> (case t of a # b # _ \<Rightarrow> a < 128 \<and> b = 58 | _ \<Rightarrow> False))"

function redirect_scan :: "(rstr \<Rightarrow> bool) \<Rightarrow> bool \<Rightarrow> rchar option \<Rightarrow> rstr \<Rightarrow> bool" where
  "redirect_scan temp win quote [] = False"
| "redirect_scan temp win (Some d) (c # cs) =
     redirect_scan temp win (if c = d then None else Some d) cs"
| "redirect_scan temp win None (c # cs) =
     (if win \<and> c = 94 then redirect_scan temp win None (drop 1 cs)
      else if opens_quote win c then redirect_scan temp win (Some c) cs
      else if c \<noteq> 62 \<and> c \<noteq> 60 then redirect_scan temp win None cs
      else (case fst (redirect_target win c cs) of
              None \<Rightarrow> False | Some t \<Rightarrow> fallback_target_dangerous temp t)
           \<or> redirect_scan temp win None (snd (redirect_target win c cs)))"
  by pat_completeness auto
termination
  by (relation "measure (\<lambda>(_, _, _, s). length s)") (auto simp: le_imp_less_Suc redirect_target_shorter)

definition fallback_redirect_is_dangerous :: "(rstr \<Rightarrow> bool) \<Rightarrow> rstr \<Rightarrow> bool \<Rightarrow> bool" where
  "fallback_redirect_is_dangerous temp script windows_cmd = redirect_scan temp windows_cmd None script"

section \<open>Nested scripts are shorter\<close>

definition weight :: "rstr list \<Rightarrow> nat" where
  "weight ws = sum_list (map (\<lambda>w. Suc (length w)) ws)"

lemma weight_simps [simp]:
  "weight [] = 0" "weight (w # ws) = Suc (length w) + weight ws" "weight (a @ b) = weight a + weight b"
  by (simp_all add: weight_def)

lemma weight_split_on: "weight (split_on p s) = Suc (length s)"
proof (induction s)
  case (Cons c s)
  then show ?case by (cases "split_on p s") auto
qed simp

lemma weight_filter: "weight (filter p ws) \<le> weight ws"
  by (induction ws) auto

lemma weight_map: "(\<And>w. length (f w) \<le> length w) \<Longrightarrow> weight (map f ws) \<le> weight ws"
  by (induction ws) (auto intro: add_mono)

lemma length_trim_quotes: "length (trim_quotes t) \<le> length t"
proof -
  have "length (trim_end_matches p u) \<le> length u" for p and u :: rstr
    by (simp add: trim_end_matches_def) (metis length_dropWhile_le length_rev)
  then show ?thesis unfolding trim_quotes_def
    by (metis trim_start_matches_def length_dropWhile_le order_trans)
qed

lemma weight_shell_tokens: "weight (shell_tokens s) \<le> Suc (length s)"
proof -
  have "weight (shell_tokens s) \<le> weight (map trim_quotes (split_whitespace s))"
    by (simp add: shell_tokens_def weight_filter)
  also have "\<dots> \<le> weight (split_whitespace s)" by (rule weight_map) (rule length_trim_quotes)
  also have "\<dots> \<le> weight (split_on is_whitespace s)" by (simp add: split_whitespace_def weight_filter)
  finally show ?thesis by (simp add: weight_split_on)
qed

lemma length_join_blank: "xs \<noteq> [] \<Longrightarrow> Suc (length (join [c] xs)) = weight xs"
  by (induction "[c]" xs rule: join.induct) auto

lemma length_trim: "length (trim s) \<le> length s"
proof -
  obtain a b where "s = a @ trim s @ b" using trim_decomp by blast
  then show ?thesis by (metis length_append le_add1 le_add2 order_trans)
qed

lemma push_segment_bound:
  "\<forall>g \<in> set segs. length g \<le> n \<Longrightarrow> length cur \<le> n \<Longrightarrow> \<forall>g \<in> set (push_segment segs cur). length g \<le> n"
proof -
  assume segs: "\<forall>g \<in> set segs. length g \<le> n" and cur: "length cur \<le> n"
  have "length (trim cur) \<le> n" using length_trim [of cur] cur by (rule order_trans)
  with segs show ?thesis by (simp add: push_segment_def)
qed

lemma segment_loop_bound:
  "\<forall>g \<in> set segs. length g \<le> n \<Longrightarrow> length cur + length s \<le> n \<Longrightarrow>
     \<forall>g \<in> set (segment_loop s quote cur segs). length g \<le> n"
proof (induction s quote cur segs rule: segment_loop.induct)
  case (1 quote cur segs)
  then show ?case using push_segment_bound [of segs n cur] by simp
next
  case (2 c cs q cur segs)
  then show ?case by simp
next
  case (3 c cs cur segs)
  note len = 3(5)
  consider "is_quote c" | "\<not> is_quote c" "c = 124 \<or> c = 38 \<or> c = 59 \<or> c = 10"
    | "\<not> is_quote c" "\<not> (c = 124 \<or> c = 38 \<or> c = 59 \<or> c = 10)" by blast
  then show ?case
  proof cases
    case 1
    then show ?thesis using 3(1) [OF 1 3(4)] len by simp
  next
    case 2
    have "\<forall>g \<in> set (push_segment segs cur). length g \<le> n"
      using push_segment_bound [OF 3(4), of cur] len by simp
    then show ?thesis using 3(2) [OF 2] 2 len by simp
  next
    case 3
    then show ?thesis using "3.IH"(3) [OF 3 "3.prems"(1)] len by simp
  qed
qed

lemma segment_shorter: "g \<in> set (split_shell_segments s) \<Longrightarrow> length g \<le> length s"
  using segment_loop_bound [of "[]" "length s" "[]" s None] by (auto simp: split_shell_segments_def)

lemma nested_body_shorter:
  assumes "g \<in> set (split_shell_segments s)" and "nested_shell_c_body (shell_tokens g) = Some inner"
  shows "length inner < length s"
proof -
  from assms(2) obtain prog rest f ws where
    tok: "shell_tokens g = prog # rest" and
    dw: "dropWhile (\<lambda>a. \<not> is_shell_c_flag a) rest = f # ws" and
    inner: "inner = join (lit '' '') ws" "inner \<noteq> []"
    by (auto simp: nested_shell_c_body_def Let_def split: list.splits if_splits)
  have "ws \<noteq> []" using inner by auto
  have rest: "rest = takeWhile (\<lambda>a. \<not> is_shell_c_flag a) rest @ f # ws" using dw by (metis takeWhile_dropWhile_id)
  have "weight rest = weight (takeWhile (\<lambda>a. \<not> is_shell_c_flag a) rest) + Suc (length f) + weight ws"
    using arg_cong [OF rest, of weight] by simp
  moreover have "Suc (length inner) = weight ws"
    using length_join_blank [OF \<open>ws \<noteq> []\<close>] inner(1) by (simp add: lit_def)
  moreover have "weight (prog # rest) \<le> Suc (length g)" using weight_shell_tokens [of g] tok by simp
  ultimately have "length inner < length g" by simp
  then show ?thesis using segment_shorter [OF assms(1)] by simp
qed

end
