(* ===== verification/Shell_Ast.thy ===== *)
theory Shell_Ast
  imports Shell_Words
begin

text \<open>
  The danger classification of a command (leveler-execution: shell_ast.rs and
  approval.rs).  The bash grammar is third-party code: \<open>sh_parse\<close> is the parse of a
  script, None when the script does not parse cleanly, and the walk reads of a node
  what the code reads (kind, text, named, field, children).  Which directories are
  shared temporary ones is the host's (\<open>sh_shared_temp\<close>).  A script nested in a
  \<open>-c\<close> argument is parsed again, so the walk takes fuel, one unit per level of
  nesting; \<open>Shell_Ast_Correct\<close> shows that the length of the script is enough.
\<close>

section \<open>Syntax trees\<close>

datatype node =
  Node (nd_kind: rstr) (nd_text: rstr) (nd_named: bool) (nd_field: "rstr option") (nd_children: "node list")

record shell_host =
  sh_parse :: "rstr \<Rightarrow> node option"
  sh_shared_temp :: "rstr \<Rightarrow> bool"

definition is_kind :: "string \<Rightarrow> node \<Rightarrow> bool" where
  "is_kind k n = (nd_kind n = lit k)"

definition named_children :: "node \<Rightarrow> node list" where
  "named_children n = filter nd_named (nd_children n)"

definition child_by_field_name :: "string \<Rightarrow> node \<Rightarrow> node option" where
  "child_by_field_name f n = find (\<lambda>c. nd_field c = Some (lit f)) (nd_children n)"

definition children_by_field_name :: "string \<Rightarrow> node \<Rightarrow> node list" where
  "children_by_field_name f n = filter (\<lambda>c. nd_field c = Some (lit f)) (nd_children n)"

section \<open>Literals\<close>

definition strip_quotes :: "rstr \<Rightarrow> rstr" where
  "strip_quotes t =
     (if length t \<ge> 2 \<and> hd t < 128 \<and> last t < 128 then butlast (tl t) else t)"

definition resolve_literal :: "node \<Rightarrow> rstr option" where
  "resolve_literal n =
     (if one_of [''word'', ''number''] (nd_kind n) then
        (if 92 \<in> set (nd_text n) then None else Some (nd_text n))
      else if is_kind ''raw_string'' n then Some (strip_quotes (nd_text n))
      else if is_kind ''string'' n then
        (if list_all (is_kind ''string_content'') (named_children n)
         then Some (strip_quotes (nd_text n)) else None)
      else None)"

definition resolve_command_name :: "node \<Rightarrow> rstr option" where
  "resolve_command_name n =
     (case named_children n of [c] \<Rightarrow> resolve_literal c | _ \<Rightarrow> None)"

definition literal_arguments :: "node \<Rightarrow> rstr option list" where
  "literal_arguments cmd = map resolve_literal (children_by_field_name ''argument'' cmd)"

definition command_changes_git_authority :: "node \<Rightarrow> bool" where
  "command_changes_git_authority cmd =
     list_ex (\<lambda>c. is_kind ''variable_assignment'' c \<and>
                  (case child_by_field_name ''name'' c of
                     None \<Rightarrow> True | Some n \<Rightarrow> git_env_changes_authority (nd_text n)))
       (nd_children cmd)"

definition env_prefixed :: "node \<Rightarrow> bool" where
  "env_prefixed cmd = list_ex (is_kind ''variable_assignment'') (nd_children cmd)"

definition git_or_shell :: "rstr \<Rightarrow> bool" where
  "git_or_shell program \<longleftrightarrow> basename program = lit ''git'' \<or> is_shell_wrapper_program program"

section \<open>Unreadable Git words\<close>

definition exec_override_arg :: "rstr \<Rightarrow> bool" where
  "exec_override_arg arg =
     list_ex (\<lambda>f. flag_or_value f arg) [''--upload-pack'', ''--receive-pack'', ''--exec'', ''--exec-path'']"

definition relocation_option :: "rstr \<Rightarrow> bool option" where
  "relocation_option arg =
     (if one_of [''-C'', ''--git-dir'', ''--work-tree'', ''--namespace''] arg then Some True
      else if list_ex (\<lambda>n. starts_with (lit (n @ ''='')) arg) [''--git-dir'', ''--work-tree'', ''--namespace'']
        then Some False
      else if attached ''-C'' arg then Some False
      else None)"

type_synonym words = "rstr option list"

text \<open>\<open>opaque_git_stays_read\<close>: the words from the subcommand on, None when an
  unreadable or unknown global came before it.\<close>

fun read_scan :: "words \<Rightarrow> words option" where
  "read_scan [] = Some []"
| "read_scan (None # rest) = None"
| "read_scan (Some arg # rest) =
     (if arg = lit ''--'' then Some rest
      else if \<not> is_option arg \<or> arg = lit ''-'' then Some (Some arg # rest)
      else case relocation_option arg of
        Some sep \<Rightarrow> if sep then (if rest = [] then None else read_scan (drop 1 rest)) else read_scan rest
      | None \<Rightarrow> if harmless_git_global arg then read_scan rest else None)"

definition opaque_git_stays_read :: "words \<Rightarrow> bool" where
  "opaque_git_stays_read args =
     (case read_scan args of
        Some (Some sub # _) \<Rightarrow> git_read_ignores_arguments sub | _ \<Rightarrow> False)"

text \<open>The globals of an opaque Git argv: None when one of them decides to ask,
  otherwise the words from the subcommand on and whether an unreadable value
  relocated the target.\<close>

fun opaque_scan :: "words \<Rightarrow> bool \<Rightarrow> (words \<times> bool) option" where
  "opaque_scan [] reloc = Some ([], reloc)"
| "opaque_scan (None # rest) reloc = None"
| "opaque_scan (Some arg # rest) reloc =
     (if arg = lit ''--'' then Some (rest, reloc)
      else if \<not> is_option arg \<or> arg = lit ''-'' then Some (Some arg # rest, reloc)
      else case relocation_option arg of
        Some sep \<Rightarrow>
          if sep then opaque_scan (drop 1 rest)
                        (reloc \<or> (case rest of None # _ \<Rightarrow> True | _ \<Rightarrow> False))
          else opaque_scan rest reloc
      | None \<Rightarrow>
          if one_of [''-c'', ''--config-env''] arg then
            (case rest of
               Some spec # rest' \<Rightarrow>
                 if config_spec_executes_program spec then None else opaque_scan rest' reloc
             | _ \<Rightarrow> None)
          else case strip_prefix (lit ''--config-env='') arg of
            Some spec \<Rightarrow> if config_spec_executes_program spec then None else opaque_scan rest reloc
          | None \<Rightarrow>
              if attached ''-c'' arg then
                (if config_spec_executes_program (drop 2 arg) then None else opaque_scan rest reloc)
              else if exec_override_arg arg \<or> \<not> harmless_git_global arg then None
              else opaque_scan rest reloc)"

definition readable :: "words \<Rightarrow> rstr list" where
  "readable args = List.map_filter id args"

definition opaque_git_security_ask :: "words \<Rightarrow> bool" where
  "opaque_git_security_ask args =
     (if opaque_git_stays_read args then False
      else case opaque_scan args False of
        Some (Some sub # rest, reloc) \<Rightarrow>
          if one_of [''fetch'', ''pull'', ''push'', ''ls-remote'', ''clone'', ''archive'', ''remote''] sub
            then reloc \<or> None \<in> set rest
          else if sub = lit ''config'' then
            None \<in> set rest \<or> git_argv_executes_local_program (lit ''git'' # readable args)
          else list_ex exec_override_arg (readable args)
      | _ \<Rightarrow> True)"

section \<open>What a command executes\<close>

record executed =
  ex_commands :: "rstr list list"
  ex_complete :: bool
  ex_shell_writes :: bool
  ex_env_prefixed :: bool

definition executed_default :: executed where
  "executed_default =
     \<lparr>ex_commands = [], ex_complete = False, ex_shell_writes = False, ex_env_prefixed = False\<rparr>"

definition redirect_writes_file :: "node \<Rightarrow> bool" where
  "redirect_writes_file r =
     (case find (\<lambda>c. \<not> nd_named c) (nd_children r) of
        None \<Rightarrow> False
      | Some operator \<Rightarrow>
          if one_of [''>'', ''>>'', ''&>'', ''&>>'', ''>|''] (nd_kind operator) then True
          else if is_kind ''>&'' operator then
            (case child_by_field_name ''destination'' r of
               None \<Rightarrow> True
             | Some d \<Rightarrow>
                 (case resolve_literal d of
                    None \<Rightarrow> True
                  | Some target \<Rightarrow> \<not> (target \<noteq> [] \<and> list_all is_ascii_digit target)))
          else False)"

text \<open>The whole tree, each node once (the walk's order does not matter for a search).\<close>

fun subtree :: "node \<Rightarrow> node list" and subtrees :: "node list \<Rightarrow> node list" where
  "subtree (Node k t nm f cs) = Node k t nm f cs # subtrees cs"
| "subtrees [] = []"
| "subtrees (c # cs) = (if nd_named c then subtree c else []) @ subtrees cs"

definition tree_writes_file :: "node \<Rightarrow> bool" where
  "tree_writes_file root =
     list_ex (\<lambda>n. is_kind ''file_redirect'' n \<and> redirect_writes_file n) (subtree root)"

definition push_command :: "rstr list \<Rightarrow> bool \<Rightarrow> executed \<Rightarrow> executed" where
  "push_command argv prefixed out =
     out\<lparr>ex_commands := ex_commands out @ [argv], ex_complete := ex_complete out \<and> \<not> prefixed\<rparr>"

definition merge_nested :: "executed \<Rightarrow> bool \<Rightarrow> executed \<Rightarrow> executed" where
  "merge_nested inner prefixed out =
     out\<lparr>ex_complete := ex_complete out \<and> ex_complete inner \<and> \<not> prefixed,
         ex_shell_writes := ex_shell_writes out \<or> ex_shell_writes inner,
         ex_env_prefixed := ex_env_prefixed out \<or> ex_env_prefixed inner,
         ex_commands := ex_commands out @ ex_commands inner\<rparr>"

text \<open>The word after the first \<open>-c\<close> flag: None when there is no such flag, otherwise
  the words that follow it.\<close>

fun after_c_flag :: "rstr list \<Rightarrow> rstr list option" where
  "after_c_flag [] = None"
| "after_c_flag (a # rest) = (if is_shell_c_flag a then Some rest else after_c_flag rest)"

definition collect_command :: "(rstr \<Rightarrow> executed) \<Rightarrow> node \<Rightarrow> executed \<Rightarrow> executed" where
  "collect_command nested cmd out =
     (case child_by_field_name ''name'' cmd of
        None \<Rightarrow> out
      | Some name \<Rightarrow>
          (case resolve_command_name name of
             None \<Rightarrow> out\<lparr>ex_complete := False\<rparr>
           | Some program \<Rightarrow>
               (let args = literal_arguments cmd;
                    prefixed = env_prefixed cmd;
                    out1 = (if command_changes_git_authority cmd \<and> git_or_shell program
                            then out\<lparr>ex_env_prefixed := True\<rparr> else out)
                in if None \<in> set args then
                     (if basename program = lit ''git'' \<and> opaque_git_stays_read args
                      then push_command (program # readable args) prefixed out1
                      else out1\<lparr>ex_complete := False\<rparr>)
                   else (let ws = readable args
                         in case (if is_shell_wrapper_program program then after_c_flag ws else None) of
                              Some [] \<Rightarrow> out1
                            | Some (body # _) \<Rightarrow> merge_nested (nested body) prefixed out1
                            | None \<Rightarrow> push_command (program # ws) prefixed out1))))"

fun collect_executed :: "(rstr \<Rightarrow> executed) \<Rightarrow> node \<Rightarrow> executed \<Rightarrow> executed"
  and collect_all :: "(rstr \<Rightarrow> executed) \<Rightarrow> node list \<Rightarrow> executed \<Rightarrow> executed" where
  "collect_executed nested (Node k t nm f cs) out =
     (if k = lit ''command'' then collect_command nested (Node k t nm f cs) out
      else collect_all nested cs out)"
| "collect_all nested [] out = out"
| "collect_all nested (c # cs) out =
     collect_all nested cs (if nd_named c then collect_executed nested c out else out)"

fun executed_fuel :: "(rstr \<Rightarrow> node option) \<Rightarrow> nat \<Rightarrow> rstr \<Rightarrow> executed" where
  "executed_fuel parse 0 script = executed_default"
| "executed_fuel parse (Suc n) script =
     (case parse script of
        None \<Rightarrow> executed_default
      | Some root \<Rightarrow>
          collect_executed (executed_fuel parse n) root
            \<lparr>ex_commands = [], ex_complete = True, ex_shell_writes = tree_writes_file root,
             ex_env_prefixed = False\<rparr>)"

definition executed_commands_in_script :: "(rstr \<Rightarrow> node option) \<Rightarrow> rstr \<Rightarrow> executed" where
  "executed_commands_in_script parse script = executed_fuel parse (Suc (length script)) script"

definition executed_commands :: "(rstr \<Rightarrow> node option) \<Rightarrow> rstr \<Rightarrow> rstr list \<Rightarrow> executed" where
  "executed_commands parse program args =
     (if is_shell_wrapper_program program then
        (case shell_c_script args of
           Some script \<Rightarrow> executed_commands_in_script parse script
         | None \<Rightarrow> executed_default)
      else \<lparr>ex_commands = [program # args], ex_complete = True, ex_shell_writes = False,
            ex_env_prefixed = False\<rparr>)"

definition executed_git_effects :: "executed \<Rightarrow> call_git_effects_rec" where
  "executed_git_effects e =
     (let c = call_git_effects (ex_commands e) (ex_complete e)
      in c\<lparr>cg_fully_git := cg_fully_git c \<and> \<not> ex_shell_writes e\<rparr>)"

section \<open>Danger verdicts\<close>

datatype command_class = Safe | Dangerous

definition git_command_class ::
  "(rstr \<Rightarrow> node option) \<Rightarrow> rstr \<Rightarrow> rstr list \<Rightarrow> command_class option" where
  "git_command_class parse program args =
     (let e = executed_commands parse program args; fx = executed_git_effects e
      in if \<not> cg_any_git fx then None
         else if list_ex (\<lambda>c. git_argv_executes_local_program c \<or> git_remote_credential_unbrokered c)
                   (ex_commands e) then Some Dangerous
         else if cg_fully_git fx then Some Safe
         else None)"

definition program_stem :: "rstr \<Rightarrow> rstr" where
  "program_stem program =
     (let lower = to_ascii_lowercase program
      in if ends_with (lit ''.exe'') lower then take (length lower - 4) lower else lower)"

definition classify_program ::
  "(rstr \<Rightarrow> node option) \<Rightarrow> rstr \<Rightarrow> rstr list \<Rightarrow> command_class" where
  "classify_program parse program args =
     (if git_command_class parse program args = Some Dangerous then Dangerous
      else if one_of DESTRUCTIVE program \<or> one_of PRIVILEGED program then
        (if deletion_targets_stay_in_workdir program args then Safe else Dangerous)
      else if one_of [''pwsh'', ''powershell'', ''fish''] (program_stem program) then Dangerous
      else if is_host_escape_program program \<and> (program = lit ''gio'' \<longrightarrow> first_is args [''open''])
        then Dangerous
      else if is_credential_store_read (program_stem program) args then Dangerous
      else Safe)"

definition redirect_target_is_dangerous :: "(rstr \<Rightarrow> bool) \<Rightarrow> node \<Rightarrow> bool" where
  "redirect_target_is_dangerous temp r =
     (case child_by_field_name ''destination'' r of
        None \<Rightarrow> False
      | Some d \<Rightarrow>
          (case resolve_literal d of
             None \<Rightarrow> False
           | Some target \<Rightarrow>
               if std_device target then False
               else if list_ex (\<lambda>seg. seg = lit ''..'') (split_char 47 target) then True
               else if temp target then False
               else starts_with (lit ''/'') target))"

text \<open>The command a heredoc of this statement is the input of.\<close>

definition heredoc_command :: "node \<Rightarrow> node option" where
  "heredoc_command stmt =
     (case child_by_field_name ''body'' stmt of
        None \<Rightarrow> None
      | Some body \<Rightarrow>
          if is_kind ''command'' body then Some body
          else if is_kind ''pipeline'' body then
            find (is_kind ''command'') (rev (named_children body))
          else None)"

definition heredoc_feeds_shell :: "node \<Rightarrow> bool" where
  "heredoc_feeds_shell stmt \<longleftrightarrow>
     list_ex (is_kind ''heredoc_redirect'') (named_children stmt) \<and>
     (case heredoc_command stmt of
        None \<Rightarrow> False
      | Some cmd \<Rightarrow>
          (case child_by_field_name ''name'' cmd of
             None \<Rightarrow> False
           | Some name \<Rightarrow>
               (case resolve_command_name name of
                  None \<Rightarrow> False | Some prog \<Rightarrow> is_shell_wrapper_program prog)))"

text \<open>The words after the first \<open>-c\<close> word of a wrapper's arguments.\<close>

fun after_c_word :: "words \<Rightarrow> words option" where
  "after_c_word [] = None"
| "after_c_word (a # rest) =
     (if (case a of None \<Rightarrow> False | Some w \<Rightarrow> is_shell_c_flag w) then Some rest else after_c_word rest)"

definition classify_argv :: "(rstr \<Rightarrow> node option) \<Rightarrow> rstr \<Rightarrow> words \<Rightarrow> command_class" where
  "classify_argv parse program args =
     (let opaque = (None \<in> set args);
          verdict = classify_program parse (basename program) (readable args)
      in if opaque \<and> one_of [''rm'', ''rmdir''] (basename program) then Dangerous
         else if opaque \<and> verdict = Safe \<and> basename program = lit ''git''
                 \<and> opaque_git_security_ask args then Dangerous
         else verdict)"

definition classify_command_node ::
  "(rstr \<Rightarrow> node option) \<Rightarrow> (rstr \<Rightarrow> command_class option) \<Rightarrow> node \<Rightarrow> command_class option" where
  "classify_command_node parse nested cmd =
     (case child_by_field_name ''name'' cmd of
        None \<Rightarrow> None
      | Some name \<Rightarrow>
          (case resolve_command_name name of
             None \<Rightarrow> Some Dangerous
           | Some program \<Rightarrow>
               (let args = literal_arguments cmd
                in if command_changes_git_authority cmd \<and> git_or_shell program then Some Dangerous
                   else case (if is_shell_wrapper_program program then after_c_word args else None) of
                     Some (None # _) \<Rightarrow> Some Dangerous
                   | Some [Some body] \<Rightarrow> nested body
                   | Some (Some body # _ # _) \<Rightarrow> None
                   | _ \<Rightarrow> Some (classify_argv parse program args))))"

definition visit_node :: "shell_host \<Rightarrow> (rstr \<Rightarrow> command_class option) \<Rightarrow> node \<Rightarrow> command_class option" where
  "visit_node h nested n =
     (if is_kind ''command'' n then classify_command_node (sh_parse h) nested n
      else if is_kind ''file_redirect'' n then
        Some (if redirect_target_is_dangerous (sh_shared_temp h) n then Dangerous else Safe)
      else if is_kind ''redirected_statement'' n then
        Some (if heredoc_feeds_shell n then Dangerous else Safe)
      else Some Safe)"

lemma size_named_children:
  "size_list size (rev (named_children n) @ stack) < size_list size (n # stack)"
proof (cases n)
  case (Node k t nm f cs)
  have "size_list size (filter nd_named cs) \<le> size_list size cs" by (induction cs) auto
  moreover have "size_list size (rev xs @ ys) = size_list size xs + size_list size ys" for xs ys :: "node list"
    by (induction xs arbitrary: ys) auto
  ultimately show ?thesis using Node by (simp add: named_children_def)
qed

text \<open>The explicit stack: its top is the head of the list, and the children go on it
  so that the last is on top.\<close>

function walk_stack ::
  "shell_host \<Rightarrow> (rstr \<Rightarrow> command_class option) \<Rightarrow> node list \<Rightarrow> command_class option" where
  "walk_stack h nested [] = Some Safe"
| "walk_stack h nested (n # stack) =
     (case visit_node h nested n of
        None \<Rightarrow> None
      | Some Dangerous \<Rightarrow> Some Dangerous
      | Some Safe \<Rightarrow> walk_stack h nested (rev (named_children n) @ stack))"
  by pat_completeness auto
termination
  by (relation "measure (\<lambda>(_, _, stack). size_list size stack)")
    (use size_named_children in auto)

fun bash_fuel :: "shell_host \<Rightarrow> nat \<Rightarrow> rstr \<Rightarrow> command_class option" where
  "bash_fuel h 0 script = None"
| "bash_fuel h (Suc n) script =
     (case sh_parse h script of None \<Rightarrow> None | Some root \<Rightarrow> walk_stack h (bash_fuel h n) [root])"

definition classify_bash_script :: "shell_host \<Rightarrow> rstr \<Rightarrow> command_class option" where
  "classify_bash_script h script = bash_fuel h (Suc (length script)) script"

section \<open>The text fallback\<close>

definition segment_is_dangerous :: "shell_host \<Rightarrow> bool \<Rightarrow> rstr list \<Rightarrow> bool" where
  "segment_is_dangerous h win tokens =
     (if segment_changes_git_authority tokens then True
      else case tokens of
        [] \<Rightarrow> False
      | program # rest \<Rightarrow>
          if cmd_word program win = None then True
          else (let ws = map (\<lambda>w. cmd_word w win) rest; opaque = (None \<in> set ws);
                    base = basename program
                in (opaque \<and> one_of [''rm'', ''rmdir''] base)
                   \<or> classify_program (sh_parse h) base (readable ws) = Dangerous
                   \<or> (opaque \<and> base = lit ''git'' \<and> opaque_git_security_ask ws)))"

function classify_shell_script_fallback :: "shell_host \<Rightarrow> bool \<Rightarrow> rstr \<Rightarrow> command_class" where
  "classify_shell_script_fallback h win script =
     (if fallback_redirect_is_dangerous (sh_shared_temp h) script win then Dangerous
      else if contains (lit ''$('') script \<or> 96 \<in> set script then Dangerous
      else if list_ex (\<lambda>g.
          case nested_shell_c_body (shell_tokens g) of
            Some inner \<Rightarrow>
              (case classify_bash_script h inner of
                 Some c \<Rightarrow> c | None \<Rightarrow> classify_shell_script_fallback h False inner) = Dangerous
          | None \<Rightarrow> segment_is_dangerous h win (shell_tokens g)) (split_shell_segments script)
        then Dangerous
      else Safe)"
  by pat_completeness auto
termination
  by (relation "measure (\<lambda>(_, _, s). length s)") (auto dest: nested_body_shorter)

declare classify_shell_script_fallback.simps [simp del]

definition classify_shell_script :: "shell_host \<Rightarrow> rstr \<Rightarrow> command_class" where
  "classify_shell_script h script =
     (case classify_bash_script h script of
        Some c \<Rightarrow> c | None \<Rightarrow> classify_shell_script_fallback h False script)"

section \<open>The command\<close>

definition classify_command :: "shell_host \<Rightarrow> rstr \<Rightarrow> rstr list \<Rightarrow> command_class" where
  "classify_command h program args =
     (if git_command_class (sh_parse h) program args = Some Dangerous then Dangerous
      else case (if is_shell_wrapper_program program then shell_c_script args else None) of
        Some script \<Rightarrow>
          if is_cmd_exe (basename program) then classify_shell_script_fallback h True script
          else classify_shell_script h script
      | None \<Rightarrow> classify_program (sh_parse h) (basename program) args)"

definition opens_on_host :: "rstr \<Rightarrow> rstr list \<Rightarrow> bool" where
  "opens_on_host base rest \<longleftrightarrow>
     is_host_escape_program base \<and> (base = lit ''gio'' \<longrightarrow> first_is rest [''open''])"

function shell_script_needs_host_escape :: "rstr \<Rightarrow> bool" where
  "shell_script_needs_host_escape script =
     list_ex (\<lambda>g.
        case nested_shell_c_body (shell_tokens g) of
          Some inner \<Rightarrow> shell_script_needs_host_escape inner
        | None \<Rightarrow> (case shell_tokens g of [] \<Rightarrow> False
                   | prog # rest \<Rightarrow> opens_on_host (basename prog) rest)) (split_shell_segments script)"
  by pat_completeness auto
termination
  by (relation "measure length") (auto dest: nested_body_shorter)

declare shell_script_needs_host_escape.simps [simp del]

definition command_needs_host_escape :: "rstr \<Rightarrow> rstr list \<Rightarrow> bool" where
  "command_needs_host_escape program args =
     (case (if is_shell_wrapper_program program then shell_c_script args else None) of
        Some script \<Rightarrow> shell_script_needs_host_escape script
      | None \<Rightarrow> opens_on_host (basename program) args)"

definition first_arg :: "rstr list \<Rightarrow> rstr option" where
  "first_arg args = (case args of [] \<Rightarrow> None | a # _ \<Rightarrow> Some a)"

function shell_script_has_remote_publish :: "rstr \<Rightarrow> bool" where
  "shell_script_has_remote_publish script =
     list_ex (\<lambda>g.
        case nested_shell_c_body (shell_tokens g) of
          Some inner \<Rightarrow> shell_script_has_remote_publish inner
        | None \<Rightarrow> (case shell_tokens g of [] \<Rightarrow> False
                   | prog # rest \<Rightarrow> is_remote_publish_program (basename prog) (first_arg rest)))
       (split_shell_segments script)"
  by pat_completeness auto
termination
  by (relation "measure length") (auto dest: nested_body_shorter)

declare shell_script_has_remote_publish.simps [simp del]

definition is_remote_publish_command :: "rstr \<Rightarrow> rstr list \<Rightarrow> bool" where
  "is_remote_publish_command program args =
     (case (if is_shell_wrapper_program program then shell_c_script args else None) of
        Some script \<Rightarrow> shell_script_has_remote_publish script
      | None \<Rightarrow> is_remote_publish_program (basename program) (first_arg args))"

function script_is_destructive :: "rstr \<Rightarrow> bool" where
  "script_is_destructive script =
     list_ex (\<lambda>g.
        case nested_shell_c_body (shell_tokens g) of
          Some inner \<Rightarrow> script_is_destructive inner
        | None \<Rightarrow> (case shell_tokens g of [] \<Rightarrow> False
                   | prog # _ \<Rightarrow> one_of DESTRUCTIVE (basename prog))) (split_shell_segments script)"
  by pat_completeness auto
termination
  by (relation "measure length") (auto dest: nested_body_shorter)

declare script_is_destructive.simps [simp del]

definition command_is_destructive :: "shell_host \<Rightarrow> rstr \<Rightarrow> rstr list \<Rightarrow> bool" where
  "command_is_destructive h program args \<longleftrightarrow>
     one_of DESTRUCTIVE (basename program)
     \<or> ge_irreversible (cg_effects (executed_git_effects (executed_commands (sh_parse h) program args)))
     \<or> (is_shell_wrapper_program program \<and>
        (case shell_c_script args of Some script \<Rightarrow> script_is_destructive script | None \<Rightarrow> False))"

section \<open>What a zero exit proves\<close>

fun readable_argv :: "words \<Rightarrow> rstr list option" where
  "readable_argv [] = Some []"
| "readable_argv (None # ws) = None"
| "readable_argv (Some w # ws) = map_option (Cons w) (readable_argv ws)"

definition proven_command :: "node \<Rightarrow> rstr list option" where
  "proven_command n =
     (if list_ex (\<lambda>c. one_of [''file_redirect'', ''heredoc_redirect'', ''variable_assignment''] (nd_kind c))
           (nd_children n) then None
      else case child_by_field_name ''name'' n of
        None \<Rightarrow> None
      | Some name \<Rightarrow>
          (case resolve_command_name name of
             None \<Rightarrow> None
           | Some program \<Rightarrow> map_option (Cons program) (readable_argv (literal_arguments n))))"

text \<open>The operators of a list: \<open>&&\<close> seen, and none of the others.\<close>

definition and_only :: "node \<Rightarrow> bool" where
  "and_only n \<longleftrightarrow>
     list_ex (is_kind ''&&'') (nd_children n) \<and>
     \<not> list_ex (\<lambda>c. one_of [''||'', ''&'', '';''] (nd_kind c)) (nd_children n)"

lemma named_child_smaller: "named_children n = l # r # rest \<Longrightarrow> size l < size n \<and> size r < size n"
proof -
  assume "named_children n = l # r # rest"
  then have "set (l # r # rest) \<subseteq> set (nd_children n)"
    by (metis filter_is_subset named_children_def)
  then have "l \<in> set (nd_children n)" "r \<in> set (nd_children n)" by auto
  moreover have "size c \<le> size_list size cs" if "c \<in> set cs" for c :: node and cs
    using that by (rule size_list_estimation') simp
  ultimately show ?thesis by (cases n) (fastforce simp: less_Suc_eq_le)
qed

function collect_proven :: "node \<Rightarrow> rstr list list option" where
  "collect_proven n =
     (if is_kind ''command'' n then map_option (\<lambda>c. [c]) (proven_command n)
      else if is_kind ''list'' n \<and> and_only n then
        (case named_children n of
           l # r # _ \<Rightarrow>
             (case (collect_proven l, collect_proven r) of
                (Some a, Some b) \<Rightarrow> Some (a @ b) | _ \<Rightarrow> None)
         | _ \<Rightarrow> None)
      else None)"
  by pat_completeness auto
termination
  by (relation "measure size") (auto dest: named_child_smaller)

declare collect_proven.simps [simp del]

definition proven_commands :: "(rstr \<Rightarrow> node option) \<Rightarrow> rstr \<Rightarrow> rstr list list" where
  "proven_commands parse script =
     (case parse script of
        None \<Rightarrow> []
      | Some root \<Rightarrow>
          (case named_children root of
             [only] \<Rightarrow>
               if list_ex (is_kind ''&'') (nd_children root) then []
               else (case collect_proven only of None \<Rightarrow> [] | Some cs \<Rightarrow> cs)
           | _ \<Rightarrow> []))"

definition proven_executed_commands :: "(rstr \<Rightarrow> node option) \<Rightarrow> rstr \<Rightarrow> rstr list \<Rightarrow> rstr list list" where
  "proven_executed_commands parse program args =
     (if is_shell_wrapper_program program then
        (case shell_c_script args of Some script \<Rightarrow> proven_commands parse script | None \<Rightarrow> [])
      else [program # args])"

end
