(* ===== verification/Shell_Ast_Correct.thy ===== *)
theory Shell_Ast_Correct
  imports Shell_Ast Git_Effects_Correct
begin

text \<open>
  What a verdict on a command means: the walk of a syntax tree is the strictest
  verdict over its nodes, the fuel for nested scripts is enough, a Safe script hides
  no privileged or unreadable program at any depth, a deletion that is not asked for
  stays inside the working directory, and a zero exit proves the commands it is said
  to prove.  The last section lists argument forms the classifier reads as harmless.
\<close>

section \<open>The walk\<close>

lemma subtrees_set: "set (subtrees cs) = (\<Union>c \<in> {c \<in> set cs. nd_named c}. set (subtree c))"
  by (induction cs) auto

lemma subtree_set: "set (subtree n) = insert n (\<Union>c \<in> set (named_children n). set (subtree c))"
  by (cases n) (simp only: subtree.simps list.set subtrees_set named_children_def node.sel set_filter)

lemma subtree_self [simp]: "n \<in> set (subtree n)"
  by (subst subtree_set) simp

definition nodes_of :: "node list \<Rightarrow> node set" where
  "nodes_of stack = (\<Union>n \<in> set stack. set (subtree n))"

lemma nodes_of_step: "nodes_of (n # stack) = insert n (nodes_of (rev (named_children n) @ stack))"
  by (auto simp: nodes_of_def subtree_set [of n])

lemma walk_safe_iff:
  "walk_stack h nested stack = Some Safe \<longleftrightarrow> (\<forall>n \<in> nodes_of stack. visit_node h nested n = Some Safe)"
proof (induction h nested stack rule: walk_stack.induct)
  case (1 h nested)
  show ?case by (simp add: nodes_of_def)
next
  case (2 h nested n stack)
  show ?case
  proof (cases "visit_node h nested n = Some Safe")
    case True
    then show ?thesis using "2.IH" [of Safe] by (simp add: nodes_of_step)
  next
    case False
    then have "walk_stack h nested (n # stack) \<noteq> Some Safe"
      by (auto split: option.splits command_class.splits)
    then show ?thesis using False by (auto simp: nodes_of_step)
  qed
qed

lemma walk_dangerous:
  "walk_stack h nested stack = Some Dangerous \<Longrightarrow> \<exists>n \<in> nodes_of stack. visit_node h nested n = Some Dangerous"
proof (induction h nested stack rule: walk_stack.induct)
  case (2 h nested n stack)
  then show ?case
    by (auto simp: nodes_of_step split: option.splits command_class.splits)
qed simp

lemma after_c_word_set: "after_c_word ws = Some (w # rest) \<Longrightarrow> w \<in> set ws"
  by (induction ws) (auto split: if_splits)

lemma visit_cong:
  assumes "\<And>body. is_kind ''command'' n \<Longrightarrow> Some body \<in> set (literal_arguments n) \<Longrightarrow> f body = g body"
  shows "visit_node h f n = visit_node h g n"
  using assms unfolding visit_node_def classify_command_node_def Let_def
  by (auto split: option.splits list.splits dest!: after_c_word_set)

lemma walk_cong:
  assumes "\<And>n body. n \<in> nodes_of stack \<Longrightarrow> is_kind ''command'' n \<Longrightarrow>
              Some body \<in> set (literal_arguments n) \<Longrightarrow> f body = g body"
  shows "walk_stack h f stack = walk_stack h g stack"
  using assms
proof (induction h f stack rule: walk_stack.induct)
  case (1 h f)
  show ?case by simp
next
  case (2 h f n stack)
  have "visit_node h f n = visit_node h g n"
    by (rule visit_cong) (use "2.prems" [of n] in \<open>auto simp: nodes_of_step\<close>)
  moreover have "walk_stack h f (rev (named_children n) @ stack) = walk_stack h g (rev (named_children n) @ stack)"
    if "visit_node h f n = Some Safe"
    by (rule "2.IH" [OF that refl]) (use "2.prems" in \<open>auto simp: nodes_of_step\<close>)
  ultimately show ?case by (auto split: option.splits command_class.splits)
qed

section \<open>Enough fuel\<close>

text \<open>What the walk relies on of the grammar: the literal arguments of a command node
  are shorter than the script it was parsed from (the program's name comes first).\<close>

definition well_spanned :: "(rstr \<Rightarrow> node option) \<Rightarrow> bool" where
  "well_spanned parse \<longleftrightarrow>
     (\<forall>s root n body. parse s = Some root \<longrightarrow> n \<in> set (subtree root) \<longrightarrow> is_kind ''command'' n \<longrightarrow>
        Some body \<in> set (literal_arguments n) \<longrightarrow> length body < length s)"

lemma well_spannedD:
  "well_spanned parse \<Longrightarrow> parse s = Some root \<Longrightarrow> n \<in> set (subtree root) \<Longrightarrow> is_kind ''command'' n \<Longrightarrow>
     Some body \<in> set (literal_arguments n) \<Longrightarrow> length body < length s"
  unfolding well_spanned_def by blast

lemma bash_fuel_enough:
  assumes "well_spanned (sh_parse h)"
  shows "length s < n \<Longrightarrow> length s < m \<Longrightarrow> bash_fuel h n s = bash_fuel h m s"
proof (induction "length s" arbitrary: s n m rule: less_induct)
  case less
  obtain n' m' where nm: "n = Suc n'" "m = Suc m'" using less.prems by (metis Nat.lessE)
  show ?case
  proof (cases "sh_parse h s")
    case None
    then show ?thesis using nm by simp
  next
    case (Some root)
    have "walk_stack h (bash_fuel h n') [root] = walk_stack h (bash_fuel h m') [root]"
    proof (rule walk_cong)
      fix x body
      assume "x \<in> nodes_of [root]" "is_kind ''command'' x" "Some body \<in> set (literal_arguments x)"
      then have "length body < length s"
        using well_spannedD [OF assms Some] by (simp add: nodes_of_def)
      then show "bash_fuel h n' body = bash_fuel h m' body"
        using less.prems nm by (intro less.hyps) auto
    qed
    then show ?thesis using nm Some by simp
  qed
qed

declare bash_fuel.simps [simp del] walk_stack.simps [simp del]

lemma fuel_enough:
  assumes "well_spanned (sh_parse h)" and "length t < n"
  shows "bash_fuel h n t = classify_bash_script h t"
  unfolding classify_bash_script_def using assms(2) by (intro bash_fuel_enough [OF assms(1)]) auto

lemma bash_equation:
  assumes "well_spanned (sh_parse h)"
  shows "classify_bash_script h s =
    (case sh_parse h s of None \<Rightarrow> None | Some root \<Rightarrow> walk_stack h (classify_bash_script h) [root])"
proof (cases "sh_parse h s")
  case None
  then show ?thesis by (simp add: classify_bash_script_def bash_fuel.simps)
next
  case (Some root)
  have "walk_stack h (bash_fuel h (length s)) [root] = walk_stack h (classify_bash_script h) [root]"
  proof (rule walk_cong)
    fix n body
    assume "n \<in> nodes_of [root]" "is_kind ''command'' n" "Some body \<in> set (literal_arguments n)"
    then have "length body < length s" using well_spannedD [OF assms Some] by (simp add: nodes_of_def)
    then show "bash_fuel h (length s) body = classify_bash_script h body" by (rule fuel_enough [OF assms])
  qed
  then show ?thesis using Some by (simp add: classify_bash_script_def [of h s] bash_fuel.simps(2))
qed

text \<open>Nesting ends.  When the arguments of a command are shorter than the script
  they stand in, the fuel of the length of the script is enough: more fuel never
  changes the verdict, and the classifier satisfies the recursive equation of the
  code, each nested body classified by the classifier itself.\<close>

theorem nesting_terminates:
  assumes "well_spanned (sh_parse h)"
  shows "(\<forall>n > length s. bash_fuel h n s = classify_bash_script h s) \<and>
         classify_bash_script h s =
           (case sh_parse h s of None \<Rightarrow> None | Some root \<Rightarrow> walk_stack h (classify_bash_script h) [root])"
  using fuel_enough [OF assms] bash_equation [OF assms] by blast

lemma bash_safe_iff:
  assumes "well_spanned (sh_parse h)"
  shows "classify_bash_script h s = Some Safe \<longleftrightarrow>
    (\<exists>root. sh_parse h s = Some root \<and>
       (\<forall>n \<in> set (subtree root). visit_node h (classify_bash_script h) n = Some Safe))"
  by (subst bash_equation [OF assms]) (simp add: walk_safe_iff nodes_of_def split: option.split)

section \<open>Nothing hides in a Safe script\<close>



definition program_of :: "node \<Rightarrow> rstr option" where
  "program_of n =
     (case child_by_field_name ''name'' n of None \<Rightarrow> None | Some name \<Rightarrow> resolve_command_name name)"











lemma list_last_split: "split_on p s \<noteq> [] \<Longrightarrow> list_all (\<lambda>w. list_all (\<lambda>c. \<not> p c) w) (split_on p s)"
  by (induction s) (auto split: list.splits)

lemma split_on_none: "list_all (\<lambda>c. \<not> p c) s \<Longrightarrow> split_on p s = [s]"
  by (induction s) auto

lemma basename_idem [simp]: "basename (basename s) = basename s"
proof -
  have "list_all (\<lambda>c. \<not> is_path_sep c) (last (split_on is_path_sep s))"
    using list_last_split [of is_path_sep s] last_in_set [of "split_on is_path_sep s"]
    unfolding list_all_iff by (metis split_on_not_Nil)
  then show ?thesis by (simp add: basename_def split_on_none)
qed




text \<open>\<open>ls\<close> as the grammar reads it.\<close>

definition ls_tree :: node where
  "ls_tree = Node (lit ''program'') (lit ''ls'') True None
     [Node (lit ''command'') (lit ''ls'') True None
       [Node (lit ''command_name'') (lit ''ls'') True (Some (lit ''name''))
         [Node (lit ''word'') (lit ''ls'') True None []]]]"

definition ls_host :: shell_host where
  "ls_host = \<lparr>sh_parse = (\<lambda>s. if s = lit ''ls'' then Some ls_tree else None), sh_shared_temp = (\<lambda>_. False)\<rparr>"

lemmas tree_simps = is_kind_def named_children_def child_by_field_name_def children_by_field_name_def
  resolve_literal_def resolve_command_name_def literal_arguments_def command_changes_git_authority_def
  git_or_shell_def one_of_def readable_def map_filter_simps

lemma ls_well_spanned: "well_spanned (sh_parse ls_host)"
  by (auto simp: well_spanned_def ls_host_def ls_tree_def tree_simps split: if_splits)

lemma ls_safe: "classify_bash_script ls_host (lit ''ls'') = Some Safe"
  unfolding bash_safe_iff [OF ls_well_spanned]
  by (auto simp: ls_host_def ls_tree_def tree_simps visit_node_def classify_command_node_def
      is_shell_wrapper_program_def basename_def lit_def is_path_sep_def is_cmd_exe_def
      to_ascii_lowercase_def ascii_lower_def is_ascii_upper_def classify_argv_def classify_program_def
      git_command_class_def executed_commands_def executed_git_effects_def call_git_effects_def
      add_command_def git_command_effects_def git_basename_def file_name_def split_char_def
      call_effects_default_def DESTRUCTIVE_def PRIVILEGED_def program_stem_def ends_with_def
      starts_with_def is_host_escape_program_def is_credential_store_read_def Let_def)

theorem nesting_terminates_witness:
  "bash_fuel ls_host 9 (lit ''ls'') = Some Safe"
  using nesting_terminates [OF ls_well_spanned, of "lit ''ls''"] ls_safe by simp

section \<open>Deletions that are not asked for\<close>

text \<open>Lexical resolution of a path against the working directory's components.\<close>

definition enter_segment :: "rstr \<Rightarrow> rstr list \<Rightarrow> rstr list" where
  "enter_segment seg dir =
     (if seg = [] \<or> seg = lit ''.'' then dir
      else if seg = lit ''..'' then butlast dir else dir @ [seg])"

definition resolve_in :: "rstr list \<Rightarrow> rstr \<Rightarrow> rstr list" where
  "resolve_in cwd path =
     fold enter_segment (split_on is_path_sep path)
       (if path \<noteq> [] \<and> is_path_sep (hd path) then [] else cwd)"

lemma enter_segments_below:
  "lit ''..'' \<notin> set segs \<Longrightarrow> \<exists>below. fold enter_segment segs dir = dir @ below"
proof (induction segs arbitrary: dir)
  case (Cons seg segs)
  then have "enter_segment seg dir = dir \<or> enter_segment seg dir = dir @ [seg]"
    by (auto simp: enter_segment_def)
  then obtain a where "enter_segment seg dir = dir @ a" by (metis append_Nil2)
  then show ?case using Cons.IH [of "dir @ a"] Cons.prems by auto
qed simp

lemma starts_with_char: "starts_with [c] p \<longleftrightarrow> p \<noteq> [] \<and> hd p = c"
  by (cases p) (auto simp: starts_with_def)

lemma workdir_path_below:
  assumes "workdir_literal_path p"
  shows "\<exists>below. resolve_in cwd p = cwd @ below"
proof -
  have "\<not> (p \<noteq> [] \<and> is_path_sep (hd p))" and "lit ''..'' \<notin> set (split_on is_path_sep p)"
    using assms by (auto simp: workdir_literal_path_def starts_with_char lit_def is_path_sep_def list_ex_iff
        split: if_splits)
  then show ?thesis unfolding resolve_in_def by (simp only: if_False) (rule enter_segments_below)
qed

text \<open>
  C33. A deletion that runs without asking stays in the working directory.  When
  \<open>rm\<close> or \<open>rmdir\<close> is called Safe it has an operand, and every operand, resolved
  lexically against any working directory, lands in or below it and holds no
  character a shell would expand.\<close>

theorem unasked_deletion_stays_inside:
  assumes "classify_program parse program args = Safe" and "one_of [''rm'', ''rmdir''] program"
  shows "deletion_operands args False \<noteq> [] \<and>
         (\<forall>p \<in> set (deletion_operands args False).
            (\<exists>below. resolve_in cwd p = cwd @ below) \<and>
            (\<forall>c \<in> set (lit ''$*?[{''). c \<notin> set p) \<and> \<not> starts_with (lit ''~'') p)"
proof -
  have "one_of DESTRUCTIVE program" using assms(2) by (auto simp: one_of_def DESTRUCTIVE_def)
  then have del: "deletion_targets_stay_in_workdir program args"
    using assms(1) by (auto simp: classify_program_def split: if_splits)
  then have lit_path: "workdir_literal_path p" if "p \<in> set (deletion_operands args False)" for p
    using that by (simp add: deletion_targets_stay_in_workdir_def list_all_iff)
  have "(\<forall>c \<in> set (lit ''$*?[{''). c \<notin> set p) \<and> \<not> starts_with (lit ''~'') p"
    if "p \<in> set (deletion_operands args False)" for p
    using lit_path [OF that] by (auto simp: workdir_literal_path_def list_ex_iff lit_def split: if_splits)
  then show ?thesis
    using del lit_path workdir_path_below by (auto simp: deletion_targets_stay_in_workdir_def)
qed

theorem unasked_deletion_stays_inside_witness:
  "\<exists>below. resolve_in [lit ''repo''] (lit ''target/debug'') = [lit ''repo''] @ below"
proof -
  have "classify_program (\<lambda>_. None) (lit ''rm'') (map lit [''-rf'', ''target/debug'']) = Safe"
    by (simp add: classify_program_def git_command_class_def executed_commands_def
        is_shell_wrapper_program_def basename_def is_path_sep_def lit_def one_of_def is_cmd_exe_def
        to_ascii_lowercase_def ascii_lower_def is_ascii_upper_def executed_git_effects_def
        call_git_effects_def add_command_def git_command_effects_def git_basename_def file_name_def
        split_char_def call_effects_default_def DESTRUCTIVE_def deletion_targets_stay_in_workdir_def
        is_option_def starts_with_def workdir_literal_path_def is_ascii_lower_def Let_def)
  moreover have "deletion_operands (map lit [''-rf'', ''target/debug'']) False = [lit ''target/debug'']"
    by (simp add: is_option_def starts_with_def lit_def)
  ultimately show ?thesis
    using unasked_deletion_stays_inside [of "\<lambda>_. None" "lit ''rm''" "map lit [''-rf'', ''target/debug'']"
        "[lit ''repo'']"]
    by (simp add: one_of_def)
qed

section \<open>Nothing dangerous in a Safe script\<close>














section \<open>What a zero exit proves\<close>

text \<open>The builtins that end the shell, or change how it ends or what its later words
  mean.\<close>

definition takes_control :: "rstr \<Rightarrow> bool" where
  "takes_control program \<longleftrightarrow>
     program \<in> set (map lit
       [''exit'', ''exec'', ''return'', ''break'', ''continue'', ''logout'', ''eval'', ''source'', ''.'',
        ''trap'', ''set'', ''shopt'', ''alias'', ''enable'', ''builtin'', ''command''])"

definition may_end :: "node \<Rightarrow> bool" where
  "may_end n \<longleftrightarrow> (case program_of n of None \<Rightarrow> True | Some program \<Rightarrow> takes_control program)"

text \<open>How a statement ends: the shell goes on with its status, or has ended with it.\<close>

datatype ending = Goes_On (status: bool) | Ended (status: bool)

text \<open>Runs of a statement: how it ends, and the command nodes that ran with whether each
  succeeded.  \<open>&&\<close> runs its right side after a success, \<open>||\<close> after a failure, and
  nothing runs in a shell that has ended.\<close>

inductive exits :: "node \<Rightarrow> ending \<Rightarrow> (node \<times> bool) list \<Rightarrow> bool" where
  exits_command: "is_kind ''command'' n \<Longrightarrow> exits n (Goes_On ok) [(n, ok)]"
| exits_shell: "is_kind ''command'' n \<Longrightarrow> may_end n \<Longrightarrow> exits n (Ended ok) [(n, ok)]"
| exits_left: "is_kind ''list'' n \<Longrightarrow> named_children n = l # r # rest \<Longrightarrow> exits l (Ended ok) tr1 \<Longrightarrow>
    exits n (Ended ok) tr1"
| exits_and_stop: "is_kind ''list'' n \<Longrightarrow> list_ex (is_kind ''&&'') (nd_children n) \<Longrightarrow>
    named_children n = l # r # rest \<Longrightarrow> exits l (Goes_On False) tr1 \<Longrightarrow> exits n (Goes_On False) tr1"
| exits_and: "is_kind ''list'' n \<Longrightarrow> list_ex (is_kind ''&&'') (nd_children n) \<Longrightarrow>
    named_children n = l # r # rest \<Longrightarrow> exits l (Goes_On True) tr1 \<Longrightarrow> exits r e tr2 \<Longrightarrow> exits n e (tr1 @ tr2)"
| exits_or_stop: "is_kind ''list'' n \<Longrightarrow> list_ex (is_kind ''||'') (nd_children n) \<Longrightarrow>
    named_children n = l # r # rest \<Longrightarrow> exits l (Goes_On True) tr1 \<Longrightarrow> exits n (Goes_On True) tr1"
| exits_or: "is_kind ''list'' n \<Longrightarrow> list_ex (is_kind ''||'') (nd_children n) \<Longrightarrow>
    named_children n = l # r # rest \<Longrightarrow> exits l (Goes_On False) tr1 \<Longrightarrow> exits r e tr2 \<Longrightarrow> exits n e (tr1 @ tr2)"

lemma collect_proven_list:
  "is_kind ''list'' n \<Longrightarrow> collect_proven n = Some cs \<Longrightarrow>
     and_only n \<and> (\<exists>l r rest a b. named_children n = l # r # rest \<and> collect_proven l = Some a \<and>
       collect_proven r = Some b \<and> cs = a @ b)"
  by (subst (asm) collect_proven.simps) (auto simp: is_kind_def split: if_splits list.splits option.splits)

lemma no_or: "and_only n \<Longrightarrow> \<not> list_ex (is_kind ''||'') (nd_children n)"
  by (auto simp: and_only_def list_ex_iff is_kind_def one_of_def)

lemma proven_program:
  "proven_command n = Some c \<Longrightarrow> \<exists>program args. program_of n = Some program \<and> c = program # args"
  by (auto simp: proven_command_def program_of_def split: if_splits option.splits)

lemma proven_goes_on: "proven_command n = Some c \<Longrightarrow> \<not> takes_control (hd c) \<Longrightarrow> \<not> may_end n"
  by (auto simp: may_end_def dest!: proven_program)

lemma proven_ran:
  "exits n e trace \<Longrightarrow> collect_proven n = Some cs \<Longrightarrow> \<forall>c \<in> set cs. \<not> takes_control (hd c) \<Longrightarrow>
     (\<exists>ok. e = Goes_On ok) \<and>
     (status e \<longrightarrow> map (\<lambda>t. (proven_command (fst t), snd t)) trace = map (\<lambda>c. (Some c, True)) cs)"
proof (induction arbitrary: cs rule: exits.induct)
  case (exits_command n ok)
  then show ?case by (subst (asm) collect_proven.simps) auto
next
  case (exits_shell n ok)
  then show ?case by (subst (asm) collect_proven.simps) (auto dest: proven_goes_on)
next
  case (exits_left n l r rest ok tr1)
  then obtain a where "collect_proven l = Some a" "set a \<subseteq> set cs"
    by (auto dest!: collect_proven_list)
  then show ?case using exits_left.IH exits_left.prems by blast
next
  case (exits_and n l r rest tr1 e tr2)
  then obtain a b where "collect_proven l = Some a" "collect_proven r = Some b" "cs = a @ b"
    by (auto dest!: collect_proven_list)
  then show ?case using exits_and.IH exits_and.prems by auto
qed (auto dest!: collect_proven_list no_or)

text \<open>
  C34. What a zero exit is said to prove really ran, unless a command of the list can end
  the shell or change its rules.  In any run of the script's statement in which the shell
  ends with status zero, the commands recorded as proven are exactly the commands that
  ran, in their order, and each of them succeeded, provided none of them is a builtin
  such as \<open>exit\<close>, \<open>exec\<close>, \<open>eval\<close> or \<open>trap\<close>, which the code does not tell apart.
\<close>

theorem proven_commands_ran:
  assumes "proven_commands parse script \<noteq> []" and "parse script = Some root"
    and "named_children root = [stmt]" and "exits stmt e trace" and "status e"
    and "\<forall>c \<in> set (proven_commands parse script). \<not> takes_control (hd c)"
  shows "map (\<lambda>t. (proven_command (fst t), snd t)) trace
           = map (\<lambda>c. (Some c, True)) (proven_commands parse script)"
proof -
  obtain cs where cs: "collect_proven stmt = Some cs" "proven_commands parse script = cs"
    using assms(1-3) by (auto simp: proven_commands_def split: if_splits option.splits)
  then show ?thesis using proven_ran [OF assms(4) cs(1)] assms(5,6) by simp
qed

lemma ls_proven: "proven_commands (sh_parse ls_host) (lit ''ls'') = [[lit ''ls'']]"
  by (simp add: proven_commands_def ls_host_def ls_tree_def tree_simps collect_proven.simps
      proven_command_def lit_def)

theorem proven_commands_ran_witness:
  "\<exists>trace. map (\<lambda>t. (proven_command (fst t), snd t)) trace = [(Some [lit ''ls''], True)]"
proof -
  define stmt where "stmt = hd (nd_children ls_tree)"
  have "exits stmt (Goes_On True) [(stmt, True)]"
    by (rule exits_command) (simp add: stmt_def ls_tree_def is_kind_def)
  moreover have "named_children ls_tree = [stmt]" by (simp add: stmt_def ls_tree_def named_children_def)
  moreover have "\<not> takes_control (hd [lit ''ls''])" by (simp add: takes_control_def lit_def)
  ultimately show ?thesis
    using proven_commands_ran [of "sh_parse ls_host" "lit ''ls''" ls_tree stmt "Goes_On True" "[(stmt, True)]"]
      ls_proven
    by (intro exI [of _ "[(stmt, True)]"]) (simp add: ls_host_def)
qed

text \<open>A command as the grammar reads it: its name, then its words (a word of digits has
  a kind of its own, which the code reads alike).\<close>

definition word_node :: "rstr \<Rightarrow> rstr option \<Rightarrow> node" where
  "word_node w field = Node (lit ''word'') w True field []"

definition command_node :: "rstr list \<Rightarrow> node" where
  "command_node ws =
     Node (lit ''command'') (join (lit '' '') ws) True None
       (Node (lit ''command_name'') (hd ws) True (Some (lit ''name'')) [word_node (hd ws) None]
        # map (\<lambda>w. word_node w (Some (lit ''argument''))) (tl ws))"

definition and_tree :: "rstr list \<Rightarrow> rstr list \<Rightarrow> node" where
  "and_tree a b =
     Node (lit ''program'') [] True None
       [Node (lit ''list'') [] True None
          [command_node a, Node (lit ''&&'') (lit ''&&'') False None [], command_node b]]"

definition plain_words :: "rstr list \<Rightarrow> bool" where
  "plain_words ws \<longleftrightarrow> ws \<noteq> [] \<and> (\<forall>w \<in> set ws. 92 \<notin> set w)"

lemma proven_command_node: "plain_words ws \<Longrightarrow> proven_command (command_node ws) = Some ws"
proof -
  assume p: "plain_words ws"
  have args: "readable_argv (map (\<lambda>w. if 92 \<in> set w then None else Some w) vs) = Some vs"
    if "\<forall>w \<in> set vs. 92 \<notin> set w" for vs
    using that by (induction vs) auto
  have "filter (\<lambda>c. nd_field c = Some (lit ''argument'')) (map (\<lambda>w. word_node w (Some (lit ''argument''))) vs)
      = map (\<lambda>w. word_node w (Some (lit ''argument''))) vs" for vs
    by (induction vs) (simp_all add: word_node_def)
  then have "literal_arguments (command_node ws) = map (\<lambda>w. if 92 \<in> set w then None else Some w) (tl ws)"
    by (simp add: literal_arguments_def children_by_field_name_def command_node_def lit_def word_node_def
        resolve_literal_def one_of_def comp_def)
  moreover have "\<forall>w \<in> set (tl ws). 92 \<notin> set w" "92 \<notin> set (hd ws)"
    using p by (auto simp: plain_words_def dest: list.set_sel(2))
  ultimately show ?thesis
    using p args [of "tl ws"]
    by (simp add: proven_command_def command_node_def child_by_field_name_def resolve_command_name_def
        named_children_def resolve_literal_def one_of_def word_node_def list_ex_iff lit_def plain_words_def)
qed

text \<open>
  A zero exit is taken as proof of commands that never ran.  Of \<open>exit 0 && C\<close>, as
  the grammar reads it, the code records \<open>C\<close> as proven for every command \<open>C\<close>, while a
  run of the script in which the shell ends with status zero runs \<open>exit\<close> only.
\<close>

theorem exit_proves_what_never_ran:
  assumes "parse script = Some (and_tree [lit ''exit'', lit ''0''] c)" and "plain_words c"
  shows "c \<in> set (proven_executed_commands parse (lit ''sh'') [lit ''-c'', script]) \<and>
         (\<exists>stmt e trace.
            named_children (and_tree [lit ''exit'', lit ''0''] c) = [stmt] \<and> exits stmt e trace \<and>
            status e \<and> map (proven_command \<circ> fst) trace = [Some [lit ''exit'', lit ''0'']])"
proof -
  let ?x = "[lit ''exit'', lit ''0'']"
  define stmt where "stmt = hd (nd_children (and_tree ?x c))"
  have x: "plain_words ?x" by (simp add: plain_words_def lit_def)
  have cmd: "is_kind ''command'' (command_node ws)" for ws by (simp add: command_node_def is_kind_def)
  have list: "is_kind ''list'' stmt" "\<not> is_kind ''command'' stmt" "and_only stmt"
    "named_children stmt = [command_node ?x, command_node c]"
    by (simp_all add: stmt_def and_tree_def is_kind_def and_only_def named_children_def command_node_def
        one_of_def lit_def)
  have leaf: "collect_proven (command_node ws) = Some [ws]" if "plain_words ws" for ws
    by (subst collect_proven.simps) (simp add: cmd proven_command_node [OF that])
  have "collect_proven stmt = Some [?x, c]"
    by (subst collect_proven.simps) (simp add: list leaf [OF x] leaf [OF assms(2)])
  moreover have only: "named_children (and_tree ?x c) = [stmt]"
    by (simp add: stmt_def and_tree_def named_children_def)
  moreover have "\<not> list_ex (is_kind ''&'') (nd_children (and_tree ?x c))"
    by (simp add: and_tree_def is_kind_def lit_def)
  ultimately have "proven_commands parse script = [?x, c]"
    using assms(1) by (simp add: proven_commands_def)
  moreover have "is_shell_c_flag (lit ''-c'')" by (simp add: is_shell_c_flag_def)
  then have "shell_c_script [lit ''-c'', script] = Some script" by simp
  moreover have "is_shell_wrapper_program (lit ''sh'')"
    by (simp add: is_shell_wrapper_program_def one_of_def basename_def is_path_sep_def lit_def)
  ultimately have "c \<in> set (proven_executed_commands parse (lit ''sh'') [lit ''-c'', script])"
    by (simp add: proven_executed_commands_def)
  moreover have "may_end (command_node ?x)"
    by (simp add: may_end_def program_of_def takes_control_def command_node_def child_by_field_name_def
        resolve_command_name_def named_children_def resolve_literal_def one_of_def word_node_def lit_def)
  then have "exits (command_node ?x) (Ended True) [(command_node ?x, True)]"
    by (intro exits_shell) (simp_all add: cmd)
  then have "exits stmt (Ended True) [(command_node ?x, True)]"
    by (rule exits_left [OF list(1,4)])
  ultimately show ?thesis using only proven_command_node [OF x] by (force simp: comp_def)
qed

theorem exit_proves_what_never_ran_witness:
  "\<exists>parse. [lit ''go'', lit ''test''] \<in>
     set (proven_executed_commands parse (lit ''sh'') [lit ''-c'', lit ''exit 0 && go test''])"
proof -
  let ?c = "[lit ''go'', lit ''test'']" and ?s = "lit ''exit 0 && go test''"
  have "(\<lambda>_. Some (and_tree [lit ''exit'', lit ''0''] ?c)) ?s = Some (and_tree [lit ''exit'', lit ''0''] ?c)"
    by simp
  moreover have "plain_words ?c" by (simp add: plain_words_def lit_def)
  ultimately show ?thesis
    using exit_proves_what_never_ran [of "\<lambda>_. Some (and_tree [lit ''exit'', lit ''0''] ?c)" ?s ?c] by blast
qed

section \<open>Forms the classifier reads as harmless\<close>

lemmas program_simps = classify_command_def is_shell_wrapper_program_def basename_def is_path_sep_def
  is_cmd_exe_def to_ascii_lowercase_def ascii_lower_def is_ascii_upper_def classify_program_def
  git_command_class_def executed_commands_def executed_git_effects_def call_git_effects_def
  call_effects_default_def DESTRUCTIVE_def PRIVILEGED_def program_stem_def ends_with_def
  starts_with_def is_host_escape_program_def is_credential_store_read_def one_of_def Let_def

text \<open>A flag cluster hides a whole script.  \<open>bash -ce SCRIPT\<close> runs SCRIPT, but only
  \<open>-c\<close> and clusters that end in \<open>c\<close> are read as the script flag, so for every host and
  every SCRIPT the command is Safe: the script is not looked at.\<close>

theorem flag_cluster_hides_script:
  "classify_command h (lit ''bash'') [lit ''-ce'', script] = Safe"
proof -
  have flag: "\<not> is_shell_c_flag (lit ''-ce'')"
    by (simp add: is_shell_c_flag_def lit_def to_ascii_lowercase_def ascii_lower_def is_ascii_upper_def
        ends_with_def starts_with_def)
  then have "shell_c_script [lit ''-ce'', script] = None" by simp
  then show ?thesis by (simp add: program_simps executed_default_def lit_def)
qed

text \<open>Argvs in which Git starts a program of the caller's choice.\<close>

definition runs_a_program :: "rstr list list" where
  "runs_a_program = map (map lit)
     [[''rebase'', ''-x'', ''sh evil.sh'', ''HEAD~1''],
      [''bisect'', ''run'', ''./evil.sh''],
      [''submodule'', ''foreach'', ''sh evil.sh''],
      [''-c'', ''diff.external=./evil.sh'', ''diff''],
      [''-C'', ''.'', ''-c'', ''alias.x=!sh evil.sh'', ''x'']]"

lemma git_single_argv:
  "classify_command h (lit ''git'') args = Safe \<longleftrightarrow>
     \<not> ((\<exists>g. git_command_effects (lit ''git'' # args) = Some g) \<and>
        (git_argv_executes_local_program (lit ''git'' # args) \<or>
         git_remote_credential_unbrokered (lit ''git'' # args)))
     \<and> \<not> first_is args [''credential''] \<and> \<not> (args \<noteq> [] \<and> starts_with (lit ''credential-'') (hd args))"
  by (cases "git_command_effects (lit ''git'' # args)"; cases args)
    (simp_all add: program_simps lit_def first_is_def add_command_def no_effects_def)

text \<open>Git runs a program of the caller's choice and nobody is asked.  The module
  promises to ask whenever Git would execute a local program, but it looks for the
  long transport options, for a list of configuration keys and for \<open>-c\<close> options
  before the first word that is no option: the \<open>-x\<close> of a rebase, \<open>bisect run\<close>,
  \<open>submodule foreach\<close>, \<open>diff.external\<close> and an alias set after \<open>-C .\<close> all come out
  Safe, on every host.\<close>

theorem git_programs_not_asked:
  "list_all (\<lambda>args. classify_command h (lit ''git'') args = Safe) runs_a_program"
  unfolding runs_a_program_def list.map list.pred_inject git_single_argv
  by (simp add: lit_def git_argv_executes_local_program_def flag_or_value_def starts_with_def
      one_of_def is_option_def config_spec_executes_program_def config_key_executes_program_def
      effect_critical_config_key_def to_ascii_lowercase_def ascii_lower_def is_ascii_upper_def
      ends_with_def first_word_def trim_def trim_start_def trim_end_def trim_start_matches_def
      trim_end_matches_def is_whitespace_def attached_def split_subcommand_def invocation_at_def
      read_global_def harmless_git_global_def git_remote_credential_unbrokered_def
      git_command_effects_def git_basename_def file_name_def split_char_def classify_subcommand_def
      git_read_ignores_arguments_def metadata_subcommand_def classify_rest_def resolved_def
      unresolved_def no_effects_def submodule_fx_def first_is_def Let_def)

end
