(* ===== verification/Network_Scope.thy ===== *)
theory Network_Scope
  imports Interfaces "HOL-Library.Word" "HOL-Library.Product_Lexorder"
begin

unbundle bit_operations_syntax

text \<open>
  Destination identity and validation (leveler-execution, network.rs).  Addresses
  are words: an IPv4 address 32 bits, an IPv6 address 128, a port 16.  The parser of
  an address and the DNS lookup are parameters.
\<close>

section \<open>Addresses\<close>

datatype ip_addr = V4 "32 word" | V6 "128 word"

definition octet0 :: "32 word \<Rightarrow> nat" where
  "octet0 ip = unat (drop_bit 24 ip)"

definition octet1 :: "32 word \<Rightarrow> nat" where
  "octet1 ip = unat (drop_bit 16 ip AND 0xFF)"

definition segment0 :: "128 word \<Rightarrow> 16 word" where
  "segment0 ip = ucast (drop_bit 112 ip)"

text \<open>\<open>to_ipv4_mapped\<close>: \<open>::ffff:a.b.c.d\<close>.\<close>

definition ipv4_mapped :: "128 word \<Rightarrow> 32 word option" where
  "ipv4_mapped ip = (if drop_bit 32 ip = 0xFFFF then Some (ucast ip) else None)"

fun normalize_ip :: "ip_addr \<Rightarrow> ip_addr" where
  "normalize_ip (V6 ip) = (case ipv4_mapped ip of Some v4 \<Rightarrow> V4 v4 | None \<Rightarrow> V6 ip)"
| "normalize_ip ip = ip"

fun std_is_loopback :: "ip_addr \<Rightarrow> bool" where
  "std_is_loopback (V4 ip) = (octet0 ip = 127)"
| "std_is_loopback (V6 ip) = (ip = 1)"

definition v4_is_private :: "32 word \<Rightarrow> bool" where
  "v4_is_private ip \<longleftrightarrow>
     octet0 ip = 10 \<or> (octet0 ip = 172 \<and> 16 \<le> octet1 ip \<and> octet1 ip \<le> 31) \<or>
     (octet0 ip = 192 \<and> octet1 ip = 168)"

definition v4_is_link_local :: "32 word \<Rightarrow> bool" where
  "v4_is_link_local ip \<longleftrightarrow> octet0 ip = 169 \<and> octet1 ip = 254"

definition is_loopback :: "ip_addr \<Rightarrow> bool" where
  "is_loopback ip = std_is_loopback (normalize_ip ip)"

definition is_local_lan :: "ip_addr \<Rightarrow> bool" where
  "is_local_lan ip =
     (case normalize_ip ip of
        V4 v4 \<Rightarrow> std_is_loopback (V4 v4) \<or> v4_is_private v4 \<or> v4_is_link_local v4
      | V6 v6 \<Rightarrow> std_is_loopback (V6 v6) \<or> segment0 v6 AND 0xFE00 = 0xFC00 \<or> segment0 v6 AND 0xFFC0 = 0xFE80)"

definition is_ordinary_destination :: "ip_addr \<Rightarrow> bool" where
  "is_ordinary_destination ip =
     (case normalize_ip ip of
        V4 v4 \<Rightarrow> v4 \<noteq> 0 \<and> \<not> (224 \<le> octet0 v4 \<and> octet0 v4 \<le> 239) \<and> v4 \<noteq> 0xFFFFFFFF
                \<and> octet0 v4 \<noteq> 0 \<and> octet0 v4 < 240
      | V6 v6 \<Rightarrow> v6 \<noteq> 0 \<and> segment0 v6 AND 0xFF00 \<noteq> 0xFF00)"

section \<open>Socket addresses and their order\<close>

datatype socket_addr =
    SockV4 "32 word" "16 word"
  | SockV6 "128 word" "16 word" "32 word" "32 word"

fun sock_ip :: "socket_addr \<Rightarrow> ip_addr" where
  "sock_ip (SockV4 ip _) = V4 ip"
| "sock_ip (SockV6 ip _ _ _) = V6 ip"

fun sock_port :: "socket_addr \<Rightarrow> 16 word" where
  "sock_port (SockV4 _ p) = p"
| "sock_port (SockV6 _ p _ _) = p"

text \<open>The derived order: IPv4 before IPv6, then the fields in turn.\<close>

fun sock_key :: "socket_addr \<Rightarrow> nat \<times> nat \<times> nat \<times> nat \<times> nat" where
  "sock_key (SockV4 ip p) = (0, unat ip, unat p, 0, 0)"
| "sock_key (SockV6 ip p f s) = (1, unat ip, unat p, unat f, unat s)"

lemma sock_key_inj: "sock_key a = sock_key b \<Longrightarrow> a = b"
  by (cases a; cases b) (auto simp: word_unat_eq_iff)

instantiation socket_addr :: linorder
begin

definition less_eq_socket_addr :: "socket_addr \<Rightarrow> socket_addr \<Rightarrow> bool" where
  "less_eq_socket_addr a b \<longleftrightarrow> sock_key a \<le> sock_key b"

definition less_socket_addr :: "socket_addr \<Rightarrow> socket_addr \<Rightarrow> bool" where
  "less_socket_addr a b \<longleftrightarrow> sock_key a < sock_key b"

instance
  by standard
    (auto simp: less_eq_socket_addr_def less_socket_addr_def intro: sock_key_inj)

end

definition normalize_addr :: "socket_addr \<Rightarrow> socket_addr" where
  "normalize_addr a =
     (case a of
        SockV6 ip p _ _ \<Rightarrow> (case normalize_ip (V6 ip) of V4 v4 \<Rightarrow> SockV4 v4 p | V6 _ \<Rightarrow> a)
      | SockV4 _ _ \<Rightarrow> a)"

definition normalized_addresses :: "socket_addr list \<Rightarrow> socket_addr list" where
  "normalized_addresses addresses = remdups_adj (sort (map normalize_addr addresses))"

section \<open>Resources and scopes\<close>

datatype network_transport = Tcp | Udp

record remote_identity =
  ri_repository_identity :: rstr
  ri_remote_name :: rstr
  ri_canonical_url :: rstr

record network_resource =
  nr_host :: rstr
  nr_port :: "16 word"
  nr_transport :: network_transport
  nr_resolved_addresses :: "socket_addr list"
  nr_configured_remote :: "remote_identity option"

datatype network_scope =
    NS_None
  | Loopback
  | LocalLan
  | ConfiguredRemoteScope "network_resource list"
  | Internet

datatype network_error =
    MissingDestination
  | InvalidAddress socket_addr
  | ScopeDenied rstr
  | Resolution rstr

definition bad_address :: "16 word \<Rightarrow> socket_addr \<Rightarrow> bool" where
  "bad_address port a \<longleftrightarrow> sock_port a \<noteq> port \<or> \<not> is_ordinary_destination (sock_ip a)"

definition validate_destinations :: "network_resource \<Rightarrow> network_error + unit" where
  "validate_destinations r =
     (if nr_host r = [] \<or> list_ex is_whitespace (nr_host r) \<or> nr_port r = 0
         \<or> nr_resolved_addresses r = [] then Inl MissingDestination
      else case find (bad_address (nr_port r)) (nr_resolved_addresses r) of
        Some a \<Rightarrow> Inl (InvalidAddress a) | None \<Rightarrow> Inr ())"

definition from_resolved ::
  "rstr \<Rightarrow> 16 word \<Rightarrow> network_transport \<Rightarrow> socket_addr list \<Rightarrow> network_error + network_resource" where
  "from_resolved host port transport addresses =
     (let r = \<lparr>nr_host = to_ascii_lowercase host, nr_port = port, nr_transport = transport,
               nr_resolved_addresses = addresses, nr_configured_remote = None\<rparr>
      in case validate_destinations r of
           Inl e \<Rightarrow> Inl e
         | Inr _ \<Rightarrow> Inr (r\<lparr>nr_resolved_addresses := normalized_addresses addresses\<rparr>))"

fun scope_label :: "network_scope \<Rightarrow> rstr" where
  "scope_label NS_None = lit ''none''"
| "scope_label Loopback = lit ''loopback''"
| "scope_label LocalLan = lit ''local_lan''"
| "scope_label (ConfiguredRemoteScope _) = lit ''configured_remote''"
| "scope_label Internet = lit ''internet''"

definition same_remote :: "remote_identity \<Rightarrow> network_resource \<Rightarrow> network_resource \<Rightarrow> bool" where
  "same_remote identity r allowed \<longleftrightarrow>
     validate_destinations allowed = Inr () \<and>
     nr_configured_remote allowed = Some identity \<and>
     to_ascii_lowercase (nr_host allowed) = to_ascii_lowercase (nr_host r) \<and>
     nr_port allowed = nr_port r \<and>
     nr_transport allowed = nr_transport r \<and>
     normalized_addresses (nr_resolved_addresses allowed) = normalized_addresses (nr_resolved_addresses r)"

fun scope_allows :: "network_scope \<Rightarrow> network_resource \<Rightarrow> bool" where
  "scope_allows NS_None r = False"
| "scope_allows Loopback r = list_all (\<lambda>a. is_loopback (sock_ip a)) (nr_resolved_addresses r)"
| "scope_allows LocalLan r = list_all (\<lambda>a. is_local_lan (sock_ip a)) (nr_resolved_addresses r)"
| "scope_allows Internet r = True"
| "scope_allows (ConfiguredRemoteScope resources) r =
     (case nr_configured_remote r of None \<Rightarrow> False
      | Some i \<Rightarrow> ri_repository_identity i \<noteq> [] \<and> ri_remote_name i \<noteq> [] \<and> ri_canonical_url i \<noteq> []
                  \<and> list_ex (same_remote i r) resources)"

definition validate_resource :: "network_scope \<Rightarrow> network_resource \<Rightarrow> network_error + unit" where
  "validate_resource s r =
     (case validate_destinations r of
        Inl e \<Rightarrow> Inl e
      | Inr _ \<Rightarrow> if scope_allows s r then Inr () else Inl (ScopeDenied (scope_label s)))"

definition strip_brackets :: "rstr \<Rightarrow> rstr" where
  "strip_brackets host =
     (case host of
        c # rest \<Rightarrow> if c = 91 \<and> rest \<noteq> [] \<and> last rest = 93 then butlast rest else host
      | [] \<Rightarrow> host)"

fun sock_of_ip :: "ip_addr \<Rightarrow> 16 word \<Rightarrow> socket_addr" where
  "sock_of_ip (V4 ip) p = SockV4 ip p"
| "sock_of_ip (V6 ip) p = SockV6 ip p 0 0"

definition resolve_network_resource ::
  "(rstr \<Rightarrow> ip_addr option) \<Rightarrow> (rstr \<Rightarrow> 16 word \<Rightarrow> rstr + socket_addr list) \<Rightarrow> rstr \<Rightarrow> 16 word
     \<Rightarrow> network_transport \<Rightarrow> network_error + network_resource" where
  "resolve_network_resource parse_ip lookup raw port transport =
     (let host = strip_brackets raw
      in case parse_ip host of
           Some ip \<Rightarrow> from_resolved host port transport [sock_of_ip ip port]
         | None \<Rightarrow> (case lookup host port of
                      Inl e \<Rightarrow> Inl (Resolution e)
                    | Inr addresses \<Rightarrow> from_resolved host port transport addresses))"

section \<open>What validation guarantees\<close>

lemma normalize_ip_idem [simp]: "normalize_ip (normalize_ip ip) = normalize_ip ip"
  by (cases ip) (auto split: option.splits)

lemma normalized_set [simp]: "set (normalized_addresses as) = normalize_addr ` set as"
  by (simp add: normalized_addresses_def)

lemma distinct_remdups_adj_sorted: "sorted xs \<Longrightarrow> distinct (remdups_adj (xs :: 'a :: linorder list))"
  by (induction xs rule: remdups_adj.induct) (auto simp: antisym)

lemma normalized_is_sorted_set: "normalized_addresses as = sorted_list_of_set (normalize_addr ` set as)"
proof -
  have "sorted (normalized_addresses as)" "distinct (normalized_addresses as)"
    by (simp_all add: normalized_addresses_def sorted_remdups_adj distinct_remdups_adj_sorted)
  then show ?thesis by (metis normalized_set sorted_list_of_set.idem_if_sorted_distinct)
qed

lemma normalized_eq_iff:
  "normalized_addresses xs = normalized_addresses ys \<longleftrightarrow> normalize_addr ` set xs = normalize_addr ` set ys"
  by (metis normalized_set normalized_is_sorted_set)

lemma ip_normalize_addr: "normalize_ip (sock_ip (normalize_addr a)) = normalize_ip (sock_ip a)"
  by (cases a) (auto simp: normalize_addr_def split: option.splits)

lemma port_normalize_addr [simp]: "sock_port (normalize_addr a) = sock_port a"
  by (cases a) (auto simp: normalize_addr_def split: option.splits)

lemma first_bad_iff:
  "(case find P xs of Some a \<Rightarrow> Inl (f a) | None \<Rightarrow> Inr ()) = Inr () \<longleftrightarrow> (\<forall>x \<in> set xs. \<not> P x)"
  by (induction xs) auto

lemma validate_ok_iff:
  "validate_destinations r = Inr () \<longleftrightarrow>
     nr_host r \<noteq> [] \<and> \<not> list_ex is_whitespace (nr_host r) \<and> nr_port r \<noteq> 0 \<and> nr_resolved_addresses r \<noteq> [] \<and>
     (\<forall>a \<in> set (nr_resolved_addresses r). sock_port a = nr_port r \<and> is_ordinary_destination (sock_ip a))"
  by (auto simp: validate_destinations_def first_bad_iff bad_address_def)

lemma normalized_Nil [simp]: "normalized_addresses as = [] \<longleftrightarrow> as = []"
  by (metis normalized_set image_is_empty set_empty)

lemma same_verdict_normalized:
  "is_ordinary_destination (sock_ip (normalize_addr a)) = is_ordinary_destination (sock_ip a)"
  "is_loopback (sock_ip (normalize_addr a)) = is_loopback (sock_ip a)"
  "is_local_lan (sock_ip (normalize_addr a)) = is_local_lan (sock_ip a)"
  by (simp_all add: is_ordinary_destination_def is_loopback_def is_local_lan_def ip_normalize_addr)

lemma loopback_is_lan: "is_loopback ip \<Longrightarrow> is_local_lan ip"
  by (cases "normalize_ip ip") (simp_all add: is_loopback_def is_local_lan_def)

lemma not_mapped: "normalize_addr a = SockV6 ip p f sc \<Longrightarrow> ipv4_mapped ip = None"
  by (cases a) (auto simp: normalize_addr_def split: option.splits)

text \<open>
  A validated destination is what its scope says.  When a scope admits a
  resource, it names a host and a port, it has at least one address, and every
  address, an IPv4 address mapped into IPv6 judged as the IPv4 address, is an
  ordinary destination on that port and of the scope's class; the scopes are nested,
  and the empty scope admits nothing.\<close>

theorem validated_destinations:
  assumes "validate_resource s r = Inr ()"
  shows "nr_host r \<noteq> [] \<and> nr_port r \<noteq> 0 \<and> nr_resolved_addresses r \<noteq> [] \<and> s \<noteq> NS_None \<and>
         (\<forall>a \<in> set (nr_resolved_addresses r).
            sock_port a = nr_port r \<and> is_ordinary_destination (sock_ip (normalize_addr a)) \<and>
            (s = Loopback \<longrightarrow> is_loopback (sock_ip (normalize_addr a))) \<and>
            (s = Loopback \<or> s = LocalLan \<longrightarrow> is_local_lan (sock_ip (normalize_addr a)))) \<and>
         (s = Loopback \<longrightarrow> validate_resource LocalLan r = Inr ()) \<and>
         validate_resource Internet r = Inr ()"
proof -
  have ok: "validate_destinations r = Inr ()" and allowed: "scope_allows s r"
    using assms by (auto simp: validate_resource_def split: sum.splits if_splits)
  have wider: "validate_resource t r = Inr () \<longleftrightarrow> scope_allows t r" for t
    by (simp add: validate_resource_def ok)
  show ?thesis
    using ok allowed
    by (auto simp: validate_ok_iff same_verdict_normalized wider list_all_iff intro: loopback_is_lan)
qed

text \<open>\<open>[::ffff:127.0.0.1]:80\<close>.\<close>

definition mapped_localhost :: network_resource where
  "mapped_localhost =
     \<lparr>nr_host = lit ''localhost'', nr_port = 80, nr_transport = Tcp,
      nr_resolved_addresses = [SockV6 0xFFFF7F000001 80 0 0], nr_configured_remote = None\<rparr>"

theorem validated_destinations_witness:
  "is_local_lan (sock_ip (normalize_addr (hd (nr_resolved_addresses mapped_localhost))))"
proof -
  have "ipv4_mapped 0xFFFF7F000001 = Some 0x7F000001" by (simp add: ipv4_mapped_def)
  moreover have "octet0 0x7F000001 = 127" by (simp add: octet0_def)
  ultimately have "validate_resource Loopback mapped_localhost = Inr ()"
    by (simp add: validate_resource_def validate_destinations_def mapped_localhost_def bad_address_def
        is_ordinary_destination_def is_loopback_def lit_def is_whitespace_def)
  from validated_destinations [OF this] show ?thesis by (simp add: mapped_localhost_def)
qed

text \<open>A pinned resource is canonical.  A resource made from DNS answers validates
  again, lists each destination once, in order and with no IPv4 address hidden in an
  IPv6 one, and does not depend on the order or the repetition of the answers; and a
  configured remote is matched on exactly its set of destinations.\<close>

theorem pinned_resource_canonical:
  assumes "from_resolved host port transport addresses = Inr r"
  shows "validate_destinations r = Inr () \<and> sorted (nr_resolved_addresses r) \<and>
         distinct (nr_resolved_addresses r) \<and>
         set (nr_resolved_addresses r) = normalize_addr ` set addresses \<and>
         (\<forall>ip p f sc. SockV6 ip p f sc \<in> set (nr_resolved_addresses r) \<longrightarrow> ipv4_mapped ip = None) \<and>
         (set answers = set addresses \<longrightarrow> from_resolved host port transport answers = Inr r)"
proof -
  let ?raw = "\<lambda>as. \<lparr>nr_host = to_ascii_lowercase host, nr_port = port, nr_transport = transport,
      nr_resolved_addresses = as, nr_configured_remote = None\<rparr>"
  have ok: "validate_destinations (?raw addresses) = Inr ()"
    and r: "r = (?raw addresses)\<lparr>nr_resolved_addresses := normalized_addresses addresses\<rparr>"
    using assms by (auto simp: from_resolved_def Let_def split: sum.splits)
  have "sorted (nr_resolved_addresses r)" "distinct (nr_resolved_addresses r)"
    by (simp_all add: r normalized_is_sorted_set)
  moreover have "validate_destinations r = Inr ()"
    using ok by (auto simp: validate_ok_iff r same_verdict_normalized)
  moreover have "from_resolved host port transport answers = Inr r" if "set answers = set addresses"
  proof -
    have "validate_destinations (?raw answers) = Inr ()"
      using ok that by (auto simp: validate_ok_iff)
    moreover have "normalized_addresses answers = normalized_addresses addresses"
      using that by (simp add: normalized_is_sorted_set)
    ultimately show ?thesis by (simp add: from_resolved_def r)
  qed
  ultimately show ?thesis by (auto simp: r dest: not_mapped [OF sym])
qed

theorem pinned_resource_canonical_witness:
  "from_resolved (lit ''h'') 80 Tcp [SockV4 0x08080808 80, SockV4 0x08080808 80]
     = from_resolved (lit ''h'') 80 Tcp [SockV4 0x08080808 80]"
proof -
  have ok: "is_ordinary_destination (V4 0x08080808)" by (simp add: is_ordinary_destination_def octet0_def)
  then obtain r where "from_resolved (lit ''h'') 80 Tcp [SockV4 0x08080808 80] = Inr r"
    by (simp add: from_resolved_def validate_destinations_def bad_address_def lit_def to_ascii_lowercase_def
        ascii_lower_def is_ascii_upper_def is_whitespace_def)
  then show ?thesis
    using pinned_resource_canonical [of "lit ''h''" 80 Tcp "[SockV4 0x08080808 80]" r
        "[SockV4 0x08080808 80, SockV4 0x08080808 80]"] by simp
qed

end
