(* ===== verification/Permission.thy ===== *)
theory Permission
  imports Shell_Ast Network_Scope
begin

text \<open>
  The permission layer (leveler-execution): profiles and write scopes (risk.rs), the
  approval policy and the approval requests (approval.rs), the standing rules with
  their globs (permission_rules.rs) and the policy an admitted call runs under
  (policy.rs).  A rule file's YAML and the resource identities are third-party or
  host data: identities are a type variable.
\<close>

section \<open>Risk and profiles\<close>

datatype risk_level = RL_Safe | WorkspaceWrite | Network | Destructive | Privileged

datatype write_scope =
    WS_None
  | Workspace rstr
  | WorkspaceWithGit rstr
  | ScopedWorkspace rstr "rstr list" "rstr list"
  | Unrestricted

definition confines :: "write_scope \<Rightarrow> bool" where
  "confines w = (w \<noteq> Unrestricted)"

fun scope_root :: "write_scope \<Rightarrow> rstr option" where
  "scope_root (Workspace r) = Some r"
| "scope_root (WorkspaceWithGit r) = Some r"
| "scope_root (ScopedWorkspace r _ _) = Some r"
| "scope_root _ = None"

datatype permission_profile = RequestApproval | Assisted | FullAccess

definition profile_default :: permission_profile where
  "profile_default = Assisted"

fun profile_as_str :: "permission_profile \<Rightarrow> rstr" where
  "profile_as_str RequestApproval = lit ''request_approval''"
| "profile_as_str Assisted = lit ''assisted''"
| "profile_as_str FullAccess = lit ''full_access''"

definition profile_parse :: "rstr \<Rightarrow> permission_profile option" where
  "profile_parse raw =
     (let s = trim raw
      in if one_of [''request_approval'', ''request-approval''] s then Some RequestApproval
         else if s = lit ''assisted'' then Some Assisted
         else if one_of [''full_access'', ''full-access''] s then Some FullAccess
         else if s = lit ''plan'' then Some RequestApproval
         else if s = lit ''workspace_write'' then Some Assisted
         else None)"

definition permits :: "permission_profile \<Rightarrow> risk_level \<Rightarrow> bool" where
  "permits p risk = (p = RequestApproval \<longrightarrow> \<not> (risk = Privileged \<or> risk = Destructive))"

definition confines_workspace :: "permission_profile \<Rightarrow> bool" where
  "confines_workspace p = (p \<noteq> FullAccess)"

definition network_by_default :: "permission_profile \<Rightarrow> bool" where
  "network_by_default p = (p \<noteq> RequestApproval)"

definition profile_write_scope :: "permission_profile \<Rightarrow> rstr \<Rightarrow> write_scope" where
  "profile_write_scope p root = (if confines_workspace p then Workspace root else Unrestricted)"

fun profile_code :: "permission_profile \<Rightarrow> nat" where
  "profile_code RequestApproval = 0"
| "profile_code Assisted = 1"
| "profile_code FullAccess = 2"

definition profile_from_code :: "nat \<Rightarrow> permission_profile" where
  "profile_from_code c = (if c = 1 then Assisted else if c = 2 then FullAccess else RequestApproval)"

text \<open>The shared cell holds the code; every handle on it reads and writes that code.\<close>

definition shared_new :: "permission_profile \<Rightarrow> nat" where
  "shared_new p = profile_code p"

definition shared_get :: "nat \<Rightarrow> permission_profile" where
  "shared_get cell = profile_from_code cell"

definition shared_set :: "permission_profile \<Rightarrow> nat \<Rightarrow> nat" where
  "shared_set p cell = profile_code p"

section \<open>The approval policy\<close>

datatype requirement = Auto | NeedApproval | Forbidden

definition is_agent_definition_write_tool :: "rstr \<Rightarrow> bool" where
  "is_agent_definition_write_tool tool =
     one_of [''save_agent'', ''delete_agent'', ''save_skill'', ''delete_skill''] tool"

definition needs_human_consent :: "rstr \<Rightarrow> bool" where
  "needs_human_consent tool = is_agent_definition_write_tool tool"

definition is_command_tool :: "rstr \<Rightarrow> bool" where
  "is_command_tool tool = one_of [''run_command'', ''shell_command''] tool"

definition is_mcp_tool :: "rstr \<Rightarrow> bool" where
  "is_mcp_tool tool = starts_with (lit ''mcp__'') tool"

definition command_is_dangerous :: "shell_host \<Rightarrow> (rstr \<times> rstr list) option \<Rightarrow> bool" where
  "command_is_dangerous h command =
     (case command of None \<Rightarrow> False | Some (program, args) \<Rightarrow> classify_command h program args = Dangerous)"

definition evaluate_action ::
  "shell_host \<Rightarrow> permission_profile \<Rightarrow> rstr \<Rightarrow> risk_level \<Rightarrow> (rstr \<times> rstr list) option \<Rightarrow> requirement" where
  "evaluate_action h profile tool risk command =
     (if profile = FullAccess then Auto
      else if needs_human_consent tool then NeedApproval
      else if is_mcp_tool tool then NeedApproval
      else if profile = RequestApproval then
        (if risk = Network \<or> risk = Destructive \<or> risk = Privileged then NeedApproval
         else if is_command_tool tool then
           (if command_is_dangerous h command then NeedApproval
            else if risk = Network then NeedApproval else Auto)
         else if risk = RL_Safe \<or> risk = WorkspaceWrite then Auto else NeedApproval)
      else if is_command_tool tool then
        (if command_is_dangerous h command then NeedApproval else Auto)
      else if risk = RL_Safe \<or> risk = WorkspaceWrite \<or> risk = Network then Auto
      else NeedApproval)"

section \<open>Globs\<close>

definition to_slashes :: "rstr \<Rightarrow> rstr" where
  "to_slashes s = map (\<lambda>c. if c = 92 then 47 else c) s"

text \<open>The segment-aligned suffixes a \<open>**\<close> tries, in order: the text itself, after
  each slash, and at its end.\<close>

function slash_tails :: "rstr \<Rightarrow> rstr list" where
  "slash_tails t =
     t # (if t = [] then []
          else slash_tails (drop 1 (dropWhile (\<lambda>c. c \<noteq> 47) t)))"
  by pat_completeness auto
termination
proof (relation "measure length")
  fix t :: rstr
  assume "t \<noteq> []"
  have "length (dropWhile (\<lambda>c. c \<noteq> 47) t) \<le> length t" by (rule length_dropWhile_le)
  moreover have "length (drop 1 u) < length t" if "length u \<le> length t" for u :: rstr
    using that \<open>t \<noteq> []\<close> by (cases u) auto
  ultimately show "(drop 1 (dropWhile (\<lambda>c. c \<noteq> 47) t), t) \<in> measure length" by simp
qed simp

declare slash_tails.simps [simp del]

text \<open>The suffixes a \<open>*\<close> tries: up to and including the next slash or the end.\<close>

fun segment_tails :: "rstr \<Rightarrow> rstr list" where
  "segment_tails [] = [[]]"
| "segment_tails (c # cs) = (c # cs) # (if c = 47 then [] else segment_tails cs)"

text \<open>\<open>rec\<close> on bytes: a pattern and a text of UTF-8 bytes.\<close>

function glob_rec :: "rstr \<Rightarrow> rstr \<Rightarrow> bool" where
  "glob_rec p t =
     (case p of
        [] \<Rightarrow> t = []
      | c # p1 \<Rightarrow>
          if c = 42 \<and> p1 \<noteq> [] \<and> hd p1 = 42 then
            (let rest = (if tl p1 \<noteq> [] \<and> hd (tl p1) = 47 then tl (tl p1) else tl p1)
             in rest = [] \<or> list_ex (glob_rec rest) (slash_tails t))
          else if c = 42 then list_ex (glob_rec p1) (segment_tails t)
          else if c = 63 then (case t of [] \<Rightarrow> False | d # t1 \<Rightarrow> d \<noteq> 47 \<and> glob_rec p1 t1)
          else (case t of [] \<Rightarrow> False | d # t1 \<Rightarrow> c = d \<and> glob_rec p1 t1))"
  by pat_completeness auto
termination
  by (relation "measure (length \<circ> fst)") (auto simp: neq_Nil_conv split: if_splits)

declare glob_rec.simps [simp del]

definition glob_match :: "rstr \<Rightarrow> rstr \<Rightarrow> bool" where
  "glob_match pattern txt = glob_rec (utf8_encode pattern) (utf8_encode txt)"

definition path_matches_glob :: "rstr \<Rightarrow> rstr \<Rightarrow> bool" where
  "path_matches_glob path pattern = glob_match (to_slashes pattern) (to_slashes path)"

section \<open>Standing rules\<close>

datatype rule_effect = Allow | Ask | Deny

record rule_match =
  rm_tool :: "rstr option"
  rm_command_prefix :: "rstr option"
  rm_command_exact :: "rstr option"
  rm_write_path_glob :: "rstr option"

record permission_rule =
  pr_match :: rule_match
  pr_effect :: rule_effect

datatype rule_decision = RD_Allow | RD_Ask | RD_Deny | NoMatch

text \<open>Each set field must hold; at least one must be set.\<close>

definition tool_ok :: "rule_match \<Rightarrow> rstr \<Rightarrow> bool" where
  "tool_ok m tool = (case rm_tool m of None \<Rightarrow> True | Some t \<Rightarrow> t = tool)"

definition prefix_ok :: "rule_match \<Rightarrow> rstr option \<Rightarrow> bool" where
  "prefix_ok m command_line =
     (case rm_command_prefix m of None \<Rightarrow> True
      | Some p \<Rightarrow> (case command_line of None \<Rightarrow> False | Some cmd \<Rightarrow> starts_with p cmd))"

definition exact_ok :: "rule_match \<Rightarrow> rstr option \<Rightarrow> bool" where
  "exact_ok m command_line =
     (case rm_command_exact m of None \<Rightarrow> True
      | Some e \<Rightarrow> (case command_line of None \<Rightarrow> False | Some cmd \<Rightarrow> trim cmd = e))"

definition paths_ok :: "rule_match \<Rightarrow> rstr list \<Rightarrow> rule_effect \<Rightarrow> bool" where
  "paths_ok m paths effect =
     (case rm_write_path_glob m of None \<Rightarrow> True
      | Some glob \<Rightarrow>
          paths \<noteq> [] \<and>
          (if effect = Allow then list_all (\<lambda>p. path_matches_glob p glob) paths
           else list_ex (\<lambda>p. path_matches_glob p glob) paths))"

definition any_constraint :: "rule_match \<Rightarrow> bool" where
  "any_constraint m \<longleftrightarrow>
     rm_tool m \<noteq> None \<or> rm_command_prefix m \<noteq> None \<or> rm_command_exact m \<noteq> None
     \<or> rm_write_path_glob m \<noteq> None"

definition rule_matches ::
  "rule_match \<Rightarrow> rstr \<Rightarrow> rstr option \<Rightarrow> rstr list \<Rightarrow> rule_effect \<Rightarrow> bool" where
  "rule_matches m tool command_line paths effect \<longleftrightarrow>
     tool_ok m tool \<and> prefix_ok m command_line \<and> exact_ok m command_line \<and>
     paths_ok m paths effect \<and> any_constraint m"

fun evaluate_loop ::
  "permission_rule list \<Rightarrow> rstr \<Rightarrow> rstr option \<Rightarrow> rstr list \<Rightarrow> bool \<Rightarrow> bool \<Rightarrow> bool \<Rightarrow> rule_decision"
  where
  "evaluate_loop [] tool cmd paths saw_allow saw_ask matched =
     (if \<not> matched then NoMatch
      else if saw_ask then RD_Ask else if saw_allow then RD_Allow else NoMatch)"
| "evaluate_loop (r # rs) tool cmd paths saw_allow saw_ask matched =
     (if \<not> rule_matches (pr_match r) tool cmd paths (pr_effect r)
      then evaluate_loop rs tool cmd paths saw_allow saw_ask matched
      else case pr_effect r of
             Deny \<Rightarrow> RD_Deny
           | Ask \<Rightarrow> evaluate_loop rs tool cmd paths saw_allow True True
           | Allow \<Rightarrow> evaluate_loop rs tool cmd paths True saw_ask True)"

definition evaluate_rules ::
  "permission_rule list \<Rightarrow> rstr \<Rightarrow> rstr option \<Rightarrow> rstr list \<Rightarrow> rule_decision" where
  "evaluate_rules rules tool cmd paths = evaluate_loop rules tool cmd paths False False False"

definition rule_set_extend :: "permission_rule list \<Rightarrow> permission_rule list \<Rightarrow> permission_rule list" where
  "rule_set_extend rules other = rules @ other"

definition tool_rule :: "rstr \<Rightarrow> rstr option \<Rightarrow> rstr option \<Rightarrow> permission_rule" where
  "tool_rule tool exact glob =
     \<lparr>pr_match = \<lparr>rm_tool = Some tool, rm_command_prefix = None, rm_command_exact = exact,
                    rm_write_path_glob = glob\<rparr>, pr_effect = Allow\<rparr>"

definition command_rule :: "rstr \<Rightarrow> rstr option \<Rightarrow> permission_rule list" where
  "command_rule tool command =
     (case command of None \<Rightarrow> []
      | Some c \<Rightarrow> if trim c = [] then [] else [tool_rule tool (Some (trim c)) None])"

definition always_rules_for :: "rstr \<Rightarrow> rstr option \<Rightarrow> rstr list \<Rightarrow> permission_rule list" where
  "always_rules_for tool command paths =
     (if needs_human_consent tool then []
      else if one_of [''run_command'', ''shell_command''] tool then command_rule tool command
      else if one_of [''apply_patch'', ''replace''] tool then
        map (\<lambda>p. tool_rule tool None (Some (trim p))) (filter (\<lambda>p. trim p \<noteq> []) paths)
      else if starts_with (lit ''mcp__'') tool then [tool_rule tool None None]
      else [])"

text \<open>Appending to a rules file: what the file holds (None when it is missing), the
  parser of its YAML, and the list to write back, None when nothing is written.\<close>

definition append_rule_file ::
  "(rstr \<Rightarrow> rstr + permission_rule list) \<Rightarrow> rstr option \<Rightarrow> permission_rule
     \<Rightarrow> rstr + permission_rule list option" where
  "append_rule_file parse raw rule =
     (case (case raw of None \<Rightarrow> Inr [] | Some txt \<Rightarrow> if trim txt = [] then Inr [] else parse txt) of
        Inl e \<Rightarrow> Inl e
      | Inr rules \<Rightarrow> Inr (if rule \<in> set rules then None else Some (rules @ [rule])))"

text \<open>Loading one: a missing file is no rules, a bad one an error.\<close>

definition load_rules_file ::
  "(rstr \<Rightarrow> rstr + permission_rule list) \<Rightarrow> rstr option \<Rightarrow> rstr + permission_rule list" where
  "load_rules_file parse raw = (case raw of None \<Rightarrow> Inr [] | Some txt \<Rightarrow> parse txt)"

definition rules_or_default :: "rstr + permission_rule list \<Rightarrow> permission_rule list" where
  "rules_or_default r = (case r of Inl _ \<Rightarrow> [] | Inr rules \<Rightarrow> rules)"

section \<open>Resource grants\<close>

datatype capability =
    RepositoryRead | RepositoryMutate | RepositoryMetadataWrite | RepositoryConfigWrite
  | RepositoryDestroy | RemoteRead | RemoteMutate | RemoteForce | FilesystemRead
  | FilesystemWrite | FilesystemDelete | BackgroundTaskObserve | BackgroundTaskControl
  | ExternalProcessControl | CredentialUse | CredentialRawRead | CredentialRawWrite

datatype resource_identity =
    Repository rstr
  | ConfiguredRemote rstr rstr rstr rstr
  | FilesystemPath rstr rstr
  | BackgroundTask rstr rstr rstr rstr
  | ExternalProcess nat rstr
  | Credential rstr rstr rstr rstr

record grant_binding =
  gb_capability :: capability
  gb_resource :: resource_identity

record grant_request =
  gr_project_identity :: rstr
  gr_bindings :: "grant_binding list"

datatype grant_scope = GS_Once | GS_Session | GS_Project

section \<open>Approval requests\<close>

text \<open>The fields of a request the decisions read.\<close>

record approval_request =
  ar_tool :: rstr
  ar_risk :: risk_level
  ar_command :: "rstr option"
  ar_paths :: "rstr list"
  ar_grant :: "grant_request option"

datatype approval_decision = ApproveOnce | ApproveSession | ApproveProject | ApproveAlways | AD_Deny

definition requires_human_consent :: "approval_request \<Rightarrow> bool" where
  "requires_human_consent r = needs_human_consent (ar_tool r)"

definition project_available :: "approval_request \<Rightarrow> bool" where
  "project_available r \<longleftrightarrow>
     \<not> requires_human_consent r \<and>
     (case ar_grant r of None \<Rightarrow> False
      | Some g \<Rightarrow> gr_project_identity g \<noteq> [] \<and> gr_bindings g \<noteq> [])"

definition always_persists :: "approval_request \<Rightarrow> bool" where
  "always_persists r \<longleftrightarrow>
     ar_grant r = None \<and> \<not> requires_human_consent r \<and>
     always_rules_for (ar_tool r) (ar_command r) (ar_paths r) \<noteq> []"

definition decisions :: "approval_request \<Rightarrow> approval_decision list" where
  "decisions r =
     (if requires_human_consent r then [ApproveOnce, AD_Deny]
      else [ApproveOnce, ApproveSession]
             @ (if project_available r then [ApproveProject]
                else if always_persists r then [ApproveAlways] else [])
             @ [AD_Deny])"

definition auto_approve :: "approval_request \<Rightarrow> approval_decision" where
  "auto_approve r = (if requires_human_consent r then AD_Deny else ApproveOnce)"

definition is_escalation_tool :: "rstr \<Rightarrow> bool" where
  "is_escalation_tool tool = one_of [''request_permissions'', ''ask_permission''] tool"

definition eval_approve :: "approval_request \<Rightarrow> approval_decision" where
  "eval_approve r =
     (if requires_human_consent r then AD_Deny
      else if is_escalation_tool (ar_tool r) \<or> ar_risk r = Privileged then AD_Deny
      else ApproveOnce)"

definition auto_deny :: "approval_request \<Rightarrow> approval_decision" where
  "auto_deny r = AD_Deny"

section \<open>The policy of an admitted call\<close>

datatype authorization_evidence =
    Policy permission_profile
  | Rule
  | Reviewer
  | ApprovedOnce
  | SessionGrant rstr
  | ApprovedAlways
  | ResourceGrant grant_request grant_scope

record execution_policy =
  ep_write :: write_scope
  ep_network_scope :: network_scope
  ep_authorization :: authorization_evidence

definition unrestricted_execution :: "execution_policy \<Rightarrow> bool" where
  "unrestricted_execution p =
     (case ep_authorization p of
        ResourceGrant _ _ \<Rightarrow> False
      | Policy profile \<Rightarrow> profile = FullAccess
      | _ \<Rightarrow> True)"

definition resource_grant :: "execution_policy \<Rightarrow> grant_request option" where
  "resource_grant p = (case ep_authorization p of ResourceGrant r _ \<Rightarrow> Some r | _ \<Rightarrow> None)"

definition allows_resource :: "execution_policy \<Rightarrow> capability \<Rightarrow> resource_identity \<Rightarrow> bool" where
  "allows_resource p cap res =
     (case resource_grant p of None \<Rightarrow> False
      | Some r \<Rightarrow> list_ex (\<lambda>b. gb_capability b = cap \<and> gb_resource b = res) (gr_bindings r))"

definition execution_policy_new ::
  "write_scope \<Rightarrow> network_scope \<Rightarrow> authorization_evidence \<Rightarrow> execution_policy" where
  "execution_policy_new w n a =
     (let p = \<lparr>ep_write = w, ep_network_scope = n, ep_authorization = a\<rparr>
      in if unrestricted_execution p then p\<lparr>ep_write := Unrestricted, ep_network_scope := Internet\<rparr> else p)"

record pending_approval =
  pa_signature :: rstr
  pa_write :: write_scope
  pa_network_scope :: network_scope

definition pending_allowed :: "pending_approval \<Rightarrow> authorization_evidence \<Rightarrow> execution_policy" where
  "pending_allowed p a = execution_policy_new (pa_write p) (pa_network_scope p) a"

end
