(* ===== verification/Permission_Correct.thy ===== *)
theory Permission_Correct
  imports Permission
begin

text \<open>
  What the permission layer guarantees: the profiles are ordered by precedence, the
  strictest matching rule decides whatever the order of the rules, a glob matches
  what its declarative reading says, an \<open>always\<close> answer covers the approved action,
  and a resource grant never widens an execution boundary.
\<close>

section \<open>Profiles\<close>

text \<open>The profiles are ordered.  What runs unasked under the stricter confined
  profile runs unasked under the default one, and everything does under full access;
  under both confined profiles a consent tool, a tool of an external server and a
  command classified dangerous are asked for, whatever risk the tool declares; no
  action is forbidden outright.\<close>

theorem profiles_ordered:
  "(evaluate_action h RequestApproval tool risk command = Auto \<longrightarrow>
      evaluate_action h Assisted tool risk command = Auto) \<and>
   evaluate_action h FullAccess tool risk command = Auto \<and>
   (profile \<noteq> FullAccess \<and>
      (needs_human_consent tool \<or> is_mcp_tool tool \<or>
       (is_command_tool tool \<and> command_is_dangerous h command)) \<longrightarrow>
      evaluate_action h profile tool risk command = NeedApproval) \<and>
   evaluate_action h profile tool risk command \<noteq> Forbidden"
  by (cases profile; cases risk) (auto simp: evaluate_action_def)

theorem profiles_ordered_witness:
  "evaluate_action \<lparr>sh_parse = \<lambda>_. None, sh_shared_temp = \<lambda>_. False\<rparr> Assisted (lit ''mcp__db__drop'') RL_Safe None
     = NeedApproval"
  using profiles_ordered [of "\<lparr>sh_parse = \<lambda>_. None, sh_shared_temp = \<lambda>_. False\<rparr>" "lit ''mcp__db__drop''" RL_Safe None Assisted]
  by (simp add: is_mcp_tool_def starts_with_def lit_def)

lemma profile_roundtrip: "profile_parse (profile_as_str p) = Some p"
proof -
  have "trim (profile_as_str p) = profile_as_str p"
    by (cases p) (auto intro!: trim_ascii_word simp: lit_def is_whitespace_def)
  then show ?thesis by (cases p) (simp_all add: profile_parse_def one_of_def Let_def)
qed

lemma profile_cell: "shared_get (shared_set p cell) = p" "shared_get (shared_new p) = p"
  by (cases p; simp add: shared_get_def shared_set_def shared_new_def profile_from_code_def)+

section \<open>Rules\<close>

fun precedence :: "rule_decision \<Rightarrow> nat" where
  "precedence NoMatch = 0"
| "precedence RD_Allow = 1"
| "precedence RD_Ask = 2"
| "precedence RD_Deny = 3"

fun effect_decision :: "rule_effect \<Rightarrow> rule_decision" where
  "effect_decision Allow = RD_Allow"
| "effect_decision Ask = RD_Ask"
| "effect_decision Deny = RD_Deny"

definition rule_says :: "rstr \<Rightarrow> rstr option \<Rightarrow> rstr list \<Rightarrow> permission_rule \<Rightarrow> rule_decision" where
  "rule_says tool cmd paths r =
     (if rule_matches (pr_match r) tool cmd paths (pr_effect r) then effect_decision (pr_effect r)
      else NoMatch)"

definition seen :: "bool \<Rightarrow> bool \<Rightarrow> nat" where
  "seen saw_allow saw_ask = (if saw_ask then 2 else if saw_allow then 1 else 0)"

lemma precedence_inj: "precedence v = precedence w \<Longrightarrow> v = w"
  by (cases v; cases w) auto

lemma loop_precedence:
  "matched = (saw_allow \<or> saw_ask) \<Longrightarrow>
     precedence (evaluate_loop rs tool cmd paths saw_allow saw_ask matched) =
       max (seen saw_allow saw_ask) (foldr (\<lambda>r. max (precedence (rule_says tool cmd paths r))) rs 0)"
proof (induction rs tool cmd paths saw_allow saw_ask matched rule: evaluate_loop.induct)
  case (1 tool cmd paths saw_allow saw_ask matched)
  then show ?case by (simp add: seen_def)
next
  case (2 r rs tool cmd paths saw_allow saw_ask matched)
  have le: "precedence d \<le> 3" for d by (cases d) auto
  have le': "foldr (\<lambda>r. max (precedence (rule_says tool cmd paths r))) rs 0 \<le> 3"
    by (induction rs) (auto simp: le)
  show ?case
  proof (cases "rule_matches (pr_match r) tool cmd paths (pr_effect r)")
    case False
    then show ?thesis using 2 by (simp add: rule_says_def)
  next
    case True
    then show ?thesis
      using 2 le' by (cases "pr_effect r") (auto simp: rule_says_def seen_def)
  qed
qed

interpretation rules: strictest_verdict
  "\<lambda>rs. evaluate_rules rs tool cmd paths" "rule_says tool cmd paths" precedence for tool cmd paths
proof
  show "precedence v = precedence w \<Longrightarrow> v = w" for v w by (rule precedence_inj)
  show "precedence (evaluate_rules rs tool cmd paths) =
      foldr (\<lambda>r. max (precedence (rule_says tool cmd paths r))) rs 0" for rs
    by (simp add: evaluate_rules_def loop_precedence seen_def)
qed

text \<open>
  C5. The strictest matching rule decides.  A call is denied exactly when some
  matching rule denies it, asked for exactly when none denies and some matching rule
  asks, left to the policy exactly when no rule matches; so the order and the number
  of copies of the rules are irrelevant, and merging in more rules (the project's
  after the user's) never lifts a denial, nor turns a question into a permission.\<close>

theorem strictest_rule_decides:
  "(evaluate_rules rs tool cmd paths = RD_Deny \<longleftrightarrow> (\<exists>r \<in> set rs. rule_says tool cmd paths r = RD_Deny)) \<and>
   (evaluate_rules rs tool cmd paths = RD_Ask \<longleftrightarrow>
      (\<exists>r \<in> set rs. rule_says tool cmd paths r = RD_Ask) \<and>
      \<not> (\<exists>r \<in> set rs. rule_says tool cmd paths r = RD_Deny)) \<and>
   (evaluate_rules rs tool cmd paths = NoMatch \<longleftrightarrow>
      (\<forall>r \<in> set rs. \<not> rule_matches (pr_match r) tool cmd paths (pr_effect r))) \<and>
   (set rs = set rs' \<longrightarrow> evaluate_rules rs tool cmd paths = evaluate_rules rs' tool cmd paths) \<and>
   (evaluate_rules rs tool cmd paths = RD_Deny \<longrightarrow>
      evaluate_rules (rule_set_extend rs other) tool cmd paths = RD_Deny) \<and>
   (evaluate_rules rs tool cmd paths = RD_Ask \<longrightarrow>
      evaluate_rules (rule_set_extend rs other) tool cmd paths \<in> {RD_Ask, RD_Deny})"
proof -
  let ?v = "evaluate_rules rs tool cmd paths" and ?one = "rule_says tool cmd paths"
    and ?w = "evaluate_rules (rule_set_extend rs other) tool cmd paths"
  have le: "precedence ?v \<le> n \<longleftrightarrow> (\<forall>r \<in> set rs. precedence (?one r) \<le> n)" for n
    by (rule rules.judge_le_iff)
  have s: "precedence d \<le> 2 \<longleftrightarrow> d \<noteq> RD_Deny" "precedence d \<le> 1 \<longleftrightarrow> d \<noteq> RD_Deny \<and> d \<noteq> RD_Ask"
    "precedence d \<le> 0 \<longleftrightarrow> d = NoMatch" for d by (cases d; simp)+
  have nm: "?one r = NoMatch \<longleftrightarrow> \<not> rule_matches (pr_match r) tool cmd paths (pr_effect r)" for r
    by (cases "pr_effect r") (simp_all add: rule_says_def)
  have ne: "RD_Deny \<noteq> RD_Ask" by simp
  have deny: "?v = RD_Deny \<longleftrightarrow> (\<exists>r \<in> set rs. ?one r = RD_Deny)" using le [of 2, unfolded s(1)] by blast
  have ask: "?v = RD_Ask \<longleftrightarrow> (\<exists>r \<in> set rs. ?one r = RD_Ask) \<and> \<not> (\<exists>r \<in> set rs. ?one r = RD_Deny)"
    using le [of 1, unfolded s(2)] deny ne by metis
  have none: "?v = NoMatch \<longleftrightarrow> (\<forall>r \<in> set rs. \<not> rule_matches (pr_match r) tool cmd paths (pr_effect r))"
    using le [of 0, unfolded s(3) nm] .
  have "set rs = set rs' \<longrightarrow> ?v = evaluate_rules rs' tool cmd paths" by (blast intro: rules.judge_set)
  moreover have "?v = RD_Deny \<longrightarrow> ?w = RD_Deny" "?v = RD_Ask \<longrightarrow> ?w \<in> {RD_Ask, RD_Deny}"
    using rules.judge_append [of rs other tool cmd paths]
    by (cases ?w; auto simp: rule_set_extend_def max_def split: if_splits)+
  ultimately show ?thesis using deny ask none by - (intro conjI; assumption)
qed

definition any_tool :: "rule_effect \<Rightarrow> permission_rule" where
  "any_tool e =
     \<lparr>pr_match = \<lparr>rm_tool = Some (lit ''replace''), rm_command_prefix = None, rm_command_exact = None,
                    rm_write_path_glob = None\<rparr>, pr_effect = e\<rparr>"

theorem strictest_rule_decides_witness:
  "evaluate_rules [any_tool Deny, any_tool Allow] (lit ''replace'') None [] =
   evaluate_rules [any_tool Allow, any_tool Deny] (lit ''replace'') None []"
  using strictest_rule_decides [of "[any_tool Deny, any_tool Allow]" "lit ''replace''" None "[]"
      "[any_tool Allow, any_tool Deny]" "[]"]
  by (simp add: insert_commute)

section \<open>Globs\<close>

text \<open>The declarative reading of a pattern of bytes.\<close>

inductive glob :: "rstr \<Rightarrow> rstr \<Rightarrow> bool" where
  glob_end: "glob [] []"
| glob_rest: "glob [42, 42] t"
| glob_rest_dir: "glob [42, 42, 47] t"
| glob_dirs: "glob (c # p) t \<Longrightarrow> c \<noteq> 47 \<Longrightarrow> pre = [] \<or> last pre = 47 \<or> t = [] \<Longrightarrow>
    glob (42 # 42 # c # p) (pre @ t)"
| glob_dirs_dir: "glob (c # p) t \<Longrightarrow> pre = [] \<or> last pre = 47 \<or> t = [] \<Longrightarrow>
    glob (42 # 42 # 47 # c # p) (pre @ t)"
| glob_star: "glob p t \<Longrightarrow> p = [] \<or> hd p \<noteq> 42 \<Longrightarrow> 47 \<notin> set pre \<Longrightarrow> glob (42 # p) (pre @ t)"
| glob_any: "glob p t \<Longrightarrow> d \<noteq> 47 \<Longrightarrow> glob (63 # p) (d # t)"
| glob_char: "glob p t \<Longrightarrow> c \<noteq> 42 \<Longrightarrow> c \<noteq> 63 \<Longrightarrow> glob (c # p) (c # t)"

lemma slash_tails_set:
  "u \<in> set (slash_tails t) \<longleftrightarrow> (\<exists>pre. t = pre @ u \<and> (pre = [] \<or> last pre = 47 \<or> u = []))"
proof (induction t rule: slash_tails.induct)
  case (1 t)
  show ?case
  proof (cases "t = []")
    case True
    then show ?thesis by (subst slash_tails.simps) auto
  next
    case False
    let ?a = "takeWhile (\<lambda>c. c \<noteq> 47) t" and ?b = "dropWhile (\<lambda>c. c \<noteq> 47) t"
    have t: "t = ?a @ ?b" by simp
    have no: "47 \<notin> set ?a" by (auto dest: set_takeWhileD)
    have hd_b: "?b \<noteq> [] \<Longrightarrow> hd ?b = 47" using hd_dropWhile [of "\<lambda>c. c \<noteq> 47" t] by simp
    have IH: "u \<in> set (slash_tails (drop 1 ?b)) \<longleftrightarrow>
        (\<exists>pre. drop 1 ?b = pre @ u \<and> (pre = [] \<or> last pre = 47 \<or> u = []))"
      using "1.IH" [OF False] .
    have step: "u \<in> set (slash_tails t) \<longleftrightarrow> u = t \<or> u \<in> set (slash_tails (drop 1 ?b))"
      by (subst slash_tails.simps) (simp add: False)
    have "(\<exists>pre. drop 1 ?b = pre @ u \<and> (pre = [] \<or> last pre = 47 \<or> u = [])) \<longleftrightarrow>
        (\<exists>pre. pre \<noteq> [] \<and> t = pre @ u \<and> (last pre = 47 \<or> u = []))"
    proof (cases "?b = []")
      case True
      then have "47 \<notin> set t" by auto
      moreover have "(\<exists>pre. pre \<noteq> [] \<and> t = pre @ u \<and> (last pre = 47 \<or> u = [])) \<longleftrightarrow> u = []"
        using False \<open>47 \<notin> set t\<close> by (metis append_Nil2 in_set_conv_decomp last_in_set set_append UnCI)
      moreover have "(\<exists>pre. [] = pre @ u \<and> (pre = [] \<or> last pre = 47 \<or> u = [])) \<longleftrightarrow> u = []" by auto
      ultimately show ?thesis unfolding True drop_Nil by blast
    next
      case nonempty: False
      obtain b where b: "?b = 47 # b" using nonempty hd_b by (metis list.collapse)
      then have t': "t = ?a @ 47 # b" using t by simp
      show ?thesis
      proof
        assume "\<exists>pre. drop 1 ?b = pre @ u \<and> (pre = [] \<or> last pre = 47 \<or> u = [])"
        then obtain pre where "b = pre @ u" "pre = [] \<or> last pre = 47 \<or> u = []" using b by auto
        then have "t = (?a @ 47 # pre) @ u" "last (?a @ 47 # pre) = 47 \<or> u = []" using t' by auto
        then show "\<exists>pre. pre \<noteq> [] \<and> t = pre @ u \<and> (last pre = 47 \<or> u = [])" by blast
      next
        assume "\<exists>pre. pre \<noteq> [] \<and> t = pre @ u \<and> (last pre = 47 \<or> u = [])"
        then obtain pre where pre: "pre \<noteq> []" "t = pre @ u" "last pre = 47 \<or> u = []" by blast
        have "\<exists>q. pre = ?a @ 47 # q \<and> b = q @ u"
        proof -
          have eq: "pre @ u = ?a @ 47 # b" using pre(2) t' by simp
          have "length ?a < length pre"
          proof (rule ccontr)
            assume "\<not> length ?a < length pre"
            then obtain w where "?a = pre @ w"
              using eq unfolding append_eq_append_conv2 by (metis append_Nil2 length_append less_add_Suc1 list.size(4) add_Suc_right neq_Nil_conv)
            then have "47 \<notin> set pre" "u \<noteq> []" using no eq by auto
            then show False using pre(1,3) last_in_set by fastforce
          qed
          moreover obtain w where w: "(pre = ?a @ w \<and> w @ u = 47 # b) \<or> (pre @ w = ?a \<and> u = w @ 47 # b)"
            using eq unfolding append_eq_append_conv2 by blast
          moreover have "pre @ w \<noteq> ?a" using \<open>length ?a < length pre\<close> by (metis length_append not_add_less1)
          ultimately have "pre = ?a @ w" "w @ u = 47 # b" by blast+
          moreover have "w \<noteq> []" using calculation(1) \<open>length ?a < length pre\<close> by (metis append_Nil2 less_irrefl)
          ultimately show ?thesis by (cases w) auto
        qed
        then obtain q where "pre = ?a @ 47 # q" "b = q @ u" by blast
        then show "\<exists>pre. drop 1 ?b = pre @ u \<and> (pre = [] \<or> last pre = 47 \<or> u = [])"
          using pre(3) b by (intro exI [of _ q]) (auto split: if_splits)
      qed
    qed
    moreover have "(\<exists>pre. t = pre @ u \<and> (pre = [] \<or> last pre = 47 \<or> u = [])) \<longleftrightarrow>
        u = t \<or> (\<exists>pre. pre \<noteq> [] \<and> t = pre @ u \<and> (last pre = 47 \<or> u = []))" by auto
    ultimately show ?thesis using step IH by simp
  qed
qed

lemma segment_tails_set: "u \<in> set (segment_tails t) \<longleftrightarrow> (\<exists>pre. t = pre @ u \<and> 47 \<notin> set pre)"
proof (induction t rule: segment_tails.induct)
  case (2 c cs)
  then show ?case by (cases "c = 47") (auto simp: Cons_eq_append_conv)
qed auto

lemma glob_rec_Nil: "glob_rec [] t \<longleftrightarrow> t = []"
  by (subst glob_rec.simps) simp

lemma glob_rec_dirs:
  "glob_rec (42 # 42 # p) t \<longleftrightarrow>
     (let rest = (if p \<noteq> [] \<and> hd p = 47 then tl p else p)
      in rest = [] \<or> (\<exists>pre u. t = pre @ u \<and> (pre = [] \<or> last pre = 47 \<or> u = []) \<and> glob_rec rest u))"
  by (subst glob_rec.simps) (simp add: Let_def list_ex_iff Bex_def slash_tails_set, blast)

lemma glob_rec_star:
  "p = [] \<or> hd p \<noteq> 42 \<Longrightarrow>
     glob_rec (42 # p) t \<longleftrightarrow> (\<exists>pre u. t = pre @ u \<and> 47 \<notin> set pre \<and> glob_rec p u)"
  by (subst glob_rec.simps) (auto simp: list_ex_iff Bex_def segment_tails_set; blast)

lemma glob_rec_any: "glob_rec (63 # p) t \<longleftrightarrow> (\<exists>d u. t = d # u \<and> d \<noteq> 47 \<and> glob_rec p u)"
  by (subst glob_rec.simps) (auto split: list.splits)

lemma glob_rec_char:
  "c \<noteq> 42 \<Longrightarrow> c \<noteq> 63 \<Longrightarrow> glob_rec (c # p) t \<longleftrightarrow> (\<exists>u. t = c # u \<and> glob_rec p u)"
  by (subst glob_rec.simps) (auto split: list.splits)

lemma glob_rec_complete: "glob p t \<Longrightarrow> glob_rec p t"
proof (induction rule: glob.induct)
  case glob_end
  show ?case by (simp add: glob_rec_Nil)
next
  case (glob_rest t)
  show ?case by (simp add: glob_rec_dirs)
next
  case (glob_rest_dir t)
  show ?case by (simp add: glob_rec_dirs)
next
  case (glob_dirs c p t pre)
  then show ?case by (auto simp: glob_rec_dirs)
next
  case (glob_dirs_dir c p t pre)
  then show ?case by (auto simp: glob_rec_dirs)
next
  case (glob_star p t pre)
  then show ?case by (auto simp: glob_rec_star)
next
  case (glob_any p t d)
  then show ?case by (simp add: glob_rec_any)
next
  case (glob_char p t c)
  then show ?case by (simp add: glob_rec_char)
qed

lemma glob_rec_sound: "glob_rec p t \<Longrightarrow> glob p t"
proof (induction "length p" arbitrary: p t rule: less_induct)
  case less
  show ?case
  proof (cases p)
    case Nil
    then show ?thesis using less.prems by (simp add: glob_rec_Nil glob_end)
  next
    case (Cons c p1)
    consider (dirs) p2 where "c = 42" "p1 = 42 # p2" | (star) "c = 42" "p1 = [] \<or> hd p1 \<noteq> 42"
      | (any) "c = 63" | (char) "c \<noteq> 42" "c \<noteq> 63"
      by (cases p1) auto
    then show ?thesis
    proof cases
      case dirs
      show ?thesis
      proof (cases "p2 = [] \<or> p2 = [47]")
        case True
        then show ?thesis using Cons dirs glob_rest glob_rest_dir by auto
      next
        case False
        define rest where "rest = (if hd p2 = 47 then tl p2 else p2)"
        have rest: "rest \<noteq> []" using False by (cases p2) (auto simp: rest_def)
        then obtain pre u where u: "t = pre @ u" "pre = [] \<or> last pre = 47 \<or> u = []" "glob_rec rest u"
          using less.prems Cons dirs False by (auto simp: glob_rec_dirs Let_def rest_def)
        have "length rest < length p" using Cons dirs by (cases p2) (auto simp: rest_def)
        then have g: "glob rest u" using less.hyps u(3) by blast
        obtain d p3 where rest_eq: "rest = d # p3" using rest by (cases rest) auto
        show ?thesis
        proof (cases "hd p2 = 47")
          case True
          then have "p2 = 47 # d # p3" using rest_eq False by (cases p2) (auto simp: rest_def)
          then show ?thesis using Cons dirs u(1,2) g rest_eq glob_dirs_dir by simp
        next
          case other: False
          then have "p2 = d # p3" "d \<noteq> 47" using rest_eq by (auto simp: rest_def)
          then show ?thesis using Cons dirs u(1,2) g rest_eq glob_dirs by simp
        qed
      qed
    next
      case star
      then obtain pre u where "t = pre @ u" "47 \<notin> set pre" "glob_rec p1 u"
        using less.prems Cons by (auto simp: glob_rec_star)
      then show ?thesis using less.hyps [of p1] Cons star by (auto intro: glob_star)
    next
      case any
      then obtain d u where "t = d # u" "d \<noteq> 47" "glob_rec p1 u"
        using less.prems Cons by (auto simp: glob_rec_any)
      then show ?thesis using less.hyps [of p1] Cons any by (auto intro: glob_any)
    next
      case char
      then obtain u where "t = c # u" "glob_rec p1 u"
        using less.prems Cons by (auto simp: glob_rec_char)
      then show ?thesis using less.hyps [of p1] Cons char by (auto intro: glob_char)
    qed
  qed
qed

lemma glob_rec_plain:
  "42 \<notin> set p \<Longrightarrow> 63 \<notin> set p \<Longrightarrow> glob_rec (p @ q) t \<longleftrightarrow> (\<exists>u. t = p @ u \<and> glob_rec q u)"
  by (induction p arbitrary: t) (auto simp: glob_rec_char)

lemma utf8_encode_ascii: "set s \<subseteq> {..<128} \<Longrightarrow> utf8_encode s = s"
  by (induction s) (auto simp: utf8_encode_def utf8_char_def)

text \<open>
  C12. On ASCII patterns and paths the backtracking matcher decides exactly the
  documented reading of a glob: \<open>**\<close> any run of whole segments, \<open>*\<close> a run inside a
  segment, \<open>?\<close> one character that is no slash.  On any text a pattern without wildcards
  matches exactly itself, and \<open>dir/**\<close> exactly what is below \<open>dir\<close>.  Outside ASCII the
  reading fails for \<open>?\<close>, which takes one byte: it does not match the one-character path
  U+00E9, which two of them match.
\<close>

theorem glob_matches_declaratively:
  "(set pattern \<subseteq> {..<128} \<and> set txt \<subseteq> {..<128} \<longrightarrow> (glob_match pattern txt \<longleftrightarrow> glob pattern txt)) \<and>
   (42 \<notin> set (utf8_encode pattern) \<and> 63 \<notin> set (utf8_encode pattern) \<longrightarrow>
      (glob_match pattern txt \<longleftrightarrow> utf8_encode txt = utf8_encode pattern) \<and>
      (glob_match (pattern @ lit ''/**'') txt \<longleftrightarrow>
         (\<exists>below. utf8_encode txt = utf8_encode pattern @ 47 # below))) \<and>
   \<not> glob_match (lit ''?'') [233] \<and> glob_match (lit ''??'') [233]"
proof -
  have "glob_rec (utf8_encode pattern @ [47, 42, 42]) t \<longleftrightarrow> (\<exists>below. t = utf8_encode pattern @ 47 # below)"
    if "42 \<notin> set (utf8_encode pattern)" "63 \<notin> set (utf8_encode pattern)" for t
    using that by (auto simp: glob_rec_plain glob_rec_char glob_rec_dirs)
  moreover have "utf8_encode (lit ''/**'') = [47, 42, 42]"
    by (simp add: utf8_encode_def utf8_char_def lit_def)
  moreover have "glob_rec (utf8_encode pattern) t \<longleftrightarrow> t = utf8_encode pattern"
    if "42 \<notin> set (utf8_encode pattern)" "63 \<notin> set (utf8_encode pattern)" for t
    using glob_rec_plain [OF that, of "[]"] by (simp add: glob_rec_Nil)
  moreover have "glob_match pattern txt \<longleftrightarrow> glob pattern txt"
    if "set pattern \<subseteq> {..<128} \<and> set txt \<subseteq> {..<128}"
    using that glob_rec_sound glob_rec_complete by (auto simp: glob_match_def utf8_encode_ascii)
  moreover have "\<not> glob_match (lit ''?'') [233]" and "glob_match (lit ''??'') [233]"
    by (simp_all add: glob_match_def utf8_encode_def utf8_char_def lit_def glob_rec_any glob_rec_Nil)
  ultimately show ?thesis by (auto simp: glob_match_def)
qed

theorem glob_matches_declaratively_witness:
  "glob_match (lit ''src/**'') (lit ''src/a/b.rs'') \<and> \<not> glob_match (lit ''src/**'') (lit ''srcs'') \<and>
   (glob_match (lit ''a?'') (lit ''ab'') \<longleftrightarrow> glob (lit ''a?'') (lit ''ab''))"
proof -
  have "42 \<notin> set (utf8_encode (lit ''src''))" "63 \<notin> set (utf8_encode (lit ''src''))"
    by (simp_all add: utf8_encode_def utf8_char_def lit_def)
  moreover have "set (lit ''a?'') \<subseteq> {..<128} \<and> set (lit ''ab'') \<subseteq> {..<128}" by (simp add: lit_def)
  ultimately show ?thesis
    using glob_matches_declaratively [of "lit ''src''" "lit ''src/a/b.rs''"]
      glob_matches_declaratively [of "lit ''src''" "lit ''srcs''"]
      glob_matches_declaratively [of "lit ''a?''" "lit ''ab''"]
    by (simp add: utf8_encode_def utf8_char_def lit_def)
qed

section \<open>What an always answer stands for\<close>

definition plain_path :: "rstr \<Rightarrow> bool" where
  "plain_path p \<longleftrightarrow> trim p = p \<and> p \<noteq> [] \<and> 42 \<notin> set p \<and> 63 \<notin> set p"

definition same_path :: "rstr \<Rightarrow> rstr \<Rightarrow> bool" where
  "same_path p q \<longleftrightarrow> utf8_encode (to_slashes p) = utf8_encode (to_slashes q)"

lemma plain_path_glob:
  assumes "plain_path g"
  shows "path_matches_glob p g \<longleftrightarrow> same_path p g"
proof -
  have no: "42 \<notin> set (to_slashes g)" "63 \<notin> set (to_slashes g)"
    using assms by (auto simp: plain_path_def to_slashes_def)
  then have "42 \<notin> set (utf8_encode (to_slashes g))" "63 \<notin> set (utf8_encode (to_slashes g))"
    by (simp_all add: utf8_encode_no_ascii)
  from glob_rec_plain [OF this, of "[]"] show ?thesis
    by (simp add: path_matches_glob_def glob_match_def same_path_def glob_rec_Nil)
qed

lemma command_rule_matches:
  "rule_matches (pr_match (tool_rule tool (Some e) None)) tool' cmd paths Allow \<longleftrightarrow>
     tool = tool' \<and> (\<exists>c. cmd = Some c \<and> trim c = e)"
  by (auto simp: rule_matches_def tool_rule_def tool_ok_def prefix_ok_def exact_ok_def paths_ok_def
      any_constraint_def split: option.splits)

lemma path_rule_matches:
  "rule_matches (pr_match (tool_rule tool None (Some g))) tool' cmd paths Allow \<longleftrightarrow>
     tool = tool' \<and> paths \<noteq> [] \<and> list_all (\<lambda>p. path_matches_glob p g) paths"
  by (auto simp: rule_matches_def tool_rule_def tool_ok_def prefix_ok_def exact_ok_def paths_ok_def
      any_constraint_def)

lemma tool_rule_effect [simp]: "pr_effect (tool_rule tool e g) = Allow"
  by (simp add: tool_rule_def)

text \<open>What \<open>always\<close> makes durable.  For a command it is the approved command
  identity, and nothing else of that tool; for an edit of one plain path it is that
  path of that tool, and no other path; for the tools that need a person's consent it
  is nothing.\<close>

theorem always_is_exact:
  "(is_command_tool tool \<and> trim c \<noteq> [] \<longrightarrow>
      evaluate_rules (always_rules_for tool (Some c) paths) tool' (Some c') paths'
        = (if tool' = tool \<and> trim c' = trim c then RD_Allow else NoMatch)) \<and>
   (one_of [''apply_patch'', ''replace''] tool \<and> plain_path p \<longrightarrow>
      evaluate_rules (always_rules_for tool cmd [p]) tool' cmd' [q]
        = (if tool' = tool \<and> same_path q p then RD_Allow else NoMatch)) \<and>
   (needs_human_consent tool \<longrightarrow> always_rules_for tool cmd paths = [])"
proof (intro conjI impI)
  assume c: "is_command_tool tool \<and> trim c \<noteq> []"
  then have "\<not> needs_human_consent tool"
    by (auto simp: is_command_tool_def needs_human_consent_def is_agent_definition_write_tool_def one_of_def)
  then have "always_rules_for tool (Some c) paths = [tool_rule tool (Some (trim c)) None]"
    using c by (simp add: always_rules_for_def is_command_tool_def command_rule_def)
  then show "evaluate_rules (always_rules_for tool (Some c) paths) tool' (Some c') paths'
      = (if tool' = tool \<and> trim c' = trim c then RD_Allow else NoMatch)"
    by (auto simp: evaluate_rules_def command_rule_matches)
next
  assume e: "one_of [''apply_patch'', ''replace''] tool \<and> plain_path p"
  then have "\<not> needs_human_consent tool" "\<not> one_of [''run_command'', ''shell_command''] tool"
    by (auto simp: needs_human_consent_def is_agent_definition_write_tool_def one_of_def)
  then have "always_rules_for tool cmd [p] = [tool_rule tool None (Some p)]"
    using e by (simp add: always_rules_for_def plain_path_def)
  then show "evaluate_rules (always_rules_for tool cmd [p]) tool' cmd' [q]
      = (if tool' = tool \<and> same_path q p then RD_Allow else NoMatch)"
    using e by (auto simp: evaluate_rules_def path_rule_matches plain_path_glob)
next
  assume "needs_human_consent tool"
  then show "always_rules_for tool cmd paths = []" by (simp add: always_rules_for_def)
qed

lemma trim_plain:
  "s \<noteq> [] \<Longrightarrow> \<not> is_whitespace (hd s) \<Longrightarrow> \<not> is_whitespace (last s) \<Longrightarrow> trim s = s"
  by (rule trim_ascii_word)

theorem always_is_exact_witness:
  "evaluate_rules (always_rules_for (lit ''run_command'') (Some (lit ''git push'')) []) (lit ''run_command'')
     (Some (lit ''git push --force'')) [] = NoMatch"
proof -
  have "trim (lit ''git push'') = lit ''git push''" "trim (lit ''git push --force'') = lit ''git push --force''"
    by (auto intro!: trim_plain simp: lit_def is_whitespace_def)
  then show ?thesis
    using always_is_exact [of "lit ''run_command''" "lit ''git push''" "[]" "lit ''run_command''"
        "lit ''git push --force''" "[]"]
    by (simp add: is_command_tool_def one_of_def)
qed

text \<open>What \<open>always\<close> gets wrong on paths.  Approving an edit of two different plain
  paths persists two rules of which neither covers the pair, so the very same edit
  is asked for again although the prompt offered \<open>always\<close>; and the approved path is
  read back as a glob, so approving a file called \<open>**\<close> allows the tool on every path.\<close>

theorem always_on_paths_off_target:
  "(plain_path p \<and> plain_path q \<and> \<not> same_path p q \<longrightarrow>
      always_rules_for (lit ''replace'') None [p, q] \<noteq> [] \<and>
      evaluate_rules (always_rules_for (lit ''replace'') None [p, q]) (lit ''replace'') None [p, q] = NoMatch) \<and>
   (paths \<noteq> [] \<longrightarrow>
      evaluate_rules (always_rules_for (lit ''replace'') None [lit ''**'']) (lit ''replace'') None paths = RD_Allow)"
proof -
  have tool: "\<not> needs_human_consent (lit ''replace'')" "\<not> one_of [''run_command'', ''shell_command''] (lit ''replace'')"
    "one_of [''apply_patch'', ''replace''] (lit ''replace'')"
    by (simp_all add: needs_human_consent_def is_agent_definition_write_tool_def one_of_def)
  have star: "trim (lit ''**'') = lit ''**''"
    by (rule trim_plain) (simp_all add: lit_def is_whitespace_def)
  have "path_matches_glob x (lit ''**'')" for x
    by (simp add: path_matches_glob_def glob_match_def to_slashes_def utf8_encode_def utf8_char_def lit_def
        glob_rec_dirs)
  then have "evaluate_rules (always_rules_for (lit ''replace'') None [lit ''**'']) (lit ''replace'') None paths = RD_Allow"
    if "paths \<noteq> []"
    using that tool star by (simp add: always_rules_for_def evaluate_rules_def path_rule_matches list_all_iff)
  moreover have "same_path q p = same_path p q" by (auto simp: same_path_def)
  ultimately show ?thesis
    using tool by (auto simp: always_rules_for_def evaluate_rules_def path_rule_matches plain_path_glob
        plain_path_def [of p] plain_path_def [of q])
qed

theorem always_on_paths_off_target_witness:
  "evaluate_rules (always_rules_for (lit ''replace'') None [lit ''a'', lit ''b'']) (lit ''replace'') None
     [lit ''a'', lit ''b''] = NoMatch"
proof -
  have "plain_path (lit ''a'')" "plain_path (lit ''b'')"
    by (auto simp: plain_path_def lit_def is_whitespace_def intro!: trim_plain)
  moreover have "\<not> same_path (lit ''a'') (lit ''b'')"
    by (simp add: same_path_def to_slashes_def utf8_encode_def utf8_char_def lit_def)
  ultimately show ?thesis using always_on_paths_off_target [of "lit ''a''" "lit ''b''" "[]"] by blast
qed

section \<open>Execution policies\<close>

text \<open>A resource grant never widens an execution boundary.  Whatever the write and
  network scopes are, a policy authorised by a resource grant keeps them and allows
  exactly the bindings of the grant; and a policy is unrestricted exactly when both
  boundaries are lifted by a whole-call authorisation, so what is unrestricted is
  always consistent with the scopes it runs under.\<close>

theorem resource_grant_never_widens:
  "(ep_write (execution_policy_new w n (ResourceGrant req s)) = w \<and>
    ep_network_scope (execution_policy_new w n (ResourceGrant req s)) = n \<and>
    (allows_resource (execution_policy_new w n (ResourceGrant req s)) cap res \<longleftrightarrow>
       (\<exists>b \<in> set (gr_bindings req). gb_capability b = cap \<and> gb_resource b = res))) \<and>
   (unrestricted_execution (execution_policy_new w n a) \<longrightarrow>
      ep_write (execution_policy_new w n a) = Unrestricted \<and>
      ep_network_scope (execution_policy_new w n a) = Internet \<and>
      resource_grant (execution_policy_new w n a) = None) \<and>
   (\<not> unrestricted_execution (execution_policy_new w n a) \<longrightarrow>
      ep_write (execution_policy_new w n a) = w \<and> ep_network_scope (execution_policy_new w n a) = n)"
  by (cases a)
    (auto simp: execution_policy_new_def unrestricted_execution_def resource_grant_def
      allows_resource_def list_ex_iff Let_def)

theorem resource_grant_never_widens_witness:
  "ep_write (execution_policy_new (Workspace (lit ''/r'')) NS_None (Policy Assisted)) = Workspace (lit ''/r'')"
  using resource_grant_never_widens [of "Workspace (lit ''/r'')" NS_None undefined undefined undefined undefined
      "Policy Assisted"]
  by (simp add: unrestricted_execution_def execution_policy_new_def)

section \<open>Approval requests\<close>

lemma decisions_offer:
  "set (decisions r) \<subseteq> {ApproveOnce, AD_Deny} \<union>
     (if requires_human_consent r then {} else {ApproveSession, ApproveProject, ApproveAlways})"
  by (auto simp: decisions_def)

lemma project_or_always: "\<not> (ApproveProject \<in> set (decisions r) \<and> ApproveAlways \<in> set (decisions r))"
  by (auto simp: decisions_def project_available_def always_persists_def split: option.splits)

end
