(* ===== verification/Trust_Gate.thy ===== *)
theory Trust_Gate
  imports Permission_Correct
begin

text \<open>
  The trust gate for configuration a repository carries (leveler-execution,
  trust.rs) and the merging of the three rule sources (permission_rules.rs).  The
  file system is a parameter: what a path reads as and what it canonicalises to.
  So are the YAML codec and SHA-256 in hexadecimal.
\<close>

section \<open>Files\<close>

record host_files =
  hf_read :: "rstr \<Rightarrow> rstr option"
  hf_canonicalize :: "rstr \<Rightarrow> rstr option"

definition path_join :: "rstr \<Rightarrow> rstr \<Rightarrow> rstr" where
  "path_join a b = (if a = [] \<or> ends_with (lit ''/'') a then a @ b else a @ lit ''/'' @ b)"

text \<open>\<open>Path::components\<close> of a Unix path.\<close>

definition path_components :: "rstr \<Rightarrow> rstr list" where
  "path_components p =
     (if starts_with (lit ''/'') p then [lit ''/'']
      else if p = lit ''.'' \<or> starts_with (lit ''./'') p then [lit ''.''] else [])
     @ filter (\<lambda>c. c \<noteq> [] \<and> c \<noteq> lit ''.'') (split_char 47 p)"

definition path_starts_with :: "rstr \<Rightarrow> rstr \<Rightarrow> bool" where
  "path_starts_with p base \<longleftrightarrow> take (length (path_components base)) (path_components p) = path_components base"

definition canonical :: "host_files \<Rightarrow> rstr \<Rightarrow> rstr" where
  "canonical fs p = (case hf_canonicalize fs p of Some c \<Rightarrow> c | None \<Rightarrow> p)"

section \<open>The store\<close>

type_synonym trust_file = "rstr \<rightharpoonup> (rstr \<rightharpoonup> rstr)"

definition TRUSTED_PROJECT_FILES :: "rstr list" where
  "TRUSTED_PROJECT_FILES = [lit ''.leveler/hooks.yaml'', lit ''.leveler/permissions.yaml'']"

definition repo_key :: "host_files \<Rightarrow> rstr \<Rightarrow> rstr" where
  "repo_key fs repo = canonical fs repo"

definition trust_store_path :: "rstr \<Rightarrow> rstr" where
  "trust_store_path home = path_join home (lit ''trusted.yaml'')"

definition store_is_outside_repo :: "host_files \<Rightarrow> rstr \<Rightarrow> rstr \<Rightarrow> bool" where
  "store_is_outside_repo fs home repo = (\<not> path_starts_with (canonical fs home) (canonical fs repo))"

definition load_store :: "(rstr \<Rightarrow> trust_file option) \<Rightarrow> host_files \<Rightarrow> rstr \<Rightarrow> trust_file" where
  "load_store parse fs home =
     (case hf_read fs (trust_store_path home) of
        None \<Rightarrow> Map.empty
      | Some raw \<Rightarrow> (case parse raw of None \<Rightarrow> Map.empty | Some f \<Rightarrow> f))"

definition is_trusted ::
  "(rstr \<Rightarrow> rstr) \<Rightarrow> host_files \<Rightarrow> trust_file \<Rightarrow> rstr \<Rightarrow> rstr \<Rightarrow> rstr \<Rightarrow> bool" where
  "is_trusted digest fs store repo relative content =
     (case store (repo_key fs repo) of
        None \<Rightarrow> False
      | Some files \<Rightarrow> (case files relative of None \<Rightarrow> False | Some d \<Rightarrow> d = digest content))"

definition trust ::
  "(rstr \<Rightarrow> rstr) \<Rightarrow> host_files \<Rightarrow> rstr \<Rightarrow> rstr \<Rightarrow> rstr \<Rightarrow> trust_file \<Rightarrow> trust_file" where
  "trust digest fs repo relative content store =
     (let files = (case store (repo_key fs repo) of None \<Rightarrow> Map.empty | Some m \<Rightarrow> m)
      in store(repo_key fs repo \<mapsto> files(relative \<mapsto> digest content)))"

definition revoke :: "host_files \<Rightarrow> rstr \<Rightarrow> trust_file \<Rightarrow> bool \<times> trust_file" where
  "revoke fs repo store =
     (store (repo_key fs repo) \<noteq> None, store(repo_key fs repo := None))"

section \<open>Reading through the gate\<close>

datatype trusted_read = Absent | Trusted rstr | Untrusted rstr rstr

definition read_trusted_project_file ::
  "(rstr \<Rightarrow> trust_file option) \<Rightarrow> (rstr \<Rightarrow> rstr) \<Rightarrow> host_files \<Rightarrow> rstr \<Rightarrow> rstr \<Rightarrow> rstr \<Rightarrow> trusted_read"
  where
  "read_trusted_project_file parse digest fs home repo relative =
     (let path = path_join repo relative
      in case hf_read fs path of
           None \<Rightarrow> Absent
         | Some raw \<Rightarrow>
             if \<not> store_is_outside_repo fs home repo then Untrusted path (digest raw)
             else if is_trusted digest fs (load_store parse fs home) repo relative raw then Trusted raw
             else Untrusted path (digest raw))"

definition untrusted_project_files ::
  "(rstr \<Rightarrow> trust_file option) \<Rightarrow> (rstr \<Rightarrow> rstr) \<Rightarrow> host_files \<Rightarrow> rstr \<Rightarrow> rstr \<Rightarrow> (rstr \<times> rstr) list" where
  "untrusted_project_files parse digest fs home repo =
     List.map_filter
       (\<lambda>relative. case read_trusted_project_file parse digest fs home repo relative of
                     Untrusted path d \<Rightarrow> Some (path, d) | _ \<Rightarrow> None)
       TRUSTED_PROJECT_FILES"

definition own_rules ::
  "(rstr \<Rightarrow> rstr + permission_rule list) \<Rightarrow> host_files \<Rightarrow> rstr \<Rightarrow> rstr \<Rightarrow> permission_rule list" where
  "own_rules parse_rules fs home state_rules =
     rule_set_extend
       (rules_or_default (load_rules_file parse_rules (hf_read fs (path_join home (lit ''permissions.yaml'')))))
       (rules_or_default (load_rules_file parse_rules (hf_read fs state_rules)))"

definition load_merged_rules ::
  "(rstr \<Rightarrow> trust_file option) \<Rightarrow> (rstr \<Rightarrow> rstr + permission_rule list) \<Rightarrow> (rstr \<Rightarrow> rstr) \<Rightarrow> host_files
     \<Rightarrow> rstr \<Rightarrow> rstr \<Rightarrow> rstr \<Rightarrow> permission_rule list \<times> (rstr \<times> rstr) list" where
  "load_merged_rules parse_store parse_rules digest fs home state_rules repo =
     (let own = own_rules parse_rules fs home state_rules
      in case read_trusted_project_file parse_store digest fs home repo (TRUSTED_PROJECT_FILES ! 1) of
           Absent \<Rightarrow> (own, [])
         | Trusted raw \<Rightarrow> (case parse_rules raw of Inl _ \<Rightarrow> (own, []) | Inr rs \<Rightarrow> (rule_set_extend own rs, []))
         | Untrusted path d \<Rightarrow> (own, [(path, d)]))"

section \<open>What the gate guarantees\<close>

text \<open>
  C11. Trust is tied to the bytes.  If the digest does not collide on the two
  contents compared, then after a file's content was trusted the gate accepts exactly that content of that file of
  that repository; after a revocation it accepts nothing of the repository; trusting
  a file changes no other file's or repository's standing; and what the gate hands
  on is what it read, with the store outside the repository.\<close>

theorem trust_is_content_addressed:
  assumes "digest raw = digest content \<Longrightarrow> raw = content"
  shows "(is_trusted digest fs (trust digest fs repo relative content store) repo relative raw
            \<longleftrightarrow> raw = content) \<and>
         \<not> is_trusted digest fs (snd (revoke fs repo store)) repo relative raw \<and>
         (repo_key fs repo' \<noteq> repo_key fs repo \<or> relative' \<noteq> relative \<longrightarrow>
            is_trusted digest fs (trust digest fs repo relative content store) repo' relative' raw
              = is_trusted digest fs store repo' relative' raw) \<and>
         (read_trusted_project_file parse digest fs home repo relative = Trusted raw \<longrightarrow>
            hf_read fs (path_join repo relative) = Some raw \<and> store_is_outside_repo fs home repo \<and>
            is_trusted digest fs (load_store parse fs home) repo relative raw)"
  using assms
  by (auto simp: is_trusted_def trust_def revoke_def read_trusted_project_file_def Let_def
      split: option.splits if_splits)

theorem trust_is_content_addressed_witness:
  "\<not> is_trusted id \<lparr>hf_read = \<lambda>_. None, hf_canonicalize = Some\<rparr>
     (trust id \<lparr>hf_read = \<lambda>_. None, hf_canonicalize = Some\<rparr> (lit ''/r'') (lit ''f'') (lit ''old'') Map.empty)
     (lit ''/r'') (lit ''f'') (lit ''new'')"
  using trust_is_content_addressed [of id "lit ''new''" "lit ''old''"
      "\<lparr>hf_read = \<lambda>_. None, hf_canonicalize = Some\<rparr>" "lit ''/r''" "lit ''f''" Map.empty]
  by (simp add: lit_inj)

text \<open>A repository's own rules count only once they are trusted.  When the gate does
  not hand on the repository's rules file, the decision on every call is that of the
  user's own rules; and when it does, a denial of the user's rules stays a denial.\<close>

theorem untrusted_rules_are_inert:
  assumes "fst (load_merged_rules parse_store parse_rules digest fs home state_rules repo) = merged"
  shows "((\<forall>raw. read_trusted_project_file parse_store digest fs home repo (TRUSTED_PROJECT_FILES ! 1) \<noteq> Trusted raw)
            \<longrightarrow> evaluate_rules merged tool cmd paths
                  = evaluate_rules (own_rules parse_rules fs home state_rules) tool cmd paths) \<and>
         (evaluate_rules (own_rules parse_rules fs home state_rules) tool cmd paths = RD_Deny \<longrightarrow>
            evaluate_rules merged tool cmd paths = RD_Deny)"
proof -
  have "evaluate_rules (rs @ xs) tool cmd paths = RD_Deny" if "evaluate_rules rs tool cmd paths = RD_Deny" for rs xs
    using rules.judge_append [of rs xs tool cmd paths] that
    by (cases "evaluate_rules (rs @ xs) tool cmd paths") (simp_all add: max_def split: if_splits)
  then show ?thesis
    using assms by (auto simp: load_merged_rules_def rule_set_extend_def Let_def split: trusted_read.splits sum.splits)
qed

theorem untrusted_rules_are_inert_witness:
  "evaluate_rules
     (fst (load_merged_rules (\<lambda>_. None) (\<lambda>_. Inr [any_tool Allow]) id
            \<lparr>hf_read = (\<lambda>p. if p = lit ''/r/.leveler/permissions.yaml'' then Some [] else None),
             hf_canonicalize = Some\<rparr> (lit ''/h'') (lit ''/h/s'') (lit ''/r'')))
     (lit ''replace'') None [] = NoMatch"
proof -
  let ?fs = "\<lparr>hf_read = (\<lambda>p. if p = lit ''/r/.leveler/permissions.yaml'' then Some [] else None),
             hf_canonicalize = Some\<rparr>"
  have "read_trusted_project_file (\<lambda>_. None) id ?fs (lit ''/h'') (lit ''/r'') (TRUSTED_PROJECT_FILES ! 1) \<noteq> Trusted raw"
    for raw
    by (simp add: read_trusted_project_file_def is_trusted_def load_store_def Let_def split: option.splits)
  moreover have "own_rules (\<lambda>_. Inr [any_tool Allow]) ?fs (lit ''/h'') (lit ''/h/s'') = []"
    by (simp add: own_rules_def rule_set_extend_def rules_or_default_def load_rules_file_def path_join_def
        ends_with_def starts_with_def lit_def)
  ultimately show ?thesis
    using untrusted_rules_are_inert [of "\<lambda>_. None" "\<lambda>_. Inr [any_tool Allow]" id ?fs "lit ''/h''" "lit ''/h/s''"
        "lit ''/r''" _ "lit ''replace''" None "[]"]
    by (simp add: evaluate_rules_def)
qed

end
