(* ===== verification/Schedule_Rule.thy ===== *)
theory Schedule_Rule
  imports Interfaces "HOL-Library.Word"
begin

text \<open>
  Trigger rules of the scheduler (leveler-schedule/src/rule.rs): local times and
  weekday sets with their text forms, and the computation of the next occurrence from
  a rule and the present instant.  Instants are nanoseconds since the epoch, local
  wall-clock times nanoseconds since the epoch of the wall clock, dates day numbers.
  A time zone is its name; what the zones (chrono-tz) and the cron engine (croner) do is
  the parameter \<open>calendar\<close>.  An interval or a timeout is a \<open>Duration\<close>, a number of
  nanoseconds.
\<close>

unbundle bit_operations_syntax

section \<open>Errors\<close>

text \<open>The reasons of \<open>ScheduleError::Invalid\<close>, one constructor per message.\<close>

datatype invalid_reason =
    BadHour nat | BadMinute nat | NotLocalTime rstr | NotTwoDigit rstr | InvalidHour rstr | InvalidMinute rstr
  | NoWeekday | BadWeekdayMask "8 word" | NotWeekdayName rstr
  | EmptyTimezone | UnknownTimezone rstr
  | EmptyCron | CronTooLong | CronControl | CronFields | CronInvalid rstr | CronNoNext rstr
  | IntervalTooShort | IntervalTooLong | NoFutureOccurrence
  | EmptyText rstr | TextTooLong rstr | TextNul rstr | TextControl rstr
  | EmptyActionId | ActionIdTooLong | ActionIdCharset | InputNotObject | InputTooLarge
  | NameEmpty | NameTooLong | NameControl | WorkspaceRelative | AgentWithoutModel
  | SharedSessionOverlap | TimeoutTooShort | TimeoutTooLong | GraceTooLong
  | WorkspaceInaccessible | WorkspaceNotDirectory | GrantNotSerializable | GrantMustAllowExternal
  | StillActive nat | OccurrenceInHistory int | BadMisfirePolicy rstr
  | UnsupportedAction rstr | UnsupportedSessionPolicy rstr | UnsupportedOverlap rstr | UnsupportedTrigger rstr
  | UnsupportedMode rstr | BadModelReference rstr | StoredInputNotJson | StoredGrantNotJson | WeekdayMaskRange

datatype schedule_error =
    Invalid invalid_reason
  | NotFound rstr
  | Conflict rstr
  | SessionMismatch rstr
  | Runtime rstr
  | Database rstr

section \<open>Time\<close>

type_synonym instant = int
type_synonym duration = nat

abbreviation sec_ns :: int where "sec_ns \<equiv> 1000000000"
abbreviation minute_ns :: int where "minute_ns \<equiv> 60000000000"
abbreviation day_ns :: int where "day_ns \<equiv> 86400000000000"

definition as_secs :: "duration \<Rightarrow> nat" where
  "as_secs d = d div 1000000000"

definition num_seconds :: "int \<Rightarrow> int" where
  "num_seconds d = (if d < 0 then - ((- d) div sec_ns) else d div sec_ns)"

text \<open>\<open>NaiveDate::MAX\<close>, the last day of the year 262142.\<close>

definition MAX_DATE :: int where "MAX_DATE = 95026236"

datatype local_result = LR_None | LR_Single instant | LR_Ambiguous instant instant

record zone =
  zn_local :: "instant \<Rightarrow> int"
  zn_from_local :: "int \<Rightarrow> local_result"
  zn_floor_minute :: "instant \<Rightarrow> instant option"

text \<open>The time zone database and the cron engine: which names are zones and how they
  behave, which texts are cron expressions and the instant each one next names after a
  given one in a zone.\<close>

record calendar =
  cal_known :: "rstr \<Rightarrow> bool"
  cal_zone :: "rstr \<Rightarrow> zone"
  cal_cron_parses :: "rstr \<Rightarrow> bool"
  cal_cron_next :: "rstr \<Rightarrow> rstr \<Rightarrow> instant \<Rightarrow> instant option"

definition local_date :: "instant \<Rightarrow> zone \<Rightarrow> int" where
  "local_date now z = zn_local z now div day_ns"

definition add_days :: "int \<Rightarrow> nat \<Rightarrow> int option" where
  "add_days d n = (if d + int n \<le> MAX_DATE then Some (d + int n) else None)"

text \<open>Monday is 0; the epoch was a Thursday.\<close>

definition weekday_of :: "int \<Rightarrow> nat" where
  "weekday_of d = nat ((d + 3) mod 7)"

section \<open>Local times\<close>

record local_time =
  lt_hour :: nat
  lt_minute :: nat

definition local_time_new :: "nat \<Rightarrow> nat \<Rightarrow> schedule_error + local_time" where
  "local_time_new h m =
     (if h > 23 then Inl (Invalid (BadHour h))
      else if m > 59 then Inl (Invalid (BadMinute m))
      else Inr \<lparr>lt_hour = h, lt_minute = m\<rparr>)"

definition parse_u8 :: "rstr \<Rightarrow> nat option" where
  "parse_u8 s = (case parse_u64 s of None \<Rightarrow> None | Some n \<Rightarrow> if n \<le> 255 then Some n else None)"

definition local_time_parse :: "rstr \<Rightarrow> schedule_error + local_time" where
  "local_time_parse raw =
     (case split_once 58 (trim raw) of
        None \<Rightarrow> Inl (Invalid (NotLocalTime raw))
      | Some (hour, minute) \<Rightarrow>
          if byte_len hour \<noteq> 2 \<or> byte_len minute \<noteq> 2 then Inl (Invalid (NotTwoDigit raw))
          else case parse_u8 hour of
                 None \<Rightarrow> Inl (Invalid (InvalidHour raw))
               | Some h \<Rightarrow> (case parse_u8 minute of
                              None \<Rightarrow> Inl (Invalid (InvalidMinute raw))
                            | Some m \<Rightarrow> local_time_new h m))"

definition two_digits :: "nat \<Rightarrow> rstr" where
  "two_digits n = (if n < 10 then 48 # show_nat n else show_nat n)"

definition local_time_display :: "local_time \<Rightarrow> rstr" where
  "local_time_display t = two_digits (lt_hour t) @ [58] @ two_digits (lt_minute t)"

section \<open>Weekday sets\<close>

text \<open>A mask; Monday is bit 0.\<close>

type_synonym weekday_set = "8 word"

definition weekday_bit :: "nat \<Rightarrow> weekday_set" where
  "weekday_bit d = push_bit d 1"

definition add_weekdays :: "weekday_set \<Rightarrow> nat list \<Rightarrow> weekday_set" where
  "add_weekdays m ds = foldl (\<lambda>m d. m OR weekday_bit d) m ds"

definition weekdays_new :: "nat list \<Rightarrow> schedule_error + weekday_set" where
  "weekdays_new ds =
     (let m = add_weekdays 0 ds in if m = 0 then Inl (Invalid NoWeekday) else Inr m)"

definition weekday_names :: "string list list" where
  "weekday_names =
     [[''mon'', ''monday''], [''tue'', ''tues'', ''tuesday''], [''wed'', ''wednesday''],
      [''thu'', ''thur'', ''thurs'', ''thursday''], [''fri'', ''friday''], [''sat'', ''saturday''],
      [''sun'', ''sunday'']]"

definition weekday_named :: "rstr \<Rightarrow> schedule_error + nat" where
  "weekday_named raw =
     (let w = to_ascii_lowercase (trim raw)
      in case find (\<lambda>d. w \<in> set (map lit (weekday_names ! d))) [0, 1, 2, 3, 4, 5, 6] of
           Some d \<Rightarrow> Inr d
         | None \<Rightarrow> Inl (Invalid (NotWeekdayName w)))"

text \<open>The days of a range, going round the week from its start to its end.\<close>

function range_days :: "nat \<Rightarrow> nat \<Rightarrow> nat list" where
  "range_days day last_day =
     (if day = last_day \<or> day \<ge> 7 \<or> last_day \<ge> 7 then [day]
      else day # range_days (Suc day mod 7) last_day)"
  by pat_completeness auto
termination
proof (relation "measure (\<lambda>(day, last_day). if day \<le> last_day then last_day - day else last_day + 7 - day)")
  fix day last_day :: nat
  assume "\<not> (day = last_day \<or> day \<ge> 7 \<or> last_day \<ge> 7)"
  then have "day < 7" "last_day < 7" "day \<noteq> last_day" by auto
  then show "((Suc day mod 7, last_day), day, last_day) \<in>
      measure (\<lambda>(day, last_day). if day \<le> last_day then last_day - day else last_day + 7 - day)"
    by (cases "Suc day = 7") auto
qed simp

declare range_days.simps [simp del]

definition part_days :: "rstr \<Rightarrow> schedule_error + nat list" where
  "part_days part =
     (case split_once 45 part of
        Some (a, b) \<Rightarrow> (case weekday_named a of Inl e \<Rightarrow> Inl e
                        | Inr d \<Rightarrow> (case weekday_named b of Inl e \<Rightarrow> Inl e
                                    | Inr d' \<Rightarrow> Inr (range_days d d')))
      | None \<Rightarrow> (case weekday_named part of Inl e \<Rightarrow> Inl e | Inr d \<Rightarrow> Inr [d]))"

fun weekday_parts :: "rstr list \<Rightarrow> weekday_set \<Rightarrow> bool \<Rightarrow> schedule_error + weekday_set \<times> bool" where
  "weekday_parts [] m any = Inr (m, any)"
| "weekday_parts (p # ps) m any =
     (if trim p = [] then weekday_parts ps m any
      else case part_days (trim p) of
             Inl e \<Rightarrow> Inl e
           | Inr ds \<Rightarrow> weekday_parts ps (add_weekdays m ds) True)"

definition weekdays_parse :: "rstr \<Rightarrow> schedule_error + weekday_set" where
  "weekdays_parse raw =
     (case weekday_parts (split_char 44 raw) 0 False of
        Inl e \<Rightarrow> Inl e
      | Inr (m, any) \<Rightarrow> if any then Inr m else Inl (Invalid NoWeekday))"

definition weekdays_contains :: "weekday_set \<Rightarrow> nat \<Rightarrow> bool" where
  "weekdays_contains m d = (m AND weekday_bit d \<noteq> 0)"

definition weekdays_from_bits :: "8 word \<Rightarrow> schedule_error + weekday_set" where
  "weekdays_from_bits bits =
     (if bits = 0 \<or> bits AND push_bit 7 1 \<noteq> 0 then Inl (Invalid (BadWeekdayMask bits)) else Inr bits)"

definition weekdays_display :: "weekday_set \<Rightarrow> rstr" where
  "weekdays_display m =
     join [44] (map (\<lambda>d. lit (hd (weekday_names ! d))) (filter (weekdays_contains m) [0..<7]))"

section \<open>Resolving a local time\<close>

text \<open>The wall-clock times after the first one that does not exist, minute by minute.\<close>

fun probe :: "zone \<Rightarrow> int \<Rightarrow> nat list \<Rightarrow> instant option" where
  "probe z naive [] = None"
| "probe z naive (k # ks) =
     (if (naive + int k * minute_ns) div day_ns > MAX_DATE then None
      else case zn_from_local z (naive + int k * minute_ns) of
             LR_Single v \<Rightarrow> Some v
           | LR_Ambiguous earliest _ \<Rightarrow> Some earliest
           | LR_None \<Rightarrow> probe z naive ks)"

definition naive_time :: "int \<Rightarrow> local_time \<Rightarrow> int" where
  "naive_time d t = d * day_ns + (int (lt_hour t) * 60 + int (lt_minute t)) * minute_ns"

definition resolve_local :: "int \<Rightarrow> local_time \<Rightarrow> zone \<Rightarrow> instant option" where
  "resolve_local d t z =
     (if lt_hour t > 23 \<or> lt_minute t > 59 then None
      else case zn_from_local z (naive_time d t) of
             LR_Single v \<Rightarrow> Some v
           | LR_Ambiguous earliest _ \<Rightarrow> Some earliest
           | LR_None \<Rightarrow> probe z (naive_time d t) [1..<181])"

section \<open>Cron expressions\<close>

definition MAX_CRON_BYTES :: nat where "MAX_CRON_BYTES = 512"

definition is_control :: "rchar \<Rightarrow> bool" where
  "is_control c \<longleftrightarrow> c \<le> 31 \<or> 127 \<le> c \<and> c \<le> 159"

definition parse_cron :: "calendar \<Rightarrow> rstr \<Rightarrow> schedule_error + rstr" where
  "parse_cron cal expression =
     (let t = trim expression
      in if t = [] then Inl (Invalid EmptyCron)
         else if byte_len t > MAX_CRON_BYTES then Inl (Invalid CronTooLong)
         else if list_ex is_control t then Inl (Invalid CronControl)
         else if length (split_whitespace t) \<noteq> 5 then Inl (Invalid CronFields)
         else if cal_cron_parses cal t then Inr t else Inl (Invalid (CronInvalid t)))"

definition parse_timezone :: "calendar \<Rightarrow> rstr \<Rightarrow> schedule_error + rstr" where
  "parse_timezone cal raw =
     (let t = trim raw
      in if t = [] then Inl (Invalid EmptyTimezone)
         else if cal_known cal t then Inr t else Inl (Invalid (UnknownTimezone t)))"

section \<open>Triggers\<close>

datatype trigger =
    Once instant
  | Every instant duration
  | Daily local_time rstr
  | Weekly weekday_set local_time rstr
  | Cron rstr rstr

definition is_recurring :: "trigger \<Rightarrow> bool" where
  "is_recurring t = (case t of Once _ \<Rightarrow> False | _ \<Rightarrow> True)"

fun trigger_kind :: "trigger \<Rightarrow> rstr" where
  "trigger_kind (Once _) = lit ''once''"
| "trigger_kind (Every _ _) = lit ''every''"
| "trigger_kind (Daily _ _) = lit ''daily''"
| "trigger_kind (Weekly _ _ _) = lit ''weekly''"
| "trigger_kind (Cron _ _) = lit ''cron''"

fun trigger_timezone :: "trigger \<Rightarrow> rstr option" where
  "trigger_timezone (Daily _ z) = Some z"
| "trigger_timezone (Weekly _ _ z) = Some z"
| "trigger_timezone (Cron _ z) = Some z"
| "trigger_timezone _ = None"

fun trigger_validate :: "calendar \<Rightarrow> trigger \<Rightarrow> schedule_error + unit" where
  "trigger_validate cal (Once _) = Inr ()"
| "trigger_validate cal (Every _ every) =
     (if as_secs every = 0 then Inl (Invalid IntervalTooShort)
      else if as_secs every > 366 * 24 * 60 * 60 then Inl (Invalid IntervalTooLong)
      else Inr ())"
| "trigger_validate cal (Daily _ _) = Inr ()"
| "trigger_validate cal (Weekly ds _ _) = (if ds = 0 then Inl (Invalid NoWeekday) else Inr ())"
| "trigger_validate cal (Cron e _) = (case parse_cron cal e of Inl x \<Rightarrow> Inl x | Inr _ \<Rightarrow> Inr ())"

section \<open>The next occurrence\<close>

text \<open>The search over today and the eight days after it.\<close>

definition better :: "instant \<Rightarrow> instant option \<Rightarrow> instant \<Rightarrow> instant option" where
  "better now best candidate =
     (if candidate > now \<and> (case best of None \<Rightarrow> True | Some b \<Rightarrow> candidate < b)
      then Some candidate else best)"

definition search_day ::
  "(int \<Rightarrow> bool) \<Rightarrow> local_time \<Rightarrow> zone \<Rightarrow> instant \<Rightarrow> instant option \<Rightarrow> nat \<Rightarrow> instant option" where
  "search_day wanted time z now best offset =
     (case add_days (local_date now z) offset of
        None \<Rightarrow> best
      | Some d \<Rightarrow>
          if \<not> wanted d then best
          else case resolve_local d time z of None \<Rightarrow> best | Some c \<Rightarrow> better now best c)"

definition search_days :: "(int \<Rightarrow> bool) \<Rightarrow> local_time \<Rightarrow> zone \<Rightarrow> instant \<Rightarrow> instant option" where
  "search_days wanted time z now = foldl (search_day wanted time z now) None [0..<9]"

definition next_after :: "calendar \<Rightarrow> trigger \<Rightarrow> instant \<Rightarrow> schedule_error + instant option" where
  "next_after cal t now =
     (case trigger_validate cal t of
        Inl e \<Rightarrow> Inl e
      | Inr _ \<Rightarrow>
          (case t of
             Once _ \<Rightarrow> Inr None
           | Every anchor every \<Rightarrow>
               (if as_secs every = 0 then Inl (Invalid IntervalTooShort)
                else if now < anchor then Inr (Some anchor)
                else Inr (Some (now + (int (as_secs every)
                       - num_seconds (now - anchor) mod int (as_secs every)) * sec_ns)))
           | Daily time z \<Rightarrow> Inr (search_days (\<lambda>_. True) time (cal_zone cal z) now)
           | Weekly ds time z \<Rightarrow> Inr (search_days (\<lambda>d. weekdays_contains ds (weekday_of d)) time (cal_zone cal z) now)
           | Cron expression z \<Rightarrow>
               (case parse_cron cal expression of
                  Inl e \<Rightarrow> Inl e
                | Inr cron \<Rightarrow>
                    (case cal_cron_next cal cron z (case zn_floor_minute (cal_zone cal z) now of None \<Rightarrow> now | Some f \<Rightarrow> f) of
                       None \<Rightarrow> Inl (Invalid (CronNoNext expression))
                     | Some n \<Rightarrow> Inr (Some n)))))"

definition required :: "schedule_error + instant option \<Rightarrow> schedule_error + instant" where
  "required r = (case r of Inl e \<Rightarrow> Inl e
     | Inr None \<Rightarrow> Inl (Invalid NoFutureOccurrence) | Inr (Some n) \<Rightarrow> Inr n)"

definition first_occurrence :: "calendar \<Rightarrow> trigger \<Rightarrow> instant \<Rightarrow> schedule_error + instant" where
  "first_occurrence cal t now =
     (case trigger_validate cal t of
        Inl e \<Rightarrow> Inl e
      | Inr _ \<Rightarrow> (case t of Once a \<Rightarrow> Inr a | Every anchor _ \<Rightarrow> Inr anchor
                  | _ \<Rightarrow> required (next_after cal t now)))"

definition replacement_occurrence :: "calendar \<Rightarrow> trigger \<Rightarrow> instant \<Rightarrow> schedule_error + instant" where
  "replacement_occurrence cal t now =
     (case t of Once a \<Rightarrow> Inr a | _ \<Rightarrow> required (next_after cal t now))"

end
