(* ===== verification/Model_Reference.thy ===== *)
theory Model_Reference
  imports Prelude
begin

text \<open>
  The reference of a model, \<open>provider/model\<close> (\<open>ModelRef\<close> of leveler-model's request.rs), which
  the schedules store and the context accounting names.
\<close>

record model_ref =
  mr_provider :: rstr
  mr_model :: rstr

fun model_ref_display :: "model_ref \<Rightarrow> rstr" where
  "model_ref_display m = mr_provider m @ [47] @ mr_model m"

definition model_ref_parse :: "rstr \<Rightarrow> model_ref option" where
  "model_ref_parse s =
     (case split_once 47 s of
        None \<Rightarrow> None
      | Some (p, m) \<Rightarrow> if p = [] \<or> m = [] then None else Some \<lparr>mr_provider = p, mr_model = m\<rparr>)"

end
