(* ===== verification/Schedule_Grant.thy ===== *)
theory Schedule_Grant
  imports Schedule_Rule Model_Reference
begin

text \<open>
  What a schedule executes and what its unattended grant authorizes
  (leveler-schedule/src/lib.rs): the typed actions and their validation, the policies
  with their stored spellings, the trigger scope of a grant, the grant itself, the
  declaration of a definition and the usage arithmetic.  JSON values (serde_json) are a
  type variable with a record of the functions the code calls on them.
\<close>

definition opt_err :: "'e \<Rightarrow> 'a option \<Rightarrow> 'e + 'a" where
  "opt_err e x = (case x of None \<Rightarrow> Inl e | Some y \<Rightarrow> Inr y)"

definition check :: "bool \<Rightarrow> 'e \<Rightarrow> 'e + unit" where
  "check b e = (if b then Inl e else Inr ())"

text \<open>The \<open>?\<close> operator.\<close>

definition and_then :: "'e + 'a \<Rightarrow> ('a \<Rightarrow> 'e + 'b) \<Rightarrow> 'e + 'b" where
  "and_then r f = (case r of Inl e \<Rightarrow> Inl e | Inr x \<Rightarrow> f x)"

lemma and_then_Inr [simp]: "and_then (Inr x) f = f x"
  by (simp add: and_then_def)

lemma and_then_Inl [simp]: "and_then (Inl e) f = Inl e"
  by (simp add: and_then_def)

lemma and_then_eq_Inr: "and_then r f = Inr y \<longleftrightarrow> (\<exists>x. r = Inr x \<and> f x = Inr y)"
  by (cases r) simp_all

lemma check_eq_Inr [simp]: "check b e = Inr u \<longleftrightarrow> \<not> b"
  by (simp add: check_def)

lemma opt_err_eq_Inr [simp]: "opt_err e x = Inr y \<longleftrightarrow> x = Some y"
  by (cases x) (simp_all add: opt_err_def)

section \<open>Actions\<close>

record 'j json_lib =
  js_is_object :: "'j \<Rightarrow> bool"
  js_to_string :: "'j \<Rightarrow> rstr option"
  js_parse :: "rstr \<Rightarrow> 'j option"

definition MAX_COMMAND_BYTES :: nat where "MAX_COMMAND_BYTES = 64 * 1024"
definition MAX_GOAL_BYTES :: nat where "MAX_GOAL_BYTES = 64 * 1024"
definition MAX_NATIVE_INPUT_BYTES :: nat where "MAX_NATIVE_INPUT_BYTES = 256 * 1024"
definition MAX_NAME_BYTES :: nat where "MAX_NAME_BYTES = 200"

datatype action_kind = AK_Shell | AK_Native | AK_Agent

fun action_kind_as_str :: "action_kind \<Rightarrow> rstr" where
  "action_kind_as_str AK_Shell = lit ''shell''"
| "action_kind_as_str AK_Native = lit ''native''"
| "action_kind_as_str AK_Agent = lit ''agent''"

definition action_kind_parse :: "rstr \<Rightarrow> action_kind option" where
  "action_kind_parse s =
     (if s = lit ''shell'' then Some AK_Shell else if s = lit ''native'' then Some AK_Native
      else if s = lit ''agent'' then Some AK_Agent else None)"

datatype 'j schedule_action =
    Shell (sa_command: rstr)
  | Native (sa_action: rstr) (sa_input: 'j)
  | Agent (sa_goal: rstr)

fun kind_of :: "'j schedule_action \<Rightarrow> action_kind" where
  "kind_of (Shell _) = AK_Shell"
| "kind_of (Native _ _) = AK_Native"
| "kind_of (Agent _) = AK_Agent"

definition validate_text :: "rstr \<Rightarrow> rstr \<Rightarrow> nat \<Rightarrow> bool \<Rightarrow> schedule_error + unit" where
  "validate_text v what max_bytes reject_control =
     (if trim v = [] then Inl (Invalid (EmptyText what))
      else if byte_len v > max_bytes then Inl (Invalid (TextTooLong what))
      else if 0 \<in> set v then Inl (Invalid (TextNul what))
      else if reject_control \<and> list_ex is_control v then Inl (Invalid (TextControl what))
      else Inr ())"

definition action_id_char :: "rchar \<Rightarrow> bool" where
  "action_id_char c \<longleftrightarrow> is_ascii_alphanumeric c \<or> c = 46 \<or> c = 95 \<or> c = 45"

fun action_validate :: "'j json_lib \<Rightarrow> 'j schedule_action \<Rightarrow> schedule_error + unit" where
  "action_validate js (Shell command) =
     validate_text command (lit ''the schedule command'') MAX_COMMAND_BYTES True"
| "action_validate js (Native action input) =
     (if trim action = [] then Inl (Invalid EmptyActionId)
      else if byte_len action > 128 then Inl (Invalid ActionIdTooLong)
      else if \<not> list_all action_id_char action then Inl (Invalid ActionIdCharset)
      else if \<not> js_is_object js input then Inl (Invalid InputNotObject)
      else case js_to_string js input of
             None \<Rightarrow> Inl (Invalid InputNotObject)
           | Some s \<Rightarrow> if byte_len s > MAX_NATIVE_INPUT_BYTES then Inl (Invalid InputTooLarge) else Inr ())"
| "action_validate js (Agent goal) =
     validate_text goal (lit ''the agent goal'') MAX_GOAL_BYTES False"

fun command_of :: "'j schedule_action \<Rightarrow> rstr" where
  "command_of (Shell c) = c"
| "command_of _ = []"

fun goal_of :: "'j schedule_action \<Rightarrow> rstr option" where
  "goal_of (Agent g) = Some g"
| "goal_of _ = None"

fun fingerprint :: "'j json_lib \<Rightarrow> 'j schedule_action \<Rightarrow> rstr option" where
  "fingerprint js (Shell command) = Some (lit ''shell'' @ [0] @ command)"
| "fingerprint js (Native action input) =
     map_option (\<lambda>s. lit ''native'' @ [0] @ action @ [0] @ s) (js_to_string js input)"
| "fingerprint js (Agent goal) = Some (lit ''agent'' @ [0] @ goal)"

section \<open>Policies\<close>

datatype session_policy = Continue | Fresh

fun session_policy_as_str :: "session_policy \<Rightarrow> rstr" where
  "session_policy_as_str Continue = lit ''continue''"
| "session_policy_as_str Fresh = lit ''fresh''"

definition session_policy_parse :: "rstr \<Rightarrow> session_policy option" where
  "session_policy_parse s =
     (if s = lit ''continue'' then Some Continue else if s = lit ''fresh'' then Some Fresh else None)"

datatype overlap_policy = SkipIfRunning | QueueOne | AllowConcurrent

fun overlap_as_str :: "overlap_policy \<Rightarrow> rstr" where
  "overlap_as_str SkipIfRunning = lit ''skip-if-running''"
| "overlap_as_str QueueOne = lit ''queue-one''"
| "overlap_as_str AllowConcurrent = lit ''allow-concurrent''"

definition overlap_parse :: "rstr \<Rightarrow> overlap_policy option" where
  "overlap_parse s =
     (if s = lit ''skip-if-running'' then Some SkipIfRunning
      else if s = lit ''queue-one'' then Some QueueOne
      else if s = lit ''allow-concurrent'' then Some AllowConcurrent else None)"

datatype misfire_policy = Skip | RunOnceOnRecovery

fun misfire_as_str :: "misfire_policy \<Rightarrow> rstr" where
  "misfire_as_str Skip = lit ''skip''"
| "misfire_as_str RunOnceOnRecovery = lit ''run-once''"

definition misfire_parse :: "rstr \<Rightarrow> misfire_policy option" where
  "misfire_parse s =
     (if s = lit ''skip'' then Some Skip else if s = lit ''run-once'' then Some RunOnceOnRecovery else None)"

datatype wake_source = WS_Os | WS_Manual | WS_Serve

fun wake_source_as_str :: "wake_source \<Rightarrow> rstr" where
  "wake_source_as_str WS_Os = lit ''os''"
| "wake_source_as_str WS_Manual = lit ''manual''"
| "wake_source_as_str WS_Serve = lit ''serve''"

definition wake_source_parse :: "rstr \<Rightarrow> wake_source option" where
  "wake_source_parse s =
     (if s = lit ''os'' then Some WS_Os else if s = lit ''manual'' then Some WS_Manual
      else if s = lit ''serve'' then Some WS_Serve else None)"

datatype wire_profile = WP_RequestApproval | WP_Assisted | WP_FullAccess

fun wire_profile_as_str :: "wire_profile \<Rightarrow> rstr" where
  "wire_profile_as_str WP_RequestApproval = lit ''request_approval''"
| "wire_profile_as_str WP_Assisted = lit ''assisted''"
| "wire_profile_as_str WP_FullAccess = lit ''full_access''"

definition wire_profile_parse :: "rstr \<Rightarrow> wire_profile option" where
  "wire_profile_parse raw =
     (let s = trim raw
      in if s \<in> set [lit ''request_approval'', lit ''request-approval'', lit ''plan''] then Some WP_RequestApproval
         else if s \<in> set [lit ''assisted'', lit ''workspace_write''] then Some WP_Assisted
         else if s \<in> set [lit ''full_access'', lit ''full-access''] then Some WP_FullAccess
         else None)"

section \<open>Grants\<close>

datatype granted_trigger =
    GT_Once instant
  | GT_Every nat
  | GT_Daily rstr rstr
  | GT_Weekly weekday_set rstr rstr
  | GT_Cron rstr rstr

fun granted_of :: "trigger \<Rightarrow> granted_trigger" where
  "granted_of (Once a) = GT_Once a"
| "granted_of (Every _ every) = GT_Every (as_secs every)"
| "granted_of (Daily time z) = GT_Daily (local_time_display time) z"
| "granted_of (Weekly ds time z) = GT_Weekly ds (local_time_display time) z"
| "granted_of (Cron e z) = GT_Cron e z"

definition count_ones :: "weekday_set \<Rightarrow> nat" where
  "count_ones m = length (filter (bit m) [0..<8])"

definition div_ceil :: "nat \<Rightarrow> nat \<Rightarrow> nat" where
  "div_ceil a b = (a + b - 1) div b"

fun weekly_rate :: "granted_trigger \<Rightarrow> nat option" where
  "weekly_rate (GT_Every secs) = (if secs > 0 then Some (div_ceil 604800 secs) else None)"
| "weekly_rate (GT_Daily _ _) = Some 7"
| "weekly_rate (GT_Weekly ds _ _) = Some (count_ones ds)"
| "weekly_rate (GT_Once _) = None"
| "weekly_rate (GT_Cron _ _) = None"

fun granted_timezone :: "granted_trigger \<Rightarrow> rstr option" where
  "granted_timezone (GT_Daily _ z) = Some z"
| "granted_timezone (GT_Weekly _ _ z) = Some z"
| "granted_timezone (GT_Cron _ z) = Some z"
| "granted_timezone _ = None"

datatype refusal =
    OnceEarlier | OnceBecameRecurring | CronChanged | CronConversion | TimezoneChanged
  | RateUnknown | RateHigher nat nat
  | GrantVersion nat | GrantWithoutTrigger | OtherSchedule | OtherWorkspace | OtherMode | OtherKind
  | ActionUnprintable | ActionChanged | ModelChanged | ExternalNotAllowed | NoGrant

definition timestamp_millis :: "instant \<Rightarrow> int" where
  "timestamp_millis t = t div 1000000"

fun is_cron :: "granted_trigger \<Rightarrow> bool" where
  "is_cron (GT_Cron _ _) = True"
| "is_cron _ = False"

definition compare_rates :: "granted_trigger \<Rightarrow> trigger \<Rightarrow> refusal + unit" where
  "compare_rates granted new =
     (if granted_timezone granted \<noteq> trigger_timezone new then Inl TimezoneChanged
      else case weekly_rate granted of
             None \<Rightarrow> Inl RateUnknown
           | Some g \<Rightarrow> (case weekly_rate (granted_of new) of
                          None \<Rightarrow> Inl RateUnknown
                        | Some n \<Rightarrow> if n > g then Inl (RateHigher n g) else Inr ()))"

definition trigger_covers :: "granted_trigger \<Rightarrow> trigger \<Rightarrow> refusal + unit" where
  "trigger_covers granted new =
     (case (granted, new) of
        (GT_Once g, Once a) \<Rightarrow>
          if timestamp_millis a < timestamp_millis g then Inl OnceEarlier else Inr ()
      | (GT_Once _, _) \<Rightarrow> Inl OnceBecameRecurring
      | (_, Once _) \<Rightarrow> Inr ()
      | (GT_Cron e z, Cron e' z') \<Rightarrow> if e = e' \<and> z = z' then Inr () else Inl CronChanged
      | (GT_Cron _ _, _) \<Rightarrow> Inl CronConversion
      | (_, Cron _ _) \<Rightarrow> Inl CronConversion
      | _ \<Rightarrow> compare_rates granted new)"

record unattended_request =
  ur_allow_external :: bool

record unattended_grant =
  ug_version :: nat
  ug_definition :: rstr
  ug_workspace :: rstr
  ug_mode :: wire_profile
  ug_action :: rstr
  ug_model :: "model_ref option"
  ug_actions :: "action_kind list"
  ug_trigger :: "granted_trigger option"
  ug_external :: bool
  ug_granted_at :: instant

definition GRANT_VERSION :: nat where "GRANT_VERSION = 3"

definition unattended_grant_new ::
  "'j json_lib \<Rightarrow> rstr \<Rightarrow> rstr \<Rightarrow> wire_profile \<Rightarrow> 'j schedule_action \<Rightarrow> trigger \<Rightarrow> model_ref option
     \<Rightarrow> unattended_request \<Rightarrow> instant \<Rightarrow> schedule_error + unattended_grant" where
  "unattended_grant_new js definition_id workspace mode action trigger model request granted_at =
     (case fingerprint js action of
        None \<Rightarrow> Inl (Invalid InputNotObject)
      | Some f \<Rightarrow> Inr \<lparr>ug_version = GRANT_VERSION, ug_definition = definition_id, ug_workspace = workspace,
                   ug_mode = mode, ug_action = f, ug_model = model, ug_actions = [kind_of action],
                   ug_trigger = Some (granted_of trigger),
                   ug_external = ur_allow_external request, ug_granted_at = granted_at\<rparr>)"

section \<open>Definitions\<close>

record 'j schedule_definition =
  sd_id :: rstr
  sd_name :: rstr
  sd_workspace :: rstr
  sd_action :: "'j schedule_action"
  sd_trigger :: trigger
  sd_session_policy :: session_policy
  sd_overlap :: overlap_policy
  sd_mode :: wire_profile
  sd_model :: "model_ref option"
  sd_timeout :: duration
  sd_misfire :: misfire_policy
  sd_misfire_grace :: duration
  sd_session :: "rstr option"
  sd_unattended :: "unattended_grant option"
  sd_enabled :: bool
  sd_created_at :: instant
  sd_updated_at :: instant

definition grant_covers ::
  "'j json_lib \<Rightarrow> unattended_grant \<Rightarrow> 'j schedule_definition \<Rightarrow> action_kind \<Rightarrow> bool \<Rightarrow> refusal + unit" where
  "grant_covers js g d kind external =
     and_then (check (ug_version g \<noteq> GRANT_VERSION) (GrantVersion (ug_version g))) (\<lambda>_.
     and_then (opt_err GrantWithoutTrigger (ug_trigger g)) (\<lambda>t.
     and_then (trigger_covers t (sd_trigger d)) (\<lambda>_.
     and_then (check (ug_definition g \<noteq> sd_id d) OtherSchedule) (\<lambda>_.
     and_then (check (ug_workspace g \<noteq> sd_workspace d) OtherWorkspace) (\<lambda>_.
     and_then (check (ug_mode g \<noteq> sd_mode d) OtherMode) (\<lambda>_.
     and_then (check (kind \<notin> set (ug_actions g)) OtherKind) (\<lambda>_.
     and_then (opt_err ActionUnprintable (fingerprint js (sd_action d))) (\<lambda>a.
     and_then (check (ug_action g \<noteq> a) ActionChanged) (\<lambda>_.
     and_then (check (ug_model g \<noteq> sd_model d) ModelChanged) (\<lambda>_.
     check (external \<and> \<not> ug_external g) ExternalNotAllowed))))))))))"

definition unattended_authorization ::
  "'j json_lib \<Rightarrow> 'j schedule_definition \<Rightarrow> action_kind \<Rightarrow> bool \<Rightarrow> refusal + unit" where
  "unattended_authorization js d kind external =
     and_then (opt_err NoGrant (sd_unattended d)) (\<lambda>g. grant_covers js g d kind external)"

definition unattended_grant_valid :: "'j json_lib \<Rightarrow> 'j schedule_definition \<Rightarrow> bool" where
  "unattended_grant_valid js d =
     (case sd_unattended d of None \<Rightarrow> False
      | Some g \<Rightarrow> grant_covers js g d (kind_of (sd_action d)) False = Inr ())"

definition session_goal :: "'j schedule_definition \<Rightarrow> rstr" where
  "session_goal d = (case sd_action d of Agent goal \<Rightarrow> goal | _ \<Rightarrow> lit ''Scheduled action: '' @ sd_name d)"

text \<open>The fields a create and an update declare alike.\<close>

record 'j declared =
  dc_name :: rstr
  dc_workspace :: rstr
  dc_action :: "'j schedule_action"
  dc_trigger :: trigger
  dc_session_policy :: session_policy
  dc_overlap :: overlap_policy
  dc_mode :: wire_profile
  dc_model :: "model_ref option"
  dc_timeout :: duration
  dc_misfire :: misfire_policy
  dc_misfire_grace :: duration
  dc_grant :: "unattended_request option"

abbreviation secs :: "nat \<Rightarrow> duration" where "secs n \<equiv> n * 1000000000"

definition validate_declaration ::
  "'j json_lib \<Rightarrow> calendar \<Rightarrow> (rstr \<Rightarrow> bool) \<Rightarrow> 'j declared \<Rightarrow> schedule_error + unit" where
  "validate_declaration js cal is_absolute c =
     and_then (check (trim (dc_name c) = []) (Invalid NameEmpty)) (\<lambda>_.
     and_then (check (byte_len (trim (dc_name c)) > MAX_NAME_BYTES) (Invalid NameTooLong)) (\<lambda>_.
     and_then (check (list_ex is_control (trim (dc_name c))) (Invalid NameControl)) (\<lambda>_.
     and_then (check (\<not> is_absolute (dc_workspace c)) (Invalid WorkspaceRelative)) (\<lambda>_.
     and_then (action_validate js (dc_action c)) (\<lambda>_.
     and_then (check (kind_of (dc_action c) = AK_Agent \<and> dc_model c = None) (Invalid AgentWithoutModel)) (\<lambda>_.
     and_then (check (kind_of (dc_action c) \<noteq> AK_Native \<and> dc_overlap c = AllowConcurrent
                      \<and> dc_session_policy c = Continue) (Invalid SharedSessionOverlap)) (\<lambda>_.
     and_then (check (dc_timeout c < secs 1) (Invalid TimeoutTooShort)) (\<lambda>_.
     and_then (check (dc_timeout c > secs (7 * 24 * 60 * 60)) (Invalid TimeoutTooLong)) (\<lambda>_.
     and_then (check (dc_misfire_grace c > secs (7 * 24 * 60 * 60)) (Invalid GraceTooLong)) (\<lambda>_.
     trigger_validate cal (dc_trigger c)))))))))))"

definition validate_unattended_request ::
  "'j schedule_action \<Rightarrow> unattended_request \<Rightarrow> schedule_error + unit" where
  "validate_unattended_request action request =
     check ((case action of Shell _ \<Rightarrow> True | Agent _ \<Rightarrow> True | Native _ _ \<Rightarrow> False)
            \<and> \<not> ur_allow_external request) (Invalid GrantMustAllowExternal)"

section \<open>Usage\<close>

record usage_snapshot =
  us_requests :: nat
  us_input_tokens :: nat
  us_cached_input_tokens :: nat
  us_output_tokens :: nat
  us_reasoning_tokens :: nat
  us_cost_usd_micros :: nat
  us_rows_without_cost :: nat

text \<open>\<open>saturating_sub\<close> is subtraction on the naturals.\<close>

definition usage_since :: "usage_snapshot \<Rightarrow> usage_snapshot \<Rightarrow> usage_snapshot" where
  "usage_since u b =
     \<lparr>us_requests = us_requests u - us_requests b,
      us_input_tokens = us_input_tokens u - us_input_tokens b,
      us_cached_input_tokens = us_cached_input_tokens u - us_cached_input_tokens b,
      us_output_tokens = us_output_tokens u - us_output_tokens b,
      us_reasoning_tokens = us_reasoning_tokens u - us_reasoning_tokens b,
      us_cost_usd_micros = us_cost_usd_micros u - us_cost_usd_micros b,
      us_rows_without_cost = us_rows_without_cost u - us_rows_without_cost b\<rparr>"

end
