(* ===== verification/Schedule_Rows.thy ===== *)
theory Schedule_Rows
  imports Schedule_Grant
begin

text \<open>
  How schedules are persisted (leveler-schedule/src/store.rs and the state enums of
  lib.rs): the columns of a definition with the one encoder that create and update share
  and the decoder every read uses, the occurrence and run states, the rows of the
  occurrence and run tables, and the outcome of a run with the columns it settles.

  Every stored instant is a text of fixed width with milliseconds, so its order as a
  text is its order in time; a column of that kind is the number of milliseconds.  An
  SQL \<open>NULL\<close> is \<open>None\<close>.
\<close>

section \<open>Stored instants\<close>

definition of_millis :: "int \<Rightarrow> instant" where
  "of_millis m = m * 1000000"

lemma of_millis_timestamp: "of_millis (timestamp_millis t) \<le> t" "t < of_millis (timestamp_millis t) + 1000000"
  by (simp_all add: of_millis_def timestamp_millis_def)

lemma timestamp_of_millis [simp]: "timestamp_millis (of_millis m) = m"
  by (simp add: of_millis_def timestamp_millis_def)

section \<open>States\<close>

datatype occurrence_state =
    OS_Pending | OS_Claimed | OS_Completed | OS_Interrupted | OS_Missed | OS_Skipped
  | OS_WaitingApproval | OS_Blocked | OS_Cancelled

fun occurrence_state_as_str :: "occurrence_state \<Rightarrow> rstr" where
  "occurrence_state_as_str OS_Pending = lit ''pending''"
| "occurrence_state_as_str OS_Claimed = lit ''claimed''"
| "occurrence_state_as_str OS_Completed = lit ''completed''"
| "occurrence_state_as_str OS_Interrupted = lit ''interrupted''"
| "occurrence_state_as_str OS_Missed = lit ''missed''"
| "occurrence_state_as_str OS_Skipped = lit ''skipped''"
| "occurrence_state_as_str OS_WaitingApproval = lit ''waiting_approval''"
| "occurrence_state_as_str OS_Blocked = lit ''blocked''"
| "occurrence_state_as_str OS_Cancelled = lit ''cancelled''"

definition occurrence_state_parse :: "rstr \<Rightarrow> occurrence_state option" where
  "occurrence_state_parse s = map_of (map (\<lambda>x. (occurrence_state_as_str x, x))
     [OS_Pending, OS_Claimed, OS_Completed, OS_Interrupted, OS_Missed, OS_Skipped,
      OS_WaitingApproval, OS_Blocked, OS_Cancelled]) s"

datatype schedule_run_state =
    RS_Dispatching | RS_Running | RS_Succeeded | RS_Submitted | RS_Failed | RS_Unknown | RS_Skipped
  | RS_WaitingApproval | RS_Blocked | RS_Cancelled

fun run_state_as_str :: "schedule_run_state \<Rightarrow> rstr" where
  "run_state_as_str RS_Dispatching = lit ''dispatching''"
| "run_state_as_str RS_Running = lit ''running''"
| "run_state_as_str RS_Succeeded = lit ''succeeded''"
| "run_state_as_str RS_Submitted = lit ''submitted''"
| "run_state_as_str RS_Failed = lit ''failed''"
| "run_state_as_str RS_Unknown = lit ''unknown''"
| "run_state_as_str RS_Skipped = lit ''skipped''"
| "run_state_as_str RS_WaitingApproval = lit ''waiting_approval''"
| "run_state_as_str RS_Blocked = lit ''blocked''"
| "run_state_as_str RS_Cancelled = lit ''cancelled''"

definition run_state_parse :: "rstr \<Rightarrow> schedule_run_state option" where
  "run_state_parse s = map_of (map (\<lambda>x. (run_state_as_str x, x))
     [RS_Dispatching, RS_Running, RS_Succeeded, RS_Submitted, RS_Failed, RS_Unknown, RS_Skipped,
      RS_WaitingApproval, RS_Blocked, RS_Cancelled]) s"

fun is_terminal :: "schedule_run_state \<Rightarrow> bool" where
  "is_terminal RS_Dispatching = False"
| "is_terminal RS_Running = False"
| "is_terminal _ = True"

section \<open>Outcomes\<close>

datatype run_outcome =
    RO_Succeeded "int option"
  | RO_Submitted "rstr option"
  | RO_Failed "int option" rstr
  | RO_Unknown rstr
  | RO_Skipped rstr
  | RO_WaitingApproval rstr
  | RO_Blocked rstr
  | RO_Cancelled "rstr option"

fun outcome_state :: "run_outcome \<Rightarrow> schedule_run_state" where
  "outcome_state (RO_Succeeded _) = RS_Succeeded"
| "outcome_state (RO_Submitted _) = RS_Submitted"
| "outcome_state (RO_Failed _ _) = RS_Failed"
| "outcome_state (RO_Unknown _) = RS_Unknown"
| "outcome_state (RO_Skipped _) = RS_Skipped"
| "outcome_state (RO_WaitingApproval _) = RS_WaitingApproval"
| "outcome_state (RO_Blocked _) = RS_Blocked"
| "outcome_state (RO_Cancelled _) = RS_Cancelled"

fun outcome_exit_code :: "run_outcome \<Rightarrow> int option" where
  "outcome_exit_code (RO_Succeeded c) = c"
| "outcome_exit_code (RO_Failed c _) = c"
| "outcome_exit_code _ = None"

fun outcome_error :: "run_outcome \<Rightarrow> rstr option" where
  "outcome_error (RO_Succeeded _) = None"
| "outcome_error (RO_Failed _ e) = Some e"
| "outcome_error (RO_Unknown e) = Some e"
| "outcome_error (RO_Skipped e) = Some e"
| "outcome_error (RO_WaitingApproval e) = Some e"
| "outcome_error (RO_Blocked e) = Some e"
| "outcome_error (RO_Submitted e) = e"
| "outcome_error (RO_Cancelled e) = e"

fun outcome_occurrence_state :: "run_outcome \<Rightarrow> occurrence_state" where
  "outcome_occurrence_state (RO_Succeeded _) = OS_Completed"
| "outcome_occurrence_state (RO_Submitted _) = OS_Completed"
| "outcome_occurrence_state (RO_Failed _ _) = OS_Completed"
| "outcome_occurrence_state (RO_Unknown _) = OS_Completed"
| "outcome_occurrence_state (RO_Skipped _) = OS_Skipped"
| "outcome_occurrence_state (RO_WaitingApproval _) = OS_WaitingApproval"
| "outcome_occurrence_state (RO_Blocked _) = OS_Blocked"
| "outcome_occurrence_state (RO_Cancelled _) = OS_Cancelled"

lemma outcome_terminal: "is_terminal (outcome_state x)"
  by (cases x) simp_all

lemma outcome_occurrence_settled:
  "outcome_occurrence_state x \<noteq> OS_Pending" "outcome_occurrence_state x \<noteq> OS_Claimed"
  "outcome_occurrence_state x \<noteq> OS_Missed"
  by (cases x; simp)+

section \<open>Definition rows\<close>

record definition_row =
  dr_id :: rstr
  dr_name :: rstr
  dr_workspace :: rstr
  dr_action :: rstr
  dr_command :: rstr
  dr_agent_goal :: "rstr option"
  dr_native_action :: "rstr option"
  dr_native_input :: "rstr option"
  dr_trigger_kind :: rstr
  dr_once_at :: "int option"
  dr_anchor_at :: "int option"
  dr_every_secs :: "int option"
  dr_timezone :: "rstr option"
  dr_local_time :: "rstr option"
  dr_weekdays :: "int option"
  dr_cron_expr :: "rstr option"
  dr_session_policy :: rstr
  dr_overlap_policy :: rstr
  dr_permission_mode :: rstr
  dr_model :: "rstr option"
  dr_timeout_secs :: int
  dr_misfire_policy :: rstr
  dr_misfire_grace_secs :: int
  dr_unattended_grant :: "rstr option"
  dr_session_id :: "rstr option"
  dr_enabled :: int
  dr_created_at :: int
  dr_updated_at :: int

text \<open>The JSON of a grant.\<close>

record grant_lib =
  gl_to_string :: "unattended_grant \<Rightarrow> rstr option"
  gl_parse :: "rstr \<Rightarrow> unattended_grant option"

record action_columns_rec =
  ac_kind :: rstr
  ac_agent_goal :: "rstr option"
  ac_native_action :: "rstr option"
  ac_native_input :: "rstr option"

fun action_columns :: "'j json_lib \<Rightarrow> 'j schedule_action \<Rightarrow> schedule_error + action_columns_rec" where
  "action_columns js (Native action input) =
     (case js_to_string js input of
        None \<Rightarrow> Inl (Invalid InputNotObject)
      | Some s \<Rightarrow> Inr \<lparr>ac_kind = action_kind_as_str AK_Native, ac_agent_goal = None,
                   ac_native_action = Some action, ac_native_input = Some s\<rparr>)"
| "action_columns js (Agent goal) =
     Inr \<lparr>ac_kind = action_kind_as_str AK_Agent, ac_agent_goal = Some goal, ac_native_action = None, ac_native_input = None\<rparr>"
| "action_columns js (Shell c) =
     Inr \<lparr>ac_kind = action_kind_as_str AK_Shell, ac_agent_goal = None, ac_native_action = None, ac_native_input = None\<rparr>"

record trigger_columns_rec =
  tc_kind :: rstr
  tc_once_at :: "int option"
  tc_anchor_at :: "int option"
  tc_every_secs :: "int option"
  tc_timezone :: "rstr option"
  tc_local_time :: "rstr option"
  tc_weekdays :: "int option"
  tc_cron_expr :: "rstr option"

definition no_trigger_columns :: "rstr \<Rightarrow> trigger_columns_rec" where
  "no_trigger_columns kind =
     \<lparr>tc_kind = kind, tc_once_at = None, tc_anchor_at = None, tc_every_secs = None, tc_timezone = None,
      tc_local_time = None, tc_weekdays = None, tc_cron_expr = None\<rparr>"

fun trigger_columns :: "trigger \<Rightarrow> trigger_columns_rec" where
  "trigger_columns (Once a) = (no_trigger_columns (lit ''once''))\<lparr>tc_once_at := Some (timestamp_millis a)\<rparr>"
| "trigger_columns (Every anchor every) =
     (no_trigger_columns (lit ''every''))
       \<lparr>tc_anchor_at := Some (timestamp_millis anchor), tc_every_secs := Some (int (as_secs every))\<rparr>"
| "trigger_columns (Daily time z) =
     (no_trigger_columns (lit ''daily''))\<lparr>tc_timezone := Some z, tc_local_time := Some (local_time_display time)\<rparr>"
| "trigger_columns (Weekly ds time z) =
     (no_trigger_columns (lit ''weekly''))
       \<lparr>tc_timezone := Some z, tc_local_time := Some (local_time_display time), tc_weekdays := Some (uint ds)\<rparr>"
| "trigger_columns (Cron e z) =
     (no_trigger_columns (lit ''cron''))\<lparr>tc_timezone := Some z, tc_cron_expr := Some e\<rparr>"

section \<open>Reading a definition\<close>

definition column :: "string \<Rightarrow> 'a option \<Rightarrow> schedule_error + 'a" where
  "column name v = opt_err (Database (lit name)) v"

definition storage_time :: "definition_row \<Rightarrow> schedule_error + local_time" where
  "storage_time r = and_then (column ''local_time'' (dr_local_time r)) local_time_parse"

definition storage_timezone :: "calendar \<Rightarrow> definition_row \<Rightarrow> schedule_error + rstr" where
  "storage_timezone cal r = and_then (column ''timezone'' (dr_timezone r)) (parse_timezone cal)"

definition row_action :: "'j json_lib \<Rightarrow> definition_row \<Rightarrow> schedule_error + 'j schedule_action" where
  "row_action js r =
     (if dr_action r = lit ''shell'' then Inr (Shell (dr_command r))
      else if dr_action r = lit ''native'' then
        and_then (column ''native_action'' (dr_native_action r)) (\<lambda>i.
        and_then (column ''native_input'' (dr_native_input r)) (\<lambda>s.
        and_then (opt_err (Invalid StoredInputNotJson) (js_parse js s)) (\<lambda>x. Inr (Native i x))))
      else if dr_action r = lit ''agent'' then
        and_then (column ''agent_goal'' (dr_agent_goal r)) (\<lambda>g. Inr (Agent g))
      else Inl (Invalid (UnsupportedAction (dr_action r))))"

definition row_grant :: "grant_lib \<Rightarrow> definition_row \<Rightarrow> schedule_error + unattended_grant option" where
  "row_grant gl r =
     (case dr_unattended_grant r of
        None \<Rightarrow> Inr None
      | Some s \<Rightarrow> and_then (opt_err (Invalid StoredGrantNotJson) (gl_parse gl s)) (\<lambda>g. Inr (Some g)))"

definition row_weekdays :: "definition_row \<Rightarrow> schedule_error + weekday_set" where
  "row_weekdays r =
     and_then (column ''weekdays'' (dr_weekdays r)) (\<lambda>v.
     and_then (check (v < 0 \<or> v > 255) (Invalid WeekdayMaskRange)) (\<lambda>_. weekdays_from_bits (word_of_int v)))"

definition row_trigger :: "calendar \<Rightarrow> definition_row \<Rightarrow> schedule_error + trigger" where
  "row_trigger cal r =
     (if dr_trigger_kind r = lit ''once'' then
        and_then (column ''once_at'' (dr_once_at r)) (\<lambda>a. Inr (Once (of_millis a)))
      else if dr_trigger_kind r = lit ''every'' then
        and_then (column ''anchor_at'' (dr_anchor_at r)) (\<lambda>a.
        and_then (column ''every_secs'' (dr_every_secs r)) (\<lambda>n.
        Inr (Every (of_millis a) (secs (nat (max 1 n))))))
      else if dr_trigger_kind r = lit ''daily'' then
        and_then (storage_time r) (\<lambda>t. and_then (storage_timezone cal r) (\<lambda>z. Inr (Daily t z)))
      else if dr_trigger_kind r = lit ''weekly'' then
        and_then (row_weekdays r) (\<lambda>ds.
        and_then (storage_time r) (\<lambda>t. and_then (storage_timezone cal r) (\<lambda>z. Inr (Weekly ds t z))))
      else if dr_trigger_kind r = lit ''cron'' then
        and_then (column ''cron_expr'' (dr_cron_expr r)) (\<lambda>e.
        and_then (storage_timezone cal r) (\<lambda>z. Inr (Cron e z)))
      else Inl (Invalid (UnsupportedTrigger (dr_trigger_kind r))))"

definition row_model :: "definition_row \<Rightarrow> schedule_error + model_ref option" where
  "row_model r =
     (case dr_model r of
        None \<Rightarrow> Inr None
      | Some s \<Rightarrow> and_then (opt_err (Invalid (BadModelReference s)) (model_ref_parse s)) (\<lambda>m. Inr (Some m)))"

definition definition_from_row ::
  "'j json_lib \<Rightarrow> grant_lib \<Rightarrow> calendar \<Rightarrow> definition_row \<Rightarrow> schedule_error + 'j schedule_definition" where
  "definition_from_row js gl cal r =
     and_then (row_action js r) (\<lambda>action.
     and_then (action_validate js action) (\<lambda>_.
     and_then (opt_err (Invalid (UnsupportedSessionPolicy (dr_session_policy r)))
                 (session_policy_parse (dr_session_policy r))) (\<lambda>session_policy.
     and_then (opt_err (Invalid (UnsupportedOverlap (dr_overlap_policy r)))
                 (overlap_parse (dr_overlap_policy r))) (\<lambda>overlap.
     and_then (row_grant gl r) (\<lambda>unattended.
     and_then (row_trigger cal r) (\<lambda>trigger.
     and_then (trigger_validate cal trigger) (\<lambda>_.
     and_then (opt_err (Invalid (UnsupportedMode (dr_permission_mode r)))
                 (wire_profile_parse (dr_permission_mode r))) (\<lambda>mode.
     and_then (row_model r) (\<lambda>model.
     and_then (opt_err (Invalid (BadMisfirePolicy (dr_misfire_policy r)))
                 (misfire_parse (dr_misfire_policy r))) (\<lambda>misfire.
     Inr \<lparr>sd_id = dr_id r, sd_name = dr_name r, sd_workspace = dr_workspace r, sd_action = action,
          sd_trigger = trigger, sd_session_policy = session_policy, sd_overlap = overlap, sd_mode = mode,
          sd_model = model, sd_timeout = secs (nat (max 1 (dr_timeout_secs r))), sd_misfire = misfire,
          sd_misfire_grace = secs (nat (max 0 (dr_misfire_grace_secs r))), sd_session = dr_session_id r,
          sd_unattended = unattended, sd_enabled = (dr_enabled r \<noteq> 0),
          sd_created_at = of_millis (dr_created_at r), sd_updated_at = of_millis (dr_updated_at r)\<rparr>))))))))))"

section \<open>Writing a definition\<close>

text \<open>The columns that create and update bind alike.\<close>

definition bind_declared ::
  "'j declared \<Rightarrow> rstr \<Rightarrow> action_columns_rec \<Rightarrow> rstr option \<Rightarrow> definition_row \<Rightarrow> definition_row" where
  "bind_declared c workspace a grant_json r =
     (let t = trigger_columns (dc_trigger c)
      in r\<lparr>dr_name := trim (dc_name c), dr_workspace := workspace, dr_action := ac_kind a,
           dr_command := command_of (dc_action c), dr_agent_goal := ac_agent_goal a,
           dr_native_action := ac_native_action a, dr_native_input := ac_native_input a,
           dr_trigger_kind := tc_kind t, dr_once_at := tc_once_at t, dr_anchor_at := tc_anchor_at t,
           dr_every_secs := tc_every_secs t, dr_timezone := tc_timezone t, dr_local_time := tc_local_time t,
           dr_weekdays := tc_weekdays t, dr_cron_expr := tc_cron_expr t,
           dr_session_policy := session_policy_as_str (dc_session_policy c),
           dr_overlap_policy := overlap_as_str (dc_overlap c),
           dr_permission_mode := wire_profile_as_str (dc_mode c),
           dr_model := map_option model_ref_display (dc_model c),
           dr_timeout_secs := int (as_secs (dc_timeout c)),
           dr_misfire_policy := misfire_as_str (dc_misfire c),
           dr_misfire_grace_secs := int (as_secs (dc_misfire_grace c)),
           dr_unattended_grant := grant_json\<rparr>)"

section \<open>Occurrence and run rows\<close>

record occurrence_row =
  oc_id :: rstr
  oc_definition :: rstr
  oc_scheduled_for :: int
  oc_state :: occurrence_state
  oc_run_now :: bool
  oc_claimed_at :: "int option"
  oc_lease :: "int option"
  oc_created_at :: int

record run_row =
  rn_id :: rstr
  rn_occurrence :: rstr
  rn_definition :: rstr
  rn_state :: schedule_run_state
  rn_session :: "rstr option"
  rn_execution :: "rstr option"
  rn_exit_code :: "int option"
  rn_error :: "rstr option"
  rn_started_at :: int
  rn_delivered_at :: "int option"
  rn_running_at :: "int option"
  rn_finished_at :: "int option"
  rn_baseline_sequence :: "int option"
  rn_turn_ordinal :: "int option"
  rn_task_sequence :: "int option"
  rn_task_outcome :: "rstr option"
  rn_provider :: "rstr option"
  rn_native_outcome :: "rstr option"
  rn_capability_state :: "rstr option"
  rn_permission_state :: "rstr option"
  rn_usage :: "usage_snapshot option"
  rn_usage_baseline :: "usage_snapshot option"
  rn_handed_off_at :: "int option"
  rn_deadline_at :: "int option"
  rn_cancel_requested_at :: "int option"
  rn_cancel_issued_at :: "int option"

definition new_occurrence :: "rstr \<Rightarrow> rstr \<Rightarrow> int \<Rightarrow> bool \<Rightarrow> int \<Rightarrow> occurrence_row" where
  "new_occurrence i definition_id scheduled_for run_now created =
     \<lparr>oc_id = i, oc_definition = definition_id, oc_scheduled_for = scheduled_for, oc_state = OS_Pending,
      oc_run_now = run_now, oc_claimed_at = None, oc_lease = None, oc_created_at = created\<rparr>"

definition new_run :: "rstr \<Rightarrow> rstr \<Rightarrow> rstr \<Rightarrow> schedule_run_state \<Rightarrow> int \<Rightarrow> run_row" where
  "new_run i occurrence definition_id st started =
     \<lparr>rn_id = i, rn_occurrence = occurrence, rn_definition = definition_id, rn_state = st, rn_session = None,
      rn_execution = None, rn_exit_code = None, rn_error = None, rn_started_at = started,
      rn_delivered_at = None, rn_running_at = None, rn_finished_at = None, rn_baseline_sequence = None,
      rn_turn_ordinal = None, rn_task_sequence = None, rn_task_outcome = None, rn_provider = None,
      rn_native_outcome = None, rn_capability_state = None, rn_permission_state = None, rn_usage = None,
      rn_usage_baseline = None, rn_handed_off_at = None, rn_deadline_at = None,
      rn_cancel_requested_at = None, rn_cancel_issued_at = None\<rparr>"

record run_facts =
  rf_task_sequence :: "int option"
  rf_task_outcome :: "rstr option"
  rf_provider :: "rstr option"
  rf_native_outcome :: "rstr option"
  rf_capability_state :: "rstr option"
  rf_permission_state :: "rstr option"
  rf_usage_delta :: "usage_snapshot option"

definition no_facts :: run_facts where
  "no_facts = \<lparr>rf_task_sequence = None, rf_task_outcome = None, rf_provider = None, rf_native_outcome = None,
     rf_capability_state = None, rf_permission_state = None, rf_usage_delta = None\<rparr>"

definition coalesce :: "'a option \<Rightarrow> 'a option \<Rightarrow> 'a option" where
  "coalesce x y = (case x of None \<Rightarrow> y | Some _ \<Rightarrow> x)"

text \<open>Settling a run: an absent fact never overwrites an observed one.\<close>

definition settle_run :: "run_outcome \<Rightarrow> run_facts \<Rightarrow> int \<Rightarrow> run_row \<Rightarrow> run_row" where
  "settle_run outcome facts now r =
     r\<lparr>rn_state := outcome_state outcome, rn_exit_code := outcome_exit_code outcome,
       rn_error := outcome_error outcome, rn_finished_at := Some now,
       rn_task_sequence := coalesce (rf_task_sequence facts) (rn_task_sequence r),
       rn_task_outcome := coalesce (rf_task_outcome facts) (rn_task_outcome r),
       rn_provider := coalesce (rf_provider facts) (rn_provider r),
       rn_native_outcome := coalesce (rf_native_outcome facts) (rn_native_outcome r),
       rn_capability_state := coalesce (rf_capability_state facts) (rn_capability_state r),
       rn_permission_state := coalesce (rf_permission_state facts) (rn_permission_state r),
       rn_usage := coalesce (rf_usage_delta facts) (rn_usage r)\<rparr>"

end
