(* ===== verification/Schedule_Store.thy ===== *)
theory Schedule_Store
  imports Schedule_Rows "HOL-Library.List_Lexorder" "HOL-Library.Product_Lexorder" "HOL-Library.Option_ord"
begin

text \<open>
  The schedule store (leveler-schedule/src/store.rs): its tables, one function per SQL
  transaction, and the operations that read candidates and run transactions over them.
  SQLite serialises writers, so a transaction is one function of the whole database;
  what several dispatchers do at once is some order of such transactions.  An operation
  returns its result with the database it leaves.  A generated identity is the next one
  of a supply; the present instant is an argument of each operation that reads the clock.
\<close>

section \<open>Tables\<close>

record schedule_db =
  db_definitions :: "definition_row list"
  db_occurrences :: "occurrence_row list"
  db_runs :: "run_row list"
  db_minted :: nat

record 'j store_env =
  se_json :: "'j json_lib"
  se_grants :: grant_lib
  se_calendar :: calendar
  se_absolute :: "rstr \<Rightarrow> bool"
  se_canonicalize :: "rstr \<Rightarrow> rstr option"
  se_is_dir :: "rstr \<Rightarrow> bool"
  se_id :: "nat \<Rightarrow> rstr"
  se_time_text :: "int \<Rightarrow> rstr"

definition update_where :: "('a \<Rightarrow> bool) \<Rightarrow> ('a \<Rightarrow> 'a) \<Rightarrow> 'a list \<Rightarrow> 'a list" where
  "update_where p f xs = map (\<lambda>x. if p x then f x else x) xs"

definition active :: "run_row \<Rightarrow> bool" where
  "active r \<longleftrightarrow> rn_state r = RS_Dispatching \<or> rn_state r = RS_Running"

definition active_of :: "rstr \<Rightarrow> run_row \<Rightarrow> bool" where
  "active_of did r \<longleftrightarrow> rn_definition r = did \<and> active r"

definition has_active :: "schedule_db \<Rightarrow> rstr \<Rightarrow> bool" where
  "has_active db did \<longleftrightarrow> list_ex (active_of did) (db_runs db)"

definition pending_id :: "rstr \<Rightarrow> occurrence_row \<Rightarrow> bool" where
  "pending_id i x \<longleftrightarrow> oc_id x = i \<and> oc_state x = OS_Pending"

definition claimed_id :: "rstr \<Rightarrow> occurrence_row \<Rightarrow> bool" where
  "claimed_id i x \<longleftrightarrow> oc_id x = i \<and> oc_state x = OS_Claimed"

definition lease_until :: "instant \<Rightarrow> duration \<Rightarrow> instant" where
  "lease_until now lease = now + int (min (as_secs lease) (2 ^ 63 - 1)) * sec_ns"

section \<open>Transactions\<close>

text \<open>Create: the definition and its first occurrence.\<close>

definition insert_definition_tx ::
  "(nat \<Rightarrow> rstr) \<Rightarrow> definition_row \<Rightarrow> instant \<Rightarrow> instant \<Rightarrow> schedule_db \<Rightarrow> schedule_db" where
  "insert_definition_tx gen row first now db =
     (let did = gen (db_minted db)
      in db\<lparr>db_definitions := db_definitions db
              @ [row\<lparr>dr_id := did, dr_session_id := None, dr_enabled := 1,
                     dr_created_at := timestamp_millis now, dr_updated_at := timestamp_millis now\<rparr>],
            db_occurrences := db_occurrences db
              @ [new_occurrence (gen (Suc (db_minted db))) did (timestamp_millis first) False (timestamp_millis now)],
            db_minted := Suc (Suc (db_minted db))\<rparr>)"

text \<open>Deleting a definition deletes its occurrences and its runs, and with an occurrence
  its run (\<open>ON DELETE CASCADE\<close>).\<close>

definition delete_definition_tx :: "rstr \<Rightarrow> schedule_db \<Rightarrow> schedule_db" where
  "delete_definition_tx did db =
     (let gone = map oc_id (filter (\<lambda>x. oc_definition x = did) (db_occurrences db))
      in db\<lparr>db_definitions := filter (\<lambda>r. dr_id r \<noteq> did) (db_definitions db),
            db_occurrences := filter (\<lambda>x. oc_definition x \<noteq> did) (db_occurrences db),
            db_runs := filter (\<lambda>r. rn_definition r \<noteq> did \<and> rn_occurrence r \<notin> set gone) (db_runs db)\<rparr>)"

definition set_enabled_tx :: "rstr \<Rightarrow> bool \<Rightarrow> instant \<Rightarrow> schedule_db \<Rightarrow> bool \<times> schedule_db" where
  "set_enabled_tx did enabled now db =
     (list_ex (\<lambda>r. dr_id r = did) (db_definitions db),
      db\<lparr>db_definitions := update_where (\<lambda>r. dr_id r = did)
           (\<lambda>r. r\<lparr>dr_enabled := (if enabled then 1 else 0), dr_updated_at := timestamp_millis now\<rparr>) (db_definitions db)\<rparr>)"

definition revoke_unattended_tx :: "rstr \<Rightarrow> instant \<Rightarrow> schedule_db \<Rightarrow> bool \<times> schedule_db" where
  "revoke_unattended_tx did now db =
     (let p = (\<lambda>r. dr_id r = did \<and> dr_unattended_grant r \<noteq> None)
      in (list_ex p (db_definitions db),
          db\<lparr>db_definitions := update_where p
               (\<lambda>r. r\<lparr>dr_unattended_grant := None, dr_updated_at := timestamp_millis now\<rparr>) (db_definitions db)\<rparr>))"

text \<open>Update: refused when the row's revision moved; a changed rule replaces the pending
  generated slots by its own first one, and the whole update rolls back when that
  instant already has a row.\<close>

definition generated_pending :: "rstr \<Rightarrow> occurrence_row \<Rightarrow> bool" where
  "generated_pending did x \<longleftrightarrow> oc_definition x = did \<and> oc_state x = OS_Pending \<and> \<not> oc_run_now x"

definition taken :: "schedule_db \<Rightarrow> rstr \<Rightarrow> int \<Rightarrow> bool" where
  "taken db did slot \<longleftrightarrow> list_ex (\<lambda>x. oc_definition x = did \<and> oc_scheduled_for x = slot) (db_occurrences db)"

definition update_definition_tx ::
  "(nat \<Rightarrow> rstr) \<Rightarrow> rstr \<Rightarrow> int \<Rightarrow> (definition_row \<Rightarrow> definition_row) \<Rightarrow> instant \<Rightarrow> instant option
     \<Rightarrow> schedule_db \<Rightarrow> (schedule_error + unit) \<times> schedule_db" where
  "update_definition_tx gen did revision write now replacement db =
     (let p = (\<lambda>r. dr_id r = did \<and> dr_updated_at r = revision);
          db1 = db\<lparr>db_definitions := update_where p
                    (\<lambda>r. (write r)\<lparr>dr_id := dr_id r, dr_updated_at := timestamp_millis now\<rparr>) (db_definitions db)\<rparr>
      in if \<not> list_ex p (db_definitions db) then (Inl (Conflict did), db)
         else (case replacement of
                 None \<Rightarrow> (Inr (), db1)
               | Some first \<Rightarrow>
                   (let db2 = db1\<lparr>db_occurrences := filter (\<lambda>x. \<not> generated_pending did x) (db_occurrences db1)\<rparr>
                    in if taken db2 did (timestamp_millis first)
                       then (Inl (Invalid (OccurrenceInHistory (timestamp_millis first))), db)
                       else (Inr (), db2\<lparr>db_occurrences := db_occurrences db2
                               @ [new_occurrence (gen (db_minted db)) did (timestamp_millis first) False (timestamp_millis now)],
                             db_minted := Suc (db_minted db)\<rparr>))))"

definition insert_run_now_tx ::
  "(nat \<Rightarrow> rstr) \<Rightarrow> rstr \<Rightarrow> instant \<Rightarrow> schedule_db \<Rightarrow> (schedule_error + occurrence_row) \<times> schedule_db" where
  "insert_run_now_tx gen did now db =
     (let x = new_occurrence (gen (db_minted db)) did (timestamp_millis now) True (timestamp_millis now)
      in if \<not> list_ex (\<lambda>r. dr_id r = did) (db_definitions db) then (Inl (Database (lit ''foreign key'')), db)
         else if taken db did (timestamp_millis now) then (Inl (Database (lit ''unique'')), db)
         else (Inr x, db\<lparr>db_occurrences := db_occurrences db @ [x], db_minted := Suc (db_minted db)\<rparr>))"

definition insert_slot_tx ::
  "(nat \<Rightarrow> rstr) \<Rightarrow> rstr \<Rightarrow> instant \<Rightarrow> instant \<Rightarrow> schedule_db \<Rightarrow> (schedule_error + unit) \<times> schedule_db" where
  "insert_slot_tx gen did slot now db =
     (if \<not> list_ex (\<lambda>r. dr_id r = did) (db_definitions db) then (Inl (Database (lit ''foreign key'')), db)
      else (Inr (), if taken db did (timestamp_millis slot) then db
        else db\<lparr>db_occurrences := db_occurrences db
                  @ [new_occurrence (gen (db_minted db)) did (timestamp_millis slot) False (timestamp_millis now)],
                db_minted := Suc (db_minted db)\<rparr>))"

definition bind_session_tx :: "rstr \<Rightarrow> rstr \<Rightarrow> instant \<Rightarrow> schedule_db \<Rightarrow> schedule_db" where
  "bind_session_tx did session now db =
     db\<lparr>db_definitions := update_where (\<lambda>r. dr_id r = did \<and> dr_session_id r = None)
          (\<lambda>r. r\<lparr>dr_session_id := Some session, dr_updated_at := timestamp_millis now\<rparr>) (db_definitions db)\<rparr>"

text \<open>The two ways a pending slot is consumed without a claim.\<close>

definition skip_reason :: "rstr \<Rightarrow> rstr" where
  "skip_reason slot = lit ''the slot scheduled for '' @ slot
     @ lit '' became due while an earlier run of this schedule was still active; the overlap policy is ''
     @ lit ''skip-if-running and nothing was executed''"

definition skip_tx :: "(nat \<Rightarrow> rstr) \<Rightarrow> rstr \<Rightarrow> rstr \<Rightarrow> rstr \<Rightarrow> instant \<Rightarrow> schedule_db \<Rightarrow> bool \<times> schedule_db" where
  "skip_tx gen oid did slot now db =
     (if list_ex (pending_id oid) (db_occurrences db)
      then (True, db\<lparr>db_occurrences := update_where (pending_id oid) (\<lambda>x. x\<lparr>oc_state := OS_Skipped\<rparr>) (db_occurrences db),
                     db_runs := db_runs db
                       @ [(new_run (gen (db_minted db)) oid did RS_Skipped (timestamp_millis now))
                            \<lparr>rn_error := Some (skip_reason slot), rn_finished_at := Some (timestamp_millis now)\<rparr>],
                     db_minted := Suc (db_minted db)\<rparr>)
      else (False, db))"

definition miss_tx :: "rstr \<Rightarrow> schedule_db \<Rightarrow> bool \<times> schedule_db" where
  "miss_tx oid db =
     (if list_ex (pending_id oid) (db_occurrences db)
      then (True, db\<lparr>db_occurrences := update_where (pending_id oid) (\<lambda>x. x\<lparr>oc_state := OS_Missed\<rparr>) (db_occurrences db)\<rparr>)
      else (False, db))"

text \<open>The claim: the overlap predicate is part of the write.\<close>

definition overlap_admits :: "schedule_db \<Rightarrow> rstr \<Rightarrow> bool" where
  "overlap_admits db did \<longleftrightarrow>
     list_ex (\<lambda>r. dr_id r = did \<and> (dr_overlap_policy r = lit ''allow-concurrent'' \<or> \<not> has_active db did))
       (db_definitions db)"

definition claim_tx ::
  "(nat \<Rightarrow> rstr) \<Rightarrow> rstr \<Rightarrow> rstr \<Rightarrow> instant \<Rightarrow> duration \<Rightarrow> schedule_db \<Rightarrow> rstr option \<times> schedule_db" where
  "claim_tx gen oid did now lease db =
     (if list_ex (pending_id oid) (db_occurrences db) \<and> overlap_admits db did
      then (Some (gen (db_minted db)),
            db\<lparr>db_occurrences := update_where (pending_id oid)
                 (\<lambda>x. x\<lparr>oc_state := OS_Claimed, oc_claimed_at := Some (timestamp_millis now),
                        oc_lease := Some (timestamp_millis (lease_until now lease))\<rparr>) (db_occurrences db),
               db_runs := db_runs db @ [new_run (gen (db_minted db)) oid did RS_Dispatching (timestamp_millis now)],
               db_minted := Suc (db_minted db)\<rparr>)
      else (None, db))"

text \<open>Recovery of a claim whose lease ran out: which fact was lost is part of the error.\<close>

datatype lost_fact = LF_Started | LF_Delivered | LF_NeverAcknowledged

definition lost_facts :: "run_row option \<Rightarrow> lost_fact" where
  "lost_facts r =
     (case r of
        None \<Rightarrow> LF_NeverAcknowledged
      | Some x \<Rightarrow> if rn_execution x \<noteq> None then LF_Started
                  else if rn_delivered_at x \<noteq> None then LF_Delivered else LF_NeverAcknowledged)"

fun lost_message :: "lost_fact \<Rightarrow> rstr" where
  "lost_message LF_Started = lit ''the runtime had already started this action''"
| "lost_message LF_Delivered = lit ''the runtime acknowledged delivery but never reported the execution''"
| "lost_message LF_NeverAcknowledged = lit ''delivery was never acknowledged''"

definition recovery_error :: "lost_fact \<Rightarrow> rstr" where
  "recovery_error f = lit ''the dispatcher'' @ [39] @ lit ''s lease expired before the run reported a terminal state; ''
     @ lost_message f @ lit ''; the action'' @ [39] @ lit ''s effect is unknown and it was not retried''"

definition recover_tx :: "rstr \<Rightarrow> instant \<Rightarrow> schedule_db \<Rightarrow> bool \<times> schedule_db" where
  "recover_tx oid now db =
     (let p = (\<lambda>r. rn_occurrence r = oid \<and> active r);
          why = recovery_error (lost_facts (find p (db_runs db)))
      in if list_ex (claimed_id oid) (db_occurrences db)
         then (True, db\<lparr>db_occurrences := update_where (claimed_id oid) (\<lambda>x. x\<lparr>oc_state := OS_Interrupted\<rparr>) (db_occurrences db),
                        db_runs := update_where p (\<lambda>r. r\<lparr>rn_state := RS_Unknown, rn_error := Some why,
                                     rn_finished_at := Some (timestamp_millis now)\<rparr>) (db_runs db)\<rparr>)
         else (False, db))"

text \<open>Facts recorded on a live run.\<close>

definition dispatching_id :: "rstr \<Rightarrow> run_row \<Rightarrow> bool" where
  "dispatching_id i r \<longleftrightarrow> rn_id r = i \<and> rn_state r = RS_Dispatching"

definition active_id :: "rstr \<Rightarrow> run_row \<Rightarrow> bool" where
  "active_id i r \<longleftrightarrow> rn_id r = i \<and> active r"

definition update_runs :: "(run_row \<Rightarrow> bool) \<Rightarrow> (run_row \<Rightarrow> run_row) \<Rightarrow> schedule_db \<Rightarrow> bool \<times> schedule_db" where
  "update_runs p f db = (list_ex p (db_runs db), db\<lparr>db_runs := update_where p f (db_runs db)\<rparr>)"

definition mark_session :: "rstr \<Rightarrow> rstr \<Rightarrow> schedule_db \<Rightarrow> bool \<times> schedule_db" where
  "mark_session rid session = update_runs (dispatching_id rid) (\<lambda>r. r\<lparr>rn_session := Some session\<rparr>)"

definition mark_delivered :: "rstr \<Rightarrow> instant \<Rightarrow> schedule_db \<Rightarrow> bool \<times> schedule_db" where
  "mark_delivered rid now =
     update_runs (\<lambda>r. dispatching_id rid r \<and> rn_delivered_at r = None)
       (\<lambda>r. r\<lparr>rn_delivered_at := Some (timestamp_millis now)\<rparr>)"

definition mark_running :: "rstr \<Rightarrow> rstr \<Rightarrow> instant \<Rightarrow> schedule_db \<Rightarrow> bool \<times> schedule_db" where
  "mark_running rid execution now =
     update_runs (dispatching_id rid)
       (\<lambda>r. r\<lparr>rn_state := RS_Running, rn_execution := Some execution, rn_running_at := Some (timestamp_millis now)\<rparr>)"

definition request_cancel :: "rstr \<Rightarrow> instant \<Rightarrow> schedule_db \<Rightarrow> bool \<times> schedule_db" where
  "request_cancel rid now =
     update_runs (active_id rid)
       (\<lambda>r. r\<lparr>rn_cancel_requested_at := coalesce (rn_cancel_requested_at r) (Some (timestamp_millis now))\<rparr>)"

definition mark_cancel_issued :: "rstr \<Rightarrow> instant \<Rightarrow> schedule_db \<Rightarrow> bool \<times> schedule_db" where
  "mark_cancel_issued rid now =
     update_runs (active_id rid)
       (\<lambda>r. r\<lparr>rn_cancel_issued_at := coalesce (rn_cancel_issued_at r) (Some (timestamp_millis now))\<rparr>)"

definition renew_lease :: "rstr \<Rightarrow> instant \<Rightarrow> duration \<Rightarrow> schedule_db \<Rightarrow> bool \<times> schedule_db" where
  "renew_lease oid now lease db =
     (list_ex (claimed_id oid) (db_occurrences db),
      db\<lparr>db_occurrences := update_where (claimed_id oid)
           (\<lambda>x. x\<lparr>oc_lease := Some (timestamp_millis (lease_until now lease))\<rparr>) (db_occurrences db)\<rparr>)"

text \<open>The occurrence of a run, when it is still claimed.\<close>

definition claimed_by :: "schedule_db \<Rightarrow> rstr \<Rightarrow> occurrence_row \<Rightarrow> bool" where
  "claimed_by db rid x \<longleftrightarrow>
     (case find (\<lambda>r. rn_id r = rid) (db_runs db) of
        None \<Rightarrow> False
      | Some r \<Rightarrow> claimed_id (rn_occurrence r) x)"

definition clear_lease :: "schedule_db \<Rightarrow> rstr \<Rightarrow> schedule_db \<Rightarrow> schedule_db" where
  "clear_lease db rid db' =
     db'\<lparr>db_occurrences := update_where (claimed_by db rid) (\<lambda>x. x\<lparr>oc_lease := None\<rparr>) (db_occurrences db')\<rparr>"

definition mark_handed_off ::
  "rstr \<Rightarrow> int \<Rightarrow> int option \<Rightarrow> usage_snapshot option \<Rightarrow> instant \<Rightarrow> instant \<Rightarrow> schedule_db \<Rightarrow> bool \<times> schedule_db" where
  "mark_handed_off rid baseline ordinal usage deadline now db =
     (let t = timestamp_millis now;
          (ok, db') = update_runs (dispatching_id rid)
            (\<lambda>r. r\<lparr>rn_state := RS_Running, rn_delivered_at := coalesce (rn_delivered_at r) (Some t),
                   rn_running_at := coalesce (rn_running_at r) (Some t), rn_handed_off_at := Some t,
                   rn_deadline_at := Some (timestamp_millis deadline), rn_baseline_sequence := Some baseline,
                   rn_turn_ordinal := ordinal, rn_task_sequence := None, rn_task_outcome := None,
                   rn_usage_baseline := usage\<rparr>) db
      in (ok, if ok then clear_lease db rid db' else db'))"

definition release_shell_observation :: "rstr \<Rightarrow> instant \<Rightarrow> schedule_db \<Rightarrow> bool \<times> schedule_db" where
  "release_shell_observation rid deadline db =
     (let (ok, db') = update_runs (\<lambda>r. active_id rid r \<and> rn_delivered_at r \<noteq> None)
            (\<lambda>r. r\<lparr>rn_deadline_at := Some (timestamp_millis deadline)\<rparr>) db
      in (ok, if ok then clear_lease db rid db' else db'))"

text \<open>Settling a run and its occurrence.\<close>

definition finish_tx :: "rstr \<Rightarrow> run_outcome \<Rightarrow> run_facts \<Rightarrow> instant \<Rightarrow> schedule_db \<Rightarrow> bool \<times> schedule_db" where
  "finish_tx rid outcome facts now db =
     (let (ok, db') = update_runs (active_id rid) (settle_run outcome facts (timestamp_millis now)) db
      in (ok, if ok then db'\<lparr>db_occurrences := update_where (claimed_by db rid)
                               (\<lambda>x. x\<lparr>oc_state := outcome_occurrence_state outcome, oc_lease := None\<rparr>) (db_occurrences db')\<rparr>
              else db'))"

section \<open>Reading\<close>

definition definition_of :: "'j store_env \<Rightarrow> rstr \<Rightarrow> schedule_db \<Rightarrow> schedule_error + 'j schedule_definition option" where
  "definition_of env did db =
     (case find (\<lambda>r. dr_id r = did) (db_definitions db) of
        None \<Rightarrow> Inr None
      | Some r \<Rightarrow> and_then (definition_from_row (se_json env) (se_grants env) (se_calendar env) r) (\<lambda>d. Inr (Some d)))"

text \<open>Oldest first; the first row that does not decode is the error.\<close>

fun decode_rows :: "'j store_env \<Rightarrow> definition_row list \<Rightarrow> schedule_error + 'j schedule_definition list" where
  "decode_rows env [] = Inr []"
| "decode_rows env (r # rs) =
     and_then (definition_from_row (se_json env) (se_grants env) (se_calendar env) r) (\<lambda>d.
     and_then (decode_rows env rs) (\<lambda>ds. Inr (d # ds)))"

definition definitions :: "'j store_env \<Rightarrow> schedule_db \<Rightarrow> schedule_error + 'j schedule_definition list" where
  "definitions env db = decode_rows env (sort_key (\<lambda>r. (dr_created_at r, dr_id r)) (db_definitions db))"

definition occurrence_of :: "rstr \<Rightarrow> schedule_db \<Rightarrow> occurrence_row option" where
  "occurrence_of i db = find (\<lambda>x. oc_id x = i) (db_occurrences db)"

definition run_of :: "rstr \<Rightarrow> schedule_db \<Rightarrow> run_row option" where
  "run_of i db = find (\<lambda>r. rn_id r = i) (db_runs db)"

definition active_run_count :: "schedule_db \<Rightarrow> rstr \<Rightarrow> nat" where
  "active_run_count db did = length (filter (active_of did) (db_runs db))"

definition cancel_requested :: "rstr \<Rightarrow> schedule_db \<Rightarrow> bool" where
  "cancel_requested rid db =
     (case run_of rid db of None \<Rightarrow> False | Some r \<Rightarrow> rn_cancel_requested_at r \<noteq> None)"

text \<open>The join of an occurrence with its definition.\<close>

definition definition_row_of :: "schedule_db \<Rightarrow> occurrence_row \<Rightarrow> definition_row option" where
  "definition_row_of db x = find (\<lambda>r. dr_id r = oc_definition x) (db_definitions db)"

definition joined :: "schedule_db \<Rightarrow> (definition_row \<Rightarrow> bool) \<Rightarrow> occurrence_row \<Rightarrow> bool" where
  "joined db p x = (case definition_row_of db x of None \<Rightarrow> False | Some r \<Rightarrow> p r)"

text \<open>A pending slot a dispatcher may take: its definition is enabled, or the slot was
  asked for explicitly.\<close>

definition claimable :: "schedule_db \<Rightarrow> occurrence_row \<Rightarrow> bool" where
  "claimable db x \<longleftrightarrow> oc_state x = OS_Pending \<and> joined db (\<lambda>r. dr_enabled r = 1 \<or> oc_run_now x) x"

definition overdue_pending :: "instant \<Rightarrow> schedule_db \<Rightarrow> nat" where
  "overdue_pending now db =
     length (filter (\<lambda>x. claimable db x \<and> oc_scheduled_for x \<le> timestamp_millis now) (db_occurrences db))"

definition next_due :: "schedule_db \<Rightarrow> instant option" where
  "next_due db =
     (let xs = map oc_scheduled_for (filter (claimable db) (db_occurrences db))
      in if xs = [] then None else Some (of_millis (Min (set xs))))"

definition by_slot :: "occurrence_row \<Rightarrow> int \<times> rstr" where
  "by_slot x = (oc_scheduled_for x, oc_id x)"

definition next_pending_occurrence :: "rstr \<Rightarrow> schedule_db \<Rightarrow> occurrence_row option" where
  "next_pending_occurrence did db =
     (case sort_key by_slot (filter (\<lambda>x. oc_definition x = did \<and> claimable db x) (db_occurrences db)) of
        [] \<Rightarrow> None | x # _ \<Rightarrow> Some x)"

fun first_per_definition :: "rstr list \<Rightarrow> occurrence_row list \<Rightarrow> occurrence_row list" where
  "first_per_definition seen [] = []"
| "first_per_definition seen (x # xs) =
     (if oc_definition x \<in> set seen then first_per_definition seen xs
      else x # first_per_definition (oc_definition x # seen) xs)"

definition next_pending_occurrences :: "schedule_db \<Rightarrow> occurrence_row list" where
  "next_pending_occurrences db =
     first_per_definition [] (sort_key by_slot (filter (claimable db) (db_occurrences db)))"

definition handed_off_runs :: "schedule_db \<Rightarrow> run_row list" where
  "handed_off_runs db =
     sort_key (\<lambda>r. (rn_handed_off_at r, rn_id r))
       (filter (\<lambda>r. rn_state r = RS_Running \<and> rn_handed_off_at r \<noteq> None) (db_runs db))"

definition observable_shell_runs :: "schedule_db \<Rightarrow> run_row list" where
  "observable_shell_runs db =
     sort_key (\<lambda>r. (rn_delivered_at r, rn_id r))
       (filter (\<lambda>r. active r \<and> rn_delivered_at r \<noteq> None \<and> rn_deadline_at r \<noteq> None \<and> rn_handed_off_at r = None
                     \<and> list_ex (\<lambda>d. dr_id d = rn_definition r \<and> dr_action d = lit ''shell'') (db_definitions db))
         (db_runs db))"

section \<open>The next slot\<close>

definition last_slot :: "schedule_db \<Rightarrow> rstr \<Rightarrow> instant option" where
  "last_slot db did =
     (let xs = map oc_scheduled_for (filter (\<lambda>x. oc_definition x = did) (db_occurrences db))
      in if xs = [] then None else Some (of_millis (Max (set xs))))"

text \<open>\<open>Duration::from_std\<close> fails above \<open>i64::MAX\<close> milliseconds; the grace is then zero.\<close>

definition grace_of :: "duration \<Rightarrow> int" where
  "grace_of d = (if d \<le> (2 ^ 63 - 1) * 1000000 then int d else 0)"

definition successor_slot :: "calendar \<Rightarrow> 'j schedule_definition \<Rightarrow> instant \<Rightarrow> instant \<Rightarrow> schedule_error + instant option" where
  "successor_slot cal d base now =
     (case next_after cal (sd_trigger d) base of
        Inl e \<Rightarrow> Inl e
      | Inr None \<Rightarrow> Inr None
      | Inr (Some n) \<Rightarrow> if n \<le> now \<and> now - n > grace_of (sd_misfire_grace d)
                        then next_after cal (sd_trigger d) now else Inr (Some n))"

definition next_slot ::
  "calendar \<Rightarrow> 'j schedule_definition \<Rightarrow> instant option \<Rightarrow> instant \<Rightarrow> schedule_error + instant option" where
  "next_slot cal d latest now =
     (case latest of
        None \<Rightarrow> successor_slot cal d now now
      | Some l \<Rightarrow>
          if l > now then Inr None
          else and_then (successor_slot cal d l now) (\<lambda>r. case r of
                 None \<Rightarrow> Inr None
               | Some n \<Rightarrow> if n \<le> l then Inr None else Inr (Some n)))"

definition ensure_next_occurrence ::
  "'j store_env \<Rightarrow> 'j schedule_definition \<Rightarrow> instant \<Rightarrow> schedule_db \<Rightarrow> (schedule_error + occurrence_row option) \<times> schedule_db" where
  "ensure_next_occurrence env d now db =
     (if \<not> sd_enabled d then (Inr None, db)
      else if sd_overlap d = QueueOne
              \<and> list_ex (\<lambda>x. oc_definition x = sd_id d \<and> oc_state x = OS_Pending) (db_occurrences db)
      then (Inr None, db)
      else case next_slot (se_calendar env) d (last_slot db (sd_id d)) now of
             Inl e \<Rightarrow> (Inl e, db)
           | Inr None \<Rightarrow> (Inr None, db)
           | Inr (Some n) \<Rightarrow>
               (case insert_slot_tx (se_id env) (sd_id d) n now db of
                  (Inl e, db') \<Rightarrow> (Inl e, db')
                | (Inr _, db') \<Rightarrow>
                    (Inr (find (\<lambda>x. oc_definition x = sd_id d \<and> oc_scheduled_for x = timestamp_millis n)
                       (db_occurrences db')), db')))"

text \<open>What every settling operation does last: the next slot of the definition, when it
  still exists.\<close>

definition renew_horizon :: "'j store_env \<Rightarrow> rstr \<Rightarrow> instant \<Rightarrow> schedule_db \<Rightarrow> (schedule_error + unit) \<times> schedule_db" where
  "renew_horizon env did now db =
     (case definition_of env did db of
        Inl e \<Rightarrow> (Inl e, db)
      | Inr None \<Rightarrow> (Inr (), db)
      | Inr (Some d) \<Rightarrow>
          (case ensure_next_occurrence env d now db of
             (Inl e, db') \<Rightarrow> (Inl e, db') | (Inr _, db') \<Rightarrow> (Inr (), db')))"

text \<open>Every enabled definition's horizon, at the start of a pass (dispatch.rs).\<close>

fun ensure_each :: "'j store_env \<Rightarrow> instant \<Rightarrow> 'j schedule_definition list \<Rightarrow> schedule_db \<Rightarrow> (schedule_error + unit) \<times> schedule_db" where
  "ensure_each env now [] db = (Inr (), db)"
| "ensure_each env now (d # ds) db =
     (if \<not> sd_enabled d then ensure_each env now ds db
      else case ensure_next_occurrence env d now db of
             (Inl e, db') \<Rightarrow> (Inl e, db')
           | (Inr _, db') \<Rightarrow> ensure_each env now ds db')"

definition ensure_horizon :: "'j store_env \<Rightarrow> instant \<Rightarrow> schedule_db \<Rightarrow> (schedule_error + unit) \<times> schedule_db" where
  "ensure_horizon env now db =
     (case definitions env db of Inl e \<Rightarrow> (Inl e, db) | Inr ds \<Rightarrow> ensure_each env now ds db)"

section \<open>Definitions\<close>

definition canonical_workspace :: "'j store_env \<Rightarrow> rstr \<Rightarrow> schedule_error + rstr" where
  "canonical_workspace env w =
     and_then (opt_err (Invalid WorkspaceInaccessible) (se_canonicalize env w)) (\<lambda>c.
     and_then (check (\<not> se_is_dir env c) (Invalid WorkspaceNotDirectory)) (\<lambda>_. Inr c))"

definition grant_text :: "'j store_env \<Rightarrow> unattended_grant option \<Rightarrow> schedule_error + rstr option" where
  "grant_text env g =
     (case g of None \<Rightarrow> Inr None
      | Some x \<Rightarrow> and_then (opt_err (Invalid GrantNotSerializable) (gl_to_string (se_grants env) x)) (\<lambda>s. Inr (Some s)))"

definition declaration_ok :: "'j store_env \<Rightarrow> 'j declared \<Rightarrow> schedule_error + unit" where
  "declaration_ok env c =
     and_then (validate_declaration (se_json env) (se_calendar env) (se_absolute env) c) (\<lambda>_.
     case dc_grant c of None \<Rightarrow> Inr () | Some r \<Rightarrow> validate_unattended_request (dc_action c) r)"

definition new_grant ::
  "'j store_env \<Rightarrow> rstr \<Rightarrow> rstr \<Rightarrow> 'j declared \<Rightarrow> instant \<Rightarrow> unattended_request \<Rightarrow> schedule_error + unattended_grant" where
  "new_grant env did workspace c now r =
     unattended_grant_new (se_json env) did workspace (dc_mode c) (dc_action c) (dc_trigger c) (dc_model c) r now"

definition blank_row :: definition_row where
  "blank_row = \<lparr>dr_id = [], dr_name = [], dr_workspace = [], dr_action = [], dr_command = [], dr_agent_goal = None,
     dr_native_action = None, dr_native_input = None, dr_trigger_kind = [], dr_once_at = None, dr_anchor_at = None,
     dr_every_secs = None, dr_timezone = None, dr_local_time = None, dr_weekdays = None, dr_cron_expr = None,
     dr_session_policy = [], dr_overlap_policy = [], dr_permission_mode = [], dr_model = None, dr_timeout_secs = 0,
     dr_misfire_policy = [], dr_misfire_grace_secs = 0, dr_unattended_grant = None, dr_session_id = None,
     dr_enabled = 0, dr_created_at = 0, dr_updated_at = 0\<rparr>"

text \<open>What create computes before its transaction: the first slot and the row.\<close>

definition prepare_create ::
  "'j store_env \<Rightarrow> 'j declared \<Rightarrow> instant \<Rightarrow> rstr \<Rightarrow> schedule_error + instant \<times> definition_row" where
  "prepare_create env c now did =
     and_then (declaration_ok env c) (\<lambda>_.
     and_then (canonical_workspace env (dc_workspace c)) (\<lambda>workspace.
     and_then (first_occurrence (se_calendar env) (dc_trigger c) now) (\<lambda>first.
     and_then (case dc_grant c of None \<Rightarrow> Inr None
               | Some r \<Rightarrow> and_then (new_grant env did workspace c now r) (\<lambda>g. Inr (Some g))) (\<lambda>grant.
     and_then (grant_text env grant) (\<lambda>grant_json.
     and_then (action_columns (se_json env) (dc_action c)) (\<lambda>a.
     Inr (first, bind_declared c workspace a grant_json blank_row)))))))"

definition definition_or_missing ::
  "'j store_env \<Rightarrow> rstr \<Rightarrow> schedule_db \<Rightarrow> schedule_error + 'j schedule_definition" where
  "definition_or_missing env did db =
     and_then (definition_of env did db) (\<lambda>d. case d of None \<Rightarrow> Inl (NotFound did) | Some x \<Rightarrow> Inr x)"

definition create_definition ::
  "'j store_env \<Rightarrow> 'j declared \<Rightarrow> instant \<Rightarrow> schedule_db \<Rightarrow> (schedule_error + 'j schedule_definition) \<times> schedule_db" where
  "create_definition env c now db =
     (let did = se_id env (db_minted db)
      in case prepare_create env c now did of
           Inl e \<Rightarrow> (Inl e, db)
         | Inr (first, row) \<Rightarrow>
             (let db' = insert_definition_tx (se_id env) row first now db
              in (definition_or_missing env did db', db')))"

definition remove_definition :: "rstr \<Rightarrow> schedule_db \<Rightarrow> (schedule_error + bool) \<times> schedule_db" where
  "remove_definition did db =
     (if active_run_count db did > 0 then (Inl (Invalid (StillActive (active_run_count db did))), db)
      else (Inr (list_ex (\<lambda>r. dr_id r = did) (db_definitions db)), delete_definition_tx did db))"

text \<open>The definition as it will stand after an update, without its grant.\<close>

definition candidate_of ::
  "'j schedule_definition \<Rightarrow> 'j declared \<Rightarrow> rstr \<Rightarrow> instant \<Rightarrow> 'j schedule_definition" where
  "candidate_of existing c workspace now =
     \<lparr>sd_id = sd_id existing, sd_name = trim (dc_name c), sd_workspace = workspace, sd_action = dc_action c,
      sd_trigger = dc_trigger c, sd_session_policy = dc_session_policy c, sd_overlap = dc_overlap c,
      sd_mode = dc_mode c, sd_model = dc_model c, sd_timeout = dc_timeout c, sd_misfire = dc_misfire c,
      sd_misfire_grace = dc_misfire_grace c,
      sd_session = (if workspace = sd_workspace existing then sd_session existing else None),
      sd_unattended = None, sd_enabled = sd_enabled existing, sd_created_at = sd_created_at existing,
      sd_updated_at = now\<rparr>"

text \<open>A new grant when one is asked for; the current one while it still covers.\<close>

definition updated_grant ::
  "'j store_env \<Rightarrow> 'j schedule_definition \<Rightarrow> 'j declared \<Rightarrow> 'j schedule_definition \<Rightarrow> schedule_error + unattended_grant option" where
  "updated_grant env existing c candidate =
     (case (dc_grant c, sd_unattended existing) of
        (Some r, _) \<Rightarrow>
          and_then (new_grant env (sd_id candidate) (sd_workspace candidate) c (sd_updated_at candidate) r) (\<lambda>g. Inr (Some g))
      | (None, Some g) \<Rightarrow>
          Inr (if grant_covers (se_json env) g candidate (kind_of (dc_action c)) False = Inr () then Some g else None)
      | (None, None) \<Rightarrow> Inr None)"

text \<open>The revision is stored in milliseconds, so it moves by one at least.\<close>

definition revision_after :: "'j schedule_definition \<Rightarrow> instant \<Rightarrow> instant" where
  "revision_after existing now = max now (sd_updated_at existing + 1000000)"

definition prepare_update ::
  "'j store_env \<Rightarrow> 'j schedule_definition \<Rightarrow> 'j declared \<Rightarrow> instant
     \<Rightarrow> schedule_error + (definition_row \<Rightarrow> definition_row) \<times> instant option" where
  "prepare_update env existing c now =
     and_then (canonical_workspace env (dc_workspace c)) (\<lambda>workspace.
     let candidate = candidate_of existing c workspace now in
     and_then (updated_grant env existing c candidate) (\<lambda>grant.
     and_then (grant_text env grant) (\<lambda>grant_json.
     and_then (action_columns (se_json env) (dc_action c)) (\<lambda>a.
     and_then (if sd_trigger existing \<noteq> dc_trigger c
               then and_then (replacement_occurrence (se_calendar env) (dc_trigger c) now) (\<lambda>x. Inr (Some x))
               else Inr None) (\<lambda>replacement.
     Inr ((\<lambda>r. (bind_declared c workspace a grant_json r)\<lparr>dr_session_id := sd_session candidate\<rparr>), replacement))))))"

definition update_definition ::
  "'j store_env \<Rightarrow> rstr \<Rightarrow> 'j declared \<Rightarrow> instant option \<Rightarrow> instant \<Rightarrow> schedule_db
     \<Rightarrow> (schedule_error + 'j schedule_definition) \<times> schedule_db" where
  "update_definition env did c expected clock db =
     (case and_then (declaration_ok env c) (\<lambda>_. definition_or_missing env did db) of
        Inl e \<Rightarrow> (Inl e, db)
      | Inr existing \<Rightarrow>
          if (case expected of None \<Rightarrow> False
              | Some x \<Rightarrow> timestamp_millis x \<noteq> timestamp_millis (sd_updated_at existing))
          then (Inl (Conflict did), db)
          else (let now = revision_after existing clock
                in case prepare_update env existing c now of
                     Inl e \<Rightarrow> (Inl e, db)
                   | Inr (write, replacement) \<Rightarrow>
                       (case update_definition_tx (se_id env) did (timestamp_millis (sd_updated_at existing))
                               write now replacement db of
                          (Inl e, db') \<Rightarrow> (Inl e, db')
                        | (Inr _, db') \<Rightarrow> (definition_or_missing env did db', db'))))"

definition set_session :: "rstr \<Rightarrow> rstr \<Rightarrow> instant \<Rightarrow> schedule_db \<Rightarrow> (schedule_error + rstr) \<times> schedule_db" where
  "set_session did session now db =
     (let db' = bind_session_tx did session now db
      in (case find (\<lambda>r. dr_id r = did) (db_definitions db') of
            None \<Rightarrow> Inl (NotFound did)
          | Some r \<Rightarrow> (case dr_session_id r of
                         Some s \<Rightarrow> if s = session then Inr session else Inl (SessionMismatch did)
                       | None \<Rightarrow> Inl (SessionMismatch did)), db'))"

definition create_run_now ::
  "'j store_env \<Rightarrow> rstr \<Rightarrow> instant \<Rightarrow> schedule_db \<Rightarrow> (schedule_error + occurrence_row) \<times> schedule_db" where
  "create_run_now env did now db = insert_run_now_tx (se_id env) did now db"

section \<open>Passes over the due slots\<close>

definition due :: "instant \<Rightarrow> occurrence_row \<Rightarrow> bool" where
  "due now x \<longleftrightarrow> oc_scheduled_for x \<le> timestamp_millis now"

definition overlap_candidates :: "instant \<Rightarrow> schedule_db \<Rightarrow> occurrence_row list" where
  "overlap_candidates now db =
     sort_key by_slot (filter (\<lambda>x. claimable db x \<and> due now x
         \<and> joined db (\<lambda>r. dr_overlap_policy r = lit ''skip-if-running'') x \<and> has_active db (oc_definition x))
       (db_occurrences db))"

fun skip_each ::
  "'j store_env \<Rightarrow> instant \<Rightarrow> occurrence_row list \<Rightarrow> nat \<Rightarrow> schedule_db \<Rightarrow> (schedule_error + nat) \<times> schedule_db" where
  "skip_each env now [] n db = (Inr n, db)"
| "skip_each env now (x # xs) n db =
     (case skip_tx (se_id env) (oc_id x) (oc_definition x) (se_time_text env (oc_scheduled_for x)) now db of
        (False, db') \<Rightarrow> skip_each env now xs n db'
      | (True, db') \<Rightarrow>
          (case renew_horizon env (oc_definition x) now db' of
             (Inl e, db'') \<Rightarrow> (Inl e, db'')
           | (Inr _, db'') \<Rightarrow> skip_each env now xs (Suc n) db''))"

definition reconcile_overlaps :: "'j store_env \<Rightarrow> instant \<Rightarrow> schedule_db \<Rightarrow> (schedule_error + nat) \<times> schedule_db" where
  "reconcile_overlaps env now db = skip_each env now (overlap_candidates now db) 0 db"

record 'j claim =
  cl_definition :: "'j schedule_definition"
  cl_occurrence :: occurrence_row
  cl_run :: rstr

definition claim_candidates :: "instant \<Rightarrow> nat \<Rightarrow> schedule_db \<Rightarrow> occurrence_row list" where
  "claim_candidates now limit db =
     take limit (sort_key by_slot (filter (\<lambda>x. claimable db x \<and> due now x
         \<and> joined db (\<lambda>r. dr_overlap_policy r = lit ''allow-concurrent'' \<or> \<not> has_active db (oc_definition x)) x)
       (db_occurrences db)))"

definition claim_one ::
  "'j store_env \<Rightarrow> rstr \<Rightarrow> rstr \<Rightarrow> instant \<Rightarrow> duration \<Rightarrow> schedule_db \<Rightarrow> (schedule_error + 'j claim option) \<times> schedule_db" where
  "claim_one env oid did now lease db =
     (case claim_tx (se_id env) oid did now lease db of
        (None, db') \<Rightarrow> (Inr None, db')
      | (Some rid, db') \<Rightarrow>
          (case occurrence_of oid db' of
             None \<Rightarrow> (Inr None, db')
           | Some x \<Rightarrow>
               (case definition_of env did db' of
                  Inl e \<Rightarrow> (Inl e, db')
                | Inr None \<Rightarrow> (Inr None, db')
                | Inr (Some d) \<Rightarrow> (Inr (Some \<lparr>cl_definition = d, cl_occurrence = x, cl_run = rid\<rparr>), db'))))"

fun claim_each ::
  "'j store_env \<Rightarrow> instant \<Rightarrow> duration \<Rightarrow> occurrence_row list \<Rightarrow> 'j claim list \<Rightarrow> schedule_db
     \<Rightarrow> (schedule_error + 'j claim list) \<times> schedule_db" where
  "claim_each env now lease [] cs db = (Inr cs, db)"
| "claim_each env now lease (x # xs) cs db =
     (case claim_one env (oc_id x) (oc_definition x) now lease db of
        (Inl e, db') \<Rightarrow> (Inl e, db')
      | (Inr None, db') \<Rightarrow> claim_each env now lease xs cs db'
      | (Inr (Some c), db') \<Rightarrow> claim_each env now lease xs (cs @ [c]) db')"

definition claim_due ::
  "'j store_env \<Rightarrow> instant \<Rightarrow> duration \<Rightarrow> nat \<Rightarrow> schedule_db \<Rightarrow> (schedule_error + 'j claim list) \<times> schedule_db" where
  "claim_due env now lease limit db = claim_each env now lease (claim_candidates now limit db) [] db"

definition claim_run_now ::
  "'j store_env \<Rightarrow> rstr \<Rightarrow> instant \<Rightarrow> duration \<Rightarrow> schedule_db \<Rightarrow> (schedule_error + 'j claim option) \<times> schedule_db" where
  "claim_run_now env oid now lease db =
     (case find (\<lambda>x. oc_id x = oid \<and> oc_state x = OS_Pending \<and> oc_run_now x
              \<and> joined db (\<lambda>r. dr_overlap_policy r = lit ''allow-concurrent'' \<or> \<not> has_active db (oc_definition x)) x)
            (db_occurrences db) of
        None \<Rightarrow> (Inr None, db)
      | Some x \<Rightarrow> claim_one env (oc_id x) (oc_definition x) now lease db)"

definition expired :: "instant \<Rightarrow> occurrence_row \<Rightarrow> bool" where
  "expired now x \<longleftrightarrow> oc_state x = OS_Claimed
     \<and> (case oc_lease x of None \<Rightarrow> False | Some l \<Rightarrow> l \<le> timestamp_millis now)"

fun recover_each ::
  "'j store_env \<Rightarrow> instant \<Rightarrow> occurrence_row list \<Rightarrow> (rstr \<times> rstr) list \<Rightarrow> schedule_db
     \<Rightarrow> (schedule_error + (rstr \<times> rstr) list) \<times> schedule_db" where
  "recover_each env now [] rs db = (Inr rs, db)"
| "recover_each env now (x # xs) rs db =
     (case recover_tx (oc_id x) now db of
        (False, db') \<Rightarrow> recover_each env now xs rs db'
      | (True, db') \<Rightarrow>
          (case renew_horizon env (oc_definition x) now db' of
             (Inl e, db'') \<Rightarrow> (Inl e, db'')
           | (Inr _, db'') \<Rightarrow> recover_each env now xs (rs @ [(oc_id x, oc_definition x)]) db''))"

definition recover_expired ::
  "'j store_env \<Rightarrow> instant \<Rightarrow> schedule_db \<Rightarrow> (schedule_error + (rstr \<times> rstr) list) \<times> schedule_db" where
  "recover_expired env now db = recover_each env now (filter (expired now) (db_occurrences db)) [] db"

section \<open>Misfires\<close>

record misfire_candidate =
  mc_occurrence :: rstr
  mc_definition :: rstr
  mc_slot :: instant
  mc_policy :: rstr
  mc_grace :: int

definition misfire_candidates :: "instant \<Rightarrow> schedule_db \<Rightarrow> misfire_candidate list" where
  "misfire_candidates now db =
     concat (map (\<lambda>x. case definition_row_of db x of
           None \<Rightarrow> []
         | Some r \<Rightarrow> if dr_enabled r = 1 then [\<lparr>mc_occurrence = oc_id x, mc_definition = oc_definition x,
                        mc_slot = of_millis (oc_scheduled_for x), mc_policy = dr_misfire_policy r,
                        mc_grace = max 0 (dr_misfire_grace_secs r) * sec_ns\<rparr>] else [])
       (sort_key (\<lambda>x. (oc_definition x, oc_scheduled_for x))
          (filter (\<lambda>x. oc_state x = OS_Pending \<and> due now x \<and> \<not> oc_run_now x) (db_occurrences db))))"

definition overdue :: "instant \<Rightarrow> misfire_candidate \<Rightarrow> bool" where
  "overdue now c \<longleftrightarrow> now - mc_slot c > mc_grace c"

text \<open>The newest overdue slot of each definition that runs once on recovery.\<close>

definition note_newest ::
  "instant \<Rightarrow> (rstr \<Rightarrow> (rstr \<times> instant) option) \<Rightarrow> misfire_candidate \<Rightarrow> (rstr \<Rightarrow> (rstr \<times> instant) option)" where
  "note_newest now m c =
     (if misfire_parse (mc_policy c) \<noteq> Some RunOnceOnRecovery \<or> \<not> overdue now c then m
      else if (case m (mc_definition c) of None \<Rightarrow> False | Some (_, stored) \<Rightarrow> stored \<ge> mc_slot c) then m
      else m(mc_definition c \<mapsto> (mc_occurrence c, mc_slot c)))"

definition newest_overdue :: "instant \<Rightarrow> misfire_candidate list \<Rightarrow> (rstr \<Rightarrow> (rstr \<times> instant) option)" where
  "newest_overdue now cs = foldl (note_newest now) (\<lambda>_. None) cs"

definition kept_for_recovery ::
  "(rstr \<Rightarrow> (rstr \<times> instant) option) \<Rightarrow> misfire_policy \<Rightarrow> misfire_candidate \<Rightarrow> bool" where
  "kept_for_recovery newest policy c \<longleftrightarrow> policy = RunOnceOnRecovery
     \<and> (case newest (mc_definition c) of None \<Rightarrow> False | Some (i, _) \<Rightarrow> i = mc_occurrence c)"

fun miss_each ::
  "'j store_env \<Rightarrow> instant \<Rightarrow> (rstr \<Rightarrow> (rstr \<times> instant) option) \<Rightarrow> misfire_candidate list \<Rightarrow> nat \<Rightarrow> schedule_db
     \<Rightarrow> (schedule_error + nat) \<times> schedule_db" where
  "miss_each env now newest [] n db = (Inr n, db)"
| "miss_each env now newest (c # cs) n db =
     (case misfire_parse (mc_policy c) of
        None \<Rightarrow> (Inl (Invalid (BadMisfirePolicy (mc_policy c))), db)
      | Some policy \<Rightarrow>
          if \<not> overdue now c \<or> kept_for_recovery newest policy c then miss_each env now newest cs n db
          else (case miss_tx (mc_occurrence c) db of
                  (False, db') \<Rightarrow> miss_each env now newest cs n db'
                | (True, db') \<Rightarrow>
                    (case renew_horizon env (mc_definition c) now db' of
                       (Inl e, db'') \<Rightarrow> (Inl e, db'')
                     | (Inr _, db'') \<Rightarrow> miss_each env now newest cs (Suc n) db'')))"

definition reconcile_misfires :: "'j store_env \<Rightarrow> instant \<Rightarrow> schedule_db \<Rightarrow> (schedule_error + nat) \<times> schedule_db" where
  "reconcile_misfires env now db =
     (let cs = misfire_candidates now db in miss_each env now (newest_overdue now cs) cs 0 db)"

section \<open>Settling\<close>

definition finish_run_with_facts ::
  "'j store_env \<Rightarrow> rstr \<Rightarrow> run_outcome \<Rightarrow> run_facts \<Rightarrow> instant \<Rightarrow> schedule_db \<Rightarrow> (schedule_error + run_row option) \<times> schedule_db" where
  "finish_run_with_facts env rid outcome facts now db =
     (let db' = snd (finish_tx rid outcome facts now db)
      in case run_of rid db' of
           None \<Rightarrow> (Inr None, db')
         | Some r \<Rightarrow>
             (case renew_horizon env (rn_definition r) now db' of
                (Inl e, db'') \<Rightarrow> (Inl e, db'')
              | (Inr _, db'') \<Rightarrow> (Inr (Some r), db'')))"

definition request_cancel_definition :: "rstr \<Rightarrow> instant \<Rightarrow> schedule_db \<Rightarrow> rstr list \<times> schedule_db" where
  "request_cancel_definition did now db =
     foldl (\<lambda>(ids, db) i. case request_cancel i now db of (ok, db') \<Rightarrow> (if ok then ids @ [i] else ids, db'))
       ([], db) (map rn_id (filter (active_of did) (db_runs db)))"

end
