(* ===== verification/Schedule_Dispatch.thy ===== *)
theory Schedule_Dispatch
  imports Schedule_Store
begin

text \<open>
  The dispatcher of schedules (leveler-schedule/src/dispatch.rs): the guards and the
  delivery of one claimed run for each kind of action, the observation and settlement of
  the runs the runtime owns, the session a run uses, and the part of a pass that comes
  before its claims run.

  The world is the schedule database with the state of the runtime.  What the code calls
  through its traits (the runtime client, the native executor, the usage reader) and the
  clocks are the fields of a dispatcher: a call may change the whole world, so what other
  processes do to the database meanwhile is part of it.  A client is named by the
  workspace it was opened for.
\<close>

section \<open>What the runtime reports\<close>

datatype client_error =
    SessionNotFound rstr
  | RuntimeError rstr
  | RecoveryRequired rstr
  | OutcomeUnknown rstr
  | Unresolvable rstr
  | OwnershipConflict rstr

fun client_error_text :: "client_error \<Rightarrow> rstr" where
  "client_error_text (SessionNotFound s) = lit ''session not found: '' @ s"
| "client_error_text (RuntimeError s) = lit ''runtime error: '' @ s"
| "client_error_text (RecoveryRequired s) = s"
| "client_error_text (OutcomeUnknown s) = lit ''outcome unknown: '' @ s"
| "client_error_text (Unresolvable s) = lit ''outcome unresolvable: '' @ s"
| "client_error_text (OwnershipConflict s) = s"

datatype ui_task_status =
    TS_Idle | TS_Running | TS_WaitingUser | TS_Answered | TS_Completed | TS_Failed | TS_Cancelled
  | TS_Interrupted | TS_Unknown | TS_Blocked | TS_Incomplete

datatype ui_interaction = UI_Approval | UI_Clarification

datatype approval_policy = AP_Interactive | AP_AutoApprove

record user_shell =
  sh_id :: rstr
  sh_origin :: "rstr option"
  sh_status :: rstr
  sh_exit_code :: "int option"

record task_terminal =
  tt_sequence :: int
  tt_outcome :: rstr
  tt_stop :: "rstr option"
  tt_reason :: "rstr option"

record session_snapshot =
  sn_user_shells :: "user_shell list"
  sn_task_status :: "ui_task_status option"
  sn_task_terminal :: "task_terminal option"
  sn_interrupted :: "rstr list"
  sn_pending :: "ui_interaction list"
  sn_last_sequence :: "int option"
  sn_latest_turn :: "int option"

datatype native_status =
    NS_Completed | NS_Submitted | NS_Unknown | NS_RequiresPermission | NS_RequiresConfiguration
  | NS_Failed | NS_Unsupported | NS_InvalidInput | NS_NotStarted

fun native_status_text :: "native_status \<Rightarrow> rstr" where
  "native_status_text NS_Completed = lit ''completed''"
| "native_status_text NS_Submitted = lit ''submitted''"
| "native_status_text NS_Unknown = lit ''unknown''"
| "native_status_text NS_RequiresPermission = lit ''requires_permission''"
| "native_status_text NS_RequiresConfiguration = lit ''requires_configuration''"
| "native_status_text NS_Failed = lit ''failed''"
| "native_status_text NS_Unsupported = lit ''unsupported''"
| "native_status_text NS_InvalidInput = lit ''invalid_input''"
| "native_status_text NS_NotStarted = lit ''not_started''"

record native_report =
  nr_status :: native_status
  nr_provider :: "rstr option"
  nr_exit_code :: "int option"
  nr_detail :: rstr
  nr_capability_state :: "rstr option"
  nr_permission_state :: "rstr option"

section \<open>Reading a report\<close>

datatype shell_view = SV_Terminal rstr run_outcome | SV_Running rstr | SV_Absent

text \<open>Only the execution that carries this run's delivery identity counts.\<close>

definition shell_status_view :: "user_shell \<Rightarrow> shell_view" where
  "shell_status_view s =
     (if sh_status s = lit ''success'' then SV_Terminal (sh_id s) (RO_Succeeded (sh_exit_code s))
      else if sh_status s = lit ''failed'' then
        SV_Terminal (sh_id s) (RO_Failed (sh_exit_code s) (lit ''the scheduled action ended with status `failed`''))
      else if sh_status s = lit ''cancelled'' then
        SV_Terminal (sh_id s) (RO_Cancelled (Some (lit ''the scheduled action ended with status `cancelled`'')))
      else if sh_status s = lit ''unknown'' then
        SV_Terminal (sh_id s) (RO_Unknown (lit ''the runtime lost this action's outcome while it was running''))
      else if sh_status s = lit ''running'' \<or> sh_status s = lit ''background'' then SV_Running (sh_id s)
      else SV_Terminal (sh_id s) (RO_Unknown
             (lit ''the runtime reported an unknown action status `'' @ sh_status s @ lit ''`'')))"

definition interpret_shell :: "session_snapshot \<Rightarrow> rstr \<Rightarrow> shell_view" where
  "interpret_shell sn origin =
     (case find (\<lambda>s. sh_origin s = Some origin) (sn_user_shells sn) of
        None \<Rightarrow> SV_Absent
      | Some s \<Rightarrow> shell_status_view s)"

definition shell_unconfirmed :: "duration \<Rightarrow> bool \<Rightarrow> run_outcome" where
  "shell_unconfirmed timeout saw_execution =
     RO_Unknown
       (if saw_execution
        then lit ''the action did not report a terminal state within '' @ show_nat (as_secs timeout)
               @ lit ''s; its effect is unknown and it was not retried''
        else lit ''the runtime never reported an execution carrying this run's delivery identity within ''
               @ show_nat (as_secs timeout) @ lit ''s; its effect is unknown and it was not retried'')"

definition delivery_failure :: "client_error \<Rightarrow> run_outcome" where
  "delivery_failure e =
     (case e of
        OutcomeUnknown m \<Rightarrow> RO_Unknown (lit ''delivery did not settle; the action may have run: '' @ m)
      | Unresolvable m \<Rightarrow> RO_Unknown (lit ''delivery did not settle; the action may have run: '' @ m)
      | other \<Rightarrow> RO_Failed None (lit ''the runtime did not accept the scheduled action: '' @ client_error_text other))"

text \<open>Turn ordinals are \<open>i64\<close>; the addition saturates.\<close>

definition delivered_turn_ordinal :: "int option \<Rightarrow> int option \<Rightarrow> int option" where
  "delivered_turn_ordinal before after =
     (let expected = (case before of None \<Rightarrow> 1 | Some n \<Rightarrow> min (2 ^ 63 - 1) (n + 1))
      in if after = Some expected then Some expected else None)"

definition owns_newest_turn :: "run_row \<Rightarrow> session_snapshot \<Rightarrow> bool" where
  "owns_newest_turn r sn =
     (case (rn_turn_ordinal r, sn_latest_turn sn) of
        (Some owned, Some newest) \<Rightarrow> owned = newest
      | _ \<Rightarrow> False)"

definition agent_outcome :: "task_terminal \<Rightarrow> run_outcome" where
  "agent_outcome t =
     (let detail = (case tt_reason t of
            Some r \<Rightarrow> r
          | None \<Rightarrow> (case tt_stop t of
                Some s \<Rightarrow> s
              | None \<Rightarrow> lit ''the runtime reported task outcome `'' @ tt_outcome t @ lit ''`''))
      in if tt_outcome t = lit ''completed'' then RO_Succeeded None
         else if tt_outcome t = lit ''cancelled'' then RO_Cancelled (Some detail)
         else if tt_outcome t = lit ''blocked'' then RO_Blocked detail
         else if tt_outcome t \<in> {lit ''failed'', lit ''interrupted'', lit ''budget_limited''} then RO_Failed None detail
         else RO_Unknown (lit ''the runtime reported an unrecognized task outcome `'' @ tt_outcome t @ lit ''`: '' @ detail))"

definition native_outcome :: "native_report \<Rightarrow> run_outcome" where
  "native_outcome r =
     (case nr_status r of
        NS_Completed \<Rightarrow> RO_Succeeded (nr_exit_code r)
      | NS_Submitted \<Rightarrow> RO_Submitted (Some (nr_detail r))
      | NS_Unknown \<Rightarrow> RO_Unknown (nr_detail r @ lit ''; the effect is unknown and it was not retried'')
      | NS_RequiresPermission \<Rightarrow> RO_WaitingApproval (nr_detail r)
      | NS_Failed \<Rightarrow> RO_Failed (nr_exit_code r) (nr_detail r)
      | _ \<Rightarrow> RO_Blocked (nr_detail r))"

fun interaction_kind :: "ui_interaction \<Rightarrow> rstr" where
  "interaction_kind UI_Approval = lit ''approval''"
| "interaction_kind UI_Clarification = lit ''clarification''"

fun comma_joined :: "rstr list \<Rightarrow> rstr" where
  "comma_joined [] = []"
| "comma_joined [x] = x"
| "comma_joined (x # xs) = x @ lit '', '' @ comma_joined xs"

definition describe_interactions :: "ui_interaction list \<Rightarrow> rstr" where
  "describe_interactions xs =
     (if xs = [] then [] else lit '' ('' @ comma_joined (map interaction_kind xs) @ lit '')'')"

section \<open>The world of a dispatcher\<close>

record 'r world =
  w_db :: schedule_db
  w_runtime :: 'r

type_synonym ('r, 'e, 'a) call = "'r world \<Rightarrow> ('e + 'a) \<times> 'r world"

record create_request =
  cr_request :: rstr
  cr_workspace :: rstr
  cr_goal :: rstr
  cr_model :: "model_ref option"
  cr_mode :: wire_profile
  cr_approval :: approval_policy

text \<open>The commands a dispatcher sends.\<close>

datatype client_command =
    RunUserShell rstr
  | RunGoal rstr bool
  | CancelUserShell rstr
  | CancelCurrentTurn
  | DeleteSession

record ('j, 'r) dispatcher =
  dp_env :: "'j store_env"
  dp_connect :: "rstr \<Rightarrow> ('r, rstr, unit) call"
  dp_create_session :: "rstr \<Rightarrow> create_request \<Rightarrow> ('r, client_error, rstr) call"
  dp_snapshot :: "rstr \<Rightarrow> rstr \<Rightarrow> ('r, client_error, session_snapshot) call"
  dp_deliver :: "rstr \<Rightarrow> rstr \<Rightarrow> rstr \<Rightarrow> client_command \<Rightarrow> ('r, client_error, unit) call"
  dp_issue :: "rstr \<Rightarrow> rstr \<Rightarrow> client_command \<Rightarrow> ('r, client_error, unit) call"
  dp_attach :: "rstr \<Rightarrow> rstr \<Rightarrow> approval_policy \<Rightarrow> ('r, client_error, unit) call"
  dp_classify :: "(rstr \<Rightarrow> rstr + bool) option"
  dp_execute :: "rstr \<Rightarrow> 'j \<Rightarrow> duration \<Rightarrow> ('r, rstr, native_report) call"
  dp_usage :: "(rstr \<Rightarrow> rstr \<Rightarrow> ('r, rstr, usage_snapshot) call) option"
  dp_now :: "'r world \<Rightarrow> instant"
  dp_monotonic :: "'r world \<Rightarrow> instant"
  dp_sleep :: "duration \<Rightarrow> 'r world \<Rightarrow> 'r world"
  dp_refusal_text :: "refusal \<Rightarrow> rstr"
  dp_error_text :: "schedule_error \<Rightarrow> rstr"
  dp_lease :: duration
  dp_poll_interval :: duration

definition handling ::
  "('r, 'e, 'a) call \<Rightarrow> ('e \<Rightarrow> ('r, 'f, 'b) call) \<Rightarrow> ('a \<Rightarrow> ('r, 'f, 'b) call) \<Rightarrow> ('r, 'f, 'b) call" where
  "handling m on_error on_ok w =
     (case m w of (Inl e, w') \<Rightarrow> on_error e w' | (Inr x, w') \<Rightarrow> on_ok x w')"

definition returning :: "'a \<Rightarrow> ('r, 'e, 'a) call" where
  "returning x w = (Inr x, w)"

definition raising :: "'e \<Rightarrow> ('r, 'e, 'a) call" where
  "raising e w = (Inl e, w)"

text \<open>The question mark operator.\<close>

abbreviation try_then :: "('r, 'e, 'a) call \<Rightarrow> ('a \<Rightarrow> ('r, 'e, 'b) call) \<Rightarrow> ('r, 'e, 'b) call" where
  "try_then m f \<equiv> handling m raising f"

definition on_store :: "(schedule_db \<Rightarrow> ('e + 'a) \<times> schedule_db) \<Rightarrow> ('r, 'e, 'a) call" where
  "on_store f w = (case f (w_db w) of (r, db) \<Rightarrow> (r, w\<lparr>w_db := db\<rparr>))"

text \<open>A write that answers whether it changed a row.\<close>

definition on_write :: "(schedule_db \<Rightarrow> bool \<times> schedule_db) \<Rightarrow> ('r, 'e, bool) call" where
  "on_write f w = (case f (w_db w) of (ok, db) \<Rightarrow> (Inr ok, w\<lparr>w_db := db\<rparr>))"

text \<open>A store operation that reads the clock.\<close>

definition timed :: "('j, 'r) dispatcher \<Rightarrow> (instant \<Rightarrow> ('r, 'e, 'a) call) \<Rightarrow> ('r, 'e, 'a) call" where
  "timed d f w = f (dp_now d w) w"

definition read_definition :: "('j, 'r) dispatcher \<Rightarrow> rstr \<Rightarrow> ('r, schedule_error, 'j schedule_definition option) call" where
  "read_definition d did w = (definition_of (dp_env d) did (w_db w), w)"

definition settled_state :: "run_row option \<Rightarrow> schedule_run_state" where
  "settled_state r = (case r of None \<Rightarrow> RS_Unknown | Some x \<Rightarrow> rn_state x)"

definition settle_with_facts ::
  "('j, 'r) dispatcher \<Rightarrow> rstr \<Rightarrow> run_outcome \<Rightarrow> run_facts \<Rightarrow> ('r, schedule_error, schedule_run_state) call" where
  "settle_with_facts d rid outcome facts =
     try_then (timed d (\<lambda>now. on_store (finish_run_with_facts (dp_env d) rid outcome facts now)))
       (\<lambda>r. returning (settled_state r))"

definition settle :: "('j, 'r) dispatcher \<Rightarrow> rstr \<Rightarrow> run_outcome \<Rightarrow> ('r, schedule_error, schedule_run_state) call" where
  "settle d rid outcome = settle_with_facts d rid outcome no_facts"

section \<open>Sessions\<close>

definition create_session ::
  "('j, 'r) dispatcher \<Rightarrow> rstr \<Rightarrow> 'j schedule_definition \<Rightarrow> rstr \<Rightarrow> approval_policy \<Rightarrow> ('r, schedule_error, rstr) call" where
  "create_session d ws s request approval =
     handling (dp_create_session d ws
         \<lparr>cr_request = request, cr_workspace = sd_workspace s, cr_goal = session_goal s, cr_model = sd_model s,
          cr_mode = sd_mode s, cr_approval = approval\<rparr>)
       (\<lambda>e. raising (Runtime (lit ''could not create the scheduled session: '' @ client_error_text e)))
       returning"

definition verify_session :: "('j, 'r) dispatcher \<Rightarrow> rstr \<Rightarrow> rstr \<Rightarrow> ('r, schedule_error, rstr) call" where
  "verify_session d ws session =
     handling (dp_snapshot d ws session)
       (\<lambda>e. case e of
          SessionNotFound _ \<Rightarrow> raising (SessionMismatch session)
        | _ \<Rightarrow> raising (Runtime (lit ''could not verify the definition's session '' @ session @ lit '': '' @ client_error_text e)))
       (\<lambda>_. returning session)"

definition resolve_session ::
  "('j, 'r) dispatcher \<Rightarrow> rstr \<Rightarrow> 'j schedule_definition \<Rightarrow> rstr \<Rightarrow> session_policy \<Rightarrow> approval_policy
     \<Rightarrow> ('r, schedule_error, rstr) call" where
  "resolve_session d ws s rid policy approval =
     (if policy = Fresh
      then create_session d ws s (lit ''schedule-session-'' @ sd_id s @ lit ''-'' @ rid) approval
      else case sd_session s of
        Some session \<Rightarrow> verify_session d ws session
      | None \<Rightarrow>
          try_then (create_session d ws s (lit ''schedule-session-'' @ sd_id s) approval) (\<lambda>created.
          handling (timed d (\<lambda>now. on_store (set_session (sd_id s) created now)))
            (\<lambda>e. case e of
               SessionMismatch _ \<Rightarrow>
                 try_then (read_definition d (sd_id s)) (\<lambda>r.
                   case (case r of None \<Rightarrow> None | Some x \<Rightarrow> sd_session x) of
                     None \<Rightarrow> raising (SessionMismatch (sd_id s))
                   | Some winner \<Rightarrow>
                       handling (dp_issue d ws created DeleteSession)
                         (\<lambda>_. verify_session d ws winner) (\<lambda>_. verify_session d ws winner))
             | _ \<Rightarrow> raising e)
            (\<lambda>_. returning created)))"

section \<open>Shell runs\<close>

definition SHELL_ADMIT_WINDOW :: duration where "SHELL_ADMIT_WINDOW = secs 2"
definition AGENT_CANCEL_GRACE :: duration where "AGENT_CANCEL_GRACE = secs 30"
definition OBSERVE_RETRY_GRACE :: duration where "OBSERVE_RETRY_GRACE = secs 300"

text \<open>Why a claimed shell action may not start: the guards on the definition read again.\<close>

definition shell_refusal ::
  "('j, 'r) dispatcher \<Rightarrow> 'j schedule_definition \<Rightarrow> 'j schedule_definition \<Rightarrow> rstr option" where
  "shell_refusal d claimed current =
     (if sd_action current \<noteq> sd_action claimed
      then Some (lit ''the schedule's action changed after this occurrence was claimed'')
      else if sd_workspace current \<noteq> sd_workspace claimed
      then Some (lit ''the schedule's workspace changed after this occurrence was claimed'')
      else case unattended_authorization (se_json (dp_env d)) current AK_Shell True of
        Inl reason \<Rightarrow> Some (dp_refusal_text d reason)
      | Inr _ \<Rightarrow>
          if sd_overlap claimed = AllowConcurrent \<and> sd_session_policy claimed = Continue
          then Some (lit ''this definition allows concurrent runs but reuses one session; a session admits one turn at a time. Update it to a fresh session per run before dispatching it again; the action was not started'')
          else None)"

text \<open>A guarded start either returns the state the run was settled with or goes on.\<close>

datatype 'a start = Returned schedule_run_state | Goes 'a

definition give_up :: "('j, 'r) dispatcher \<Rightarrow> rstr \<Rightarrow> run_outcome \<Rightarrow> ('r, schedule_error, 'a start) call" where
  "give_up d rid outcome = try_then (settle d rid outcome) (\<lambda>s. returning (Returned s))"

text \<open>Connecting, the session and the delivery of an authorized shell action.  The session
  is resolved from the claimed definition.\<close>

definition deliver_shell ::
  "('j, 'r) dispatcher \<Rightarrow> 'j claim \<Rightarrow> rstr \<Rightarrow> 'j schedule_definition
     \<Rightarrow> ('r, schedule_error, (rstr \<times> 'j schedule_definition) start) call" where
  "deliver_shell d c command current =
     (let claimed = cl_definition c; ws = sd_workspace claimed; rid = cl_run c
      in handling (dp_connect d ws)
           (\<lambda>e. give_up d rid (RO_Failed None
              (lit ''could not connect to the runtime that owns this schedule: '' @ e)))
           (\<lambda>_. handling (resolve_session d ws claimed rid (sd_session_policy claimed) AP_Interactive)
              (\<lambda>e. give_up d rid (RO_Failed None (dp_error_text d e)))
              (\<lambda>session. try_then (on_write (mark_session rid session)) (\<lambda>_.
                 handling (dp_deliver d ws session (lit ''schedule-run-'' @ rid) (RunUserShell command))
                   (\<lambda>e. give_up d rid (delivery_failure e))
                   (\<lambda>_. try_then (timed d (\<lambda>now. on_write (mark_delivered rid now)))
                      (\<lambda>_. returning (Goes (session, current))))))))"

definition shell_start ::
  "('j, 'r) dispatcher \<Rightarrow> 'j claim \<Rightarrow> ('r, schedule_error, (rstr \<times> 'j schedule_definition) start) call" where
  "shell_start d c =
     (let claimed = cl_definition c; rid = cl_run c
      in case sd_action claimed of
           Shell command \<Rightarrow>
             handling (read_definition d (sd_id claimed))
               (\<lambda>e. give_up d rid (RO_Failed None
                  (lit ''could not re-read the schedule before executing it: '' @ dp_error_text d e)))
               (\<lambda>r. case r of
                  None \<Rightarrow> give_up d rid (RO_Blocked
                    (lit ''the schedule was removed after this occurrence was claimed''))
                | Some current \<Rightarrow>
                    (case shell_refusal d claimed current of
                       Some reason \<Rightarrow> give_up d rid (RO_Blocked reason)
                     | None \<Rightarrow> deliver_shell d c command current))
         | _ \<Rightarrow> give_up d rid (RO_Blocked (lit ''the occurrence's action is not a shell action'')))"

definition cancel_shell_execution ::
  "('j, 'r) dispatcher \<Rightarrow> rstr \<Rightarrow> rstr \<Rightarrow> rstr \<Rightarrow> rstr option \<Rightarrow> ('r, schedule_error, unit) call" where
  "cancel_shell_execution d ws session rid execution w =
     (case execution of
        None \<Rightarrow> (Inr (), w)
      | Some x \<Rightarrow>
          if cancel_requested rid (w_db w)
             \<and> (case run_of rid (w_db w) of None \<Rightarrow> False | Some r \<Rightarrow> rn_cancel_issued_at r \<noteq> None)
          then (Inr (), w)
          else handling (dp_issue d ws session (CancelUserShell x))
                 (\<lambda>_. returning ())
                 (\<lambda>_. try_then (timed d (\<lambda>now. on_write (mark_cancel_issued rid now))) (\<lambda>_. returning ())) w)"

definition attribute_shell_terminal :: "rstr \<Rightarrow> run_outcome \<Rightarrow> ('r, schedule_error, run_outcome) call" where
  "attribute_shell_terminal rid outcome w =
     (case outcome of
        RO_Failed code e \<Rightarrow>
          (Inr (if cancel_requested rid (w_db w) then RO_Cancelled (Some e) else RO_Failed code e), w)
      | other \<Rightarrow> (Inr other, w))"

definition settle_terminal ::
  "('j, 'r) dispatcher \<Rightarrow> rstr \<Rightarrow> rstr \<Rightarrow> run_outcome \<Rightarrow> ('r, schedule_error, schedule_run_state) call" where
  "settle_terminal d rid execution outcome =
     try_then (timed d (\<lambda>now. on_write (mark_running rid execution now))) (\<lambda>_.
     try_then (attribute_shell_terminal rid outcome) (settle d rid))"

datatype poll = Poll_Done schedule_run_state | Poll_Leave | Poll_Again

definition poll_missed :: "('j, 'r) dispatcher \<Rightarrow> instant \<Rightarrow> ('r, schedule_error, poll) call" where
  "poll_missed d admit_until w =
     (Inr (if dp_monotonic d w \<ge> admit_until then Poll_Leave else Poll_Again), w)"

text \<open>One turn of the wait for a delivered shell.\<close>

definition shell_poll ::
  "('j, 'r) dispatcher \<Rightarrow> rstr \<Rightarrow> rstr \<Rightarrow> rstr \<Rightarrow> duration \<Rightarrow> instant \<Rightarrow> instant \<Rightarrow> ('r, schedule_error, poll) call" where
  "shell_poll d ws session rid timeout deadline admit_until w =
     (if dp_monotonic d w \<ge> deadline
      then try_then (cancel_shell_execution d ws session rid None) (\<lambda>_.
           try_then (settle d rid (shell_unconfirmed timeout False)) (\<lambda>s. returning (Poll_Done s))) w
      else handling (dp_snapshot d ws session)
             (\<lambda>_. poll_missed d admit_until)
             (\<lambda>sn. case interpret_shell sn (lit ''schedule-run-'' @ rid) of
                SV_Terminal x outcome \<Rightarrow>
                  try_then (settle_terminal d rid x outcome) (\<lambda>s. returning (Poll_Done s))
              | SV_Running x \<Rightarrow>
                  try_then (timed d (\<lambda>now. on_write (mark_running rid x now))) (\<lambda>_. returning Poll_Leave)
              | SV_Absent \<Rightarrow> poll_missed d admit_until) w)"

partial_function (option) shell_wait ::
  "('j, 'r) dispatcher \<Rightarrow> rstr \<Rightarrow> rstr \<Rightarrow> rstr \<Rightarrow> duration \<Rightarrow> instant \<Rightarrow> instant \<Rightarrow> 'r world
     \<Rightarrow> ((schedule_error + schedule_run_state option) \<times> 'r world) option" where
  "shell_wait d ws session rid timeout deadline admit_until w =
     (case shell_poll d ws session rid timeout deadline admit_until w of
        (Inl e, w') \<Rightarrow> Some (Inl e, w')
      | (Inr p, w') \<Rightarrow>
          (case p of
             Poll_Done s \<Rightarrow> Some (Inr (Some s), w')
           | Poll_Leave \<Rightarrow> Some (Inr None, w')
           | Poll_Again \<Rightarrow>
               shell_wait d ws session rid timeout deadline admit_until (dp_sleep d (dp_poll_interval d) w')))"

definition release_shell ::
  "('j, 'r) dispatcher \<Rightarrow> rstr \<Rightarrow> rstr \<Rightarrow> instant \<Rightarrow> ('r, schedule_error, schedule_run_state) call" where
  "release_shell d rid did deadline =
     try_then (on_write (release_shell_observation rid deadline)) (\<lambda>released.
       if \<not> released then (\<lambda>w. (Inr (settled_state (run_of rid (w_db w))), w))
       else try_then (timed d (\<lambda>now. on_store (renew_horizon (dp_env d) did now))) (\<lambda>_. returning RS_Running))"

text \<open>\<open>None\<close> is a wait that never ends.\<close>

definition run_shell ::
  "('j, 'r) dispatcher \<Rightarrow> 'j claim \<Rightarrow> 'r world \<Rightarrow> ((schedule_error + schedule_run_state) \<times> 'r world) option" where
  "run_shell d c w =
     (case shell_start d c w of
        (Inl e, w') \<Rightarrow> Some (Inl e, w')
      | (Inr (Returned s), w') \<Rightarrow> Some (Inr s, w')
      | (Inr (Goes (session, current)), w') \<Rightarrow>
          (let timeout = sd_timeout current;
               deadline_at = dp_now d w' + int (as_secs timeout) * sec_ns
           in case shell_wait d (sd_workspace (cl_definition c)) session (cl_run c) timeout
                     (dp_monotonic d w' + int timeout)
                     (dp_monotonic d w' + int (min SHELL_ADMIT_WINDOW timeout)) w' of
                None \<Rightarrow> None
              | Some (Inl e, w'') \<Rightarrow> Some (Inl e, w'')
              | Some (Inr (Some s), w'') \<Rightarrow> Some (Inr s, w'')
              | Some (Inr None, w'') \<Rightarrow> Some (release_shell d (cl_run c) (sd_id current) deadline_at w'')))"

section \<open>Native runs\<close>

definition native_facts :: "native_report \<Rightarrow> run_facts" where
  "native_facts r = no_facts\<lparr>rf_provider := nr_provider r, rf_native_outcome := Some (native_status_text (nr_status r)),
     rf_capability_state := nr_capability_state r, rf_permission_state := nr_permission_state r\<rparr>"

text \<open>What is recorded once the executor reported.\<close>

definition settle_native ::
  "('j, 'r) dispatcher \<Rightarrow> rstr \<Rightarrow> native_report \<Rightarrow> ('r, schedule_error, schedule_run_state) call" where
  "settle_native d rid r w =
     settle_with_facts d rid
       (if cancel_requested rid (w_db w)
        then RO_Cancelled (Some (lit ''cancellation was requested; the native action reported `''
               @ native_status_text (nr_status r) @ lit ''`: '' @ nr_detail r))
        else native_outcome r)
       (native_facts r) w"

definition run_native :: "('j, 'r) dispatcher \<Rightarrow> 'j claim \<Rightarrow> ('r, schedule_error, schedule_run_state) call" where
  "run_native d c =
     (let claimed = cl_definition c; rid = cl_run c
      in case sd_action claimed of
           Native action input \<Rightarrow>
             (case dp_classify d of
                None \<Rightarrow> settle d rid (RO_Blocked
                  (lit ''this dispatcher has no native action executor; the action was not started''))
              | Some classify \<Rightarrow>
                  (case classify action of
                     Inl e \<Rightarrow> settle d rid (RO_Blocked (lit ''the native action is not schedulable: '' @ e))
                   | Inr external \<Rightarrow>
                       handling (read_definition d (sd_id claimed))
                         (\<lambda>e. settle d rid (RO_Failed None
                            (lit ''the schedule could not be re-read before its authorization decision; the action was not started: ''
                               @ dp_error_text d e)))
                         (\<lambda>r. case r of
                            None \<Rightarrow> settle d rid (RO_Blocked
                              (lit ''the schedule definition was removed after this occurrence was claimed; the action was not started''))
                          | Some current \<Rightarrow>
                              if sd_action current \<noteq> sd_action claimed
                              then settle d rid (RO_Blocked
                                (lit ''the schedule's action changed after this occurrence was claimed; the claimed action was not started''))
                              else case unattended_authorization (se_json (dp_env d)) current AK_Native external of
                                Inl reason \<Rightarrow> settle d rid (RO_Blocked (dp_refusal_text d reason))
                              | Inr _ \<Rightarrow>
                                  handling (dp_execute d action input (sd_timeout current))
                                    (\<lambda>e. settle d rid (RO_Unknown
                                       (lit ''the native executor failed before it could report what happened: '' @ e
                                          @ lit ''; the effect is unknown and it was not retried'')))
                                    (settle_native d rid))))
         | _ \<Rightarrow> settle d rid (RO_Blocked (lit ''the occurrence's action is not a native action'')))"

section \<open>Agent runs\<close>

definition read_usage :: "('j, 'r) dispatcher \<Rightarrow> rstr \<Rightarrow> rstr \<Rightarrow> ('r, schedule_error, usage_snapshot option) call" where
  "read_usage d ws session =
     (case dp_usage d of
        None \<Rightarrow> returning None
      | Some usage \<Rightarrow> handling (usage ws session) (\<lambda>_. returning None) (\<lambda>u. returning (Some u)))"

text \<open>The session policy is only re-asserted for a definition that reuses its session.\<close>

definition attach_policy ::
  "('j, 'r) dispatcher \<Rightarrow> 'j schedule_definition \<Rightarrow> rstr \<Rightarrow> approval_policy \<Rightarrow> ('r, client_error, unit) call" where
  "attach_policy d s session policy =
     (if sd_session_policy s = Continue then dp_attach d (sd_workspace s) session policy else returning ())"

definition session_busy :: "session_snapshot \<Rightarrow> bool" where
  "session_busy sn \<longleftrightarrow> sn_task_status sn \<in> {Some TS_Running, Some TS_WaitingUser, Some TS_Answered}"

text \<open>After the goal was admitted: its turn, the hand-off and the next slot.\<close>

definition hand_off ::
  "('j, 'r) dispatcher \<Rightarrow> 'j schedule_definition \<Rightarrow> rstr \<Rightarrow> rstr \<Rightarrow> session_snapshot \<Rightarrow> usage_snapshot option
     \<Rightarrow> ('r, schedule_error, schedule_run_state) call" where
  "hand_off d s rid session before usage =
     handling (handling (dp_snapshot d (sd_workspace s) session)
         (\<lambda>_. returning None)
         (\<lambda>after. returning (delivered_turn_ordinal (sn_latest_turn before) (sn_latest_turn after))))
       raising
       (\<lambda>ordinal. try_then (timed d (\<lambda>now. on_write (mark_delivered rid now))) (\<lambda>_.
          try_then (timed d (\<lambda>now. on_write (mark_handed_off rid
              (case sn_last_sequence before of None \<Rightarrow> 0 | Some n \<Rightarrow> n) ordinal usage
              (now + int (as_secs (sd_timeout s)) * sec_ns) now)))
            (\<lambda>ok. if \<not> ok then (\<lambda>w. (Inr (settled_state (run_of rid (w_db w))), w))
                  else try_then (timed d (\<lambda>now. on_store (renew_horizon (dp_env d) (sd_id s) now)))
                         (\<lambda>_. returning RS_Running))))"

text \<open>The session is free: the goal is delivered as a turn of its own, and the interactive
  policy is restored whatever became of the delivery.\<close>

definition deliver_goal ::
  "('j, 'r) dispatcher \<Rightarrow> 'j schedule_definition \<Rightarrow> rstr \<Rightarrow> rstr \<Rightarrow> rstr \<Rightarrow> session_snapshot
     \<Rightarrow> ('r, schedule_error, schedule_run_state) call" where
  "deliver_goal d s rid goal session before =
     try_then (read_usage d (sd_workspace s) session) (\<lambda>usage.
       handling (dp_deliver d (sd_workspace s) session (lit ''schedule-goal-'' @ rid) (RunGoal goal True))
         (\<lambda>e. let failed = settle d rid (delivery_failure e)
               in handling (attach_policy d s session AP_Interactive) (\<lambda>_. failed) (\<lambda>_. failed))
         (\<lambda>_. let next = hand_off d s rid session before usage
               in handling (attach_policy d s session AP_Interactive) (\<lambda>_. next) (\<lambda>_. next)))"

definition admit_goal ::
  "('j, 'r) dispatcher \<Rightarrow> 'j schedule_definition \<Rightarrow> rstr \<Rightarrow> rstr \<Rightarrow> rstr \<Rightarrow> ('r, schedule_error, schedule_run_state) call" where
  "admit_goal d s rid goal session =
     handling (attach_policy d s session AP_AutoApprove)
       (\<lambda>e. settle d rid (RO_Blocked
          (lit ''the runtime could not re-assert this schedule's unattended approval policy; the run was not started: ''
             @ client_error_text e)))
       (\<lambda>_. handling (dp_snapshot d (sd_workspace s) session)
          (\<lambda>e. settle d rid (RO_Failed None
             (lit ''the runtime could not report the session state before the agent run was submitted: '' @ client_error_text e)))
          (\<lambda>sn. if sn_interrupted sn \<noteq> []
                then settle d rid (RO_Blocked
                  (lit ''the session is blocked behind the crash-recovery gate; an ordinary person must acknowledge the interrupted tool calls before the next turn can start''))
                else if session_busy sn
                then settle d rid (RO_Skipped
                  (lit ''the session already has an active turn; an unattended schedule does not interrupt or share it''))
                else deliver_goal d s rid goal session sn))"

text \<open>Why a claimed agent action may not start.\<close>

definition agent_refusal ::
  "('j, 'r) dispatcher \<Rightarrow> 'j schedule_definition \<Rightarrow> 'j schedule_definition \<Rightarrow> rstr option" where
  "agent_refusal d claimed current =
     (if sd_action current \<noteq> sd_action claimed
      then Some (lit ''the schedule's action changed after this occurrence was claimed; the claimed goal was not submitted'')
      else if kind_of (sd_action current) \<noteq> AK_Agent
      then Some (lit ''the occurrence's action is not an agent action'')
      else if sd_model current = None
      then Some (lit ''an agent schedule needs a model; none was recorded'')
      else case unattended_authorization (se_json (dp_env d)) current AK_Agent True of
        Inl reason \<Rightarrow> Some (dp_refusal_text d reason)
      | Inr _ \<Rightarrow> None)"

definition handoff_agent :: "('j, 'r) dispatcher \<Rightarrow> 'j claim \<Rightarrow> ('r, schedule_error, schedule_run_state) call" where
  "handoff_agent d c =
     (let claimed = cl_definition c; rid = cl_run c
      in handling (read_definition d (sd_id claimed))
           (\<lambda>e. settle d rid (RO_Failed None
              (lit ''the schedule could not be re-read before its authorization decision; no goal was submitted: ''
                 @ dp_error_text d e)))
           (\<lambda>r. case r of
              None \<Rightarrow> settle d rid (RO_Blocked
                (lit ''the schedule definition was removed after this occurrence was claimed; no goal was submitted''))
            | Some s \<Rightarrow>
                (case agent_refusal d claimed s of
                   Some reason \<Rightarrow> settle d rid (RO_Blocked reason)
                 | None \<Rightarrow>
                     handling (dp_connect d (sd_workspace s))
                       (\<lambda>e. settle d rid (RO_Failed None
                          (lit ''could not connect to the runtime that owns this schedule: '' @ e)))
                       (\<lambda>_. handling (resolve_session d (sd_workspace s) s rid (sd_session_policy s) AP_AutoApprove)
                          (\<lambda>e. settle d rid (RO_Failed None (dp_error_text d e)))
                          (\<lambda>session. try_then (on_write (mark_session rid session)) (\<lambda>_.
                             admit_goal d s rid (case sd_action s of Agent goal \<Rightarrow> goal | _ \<Rightarrow> []) session))))))"

definition run_claim ::
  "('j, 'r) dispatcher \<Rightarrow> 'j claim \<Rightarrow> 'r world \<Rightarrow> ((schedule_error + schedule_run_state) \<times> 'r world) option" where
  "run_claim d c w =
     (case sd_action (cl_definition c) of
        Shell _ \<Rightarrow> run_shell d c w
      | Native _ _ \<Rightarrow> Some (run_native d c w)
      | Agent _ \<Rightarrow> Some (handoff_agent d c w))"

section \<open>Observing what the runtime owns\<close>

text \<open>The runs with their definitions; a run whose definition is gone is left out.\<close>

fun with_definitions ::
  "'j store_env \<Rightarrow> schedule_db \<Rightarrow> run_row list \<Rightarrow> schedule_error + (run_row \<times> 'j schedule_definition) list" where
  "with_definitions env db [] = Inr []"
| "with_definitions env db (r # rs) =
     and_then (definition_of env (rn_definition r) db) (\<lambda>x.
     and_then (with_definitions env db rs) (\<lambda>ys. Inr (case x of None \<Rightarrow> ys | Some s \<Rightarrow> (r, s) # ys)))"

fun observe_each ::
  "('a \<Rightarrow> ('r, schedule_error, schedule_run_state option) call) \<Rightarrow> 'a list \<Rightarrow> schedule_run_state list
     \<Rightarrow> ('r, schedule_error, schedule_run_state list) call" where
  "observe_each f [] ss = returning ss"
| "observe_each f (x # xs) ss =
     try_then (f x) (\<lambda>s. observe_each f xs (case s of None \<Rightarrow> ss | Some y \<Rightarrow> ss @ [y]))"

definition reporting :: "('r, schedule_error, schedule_run_state) call \<Rightarrow> ('r, schedule_error, schedule_run_state option) call" where
  "reporting m = try_then m (\<lambda>s. returning (Some s))"

definition observe_shell ::
  "('j, 'r) dispatcher \<Rightarrow> instant \<Rightarrow> run_row \<times> 'j schedule_definition \<Rightarrow> ('r, schedule_error, schedule_run_state option) call" where
  "observe_shell d now = (\<lambda>(r, s).
     let rid = rn_id r; ws = sd_workspace s;
         late = (case rn_deadline_at r of None \<Rightarrow> False | Some t \<Rightarrow> now \<ge> of_millis t);
         lost = reporting (settle d rid (shell_unconfirmed (sd_timeout s) (rn_execution r \<noteq> None)))
     in case rn_session r of
          None \<Rightarrow> reporting (settle d rid (RO_Unknown
            (lit ''the delivered shell run lost its session identity; its effect cannot be observed and it was not retried'')))
        | Some session \<Rightarrow>
            handling (dp_connect d ws)
              (\<lambda>_. if late then lost else returning None)
              (\<lambda>_. handling (dp_snapshot d ws session)
                 (\<lambda>_. if late then try_then (cancel_shell_execution d ws session rid (rn_execution r)) (\<lambda>_. lost)
                       else returning None)
                 (\<lambda>sn. case interpret_shell sn (lit ''schedule-run-'' @ rid) of
                    SV_Terminal x outcome \<Rightarrow> reporting (settle_terminal d rid x outcome)
                  | SV_Running x \<Rightarrow>
                      try_then (timed d (\<lambda>now. on_write (mark_running rid x now))) (\<lambda>_.
                        if late
                        then try_then (cancel_shell_execution d ws session rid (Some x)) (\<lambda>_.
                               reporting (settle d rid (shell_unconfirmed (sd_timeout s) True)))
                        else (\<lambda>w. if cancel_requested rid (w_db w)
                                  then try_then (cancel_shell_execution d ws session rid (Some x)) (\<lambda>_. returning None) w
                                  else (Inr None, w)))
                  | SV_Absent \<Rightarrow>
                      if late then reporting (settle d rid (shell_unconfirmed (sd_timeout s) False)) else returning None)))"

definition reconcile_shell_runs ::
  "('j, 'r) dispatcher \<Rightarrow> instant \<Rightarrow> ('r, schedule_error, schedule_run_state list) call" where
  "reconcile_shell_runs d now w =
     (case with_definitions (dp_env d) (w_db w) (observable_shell_runs (w_db w)) of
        Inl e \<Rightarrow> (Inl e, w)
      | Inr xs \<Rightarrow> observe_each (observe_shell d now) xs [] w)"

definition observation_lost ::
  "('j, 'r) dispatcher \<Rightarrow> run_row \<Rightarrow> instant \<Rightarrow> rstr \<Rightarrow> ('r, schedule_error, schedule_run_state option) call" where
  "observation_lost d r now detail =
     (let deadline = of_millis (case rn_deadline_at r of None \<Rightarrow> rn_started_at r | Some t \<Rightarrow> t)
      in if now < deadline + int OBSERVE_RETRY_GRACE then returning None
         else reporting (settle d (rn_id r) (RO_Unknown
           (lit ''the schedule could not observe this agent run within its deadline and '' @ detail
              @ lit ''; the task may have run and its effect is unknown''))))"

text \<open>Asking the runtime to stop the turn; acceptance is recorded, nothing else is.\<close>

definition issue_cancel ::
  "('j, 'r) dispatcher \<Rightarrow> rstr \<Rightarrow> rstr \<Rightarrow> rstr \<Rightarrow> ('r, schedule_error, bool) call" where
  "issue_cancel d ws session rid =
     handling (dp_issue d ws session CancelCurrentTurn)
       (\<lambda>_. returning False)
       (\<lambda>_. try_then (timed d (\<lambda>now. on_write (mark_cancel_issued rid now))) (\<lambda>_. returning True))"

definition provider_facts :: "'j schedule_definition \<Rightarrow> run_facts" where
  "provider_facts s = no_facts\<lparr>rf_provider := map_option mr_provider (sd_model s)\<rparr>"

text \<open>The terminal record is this run's own.\<close>

definition own_terminal :: "run_row \<Rightarrow> session_snapshot \<Rightarrow> task_terminal option" where
  "own_terminal r sn =
     (case sn_task_terminal sn of
        Some t \<Rightarrow> if tt_sequence t > (case rn_baseline_sequence r of None \<Rightarrow> 0 | Some n \<Rightarrow> n) \<and> owns_newest_turn r sn
                  then Some t else None
      | None \<Rightarrow> None)"

definition settle_own_terminal ::
  "('j, 'r) dispatcher \<Rightarrow> run_row \<Rightarrow> 'j schedule_definition \<Rightarrow> rstr \<Rightarrow> task_terminal
     \<Rightarrow> ('r, schedule_error, schedule_run_state option) call" where
  "settle_own_terminal d r s session t =
     try_then (read_usage d (sd_workspace s) session) (\<lambda>usage.
       reporting (settle_with_facts d (rn_id r) (agent_outcome t)
         ((provider_facts s)\<lparr>rf_task_sequence := Some (tt_sequence t), rf_task_outcome := Some (tt_outcome t),
            rf_usage_delta := (case (usage, rn_usage_baseline r) of
                (Some final, Some baseline) \<Rightarrow> Some (usage_since final baseline) | _ \<Rightarrow> None)\<rparr>)))"

definition settle_waiting ::
  "('j, 'r) dispatcher \<Rightarrow> run_row \<Rightarrow> 'j schedule_definition \<Rightarrow> rstr \<Rightarrow> session_snapshot
     \<Rightarrow> ('r, schedule_error, schedule_run_state option) call" where
  "settle_waiting d r s session sn =
     try_then (issue_cancel d (sd_workspace s) session (rn_id r)) (\<lambda>issued.
       reporting (settle d (rn_id r) (RO_WaitingApproval
         (lit ''the runtime is waiting for a person'' @ describe_interactions (sn_pending sn)
            @ lit ''; an unattended run cannot answer, so it was cancelled and nothing was retried''
            @ (if issued then [] else lit '' (the cancellation could not be delivered)'')))))"

definition settle_outlived ::
  "('j, 'r) dispatcher \<Rightarrow> run_row \<Rightarrow> 'j schedule_definition \<Rightarrow> bool \<Rightarrow> ('r, schedule_error, schedule_run_state option) call" where
  "settle_outlived d r s owns =
     reporting (settle_with_facts d (rn_id r)
       (RO_Unknown
          (if owns
           then lit ''the agent run outlived its '' @ show_nat (as_secs (sd_timeout s))
                  @ lit ''s deadline and its cancellation was not confirmed; the task may still be running and its effect is unknown''
           else lit ''the session's newest turn is no longer the one this run started (or its identity was never established); this run's terminal cannot be attributed to it and its effect is unknown''))
       (provider_facts s))"

text \<open>What one snapshot of a handed-off run's session leads to.\<close>

definition judge_agent ::
  "('j, 'r) dispatcher \<Rightarrow> instant \<Rightarrow> run_row \<Rightarrow> 'j schedule_definition \<Rightarrow> rstr \<Rightarrow> session_snapshot
     \<Rightarrow> ('r, schedule_error, schedule_run_state option) call" where
  "judge_agent d now r s session sn =
     (let rid = rn_id r; ws = sd_workspace s; owns = owns_newest_turn r sn;
          cancel = try_then (issue_cancel d ws session rid) (\<lambda>_. returning None)
      in case own_terminal r sn of
           Some t \<Rightarrow> settle_own_terminal d r s session t
         | None \<Rightarrow>
             if owns \<and> (sn_pending sn \<noteq> [] \<or> sn_task_status sn = Some TS_WaitingUser)
             then settle_waiting d r s session sn
             else (\<lambda>w.
               if owns \<and> cancel_requested rid (w_db w) \<and> rn_cancel_issued_at r = None then cancel w
               else let deadline = (case rn_deadline_at r of None \<Rightarrow> now | Some t \<Rightarrow> of_millis t)
                    in if now < deadline then (Inr None, w)
                       else if owns \<and> rn_cancel_issued_at r = None then cancel w
                       else if now - deadline \<ge> int AGENT_CANCEL_GRACE then settle_outlived d r s owns w
                       else (Inr None, w)))"

definition observe_agent ::
  "('j, 'r) dispatcher \<Rightarrow> instant \<Rightarrow> run_row \<times> 'j schedule_definition \<Rightarrow> ('r, schedule_error, schedule_run_state option) call" where
  "observe_agent d now = (\<lambda>(r, s).
     if kind_of (sd_action s) \<noteq> AK_Agent
     then reporting (settle d (rn_id r) (RO_Blocked
       (lit ''a handed-off run belongs to a definition that is no longer an agent action'')))
     else case rn_session r of
       None \<Rightarrow> reporting (settle d (rn_id r) (RO_Unknown
         (lit ''the handed-off run lost its session identity; its effect cannot be observed'')))
     | Some session \<Rightarrow>
         handling (dp_connect d (sd_workspace s))
           (\<lambda>e. observation_lost d r now (lit ''could not connect: '' @ e))
           (\<lambda>_. handling (dp_snapshot d (sd_workspace s) session)
              (\<lambda>e. observation_lost d r now (lit ''snapshot failed: '' @ client_error_text e))
              (judge_agent d now r s session)))"

definition reconcile_agent_runs ::
  "('j, 'r) dispatcher \<Rightarrow> instant \<Rightarrow> ('r, schedule_error, schedule_run_state list) call" where
  "reconcile_agent_runs d now w =
     (case with_definitions (dp_env d) (w_db w) (handed_off_runs (w_db w)) of
        Inl e \<Rightarrow> (Inl e, w)
      | Inr xs \<Rightarrow> observe_each (observe_agent d now) xs [] w)"

section \<open>A pass\<close>

record dispatch_summary =
  ds_recovered :: nat
  ds_skipped :: nat
  ds_missed :: nat
  ds_claimed :: nat
  ds_succeeded :: nat
  ds_submitted :: nat
  ds_failed :: nat
  ds_unknown :: nat
  ds_handed_off :: nat
  ds_cancelled :: nat
  ds_waiting_approval :: nat
  ds_blocked :: nat

definition no_summary :: dispatch_summary where
  "no_summary = \<lparr>ds_recovered = 0, ds_skipped = 0, ds_missed = 0, ds_claimed = 0, ds_succeeded = 0, ds_submitted = 0,
     ds_failed = 0, ds_unknown = 0, ds_handed_off = 0, ds_cancelled = 0, ds_waiting_approval = 0, ds_blocked = 0\<rparr>"

fun record_state :: "schedule_run_state \<Rightarrow> dispatch_summary \<Rightarrow> dispatch_summary" where
  "record_state RS_Succeeded s = s\<lparr>ds_succeeded := Suc (ds_succeeded s)\<rparr>"
| "record_state RS_Submitted s = s\<lparr>ds_submitted := Suc (ds_submitted s)\<rparr>"
| "record_state RS_Failed s = s\<lparr>ds_failed := Suc (ds_failed s)\<rparr>"
| "record_state RS_Unknown s = s\<lparr>ds_unknown := Suc (ds_unknown s)\<rparr>"
| "record_state RS_Dispatching s = s\<lparr>ds_unknown := Suc (ds_unknown s)\<rparr>"
| "record_state RS_Skipped s = s\<lparr>ds_skipped := Suc (ds_skipped s)\<rparr>"
| "record_state RS_WaitingApproval s = s\<lparr>ds_waiting_approval := Suc (ds_waiting_approval s)\<rparr>"
| "record_state RS_Blocked s = s\<lparr>ds_blocked := Suc (ds_blocked s)\<rparr>"
| "record_state RS_Cancelled s = s\<lparr>ds_cancelled := Suc (ds_cancelled s)\<rparr>"
| "record_state RS_Running s = s\<lparr>ds_handed_off := Suc (ds_handed_off s)\<rparr>"

text \<open>A pass up to the moment its claims start to run.\<close>

definition open_pass ::
  "('j, 'r) dispatcher \<Rightarrow> nat \<Rightarrow> ('r, schedule_error, dispatch_summary \<times> 'j claim list) call" where
  "open_pass d limit =
     timed d (\<lambda>opened.
       try_then (on_store (recover_expired (dp_env d) opened)) (\<lambda>recovered.
       try_then (reconcile_agent_runs d opened) (\<lambda>agents.
       try_then (reconcile_shell_runs d opened) (\<lambda>shells.
       timed d (\<lambda>now.
         try_then (on_store (ensure_horizon (dp_env d) now)) (\<lambda>_.
         try_then (on_store (reconcile_overlaps (dp_env d) now)) (\<lambda>skipped.
         try_then (on_store (reconcile_misfires (dp_env d) now)) (\<lambda>missed.
         try_then (on_store (claim_due (dp_env d) now (dp_lease d) limit)) (\<lambda>claims.
         let s = fold record_state (agents @ shells) (no_summary\<lparr>ds_recovered := length recovered\<rparr>)
         in returning (s\<lparr>ds_skipped := ds_skipped s + skipped, ds_missed := missed, ds_claimed := length claims\<rparr>, claims))))))))))"

end
