(* ===== verification/Schedule_Store_Correct.thy ===== *)
theory Schedule_Store_Correct
  imports Schedule_Store
begin

text \<open>
  The schedule store under any interleaving of its transactions: the tables stay
  consistent, a slot is claimed at most once, a settled run is final and the overlap
  policy bounds the runs that are active at a time.
\<close>

section \<open>Interleavings\<close>

datatype store_tx =
    Tx_Create definition_row instant instant
  | Tx_Delete rstr
  | Tx_Enable rstr bool instant
  | Tx_Revoke rstr instant
  | Tx_Update rstr int "definition_row \<Rightarrow> definition_row" instant "instant option"
  | Tx_Run_Now rstr instant
  | Tx_Slot rstr instant instant
  | Tx_Bind rstr rstr instant
  | Tx_Skip rstr rstr rstr instant
  | Tx_Miss rstr
  | Tx_Claim rstr rstr instant duration
  | Tx_Recover rstr instant
  | Tx_Session rstr rstr
  | Tx_Delivered rstr instant
  | Tx_Running rstr rstr instant
  | Tx_Cancel rstr instant
  | Tx_Cancel_Issued rstr instant
  | Tx_Renew rstr instant duration
  | Tx_Hand_Off rstr int "int option" "usage_snapshot option" instant instant
  | Tx_Release rstr instant
  | Tx_Finish rstr run_outcome run_facts instant

fun exec_tx :: "(nat \<Rightarrow> rstr) \<Rightarrow> store_tx \<Rightarrow> schedule_db \<Rightarrow> schedule_db" where
  "exec_tx gen (Tx_Create row first now) db = insert_definition_tx gen row first now db"
| "exec_tx gen (Tx_Delete did) db = delete_definition_tx did db"
| "exec_tx gen (Tx_Enable did enabled now) db = snd (set_enabled_tx did enabled now db)"
| "exec_tx gen (Tx_Revoke did now) db = snd (revoke_unattended_tx did now db)"
| "exec_tx gen (Tx_Update did revision write now replacement) db =
     snd (update_definition_tx gen did revision write now replacement db)"
| "exec_tx gen (Tx_Run_Now did now) db = snd (insert_run_now_tx gen did now db)"
| "exec_tx gen (Tx_Slot did slot now) db = snd (insert_slot_tx gen did slot now db)"
| "exec_tx gen (Tx_Bind did session now) db = bind_session_tx did session now db"
| "exec_tx gen (Tx_Skip oid did slot now) db = snd (skip_tx gen oid did slot now db)"
| "exec_tx gen (Tx_Miss oid) db = snd (miss_tx oid db)"
| "exec_tx gen (Tx_Claim oid did now lease) db = snd (claim_tx gen oid did now lease db)"
| "exec_tx gen (Tx_Recover oid now) db = snd (recover_tx oid now db)"
| "exec_tx gen (Tx_Session rid session) db = snd (mark_session rid session db)"
| "exec_tx gen (Tx_Delivered rid now) db = snd (mark_delivered rid now db)"
| "exec_tx gen (Tx_Running rid execution now) db = snd (mark_running rid execution now db)"
| "exec_tx gen (Tx_Cancel rid now) db = snd (request_cancel rid now db)"
| "exec_tx gen (Tx_Cancel_Issued rid now) db = snd (mark_cancel_issued rid now db)"
| "exec_tx gen (Tx_Renew oid now lease) db = snd (renew_lease oid now lease db)"
| "exec_tx gen (Tx_Hand_Off rid baseline ordinal usage deadline now) db =
     snd (mark_handed_off rid baseline ordinal usage deadline now db)"
| "exec_tx gen (Tx_Release rid deadline) db = snd (release_shell_observation rid deadline db)"
| "exec_tx gen (Tx_Finish rid outcome facts now) db = snd (finish_tx rid outcome facts now db)"

text \<open>A claim and a skip name an occurrence with the definition that was read beside it.\<close>

definition belongs :: "schedule_db \<Rightarrow> rstr \<Rightarrow> rstr \<Rightarrow> bool" where
  "belongs db oid did \<longleftrightarrow> (\<forall>x \<in> set (db_occurrences db). oc_id x = oid \<longrightarrow> oc_definition x = did)"

fun well_read :: "store_tx \<Rightarrow> schedule_db \<Rightarrow> bool" where
  "well_read (Tx_Skip oid did slot now) db = belongs db oid did"
| "well_read (Tx_Claim oid did now lease) db = belongs db oid did"
| "well_read _ db = True"

inductive store_run :: "(nat \<Rightarrow> rstr) \<Rightarrow> schedule_db \<Rightarrow> store_tx list \<Rightarrow> schedule_db \<Rightarrow> bool" for gen where
  rest: "store_run gen db [] db"
| move: "well_read t db \<Longrightarrow> store_run gen (exec_tx gen t db) ts db' \<Longrightarrow> store_run gen db (t # ts) db'"

inductive_cases rest_elim: "store_run gen db [] db'"
inductive_cases move_elim: "store_run gen db (t # ts) db'"

lemma store_run_append: "store_run gen db ts db' \<Longrightarrow> store_run gen db' us db'' \<Longrightarrow> store_run gen db (ts @ us) db''"
  by (induction rule: store_run.induct) (auto intro: store_run.intros)

section \<open>Updates\<close>

lemma set_update_where: "set (update_where p f xs) = {y. \<exists>x \<in> set xs. y = (if p x then f x else x)}"
  by (auto simp: update_where_def)

lemma map_update_where:
  assumes "\<And>x. p x \<Longrightarrow> g (f x) = g x"
  shows "map g (update_where p f xs) = map g xs"
  using assms by (simp add: update_where_def)

lemma update_where_none: "\<not> list_ex p xs \<Longrightarrow> update_where p f xs = xs"
  by (induction xs) (auto simp: update_where_def)

lemma filter_update_where:
  assumes "\<And>x. p x \<Longrightarrow> q (f x) = q x"
  shows "length (filter q (update_where p f xs)) = length (filter q xs)"
  using assms by (induction xs) (auto simp: update_where_def)

section \<open>Consistency\<close>

text \<open>A run and the occurrence it answers: the occurrence has left pending, and it is
  still claimed exactly while the run is active.\<close>

definition linked :: "occurrence_row \<Rightarrow> run_row \<Rightarrow> bool" where
  "linked x r \<longleftrightarrow> oc_id x = rn_occurrence r \<and> oc_definition x = rn_definition r
     \<and> oc_state x \<noteq> OS_Pending \<and> oc_state x \<noteq> OS_Missed \<and> (oc_state x = OS_Claimed \<longleftrightarrow> active r)"

definition identities :: "schedule_db \<Rightarrow> rstr set" where
  "identities db = dr_id ` set (db_definitions db) \<union> oc_id ` set (db_occurrences db) \<union> rn_id ` set (db_runs db)"

definition store_ok :: "(nat \<Rightarrow> rstr) \<Rightarrow> schedule_db \<Rightarrow> bool" where
  "store_ok gen db \<longleftrightarrow>
     distinct (map dr_id (db_definitions db)) \<and> distinct (map oc_id (db_occurrences db))
   \<and> distinct (map rn_id (db_runs db)) \<and> distinct (map rn_occurrence (db_runs db))
   \<and> distinct (map (\<lambda>x. (oc_definition x, oc_scheduled_for x)) (db_occurrences db))
   \<and> oc_definition ` set (db_occurrences db) \<subseteq> dr_id ` set (db_definitions db)
   \<and> (\<forall>r \<in> set (db_runs db). \<exists>x \<in> set (db_occurrences db). linked x r)
   \<and> (\<forall>x \<in> set (db_occurrences db). oc_state x \<noteq> OS_Pending \<longrightarrow> oc_state x \<noteq> OS_Missed \<longrightarrow>
        oc_id x \<in> rn_occurrence ` set (db_runs db))
   \<and> identities db \<subseteq> gen ` {..<db_minted db}"

lemma store_okI:
  assumes "distinct (map dr_id (db_definitions db))" and "distinct (map oc_id (db_occurrences db))"
    and "distinct (map rn_id (db_runs db))" and "distinct (map rn_occurrence (db_runs db))"
    and "distinct (map (\<lambda>x. (oc_definition x, oc_scheduled_for x)) (db_occurrences db))"
    and "oc_definition ` set (db_occurrences db) \<subseteq> dr_id ` set (db_definitions db)"
    and "\<And>r. r \<in> set (db_runs db) \<Longrightarrow> \<exists>x \<in> set (db_occurrences db). linked x r"
    and "\<And>x. x \<in> set (db_occurrences db) \<Longrightarrow> oc_state x \<noteq> OS_Pending \<Longrightarrow> oc_state x \<noteq> OS_Missed \<Longrightarrow>
           oc_id x \<in> rn_occurrence ` set (db_runs db)"
    and "identities db \<subseteq> gen ` {..<db_minted db}"
  shows "store_ok gen db"
  unfolding store_ok_def using assms by (intro conjI ballI impI)

lemma store_okD:
  assumes "store_ok gen db"
  shows "distinct (map dr_id (db_definitions db))" and "distinct (map oc_id (db_occurrences db))"
    and "distinct (map rn_id (db_runs db))" and "distinct (map rn_occurrence (db_runs db))"
    and "distinct (map (\<lambda>x. (oc_definition x, oc_scheduled_for x)) (db_occurrences db))"
    and "oc_definition ` set (db_occurrences db) \<subseteq> dr_id ` set (db_definitions db)"
    and "r \<in> set (db_runs db) \<Longrightarrow> \<exists>x \<in> set (db_occurrences db). linked x r"
    and "x \<in> set (db_occurrences db) \<Longrightarrow> oc_state x \<noteq> OS_Pending \<Longrightarrow> oc_state x \<noteq> OS_Missed \<Longrightarrow>
           oc_id x \<in> rn_occurrence ` set (db_runs db)"
    and "identities db \<subseteq> gen ` {..<db_minted db}"
  using assms unfolding store_ok_def by blast+

lemma same_occurrence:
  "store_ok gen db \<Longrightarrow> x \<in> set (db_occurrences db) \<Longrightarrow> y \<in> set (db_occurrences db) \<Longrightarrow> oc_id x = oc_id y \<Longrightarrow> x = y"
  using store_okD(2) by (fastforce simp: distinct_map inj_on_def)

lemma same_run:
  "store_ok gen db \<Longrightarrow> x \<in> set (db_runs db) \<Longrightarrow> y \<in> set (db_runs db) \<Longrightarrow> rn_id x = rn_id y \<Longrightarrow> x = y"
  using store_okD(3) by (fastforce simp: distinct_map inj_on_def)

lemma same_slot_run:
  "store_ok gen db \<Longrightarrow> x \<in> set (db_runs db) \<Longrightarrow> y \<in> set (db_runs db) \<Longrightarrow> rn_occurrence x = rn_occurrence y \<Longrightarrow> x = y"
  using store_okD(4) by (fastforce simp: distinct_map inj_on_def)

lemma run_linked:
  assumes "store_ok gen db" and "r \<in> set (db_runs db)" and "x \<in> set (db_occurrences db)" and "oc_id x = rn_occurrence r"
  shows "linked x r"
proof -
  obtain y where y: "y \<in> set (db_occurrences db)" "linked y r" using store_okD(7) [OF assms(1,2)] by blast
  then have "y = x" using same_occurrence [OF assms(1) y(1) assms(3)] assms(4) by (simp add: linked_def)
  with y(2) show ?thesis by simp
qed

lemma fresh_identity:
  assumes "inj gen" and "store_ok gen db" and "db_minted db \<le> n"
  shows "gen n \<notin> identities db"
proof
  assume "gen n \<in> identities db"
  then obtain m where "m < db_minted db" "gen n = gen m" using store_okD(9) [OF assms(2)] by auto
  with assms(1,3) show False by (simp add: inj_eq)
qed

text \<open>What consistency looks at: columns that mere bookkeeping leaves alone.\<close>

definition occ_view :: "occurrence_row \<Rightarrow> rstr \<times> rstr \<times> int \<times> occurrence_state" where
  "occ_view x = (oc_id x, oc_definition x, oc_scheduled_for x, oc_state x)"

definition run_view :: "run_row \<Rightarrow> rstr \<times> rstr \<times> rstr \<times> bool" where
  "run_view r = (rn_id r, rn_occurrence r, rn_definition r, active r)"

definition same_view :: "schedule_db \<Rightarrow> schedule_db \<Rightarrow> bool" where
  "same_view db db' \<longleftrightarrow> map dr_id (db_definitions db') = map dr_id (db_definitions db)
     \<and> map occ_view (db_occurrences db') = map occ_view (db_occurrences db)
     \<and> map run_view (db_runs db') = map run_view (db_runs db) \<and> db_minted db' = db_minted db"

lemma map_through: "map v xs = map v ys \<Longrightarrow> (\<And>x. f x = g (v x)) \<Longrightarrow> map f xs = map f ys"
  by (metis (no_types, lifting) list.map_comp map_eq_conv comp_apply)

lemma view_member: "map v xs = map v ys \<Longrightarrow> x \<in> set xs \<Longrightarrow> \<exists>y \<in> set ys. v y = v x"
  by (metis (no_types, lifting) image_iff list.set_map)

lemma linked_view: "linked x r \<Longrightarrow> occ_view x = occ_view y \<Longrightarrow> run_view r = run_view s \<Longrightarrow> linked y s"
  by (simp add: linked_def occ_view_def run_view_def)

lemma store_ok_view:
  assumes "store_ok gen db" and "same_view db db'"
  shows "store_ok gen db'"
proof -
  have d: "map dr_id (db_definitions db') = map dr_id (db_definitions db)"
    and o: "map occ_view (db_occurrences db') = map occ_view (db_occurrences db)"
    and r: "map run_view (db_runs db') = map run_view (db_runs db)"
    and m: "db_minted db' = db_minted db"
    using assms(2) unfolding same_view_def by blast+
  have oid: "map oc_id (db_occurrences db') = map oc_id (db_occurrences db)"
    by (rule map_through [OF o, where g = fst]) (simp add: occ_view_def)
  have odef: "map oc_definition (db_occurrences db') = map oc_definition (db_occurrences db)"
    by (rule map_through [OF o, where g = "\<lambda>p. fst (snd p)"]) (simp add: occ_view_def)
  have okey: "map (\<lambda>x. (oc_definition x, oc_scheduled_for x)) (db_occurrences db')
      = map (\<lambda>x. (oc_definition x, oc_scheduled_for x)) (db_occurrences db)"
    by (rule map_through [OF o, where g = "\<lambda>p. (fst (snd p), fst (snd (snd p)))"]) (simp add: occ_view_def)
  have rid: "map rn_id (db_runs db') = map rn_id (db_runs db)"
    by (rule map_through [OF r, where g = fst]) (simp add: run_view_def)
  have rocc: "map rn_occurrence (db_runs db') = map rn_occurrence (db_runs db)"
    by (rule map_through [OF r, where g = "\<lambda>p. fst (snd p)"]) (simp add: run_view_def)
  have ids: "dr_id ` set (db_definitions db') = dr_id ` set (db_definitions db)"
      "oc_id ` set (db_occurrences db') = oc_id ` set (db_occurrences db)"
      "rn_id ` set (db_runs db') = rn_id ` set (db_runs db)"
      "rn_occurrence ` set (db_runs db') = rn_occurrence ` set (db_runs db)"
      "oc_definition ` set (db_occurrences db') = oc_definition ` set (db_occurrences db)"
    unfolding set_map [symmetric] d oid rid rocc odef by (rule refl)+
  show ?thesis
  proof (rule store_okI)
    fix s assume "s \<in> set (db_runs db')"
    then obtain r0 where r0: "r0 \<in> set (db_runs db)" "run_view r0 = run_view s" using view_member [OF r] by blast
    then obtain x where x: "x \<in> set (db_occurrences db)" "linked x r0" using store_okD(7) [OF assms(1)] by blast
    then obtain y where "y \<in> set (db_occurrences db')" "occ_view y = occ_view x" using view_member [OF o [symmetric]] by blast
    then show "\<exists>x \<in> set (db_occurrences db'). linked x s" using linked_view [OF x(2)] r0(2) by metis
  next
    fix y assume y: "y \<in> set (db_occurrences db')" "oc_state y \<noteq> OS_Pending" "oc_state y \<noteq> OS_Missed"
    then obtain x where x: "x \<in> set (db_occurrences db)" "occ_view x = occ_view y" using view_member [OF o] by blast
    then have "oc_id x \<in> rn_occurrence ` set (db_runs db)"
      using y by (intro store_okD(8) [OF assms(1)]) (simp_all add: occ_view_def)
    then show "oc_id y \<in> rn_occurrence ` set (db_runs db')" using x(2) ids(4) by (simp add: occ_view_def)
  next
    show "identities db' \<subseteq> gen ` {..<db_minted db'}"
      using store_okD(9) [OF assms(1)] unfolding identities_def ids m .
  qed (unfold d oid rid rocc okey ids, (rule store_okD [OF assms(1)])+)
qed

section \<open>Bookkeeping\<close>

lemma same_view_refl [simp]: "same_view db db"
  by (simp add: same_view_def)

lemma same_view_trans: "same_view db db' \<Longrightarrow> same_view db' db'' \<Longrightarrow> same_view db db''"
  by (simp add: same_view_def)

lemma same_view_runs:
  "(\<And>r. p r \<Longrightarrow> run_view (f r) = run_view r) \<Longrightarrow> same_view db (snd (update_runs p f db))"
  by (simp add: same_view_def update_runs_def map_update_where)

lemma same_view_occurrences:
  "(\<And>x. p x \<Longrightarrow> occ_view (f x) = occ_view x) \<Longrightarrow>
     same_view db (db\<lparr>db_occurrences := update_where p f (db_occurrences db)\<rparr>)"
  by (simp add: same_view_def map_update_where)

lemma same_view_definitions:
  "(\<And>r. p r \<Longrightarrow> dr_id (f r) = dr_id r) \<Longrightarrow>
     same_view db (db\<lparr>db_definitions := update_where p f (db_definitions db)\<rparr>)"
  by (simp add: same_view_def map_update_where)

lemma same_view_clear: "same_view db' (clear_lease db rid db')"
  unfolding clear_lease_def by (rule same_view_occurrences) (simp add: occ_view_def)

lemma bookkeeping_view:
  "same_view db (snd (set_enabled_tx did e now db))"
  "same_view db (snd (revoke_unattended_tx did now db))"
  "same_view db (bind_session_tx did session now db)"
  "same_view db (snd (mark_session rid session db))"
  "same_view db (snd (mark_delivered rid now db))"
  "same_view db (snd (request_cancel rid now db))"
  "same_view db (snd (mark_cancel_issued rid now db))"
  "same_view db (snd (renew_lease oid now lease db))"
  by (simp_all add: set_enabled_tx_def revoke_unattended_tx_def bind_session_tx_def mark_session_def mark_delivered_def
      request_cancel_def mark_cancel_issued_def renew_lease_def Let_def same_view_definitions
      same_view_occurrences occ_view_def run_view_def dispatching_id_def active_id_def active_def same_view_runs)

lemma running_view: "same_view db (snd (mark_running rid execution now db))"
  unfolding mark_running_def
  by (rule same_view_runs) (simp add: run_view_def dispatching_id_def active_def)

lemma hand_off_view:
  "same_view db (snd (mark_handed_off rid baseline ordinal usage deadline now db))"
proof -
  let ?f = "\<lambda>r. r\<lparr>rn_state := RS_Running, rn_delivered_at := coalesce (rn_delivered_at r) (Some (timestamp_millis now)),
      rn_running_at := coalesce (rn_running_at r) (Some (timestamp_millis now)),
      rn_handed_off_at := Some (timestamp_millis now), rn_deadline_at := Some (timestamp_millis deadline),
      rn_baseline_sequence := Some baseline, rn_turn_ordinal := ordinal, rn_task_sequence := None,
      rn_task_outcome := None, rn_usage_baseline := usage\<rparr>"
  have "same_view db (snd (update_runs (dispatching_id rid) ?f db))"
    by (rule same_view_runs) (simp add: run_view_def dispatching_id_def active_def)
  then show ?thesis
    by (auto simp: mark_handed_off_def Let_def split: prod.splits intro: same_view_trans [OF _ same_view_clear])
qed

lemma release_view: "same_view db (snd (release_shell_observation rid deadline db))"
proof -
  have "same_view db (snd (update_runs (\<lambda>r. active_id rid r \<and> rn_delivered_at r \<noteq> None)
      (\<lambda>r. r\<lparr>rn_deadline_at := Some (timestamp_millis deadline)\<rparr>) db))"
    by (rule same_view_runs) (simp add: run_view_def active_def)
  then show ?thesis
    by (auto simp: release_shell_observation_def split: prod.splits intro: same_view_trans [OF _ same_view_clear])
qed

section \<open>Rows that come and go\<close>

lemma identities_subset:
  assumes "store_ok gen db" and "identities db' \<subseteq> insert (gen (db_minted db)) (identities db)"
    and "db_minted db' = Suc (db_minted db)"
  shows "identities db' \<subseteq> gen ` {..<db_minted db'}"
proof
  fix i assume "i \<in> identities db'"
  with assms(2) have "i = gen (db_minted db) \<or> i \<in> gen ` {..<db_minted db}"
    using store_okD(9) [OF assms(1)] by blast
  then show "i \<in> gen ` {..<db_minted db'}" using assms(3) by (auto simp: less_Suc_eq)
qed

lemma add_definition_ok:
  assumes "inj gen" and "store_ok gen db" and "dr_id r = gen (db_minted db)"
  shows "store_ok gen (db\<lparr>db_definitions := db_definitions db @ [r], db_minted := Suc (db_minted db)\<rparr>)" (is "store_ok gen ?db")
proof (rule store_okI)
  show "distinct (map dr_id (db_definitions ?db))"
    using store_okD(1) [OF assms(2)] fresh_identity [OF assms(1,2) order_refl] assms(3) by (auto simp: identities_def)
  show "identities ?db \<subseteq> gen ` {..<db_minted ?db}"
    by (rule identities_subset [OF assms(2)]) (use assms(3) in \<open>auto simp: identities_def\<close>)
qed (use store_okD [OF assms(2)] in auto)

lemma add_occurrence_ok:
  assumes "inj gen" and "store_ok gen db" and "did \<in> dr_id ` set (db_definitions db)" and "\<not> taken db did slot"
  shows "store_ok gen (db\<lparr>db_occurrences := db_occurrences db @ [new_occurrence (gen (db_minted db)) did slot n c],
           db_minted := Suc (db_minted db)\<rparr>)" (is "store_ok gen ?db")
proof (rule store_okI)
  show "distinct (map oc_id (db_occurrences ?db))"
    using store_okD(2) [OF assms(2)] fresh_identity [OF assms(1,2) order_refl]
    by (auto simp: identities_def new_occurrence_def)
  show "distinct (map (\<lambda>x. (oc_definition x, oc_scheduled_for x)) (db_occurrences ?db))"
    using store_okD(5) [OF assms(2)] assms(4) by (auto simp: taken_def list_ex_iff new_occurrence_def)
  show "identities ?db \<subseteq> gen ` {..<db_minted ?db}"
    by (rule identities_subset [OF assms(2)]) (auto simp: identities_def new_occurrence_def)
  show "oc_definition ` set (db_occurrences ?db) \<subseteq> dr_id ` set (db_definitions ?db)"
    using store_okD(6) [OF assms(2)] assms(3) by (auto simp: new_occurrence_def)
  show "oc_id x \<in> rn_occurrence ` set (db_runs ?db)"
    if "x \<in> set (db_occurrences ?db)" "oc_state x \<noteq> OS_Pending" "oc_state x \<noteq> OS_Missed" for x
    using that store_okD(8) [OF assms(2)] by (auto simp: new_occurrence_def)
  show "\<exists>x \<in> set (db_occurrences ?db). linked x r" if "r \<in> set (db_runs ?db)" for r
    using that store_okD(7) [OF assms(2), of r] by auto
qed (use store_okD(1,3,4) [OF assms(2)] in simp_all)

lemma distinct_map_filter_weaken: "distinct (map f xs) \<Longrightarrow> distinct (map f (filter p xs))"
  by (rule distinct_map_filter)

lemma drop_pending_ok:
  assumes "store_ok gen db"
  shows "store_ok gen (db\<lparr>db_occurrences := filter (\<lambda>x. \<not> generated_pending did x) (db_occurrences db)\<rparr>)"
    (is "store_ok gen ?db")
proof (rule store_okI)
  show "\<exists>x \<in> set (db_occurrences ?db). linked x r" if r: "r \<in> set (db_runs ?db)" for r
  proof -
    obtain x where "x \<in> set (db_occurrences db)" "linked x r" using r store_okD(7) [OF assms, of r] by auto
    then show ?thesis by (auto simp: linked_def generated_pending_def)
  qed
  show "oc_id x \<in> rn_occurrence ` set (db_runs ?db)"
    if "x \<in> set (db_occurrences ?db)" "oc_state x \<noteq> OS_Pending" "oc_state x \<noteq> OS_Missed" for x
    using that store_okD(8) [OF assms, of x] by simp
qed (use store_okD [OF assms] in \<open>auto simp: identities_def intro: distinct_map_filter\<close>)

lemma delete_definition_ok:
  assumes "store_ok gen db"
  shows "store_ok gen (delete_definition_tx did db)" (is "store_ok gen ?db")
proof (rule store_okI)
  show "\<exists>x \<in> set (db_occurrences ?db). linked x r" if r: "r \<in> set (db_runs ?db)" for r
  proof -
    obtain x where x: "x \<in> set (db_occurrences db)" "linked x r"
      using r store_okD(7) [OF assms, of r] by (auto simp: delete_definition_tx_def Let_def)
    with r show ?thesis by (auto simp: linked_def delete_definition_tx_def Let_def)
  qed
  show "oc_id x \<in> rn_occurrence ` set (db_runs ?db)"
    if x: "x \<in> set (db_occurrences ?db)" "oc_state x \<noteq> OS_Pending" "oc_state x \<noteq> OS_Missed" for x
  proof -
    have x': "x \<in> set (db_occurrences db)" "oc_definition x \<noteq> did"
      using x(1) by (simp_all add: delete_definition_tx_def Let_def)
    then obtain r where r: "r \<in> set (db_runs db)" "rn_occurrence r = oc_id x"
      using store_okD(8) [OF assms, of x] x by auto
    then have "linked x r" by (intro run_linked [OF assms r(1) x'(1)]) simp
    then have "rn_definition r \<noteq> did" using x'(2) by (simp add: linked_def)
    moreover have "oc_id x \<noteq> oc_id z" if "z \<in> set (db_occurrences db)" "oc_definition z = did" for z
      using same_occurrence [OF assms x'(1) that(1)] that(2) x'(2) by blast
    ultimately have "r \<in> set (db_runs ?db)" using r by (auto simp: delete_definition_tx_def Let_def)
    with r(2) show ?thesis by force
  qed
qed (use store_okD [OF assms] in
    \<open>auto simp: delete_definition_tx_def Let_def identities_def intro: distinct_map_filter\<close>)

text \<open>A pending slot consumed with a run of its own: a skip or a claim.\<close>

definition consumed :: "(nat \<Rightarrow> rstr) \<Rightarrow> rstr \<Rightarrow> (occurrence_row \<Rightarrow> occurrence_row) \<Rightarrow> run_row \<Rightarrow> schedule_db \<Rightarrow> schedule_db" where
  "consumed gen oid f r db =
     db\<lparr>db_occurrences := update_where (pending_id oid) f (db_occurrences db), db_runs := db_runs db @ [r],
       db_minted := Suc (db_minted db)\<rparr>"

lemma consumed_ok:
  assumes gen: "inj gen" and ok: "store_ok gen db" and p: "x0 \<in> set (db_occurrences db)" "pending_id oid x0"
    and b: "belongs db oid did"
    and r: "rn_id r = gen (db_minted db)" "rn_occurrence r = oid" "rn_definition r = did"
    and f: "\<And>x. pending_id oid x \<Longrightarrow> oc_id (f x) = oc_id x \<and> oc_definition (f x) = oc_definition x
        \<and> oc_scheduled_for (f x) = oc_scheduled_for x \<and> oc_state (f x) \<noteq> OS_Pending \<and> oc_state (f x) \<noteq> OS_Missed
        \<and> (oc_state (f x) = OS_Claimed \<longleftrightarrow> active r)"
  shows "store_ok gen (consumed gen oid f r db)" (is "store_ok gen ?db")
proof -
  have keep: "map oc_id (db_occurrences ?db) = map oc_id (db_occurrences db)"
    "map oc_definition (db_occurrences ?db) = map oc_definition (db_occurrences db)"
    "map (\<lambda>x. (oc_definition x, oc_scheduled_for x)) (db_occurrences ?db)
       = map (\<lambda>x. (oc_definition x, oc_scheduled_for x)) (db_occurrences db)"
    by (simp_all add: consumed_def map_update_where f)
  have sets: "oc_id ` set (db_occurrences ?db) = oc_id ` set (db_occurrences db)"
    "oc_definition ` set (db_occurrences ?db) = oc_definition ` set (db_occurrences db)"
    unfolding set_map [symmetric] keep by (rule refl)+
  have no_run: "oid \<notin> rn_occurrence ` set (db_runs db)"
  proof
    assume "oid \<in> rn_occurrence ` set (db_runs db)"
    then obtain s x where "x \<in> set (db_occurrences db)" "linked x s" "rn_occurrence s = oid"
      using store_okD(7) [OF ok] by blast
    then show False using same_occurrence [OF ok p(1)] p(2) by (auto simp: linked_def pending_id_def)
  qed
  have lift: "\<exists>y \<in> set (db_occurrences ?db). y = (if pending_id oid x then f x else x)"
    if "x \<in> set (db_occurrences db)" for x
    using that by (auto simp: consumed_def set_update_where)
  show ?thesis
  proof (rule store_okI)
    show "\<exists>x \<in> set (db_occurrences ?db). linked x s" if s: "s \<in> set (db_runs ?db)" for s
    proof (cases "s = r")
      case True
      have "linked (f x0) r" using p b r f [OF p(2)] by (simp add: linked_def pending_id_def belongs_def)
      then show ?thesis using lift [OF p(1)] p(2) True by auto
    next
      case False
      then obtain x where x: "x \<in> set (db_occurrences db)" "linked x s"
        using s store_okD(7) [OF ok, of s] by (auto simp: consumed_def)
      then show ?thesis using lift [OF x(1)] by (auto simp: linked_def pending_id_def)
    qed
    show "oc_id y \<in> rn_occurrence ` set (db_runs ?db)"
      if y: "y \<in> set (db_occurrences ?db)" "oc_state y \<noteq> OS_Pending" "oc_state y \<noteq> OS_Missed" for y
    proof -
      obtain x where x: "x \<in> set (db_occurrences db)" "y = (if pending_id oid x then f x else x)"
        using y(1) by (auto simp: consumed_def set_update_where)
      show ?thesis
      proof (cases "pending_id oid x")
        case True
        then show ?thesis using x(2) f [OF True] r(2) by (simp add: consumed_def pending_id_def)
      next
        case False
        then show ?thesis using x y store_okD(8) [OF ok, of x] by (simp add: consumed_def)
      qed
    qed
    show "identities ?db \<subseteq> gen ` {..<db_minted ?db}"
      by (rule identities_subset [OF ok]) (use r(1) sets in \<open>auto simp: identities_def consumed_def\<close>)
    show "distinct (map rn_id (db_runs ?db))"
      using store_okD(3) [OF ok] fresh_identity [OF gen ok order_refl] r(1)
      by (auto simp: consumed_def identities_def)
    show "distinct (map rn_occurrence (db_runs ?db))"
      using store_okD(4) [OF ok] no_run r(2) by (auto simp: consumed_def)
    show "oc_definition ` set (db_occurrences ?db) \<subseteq> dr_id ` set (db_definitions ?db)"
      using store_okD(6) [OF ok] unfolding sets by (simp add: consumed_def)
  qed (use store_okD(1,2,5) [OF ok] keep in \<open>simp_all add: consumed_def\<close>)
qed

text \<open>An active run settled with its claimed occurrence: a finish or a recovery.\<close>

definition settled ::
  "(run_row \<Rightarrow> bool) \<Rightarrow> (run_row \<Rightarrow> run_row) \<Rightarrow> (occurrence_row \<Rightarrow> bool) \<Rightarrow> (occurrence_row \<Rightarrow> occurrence_row)
     \<Rightarrow> schedule_db \<Rightarrow> schedule_db" where
  "settled p g q f db =
     db\<lparr>db_occurrences := update_where q f (db_occurrences db), db_runs := update_where p g (db_runs db)\<rparr>"

lemma settled_ok:
  assumes ok: "store_ok gen db" and r: "r \<in> set (db_runs db)" "active r"
    and p: "\<And>s. s \<in> set (db_runs db) \<Longrightarrow> p s \<longleftrightarrow> s = r" and g: "run_view (g r) = (rn_id r, rn_occurrence r, rn_definition r, False)"
    and q: "\<And>x. x \<in> set (db_occurrences db) \<Longrightarrow> q x \<longleftrightarrow> claimed_id (rn_occurrence r) x"
    and f: "\<And>x. q x \<Longrightarrow> oc_id (f x) = oc_id x \<and> oc_definition (f x) = oc_definition x
        \<and> oc_scheduled_for (f x) = oc_scheduled_for x \<and> oc_state (f x) \<notin> {OS_Pending, OS_Missed, OS_Claimed}"
  shows "store_ok gen (settled p g q f db)" (is "store_ok gen ?db")
proof -
  have keep: "map oc_id (db_occurrences ?db) = map oc_id (db_occurrences db)"
    "map oc_definition (db_occurrences ?db) = map oc_definition (db_occurrences db)"
    "map (\<lambda>x. (oc_definition x, oc_scheduled_for x)) (db_occurrences ?db)
       = map (\<lambda>x. (oc_definition x, oc_scheduled_for x)) (db_occurrences db)"
    by (simp_all add: settled_def map_update_where f)
  have runs: "db_runs ?db = map (\<lambda>s. if s = r then g s else s) (db_runs db)"
    using p by (simp add: settled_def update_where_def)
  have keep_runs: "map rn_id (db_runs ?db) = map rn_id (db_runs db)"
    "map rn_occurrence (db_runs ?db) = map rn_occurrence (db_runs db)"
    using g unfolding runs by (auto simp: run_view_def)
  have sets: "oc_id ` set (db_occurrences ?db) = oc_id ` set (db_occurrences db)"
    "oc_definition ` set (db_occurrences ?db) = oc_definition ` set (db_occurrences db)"
    "rn_id ` set (db_runs ?db) = rn_id ` set (db_runs db)"
    "rn_occurrence ` set (db_runs ?db) = rn_occurrence ` set (db_runs db)"
    unfolding set_map [symmetric] keep keep_runs by (rule refl)+
  have lift: "\<exists>y \<in> set (db_occurrences ?db). y = (if q x then f x else x)" if "x \<in> set (db_occurrences db)" for x
    using that by (auto simp: settled_def set_update_where)
  show ?thesis
  proof (rule store_okI)
    show "\<exists>x \<in> set (db_occurrences ?db). linked x s" if s: "s \<in> set (db_runs ?db)" for s
    proof -
      obtain s0 where s0: "s0 \<in> set (db_runs db)" "s = (if s0 = r then g s0 else s0)" using s unfolding runs by auto
      obtain x where x: "x \<in> set (db_occurrences db)" "linked x s0" using store_okD(7) [OF ok s0(1)] by blast
      show ?thesis
      proof (cases "s0 = r")
        case True
        then have "q x" using x r(2) q [OF x(1)] by (simp add: linked_def claimed_id_def)
        moreover have "linked (f x) s" using x(2) f [OF \<open>q x\<close>] g s0(2) True by (auto simp: linked_def run_view_def)
        ultimately show ?thesis using lift [OF x(1)] by auto
      next
        case False
        then have "rn_occurrence s0 \<noteq> rn_occurrence r" using same_slot_run [OF ok s0(1) r(1)] by blast
        then have "\<not> q x" using q [OF x(1)] x(2) by (simp add: linked_def claimed_id_def)
        then show ?thesis using lift [OF x(1)] x(2) s0(2) False by auto
      qed
    qed
    show "oc_id y \<in> rn_occurrence ` set (db_runs ?db)"
      if y: "y \<in> set (db_occurrences ?db)" "oc_state y \<noteq> OS_Pending" "oc_state y \<noteq> OS_Missed" for y
    proof -
      obtain x where x: "x \<in> set (db_occurrences db)" "y = (if q x then f x else x)"
        using y(1) by (auto simp: settled_def set_update_where)
      have "oc_id y = oc_id x" using x(2) f by simp
      moreover have "oc_state x \<noteq> OS_Pending" "oc_state x \<noteq> OS_Missed"
        using x y q [OF x(1)] by (auto simp: claimed_id_def split: if_splits)
      ultimately show ?thesis using store_okD(8) [OF ok x(1)] unfolding sets by simp
    qed
    show "identities ?db \<subseteq> gen ` {..<db_minted ?db}"
      using store_okD(9) [OF ok] unfolding identities_def sets by (simp add: settled_def)
    show "oc_definition ` set (db_occurrences ?db) \<subseteq> dr_id ` set (db_definitions ?db)"
      using store_okD(6) [OF ok] unfolding sets by (simp add: settled_def)
    show "distinct (map dr_id (db_definitions ?db))" using store_okD(1) [OF ok] by (simp add: settled_def)
  qed (unfold keep keep_runs, (rule store_okD [OF ok])+)
qed

section \<open>Every transaction keeps the store consistent\<close>

lemma taken_definition:
  "store_ok gen db \<Longrightarrow> taken db did slot \<Longrightarrow> did \<in> dr_id ` set (db_definitions db)"
  using store_okD(6) [of gen db] by (auto simp: taken_def list_ex_iff)

lemma insert_definition_ok:
  assumes "inj gen" and "store_ok gen db"
  shows "store_ok gen (insert_definition_tx gen row first now db)"
proof -
  let ?did = "gen (db_minted db)"
  let ?r = "row\<lparr>dr_id := ?did, dr_session_id := None, dr_enabled := 1,
      dr_created_at := timestamp_millis now, dr_updated_at := timestamp_millis now\<rparr>"
  let ?db = "db\<lparr>db_definitions := db_definitions db @ [?r], db_minted := Suc (db_minted db)\<rparr>"
  have ok: "store_ok gen ?db" by (rule add_definition_ok [OF assms]) simp
  have "\<not> taken ?db ?did slot" for slot
  proof
    assume "taken ?db ?did slot"
    then have "taken db ?did slot" by (simp add: taken_def)
    then have "?did \<in> identities db" using taken_definition [OF assms(2)] by (simp add: identities_def)
    then show False using fresh_identity [OF assms order_refl] by simp
  qed
  from add_occurrence_ok [OF assms(1) ok _ this, of "timestamp_millis first" False "timestamp_millis now"] show ?thesis
    by (simp add: insert_definition_tx_def Let_def)
qed

lemma update_definition_ok:
  assumes "inj gen" and "store_ok gen db"
  shows "store_ok gen (snd (update_definition_tx gen did revision write now replacement db))"
proof -
  let ?p = "\<lambda>r. dr_id r = did \<and> dr_updated_at r = revision"
  let ?db1 = "db\<lparr>db_definitions := update_where ?p
      (\<lambda>r. (write r)\<lparr>dr_id := dr_id r, dr_updated_at := timestamp_millis now\<rparr>) (db_definitions db)\<rparr>"
  let ?db2 = "?db1\<lparr>db_occurrences := filter (\<lambda>x. \<not> generated_pending did x) (db_occurrences ?db1)\<rparr>"
  have view: "same_view db ?db1" by (rule same_view_definitions) simp
  have ok1: "store_ok gen ?db1" by (rule store_ok_view [OF assms(2) view])
  have ok2: "store_ok gen ?db2" by (rule drop_pending_ok [OF ok1])
  show ?thesis
  proof (cases "list_ex ?p (db_definitions db)")
    case True
    have "set (map dr_id (db_definitions ?db1)) = set (map dr_id (db_definitions db))"
      using view unfolding same_view_def by (simp only:)
    moreover have "did \<in> set (map dr_id (db_definitions db))" using True by (auto simp: list_ex_iff)
    ultimately have known: "did \<in> dr_id ` set (db_definitions ?db2)" by simp
    show ?thesis
    proof (cases replacement)
      case None
      then show ?thesis using True ok1 by (simp add: update_definition_tx_def Let_def)
    next
      case (Some first)
      show ?thesis
      proof (cases "taken ?db2 did (timestamp_millis first)")
        case True
        then show ?thesis using Some assms(2) by (simp add: update_definition_tx_def Let_def)
      next
        case False
        from add_occurrence_ok [OF assms(1) ok2 known False, of False "timestamp_millis now"] show ?thesis
          using True Some False by (simp add: update_definition_tx_def Let_def)
      qed
    qed
  qed (use assms(2) in \<open>simp add: update_definition_tx_def Let_def\<close>)
qed

lemma skip_ok:
  assumes "inj gen" and "store_ok gen db" and "belongs db oid did"
  shows "store_ok gen (snd (skip_tx gen oid did slot now db))"
proof (cases "list_ex (pending_id oid) (db_occurrences db)")
  case True
  then obtain x where "x \<in> set (db_occurrences db)" "pending_id oid x" by (auto simp: list_ex_iff)
  from consumed_ok [OF assms(1,2) this assms(3), where f = "\<lambda>x. x\<lparr>oc_state := OS_Skipped\<rparr>"
      and r = "(new_run (gen (db_minted db)) oid did RS_Skipped (timestamp_millis now))
                 \<lparr>rn_error := Some (skip_reason slot), rn_finished_at := Some (timestamp_millis now)\<rparr>"]
  show ?thesis using True by (simp add: skip_tx_def consumed_def new_run_def active_def)
qed (use assms(2) in \<open>simp add: skip_tx_def\<close>)

lemma claim_ok:
  assumes "inj gen" and "store_ok gen db" and "belongs db oid did"
  shows "store_ok gen (snd (claim_tx gen oid did now lease db))"
proof (cases "list_ex (pending_id oid) (db_occurrences db) \<and> overlap_admits db did")
  case True
  then obtain x where "x \<in> set (db_occurrences db)" "pending_id oid x" by (auto simp: list_ex_iff)
  from consumed_ok [OF assms(1,2) this assms(3), where
      f = "\<lambda>x. x\<lparr>oc_state := OS_Claimed, oc_claimed_at := Some (timestamp_millis now),
             oc_lease := Some (timestamp_millis (lease_until now lease))\<rparr>"
      and r = "new_run (gen (db_minted db)) oid did RS_Dispatching (timestamp_millis now)"]
  show ?thesis using True by (simp add: claim_tx_def consumed_def new_run_def active_def)
next
  case False
  then show ?thesis using assms(2) by (auto simp: claim_tx_def)
qed

lemma miss_ok:
  assumes ok: "store_ok gen db"
  shows "store_ok gen (snd (miss_tx oid db))"
proof (cases "list_ex (pending_id oid) (db_occurrences db)")
  case True
  let ?f = "\<lambda>x. x\<lparr>oc_state := OS_Missed\<rparr>"
  let ?db = "db\<lparr>db_occurrences := update_where (pending_id oid) ?f (db_occurrences db)\<rparr>"
  have keep: "map oc_id (db_occurrences ?db) = map oc_id (db_occurrences db)"
    "map oc_definition (db_occurrences ?db) = map oc_definition (db_occurrences db)"
    "map (\<lambda>x. (oc_definition x, oc_scheduled_for x)) (db_occurrences ?db)
       = map (\<lambda>x. (oc_definition x, oc_scheduled_for x)) (db_occurrences db)"
    by (simp_all add: map_update_where)
  have sets: "oc_id ` set (db_occurrences ?db) = oc_id ` set (db_occurrences db)"
    "oc_definition ` set (db_occurrences ?db) = oc_definition ` set (db_occurrences db)"
    unfolding set_map [symmetric] keep by (rule refl)+
  have "store_ok gen ?db"
  proof (rule store_okI)
    show "\<exists>x \<in> set (db_occurrences ?db). linked x r" if r: "r \<in> set (db_runs ?db)" for r
    proof -
      obtain x where x: "x \<in> set (db_occurrences db)" "linked x r" using r store_okD(7) [OF ok, of r] by auto
      then have "\<not> pending_id oid x" by (simp add: linked_def pending_id_def)
      with x show ?thesis by (auto simp: set_update_where)
    qed
    show "oc_id y \<in> rn_occurrence ` set (db_runs ?db)"
      if y: "y \<in> set (db_occurrences ?db)" "oc_state y \<noteq> OS_Pending" "oc_state y \<noteq> OS_Missed" for y
      using y store_okD(8) [OF ok, of y] by (auto simp: set_update_where split: if_splits)
    show "identities ?db \<subseteq> gen ` {..<db_minted ?db}"
      using store_okD(9) [OF ok] unfolding identities_def sets by simp
    show "oc_definition ` set (db_occurrences ?db) \<subseteq> dr_id ` set (db_definitions ?db)"
      using store_okD(6) [OF ok] unfolding sets by simp
  qed (use store_okD(1-5) [OF ok] keep in simp_all)
  then show ?thesis using True by (simp add: miss_tx_def)
qed (use ok in \<open>simp add: miss_tx_def\<close>)

lemma recover_ok:
  assumes ok: "store_ok gen db"
  shows "store_ok gen (snd (recover_tx oid now db))"
proof (cases "list_ex (claimed_id oid) (db_occurrences db)")
  case True
  then obtain x where x: "x \<in> set (db_occurrences db)" "claimed_id oid x" by (auto simp: list_ex_iff)
  then obtain r where r: "r \<in> set (db_runs db)" "rn_occurrence r = oid"
    using store_okD(8) [OF ok x(1)] by (auto simp: claimed_id_def)
  have "linked x r" using run_linked [OF ok r(1) x(1)] x(2) r(2) by (simp add: claimed_id_def)
  then have a: "active r" using x(2) by (simp add: linked_def claimed_id_def)
  let ?p = "\<lambda>r. rn_occurrence r = oid \<and> active r"
  let ?g = "\<lambda>r. r\<lparr>rn_state := RS_Unknown, rn_error := Some (recovery_error (lost_facts (find ?p (db_runs db)))),
      rn_finished_at := Some (timestamp_millis now)\<rparr>"
  have p: "?p s \<longleftrightarrow> s = r" if "s \<in> set (db_runs db)" for s
    using same_slot_run [OF ok that r(1)] r(2) a by auto
  have "store_ok gen (settled ?p ?g (claimed_id oid) (\<lambda>x. x\<lparr>oc_state := OS_Interrupted\<rparr>) db)"
    by (rule settled_ok [OF ok r(1) a p]) (simp_all add: run_view_def active_def r(2))
  then show ?thesis using True by (simp add: recover_tx_def settled_def Let_def)
qed (use ok in \<open>simp add: recover_tx_def\<close>)

lemma find_run:
  assumes "store_ok gen db" and "r \<in> set (db_runs db)"
  shows "find (\<lambda>s. rn_id s = rn_id r) (db_runs db) = Some r"
proof -
  obtain s where s: "find (\<lambda>s. rn_id s = rn_id r) (db_runs db) = Some s"
    using assms(2) by (cases "find (\<lambda>s. rn_id s = rn_id r) (db_runs db)") (auto simp: find_None_iff)
  then have "s \<in> set (db_runs db)" "rn_id s = rn_id r" by (auto simp: find_Some_iff)
  then show ?thesis using same_run [OF assms(1) _ assms(2)] s by blast
qed

lemma finish_ok:
  assumes ok: "store_ok gen db"
  shows "store_ok gen (snd (finish_tx rid outcome facts now db))"
proof (cases "list_ex (active_id rid) (db_runs db)")
  case True
  then obtain r where r: "r \<in> set (db_runs db)" "rn_id r = rid" "active r" by (auto simp: list_ex_iff active_id_def)
  have p: "active_id rid s \<longleftrightarrow> s = r" if "s \<in> set (db_runs db)" for s
    using same_run [OF ok that r(1)] r(2,3) by (auto simp: active_id_def)
  have q: "claimed_by db rid x = claimed_id (rn_occurrence r) x" for x
    using find_run [OF ok r(1)] r(2) by (simp add: claimed_by_def)
  have "store_ok gen (settled (active_id rid) (settle_run outcome facts (timestamp_millis now)) (claimed_by db rid)
      (\<lambda>x. x\<lparr>oc_state := outcome_occurrence_state outcome, oc_lease := None\<rparr>) db)"
    by (rule settled_ok [OF ok r(1,3) p])
      (use q outcome_terminal [of outcome] in
        \<open>auto simp: run_view_def active_def settle_run_def outcome_occurrence_settled\<close>)
  moreover have "snd (finish_tx rid outcome facts now db) = settled (active_id rid)
      (settle_run outcome facts (timestamp_millis now)) (claimed_by db rid)
      (\<lambda>x. x\<lparr>oc_state := outcome_occurrence_state outcome, oc_lease := None\<rparr>) db"
    using True by (cases db) (simp add: finish_tx_def update_runs_def settled_def)
  ultimately show ?thesis by simp
next
  case False
  then show ?thesis using ok by (simp add: finish_tx_def update_runs_def update_where_none)
qed

lemma insert_run_now_ok:
  assumes "inj gen" and "store_ok gen db"
  shows "store_ok gen (snd (insert_run_now_tx gen did now db))"
  using assms(2) add_occurrence_ok [OF assms] by (auto simp: insert_run_now_tx_def Let_def list_ex_iff)

lemma insert_slot_ok:
  assumes "inj gen" and "store_ok gen db"
  shows "store_ok gen (snd (insert_slot_tx gen did slot now db))"
  using assms(2) add_occurrence_ok [OF assms] by (auto simp: insert_slot_tx_def Let_def list_ex_iff)

lemma exec_tx_ok:
  assumes "inj gen" and "store_ok gen db" and "well_read t db"
  shows "store_ok gen (exec_tx gen t db)"
  using assms(3)
  by (cases t)
    (simp_all add: insert_definition_ok update_definition_ok delete_definition_ok skip_ok claim_ok miss_ok recover_ok
      finish_ok insert_run_now_ok insert_slot_ok assms(1,2)
      bookkeeping_view [THEN store_ok_view [OF assms(2)]] running_view [THEN store_ok_view [OF assms(2)]]
      hand_off_view [THEN store_ok_view [OF assms(2)]] release_view [THEN store_ok_view [OF assms(2)]])

lemma store_run_ok: "store_run gen db ts db' \<Longrightarrow> inj gen \<Longrightarrow> store_ok gen db \<Longrightarrow> store_ok gen db'"
  by (induction rule: store_run.induct) (simp_all add: exec_tx_ok)

definition empty_db :: schedule_db where
  "empty_db = \<lparr>db_definitions = [], db_occurrences = [], db_runs = [], db_minted = 0\<rparr>"

lemma empty_ok: "store_ok gen empty_db"
  by (simp add: store_ok_def empty_db_def identities_def)

text \<open>The store as a transition system: its state is the supply of identities, which
  never repeats, with the database.\<close>

definition store_init :: "(nat \<Rightarrow> rstr) \<times> schedule_db \<Rightarrow> bool" where
  "store_init s \<longleftrightarrow> inj (fst s) \<and> snd s = empty_db"

definition store_step :: "(nat \<Rightarrow> rstr) \<times> schedule_db \<Rightarrow> (nat \<Rightarrow> rstr) \<times> schedule_db \<Rightarrow> bool" where
  "store_step s s' \<longleftrightarrow> fst s' = fst s \<and> (\<exists>t. well_read t (snd s) \<and> snd s' = exec_tx (fst s) t (snd s))"

definition store_inv :: "(nat \<Rightarrow> rstr) \<times> schedule_db \<Rightarrow> bool" where
  "store_inv s \<longleftrightarrow> inj (fst s) \<and> store_ok (fst s) (snd s)"

interpretation schedule_store: transition_system store_init store_step store_inv
proof
  show "store_inv s" if "store_init s" for s
    using that by (simp add: store_init_def store_inv_def empty_ok)
  show "store_inv s'" if "store_inv s" "store_step s s'" for s s'
    using that by (auto simp: store_inv_def store_step_def exec_tx_ok)
qed

section \<open>Where rows come from\<close>

text \<open>After a transaction an occurrence is one of before, which is pending only if it was
  pending, or it carries a fresh identity; a run is one of before, unchanged if it was
  settled, or it carries a fresh identity.\<close>

definition occurrence_from :: "schedule_db \<Rightarrow> occurrence_row \<Rightarrow> bool" where
  "occurrence_from db y \<longleftrightarrow> (\<exists>x \<in> set (db_occurrences db). oc_id x = oc_id y \<and> oc_definition x = oc_definition y
     \<and> (oc_state y = OS_Pending \<longrightarrow> oc_state x = OS_Pending))"

definition run_from :: "schedule_db \<Rightarrow> run_row \<Rightarrow> bool" where
  "run_from db s \<longleftrightarrow> (\<exists>r \<in> set (db_runs db). rn_id r = rn_id s \<and> (\<not> active r \<longrightarrow> s = r))"

definition fresh_id :: "(nat \<Rightarrow> rstr) \<Rightarrow> schedule_db \<Rightarrow> rstr \<Rightarrow> bool" where
  "fresh_id gen db i \<longleftrightarrow> (\<exists>n \<ge> db_minted db. i = gen n)"

lemma fresh_next: "fresh_id gen db (gen (db_minted db))" "fresh_id gen db (gen (Suc (db_minted db)))"
  by (auto simp: fresh_id_def intro: exI [of _ "db_minted db"] exI [of _ "Suc (db_minted db)"])

lemma occurrence_from_self: "x \<in> set (db_occurrences db) \<Longrightarrow> occurrence_from db x"
  by (auto simp: occurrence_from_def)

lemma occurrence_from_view:
  assumes "same_view db db'" and "y \<in> set (db_occurrences db')"
  shows "occurrence_from db y"
proof -
  have "map occ_view (db_occurrences db') = map occ_view (db_occurrences db)"
    using assms(1) by (simp add: same_view_def)
  from view_member [OF this assms(2)] show ?thesis by (auto simp: occurrence_from_def occ_view_def)
qed

lemmas viewed_occurrences = bookkeeping_view [THEN occurrence_from_view] running_view [THEN occurrence_from_view]
  hand_off_view [THEN occurrence_from_view] release_view [THEN occurrence_from_view]

lemma occurrence_from_update:
  assumes "y \<in> set (update_where p f (db_occurrences db))"
    and "\<And>x. p x \<Longrightarrow> oc_id (f x) = oc_id x \<and> oc_definition (f x) = oc_definition x
           \<and> (oc_state (f x) = OS_Pending \<longrightarrow> oc_state x = OS_Pending)"
  shows "occurrence_from db y"
  using assms by (auto simp: set_update_where occurrence_from_def split: if_splits)

lemma new_occurrence_id [simp]: "oc_id (new_occurrence i d s n c) = i"
  by (simp add: new_occurrence_def)

lemma occurrence_origin:
  assumes "y \<in> set (db_occurrences (exec_tx gen t db))"
  shows "occurrence_from db y \<or> fresh_id gen db (oc_id y)"
proof (cases t)
  case (Tx_Update did revision wr now replacement)
  let ?db1 = "\<lambda>d. db\<lparr>db_definitions := d\<rparr>"
  show ?thesis
    using assms fresh_next [of gen db]
    by (auto simp: Tx_Update update_definition_tx_def Let_def occurrence_from_self split: if_splits option.splits)
next
  case (Tx_Skip oid did slot now)
  with assms have "y \<in> set (update_where (pending_id oid) (\<lambda>x. x\<lparr>oc_state := OS_Skipped\<rparr>) (db_occurrences db))
      \<or> y \<in> set (db_occurrences db)"
    by (auto simp: skip_tx_def split: if_splits)
  then show ?thesis by (auto intro: occurrence_from_self occurrence_from_update)
next
  case (Tx_Miss oid)
  with assms have "y \<in> set (update_where (pending_id oid) (\<lambda>x. x\<lparr>oc_state := OS_Missed\<rparr>) (db_occurrences db))
      \<or> y \<in> set (db_occurrences db)"
    by (auto simp: miss_tx_def split: if_splits)
  then show ?thesis by (auto intro: occurrence_from_self occurrence_from_update)
next
  case (Tx_Claim oid did now lease)
  with assms have "y \<in> set (update_where (pending_id oid) (\<lambda>x. x\<lparr>oc_state := OS_Claimed,
        oc_claimed_at := Some (timestamp_millis now), oc_lease := Some (timestamp_millis (lease_until now lease))\<rparr>)
        (db_occurrences db)) \<or> y \<in> set (db_occurrences db)"
    by (auto simp: claim_tx_def split: if_splits)
  then show ?thesis by (auto intro: occurrence_from_self occurrence_from_update)
next
  case (Tx_Recover oid now)
  with assms have "y \<in> set (update_where (claimed_id oid) (\<lambda>x. x\<lparr>oc_state := OS_Interrupted\<rparr>) (db_occurrences db))
      \<or> y \<in> set (db_occurrences db)"
    by (auto simp: recover_tx_def Let_def split: if_splits)
  then show ?thesis by (auto intro: occurrence_from_self occurrence_from_update)
next
  case (Tx_Finish rid outcome facts now)
  with assms have "y \<in> set (update_where (claimed_by db rid) (\<lambda>x. x\<lparr>oc_state := outcome_occurrence_state outcome,
        oc_lease := None\<rparr>) (db_occurrences db)) \<or> y \<in> set (db_occurrences db)"
    by (auto simp: finish_tx_def update_runs_def split: if_splits)
  then show ?thesis
    by (elim disjE) (auto simp: outcome_occurrence_settled intro: occurrence_from_self occurrence_from_update)
qed (use assms fresh_next [of gen db] in
    \<open>auto simp: insert_definition_tx_def delete_definition_tx_def insert_run_now_tx_def insert_slot_tx_def Let_def
       intro: occurrence_from_self dest: viewed_occurrences split: if_splits\<close>)

lemma run_from_self: "s \<in> set (db_runs db) \<Longrightarrow> run_from db s"
  by (auto simp: run_from_def)

lemma run_from_update:
  assumes "s \<in> set (update_where p f (db_runs db))"
    and "\<And>r. p r \<Longrightarrow> active r \<and> rn_id (f r) = rn_id r"
  shows "run_from db s"
  using assms by (auto simp: set_update_where run_from_def split: if_splits)

lemma run_from_same: "db_runs db' = db_runs db \<Longrightarrow> s \<in> set (db_runs db') \<Longrightarrow> run_from db s"
  by (simp add: run_from_self)

lemma runs_of_update_runs [simp]: "db_runs (snd (update_runs p f db)) = update_where p f (db_runs db)"
  by (simp add: update_runs_def)

lemma runs_of_clear [simp]: "db_runs (clear_lease db rid db') = db_runs db'"
  by (simp add: clear_lease_def)

lemma new_run_id [simp]: "rn_id (new_run i d s n c) = i"
  by (simp add: new_run_def)

lemma handed_off_run:
  assumes "s \<in> set (db_runs (snd (mark_handed_off rid baseline ordinal usage deadline now db)))"
  shows "\<exists>f. s \<in> set (update_where (dispatching_id rid) f (db_runs db)) \<and> (\<forall>r. rn_id (f r) = rn_id r)"
proof -
  let ?f = "\<lambda>r. r\<lparr>rn_state := RS_Running, rn_delivered_at := coalesce (rn_delivered_at r) (Some (timestamp_millis now)),
      rn_running_at := coalesce (rn_running_at r) (Some (timestamp_millis now)),
      rn_handed_off_at := Some (timestamp_millis now), rn_deadline_at := Some (timestamp_millis deadline),
      rn_baseline_sequence := Some baseline, rn_turn_ordinal := ordinal, rn_task_sequence := None,
      rn_task_outcome := None, rn_usage_baseline := usage\<rparr>"
  have "db_runs (snd (mark_handed_off rid baseline ordinal usage deadline now db))
      = update_where (dispatching_id rid) ?f (db_runs db)"
    by (simp add: mark_handed_off_def Let_def update_runs_def)
  with assms show ?thesis by (intro exI [of _ ?f]) simp
qed

lemma released_runs:
  "db_runs (snd (release_shell_observation rid deadline db))
     = update_where (\<lambda>r. active_id rid r \<and> rn_delivered_at r \<noteq> None)
         (\<lambda>r. r\<lparr>rn_deadline_at := Some (timestamp_millis deadline)\<rparr>) (db_runs db)"
  by (simp add: release_shell_observation_def update_runs_def)

lemma run_origin:
  assumes "s \<in> set (db_runs (exec_tx gen t db))"
  shows "run_from db s \<or> fresh_id gen db (rn_id s)"
proof (cases t)
  case (Tx_Hand_Off rid baseline ordinal usage deadline now)
  then show ?thesis using assms by (auto simp: dispatching_id_def active_def intro: run_from_update dest!: handed_off_run)
next
  case (Tx_Release rid deadline)
  then show ?thesis using assms unfolding Tx_Release exec_tx.simps released_runs
    by (auto simp: active_id_def intro: run_from_update)
next
  case (Tx_Finish rid outcome facts now)
  with assms have "s \<in> set (update_where (active_id rid) (settle_run outcome facts (timestamp_millis now)) (db_runs db))"
    by (auto simp: finish_tx_def update_runs_def split: if_splits)
  then show ?thesis by (auto simp: active_id_def settle_run_def intro: run_from_update)
next
  case (Tx_Recover oid now)
  with assms have "\<exists>f. s \<in> set (update_where (\<lambda>r. rn_occurrence r = oid \<and> active r) f (db_runs db)) \<and> (\<forall>r. rn_id (f r) = rn_id r)
      \<or> s \<in> set (db_runs db)"
    by (auto simp: recover_tx_def Let_def split: if_splits)
  then show ?thesis by (auto intro: run_from_update run_from_self)
next
  case (Tx_Session rid session)
  then show ?thesis using assms by (auto simp: mark_session_def dispatching_id_def active_def intro: run_from_update)
next
  case (Tx_Delivered rid now)
  then show ?thesis using assms by (auto simp: mark_delivered_def dispatching_id_def active_def intro: run_from_update)
next
  case (Tx_Running rid execution now)
  then show ?thesis using assms by (auto simp: mark_running_def dispatching_id_def active_def intro: run_from_update)
next
  case (Tx_Cancel rid now)
  then show ?thesis using assms by (auto simp: request_cancel_def active_id_def intro: run_from_update)
next
  case (Tx_Cancel_Issued rid now)
  then show ?thesis using assms by (auto simp: mark_cancel_issued_def active_id_def intro: run_from_update)
qed (use assms fresh_next [of gen db] in
    \<open>auto simp: insert_definition_tx_def delete_definition_tx_def insert_run_now_tx_def insert_slot_tx_def
       set_enabled_tx_def revoke_unattended_tx_def update_definition_tx_def bind_session_tx_def skip_tx_def miss_tx_def
       claim_tx_def renew_lease_def Let_def intro: run_from_self split: if_splits option.splits\<close>)

lemma minted_grows: "db_minted db \<le> db_minted (exec_tx gen t db)"
  by (cases t)
    (auto simp: insert_definition_tx_def delete_definition_tx_def insert_run_now_tx_def insert_slot_tx_def
       set_enabled_tx_def revoke_unattended_tx_def update_definition_tx_def bind_session_tx_def skip_tx_def miss_tx_def
       claim_tx_def renew_lease_def recover_tx_def finish_tx_def update_runs_def mark_session_def mark_delivered_def
       mark_running_def request_cancel_def mark_cancel_issued_def mark_handed_off_def release_shell_observation_def
       clear_lease_def Let_def split: if_splits option.splits)

section \<open>At most once\<close>

text \<open>The occurrences whose claim succeeds along a run of the store.\<close>

fun claim_of :: "(nat \<Rightarrow> rstr) \<Rightarrow> store_tx \<Rightarrow> schedule_db \<Rightarrow> rstr list" where
  "claim_of gen (Tx_Claim oid did now lease) db =
     (case fst (claim_tx gen oid did now lease db) of None \<Rightarrow> [] | Some _ \<Rightarrow> [oid])"
| "claim_of gen _ db = []"

fun claims :: "(nat \<Rightarrow> rstr) \<Rightarrow> store_tx list \<Rightarrow> schedule_db \<Rightarrow> rstr list" where
  "claims gen [] db = []"
| "claims gen (t # ts) db = claim_of gen t db @ claims gen ts (exec_tx gen t db)"

definition minted_id :: "(nat \<Rightarrow> rstr) \<Rightarrow> schedule_db \<Rightarrow> rstr \<Rightarrow> bool" where
  "minted_id gen db i \<longleftrightarrow> i \<in> gen ` {..<db_minted db}"

lemma minted_not_fresh: "inj gen \<Longrightarrow> minted_id gen db i \<Longrightarrow> \<not> fresh_id gen db i"
  by (auto simp: minted_id_def fresh_id_def dest: injD)

lemma minted_stays: "minted_id gen db i \<Longrightarrow> minted_id gen (exec_tx gen t db) i"
  using minted_grows [of db gen t] by (auto simp: minted_id_def)

text \<open>A slot is spent once no pending row carries its identity.\<close>

definition spent :: "schedule_db \<Rightarrow> rstr \<Rightarrow> bool" where
  "spent db i \<longleftrightarrow> (\<forall>x \<in> set (db_occurrences db). \<not> pending_id i x)"

lemma spent_stays:
  assumes "inj gen" and "minted_id gen db i" and "spent db i"
  shows "spent (exec_tx gen t db) i"
  unfolding spent_def
proof
  fix y assume "y \<in> set (db_occurrences (exec_tx gen t db))"
  then have "occurrence_from db y \<or> fresh_id gen db (oc_id y)" by (rule occurrence_origin)
  then show "\<not> pending_id i y"
    using assms(3) minted_not_fresh [OF assms(1,2)] by (auto simp: occurrence_from_def spent_def pending_id_def)
qed

lemma spent_not_claimed: "spent db i \<Longrightarrow> i \<notin> set (claim_of gen t db)"
  by (cases t) (auto simp: claim_tx_def spent_def list_ex_iff split: if_splits)

lemma spent_never_claimed:
  assumes "inj gen" and "minted_id gen db i" and "spent db i"
  shows "i \<notin> set (claims gen ts db)"
  using assms(2,3)
  by (induction ts arbitrary: db)
    (simp_all add: spent_not_claimed minted_stays spent_stays [OF assms(1)])

lemma claim_of_claim:
  assumes "i \<in> set (claim_of gen t db)"
  obtains did now lease where "t = Tx_Claim i did now lease" "fst (claim_tx gen i did now lease db) \<noteq> None"
proof (cases t)
  case (Tx_Claim oid did now lease)
  have "fst (claim_tx gen oid did now lease db) \<noteq> None" "oid = i"
    using assms unfolding Tx_Claim by (cases "fst (claim_tx gen oid did now lease db)"; simp)+
  then show ?thesis using that Tx_Claim by simp
qed (use assms in simp_all)

lemma claimed_updates: "spent (db\<lparr>db_occurrences := update_where (pending_id i) f xs, db_runs := rs, db_minted := m\<rparr>) i"
  if "\<And>x. pending_id i x \<Longrightarrow> oc_state (f x) \<noteq> OS_Pending" for f
proof -
  have "\<not> pending_id i (if pending_id i x then f x else x)" for x
    using that [of x] by (auto simp: pending_id_def)
  then have "\<forall>y \<in> set (update_where (pending_id i) f xs). \<not> pending_id i y"
    unfolding update_where_def set_map by blast
  then show ?thesis by (simp add: spent_def)
qed

lemma claim_spends:
  assumes "i \<in> set (claim_of gen t db)"
  shows "spent (exec_tx gen t db) i" and "list_ex (pending_id i) (db_occurrences db)"
proof -
  obtain did now lease where t: "t = Tx_Claim i did now lease" "fst (claim_tx gen i did now lease db) \<noteq> None"
    using claim_of_claim [OF assms] .
  then have c: "list_ex (pending_id i) (db_occurrences db) \<and> overlap_admits db did"
    unfolding claim_tx_def by (simp split: if_splits)
  then show "list_ex (pending_id i) (db_occurrences db)" ..
  show "spent (exec_tx gen t db) i" using c by (simp add: t(1) claim_tx_def claimed_updates)
qed

text \<open>
  C6. Delivery is at most once.  Whatever the order in which dispatchers, commands and
  settlements run their transactions, no occurrence is claimed twice: a slot that was
  claimed, skipped, missed, interrupted or settled never becomes claimable again.\<close>

theorem slot_claimed_at_most_once:
  assumes "inj gen" and "store_ok gen db" and "store_run gen db ts db'"
  shows "distinct (claims gen ts db)"
  using assms(3,2)
proof (induction rule: store_run.induct)
  case (move t db ts db')
  have ok: "store_ok gen (exec_tx gen t db)" by (rule exec_tx_ok [OF assms(1) move.prems move.hyps(1)])
  have "i \<notin> set (claims gen ts (exec_tx gen t db))" if i: "i \<in> set (claim_of gen t db)" for i
  proof (rule spent_never_claimed [OF assms(1) _ claim_spends(1) [OF i]])
    have "i \<in> identities db" using claim_spends(2) [OF i] by (auto simp: list_ex_iff pending_id_def identities_def)
    then show "minted_id gen (exec_tx gen t db) i"
      using store_okD(9) [OF move.prems] by (intro minted_stays) (auto simp: minted_id_def)
  qed
  moreover have "distinct (claim_of gen t db)" by (cases t) (simp_all split: option.split)
  ultimately show ?case using move.IH [OF ok] by auto
qed simp

section \<open>Settled runs\<close>

text \<open>
  C13. A settled run is final.  Once a run carries a terminal state, no transaction in any
  order changes a column of it: no late settlement, cancellation, recovery or observation
  rewrites the record.\<close>

theorem settled_run_is_final:
  assumes "inj gen" and "store_ok gen db" and "store_run gen db ts db'" and "r \<in> set (db_runs db)"
    and "is_terminal (rn_state r)" and "s \<in> set (db_runs db')" and "rn_id s = rn_id r"
  shows "s = r"
proof -
  have r: "minted_id gen db (rn_id r)" "\<forall>s \<in> set (db_runs db). rn_id s = rn_id r \<longrightarrow> s = r"
    using store_okD(9) [OF assms(2)] assms(4) same_run [OF assms(2) _ assms(4)]
    by (auto simp: minted_id_def identities_def)
  have "\<not> active r" using assms(5) by (auto simp: active_def)
  from assms(3) r have "\<forall>s \<in> set (db_runs db'). rn_id s = rn_id r \<longrightarrow> s = r"
  proof (induction rule: store_run.induct)
    case (move t db ts db')
    have "s = r" if s: "s \<in> set (db_runs (exec_tx gen t db))" "rn_id s = rn_id r" for s
      using run_origin [OF s(1)] minted_not_fresh [OF assms(1) move.prems(1)] move.prems(2) s(2) \<open>\<not> active r\<close>
      by (auto simp: run_from_def)
    then show ?case using minted_stays [OF move.prems(1)] by (intro move.IH) blast+
  qed
  then show ?thesis using assms(6,7) by blast
qed

section \<open>Overlap\<close>

lemma count_view:
  assumes "map run_view (db_runs db') = map run_view (db_runs db)"
  shows "active_run_count db' did = active_run_count db did"
proof -
  have "active_run_count d did = length (filter (\<lambda>(i, x, e, a). e = did \<and> a) (map run_view (db_runs d)))" for d
    by (simp add: active_run_count_def filter_map comp_def run_view_def active_of_def cong: filter_cong)
  then show ?thesis by (simp only: assms)
qed

lemma runs_untouched:
  "db_runs (insert_definition_tx gen row first now db) = db_runs db"
  "db_runs (snd (insert_run_now_tx gen did now db)) = db_runs db"
  "db_runs (snd (insert_slot_tx gen did slot now db)) = db_runs db"
  "db_runs (snd (miss_tx oid db)) = db_runs db"
  by (simp_all add: insert_definition_tx_def insert_run_now_tx_def insert_slot_tx_def miss_tx_def Let_def)

lemma count_untouched: "db_runs db' = db_runs db \<Longrightarrow> active_run_count db' did = active_run_count db did"
  by (simp add: active_run_count_def)

lemma viewed_count: "same_view db db' \<Longrightarrow> active_run_count db' did = active_run_count db did"
  by (rule count_view) (simp add: same_view_def)

lemma count_settling:
  assumes "\<And>r. p r \<Longrightarrow> \<not> active (f r)"
  shows "length (filter (active_of did) (update_where p f rs)) \<le> length (filter (active_of did) rs)"
  using assms by (induction rs) (auto simp: update_where_def active_of_def)

text \<open>A definition that does not allow concurrent runs.\<close>

definition exclusive :: "schedule_db \<Rightarrow> rstr \<Rightarrow> bool" where
  "exclusive db did \<longleftrightarrow>
     (\<forall>r \<in> set (db_definitions db). dr_id r = did \<longrightarrow> dr_overlap_policy r \<noteq> lit ''allow-concurrent'')"

fun updates :: "rstr \<Rightarrow> store_tx \<Rightarrow> bool" where
  "updates did (Tx_Update d _ _ _ _) = (d = did)"
| "updates did _ = False"

lemma exclusive_stays:
  assumes "inj gen" and "minted_id gen db did" and "exclusive db did" and "\<not> updates did t"
  shows "exclusive (exec_tx gen t db) did"
  using assms minted_not_fresh [OF assms(1,2)] fresh_next [of gen db]
  by (cases t)
    (auto simp: exclusive_def insert_definition_tx_def delete_definition_tx_def insert_run_now_tx_def insert_slot_tx_def
       set_enabled_tx_def revoke_unattended_tx_def update_definition_tx_def bind_session_tx_def skip_tx_def miss_tx_def
       claim_tx_def renew_lease_def recover_tx_def finish_tx_def update_runs_def mark_session_def mark_delivered_def
       mark_running_def request_cancel_def mark_cancel_issued_def mark_handed_off_def release_shell_observation_def
       clear_lease_def set_update_where Let_def split: if_splits option.splits)

lemma no_active_count: "\<not> has_active db did \<longleftrightarrow> active_run_count db did = 0"
  by (auto simp: has_active_def active_run_count_def list_ex_iff filter_empty_conv)

lemma claim_count:
  assumes "exclusive db did"
  shows "active_run_count (snd (claim_tx gen oid d now lease db)) did \<le> max 1 (active_run_count db did)"
proof (cases "list_ex (pending_id oid) (db_occurrences db) \<and> overlap_admits db d")
  case True
  have "active_run_count db did = 0" if "d = did"
    using True assms that by (auto simp: overlap_admits_def list_ex_iff exclusive_def no_active_count)
  then show ?thesis
    using True by (auto simp: claim_tx_def active_run_count_def new_run_def active_of_def)
next
  case False
  then show ?thesis by (auto simp: claim_tx_def)
qed

lemma exec_count:
  assumes "exclusive db did"
  shows "active_run_count (exec_tx gen t db) did \<le> max 1 (active_run_count db did)"
proof (cases t)
  case (Tx_Finish rid outcome facts now)
  have "active_run_count (exec_tx gen t db) did
      = length (filter (active_of did) (update_where (active_id rid) (settle_run outcome facts (timestamp_millis now)) (db_runs db)))"
    by (simp add: Tx_Finish finish_tx_def update_runs_def active_run_count_def)
  also have "\<dots> \<le> active_run_count db did" unfolding active_run_count_def
    by (rule count_settling) (use outcome_terminal [of outcome] in \<open>auto simp: settle_run_def active_def\<close>)
  finally show ?thesis by simp
next
  case (Tx_Recover oid now)
  have "active_run_count (snd (recover_tx oid now db)) did \<le> active_run_count db did"
    unfolding active_run_count_def
    by (auto simp: recover_tx_def Let_def intro!: count_settling) (simp add: active_def)
  then show ?thesis by (simp add: Tx_Recover)
next
  case (Tx_Claim oid d now lease)
  then show ?thesis using claim_count [OF assms] by simp
next
  case (Tx_Delete d)
  have "length (filter (active_of did) (filter p rs)) \<le> length (filter (active_of did) rs)" for p rs
    by (induction rs) auto
  then show ?thesis
    by (simp add: Tx_Delete delete_definition_tx_def Let_def active_run_count_def le_max_iff_disj del: filter_filter)
next
  case (Tx_Skip oid d slot now)
  then show ?thesis by (auto simp: skip_tx_def active_run_count_def new_run_def active_of_def active_def)
next
  case (Tx_Update d revision wr now replacement)
  then show ?thesis
    by (auto simp: update_definition_tx_def Let_def active_run_count_def split: option.splits)
qed (simp_all add: viewed_count [OF bookkeeping_view(1)] viewed_count [OF bookkeeping_view(2)]
    viewed_count [OF bookkeeping_view(3)] viewed_count [OF bookkeeping_view(4)] viewed_count [OF bookkeeping_view(5)]
    viewed_count [OF bookkeeping_view(6)] viewed_count [OF bookkeeping_view(7)] viewed_count [OF bookkeeping_view(8)]
    viewed_count [OF running_view] viewed_count [OF hand_off_view] viewed_count [OF release_view]
    count_untouched [OF runs_untouched(1)] count_untouched [OF runs_untouched(2)]
    count_untouched [OF runs_untouched(3)] count_untouched [OF runs_untouched(4)])

text \<open>
  C14. The overlap policy bounds what runs at a time.  While a definition that skips or
  queues is not re-declared, no order of transactions of any number of dispatchers gives it
  two active runs: the claim that would is refused.\<close>

theorem overlap_bounds_active_runs:
  assumes "inj gen" and "store_run gen db ts db'" and "minted_id gen db did" and "exclusive db did"
    and "\<forall>t \<in> set ts. \<not> updates did t" and "active_run_count db did \<le> 1"
  shows "active_run_count db' did \<le> 1"
  using assms(2-6)
proof (induction rule: store_run.induct)
  case (move t db ts db')
  show ?case
  proof (rule move.IH)
    show "exclusive (exec_tx gen t db) did" using exclusive_stays [OF assms(1)] move.prems by simp
    show "active_run_count (exec_tx gen t db) did \<le> 1"
      using exec_count [OF move.prems(2), of gen t] move.prems(4) by simp
  qed (use move.prems minted_stays in auto)
qed simp

text \<open>A supply of identities and a definition with one slot, created, claimed twice and
  settled.\<close>

definition letters :: "nat \<Rightarrow> rstr" where
  "letters n = replicate n 97"

lemma letters_inj: "inj letters"
  by (rule injI) (metis letters_def length_replicate)

definition demo_row :: definition_row where
  "demo_row = blank_row\<lparr>dr_overlap_policy := lit ''skip-if-running'', dr_misfire_policy := lit ''run-once''\<rparr>"

definition created_db :: schedule_db where
  "created_db = insert_definition_tx letters demo_row 0 0 empty_db"

definition claim_demo :: store_tx where
  "claim_demo = Tx_Claim (letters 1) (letters 0) 0 (secs 120)"

lemma created_ok: "store_ok letters created_db"
  unfolding created_db_def by (rule insert_definition_ok [OF letters_inj empty_ok])

lemma created_occurrences: "db_occurrences created_db = [new_occurrence (letters 1) (letters 0) 0 False 0]"
  by (simp add: created_db_def insert_definition_tx_def Let_def empty_db_def timestamp_millis_def)

lemma created_definitions:
  "db_definitions created_db = [demo_row\<lparr>dr_id := letters 0, dr_session_id := None, dr_enabled := 1,
     dr_created_at := 0, dr_updated_at := 0\<rparr>]"
  by (simp add: created_db_def insert_definition_tx_def Let_def empty_db_def timestamp_millis_def)

lemma created_runs: "db_runs created_db = []" "db_minted created_db = 2"
  by (simp_all add: created_db_def insert_definition_tx_def Let_def empty_db_def)

lemma claim_well_read: "well_read claim_demo (exec_tx letters claim_demo created_db)" "well_read claim_demo created_db"
  by (auto simp: claim_demo_def claim_tx_def belongs_def created_occurrences set_update_where new_occurrence_def
      split: if_splits)

lemma claimed_twice: "store_run letters created_db [claim_demo, claim_demo]
    (exec_tx letters claim_demo (exec_tx letters claim_demo created_db))"
  by (intro store_run.intros claim_well_read)

theorem slot_claimed_at_most_once_witness:
  "distinct (claims letters [claim_demo, claim_demo] created_db)"
  by (rule slot_claimed_at_most_once [OF letters_inj created_ok claimed_twice])

definition skipped_db :: schedule_db where
  "skipped_db = exec_tx letters (Tx_Skip (letters 1) (letters 0) (lit ''t'') 0) created_db"

lemma skipped_ok: "store_ok letters skipped_db"
  unfolding skipped_db_def
  by (rule exec_tx_ok [OF letters_inj created_ok]) (simp add: belongs_def created_occurrences new_occurrence_def)

lemma skipped_runs: "db_runs skipped_db = [(new_run (letters 2) (letters 1) (letters 0) RS_Skipped 0)
    \<lparr>rn_error := Some (skip_reason (lit ''t'')), rn_finished_at := Some 0\<rparr>]"
  by (simp add: skipped_db_def skip_tx_def created_occurrences created_runs pending_id_def new_occurrence_def
      timestamp_millis_def)

lemma cancel_run: "store_run letters skipped_db [Tx_Cancel (letters 2) 0] (exec_tx letters (Tx_Cancel (letters 2) 0) skipped_db)"
  by (intro store_run.intros) simp

theorem settled_run_is_final_witness:
  "hd (db_runs (exec_tx letters (Tx_Cancel (letters 2) 0) skipped_db)) = hd (db_runs skipped_db)"
  by (rule settled_run_is_final [OF letters_inj skipped_ok cancel_run])
    (simp_all add: skipped_runs request_cancel_def update_where_def active_id_def active_def new_run_def)

theorem overlap_bounds_active_runs_witness:
  "active_run_count (exec_tx letters claim_demo (exec_tx letters claim_demo created_db)) (letters 0) \<le> 1"
  by (rule overlap_bounds_active_runs [OF letters_inj claimed_twice])
    (auto simp: minted_id_def created_runs exclusive_def created_definitions demo_row_def claim_demo_def
      active_run_count_def)

end
