(* ===== verification/Schedule_Rule_Correct.thy ===== *)
theory Schedule_Rule_Correct
  imports Schedule_Rule
begin

text \<open>
  What the trigger rules promise: an interval stays on its anchor's grid, a calendar rule
  names the first instant of its slots after now under the daylight-saving policy of the
  module, and the stored text forms of local times and weekday sets read back.
\<close>

section \<open>Intervals\<close>

definition on_grid :: "instant \<Rightarrow> duration \<Rightarrow> instant \<Rightarrow> bool" where
  "on_grid anchor every g \<longleftrightarrow> (\<exists>k::nat. g = anchor + int k * int (as_secs every) * sec_ns)"

lemma grid_successor:
  fixes s q r :: int
  assumes "0 < s" and "0 \<le> q" and "0 \<le> r" and "r < sec_ns"
  shows "q * sec_ns + r < (q div s + 1) * s * sec_ns"
    and "(q + (s - q mod s)) * sec_ns = (q div s + 1) * s * sec_ns"
    and "q * sec_ns + r < j * s * sec_ns \<Longrightarrow> (q div s + 1) * s * sec_ns \<le> j * s * sec_ns"
proof -
  have e: "(q div s + 1) * s = q - q mod s + s" by (simp add: distrib_right minus_mod_eq_div_mult)
  have m: "q mod s < s" "0 \<le> q mod s" using assms(1) by simp_all
  show "q * sec_ns + r < (q div s + 1) * s * sec_ns" unfolding e using m assms(4) by (simp add: algebra_simps)
  show "(q + (s - q mod s)) * sec_ns = (q div s + 1) * s * sec_ns" unfolding e by (simp add: algebra_simps)
  assume "q * sec_ns + r < j * s * sec_ns"
  with assms(3) have "q < j * s" by linarith
  moreover have "q div s * s \<le> q" using m e by (simp add: distrib_right)
  ultimately have "\<not> j \<le> q div s"
    using mult_right_mono [of j "q div s" s] assms(1) by linarith
  then show "(q div s + 1) * s * sec_ns \<le> j * s * sec_ns"
    using mult_right_mono [of "q div s + 1" j "s * sec_ns"] assms(1) by (simp add: mult.assoc)
qed

text \<open>An interval keeps to its anchor.  After an instant not before the anchor, the
  next occurrence is the first point of the anchor's grid that lies strictly after it,
  plus the part of a second by which the instant itself is off the anchor: exact on
  whole seconds, and never a whole second late, however late the previous run was.  Before the
  anchor the next occurrence is the anchor.\<close>

theorem interval_keeps_grid:
  assumes "0 < as_secs every" and "as_secs every \<le> 366 * 24 * 60 * 60"
  shows "\<exists>n g. next_after cal (Every anchor every) now = Inr (Some n) \<and> now < n \<and>
           on_grid anchor every g \<and> now < g \<and> (\<forall>h. on_grid anchor every h \<and> now < h \<longrightarrow> g \<le> h) \<and>
           n = (if now < anchor then g else g + (now - anchor) mod sec_ns)"
proof (cases "now < anchor")
  case True
  have "on_grid anchor every anchor" by (auto simp: on_grid_def intro: exI [of _ 0])
  moreover have "anchor \<le> h" if "on_grid anchor every h" for h
    using that by (auto simp: on_grid_def)
  ultimately show ?thesis using True assms by (auto simp: next_after_def)
next
  case False
  define s q r where "s = int (as_secs every)" and "q = (now - anchor) div sec_ns"
    and "r = (now - anchor) mod sec_ns"
  define g where "g = anchor + (q div s + 1) * s * sec_ns"
  have pos: "0 < s" "0 \<le> q" "0 \<le> r" "r < sec_ns" and now: "now = anchor + (q * sec_ns + r)"
    using assms(1) False by (simp_all add: s_def q_def r_def pos_imp_zdiv_nonneg_iff)
  note succ = grid_successor [OF pos]
  have "0 \<le> q div s" using pos by (simp add: pos_imp_zdiv_nonneg_iff)
  then have "on_grid anchor every g"
    by (auto simp: on_grid_def g_def s_def intro!: exI [of _ "nat (q div s + 1)"])
  moreover have "now < g" using succ(1) by (simp add: now g_def)
  moreover have "g \<le> h" if "on_grid anchor every h" "now < h" for h
    using that succ(3) unfolding on_grid_def now g_def s_def [symmetric] by force
  moreover have "num_seconds (now - anchor) = q" using False by (simp add: num_seconds_def q_def)
  then have "next_after cal (Every anchor every) now = Inr (Some (now + (s - q mod s) * sec_ns))"
    using assms False by (simp add: next_after_def s_def)
  moreover have "now + (s - q mod s) * sec_ns = g + r"
    using succ(2) by (simp add: g_def now distrib_right)
  ultimately show ?thesis using False pos by (intro exI [of _ "g + r"] exI [of _ g]) (auto simp: r_def)
qed

section \<open>Calendar rules\<close>

text \<open>How the wall clock of a zone behaves in the fortnight around an instant \<open>b\<close>, which
  is all a search started at \<open>b\<close> looks at.  No offset reaches a day, the bound of
  chrono's \<open>FixedOffset\<close>.  In the fortnight the offsets differ by at most twenty hours,
  which leaves out the weeks in which a zone moves across the date line.  The instant
  reported for a local time on a whole minute is the first that shows it, of two the
  earlier; a time that is not shown lies in a gap of at most three hours that ends
  on a whole minute.  Nothing is asked of the clock's history before.\<close>

definition near :: "instant \<Rightarrow> instant \<Rightarrow> bool" where
  "near b t \<longleftrightarrow> b - 3 * day_ns \<le> t \<and> t \<le> b + 13 * day_ns"

text \<open>The first instant to show a local time or anything later, of the two days before it.\<close>

definition first_reached :: "zone \<Rightarrow> int \<Rightarrow> instant \<Rightarrow> bool" where
  "first_reached z n v \<longleftrightarrow>
     n \<le> zn_local z v \<and> (\<forall>t. v - 2 * day_ns \<le> t \<and> t < v \<longrightarrow> zn_local z t < n)"

fun resolves :: "zone \<Rightarrow> int \<Rightarrow> local_result \<Rightarrow> bool" where
  "resolves z n (LR_Single v) = (zn_local z v = n \<and> first_reached z n v)"
| "resolves z n (LR_Ambiguous e _) = (zn_local z e = n \<and> first_reached z n e)"
| "resolves z n LR_None = (\<exists>k \<in> {1..<181::nat}. zn_from_local z (n + int k * minute_ns) \<noteq> LR_None \<and>
     (\<forall>t. \<not> (n \<le> zn_local z t \<and> zn_local z t < n + int k * minute_ns)))"

definition queried :: "zone \<Rightarrow> instant \<Rightarrow> int \<Rightarrow> bool" where
  "queried z b n \<longleftrightarrow>
     n mod minute_ns = 0 \<and> zn_local z b - day_ns \<le> n \<and> n \<le> zn_local z b + 10 * day_ns"

definition zone_ok :: "zone \<Rightarrow> instant \<Rightarrow> bool" where
  "zone_ok z b \<longleftrightarrow>
     (\<forall>t. \<bar>zn_local z t - t\<bar> < day_ns) \<and>
     (\<forall>t u. near b t \<and> near b u \<longrightarrow> (zn_local z t - t) - (zn_local z u - u) \<le> 20 * 60 * minute_ns) \<and>
     (\<forall>n. queried z b n \<longrightarrow> resolves z n (zn_from_local z n))"

lemma zone_okD:
  assumes "zone_ok z b" and "queried z b n"
  shows "zn_from_local z n = LR_Single v \<Longrightarrow> zn_local z v = n \<and> first_reached z n v"
    and "zn_from_local z n = LR_Ambiguous v w \<Longrightarrow> zn_local z v = n \<and> first_reached z n v"
    and "zn_from_local z n = LR_None \<Longrightarrow> \<exists>k \<in> {1..<181::nat}. zn_from_local z (n + int k * minute_ns) \<noteq> LR_None \<and>
            (\<forall>t. \<not> (n \<le> zn_local z t \<and> zn_local z t < n + int k * minute_ns))"
proof -
  have "resolves z n (zn_from_local z n)" using assms by (simp add: zone_ok_def)
  then show "zn_from_local z n = LR_Single v \<Longrightarrow> zn_local z v = n \<and> first_reached z n v"
    and "zn_from_local z n = LR_Ambiguous v w \<Longrightarrow> zn_local z v = n \<and> first_reached z n v"
    and "zn_from_local z n = LR_None \<Longrightarrow> \<exists>k \<in> {1..<181::nat}. zn_from_local z (n + int k * minute_ns) \<noteq> LR_None \<and>
            (\<forall>t. \<not> (n \<le> zn_local z t \<and> zn_local z t < n + int k * minute_ns))"
    by simp_all
qed

lemma offset_bound:
  assumes "zone_ok z b"
  shows "zn_local z t < t + day_ns" and "t - day_ns < zn_local z t"
proof -
  have "\<bar>zn_local z t - t\<bar> < day_ns" using assms by (simp add: zone_ok_def)
  then show "zn_local z t < t + day_ns" and "t - day_ns < zn_local z t" by linarith+
qed

lemma near_self [simp]: "near b b"
  by (simp add: near_def)

lemma offset_change:
  assumes "zone_ok z b" and "near b t" and "near b u"
  shows "zn_local z t - t \<le> zn_local z u - u + 20 * 60 * minute_ns"
proof -
  have "(zn_local z t - t) - (zn_local z u - u) \<le> 20 * 60 * minute_ns"
    using assms by (simp add: zone_ok_def)
  then show ?thesis by simp
qed

text \<open>An instant whose local time is near that of \<open>b\<close> is near \<open>b\<close>.\<close>

lemma near_by_local:
  assumes "zone_ok z b" and "zn_local z b - day_ns \<le> zn_local z v" and "zn_local z v \<le> zn_local z b + 10 * day_ns"
  shows "near b v" and "v \<le> b + 12 * day_ns"
  using offset_bound [OF assms(1), of v] offset_bound [OF assms(1), of b] assms(2,3)
  by (simp_all add: near_def)

text \<open>Within the fortnight nothing before the first instant has reached the time.\<close>

lemma not_reached_before:
  assumes "zone_ok z b" and "first_reached z n v" and "near b v" and "near b t" and "t < v"
  shows "zn_local z t < n"
proof (cases "v - 2 * day_ns \<le> t")
  case True
  then show ?thesis using assms(2,5) by (simp add: first_reached_def)
next
  case False
  have "near b (v - 1)" using assms(3,4) False by (simp add: near_def)
  from offset_change [OF assms(1,4) this] have "zn_local z t < zn_local z (v - 1)"
    using False by simp
  also have "zn_local z (v - 1) < n" using assms(2) by (simp add: first_reached_def)
  finally show ?thesis .
qed

lemma queried_later:
  assumes "queried z b n" and "n + int k * minute_ns \<le> zn_local z b + 10 * day_ns"
  shows "queried z b (n + int k * minute_ns)"
proof -
  have "0 \<le> int k * minute_ns" by simp
  with assms show ?thesis unfolding queried_def by auto
qed

lemma probe_first:
  assumes "zone_ok z b" and "queried z b n" and "n + 181 * minute_ns \<le> zn_local z b + 10 * day_ns"
    and "n div day_ns < MAX_DATE"
    and "\<forall>t. \<not> (n \<le> zn_local z t \<and> zn_local z t < n + int k * minute_ns)"
    and "zn_from_local z (n + int k * minute_ns) \<noteq> LR_None"
    and "i \<le> k" and "k < 181"
  shows "\<exists>v. probe z n [i..<181] = Some v \<and> zn_local z v = n + int k * minute_ns \<and>
             first_reached z (n + int k * minute_ns) v"
  using assms(7)
proof (induction "k - i" arbitrary: i)
  case 0
  then have [simp]: "i = k" by simp
  have "(n + int k * minute_ns) div day_ns \<le> MAX_DATE" using assms(4,8) by auto
  moreover have "queried z b (n + int k * minute_ns)"
    by (rule queried_later [OF assms(2)]) (use assms(3,8) in simp)
  ultimately show ?case
    using zone_okD [OF assms(1), of "n + int k * minute_ns"] assms(6,8)
    by (auto simp: upt_conv_Cons split: local_result.splits)
next
  case (Suc m)
  then have less: "i < k" by simp
  have q: "queried z b (n + int i * minute_ns)"
    by (rule queried_later [OF assms(2)]) (use assms(3,8) less in simp)
  have "(n + int i * minute_ns) div day_ns \<le> MAX_DATE" using assms(4,8) less by auto
  moreover have "zn_from_local z (n + int i * minute_ns) = LR_None"
  proof (cases "zn_from_local z (n + int i * minute_ns)")
    case (LR_Single v)
    then have "zn_local z v = n + int i * minute_ns" using zone_okD(1) [OF assms(1) q] by blast
    then show ?thesis using spec [OF assms(5), of v] less by simp
  next
    case (LR_Ambiguous v w)
    then have "zn_local z v = n + int i * minute_ns" using zone_okD(2) [OF assms(1) q] by blast
    then show ?thesis using spec [OF assms(5), of v] less by simp
  qed simp
  moreover have "m = k - Suc i" "Suc i \<le> k" using Suc.hyps(2) less by auto
  ultimately show ?case
    using Suc.hyps(1) [of "Suc i"] less assms(8) by (simp add: upt_conv_Cons)
qed

text \<open>The slot of a date: the first instant, of the two days before it, at which the wall
  clock of the zone has reached the time of day on that date.\<close>

definition slot_of :: "zone \<Rightarrow> local_time \<Rightarrow> int \<Rightarrow> instant \<Rightarrow> bool" where
  "slot_of z time d v = first_reached z (naive_time d time) v"

definition time_ok :: "local_time \<Rightarrow> bool" where
  "time_ok t \<longleftrightarrow> lt_hour t < 24 \<and> lt_minute t < 60"

lemma naive_time_bounds:
  assumes "time_ok t"
  shows "d * day_ns \<le> naive_time d t" and "naive_time d t < (d + 1) * day_ns"
    and "naive_time d t mod minute_ns = 0" and "naive_time d t div day_ns = d"
proof -
  have "int (lt_hour t) * 60 + int (lt_minute t) < 1440" using assms by (simp add: time_ok_def)
  then show 1: "d * day_ns \<le> naive_time d t" and 2: "naive_time d t < (d + 1) * day_ns"
    by (simp_all add: naive_time_def distrib_right)
  have "naive_time d t = (d * 1440 + (int (lt_hour t) * 60 + int (lt_minute t))) * minute_ns"
    by (simp add: naive_time_def)
  then show "naive_time d t mod minute_ns = 0" by (metis mod_mult_self2_is_0)
  show "naive_time d t div day_ns = d" using 1 2 by (simp add: div_pos_geq int_div_pos_eq [of _ _ d "naive_time d t - d * day_ns"])
qed

lemma first_reached_mono:
  assumes "zone_ok z b" and "first_reached z n v" and "first_reached z m w" and "n \<le> m"
    and "near b v" and "near b w"
  shows "v \<le> w"
proof (rule ccontr)
  assume "\<not> v \<le> w"
  then have "zn_local z w < n" using not_reached_before [OF assms(1,2,5,6)] by simp
  with assms(3,4) show False by (simp add: first_reached_def)
qed

lemma first_reached_unique:
  "zone_ok z b \<Longrightarrow> first_reached z n v \<Longrightarrow> first_reached z n w \<Longrightarrow> near b v \<Longrightarrow> near b w \<Longrightarrow> v = w"
  using first_reached_mono [of z b n v n w] first_reached_mono [of z b n w n v] by simp

lemma local_day: "local_date b z * day_ns \<le> zn_local z b" "zn_local z b < (local_date b z + 1) * day_ns"
  by (simp_all add: local_date_def)

text \<open>The days of the search lie in the fortnight.\<close>

lemma day_queried:
  assumes "time_ok t" and "local_date b z \<le> d" and "d \<le> local_date b z + 8"
  shows "queried z b (naive_time d t)" and "naive_time d t + 181 * minute_ns \<le> zn_local z b + 10 * day_ns"
proof -
  have "local_date b z * day_ns \<le> d * day_ns" "(d + 1) * day_ns \<le> (local_date b z + 9) * day_ns"
    using assms(2,3) by (simp_all add: mult_right_mono)
  then have "zn_local z b - day_ns \<le> naive_time d t" "naive_time d t + 181 * minute_ns \<le> zn_local z b + 10 * day_ns"
    using naive_time_bounds(1,2) [OF assms(1), of d] local_day(1) [of b z] local_day(2) [of z b] by (simp_all add: distrib_right)
  then show "queried z b (naive_time d t)" and "naive_time d t + 181 * minute_ns \<le> zn_local z b + 10 * day_ns"
    using naive_time_bounds(3) [OF assms(1), of d] by (simp_all add: queried_def)
qed

lemma resolve_slot:
  assumes "zone_ok z b" and "time_ok t" and "d < MAX_DATE"
    and "local_date b z \<le> d" and "d \<le> local_date b z + 8"
  shows "\<exists>v. resolve_local d t z = Some v \<and> slot_of z t d v \<and> near b v \<and> v \<le> b + 12 * day_ns"
proof -
  note nb = naive_time_bounds [OF assms(2), of d]
  note q = day_queried [OF assms(2,4,5)]
  have hm: "\<not> (lt_hour t > 23 \<or> lt_minute t > 59)" using assms(2) by (simp add: time_ok_def)
  have shown: "near b v \<and> v \<le> b + 12 * day_ns"
    if "zn_local z v = naive_time d t + int k * minute_ns" "k < 181" for v k
  proof -
    have "0 \<le> int k * minute_ns" "int k * minute_ns \<le> 181 * minute_ns" using that(2) by simp_all
    then show ?thesis
      using near_by_local [OF assms(1), of v] q that(1) unfolding queried_def by linarith
  qed
  show ?thesis
  proof (cases "zn_from_local z (naive_time d t)")
    case LR_None
    from zone_okD(3) [OF assms(1) q(1) LR_None] obtain k where
      k: "1 \<le> k" "k < 181" "zn_from_local z (naive_time d t + int k * minute_ns) \<noteq> LR_None"
        "\<forall>u. \<not> (naive_time d t \<le> zn_local z u \<and> zn_local z u < naive_time d t + int k * minute_ns)"
      by auto
    obtain v where v: "probe z (naive_time d t) [1..<181] = Some v"
      "zn_local z v = naive_time d t + int k * minute_ns"
      "first_reached z (naive_time d t + int k * minute_ns) v"
      using probe_first [OF assms(1) q _ k(4) k(3) k(1) k(2)] nb(4) assms(3) by auto
    have "first_reached z (naive_time d t) v"
      unfolding first_reached_def
    proof (intro conjI allI impI)
      show "naive_time d t \<le> zn_local z v" using v(2) by simp
      fix u assume "v - 2 * day_ns \<le> u \<and> u < v"
      then have "zn_local z u < naive_time d t + int k * minute_ns" using v(3) by (simp add: first_reached_def)
      then show "zn_local z u < naive_time d t" using spec [OF k(4), of u] by auto
    qed
    then show ?thesis using v(1) hm LR_None shown [OF v(2) k(2)] by (simp add: resolve_local_def slot_of_def)
  next
    case (LR_Single v)
    then show ?thesis
      using zone_okD(1) [OF assms(1) q(1) LR_Single] hm shown [of v 0] by (simp add: resolve_local_def slot_of_def)
  next
    case (LR_Ambiguous v w)
    then show ?thesis
      using zone_okD(2) [OF assms(1) q(1) LR_Ambiguous] hm shown [of v 0] by (simp add: resolve_local_def slot_of_def)
  qed
qed

text \<open>The search keeps the least candidate after now.\<close>

definition candidate :: "(int \<Rightarrow> bool) \<Rightarrow> local_time \<Rightarrow> zone \<Rightarrow> instant \<Rightarrow> nat \<Rightarrow> instant \<Rightarrow> bool" where
  "candidate wanted time z now i c \<longleftrightarrow>
     (\<exists>d. add_days (local_date now z) i = Some d \<and> wanted d \<and> resolve_local d time z = Some c \<and> now < c)"

lemma search_day_from:
  "search_day wanted time z now best i = Some x \<Longrightarrow> best = Some x \<or> candidate wanted time z now i x"
  by (auto simp: search_day_def better_def candidate_def split: option.splits if_splits)

lemma search_day_le:
  "best = Some y \<or> candidate wanted time z now i y \<Longrightarrow>
     \<exists>x. search_day wanted time z now best i = Some x \<and> x \<le> y"
  by (auto simp: search_day_def better_def candidate_def split: option.splits)

lemma search_from:
  "foldl (search_day wanted time z now) best is = Some x \<Longrightarrow>
     best = Some x \<or> (\<exists>i \<in> set is. candidate wanted time z now i x)"
proof (induction "is" arbitrary: best)
  case (Cons i "is")
  then show ?case using search_day_from by fastforce
qed simp

lemma search_le:
  "best = Some y \<or> (\<exists>i \<in> set is. candidate wanted time z now i y) \<Longrightarrow>
     \<exists>x. foldl (search_day wanted time z now) best is = Some x \<and> x \<le> y"
proof (induction "is" arbitrary: best y)
  case (Cons i "is")
  show ?case
  proof (cases "best = Some y \<or> candidate wanted time z now i y")
    case True
    from search_day_le [OF this] obtain x where "search_day wanted time z now best i = Some x" "x \<le> y" by blast
    then show ?thesis using Cons.IH [of "Some x" x] by (auto intro: order.trans)
  next
    case False
    then show ?thesis using Cons by auto
  qed
qed simp

lemma later_day_after:
  assumes "zone_ok z now" and "time_ok t" and "slot_of z t d v" and "near now v" and "local_date now z + 2 \<le> d"
  shows "now < v"
proof -
  have "(local_date now z + 2) * day_ns \<le> d * day_ns" using assms(5) by (rule mult_right_mono) simp
  also have "\<dots> \<le> zn_local z v"
    using naive_time_bounds(1) [OF assms(2), of d] assms(3) by (simp add: slot_of_def first_reached_def)
  finally have "(local_date now z + 2) * day_ns \<le> zn_local z v" .
  moreover note local_day(2) [of z now] offset_change [OF assms(1,4) near_self]
  ultimately show ?thesis by (simp add: algebra_simps)
qed

lemma earlier_day_past:
  assumes "zone_ok z now" and "time_ok t" and "slot_of z t d v" and "near now v" and "d < local_date now z"
  shows "v \<le> now"
proof (rule ccontr)
  assume "\<not> v \<le> now"
  then have "zn_local z now < naive_time d t"
    using not_reached_before [OF assms(1) _ assms(4) near_self] assms(3) by (simp add: slot_of_def)
  also have "naive_time d t < (d + 1) * day_ns" by (rule naive_time_bounds(2) [OF assms(2)])
  also have "\<dots> \<le> local_date now z * day_ns" using assms(5) by (intro mult_right_mono) simp_all
  also have "\<dots> \<le> zn_local z now" by (rule local_day)
  finally show False by simp
qed

lemma search_days_least:
  assumes "zone_ok z now" and "time_ok time" and "local_date now z + 8 < MAX_DATE"
    and "\<exists>d \<in> {local_date now z + 2 .. local_date now z + 8}. wanted d"
  shows "\<exists>n. search_days wanted time z now = Some n \<and> now < n \<and> (\<exists>d. wanted d \<and> slot_of z time d n) \<and>
             (\<forall>d v. wanted d \<and> slot_of z time d v \<and> now < v \<longrightarrow> n \<le> v)"
proof -
  define ld where "ld = local_date now z"
  have res: "\<exists>v. resolve_local d time z = Some v \<and> slot_of z time d v \<and> near now v \<and> v \<le> now + 12 * day_ns"
    if "ld \<le> d" "d \<le> ld + 8" for d
    using resolve_slot [OF assms(1,2), of d] assms(3) that by (simp add: ld_def)
  have upper: "\<exists>x. search_days wanted time z now = Some x \<and> x \<le> v"
    if day: "ld \<le> d" "d \<le> ld + 8" "wanted d" "slot_of z time d v" "near now v" "now < v" for d v
  proof -
    obtain w where w: "resolve_local d time z = Some w" "slot_of z time d w" "near now w" using res [OF day(1,2)] by blast
    have "w = v" using first_reached_unique [OF assms(1)] w(2,3) day(4,5) by (auto simp: slot_of_def)
    then have "candidate wanted time z now (nat (d - ld)) v"
      using day w(1) assms(3) by (auto simp: candidate_def add_days_def ld_def)
    moreover have "nat (d - ld) \<in> set [0..<9]" using day by auto
    ultimately show ?thesis unfolding search_days_def by (intro search_le) blast
  qed
  obtain d0 where d0: "ld + 2 \<le> d0" "d0 \<le> ld + 8" "wanted d0" using assms(4) by (auto simp: ld_def)
  obtain v0 where v0: "slot_of z time d0 v0" "near now v0" "v0 \<le> now + 12 * day_ns"
    using res [of d0] d0 by auto
  have after0: "now < v0" using later_day_after [OF assms(1,2) v0(1,2)] d0 by (simp add: ld_def)
  obtain n where n: "search_days wanted time z now = Some n" "n \<le> v0"
    using upper [of d0 v0] d0 v0 after0 by auto
  from n(1) obtain i where "candidate wanted time z now i n" and "i < 9"
    unfolding search_days_def using search_from by fastforce
  then obtain d where d: "wanted d" "resolve_local d time z = Some n" "now < n" "ld \<le> d" "d \<le> ld + 8"
    by (auto simp: candidate_def add_days_def ld_def split: if_splits)
  then have "slot_of z time d n" using res [of d] by auto
  moreover have "n \<le> v" if v: "wanted e" "slot_of z time e v" "now < v" for e v
  proof (cases "near now v")
    case False
    then have "now + 13 * day_ns < v" using v(3) by (auto simp: near_def)
    then show ?thesis using n(2) v0(3) by simp
  next
    case near: True
    show ?thesis
    proof (cases "e \<le> ld + 8")
      case True
      have "\<not> e < ld" using earlier_day_past [OF assms(1,2) v(2) near] v(3) by (auto simp: ld_def)
      then show ?thesis using upper [of e v] n(1) v near True by auto
    next
      case False
      then have "naive_time d0 time \<le> naive_time e time" using d0 by (simp add: naive_time_def)
      then have "v0 \<le> v"
        using first_reached_mono [OF assms(1)] v0(1,2) v(2) near by (auto simp: slot_of_def)
      then show ?thesis using n(2) by simp
    qed
  qed
  ultimately show ?thesis using n(1) d(1,3) by blast
qed

lemma contains_iff_bit: "d < 8 \<Longrightarrow> weekdays_contains m d \<longleftrightarrow> bit m d"
  by (simp add: weekdays_contains_def weekday_bit_def push_bit_of_1 and_exp_eq_0_iff_not_bit)

lemma weekday_of_less: "weekday_of d < 7"
  by (simp add: weekday_of_def nat_less_iff)

lemma weekday_in_week:
  assumes "i < 7" shows "\<exists>d \<in> {n + 2 .. n + 8}. weekday_of d = i"
proof -
  define d where "d = n + 2 + (int i - (n + 5)) mod 7"
  have range: "d \<in> {n + 2 .. n + 8}" by (simp add: d_def)
  have "(d + 3) mod 7 = ((n + 5) + (int i - (n + 5)) mod 7) mod 7" by (simp add: d_def algebra_simps)
  also have "\<dots> = int i mod 7" unfolding mod_add_right_eq by simp
  finally have "(d + 3) mod 7 = int i" using assms by simp
  with range show ?thesis by (intro bexI [of _ d]) (simp_all add: weekday_of_def)
qed

text \<open>The dates a calendar rule runs on.\<close>

fun runs_on :: "trigger \<Rightarrow> int \<Rightarrow> bool" where
  "runs_on (Daily _ _) d = True"
| "runs_on (Weekly ds _ _) d = bit ds (weekday_of d)"
| "runs_on _ d = False"

lemma calendar_next:
  assumes "zone_ok (cal_zone cal z) now" and "time_ok time"
    and "local_date now (cal_zone cal z) + 8 < MAX_DATE"
    and "t = Daily time z \<or> (t = Weekly ds time z \<and> weekdays_from_bits ds = Inr ds)"
  shows "\<exists>n. next_after cal t now = Inr (Some n) \<and> now < n \<and>
           (\<exists>d. runs_on t d \<and> slot_of (cal_zone cal z) time d n) \<and>
           (\<forall>d v. runs_on t d \<and> slot_of (cal_zone cal z) time d v \<and> now < v \<longrightarrow> n \<le> v)"
  using assms(4)
proof
  assume "t = Daily time z"
  then show ?thesis
    using search_days_least [OF assms(1-3), of "\<lambda>_. True"] by (force simp: next_after_def)
next
  assume t: "t = Weekly ds time z \<and> weekdays_from_bits ds = Inr ds"
  then have "ds \<noteq> 0" "\<not> bit ds 7"
    using contains_iff_bit [of 7 ds]
    by (auto simp: weekdays_from_bits_def weekdays_contains_def weekday_bit_def split: if_splits)
  then obtain i where i: "bit ds i" "i < 8" using bit_imp_le_length [of ds] by (auto simp: bit_eq_iff [of ds 0] dest: bit_imp_le_length)
  with \<open>\<not> bit ds 7\<close> have "i < 7" by (cases "i = 7") auto
  with i have "\<exists>d \<in> {local_date now (cal_zone cal z) + 2 .. local_date now (cal_zone cal z) + 8}. bit ds (weekday_of d)"
    using weekday_in_week by blast
  moreover have "weekdays_contains ds (weekday_of d) = bit ds (weekday_of d)" for d
    using contains_iff_bit weekday_of_less [of d] by simp
  ultimately show ?thesis
    using search_days_least [OF assms(1-3), of "\<lambda>d. bit ds (weekday_of d)"] t \<open>ds \<noteq> 0\<close>
    by (simp add: next_after_def)
qed

text \<open>
  C24. The next run of a daily or weekly rule is the first of its slots after now, where
  the zone shifts by no more than three hours forward and by no whole day in the
  fortnight around now.  The slot of a date is the first instant at which the wall
  clock of the rule's zone has reached its time on that date: a time that does not
  exist that day runs right after the gap, a time that exists twice runs at the
  earlier instant only.  There is a next slot, so the nine days the code looks at are
  enough, and it is the least slot, of any date the rule runs on, strictly after now.\<close>

theorem calendar_next_is_first_slot:
  assumes "zone_ok (cal_zone cal z) now" and "time_ok time"
    and "local_date now (cal_zone cal z) + 8 < MAX_DATE"
    and "t = Daily time z \<or> (t = Weekly ds time z \<and> weekdays_from_bits ds = Inr ds)"
  shows "\<exists>n. next_after cal t now = Inr (Some n) \<and> now < n \<and>
           (\<exists>d. runs_on t d \<and> slot_of (cal_zone cal z) time d n) \<and>
           (\<forall>d v. runs_on t d \<and> slot_of (cal_zone cal z) time d v \<and> now < v \<longrightarrow> n \<le> v)"
  by (rule calendar_next [OF assms])

text \<open>A zone that springs forward by an hour at two o'clock of day 3.\<close>

definition spring_zone :: zone where
  "spring_zone =
     (let T = 3 * day_ns + 120 * minute_ns
      in \<lparr>zn_local = (\<lambda>t. if t < T then t else t + 60 * minute_ns),
          zn_from_local = (\<lambda>n. if n < T then LR_Single n else if n < T + 60 * minute_ns then LR_None
                              else LR_Single (n - 60 * minute_ns)),
          zn_floor_minute = (\<lambda>t. Some (t - t mod minute_ns))\<rparr>)"

lemma spring_zone_ok: "zone_ok spring_zone b"
proof -
  have "resolves spring_zone n (zn_from_local spring_zone n)" if "n mod minute_ns = 0" for n
  proof -
    from that obtain m where m: "n = m * minute_ns" by (metis mod_0_imp_dvd dvd_def mult.commute)
    consider "m < 4440" | "4440 \<le> m" "m < 4500" | "4500 \<le> m" by linarith
    then show ?thesis
    proof cases
      case 2
      then obtain k :: nat where k: "m = 4500 - int k" "1 \<le> k" "k \<le> 60"
        by (intro that [of "nat (4500 - m)"]) auto
      then have "resolves spring_zone n LR_None"
        by (auto simp: spring_zone_def Let_def m intro!: bexI [of _ k])
      then show ?thesis using 2 by (simp add: spring_zone_def Let_def m)
    qed (auto simp: spring_zone_def Let_def m first_reached_def split: if_splits)
  qed
  then show ?thesis by (simp add: zone_ok_def queried_def) (simp add: spring_zone_def Let_def)
qed

definition spring_calendar :: calendar where
  "spring_calendar = \<lparr>cal_known = \<lambda>_. True, cal_zone = \<lambda>_. spring_zone, cal_cron_parses = \<lambda>_. False,
     cal_cron_next = \<lambda>_ _ _. None\<rparr>"

lemma spring_calendar_zone [simp]: "cal_zone spring_calendar z = spring_zone"
  by (simp add: spring_calendar_def)

theorem calendar_next_is_first_slot_witness:
  "\<exists>n. next_after spring_calendar (Daily \<lparr>lt_hour = 2, lt_minute = 30\<rparr> (lit ''Z'')) (3 * day_ns) = Inr (Some n)
       \<and> 3 * day_ns < n"
proof -
  have "local_date (3 * day_ns) spring_zone = 3" by (simp add: local_date_def spring_zone_def)
  then show ?thesis
    using calendar_next_is_first_slot [of spring_calendar "lit ''Z''" "3 * day_ns" "\<lparr>lt_hour = 2, lt_minute = 30\<rparr>"
        "Daily \<lparr>lt_hour = 2, lt_minute = 30\<rparr> (lit ''Z'')" 0] spring_zone_ok
    by (fastforce simp: time_ok_def MAX_DATE_def)
qed

text \<open>A zone that leaves out the whole of day 3, a Sunday, as zones at the date line have done.\<close>

definition skipping_zone :: zone where
  "skipping_zone =
     \<lparr>zn_local = (\<lambda>t. if t < 3 * day_ns then t else t + day_ns),
      zn_from_local = (\<lambda>n. if n < 3 * day_ns then LR_Single n else if n < 4 * day_ns then LR_None
                          else LR_Single (n - day_ns)),
      zn_floor_minute = (\<lambda>t. Some (t - t mod minute_ns))\<rparr>"

definition skipping_calendar :: calendar where
  "skipping_calendar = \<lparr>cal_known = \<lambda>_. True, cal_zone = \<lambda>_. skipping_zone, cal_cron_parses = \<lambda>_. False,
     cal_cron_next = \<lambda>_ _ _. None\<rparr>"

text \<open>A rule for Sundays at noon, asked on the Friday before, then has no next occurrence:
  the probe gives the skipped Sunday up after three hours, and the next Sunday is past
  the nine days of the search.\<close>

lemma skipped_day_ends_weekly:
  "next_after skipping_calendar (Weekly (push_bit 6 1) \<lparr>lt_hour = 12, lt_minute = 0\<rparr> (lit ''Z'')) day_ns = Inr None"
proof -
  have "probe skipping_zone (3 * day_ns + 720 * minute_ns) ks = None" if "\<forall>k \<in> set ks. k < 181" for ks
    using that by (induction ks) (auto simp: skipping_zone_def MAX_DATE_def)
  then have "resolve_local 3 \<lparr>lt_hour = 12, lt_minute = 0\<rparr> skipping_zone = None"
    by (simp add: resolve_local_def naive_time_def skipping_zone_def)
  moreover have "weekdays_contains (push_bit 6 1) (weekday_of d) \<longleftrightarrow> d = 3" if "d \<in> {1..9}" for d
  proof -
    have "d = 1 \<or> d = 2 \<or> d = 3 \<or> d = 4 \<or> d = 5 \<or> d = 6 \<or> d = 7 \<or> d = 8 \<or> d = 9" using that by auto
    then show ?thesis by (elim disjE) (simp_all add: weekdays_contains_def weekday_bit_def weekday_of_def)
  qed
  moreover have "local_date day_ns skipping_zone = 1" by (simp add: local_date_def skipping_zone_def)
  ultimately have day: "search_day (\<lambda>d. weekdays_contains 64 (weekday_of d))
      \<lparr>lt_hour = 12, lt_minute = 0\<rparr> skipping_zone day_ns None i = None" if "i < 9" for i
    using that by (auto simp: search_day_def add_days_def split: option.splits if_splits)
  have "foldl (search_day (\<lambda>d. weekdays_contains 64 (weekday_of d))
      \<lparr>lt_hour = 12, lt_minute = 0\<rparr> skipping_zone day_ns) None is = None" if "\<forall>i \<in> set is. i < 9" for "is"
    using that by (induction "is") (auto simp: day)
  then show ?thesis
    by (simp add: next_after_def search_days_def skipping_calendar_def)
qed

theorem interval_keeps_grid_witness:
  "\<exists>n g. next_after spring_calendar (Every 0 3600000000000) 7261500000000 = Inr (Some n) \<and> 7261500000000 < n \<and>
     on_grid 0 3600000000000 g \<and> n = g + 1500000000 mod sec_ns"
proof -
  have "0 < as_secs 3600000000000" "as_secs 3600000000000 \<le> 366 * 24 * 60 * 60" by (simp_all add: as_secs_def)
  from interval_keeps_grid [OF this, of spring_calendar 0 7261500000000] show ?thesis by auto
qed

section \<open>Stored text forms\<close>

lemma two_digits_eq: "n < 100 \<Longrightarrow> two_digits n = [48 + n div 10, 48 + n mod 10]"
proof -
  assume "n < 100"
  then have "n div 10 < 10" by simp
  then show ?thesis by (simp add: two_digits_def show_nat.simps [of n] show_nat.simps [of "n div 10"])
qed

lemma parse_two_digits: "n < 100 \<Longrightarrow> parse_u8 (two_digits n) = Some n"
proof -
  assume n: "n < 100"
  then have "n div 10 \<le> 9" "n mod 10 \<le> 9" "n = n div 10 * 10 + n mod 10" by simp_all
  then show ?thesis
    using n by (simp add: two_digits_eq parse_u8_def parse_u64_def is_ascii_digit_def u64_max_def)
qed

lemma digit_not_whitespace: "k \<le> 9 \<Longrightarrow> \<not> is_whitespace (48 + k)"
  by (simp add: is_whitespace_def)

lemma time_reads_back:
  assumes "time_ok t"
  shows "local_time_parse (local_time_display t) = Inr t"
proof -
  have b: "lt_hour t < 100" "lt_minute t < 100" using assms by (simp_all add: time_ok_def)
  have shown: "local_time_display t =
      [48 + lt_hour t div 10, 48 + lt_hour t mod 10, 58, 48 + lt_minute t div 10, 48 + lt_minute t mod 10]"
    by (simp add: local_time_display_def two_digits_eq b)
  have "trim (local_time_display t) = local_time_display t"
    using b by (intro trim_ascii_word) (simp_all add: shown digit_not_whitespace)
  moreover have "split_once 58 (local_time_display t) = Some (two_digits (lt_hour t), two_digits (lt_minute t))"
  proof -
    have "lt_hour t div 10 < 10" "lt_hour t mod 10 < 10" using b by simp_all
    then show ?thesis unfolding shown using b by (simp add: two_digits_eq)
  qed
  moreover have "byte_len (two_digits n) = 2" if "n < 100" for n
  proof -
    have "n div 10 < 10" "n mod 10 < 10" using that by simp_all
    then show ?thesis using that by (simp add: two_digits_eq utf8_len_def)
  qed
  ultimately show ?thesis
    using assms b by (simp add: local_time_parse_def parse_two_digits local_time_new_def time_ok_def)
qed

lemma bit_weekday_bit: "bit (weekday_bit d) n \<longleftrightarrow> n = d \<and> n < 8"
  by (auto simp: weekday_bit_def push_bit_of_1 bit_exp_iff)

lemma bit_add_weekdays: "bit (add_weekdays m ds) n \<longleftrightarrow> bit m n \<or> n < 8 \<and> n \<in> set ds"
  unfolding add_weekdays_def
proof (induction ds arbitrary: m)
  case (Cons d ds)
  show ?case by (simp only: foldl.simps Cons.IH bit_or_iff bit_weekday_bit) auto
qed simp

lemma lower_word:
  assumes "\<forall>c \<in> set w. is_ascii_lower c"
  shows "trim w = w" and "to_ascii_lowercase w = w" and "split_once 45 w = None" and "44 \<notin> set w"
proof -
  have "\<not> is_whitespace c" if "c \<in> set w" for c
    using assms that by (auto simp: is_ascii_lower_def is_whitespace_def)
  then show "trim w = w"
    by (cases "w = []") (auto intro: trim_ascii_word)
  show "to_ascii_lowercase w = w"
    using assms by (induction w) (auto simp: to_ascii_lowercase_def ascii_lower_def is_ascii_lower_def is_ascii_upper_def)
  show "split_once 45 w = None" using assms by (induction w) (auto simp: is_ascii_lower_def)
  show "44 \<notin> set w" using assms by (auto simp: is_ascii_lower_def)
qed

lemma weekday_cases:
  assumes "d < (7::nat)"
  obtains "d = 0" | "d = 1" | "d = 2" | "d = 3" | "d = 4" | "d = 5" | "d = 6"
  using assms by linarith

lemma weekday_name_lower:
  assumes "d < 7"
  shows "\<forall>c \<in> set (lit (hd (weekday_names ! d))). is_ascii_lower c" and "hd (weekday_names ! d) \<noteq> []"
  using assms by (cases d rule: weekday_cases; simp add: weekday_names_def lit_def is_ascii_lower_def)+

lemma weekday_find:
  assumes "d < 7"
  shows "find (\<lambda>e. lit (hd (weekday_names ! d)) \<in> set (map lit (weekday_names ! e))) [0, 1, 2, 3, 4, 5, 6] = Some d"
  using assms by (cases d rule: weekday_cases) (simp_all add: weekday_names_def)

lemma weekday_name_reads_back:
  assumes "d < 7"
  shows "weekday_parts (lit (hd (weekday_names ! d)) # ps) m any = weekday_parts ps (m OR weekday_bit d) True"
  using weekday_find [OF assms] weekday_name_lower [OF assms]
  by (simp add: lower_word part_days_def weekday_named_def add_weekdays_def del: find.simps set_map)

lemma weekday_parts_names:
  "\<forall>d \<in> set ds. d < 7 \<Longrightarrow>
     weekday_parts (map (\<lambda>d. lit (hd (weekday_names ! d))) ds) m any = Inr (add_weekdays m ds, any \<or> ds \<noteq> [])"
  by (induction ds arbitrary: m any)
    (simp_all add: add_weekdays_def weekday_name_reads_back del: weekday_parts.simps(2))

lemma weekdays_read_back:
  assumes "weekdays_from_bits m = Inr m"
  shows "weekdays_parse (weekdays_display m) = Inr m"
proof -
  define ds where "ds = filter (weekdays_contains m) [0..<7]"
  have m: "m \<noteq> 0" "\<not> bit m 7"
    using assms contains_iff_bit [of 7 m]
    by (auto simp: weekdays_from_bits_def weekdays_contains_def weekday_bit_def split: if_splits)
  have days: "d \<in> set ds \<longleftrightarrow> d < 7 \<and> bit m d" for d by (auto simp: ds_def contains_iff_bit)
  have sum: "add_weekdays 0 ds = m"
  proof (rule bit_eqI)
    fix n assume "possible_bit TYPE(8 word) n"
    then have "n < 8" by simp
    then show "bit (add_weekdays 0 ds) n = bit m n"
      using m(2) days [of n] by (cases "n = 7") (auto simp: bit_add_weekdays)
  qed
  with m(1) have "ds \<noteq> []" by (auto simp: add_weekdays_def)
  moreover have "split_char 44 (weekdays_display m) = map (\<lambda>d. lit (hd (weekday_names ! d))) ds"
    unfolding weekdays_display_def ds_def [symmetric]
    using \<open>ds \<noteq> []\<close> days by (intro split_char_join) (auto simp: lower_word(4) [OF weekday_name_lower(1)])
  ultimately show ?thesis
    using days sum by (simp add: weekdays_parse_def weekday_parts_names)
qed

text \<open>What is stored reads back.  A local time and a weekday set are parsed from
  the text the store writes for them to the value they were.\<close>

theorem schedule_texts_read_back:
  "(time_ok t \<longrightarrow> local_time_parse (local_time_display t) = Inr t) \<and>
   (weekdays_from_bits ds = Inr ds \<longrightarrow> weekdays_parse (weekdays_display ds) = Inr ds)"
  by (simp add: time_reads_back weekdays_read_back)

theorem schedule_texts_read_back_witness:
  "local_time_parse (local_time_display \<lparr>lt_hour = 9, lt_minute = 5\<rparr>) = Inr \<lparr>lt_hour = 9, lt_minute = 5\<rparr> \<and>
   weekdays_parse (weekdays_display 21) = Inr 21"
  using schedule_texts_read_back [of "\<lparr>lt_hour = 9, lt_minute = 5\<rparr>" 21]
  by (simp add: time_ok_def weekdays_from_bits_def)

text \<open>A sign passes for the first digit of a two-digit field.\<close>

lemma sign_read_as_digit: "local_time_parse (lit ''+9:+5'') = Inr \<lparr>lt_hour = 9, lt_minute = 5\<rparr>"
  by (simp add: local_time_parse_def trim_def trim_start_def trim_start_matches_def trim_end_def
      trim_end_matches_def is_whitespace_def lit_def utf8_len_def parse_u8_def parse_u64_def
      is_ascii_digit_def u64_max_def local_time_new_def)

end
