(* ===== verification/Schedule_Grant_Correct.thy ===== *)
theory Schedule_Grant_Correct
  imports Schedule_Grant Schedule_Rule_Correct
begin

text \<open>
  What an unattended grant is worth: it names one action, and the cadence check on
  calendar rules really bounds the runs of a week.  The stored policies are persisted
  enums.
\<close>

section \<open>Persisted enums\<close>

interpretation action_kind: wire_enum action_kind_as_str "\<lambda>s. opt_err s (action_kind_parse s)"
  by unfold_locales (rename_tac x, case_tac x, simp_all add: action_kind_parse_def opt_err_def)

interpretation session_policy: wire_enum session_policy_as_str "\<lambda>s. opt_err s (session_policy_parse s)"
  by unfold_locales (rename_tac x, case_tac x, simp_all add: session_policy_parse_def opt_err_def)

interpretation overlap_policy: wire_enum overlap_as_str "\<lambda>s. opt_err s (overlap_parse s)"
  by unfold_locales (rename_tac x, case_tac x, simp_all add: overlap_parse_def opt_err_def)

interpretation misfire_policy: wire_enum misfire_as_str "\<lambda>s. opt_err s (misfire_parse s)"
  by unfold_locales (rename_tac x, case_tac x, simp_all add: misfire_parse_def opt_err_def)

interpretation wake_source: wire_enum wake_source_as_str "\<lambda>s. opt_err s (wake_source_parse s)"
  by unfold_locales (rename_tac x, case_tac x, simp_all add: wake_source_parse_def opt_err_def)

section \<open>One action\<close>

lemma id_char_not_nul: "list_all action_id_char a \<Longrightarrow> 0 \<notin> set a"
  by (auto simp: list_all_iff action_id_char_def is_ascii_alphanumeric_def is_ascii_digit_def
      is_ascii_upper_def is_ascii_lower_def)

lemma split_at_nul:
  assumes "0 \<notin> set a" and "0 \<notin> set b" and "a @ 0 # s = b @ 0 # t"
  shows "a = b \<and> s = t"
  using assms
proof (induction a arbitrary: b)
  case Nil
  then show ?case by (cases b) auto
next
  case (Cons x a)
  then show ?case by (cases b) auto
qed

text \<open>\<open>Value::to_string\<close> tells values apart.\<close>

definition serializer_ok :: "'j json_lib \<Rightarrow> bool" where
  "serializer_ok js \<longleftrightarrow> (\<forall>x y s. js_to_string js x = Some s \<and> js_to_string js y = Some s \<longrightarrow> x = y)"

lemma native_id_plain: "action_validate js (Native a i) = Inr () \<Longrightarrow> 0 \<notin> set a"
  by (auto split: if_splits option.splits dest: id_char_not_nul)

lemma fingerprint_inject:
  assumes "serializer_ok js" and "action_validate js a = Inr ()" and "action_validate js b = Inr ()"
    and "fingerprint js a = Some f" and "fingerprint js b = Some f"
  shows "a = b"
proof (cases a)
  case (Native i x)
  with assms(4) obtain s where s: "js_to_string js x = Some s" "f = lit ''native'' @ [0] @ i @ [0] @ s"
    by auto
  obtain j y where b: "b = Native j y" using assms(5) s by (cases b) (simp_all add: lit_Cons)
  with assms(5) s obtain t where t: "js_to_string js y = Some t" "i @ 0 # s = j @ 0 # t" by auto
  have i: "0 \<notin> set i" by (rule native_id_plain [OF assms(2) [unfolded Native]])
  have j: "0 \<notin> set j" by (rule native_id_plain [OF assms(3) [unfolded b]])
  from split_at_nul [OF i j t(2)] show ?thesis
    using assms(1) s t Native b by (auto simp: serializer_ok_def)
next
  case (Shell c)
  then show ?thesis using assms(4,5) by (cases b) (auto simp: lit_Cons)
next
  case (Agent g)
  then show ?thesis using assms(4,5) by (cases b) (auto simp: lit_Cons)
qed

text \<open>
  C15. A grant authorizes what the user was shown and nothing else.  A grant issued for
  an action covers a later state of a definition exactly when it is the same
  definition in the same workspace with the same permission mode, model and action, to
  the letter of the command, the goal or the native input; the run is of that action's
  kind; external effects are covered if the user allowed them; and the trigger is in the
  granted scope.\<close>

theorem grant_binds_action:
  assumes "serializer_ok js" and "action_validate js action = Inr ()"
    and "action_validate js (sd_action d) = Inr ()"
    and "unattended_grant_new js did workspace mode action trigger model request at = Inr g"
  shows "grant_covers js g d kind external = Inr () \<longleftrightarrow>
           sd_id d = did \<and> sd_workspace d = workspace \<and> sd_mode d = mode \<and> sd_action d = action \<and>
           sd_model d = model \<and> kind = kind_of action \<and> (external \<longrightarrow> ur_allow_external request) \<and>
           trigger_covers (granted_of trigger) (sd_trigger d) = Inr ()"
proof -
  obtain f where f: "fingerprint js action = Some f"
    and g: "g = \<lparr>ug_version = GRANT_VERSION, ug_definition = did, ug_workspace = workspace, ug_mode = mode,
         ug_action = f, ug_model = model, ug_actions = [kind_of action],
         ug_trigger = Some (granted_of trigger), ug_external = ur_allow_external request, ug_granted_at = at\<rparr>"
    using assms(4) by (auto simp: unattended_grant_new_def split: option.splits)
  have same: "(fingerprint js (sd_action d) = Some f) = (sd_action d = action)"
    using fingerprint_inject [OF assms(1,3,2)] f by auto
  have "grant_covers js g d kind external = Inr () \<longleftrightarrow>
      trigger_covers (granted_of trigger) (sd_trigger d) = Inr () \<and> did = sd_id d \<and> workspace = sd_workspace d \<and>
      mode = sd_mode d \<and> kind = kind_of action \<and> fingerprint js (sd_action d) = Some f \<and> model = sd_model d \<and>
      (external \<longrightarrow> ur_allow_external request)"
    unfolding grant_covers_def and_then_eq_Inr g by simp
  then show ?thesis unfolding same by auto
qed

definition text_json :: "rstr json_lib" where
  "text_json = \<lparr>js_is_object = (\<lambda>s. starts_with [123] s), js_to_string = Some, js_parse = Some\<rparr>"

definition nightly :: "rstr schedule_definition" where
  "nightly = \<lparr>sd_id = lit ''d'', sd_name = lit ''n'', sd_workspace = lit ''/w'', sd_action = Shell (lit ''ls''),
     sd_trigger = Daily \<lparr>lt_hour = 9, lt_minute = 0\<rparr> (lit ''Z''), sd_session_policy = Continue, sd_overlap = SkipIfRunning,
     sd_mode = WP_Assisted, sd_model = None, sd_timeout = secs 600, sd_misfire = Skip, sd_misfire_grace = secs 300,
     sd_session = None, sd_unattended = None, sd_enabled = True, sd_created_at = 0, sd_updated_at = 0\<rparr>"

lemma ls_validates: "action_validate js (Shell (lit ''ls'')) = Inr ()"
  by (simp add: validate_text_def trim_def trim_start_def trim_start_matches_def trim_end_def
      trim_end_matches_def is_whitespace_def lit_def utf8_len_def MAX_COMMAND_BYTES_def is_control_def)

theorem grant_binds_action_witness:
  "grant_covers text_json
     (projr (unattended_grant_new text_json (lit ''d'') (lit ''/w'') WP_Assisted (Shell (lit ''ls'')) (sd_trigger nightly)
              None \<lparr>ur_allow_external = True\<rparr> 0)) nightly AK_Shell True = Inr ()"
proof -
  obtain g where g: "unattended_grant_new text_json (lit ''d'') (lit ''/w'') WP_Assisted (Shell (lit ''ls''))
      (sd_trigger nightly) None \<lparr>ur_allow_external = True\<rparr> 0 = Inr g"
    by (simp add: unattended_grant_new_def)
  have "serializer_ok text_json" by (simp add: serializer_ok_def text_json_def)
  then have "grant_covers text_json g nightly AK_Shell True = Inr ()"
    using grant_binds_action [of text_json "Shell (lit ''ls'')" nightly, OF _ ls_validates _ g] ls_validates [of text_json]
    by (simp add: nightly_def trigger_covers_def compare_rates_def)
  then show ?thesis using g by (simp del: unattended_grant_new_def)
qed

section \<open>The cadence\<close>

text \<open>The dates among seven consecutive ones on which a calendar rule runs.\<close>

definition runs_in_week :: "trigger \<Rightarrow> int \<Rightarrow> nat" where
  "runs_in_week t n = card {d \<in> {n ..< n + 7}. runs_on t d}"

fun calendar_rule :: "trigger \<Rightarrow> bool" where
  "calendar_rule (Daily _ _) = True"
| "calendar_rule (Weekly ds _ _) = (weekdays_from_bits ds = Inr ds)"
| "calendar_rule _ = False"

lemma weekday_bij: "bij_betw weekday_of {n ..< n + 7} {..<7}"
proof -
  have "inj_on weekday_of {n ..< n + 7}"
  proof (rule inj_onI)
    fix d e assume "d \<in> {n ..< n + 7}" "e \<in> {n ..< n + 7}" "weekday_of d = weekday_of e"
    then have "(d + 3) mod 7 = (e + 3) mod 7" "\<bar>d - e\<bar> < 7"
      by (auto simp: weekday_of_def nat_eq_iff)
    then show "d = e" by (smt (verit) mod_eq_dvd_iff zdvd_imp_le zdvd_not_zless)
  qed
  moreover have "weekday_of ` {n ..< n + 7} \<subseteq> {..<7}" using weekday_of_less by auto
  ultimately have "weekday_of ` {n ..< n + 7} = {..<7}"
    by (intro card_subset_eq) (simp_all add: card_image)
  with \<open>inj_on weekday_of {n ..< n + 7}\<close> show ?thesis by (simp add: bij_betw_def)
qed

lemma runs_in_week_rate:
  assumes "calendar_rule t"
  shows "weekly_rate (granted_of t) = Some (runs_in_week t n)"
proof (cases t)
  case (Daily time z)
  have "{n ..< n + 7} = {d. n \<le> d \<and> d < n + 7}" by auto
  then have "card {d. n \<le> d \<and> d < n + 7} = 7" by (metis card_atLeastLessThan_int add_diff_cancel_left' nat_numeral)
  then show ?thesis using Daily by (simp add: runs_in_week_def)
next
  case (Weekly ds time z)
  then have top: "\<not> bit ds 7"
    using assms contains_iff_bit [of 7 ds]
    by (auto simp: weekdays_from_bits_def weekdays_contains_def weekday_bit_def split: if_splits)
  have "{d \<in> {n ..< n + 7}. runs_on t d} = {d \<in> {n ..< n + 7}. bit ds (weekday_of d)}"
    using Weekly by simp
  also have "card \<dots> = card {w \<in> {..<7}. bit ds w}"
  proof (rule bij_betw_same_card)
    have inj: "inj_on weekday_of {n ..< n + 7}" and img: "weekday_of ` {n ..< n + 7} = {..<7}"
      using weekday_bij [of n] unfolding bij_betw_def by (rule conjunct1, rule conjunct2)
    have "inj_on weekday_of {d \<in> {n ..< n + 7}. bit ds (weekday_of d)}"
      by (rule inj_on_subset [OF inj]) blast
    moreover have "weekday_of ` {d \<in> {n ..< n + 7}. bit ds (weekday_of d)} = {w \<in> {..<7}. bit ds w}"
      unfolding img [symmetric] by blast
    ultimately show "bij_betw weekday_of {d \<in> {n ..< n + 7}. bit ds (weekday_of d)} {w \<in> {..<7}. bit ds w}"
      unfolding bij_betw_def by (rule conjI)
  qed
  also have "{w \<in> {..<7}. bit ds w} = set (filter (bit ds) [0..<8])"
  proof -
    have "w < 7" if "bit ds w" "w < 8" for w using that top by (cases "w = 7") auto
    then show ?thesis by auto
  qed
  also have "card \<dots> = count_ones ds" unfolding count_ones_def by (rule distinct_card) simp
  finally show ?thesis using Weekly by (simp add: runs_in_week_def)
qed (use assms in simp_all)

text \<open>A calendar schedule cannot be sped up under an old grant.  When the grant of a
  daily or weekly rule covers another daily or weekly rule, that rule is in the same
  time zone and in no week runs on more days than the granted one.\<close>

theorem granted_cadence_bounds_runs:
  assumes "calendar_rule t" and "calendar_rule u" and "trigger_covers (granted_of t) u = Inr ()"
  shows "trigger_timezone u = trigger_timezone t \<and> runs_in_week u n \<le> runs_in_week t n"
proof -
  have zone: "granted_timezone (granted_of t) = trigger_timezone t" by (cases t) simp_all
  have "trigger_covers (granted_of t) u = compare_rates (granted_of t) u"
    using assms(1,2) by (cases t; cases u) (simp_all add: trigger_covers_def)
  then show ?thesis
    using assms(3) runs_in_week_rate [OF assms(1), of n] runs_in_week_rate [OF assms(2), of n] zone
    by (auto simp: compare_rates_def split: if_splits option.splits)
qed

theorem granted_cadence_bounds_runs_witness:
  "trigger_timezone (Weekly 31 \<lparr>lt_hour = 9, lt_minute = 0\<rparr> (lit ''Z'')) = Some (lit ''Z'') \<and>
   runs_in_week (Weekly 31 \<lparr>lt_hour = 9, lt_minute = 0\<rparr> (lit ''Z'')) 0
     \<le> runs_in_week (Daily \<lparr>lt_hour = 8, lt_minute = 0\<rparr> (lit ''Z'')) 0"
proof -
  have "calendar_rule (Weekly 31 \<lparr>lt_hour = 9, lt_minute = 0\<rparr> (lit ''Z''))"
    by (simp add: weekdays_from_bits_def)
  moreover have "count_ones 31 \<le> 7" by (simp add: count_ones_def upt_conv_Cons)
  ultimately show ?thesis
    using granted_cadence_bounds_runs [of "Daily \<lparr>lt_hour = 8, lt_minute = 0\<rparr> (lit ''Z'')"
        "Weekly 31 \<lparr>lt_hour = 9, lt_minute = 0\<rparr> (lit ''Z'')" 0]
    by (simp add: trigger_covers_def compare_rates_def)
qed

text \<open>Intervals are compared in runs per week rounded up, so a grant for one run a year
  covers one run a week.\<close>

lemma interval_rate_rounds_up:
  "trigger_covers (granted_of (Every a (secs 31536000))) (Every b (secs 604800)) = Inr ()"
  by (simp add: trigger_covers_def compare_rates_def as_secs_def div_ceil_def)

end
