(* ===== verification/Schedule_Passes_Correct.thy ===== *)
theory Schedule_Passes_Correct
  imports Schedule_Store_Correct Schedule_Grant_Correct
begin

text \<open>
  The operations of the schedule store: each is a sequence of its transactions, so what
  holds of every interleaving holds of them; a recurring definition never runs out of
  slots; and a recovery pass leaves at most one overdue slot to run.
\<close>

section \<open>Operations are transactions\<close>

definition by_transactions :: "'j store_env \<Rightarrow> schedule_db \<Rightarrow> schedule_db \<Rightarrow> bool" where
  "by_transactions env db db' \<longleftrightarrow> (\<exists>ts. store_run (se_id env) db ts db')"

lemma by_refl [simp]: "by_transactions env db db"
  unfolding by_transactions_def by (intro exI [of _ "[]"]) (rule store_run.rest)

lemma by_trans: "by_transactions env db db' \<Longrightarrow> by_transactions env db' db'' \<Longrightarrow> by_transactions env db db''"
  unfolding by_transactions_def using store_run_append by blast

lemma by_one: "well_read t db \<Longrightarrow> by_transactions env db (exec_tx (se_id env) t db)"
  unfolding by_transactions_def by (intro exI [of _ "[t]"]) (blast intro: store_run.intros)

text \<open>A candidate read from the tables: its identity is in use and its definition is the
  one that was read.\<close>

definition known :: "(nat \<Rightarrow> rstr) \<Rightarrow> schedule_db \<Rightarrow> rstr \<Rightarrow> rstr \<Rightarrow> bool" where
  "known gen db oid did \<longleftrightarrow> minted_id gen db oid \<and> belongs db oid did"

lemma known_stays:
  assumes "inj gen" and "known gen db oid did"
  shows "known gen (exec_tx gen t db) oid did"
proof -
  have m: "minted_id gen db oid" and b: "belongs db oid did" using assms(2) by (simp_all add: known_def)
  have "oc_definition y = did" if "y \<in> set (db_occurrences (exec_tx gen t db))" "oc_id y = oid" for y
    using occurrence_origin [OF that(1)] minted_not_fresh [OF assms(1) m] b that(2)
    by (auto simp: occurrence_from_def belongs_def)
  then show ?thesis using minted_stays [OF m] by (simp add: known_def belongs_def)
qed

lemma known_run: "store_run gen db ts db' \<Longrightarrow> inj gen \<Longrightarrow> known gen db oid did \<Longrightarrow> known gen db' oid did"
  by (induction rule: store_run.induct) (simp_all add: known_stays)

lemma known_by:
  "by_transactions env db db' \<Longrightarrow> inj (se_id env) \<Longrightarrow> known (se_id env) db oid did \<Longrightarrow> known (se_id env) db' oid did"
  unfolding by_transactions_def using known_run by blast

lemma known_row:
  assumes "store_ok gen db" and "x \<in> set (db_occurrences db)"
  shows "known gen db (oc_id x) (oc_definition x)"
proof -
  have "oc_id x \<in> identities db" using assms(2) by (simp add: identities_def)
  then have "minted_id gen db (oc_id x)" using store_okD(9) [OF assms(1)] by (auto simp: minted_id_def)
  moreover have "belongs db (oc_id x) (oc_definition x)"
    using same_occurrence [OF assms(1) _ assms(2)] unfolding belongs_def by metis
  ultimately show ?thesis by (simp add: known_def)
qed

lemma ensure_by: "by_transactions env db (snd (ensure_next_occurrence env d now db))"
proof -
  have "by_transactions env db (snd (insert_slot_tx (se_id env) (sd_id d) n now db))" for n
    using by_one [of "Tx_Slot (sd_id d) n now" db env] by simp
  then show ?thesis by (auto simp: ensure_next_occurrence_def split: sum.splits option.splits prod.splits) (metis snd_conv)+
qed

lemma horizon_by: "by_transactions env db (snd (renew_horizon env did now db))"
  using ensure_by [of env db _ now]
  by (auto simp: renew_horizon_def split: sum.splits option.splits prod.splits) (metis snd_conv)+

lemma ensure_each_by: "by_transactions env db (snd (ensure_each env now ds db))"
proof (induction ds arbitrary: db)
  case (Cons d ds)
  obtain r db' where e: "ensure_next_occurrence env d now db = (r, db')" by fastforce
  then have "by_transactions env db db'" using ensure_by [of env db d now] by simp
  then show ?case using Cons e by (auto split: sum.splits intro: by_trans)
qed simp

lemma skip_each_by:
  assumes "inj (se_id env)" and "\<forall>x \<in> set xs. known (se_id env) db (oc_id x) (oc_definition x)"
  shows "by_transactions env db (snd (skip_each env now xs n db))"
  using assms(2)
proof (induction xs arbitrary: n db)
  case (Cons x xs)
  obtain b db1 where s: "skip_tx (se_id env) (oc_id x) (oc_definition x) (se_time_text env (oc_scheduled_for x)) now db = (b, db1)"
    by fastforce
  have one: "by_transactions env db db1"
    using by_one [of "Tx_Skip (oc_id x) (oc_definition x) (se_time_text env (oc_scheduled_for x)) now" db env]
      Cons.prems s by (simp add: known_def)
  obtain r db2 where h: "renew_horizon env (oc_definition x) now db1 = (r, db2)" by fastforce
  have two: "by_transactions env db db2" using by_trans [OF one] horizon_by [of env db1 "oc_definition x" now] h by simp
  have k: "\<forall>y \<in> set xs. known (se_id env) db1 (oc_id y) (oc_definition y)"
    "\<forall>y \<in> set xs. known (se_id env) db2 (oc_id y) (oc_definition y)"
    using Cons.prems known_by [OF one assms(1)] known_by [OF two assms(1)] by simp_all
  show ?case
    using s h one two by_trans [OF one Cons.IH [OF k(1)]] by_trans [OF two Cons.IH [OF k(2)]]
    by (auto split: bool.splits sum.splits)
qed simp

lemma claim_one_by:
  assumes "known (se_id env) db oid did"
  shows "by_transactions env db (snd (claim_one env oid did now lease db))"
proof -
  have "by_transactions env db (snd (claim_tx (se_id env) oid did now lease db))"
    using by_one [of "Tx_Claim oid did now lease" db env] assms by (simp add: known_def)
  then show ?thesis by (auto simp: claim_one_def split: prod.splits option.splits sum.splits)
qed

lemma claim_each_by:
  assumes "inj (se_id env)" and "\<forall>x \<in> set xs. known (se_id env) db (oc_id x) (oc_definition x)"
  shows "by_transactions env db (snd (claim_each env now lease xs cs db))"
  using assms(2)
proof (induction xs arbitrary: cs db)
  case (Cons x xs)
  obtain r db1 where c: "claim_one env (oc_id x) (oc_definition x) now lease db = (r, db1)" by fastforce
  have one: "by_transactions env db db1" using claim_one_by [of env db] Cons.prems c by (metis list.set_intros(1) snd_conv)
  have "\<forall>y \<in> set xs. known (se_id env) db1 (oc_id y) (oc_definition y)"
    using Cons.prems known_by [OF one assms(1)] by simp
  then show ?case using c one by_trans [OF one Cons.IH] by (auto split: sum.splits option.splits)
qed simp

lemma recover_each_by:
  "by_transactions env db (snd (recover_each env now xs rs db))"
proof (induction xs arbitrary: rs db)
  case (Cons x xs)
  obtain b db1 where s: "recover_tx (oc_id x) now db = (b, db1)" by fastforce
  have one: "by_transactions env db db1" using by_one [of "Tx_Recover (oc_id x) now" db env] s by simp
  obtain r db2 where h: "renew_horizon env (oc_definition x) now db1 = (r, db2)" by fastforce
  have two: "by_transactions env db db2" using by_trans [OF one] horizon_by [of env db1 "oc_definition x" now] h by simp
  show ?case using s h two by_trans [OF one Cons.IH] by_trans [OF two Cons.IH] by (auto split: bool.splits sum.splits)
qed simp

lemma miss_each_by:
  "by_transactions env db (snd (miss_each env now newest cs n db))"
proof (induction cs arbitrary: n db)
  case (Cons c cs)
  obtain b db1 where s: "miss_tx (mc_occurrence c) db = (b, db1)" by fastforce
  have one: "by_transactions env db db1" using by_one [of "Tx_Miss (mc_occurrence c)" db env] s by simp
  obtain r db2 where h: "renew_horizon env (mc_definition c) now db1 = (r, db2)" by fastforce
  have two: "by_transactions env db db2" using by_trans [OF one] horizon_by [of env db1 "mc_definition c" now] h by simp
  show ?case
    using s h two Cons.IH by_trans [OF one Cons.IH] by_trans [OF two Cons.IH]
    by (auto split: bool.splits sum.splits option.splits)
qed simp

text \<open>
  Every operation of the store is a sequence of its transactions: creating,
  re-declaring and removing a definition, an explicit run, the recovery of expired
  leases, the horizon, the overlap and misfire passes, the claims and a settlement.  With
  it the facts about interleavings hold of dispatchers that run these operations side by
  side.\<close>

theorem operations_are_transactions:
  assumes "inj (se_id env)" and "store_ok (se_id env) db"
  shows "by_transactions env db (snd (create_definition env c now db)) \<and>
         by_transactions env db (snd (update_definition env did c expected now db)) \<and>
         by_transactions env db (snd (remove_definition did db)) \<and>
         by_transactions env db (snd (create_run_now env did now db)) \<and>
         by_transactions env db (snd (recover_expired env now db)) \<and>
         by_transactions env db (snd (ensure_horizon env now db)) \<and>
         by_transactions env db (snd (reconcile_overlaps env now db)) \<and>
         by_transactions env db (snd (reconcile_misfires env now db)) \<and>
         by_transactions env db (snd (claim_due env now lease limit db)) \<and>
         by_transactions env db (snd (claim_run_now env oid now lease db)) \<and>
         by_transactions env db (snd (finish_run_with_facts env rid outcome facts now db))"
proof (intro conjI)
  show "by_transactions env db (snd (create_definition env c now db))"
    using by_one [of "Tx_Create _ _ now" db env]
    by (auto simp: create_definition_def Let_def split: sum.splits prod.splits)
  have "by_transactions env db (snd (update_definition_tx (se_id env) did revision wr n replacement db))" for revision wr n replacement
    using by_one [of "Tx_Update did revision wr n replacement" db env] by simp
  then show "by_transactions env db (snd (update_definition env did c expected now db))"
    by (auto simp: update_definition_def Let_def split: sum.splits prod.splits option.splits) (metis snd_conv)+
  show "by_transactions env db (snd (remove_definition did db))"
    using by_one [of "Tx_Delete did" db env] by (simp add: remove_definition_def)
  show "by_transactions env db (snd (create_run_now env did now db))"
    using by_one [of "Tx_Run_Now did now" db env] by (simp add: create_run_now_def)
  show "by_transactions env db (snd (recover_expired env now db))"
    unfolding recover_expired_def by (rule recover_each_by)
  show "by_transactions env db (snd (ensure_horizon env now db))"
    using ensure_each_by by (auto simp: ensure_horizon_def split: sum.splits)
  show "by_transactions env db (snd (reconcile_overlaps env now db))"
    unfolding reconcile_overlaps_def
    by (rule skip_each_by [OF assms(1)]) (auto simp: overlap_candidates_def intro: known_row [OF assms(2)])
  show "by_transactions env db (snd (reconcile_misfires env now db))"
    unfolding reconcile_misfires_def Let_def by (rule miss_each_by)
  have "\<forall>x \<in> set (claim_candidates now limit db). known (se_id env) db (oc_id x) (oc_definition x)"
    using known_row [OF assms(2)] by (auto simp: claim_candidates_def dest!: in_set_takeD)
  then show "by_transactions env db (snd (claim_due env now lease limit db))"
    unfolding claim_due_def by (rule claim_each_by [OF assms(1)])
  show "by_transactions env db (snd (claim_run_now env oid now lease db))"
    using claim_one_by [of env db] known_row [OF assms(2)]
    by (auto simp: claim_run_now_def find_Some_iff split: option.splits)
  have "by_transactions env db (snd (finish_tx rid outcome facts now db))"
    using by_one [of "Tx_Finish rid outcome facts now" db env] by simp
  moreover have "by_transactions env db' (snd (renew_horizon env i now db'))" for db' i by (rule horizon_by)
  ultimately show "by_transactions env db (snd (finish_run_with_facts env rid outcome facts now db))"
    by (auto simp: finish_run_with_facts_def Let_def split: option.splits sum.splits prod.splits)
      (metis by_trans snd_conv)+
qed

section \<open>A recurring definition always has a slot\<close>

text \<open>Offsets from universal time are whole seconds.\<close>

definition whole_offsets :: "zone \<Rightarrow> bool" where
  "whole_offsets z \<longleftrightarrow> (\<forall>t. (zn_local z t - t) mod sec_ns = 0)"

definition calendar_ready :: "calendar \<Rightarrow> instant \<Rightarrow> local_time \<Rightarrow> rstr \<Rightarrow> bool" where
  "calendar_ready cal b time z \<longleftrightarrow> zone_ok (cal_zone cal z) b \<and> whole_offsets (cal_zone cal z) \<and> time_ok time
     \<and> local_date b (cal_zone cal z) + 8 < MAX_DATE"

text \<open>A recurring rule as it is read from the store, anchors in milliseconds, asked at an
  instant the calendar covers.  Of a cron expression it is asked that croner finds an
  occurrence after that instant, on a whole millisecond.\<close>

fun rule_ready :: "calendar \<Rightarrow> trigger \<Rightarrow> instant \<Rightarrow> bool" where
  "rule_ready cal (Every anchor every) b \<longleftrightarrow>
     0 < as_secs every \<and> as_secs every \<le> 366 * 24 * 60 * 60 \<and> anchor mod 1000000 = 0"
| "rule_ready cal (Daily time z) b \<longleftrightarrow> calendar_ready cal b time z"
| "rule_ready cal (Weekly ds time z) b \<longleftrightarrow> calendar_ready cal b time z \<and> weekdays_from_bits ds = Inr ds"
| "rule_ready cal (Cron e z) b \<longleftrightarrow>
     (\<exists>cron n. parse_cron cal e = Inr cron \<and> b < n \<and> n mod 1000000 = 0 \<and>
        cal_cron_next cal cron z (case zn_floor_minute (cal_zone cal z) b of None \<Rightarrow> b | Some f \<Rightarrow> f) = Some n)"
| "rule_ready cal (Once at) b \<longleftrightarrow> False"

lemma probe_shows:
  assumes "zone_ok z b" and "queried z b n" and "n + 181 * minute_ns \<le> zn_local z b + 10 * day_ns"
    and "\<forall>k \<in> set ks. k < 181" and "probe z n ks = Some c"
  shows "\<exists>k. zn_local z c = n + int k * minute_ns"
  using assms(4,5)
proof (induction ks)
  case (Cons k ks)
  have q: "queried z b (n + int k * minute_ns)"
    by (rule queried_later [OF assms(2)]) (use assms(3) Cons.prems(1) in simp)
  show ?case
  proof (cases "zn_from_local z (n + int k * minute_ns)")
    case LR_None
    then show ?thesis using Cons by (simp split: if_splits)
  next
    case (LR_Single v)
    then have "c = v" using Cons.prems by (simp split: if_splits)
    then show ?thesis using zone_okD(1) [OF assms(1) q LR_Single] by blast
  next
    case (LR_Ambiguous v w)
    then have "c = v" using Cons.prems by (simp split: if_splits)
    then show ?thesis using zone_okD(2) [OF assms(1) q LR_Ambiguous] by blast
  qed
qed simp

lemma resolve_shows:
  assumes "zone_ok z b" and "time_ok t" and "local_date b z \<le> d" and "d \<le> local_date b z + 8"
    and "resolve_local d t z = Some c"
  shows "\<exists>k. zn_local z c = naive_time d t + int k * minute_ns"
proof -
  note q = day_queried [OF assms(2-4)]
  show ?thesis
  proof (cases "zn_from_local z (naive_time d t)")
    case LR_None
    then have "probe z (naive_time d t) [1..<181] = Some c" using assms(5) by (simp add: resolve_local_def split: if_splits)
    then show ?thesis by (intro probe_shows [OF assms(1) q]) auto
  next
    case (LR_Single v)
    then have "c = v" using assms(5) by (simp add: resolve_local_def split: if_splits)
    then show ?thesis using zone_okD(1) [OF assms(1) q(1) LR_Single] by (intro exI [of _ 0]) simp
  next
    case (LR_Ambiguous v w)
    then have "c = v" using assms(5) by (simp add: resolve_local_def split: if_splits)
    then show ?thesis using zone_okD(2) [OF assms(1) q(1) LR_Ambiguous] by (intro exI [of _ 0]) simp
  qed
qed

lemma shown_aligned:
  assumes "whole_offsets z" and "zn_local z c = naive_time d t + int k * minute_ns"
  shows "c mod 1000000 = 0"
proof -
  have "zn_local z c = ((d * 1440 + (int (lt_hour t) * 60 + int (lt_minute t)) + int k) * 60) * sec_ns"
    using assms(2) by (simp add: naive_time_def algebra_simps)
  moreover obtain q where "zn_local z c - c = q * sec_ns"
    using assms(1) unfolding whole_offsets_def by (metis mod_0_imp_dvd dvd_def mult.commute)
  ultimately have "c = ((d * 1440 + (int (lt_hour t) * 60 + int (lt_minute t)) + int k) * 60 - q) * 1000 * 1000000"
    by (simp add: algebra_simps)
  then show ?thesis by simp
qed

lemma search_aligned:
  assumes "zone_ok z now" and "whole_offsets z" and "time_ok time" and "search_days wanted time z now = Some n"
  shows "n mod 1000000 = 0"
proof -
  obtain i where "i < 9" "candidate wanted time z now i n"
    using search_from [of wanted time z now None "[0..<9]" n] assms(4) by (auto simp: search_days_def)
  then have "resolve_local (local_date now z + int i) time z = Some n"
    by (auto simp: candidate_def add_days_def split: if_splits)
  moreover have "local_date now z \<le> local_date now z + int i" "local_date now z + int i \<le> local_date now z + 8"
    using \<open>i < 9\<close> by simp_all
  ultimately obtain k where "zn_local z n = naive_time (local_date now z + int i) time + int k * minute_ns"
    using resolve_shows [OF assms(1,3)] by blast
  then show ?thesis by (rule shown_aligned [OF assms(2)])
qed

text \<open>A later slot exists, a millisecond away at least.\<close>

lemma next_is_later:
  assumes "rule_ready cal t b"
  shows "\<exists>n. next_after cal t b = Inr (Some n) \<and> b < n \<and> (n mod 1000000 = 0 \<or> b + 1000000 \<le> n)"
proof -
  have calendar: "\<exists>n. next_after cal t b = Inr (Some n) \<and> b < n \<and> n mod 1000000 = 0"
    if c: "calendar_ready cal b time z"
      and t: "t = Daily time z \<or> (t = Weekly ds time z \<and> weekdays_from_bits ds = Inr ds)" for time z ds
  proof -
    let ?z = "cal_zone cal z"
    have ok: "zone_ok ?z b" "whole_offsets ?z" "time_ok time" "local_date b ?z + 8 < MAX_DATE"
      using c by (simp_all add: calendar_ready_def)
    from calendar_next [OF ok(1,3,4) t] obtain n where n: "next_after cal t b = Inr (Some n)" "b < n" by blast
    obtain wanted where "search_days wanted time ?z b = Some n"
      using n(1) t by (auto simp: next_after_def split: sum.splits if_splits)
    then show ?thesis using n search_aligned [OF ok(1-3)] by blast
  qed
  show ?thesis
  proof (cases t)
    case (Every anchor every)
    let ?s = "int (as_secs every)" and ?k = "num_seconds (b - anchor)"
    have "0 < ?s" using assms(1) Every by simp
    then have "?k mod ?s < ?s" by (rule pos_mod_bound)
    then have "?s - ?k mod ?s \<ge> 1" by linarith
    then have "b + (?s - ?k mod ?s) * sec_ns \<ge> b + 1 * sec_ns" by (intro add_left_mono mult_right_mono) simp_all
    then show ?thesis using assms(1) Every by (auto simp: next_after_def)
  next
    case (Cron e z)
    then show ?thesis using assms(1) by (auto simp: next_after_def)
  qed (use assms(1) calendar in force)+
qed

lemma slot_max:
  assumes "last_slot db did = Some l"
  obtains m where "l = of_millis m" "\<forall>x \<in> set (db_occurrences db). oc_definition x = did \<longrightarrow> oc_scheduled_for x \<le> m"
    "\<exists>x \<in> set (db_occurrences db). oc_definition x = did \<and> oc_scheduled_for x = m"
proof -
  let ?xs = "map oc_scheduled_for (filter (\<lambda>x. oc_definition x = did) (db_occurrences db))"
  define m where "m = Max (set ?xs)"
  have ne: "?xs \<noteq> []" and l: "l = of_millis m"
    using assms by (auto simp: last_slot_def Let_def m_def split: if_splits)
  have "m \<in> set ?xs" unfolding m_def by (rule Max_in [OF finite_set]) (metis ne set_empty)
  then have "\<exists>x \<in> set (db_occurrences db). oc_definition x = did \<and> oc_scheduled_for x = m" by auto
  moreover have "\<forall>x \<in> set (db_occurrences db). oc_definition x = did \<longrightarrow> oc_scheduled_for x \<le> m"
    unfolding m_def by (intro ballI impI Max_ge) auto
  ultimately show ?thesis using that [OF l] by blast
qed

lemma no_slot: "last_slot db did = None \<Longrightarrow> x \<in> set (db_occurrences db) \<Longrightarrow> oc_definition x \<noteq> did"
  by (auto simp: last_slot_def Let_def filter_empty_conv split: if_splits)

lemma next_slot_new:
  assumes "rule_ready cal (sd_trigger d) now" and "last_slot db did = latest"
    and "\<forall>l. latest = Some l \<longrightarrow> l \<le> now \<and> rule_ready cal (sd_trigger d) l"
  shows "\<exists>n. next_slot cal d latest now = Inr (Some n) \<and> \<not> taken db did (timestamp_millis n)"
proof -
  define b where "b = (case latest of None \<Rightarrow> now | Some l \<Rightarrow> l)"
  have b: "b \<le> now" and ready: "rule_ready cal (sd_trigger d) b"
    using assms(1,3) by (simp_all add: b_def split: option.splits)
  obtain n where n: "next_after cal (sd_trigger d) b = Inr (Some n)" "b < n" "n mod 1000000 = 0 \<or> b + 1000000 \<le> n"
    using next_is_later [OF ready] by (elim exE conjE) (rule that)
  obtain n' where n': "next_after cal (sd_trigger d) now = Inr (Some n')" "now < n'"
    "n' mod 1000000 = 0 \<or> now + 1000000 \<le> n'" 
    using next_is_later [OF assms(1)] by (elim exE conjE) (rule that)
  obtain v where v: "successor_slot cal d b now = Inr (Some v)" "b < v" "v mod 1000000 = 0 \<or> b + 1000000 \<le> v"
  proof (cases "n \<le> now \<and> now - n > grace_of (sd_misfire_grace d)")
    case True
    then have "successor_slot cal d b now = Inr (Some n')" by (simp add: successor_slot_def n(1) n'(1))
    moreover have "b < n'" using b n'(2) by (rule le_less_trans)
    moreover have "n' mod 1000000 = 0 \<or> b + 1000000 \<le> n'"
      using n'(3) order_trans [OF add_right_mono [OF b, of 1000000]] by blast
    ultimately show ?thesis by (rule that)
  next
    case False
    then have "successor_slot cal d b now = Inr (Some n)" by (auto simp: successor_slot_def n(1))
    then show ?thesis using n(2,3) by (rule that)
  qed
  show ?thesis
  proof (cases latest)
    case None
    then have "\<not> taken db did (timestamp_millis v)"
      using no_slot [OF assms(2) [unfolded None]] by (auto simp: taken_def list_ex_iff)
    then show ?thesis using None v by (simp add: next_slot_def b_def)
  next
    case (Some l)
    obtain m where m: "l = of_millis m" "\<forall>x \<in> set (db_occurrences db). oc_definition x = did \<longrightarrow> oc_scheduled_for x \<le> m"
      using slot_max [OF assms(2) [unfolded Some]] by blast
    have "of_millis (m + 1) \<le> v"
    proof (cases "v mod 1000000 = 0")
      case True
      then obtain q where "v = q * 1000000" by (metis mod_0_imp_dvd dvd_def mult.commute)
      then show ?thesis using v(2) m(1) Some by (simp add: b_def of_millis_def)
    qed (use v(3) m(1) Some in \<open>simp add: b_def of_millis_def\<close>)
    then have "m + 1 \<le> timestamp_millis v"
      unfolding timestamp_millis_def of_millis_def using zdiv_mono1 [of "(m + 1) * 1000000" v 1000000] by simp
    then have "\<not> taken db did (timestamp_millis v)" using m(2) by (force simp: taken_def list_ex_iff)
    moreover have "next_slot cal d latest now = Inr (Some v)"
      using v assms(3) Some by (simp add: next_slot_def b_def)
    ultimately show ?thesis by blast
  qed
qed

text \<open>
  C22. A schedule never dies out.  Whenever the horizon of an enabled recurring definition
  is ensured, after a settlement, a skip, a miss or at the start of a pass, the definition
  is left with a slot that is still to come or waiting to be claimed, however long no
  dispatcher ran.  The rule must be one its calendar can answer at the two instants the
  code asks it about, now and the definition's last slot: a daily or weekly rule in a
  fortnight without a skipped day, a cron expression croner finds an occurrence for.\<close>

theorem schedule_always_has_a_slot:
  assumes "sd_enabled d" and "rule_ready (se_calendar env) (sd_trigger d) now"
    and "\<forall>l. last_slot db (sd_id d) = Some l \<longrightarrow> rule_ready (se_calendar env) (sd_trigger d) l"
    and "sd_id d \<in> dr_id ` set (db_definitions db)"
  shows "\<exists>r db'. ensure_next_occurrence env d now db = (Inr r, db') \<and>
           (\<exists>x \<in> set (db_occurrences db'). oc_definition x = sd_id d \<and>
              (oc_state x = OS_Pending \<or> now < of_millis (oc_scheduled_for x)))"
proof (cases "sd_overlap d = QueueOne
    \<and> list_ex (\<lambda>x. oc_definition x = sd_id d \<and> oc_state x = OS_Pending) (db_occurrences db)")
  case True
  then show ?thesis using assms(1) by (auto simp: ensure_next_occurrence_def list_ex_iff)
next
  case free: False
  let ?last = "last_slot db (sd_id d)"
  show ?thesis
  proof (cases "\<exists>l. ?last = Some l \<and> l > now")
    case True
    then obtain l where l: "?last = Some l" "l > now" by blast
    then obtain x where "x \<in> set (db_occurrences db)" "oc_definition x = sd_id d" "of_millis (oc_scheduled_for x) = l"
      using slot_max [OF l(1)] by metis
    then show ?thesis
      using assms(1) free l by (auto simp: ensure_next_occurrence_def next_slot_def)
  next
    case False
    then obtain n where n: "next_slot (se_calendar env) d ?last now = Inr (Some n)"
      "\<not> taken db (sd_id d) (timestamp_millis n)"
      using next_slot_new [OF assms(2) refl, of db "sd_id d"] assms(3) by force
    have "list_ex (\<lambda>r. dr_id r = sd_id d) (db_definitions db)" using assms(4) by (auto simp: list_ex_iff)
    then show ?thesis
      using assms(1) free n by (auto simp: ensure_next_occurrence_def insert_slot_tx_def new_occurrence_def)
  qed
qed

section \<open>Recovery after an outage\<close>

lemma spent_run:
  "store_run gen db ts db' \<Longrightarrow> inj gen \<Longrightarrow> minted_id gen db i \<Longrightarrow> spent db i \<Longrightarrow> spent db' i"
  by (induction rule: store_run.induct) (simp_all add: spent_stays minted_stays)

lemma minted_run: "store_run gen db ts db' \<Longrightarrow> minted_id gen db i \<Longrightarrow> minted_id gen db' i"
  by (induction rule: store_run.induct) (simp_all add: minted_stays)

lemma spent_by:
  "by_transactions env db db' \<Longrightarrow> inj (se_id env) \<Longrightarrow> minted_id (se_id env) db i \<Longrightarrow> spent db i \<Longrightarrow> spent db' i"
  unfolding by_transactions_def using spent_run by blast

lemma minted_by: "by_transactions env db db' \<Longrightarrow> minted_id (se_id env) db i \<Longrightarrow> minted_id (se_id env) db' i"
  unfolding by_transactions_def using minted_run by blast

lemma miss_spends: "miss_tx i db = (b, db') \<Longrightarrow> spent db' i"
proof (cases "list_ex (pending_id i) (db_occurrences db)")
  case True
  assume "miss_tx i db = (b, db')"
  then have "db' = db\<lparr>db_occurrences := update_where (pending_id i) (\<lambda>x. x\<lparr>oc_state := OS_Missed\<rparr>) (db_occurrences db)\<rparr>"
    using True by (simp add: miss_tx_def)
  then show ?thesis
    using claimed_updates [where i = i and f = "\<lambda>x. x\<lparr>oc_state := OS_Missed\<rparr>" and xs = "db_occurrences db"]
    by (simp add: spent_def)
next
  case False
  assume "miss_tx i db = (b, db')"
  then show ?thesis using False by (auto simp: miss_tx_def spent_def list_ex_iff)
qed

text \<open>A pass that succeeds misses every overdue candidate it does not keep.\<close>

lemma miss_each_spends:
  assumes "inj (se_id env)"
  shows "miss_each env now newest cs n db = (Inr k, db') \<Longrightarrow> c \<in> set cs \<Longrightarrow> overdue now c \<Longrightarrow>
    \<forall>p. misfire_parse (mc_policy c) = Some p \<longrightarrow> \<not> kept_for_recovery newest p c \<Longrightarrow>
    minted_id (se_id env) db (mc_occurrence c) \<Longrightarrow> spent db' (mc_occurrence c)"
proof (induction cs arbitrary: n db)
  case (Cons e cs)
  obtain p where p: "misfire_parse (mc_policy e) = Some p" using Cons.prems(1) by (auto split: option.splits)
  show ?case
  proof (cases "\<not> overdue now e \<or> kept_for_recovery newest p e")
    case True
    then have "e \<noteq> c" using Cons.prems(3,4) p by auto
    moreover have "miss_each env now newest cs n db = (Inr k, db')" using Cons.prems(1) p True by simp
    ultimately show ?thesis using Cons by simp
  next
    case False
    obtain b db1 where m: "miss_tx (mc_occurrence e) db = (b, db1)" by fastforce
    obtain r db2 where h: "renew_horizon env (mc_definition e) now db1 = (r, db2)" by fastforce
    have one: "by_transactions env db db1" using by_one [of "Tx_Miss (mc_occurrence e)" db env] m by simp
    have two: "by_transactions env db1 db2" using horizon_by [of env db1 "mc_definition e" now] h by simp
    obtain db3 n' where rest: "miss_each env now newest cs n' db3 = (Inr k, db')" "db3 = db1 \<or> db3 = db2"
      using Cons.prems(1) p False m h by (auto split: bool.splits sum.splits)
    have to3: "by_transactions env db db3" "by_transactions env db1 db3" using one two rest(2) by (auto intro: by_trans)
    have minted: "minted_id (se_id env) db3 (mc_occurrence c)" by (rule minted_by [OF to3(1) Cons.prems(5)])
    show ?thesis
    proof (cases "e = c")
      case True
      have "spent db3 (mc_occurrence c)"
        using spent_by [OF to3(2) assms minted_by [OF one Cons.prems(5)]] miss_spends [OF m] True by simp
      moreover have "by_transactions env db3 db'" using miss_each_by [of env db3 now newest cs n'] rest(1) by simp
      ultimately show ?thesis using spent_by assms minted by blast
    next
      case False
      then show ?thesis using Cons.IH [OF rest(1)] Cons.prems(2-4) minted by simp
    qed
  qed
qed simp

lemma newest_is_newest:
  assumes "newest_overdue now cs did = Some (i, s)"
  shows "\<exists>c \<in> set cs. mc_definition c = did \<and> mc_occurrence c = i \<and> mc_slot c = s"
    and "\<forall>c \<in> set cs. mc_definition c = did \<longrightarrow> misfire_parse (mc_policy c) = Some RunOnceOnRecovery \<longrightarrow>
           overdue now c \<longrightarrow> mc_slot c \<le> s"
proof -
  have "(\<exists>c \<in> set cs. mc_definition c = did \<and> mc_occurrence c = i \<and> mc_slot c = s) \<and>
      (\<forall>c \<in> set cs. mc_definition c = did \<longrightarrow> misfire_parse (mc_policy c) = Some RunOnceOnRecovery \<longrightarrow>
         overdue now c \<longrightarrow> mc_slot c \<le> s)"
    using assms
  proof (induction cs arbitrary: i s rule: rev_induct)
    case (snoc c cs)
    have step: "newest_overdue now (cs @ [c]) = note_newest now (newest_overdue now cs) c" by (simp add: newest_overdue_def)
    show ?case
    proof (cases "newest_overdue now cs did = Some (i, s)")
      case True
      with snoc.prems have "mc_definition c = did \<longrightarrow> misfire_parse (mc_policy c) = Some RunOnceOnRecovery \<longrightarrow>
          overdue now c \<longrightarrow> mc_slot c \<le> s"
        unfolding step note_newest_def by (auto split: if_splits)
      then show ?thesis using snoc.IH [OF True] by auto
    next
      case False
      with snoc.prems have c: "mc_definition c = did" "mc_occurrence c = i" "mc_slot c = s"
        and old: "\<And>j t. newest_overdue now cs did = Some (j, t) \<Longrightarrow> t < s"
        unfolding step note_newest_def by (auto split: if_splits option.splits)
      have "mc_slot e \<le> s" if "e \<in> set cs" "mc_definition e = did" "misfire_parse (mc_policy e) = Some RunOnceOnRecovery"
        "overdue now e" for e
      proof (cases "newest_overdue now cs did")
        case None
        have "newest_overdue now es did \<noteq> None" if "e \<in> set es" for es
          using that \<open>mc_definition e = did\<close> \<open>misfire_parse (mc_policy e) = _\<close> \<open>overdue now e\<close>
        proof (induction es rule: rev_induct)
          case (snoc f fs)
          then show ?case by (auto simp: newest_overdue_def note_newest_def split: option.splits)
        qed simp
        with None that(1) show ?thesis by blast
      next
        case (Some q)
        obtain j t where q: "q = (j, t)" by fastforce
        have "mc_slot e \<le> t" using snoc.IH [of j t] Some q that by simp
        then show ?thesis using old Some q by fastforce
      qed
      then show ?thesis using c by auto
    qed
  qed (simp add: newest_overdue_def)
  then show "\<exists>c \<in> set cs. mc_definition c = did \<and> mc_occurrence c = i \<and> mc_slot c = s"
    and "\<forall>c \<in> set cs. mc_definition c = did \<longrightarrow> misfire_parse (mc_policy c) = Some RunOnceOnRecovery \<longrightarrow>
           overdue now c \<longrightarrow> mc_slot c \<le> s" by blast+
qed

text \<open>The generated slots of a definition that are overdue by more than its grace.\<close>

definition late :: "instant \<Rightarrow> schedule_db \<Rightarrow> definition_row \<Rightarrow> occurrence_row set" where
  "late now db r = {x \<in> set (db_occurrences db). generated_pending (dr_id r) x
     \<and> now - of_millis (oc_scheduled_for x) > max 0 (dr_misfire_grace_secs r) * sec_ns}"

definition candidate_for :: "definition_row \<Rightarrow> occurrence_row \<Rightarrow> misfire_candidate" where
  "candidate_for r x = \<lparr>mc_occurrence = oc_id x, mc_definition = oc_definition x,
     mc_slot = of_millis (oc_scheduled_for x), mc_policy = dr_misfire_policy r,
     mc_grace = max 0 (dr_misfire_grace_secs r) * sec_ns\<rparr>"

lemma late_candidate:
  assumes "store_ok gen db" and "r \<in> set (db_definitions db)" and "dr_enabled r = 1" and "x \<in> late now db r"
  shows "candidate_for r x \<in> set (misfire_candidates now db)" and "overdue now (candidate_for r x)"
    and "mc_definition (candidate_for r x) = dr_id r"
proof -
  have x: "x \<in> set (db_occurrences db)" "oc_definition x = dr_id r" "oc_state x = OS_Pending" "\<not> oc_run_now x"
    "now - of_millis (oc_scheduled_for x) > max 0 (dr_misfire_grace_secs r) * sec_ns"
    using assms(4) by (simp_all add: late_def generated_pending_def)
  then show "overdue now (candidate_for r x)" "mc_definition (candidate_for r x) = dr_id r"
    by (simp_all add: overdue_def candidate_for_def)
  have "of_millis (oc_scheduled_for x) \<le> now" using x(5) by (smt (verit) mult_nonneg_nonneg)
  then have "oc_scheduled_for x \<le> timestamp_millis now"
    unfolding timestamp_millis_def of_millis_def using zdiv_mono1 [of "oc_scheduled_for x * 1000000" now 1000000] by simp
  moreover have "definition_row_of db x = Some r"
  proof -
    obtain s where s: "find (\<lambda>s. dr_id s = dr_id r) (db_definitions db) = Some s"
      using assms(2) by (cases "find (\<lambda>s. dr_id s = dr_id r) (db_definitions db)") (auto simp: find_None_iff)
    then have "s \<in> set (db_definitions db)" "dr_id s = dr_id r" by (auto simp: find_Some_iff)
    then have "s = r" using store_okD(1) [OF assms(1)] assms(2) by (auto simp: distinct_map dest: inj_onD)
    then show ?thesis using s x(2) by (simp add: definition_row_of_def)
  qed
  ultimately show "candidate_for r x \<in> set (misfire_candidates now db)"
    using x(1,3,4) assms(3) by (force simp: misfire_candidates_def due_def candidate_for_def)
qed

text \<open>
  C23. An outage is never made up for in a burst.  After the misfire pass, of the slots of
  an enabled definition that were overdue beyond its grace at most one is still pending;
  then the definition runs once on recovery and the slot is its newest.  Under the skip
  policy none is left.\<close>

theorem misfires_leave_at_most_the_newest:
  assumes "inj (se_id env)" and "store_ok (se_id env) db" and "r \<in> set (db_definitions db)" and "dr_enabled r = 1"
    and "reconcile_misfires env now db = (Inr n, db')"
  shows "\<forall>x \<in> late now db r. \<not> spent db' (oc_id x) \<longrightarrow>
           misfire_parse (dr_misfire_policy r) = Some RunOnceOnRecovery \<and>
           (\<forall>y \<in> late now db r. y \<noteq> x \<longrightarrow> spent db' (oc_id y) \<and> oc_scheduled_for y < oc_scheduled_for x)"
proof -
  let ?cs = "misfire_candidates now db"
  let ?new = "newest_overdue now ?cs"
  have pass: "miss_each env now ?new ?cs 0 db = (Inr n, db')"
    using assms(5) by (simp add: reconcile_misfires_def Let_def)
  have kept: "misfire_parse (dr_misfire_policy r) = Some RunOnceOnRecovery \<and>
      (\<exists>s. ?new (dr_id r) = Some (oc_id x, s))" if x: "x \<in> late now db r" "\<not> spent db' (oc_id x)" for x
  proof -
    note c = late_candidate [OF assms(2-4) x(1)]
    have "oc_id x \<in> identities db" using x(1) by (simp add: late_def identities_def)
    then have "minted_id (se_id env) db (mc_occurrence (candidate_for r x))"
      using store_okD(9) [OF assms(2)] by (auto simp: minted_id_def candidate_for_def)
    then obtain p where "misfire_parse (mc_policy (candidate_for r x)) = Some p" "kept_for_recovery ?new p (candidate_for r x)"
      using miss_each_spends [OF assms(1) pass c(1,2)] x(2) by (auto simp: candidate_for_def)
    then show ?thesis using c(3) by (auto simp: kept_for_recovery_def candidate_for_def split: option.splits)
  qed
  show ?thesis
  proof (intro ballI impI conjI)
    fix x assume x: "x \<in> late now db r" "\<not> spent db' (oc_id x)"
    obtain s where pol: "misfire_parse (dr_misfire_policy r) = Some RunOnceOnRecovery"
      and s: "?new (dr_id r) = Some (oc_id x, s)" using kept [OF x] by blast
    show "misfire_parse (dr_misfire_policy r) = Some RunOnceOnRecovery" by (rule pol)
    have occ: "z \<in> set (db_occurrences db)" "oc_definition z = dr_id r" if "z \<in> late now db r" for z
      using that by (simp_all add: late_def generated_pending_def)
    fix y assume y: "y \<in> late now db r" "y \<noteq> x"
    then have ne: "oc_id y \<noteq> oc_id x" using same_occurrence [OF assms(2)] occ x(1) by blast
    then show "spent db' (oc_id y)" using kept [OF y(1)] s by auto
    obtain c where c: "c \<in> set ?cs" "mc_occurrence c = oc_id x" "mc_slot c = s"
      using newest_is_newest(1) [OF s] by blast
    then obtain x' where "x' \<in> set (db_occurrences db)" "oc_id x' = oc_id x" "s = of_millis (oc_scheduled_for x')"
      by (auto simp: misfire_candidates_def split: option.splits if_splits)
    then have sx: "s = of_millis (oc_scheduled_for x)" using same_occurrence [OF assms(2) _ occ(1) [OF x(1)]] by blast
    have "mc_slot (candidate_for r y) \<le> s"
      using newest_is_newest(2) [OF s] late_candidate [OF assms(2-4) y(1)] pol by (auto simp: candidate_for_def)
    then have "oc_scheduled_for y \<le> oc_scheduled_for x" by (simp add: sx candidate_for_def of_millis_def)
    moreover have "oc_scheduled_for y \<noteq> oc_scheduled_for x"
      using store_okD(5) [OF assms(2)] occ x(1) y by (auto simp: distinct_map inj_on_def)
    ultimately show "oc_scheduled_for y < oc_scheduled_for x" by simp
  qed
qed

definition demo_env :: "rstr store_env" where
  "demo_env = \<lparr>se_json = text_json, se_grants = \<lparr>gl_to_string = \<lambda>_. None, gl_parse = \<lambda>_. None\<rparr>,
     se_calendar = spring_calendar, se_absolute = \<lambda>_. True, se_canonicalize = Some, se_is_dir = \<lambda>_. True,
     se_id = letters, se_time_text = \<lambda>_. []\<rparr>"

lemma demo_id [simp]: "se_id demo_env = letters"
  by (simp add: demo_env_def)

theorem operations_are_transactions_witness:
  "by_transactions demo_env created_db (snd (claim_due demo_env 0 (secs 120) 5 created_db)) \<and>
   by_transactions demo_env created_db (snd (reconcile_overlaps demo_env 0 created_db))"
  using operations_are_transactions [of demo_env created_db] letters_inj created_ok by simp

theorem schedule_always_has_a_slot_witness:
  "\<exists>r db'. ensure_next_occurrence demo_env
             (nightly\<lparr>sd_id := letters 0, sd_trigger := Every 0 (secs 3600)\<rparr>) 7200000000000 created_db = (Inr r, db') \<and>
     (\<exists>x \<in> set (db_occurrences db'). oc_definition x = letters 0 \<and>
        (oc_state x = OS_Pending \<or> 7200000000000 < of_millis (oc_scheduled_for x)))"
proof -
  let ?d = "nightly\<lparr>sd_id := letters 0, sd_trigger := Every 0 (secs 3600)\<rparr>"
  have "sd_enabled ?d" by (simp add: nightly_def)
  moreover have "rule_ready (se_calendar demo_env) (sd_trigger ?d) b" for b by (simp add: as_secs_def)
  moreover have "sd_id ?d \<in> dr_id ` set (db_definitions created_db)" by (simp add: created_definitions)
  ultimately show ?thesis
    using schedule_always_has_a_slot [of ?d demo_env 7200000000000 created_db] by simp
qed

theorem misfires_leave_at_most_the_newest_witness:
  "misfire_parse (dr_misfire_policy (hd (db_definitions created_db))) = Some RunOnceOnRecovery"
proof -
  let ?r = "hd (db_definitions created_db)" and ?x = "hd (db_occurrences created_db)"
  have r: "?r \<in> set (db_definitions created_db)" "dr_enabled ?r = 1" by (simp_all add: created_definitions)
  have x: "?x \<in> late 60000000000 created_db ?r"
    by (simp add: late_def generated_pending_def created_occurrences created_definitions new_occurrence_def
        demo_row_def blank_row_def of_millis_def)
  have cs: "misfire_candidates 60000000000 created_db = [candidate_for ?r ?x]"
    by (simp add: misfire_candidates_def created_occurrences created_definitions new_occurrence_def due_def
        timestamp_millis_def definition_row_of_def candidate_for_def)
  have policy: "misfire_parse (mc_policy (candidate_for ?r ?x)) = Some RunOnceOnRecovery"
    by (simp add: candidate_for_def created_definitions demo_row_def misfire_parse_def)
  have over: "overdue 60000000000 (candidate_for ?r ?x)"
    by (rule late_candidate(2) [OF created_ok r x])
  have keep: "kept_for_recovery (newest_overdue 60000000000 [candidate_for ?r ?x]) RunOnceOnRecovery (candidate_for ?r ?x)"
    using policy over by (simp add: kept_for_recovery_def newest_overdue_def note_newest_def)
  have pass: "reconcile_misfires demo_env 60000000000 created_db = (Inr 0, created_db)"
    unfolding reconcile_misfires_def Let_def cs using policy keep by simp
  have "\<not> spent created_db (oc_id ?x)"
    by (simp add: spent_def created_occurrences pending_id_def new_occurrence_def)
  then show ?thesis
    using misfires_leave_at_most_the_newest [of demo_env created_db ?r 60000000000 0 created_db] letters_inj created_ok r pass x
    by simp
qed

end
