(* ===== verification/Schedule_Dispatch_Correct.thy ===== *)
theory Schedule_Dispatch_Correct
  imports Schedule_Dispatch Schedule_Passes_Correct
begin

text \<open>
  The dispatcher: nothing reaches the runtime or the native executor without a stored
  grant that covers the action now, a turn that is not the run's own is neither cancelled
  nor taken for its outcome, the wait for a shell ends, and what the approval policy of a
  session is after a hand-off.
\<close>

section \<open>Settling\<close>

named_theorems dispatch_simps

lemmas [dispatch_simps] = handling_def returning_def raising_def timed_def on_store_def on_write_def read_definition_def

lemma renew_horizon_runs: "db_runs (snd (renew_horizon env did now db)) = db_runs db"
  by (auto simp: renew_horizon_def ensure_next_occurrence_def insert_slot_tx_def Let_def
      split: sum.splits option.splits prod.splits if_splits)

lemma find_update_where:
  assumes "find p xs = Some x" and "\<And>y. p (f y) = p y"
  shows "find p (update_where q f xs) = Some (if q x then f x else x)"
  using assms by (induction xs) (auto simp: update_where_def split: if_splits)

lemma finish_tx_run:
  assumes "run_of rid db = Some x"
  shows "run_of rid (snd (finish_tx rid outcome facts now db)) =
           Some (if active x then settle_run outcome facts (timestamp_millis now) x else x)"
proof -
  have "rn_id x = rid" using assms by (auto simp: run_of_def find_Some_iff)
  moreover have "find (\<lambda>r. rn_id r = rid) (update_where (active_id rid) (settle_run outcome facts (timestamp_millis now)) (db_runs db)) =
      Some (if active_id rid x then settle_run outcome facts (timestamp_millis now) x else x)"
    by (rule find_update_where) (use assms in \<open>simp_all add: run_of_def settle_run_def\<close>)
  ultimately show ?thesis
    by (simp add: finish_tx_def update_runs_def run_of_def active_id_def Let_def)
qed

lemma settle_runtime [simp]: "w_runtime (snd (settle_with_facts d rid outcome facts w)) = w_runtime w"
  by (simp add: settle_with_facts_def dispatch_simps split: prod.splits sum.splits)

lemma settle_run_state:
  assumes "run_of rid (w_db w) = Some x" and "active x"
  shows "\<exists>y. run_of rid (w_db (snd (settle_with_facts d rid outcome facts w))) = Some y \<and> rn_state y = outcome_state outcome"
proof -
  let ?now = "dp_now d w" and ?o = "outcome"
  let ?db = "snd (finish_tx rid ?o facts ?now (w_db w))"
  have r: "run_of rid ?db = Some (settle_run ?o facts (timestamp_millis ?now) x)"
    using finish_tx_run [OF assms(1)] assms(2) by simp
  have "w_db (snd (settle_with_facts d rid outcome facts w)) =
      snd (renew_horizon (dp_env d) (rn_definition (settle_run ?o facts (timestamp_millis ?now) x)) ?now ?db)"
    using r by (simp add: settle_with_facts_def dispatch_simps finish_run_with_facts_def Let_def
        split: prod.splits sum.splits)
  then show ?thesis
    using r by (simp add: run_of_def renew_horizon_runs settle_run_def)
qed

lemma give_up_returning:
  "give_up d rid outcome w = (case settle d rid outcome w of (Inl e, w') \<Rightarrow> (Inl e, w') | (Inr s, w') \<Rightarrow> (Inr (Returned s), w'))"
  by (simp add: give_up_def dispatch_simps split: prod.split sum.split)

section \<open>Starting\<close>

text \<open>The definition as it is stored now authorizes the claimed action: it is the same
  action, and a grant covers it with the external effects the action may have.\<close>

definition external_effects :: "('j, 'r) dispatcher \<Rightarrow> 'j schedule_action \<Rightarrow> bool option" where
  "external_effects d a =
     (case a of
        Native action _ \<Rightarrow> (case dp_classify d of None \<Rightarrow> None
          | Some classify \<Rightarrow> (case classify action of Inl _ \<Rightarrow> None | Inr external \<Rightarrow> Some external))
      | _ \<Rightarrow> Some True)"

definition may_start :: "('j, 'r) dispatcher \<Rightarrow> 'j claim \<Rightarrow> schedule_db \<Rightarrow> bool" where
  "may_start d c db \<longleftrightarrow>
     (\<exists>current g external.
        definition_of (dp_env d) (sd_id (cl_definition c)) db = Inr (Some current) \<and>
        sd_action current = sd_action (cl_definition c) \<and>
        sd_unattended current = Some g \<and>
        external_effects d (sd_action current) = Some external \<and>
        grant_covers (se_json (dp_env d)) g current (kind_of (sd_action current)) external = Inr ())"

text \<open>The run is given up: it is settled as blocked or failed and nothing was called.\<close>

definition given_up :: "('j, 'r) dispatcher \<Rightarrow> rstr \<Rightarrow> 'r world \<Rightarrow> (schedule_error + schedule_run_state) \<times> 'r world \<Rightarrow> bool" where
  "given_up d rid w x \<longleftrightarrow> (\<exists>outcome. outcome_state outcome \<in> {RS_Blocked, RS_Failed} \<and> x = settle d rid outcome w)"

lemma given_up_settle [simp]:
  "given_up d rid w (settle d rid (RO_Blocked e) w)" "given_up d rid w (settle d rid (RO_Failed x e) w)"
  unfolding given_up_def by (rule exI, rule conjI [OF _ refl], simp)+

lemma authorization_iff:
  "unattended_authorization js s kind external = Inr () \<longleftrightarrow>
     (\<exists>g. sd_unattended s = Some g \<and> grant_covers js g s kind external = Inr ())"
  by (cases "sd_unattended s") (simp_all add: unattended_authorization_def and_then_def opt_err_def)

lemma run_native_given_up:
  assumes "\<not> may_start d c (w_db w)" and "sd_action (cl_definition c) = Native action input"
  shows "given_up d (cl_run c) w (run_native d c w)"
proof -
  have "unattended_authorization (se_json (dp_env d)) s AK_Native external \<noteq> Inr ()"
    if "definition_of (dp_env d) (sd_id (cl_definition c)) (w_db w) = Inr (Some s)"
      and "sd_action s = Native action input" and "dp_classify d = Some f" and "f action = Inr external"
    for s f external
    using assms that by (auto simp: may_start_def authorization_iff external_effects_def)
  then show ?thesis
    using assms(2) by (auto simp: run_native_def Let_def dispatch_simps split: option.splits sum.splits)
qed

lemma handoff_given_up:
  assumes "\<not> may_start d c (w_db w)" and "sd_action (cl_definition c) = Agent goal"
  shows "given_up d (cl_run c) w (handoff_agent d c w)"
proof -
  have "unattended_authorization (se_json (dp_env d)) s AK_Agent True \<noteq> Inr ()"
    if "definition_of (dp_env d) (sd_id (cl_definition c)) (w_db w) = Inr (Some s)" and "sd_action s = Agent goal" for s
    using assms that by (auto simp: may_start_def authorization_iff external_effects_def)
  then have "agent_refusal d (cl_definition c) s \<noteq> None"
    if "definition_of (dp_env d) (sd_id (cl_definition c)) (w_db w) = Inr (Some s)" for s
    using that assms(2) by (auto simp: agent_refusal_def split: sum.splits)
  then show ?thesis
    by (auto simp: handoff_agent_def Let_def dispatch_simps split: option.splits sum.splits)
qed

lemma run_shell_given_up:
  assumes "\<not> may_start d c (w_db w)" and "sd_action (cl_definition c) = Shell command"
  shows "\<exists>x. run_shell d c w = Some x \<and> given_up d (cl_run c) w x"
proof -
  have "unattended_authorization (se_json (dp_env d)) s AK_Shell True \<noteq> Inr ()"
    if "definition_of (dp_env d) (sd_id (cl_definition c)) (w_db w) = Inr (Some s)" and "sd_action s = Shell command" for s
    using assms that by (auto simp: may_start_def authorization_iff external_effects_def)
  then have no: "shell_refusal d (cl_definition c) s \<noteq> None"
    if "definition_of (dp_env d) (sd_id (cl_definition c)) (w_db w) = Inr (Some s)" for s
    using that assms(2) by (auto simp: shell_refusal_def split: sum.splits)
  have "\<exists>outcome. outcome_state outcome \<in> {RS_Blocked, RS_Failed} \<and> shell_start d c w = give_up d (cl_run c) outcome w"
  proof (cases "definition_of (dp_env d) (sd_id (cl_definition c)) (w_db w)")
    case (Inl e)
    then show ?thesis using assms(2)
      by (intro exI [of _ "RO_Failed None (lit ''could not re-read the schedule before executing it: '' @ dp_error_text d e)"])
        (simp add: shell_start_def Let_def dispatch_simps)
  next
    case (Inr r)
    show ?thesis
    proof (cases r)
      case None
      then show ?thesis using assms(2) Inr
        by (intro exI [of _ "RO_Blocked (lit ''the schedule was removed after this occurrence was claimed'')"])
          (simp add: shell_start_def Let_def dispatch_simps)
    next
      case (Some s)
      then obtain reason where "shell_refusal d (cl_definition c) s = Some reason" using no Inr by auto
      then show ?thesis using assms(2) Inr Some
        by (intro exI [of _ "RO_Blocked reason"]) (simp add: shell_start_def Let_def dispatch_simps)
    qed
  qed
  then obtain outcome where o: "outcome_state outcome \<in> {RS_Blocked, RS_Failed}"
    and start: "shell_start d c w = give_up d (cl_run c) outcome w" by blast
  have "run_shell d c w = Some (settle d (cl_run c) outcome w)"
    by (cases "settle d (cl_run c) outcome w"; cases "fst (settle d (cl_run c) outcome w)")
      (simp_all add: run_shell_def start give_up_returning)
  then show ?thesis using o by (auto simp: given_up_def)
qed

text \<open>
  C7. Nothing starts without a grant that covers it now.  If the definition, as it is
  stored when the claim is run, is gone, names another action, has no grant or has one
  that does not cover the action with its external effects, the claim's run is settled
  as blocked or failed and neither the runtime nor the native executor is called: a grant
  revoked, or a schedule edited, after the claim is honoured.\<close>

theorem nothing_starts_without_a_grant:
  assumes "\<not> may_start d c (w_db w)"
  shows "\<exists>r w'. run_claim d c w = Some (r, w') \<and> w_runtime w' = w_runtime w \<and>
           (\<forall>x. run_of (cl_run c) (w_db w) = Some x \<and> active x \<longrightarrow>
              (\<exists>y. run_of (cl_run c) (w_db w') = Some y \<and> rn_state y \<in> {RS_Blocked, RS_Failed}))"
proof -
  obtain x where x: "run_claim d c w = Some x" and g: "given_up d (cl_run c) w x"
    using run_native_given_up [OF assms] handoff_given_up [OF assms] run_shell_given_up [OF assms]
    by (cases "sd_action (cl_definition c)") (auto simp: run_claim_def)
  obtain outcome where o: "outcome_state outcome \<in> {RS_Blocked, RS_Failed}" and s: "x = settle d (cl_run c) outcome w"
    using g by (auto simp: given_up_def)
  have "w_runtime (snd x) = w_runtime w" by (simp add: s settle_def)
  moreover have "\<exists>y. run_of (cl_run c) (w_db (snd x)) = Some y \<and> rn_state y \<in> {RS_Blocked, RS_Failed}"
    if "run_of (cl_run c) (w_db w) = Some z" "active z" for z
    using settle_run_state [OF that, of d outcome no_facts] o by (auto simp: s settle_def)
  ultimately show ?thesis using x by (cases x) auto
qed

section \<open>Whose turn it is\<close>

lemma reporting_eq:
  "reporting m w = (case m w of (Inl e, w') \<Rightarrow> (Inl e, w') | (Inr s, w') \<Rightarrow> (Inr (Some s), w'))"
  by (simp add: reporting_def dispatch_simps split: prod.split sum.split)

lemma reporting_snd [simp]: "snd (reporting m w) = snd (m w)"
  by (simp add: reporting_eq split: prod.split sum.split)

lemma settle_outcome:
  assumes "run_of rid (w_db w) = Some x" and "run_of rid (w_db (snd (settle_with_facts d rid outcome facts w))) = Some y"
  shows "rn_state y = (if active x then outcome_state outcome else rn_state x)"
proof (cases "active x")
  case True
  then show ?thesis using settle_run_state [OF assms(1) True, of d outcome facts] assms(2) by auto
next
  case False
  let ?db = "snd (finish_tx rid outcome facts (dp_now d w) (w_db w))"
  have r: "run_of rid ?db = Some x" using finish_tx_run [OF assms(1)] False by simp
  have "w_db (snd (settle_with_facts d rid outcome facts w)) =
      snd (renew_horizon (dp_env d) (rn_definition x) (dp_now d w) ?db)"
    using r by (simp add: settle_with_facts_def dispatch_simps finish_run_with_facts_def Let_def
        split: prod.splits sum.splits)
  then show ?thesis using r assms(2) False by (simp add: run_of_def renew_horizon_runs)
qed

lemma settle_outlived_is_unknown:
  obtains msg where "snd (settle_outlived d r s owns w) = snd (settle_with_facts d (rn_id r) (RO_Unknown msg) (provider_facts s) w)"
  unfolding settle_outlived_def reporting_snd by blast

text \<open>
  C35. A turn that is not the run's own is left alone.  When the newest turn of the
  session is not the one this run started, or that was never established, observing the
  session neither cancels anything nor takes any outcome from it: no call is made, and
  the run stays as it was or, once its deadline and the grace are over, becomes unknown.\<close>

theorem foreign_turns_are_left_alone:
  assumes "\<not> owns_newest_turn r sn" and "judge_agent d now r s session sn w = (res, w')"
    and "run_of (rn_id r) (w_db w) = Some x" and "run_of (rn_id r) (w_db w') = Some y"
  shows "w_runtime w' = w_runtime w \<and>
         (rn_state y = rn_state x \<or>
          rn_state y = RS_Unknown \<and> (\<exists>t. rn_deadline_at r = Some t \<and> of_millis t + int AGENT_CANCEL_GRACE \<le> now))"
proof -
  have no: "own_terminal r sn = None" using assms(1) by (simp add: own_terminal_def split: option.split)
  show ?thesis
  proof (cases "\<exists>t. rn_deadline_at r = Some t \<and> of_millis t + int AGENT_CANCEL_GRACE \<le> now")
    case True
    then obtain t where t: "rn_deadline_at r = Some t" "of_millis t + int AGENT_CANCEL_GRACE \<le> now" by blast
    have "0 \<le> int AGENT_CANCEL_GRACE" by simp
    then have w': "w' = snd (settle_outlived d r s False w)"
      using assms(1,2) no t by (auto simp: judge_agent_def Let_def)
    obtain msg where msg: "snd (settle_outlived d r s False w) = snd (settle_with_facts d (rn_id r) (RO_Unknown msg) (provider_facts s) w)"
      by (rule settle_outlived_is_unknown)
    have "w_runtime w' = w_runtime w" by (simp add: w' msg)
    moreover have "rn_state y = rn_state x \<or> rn_state y = RS_Unknown"
      using settle_outcome [OF assms(3), of d "RO_Unknown msg" "provider_facts s" y] assms(4)
      by (simp add: w' msg split: if_splits)
    ultimately show ?thesis using True by blast
  next
    case False
    have "0 < int AGENT_CANCEL_GRACE" by (simp add: AGENT_CANCEL_GRACE_def)
    then have "w' = w"
      using assms(1,2) no False by (auto simp: judge_agent_def Let_def split: option.splits if_splits)
    then show ?thesis using assms(3,4) by simp
  qed
qed

section \<open>The approval policy of a session\<close>

text \<open>What a policy is, for a runtime that keeps one for each session: attaching sets it and
  nothing else the dispatcher calls here changes it.\<close>

definition keeps_policy :: "('r \<Rightarrow> rstr \<Rightarrow> approval_policy) \<Rightarrow> ('r, 'e, 'a) call \<Rightarrow> bool" where
  "keeps_policy policy m \<longleftrightarrow> (\<forall>w s. policy (w_runtime (snd (m w))) s = policy (w_runtime w) s)"

definition policy_runtime :: "('j, 'r) dispatcher \<Rightarrow> ('r \<Rightarrow> rstr \<Rightarrow> approval_policy) \<Rightarrow> bool" where
  "policy_runtime d policy \<longleftrightarrow>
     (\<forall>ws s p w. \<exists>w'. dp_attach d ws s p w = (Inr (), w') \<and> policy (w_runtime w') s = p) \<and>
     (\<forall>ws s. keeps_policy policy (dp_snapshot d ws s)) \<and>
     (\<forall>ws s o' c. keeps_policy policy (dp_deliver d ws s o' c)) \<and>
     (\<forall>f ws s. dp_usage d = Some f \<longrightarrow> keeps_policy policy (f ws s))"

lemma keeps: "keeps_policy policy m \<Longrightarrow> m w = (x, w') \<Longrightarrow> policy (w_runtime w') s = policy (w_runtime w) s"
  unfolding keeps_policy_def by (metis snd_conv)

lemma hand_off_policy:
  assumes "policy_runtime d policy"
  shows "policy (w_runtime (snd (hand_off d s rid session before usage w))) i = policy (w_runtime w) i"
proof -
  have snap: "keeps_policy policy (dp_snapshot d (sd_workspace s) session)" using assms by (simp add: policy_runtime_def)
  obtain x w' where w': "dp_snapshot d (sd_workspace s) session w = (x, w')" by fastforce
  have "w_runtime (snd (hand_off d s rid session before usage w)) = w_runtime w'"
    by (simp add: hand_off_def dispatch_simps w' split: prod.split sum.split)
  then show ?thesis using keeps [OF snap w'] by simp
qed

lemma read_usage_policy:
  assumes "policy_runtime d policy"
  obtains u w' where "read_usage d ws session w = (Inr u, w')" and "\<And>i. policy (w_runtime w') i = policy (w_runtime w) i"
proof (cases "dp_usage d")
  case None
  have "read_usage d ws session w = (Inr None, w)" by (simp add: read_usage_def None dispatch_simps)
  then show ?thesis by (rule that) simp
next
  case (Some f)
  have k: "keeps_policy policy (f ws session)" using assms Some by (simp add: policy_runtime_def)
  obtain x w' where w': "f ws session w = (x, w')" by fastforce
  have "read_usage d ws session w = (Inr (case x of Inl _ \<Rightarrow> None | Inr u \<Rightarrow> Some u), w')"
    by (simp add: read_usage_def Some dispatch_simps w' split: sum.split)
  then show ?thesis by (rule that) (rule keeps [OF k w'])
qed

lemma attached:
  assumes "policy_runtime d policy"
  obtains w' where "dp_attach d ws session p w = (Inr (), w')" and "policy (w_runtime w') session = p"
  using assms unfolding policy_runtime_def by blast

lemma deliver_goal_policy:
  assumes "policy_runtime d policy" and "sd_session_policy s = Continue"
  shows "policy (w_runtime (snd (deliver_goal d s rid goal session before w))) session = AP_Interactive"
proof -
  obtain u w1 where u: "read_usage d (sd_workspace s) session w = (Inr u, w1)"
    by (rule read_usage_policy [OF assms(1)]) blast
  obtain x w2 where x: "dp_deliver d (sd_workspace s) session (lit ''schedule-goal-'' @ rid) (RunGoal goal True) w1 = (x, w2)"
    by fastforce
  obtain w3 where w3: "dp_attach d (sd_workspace s) session AP_Interactive w2 = (Inr (), w3)"
    and p: "policy (w_runtime w3) session = AP_Interactive"
    by (rule attached [OF assms(1)])
  show ?thesis
  proof (cases x)
    case (Inl e)
    then have "snd (deliver_goal d s rid goal session before w) = snd (settle d rid (delivery_failure e) w3)"
      by (simp add: deliver_goal_def handling_def attach_policy_def Let_def u x w3 assms(2))
    then show ?thesis by (simp add: p settle_def)
  next
    case (Inr y)
    then have "snd (deliver_goal d s rid goal session before w) = snd (hand_off d s rid session before u w3)"
      by (simp add: deliver_goal_def handling_def attach_policy_def Let_def u x w3 assms(2))
    then show ?thesis using p hand_off_policy [OF assms(1), of s rid session before u w3] by simp
  qed
qed

text \<open>
  The unattended approval policy outlives a hand-off that did not happen.  A definition
  that reuses its session raises the session's policy to automatic approval before it looks
  at the session.  If the goal is delivered the interactive policy is restored, whatever
  became of the delivery; but when the session turns out to be busy with another client's
  turn, or behind the crash-recovery gate, the run is skipped or blocked and the session
  stays at automatic approval for the turns a person runs in it.\<close>

theorem approval_policy_after_handoff:
  assumes "policy_runtime d policy" and "sd_session_policy s = Continue"
    and "dp_attach d (sd_workspace s) session AP_AutoApprove w = (Inr (), w1)"
    and "dp_snapshot d (sd_workspace s) session w1 = (Inr sn, w2)"
  shows "policy (w_runtime (snd (admit_goal d s rid goal session w))) session =
           (if sn_interrupted sn \<noteq> [] \<or> session_busy sn then AP_AutoApprove else AP_Interactive)"
proof -
  have "policy (w_runtime w1) session = AP_AutoApprove"
    using assms(3) attached [OF assms(1), of "sd_workspace s" session AP_AutoApprove w] by (metis prod.inject)
  moreover have "keeps_policy policy (dp_snapshot d (sd_workspace s) session)"
    using assms(1) by (simp add: policy_runtime_def)
  then have "policy (w_runtime w2) session = policy (w_runtime w1) session" by (rule keeps) (rule assms(4))
  ultimately have "policy (w_runtime w2) session = AP_AutoApprove" by simp
  moreover have "policy (w_runtime (snd (deliver_goal d s rid goal session sn w2))) session = AP_Interactive"
    by (rule deliver_goal_policy [OF assms(1,2)])
  ultimately show ?thesis
    by (simp add: admit_goal_def handling_def attach_policy_def assms(2-4) settle_def)
qed

section \<open>The wait for a shell\<close>

definition steady_clock :: "('j, 'r) dispatcher \<Rightarrow> bool" where
  "steady_clock d \<longleftrightarrow>
     0 < dp_poll_interval d \<and>
     (\<forall>w. dp_monotonic d w + int (dp_poll_interval d) \<le> dp_monotonic d (dp_sleep d (dp_poll_interval d) w)) \<and>
     (\<forall>ws s w. dp_monotonic d w \<le> dp_monotonic d (snd (dp_snapshot d ws s w)))"

lemma shell_poll_again:
  assumes "shell_poll d ws session rid timeout deadline admit w = (Inr Poll_Again, w')"
  shows "dp_monotonic d w < deadline \<and> w' = snd (dp_snapshot d ws session w)"
  using assms
  by (auto simp: shell_poll_def poll_missed_def dispatch_simps split: if_splits prod.splits sum.splits shell_view.splits)

lemma shell_wait_returns:
  assumes "steady_clock d"
  shows "\<exists>x. shell_wait d ws session rid timeout deadline admit w = Some x"
proof (induction "nat (deadline - dp_monotonic d w)" arbitrary: w rule: less_induct)
  case less
  obtain p w' where p: "shell_poll d ws session rid timeout deadline admit w = (p, w')" by fastforce
  show ?case
  proof (cases "p = Inr Poll_Again")
    case True
    let ?v = "dp_sleep d (dp_poll_interval d) w'"
    have w': "dp_monotonic d w < deadline" "w' = snd (dp_snapshot d ws session w)"
      using shell_poll_again p True by blast+
    have "dp_monotonic d w \<le> dp_monotonic d w'" using assms w'(2) by (simp add: steady_clock_def)
    moreover have "dp_monotonic d w' + int (dp_poll_interval d) \<le> dp_monotonic d ?v" "0 < dp_poll_interval d"
      using assms by (simp_all add: steady_clock_def)
    ultimately have "nat (deadline - dp_monotonic d ?v) < nat (deadline - dp_monotonic d w)"
      using w'(1) by linarith
    from less [OF this] obtain x where "shell_wait d ws session rid timeout deadline admit ?v = Some x" by blast
    then show ?thesis by (subst shell_wait.simps) (simp add: p True)
  next
    case False
    then show ?thesis
      by (subst shell_wait.simps) (auto simp: p split: sum.split poll.split)
  qed
qed

text \<open>
  Running a shell action always returns.  If the monotonic clock does not go back
  during a snapshot and a sleep lasts at least the poll interval, the wait for a delivered
  shell ends, at the latest at the run's timeout, whatever the runtime answers.\<close>

theorem run_shell_returns:
  assumes "steady_clock d"
  shows "\<exists>r w'. run_shell d c w = Some (r, w')"
proof -
  obtain x w1 where x: "shell_start d c w = (x, w1)" by fastforce
  have "\<exists>y. run_shell d c w = Some y" if "x = Inr (Goes (session, current))" for session current
    using shell_wait_returns [OF assms, of "sd_workspace (cl_definition c)" session "cl_run c" "sd_timeout current"]
    by (auto simp: run_shell_def x that Let_def split: option.split sum.split prod.split)
  then have "\<exists>y. run_shell d c w = Some y"
    by (cases x rule: sum.exhaust) (auto simp: run_shell_def x split: start.split)
  then show ?thesis by auto
qed

text \<open>Past its deadline, a run whose cancellation cannot be delivered is neither settled nor
  changed, however long ago the deadline was.\<close>

lemma undeliverable_cancel_keeps_running:
  assumes "owns_newest_turn r sn" and "own_terminal r sn = None" and "sn_pending sn = []"
    and "sn_task_status sn \<noteq> Some TS_WaitingUser" and "rn_cancel_issued_at r = None"
    and "rn_deadline_at r = Some t" and "of_millis t \<le> now"
    and "dp_issue d (sd_workspace s) session CancelCurrentTurn w = (Inl e, w')"
  shows "judge_agent d now r s session sn w = (Inr None, w')"
  using assms by (simp add: judge_agent_def Let_def issue_cancel_def dispatch_simps)

section \<open>A runtime with one policy per session\<close>

definition quiet_session :: session_snapshot where
  "quiet_session = \<lparr>sn_user_shells = [], sn_task_status = None, sn_task_terminal = None, sn_interrupted = [],
     sn_pending = [], sn_last_sequence = None, sn_latest_turn = Some 7\<rparr>"

definition demo_dispatcher :: "session_snapshot \<Rightarrow> (rstr, int \<times> (rstr \<Rightarrow> approval_policy)) dispatcher" where
  "demo_dispatcher sn =
     \<lparr>dp_env = demo_env, dp_connect = \<lambda>_ w. (Inr (), w), dp_create_session = \<lambda>_ _ w. (Inr (lit ''s''), w),
      dp_snapshot = \<lambda>_ _ w. (Inr sn, w), dp_deliver = \<lambda>_ _ _ _ w. (Inr (), w), dp_issue = \<lambda>_ _ _ w. (Inr (), w),
      dp_attach = \<lambda>_ s p w. (Inr (), w\<lparr>w_runtime := (fst (w_runtime w), (snd (w_runtime w))(s := p))\<rparr>),
      dp_classify = None, dp_execute = \<lambda>_ _ _ w. (Inl [], w), dp_usage = None, dp_now = \<lambda>_. 0,
      dp_monotonic = \<lambda>w. fst (w_runtime w),
      dp_sleep = \<lambda>t w. w\<lparr>w_runtime := (fst (w_runtime w) + int t, snd (w_runtime w))\<rparr>,
      dp_refusal_text = \<lambda>_. [], dp_error_text = \<lambda>_. [], dp_lease = secs 120, dp_poll_interval = 250000000\<rparr>"

definition demo_run :: run_row where
  "demo_run = (new_run (lit ''r'') (lit ''o'') (lit ''d'') RS_Dispatching 0)\<lparr>rn_turn_ordinal := Some 6, rn_deadline_at := Some 0\<rparr>"

definition demo_world :: "(int \<times> (rstr \<Rightarrow> approval_policy)) world" where
  "demo_world = \<lparr>w_db = empty_db\<lparr>db_runs := [demo_run]\<rparr>, w_runtime = (0, \<lambda>_. AP_Interactive)\<rparr>"

definition demo_claim :: "rstr claim" where
  "demo_claim = \<lparr>cl_definition = nightly, cl_occurrence = new_occurrence (lit ''o'') (lit ''d'') 0 False 0, cl_run = lit ''r''\<rparr>"

lemma demo_run_stored: "run_of (lit ''r'') (w_db demo_world) = Some demo_run" "active demo_run"
  by (simp_all add: run_of_def demo_world_def demo_run_def new_run_def active_def empty_db_def)

theorem nothing_starts_without_a_grant_witness:
  "\<exists>r w'. run_claim (demo_dispatcher quiet_session) demo_claim demo_world = Some (r, w') \<and>
     w_runtime w' = (0, \<lambda>_. AP_Interactive) \<and>
     (\<exists>y. run_of (lit ''r'') (w_db w') = Some y \<and> rn_state y \<in> {RS_Blocked, RS_Failed})"
proof -
  have "\<not> may_start (demo_dispatcher quiet_session) demo_claim (w_db demo_world)"
    by (simp add: may_start_def definition_of_def demo_world_def empty_db_def)
  from nothing_starts_without_a_grant [OF this] show ?thesis
    using demo_run_stored by (auto simp: demo_claim_def demo_world_def)
qed

theorem foreign_turns_are_left_alone_witness:
  "\<exists>res w' y. judge_agent (demo_dispatcher quiet_session) (31 * sec_ns) demo_run nightly (lit ''s'') quiet_session demo_world = (res, w') \<and>
     run_of (lit ''r'') (w_db w') = Some y \<and> w_runtime w' = w_runtime demo_world \<and>
     (rn_state y = rn_state demo_run \<or> rn_state y = RS_Unknown)"
proof -
  let ?j = "judge_agent (demo_dispatcher quiet_session) (31 * sec_ns) demo_run nightly (lit ''s'') quiet_session demo_world"
  have foreign: "\<not> owns_newest_turn demo_run quiet_session"
    by (simp add: owns_newest_turn_def demo_run_def new_run_def quiet_session_def)
  have "snd ?j = snd (settle_outlived (demo_dispatcher quiet_session) demo_run nightly False demo_world)"
    using foreign by (simp add: judge_agent_def own_terminal_def Let_def quiet_session_def demo_run_def new_run_def
        of_millis_def AGENT_CANCEL_GRACE_def)
  also obtain msg where "\<dots> = snd (settle_with_facts (demo_dispatcher quiet_session) (rn_id demo_run) (RO_Unknown msg) (provider_facts nightly) demo_world)"
    by (rule settle_outlived_is_unknown)
  finally have j: "snd ?j = snd (settle_with_facts (demo_dispatcher quiet_session) (rn_id demo_run) (RO_Unknown msg) (provider_facts nightly) demo_world)" .
  have i: "rn_id demo_run = lit ''r''" by (simp add: demo_run_def new_run_def)
  obtain y where y: "run_of (lit ''r'') (w_db (snd ?j)) = Some y"
    unfolding j i using settle_run_state [OF demo_run_stored] by blast
  from i have "w_runtime (snd ?j) = w_runtime demo_world \<and> (rn_state y = rn_state demo_run \<or> rn_state y = RS_Unknown)"
    using foreign_turns_are_left_alone [OF foreign, of "demo_dispatcher quiet_session" "31 * sec_ns" nightly "lit ''s''" demo_world
        "fst ?j" "snd ?j" demo_run y] y demo_run_stored by auto
  then have "?j = (fst ?j, snd ?j) \<and> run_of (lit ''r'') (w_db (snd ?j)) = Some y \<and> w_runtime (snd ?j) = w_runtime demo_world \<and>
      (rn_state y = rn_state demo_run \<or> rn_state y = RS_Unknown)"
    using y by simp
  then show ?thesis by blast
qed

theorem approval_policy_after_handoff_witness:
  "snd (w_runtime (snd (admit_goal (demo_dispatcher (quiet_session\<lparr>sn_task_status := Some TS_Running\<rparr>))
     (nightly\<lparr>sd_session_policy := Continue\<rparr>) (lit ''r'') [] (lit ''s'') demo_world))) (lit ''s'') = AP_AutoApprove \<and>
   snd (w_runtime (snd (admit_goal (demo_dispatcher quiet_session)
     (nightly\<lparr>sd_session_policy := Continue\<rparr>) (lit ''r'') [] (lit ''s'') demo_world))) (lit ''s'') = AP_Interactive"
proof -
  have runtime: "policy_runtime (demo_dispatcher sn) (\<lambda>r. snd r)" for sn
    by (simp add: policy_runtime_def keeps_policy_def demo_dispatcher_def)
  show ?thesis
    using approval_policy_after_handoff [OF runtime, of "nightly\<lparr>sd_session_policy := Continue\<rparr>" _ "lit ''s''" demo_world]
    by (simp add: demo_dispatcher_def session_busy_def quiet_session_def)
qed

theorem run_shell_returns_witness:
  "\<exists>r w'. run_shell (demo_dispatcher quiet_session) demo_claim demo_world = Some (r, w')"
  using run_shell_returns [of "demo_dispatcher quiet_session" demo_claim demo_world]
  by (simp add: steady_clock_def demo_dispatcher_def)

end
