(* ===== verification/Schedule_Rows_Correct.thy ===== *)
theory Schedule_Rows_Correct
  imports Schedule_Store Schedule_Grant_Correct
begin

text \<open>
  What the schedule store persists reads back: the row that create and update write for a
  declaration decodes to the definition that was declared.
\<close>

section \<open>Persisted states\<close>

interpretation occurrence_state: wire_enum occurrence_state_as_str "\<lambda>s. opt_err s (occurrence_state_parse s)"
  by unfold_locales (rename_tac x, case_tac x, simp_all add: occurrence_state_parse_def)

interpretation schedule_run_state: wire_enum run_state_as_str "\<lambda>s. opt_err s (run_state_parse s)"
  by unfold_locales (rename_tac x, case_tac x, simp_all add: run_state_parse_def)

section \<open>Columns\<close>

text \<open>serde\_json reads back what it printed.\<close>

definition json_ok :: "'j json_lib \<Rightarrow> bool" where
  "json_ok js \<longleftrightarrow> (\<forall>x s. js_to_string js x = Some s \<longrightarrow> js_parse js s = Some x)"

definition stored_zone :: "calendar \<Rightarrow> rstr \<Rightarrow> bool" where
  "stored_zone cal z \<longleftrightarrow> z \<noteq> [] \<and> trim z = z \<and> cal_known cal z"

text \<open>Triggers at the precision of the store: instants in milliseconds, intervals in
  seconds, a zone of the database.\<close>

fun stored_trigger :: "calendar \<Rightarrow> trigger \<Rightarrow> bool" where
  "stored_trigger cal (Once a) \<longleftrightarrow> a mod 1000000 = 0"
| "stored_trigger cal (Every anchor every) \<longleftrightarrow> anchor mod 1000000 = 0 \<and> every mod 1000000000 = 0"
| "stored_trigger cal (Daily time z) \<longleftrightarrow> time_ok time \<and> stored_zone cal z"
| "stored_trigger cal (Weekly ds time z) \<longleftrightarrow> time_ok time \<and> stored_zone cal z \<and> weekdays_from_bits ds = Inr ds"
| "stored_trigger cal (Cron e z) \<longleftrightarrow> stored_zone cal z"

definition stored_model :: "model_ref \<Rightarrow> bool" where
  "stored_model m \<longleftrightarrow> mr_provider m \<noteq> [] \<and> mr_model m \<noteq> [] \<and> 47 \<notin> set (mr_provider m)"

lemma millis_back: "a mod 1000000 = 0 \<Longrightarrow> of_millis (timestamp_millis a) = a"
  by (simp add: of_millis_def timestamp_millis_def)
    (metis add_0_right mult.commute mult_div_mod_eq)

lemma secs_back: "d mod 1000000000 = 0 \<Longrightarrow> secs (as_secs d) = d"
  by (simp add: as_secs_def) (metis add_0_right mult.commute mult_div_mod_eq)

lemma zone_back: "stored_zone cal z \<Longrightarrow> parse_timezone cal z = Inr z"
  by (simp add: stored_zone_def parse_timezone_def Let_def)

lemma trigger_back:
  assumes "stored_trigger cal t" and "trigger_validate cal t = Inr ()"
    and "dr_trigger_kind r = tc_kind (trigger_columns t)" and "dr_once_at r = tc_once_at (trigger_columns t)"
    and "dr_anchor_at r = tc_anchor_at (trigger_columns t)" and "dr_every_secs r = tc_every_secs (trigger_columns t)"
    and "dr_timezone r = tc_timezone (trigger_columns t)" and "dr_local_time r = tc_local_time (trigger_columns t)"
    and "dr_weekdays r = tc_weekdays (trigger_columns t)" and "dr_cron_expr r = tc_cron_expr (trigger_columns t)"
  shows "row_trigger cal r = Inr t"
proof (cases t)
  case (Once a)
  then show ?thesis using assms(1,3,4)
    by (simp add: row_trigger_def no_trigger_columns_def column_def opt_err_def millis_back)
next
  case (Every anchor every)
  have "0 < as_secs every" using assms(2) Every by (simp split: if_splits)
  then have "nat (max 1 (int (as_secs every))) = as_secs every" by simp
  then show ?thesis using assms(1,3,5,6) Every secs_back [of every]
    by (simp add: row_trigger_def no_trigger_columns_def column_def opt_err_def millis_back)
next
  case (Daily time z)
  then show ?thesis using assms(1,3,7,8)
    by (simp add: row_trigger_def no_trigger_columns_def column_def opt_err_def storage_time_def storage_timezone_def
        time_reads_back zone_back)
next
  case (Weekly ds time z)
  have "uint ds \<le> 255" using uint_lt2p [of ds] by simp
  then show ?thesis using assms(1,3,7,8,9) Weekly
    by (simp add: row_trigger_def no_trigger_columns_def column_def opt_err_def storage_time_def storage_timezone_def
        time_reads_back zone_back row_weekdays_def check_def)
next
  case (Cron e z)
  then show ?thesis using assms(1,3,7,10)
    by (simp add: row_trigger_def no_trigger_columns_def column_def opt_err_def storage_timezone_def zone_back)
qed

lemma action_back:
  assumes "json_ok js" and "action_columns js a = Inr k" and "dr_action r = ac_kind k"
    and "dr_command r = command_of a" and "dr_agent_goal r = ac_agent_goal k"
    and "dr_native_action r = ac_native_action k" and "dr_native_input r = ac_native_input k"
  shows "row_action js r = Inr a"
  using assms by (cases a) (auto simp: row_action_def column_def opt_err_def json_ok_def split: option.splits)

lemma model_back: "stored_model m \<Longrightarrow> model_ref_parse (model_ref_display m) = Some m"
  by (simp add: model_ref_parse_def stored_model_def split_once_at)

lemma mode_back: "wire_profile_parse (wire_profile_as_str m) = Some m"
proof -
  have "trim (wire_profile_as_str m) = wire_profile_as_str m"
    by (cases m) (auto intro!: trim_ascii_word simp: lit_def is_whitespace_def)
  then show ?thesis by (cases m) (simp_all add: wire_profile_parse_def Let_def)
qed

text \<open>
  A definition reads back as it was declared.  For a valid declaration at the
  store's precision, the row that create and update write decodes to exactly the declared
  action, trigger, policies, mode, model, timeout and grace, with the row's own identity,
  session, grant and revision: no field is dropped by the writer or misread by the reader.\<close>

theorem definition_reads_back:
  assumes "json_ok js" and "validate_declaration js cal absolute c = Inr ()"
    and "action_columns js (dc_action c) = Inr a" and "stored_trigger cal (dc_trigger c)"
    and "\<forall>m. dc_model c = Some m \<longrightarrow> stored_model m"
    and "dc_timeout c mod 1000000000 = 0" and "dc_misfire_grace c mod 1000000000 = 0"
    and "\<forall>s. grant_json = Some s \<longrightarrow> gl_parse gl s = grant" and "grant_json = None \<longleftrightarrow> grant = None"
  shows "definition_from_row js gl cal (bind_declared c workspace a grant_json r) =
     Inr \<lparr>sd_id = dr_id r, sd_name = trim (dc_name c), sd_workspace = workspace, sd_action = dc_action c,
          sd_trigger = dc_trigger c, sd_session_policy = dc_session_policy c, sd_overlap = dc_overlap c,
          sd_mode = dc_mode c, sd_model = dc_model c, sd_timeout = dc_timeout c, sd_misfire = dc_misfire c,
          sd_misfire_grace = dc_misfire_grace c, sd_session = dr_session_id r, sd_unattended = grant,
          sd_enabled = (dr_enabled r \<noteq> 0), sd_created_at = of_millis (dr_created_at r),
          sd_updated_at = of_millis (dr_updated_at r)\<rparr>"
proof -
  let ?r = "bind_declared c workspace a grant_json r"
  note valid = assms(2) [unfolded validate_declaration_def and_then_eq_Inr check_eq_Inr]
  have v: "action_validate js (dc_action c) = Inr ()" "trigger_validate cal (dc_trigger c) = Inr ()"
    "\<not> dc_timeout c < secs 1" using valid by simp_all
  have act: "row_action js ?r = Inr (dc_action c)"
    by (rule action_back [OF assms(1,3)]) (simp_all add: bind_declared_def Let_def)
  have trig: "row_trigger cal ?r = Inr (dc_trigger c)"
    by (rule trigger_back [OF assms(4) v(2)]) (simp_all add: bind_declared_def Let_def)
  have model: "row_model ?r = Inr (dc_model c)"
    using assms(5) by (cases "dc_model c") (simp_all add: row_model_def bind_declared_def Let_def model_back opt_err_def del: model_ref_display.simps)
  have grant: "row_grant gl ?r = Inr grant"
    using assms(8,9) by (cases grant_json) (auto simp: row_grant_def bind_declared_def Let_def opt_err_def)
  have "0 < as_secs (dc_timeout c)" using v(3) by (simp add: as_secs_def)
  then have timeout: "secs (nat (max 1 (int (as_secs (dc_timeout c))))) = dc_timeout c"
    using secs_back [OF assms(6)] by simp
  show ?thesis
    unfolding definition_from_row_def act trig model grant and_then_Inr v
    using timeout secs_back [OF assms(7)]
    by (simp add: bind_declared_def Let_def session_policy.from_as [unfolded opt_err_eq_Inr] overlap_policy.from_as [unfolded opt_err_eq_Inr]
        misfire_policy.from_as [unfolded opt_err_eq_Inr]
        mode_back opt_err_def)
qed

definition no_grants :: grant_lib where
  "no_grants = \<lparr>gl_to_string = \<lambda>_. None, gl_parse = \<lambda>_. None\<rparr>"

definition demo_declared :: "rstr declared" where
  "demo_declared = \<lparr>dc_name = lit ''n'', dc_workspace = lit ''/w'', dc_action = Shell (lit ''ls''),
     dc_trigger = Every 0 (secs 3600), dc_session_policy = Continue, dc_overlap = SkipIfRunning, dc_mode = WP_Assisted,
     dc_model = None, dc_timeout = secs 600, dc_misfire = Skip, dc_misfire_grace = secs 300, dc_grant = None\<rparr>"

theorem definition_reads_back_witness:
  "map_sum id sd_trigger (definition_from_row text_json no_grants spring_calendar
     (bind_declared demo_declared (lit ''/w'') \<lparr>ac_kind = lit ''shell'', ac_agent_goal = None, ac_native_action = None,
        ac_native_input = None\<rparr> None blank_row)) = Inr (Every 0 (secs 3600))"
proof -
  have n: "trim (lit ''n'') = lit ''n''" by (rule trim_ascii_word) (simp_all add: lit_def is_whitespace_def)
  have "\<not> list_ex is_control (lit ''n'')" "byte_len (lit ''n'') \<le> MAX_NAME_BYTES"
    by (simp_all add: lit_def is_control_def utf8_len_def MAX_NAME_BYTES_def)
  moreover have "validate_text (lit ''ls'') (lit ''the schedule command'') MAX_COMMAND_BYTES True = Inr ()"
    using ls_validates [of text_json] by simp
  ultimately have v: "validate_declaration text_json spring_calendar (\<lambda>_. True) demo_declared = Inr ()"
    by (simp add: validate_declaration_def demo_declared_def check_def as_secs_def n)
  have "json_ok text_json" by (simp add: json_ok_def text_json_def)
  then show ?thesis
    by (subst definition_reads_back [OF _ v]) (simp_all add: demo_declared_def)
qed

end
