(* ===== verification/Remote_Protocol.thy ===== *)
theory Remote_Protocol
  imports Sse_Decoder Schedule_Grant
begin

text \<open>
  The end-to-end protocol between a paired device and a runtime behind an untrusted relay
  (leveler-remote-protocol): the signed envelope, key material, the assertions signed
  outside an envelope, pairing, and the frames of the tunnel.

  The cryptography (ring), base64 and chrono's timestamp parser are the fields of a
  \<open>crypto\<close>; what the theorems need of them is stated as named hypotheses.  A signing key
  is its seed, a verifying key its bytes.
\<close>

section \<open>The services the protocol calls\<close>

record crypto =
  cx_sha256 :: "byte list \<Rightarrow> byte list"
  cx_public :: "byte list \<Rightarrow> byte list"
  cx_sign :: "byte list \<Rightarrow> byte list \<Rightarrow> byte list"
  cx_check :: "byte list \<Rightarrow> byte list \<Rightarrow> byte list \<Rightarrow> bool"
  cx_b64 :: "byte list \<Rightarrow> rstr"
  cx_unb64 :: "rstr \<Rightarrow> byte list option"
  cx_url64 :: "byte list \<Rightarrow> rstr"
  cx_unurl64 :: "rstr \<Rightarrow> byte list option"
  cx_time :: "rstr \<Rightarrow> int option"

definition hex_digit :: "nat \<Rightarrow> rchar" where
  "hex_digit n = (if n < 10 then 48 + n else 87 + n)"

definition hex_byte :: "byte \<Rightarrow> rstr" where
  "hex_byte b = [hex_digit (b div 16), hex_digit (b mod 16)]"

definition hex_lower :: "byte list \<Rightarrow> rstr" where
  "hex_lower bs = concat (map hex_byte bs)"

definition hashed_label :: "crypto \<Rightarrow> rstr \<Rightarrow> rstr" where
  "hashed_label cx value = hex_lower (take 8 (cx_sha256 cx (utf8_encode value)))"

section \<open>The signed envelope\<close>

datatype sender = SenderDevice | SenderRuntime

fun sender_as_str :: "sender \<Rightarrow> rstr" where
  "sender_as_str SenderDevice = lit ''device''"
| "sender_as_str SenderRuntime = lit ''runtime''"

datatype content_type = SessionUpstream | SessionDownstream | RpcRequestContent | RpcResponseContent

fun content_type_as_str :: "content_type \<Rightarrow> rstr" where
  "content_type_as_str SessionUpstream = lit ''session_upstream''"
| "content_type_as_str SessionDownstream = lit ''session_downstream''"
| "content_type_as_str RpcRequestContent = lit ''rpc_request''"
| "content_type_as_str RpcResponseContent = lit ''rpc_response''"

datatype envelope_error =
    InvalidId rstr
  | InvalidTimestamp
  | InvalidBase64 rstr
  | UnsupportedEnvelope nat
  | RecipientMismatch rstr rstr
  | TimestampOutOfWindow
  | SignatureInvalid
  | InvalidKey

fun envelope_error_code :: "envelope_error \<Rightarrow> rstr" where
  "envelope_error_code (InvalidId f) = lit ''invalid_frame''"
| "envelope_error_code InvalidTimestamp = lit ''invalid_frame''"
| "envelope_error_code (InvalidBase64 f) = lit ''invalid_frame''"
| "envelope_error_code (UnsupportedEnvelope v) = lit ''invalid_frame''"
| "envelope_error_code InvalidKey = lit ''invalid_frame''"
| "envelope_error_code (RecipientMismatch a b) = lit ''recipient_mismatch''"
| "envelope_error_code TimestampOutOfWindow = lit ''replay''"
| "envelope_error_code SignatureInvalid = lit ''signature_invalid''"

definition ENVELOPE_VERSION :: nat where "ENVELOPE_VERSION = 1"
definition TIMESTAMP_WINDOW_SECS :: int where "TIMESTAMP_WINDOW_SECS = 120"

record signed_envelope =
  se_v :: nat
  se_sender :: sender
  se_sender_id :: rstr
  se_recipient_id :: rstr
  se_stream_id :: rstr
  se_seq :: nat
  se_ts :: rstr
  se_content_type :: content_type
  se_payload_b64 :: rstr
  se_sig_b64 :: rstr

definition id_byte :: "byte \<Rightarrow> bool" where
  "id_byte b \<longleftrightarrow> is_ascii_alphanumeric b \<or> b = 95 \<or> b = 46 \<or> b = 58 \<or> b = 45"

definition id_is_valid :: "rstr \<Rightarrow> bool" where
  "id_is_valid i \<longleftrightarrow> i \<noteq> [] \<and> byte_len i \<le> 64 \<and> list_all id_byte (utf8_encode i)"

definition parse_timestamp :: "crypto \<Rightarrow> rstr \<Rightarrow> envelope_error + int" where
  "parse_timestamp cx ts =
     (case cx_time cx ts of None \<Rightarrow> Inl InvalidTimestamp | Some t \<Rightarrow> Inr t)"

definition envelope_payload :: "crypto \<Rightarrow> signed_envelope \<Rightarrow> envelope_error + byte list" where
  "envelope_payload cx e =
     (case cx_unb64 cx (se_payload_b64 e) of
        None \<Rightarrow> Inl (InvalidBase64 (lit ''payload_b64''))
      | Some p \<Rightarrow> Inr p)"

definition canonical_fields :: "crypto \<Rightarrow> signed_envelope \<Rightarrow> byte list \<Rightarrow> rstr" where
  "canonical_fields cx e payload =
     join [124]
       [show_nat (se_v e), sender_as_str (se_sender e), se_sender_id e, se_recipient_id e,
        se_stream_id e, show_nat (se_seq e), se_ts e, content_type_as_str (se_content_type e),
        hex_lower (cx_sha256 cx payload)]"

definition canonical_string :: "crypto \<Rightarrow> signed_envelope \<Rightarrow> envelope_error + rstr" where
  "canonical_string cx e =
     (if se_v e \<noteq> ENVELOPE_VERSION then Inl (UnsupportedEnvelope (se_v e))
      else if \<not> id_is_valid (se_sender_id e) then Inl (InvalidId (lit ''sender_id''))
      else if \<not> id_is_valid (se_recipient_id e) then Inl (InvalidId (lit ''recipient_id''))
      else if \<not> id_is_valid (se_stream_id e) then Inl (InvalidId (lit ''stream_id''))
      else case parse_timestamp cx (se_ts e) of
             Inl x \<Rightarrow> Inl x
           | Inr t \<Rightarrow> (case envelope_payload cx e of
                         Inl x \<Rightarrow> Inl x
                       | Inr payload \<Rightarrow> Inr (canonical_fields cx e payload)))"

definition sign_envelope ::
  "crypto \<Rightarrow> byte list \<Rightarrow> sender \<Rightarrow> rstr \<Rightarrow> rstr \<Rightarrow> rstr \<Rightarrow> nat \<Rightarrow> rstr \<Rightarrow> content_type \<Rightarrow> byte list
     \<Rightarrow> envelope_error + signed_envelope" where
  "sign_envelope cx key s sender_id recipient_id stream_id sq ts ct payload_raw =
     (let e = \<lparr>se_v = ENVELOPE_VERSION, se_sender = s, se_sender_id = sender_id,
               se_recipient_id = recipient_id, se_stream_id = stream_id, se_seq = sq, se_ts = ts,
               se_content_type = ct, se_payload_b64 = cx_b64 cx payload_raw, se_sig_b64 = []\<rparr>
      in case canonical_string cx e of
           Inl x \<Rightarrow> Inl x
         | Inr c \<Rightarrow> Inr (e\<lparr>se_sig_b64 := cx_b64 cx (cx_sign cx key (utf8_encode c))\<rparr>))"

record verify_params =
  vp_recipient :: rstr
  vp_key :: "byte list"
  vp_now :: rstr

definition verify_envelope ::
  "crypto \<Rightarrow> verify_params \<Rightarrow> signed_envelope \<Rightarrow> envelope_error + byte list" where
  "verify_envelope cx p e =
     (case canonical_string cx e of
        Inl x \<Rightarrow> Inl x
      | Inr c \<Rightarrow>
          if se_recipient_id e \<noteq> vp_recipient p
          then Inl (RecipientMismatch (vp_recipient p) (se_recipient_id e))
          else case parse_timestamp cx (se_ts e) of
                 Inl x \<Rightarrow> Inl x
               | Inr sent_at \<Rightarrow>
                   (case parse_timestamp cx (vp_now p) of
                      Inl x \<Rightarrow> Inl x
                    | Inr now \<Rightarrow>
                        if \<bar>now - sent_at\<bar> > TIMESTAMP_WINDOW_SECS then Inl TimestampOutOfWindow
                        else case cx_unb64 cx (se_sig_b64 e) of
                               None \<Rightarrow> Inl (InvalidBase64 (lit ''sig_b64''))
                             | Some sig \<Rightarrow>
                                 if \<not> cx_check cx (vp_key p) (utf8_encode c) sig
                                 then Inl SignatureInvalid
                                 else envelope_payload cx e))"

section \<open>Keys\<close>

definition verifying_key :: "crypto \<Rightarrow> byte list \<Rightarrow> byte list" where
  "verifying_key cx seed = cx_public cx seed"

definition key_from_base64url :: "crypto \<Rightarrow> rstr \<Rightarrow> envelope_error + byte list" where
  "key_from_base64url cx encoded =
     (case cx_unurl64 cx encoded of
        None \<Rightarrow> Inl InvalidKey
      | Some raw \<Rightarrow> if length raw = 32 then Inr raw else Inl InvalidKey)"

definition key_to_base64url :: "crypto \<Rightarrow> byte list \<Rightarrow> rstr" where
  "key_to_base64url cx key = cx_url64 cx key"

definition key_fingerprint :: "crypto \<Rightarrow> byte list \<Rightarrow> rstr" where
  "key_fingerprint cx key = hex_lower (take 8 (cx_sha256 cx key))"

function chunks_of :: "nat \<Rightarrow> 'a list \<Rightarrow> 'a list list" where
  "chunks_of n xs = (if n = 0 \<or> xs = [] then [] else take n xs # chunks_of n (drop n xs))"
  by pat_completeness auto
termination by (relation "measure (\<lambda>(n, xs). length xs)") auto

declare chunks_of.simps [simp del]

definition fingerprint_display :: "crypto \<Rightarrow> byte list \<Rightarrow> rstr" where
  "fingerprint_display cx key = join [32] (chunks_of 4 (key_fingerprint cx key))"

definition runtime_id_for :: "crypto \<Rightarrow> byte list \<Rightarrow> rstr" where
  "runtime_id_for cx key = lit ''rt_'' @ key_fingerprint cx key"

section \<open>Assertions outside an envelope\<close>

text \<open>\<open>str::splitn\<close> at a character.\<close>

fun splitn :: "nat \<Rightarrow> rchar \<Rightarrow> rstr \<Rightarrow> rstr list" where
  "splitn 0 c s = []"
| "splitn (Suc 0) c s = [s]"
| "splitn (Suc (Suc n)) c s =
     (case split_once c s of None \<Rightarrow> [s] | Some (a, b) \<Rightarrow> a # splitn (Suc n) c b)"

definition session_signing_input :: "rstr \<Rightarrow> rstr \<Rightarrow> rstr \<Rightarrow> rstr \<Rightarrow> rstr" where
  "session_signing_input device_id runtime_id timestamp nonce =
     join [124] [device_id, runtime_id, timestamp, nonce]"

definition register_signing_input :: "rstr \<Rightarrow> rstr \<Rightarrow> rstr" where
  "register_signing_input runtime_id timestamp = join [124] [runtime_id, timestamp]"

definition runtime_signing_input :: "rstr \<Rightarrow> rstr \<Rightarrow> rstr \<Rightarrow> rstr \<Rightarrow> rstr" where
  "runtime_signing_input action runtime_id timestamp nonce =
     join [124] [action, runtime_id, timestamp, nonce]"

definition runtime_header_value :: "crypto \<Rightarrow> byte list \<Rightarrow> rstr \<Rightarrow> rstr \<Rightarrow> rstr \<Rightarrow> rstr \<Rightarrow> rstr" where
  "runtime_header_value cx key action runtime_id timestamp nonce =
     (let sig = cx_b64 cx (cx_sign cx key
                  (utf8_encode (runtime_signing_input action runtime_id timestamp nonce)))
      in join [124] [runtime_id, timestamp, nonce, sig])"

definition parse_runtime_header :: "rstr \<Rightarrow> (rstr \<times> rstr \<times> rstr \<times> rstr) option" where
  "parse_runtime_header value =
     (case splitn 4 124 value of
        [runtime_id, timestamp, nonce, sig] \<Rightarrow>
          if runtime_id = [] \<or> timestamp = [] \<or> nonce = [] \<or> sig = [] then None
          else Some (runtime_id, timestamp, nonce, sig)
      | _ \<Rightarrow> None)"

definition device_signing_input :: "rstr \<Rightarrow> rstr \<Rightarrow> rstr" where
  "device_signing_input device_id timestamp = join [124] [device_id, timestamp]"

section \<open>Pairing\<close>

datatype pairing_scope = Interactive | Observe

record pairing_qr =
  qr_runtime_id :: rstr
  qr_runtime_pubkey :: rstr
  qr_relay_url :: rstr
  qr_pairing_secret :: rstr

definition COMPACT_PAIRING_PREFIX :: rstr where "COMPACT_PAIRING_PREFIX = lit ''LV1''"

definition qr_to_compact :: "pairing_qr \<Rightarrow> rstr" where
  "qr_to_compact q =
     join [124] [COMPACT_PAIRING_PREFIX, qr_runtime_id q, qr_runtime_pubkey q, qr_relay_url q,
                 qr_pairing_secret q]"

definition qr_parse_compact :: "rstr \<Rightarrow> pairing_qr option" where
  "qr_parse_compact text =
     (case split_char 124 (trim text) of
        [prefix, runtime_id, runtime_pubkey, relay_url, pairing_secret] \<Rightarrow>
          if prefix \<noteq> COMPACT_PAIRING_PREFIX then None
          else if runtime_id = [] \<or> runtime_pubkey = [] \<or> relay_url = [] \<or> pairing_secret = []
          then None
          else Some \<lparr>qr_runtime_id = runtime_id, qr_runtime_pubkey = runtime_pubkey,
                     qr_relay_url = relay_url, qr_pairing_secret = pairing_secret\<rparr>
      | _ \<Rightarrow> None)"

record paired_device =
  pd_device_id :: rstr
  pd_pubkey_b64 :: rstr
  pd_fingerprint :: rstr
  pd_name :: rstr
  pd_scope :: pairing_scope
  pd_paired_at :: rstr
  pd_revoked_at :: "rstr option"

definition device_is_active :: "paired_device \<Rightarrow> bool" where
  "device_is_active d \<longleftrightarrow> pd_revoked_at d = None"

definition active_key_for :: "paired_device list \<Rightarrow> rstr \<Rightarrow> paired_device option" where
  "active_key_for ds device_id = find (\<lambda>d. pd_device_id d = device_id \<and> device_is_active d) ds"

section \<open>The frames of the tunnel\<close>

datatype relay_to_agent =
    RegisterAck rstr
  | RegisterNack rstr rstr
  | PairingPending rstr
  | OpenStream rstr rstr pairing_scope rstr "rstr option"
  | CloseStream rstr rstr
  | ForwardUpstream rstr signed_envelope
  | RpcRequest rstr signed_envelope
  | HeartbeatAck rstr

text \<open>
  The frames of the agent; an error carries its code and message, a registration and its
  acknowledgement leave out the constant protocol version.
\<close>

datatype agent_to_relay =
    AgentRegister rstr rstr rstr rstr rstr
  | AgentHeartbeat rstr nat
  | AgentPairConfirm rstr bool
  | RuntimeOfflineHint rstr
  | StreamAccepted rstr
  | StreamRejected rstr rstr
  | StreamClosedByAgent rstr rstr
  | ForwardDownstream rstr signed_envelope
  | RpcResponse rstr "signed_envelope option" "(rstr \<times> rstr) option"

datatype rpc_method = ListProjects | CreateSession | SnapshotRpc | UploadAttachment | FetchAttachment

definition rpc_stream_id :: "rstr \<Rightarrow> rstr" where
  "rpc_stream_id uuid = lit ''rpc:'' @ uuid"

definition is_rpc_stream_id :: "rstr \<Rightarrow> bool" where
  "is_rpc_stream_id stream_id = starts_with (lit ''rpc:'') stream_id"

end
