(* ===== verification/Remote_Policy.thy ===== *)
theory Remote_Policy
  imports Remote_Protocol
begin

text \<open>
  The commands a client sends into the runtime (leveler-client-protocol/src/command.rs),
  which of them replace a setting under an observed snapshot version, and the remote
  capability gate (leveler-remote-protocol/src/policy.rs): what a paired device may send,
  and when an approval only a remote device can answer starts counting towards its
  automatic denial.

  A command's constructor carries the fields of the source's variant in their order; what
  other crates define (attachment references, agent drafts, schedule requests) is the
  parameter \<open>'x\<close>.
\<close>

section \<open>Client commands\<close>

datatype restart_reason = BuildMismatch | ConfigChanged | UpdateReady | RestartRequested

datatype wire_decision =
    WD_ApproveOnce | WD_ApproveSession | WD_ApproveProject | WD_ApproveAlways | WD_Deny

text \<open>A part of a command no modelled operation reads (attachments, bodies of
  requests this side only passes on).\<close>

datatype (dead 'x) opaque = Opaque 'x

datatype (plugins only: lifting) 'x wire_command =
    C_QueryGlobalTasks rstr rstr bool
  | C_ManageSchedule rstr rstr "'x opaque"
  | C_RequestPromptSuggestion rstr
  | C_RequestAwaySummary rstr
  | C_SubmitMessage rstr rstr "'x opaque list"
  | C_SteerCurrentTurn rstr rstr "rstr option"
  | C_RunGoal rstr rstr bool
  | C_ResumeTask rstr rstr
  | C_AddAttachment rstr rstr "rstr option"
  | C_AddAttachmentData rstr rstr rstr
  | C_AddClipboardImage rstr
  | C_ShutdownWhenIdle restart_reason
  | C_ForceRetire restart_reason
  | C_ReloadConfig "rstr option"
  | C_CancelCurrentTurn rstr
  | C_CancelTask rstr
  | C_CancelChild rstr rstr
  | C_CancelToolCall rstr rstr
  | C_AcknowledgeCrashWindow rstr
  | C_ApprovalDecision rstr wire_decision
  | C_AnswerClarification rstr rstr
  | C_SelectModel rstr model_ref
  | C_SetDefaultModel rstr model_ref
  | C_SetPermissionProfile rstr wire_profile
  | C_SetThinkingLevel rstr "'x opaque option"
  | C_SetProductAxes rstr rstr rstr
  | C_ConfirmPlanToGoal rstr rstr
  | C_RequestDiff rstr "rstr option"
  | C_CompactContext rstr
  | C_ClearConversation rstr
  | C_RequestSessionList
  | C_RequestSessionListFor rstr
  | C_ListForeignSessionsFor rstr "'x opaque"
  | C_ImportForeignSession rstr "'x opaque" rstr
  | C_NewSessionFor rstr
  | C_OpenSession rstr
  | C_OpenSessionFor rstr rstr
  | C_DeleteSession rstr
  | C_DeleteSessionFor rstr rstr
  | C_RenameSession rstr rstr
  | C_ArchiveSession rstr
  | C_ForkSession rstr
  | C_RestoreCheckpoint rstr rstr
  | C_RunUserShell rstr rstr
  | C_BackgroundUserShell rstr rstr
  | C_CancelUserShell rstr rstr
  | C_CancelBackgroundTask rstr rstr
  | C_Btw rstr rstr
  | C_CancelBtw rstr
  | C_QueryObservability rstr "rstr option" "int option" nat nat
  | C_QueryContext rstr "rstr option"
  | C_QueryUsage rstr "rstr option" "'x opaque" int
  | C_QueryChildContribution rstr rstr "rstr option"
  | C_Recap rstr
  | C_ListUnfinishedGoals rstr "rstr option"
  | C_QuerySessionHistory rstr "rstr option"
  | C_ListAgents rstr "rstr option"
  | C_GetAgent rstr rstr "rstr option"
  | C_CreateAgent rstr "'x opaque" "'x opaque" "rstr option"
  | C_UpdateAgent rstr "'x opaque" "'x opaque" "rstr option"
  | C_DeleteAgent rstr "'x opaque" rstr "rstr option"
  | C_Quit

text \<open>The serde tag of a command: its variant's name in snake case.\<close>

primrec command_tag :: "'x wire_command \<Rightarrow> rstr" where
  "command_tag (C_QueryGlobalTasks s a b) = lit ''query_global_tasks''"
| "command_tag (C_ManageSchedule s a b) = lit ''manage_schedule''"
| "command_tag (C_RequestPromptSuggestion s) = lit ''request_prompt_suggestion''"
| "command_tag (C_RequestAwaySummary s) = lit ''request_away_summary''"
| "command_tag (C_SubmitMessage s a b) = lit ''submit_message''"
| "command_tag (C_SteerCurrentTurn s a b) = lit ''steer_current_turn''"
| "command_tag (C_RunGoal s a b) = lit ''run_goal''"
| "command_tag (C_ResumeTask s a) = lit ''resume_task''"
| "command_tag (C_AddAttachment s a b) = lit ''add_attachment''"
| "command_tag (C_AddAttachmentData s a b) = lit ''add_attachment_data''"
| "command_tag (C_AddClipboardImage s) = lit ''add_clipboard_image''"
| "command_tag (C_ShutdownWhenIdle s) = lit ''shutdown_when_idle''"
| "command_tag (C_ForceRetire s) = lit ''force_retire''"
| "command_tag (C_ReloadConfig s) = lit ''reload_config''"
| "command_tag (C_CancelCurrentTurn s) = lit ''cancel_current_turn''"
| "command_tag (C_CancelTask s) = lit ''cancel_task''"
| "command_tag (C_CancelChild s a) = lit ''cancel_child''"
| "command_tag (C_CancelToolCall s a) = lit ''cancel_tool_call''"
| "command_tag (C_AcknowledgeCrashWindow s) = lit ''acknowledge_crash_window''"
| "command_tag (C_ApprovalDecision s a) = lit ''approval_decision''"
| "command_tag (C_AnswerClarification s a) = lit ''answer_clarification''"
| "command_tag (C_SelectModel s a) = lit ''select_model''"
| "command_tag (C_SetDefaultModel s a) = lit ''set_default_model''"
| "command_tag (C_SetPermissionProfile s a) = lit ''set_permission_profile''"
| "command_tag (C_SetThinkingLevel s a) = lit ''set_thinking_level''"
| "command_tag (C_SetProductAxes s a b) = lit ''set_product_axes''"
| "command_tag (C_ConfirmPlanToGoal s a) = lit ''confirm_plan_to_goal''"
| "command_tag (C_RequestDiff s a) = lit ''request_diff''"
| "command_tag (C_CompactContext s) = lit ''compact_context''"
| "command_tag (C_ClearConversation s) = lit ''clear_conversation''"
| "command_tag C_RequestSessionList = lit ''request_session_list''"
| "command_tag (C_RequestSessionListFor s) = lit ''request_session_list_for''"
| "command_tag (C_ListForeignSessionsFor s a) = lit ''list_foreign_sessions_for''"
| "command_tag (C_ImportForeignSession s a b) = lit ''import_foreign_session''"
| "command_tag (C_NewSessionFor s) = lit ''new_session_for''"
| "command_tag (C_OpenSession s) = lit ''open_session''"
| "command_tag (C_OpenSessionFor s a) = lit ''open_session_for''"
| "command_tag (C_DeleteSession s) = lit ''delete_session''"
| "command_tag (C_DeleteSessionFor s a) = lit ''delete_session_for''"
| "command_tag (C_RenameSession s a) = lit ''rename_session''"
| "command_tag (C_ArchiveSession s) = lit ''archive_session''"
| "command_tag (C_ForkSession s) = lit ''fork_session''"
| "command_tag (C_RestoreCheckpoint s a) = lit ''restore_checkpoint''"
| "command_tag (C_RunUserShell s a) = lit ''run_user_shell''"
| "command_tag (C_BackgroundUserShell s a) = lit ''background_user_shell''"
| "command_tag (C_CancelUserShell s a) = lit ''cancel_user_shell''"
| "command_tag (C_CancelBackgroundTask s a) = lit ''cancel_background_task''"
| "command_tag (C_Btw s a) = lit ''btw''"
| "command_tag (C_CancelBtw s) = lit ''cancel_btw''"
| "command_tag (C_QueryObservability s a b c d) = lit ''query_observability''"
| "command_tag (C_QueryContext s a) = lit ''query_context''"
| "command_tag (C_QueryUsage s a b c) = lit ''query_usage''"
| "command_tag (C_QueryChildContribution s a b) = lit ''query_child_contribution''"
| "command_tag (C_Recap s) = lit ''recap''"
| "command_tag (C_ListUnfinishedGoals s a) = lit ''list_unfinished_goals''"
| "command_tag (C_QuerySessionHistory s a) = lit ''query_session_history''"
| "command_tag (C_ListAgents s a) = lit ''list_agents''"
| "command_tag (C_GetAgent s a b) = lit ''get_agent''"
| "command_tag (C_CreateAgent s a b c) = lit ''create_agent''"
| "command_tag (C_UpdateAgent s a b c) = lit ''update_agent''"
| "command_tag (C_DeleteAgent s a b c) = lit ''delete_agent''"
| "command_tag C_Quit = lit ''quit''"

definition SNAPSHOT_VERSIONED_COMMANDS :: "rstr list" where
  "SNAPSHOT_VERSIONED_COMMANDS =
     [lit ''rename_session'', lit ''select_model'', lit ''set_default_model'',
      lit ''set_permission_profile'', lit ''set_thinking_level'', lit ''set_product_axes'']"

definition requires_snapshot_version :: "'x wire_command \<Rightarrow> bool" where
  "requires_snapshot_version c \<longleftrightarrow> command_tag c \<in> set SNAPSHOT_VERSIONED_COMMANDS"

text \<open>\<open>ClientCommand::session_id\<close>: the session a command belongs to, if any.\<close>

primrec command_session :: "'x wire_command \<Rightarrow> rstr option" where
  "command_session (C_QueryGlobalTasks s a b) = Some s"
| "command_session (C_ManageSchedule s a b) = Some s"
| "command_session (C_RequestPromptSuggestion s) = Some s"
| "command_session (C_RequestAwaySummary s) = Some s"
| "command_session (C_SubmitMessage s a b) = Some s"
| "command_session (C_SteerCurrentTurn s a b) = Some s"
| "command_session (C_RunGoal s a b) = Some s"
| "command_session (C_ResumeTask s a) = Some s"
| "command_session (C_AddAttachment s a b) = Some s"
| "command_session (C_AddAttachmentData s a b) = Some s"
| "command_session (C_AddClipboardImage s) = Some s"
| "command_session (C_ShutdownWhenIdle s) = None"
| "command_session (C_ForceRetire s) = None"
| "command_session (C_ReloadConfig s) = None"
| "command_session (C_CancelCurrentTurn s) = Some s"
| "command_session (C_CancelTask s) = Some s"
| "command_session (C_CancelChild s a) = Some s"
| "command_session (C_CancelToolCall s a) = Some s"
| "command_session (C_AcknowledgeCrashWindow s) = Some s"
| "command_session (C_ApprovalDecision s a) = None"
| "command_session (C_AnswerClarification s a) = None"
| "command_session (C_SelectModel s a) = Some s"
| "command_session (C_SetDefaultModel s a) = Some s"
| "command_session (C_SetPermissionProfile s a) = Some s"
| "command_session (C_SetThinkingLevel s a) = Some s"
| "command_session (C_SetProductAxes s a b) = Some s"
| "command_session (C_ConfirmPlanToGoal s a) = Some s"
| "command_session (C_RequestDiff s a) = Some s"
| "command_session (C_CompactContext s) = Some s"
| "command_session (C_ClearConversation s) = Some s"
| "command_session C_RequestSessionList = None"
| "command_session (C_RequestSessionListFor s) = Some s"
| "command_session (C_ListForeignSessionsFor s a) = Some s"
| "command_session (C_ImportForeignSession s a b) = Some s"
| "command_session (C_NewSessionFor s) = Some s"
| "command_session (C_OpenSession s) = Some s"
| "command_session (C_OpenSessionFor s a) = Some s"
| "command_session (C_DeleteSession s) = Some s"
| "command_session (C_DeleteSessionFor s a) = Some s"
| "command_session (C_RenameSession s a) = Some s"
| "command_session (C_ArchiveSession s) = Some s"
| "command_session (C_ForkSession s) = Some s"
| "command_session (C_RestoreCheckpoint s a) = Some s"
| "command_session (C_RunUserShell s a) = Some s"
| "command_session (C_BackgroundUserShell s a) = Some s"
| "command_session (C_CancelUserShell s a) = Some s"
| "command_session (C_CancelBackgroundTask s a) = Some s"
| "command_session (C_Btw s a) = Some s"
| "command_session (C_CancelBtw s) = Some s"
| "command_session (C_QueryObservability s a b c d) = Some s"
| "command_session (C_QueryContext s a) = Some s"
| "command_session (C_QueryUsage s a b c) = Some s"
| "command_session (C_QueryChildContribution s a b) = Some s"
| "command_session (C_Recap s) = Some s"
| "command_session (C_ListUnfinishedGoals s a) = Some s"
| "command_session (C_QuerySessionHistory s a) = Some s"
| "command_session (C_ListAgents s a) = Some s"
| "command_session (C_GetAgent s a b) = Some s"
| "command_session (C_CreateAgent s a b c) = Some s"
| "command_session (C_UpdateAgent s a b c) = Some s"
| "command_session (C_DeleteAgent s a b c) = Some s"
| "command_session C_Quit = None"

text \<open>A message the client sends upstream, and the boundary between the two delivery verbs.\<close>

datatype 'x upstream_message =
    Deliver rstr rstr "'x wire_command" "int option"
  | DeliverVersionedSettings rstr rstr "'x wire_command" "int option"
  | SnapshotRequest rstr

definition versioned_required :: rstr where
  "versioned_required = lit ''protected settings require the distinct versioned operation and an observed snapshot version''"

definition setting_delivery_ok :: "'x wire_command \<Rightarrow> int option \<Rightarrow> bool \<Rightarrow> rstr + unit" where
  "setting_delivery_ok command version versioned =
     (if requires_snapshot_version command \<noteq> versioned \<or> (versioned \<and> version = None)
      then Inl versioned_required else Inr ())"

fun validate_setting_delivery :: "'x upstream_message \<Rightarrow> rstr + unit" where
  "validate_setting_delivery (Deliver i s command version) = setting_delivery_ok command version False"
| "validate_setting_delivery (DeliverVersionedSettings i s command version) =
     setting_delivery_ok command version True"
| "validate_setting_delivery (SnapshotRequest s) = Inr ()"

section \<open>The capability gate\<close>

datatype remote_verdict = RemoteAllow | RemoteDeny rstr rstr

definition DENIED_COMMAND :: rstr where "DENIED_COMMAND = lit ''command_not_allowed_remote''"
definition DENIED_DECISION :: rstr where "DENIED_DECISION = lit ''approval_decision_not_allowed_remote''"
definition DENIED_PROFILE :: rstr where "DENIED_PROFILE = lit ''permission_profile_not_allowed_remote''"

definition deny_command :: "string \<Rightarrow> remote_verdict" where
  "deny_command reason = RemoteDeny DENIED_COMMAND (lit reason)"

record remote_policy =
  rp_scope :: pairing_scope
  rp_allow_full_access :: bool

fun evaluate_decision :: "wire_decision \<Rightarrow> remote_verdict" where
  "evaluate_decision WD_ApproveOnce = RemoteAllow"
| "evaluate_decision WD_ApproveSession = RemoteAllow"
| "evaluate_decision WD_Deny = RemoteAllow"
| "evaluate_decision WD_ApproveProject =
     RemoteDeny DENIED_DECISION (lit ''a remote client cannot grant standing permission'')"
| "evaluate_decision WD_ApproveAlways =
     RemoteDeny DENIED_DECISION (lit ''a remote client cannot grant standing permission'')"

fun evaluate_profile :: "bool \<Rightarrow> wire_profile \<Rightarrow> remote_verdict" where
  "evaluate_profile allow_full_access WP_RequestApproval = RemoteAllow"
| "evaluate_profile allow_full_access WP_Assisted = RemoteAllow"
| "evaluate_profile allow_full_access WP_FullAccess =
     (if allow_full_access then RemoteAllow
      else RemoteDeny DENIED_PROFILE (lit ''full access requires a local opt-in on the host''))"

primrec evaluate_interactive :: "bool \<Rightarrow> 'x wire_command \<Rightarrow> remote_verdict" where
  "evaluate_interactive full (C_QueryGlobalTasks s a b) =
     deny_command ''session history is local-only''"
| "evaluate_interactive full (C_ManageSchedule s a b) =
     deny_command ''scheduled automation is managed locally''"
| "evaluate_interactive full (C_RequestPromptSuggestion s) =
     deny_command ''generated session chrome is local-only''"
| "evaluate_interactive full (C_RequestAwaySummary s) =
     deny_command ''generated session chrome is local-only''"
| "evaluate_interactive full (C_SubmitMessage s a b) = RemoteAllow"
| "evaluate_interactive full (C_SteerCurrentTurn s a b) = RemoteAllow"
| "evaluate_interactive full (C_RunGoal s a b) = RemoteAllow"
| "evaluate_interactive full (C_ResumeTask s a) = RemoteAllow"
| "evaluate_interactive full (C_AddAttachment s a b) =
     deny_command ''attachments from a remote client go through the upload RPC''"
| "evaluate_interactive full (C_AddAttachmentData s a b) =
     deny_command ''attachments from a remote client go through the upload RPC''"
| "evaluate_interactive full (C_AddClipboardImage s) =
     deny_command ''attachments from a remote client go through the upload RPC''"
| "evaluate_interactive full (C_ShutdownWhenIdle s) =
     deny_command ''a remote client cannot retire the local runtime''"
| "evaluate_interactive full (C_ForceRetire s) =
     deny_command ''a remote client cannot force-retire the local runtime''"
| "evaluate_interactive full (C_ReloadConfig s) =
     deny_command ''runtime configuration is host-local''"
| "evaluate_interactive full (C_CancelCurrentTurn s) = RemoteAllow"
| "evaluate_interactive full (C_CancelTask s) = RemoteAllow"
| "evaluate_interactive full (C_CancelChild s a) = RemoteAllow"
| "evaluate_interactive full (C_CancelToolCall s a) = RemoteAllow"
| "evaluate_interactive full (C_AcknowledgeCrashWindow s) =
     deny_command ''crash recovery acknowledgement is a local operator decision''"
| "evaluate_interactive full (C_ApprovalDecision s a) = evaluate_decision a"
| "evaluate_interactive full (C_AnswerClarification s a) = RemoteAllow"
| "evaluate_interactive full (C_SelectModel s a) = RemoteAllow"
| "evaluate_interactive full (C_SetDefaultModel s a) =
     deny_command ''the persisted default model is host-local''"
| "evaluate_interactive full (C_SetPermissionProfile s a) = evaluate_profile full a"
| "evaluate_interactive full (C_SetThinkingLevel s a) = RemoteAllow"
| "evaluate_interactive full (C_SetProductAxes s a b) = RemoteAllow"
| "evaluate_interactive full (C_ConfirmPlanToGoal s a) = RemoteAllow"
| "evaluate_interactive full (C_RequestDiff s a) = RemoteAllow"
| "evaluate_interactive full (C_CompactContext s) = RemoteAllow"
| "evaluate_interactive full (C_ClearConversation s) = RemoteAllow"
| "evaluate_interactive full C_RequestSessionList = RemoteAllow"
| "evaluate_interactive full (C_RequestSessionListFor s) = RemoteAllow"
| "evaluate_interactive full (C_ListForeignSessionsFor s a) =
     deny_command ''another agent's local session store is host-local''"
| "evaluate_interactive full (C_ImportForeignSession s a b) =
     deny_command ''another agent's local session store is host-local''"
| "evaluate_interactive full (C_NewSessionFor s) = RemoteAllow"
| "evaluate_interactive full (C_OpenSession s) = RemoteAllow"
| "evaluate_interactive full (C_OpenSessionFor s a) = RemoteAllow"
| "evaluate_interactive full (C_DeleteSession s) =
     deny_command ''session management is not available remotely''"
| "evaluate_interactive full (C_DeleteSessionFor s a) =
     deny_command ''session management is not available remotely''"
| "evaluate_interactive full (C_RenameSession s a) =
     deny_command ''session management is not available remotely''"
| "evaluate_interactive full (C_ArchiveSession s) =
     deny_command ''session management is not available remotely''"
| "evaluate_interactive full (C_ForkSession s) =
     deny_command ''session management is not available remotely''"
| "evaluate_interactive full (C_RestoreCheckpoint s a) =
     deny_command ''session management is not available remotely''"
| "evaluate_interactive full (C_RunUserShell s a) =
     deny_command ''user shell execution is not available remotely''"
| "evaluate_interactive full (C_BackgroundUserShell s a) =
     deny_command ''user shell execution is not available remotely''"
| "evaluate_interactive full (C_CancelUserShell s a) =
     deny_command ''user shell execution is not available remotely''"
| "evaluate_interactive full (C_CancelBackgroundTask s a) =
     deny_command ''user shell execution is not available remotely''"
| "evaluate_interactive full (C_Btw s a) = RemoteAllow"
| "evaluate_interactive full (C_CancelBtw s) = RemoteAllow"
| "evaluate_interactive full (C_QueryObservability s a b c d) =
     deny_command ''runtime observatory is local-only''"
| "evaluate_interactive full (C_QueryContext s a) =
     deny_command ''context accounting is local-only''"
| "evaluate_interactive full (C_QueryUsage s a b c) =
     deny_command ''usage reporting is local-only''"
| "evaluate_interactive full (C_QueryChildContribution s a b) =
     deny_command ''contribution detail is local-only''"
| "evaluate_interactive full (C_Recap s) =
     deny_command ''generated session chrome is local-only''"
| "evaluate_interactive full (C_ListUnfinishedGoals s a) =
     deny_command ''goal listing is local-only''"
| "evaluate_interactive full (C_QuerySessionHistory s a) =
     deny_command ''session history is local-only''"
| "evaluate_interactive full (C_ListAgents s a) =
     deny_command ''agent definitions are local-only''"
| "evaluate_interactive full (C_GetAgent s a b) =
     deny_command ''agent definitions are local-only''"
| "evaluate_interactive full (C_CreateAgent s a b c) =
     deny_command ''agent definitions are local-only''"
| "evaluate_interactive full (C_UpdateAgent s a b c) =
     deny_command ''agent definitions are local-only''"
| "evaluate_interactive full (C_DeleteAgent s a b c) =
     deny_command ''agent definitions are local-only''"
| "evaluate_interactive full C_Quit =
     deny_command ''a remote client cannot shut down the runtime''"

definition evaluate_remote :: "remote_policy \<Rightarrow> 'x wire_command \<Rightarrow> remote_verdict" where
  "evaluate_remote p command =
     (if rp_scope p = Observe then deny_command ''this device is paired for observation only''
      else evaluate_interactive (rp_allow_full_access p) command)"

text \<open>The label of a command in logs and audit lines (bridge.rs).\<close>

primrec command_kind :: "'x wire_command \<Rightarrow> rstr" where
  "command_kind (C_QueryGlobalTasks s a b) = lit ''query_global_tasks''"
| "command_kind (C_ManageSchedule s a b) = lit ''manage_schedule''"
| "command_kind (C_RequestPromptSuggestion s) = lit ''request_prompt_suggestion''"
| "command_kind (C_RequestAwaySummary s) = lit ''request_away_summary''"
| "command_kind (C_SubmitMessage s a b) = lit ''submit_message''"
| "command_kind (C_SteerCurrentTurn s a b) = lit ''steer_current_turn''"
| "command_kind (C_RunGoal s a b) = lit ''run_goal''"
| "command_kind (C_ResumeTask s a) = lit ''resume_task''"
| "command_kind (C_AddAttachment s a b) = lit ''add_attachment''"
| "command_kind (C_AddAttachmentData s a b) = lit ''add_attachment_data''"
| "command_kind (C_AddClipboardImage s) = lit ''add_clipboard_image''"
| "command_kind (C_ShutdownWhenIdle s) = lit ''shutdown_when_idle''"
| "command_kind (C_ForceRetire s) = lit ''force_retire''"
| "command_kind (C_ReloadConfig s) = lit ''reload_config''"
| "command_kind (C_CancelCurrentTurn s) = lit ''cancel_current_turn''"
| "command_kind (C_CancelTask s) = lit ''cancel_task''"
| "command_kind (C_CancelChild s a) = lit ''cancel_child''"
| "command_kind (C_CancelToolCall s a) = lit ''cancel_tool_call''"
| "command_kind (C_AcknowledgeCrashWindow s) = lit ''acknowledge_crash_window''"
| "command_kind (C_ApprovalDecision s a) = lit ''approval_decision''"
| "command_kind (C_AnswerClarification s a) = lit ''answer_clarification''"
| "command_kind (C_SelectModel s a) = lit ''select_model''"
| "command_kind (C_SetDefaultModel s a) = lit ''set_default_model''"
| "command_kind (C_SetPermissionProfile s a) = lit ''set_permission_profile''"
| "command_kind (C_SetThinkingLevel s a) = lit ''set_thinking_level''"
| "command_kind (C_SetProductAxes s a b) = lit ''set_product_axes''"
| "command_kind (C_ConfirmPlanToGoal s a) = lit ''confirm_plan_to_goal''"
| "command_kind (C_RequestDiff s a) = lit ''request_diff''"
| "command_kind (C_CompactContext s) = lit ''compact_context''"
| "command_kind (C_ClearConversation s) = lit ''clear_conversation''"
| "command_kind C_RequestSessionList = lit ''request_session_list''"
| "command_kind (C_RequestSessionListFor s) = lit ''request_session_list_for''"
| "command_kind (C_ListForeignSessionsFor s a) = lit ''list_foreign_sessions_for''"
| "command_kind (C_ImportForeignSession s a b) = lit ''import_foreign_session''"
| "command_kind (C_NewSessionFor s) = lit ''new_session_for''"
| "command_kind (C_OpenSession s) = lit ''open_session''"
| "command_kind (C_OpenSessionFor s a) = lit ''open_session_for''"
| "command_kind (C_DeleteSession s) = lit ''delete_session''"
| "command_kind (C_DeleteSessionFor s a) = lit ''delete_session_for''"
| "command_kind (C_RenameSession s a) = lit ''rename_session''"
| "command_kind (C_ArchiveSession s) = lit ''archive_session''"
| "command_kind (C_ForkSession s) = lit ''fork_session''"
| "command_kind (C_RestoreCheckpoint s a) = lit ''restore_checkpoint''"
| "command_kind (C_RunUserShell s a) = lit ''run_user_shell''"
| "command_kind (C_BackgroundUserShell s a) = lit ''background_user_shell''"
| "command_kind (C_CancelUserShell s a) = lit ''cancel_user_shell''"
| "command_kind (C_CancelBackgroundTask s a) = lit ''cancel_background_task''"
| "command_kind (C_Btw s a) = lit ''btw''"
| "command_kind (C_CancelBtw s) = lit ''cancel_btw''"
| "command_kind (C_QueryObservability s a b c d) = lit ''query_observability''"
| "command_kind (C_QueryContext s a) = lit ''query_context''"
| "command_kind (C_QueryUsage s a b c) = lit ''query_usage''"
| "command_kind (C_QueryChildContribution s a b) = lit ''query_child_contribution''"
| "command_kind (C_Recap s) = lit ''recap''"
| "command_kind (C_ListUnfinishedGoals s a) = lit ''list_unfinished_goals''"
| "command_kind (C_QuerySessionHistory s a) = lit ''query_session_history''"
| "command_kind (C_ListAgents s a) = lit ''list_agents''"
| "command_kind (C_GetAgent s a b) = lit ''get_agent''"
| "command_kind (C_CreateAgent s a b c) = lit ''create_agent''"
| "command_kind (C_UpdateAgent s a b c) = lit ''update_agent''"
| "command_kind (C_DeleteAgent s a b c) = lit ''delete_agent''"
| "command_kind C_Quit = lit ''quit''"

section \<open>The countdown of a remote-only approval\<close>

record waiters =
  wt_local :: nat
  wt_remote :: nat

datatype timer_transition = Arm | Disarm | Unchanged

record timeout_state =
  ts_armed :: bool
  ts_resolved :: bool

definition timeout_state_new :: timeout_state where
  "timeout_state_new = \<lparr>ts_armed = False, ts_resolved = False\<rparr>"

definition timer_to :: "bool \<Rightarrow> timeout_state \<Rightarrow> timer_transition \<times> timeout_state" where
  "timer_to armed s =
     (if armed = ts_armed s then (Unchanged, s)
      else (if armed then Arm else Disarm, s\<lparr>ts_armed := armed\<rparr>))"

definition observe_waiters :: "waiters \<Rightarrow> timeout_state \<Rightarrow> timer_transition \<times> timeout_state" where
  "observe_waiters w s = timer_to (\<not> ts_resolved s \<and> wt_remote w > 0 \<and> wt_local w = 0) s"

definition timer_resolved :: "timeout_state \<Rightarrow> timer_transition \<times> timeout_state" where
  "timer_resolved s = timer_to False (s\<lparr>ts_resolved := True\<rparr>)"

end
