(* ===== verification/Remote_Uploads.thy ===== *)
theory Remote_Uploads
  imports Remote_Protocol "HOL-Library.AList"
begin

text \<open>
  Attachments of a remote device (leveler-remote-agent/src/attachments.rs): the pieces of
  an upload put back together under the limits of a file and of a session, and the slices
  a fetch is answered with.

  A hash map whose contents are summed or counted is an association list of distinct
  keys, written with \<open>table_put\<close> and \<open>AList.delete\<close>.  The assembly the code inserts before
  its checks is inserted here by the branch that keeps it: every other branch removes it.
\<close>

section \<open>Tables\<close>

definition table_put :: "'k \<Rightarrow> 'v \<Rightarrow> ('k \<times> 'v) list \<Rightarrow> ('k \<times> 'v) list" where
  "table_put k v t = (k, v) # AList.delete k t"

definition table_sum :: "('k \<times> 'v \<Rightarrow> nat) \<Rightarrow> ('k \<times> 'v) list \<Rightarrow> nat" where
  "table_sum f t = sum_list (map f t)"

definition table_ok :: "('k \<times> 'v) list \<Rightarrow> bool" where
  "table_ok t = distinct (map fst t)"

lemma table_ok_Nil [simp]: "table_ok []"
  by (simp add: table_ok_def)

lemma table_ok_delete [simp]: "table_ok t \<Longrightarrow> table_ok (AList.delete k t)"
  by (simp add: table_ok_def distinct_delete)

lemma table_ok_put [simp]: "table_ok t \<Longrightarrow> table_ok (table_put k v t)"
  by (simp add: table_ok_def table_put_def delete_keys distinct_removeAll)

lemma map_of_put [simp]: "map_of (table_put k v t) x = (if x = k then Some v else map_of t x)"
  by (simp add: table_put_def)

lemma map_of_table_delete [simp]: "map_of (AList.delete k t) x = (if x = k then None else map_of t x)"
  by (simp add: delete_conv')

lemma table_sum_Nil [simp]: "table_sum f [] = 0"
  by (simp add: table_sum_def)

lemma table_sum_put [simp]: "table_sum f (table_put k v t) = f (k, v) + table_sum f (AList.delete k t)"
  by (simp add: table_sum_def table_put_def)

lemma table_sum_split:
  "table_ok t \<Longrightarrow> map_of t k = Some v \<Longrightarrow> table_sum f t = f (k, v) + table_sum f (AList.delete k t)"
proof (induction t)
  case Nil
  then show ?case by simp
next
  case (Cons x t)
  show ?case
  proof (cases "fst x = k")
    case True
    with Cons.prems(1) have "AList.delete k (x # t) = t"
      by (cases x) (force simp: table_ok_def AList.delete_eq filter_id_conv)
    with True Cons.prems(2) show ?thesis by (cases x) (simp add: table_sum_def)
  next
    case False
    with Cons show ?thesis by (cases x) (auto simp: table_sum_def table_ok_def AList.delete_eq)
  qed
qed

lemma table_sum_absent: "map_of t k = None \<Longrightarrow> AList.delete k t = t"
  by (force simp: AList.delete_eq filter_id_conv map_of_eq_None_iff)

lemma table_sum_le: "(\<And>x. f x \<le> g x) \<Longrightarrow> table_sum f t \<le> table_sum g t"
  by (induction t) (auto simp: table_sum_def intro: add_mono)

lemma table_sum_delete_le: "table_sum f (AList.delete k t) \<le> table_sum f t"
  by (induction t) (auto simp: table_sum_def AList.delete_eq)

lemma table_get_le: "map_of t k = Some v \<Longrightarrow> f (k, v) \<le> table_sum f t"
  by (induction t) (auto simp: table_sum_def split: if_splits)

section \<open>Limits\<close>

definition MAX_ATTACHMENT_BYTES :: nat where "MAX_ATTACHMENT_BYTES = 5 * 1024 * 1024"
definition MAX_SESSION_BYTES :: nat where "MAX_SESSION_BYTES = 20 * 1024 * 1024"
definition MAX_CHUNKS :: nat where "MAX_CHUNKS = 64"
definition FETCH_CHUNK_BYTES :: nat where "FETCH_CHUNK_BYTES = 512 * 1024"

text \<open>The content address of an attachment: 64 lower-case hexadecimal digits.\<close>

definition is_sha256_hex :: "rstr \<Rightarrow> bool" where
  "is_sha256_hex v \<longleftrightarrow>
     byte_len v = 64 \<and> list_all (\<lambda>b. (48 \<le> b \<and> b \<le> 57) \<or> (97 \<le> b \<and> b \<le> 102)) (utf8_encode v)"

section \<open>Putting an upload together\<close>

record upload_chunk =
  uc_session :: rstr
  uc_name :: rstr
  uc_index :: nat
  uc_total :: nat
  uc_data :: rstr

datatype upload_error =
    NotBase64
  | ChunkOutOfRange nat nat
  | Contradicts
  | TooLarge
  | SessionFull

fun upload_error_code :: "upload_error \<Rightarrow> rstr" where
  "upload_error_code NotBase64 = lit ''invalid_frame''"
| "upload_error_code (ChunkOutOfRange i t) = lit ''invalid_frame''"
| "upload_error_code Contradicts = lit ''invalid_frame''"
| "upload_error_code TooLarge = lit ''payload_too_large''"
| "upload_error_code SessionFull = lit ''payload_too_large''"

record assembly =
  as_total :: nat
  as_pieces :: "byte list option list"

definition assembly_new :: "nat \<Rightarrow> assembly" where
  "assembly_new n = \<lparr>as_total = n, as_pieces = replicate n None\<rparr>"

definition piece_len :: "byte list option \<Rightarrow> nat" where
  "piece_len p = (case p of None \<Rightarrow> 0 | Some b \<Rightarrow> length b)"

definition received_bytes :: "assembly \<Rightarrow> nat" where
  "received_bytes a = sum_list (map piece_len (as_pieces a))"

definition assembly_complete :: "assembly \<Rightarrow> bool" where
  "assembly_complete a = list_all (\<lambda>p. p \<noteq> None) (as_pieces a)"

definition assembly_joined :: "assembly \<Rightarrow> byte list" where
  "assembly_joined a = concat (map (\<lambda>p. case p of None \<Rightarrow> [] | Some b \<Rightarrow> b) (as_pieces a))"

type_synonym upload_key = "rstr \<times> rstr \<times> rstr"

record uploads =
  up_partial :: "(upload_key \<times> assembly) list"
  up_accepted :: "rstr \<rightharpoonup> nat"

definition uploads_new :: uploads where
  "uploads_new = \<lparr>up_partial = [], up_accepted = Map.empty\<rparr>"

datatype chunk_outcome = ChunkIncomplete | ChunkComplete "byte list"

definition accepted_bytes :: "uploads \<Rightarrow> rstr \<Rightarrow> nat" where
  "accepted_bytes s session = (case up_accepted s session of None \<Rightarrow> 0 | Some n \<Rightarrow> n)"

definition session_weight :: "rstr \<Rightarrow> upload_key \<times> assembly \<Rightarrow> nat" where
  "session_weight session x =
     (case x of ((d, se, nm), a) \<Rightarrow> if se = session then received_bytes a else 0)"

text \<open>Everything a session holds: what it handed over and the pieces in flight.\<close>

definition held_bytes :: "uploads \<Rightarrow> rstr \<Rightarrow> nat" where
  "held_bytes s session = accepted_bytes s session + table_sum (session_weight session) (up_partial s)"

definition drop_upload :: "upload_key \<Rightarrow> uploads \<Rightarrow> uploads" where
  "drop_upload key s = s\<lparr>up_partial := AList.delete key (up_partial s)\<rparr>"

definition keep_piece :: "upload_key \<Rightarrow> assembly \<Rightarrow> uploads \<Rightarrow> chunk_outcome \<times> uploads" where
  "keep_piece key a s =
     (if \<not> assembly_complete a
      then (ChunkIncomplete, s\<lparr>up_partial := table_put key a (up_partial s)\<rparr>)
      else (let session = fst (snd key)
            in (ChunkComplete (assembly_joined a),
                (drop_upload key s)\<lparr>up_accepted := (up_accepted s)(session \<mapsto>
                   accepted_bytes s session + length (assembly_joined a))\<rparr>)))"

definition place_piece ::
  "upload_key \<Rightarrow> assembly \<Rightarrow> nat \<Rightarrow> byte list \<Rightarrow> uploads \<Rightarrow> (upload_error + chunk_outcome) \<times> uploads" where
  "place_piece key a index bytes s =
     (let already = held_bytes s (fst (snd key));
          size = received_bytes a - piece_len (as_pieces a ! index) + length bytes;
          elsewhere = already - min (received_bytes a) already
      in if size > MAX_ATTACHMENT_BYTES then (Inl TooLarge, drop_upload key s)
         else if elsewhere + size > MAX_SESSION_BYTES then (Inl SessionFull, drop_upload key s)
         else (case keep_piece key (a\<lparr>as_pieces := (as_pieces a)[index := Some bytes]\<rparr>) s of
                 (out, s') \<Rightarrow> (Inr out, s')))"

definition upload_key_of :: "rstr \<Rightarrow> upload_chunk \<Rightarrow> upload_key" where
  "upload_key_of device_id c = (device_id, uc_session c, uc_name c)"

definition upload_accept ::
  "crypto \<Rightarrow> rstr \<Rightarrow> upload_chunk \<Rightarrow> uploads \<Rightarrow> (upload_error + chunk_outcome) \<times> uploads" where
  "upload_accept cx device_id c s =
     (if uc_total c = 0 \<or> uc_total c > MAX_CHUNKS \<or> uc_index c \<ge> uc_total c
      then (Inl (ChunkOutOfRange (uc_index c) (uc_total c)), s)
      else case cx_unb64 cx (uc_data c) of
             None \<Rightarrow> (Inl NotBase64, s)
           | Some bytes \<Rightarrow>
               (let key = upload_key_of device_id c;
                    a = (case map_of (up_partial s) key of
                           None \<Rightarrow> assembly_new (uc_total c)
                         | Some a \<Rightarrow> a)
                in if as_total a \<noteq> uc_total c then (Inl Contradicts, drop_upload key s)
                   else place_piece key a (uc_index c) bytes s))"

section \<open>Answering a fetch\<close>

definition fetch_chunk_total :: "byte list \<Rightarrow> nat" where
  "fetch_chunk_total blob = max 1 ((length blob + FETCH_CHUNK_BYTES - 1) div FETCH_CHUNK_BYTES)"

definition fetch_slice :: "byte list \<Rightarrow> nat \<Rightarrow> byte list" where
  "fetch_slice blob i =
     (let start = i * FETCH_CHUNK_BYTES
      in take (min (start + FETCH_CHUNK_BYTES) (length blob) - start) (drop start blob))"

end
