(* ===== verification/Remote_Devices.thy ===== *)
theory Remote_Devices
  imports Remote_Protocol Git_Effects
begin

text \<open>
  What the agent trusts and where it routes (leveler-remote-agent): its own record of the
  paired devices (devices.rs), the projects a host exposes (projects.rs), and the events
  it writes down (audit.rs).

  A device state is one process's handle on the device file: the file as it is, whether it
  can be read and parsed now, and the last good copy, which is this process's own.  The file
  is read for every lookup.  A write replaces the file or leaves it as it was; whether it
  succeeds is an argument.  A command of the command line runs in another process, with a
  handle of its own on the same file (\<open>other_process\<close>): the agent's copy stays as it was.
\<close>

section \<open>Trusted devices\<close>

datatype trust_error =
    NotPaired rstr
  | DeviceRevoked rstr
  | UnusableKey rstr
  | PubkeyMismatch rstr

fun trust_error_code :: "trust_error \<Rightarrow> rstr" where
  "trust_error_code (NotPaired d) = lit ''unauthorized''"
| "trust_error_code (DeviceRevoked d) = lit ''device_revoked''"
| "trust_error_code (UnusableKey d) = lit ''invalid_frame''"
| "trust_error_code (PubkeyMismatch d) = lit ''pubkey_mismatch''"

fun trust_error_text :: "trust_error \<Rightarrow> rstr" where
  "trust_error_text (NotPaired d) = lit ''device '' @ d @ lit '' is not paired with this runtime''"
| "trust_error_text (DeviceRevoked d) = lit ''device '' @ d @ lit '' was revoked''"
| "trust_error_text (UnusableKey d) = lit ''stored key for device '' @ d @ lit '' is unusable''"
| "trust_error_text (PubkeyMismatch d) =
     lit ''the relay offered a different public key for device '' @ d"

record device_state =
  ds_disk :: "paired_device list option"
  ds_readable :: bool
  ds_cached :: "paired_device list"

definition read_device_store :: "device_state \<Rightarrow> paired_device list option" where
  "read_device_store ds =
     (if ds_readable ds then Some (case ds_disk ds of None \<Rightarrow> [] | Some s \<Rightarrow> s) else None)"

definition load_devices :: "paired_device list option \<Rightarrow> bool \<Rightarrow> device_state option" where
  "load_devices disk readable =
     (let ds = \<lparr>ds_disk = disk, ds_readable = readable, ds_cached = []\<rparr>
      in map_option (\<lambda>s. ds\<lparr>ds_cached := s\<rparr>) (read_device_store ds))"

definition current_devices :: "device_state \<Rightarrow> paired_device list \<times> device_state" where
  "current_devices ds =
     (case read_device_store ds of
        Some s \<Rightarrow> (s, ds\<lparr>ds_cached := s\<rparr>)
      | None \<Rightarrow> (ds_cached ds, ds))"

definition persist_devices :: "bool \<Rightarrow> paired_device list \<Rightarrow> device_state \<Rightarrow> bool \<times> device_state" where
  "persist_devices io_ok s ds =
     (if io_ok then (True, \<lparr>ds_disk = Some s, ds_readable = True, ds_cached = s\<rparr>) else (False, ds))"

definition accept_device ::
  "crypto \<Rightarrow> bool \<Rightarrow> rstr \<Rightarrow> byte list \<Rightarrow> rstr \<Rightarrow> pairing_scope \<Rightarrow> rstr \<Rightarrow> device_state
     \<Rightarrow> bool \<times> device_state" where
  "accept_device cx io_ok device_id key name scope paired_at ds =
     (case current_devices ds of (s, ds') \<Rightarrow>
        persist_devices io_ok
          (filter (\<lambda>d. pd_device_id d \<noteq> device_id) s @
           [\<lparr>pd_device_id = device_id, pd_pubkey_b64 = key_to_base64url cx key,
             pd_fingerprint = key_fingerprint cx key, pd_name = name, pd_scope = scope,
             pd_paired_at = paired_at, pd_revoked_at = None\<rparr>]) ds')"

fun mark_revoked :: "rstr \<Rightarrow> rstr \<Rightarrow> paired_device list \<Rightarrow> paired_device list option" where
  "mark_revoked device_id at [] = None"
| "mark_revoked device_id at (d # ds) =
     (if pd_device_id d = device_id then Some (d\<lparr>pd_revoked_at := Some at\<rparr> # ds)
      else map_option (\<lambda>r. d # r) (mark_revoked device_id at ds))"

text \<open>The answer is \<open>None\<close> when the write failed, else whether the device was there.\<close>

definition revoke_device :: "bool \<Rightarrow> rstr \<Rightarrow> rstr \<Rightarrow> device_state \<Rightarrow> bool option \<times> device_state" where
  "revoke_device io_ok device_id at ds =
     (case current_devices ds of (s, ds') \<Rightarrow>
        (case mark_revoked device_id at s of
           None \<Rightarrow> (Some False, ds')
         | Some s' \<Rightarrow> (case persist_devices io_ok s' ds' of
                        (ok, ds'') \<Rightarrow> (if ok then Some True else None, ds''))))"

text \<open>A process that opens the file, works on it, and goes.  The answer is \<open>None\<close> when
  it could not open the file.\<close>

definition other_process ::
  "(device_state \<Rightarrow> 'a \<times> device_state) \<Rightarrow> device_state \<Rightarrow> 'a option \<times> device_state" where
  "other_process f ds =
     (case load_devices (ds_disk ds) (ds_readable ds) of
        None \<Rightarrow> (None, ds)
      | Some handle \<Rightarrow>
          (case f handle of
             (r, handle') \<Rightarrow>
               (Some r, ds\<lparr>ds_disk := ds_disk handle', ds_readable := ds_readable handle'\<rparr>)))"

definition cli_accept ::
  "crypto \<Rightarrow> bool \<Rightarrow> rstr \<Rightarrow> byte list \<Rightarrow> rstr \<Rightarrow> pairing_scope \<Rightarrow> rstr \<Rightarrow> device_state
     \<Rightarrow> bool option \<times> device_state" where
  "cli_accept cx io_ok device_id key name scope paired_at =
     other_process (accept_device cx io_ok device_id key name scope paired_at)"

definition cli_revoke ::
  "bool \<Rightarrow> rstr \<Rightarrow> rstr \<Rightarrow> device_state \<Rightarrow> bool option option \<times> device_state" where
  "cli_revoke io_ok device_id at = other_process (revoke_device io_ok device_id at)"

definition trust_of ::
  "crypto \<Rightarrow> rstr \<Rightarrow> rstr option \<Rightarrow> paired_device list \<Rightarrow> trust_error + (byte list \<times> pairing_scope)" where
  "trust_of cx device_id claimed s =
     (case find (\<lambda>d. pd_device_id d = device_id) s of
        None \<Rightarrow> Inl (NotPaired device_id)
      | Some d \<Rightarrow>
          if \<not> device_is_active d then Inl (DeviceRevoked device_id)
          else if (case claimed of None \<Rightarrow> False | Some k \<Rightarrow> k \<noteq> pd_pubkey_b64 d) then Inl (PubkeyMismatch device_id)
          else case key_from_base64url cx (pd_pubkey_b64 d) of
                 Inl e \<Rightarrow> Inl (UnusableKey device_id)
               | Inr key \<Rightarrow> Inr (key, pd_scope d))"

definition key_for ::
  "crypto \<Rightarrow> rstr \<Rightarrow> rstr option \<Rightarrow> device_state
     \<Rightarrow> (trust_error + (byte list \<times> pairing_scope)) \<times> device_state" where
  "key_for cx device_id claimed ds =
     (case current_devices ds of (s, ds') \<Rightarrow> (trust_of cx device_id claimed s, ds'))"

section \<open>Projects\<close>

datatype project_status = ProjectOnline | ProjectStarting | ProjectOfflineStatus

record project_info =
  pi_id :: rstr
  pi_display :: rstr
  pi_status :: project_status

datatype route_error = UnknownProject | ProjectOffline | ProjectRequired

fun route_error_code :: "route_error \<Rightarrow> rstr" where
  "route_error_code UnknownProject = lit ''unknown_project''"
| "route_error_code ProjectOffline = lit ''project_offline''"
| "route_error_code ProjectRequired = lit ''project_required''"

fun route_error_text :: "route_error \<Rightarrow> rstr" where
  "route_error_text UnknownProject = lit ''this host has no open project with that id''"
| "route_error_text ProjectOffline = lit ''that project has no runtime running on the host''"
| "route_error_text ProjectRequired = lit ''more than one project is open, so the target must be named''"

text \<open>A host that serves one attached project.\<close>

record 'rt single_project =
  sp_id :: rstr
  sp_display :: rstr
  sp_runtime :: 'rt

definition single_projects :: "'rt single_project \<Rightarrow> project_info list" where
  "single_projects p = [\<lparr>pi_id = sp_id p, pi_display = sp_display p, pi_status = ProjectOnline\<rparr>]"

definition single_runtime :: "rstr \<Rightarrow> 'rt single_project \<Rightarrow> route_error + 'rt" where
  "single_runtime project_id p = (if project_id = sp_id p then Inr (sp_runtime p) else Inl UnknownProject)"

definition single_implied :: "'rt single_project \<Rightarrow> route_error + rstr" where
  "single_implied p = Inr (sp_id p)"

text \<open>
  The router over the registry the browser interface writes.  A path is a string; the
  socket of a repository, a connection attempt and the liveness of a connection are the
  fields of an environment, which may differ from call to call.
\<close>

record registry =
  rg_projects :: "rstr list"
  rg_aliases :: "(rstr \<times> rstr) list"
  rg_ignored :: "rstr list"

record 'rt router_env =
  re_project_id :: "rstr \<Rightarrow> rstr option"
  re_connect :: "rstr \<Rightarrow> 'rt option"
  re_alive :: "'rt \<Rightarrow> bool"

record 'rt router =
  ro_registry :: "registry option"
  ro_attached :: "rstr \<rightharpoonup> 'rt"

definition display_for :: "rstr \<Rightarrow> (rstr \<times> rstr) list \<Rightarrow> rstr" where
  "display_for path aliases =
     (case map_of aliases path of
        Some a \<Rightarrow> a
      | None \<Rightarrow> (case file_name path of Some n \<Rightarrow> n | None \<Rightarrow> path))"

definition registry_entries :: "'rt router_env \<Rightarrow> registry \<Rightarrow> (rstr \<times> rstr \<times> rstr) list" where
  "registry_entries e g =
     List.map_filter (\<lambda>path. map_option (\<lambda>i. (i, path, display_for path (rg_aliases g))) (re_project_id e path))
       (filter (\<lambda>path. path \<notin> set (rg_ignored g)) (rg_projects g))"

definition router_entries :: "'rt router_env \<Rightarrow> 'rt router \<Rightarrow> (rstr \<times> rstr \<times> rstr) list" where
  "router_entries e r = (case ro_registry r of None \<Rightarrow> [] | Some g \<Rightarrow> registry_entries e g)"

definition router_attach ::
  "'rt router_env \<Rightarrow> rstr \<Rightarrow> rstr \<Rightarrow> 'rt router \<Rightarrow> (route_error + 'rt) \<times> 'rt router" where
  "router_attach e repo project_id r =
     (case ro_attached r project_id of
        Some rt \<Rightarrow> (Inr rt, r)
      | None \<Rightarrow> (case re_connect e repo of
                   None \<Rightarrow> (Inl ProjectOffline, r)
                 | Some rt \<Rightarrow> (Inr rt, r\<lparr>ro_attached := (ro_attached r)(project_id \<mapsto> rt)\<rparr>)))"

definition router_attach_live ::
  "'rt router_env \<Rightarrow> rstr \<Rightarrow> rstr \<Rightarrow> 'rt router \<Rightarrow> (route_error + 'rt) \<times> 'rt router" where
  "router_attach_live e repo project_id r =
     (case ro_attached r project_id of
        Some rt \<Rightarrow>
          if re_alive e rt then (Inr rt, r)
          else router_attach e repo project_id (r\<lparr>ro_attached := (ro_attached r)(project_id := None)\<rparr>)
      | None \<Rightarrow> router_attach e repo project_id r)"

fun list_entries ::
  "'rt router_env \<Rightarrow> (rstr \<times> rstr \<times> rstr) list \<Rightarrow> 'rt router \<Rightarrow> project_info list \<times> 'rt router" where
  "list_entries e [] r = ([], r)"
| "list_entries e ((project_id, repo, display) # es) r =
     (case router_attach_live e repo project_id r of (res, r1) \<Rightarrow>
        (case list_entries e es r1 of (rest, r2) \<Rightarrow>
           (\<lparr>pi_id = project_id, pi_display = display,
             pi_status = (case res of Inr rt \<Rightarrow> ProjectOnline | Inl x \<Rightarrow> ProjectOfflineStatus)\<rparr> # rest, r2)))"

definition router_projects :: "'rt router_env \<Rightarrow> 'rt router \<Rightarrow> project_info list \<times> 'rt router" where
  "router_projects e r = list_entries e (router_entries e r) r"

definition router_runtime ::
  "'rt router_env \<Rightarrow> rstr \<Rightarrow> 'rt router \<Rightarrow> (route_error + 'rt) \<times> 'rt router" where
  "router_runtime e project_id r =
     (case find (\<lambda>(i, repo, display). i = project_id) (router_entries e r) of
        None \<Rightarrow> (Inl UnknownProject, r)
      | Some (i, repo, display) \<Rightarrow> router_attach e repo i r)"

definition router_implied :: "'rt router_env \<Rightarrow> 'rt router \<Rightarrow> route_error + rstr" where
  "router_implied e r =
     (case router_entries e r of
        [] \<Rightarrow> Inl UnknownProject
      | [(i, repo, display)] \<Rightarrow> Inr i
      | x # y # rest \<Rightarrow> Inl ProjectRequired)"

section \<open>What is written down\<close>

datatype audit_event =
    StreamOpened rstr rstr
  | StreamClosed rstr rstr rstr
  | DeliveredEvent rstr rstr rstr
  | RefusedEvent rstr rstr "rstr option" rstr
  | RpcEvent rstr rstr rstr rstr
  | ApprovalTimeoutEvent rstr rstr rstr

text \<open>
  Pruning: a file is deleted when its name states a day before the cutoff.  A day is its
  number, read by chrono.
\<close>

definition audit_day :: "(rstr \<Rightarrow> int option) \<Rightarrow> rstr \<Rightarrow> int option" where
  "audit_day parse_day name =
     (case strip_prefix (lit ''audit-'') name of
        None \<Rightarrow> None
      | Some rest \<Rightarrow>
          (if ends_with (lit ''.jsonl'') rest then parse_day (take (length rest - 6) rest) else None))"

definition prune_audit :: "(rstr \<Rightarrow> int option) \<Rightarrow> int \<Rightarrow> int \<Rightarrow> rstr list \<Rightarrow> rstr list" where
  "prune_audit parse_day today retention_days names =
     filter (\<lambda>name. case audit_day parse_day name of
                      None \<Rightarrow> True
                    | Some day \<Rightarrow> \<not> day < today - retention_days) names"

end
