(* ===== verification/Remote_Bridge.thy ===== *)
theory Remote_Bridge
  imports Remote_Policy Remote_Uploads Remote_Devices Schedule_Dispatch Lifecycle_Vocabulary
begin

text \<open>
  The admission path of the agent (leveler-remote-agent/src/bridge.rs): what a signed frame
  must survive to reach a runtime, the RPCs and their signed answers, and the boundary of
  the daemon behind it (leveler-local-transport).

  The rest of the host (the routes to the runtimes, the runtimes, the clock) is a world
  \<open>'w\<close> the fields of an environment act on, \<open>'rt\<close> a handle of a runtime; serde's decoders
  and encoders are fields too, over an opaque JSON value \<open>'j\<close>.  An operation runs from
  start to end; what other tasks do to the world meanwhile is part of what a call does.
\<close>

section \<open>Errors\<close>

fun envelope_error_text :: "envelope_error \<Rightarrow> rstr" where
  "envelope_error_text (InvalidId f) =
     lit ''invalid '' @ f @ lit '': expected 1-64 chars from [A-Za-z0-9_.:-]''"
| "envelope_error_text InvalidTimestamp = lit ''invalid timestamp: expected YYYY-MM-DDTHH:MM:SSZ''"
| "envelope_error_text (InvalidBase64 f) = lit ''invalid base64 in '' @ f"
| "envelope_error_text (UnsupportedEnvelope v) = lit ''unsupported envelope version: '' @ show_nat v"
| "envelope_error_text (RecipientMismatch expected addressed_to) =
     lit ''envelope addressed to '' @ addressed_to @ lit '', not '' @ expected"
| "envelope_error_text TimestampOutOfWindow = lit ''timestamp outside the '' @ [177] @ lit ''120s window''"
| "envelope_error_text SignatureInvalid = lit ''signature does not verify''"
| "envelope_error_text InvalidKey = lit ''invalid Ed25519 key material''"

fun upload_error_text :: "upload_error \<Rightarrow> rstr" where
  "upload_error_text NotBase64 = lit ''attachment chunk is not valid base64''"
| "upload_error_text (ChunkOutOfRange i n) =
     lit ''chunk '' @ show_nat i @ lit '' of '' @ show_nat n @ lit '' is out of range''"
| "upload_error_text Contradicts = lit ''this upload contradicts the one already in progress''"
| "upload_error_text TooLarge = lit ''attachment exceeds '' @ show_nat MAX_ATTACHMENT_BYTES @ lit '' bytes''"
| "upload_error_text SessionFull =
     lit ''session attachment total exceeds '' @ show_nat MAX_SESSION_BYTES @ lit '' bytes''"

datatype admission_error =
    AdTrust trust_error
  | AdRoute route_error
  | AdEnvelope envelope_error
  | AdMalformed
  | AdRefused rstr rstr
  | AdRuntime rstr
  | AdUpload upload_error

fun admission_code :: "admission_error \<Rightarrow> rstr" where
  "admission_code (AdTrust e) = trust_error_code e"
| "admission_code (AdRoute e) = route_error_code e"
| "admission_code (AdEnvelope e) = envelope_error_code e"
| "admission_code AdMalformed = lit ''invalid_frame''"
| "admission_code (AdRefused code reason) = code"
| "admission_code (AdRuntime m) = lit ''runtime_error''"
| "admission_code (AdUpload e) = upload_error_code e"

fun admission_text :: "admission_error \<Rightarrow> rstr" where
  "admission_text (AdTrust e) = trust_error_text e"
| "admission_text (AdRoute e) = route_error_text e"
| "admission_text (AdEnvelope e) = lit ''envelope rejected: '' @ envelope_error_text e"
| "admission_text AdMalformed = lit ''payload is not a valid session message''"
| "admission_text (AdRefused code reason) = reason"
| "admission_text (AdRuntime m) = lit ''runtime rejected the command: '' @ m"
| "admission_text (AdUpload e) = upload_error_text e"

section \<open>The host behind the bridge\<close>

record 'x command_envelope =
  ce_command_id :: rstr
  ce_session_id :: rstr
  ce_expected_version :: "int option"
  ce_issued_at :: rstr
  ce_command :: "'x wire_command"

datatype workspace_selection = RuntimeDefault | NoWorkspace | WorkspaceAt rstr

record create_session_request =
  cs_request_id :: "rstr option"
  cs_workspace :: workspace_selection
  cs_goal :: rstr
  cs_model :: "model_ref option"
  cs_mode :: wire_profile
  cs_approval :: approval_policy
  cs_collaboration :: collaboration_mode

record 'j rpc_payload =
  rq_method :: rpc_method
  rq_project :: "rstr option"
  rq_body :: 'j

record fetch_response =
  fr_sha256 :: rstr
  fr_mime :: rstr
  fr_size :: nat
  fr_index :: nat
  fr_total :: nat
  fr_data :: rstr

text \<open>What the subscription of an upload delivers while it waits.\<close>

datatype 'j attachment_event =
    AttachmentAdded rstr 'j
  | AttachmentProcessingFailed rstr
  | OtherEvent
  | EventsLagged
  | EventsClosed

record ('w, 'rt, 'x, 'j) agent_env =
  ae_crypto :: crypto
  ae_projects :: "'w \<Rightarrow> project_info list \<times> 'w"
  ae_runtime :: "rstr \<Rightarrow> 'w \<Rightarrow> (route_error + 'rt) \<times> 'w"
  ae_implied :: "'w \<Rightarrow> (route_error + rstr) \<times> 'w"
  ae_deliver :: "'rt \<Rightarrow> 'x command_envelope \<Rightarrow> 'w \<Rightarrow> (client_error + unit) \<times> 'w"
  ae_create :: "'rt \<Rightarrow> create_session_request \<Rightarrow> 'w \<Rightarrow> (client_error + 'j) \<times> 'w"
  ae_snapshot :: "'rt \<Rightarrow> rstr \<Rightarrow> 'w \<Rightarrow> (client_error + 'j) \<times> 'w"
  ae_fetch :: "'rt \<Rightarrow> rstr \<Rightarrow> 'w \<Rightarrow> (client_error + (rstr \<times> byte list)) \<times> 'w"
  ae_events :: "'rt \<Rightarrow> rstr \<Rightarrow> 'w \<Rightarrow> 'j attachment_event list \<times> 'w"
  ae_clock :: "'w \<Rightarrow> rstr"
  ae_upstream :: "byte list \<Rightarrow> 'x upstream_message option"
  ae_request :: "byte list \<Rightarrow> 'j rpc_payload option"
  ae_create_request :: "'j \<Rightarrow> create_session_request option"
  ae_session_of :: "'j \<Rightarrow> rstr option"
  ae_chunk_of :: "'j \<Rightarrow> upload_chunk option"
  ae_fetch_of :: "'j \<Rightarrow> (rstr \<times> nat) option"
  ae_json :: "'j \<Rightarrow> byte list option"
  ae_projects_json :: "project_info list \<Rightarrow> byte list option"
  ae_received_json :: "nat \<Rightarrow> byte list option"
  ae_fetch_json :: "fetch_response \<Rightarrow> byte list option"

record bridge =
  br_runtime_id :: rstr
  br_key :: "byte list"
  br_allow_full_access :: bool
  br_audited :: bool

record 'w agent =
  ag_world :: 'w
  ag_devices :: device_state
  ag_uploads :: uploads
  ag_audit :: "audit_event list"

type_synonym ('w, 'a) admission = "'w agent \<Rightarrow> (admission_error + 'a) \<times> 'w agent"

definition yields :: "'a \<Rightarrow> ('w, 'a) admission" where
  "yields x s = (Inr x, s)"

definition refuses :: "admission_error \<Rightarrow> ('w, 'a) admission" where
  "refuses e s = (Inl e, s)"

definition proceed :: "('w, 'a) admission \<Rightarrow> ('a \<Rightarrow> ('w, 'b) admission) \<Rightarrow> ('w, 'b) admission" where
  "proceed m f s = (case m s of (Inl e, s') \<Rightarrow> (Inl e, s') | (Inr x, s') \<Rightarrow> f x s')"

text \<open>A value that may be missing, or a result, or a call on the world, under \<open>?\<close>.\<close>

definition needing :: "admission_error \<Rightarrow> 'a option \<Rightarrow> ('w, 'a) admission" where
  "needing e x s = ((case x of None \<Rightarrow> Inl e | Some y \<Rightarrow> Inr y), s)"

definition from_result :: "('e \<Rightarrow> admission_error) \<Rightarrow> 'e + 'a \<Rightarrow> ('w, 'a) admission" where
  "from_result h r s = ((case r of Inl e \<Rightarrow> Inl (h e) | Inr x \<Rightarrow> Inr x), s)"

definition on_world :: "('e \<Rightarrow> admission_error) \<Rightarrow> ('w \<Rightarrow> ('e + 'a) \<times> 'w) \<Rightarrow> ('w, 'a) admission" where
  "on_world h f s =
     (case f (ag_world s) of (r, w) \<Rightarrow>
        ((case r of Inl e \<Rightarrow> Inl (h e) | Inr x \<Rightarrow> Inr x), s\<lparr>ag_world := w\<rparr>))"

definition runtime_failure :: "client_error \<Rightarrow> admission_error" where
  "runtime_failure e = AdRuntime (client_error_text e)"

definition record_audit :: "bridge \<Rightarrow> audit_event \<Rightarrow> 'w agent \<Rightarrow> 'w agent" where
  "record_audit b ev s = (if br_audited b then s\<lparr>ag_audit := ag_audit s @ [ev]\<rparr> else s)"

section \<open>Trust and signature\<close>

definition trusted_key ::
  "('w, 'rt, 'x, 'j) agent_env \<Rightarrow> rstr \<Rightarrow> rstr option \<Rightarrow> ('w, byte list \<times> pairing_scope) admission" where
  "trusted_key env device_id claimed s =
     (case key_for (ae_crypto env) device_id claimed (ag_devices s) of
        (r, ds) \<Rightarrow> (map_sum AdTrust id r, s\<lparr>ag_devices := ds\<rparr>))"

definition authenticate ::
  "('w, 'rt, 'x, 'j) agent_env \<Rightarrow> bridge \<Rightarrow> signed_envelope \<Rightarrow> rstr \<Rightarrow> rstr option
     \<Rightarrow> ('w, byte list \<times> pairing_scope) admission" where
  "authenticate env b frame now claimed =
     proceed (trusted_key env (se_sender_id frame) claimed) (\<lambda>(key, scope).
     proceed (from_result AdEnvelope
       (verify_envelope (ae_crypto env)
          \<lparr>vp_recipient = br_runtime_id b, vp_key = key, vp_now = now\<rparr> frame)) (\<lambda>payload.
     yields (payload, scope)))"

section \<open>Routing\<close>

definition resolve_project ::
  "('w, 'rt, 'x, 'j) agent_env \<Rightarrow> rstr option \<Rightarrow> 'w agent \<Rightarrow> (route_error + rstr) \<times> 'w agent" where
  "resolve_project env project_id s =
     (case project_id of
        Some i \<Rightarrow>
          (case ae_projects env (ag_world s) of (ps, w) \<Rightarrow>
             (if list_ex (\<lambda>p. pi_id p = i) ps then Inr i else Inl UnknownProject, s\<lparr>ag_world := w\<rparr>))
      | None \<Rightarrow> (case ae_implied env (ag_world s) of (r, w) \<Rightarrow> (r, s\<lparr>ag_world := w\<rparr>)))"

definition runtime_of :: "('w, 'rt, 'x, 'j) agent_env \<Rightarrow> rstr \<Rightarrow> ('w, 'rt) admission" where
  "runtime_of env project_id = on_world AdRoute (ae_runtime env project_id)"

definition runtime_for :: "('w, 'rt, 'x, 'j) agent_env \<Rightarrow> rstr option \<Rightarrow> ('w, 'rt) admission" where
  "runtime_for env project_id =
     proceed (case project_id of
                Some i \<Rightarrow> yields i
              | None \<Rightarrow> on_world AdRoute (ae_implied env))
       (runtime_of env)"

definition bridge_snapshot :: "('w, 'rt, 'x, 'j) agent_env \<Rightarrow> rstr \<Rightarrow> rstr \<Rightarrow> ('w, 'j) admission" where
  "bridge_snapshot env project_id session_id =
     proceed (runtime_of env project_id) (\<lambda>rt.
     on_world runtime_failure (ae_snapshot env rt session_id))"

section \<open>A session frame\<close>

datatype admitted = Delivered rstr rstr | SnapshotRequested rstr

definition deliver_command ::
  "('w, 'rt, 'x, 'j) agent_env \<Rightarrow> rstr \<Rightarrow> rstr \<Rightarrow> rstr \<Rightarrow> 'x wire_command \<Rightarrow> int option
     \<Rightarrow> ('w, unit) admission" where
  "deliver_command env project_id command_id session_id command version s =
     proceed (runtime_of env project_id) (\<lambda>rt.
     on_world runtime_failure (ae_deliver env rt
       \<lparr>ce_command_id = command_id, ce_session_id = session_id, ce_expected_version = version,
        ce_issued_at = ae_clock env (ag_world s), ce_command = command\<rparr>)) s"

definition judge_command ::
  "('w, 'rt, 'x, 'j) agent_env \<Rightarrow> bridge \<Rightarrow> rstr \<Rightarrow> rstr \<Rightarrow> pairing_scope \<Rightarrow> rstr \<Rightarrow> rstr
     \<Rightarrow> 'x wire_command \<Rightarrow> int option \<Rightarrow> ('w, admitted) admission" where
  "judge_command env b project_id device_id scope command_id session_id command version s =
     (let device = hashed_label (ae_crypto env) device_id;
          policy = \<lparr>rp_scope = scope, rp_allow_full_access = br_allow_full_access b\<rparr>
      in case evaluate_remote policy command of
           RemoteDeny code reason \<Rightarrow>
             (Inl (AdRefused code reason),
              record_audit b (RefusedEvent device project_id (Some (command_kind command)) code) s)
         | RemoteAllow \<Rightarrow>
             proceed (deliver_command env project_id command_id session_id command version) (\<lambda>u s'.
               (Inr (Delivered command_id device_id),
                record_audit b (DeliveredEvent device project_id (command_kind command)) s')) s)"

definition admit_message ::
  "('w, 'rt, 'x, 'j) agent_env \<Rightarrow> bridge \<Rightarrow> rstr \<Rightarrow> rstr \<Rightarrow> pairing_scope \<Rightarrow> 'x upstream_message
     \<Rightarrow> ('w, admitted) admission" where
  "admit_message env b project_id device_id scope message =
     (case message of
        Deliver command_id session_id command version \<Rightarrow>
          judge_command env b project_id device_id scope command_id session_id command version
      | DeliverVersionedSettings command_id session_id command version \<Rightarrow>
          judge_command env b project_id device_id scope command_id session_id command version
      | SnapshotRequest session_id \<Rightarrow> yields (SnapshotRequested session_id))"

definition admit_upstream ::
  "('w, 'rt, 'x, 'j) agent_env \<Rightarrow> bridge \<Rightarrow> rstr \<Rightarrow> signed_envelope \<Rightarrow> rstr \<Rightarrow> rstr option
     \<Rightarrow> ('w, admitted) admission" where
  "admit_upstream env b project_id frame now claimed =
     proceed (authenticate env b frame now claimed) (\<lambda>(payload, scope).
     proceed (needing AdMalformed (ae_upstream env payload)) (\<lambda>message.
     proceed (from_result (AdRefused (lit ''versioned_setting_required''))
                (validate_setting_delivery message)) (\<lambda>u.
     admit_message env b project_id (se_sender_id frame) scope message)))"

section \<open>RPCs\<close>

text \<open>The answer to a reassembled file: the first event that settles it, within a minute.\<close>

fun attachment_answer :: "rstr \<Rightarrow> 'j attachment_event list \<Rightarrow> admission_error + 'j" where
  "attachment_answer name [] = Inl (AdRuntime (lit ''runtime did not report the attachment in time''))"
| "attachment_answer name (AttachmentAdded n a # evs) =
     (if n = name then Inr a else attachment_answer name evs)"
| "attachment_answer name (AttachmentProcessingFailed e # evs) = Inl (AdRuntime e)"
| "attachment_answer name (EventsClosed # evs) = Inl (AdRuntime (lit ''runtime event stream closed''))"
| "attachment_answer name (OtherEvent # evs) = attachment_answer name evs"
| "attachment_answer name (EventsLagged # evs) = attachment_answer name evs"

definition store_attachment ::
  "('w, 'rt, 'x, 'j) agent_env \<Rightarrow> 'rt \<Rightarrow> rstr \<Rightarrow> rstr \<Rightarrow> rstr \<Rightarrow> byte list \<Rightarrow> ('w, 'j) admission" where
  "store_attachment env rt command_id session_id name bytes s =
     proceed (on_world runtime_failure (ae_deliver env rt
       \<lparr>ce_command_id = command_id, ce_session_id = session_id, ce_expected_version = None,
        ce_issued_at = ae_clock env (ag_world s),
        ce_command = C_AddAttachmentData session_id name (cx_b64 (ae_crypto env) bytes)\<rparr>)) (\<lambda>u s1.
     (case ae_events env rt session_id (ag_world s1) of
        (evs, w) \<Rightarrow> (attachment_answer name evs, s1\<lparr>ag_world := w\<rparr>))) s"

definition observe_only :: admission_error where
  "observe_only = AdRefused (lit ''command_not_allowed_remote'') (lit ''this device is paired for observation only'')"

definition encoded :: "byte list option \<Rightarrow> ('w, byte list) admission" where
  "encoded = needing AdMalformed"

definition rpc_list_projects :: "('w, 'rt, 'x, 'j) agent_env \<Rightarrow> ('w, byte list) admission" where
  "rpc_list_projects env s =
     (case ae_projects env (ag_world s) of
        (ps, w) \<Rightarrow> encoded (ae_projects_json env ps) (s\<lparr>ag_world := w\<rparr>))"

definition rpc_create_session ::
  "('w, 'rt, 'x, 'j) agent_env \<Rightarrow> 'j rpc_payload \<Rightarrow> ('w, byte list) admission" where
  "rpc_create_session env rq =
     proceed (runtime_for env (rq_project rq)) (\<lambda>rt.
     proceed (needing AdMalformed (ae_create_request env (rq_body rq))) (\<lambda>create.
     proceed (on_world runtime_failure (ae_create env rt create)) (\<lambda>bootstrap.
     encoded (ae_json env bootstrap))))"

definition rpc_snapshot ::
  "('w, 'rt, 'x, 'j) agent_env \<Rightarrow> 'j rpc_payload \<Rightarrow> ('w, byte list) admission" where
  "rpc_snapshot env rq =
     proceed (runtime_for env (rq_project rq)) (\<lambda>rt.
     proceed (needing AdMalformed (ae_session_of env (rq_body rq))) (\<lambda>session_id.
     proceed (on_world runtime_failure (ae_snapshot env rt session_id)) (\<lambda>snapshot.
     encoded (ae_json env snapshot))))"

definition take_chunk ::
  "('w, 'rt, 'x, 'j) agent_env \<Rightarrow> rstr \<Rightarrow> upload_chunk \<Rightarrow> ('w, chunk_outcome) admission" where
  "take_chunk env device_id c s =
     (case upload_accept (ae_crypto env) device_id c (ag_uploads s) of
        (r, u) \<Rightarrow> (map_sum AdUpload id r, s\<lparr>ag_uploads := u\<rparr>))"

definition rpc_upload ::
  "('w, 'rt, 'x, 'j) agent_env \<Rightarrow> signed_envelope \<Rightarrow> pairing_scope \<Rightarrow> 'j rpc_payload
     \<Rightarrow> ('w, byte list) admission" where
  "rpc_upload env frame scope rq =
     (if scope = Observe then refuses observe_only
      else
        proceed (runtime_for env (rq_project rq)) (\<lambda>rt.
        proceed (needing AdMalformed (ae_chunk_of env (rq_body rq))) (\<lambda>c.
        proceed (take_chunk env (se_sender_id frame) c) (\<lambda>outcome.
          (case outcome of
             ChunkIncomplete \<Rightarrow> encoded (ae_received_json env (uc_index c))
           | ChunkComplete bytes \<Rightarrow>
               proceed (store_attachment env rt (se_stream_id frame) (uc_session c) (uc_name c) bytes)
                 (\<lambda>attachment. encoded (ae_json env attachment)))))))"

definition fetch_failure :: "client_error \<Rightarrow> admission_error" where
  "fetch_failure e =
     (if contains (lit ''attachment not found'') (client_error_text e)
      then AdRefused (lit ''not_found'') (lit ''no attachment with that sha256'')
      else AdRuntime (client_error_text e))"

definition fetch_answer ::
  "crypto \<Rightarrow> rstr \<Rightarrow> nat \<Rightarrow> rstr \<times> byte list \<Rightarrow> admission_error + fetch_response" where
  "fetch_answer cx sha i blob =
     (case blob of (mime, bytes) \<Rightarrow>
        if length bytes > MAX_ATTACHMENT_BYTES
        then Inl (AdRefused (lit ''payload_too_large'') (lit ''attachment exceeds the remote fetch limit''))
        else if i \<ge> fetch_chunk_total bytes then Inl AdMalformed
        else Inr \<lparr>fr_sha256 = sha, fr_mime = mime, fr_size = length bytes, fr_index = i,
                  fr_total = fetch_chunk_total bytes, fr_data = cx_b64 cx (fetch_slice bytes i)\<rparr>)"

definition rpc_fetch ::
  "('w, 'rt, 'x, 'j) agent_env \<Rightarrow> 'j rpc_payload \<Rightarrow> ('w, byte list) admission" where
  "rpc_fetch env rq =
     proceed (runtime_for env (rq_project rq)) (\<lambda>rt.
     proceed (needing AdMalformed (ae_fetch_of env (rq_body rq))) (\<lambda>(sha, i).
     if \<not> is_sha256_hex sha then refuses AdMalformed
     else
       proceed (on_world fetch_failure (ae_fetch env rt sha)) (\<lambda>blob.
       proceed (from_result id (fetch_answer (ae_crypto env) sha i blob)) (\<lambda>response.
       encoded (ae_fetch_json env response)))))"

fun rpc_body ::
  "('w, 'rt, 'x, 'j) agent_env \<Rightarrow> signed_envelope \<Rightarrow> pairing_scope \<Rightarrow> 'j rpc_payload \<Rightarrow> rpc_method
     \<Rightarrow> ('w, byte list) admission" where
  "rpc_body env frame scope rq ListProjects = rpc_list_projects env"
| "rpc_body env frame scope rq CreateSession = rpc_create_session env rq"
| "rpc_body env frame scope rq SnapshotRpc = rpc_snapshot env rq"
| "rpc_body env frame scope rq UploadAttachment = rpc_upload env frame scope rq"
| "rpc_body env frame scope rq FetchAttachment = rpc_fetch env rq"

definition handle_rpc ::
  "('w, 'rt, 'x, 'j) agent_env \<Rightarrow> bridge \<Rightarrow> signed_envelope \<Rightarrow> rstr \<Rightarrow> rstr option
     \<Rightarrow> ('w, signed_envelope) admission" where
  "handle_rpc env b frame now claimed =
     proceed (authenticate env b frame now claimed) (\<lambda>(payload, scope).
     proceed (needing AdMalformed (ae_request env payload)) (\<lambda>rq.
     if scope = Observe \<and> rq_method rq = CreateSession then refuses observe_only
     else
       proceed (rpc_body env frame scope rq (rq_method rq)) (\<lambda>body.
       from_result AdEnvelope
         (sign_envelope (ae_crypto env) (br_key b) SenderRuntime (br_runtime_id b) (se_sender_id frame)
            (se_stream_id frame) (se_seq frame) now RpcResponseContent body))))"

definition sign_assertion :: "crypto \<Rightarrow> bridge \<Rightarrow> byte list \<Rightarrow> rstr" where
  "sign_assertion cx b message = cx_b64 cx (cx_sign cx (br_key b) message)"

section \<open>The daemon's boundary\<close>

datatype client_kind = LocalInteractive | RemoteClient

definition effective_kind :: "bool \<Rightarrow> client_kind \<Rightarrow> client_kind" where
  "effective_kind transport_trusted kind = (if transport_trusted then kind else RemoteClient)"

definition trusted_only :: client_error where
  "trusted_only = RuntimeError (lit ''auto-approve may only be requested from the trusted local transport'')"

definition daemon_create_session ::
  "bool \<Rightarrow> client_kind \<Rightarrow> create_session_request \<Rightarrow> client_error + create_session_request" where
  "daemon_create_session transport_trusted kind rq =
     (if effective_kind transport_trusted kind = RemoteClient \<and> cs_approval rq = AP_AutoApprove
      then Inl trusted_only
      else if effective_kind transport_trusted kind = RemoteClient
      then Inr (rq\<lparr>cs_approval := AP_Interactive\<rparr>)
      else Inr rq)"

definition daemon_attach_policy ::
  "bool \<Rightarrow> client_kind \<Rightarrow> approval_policy \<Rightarrow> client_error + approval_policy" where
  "daemon_attach_policy transport_trusted kind policy =
     (if effective_kind transport_trusted kind = RemoteClient \<and> policy = AP_AutoApprove
      then Inl trusted_only
      else Inr (if effective_kind transport_trusted kind = RemoteClient then AP_Interactive else policy))"

end
