(* ===== verification/Remote_Tunnel.thy ===== *)
theory Remote_Tunnel
  imports Remote_Bridge
begin

text \<open>
  The agent's end of the tunnel (leveler-remote-agent/src/tunnel.rs) and the automatic
  denial of an approval only a remote device can answer (approvals.rs).

  The presence counter a project's watch shares with its streams is a cell of an explicit
  store: a stream and a watch name it by its index, and a watch that is started takes a
  new cell.  A task is not modelled by itself: the watch of a project is the steps
  \<open>watch_observe\<close> and \<open>watch_tick\<close>, the pump of a stream is \<open>pump_event\<close>.
\<close>

section \<open>Watching approvals\<close>

record presence =
  pr_streams :: nat
  pr_session :: "rstr option"

definition presence_new :: presence where
  "presence_new = \<lparr>pr_streams = 0, pr_session = None\<rparr>"

definition presence_attach :: "presence \<Rightarrow> presence" where
  "presence_attach p = p\<lparr>pr_streams := pr_streams p + 1\<rparr>"

definition presence_detach :: "presence \<Rightarrow> presence" where
  "presence_detach p = p\<lparr>pr_streams := pr_streams p - 1\<rparr>"

definition note_session :: "rstr \<Rightarrow> presence \<Rightarrow> presence" where
  "note_session session p = p\<lparr>pr_session := Some session\<rparr>"

record countdown =
  cd_state :: timeout_state
  cd_deadline :: "nat option"

definition countdown_new :: countdown where
  "countdown_new = \<lparr>cd_state = timeout_state_new, cd_deadline = None\<rparr>"

datatype watch_event = ApprovalRequested rstr | ApprovalResolved rstr | WatchOther | WatchLagged

definition watch_observe :: "watch_event \<Rightarrow> (rstr \<times> countdown) list \<Rightarrow> (rstr \<times> countdown) list" where
  "watch_observe ev pending =
     (case ev of
        ApprovalRequested i \<Rightarrow> table_put i countdown_new pending
      | ApprovalResolved i \<Rightarrow> AList.delete i pending
      | WatchOther \<Rightarrow> pending
      | WatchLagged \<Rightarrow> pending)"

text \<open>
  One countdown at a tick.  The clock is read when it is armed and again when it is
  compared with the deadline; both readings are arguments.
\<close>

definition countdown_tick :: "waiters \<Rightarrow> nat \<Rightarrow> nat \<Rightarrow> nat \<Rightarrow> countdown \<Rightarrow> countdown" where
  "countdown_tick w timeout arm_at check_at c =
     (case observe_waiters w (cd_state c) of (tr, st) \<Rightarrow>
        \<lparr>cd_state = st,
         cd_deadline = (case tr of Arm \<Rightarrow> Some (arm_at + timeout)
                                 | Disarm \<Rightarrow> None
                                 | Unchanged \<Rightarrow> cd_deadline c)\<rparr>)"

definition countdown_due :: "nat \<Rightarrow> countdown \<Rightarrow> bool" where
  "countdown_due check_at c = (case cd_deadline c of None \<Rightarrow> False | Some at \<Rightarrow> check_at \<ge> at)"

text \<open>A waiter count the daemon does not give is one: somebody may be watching.\<close>

definition local_waiters :: "(client_error + nat) \<Rightarrow> nat" where
  "local_waiters r = (case r of Inl e \<Rightarrow> 1 | Inr n \<Rightarrow> n)"

definition watch_tick ::
  "(client_error + nat) \<Rightarrow> nat \<Rightarrow> nat \<Rightarrow> (rstr \<Rightarrow> nat \<times> nat) \<Rightarrow> (rstr \<times> countdown) list
     \<Rightarrow> rstr list \<times> (rstr \<times> countdown) list" where
  "watch_tick local_count remote timeout clock pending =
     (let w = \<lparr>wt_local = local_waiters local_count, wt_remote = remote\<rparr>;
          ticked = map (\<lambda>(i, c). (i, countdown_tick w timeout (fst (clock i)) (snd (clock i)) c)) pending;
          due = filter (\<lambda>(i, c). countdown_due (snd (clock i)) c) ticked
      in (map fst due, filter (\<lambda>(i, c). \<not> countdown_due (snd (clock i)) c) ticked))"

text \<open>What is sent for an approval that is due, if a session is known to answer in.\<close>

definition timeout_denial :: "presence \<Rightarrow> rstr \<Rightarrow> rstr \<Rightarrow> 'x command_envelope option" where
  "timeout_denial p issued_at request_id =
     map_option (\<lambda>session.
       \<lparr>ce_command_id = lit ''remote-timeout-'' @ request_id, ce_session_id = session,
        ce_expected_version = None, ce_issued_at = issued_at,
        ce_command = C_ApprovalDecision request_id WD_Deny\<rparr>) (pr_session p)"

section \<open>Streams\<close>

record stream_state =
  st_device :: rstr
  st_project :: rstr
  st_next_seq :: nat
  st_presence :: "nat option"

record tunnel =
  tn_streams :: "(rstr \<times> stream_state) list"
  tn_watches :: "rstr \<rightharpoonup> nat"
  tn_cells :: "presence list"

definition tunnel_new :: tunnel where
  "tunnel_new = \<lparr>tn_streams = [], tn_watches = Map.empty, tn_cells = []\<rparr>"

definition update_cell :: "nat \<Rightarrow> (presence \<Rightarrow> presence) \<Rightarrow> tunnel \<Rightarrow> tunnel" where
  "update_cell i f t = t\<lparr>tn_cells := (tn_cells t)[i := f (tn_cells t ! i)]\<rparr>"

definition start_watch :: "rstr \<Rightarrow> tunnel \<Rightarrow> tunnel" where
  "start_watch project t =
     t\<lparr>tn_watches := (tn_watches t)(project \<mapsto> length (tn_cells t)),
       tn_cells := tn_cells t @ [presence_new]\<rparr>"

text \<open>The presence an interactive stream holds: \<open>ok\<close> is whether a runtime was found.\<close>

definition attach_presence :: "bool \<Rightarrow> rstr \<Rightarrow> tunnel \<Rightarrow> nat option \<times> tunnel" where
  "attach_presence ok project t =
     (let t1 = (if tn_watches t project = None \<and> ok then start_watch project t else t)
      in case tn_watches t1 project of
           None \<Rightarrow> (None, t1)
         | Some i \<Rightarrow> (Some i, update_cell i presence_attach t1))"

definition release_stream :: "stream_state \<Rightarrow> tunnel \<Rightarrow> tunnel" where
  "release_stream st t =
     (case st_presence st of
        None \<Rightarrow> t
      | Some i \<Rightarrow>
          (let t1 = update_cell i presence_detach t
           in if pr_streams (tn_cells t1 ! i) = 0
              then t1\<lparr>tn_watches := (tn_watches t1)(st_project st := None)\<rparr> else t1))"

definition insert_stream :: "rstr \<Rightarrow> stream_state \<Rightarrow> tunnel \<Rightarrow> tunnel" where
  "insert_stream stream_id st t =
     (let t1 = t\<lparr>tn_streams := table_put stream_id st (tn_streams t)\<rparr>
      in case map_of (tn_streams t) stream_id of
           None \<Rightarrow> t1
         | Some previous \<Rightarrow> release_stream previous t1)"

definition open_stream :: "bool \<Rightarrow> rstr \<Rightarrow> rstr \<Rightarrow> rstr \<Rightarrow> pairing_scope \<Rightarrow> tunnel \<Rightarrow> tunnel" where
  "open_stream ok stream_id device project scope t =
     (case (if scope = Interactive then attach_presence ok project t else (None, t)) of
        (p, t1) \<Rightarrow>
          insert_stream stream_id
            \<lparr>st_device = device, st_project = project, st_next_seq = 1, st_presence = p\<rparr> t1)"

definition close_stream :: "rstr \<Rightarrow> tunnel \<Rightarrow> tunnel" where
  "close_stream stream_id t =
     (case map_of (tn_streams t) stream_id of
        None \<Rightarrow> t
      | Some st \<Rightarrow> release_stream st (t\<lparr>tn_streams := AList.delete stream_id (tn_streams t)\<rparr>))"

definition drain_tunnel :: "tunnel \<Rightarrow> tunnel" where
  "drain_tunnel t = t\<lparr>tn_streams := [], tn_watches := Map.empty\<rparr>"

text \<open>Taking the next sequence number of a stream.\<close>

definition take_seq :: "rstr \<Rightarrow> tunnel \<Rightarrow> (stream_state \<times> nat \<times> tunnel) option" where
  "take_seq stream_id t =
     map_option (\<lambda>st.
       (st, st_next_seq st,
        t\<lparr>tn_streams := table_put stream_id (st\<lparr>st_next_seq := st_next_seq st + 1\<rparr>) (tn_streams t)\<rparr>))
       (map_of (tn_streams t) stream_id)"

section \<open>What goes down a stream\<close>

datatype ('j, 'v) downstream =
    DownAck rstr
  | DownSnapshot 'j
  | DownError rstr rstr "rstr option"
  | DownEvent 'v

text \<open>
  The runtime events that are told apart here, and serde's encoder and field reader.
\<close>

datatype 'v runtime_event = SessionHistoryLoaded 'v | GlobalTasksLoaded 'v | OtherRuntimeEvent 'v

fun forwards_to_device :: "'v runtime_event \<Rightarrow> bool" where
  "forwards_to_device (SessionHistoryLoaded v) = False"
| "forwards_to_device (GlobalTasksLoaded v) = False"
| "forwards_to_device (OtherRuntimeEvent v) = True"

record ('j, 'v) tunnel_codec =
  tc_down :: "('j, 'v runtime_event) downstream \<Rightarrow> byte list option"
  tc_text :: "('j, 'v runtime_event) downstream \<Rightarrow> byte list"
  tc_field :: "byte list \<Rightarrow> rstr \<Rightarrow> rstr option"

definition frame_field :: "crypto \<Rightarrow> ('j, 'v) tunnel_codec \<Rightarrow> rstr \<Rightarrow> signed_envelope \<Rightarrow> rstr option" where
  "frame_field cx tc field frame =
     (case envelope_payload cx frame of Inl e \<Rightarrow> None | Inr p \<Rightarrow> tc_field tc p field)"

definition session_of_frame :: "crypto \<Rightarrow> ('j, 'v) tunnel_codec \<Rightarrow> signed_envelope \<Rightarrow> rstr option" where
  "session_of_frame cx tc = frame_field cx tc (lit ''session_id'')"

definition command_id_of_frame :: "crypto \<Rightarrow> ('j, 'v) tunnel_codec \<Rightarrow> signed_envelope \<Rightarrow> rstr option" where
  "command_id_of_frame cx tc = frame_field cx tc (lit ''command_id'')"

definition rpc_method_of :: "crypto \<Rightarrow> ('j, 'v) tunnel_codec \<Rightarrow> signed_envelope \<Rightarrow> rstr" where
  "rpc_method_of cx tc frame =
     (case frame_field cx tc (lit ''method'') frame of Some m \<Rightarrow> m | None \<Rightarrow> lit ''unknown'')"

definition rpc_project_of :: "crypto \<Rightarrow> ('j, 'v) tunnel_codec \<Rightarrow> signed_envelope \<Rightarrow> rstr" where
  "rpc_project_of cx tc frame =
     (case frame_field cx tc (lit ''project_id'') frame of Some m \<Rightarrow> m | None \<Rightarrow> lit ''-'')"

definition downstream_frame ::
  "crypto \<Rightarrow> bridge \<Rightarrow> rstr \<Rightarrow> rstr \<Rightarrow> nat \<Rightarrow> rstr \<Rightarrow> byte list \<Rightarrow> agent_to_relay list" where
  "downstream_frame cx b device stream_id sq ts payload =
     (case sign_envelope cx (br_key b) SenderRuntime (br_runtime_id b) device stream_id sq ts
             SessionDownstream payload of
        Inl e \<Rightarrow> []
      | Inr reply \<Rightarrow> [ForwardDownstream stream_id reply])"

definition send_on_stream ::
  "crypto \<Rightarrow> bridge \<Rightarrow> rstr \<Rightarrow> rstr \<Rightarrow> byte list \<Rightarrow> tunnel \<Rightarrow> agent_to_relay list \<times> tunnel" where
  "send_on_stream cx b stream_id ts payload t =
     (case take_seq stream_id t of
        None \<Rightarrow> ([], t)
      | Some (st, sq, t') \<Rightarrow> (downstream_frame cx b (st_device st) stream_id sq ts payload, t'))"

text \<open>The pump of a stream: an event, or the news that it missed some.\<close>

definition pump_event ::
  "crypto \<Rightarrow> ('j, 'v) tunnel_codec \<Rightarrow> bridge \<Rightarrow> rstr \<Rightarrow> rstr \<Rightarrow> 'v runtime_event \<Rightarrow> tunnel
     \<Rightarrow> agent_to_relay list \<times> tunnel" where
  "pump_event cx tc b stream_id ts ev t =
     (if \<not> forwards_to_device ev then ([], t)
      else case tc_down tc (DownEvent ev) of
             None \<Rightarrow> ([], t)
           | Some payload \<Rightarrow> send_on_stream cx b stream_id ts payload t)"

definition pump_lagged ::
  "crypto \<Rightarrow> ('j, 'v) tunnel_codec \<Rightarrow> bridge \<Rightarrow> rstr \<Rightarrow> rstr \<Rightarrow> tunnel \<Rightarrow> agent_to_relay list \<times> tunnel" where
  "pump_lagged cx tc b stream_id ts t =
     (case (case tc_down tc (DownError (lit ''resync_required'')
                   (lit ''the event stream lagged; reconnect and resynchronize'') None) of
              None \<Rightarrow> ([], t)
            | Some payload \<Rightarrow> send_on_stream cx b stream_id ts payload t) of
        (out, t') \<Rightarrow> (out @ [StreamClosedByAgent stream_id (lit ''resync_required'')], t'))"

section \<open>One frame of the relay\<close>

definition handle_open ::
  "('w, 'rt, 'x, 'j) agent_env \<Rightarrow> bridge \<Rightarrow> rstr \<Rightarrow> rstr \<Rightarrow> rstr option \<Rightarrow> pairing_scope
     \<Rightarrow> tunnel \<times> 'w agent \<Rightarrow> agent_to_relay list \<times> tunnel \<times> 'w agent" where
  "handle_open env b stream_id device project_id scope ts =
     (case ts of (t, s) \<Rightarrow>
        (case resolve_project env project_id s of
           (Inl e, s1) \<Rightarrow> ([StreamRejected stream_id (route_error_code e)], t, s1)
         | (Inr project, s1) \<Rightarrow>
             (case (if scope = Interactive \<and> tn_watches t project = None
                    then (case runtime_of env project s1 of
                            (Inl e, s2) \<Rightarrow> (False, s2) | (Inr rt, s2) \<Rightarrow> (True, s2))
                    else (False, s1)) of
                (ok, s2) \<Rightarrow>
                  ([StreamAccepted stream_id], open_stream ok stream_id device project scope t,
                   record_audit b (StreamOpened (hashed_label (ae_crypto env) device) project) s2))))"

definition handle_close ::
  "('w, 'rt, 'x, 'j) agent_env \<Rightarrow> bridge \<Rightarrow> rstr \<Rightarrow> rstr \<Rightarrow> tunnel \<times> 'w agent
     \<Rightarrow> agent_to_relay list \<times> tunnel \<times> 'w agent" where
  "handle_close env b stream_id reason ts =
     (case ts of (t, s) \<Rightarrow>
        (case map_of (tn_streams t) stream_id of
           None \<Rightarrow> ([], t, s)
         | Some st \<Rightarrow>
             ([], close_stream stream_id t,
              record_audit b (StreamClosed (hashed_label (ae_crypto env) (st_device st)) (st_project st) reason) s)))"

definition is_refused :: "admission_error \<Rightarrow> bool" where
  "is_refused e = (case e of AdRefused c r \<Rightarrow> True | _ \<Rightarrow> False)"

text \<open>What the device hears about its frame, with the audit line of a frame refused early.\<close>

definition upstream_answer ::
  "('w, 'rt, 'x, 'j) agent_env \<Rightarrow> ('j, 'v) tunnel_codec \<Rightarrow> bridge \<Rightarrow> rstr \<Rightarrow> signed_envelope \<Rightarrow> rstr
     \<Rightarrow> 'w agent \<Rightarrow> ('j, 'v runtime_event) downstream \<times> 'w agent" where
  "upstream_answer env tc b project frame now s =
     (case admit_upstream env b project frame now None s of
        (Inr (Delivered command_id device), s1) \<Rightarrow> (DownAck command_id, s1)
      | (Inr (SnapshotRequested session), s1) \<Rightarrow>
          (case bridge_snapshot env project session s1 of
             (Inr snapshot, s2) \<Rightarrow> (DownSnapshot snapshot, s2)
           | (Inl e, s2) \<Rightarrow> (DownError (admission_code e) (admission_text e) None, s2))
      | (Inl e, s1) \<Rightarrow>
          (DownError (admission_code e) (admission_text e) (command_id_of_frame (ae_crypto env) tc frame),
           if is_refused e then s1
           else record_audit b
                  (RefusedEvent (hashed_label (ae_crypto env) (se_sender_id frame)) project None
                     (admission_code e)) s1))"

definition note_frame ::
  "crypto \<Rightarrow> ('j, 'v) tunnel_codec \<Rightarrow> signed_envelope \<Rightarrow> stream_state \<Rightarrow> tunnel \<Rightarrow> tunnel" where
  "note_frame cx tc frame st t =
     (case (st_presence st, session_of_frame cx tc frame) of
        (Some i, Some session) \<Rightarrow> update_cell i (note_session session) t
      | _ \<Rightarrow> t)"

definition handle_upstream ::
  "('w, 'rt, 'x, 'j) agent_env \<Rightarrow> ('j, 'v) tunnel_codec \<Rightarrow> bridge \<Rightarrow> rstr \<Rightarrow> signed_envelope \<Rightarrow> rstr
     \<Rightarrow> tunnel \<times> 'w agent \<Rightarrow> agent_to_relay list \<times> tunnel \<times> 'w agent" where
  "handle_upstream env tc b stream_id frame now ts =
     (case ts of (t, s) \<Rightarrow>
        (case map_of (tn_streams t) stream_id of
           None \<Rightarrow> ([], t, s)
         | Some st \<Rightarrow>
             (case upstream_answer env tc b (st_project st) frame now s of
                (answer, s1) \<Rightarrow>
                  (case send_on_stream (ae_crypto env) b stream_id now (tc_text tc answer)
                          (note_frame (ae_crypto env) tc frame st t) of
                     (out, t') \<Rightarrow> (out, t', s1)))))"

definition handle_rpc_frame ::
  "('w, 'rt, 'x, 'j) agent_env \<Rightarrow> ('j, 'v) tunnel_codec \<Rightarrow> bridge \<Rightarrow> rstr \<Rightarrow> signed_envelope \<Rightarrow> rstr
     \<Rightarrow> tunnel \<times> 'w agent \<Rightarrow> agent_to_relay list \<times> tunnel \<times> 'w agent" where
  "handle_rpc_frame env tc b rpc_id frame now ts =
     (case ts of (t, s) \<Rightarrow>
        (let cx = ae_crypto env;
             line = RpcEvent (hashed_label cx (se_sender_id frame)) (rpc_project_of cx tc frame)
                      (rpc_method_of cx tc frame)
         in case handle_rpc env b frame now None s of
              (Inr reply, s1) \<Rightarrow>
                ([RpcResponse rpc_id (Some reply) None], t, record_audit b (line (lit ''ok'')) s1)
            | (Inl e, s1) \<Rightarrow>
                ([RpcResponse rpc_id None (Some (admission_code e, admission_text e))], t,
                 record_audit b (line (admission_code e)) s1)))"

definition handle_frame ::
  "('w, 'rt, 'x, 'j) agent_env \<Rightarrow> ('j, 'v) tunnel_codec \<Rightarrow> bridge \<Rightarrow> rstr \<Rightarrow> relay_to_agent
     \<Rightarrow> tunnel \<times> 'w agent \<Rightarrow> agent_to_relay list \<times> tunnel \<times> 'w agent" where
  "handle_frame env tc b now frame ts =
     (case frame of
        OpenStream stream_id device scope jti project_id \<Rightarrow>
          handle_open env b stream_id device project_id scope ts
      | CloseStream stream_id reason \<Rightarrow> handle_close env b stream_id reason ts
      | ForwardUpstream stream_id envelope \<Rightarrow> handle_upstream env tc b stream_id envelope now ts
      | RpcRequest rpc_id envelope \<Rightarrow> handle_rpc_frame env tc b rpc_id envelope now ts
      | RegisterAck runtime_id \<Rightarrow> ([], ts)
      | RegisterNack code message \<Rightarrow> ([], ts)
      | PairingPending pairing_id \<Rightarrow> ([], ts)
      | HeartbeatAck at \<Rightarrow> ([], ts))"

section \<open>The address the agent dials\<close>

definition hex_digit_upper :: "nat \<Rightarrow> rchar" where
  "hex_digit_upper n = (if n < 10 then 48 + n else 55 + n)"

definition url_byte :: "byte \<Rightarrow> rstr" where
  "url_byte b =
     (if is_ascii_alphanumeric b \<or> b = 45 \<or> b = 46 \<or> b = 95 \<or> b = 126 then [b]
      else [37, hex_digit_upper (b div 16), hex_digit_upper (b mod 16)])"

definition urlencode :: "rstr \<Rightarrow> rstr" where
  "urlencode value = concat (map url_byte (utf8_encode value))"

definition relay_ws_url :: "rstr \<Rightarrow> rstr" where
  "relay_ws_url url =
     (case find_sub (lit ''://'') url of
        None \<Rightarrow> url
      | Some i \<Rightarrow>
          (if take i url = lit ''https'' then lit ''wss://'' @ drop (i + 3) url
           else if take i url = lit ''http'' then lit ''ws://'' @ drop (i + 3) url
           else url))"

definition tunnel_url :: "crypto \<Rightarrow> bridge \<Rightarrow> rstr \<Rightarrow> rstr \<Rightarrow> rstr \<Rightarrow> rstr" where
  "tunnel_url cx b relay_url display_name timestamp =
     relay_url @ lit ''/v1/agent/tunnel?runtime_id='' @ urlencode (br_runtime_id b) @
     lit ''&display_name='' @ urlencode display_name @ lit ''&timestamp='' @ urlencode timestamp @
     lit ''&sig='' @
     urlencode (sign_assertion cx b (utf8_encode (register_signing_input (br_runtime_id b) timestamp)))"

end
