(* ===== verification/Remote_Protocol_Correct.thy ===== *)
theory Remote_Protocol_Correct
  imports Remote_Protocol
begin

text \<open>
  What a signature of an envelope stands for: the canonical string determines every signed
  field and the digest of the payload, it is never one of the assertions signed outside an
  envelope, and an envelope verifies where and when it was signed for.

  What is needed of the services is named: base64 decodes what it encodes, SHA-256 yields
  32 bytes and does not collide on the payloads at hand, a signature of the key's owner
  checks, and only what the owner signed checks.
\<close>

section \<open>What the services promise\<close>

definition base64_ok :: "crypto \<Rightarrow> bool" where
  "base64_ok cx \<longleftrightarrow> (\<forall>b. cx_unb64 cx (cx_b64 cx b) = Some b)"

definition sha256_ok :: "crypto \<Rightarrow> bool" where
  "sha256_ok cx \<longleftrightarrow> (\<forall>m. length (cx_sha256 cx m) = 32 \<and> (\<forall>b \<in> set (cx_sha256 cx m). b < 256))"

definition signatures_ok :: "crypto \<Rightarrow> bool" where
  "signatures_ok cx \<longleftrightarrow> (\<forall>key m. cx_check cx (cx_public cx key) m (cx_sign cx key m))"

text \<open>
  The owner of a key signed the envelopes \<open>E\<close> and the assertions \<open>A\<close> (lists of fields), and
  nothing else checks under it.
\<close>

definition only_signed :: "crypto \<Rightarrow> byte list \<Rightarrow> signed_envelope set \<Rightarrow> rstr list set \<Rightarrow> bool" where
  "only_signed cx key E A \<longleftrightarrow>
     (\<forall>m sig. cx_check cx key m sig \<longrightarrow>
        (\<exists>e \<in> E. \<exists>c. canonical_string cx e = Inr c \<and> m = utf8_encode c) \<or>
        (\<exists>fs \<in> A. m = utf8_encode (join [124] fs)))"

definition short_assertion :: "rstr list \<Rightarrow> bool" where
  "short_assertion fs \<longleftrightarrow> length fs \<le> 4 \<and> (\<forall>f \<in> set fs. 124 \<notin> set f)"

definition rust_str :: "rstr \<Rightarrow> bool" where
  "rust_str s \<longleftrightarrow> (\<forall>c \<in> set s. scalar c)"

definition same_header :: "signed_envelope \<Rightarrow> signed_envelope \<Rightarrow> bool" where
  "same_header e f \<longleftrightarrow>
     se_v e = se_v f \<and> se_sender e = se_sender f \<and> se_sender_id e = se_sender_id f \<and>
     se_recipient_id e = se_recipient_id f \<and> se_stream_id e = se_stream_id f \<and>
     se_seq e = se_seq f \<and> se_ts e = se_ts f \<and> se_content_type e = se_content_type f"

section \<open>Fields and separators\<close>

lemma split_at_first:
  assumes "(c :: nat) \<notin> set a" and "c \<notin> set b" and "a @ c # s = b @ c # t"
  shows "a = b \<and> s = t"
proof -
  have "split_once c (a @ c # s) = split_once c (b @ c # t)" using assms(3) by simp
  then show ?thesis using assms(1,2) by (simp add: split_once_at)
qed

lemma split_at_last:
  assumes "(c :: nat) \<notin> set a" and "c \<notin> set b" and "s @ c # a = t @ c # b"
  shows "s = t \<and> a = b"
proof -
  from assms(3) have "rev (s @ c # a) = rev (t @ c # b)" by simp
  then have "rev a @ c # rev s = rev b @ c # rev t" by simp
  then have "rev a = rev b \<and> rev s = rev t" using assms(1,2) by (intro split_at_first) auto
  then show ?thesis by simp
qed

text \<open>Fields free of the separator are determined by the joined string and their number.\<close>

lemma join_fields_inject:
  assumes "length fs = length gs" and "\<forall>f \<in> set fs \<union> set gs. c \<notin> set f"
    and "join [c] (fs @ [r]) = join [c] (gs @ [s])"
  shows "fs = gs \<and> r = s"
  using assms
proof (induction fs gs rule: list_induct2)
  case Nil
  then show ?case by simp
next
  case (Cons f fs g gs)
  then have "f @ c # join [c] (fs @ [r]) = g @ c # join [c] (gs @ [s])"
    by (simp add: join_Cons)
  with Cons.prems(1) have "f = g \<and> join [c] (fs @ [r]) = join [c] (gs @ [s])"
    by (intro split_at_first) auto
  with Cons.IH Cons.prems(1) show ?case by simp
qed

lemma utf8_ascii_mem: "c \<in> set s \<Longrightarrow> c < 128 \<Longrightarrow> c \<in> set (utf8_encode s)"
  by (force simp: utf8_encode_def utf8_char_def)

lemma utf8_char_high: "128 \<le> c \<Longrightarrow> b \<in> set (utf8_char c) \<Longrightarrow> 128 \<le> b"
  by (auto simp: utf8_char_def split: if_splits)

lemma id_byte_ascii: "id_byte b \<Longrightarrow> b < 128 \<and> b \<noteq> 124"
  by (auto simp: id_byte_def is_ascii_alphanumeric_def is_ascii_digit_def is_ascii_upper_def
      is_ascii_lower_def)

lemma valid_id_chars:
  assumes "id_is_valid i" and "c \<in> set i"
  shows "c < 128 \<and> c \<noteq> 124"
proof -
  have all: "\<forall>b \<in> set (utf8_encode i). id_byte b"
    using assms(1) by (simp add: id_is_valid_def list_all_iff)
  have low: "c < 128"
  proof (rule ccontr)
    assume "\<not> c < 128"
    then have high: "128 \<le> c" by simp
    have "utf8_char c \<noteq> []" by (simp add: utf8_char_def)
    then obtain b where b: "b \<in> set (utf8_char c)" by (meson hd_in_set)
    with assms(2) have "b \<in> set (utf8_encode i)" by (auto simp: utf8_encode_def)
    with all have "b < 128" using id_byte_ascii by blast
    moreover have "128 \<le> b" by (rule utf8_char_high [OF high b])
    ultimately show False by simp
  qed
  with assms(2) all have "id_byte c" using utf8_ascii_mem by blast
  with low show ?thesis using id_byte_ascii by blast
qed

lemma hex_digit_inj: "a < 16 \<Longrightarrow> b < 16 \<Longrightarrow> hex_digit a = hex_digit b \<Longrightarrow> a = b"
  by (auto simp: hex_digit_def split: if_splits)

lemma hex_byte_inj:
  assumes "a < 256" and "b < 256" and "hex_byte a = hex_byte b"
  shows "a = b"
proof -
  have "a div 16 = b div 16" "a mod 16 = b mod 16"
    using assms by (auto simp: hex_byte_def intro!: hex_digit_inj)
  then show ?thesis by (metis div_mult_mod_eq)
qed

lemma hex_lower_Nil [simp]: "hex_lower [] = []"
  by (simp add: hex_lower_def)

lemma hex_lower_Cons: "hex_lower (b # bs) = hex_byte b @ hex_lower bs"
  by (simp add: hex_lower_def)

lemma length_hex_byte [simp]: "length (hex_byte b) = 2"
  by (simp add: hex_byte_def)

lemma hex_lower_inj:
  "\<forall>b \<in> set xs. b < 256 \<Longrightarrow> \<forall>b \<in> set ys. b < 256 \<Longrightarrow> hex_lower xs = hex_lower ys \<Longrightarrow> xs = ys"
proof (induction xs arbitrary: ys)
  case Nil
  then show ?case by (cases ys) (auto simp: hex_lower_Cons hex_byte_def)
next
  case (Cons x xs)
  then obtain y ys' where ys: "ys = y # ys'"
    by (cases ys) (auto simp: hex_lower_Cons hex_byte_def)
  with Cons.prems(3) have "hex_byte x = hex_byte y" "hex_lower xs = hex_lower ys'"
    by (auto simp: hex_lower_Cons append_eq_append_conv)
  with Cons.prems Cons.IH [of ys'] ys show ?case by (auto dest: hex_byte_inj)
qed

lemma hex_digit_range: "n < 16 \<Longrightarrow> hex_digit n < 128 \<and> hex_digit n \<noteq> 124"
  by (auto simp: hex_digit_def)

lemma hex_byte_chars:
  assumes "b < 256" and "c \<in> set (hex_byte b)"
  shows "c < 128 \<and> c \<noteq> 124"
proof -
  have "b div 16 < 16" "b mod 16 < 16" using assms(1) by (auto simp: less_mult_imp_div_less)
  then show ?thesis using assms(2) hex_digit_range [of "b div 16"] hex_digit_range [of "b mod 16"]
    by (auto simp: hex_byte_def)
qed

lemma hex_lower_chars:
  "\<forall>b \<in> set xs. b < 256 \<Longrightarrow> c \<in> set (hex_lower xs) \<Longrightarrow> c < 128 \<and> c \<noteq> 124"
  by (induction xs) (auto simp: hex_lower_Cons dest: hex_byte_chars)

lemma show_nat_chars: "c \<in> set (show_nat n) \<Longrightarrow> c < 128 \<and> c \<noteq> 124"
  using show_nat_digits [of c n] by (auto simp: is_ascii_digit_def)

lemma sender_chars: "c \<in> set (sender_as_str s) \<Longrightarrow> c < 128 \<and> c \<noteq> 124"
  by (cases s) (auto simp: lit_def)

lemma content_type_chars: "c \<in> set (content_type_as_str t) \<Longrightarrow> c < 128 \<and> c \<noteq> 124"
  by (cases t) (auto simp: lit_def)

lemma sender_as_str_inj: "sender_as_str s = sender_as_str t \<Longrightarrow> s = t"
  by (cases s; cases t) simp_all

lemma content_type_as_str_inj: "content_type_as_str s = content_type_as_str t \<Longrightarrow> s = t"
  by (cases s; cases t) simp_all

section \<open>The canonical string\<close>

lemma canonical_stringD:
  assumes "canonical_string cx e = Inr c"
  obtains p where "se_v e = ENVELOPE_VERSION" and "id_is_valid (se_sender_id e)"
    and "id_is_valid (se_recipient_id e)" and "id_is_valid (se_stream_id e)"
    and "cx_time cx (se_ts e) \<noteq> None" and "envelope_payload cx e = Inr p"
    and "c = canonical_fields cx e p"
  using assms
  by (auto simp: canonical_string_def parse_timestamp_def split: if_splits sum.splits option.splits)

lemma digest_bytes: "sha256_ok cx \<Longrightarrow> \<forall>b \<in> set (cx_sha256 cx p). b < 256"
  by (simp add: sha256_ok_def)

definition leading_fields :: "signed_envelope \<Rightarrow> rstr list" where
  "leading_fields e =
     [show_nat (se_v e), sender_as_str (se_sender e), se_sender_id e, se_recipient_id e,
      se_stream_id e, show_nat (se_seq e)]"

definition trailing_fields :: "crypto \<Rightarrow> signed_envelope \<Rightarrow> byte list \<Rightarrow> rstr" where
  "trailing_fields cx e p =
     (se_ts e @ 124 # content_type_as_str (se_content_type e)) @ 124 # hex_lower (cx_sha256 cx p)"

lemma canonical_fields_parts:
  "canonical_fields cx e p = join [124] (leading_fields e @ [trailing_fields cx e p])"
  by (simp add: canonical_fields_def leading_fields_def trailing_fields_def)

lemma canonical_string_parts:
  assumes "canonical_string cx e = Inr c" and "envelope_payload cx e = Inr p"
  shows "c = join [124] (leading_fields e @ [trailing_fields cx e p])"
    and "\<forall>f \<in> set (leading_fields e). 124 \<notin> set f"
proof -
  obtain q where q: "envelope_payload cx e = Inr q" "c = canonical_fields cx e q"
    and ids: "id_is_valid (se_sender_id e)" "id_is_valid (se_recipient_id e)" "id_is_valid (se_stream_id e)"
    by (rule canonical_stringD [OF assms(1)])
  show "c = join [124] (leading_fields e @ [trailing_fields cx e p])"
    using q assms(2) by (simp add: canonical_fields_parts)
  show "\<forall>f \<in> set (leading_fields e). 124 \<notin> set f"
    using valid_id_chars [OF ids(1)] valid_id_chars [OF ids(2)] valid_id_chars [OF ids(3)]
    by (auto simp: leading_fields_def dest: show_nat_chars sender_chars)
qed

lemma trailing_fields_inject:
  assumes "sha256_ok cx" and "trailing_fields cx e p = trailing_fields cx f q"
  shows "se_ts e = se_ts f \<and> se_content_type e = se_content_type f \<and> cx_sha256 cx p = cx_sha256 cx q"
proof -
  have free: "124 \<notin> set (hex_lower (cx_sha256 cx x))" for x
    using hex_lower_chars [OF digest_bytes [OF assms(1)]] by blast
  have ct: "124 \<notin> set (content_type_as_str t)" for t
    using content_type_chars by blast
  from split_at_last [OF free free assms(2) [unfolded trailing_fields_def]]
  have 1: "se_ts e @ 124 # content_type_as_str (se_content_type e) =
      se_ts f @ 124 # content_type_as_str (se_content_type f)"
    and 2: "hex_lower (cx_sha256 cx p) = hex_lower (cx_sha256 cx q)"
    by blast+
  show ?thesis
    using split_at_last [OF ct ct 1] hex_lower_inj [OF digest_bytes digest_bytes 2] assms(1)
    by (auto dest: content_type_as_str_inj)
qed

lemma canonical_string_inject:
  assumes "sha256_ok cx" and e: "canonical_string cx e = Inr c" and f: "canonical_string cx f = Inr c"
    and pe: "envelope_payload cx e = Inr p" and pf: "envelope_payload cx f = Inr q"
  shows "same_header e f \<and> cx_sha256 cx p = cx_sha256 cx q"
proof -
  note E = canonical_string_parts [OF e pe] and F = canonical_string_parts [OF f pf]
  have "join [124] (leading_fields e @ [trailing_fields cx e p]) =
      join [124] (leading_fields f @ [trailing_fields cx f q])"
    using E(1) F(1) by simp
  moreover have "length (leading_fields e) = length (leading_fields f)"
    by (simp add: leading_fields_def)
  ultimately have l: "leading_fields e = leading_fields f" and t: "trailing_fields cx e p = trailing_fields cx f q"
    using E(2) F(2) join_fields_inject [of "leading_fields e" "leading_fields f" 124] by blast+
  have "sender_as_str (se_sender e) = sender_as_str (se_sender f)" using l by (simp add: leading_fields_def)
  then have "se_sender e = se_sender f" by (rule sender_as_str_inj)
  with l trailing_fields_inject [OF assms(1) t] show ?thesis
    by (simp add: same_header_def leading_fields_def)
qed

text \<open>An assertion has fewer separators than an envelope.\<close>

definition bars :: "nat list \<Rightarrow> nat" where
  "bars s = length (filter (\<lambda>c. c = 124) s)"

lemma bars_Nil [simp]: "bars [] = 0"
  by (simp add: bars_def)

lemma bars_append [simp]: "bars (a @ b) = bars a + bars b"
  by (simp add: bars_def)

lemma bars_Cons [simp]: "bars (c # s) = (if c = 124 then 1 else 0) + bars s"
  by (simp add: bars_def)

lemma bars_free: "124 \<notin> set s \<Longrightarrow> bars s = 0"
  by (induction s) (auto simp: bars_def)

lemma bars_utf8_char: "bars (utf8_char c) = (if c = 124 then 1 else 0)"
  using utf8_char_high [of c 124] by (auto simp: bars_free utf8_char_def bars_def)

lemma bars_utf8 [simp]: "bars (utf8_encode s) = bars s"
  by (induction s) (simp_all add: utf8_encode_def bars_utf8_char)

lemma bars_join_free:
  "\<forall>f \<in> set fs. 124 \<notin> set f \<Longrightarrow> bars (join [124] fs) = length fs - 1"
  by (induction "[124::nat]" fs rule: join.induct) (auto simp: bars_free)

lemma canonical_not_assertion:
  assumes "canonical_string cx e = Inr c" and "short_assertion fs"
  shows "utf8_encode c \<noteq> utf8_encode (join [124] fs)"
proof
  assume "utf8_encode c = utf8_encode (join [124] fs)"
  then have "bars c = bars (join [124] fs)" by (metis bars_utf8)
  moreover have "bars (join [124] fs) \<le> 3"
    using assms(2) bars_join_free [of fs] by (auto simp: short_assertion_def)
  moreover have "8 \<le> bars c"
    by (rule canonical_stringD [OF assms(1)]) (simp add: canonical_fields_def)
  ultimately show False by simp
qed

section \<open>Where a verified envelope comes from\<close>

lemma rust_str_append [simp]: "rust_str (a @ b) \<longleftrightarrow> rust_str a \<and> rust_str b"
  by (auto simp: rust_str_def)

lemma rust_str_bar [simp]: "rust_str (124 # s) \<longleftrightarrow> rust_str s"
  by (simp add: rust_str_def scalar_def)

lemma ascii_rust_str: "(\<And>c. c \<in> set s \<Longrightarrow> c < 128 \<and> P c) \<Longrightarrow> rust_str s"
  by (fastforce simp: rust_str_def scalar_def)

lemma canonical_scalars:
  assumes "sha256_ok cx" and "canonical_string cx e = Inr c" and "rust_str (se_ts e)"
  shows "rust_str c"
proof -
  obtain p where c: "c = canonical_fields cx e p" and ids: "id_is_valid (se_sender_id e)"
      "id_is_valid (se_recipient_id e)" "id_is_valid (se_stream_id e)"
    by (rule canonical_stringD [OF assms(2)])
  note ascii = ascii_rust_str [OF show_nat_chars] ascii_rust_str [OF sender_chars]
    ascii_rust_str [OF content_type_chars] ascii_rust_str [OF hex_lower_chars [OF digest_bytes [OF assms(1)]]]
    ascii_rust_str [OF valid_id_chars [OF ids(1)]] ascii_rust_str [OF valid_id_chars [OF ids(2)]]
    ascii_rust_str [OF valid_id_chars [OF ids(3)]]
  show ?thesis by (simp add: c canonical_fields_def assms(3) ascii)
qed

lemma utf8_inject: "rust_str s \<Longrightarrow> rust_str t \<Longrightarrow> utf8_encode s = utf8_encode t \<Longrightarrow> s = t"
  by (metis lossy_encode rust_str_def)

lemma verify_envelopeD:
  assumes "verify_envelope cx p e = Inr payload"
  obtains c sig sent now where "canonical_string cx e = Inr c" and "se_recipient_id e = vp_recipient p"
    and "cx_time cx (se_ts e) = Some sent" and "cx_time cx (vp_now p) = Some now"
    and "\<bar>now - sent\<bar> \<le> TIMESTAMP_WINDOW_SECS"
    and "cx_check cx (vp_key p) (utf8_encode c) sig" and "envelope_payload cx e = Inr payload"
  using assms
  by (auto simp: verify_envelope_def parse_timestamp_def split: if_splits sum.splits option.splits)

text \<open>
  The envelopes a key's owner signed, against which a verified one is compared: their
  timestamps are Rust strings, and their payloads do not collide with one another.
\<close>

definition signer_model :: "crypto \<Rightarrow> byte list \<Rightarrow> signed_envelope set \<Rightarrow> rstr list set \<Rightarrow> bool" where
  "signer_model cx key E A \<longleftrightarrow>
     sha256_ok cx \<and> only_signed cx key E A \<and> (\<forall>fs \<in> A. short_assertion fs) \<and>
     (\<forall>e \<in> E. rust_str (se_ts e))"

definition no_collision :: "crypto \<Rightarrow> byte list \<Rightarrow> signed_envelope set \<Rightarrow> bool" where
  "no_collision cx payload E \<longleftrightarrow>
     (\<forall>e \<in> E. \<forall>p. envelope_payload cx e = Inr p \<and> cx_sha256 cx p = cx_sha256 cx payload \<longrightarrow> p = payload)"

lemma verified_origin:
  assumes "verify_envelope cx vp frame = Inr payload" and "signer_model cx (vp_key vp) E A"
    and "no_collision cx payload E" and "rust_str (se_ts frame)"
  shows "\<exists>e \<in> E. same_header frame e \<and> envelope_payload cx e = Inr payload"
proof -
  note M = assms(2) [unfolded signer_model_def]
  obtain c sig where c: "canonical_string cx frame = Inr c"
    and sig: "cx_check cx (vp_key vp) (utf8_encode c) sig" and p: "envelope_payload cx frame = Inr payload"
    by (rule verify_envelopeD [OF assms(1)])
  from M sig canonical_not_assertion [OF c]
  obtain e d where e: "e \<in> E" "canonical_string cx e = Inr d" "utf8_encode c = utf8_encode d"
    by (meson only_signed_def)
  have "rust_str d" using M e canonical_scalars by blast
  moreover have "rust_str c" using M c assms(4) canonical_scalars by blast
  ultimately have "c = d" using e(3) utf8_inject by blast
  obtain q where q: "envelope_payload cx e = Inr q" by (rule canonical_stringD [OF e(2)])
  have "same_header frame e \<and> cx_sha256 cx payload = cx_sha256 cx q"
    using canonical_string_inject [of cx frame c e payload q] M c e(2) \<open>c = d\<close> p q by blast
  with assms(3) q e(1) show ?thesis by (metis no_collision_def)
qed

text \<open>
  C8. A verified envelope was signed as it stands: if only the envelopes and the shorter
  assertions the key's owner signed check under the key, then a frame that verifies has
  the header (sender, recipient, stream, sequence number, time and content type) and the
  payload of one of those envelopes, is addressed to the verifier, and was signed within
  the window.  A relay can neither alter a field nor shift one into another, nor pass off
  an assertion as a frame.
\<close>

theorem envelope_cannot_be_altered:
  assumes "verify_envelope cx vp frame = Inr payload" and "signer_model cx (vp_key vp) E A"
    and "no_collision cx payload E" and "rust_str (se_ts frame)"
  shows "(\<exists>e \<in> E. same_header frame e \<and> envelope_payload cx e = Inr payload) \<and>
    se_recipient_id frame = vp_recipient vp \<and>
    (\<exists>sent now. cx_time cx (se_ts frame) = Some sent \<and> cx_time cx (vp_now vp) = Some now \<and>
       \<bar>now - sent\<bar> \<le> 120)"
proof -
  have "se_recipient_id frame = vp_recipient vp \<and>
    (\<exists>sent now. cx_time cx (se_ts frame) = Some sent \<and> cx_time cx (vp_now vp) = Some now \<and>
       \<bar>now - sent\<bar> \<le> 120)"
    by (rule verify_envelopeD [OF assms(1)]) (simp add: TIMESTAMP_WINDOW_SECS_def)
  with verified_origin [OF assms] show ?thesis by blast
qed

text \<open>A small instance of the services, in which \<open>M\<close> are the messages that were signed.\<close>

definition demo_crypto :: "(byte list \<Rightarrow> bool) \<Rightarrow> crypto" where
  "demo_crypto M =
     \<lparr>cx_sha256 = (\<lambda>m. take 32 (map (\<lambda>b. b mod 256) m @ replicate 32 0)),
      cx_public = (\<lambda>k. k), cx_sign = (\<lambda>k m. k @ m), cx_check = (\<lambda>k m s. s = k @ m \<and> M m),
      cx_b64 = map (\<lambda>b. b + 1000),
      cx_unb64 = (\<lambda>s. if list_all (\<lambda>c. 1000 \<le> c) s then Some (map (\<lambda>c. c - 1000) s) else None),
      cx_url64 = map (\<lambda>b. b + 1000),
      cx_unurl64 = (\<lambda>s. if list_all (\<lambda>c. 1000 \<le> c) s then Some (map (\<lambda>c. c - 1000) s) else None),
      cx_time = (\<lambda>s. map_option int (digits_value 0 s))\<rparr>"

lemma demo_crypto_ok: "sha256_ok (demo_crypto M)" "base64_ok (demo_crypto M)"
  by (auto simp: sha256_ok_def base64_ok_def demo_crypto_def list_all_iff o_def dest!: in_set_takeD)

lemma demo_signatures_ok: "signatures_ok (demo_crypto (\<lambda>m. True))"
  by (simp add: signatures_ok_def demo_crypto_def)

definition demo_frame :: signed_envelope where
  "demo_frame = \<lparr>se_v = 1, se_sender = SenderDevice, se_sender_id = lit ''d'', se_recipient_id = lit ''r'',
     se_stream_id = lit ''s'', se_seq = 1, se_ts = lit ''0'', se_content_type = SessionUpstream,
     se_payload_b64 = [1007], se_sig_b64 = []\<rparr>"

definition demo_text :: rstr where
  "demo_text = canonical_fields (demo_crypto (\<lambda>m. True)) demo_frame [7]"

definition demo_signed_by :: "byte list \<Rightarrow> signed_envelope" where
  "demo_signed_by k = demo_frame\<lparr>se_sig_b64 := map (\<lambda>b. b + 1000) (k @ utf8_encode demo_text)\<rparr>"

lemma demo_canonical:
  "se_sig_b64 e = x \<Longrightarrow> e = demo_frame\<lparr>se_sig_b64 := x\<rparr> \<Longrightarrow> canonical_string (demo_crypto M) e = Inr demo_text"
  by (simp add: canonical_string_def demo_text_def canonical_fields_def demo_crypto_def demo_frame_def
      ENVELOPE_VERSION_def id_is_valid_def parse_timestamp_def envelope_payload_def id_byte_def
      is_ascii_alphanumeric_def is_ascii_lower_def is_ascii_digit_def utf8_encode_def utf8_char_def
      utf8_len_def lit_def)

lemma demo_signed_facts:
  "canonical_string (demo_crypto M) (demo_signed_by k) = Inr demo_text"
  "envelope_payload (demo_crypto M) (demo_signed_by k) = Inr [7]"
  "rust_str (se_ts (demo_signed_by k))"
  by (rule demo_canonical [of _ "se_sig_b64 (demo_signed_by k)"])
     (simp_all add: demo_signed_by_def envelope_payload_def demo_crypto_def demo_frame_def rust_str_def
        scalar_def lit_def)

lemma demo_verifies:
  assumes "M (utf8_encode demo_text)"
  shows "verify_envelope (demo_crypto M) \<lparr>vp_recipient = lit ''r'', vp_key = k, vp_now = lit ''120''\<rparr> (demo_signed_by k) = Inr [7]"
proof -
  have "cx_time (demo_crypto M) (se_ts (demo_signed_by k)) = Some 0" "cx_time (demo_crypto M) (lit ''120'') = Some 120"
    "se_recipient_id (demo_signed_by k) = lit ''r''"
    by (simp_all add: demo_crypto_def demo_signed_by_def demo_frame_def lit_def is_ascii_digit_def)
  moreover have "cx_unb64 (demo_crypto M) (se_sig_b64 (demo_signed_by k)) = Some (k @ utf8_encode demo_text)"
    by (auto simp: demo_crypto_def demo_signed_by_def list_all_iff o_def)
  moreover have "cx_check (demo_crypto M) k (utf8_encode demo_text) (k @ utf8_encode demo_text)"
    using assms by (simp add: demo_crypto_def)
  ultimately show ?thesis
    using demo_signed_facts(1,2) [of M]
    by (simp add: verify_envelope_def parse_timestamp_def TIMESTAMP_WINDOW_SECS_def)
qed

definition demo_owner :: crypto where
  "demo_owner = demo_crypto (\<lambda>m. m = utf8_encode demo_text)"

lemma demo_signer:
  "signer_model demo_owner [9] {demo_signed_by [9]} {}" "no_collision demo_owner [7] {demo_signed_by [9]}"
  using demo_signed_facts(1,2) [of "\<lambda>m. m = utf8_encode demo_text" "[9]"] demo_signed_facts(3)
  by (auto simp: signer_model_def only_signed_def no_collision_def demo_owner_def demo_crypto_ok)
     (simp add: demo_crypto_def)

theorem envelope_cannot_be_altered_witness:
  "verify_envelope demo_owner \<lparr>vp_recipient = lit ''r'', vp_key = [9], vp_now = lit ''120''\<rparr> (demo_signed_by [9]) = Inr [7] \<and>
   (\<exists>e \<in> {demo_signed_by [9]}. same_header (demo_signed_by [9]) e \<and> envelope_payload demo_owner e = Inr [7])"
proof -
  have v: "verify_envelope demo_owner \<lparr>vp_recipient = lit ''r'', vp_key = [9], vp_now = lit ''120''\<rparr>
      (demo_signed_by [9]) = Inr [7]"
    by (simp add: demo_owner_def demo_verifies)
  have "signer_model demo_owner
      (vp_key \<lparr>vp_recipient = lit ''r'', vp_key = [9], vp_now = lit ''120''\<rparr>) {demo_signed_by [9]} {}"
    using demo_signer(1) by simp
  from envelope_cannot_be_altered [OF v this demo_signer(2) demo_signed_facts(3)] v
  show ?thesis by blast
qed

section \<open>Signing and verifying\<close>

lemma sign_envelopeD:
  assumes "sign_envelope cx key s sid rid stream sq ts ct payload = Inr e" and "base64_ok cx"
  shows "envelope_payload cx e = Inr payload"
    and "\<exists>c. canonical_string cx e = Inr c \<and> se_sig_b64 e = cx_b64 cx (cx_sign cx key (utf8_encode c))"
    and "se_recipient_id e = rid" and "se_ts e = ts"
  using assms
  by (auto simp: sign_envelope_def base64_ok_def Let_def canonical_string_def envelope_payload_def
      canonical_fields_def split: if_splits sum.splits option.splits)

lemma signed_verifies:
  assumes "sign_envelope cx key s sid rid stream sq ts ct payload = Inr e"
    and "base64_ok cx" and "signatures_ok cx"
    and "cx_time cx ts = Some sent" and "cx_time cx now = Some t" and "\<bar>t - sent\<bar> \<le> 120"
  shows "verify_envelope cx \<lparr>vp_recipient = rid, vp_key = verifying_key cx key, vp_now = now\<rparr> e = Inr payload"
proof -
  note D = sign_envelopeD [OF assms(1,2)]
  obtain c where c: "canonical_string cx e = Inr c" "se_sig_b64 e = cx_b64 cx (cx_sign cx key (utf8_encode c))"
    using D(2) by blast
  show ?thesis
    using assms(2-6) D(1,3,4) c
    by (simp add: verify_envelope_def parse_timestamp_def TIMESTAMP_WINDOW_SECS_def base64_ok_def
        signatures_ok_def verifying_key_def)
qed

text \<open>
  Signing and verifying fit together: an envelope the runtime or a device signs is
  accepted by the peer it is addressed to, under the signer's public key and at every
  time within 120 seconds of its timestamp, with the payload that was signed; the two ends
  of the window included.
\<close>

theorem signed_envelope_verifies:
  assumes "sign_envelope cx key s sid rid stream sq ts ct payload = Inr e"
    and "base64_ok cx" and "signatures_ok cx"
    and "cx_time cx ts = Some sent" and "cx_time cx now = Some t" and "\<bar>t - sent\<bar> \<le> 120"
  shows "verify_envelope cx \<lparr>vp_recipient = rid, vp_key = verifying_key cx key, vp_now = now\<rparr> e = Inr payload"
  using assms by (rule signed_verifies)

theorem signed_envelope_verifies_witness:
  "\<exists>e. sign_envelope (demo_crypto (\<lambda>m. True)) [9] SenderDevice (lit ''d'') (lit ''r'') (lit ''s'') 1 (lit ''0'')
         SessionUpstream [7] = Inr e \<and>
     verify_envelope (demo_crypto (\<lambda>m. True))
       \<lparr>vp_recipient = lit ''r'', vp_key = verifying_key (demo_crypto (\<lambda>m. True)) [9], vp_now = lit ''120''\<rparr> e = Inr [7]"
proof -
  have "canonical_string (demo_crypto (\<lambda>m. True)) demo_frame = Inr demo_text"
    by (rule demo_canonical [of _ "[]"]) (simp_all add: demo_frame_def)
  then have "\<exists>e. sign_envelope (demo_crypto (\<lambda>m. True)) [9] SenderDevice (lit ''d'') (lit ''r'') (lit ''s'') 1
      (lit ''0'') SessionUpstream [7] = Inr e"
    by (simp add: sign_envelope_def Let_def demo_frame_def ENVELOPE_VERSION_def)
       (simp add: demo_crypto_def)
  then obtain e where e: "sign_envelope (demo_crypto (\<lambda>m. True)) [9] SenderDevice (lit ''d'') (lit ''r'') (lit ''s'') 1
      (lit ''0'') SessionUpstream [7] = Inr e" by blast
  have t: "cx_time (demo_crypto (\<lambda>m. True)) (lit ''0'') = Some 0"
    "cx_time (demo_crypto (\<lambda>m. True)) (lit ''120'') = Some 120"
    by (simp_all add: demo_crypto_def lit_def is_ascii_digit_def)
  from signed_envelope_verifies [OF e demo_crypto_ok(2) demo_signatures_ok t] e show ?thesis by auto
qed

section \<open>The pairing code and the assertion header\<close>

lemma trim_unspaced:
  assumes "s \<noteq> []" and "\<not> is_whitespace (hd s)" and "\<not> is_whitespace (last s)"
  shows "trim s = s"
proof -
  have "dropWhile is_whitespace s = s" using assms(1,2) by (cases s) simp_all
  moreover have "dropWhile is_whitespace (rev s) = rev s"
    using assms(1,3) by (cases "rev s") (auto simp: hd_rev [symmetric] simp del: hd_rev)
  ultimately show ?thesis
    by (simp add: trim_def trim_start_def trim_end_def trim_start_matches_def trim_end_matches_def)
qed

definition qr_field :: "rstr \<Rightarrow> bool" where
  "qr_field f \<longleftrightarrow> f \<noteq> [] \<and> 124 \<notin> set f"

text \<open>The code a camera reads gives back what was paired.\<close>

lemma qr_code_roundtrip:
  assumes "qr_field (qr_runtime_id q)" and "qr_field (qr_runtime_pubkey q)" and "qr_field (qr_relay_url q)"
    and "qr_field (qr_pairing_secret q)" and "\<not> is_whitespace (last (qr_pairing_secret q))"
  shows "qr_parse_compact (qr_to_compact q) = Some q"
proof -
  let ?fs = "[COMPACT_PAIRING_PREFIX, qr_runtime_id q, qr_runtime_pubkey q, qr_relay_url q, qr_pairing_secret q]"
  have "trim (qr_to_compact q) = qr_to_compact q"
    using assms(4,5)
    by (intro trim_unspaced) (auto simp: qr_to_compact_def qr_field_def COMPACT_PAIRING_PREFIX_def lit_def is_whitespace_def)
  moreover have "split_char 124 (join [124] ?fs) = ?fs"
    using assms(1-4) by (intro split_char_join) (auto simp: qr_field_def COMPACT_PAIRING_PREFIX_def lit_def)
  ultimately show ?thesis
    using assms(1-4) by (simp add: qr_parse_compact_def qr_to_compact_def qr_field_def)
qed

lemma runtime_header_roundtrip:
  assumes "qr_field i" and "qr_field t" and "qr_field n" and "\<And>b. cx_b64 cx b \<noteq> []"
  shows "parse_runtime_header (runtime_header_value cx key action i t n) =
    Some (i, t, n, cx_b64 cx (cx_sign cx key (utf8_encode (runtime_signing_input action i t n))))"
  using assms
  by (simp add: runtime_header_value_def parse_runtime_header_def Let_def qr_field_def numeral_eq_Suc
      split_once_at)

end
