(* ===== verification/Remote_Uploads_Correct.thy ===== *)
theory Remote_Uploads_Correct
  imports Remote_Uploads Remote_Protocol_Correct Interfaces
begin

text \<open>
  The uploads of a remote device: every reachable table of assemblies is well formed and
  within the limits, so that no index is out of range, and the chunks of a file are put
  back together in whatever order they arrive.
\<close>

section \<open>Assemblies\<close>

definition assembly_wf :: "assembly \<Rightarrow> bool" where
  "assembly_wf a \<longleftrightarrow>
     1 \<le> as_total a \<and> as_total a \<le> MAX_CHUNKS \<and> length (as_pieces a) = as_total a \<and>
     \<not> assembly_complete a \<and> received_bytes a \<le> MAX_ATTACHMENT_BYTES"

definition uploads_wf :: "uploads \<Rightarrow> bool" where
  "uploads_wf s \<longleftrightarrow>
     table_ok (up_partial s) \<and>
     (\<forall>key a. map_of (up_partial s) key = Some a \<longrightarrow> assembly_wf a) \<and>
     (\<forall>session. held_bytes s session \<le> MAX_SESSION_BYTES)"

lemma received_put:
  assumes "i < length (as_pieces a)"
  shows "received_bytes (a\<lparr>as_pieces := (as_pieces a)[i := Some b]\<rparr>) =
    received_bytes a - piece_len (as_pieces a ! i) + length b"
proof -
  have "piece_len (as_pieces a ! i) \<le> sum_list (map piece_len (as_pieces a))"
    using assms elem_le_sum_list [of i "map piece_len (as_pieces a)"] by simp
  then show ?thesis
    using assms by (simp add: received_bytes_def map_update sum_list_update) (simp add: piece_len_def)
qed

lemma received_new [simp]: "received_bytes (assembly_new n) = 0"
  by (induction n) (simp_all add: received_bytes_def assembly_new_def piece_len_def)

lemma joined_length:
  assumes "assembly_complete a"
  shows "length (assembly_joined a) = received_bytes a"
proof -
  have "length (concat (map (\<lambda>p. case p of None \<Rightarrow> [] | Some b \<Rightarrow> b) ps)) = sum_list (map piece_len ps)" for ps
    by (induction ps) (auto simp: piece_len_def split: option.split)
  then show ?thesis by (simp add: assembly_joined_def received_bytes_def)
qed

lemma new_not_complete: "0 < n \<Longrightarrow> \<not> assembly_complete (assembly_new n)"
  by (cases n) (simp_all add: assembly_complete_def assembly_new_def)

section \<open>What a session holds\<close>

lemma held_drop:
  assumes "table_ok (up_partial s)"
  shows "held_bytes s session = held_bytes (drop_upload key s) session +
    (case map_of (up_partial s) key of None \<Rightarrow> 0 | Some a \<Rightarrow> session_weight session (key, a))"
proof (cases "map_of (up_partial s) key")
  case None
  then show ?thesis by (simp add: held_bytes_def drop_upload_def accepted_bytes_def table_sum_absent)
next
  case (Some a)
  from table_sum_split [OF assms Some] Some show ?thesis
    by (simp add: held_bytes_def drop_upload_def accepted_bytes_def)
qed

lemma held_drop_le: "held_bytes (drop_upload key s) session \<le> held_bytes s session"
  by (simp add: held_bytes_def drop_upload_def accepted_bytes_def table_sum_delete_le)

lemma held_keep:
  assumes "keep_piece key a s = (out, s')"
  shows "held_bytes s' session = held_bytes (drop_upload key s) session +
    (if session = fst (snd key) then received_bytes a else 0)"
  using assms joined_length [of a]
  by (cases key) (auto simp: keep_piece_def held_bytes_def drop_upload_def accepted_bytes_def
      session_weight_def Let_def split: if_splits)

lemma stored_elsewhere:
  assumes "table_ok (up_partial s)"
    and "a = (case map_of (up_partial s) key of None \<Rightarrow> assembly_new n | Some a \<Rightarrow> a)"
  shows "held_bytes s (fst (snd key)) - min (received_bytes a) (held_bytes s (fst (snd key))) =
    held_bytes (drop_upload key s) (fst (snd key))"
  using held_drop [OF assms(1), of "fst (snd key)" key] assms(2)
  by (cases key) (simp add: session_weight_def split: option.splits)

text \<open>Placing a piece, with the sizes it computes named.\<close>

lemma place_unfold:
  assumes "table_ok (up_partial s)"
    and "a = (case map_of (up_partial s) key of None \<Rightarrow> assembly_new n | Some a \<Rightarrow> a)"
    and "i < length (as_pieces a)" and "a' = a\<lparr>as_pieces := (as_pieces a)[i := Some b]\<rparr>"
  shows "place_piece key a i b s =
    (if received_bytes a' > MAX_ATTACHMENT_BYTES then (Inl TooLarge, drop_upload key s)
     else if held_bytes (drop_upload key s) (fst (snd key)) + received_bytes a' > MAX_SESSION_BYTES
     then (Inl SessionFull, drop_upload key s)
     else (case keep_piece key a' s of (out, s') \<Rightarrow> (Inr out, s')))"
  unfolding place_piece_def Let_def stored_elsewhere [OF assms(1,2)] received_put [OF assms(3), symmetric]
    assms(4) [symmetric] ..

section \<open>The table stays well formed\<close>

lemma wf_drop: "uploads_wf s \<Longrightarrow> uploads_wf (drop_upload key s)"
  unfolding uploads_wf_def
  by (auto intro: order_trans [OF held_drop_le] simp: drop_upload_def split: if_splits)
     (metis drop_upload_def held_drop_le order_trans)

lemma wf_keep:
  assumes "uploads_wf s" and "keep_piece key a s = (out, s')"
    and "1 \<le> as_total a" and "as_total a \<le> MAX_CHUNKS" and "length (as_pieces a) = as_total a"
    and "received_bytes a \<le> MAX_ATTACHMENT_BYTES"
    and "held_bytes (drop_upload key s) (fst (snd key)) + received_bytes a \<le> MAX_SESSION_BYTES"
  shows "uploads_wf s'"
proof -
  have "held_bytes s' session \<le> MAX_SESSION_BYTES" for session
    using held_keep [OF assms(2)] assms(7) wf_drop [OF assms(1), of key] by (simp add: uploads_wf_def)
  moreover have "table_ok (up_partial s')"
    using assms(1,2) by (auto simp: keep_piece_def uploads_wf_def drop_upload_def Let_def split: if_splits)
  moreover have "assembly_wf x" if "map_of (up_partial s') k = Some x" for k x
  proof -
    have old: "map_of (up_partial s) k = Some x \<Longrightarrow> assembly_wf x"
      using assms(1) unfolding uploads_wf_def by blast
    have "\<not> assembly_complete a \<Longrightarrow> assembly_wf a" using assms(3-6) by (simp add: assembly_wf_def)
    with that assms(2) old show ?thesis
      by (auto simp: keep_piece_def drop_upload_def Let_def split: if_splits)
  qed
  ultimately show ?thesis by (simp add: uploads_wf_def)
qed

lemma wf_place:
  assumes "uploads_wf s" and "place_piece key a i b s = (r, s')"
    and "a = (case map_of (up_partial s) key of None \<Rightarrow> assembly_new n | Some a \<Rightarrow> a)"
    and "1 \<le> n" and "n \<le> MAX_CHUNKS" and "i < n" and "as_total a = n"
  shows "uploads_wf s'"
proof -
  have t: "table_ok (up_partial s)" using assms(1) by (simp add: uploads_wf_def)
  have len: "length (as_pieces a) = n"
  proof (cases "map_of (up_partial s) key")
    case None
    with assms(3) show ?thesis by (simp add: assembly_new_def)
  next
    case (Some x)
    with assms(1) have "assembly_wf x" unfolding uploads_wf_def by blast
    with Some assms(3,7) show ?thesis by (simp add: assembly_wf_def)
  qed
  define a' where "a' = a\<lparr>as_pieces := (as_pieces a)[i := Some b]\<rparr>"
  note eq = trans [OF place_unfold [OF t assms(3) _ a'_def, symmetric] assms(2)]
  show ?thesis
  proof (cases "received_bytes a' > MAX_ATTACHMENT_BYTES \<or>
      held_bytes (drop_upload key s) (fst (snd key)) + received_bytes a' > MAX_SESSION_BYTES")
    case True
    with eq assms(6) len have "s' = drop_upload key s" by (auto split: if_splits)
    with wf_drop [OF assms(1)] show ?thesis by simp
  next
    case False
    obtain out where "keep_piece key a' s = (out, s')"
      using eq False assms(6) len by (auto split: if_splits prod.splits)
    from wf_keep [OF assms(1) this] False assms(4,5,7) len show ?thesis by (simp add: a'_def)
  qed
qed

lemma accept_unfold:
  assumes "1 \<le> uc_total c" and "uc_total c \<le> MAX_CHUNKS" and "uc_index c < uc_total c"
    and "cx_unb64 cx (uc_data c) = Some b"
    and "a = (case map_of (up_partial s) (upload_key_of d c) of None \<Rightarrow> assembly_new (uc_total c) | Some a \<Rightarrow> a)"
  shows "upload_accept cx d c s =
    (if as_total a \<noteq> uc_total c then (Inl Contradicts, drop_upload (upload_key_of d c) s)
     else place_piece (upload_key_of d c) a (uc_index c) b s)"
  using assms(1-4) unfolding assms(5) by (simp add: upload_accept_def Let_def)

lemma wf_accept:
  assumes "uploads_wf s" and "upload_accept cx d c s = (r, s')"
  shows "uploads_wf s'"
proof (cases "uc_total c = 0 \<or> uc_total c > MAX_CHUNKS \<or> uc_index c \<ge> uc_total c \<or> cx_unb64 cx (uc_data c) = None")
  case True
  then show ?thesis using assms by (auto simp: upload_accept_def split: if_splits option.splits)
next
  case False
  then obtain b where b: "cx_unb64 cx (uc_data c) = Some b" by blast
  from False have range: "1 \<le> uc_total c" "uc_total c \<le> MAX_CHUNKS" "uc_index c < uc_total c" by auto
  define a where "a = (case map_of (up_partial s) (upload_key_of d c) of
      None \<Rightarrow> assembly_new (uc_total c) | Some a \<Rightarrow> a)"
  note eq = trans [OF accept_unfold [OF range b a_def, symmetric] assms(2)]
  show ?thesis
  proof (cases "as_total a = uc_total c")
    case True
    with eq have "place_piece (upload_key_of d c) a (uc_index c) b s = (r, s')" by simp
    from wf_place [OF assms(1) this a_def range True] show ?thesis .
  next
    case False
    with eq wf_drop [OF assms(1), of "upload_key_of d c"] show ?thesis by simp
  qed
qed

definition upload_step :: "uploads \<Rightarrow> uploads \<Rightarrow> bool" where
  "upload_step s t \<longleftrightarrow> (\<exists>cx d c r. upload_accept cx d c s = (r, t))"

lemma wf_new: "uploads_wf uploads_new"
  by (simp add: uploads_wf_def uploads_new_def held_bytes_def accepted_bytes_def MAX_SESSION_BYTES_def)

interpretation upload_table: transition_system "\<lambda>s. s = uploads_new" upload_step uploads_wf
  by unfold_locales (auto simp: wf_new upload_step_def intro: wf_accept)

text \<open>
  C36. The type of the upload table: whatever chunks arrive from whatever devices, every
  assembly in it has between 1 and 64 slots, exactly as many as its total, is not yet
  complete (so the checked index of a chunk is always in range and no finished file is
  delivered twice), and holds at most 5 MiB; and what one session has handed over and has
  in flight never exceeds 20 MiB.
\<close>

theorem uploads_stay_well_formed:
  assumes "upload_table.reach s"
  shows "(\<forall>key a. map_of (up_partial s) key = Some a \<longrightarrow>
      1 \<le> as_total a \<and> as_total a \<le> 64 \<and> length (as_pieces a) = as_total a \<and>
      \<not> assembly_complete a \<and> received_bytes a \<le> 5 * 1024 * 1024) \<and>
    (\<forall>session. held_bytes s session \<le> 20 * 1024 * 1024)"
  using upload_table.reach_inv [OF assms]
  by (auto simp: uploads_wf_def assembly_wf_def MAX_CHUNKS_def MAX_ATTACHMENT_BYTES_def MAX_SESSION_BYTES_def)

definition demo_chunk :: "nat \<Rightarrow> byte list \<Rightarrow> upload_chunk" where
  "demo_chunk i b = \<lparr>uc_session = lit ''s'', uc_name = lit ''f'', uc_index = i, uc_total = 2,
     uc_data = cx_b64 (demo_crypto (\<lambda>m. True)) b\<rparr>"

theorem uploads_stay_well_formed_witness:
  "\<exists>s. upload_table.reach s \<and> up_partial s \<noteq> [] \<and> (\<forall>session. held_bytes s session \<le> 20 * 1024 * 1024)"
proof -
  let ?t = "snd (upload_accept (demo_crypto (\<lambda>m. True)) (lit ''d'') (demo_chunk 1 [7]) uploads_new)"
  have "upload_step uploads_new ?t" unfolding upload_step_def by (metis prod.collapse)
  then have "upload_table.reach ?t"
    by (rule upload_table.reach_step [OF upload_table.reach_init, OF refl])
  moreover have "up_partial ?t \<noteq> []"
    by (simp add: upload_accept_def demo_chunk_def demo_crypto_def uploads_new_def MAX_CHUNKS_def
        upload_key_of_def assembly_new_def place_piece_def keep_piece_def received_bytes_def piece_len_def
        held_bytes_def accepted_bytes_def MAX_ATTACHMENT_BYTES_def MAX_SESSION_BYTES_def
        assembly_complete_def table_put_def numeral_2_eq_2 Let_def)
  ultimately show ?thesis using uploads_stay_well_formed by blast
qed

section \<open>Putting a file back together\<close>

definition file_chunk :: "crypto \<Rightarrow> rstr \<Rightarrow> rstr \<Rightarrow> byte list list \<Rightarrow> nat \<Rightarrow> upload_chunk" where
  "file_chunk cx session name ps i =
     \<lparr>uc_session = session, uc_name = name, uc_index = i, uc_total = length ps, uc_data = cx_b64 cx (ps ! i)\<rparr>"

fun feed_chunks ::
  "crypto \<Rightarrow> rstr \<Rightarrow> upload_chunk list \<Rightarrow> uploads \<Rightarrow> (upload_error + chunk_outcome) list \<times> uploads" where
  "feed_chunks cx d [] s = ([], s)"
| "feed_chunks cx d (c # cs) s =
     (case upload_accept cx d c s of (r, s1) \<Rightarrow> (case feed_chunks cx d cs s1 of (rs, s2) \<Rightarrow> (r # rs, s2)))"

definition part_of :: "byte list list \<Rightarrow> nat set \<Rightarrow> assembly" where
  "part_of ps S =
     \<lparr>as_total = length ps, as_pieces = map (\<lambda>j. if j \<in> S then Some (ps ! j) else None) [0..<length ps]\<rparr>"

lemma part_of_empty: "part_of ps {} = assembly_new (length ps)"
  by (simp add: part_of_def assembly_new_def map_replicate_const)

lemma part_of_insert:
  "i < length ps \<Longrightarrow> (part_of ps S)\<lparr>as_pieces := (as_pieces (part_of ps S))[i := Some (ps ! i)]\<rparr> = part_of ps (insert i S)"
  by (auto simp: part_of_def nth_list_update intro!: nth_equalityI)

lemma part_of_complete: "assembly_complete (part_of ps S) \<longleftrightarrow> {..<length ps} \<subseteq> S"
  by (auto simp: part_of_def assembly_complete_def list_all_iff split: if_splits)

lemma part_of_joined: "{..<length ps} \<subseteq> S \<Longrightarrow> assembly_joined (part_of ps S) = concat ps"
proof -
  assume "{..<length ps} \<subseteq> S"
  then have "map (\<lambda>p. case p of None \<Rightarrow> [] | Some b \<Rightarrow> b) (as_pieces (part_of ps S)) = map (\<lambda>j. ps ! j) [0..<length ps]"
    by (auto simp: part_of_def)
  then show ?thesis by (simp add: assembly_joined_def map_nth)
qed

lemma part_of_received: "received_bytes (part_of ps S) \<le> length (concat ps)"
proof -
  have "received_bytes (part_of ps S) = sum_list (map (\<lambda>j. if j \<in> S then length (ps ! j) else 0) [0..<length ps])"
    by (simp add: received_bytes_def part_of_def piece_len_def o_def if_distrib cong: if_cong)
  also have "\<dots> \<le> sum_list (map (\<lambda>j. length (ps ! j)) [0..<length ps])"
    by (rule sum_list_mono) simp
  also have "\<dots> = sum_list (map length (map (\<lambda>j. ps ! j) [0..<length ps]))" by (simp add: o_def)
  also have "\<dots> = length (concat ps)" by (simp only: map_nth length_concat)
  finally show ?thesis .
qed

lemma file_chunk_fields [simp]:
  "uc_index (file_chunk cx session name ps i) = i" "uc_total (file_chunk cx session name ps i) = length ps"
  "uc_data (file_chunk cx session name ps i) = cx_b64 cx (ps ! i)"
  "upload_key_of d (file_chunk cx session name ps i) = (d, session, name)"
  by (simp_all add: file_chunk_def upload_key_of_def)

definition part_stored :: "upload_key \<Rightarrow> byte list list \<Rightarrow> nat set \<Rightarrow> uploads \<Rightarrow> bool" where
  "part_stored key ps S s \<longleftrightarrow>
     table_ok (up_partial s) \<and>
     (case map_of (up_partial s) key of None \<Rightarrow> S = {} | Some a \<Rightarrow> a = part_of ps S)"

lemma accept_part:
  assumes "base64_ok cx" and "part_stored (d, session, name) ps S s" and "i < length ps" and "i \<notin> S"
    and "length ps \<le> 64" and "length (concat ps) \<le> MAX_ATTACHMENT_BYTES"
    and "held_bytes (drop_upload (d, session, name) s) session + length (concat ps) \<le> MAX_SESSION_BYTES"
  shows "upload_accept cx d (file_chunk cx session name ps i) s =
    (case keep_piece (d, session, name) (part_of ps (insert i S)) s of (out, s') \<Rightarrow> (Inr out, s'))"
proof -
  let ?key = "(d, session, name)"
  have a: "(case map_of (up_partial s) ?key of None \<Rightarrow> assembly_new (length ps) | Some a \<Rightarrow> a) = part_of ps S"
    using assms(2) by (auto simp: part_stored_def part_of_empty split: option.splits)
  have t: "table_ok (up_partial s)" using assms(2) by (simp add: part_stored_def)
  have place: "place_piece ?key (part_of ps S) i (ps ! i) s =
      (case keep_piece ?key (part_of ps (insert i S)) s of (out, s') \<Rightarrow> (Inr out, s'))"
    using place_unfold [OF t a [symmetric] _ part_of_insert [OF assms(3), symmetric]] assms(3,6,7)
      part_of_received [of ps "insert i S"]
    by (simp add: part_of_def)
  have "as_total (part_of ps S) = length ps" by (simp add: part_of_def)
  moreover have "cx_unb64 cx (uc_data (file_chunk cx session name ps i)) = Some (ps ! i)"
    using assms(1) by (simp add: base64_ok_def)
  moreover have "part_of ps S = (case map_of (up_partial s) (upload_key_of d (file_chunk cx session name ps i)) of
      None \<Rightarrow> assembly_new (uc_total (file_chunk cx session name ps i)) | Some a \<Rightarrow> a)"
    unfolding file_chunk_fields by (rule a [symmetric])
  ultimately have "upload_accept cx d (file_chunk cx session name ps i) s = place_piece ?key (part_of ps S) i (ps ! i) s"
    using accept_unfold [of "file_chunk cx session name ps i" cx "ps ! i" "part_of ps S" s d] assms(3,5)
    by (simp add: MAX_CHUNKS_def)
  then show ?thesis using place by (rule trans)
qed

lemma feed_parts:
  assumes "base64_ok cx" and "length ps \<le> 64" and "length (concat ps) \<le> MAX_ATTACHMENT_BYTES"
    and "js \<noteq> []" and "distinct js" and "set js \<inter> S = {}" and "set js \<union> S = {..<length ps}"
    and "part_stored (d, session, name) ps S s"
    and "held_bytes (drop_upload (d, session, name) s) session + length (concat ps) \<le> MAX_SESSION_BYTES"
  shows "\<exists>s'. feed_chunks cx d (map (file_chunk cx session name ps) js) s =
      (replicate (length js - 1) (Inr ChunkIncomplete) @ [Inr (ChunkComplete (concat ps))], s') \<and>
    map_of (up_partial s') (d, session, name) = None \<and>
    accepted_bytes s' session = accepted_bytes s session + length (concat ps)"
  using assms(4-9)
proof (induction js arbitrary: S s)
  case Nil
  then show ?case by simp
next
  case (Cons i js)
  let ?key = "(d, session, name)"
  have i: "i < length ps" "i \<notin> S" using Cons.prems by auto
  note acc = accept_part [OF assms(1) Cons.prems(5) i assms(2,3) Cons.prems(6)]
  show ?case
  proof (cases js)
    case Nil
    with Cons.prems have full: "{..<length ps} \<subseteq> insert i S" by auto
    with acc Nil show ?thesis
      by (simp add: keep_piece_def part_of_complete part_of_joined drop_upload_def accepted_bytes_def)
  next
    case (Cons j rest)
    with Cons.prems have more: "\<not> {..<length ps} \<subseteq> insert i S" by auto
    let ?s = "s\<lparr>up_partial := table_put ?key (part_of ps (insert i S)) (up_partial s)\<rparr>"
    have step: "upload_accept cx d (file_chunk cx session name ps i) s = (Inr ChunkIncomplete, ?s)"
      using acc more by (simp add: keep_piece_def part_of_complete)
    have "part_stored ?key ps (insert i S) ?s"
      using Cons.prems(5) by (simp add: part_stored_def)
    moreover have "held_bytes (drop_upload ?key ?s) session = held_bytes (drop_upload ?key s) session"
      by (simp add: held_bytes_def drop_upload_def accepted_bytes_def table_put_def delete_idem)
    moreover have "js \<noteq> []" "distinct js" "set js \<inter> insert i S = {}" "set js \<union> insert i S = {..<length ps}"
      using Cons Cons.prems(2-4) by auto
    ultimately obtain s' where s': "feed_chunks cx d (map (file_chunk cx session name ps) js) ?s =
        (replicate (length js - 1) (Inr ChunkIncomplete) @ [Inr (ChunkComplete (concat ps))], s')"
      "map_of (up_partial s') ?key = None"
      "accepted_bytes s' session = accepted_bytes ?s session + length (concat ps)"
      using Cons.IH [of "insert i S" ?s] Cons.prems(6) by auto
    have "replicate (length (i # js) - 1) x = x # replicate (length js - 1) x" for x :: "upload_error + chunk_outcome"
      using Cons by simp
    with s' step show ?thesis by (simp add: accepted_bytes_def)
  qed
qed

text \<open>
  C37. An upload is put back together in whatever order its chunks arrive: for a file cut
  into at most 64 pieces of at most 5 MiB altogether, with room left in the session and no
  upload of that name in progress, every chunk but the last to arrive is answered as
  received, and the last one yields exactly the file; nothing of it stays in the table and
  its size is added once to what the session has accepted.
\<close>

theorem upload_reassembles:
  assumes "base64_ok cx" and "ps \<noteq> []" and "length ps \<le> 64" and "length (concat ps) \<le> 5 * 1024 * 1024"
    and "distinct js" and "set js = {..<length ps}"
    and "uploads_wf s" and "map_of (up_partial s) (d, session, name) = None"
    and "held_bytes s session + length (concat ps) \<le> 20 * 1024 * 1024"
  shows "\<exists>s'. feed_chunks cx d (map (file_chunk cx session name ps) js) s =
      (replicate (length ps - 1) (Inr ChunkIncomplete) @ [Inr (ChunkComplete (concat ps))], s') \<and>
    map_of (up_partial s') (d, session, name) = None \<and>
    accepted_bytes s' session = accepted_bytes s session + length (concat ps)"
proof -
  have ne: "js \<noteq> []"
  proof
    assume "js = []"
    then have "{..<length ps} = {}" using assms(6) by simp
    then show False using assms(2) by (simp add: lessThan_empty_iff)
  qed
  have len: "length js = length ps" using distinct_card [OF assms(5)] assms(6) by simp
  have stored: "part_stored (d, session, name) ps {} s"
    using assms(7,8) by (simp add: part_stored_def uploads_wf_def)
  have room: "held_bytes (drop_upload (d, session, name) s) session + length (concat ps) \<le> MAX_SESSION_BYTES"
    using held_drop_le [of "(d, session, name)" s session] assms(9) by (simp add: MAX_SESSION_BYTES_def)
  have size: "length (concat ps) \<le> MAX_ATTACHMENT_BYTES" using assms(4) by (simp add: MAX_ATTACHMENT_BYTES_def)
  have "set js \<inter> {} = {}" "set js \<union> {} = {..<length ps}" using assms(6) by simp_all
  from feed_parts [OF assms(1,3) size ne assms(5) this stored room] show ?thesis unfolding len .
qed

theorem upload_reassembles_witness:
  "\<exists>s'. feed_chunks (demo_crypto (\<lambda>m. True)) (lit ''d'')
       (map (file_chunk (demo_crypto (\<lambda>m. True)) (lit ''s'') (lit ''f'') [[1], [2, 3]]) [1, 0]) uploads_new =
     ([Inr ChunkIncomplete, Inr (ChunkComplete [1, 2, 3])], s')"
  using upload_reassembles [OF demo_crypto_ok(2), of "[[1], [2, 3]]" "[1, 0]" uploads_new "lit ''d''" "lit ''s''" "lit ''f''"]
    wf_new
  by (auto simp: uploads_new_def held_bytes_def accepted_bytes_def lessThan_Suc numeral_2_eq_2)

section \<open>Slices of a fetched attachment\<close>

lemma fetch_slice_take: "fetch_slice blob i = take FETCH_CHUNK_BYTES (drop (i * FETCH_CHUNK_BYTES) blob)"
  by (auto simp: fetch_slice_def Let_def min_def)

lemma slices_prefix: "concat (map (fetch_slice blob) [0..<k]) = take (k * FETCH_CHUNK_BYTES) blob"
proof (induction k)
  case 0
  then show ?case by simp
next
  case (Suc k)
  have "concat (map (fetch_slice blob) [0..<Suc k]) =
      take (k * FETCH_CHUNK_BYTES) blob @ take FETCH_CHUNK_BYTES (drop (k * FETCH_CHUNK_BYTES) blob)"
    by (simp add: Suc.IH) (simp add: fetch_slice_take)
  also have "\<dots> = take (Suc k * FETCH_CHUNK_BYTES) blob"
    by (metis mult_Suc add.commute take_add)
  finally show ?case .
qed

lemma chunk_total_covers: "length blob \<le> fetch_chunk_total blob * FETCH_CHUNK_BYTES"
proof -
  have "length blob \<le> ((length blob + FETCH_CHUNK_BYTES - 1) div FETCH_CHUNK_BYTES) * FETCH_CHUNK_BYTES"
    using div_mult_mod_eq [of "length blob + FETCH_CHUNK_BYTES - 1" FETCH_CHUNK_BYTES]
      mod_less_divisor [of FETCH_CHUNK_BYTES "length blob + FETCH_CHUNK_BYTES - 1"]
    by (simp add: FETCH_CHUNK_BYTES_def)
  also have "\<dots> \<le> fetch_chunk_total blob * FETCH_CHUNK_BYTES"
    by (rule mult_le_mono1) (simp add: fetch_chunk_total_def)
  finally show ?thesis .
qed

lemma slices_rebuild: "concat (map (fetch_slice blob) [0..<fetch_chunk_total blob]) = blob"
  by (simp add: slices_prefix chunk_total_covers)

lemma slice_bounded: "length (fetch_slice blob i) \<le> FETCH_CHUNK_BYTES"
  by (simp add: fetch_slice_take)

end
