(* ===== verification/Remote_Devices_Correct.thy ===== *)
theory Remote_Devices_Correct
  imports Remote_Devices Interfaces
begin

text \<open>
  Revocation holds: from the moment another process revoked a device until the device is
  accepted again, no lookup of the agent that reads the device file trusts it, nor does any
  lookup after one that did.  The router answers like the registry it reads.
\<close>

section \<open>Revoked devices\<close>

definition refused_in :: "rstr \<Rightarrow> paired_device list \<Rightarrow> bool" where
  "refused_in d s \<longleftrightarrow> (\<forall>x. find (\<lambda>y. pd_device_id y = d) s = Some x \<longrightarrow> \<not> device_is_active x)"

definition refused_on_disk :: "rstr \<Rightarrow> device_state \<Rightarrow> bool" where
  "refused_on_disk d ds \<longleftrightarrow> (\<forall>s. ds_disk ds = Some s \<longrightarrow> refused_in d s)"

text \<open>
  What may happen to the agent's handle, and whether the agent has read the file since:
  its lookups, commands of other processes that pair other devices or revoke any, the file
  becoming unreadable, readable again, or vanishing, and a new start of the agent.
\<close>

inductive device_step :: "rstr \<Rightarrow> device_state \<times> bool \<Rightarrow> device_state \<times> bool \<Rightarrow> bool" for d :: rstr where
  lookup: "device_step d (ds, seen) (snd (key_for cx i claimed ds), seen \<or> ds_readable ds)"
| accept_other: "i \<noteq> d \<Longrightarrow> device_step d (ds, seen) (snd (cli_accept cx ok i key name scope at ds), seen)"
| revoke_any: "device_step d (ds, seen) (snd (cli_revoke ok i at ds), seen)"
| readability: "device_step d (ds, seen) (ds\<lparr>ds_readable := r\<rparr>, seen)"
| vanished: "device_step d (ds, seen) (ds\<lparr>ds_disk := None\<rparr>, seen)"
| restart: "load_devices (ds_disk ds) (ds_readable ds) = Some ds' \<Longrightarrow> device_step d (ds, seen) (ds', True)"

definition just_revoked :: "rstr \<Rightarrow> device_state \<times> bool \<Rightarrow> bool" where
  "just_revoked d x \<longleftrightarrow> (\<exists>ds0 at. cli_revoke True d at ds0 = (Some (Some True), fst x)) \<and> \<not> snd x"

definition stays_revoked :: "rstr \<Rightarrow> device_state \<times> bool \<Rightarrow> bool" where
  "stays_revoked d x \<longleftrightarrow> refused_on_disk d (fst x) \<and> (snd x \<longrightarrow> refused_in d (ds_cached (fst x)))"

lemma refused_none [simp]: "refused_in d []"
  by (simp add: refused_in_def)

lemma refused_read: "refused_on_disk d ds \<Longrightarrow> read_device_store ds = Some s \<Longrightarrow> refused_in d s"
  by (auto simp: refused_on_disk_def read_device_store_def split: if_splits option.splits)

lemma current_disk [simp]:
  "ds_disk (snd (current_devices ds)) = ds_disk ds" "ds_readable (snd (current_devices ds)) = ds_readable ds"
  by (simp_all add: current_devices_def split: option.split)

lemma readable_read: "ds_readable ds \<Longrightarrow> \<exists>s. read_device_store ds = Some s"
  by (simp add: read_device_store_def)

lemma refused_current:
  assumes "stays_revoked d (ds, seen)" and "seen \<or> ds_readable ds"
  shows "refused_in d (fst (current_devices ds)) \<and> refused_in d (ds_cached (snd (current_devices ds)))"
  using assms readable_read [of ds] refused_read [of d ds]
  by (auto simp: current_devices_def stays_revoked_def split: option.splits)

lemma find_append: "find P (xs @ ys) = (case find P xs of None \<Rightarrow> find P ys | Some x \<Rightarrow> Some x)"
  by (induction xs) auto

lemma find_filter_same: "(\<And>x. P x \<Longrightarrow> Q x) \<Longrightarrow> find P (filter Q xs) = find P xs"
  by (induction xs) auto

lemma refused_pair_other:
  assumes "refused_in d s" and "pd_device_id x \<noteq> d" and "i \<noteq> d"
  shows "refused_in d (filter (\<lambda>y. pd_device_id y \<noteq> i) s @ [x])"
proof -
  have "find (\<lambda>y. pd_device_id y = d) (filter (\<lambda>y. pd_device_id y \<noteq> i) s) = find (\<lambda>y. pd_device_id y = d) s"
    using assms(3) by (intro find_filter_same) auto
  then show ?thesis using assms by (auto simp: refused_in_def find_append split: option.splits)
qed

lemma refused_in_Cons:
  "refused_in d (x # s) \<longleftrightarrow> (if pd_device_id x = d then \<not> device_is_active x else refused_in d s)"
  by (simp add: refused_in_def)

lemma refused_mark: "refused_in d s \<Longrightarrow> mark_revoked i at s = Some s' \<Longrightarrow> refused_in d s'"
proof (induction s arbitrary: s')
  case Nil
  then show ?case by simp
next
  case (Cons x s)
  show ?case
  proof (cases "pd_device_id x = i")
    case True
    with Cons.prems have "s' = x\<lparr>pd_revoked_at := Some at\<rparr> # s" by simp
    with Cons.prems(1) show ?thesis by (simp add: refused_in_Cons device_is_active_def split: if_splits)
  next
    case False
    with Cons.prems(2) obtain r where r: "mark_revoked i at s = Some r" "s' = x # r" by auto
    show ?thesis
    proof (cases "pd_device_id x = d")
      case True
      with Cons.prems(1) r show ?thesis by (simp add: refused_in_Cons)
    next
      case False
      with Cons.prems(1) Cons.IH [OF _ r(1)] r show ?thesis by (simp add: refused_in_Cons)
    qed
  qed
qed

lemma marked_refused: "mark_revoked d at s = Some s' \<Longrightarrow> refused_in d s'"
proof (induction s arbitrary: s')
  case Nil
  then show ?case by simp
next
  case (Cons x s)
  then show ?case by (auto simp: refused_in_Cons device_is_active_def split: if_splits)
qed

text \<open>The handle of another process.\<close>

lemma load_devicesD:
  "load_devices disk r = Some h \<Longrightarrow>
     r \<and> ds_disk h = disk \<and> ds_readable h = r \<and> ds_cached h = (case disk of None \<Rightarrow> [] | Some s \<Rightarrow> s)"
  by (auto simp: load_devices_def read_device_store_def split: if_splits)

lemma loaded_current:
  assumes "load_devices disk r = Some h"
  shows "current_devices h = (ds_cached h, h)"
  using load_devicesD [OF assms] by (simp add: current_devices_def read_device_store_def)

lemma loaded_refused:
  assumes "refused_on_disk d ds" and "load_devices (ds_disk ds) (ds_readable ds) = Some h"
  shows "refused_in d (ds_cached h)" and "refused_on_disk d h"
  using assms(1) load_devicesD [OF assms(2)] by (auto simp: refused_on_disk_def split: option.splits)

lemma refused_persist:
  "refused_in d s \<Longrightarrow> refused_on_disk d ds \<Longrightarrow> refused_on_disk d (snd (persist_devices ok s ds))"
  by (simp add: refused_on_disk_def persist_devices_def)

lemma other_process_disk:
  assumes "refused_on_disk d ds"
    and "\<And>h. load_devices (ds_disk ds) (ds_readable ds) = Some h \<Longrightarrow> refused_on_disk d (snd (f h))"
  shows "refused_on_disk d (snd (other_process f ds))"
    and "ds_cached (snd (other_process f ds)) = ds_cached ds"
  using assms by (auto simp: other_process_def refused_on_disk_def split: option.splits prod.splits)

lemma accept_disk:
  assumes "refused_on_disk d ds" and "load_devices (ds_disk ds) (ds_readable ds) = Some h" and "i \<noteq> d"
  shows "refused_on_disk d (snd (accept_device cx ok i key name scope at h))"
  unfolding accept_device_def loaded_current [OF assms(2)] prod.case
  by (rule refused_persist [OF refused_pair_other loaded_refused(2) [OF assms(1,2)]])
    (use loaded_refused(1) [OF assms(1,2)] assms(3) in simp_all)

lemma revoke_disk:
  assumes "refused_on_disk d ds" and "load_devices (ds_disk ds) (ds_readable ds) = Some h"
  shows "refused_on_disk d (snd (revoke_device ok i at h))"
proof (cases "mark_revoked i at (ds_cached h)")
  case None
  then show ?thesis using loaded_refused(2) [OF assms] by (simp add: revoke_device_def loaded_current [OF assms(2)])
next
  case (Some s')
  then show ?thesis
    using refused_persist [OF refused_mark [OF loaded_refused(1) [OF assms] Some] loaded_refused(2) [OF assms], of ok]
    by (simp add: revoke_device_def loaded_current [OF assms(2)] case_prod_unfold)
qed

lemma stays_step:
  assumes "stays_revoked d x" and "device_step d x y"
  shows "stays_revoked d y"
  using assms(2)
proof cases
  case (lookup ds seen cx i claimed)
  have "stays_revoked d (snd (current_devices ds), seen \<or> ds_readable ds)"
    using refused_current [of d ds seen] assms(1) lookup(1) by (auto simp: stays_revoked_def refused_on_disk_def)
  then show ?thesis using lookup by (simp add: key_for_def case_prod_unfold)
next
  case (accept_other i ds seen cx ok key name scope at)
  then have "refused_on_disk d ds" using assms(1) by (simp add: stays_revoked_def)
  from other_process_disk [OF this accept_disk [OF this _ accept_other(3)]] accept_other assms(1)
  show ?thesis by (simp add: cli_accept_def stays_revoked_def)
next
  case (revoke_any ds seen ok i at)
  then have "refused_on_disk d ds" using assms(1) by (simp add: stays_revoked_def)
  from other_process_disk [OF this revoke_disk [OF this]] revoke_any assms(1)
  show ?thesis by (simp add: cli_revoke_def stays_revoked_def)
next
  case (restart ds ds' seen)
  then have "refused_on_disk d ds" using assms(1) by (simp add: stays_revoked_def)
  from loaded_refused [OF this restart(3)] restart show ?thesis by (simp add: stays_revoked_def)
qed (use assms(1) in \<open>auto simp: stays_revoked_def refused_on_disk_def\<close>)

lemma just_revoked_stays:
  assumes "just_revoked d x"
  shows "stays_revoked d x"
proof -
  obtain ds0 at where r: "cli_revoke True d at ds0 = (Some (Some True), fst x)" and unseen: "\<not> snd x"
    using assms by (auto simp: just_revoked_def)
  then obtain h h' where h: "load_devices (ds_disk ds0) (ds_readable ds0) = Some h"
    "revoke_device True d at h = (Some True, h')"
    and x: "fst x = ds0\<lparr>ds_disk := ds_disk h', ds_readable := ds_readable h'\<rparr>"
    by (auto simp: cli_revoke_def other_process_def split: option.splits prod.splits)
  from x have disk: "ds_disk (fst x) = ds_disk h'" by simp
  then obtain s' where m: "mark_revoked d at (ds_cached h) = Some s'" "ds_disk h' = Some s'"
    using h(2) by (auto simp: revoke_device_def loaded_current [OF h(1)] persist_devices_def split: option.splits)
  then show ?thesis using marked_refused [OF m(1)] unseen disk by (simp add: stays_revoked_def refused_on_disk_def)
qed

interpretation revoked: transition_system "just_revoked d" "device_step d" "stays_revoked d" for d
  by unfold_locales (auto intro: just_revoked_stays stays_step)

lemma key_for_refused:
  assumes "stays_revoked d (ds, seen)" and "seen \<or> ds_readable ds"
  shows "\<exists>e. fst (key_for cx d claimed ds) = Inl e"
proof -
  have "refused_in d (fst (current_devices ds))" using refused_current [OF assms] by blast
  then show ?thesis
    by (auto simp: key_for_def trust_of_def refused_in_def split: option.splits prod.splits)
qed

text \<open>
  Until the agent has read the device file again, a revocation rests on the file.  When
  another process revokes a device the agent's copy still trusts, and the file then cannot
  be read or parsed, every lookup of the agent goes on to hand out the device's key.
\<close>

theorem unreadable_file_serves_revoked:
  assumes "cli_revoke True d at ds0 = (Some (Some True), ds)"
    and "find (\<lambda>x. pd_device_id x = d) (ds_cached ds0) = Some dev" and "device_is_active dev"
    and "key_from_base64url cx (pd_pubkey_b64 dev) = Inr key"
  shows "fst (key_for cx d None (ds\<lparr>ds_readable := False\<rparr>)) = Inr (key, pd_scope dev)"
proof -
  have "ds_cached ds = ds_cached ds0"
    using assms(1) by (auto simp: cli_revoke_def other_process_def split: option.splits prod.splits)
  then show ?thesis
    using assms(2-4) by (simp add: key_for_def current_devices_def read_device_store_def trust_of_def)
qed

section \<open>The router\<close>

text \<open>A connection kept is the answer; a new one is attempted only when none is kept.\<close>

lemma router_runtime_known:
  "fst (router_runtime e i r) = Inl UnknownProject \<longleftrightarrow> i \<notin> fst ` set (router_entries e r)"
proof (cases "find (\<lambda>(j, repo, display). j = i) (router_entries e r)")
  case None
  then have "\<forall>x \<in> set (router_entries e r). fst x \<noteq> i" by (auto simp: find_None_iff)
  with None show ?thesis by (auto simp: router_runtime_def)
next
  case (Some x)
  then have "x \<in> set (router_entries e r)" "fst x = i"
    by (auto simp: find_Some_iff in_set_conv_nth)
  then have "i \<in> fst ` set (router_entries e r)" by (metis image_eqI)
  moreover have "fst (router_runtime e i r) \<noteq> Inl UnknownProject"
    using Some by (cases x) (auto simp: router_runtime_def router_attach_def split: option.splits)
  ultimately show ?thesis by simp
qed

lemma implied_is_only:
  "router_implied e r = Inr i \<longleftrightarrow> (\<exists>repo d. router_entries e r = [(i, repo, d)])"
  by (auto simp: router_implied_def split: list.splits)

end
