(* ===== verification/Remote_Bridge_Correct.thy ===== *)
theory Remote_Bridge_Correct
  imports Remote_Bridge Remote_Uploads_Correct Remote_Devices_Correct
begin

text \<open>
  What reaches a runtime through the bridge: only what an active, interactive device of
  this host signed and the capability gate allows; nothing of a revoked device; and, where
  the code leaves a gap, a session with full access without the host's opt-in.
\<close>

section \<open>Authentication\<close>

lemma authenticateD:
  assumes "authenticate env b frame now claimed s = (Inr (payload, scope), s1)"
  obtains dev key where
    "find (\<lambda>d. pd_device_id d = se_sender_id frame) (fst (current_devices (ag_devices s))) = Some dev"
    and "device_is_active dev" and "pd_scope dev = scope"
    and "key_from_base64url (ae_crypto env) (pd_pubkey_b64 dev) = Inr key"
    and "verify_envelope (ae_crypto env)
           \<lparr>vp_recipient = br_runtime_id b, vp_key = key, vp_now = now\<rparr> frame = Inr payload"
    and "s1 = s\<lparr>ag_devices := snd (current_devices (ag_devices s))\<rparr>"
  using assms
  by (auto simp: authenticate_def proceed_def trusted_key_def key_for_def trust_of_def from_result_def
      yields_def split: prod.splits sum.splits option.splits if_splits)

lemma authenticate_world:
  "authenticate env b frame now claimed s = (r, s1) \<Longrightarrow> ag_world s1 = ag_world s \<and> ag_uploads s1 = ag_uploads s"
  by (auto simp: authenticate_def proceed_def trusted_key_def from_result_def yields_def
      split: prod.splits sum.splits)

lemma authenticate_refused:
  assumes "stays_revoked (se_sender_id frame) (ag_devices s, seen)" and "seen \<or> ds_readable (ag_devices s)"
  shows "\<exists>e s1. authenticate env b frame now claimed s = (Inl (AdTrust e), s1) \<and>
    ag_world s1 = ag_world s \<and> ag_uploads s1 = ag_uploads s"
proof -
  obtain r ds where k: "key_for (ae_crypto env) (se_sender_id frame) claimed (ag_devices s) = (r, ds)"
    by (cases "key_for (ae_crypto env) (se_sender_id frame) claimed (ag_devices s)")
  with key_for_refused [OF assms, of "ae_crypto env" claimed] obtain e where "r = Inl e" by auto
  with k show ?thesis by (simp add: authenticate_def proceed_def trusted_key_def)
qed

text \<open>
  C16. Revocation takes effect on the next frame.  After another process revoked a device,
  and whatever happened since (lookups of the agent, other devices paired or revoked, the
  device file unreadable, readable again, or gone, the agent restarted) short of pairing
  that device again, no session frame and no RPC of it gets past the device store, and
  neither the runtimes nor the uploads are touched, whenever the agent can read the file
  then or has read it since the revocation.
\<close>

theorem revoked_device_is_refused:
  assumes "revoked.reach d (ag_devices s, seen)" and "seen \<or> ds_readable (ag_devices s)"
    and "se_sender_id frame = d"
  shows "(\<exists>e s1. admit_upstream env b project frame now claimed s = (Inl (AdTrust e), s1) \<and>
      ag_world s1 = ag_world s) \<and>
    (\<exists>e s1. handle_rpc env b frame now claimed s = (Inl (AdTrust e), s1) \<and>
      ag_world s1 = ag_world s \<and> ag_uploads s1 = ag_uploads s)"
proof -
  have "stays_revoked (se_sender_id frame) (ag_devices s, seen)"
    using revoked.reach_inv [OF assms(1)] assms(3) by simp
  from authenticate_refused [OF this assms(2)] obtain e s1 where
    "authenticate env b frame now claimed s = (Inl (AdTrust e), s1)" "ag_world s1 = ag_world s"
    "ag_uploads s1 = ag_uploads s" by metis
  then show ?thesis by (simp add: admit_upstream_def handle_rpc_def proceed_def)
qed

definition demo_device :: paired_device where
  "demo_device = \<lparr>pd_device_id = lit ''d'', pd_pubkey_b64 = replicate 32 1009, pd_fingerprint = [],
     pd_name = [], pd_scope = Interactive, pd_paired_at = [], pd_revoked_at = None\<rparr>"

definition demo_store :: device_state where
  "demo_store = \<lparr>ds_disk = Some [demo_device], ds_readable = True, ds_cached = []\<rparr>"

section \<open>What a device may send\<close>

text \<open>The commands that stay on the host, by what they would reach.\<close>

definition host_local_tags :: "rstr list" where
  "host_local_tags =
     [\<comment> \<open>local files and the clipboard\<close>
      lit ''add_attachment'', lit ''add_attachment_data'', lit ''add_clipboard_image'',
      \<comment> \<open>the host's configuration and lifecycle\<close>
      lit ''set_default_model'', lit ''reload_config'', lit ''shutdown_when_idle'', lit ''force_retire'',
      lit ''quit'', lit ''acknowledge_crash_window'',
      \<comment> \<open>shells\<close>
      lit ''run_user_shell'', lit ''background_user_shell'', lit ''cancel_user_shell'',
      lit ''cancel_background_task'',
      \<comment> \<open>session management and history\<close>
      lit ''delete_session'', lit ''delete_session_for'', lit ''rename_session'', lit ''archive_session'',
      lit ''fork_session'', lit ''restore_checkpoint'', lit ''query_global_tasks'',
      lit ''query_session_history'', lit ''list_foreign_sessions_for'', lit ''import_foreign_session'',
      \<comment> \<open>repository content and local metadata\<close>
      lit ''query_observability'', lit ''query_context'', lit ''query_usage'', lit ''query_child_contribution'',
      lit ''list_unfinished_goals'', lit ''recap'', lit ''request_prompt_suggestion'',
      lit ''request_away_summary'',
      \<comment> \<open>agents and schedules\<close>
      lit ''list_agents'', lit ''get_agent'', lit ''create_agent'', lit ''update_agent'', lit ''delete_agent'',
      lit ''manage_schedule'']"

definition remote_may :: "bool \<Rightarrow> 'x wire_command \<Rightarrow> bool" where
  "remote_may full c \<longleftrightarrow>
     command_tag c \<notin> set host_local_tags \<and>
     (\<forall>i d. c = C_ApprovalDecision i d \<longrightarrow> d \<noteq> WD_ApproveProject \<and> d \<noteq> WD_ApproveAlways) \<and>
     (\<forall>i m. c = C_SetPermissionProfile i m \<longrightarrow> m = WP_FullAccess \<longrightarrow> full)"

lemma decision_allowed: "evaluate_decision d = RemoteAllow \<longleftrightarrow> d \<noteq> WD_ApproveProject \<and> d \<noteq> WD_ApproveAlways"
  by (cases d) simp_all

lemma profile_allowed: "evaluate_profile full m = RemoteAllow \<longleftrightarrow> (m = WP_FullAccess \<longrightarrow> full)"
  by (cases m) simp_all

lemma gate_exact: "evaluate_interactive full c = RemoteAllow \<longleftrightarrow> remote_may full c"
  by (cases c) (simp_all add: remote_may_def host_local_tags_def decision_allowed profile_allowed deny_command_def)

lemma gate_scope:
  "evaluate_remote p c = RemoteAllow \<longleftrightarrow> rp_scope p = Interactive \<and> remote_may (rp_allow_full_access p) c"
  by (cases "rp_scope p") (simp_all add: evaluate_remote_def deny_command_def gate_exact)

section \<open>What reaches a runtime\<close>

text \<open>The world after one delivery to the project's runtime, if there is one.\<close>

definition world_after_delivery ::
  "('w, 'rt, 'x, 'j) agent_env \<Rightarrow> rstr \<Rightarrow> 'x command_envelope \<Rightarrow> 'w \<Rightarrow> 'w" where
  "world_after_delivery env project e w =
     (case ae_runtime env project w of
        (Inl x, w1) \<Rightarrow> w1
      | (Inr rt, w1) \<Rightarrow> snd (ae_deliver env rt e w1))"

lemma record_audit_world [simp]: "ag_world (record_audit b ev s) = ag_world s"
  by (simp add: record_audit_def)

lemma deliver_world:
  "ag_world (snd (deliver_command env project i session c v s)) =
     world_after_delivery env project
       \<lparr>ce_command_id = i, ce_session_id = session, ce_expected_version = v,
        ce_issued_at = ae_clock env (ag_world s), ce_command = c\<rparr> (ag_world s)"
  by (auto simp: deliver_command_def proceed_def runtime_of_def on_world_def world_after_delivery_def
      split: prod.split sum.split)

lemma judge_allowed:
  assumes "evaluate_remote \<lparr>rp_scope = scope, rp_allow_full_access = br_allow_full_access b\<rparr> c = RemoteAllow"
  shows "ag_world (snd (judge_command env b project d scope i session c v s)) =
    ag_world (snd (deliver_command env project i session c v s))"
  using assms
  by (simp add: judge_command_def proceed_def Let_def split: prod.split sum.split)

lemma judge_denied:
  assumes "evaluate_remote \<lparr>rp_scope = scope, rp_allow_full_access = br_allow_full_access b\<rparr> c \<noteq> RemoteAllow"
  shows "\<exists>code reason. fst (judge_command env b project d scope i session c v s) = Inl (AdRefused code reason) \<and>
    ag_world (snd (judge_command env b project d scope i session c v s)) = ag_world s"
  using assms by (simp add: judge_command_def Let_def split: remote_verdict.split)

fun delivery_of :: "'x upstream_message \<Rightarrow> (rstr \<times> rstr \<times> 'x wire_command \<times> int option) option" where
  "delivery_of (Deliver i session c v) = Some (i, session, c, v)"
| "delivery_of (DeliverVersionedSettings i session c v) = Some (i, session, c, v)"
| "delivery_of (SnapshotRequest session) = None"

lemma valid_delivery:
  "validate_setting_delivery m = Inr () \<Longrightarrow> delivery_of m = Some (i, session, c, v) \<Longrightarrow>
     (requires_snapshot_version c \<longrightarrow> v \<noteq> None)"
  by (cases m) (auto simp: setting_delivery_ok_def split: if_splits)

lemma admit_message_judged:
  "delivery_of m = Some (i, session, c, v) \<Longrightarrow>
     admit_message env b project d scope m = judge_command env b project d scope i session c v"
  by (cases m) (auto simp: admit_message_def)

lemma admit_upstream_effect:
  assumes "admit_upstream env b project frame now claimed s = (r, s')"
    and "ag_world s' \<noteq> ag_world s \<or> (\<exists>i d. r = Inr (Delivered i d))"
  obtains payload scope s1 m i session c v where
    "authenticate env b frame now claimed s = (Inr (payload, scope), s1)"
    and "ae_upstream env payload = Some m" and "validate_setting_delivery m = Inr ()"
    and "delivery_of m = Some (i, session, c, v)"
    and "judge_command env b project (se_sender_id frame) scope i session c v s1 = (r, s')"
proof (cases "authenticate env b frame now claimed s")
  case (Pair a s1)
  then have w: "ag_world s1 = ag_world s" by (simp add: authenticate_world)
  show ?thesis
  proof (cases a)
    case (Inl e)
    with Pair assms w show ?thesis by (auto simp: admit_upstream_def proceed_def)
  next
    case (Inr ps)
    obtain payload scope where ps: "ps = (payload, scope)" by (cases ps)
    show ?thesis
    proof (cases "ae_upstream env payload")
      case None
      with Pair Inr ps assms w show ?thesis by (auto simp: admit_upstream_def proceed_def needing_def)
    next
      case (Some m)
      show ?thesis
      proof (cases "validate_setting_delivery m")
        case (Inl e)
        with Pair Inr ps Some assms w show ?thesis
          by (auto simp: admit_upstream_def proceed_def needing_def from_result_def)
      next
        case v: (Inr u)
        with Pair Inr ps Some assms(1)
        have adm: "admit_message env b project (se_sender_id frame) scope m s1 = (r, s')"
          by (simp add: admit_upstream_def proceed_def needing_def from_result_def)
        show ?thesis
        proof (cases "delivery_of m")
          case None
          with adm assms(2) w show ?thesis by (cases m) (auto simp: admit_message_def yields_def)
        next
          case (Some dlv)
          obtain i session c ver where dlv: "dlv = (i, session, c, ver)" by (cases dlv)
          from Some dlv adm admit_message_judged
          have "judge_command env b project (se_sender_id frame) scope i session c ver s1 = (r, s')" by metis
          with that Pair Inr ps \<open>ae_upstream env payload = Some m\<close> v Some dlv show ?thesis by simp
        qed
      qed
    qed
  qed
qed

text \<open>
  C3. Nothing reaches a runtime through the tunnel unless every check passed: if admitting
  a frame changed anything behind the bridge, or was answered as delivered, then the
  frame's sender is paired on this host, active and interactive; the envelope verifies
  under the key the host stored for it, for this runtime and now; it carries a command the
  remote gate allows (none of the host-local ones, no standing approval, full access only
  with the host's own opt-in) and, for a setting, an observed version; and all that
  happened is that this command was handed to the runtime of the stream's project.
\<close>

theorem remote_delivery_is_authorized:
  assumes "admit_upstream env b project frame now claimed s = (r, s')"
    and "ag_world s' \<noteq> ag_world s \<or> (\<exists>i d. r = Inr (Delivered i d))"
  shows "\<exists>dev key payload m i session c v.
    find (\<lambda>d. pd_device_id d = se_sender_id frame) (fst (current_devices (ag_devices s))) = Some dev \<and>
    pd_revoked_at dev = None \<and> pd_scope dev = Interactive \<and>
    key_from_base64url (ae_crypto env) (pd_pubkey_b64 dev) = Inr key \<and>
    verify_envelope (ae_crypto env)
      \<lparr>vp_recipient = br_runtime_id b, vp_key = key, vp_now = now\<rparr> frame = Inr payload \<and>
    ae_upstream env payload = Some m \<and> delivery_of m = Some (i, session, c, v) \<and>
    remote_may (br_allow_full_access b) c \<and> (requires_snapshot_version c \<longrightarrow> v \<noteq> None) \<and>
    ag_world s' = world_after_delivery env project
      \<lparr>ce_command_id = i, ce_session_id = session, ce_expected_version = v,
       ce_issued_at = ae_clock env (ag_world s), ce_command = c\<rparr> (ag_world s)"
proof -
  obtain payload scope s1 m i session c v where
    a: "authenticate env b frame now claimed s = (Inr (payload, scope), s1)"
    and m: "ae_upstream env payload = Some m" "validate_setting_delivery m = Inr ()"
      "delivery_of m = Some (i, session, c, v)"
    and j: "judge_command env b project (se_sender_id frame) scope i session c v s1 = (r, s')"
    by (rule admit_upstream_effect [OF assms])
  have w: "ag_world s1 = ag_world s" using authenticate_world [OF a] by simp
  have ok: "evaluate_remote \<lparr>rp_scope = scope, rp_allow_full_access = br_allow_full_access b\<rparr> c = RemoteAllow"
  proof (rule ccontr)
    assume "evaluate_remote \<lparr>rp_scope = scope, rp_allow_full_access = br_allow_full_access b\<rparr> c \<noteq> RemoteAllow"
    from judge_denied [OF this, of env project "se_sender_id frame" i session v s1] j w assms(2)
    show False by auto
  qed
  have world: "ag_world s' = world_after_delivery env project
      \<lparr>ce_command_id = i, ce_session_id = session, ce_expected_version = v,
       ce_issued_at = ae_clock env (ag_world s), ce_command = c\<rparr> (ag_world s)"
    using judge_allowed [OF ok, of env project "se_sender_id frame" i session v s1] j
    by (simp add: deliver_world w)
  from ok have "scope = Interactive" "remote_may (br_allow_full_access b) c" by (simp_all add: gate_scope)
  with m valid_delivery [OF m(2,3)] world authenticateD [OF a] show ?thesis
    by (simp add: device_is_active_def) metis
qed

section \<open>A small host\<close>

text \<open>Its world is the log of what reached the runtime.\<close>

type_synonym demo_log = "unit wire_command list \<times> create_session_request list"

definition demo_request :: create_session_request where
  "demo_request = \<lparr>cs_request_id = None, cs_workspace = RuntimeDefault, cs_goal = [], cs_model = None,
     cs_mode = WP_FullAccess, cs_approval = AP_Interactive, cs_collaboration = CM_Goal\<rparr>"

definition demo_host :: "(demo_log, unit, unit, create_session_request) agent_env" where
  "demo_host =
     \<lparr>ae_crypto = demo_crypto (\<lambda>m. True),
      ae_projects = (\<lambda>w. ([\<lparr>pi_id = lit ''p'', pi_display = [], pi_status = ProjectOnline\<rparr>], w)),
      ae_runtime = (\<lambda>i w. (if i = lit ''p'' then Inr () else Inl UnknownProject, w)),
      ae_implied = (\<lambda>w. (Inr (lit ''p''), w)),
      ae_deliver = (\<lambda>rt e w. (Inr (), (fst w @ [ce_command e], snd w))),
      ae_create = (\<lambda>rt c w. (Inr c, (fst w, snd w @ [c]))),
      ae_snapshot = (\<lambda>rt i w. (Inr demo_request, w)),
      ae_fetch = (\<lambda>rt sha w. (Inr ([], []), w)),
      ae_events = (\<lambda>rt i w. ([], w)),
      ae_clock = (\<lambda>w. []),
      ae_upstream = (\<lambda>p. if p = [7] then Some (Deliver (lit ''c'') (lit ''s'') (C_CancelTask (lit ''s'')) None) else None),
      ae_request = (\<lambda>p. if p = [7] then Some \<lparr>rq_method = CreateSession, rq_project = None, rq_body = demo_request\<rparr> else None),
      ae_create_request = Some, ae_session_of = (\<lambda>j. None), ae_chunk_of = (\<lambda>j. None), ae_fetch_of = (\<lambda>j. None),
      ae_json = (\<lambda>j. Some []), ae_projects_json = (\<lambda>ps. Some []), ae_received_json = (\<lambda>i. Some []),
      ae_fetch_json = (\<lambda>r. Some [])\<rparr>"

definition demo_bridge :: bridge where
  "demo_bridge = \<lparr>br_runtime_id = lit ''r'', br_key = [5], br_allow_full_access = False, br_audited = True\<rparr>"

definition demo_agent :: "demo_log agent" where
  "demo_agent = \<lparr>ag_world = ([], []), ag_devices = demo_store, ag_uploads = uploads_new, ag_audit = []\<rparr>"

definition demo_command_frame :: signed_envelope where
  "demo_command_frame = demo_signed_by (replicate 32 9)"

lemma demo_authenticates:
  "authenticate demo_host demo_bridge demo_command_frame (lit ''120'') None demo_agent =
     (Inr ([7], Interactive), demo_agent\<lparr>ag_devices := demo_store\<lparr>ds_cached := [demo_device]\<rparr>\<rparr>)"
proof -
  have "key_for (demo_crypto (\<lambda>m. True)) (lit ''d'') None demo_store =
      (Inr (replicate 32 9, Interactive), demo_store\<lparr>ds_cached := [demo_device]\<rparr>)"
    by (simp add: key_for_def current_devices_def read_device_store_def trust_of_def demo_store_def
        demo_device_def device_is_active_def key_from_base64url_def demo_crypto_def list_all_iff)
  moreover have "se_sender_id demo_command_frame = lit ''d''"
    by (simp add: demo_command_frame_def demo_signed_by_def demo_frame_def)
  ultimately show ?thesis
    using demo_verifies [of "\<lambda>m. True" "replicate 32 9"]
    by (simp add: authenticate_def proceed_def trusted_key_def from_result_def yields_def demo_host_def
        demo_agent_def demo_bridge_def demo_command_frame_def)
qed

lemma demo_admits:
  "admit_upstream demo_host demo_bridge (lit ''p'') demo_command_frame (lit ''120'') None demo_agent =
     (Inr (Delivered (lit ''c'') (se_sender_id demo_command_frame)),
      snd (admit_upstream demo_host demo_bridge (lit ''p'') demo_command_frame (lit ''120'') None demo_agent))"
  by (simp add: admit_upstream_def proceed_def [of "authenticate demo_host demo_bridge demo_command_frame (lit ''120'') None"]
      demo_authenticates)
     (simp add: proceed_def needing_def from_result_def demo_host_def setting_delivery_ok_def
      requires_snapshot_version_def SNAPSHOT_VERSIONED_COMMANDS_def admit_message_def judge_command_def
      evaluate_remote_def demo_bridge_def deliver_command_def runtime_of_def on_world_def Let_def)

theorem remote_delivery_is_authorized_witness:
  "\<exists>s'. admit_upstream demo_host demo_bridge (lit ''p'') demo_command_frame (lit ''120'') None demo_agent =
      (Inr (Delivered (lit ''c'') (se_sender_id demo_command_frame)), s') \<and>
    (\<exists>i session c v. ag_world s' = world_after_delivery demo_host (lit ''p'')
      \<lparr>ce_command_id = i, ce_session_id = session, ce_expected_version = v,
       ce_issued_at = ae_clock demo_host (ag_world demo_agent), ce_command = c\<rparr> (ag_world demo_agent))"
  using remote_delivery_is_authorized [OF demo_admits] demo_admits by blast

text \<open>The device is revoked, the agent looks one frame up, and then the file is lost.\<close>

theorem revoked_device_is_refused_witness:
  "\<exists>e s1. admit_upstream demo_host demo_bridge (lit ''p'') demo_frame (lit ''120'') None
      \<lparr>ag_world = ([], []), ag_devices =
         (snd (key_for (demo_crypto (\<lambda>m. True)) (lit ''d'') None
            (snd (cli_revoke True (lit ''d'') (lit ''t'') demo_store))))\<lparr>ds_readable := False\<rparr>,
       ag_uploads = uploads_new, ag_audit = []\<rparr> = (Inl (AdTrust e), s1)"
proof -
  let ?ds = "snd (cli_revoke True (lit ''d'') (lit ''t'') demo_store)"
  let ?seen = "snd (key_for (demo_crypto (\<lambda>m. True)) (lit ''d'') None ?ds)"
  have c: "cli_revoke True (lit ''d'') (lit ''t'') demo_store = (Some (Some True), ?ds)" "ds_readable ?ds"
    by (simp_all add: cli_revoke_def other_process_def load_devices_def revoke_device_def demo_store_def
        demo_device_def current_devices_def read_device_store_def persist_devices_def)
  then have "just_revoked (lit ''d'') (?ds, False)" unfolding just_revoked_def by fastforce
  from revoked.reach_step [OF revoked.reach_init [OF this] device_step.lookup
      [of _ _ _ "demo_crypto (\<lambda>m. True)" "lit ''d''" None]] c(2)
  have "revoked.reach (lit ''d'') (?seen, True)" by simp
  from revoked.reach_step [OF this device_step.readability [of _ _ _ False]]
  have r: "revoked.reach (lit ''d'') (?seen\<lparr>ds_readable := False\<rparr>, True)" .
  have f: "se_sender_id demo_frame = lit ''d''" by (simp add: demo_frame_def)
  show ?thesis
    using revoked_device_is_refused [of "lit ''d''" "\<lparr>ag_world = ([], []), ag_devices = ?seen\<lparr>ds_readable := False\<rparr>,
       ag_uploads = uploads_new, ag_audit = []\<rparr>" True demo_frame demo_host demo_bridge "lit ''p''" "lit ''120''" None] r f
    by auto
qed

theorem unreadable_file_serves_revoked_witness:
  "\<exists>ds. cli_revoke True (lit ''d'') (lit ''t'') (demo_store\<lparr>ds_cached := [demo_device]\<rparr>) = (Some (Some True), ds) \<and>
     fst (key_for (demo_crypto (\<lambda>m. True)) (lit ''d'') None (ds\<lparr>ds_readable := False\<rparr>))
       = Inr (replicate 32 9, Interactive)"
proof -
  let ?s = "demo_store\<lparr>ds_cached := [demo_device]\<rparr>"
  have c: "cli_revoke True (lit ''d'') (lit ''t'') ?s
      = (Some (Some True), snd (cli_revoke True (lit ''d'') (lit ''t'') ?s))"
    by (simp add: cli_revoke_def other_process_def load_devices_def revoke_device_def demo_store_def
        demo_device_def current_devices_def read_device_store_def persist_devices_def)
  have "find (\<lambda>x. pd_device_id x = lit ''d'') (ds_cached ?s) = Some demo_device"
    and "device_is_active demo_device"
    and "key_from_base64url (demo_crypto (\<lambda>m. True)) (pd_pubkey_b64 demo_device) = Inr (replicate 32 9)"
    by (simp_all add: demo_device_def device_is_active_def key_from_base64url_def demo_crypto_def list_all_iff)
  from unreadable_file_serves_revoked [OF c this] c show ?thesis
    by (intro exI [of _ "snd (cli_revoke True (lit ''d'') (lit ''t'') ?s)"]) (simp add: demo_device_def)
qed

section \<open>RPCs\<close>

text \<open>
  The answer of an RPC is bound to its request: whatever the method, a response the
  agent sends is the runtime's own envelope, addressed to the device that asked, on the
  stream id and with the sequence number of the request, and it verifies there under the
  runtime's public key, at every time within the window of its timestamp, so that no relay
  can author it or pair it with another request.
\<close>

theorem rpc_answer_is_bound:
  assumes "handle_rpc env b frame now claimed s = (Inr e, s')"
    and "base64_ok (ae_crypto env)" and "signatures_ok (ae_crypto env)"
    and "cx_time (ae_crypto env) now = Some t" and "cx_time (ae_crypto env) later = Some u"
    and "\<bar>u - t\<bar> \<le> 120"
  shows "se_sender e = SenderRuntime \<and> se_sender_id e = br_runtime_id b \<and>
    se_recipient_id e = se_sender_id frame \<and> se_stream_id e = se_stream_id frame \<and>
    se_seq e = se_seq frame \<and> se_content_type e = RpcResponseContent \<and>
    (\<exists>body. verify_envelope (ae_crypto env)
       \<lparr>vp_recipient = se_sender_id frame, vp_key = verifying_key (ae_crypto env) (br_key b), vp_now = later\<rparr> e =
       Inr body)"
proof -
  obtain body where sg: "sign_envelope (ae_crypto env) (br_key b) SenderRuntime (br_runtime_id b)
      (se_sender_id frame) (se_stream_id frame) (se_seq frame) now RpcResponseContent body = Inr e"
    using assms(1)
    by (auto simp: handle_rpc_def proceed_def from_result_def refuses_def
        split: prod.splits sum.splits if_splits)
  from signed_verifies [OF sg assms(2-6)] sg show ?thesis
    by (auto simp: sign_envelope_def Let_def split: sum.splits)
qed

text \<open>
  The gap of session creation: the gate refuses a device that asks for the full-access
  profile on a host that has not opted in, but an interactive device that creates a session
  with that profile is not asked.  The request reaches the runtime as it is, and the
  daemon's boundary, which only looks at the approval policy, lets it through unchanged.
\<close>

theorem full_access_without_opt_in:
  assumes "authenticate env b frame now claimed s = (Inr (payload, Interactive), s1)"
    and "ae_request env payload = Some rq" and "rq_method rq = CreateSession"
    and "ae_create_request env (rq_body rq) = Some create"
    and "cs_mode create = WP_FullAccess" and "cs_approval create = AP_Interactive"
    and "runtime_for env (rq_project rq) s1 = (Inr rt, s2)" and "\<not> br_allow_full_access b"
  shows "ag_world (snd (handle_rpc env b frame now claimed s)) = snd (ae_create env rt create (ag_world s2)) \<and>
    daemon_create_session True RemoteClient create = Inr create \<and>
    evaluate_remote \<lparr>rp_scope = Interactive, rp_allow_full_access = br_allow_full_access b\<rparr>
      (C_SetPermissionProfile session (cs_mode create)) \<noteq> RemoteAllow"
proof -
  have "ag_world (snd (rpc_create_session env rq s1)) = snd (ae_create env rt create (ag_world s2))"
    using assms(4,7)
    by (simp add: rpc_create_session_def proceed_def needing_def on_world_def encoded_def
        split: prod.split sum.split)
  moreover have "ag_world (snd (handle_rpc env b frame now claimed s)) = ag_world (snd (rpc_create_session env rq s1))"
    using assms(1-3) by (simp add: handle_rpc_def proceed_def needing_def from_result_def split: prod.split sum.split)
  moreover have "daemon_create_session True RemoteClient create = Inr create"
    using assms(6) by (simp add: daemon_create_session_def effective_kind_def)
  ultimately show ?thesis using assms(5,8) by (simp add: gate_scope remote_may_def)
qed

theorem full_access_without_opt_in_witness:
  "ag_world (snd (handle_rpc demo_host demo_bridge demo_command_frame (lit ''120'') None demo_agent)) =
     ([], [demo_request]) \<and> \<not> br_allow_full_access demo_bridge \<and> cs_mode demo_request = WP_FullAccess"
proof -
  let ?rq = "\<lparr>rq_method = CreateSession, rq_project = None, rq_body = demo_request\<rparr>"
  let ?s = "demo_agent\<lparr>ag_devices := demo_store\<lparr>ds_cached := [demo_device]\<rparr>\<rparr>"
  have 1: "ae_request demo_host [7] = Some ?rq" "ae_create_request demo_host (rq_body ?rq) = Some demo_request"
    by (simp_all add: demo_host_def)
  have 2: "cs_mode demo_request = WP_FullAccess" "cs_approval demo_request = AP_Interactive"
    by (simp_all add: demo_request_def)
  have 3: "runtime_for demo_host (rq_project ?rq) ?s = (Inr (), ?s)"
    by (simp add: runtime_for_def proceed_def on_world_def runtime_of_def demo_host_def)
  have 4: "\<not> br_allow_full_access demo_bridge" by (simp add: demo_bridge_def)
  have "rq_method ?rq = CreateSession" by simp
  from full_access_without_opt_in [OF demo_authenticates 1(1) this 1(2) 2 3 4, of "[]"]
  have "ag_world (snd (handle_rpc demo_host demo_bridge demo_command_frame (lit ''120'') None demo_agent)) =
      snd (ae_create demo_host () demo_request (ag_world ?s))" by (rule conjunct1)
  also have "\<dots> = ([], [demo_request])" by (simp add: demo_host_def demo_agent_def)
  finally show ?thesis using 2 4 by simp
qed

text \<open>
  A fetched attachment is given back whole: for one of at most 5 MiB every chunk index
  below the announced total is answered with at most 512 KiB, every other index is refused,
  there are at most ten chunks, and the decoded chunks in order are the attachment.
\<close>

theorem fetched_attachment_rebuilds:
  assumes "base64_ok cx" and "length bytes \<le> 5 * 1024 * 1024"
  shows "\<exists>frs. map (\<lambda>i. fetch_answer cx sha i (mime, bytes)) [0..<fetch_chunk_total bytes] = map Inr frs \<and>
    concat (map (\<lambda>f. the (cx_unb64 cx (fr_data f))) frs) = bytes \<and>
    (\<forall>f \<in> set frs. fr_total f = fetch_chunk_total bytes \<and> fr_size f = length bytes \<and>
       length (the (cx_unb64 cx (fr_data f))) \<le> 512 * 1024) \<and>
    (\<forall>i \<ge> fetch_chunk_total bytes. fetch_answer cx sha i (mime, bytes) = Inl AdMalformed) \<and>
    1 \<le> fetch_chunk_total bytes \<and> fetch_chunk_total bytes \<le> 10"
proof -
  let ?f = "\<lambda>i. \<lparr>fr_sha256 = sha, fr_mime = mime, fr_size = length bytes, fr_index = i,
     fr_total = fetch_chunk_total bytes, fr_data = cx_b64 cx (fetch_slice bytes i)\<rparr>"
  have "fetch_chunk_total bytes \<le> 10"
  proof -
    have "(length bytes + FETCH_CHUNK_BYTES - 1) div FETCH_CHUNK_BYTES \<le>
        (5 * 1024 * 1024 + FETCH_CHUNK_BYTES - 1) div FETCH_CHUNK_BYTES"
      using assms(2) by (intro div_le_mono) simp
    then show ?thesis by (simp add: fetch_chunk_total_def FETCH_CHUNK_BYTES_def)
  qed
  moreover have "map (\<lambda>i. fetch_answer cx sha i (mime, bytes)) [0..<fetch_chunk_total bytes] =
      map Inr (map ?f [0..<fetch_chunk_total bytes])"
    using assms(2) by (simp add: fetch_answer_def MAX_ATTACHMENT_BYTES_def)
  moreover have "concat (map (\<lambda>f. the (cx_unb64 cx (fr_data f))) (map ?f [0..<fetch_chunk_total bytes])) = bytes"
    using assms(1) slices_rebuild [of bytes] by (simp add: base64_ok_def o_def)
  moreover have "\<forall>i \<ge> fetch_chunk_total bytes. fetch_answer cx sha i (mime, bytes) = Inl AdMalformed"
    using assms(2) by (simp add: fetch_answer_def MAX_ATTACHMENT_BYTES_def)
  moreover have "\<forall>f \<in> set (map ?f [0..<fetch_chunk_total bytes]). fr_total f = fetch_chunk_total bytes \<and>
      fr_size f = length bytes \<and> length (the (cx_unb64 cx (fr_data f))) \<le> 512 * 1024"
    using assms(1) slice_bounded [of bytes] by (auto simp: base64_ok_def FETCH_CHUNK_BYTES_def)
  ultimately show ?thesis by (intro exI [of _ "map ?f [0..<fetch_chunk_total bytes]"]) (auto simp: fetch_chunk_total_def)
qed

theorem fetched_attachment_rebuilds_witness:
  "\<exists>frs. map (\<lambda>i. fetch_answer (demo_crypto (\<lambda>m. True)) [] i ([], [1, 2])) [0..<fetch_chunk_total [1, 2]] = map Inr frs \<and>
    concat (map (\<lambda>f. the (cx_unb64 (demo_crypto (\<lambda>m. True)) (fr_data f))) frs) = [1, 2]"
proof -
  have "length [1, 2 :: nat] \<le> 5 * 1024 * 1024" by simp
  from fetched_attachment_rebuilds [OF demo_crypto_ok(2) this] show ?thesis by blast
qed

theorem rpc_answer_is_bound_witness:
  "\<exists>e s'. handle_rpc demo_host demo_bridge demo_command_frame (lit ''120'') None demo_agent = (Inr e, s') \<and>
    se_recipient_id e = lit ''d'' \<and> se_seq e = 1"
proof -
  let ?E = "\<lparr>se_v = 1, se_sender = SenderRuntime, se_sender_id = lit ''r'', se_recipient_id = lit ''d'',
      se_stream_id = lit ''s'', se_seq = 1, se_ts = lit ''120'', se_content_type = RpcResponseContent,
      se_payload_b64 = [], se_sig_b64 = []\<rparr>"
  obtain c where "canonical_string (demo_crypto (\<lambda>m. True)) ?E = Inr c"
    by (simp add: canonical_string_def demo_crypto_def ENVELOPE_VERSION_def id_is_valid_def parse_timestamp_def
        envelope_payload_def id_byte_def is_ascii_alphanumeric_def is_ascii_lower_def is_ascii_digit_def
        utf8_encode_def utf8_char_def utf8_len_def lit_def)
  moreover have "cx_b64 (demo_crypto (\<lambda>m. True)) [] = []" by (simp add: demo_crypto_def)
  ultimately have "sign_envelope (demo_crypto (\<lambda>m. True)) [5] SenderRuntime (lit ''r'') (lit ''d'') (lit ''s'') 1
      (lit ''120'') RpcResponseContent [] =
      Inr (?E\<lparr>se_sig_b64 := cx_b64 (demo_crypto (\<lambda>m. True)) (cx_sign (demo_crypto (\<lambda>m. True)) [5] (utf8_encode c))\<rparr>)"
    by (simp add: sign_envelope_def Let_def ENVELOPE_VERSION_def)
  then obtain e where e: "sign_envelope (demo_crypto (\<lambda>m. True)) [5] SenderRuntime (lit ''r'') (lit ''d'') (lit ''s'') 1
      (lit ''120'') RpcResponseContent [] = Inr e" by blast
  have f: "se_sender_id demo_command_frame = lit ''d''" "se_stream_id demo_command_frame = lit ''s''"
    "se_seq demo_command_frame = 1"
    by (simp_all add: demo_command_frame_def demo_signed_by_def demo_frame_def)
  have "\<exists>s'. handle_rpc demo_host demo_bridge demo_command_frame (lit ''120'') None demo_agent = (Inr e, s')"
    by (simp add: handle_rpc_def proceed_def [of "authenticate demo_host demo_bridge demo_command_frame (lit ''120'') None"]
        demo_authenticates)
       (simp add: proceed_def needing_def from_result_def demo_host_def rpc_create_session_def runtime_for_def
        on_world_def runtime_of_def encoded_def f e [unfolded One_nat_def] demo_bridge_def)
  then obtain s' where h: "handle_rpc demo_host demo_bridge demo_command_frame (lit ''120'') None demo_agent = (Inr e, s')"
    by blast
  have t: "cx_time (ae_crypto demo_host) (lit ''120'') = Some 120"
    by (simp add: demo_host_def demo_crypto_def lit_def is_ascii_digit_def)
  have ok: "base64_ok (ae_crypto demo_host)" "signatures_ok (ae_crypto demo_host)"
    by (simp_all add: demo_host_def demo_crypto_ok demo_signatures_ok)
  from rpc_answer_is_bound [OF h ok t t] h f show ?thesis by auto
qed

end
