(* ===== verification/Remote_Tunnel_Correct.thy ===== *)
theory Remote_Tunnel_Correct
  imports Remote_Tunnel Remote_Bridge_Correct
begin

text \<open>
  The tunnel's bookkeeping: an approval is denied by the host only after a full window in
  which nobody at the machine could have answered it, the presence a project's watch reads
  counts the streams opened for interactive devices on it, and what is written down about a refused frame.
\<close>

section \<open>The window of an automatic denial\<close>

datatype watch_label =
    WL_Event watch_event
  | WL_Tick "client_error + nat" nat "rstr \<Rightarrow> nat \<times> nat"

text \<open>What a watch holds after the events and ticks it has seen.\<close>

inductive watched :: "nat \<Rightarrow> watch_label list \<Rightarrow> (rstr \<times> countdown) list \<Rightarrow> bool" for timeout where
  watch_start: "watched timeout [] []"
| watch_ev: "watched timeout h p \<Longrightarrow> watched timeout (h @ [WL_Event ev]) (watch_observe ev p)"
| watch_tk: "watched timeout h p \<Longrightarrow>
    watched timeout (h @ [WL_Tick l r clock]) (snd (watch_tick l r timeout clock p))"

definition remote_only :: "client_error + nat \<Rightarrow> nat \<Rightarrow> bool" where
  "remote_only l r \<longleftrightarrow> local_waiters l = 0 \<and> r > 0"

text \<open>
  Since the tick that armed it nothing but remote-only ticks were seen, and no event about
  the approval.
\<close>

definition undisturbed :: "rstr \<Rightarrow> watch_label list \<Rightarrow> bool" where
  "undisturbed i h \<longleftrightarrow>
     (\<forall>l r clock. WL_Tick l r clock \<in> set h \<longrightarrow> remote_only l r) \<and>
     WL_Event (ApprovalRequested i) \<notin> set h \<and> WL_Event (ApprovalResolved i) \<notin> set h"

definition counting :: "nat \<Rightarrow> watch_label list \<Rightarrow> rstr \<Rightarrow> nat \<Rightarrow> bool" where
  "counting timeout h i at \<longleftrightarrow>
     (\<exists>h1 l r clock h2. h = h1 @ WL_Tick l r clock # h2 \<and> at = fst (clock i) + timeout \<and>
        remote_only l r \<and> undisturbed i h2)"

definition countdown_ok :: "nat \<Rightarrow> watch_label list \<Rightarrow> rstr \<Rightarrow> countdown \<Rightarrow> bool" where
  "countdown_ok timeout h i c \<longleftrightarrow>
     \<not> ts_resolved (cd_state c) \<and> (ts_armed (cd_state c) \<longleftrightarrow> cd_deadline c \<noteq> None) \<and>
     (\<forall>at. cd_deadline c = Some at \<longrightarrow> counting timeout h i at)"

lemma undisturbed_snoc:
  "undisturbed i (h @ [x]) \<longleftrightarrow> undisturbed i h \<and> undisturbed i [x]"
  by (auto simp: undisturbed_def)

lemma counting_snoc: "counting timeout h i at \<Longrightarrow> undisturbed i [x] \<Longrightarrow> counting timeout (h @ [x]) i at"
  unfolding counting_def by (metis append.assoc append_Cons undisturbed_snoc)

lemma counting_armed:
  "remote_only l r \<Longrightarrow> counting timeout (h @ [WL_Tick l r clock]) i (fst (clock i) + timeout)"
  unfolding counting_def by (force simp: undisturbed_def)

lemma tick_ok:
  assumes "countdown_ok timeout h i c"
  shows "countdown_ok timeout (h @ [WL_Tick l r clock]) i
    (countdown_tick \<lparr>wt_local = local_waiters l, wt_remote = r\<rparr> timeout (fst (clock i)) (snd (clock i)) c)"
proof (cases "remote_only l r")
  case True
  then have "undisturbed i [WL_Tick l r clock]" by (simp add: undisturbed_def)
  with assms True counting_armed [OF True] show ?thesis
    by (auto simp: countdown_ok_def countdown_tick_def observe_waiters_def timer_to_def remote_only_def
        intro: counting_snoc)
next
  case False
  with assms show ?thesis
    by (auto simp: countdown_ok_def countdown_tick_def observe_waiters_def timer_to_def remote_only_def)
qed

lemma event_ok:
  assumes "countdown_ok timeout h i c" and "ev \<noteq> ApprovalRequested i" and "ev \<noteq> ApprovalResolved i"
  shows "countdown_ok timeout (h @ [WL_Event ev]) i c"
  using assms by (auto simp: countdown_ok_def undisturbed_def intro!: counting_snoc)

lemma new_ok: "countdown_ok timeout h i countdown_new"
  by (simp add: countdown_ok_def countdown_new_def timeout_state_new_def)

lemma set_delete: "(k, v) \<in> set (AList.delete i p) \<longleftrightarrow> (k, v) \<in> set p \<and> k \<noteq> i"
  by (auto simp: AList.delete_eq)

lemma watched_ok: "watched timeout h p \<Longrightarrow> (i, c) \<in> set p \<Longrightarrow> countdown_ok timeout h i c"
proof (induction arbitrary: i c rule: watched.induct)
  case watch_start
  then show ?case by simp
next
  case (watch_ev h p ev)
  then show ?case
    by (cases ev) (auto simp: watch_observe_def table_put_def set_delete new_ok intro: event_ok)
next
  case (watch_tk h p l r clock)
  then show ?case by (auto simp: watch_tick_def Let_def intro: tick_ok)
qed

text \<open>
  C25. The host answers for nobody who could: when a tick finds an approval due, there was
  an earlier (or this) tick with a remote stream attached and no local client, since which
  the full timeout has passed, and at every tick from then on the only clients were remote
  (a count the daemon would not give counts as somebody local), the approval having been
  neither raised anew nor resolved in between.
\<close>

theorem auto_denial_needs_full_window:
  assumes "watched timeout h p" and "watch_tick l r timeout clock p = (ids, p')" and "i \<in> set ids"
  shows "\<exists>h1 l0 r0 clock0 h2.
    h @ [WL_Tick l r clock] = h1 @ WL_Tick l0 r0 clock0 # h2 \<and>
    fst (clock0 i) + timeout \<le> snd (clock i) \<and> remote_only l0 r0 \<and> undisturbed i h2"
proof -
  from assms(2,3) obtain c where c: "(i, c) \<in> set p"
    and d: "countdown_due (snd (clock i))
      (countdown_tick \<lparr>wt_local = local_waiters l, wt_remote = r\<rparr> timeout (fst (clock i)) (snd (clock i)) c)"
    by (auto simp: watch_tick_def Let_def)
  from tick_ok [OF watched_ok [OF assms(1) c], of l r clock] d
  obtain at where "counting timeout (h @ [WL_Tick l r clock]) i at" "at \<le> snd (clock i)"
    by (auto simp: countdown_ok_def countdown_due_def split: option.splits)
  then show ?thesis unfolding counting_def by blast
qed

theorem auto_denial_needs_full_window_witness:
  "\<exists>p p'. watched 5 [WL_Event (ApprovalRequested [1]), WL_Tick (Inr 0) 1 (\<lambda>i. (10, 10))] p \<and>
     watch_tick (Inr 0) 1 5 (\<lambda>i. (15, 15)) p = ([[1]], p') \<and>
     (\<exists>h1 l0 r0 clock0 h2.
        [WL_Event (ApprovalRequested [1]), WL_Tick (Inr 0) 1 (\<lambda>i. (10, 10))] @ [WL_Tick (Inr 0) 1 (\<lambda>i. (15, 15))] =
          h1 @ WL_Tick l0 r0 clock0 # h2 \<and>
        fst (clock0 [1]) + 5 \<le> (15 :: nat) \<and> remote_only l0 r0 \<and> undisturbed [1] h2)"
proof -
  let ?p = "[([1], countdown_new)] :: (rstr \<times> countdown) list"
  have "watched 5 ([] @ [WL_Event (ApprovalRequested [1])]) (watch_observe (ApprovalRequested [1]) [])"
    by (rule watch_ev [OF watch_start])
  then have "watched 5 [WL_Event (ApprovalRequested [1])] ?p"
    by (simp add: watch_observe_def table_put_def)
  from watch_tk [OF this, of "Inr 0" 1 "\<lambda>i. (10, 10)"]
  have w: "watched 5 [WL_Event (ApprovalRequested [1]), WL_Tick (Inr 0) 1 (\<lambda>i. (10, 10))]
      (snd (watch_tick (Inr 0) 1 5 (\<lambda>i. (10, 10)) ?p))" by simp
  have t: "watch_tick (Inr 0) 1 5 (\<lambda>i. (15, 15)) (snd (watch_tick (Inr 0) 1 5 (\<lambda>i. (10, 10)) ?p)) = ([[1]], [])"
    by (simp add: watch_tick_def countdown_tick_def observe_waiters_def timer_to_def countdown_new_def
        timeout_state_new_def local_waiters_def countdown_due_def)
  from auto_denial_needs_full_window [OF w t, of "[1]"] w t show ?thesis by auto
qed

section \<open>Presence\<close>

definition holds :: "nat \<Rightarrow> rstr \<times> stream_state \<Rightarrow> nat" where
  "holds i x = (if st_presence (snd x) = Some i then 1 else 0)"

definition holders :: "tunnel \<Rightarrow> nat \<Rightarrow> nat" where
  "holders t i = table_sum (holds i) (tn_streams t)"

lemma cell_update:
  "j \<noteq> i \<Longrightarrow> tn_cells (update_cell i f t) ! j = tn_cells t ! j"
  "length (tn_cells (update_cell i f t)) = length (tn_cells t)"
  "tn_watches (update_cell i f t) = tn_watches t"
  "tn_streams (update_cell i f t) = tn_streams t"
  by (simp_all add: update_cell_def)

lemma holders_cells [simp]: "holders (update_cell i f t) j = holders t j"
  by (simp add: holders_def update_cell_def)

text \<open>
  The invariant, with at most one hold \<open>x\<close> that is counted although no stream in the table
  has it: the one of a stream about to be inserted or released.
\<close>

definition presence_inv :: "nat option \<Rightarrow> tunnel \<Rightarrow> bool" where
  "presence_inv x t \<longleftrightarrow>
     table_ok (tn_streams t) \<and>
     (\<forall>p i. tn_watches t p = Some i \<longrightarrow> i < length (tn_cells t) \<and>
        pr_streams (tn_cells t ! i) = holders t i + (if x = Some i then 1 else 0) \<and>
        0 < pr_streams (tn_cells t ! i)) \<and>
     (\<forall>p q i. tn_watches t p = Some i \<longrightarrow> tn_watches t q = Some i \<longrightarrow> p = q) \<and>
     (\<forall>sid st i. map_of (tn_streams t) sid = Some st \<longrightarrow> st_presence st = Some i \<longrightarrow>
        tn_watches t (st_project st) = Some i)"

lemma presence_invD:
  assumes "presence_inv x t"
  shows "table_ok (tn_streams t)"
    and "\<And>p i. tn_watches t p = Some i \<Longrightarrow> i < length (tn_cells t)"
    and "\<And>p i. tn_watches t p = Some i \<Longrightarrow>
      pr_streams (tn_cells t ! i) = holders t i + (if x = Some i then 1 else 0)"
    and "\<And>p i. tn_watches t p = Some i \<Longrightarrow> 0 < pr_streams (tn_cells t ! i)"
    and "\<And>p q i. tn_watches t p = Some i \<Longrightarrow> tn_watches t q = Some i \<Longrightarrow> p = q"
    and "\<And>sid st i. map_of (tn_streams t) sid = Some st \<Longrightarrow> st_presence st = Some i \<Longrightarrow>
      tn_watches t (st_project st) = Some i"
  using assms unfolding presence_inv_def by blast+

lemma presence_invI:
  assumes "table_ok (tn_streams t)"
    and "\<And>p i. tn_watches t p = Some i \<Longrightarrow> i < length (tn_cells t) \<and>
      pr_streams (tn_cells t ! i) = holders t i + (if x = Some i then 1 else 0) \<and>
      0 < pr_streams (tn_cells t ! i)"
    and "\<And>p q i. tn_watches t p = Some i \<Longrightarrow> tn_watches t q = Some i \<Longrightarrow> p = q"
    and "\<And>sid st i. map_of (tn_streams t) sid = Some st \<Longrightarrow> st_presence st = Some i \<Longrightarrow>
      tn_watches t (st_project st) = Some i"
  shows "presence_inv x t"
  unfolding presence_inv_def using assms by blast

lemma no_holders:
  assumes "table_ok (tn_streams t)"
    and "\<And>sid st. map_of (tn_streams t) sid = Some st \<Longrightarrow> st_presence st \<noteq> Some i"
  shows "holders t i = 0"
proof -
  have "\<forall>x \<in> set (tn_streams t). holds i x = 0"
    using assms by (auto simp: holds_def table_ok_def dest: map_of_is_SomeI)
  then show ?thesis by (simp add: holders_def table_sum_def sum_list_eq_0_iff)
qed

lemma attach_inv:
  assumes "presence_inv None t" and "attach_presence ok p t = (x, t')"
  shows "presence_inv x t' \<and> tn_streams t' = tn_streams t \<and> (\<forall>i. x = Some i \<longrightarrow> tn_watches t' p = Some i)"
proof (cases "tn_watches t p")
  case (Some i)
  with assms(2) have eq: "x = Some i" "t' = update_cell i presence_attach t"
    by (simp_all add: attach_presence_def)
  note D = presence_invD [OF assms(1)]
  show ?thesis
    using Some D(1) D(2) D(3) D(4) D(5) D(6)
    by (auto simp: eq presence_inv_def update_cell_def presence_attach_def holders_def nth_list_update)
next
  case None
  note D = presence_invD [OF assms(1)]
  show ?thesis
  proof (cases ok)
    case False
    with None assms show ?thesis by (auto simp: attach_presence_def)
  next
    case True
    let ?n = "length (tn_cells t)"
    have fresh: "tn_watches t q \<noteq> Some ?n" for q using D(2) [of q ?n] by auto
    then have "holders t ?n = 0" using D(1) D(6) by (intro no_holders) blast+
    moreover have eq: "x = Some ?n" "t' = update_cell ?n presence_attach (start_watch p t)"
      using True None assms(2) by (auto simp: attach_presence_def start_watch_def)
    ultimately have h0: "holders t ?n = 0" and x: "x = Some ?n"
      and st: "tn_streams t' = tn_streams t"
      and ws: "tn_watches t' = (tn_watches t)(p := Some ?n)"
      and hs: "\<And>i. holders t' i = holders t i"
      and ln: "length (tn_cells t') = Suc ?n"
      and new: "pr_streams (tn_cells t' ! ?n) = 1"
      and old: "\<And>i. i < ?n \<Longrightarrow> tn_cells t' ! i = tn_cells t ! i"
      by (simp_all add: update_cell_def presence_attach_def start_watch_def holders_def nth_append
          presence_new_def)
    have "presence_inv x t'"
    proof (rule presence_invI)
      show "table_ok (tn_streams t')" using D(1) st by simp
    next
      fix q i assume q: "tn_watches t' q = Some i"
      show "i < length (tn_cells t') \<and>
          pr_streams (tn_cells t' ! i) = holders t' i + (if x = Some i then 1 else 0) \<and>
          0 < pr_streams (tn_cells t' ! i)"
      proof (cases "q = p")
        case True
        with q ws have "i = ?n" by simp
        then show ?thesis using ln new hs x h0 by simp
      next
        case False
        with q ws have w: "tn_watches t q = Some i" by simp
        have l: "i < ?n" by (rule D(2) [OF w])
        show ?thesis using l ln old [OF l] hs [of i] x D(3) [OF w] D(4) [OF w] by simp
      qed
    next
      fix q r i assume "tn_watches t' q = Some i" "tn_watches t' r = Some i"
      then show "q = r" using ws fresh D(5) by (auto split: if_splits)
    next
      fix sid st' i assume "map_of (tn_streams t') sid = Some st'" and "st_presence st' = Some i"
      then have "tn_watches t (st_project st') = Some i" using st D(6) by simp
      then show "tn_watches t' (st_project st') = Some i" using ws None by auto
    qed
    with st ws x show ?thesis by simp
  qed
qed

lemma holders_put:
  "holders (t\<lparr>tn_streams := table_put sid st (tn_streams t)\<rparr>) i =
     (if st_presence st = Some i then 1 else 0) + table_sum (holds i) (AList.delete sid (tn_streams t))"
  by (simp add: holders_def holds_def)

lemma holders_split:
  assumes "table_ok (tn_streams t)"
  shows "holders t i = (case map_of (tn_streams t) sid of None \<Rightarrow> 0
      | Some st \<Rightarrow> if st_presence st = Some i then 1 else 0) +
    table_sum (holds i) (AList.delete sid (tn_streams t))"
proof (cases "map_of (tn_streams t) sid")
  case None
  then show ?thesis by (simp add: holders_def table_sum_absent)
next
  case (Some st)
  from table_sum_split [OF assms this] Some show ?thesis by (simp add: holders_def holds_def)
qed

text \<open>The hold of the stream a key had.\<close>

definition hold_at :: "rstr \<Rightarrow> tunnel \<Rightarrow> nat option" where
  "hold_at sid t = (case map_of (tn_streams t) sid of None \<Rightarrow> None | Some st \<Rightarrow> st_presence st)"

lemma put_inv:
  assumes "presence_inv (st_presence st) t"
    and "\<And>i. st_presence st = Some i \<Longrightarrow> tn_watches t (st_project st) = Some i"
  shows "presence_inv (hold_at sid t) (t\<lparr>tn_streams := table_put sid st (tn_streams t)\<rparr>)"
proof -
  note D = presence_invD [OF assms(1)]
  have "pr_streams (tn_cells t ! i) = holders (t\<lparr>tn_streams := table_put sid st (tn_streams t)\<rparr>) i +
      (if hold_at sid t = Some i then 1 else 0)" if "tn_watches t p = Some i" for p i
    using D(3) [OF that] holders_split [OF D(1), of i sid] holders_put [where t = t and sid = sid and st = st and i = i]
    by (auto simp: hold_at_def split: option.splits if_splits)
  then show ?thesis
    using D(1,2,4,5,6) assms(2) by (auto simp: presence_inv_def split: if_splits)
qed

lemma delete_inv:
  assumes "presence_inv None t"
  shows "presence_inv (hold_at sid t) (t\<lparr>tn_streams := AList.delete sid (tn_streams t)\<rparr>)"
proof -
  note D = presence_invD [OF assms(1)]
  have "pr_streams (tn_cells t ! i) = holders (t\<lparr>tn_streams := AList.delete sid (tn_streams t)\<rparr>) i +
      (if hold_at sid t = Some i then 1 else 0)" if "tn_watches t p = Some i" for p i
    using D(3) [OF that] holders_split [OF D(1), of i sid]
    by (auto simp: hold_at_def holders_def split: option.splits if_splits)
  then show ?thesis
    using D(1,2,4,5,6) by (auto simp: presence_inv_def split: if_splits)
qed

lemma release_inv:
  assumes "presence_inv (st_presence st) t"
    and "\<And>i. st_presence st = Some i \<Longrightarrow> tn_watches t (st_project st) = Some i"
  shows "presence_inv None (release_stream st t)"
proof (cases "st_presence st")
  case None
  with assms(1) show ?thesis by (simp add: release_stream_def)
next
  case (Some i)
  note D = presence_invD [OF assms(1)]
  have w: "tn_watches t (st_project st) = Some i" by (rule assms(2) [OF Some])
  have h: "pr_streams (tn_cells t ! i) = holders t i + 1" using D(3) [OF w] Some by simp
  have other: "pr_streams (tn_cells t ! j) = holders t j" if "tn_watches t p = Some j" "j \<noteq> i" for p j
    using D(3) [OF that(1)] that(2) Some by simp
  let ?t = "update_cell i presence_detach t"
  have cell: "pr_streams (tn_cells ?t ! i) = holders t i"
    using h D(2) [OF w] by (simp add: update_cell_def presence_detach_def)
  show ?thesis
  proof (cases "holders t i = 0")
    case True
    then have none: "st_presence st' \<noteq> Some i" if "map_of (tn_streams t) sid = Some st'" for sid st'
      using table_get_le [OF that, of "holds i"] by (auto simp: holders_def holds_def)
    have "release_stream st t = ?t\<lparr>tn_watches := (tn_watches ?t)(st_project st := None)\<rparr>"
      using Some cell True by (simp add: release_stream_def Let_def)
    moreover have "presence_inv None (?t\<lparr>tn_watches := (tn_watches ?t)(st_project st := None)\<rparr>)"
      unfolding presence_inv_def
    proof (intro conjI allI impI)
      show "table_ok (tn_streams (?t\<lparr>tn_watches := (tn_watches ?t)(st_project st := None)\<rparr>))"
        using D(1) by (simp add: update_cell_def)
    next
      fix p j
      assume a: "tn_watches (?t\<lparr>tn_watches := (tn_watches ?t)(st_project st := None)\<rparr>) p = Some j"
      then have p: "p \<noteq> st_project st" "tn_watches t p = Some j"
        by (auto simp: update_cell_def split: if_splits)
      with w D(5) have "j \<noteq> i" by blast
      with p D(2) [OF p(2)] D(4) [OF p(2)] other [OF p(2)]
      show "j < length (tn_cells (?t\<lparr>tn_watches := (tn_watches ?t)(st_project st := None)\<rparr>))"
        and "pr_streams (tn_cells (?t\<lparr>tn_watches := (tn_watches ?t)(st_project st := None)\<rparr>) ! j) =
          holders (?t\<lparr>tn_watches := (tn_watches ?t)(st_project st := None)\<rparr>) j + (if None = Some j then 1 else 0)"
        and "0 < pr_streams (tn_cells (?t\<lparr>tn_watches := (tn_watches ?t)(st_project st := None)\<rparr>) ! j)"
        by (simp_all add: update_cell_def holders_def)
    next
      fix p q j
      assume "tn_watches (?t\<lparr>tn_watches := (tn_watches ?t)(st_project st := None)\<rparr>) p = Some j"
        and "tn_watches (?t\<lparr>tn_watches := (tn_watches ?t)(st_project st := None)\<rparr>) q = Some j"
      then show "p = q" using D(5) by (auto simp: update_cell_def split: if_splits)
    next
      fix sid st' j
      assume "map_of (tn_streams (?t\<lparr>tn_watches := (tn_watches ?t)(st_project st := None)\<rparr>)) sid = Some st'"
        and j: "st_presence st' = Some j"
      then have m: "map_of (tn_streams t) sid = Some st'" by (simp add: update_cell_def)
      from D(6) [OF m j] have wj: "tn_watches t (st_project st') = Some j" .
      have "st_project st' \<noteq> st_project st"
        using wj w none [OF m] j by auto
      with wj show "tn_watches (?t\<lparr>tn_watches := (tn_watches ?t)(st_project st := None)\<rparr>) (st_project st') = Some j"
        by (simp add: update_cell_def)
    qed
    ultimately show ?thesis by simp
  next
    case False
    then have "release_stream st t = ?t" using Some cell by (simp add: release_stream_def Let_def)
    moreover have "presence_inv None ?t"
    proof -
      have c: "pr_streams (tn_cells ?t ! j) = holders ?t j + (if None = Some j then 1 else 0) \<and>
          0 < pr_streams (tn_cells ?t ! j)"
        if "tn_watches t p = Some j" for p j
        using that D(4) [OF that] other [OF that] cell False by (cases "j = i") (simp_all add: cell_update)
      show ?thesis
      proof (rule presence_invI)
        fix p j assume "tn_watches ?t p = Some j"
        then have w: "tn_watches t p = Some j" by (simp add: cell_update)
        show "j < length (tn_cells ?t) \<and>
            pr_streams (tn_cells ?t ! j) = holders ?t j + (if None = Some j then 1 else 0) \<and>
            0 < pr_streams (tn_cells ?t ! j)"
          using c [OF w] D(2) [OF w] unfolding cell_update by (intro conjI) blast+
      qed (use D(1) D(5) D(6) in \<open>simp_all add: cell_update\<close>)
    qed
    ultimately show ?thesis by simp
  qed
qed

section \<open>The invariant over a connection\<close>

lemma hold_watch:
  assumes "presence_inv x t" and "map_of (tn_streams t) sid = Some st" and "st_presence st = Some i"
  shows "tn_watches t (st_project st) = Some i"
  by (rule presence_invD(6) [OF assms])

lemma open_inv:
  assumes "presence_inv None t"
  shows "presence_inv None (open_stream ok sid d p scope t)"
proof -
  obtain x t1 where a: "(if scope = Interactive then attach_presence ok p t else (None, t)) = (x, t1)"
    by (cases "if scope = Interactive then attach_presence ok p t else (None, t)")
  have i1: "presence_inv x t1" "tn_streams t1 = tn_streams t" "\<And>i. x = Some i \<Longrightarrow> tn_watches t1 p = Some i"
    using attach_inv [OF assms, of ok p x t1] a assms by (auto split: if_splits)
  let ?st = "\<lparr>st_device = d, st_project = p, st_next_seq = 1, st_presence = x\<rparr>"
  let ?t = "t1\<lparr>tn_streams := table_put sid ?st (tn_streams t1)\<rparr>"
  have i2: "presence_inv (hold_at sid t1) ?t" using put_inv [of ?st t1 sid] i1 by simp
  have "presence_inv None (insert_stream sid ?st t1)"
  proof (cases "map_of (tn_streams t1) sid")
    case None
    with i2 show ?thesis by (simp add: insert_stream_def hold_at_def)
  next
    case (Some st)
    have "presence_inv (st_presence st) ?t" using i2 Some by (simp add: hold_at_def)
    moreover have "\<And>i. st_presence st = Some i \<Longrightarrow> tn_watches ?t (st_project st) = Some i"
      using hold_watch [OF i1(1) Some] by simp
    ultimately show ?thesis using release_inv [of st ?t] Some by (simp add: insert_stream_def)
  qed
  then show ?thesis by (simp add: open_stream_def a)
qed

lemma close_inv:
  assumes "presence_inv None t"
  shows "presence_inv None (close_stream sid t)"
proof (cases "map_of (tn_streams t) sid")
  case None
  with assms show ?thesis by (simp add: close_stream_def)
next
  case (Some st)
  let ?t = "t\<lparr>tn_streams := AList.delete sid (tn_streams t)\<rparr>"
  have "presence_inv (st_presence st) ?t" using delete_inv [OF assms, of sid] Some by (simp add: hold_at_def)
  moreover have "\<And>i. st_presence st = Some i \<Longrightarrow> tn_watches ?t (st_project st) = Some i"
    using hold_watch [OF assms Some] by simp
  ultimately show ?thesis using release_inv [of st ?t] Some by (simp add: close_stream_def)
qed

lemma note_cell: "pr_streams (tn_cells (update_cell i (note_session s) t) ! j) = pr_streams (tn_cells t ! j)"
  by (cases "i = j"; cases "i < length (tn_cells t)") (auto simp: update_cell_def note_session_def list_update_beyond)

lemma note_inv:
  assumes "presence_inv None t"
  shows "presence_inv None (update_cell i (note_session s) t)"
proof -
  note D = presence_invD [OF assms]
  show ?thesis
  proof (rule presence_invI)
    fix p j assume "tn_watches (update_cell i (note_session s) t) p = Some j"
    then have w: "tn_watches t p = Some j" by (simp add: cell_update)
    show "j < length (tn_cells (update_cell i (note_session s) t)) \<and>
        pr_streams (tn_cells (update_cell i (note_session s) t) ! j) =
          holders (update_cell i (note_session s) t) j + (if None = Some j then 1 else 0) \<and>
        0 < pr_streams (tn_cells (update_cell i (note_session s) t) ! j)"
      unfolding cell_update note_cell holders_cells using D(2-4) [OF w] by simp
  qed (use D(1) D(5) D(6) in \<open>simp_all add: cell_update\<close>)
qed

lemma seq_inv:
  assumes "presence_inv None t" and "take_seq sid t = Some (st, n, t')"
  shows "presence_inv None t'"
proof -
  from assms(2) have m: "map_of (tn_streams t) sid = Some st"
    and t': "t' = t\<lparr>tn_streams := table_put sid (st\<lparr>st_next_seq := st_next_seq st + 1\<rparr>) (tn_streams t)\<rparr>"
    by (auto simp: take_seq_def)
  note D = presence_invD [OF assms(1)]
  have "holders t' i = holders t i" for i
    using holders_put [where t = t and sid = sid and st = "st\<lparr>st_next_seq := st_next_seq st + 1\<rparr>" and i = i] holders_split [OF D(1), of i sid] m
    by (simp add: t')
  then show ?thesis using D hold_watch [OF assms(1) m] m by (auto simp: presence_inv_def t' split: if_splits)
qed

lemma drain_inv: "presence_inv None (drain_tunnel t)"
  by (simp add: presence_inv_def drain_tunnel_def)

inductive tunnel_step :: "tunnel \<Rightarrow> tunnel \<Rightarrow> bool" where
  opened: "tunnel_step t (open_stream ok sid d p scope t)"
| closed: "tunnel_step t (close_stream sid t)"
| noted: "tunnel_step t (update_cell i (note_session session) t)"
| sent: "take_seq sid t = Some (st, n, t') \<Longrightarrow> tunnel_step t t'"
| drained: "tunnel_step t (drain_tunnel t)"

interpretation connection: transition_system "\<lambda>t. t = tunnel_new" tunnel_step "presence_inv None"
proof
  show "t = tunnel_new \<Longrightarrow> presence_inv None t" for t
    by (simp add: presence_inv_def tunnel_new_def)
  show "presence_inv None t \<Longrightarrow> tunnel_step t u \<Longrightarrow> presence_inv None u" for t u
    by (cases rule: tunnel_step.cases) (auto intro: open_inv close_inv note_inv seq_inv drain_inv)
qed

lemma send_reach:
  assumes "connection.reach t" and "send_on_stream cx b sid ts payload t = (out, t')"
  shows "connection.reach t'"
proof (cases "take_seq sid t")
  case None
  with assms show ?thesis by (simp add: send_on_stream_def)
next
  case (Some x)
  obtain st n t1 where "x = (st, n, t1)" by (cases x)
  with Some assms show ?thesis
    by (auto simp: send_on_stream_def intro: connection.reach_step [OF _ sent])
qed

lemma handle_frame_reach:
  assumes "connection.reach t" and "handle_frame env tc b now frame (t, s) = (out, t', s')"
  shows "connection.reach t'"
proof (cases frame)
  case (OpenStream sid d scope jti project)
  with assms show ?thesis
    by (auto simp: handle_frame_def handle_open_def intro: connection.reach_step [OF _ opened]
        split: prod.splits sum.splits if_splits)
next
  case (CloseStream sid reason)
  with assms show ?thesis
    by (auto simp: handle_frame_def handle_close_def intro: connection.reach_step [OF _ closed] split: option.splits)
next
  case (ForwardUpstream sid e)
  have "connection.reach (note_frame cx tc f st t)" for cx f st
    using assms(1) by (auto simp: note_frame_def intro: connection.reach_step [OF _ noted] split: option.split)
  with ForwardUpstream assms show ?thesis
    by (auto simp: handle_frame_def handle_upstream_def intro: send_reach split: option.splits prod.splits)
next
  case (RpcRequest i e)
  with assms show ?thesis
    by (auto simp: handle_frame_def handle_rpc_frame_def Let_def split: prod.splits sum.splits)
qed (use assms in \<open>auto simp: handle_frame_def\<close>)

definition holding :: "tunnel \<Rightarrow> rstr \<Rightarrow> nat" where
  "holding t p =
     length (filter (\<lambda>(sid, st). st_project st = p \<and> st_presence st \<noteq> None) (tn_streams t))"

lemma holding_holders:
  assumes "presence_inv None t"
  shows "tn_watches t p = Some i \<Longrightarrow> holding t p = holders t i"
    and "tn_watches t p = None \<Longrightarrow> holding t p = 0"
proof -
  note D = presence_invD [OF assms]
  have mem: "map_of (tn_streams t) sid = Some st" if "(sid, st) \<in> set (tn_streams t)" for sid st
    using D(1) that by (simp add: table_ok_def)
  show "holding t p = holders t i" if "tn_watches t p = Some i"
  proof -
    have hold: "(st_project st = p \<and> st_presence st \<noteq> None) \<longleftrightarrow> holds i (sid, st) = 1"
      if e: "(sid, st) \<in> set (tn_streams t)" for sid st
    proof (cases "st_presence st")
      case None
      then show ?thesis by (simp add: holds_def)
    next
      case (Some j)
      have w: "tn_watches t (st_project st) = Some j" by (rule D(6) [OF mem [OF e] Some])
      have "st_project st = p \<longleftrightarrow> j = i"
      proof
        assume "st_project st = p"
        with w \<open>tn_watches t p = Some i\<close> show "j = i" by simp
      next
        assume "j = i"
        with w have "tn_watches t (st_project st) = Some i" by simp
        from D(5) [OF this \<open>tn_watches t p = Some i\<close>] show "st_project st = p" .
      qed
      with Some show ?thesis by (simp add: holds_def)
    qed
    have "filter (\<lambda>(sid, st). st_project st = p \<and> st_presence st \<noteq> None) (tn_streams t) =
        filter (\<lambda>x. holds i x = 1) (tn_streams t)"
    proof (rule filter_cong [OF refl])
      fix x assume "x \<in> set (tn_streams t)"
      then show "(case x of (sid, st) \<Rightarrow> st_project st = p \<and> st_presence st \<noteq> None) = (holds i x = 1)"
        using hold [of "fst x" "snd x"] by (simp add: case_prod_beta)
    qed
    moreover have "length (filter (\<lambda>x. holds i x = 1) xs) = sum_list (map (holds i) xs)" for xs
      by (induction xs) (auto simp: holds_def)
    ultimately show ?thesis by (simp add: holding_def holders_def table_sum_def)
  qed
  show "holding t p = 0" if "tn_watches t p = None"
  proof -
    have "\<not> (st_project st = p \<and> st_presence st \<noteq> None)" if e: "(sid, st) \<in> set (tn_streams t)" for sid st
    proof (cases "st_presence st")
      case (Some j)
      from D(6) [OF mem [OF e] Some] \<open>tn_watches t p = None\<close> show ?thesis by auto
    qed simp
    then show ?thesis by (auto simp: holding_def filter_empty_conv)
  qed
qed

subsection \<open>What the relay asked for\<close>

text \<open>
  The streams of a connection, written down from the frames alone: an opening that resolved to
  a project is noted with the scope the relay stated for the device, and with whether its
  project could be watched at that moment, which is when the project's runtime was found or a
  stream that is watched was already open on the project.  Nothing of the tunnel's own state is
  read.
\<close>

record stream_note =
  op_project :: rstr
  op_scope :: pairing_scope
  op_watchable :: bool

definition counts_for :: "rstr \<Rightarrow> stream_note \<Rightarrow> bool" where
  "counts_for p x \<longleftrightarrow> op_project x = p \<and> op_scope x = Interactive \<and> op_watchable x"

definition noted_streams :: "rstr \<Rightarrow> (rstr \<times> stream_note) list \<Rightarrow> nat" where
  "noted_streams p g = length (filter (\<lambda>x. counts_for p (snd x)) g)"

definition found_runtime :: "('w, 'rt, 'x, 'j) agent_env \<Rightarrow> rstr \<Rightarrow> 'w agent \<Rightarrow> bool" where
  "found_runtime env project s = (case fst (runtime_of env project s) of Inl e \<Rightarrow> False | Inr rt \<Rightarrow> True)"

definition note_opening ::
  "('w, 'rt, 'x, 'j) agent_env \<Rightarrow> relay_to_agent \<Rightarrow> 'w agent \<Rightarrow> (rstr \<times> stream_note) list
     \<Rightarrow> (rstr \<times> stream_note) list" where
  "note_opening env frame s g =
     (case frame of
        OpenStream sid device scope jti project_id \<Rightarrow>
          (case resolve_project env project_id s of
             (Inl e, s1) \<Rightarrow> g
           | (Inr project, s1) \<Rightarrow>
               (sid, \<lparr>op_project = project, op_scope = scope,
                      op_watchable = (found_runtime env project s1 \<or> 0 < noted_streams project g)\<rparr>)
               # AList.delete sid g)
      | CloseStream sid reason \<Rightarrow> AList.delete sid g
      | _ \<Rightarrow> g)"

text \<open>A connection: frames in any order, whatever else the agent did between them.\<close>

inductive connection_run ::
  "('w, 'rt, 'x, 'j) agent_env \<Rightarrow> ('j, 'v) tunnel_codec \<Rightarrow> bridge \<Rightarrow> tunnel \<Rightarrow> (rstr \<times> stream_note) list \<Rightarrow> bool"
  for env tc b where
  connected: "connection_run env tc b tunnel_new []"
| framed: "connection_run env tc b t g \<Longrightarrow>
    handle_frame env tc b now frame (t, s) = (out, t', s') \<Longrightarrow>
    connection_run env tc b t' (note_opening env frame s g)"
| lost: "connection_run env tc b t g \<Longrightarrow> connection_run env tc b (drain_tunnel t) []"

lemma run_reaches: "connection_run env tc b t g \<Longrightarrow> connection.reach t"
  by (induction rule: connection_run.induct)
    (auto intro: connection.reach_init connection.reach_step [OF _ drained] handle_frame_reach)

lemma release_streams [simp]: "tn_streams (release_stream st t) = tn_streams t"
  by (simp add: release_stream_def update_cell_def Let_def split: option.split)

lemma attach_presence_streams:
  "attach_presence ok p t = (x, t1) \<Longrightarrow>
     tn_streams t1 = tn_streams t \<and> (x \<noteq> None \<longleftrightarrow> ok \<or> tn_watches t p \<noteq> None)"
  by (auto simp: attach_presence_def start_watch_def update_cell_def Let_def split: option.splits if_splits)

lemma insert_stream_streams [simp]: "tn_streams (insert_stream sid st t) = table_put sid st (tn_streams t)"
  by (simp add: insert_stream_def Let_def split: option.split)

lemma open_stream_streams:
  "\<exists>st. tn_streams (open_stream ok sid d p scope t) = table_put sid st (tn_streams t) \<and>
     st_project st = p \<and>
     (st_presence st \<noteq> None \<longleftrightarrow> scope = Interactive \<and> (ok \<or> tn_watches t p \<noteq> None))"
proof -
  obtain x t1 where a: "(if scope = Interactive then attach_presence ok p t else (None, t)) = (x, t1)"
    by (cases "if scope = Interactive then attach_presence ok p t else (None, t)")
  have "tn_streams t1 = tn_streams t"
    "x \<noteq> None \<longleftrightarrow> scope = Interactive \<and> (ok \<or> tn_watches t p \<noteq> None)"
    using a attach_presence_streams [of ok p t x t1] by (auto split: if_splits)
  then show ?thesis
    by (intro exI [of _ "\<lparr>st_device = d, st_project = p, st_next_seq = 1, st_presence = x\<rparr>"])
      (simp add: open_stream_def a)
qed

lemma close_stream_streams: "tn_streams (close_stream sid t) = AList.delete sid (tn_streams t)"
  by (auto simp: close_stream_def delete_notin_dom map_of_eq_None_iff split: option.split)

text \<open>The table and the notes agree on every stream: its project and whether it is counted.\<close>

definition agrees :: "tunnel \<Rightarrow> (rstr \<times> stream_note) list \<Rightarrow> bool" where
  "agrees t g \<longleftrightarrow>
     table_ok g \<and>
     (\<forall>sid p. (\<exists>st. map_of (tn_streams t) sid = Some st \<and> st_project st = p \<and> st_presence st \<noteq> None) \<longleftrightarrow>
        (\<exists>x. map_of g sid = Some x \<and> counts_for p x))"

lemma count_keys:
  assumes "distinct (map fst xs)"
  shows "length (filter (\<lambda>x. P (snd x)) xs) = card {k. \<exists>v. map_of xs k = Some v \<and> P v}"
proof -
  have "distinct (map fst (filter (\<lambda>x. P (snd x)) xs))" using assms by (simp add: distinct_map_filter)
  then have "length (filter (\<lambda>x. P (snd x)) xs) = card (fst ` set (filter (\<lambda>x. P (snd x)) xs))"
    using distinct_card [of "map fst (filter (\<lambda>x. P (snd x)) xs)"] by simp
  also have "fst ` set (filter (\<lambda>x. P (snd x)) xs) = {k. \<exists>v. map_of xs k = Some v \<and> P v}"
    using assms by (force simp: image_iff)
  finally show ?thesis .
qed

lemma agrees_counts:
  assumes "agrees t g" and "table_ok (tn_streams t)"
  shows "holding t p = noted_streams p g"
proof -
  have f: "filter (\<lambda>(sid, st). st_project st = p \<and> st_presence st \<noteq> None) (tn_streams t) =
      filter (\<lambda>x. st_project (snd x) = p \<and> st_presence (snd x) \<noteq> None) (tn_streams t)"
    by (rule filter_cong) auto
  have "holding t p =
      card {k. \<exists>st. map_of (tn_streams t) k = Some st \<and> st_project st = p \<and> st_presence st \<noteq> None}"
    using count_keys [of "tn_streams t" "\<lambda>st. st_project st = p \<and> st_presence st \<noteq> None"] assms(2) f
    by (simp add: holding_def table_ok_def)
  also have "\<dots> = card {k. \<exists>x. map_of g k = Some x \<and> counts_for p x}"
    using assms(1) by (simp add: agrees_def)
  also have "\<dots> = noted_streams p g"
    using count_keys [of g "counts_for p"] assms(1) by (simp add: noted_streams_def agrees_def table_ok_def)
  finally show ?thesis .
qed

definition same_streams :: "tunnel \<Rightarrow> (rstr \<times> stream_note) list \<Rightarrow> bool" where
  "same_streams t g \<longleftrightarrow>
     (\<forall>sid. map_option st_project (map_of (tn_streams t) sid) = map_option op_project (map_of g sid))"

lemma agrees_open:
  assumes "agrees t g" "same_streams t g"
    and "w \<longleftrightarrow> ok \<or> tn_watches t p \<noteq> None"
  shows "agrees (open_stream ok sid d p scope t)
      ((sid, \<lparr>op_project = p, op_scope = scope, op_watchable = w\<rparr>) # AList.delete sid g)"
    and "same_streams (open_stream ok sid d p scope t)
      ((sid, \<lparr>op_project = p, op_scope = scope, op_watchable = w\<rparr>) # AList.delete sid g)"
proof -
  obtain st where o: "tn_streams (open_stream ok sid d p scope t) = table_put sid st (tn_streams t)"
    "st_project st = p" "st_presence st \<noteq> None \<longleftrightarrow> scope = Interactive \<and> w"
    using open_stream_streams [of ok sid d p scope t] assms(3) by blast
  have cons: "(k, v) # AList.delete k g' = table_put k v g'" for k v and g' :: "(rstr \<times> stream_note) list"
    by (simp add: table_put_def)
  show "agrees (open_stream ok sid d p scope t)
      ((sid, \<lparr>op_project = p, op_scope = scope, op_watchable = w\<rparr>) # AList.delete sid g)"
    unfolding agrees_def cons
  proof (intro conjI allI)
    show "table_ok (table_put sid \<lparr>op_project = p, op_scope = scope, op_watchable = w\<rparr> g)"
      using assms(1) by (simp add: agrees_def)
    fix sid' p'
    show "(\<exists>st. map_of (tn_streams (open_stream ok sid d p scope t)) sid' = Some st \<and> st_project st = p' \<and>
          st_presence st \<noteq> None) \<longleftrightarrow>
        (\<exists>x. map_of (table_put sid \<lparr>op_project = p, op_scope = scope, op_watchable = w\<rparr> g) sid' = Some x \<and> counts_for p' x)"
      using assms(1) o by (cases "sid' = sid") (auto simp: agrees_def counts_for_def)
  qed
  show "same_streams (open_stream ok sid d p scope t)
      ((sid, \<lparr>op_project = p, op_scope = scope, op_watchable = w\<rparr>) # AList.delete sid g)"
    unfolding same_streams_def cons using assms(2) o by (simp add: same_streams_def)
qed

lemma agrees_close:
  "agrees t g \<Longrightarrow> agrees (close_stream sid t) (AList.delete sid g)"
  "same_streams t g \<Longrightarrow> same_streams (close_stream sid t) (AList.delete sid g)"
  by (simp_all add: agrees_def same_streams_def close_stream_streams)

text \<open>A frame that neither opens nor closes leaves every stream its project and its hold.\<close>

lemma agrees_same:
  assumes "\<And>sid. map_option (\<lambda>st. (st_project st, st_presence st)) (map_of (tn_streams t') sid) =
      map_option (\<lambda>st. (st_project st, st_presence st)) (map_of (tn_streams t) sid)"
  shows "agrees t g \<Longrightarrow> agrees t' g" and "same_streams t g \<Longrightarrow> same_streams t' g"
proof -
  have a: "(\<exists>st. map_of (tn_streams t') sid = Some st \<and> st_project st = p \<and> st_presence st \<noteq> None) \<longleftrightarrow>
      (\<exists>st. map_of (tn_streams t) sid = Some st \<and> st_project st = p \<and> st_presence st \<noteq> None)" for sid p
    using assms [of sid] by (cases "map_of (tn_streams t') sid"; cases "map_of (tn_streams t) sid") auto
  have b: "map_option st_project (map_of (tn_streams t') sid) = map_option st_project (map_of (tn_streams t) sid)" for sid
    using assms [of sid] by (cases "map_of (tn_streams t') sid"; cases "map_of (tn_streams t) sid") auto
  show "agrees t g \<Longrightarrow> agrees t' g" by (simp add: agrees_def a del: not_None_eq)
  show "same_streams t g \<Longrightarrow> same_streams t' g" by (simp add: same_streams_def b)
qed

lemma send_same:
  assumes "send_on_stream cx b sid ts payload t = (out, t')"
  shows "map_option (\<lambda>st. (st_project st, st_presence st)) (map_of (tn_streams t') x) =
      map_option (\<lambda>st. (st_project st, st_presence st)) (map_of (tn_streams t) x)"
  using assms by (auto simp: send_on_stream_def take_seq_def split: option.splits)

lemma note_frame_streams [simp]: "tn_streams (note_frame cx tc f st t) = tn_streams t"
  by (simp add: note_frame_def update_cell_def split: option.split)

lemma upstream_same:
  assumes "handle_upstream env tc b sid frame now (t, s) = (out, t', s')"
  shows "map_option (\<lambda>st. (st_project st, st_presence st)) (map_of (tn_streams t') x) =
      map_option (\<lambda>st. (st_project st, st_presence st)) (map_of (tn_streams t) x)"
proof (cases "map_of (tn_streams t) sid")
  case None
  with assms show ?thesis by (simp add: handle_upstream_def)
next
  case (Some st)
  obtain answer s1 where u: "upstream_answer env tc b (st_project st) frame now s = (answer, s1)"
    by (cases "upstream_answer env tc b (st_project st) frame now s")
  obtain out' t1 where sd: "send_on_stream (ae_crypto env) b sid now (tc_text tc answer)
      (note_frame (ae_crypto env) tc frame st t) = (out', t1)"
    by (cases "send_on_stream (ae_crypto env) b sid now (tc_text tc answer) (note_frame (ae_crypto env) tc frame st t)")
  from assms Some u sd have "t' = t1" by (simp add: handle_upstream_def)
  with send_same [OF sd, of x] show ?thesis by simp
qed

lemma watched_iff_noted:
  assumes "presence_inv None t" and "agrees t g"
  shows "tn_watches t p \<noteq> None \<longleftrightarrow> 0 < noted_streams p g"
proof -
  note D = presence_invD [OF assms(1)]
  have n: "holding t p = noted_streams p g" by (rule agrees_counts [OF assms(2) D(1)])
  show ?thesis
  proof (cases "tn_watches t p")
    case None
    then show ?thesis using holding_holders(2) [OF assms(1)] n by simp
  next
    case (Some i)
    have "holding t p = holders t i" by (rule holding_holders(1) [OF assms(1) Some])
    with D(3) [OF Some] D(4) [OF Some] n show ?thesis using Some by simp
  qed
qed

lemma run_agrees:
  assumes "connection_run env tc b t g"
  shows "agrees t g \<and> same_streams t g"
  using assms
proof (induction rule: connection_run.induct)
  case connected
  then show ?case by (simp add: agrees_def same_streams_def tunnel_new_def)
next
  case (framed t g now frame s out t' s')
  have inv: "presence_inv None t" by (rule connection.reach_inv [OF run_reaches [OF framed.hyps(1)]])
  have ih: "agrees t g" "same_streams t g" using framed.IH by simp_all
  show ?case
  proof (cases frame)
    case (OpenStream sid d scope jti pid)
    obtain r s1 where r: "resolve_project env pid s = (r, s1)" by (cases "resolve_project env pid s")
    show ?thesis
    proof (cases r)
      case (Inl e)
      with framed.hyps(2) r OpenStream ih show ?thesis
        by (simp add: handle_frame_def handle_open_def note_opening_def)
    next
      case (Inr p)
      let ?w = "found_runtime env p s1 \<or> 0 < noted_streams p g"
      obtain ok where t': "t' = open_stream ok sid d p scope t"
        and ok: "scope = Interactive \<Longrightarrow> tn_watches t p = None \<Longrightarrow> ok = found_runtime env p s1"
          "tn_watches t p \<noteq> None \<or> scope \<noteq> Interactive \<Longrightarrow> \<not> ok"
        using framed.hyps(2) r Inr OpenStream
        by (auto simp: handle_frame_def handle_open_def found_runtime_def split: prod.splits sum.splits if_splits)
      have g: "note_opening env frame s g =
          (sid, \<lparr>op_project = p, op_scope = scope, op_watchable = ?w\<rparr>) # AList.delete sid g"
        using r Inr OpenStream by (simp add: note_opening_def)
      show ?thesis
      proof (cases "scope = Interactive")
        case True
        have w: "?w \<longleftrightarrow> ok \<or> tn_watches t p \<noteq> None"
          using ok True watched_iff_noted [OF inv ih(1), of p] by (cases "tn_watches t p") auto
        from agrees_open [OF ih w] t' g show ?thesis by simp
      next
        case False
        \<comment> \<open>what could be watched does not matter to an observer\<close>
        let ?w' = "ok \<or> tn_watches t p \<noteq> None"
        have eq: "agrees u ((sid, \<lparr>op_project = p, op_scope = scope, op_watchable = ?w\<rparr>) # g') =
            agrees u ((sid, \<lparr>op_project = p, op_scope = scope, op_watchable = ?w'\<rparr>) # g')"
          "same_streams u ((sid, \<lparr>op_project = p, op_scope = scope, op_watchable = ?w\<rparr>) # g') =
            same_streams u ((sid, \<lparr>op_project = p, op_scope = scope, op_watchable = ?w'\<rparr>) # g')" for u g'
          using False by (auto simp: agrees_def same_streams_def counts_for_def table_ok_def)
        from agrees_open [OF ih refl, where ok = ok and p = p and sid = sid and d = d and scope = scope] t' g eq show ?thesis by simp
      qed
    qed
  next
    case (CloseStream sid reason)
    have "t' = close_stream sid t"
      using framed.hyps(2) CloseStream
      by (auto simp: handle_frame_def handle_close_def close_stream_def split: option.splits)
    with agrees_close [of t g sid] ih CloseStream show ?thesis by (simp add: note_opening_def)
  next
    case (ForwardUpstream sid e)
    then have "handle_upstream env tc b sid e now (t, s) = (out, t', s')"
      using framed.hyps(2) by (simp add: handle_frame_def)
    from agrees_same [OF upstream_same [OF this]] ih ForwardUpstream show ?thesis
      by (simp add: note_opening_def)
  next
    case (RpcRequest i e)
    have "t' = t"
      using framed.hyps(2) RpcRequest
      by (auto simp: handle_frame_def handle_rpc_frame_def Let_def split: prod.splits sum.splits)
    with ih RpcRequest show ?thesis by (simp add: note_opening_def)
  qed (use framed.hyps(2) ih in \<open>simp_all add: handle_frame_def note_opening_def\<close>)
next
  case (lost t g)
  show ?case by (simp add: agrees_def same_streams_def drain_tunnel_def)
qed

text \<open>
  C26. Who could answer is counted right: whatever frames the relay sends, in whatever order
  (streams opened twice under one id, closed twice, or closed unopened), and whatever else the
  agent does between them, a project has an approval watch exactly as long as a stream that
  counts is open on it, and the presence the watch reads is the number of those streams.  A
  stream counts when the relay opened it for an interactive device and its project could be
  watched at that moment: its runtime was found, or a stream that counts was open on it.  A
  stream opened for an observing device never counts, and one opened while no runtime was found
  stays open without counting.
\<close>

theorem presence_counts_streams:
  assumes "connection_run env tc b t g"
  shows "(case tn_watches t p of
            None \<Rightarrow> noted_streams p g = 0
          | Some i \<Rightarrow> pr_streams (tn_cells t ! i) = noted_streams p g \<and> 0 < noted_streams p g) \<and>
    map_option st_project (map_of (tn_streams t) sid) = map_option op_project (map_of g sid)"
proof -
  have inv: "presence_inv None t" by (rule connection.reach_inv [OF run_reaches [OF assms]])
  note D = presence_invD [OF inv]
  have ag: "agrees t g" "same_streams t g" using run_agrees [OF assms] by simp_all
  have n: "holding t p = noted_streams p g" by (rule agrees_counts [OF ag(1) D(1)])
  have w: "tn_watches t p \<noteq> None \<longleftrightarrow> 0 < noted_streams p g" by (rule watched_iff_noted [OF inv ag(1)])
  have "case tn_watches t p of
            None \<Rightarrow> noted_streams p g = 0
          | Some i \<Rightarrow> pr_streams (tn_cells t ! i) = noted_streams p g \<and> 0 < noted_streams p g"
  proof (cases "tn_watches t p")
    case None
    with w show ?thesis by simp
  next
    case (Some i)
    have "pr_streams (tn_cells t ! i) = holders t i" using D(3) [OF Some] by simp
    also have "holders t i = holding t p" by (rule holding_holders(1) [OF inv Some, symmetric])
    finally show ?thesis using Some w n by simp
  qed
  with ag(2) show ?thesis by (simp add: same_streams_def)
qed

definition demo_tunnel_codec :: "(create_session_request, nat) tunnel_codec" where
  "demo_tunnel_codec = \<lparr>tc_down = (\<lambda>d. Some [1]), tc_text = (\<lambda>d. [1]), tc_field = (\<lambda>p f. None)\<rparr>"

text \<open>One phone that may answer and one that may only look, on one project.\<close>

theorem presence_counts_streams_witness:
  "\<exists>t g. connection_run demo_host demo_tunnel_codec demo_bridge t g \<and> length (tn_streams t) = 2 \<and>
     tn_watches t (lit ''p'') = Some 0 \<and> noted_streams (lit ''p'') g = 1 \<and> pr_streams (tn_cells t ! 0) = 1"
proof -
  let ?F1 = "OpenStream (lit ''x'') (lit ''d'') Interactive [] (Some (lit ''p''))"
  let ?F2 = "OpenStream (lit ''y'') (lit ''e'') Observe [] (Some (lit ''p''))"
  let ?h = "handle_frame demo_host demo_tunnel_codec demo_bridge (lit ''120'')"
  have res: "resolve_project demo_host (Some (lit ''p'')) demo_agent = (Inr (lit ''p''), demo_agent)"
    by (simp add: resolve_project_def on_world_def demo_host_def demo_agent_def)
  have rt: "runtime_of demo_host (lit ''p'') demo_agent = (Inr (), demo_agent)"
    by (simp add: runtime_of_def on_world_def demo_host_def demo_agent_def)
  obtain out1 t1 s1 where h1: "?h ?F1 (tunnel_new, demo_agent) = (out1, t1, s1)"
    by (cases "?h ?F1 (tunnel_new, demo_agent)")
  obtain out2 t2 s2 where h2: "?h ?F2 (t1, demo_agent) = (out2, t2, s2)"
    by (cases "?h ?F2 (t1, demo_agent)")
  from h1 have t1: "t1 = open_stream True (lit ''x'') (lit ''d'') (lit ''p'') Interactive tunnel_new"
    by (simp add: handle_frame_def handle_open_def res rt tunnel_new_def)
  from h2 have t2: "t2 = open_stream False (lit ''y'') (lit ''e'') (lit ''p'') Observe t1"
    by (simp add: handle_frame_def handle_open_def res)
  let ?g = "note_opening demo_host ?F2 demo_agent (note_opening demo_host ?F1 demo_agent [])"
  have run: "connection_run demo_host demo_tunnel_codec demo_bridge t2 ?g"
    by (rule framed [OF framed [OF connected h1] h2])
  have w: "tn_watches t2 (lit ''p'') = Some 0" "length (tn_streams t2) = 2"
    by (simp_all add: t2 t1 open_stream_def attach_presence_def start_watch_def insert_stream_def tunnel_new_def
        update_cell_def table_put_def lit_def)
  have "?g = (lit ''y'', \<lparr>op_project = lit ''p'', op_scope = Observe, op_watchable = True\<rparr>)
      # AList.delete (lit ''y'') [(lit ''x'', \<lparr>op_project = lit ''p'', op_scope = Interactive, op_watchable = True\<rparr>)]"
    by (simp add: note_opening_def res found_runtime_def rt)
  then have g: "noted_streams (lit ''p'') ?g = 1" by (simp add: noted_streams_def counts_for_def lit_def)
  from presence_counts_streams [OF run, of "lit ''p''" "lit ''x''"] run w g show ?thesis by auto
qed

section \<open>What is written down\<close>

lemma proceed_audit:
  assumes "proceed m f s = (r, s')"
    and "\<And>x s1. m s = (x, s1) \<Longrightarrow> ag_audit s1 = ag_audit s"
    and "\<And>x s1 s2 r'. f x s1 = (r', s2) \<Longrightarrow> ag_audit s2 = ag_audit s1"
  shows "ag_audit s' = ag_audit s"
proof -
  obtain x s1 where x: "m s = (x, s1)" by (cases "m s")
  show ?thesis
  proof (cases x)
    case (Inl e)
    with assms(1) x assms(2) [OF x] show ?thesis by (simp add: proceed_def)
  next
    case (Inr y)
    with assms(1) x have "f y s1 = (r, s')" by (simp add: proceed_def)
    from assms(3) [OF this] assms(2) [OF x] show ?thesis by simp
  qed
qed

lemma on_world_audit: "on_world h f s = (r, s') \<Longrightarrow> ag_audit s' = ag_audit s"
  by (auto simp: on_world_def split: prod.splits)

lemma authenticate_audit: "authenticate env b frame now claimed s = (r, s1) \<Longrightarrow> ag_audit s1 = ag_audit s"
  by (auto simp: authenticate_def proceed_def trusted_key_def from_result_def yields_def
      split: prod.splits sum.splits)

lemma deliver_audit:
  assumes "deliver_command env project i session c v s = (r, s')"
  shows "ag_audit s' = ag_audit s"
  using assms unfolding deliver_command_def runtime_of_def
  by (rule proceed_audit) (auto dest: on_world_audit)

lemma deny_code: "evaluate_remote p c = RemoteDeny code reason \<Longrightarrow> code \<noteq> lit ''versioned_setting_required''"
proof -
  have d: "evaluate_decision x \<noteq> RemoteDeny (lit ''versioned_setting_required'') r" for x r
    by (cases x) (simp_all add: DENIED_DECISION_def)
  have p: "evaluate_profile full x \<noteq> RemoteDeny (lit ''versioned_setting_required'') r" for full x r
    by (cases x) (simp_all add: DENIED_PROFILE_def)
  have "evaluate_interactive full c \<noteq> RemoteDeny (lit ''versioned_setting_required'') r" for full r
    by (cases c) (simp_all add: d p deny_command_def DENIED_COMMAND_def)
  then show "evaluate_remote p c = RemoteDeny code reason \<Longrightarrow> code \<noteq> lit ''versioned_setting_required''"
    by (cases "rp_scope p") (auto simp: evaluate_remote_def deny_command_def DENIED_COMMAND_def)
qed

lemma other_codes:
  "\<not> is_refused e \<Longrightarrow> admission_code e \<noteq> lit ''versioned_setting_required''"
proof (cases e)
  case (AdTrust x) then show ?thesis by (cases x) simp_all
next
  case (AdRoute x) then show ?thesis by (cases x) simp_all
next
  case (AdEnvelope x) then show ?thesis by (cases x) simp_all
next
  case (AdUpload x) then show ?thesis by (cases x) simp_all
qed (simp_all add: is_refused_def)

text \<open>The lines a frame of an open stream should leave, by what became of it.\<close>

definition frame_lines ::
  "crypto \<Rightarrow> rstr \<Rightarrow> signed_envelope \<Rightarrow> rstr option \<Rightarrow> admission_error + admitted \<Rightarrow> audit_event list" where
  "frame_lines cx project frame kind r =
     (let h = hashed_label cx (se_sender_id frame) in case r of
        Inr (Delivered i d) \<Rightarrow> [DeliveredEvent h project (the kind)]
      | Inr (SnapshotRequested session) \<Rightarrow> []
      | Inl e \<Rightarrow> if admission_code e = lit ''versioned_setting_required'' then []
                 else [RefusedEvent h project kind (admission_code e)])"

definition early :: "admission_error + admitted \<Rightarrow> bool" where
  "early r = (case r of Inl e \<Rightarrow> \<not> is_refused e | Inr x \<Rightarrow> False)"

lemma judge_audit:
  assumes "judge_command env b project (se_sender_id frame) scope i session c v s = (r, s')" and "br_audited b"
  shows "ag_audit s' = ag_audit s @
    (if early r then [] else frame_lines (ae_crypto env) project frame (Some (command_kind c)) r)"
proof (cases "evaluate_remote \<lparr>rp_scope = scope, rp_allow_full_access = br_allow_full_access b\<rparr> c")
  case RemoteAllow
  obtain x s1 where x: "deliver_command env project i session c v s = (x, s1)"
    by (cases "deliver_command env project i session c v s")
  then have a: "ag_audit s1 = ag_audit s" by (rule deliver_audit)
  have n: "\<not> is_refused e" if "x = Inl e" for e
    using x that by (auto simp: deliver_command_def proceed_def runtime_of_def on_world_def runtime_failure_def
        is_refused_def split: prod.splits sum.splits)
  from RemoteAllow x a n assms show ?thesis
    by (cases x) (auto simp: judge_command_def proceed_def early_def record_audit_def frame_lines_def)
next
  case (RemoteDeny code reason)
  with deny_code [OF this] assms show ?thesis
    by (auto simp: judge_command_def early_def record_audit_def frame_lines_def is_refused_def Let_def)
qed

lemma admit_audit:
  assumes "admit_upstream env b project frame now claimed s = (r, s')" and "br_audited b"
  shows "\<exists>kind. ag_audit s' = ag_audit s @ (if early r then [] else frame_lines (ae_crypto env) project frame kind r)"
proof -
  obtain a s1 where a: "authenticate env b frame now claimed s = (a, s1)"
    by (cases "authenticate env b frame now claimed s")
  note w = authenticate_audit [OF a]
  have n: "\<not> is_refused e" if "a = Inl e" for e
    using a that by (auto simp: authenticate_def proceed_def trusted_key_def from_result_def yields_def
        is_refused_def map_sum_def split: prod.splits sum.splits)
  show ?thesis
  proof (cases a)
    case (Inl e)
    with a n w assms(1) show ?thesis by (auto simp: admit_upstream_def proceed_def early_def)
  next
    case (Inr ps)
    obtain payload scope where ps: "ps = (payload, scope)" by (cases ps)
    show ?thesis
    proof (cases "ae_upstream env payload")
      case None
      with a Inr ps w assms(1) show ?thesis
        by (auto simp: admit_upstream_def proceed_def needing_def early_def is_refused_def)
    next
      case (Some m)
      show ?thesis
      proof (cases "validate_setting_delivery m")
        case (Inl e)
        with a Inr ps w assms(1) Some show ?thesis
          by (auto simp: admit_upstream_def proceed_def needing_def from_result_def early_def is_refused_def
              frame_lines_def)
      next
        case v: (Inr u)
        with a Inr ps assms(1) Some
        have adm: "admit_message env b project (se_sender_id frame) scope m s1 = (r, s')"
          by (simp add: admit_upstream_def proceed_def needing_def from_result_def)
        show ?thesis
        proof (cases "delivery_of m")
          case None
          with adm w show ?thesis by (cases m) (auto simp: admit_message_def yields_def early_def frame_lines_def)
        next
          case (Some dlv)
          obtain i session c ver where dlv: "dlv = (i, session, c, ver)" by (cases dlv)
          from Some dlv adm admit_message_judged
          have "judge_command env b project (se_sender_id frame) scope i session c ver s1 = (r, s')" by metis
          from judge_audit [OF this assms(2)] w show ?thesis by metis
        qed
      qed
    qed
  qed
qed

lemma snapshot_audit:
  assumes "bridge_snapshot env project session s = (r, s')"
  shows "ag_audit s' = ag_audit s"
  using assms unfolding bridge_snapshot_def runtime_of_def
  by (rule proceed_audit) (auto dest: on_world_audit)

text \<open>
  Every frame of an open stream leaves its trace: one line for a delivered command, none
  for a snapshot request, and one line with the code the device is told for a refused or
  failed frame, under a hash of the sender.  The one exception, which the code makes and
  its documentation does not, is a setting that comes without an observed version: it is
  refused and nothing is written down.
\<close>

theorem upstream_is_recorded:
  assumes "upstream_answer env tc b project frame now s = (answer, s')" and "br_audited b"
  shows "\<exists>kind. ag_audit s' = ag_audit s @
    frame_lines (ae_crypto env) project frame kind (fst (admit_upstream env b project frame now None s))"
proof -
  obtain r s1 where r: "admit_upstream env b project frame now None s = (r, s1)"
    by (cases "admit_upstream env b project frame now None s")
  obtain kind where k: "ag_audit s1 = ag_audit s @ (if early r then [] else frame_lines (ae_crypto env) project frame kind r)"
    using admit_audit [OF r assms(2)] by blast
  show ?thesis
  proof (cases r)
    case (Inl e)
    show ?thesis
    proof (cases "is_refused e")
      case True
      with Inl r k assms(1) show ?thesis by (auto simp: upstream_answer_def early_def)
    next
      case False
      with Inl r k assms other_codes [OF False]
      have "ag_audit s' = ag_audit s @ frame_lines (ae_crypto env) project frame None r"
        by (auto simp: upstream_answer_def early_def record_audit_def frame_lines_def)
      with r show ?thesis by auto
    qed
  next
    case (Inr x)
    show ?thesis
    proof (cases x)
      case (Delivered i d)
      with Inr r k assms(1) show ?thesis by (auto simp: upstream_answer_def early_def)
    next
      case (SnapshotRequested session)
      obtain y s2 where y: "bridge_snapshot env project session s1 = (y, s2)"
        by (cases "bridge_snapshot env project session s1")
      from SnapshotRequested Inr r y assms(1) have "s' = s2"
        by (cases y) (auto simp: upstream_answer_def)
      with snapshot_audit [OF y] SnapshotRequested Inr r k show ?thesis by (auto simp: early_def frame_lines_def)
    qed
  qed
qed

theorem upstream_is_recorded_witness:
  "\<exists>kind. ag_audit (snd (upstream_answer demo_host demo_tunnel_codec demo_bridge (lit ''p'') demo_command_frame
      (lit ''120'') demo_agent)) =
    [DeliveredEvent (hashed_label (ae_crypto demo_host) (se_sender_id demo_command_frame)) (lit ''p'') kind]"
proof -
  obtain x s' where h: "upstream_answer demo_host demo_tunnel_codec demo_bridge (lit ''p'') demo_command_frame
      (lit ''120'') demo_agent = (x, s')"
    by (cases "upstream_answer demo_host demo_tunnel_codec demo_bridge (lit ''p'') demo_command_frame
      (lit ''120'') demo_agent")
  have b: "br_audited demo_bridge" by (simp add: demo_bridge_def)
  have d: "fst (admit_upstream demo_host demo_bridge (lit ''p'') demo_command_frame (lit ''120'') None demo_agent) =
      Inr (Delivered (lit ''c'') (se_sender_id demo_command_frame))"
    by (subst demo_admits) simp
  have n: "ag_audit demo_agent = []" by (simp add: demo_agent_def)
  obtain kind where "ag_audit s' = [DeliveredEvent (hashed_label (ae_crypto demo_host)
      (se_sender_id demo_command_frame)) (lit ''p'') (the kind)]"
    using upstream_is_recorded [OF h b] unfolding d frame_lines_def n Let_def by auto
  with h show ?thesis by simp
qed

end
