(* ===== verification/Relay_State.thy ===== *)
theory Relay_State
  imports Remote_Uploads
begin

text \<open>
  What the relay remembers (services/leveler-relay/src/state.rs): pairings, devices, routing
  tokens, live tunnels and streams.  Every method of the code holds the one lock from start
  to end, so a method is a function of the state and any run of the relay is a sequence of
  them.

  A channel to an agent, to a device or to a waiting request is named by a number; \<open>live\<close>
  says which of them still has a receiver, and what is sent into a live one is appended to
  \<open>rl_sent\<close>.  Random tokens and secrets are arguments.  The 64-bit counter is a natural.
\<close>

definition PAIRING_TTL_SECS :: int where "PAIRING_TTL_SECS = 5 * 60"
definition CONFIRM_TTL_SECS :: int where "CONFIRM_TTL_SECS = 10 * 60"
definition ACCESS_TOKEN_TTL_SECS :: int where "ACCESS_TOKEN_TTL_SECS = 15 * 60"
definition REFRESH_TOKEN_TTL_SECS :: int where "REFRESH_TOKEN_TTL_SECS = 30 * 24 * 60 * 60"

section \<open>Data\<close>

datatype pairing_state = PendingApp | PendingConfirm | PairingActive | PairingRejected | PairingExpired
  | PairingRevoked

record device_claim =
  cl_device_id :: rstr
  cl_pubkey :: rstr
  cl_name :: rstr
  cl_platform :: rstr
  cl_scope :: pairing_scope
  cl_at :: int

record pairing =
  pg_id :: rstr
  pg_runtime :: rstr
  pg_secret_hash :: "byte list"
  pg_state :: pairing_state
  pg_created :: int
  pg_claimed :: "device_claim option"

record device_record =
  dv_id :: rstr
  dv_runtime :: rstr
  dv_pubkey :: rstr
  dv_scope :: pairing_scope
  dv_revoked :: bool

datatype token_use = AccessUse | RefreshUse

record token_claims =
  tk_iss :: rstr
  tk_sub :: rstr
  tk_aud :: rstr
  tk_jti :: rstr
  tk_iat :: int
  tk_exp :: int
  tk_scope :: rstr
  tk_pairing_scope :: pairing_scope
  tk_use :: token_use

datatype relay_error = InvalidPairing | AlreadyPending | RelayNotFound | RelayExpired | Unauthorized
  | RelayRevoked | ReuseDetected | RuntimeOffline | RateLimited

fun relay_error_code :: "relay_error \<Rightarrow> rstr" where
  "relay_error_code InvalidPairing = lit ''invalid_pairing''"
| "relay_error_code AlreadyPending = lit ''already_pending''"
| "relay_error_code RelayNotFound = lit ''not_found''"
| "relay_error_code RelayExpired = lit ''expired''"
| "relay_error_code Unauthorized = lit ''unauthorized''"
| "relay_error_code RelayRevoked = lit ''revoked''"
| "relay_error_code ReuseDetected = lit ''reuse_detected''"
| "relay_error_code RuntimeOffline = lit ''runtime_offline''"
| "relay_error_code RateLimited = lit ''rate_limited''"

fun relay_http_status :: "relay_error \<Rightarrow> nat" where
  "relay_http_status InvalidPairing = 400"
| "relay_http_status RelayExpired = 400"
| "relay_http_status AlreadyPending = 409"
| "relay_http_status RelayNotFound = 404"
| "relay_http_status Unauthorized = 401"
| "relay_http_status RelayRevoked = 401"
| "relay_http_status ReuseDetected = 401"
| "relay_http_status RuntimeOffline = 503"
| "relay_http_status RateLimited = 429"

datatype rpc_outcome = RpcSigned signed_envelope | RpcFailed rstr rstr

record pending_rpc =
  pr_runtime :: rstr
  pr_answer :: nat

record runtime_online =
  on_runtime :: rstr
  on_display :: rstr
  on_agent :: nat

record stream_route =
  sr_device :: rstr
  sr_runtime :: rstr
  sr_app :: nat

datatype relay_out = ToAgent relay_to_agent | ToApp signed_envelope | ToWaiter rpc_outcome

record relay =
  rl_pairings :: "(rstr \<times> pairing) list"
  rl_devices :: "(rstr \<times> device_record) list"
  rl_access :: "rstr \<rightharpoonup> token_claims"
  rl_refresh :: "rstr \<rightharpoonup> token_claims"
  rl_retired :: "rstr \<rightharpoonup> rstr"
  rl_online :: "rstr \<rightharpoonup> runtime_online"
  rl_streams :: "(rstr \<times> stream_route) list"
  rl_keys :: "rstr \<rightharpoonup> rstr"
  rl_nonces :: "rstr \<times> rstr \<rightharpoonup> int"
  rl_attempts :: "rstr \<rightharpoonup> int list"
  rl_pending :: "rstr \<rightharpoonup> pending_rpc"
  rl_counter :: nat
  rl_sent :: "(nat \<times> relay_out) list"

definition relay_new :: relay where
  "relay_new = \<lparr>rl_pairings = [], rl_devices = [], rl_access = Map.empty, rl_refresh = Map.empty,
     rl_retired = Map.empty, rl_online = Map.empty, rl_streams = [], rl_keys = Map.empty,
     rl_nonces = Map.empty, rl_attempts = Map.empty, rl_pending = Map.empty, rl_counter = 0, rl_sent = []\<rparr>"

text \<open>\<open>HashMap::retain\<close>.\<close>

definition retain :: "('k \<Rightarrow> 'v \<Rightarrow> bool) \<Rightarrow> ('k \<rightharpoonup> 'v) \<Rightarrow> 'k \<rightharpoonup> 'v" where
  "retain keep m k = (case m k of None \<Rightarrow> None | Some v \<Rightarrow> if keep k v then Some v else None)"

lemma retain_Some [simp]: "retain keep m k = Some v \<longleftrightarrow> m k = Some v \<and> keep k v"
  by (auto simp: retain_def split: option.splits)

definition constant_time_eq :: "byte list \<Rightarrow> byte list \<Rightarrow> bool" where
  "constant_time_eq a b =
     (if length a \<noteq> length b then False
      else foldl (\<lambda>diff (x, y). or diff (xor x y)) 0 (zip a b) = 0)"

text \<open>A send into a channel; into one without a receiver it is lost.\<close>

definition post :: "(nat \<Rightarrow> bool) \<Rightarrow> nat \<Rightarrow> relay_out \<Rightarrow> relay \<Rightarrow> relay" where
  "post live ch msg s = (if live ch then s\<lparr>rl_sent := rl_sent s @ [(ch, msg)]\<rparr> else s)"

type_synonym 'a relay_call = "relay \<Rightarrow> (relay_error + 'a) \<times> relay"

section \<open>Runtimes, nonces, attempts\<close>

definition enroll_runtime ::
  "crypto \<Rightarrow> byte list option \<Rightarrow> rstr \<Rightarrow> rstr \<Rightarrow> rstr \<Rightarrow> unit relay_call" where
  "enroll_runtime cx secret_hash runtime_id pubkey presented s =
     (case secret_hash of
        None \<Rightarrow> (Inl Unauthorized, s)
      | Some expected \<Rightarrow>
          (if \<not> constant_time_eq expected (cx_sha256 cx (utf8_encode presented)) then (Inl Unauthorized, s)
           else case rl_keys s runtime_id of
                  Some existing \<Rightarrow> (if existing = pubkey then Inr () else Inl Unauthorized, s)
                | None \<Rightarrow> (Inr (), s\<lparr>rl_keys := (rl_keys s)(runtime_id \<mapsto> pubkey)\<rparr>)))"

definition spend_nonce :: "rstr \<Rightarrow> rstr \<Rightarrow> int \<Rightarrow> unit relay_call" where
  "spend_nonce subject_id nonce now s =
     (let s1 = s\<lparr>rl_nonces := retain (\<lambda>k at. now - at < 600) (rl_nonces s)\<rparr>
      in if rl_nonces s1 (subject_id, nonce) \<noteq> None then (Inl Unauthorized, s1)
         else (Inr (), s1\<lparr>rl_nonces := (rl_nonces s1)((subject_id, nonce) \<mapsto> now)\<rparr>))"

definition rate_limit :: "rstr \<Rightarrow> nat \<Rightarrow> int \<Rightarrow> int \<Rightarrow> unit relay_call" where
  "rate_limit bucket limit window_secs now s =
     (let seen = filter (\<lambda>at. now - at < window_secs)
                   (case rl_attempts s bucket of None \<Rightarrow> [] | Some xs \<Rightarrow> xs)
      in if length seen \<ge> limit
         then (Inl RateLimited, s\<lparr>rl_attempts := (rl_attempts s)(bucket \<mapsto> seen)\<rparr>)
         else (Inr (), s\<lparr>rl_attempts := (rl_attempts s)(bucket \<mapsto> seen @ [now])\<rparr>))"

section \<open>Pairing\<close>

definition begin_pairing :: "crypto \<Rightarrow> rstr \<Rightarrow> rstr \<Rightarrow> int \<Rightarrow> (rstr \<times> rstr) relay_call" where
  "begin_pairing cx secret runtime_id now s =
     (let others = filter (\<lambda>(i, p). pg_runtime p \<noteq> runtime_id) (rl_pairings s);
          n = rl_counter s + 1;
          pairing_id = lit ''pair_'' @ show_nat n
      in (Inr (pairing_id, secret),
          s\<lparr>rl_counter := n,
            rl_pairings := table_put pairing_id
              \<lparr>pg_id = pairing_id, pg_runtime = runtime_id,
               pg_secret_hash = cx_sha256 cx (utf8_encode secret), pg_state = PendingApp,
               pg_created = now, pg_claimed = None\<rparr> others\<rparr>))"

definition claims_secret :: "byte list \<Rightarrow> rstr \<times> pairing \<Rightarrow> bool" where
  "claims_secret presented x \<longleftrightarrow>
     pg_state (snd x) = PendingApp \<and> constant_time_eq (pg_secret_hash (snd x)) presented"

definition claim_pairing :: "crypto \<Rightarrow> rstr \<Rightarrow> device_claim \<Rightarrow> int \<Rightarrow> pairing relay_call" where
  "claim_pairing cx secret claim now s =
     (case find (claims_secret (cx_sha256 cx (utf8_encode secret))) (rl_pairings s) of
        None \<Rightarrow> (Inl InvalidPairing, s)
      | Some (i, p) \<Rightarrow>
          (if now - pg_created p > PAIRING_TTL_SECS
           then (Inl RelayExpired,
                 s\<lparr>rl_pairings := table_put i (p\<lparr>pg_state := PairingExpired\<rparr>) (rl_pairings s)\<rparr>)
           else (let p' = p\<lparr>pg_state := PendingConfirm, pg_claimed := Some (claim\<lparr>cl_at := now\<rparr>)\<rparr>
                 in (Inr p', s\<lparr>rl_pairings := table_put i p' (rl_pairings s)\<rparr>))))"

definition pending_confirm_for :: "rstr \<Rightarrow> relay \<Rightarrow> pairing option" where
  "pending_confirm_for runtime_id s =
     map_option snd (find (\<lambda>(i, p). pg_runtime p = runtime_id \<and> pg_state p = PendingConfirm) (rl_pairings s))"

definition confirm_pairing :: "rstr \<Rightarrow> rstr \<Rightarrow> bool \<Rightarrow> int \<Rightarrow> unit relay_call" where
  "confirm_pairing pairing_id runtime_id accept now s =
     (case map_of (rl_pairings s) pairing_id of
        None \<Rightarrow> (Inl RelayNotFound, s)
      | Some p \<Rightarrow>
          if pg_runtime p \<noteq> runtime_id then (Inl RelayNotFound, s)
          else if pg_state p \<noteq> PendingConfirm then (Inl RelayNotFound, s)
          else case pg_claimed p of
                 None \<Rightarrow> (Inl RelayNotFound, s)
               | Some c \<Rightarrow>
                   if now - cl_at c > CONFIRM_TTL_SECS
                   then (Inl RelayExpired,
                         s\<lparr>rl_pairings := table_put pairing_id (p\<lparr>pg_state := PairingExpired\<rparr>) (rl_pairings s)\<rparr>)
                   else if \<not> accept
                   then (Inr (),
                         s\<lparr>rl_pairings := table_put pairing_id (p\<lparr>pg_state := PairingRejected\<rparr>) (rl_pairings s)\<rparr>)
                   else (Inr (),
                         s\<lparr>rl_pairings := table_put pairing_id (p\<lparr>pg_state := PairingActive\<rparr>) (rl_pairings s),
                           rl_devices := table_put (cl_device_id c)
                             \<lparr>dv_id = cl_device_id c, dv_runtime = pg_runtime p, dv_pubkey = cl_pubkey c,
                              dv_scope = cl_scope c, dv_revoked = False\<rparr> (rl_devices s)\<rparr>))"

section \<open>Devices\<close>

definition relay_device :: "rstr \<Rightarrow> relay \<Rightarrow> device_record option" where
  "relay_device device_id s = map_of (rl_devices s) device_id"

definition devices_for :: "rstr \<Rightarrow> relay \<Rightarrow> device_record list" where
  "devices_for runtime_id s = filter (\<lambda>d. dv_runtime d = runtime_id) (map snd (rl_devices s))"

definition relay_close_stream :: "(nat \<Rightarrow> bool) \<Rightarrow> rstr \<Rightarrow> rstr \<Rightarrow> relay \<Rightarrow> relay" where
  "relay_close_stream live stream_id reason s =
     (case map_of (rl_streams s) stream_id of
        None \<Rightarrow> s
      | Some r \<Rightarrow>
          (let s1 = s\<lparr>rl_streams := AList.delete stream_id (rl_streams s)\<rparr>
           in case rl_online s (sr_runtime r) of
                None \<Rightarrow> s1
              | Some h \<Rightarrow> post live (on_agent h) (ToAgent (CloseStream stream_id reason)) s1))"

definition streams_for_device :: "rstr \<Rightarrow> relay \<Rightarrow> rstr list" where
  "streams_for_device device_id s = map fst (filter (\<lambda>(i, r). sr_device r = device_id) (rl_streams s))"

definition revoke_relay_device :: "(nat \<Rightarrow> bool) \<Rightarrow> rstr \<Rightarrow> rstr \<Rightarrow> unit relay_call" where
  "revoke_relay_device live device_id runtime_id s =
     (case map_of (rl_devices s) device_id of
        None \<Rightarrow> (Inl RelayNotFound, s)
      | Some d \<Rightarrow>
          if dv_runtime d \<noteq> runtime_id then (Inl RelayNotFound, s)
          else (let s1 = s\<lparr>rl_devices := table_put device_id (d\<lparr>dv_revoked := True\<rparr>) (rl_devices s),
                           rl_access := retain (\<lambda>k c. tk_sub c \<noteq> device_id) (rl_access s),
                           rl_refresh := retain (\<lambda>k c. tk_sub c \<noteq> device_id) (rl_refresh s)\<rparr>
                in (Inr (), fold (\<lambda>i. relay_close_stream live i (lit ''revoked''))
                              (streams_for_device device_id s1) s1)))"

section \<open>Tokens\<close>

definition mint_pair ::
  "rstr \<Rightarrow> rstr \<Rightarrow> rstr \<Rightarrow> rstr \<Rightarrow> pairing_scope \<Rightarrow> int \<Rightarrow> relay \<Rightarrow> (rstr \<times> rstr) \<times> relay" where
  "mint_pair access refresh device_id runtime_id scope now s =
     (let n = rl_counter s + 1;
          base = \<lparr>tk_iss = lit ''leveler-relay'', tk_sub = device_id, tk_aud = runtime_id,
                  tk_jti = lit ''jti_'' @ show_nat n, tk_iat = now,
                  tk_exp = now + ACCESS_TOKEN_TTL_SECS, tk_scope = lit ''remote.session'',
                  tk_pairing_scope = scope, tk_use = AccessUse\<rparr>
      in ((access, refresh),
          s\<lparr>rl_counter := n, rl_access := (rl_access s)(access \<mapsto> base),
            rl_refresh := (rl_refresh s)(refresh \<mapsto>
              base\<lparr>tk_exp := now + REFRESH_TOKEN_TTL_SECS, tk_use := RefreshUse\<rparr>)\<rparr>))"

definition issue_tokens ::
  "rstr \<Rightarrow> rstr \<Rightarrow> rstr \<Rightarrow> rstr \<Rightarrow> int \<Rightarrow> (rstr \<times> rstr \<times> pairing_scope) relay_call" where
  "issue_tokens access refresh device_id runtime_id now s =
     (case map_of (rl_devices s) device_id of
        None \<Rightarrow> (Inl Unauthorized, s)
      | Some d \<Rightarrow>
          if dv_revoked d then (Inl RelayRevoked, s)
          else if dv_runtime d \<noteq> runtime_id then (Inl Unauthorized, s)
          else (case mint_pair access refresh device_id runtime_id (dv_scope d) now s of
                  ((a, r), s') \<Rightarrow> (Inr (a, r, dv_scope d), s')))"

definition rotate_refresh ::
  "rstr \<Rightarrow> rstr \<Rightarrow> rstr \<Rightarrow> rstr \<Rightarrow> int \<Rightarrow> (rstr \<times> rstr) relay_call" where
  "rotate_refresh access refresh presented asserting now s =
     (case rl_retired s presented of
        Some device_id \<Rightarrow>
          (Inl ReuseDetected,
           s\<lparr>rl_access := retain (\<lambda>k c. tk_sub c \<noteq> device_id) (rl_access s),
             rl_refresh := retain (\<lambda>k c. tk_sub c \<noteq> device_id) (rl_refresh s)\<rparr>)
      | None \<Rightarrow>
          (case rl_refresh s presented of
             None \<Rightarrow> (Inl Unauthorized, s)
           | Some c \<Rightarrow>
               (let s1 = s\<lparr>rl_refresh := (rl_refresh s)(presented := None)\<rparr>
                in if tk_exp c \<le> now then (Inl RelayExpired, s1)
                   else if tk_sub c \<noteq> asserting then (Inl Unauthorized, s1)
                   else case map_of (rl_devices s1) (tk_sub c) of
                          None \<Rightarrow> (Inl Unauthorized, s1)
                        | Some d \<Rightarrow>
                            if dv_revoked d then (Inl RelayRevoked, s1)
                            else (case mint_pair access refresh (tk_sub c) (tk_aud c) (tk_pairing_scope c) now
                                    (s1\<lparr>rl_retired := (rl_retired s1)(presented \<mapsto> tk_sub c)\<rparr>) of
                                    (pair, s2) \<Rightarrow> (Inr pair, s2)))))"

definition authorize :: "rstr \<Rightarrow> rstr option \<Rightarrow> int \<Rightarrow> relay \<Rightarrow> relay_error + token_claims" where
  "authorize token expected_runtime now s =
     (case rl_access s token of
        None \<Rightarrow> Inl Unauthorized
      | Some c \<Rightarrow>
          if tk_exp c \<le> now then Inl Unauthorized
          else if (case expected_runtime of None \<Rightarrow> False | Some rt \<Rightarrow> tk_aud c \<noteq> rt) then Inl Unauthorized
          else case map_of (rl_devices s) (tk_sub c) of
                 None \<Rightarrow> Inl Unauthorized
               | Some d \<Rightarrow> if dv_revoked d then Inl RelayRevoked else Inr c)"

section \<open>Tunnels, streams and requests\<close>

definition register_runtime :: "rstr \<Rightarrow> rstr \<Rightarrow> nat \<Rightarrow> relay \<Rightarrow> relay" where
  "register_runtime runtime_id display_name agent s =
     s\<lparr>rl_online := (rl_online s)(runtime_id \<mapsto>
        \<lparr>on_runtime = runtime_id, on_display = display_name, on_agent = agent\<rparr>)\<rparr>"

definition unregister_runtime :: "rstr \<Rightarrow> relay \<Rightarrow> relay" where
  "unregister_runtime runtime_id s =
     s\<lparr>rl_online := (rl_online s)(runtime_id := None),
       rl_streams := filter (\<lambda>(i, r). sr_runtime r \<noteq> runtime_id) (rl_streams s),
       rl_pending := retain (\<lambda>k p. pr_runtime p \<noteq> runtime_id) (rl_pending s)\<rparr>"

definition begin_rpc :: "(nat \<Rightarrow> bool) \<Rightarrow> rstr \<Rightarrow> signed_envelope \<Rightarrow> nat \<Rightarrow> rstr relay_call" where
  "begin_rpc live runtime_id envelope answer s =
     (case rl_online s runtime_id of
        None \<Rightarrow> (Inl RuntimeOffline, s)
      | Some h \<Rightarrow>
          (let n = rl_counter s + 1;
               rpc_id = lit ''rpc_'' @ show_nat n;
               s1 = s\<lparr>rl_counter := n,
                      rl_pending := (rl_pending s)(rpc_id \<mapsto> \<lparr>pr_runtime = runtime_id, pr_answer = answer\<rparr>)\<rparr>
           in if live (on_agent h) then (Inr rpc_id, post live (on_agent h) (ToAgent (RpcRequest rpc_id envelope)) s1)
              else (Inl RuntimeOffline, s1)))"

text \<open>The outcome comes back when nobody waits for it.\<close>

definition complete_rpc ::
  "(nat \<Rightarrow> bool) \<Rightarrow> rstr \<Rightarrow> rpc_outcome \<Rightarrow> relay \<Rightarrow> rpc_outcome option \<times> relay" where
  "complete_rpc live rpc_id outcome s =
     (case rl_pending s rpc_id of
        None \<Rightarrow> (Some outcome, s)
      | Some p \<Rightarrow>
          (None, post live (pr_answer p) (ToWaiter outcome) (s\<lparr>rl_pending := (rl_pending s)(rpc_id := None)\<rparr>)))"

definition relay_open_stream ::
  "(nat \<Rightarrow> bool) \<Rightarrow> rstr \<Rightarrow> rstr \<Rightarrow> rstr option \<Rightarrow> pairing_scope \<Rightarrow> rstr \<Rightarrow> nat \<Rightarrow> rstr relay_call" where
  "relay_open_stream live device_id runtime_id project_id scope jti app s =
     (case rl_online s runtime_id of
        None \<Rightarrow> (Inl RuntimeOffline, s)
      | Some h \<Rightarrow>
          (let n = rl_counter s + 1;
               stream_id = lit ''str_'' @ show_nat n
           in (Inr stream_id,
               post live (on_agent h) (ToAgent (OpenStream stream_id device_id scope jti project_id))
                 (s\<lparr>rl_counter := n,
                    rl_streams := table_put stream_id
                      \<lparr>sr_device = device_id, sr_runtime = runtime_id, sr_app = app\<rparr> (rl_streams s)\<rparr>))))"

definition forward_upstream :: "(nat \<Rightarrow> bool) \<Rightarrow> rstr \<Rightarrow> signed_envelope \<Rightarrow> unit relay_call" where
  "forward_upstream live stream_id frame s =
     (case map_of (rl_streams s) stream_id of
        None \<Rightarrow> (Inl RelayNotFound, s)
      | Some r \<Rightarrow>
          (case rl_online s (sr_runtime r) of
             None \<Rightarrow> (Inl RuntimeOffline, s)
           | Some h \<Rightarrow>
               (if live (on_agent h)
                then (Inr (), post live (on_agent h) (ToAgent (ForwardUpstream stream_id frame)) s)
                else (Inl RuntimeOffline, s))))"

definition forward_downstream :: "(nat \<Rightarrow> bool) \<Rightarrow> rstr \<Rightarrow> signed_envelope \<Rightarrow> unit relay_call" where
  "forward_downstream live stream_id frame s =
     (case map_of (rl_streams s) stream_id of
        None \<Rightarrow> (Inl RelayNotFound, s)
      | Some r \<Rightarrow> (if live (sr_app r) then (Inr (), post live (sr_app r) (ToApp frame) s)
                    else (Inl RelayNotFound, s)))"

definition is_online :: "rstr \<Rightarrow> relay \<Rightarrow> bool" where
  "is_online runtime_id s \<longleftrightarrow> rl_online s runtime_id \<noteq> None"

definition require_online :: "rstr \<Rightarrow> relay \<Rightarrow> relay_error + runtime_online" where
  "require_online runtime_id s =
     (case rl_online s runtime_id of None \<Rightarrow> Inl RuntimeOffline | Some h \<Rightarrow> Inr h)"

definition hosts_for_device :: "rstr \<Rightarrow> relay \<Rightarrow> runtime_online list" where
  "hosts_for_device device_id s =
     (case map_of (rl_devices s) device_id of
        None \<Rightarrow> []
      | Some d \<Rightarrow> (case rl_online s (dv_runtime d) of None \<Rightarrow> [] | Some h \<Rightarrow> [h]))"

end
