(* ===== verification/Relay_Routes.thy ===== *)
theory Relay_Routes
  imports Relay_State
begin

text \<open>
  The relay's HTTP surface and its two sockets (services/leveler-relay/src/routes.rs,
  tunnel.rs): who may call a method of the state, and what a frame of an agent does.

  A header is its text if it is there and readable, a body its fields.  A handler reads the
  clock several times: \<open>clk\<close> gives each reading, 0 the one a timestamp is compared with, 1 the
  one a nonce is spent at.
\<close>

section \<open>Handlers\<close>

definition giving :: "'a \<Rightarrow> 'a relay_call" where
  "giving x s = (Inr x, s)"

definition failing :: "relay_error \<Rightarrow> 'a relay_call" where
  "failing e s = (Inl e, s)"

definition run_then :: "'a relay_call \<Rightarrow> ('a \<Rightarrow> 'b relay_call) \<Rightarrow> 'b relay_call" where
  "run_then m f s = (case m s of (Inl e, s') \<Rightarrow> (Inl e, s') | (Inr x, s') \<Rightarrow> f x s')"

definition pure_call :: "relay_error + 'a \<Rightarrow> 'a relay_call" where
  "pure_call r s = (r, s)"

definition some_or :: "relay_error \<Rightarrow> 'a option \<Rightarrow> 'a relay_call" where
  "some_or e x s = ((case x of None \<Rightarrow> Inl e | Some y \<Rightarrow> Inr y), s)"

definition ensure :: "relay_error \<Rightarrow> bool \<Rightarrow> unit relay_call" where
  "ensure e b s = (if b then Inr () else Inl e, s)"

definition verify_signature :: "crypto \<Rightarrow> byte list \<Rightarrow> byte list \<Rightarrow> rstr \<Rightarrow> relay_error + unit" where
  "verify_signature cx key message sig =
     (case cx_unb64 cx sig of
        None \<Rightarrow> Inl Unauthorized
      | Some s \<Rightarrow> if cx_check cx key message s then Inr () else Inl Unauthorized)"

definition within_window :: "crypto \<Rightarrow> int \<Rightarrow> rstr \<Rightarrow> relay_error + unit" where
  "within_window cx now timestamp =
     (case cx_time cx timestamp of
        None \<Rightarrow> Inl Unauthorized
      | Some t \<Rightarrow> if \<bar>now - t\<bar> > TIMESTAMP_WINDOW_SECS then Inl Unauthorized else Inr ())"

definition require_valid_id :: "rstr \<Rightarrow> relay_error + unit" where
  "require_valid_id i = (if id_is_valid i then Inr () else Inl InvalidPairing)"

definition relay_key :: "crypto \<Rightarrow> rstr \<Rightarrow> relay_error + byte list" where
  "relay_key cx encoded =
     (case key_from_base64url cx encoded of Inl e \<Rightarrow> Inl Unauthorized | Inr k \<Rightarrow> Inr k)"

definition bearer :: "rstr option \<Rightarrow> relay_error + rstr" where
  "bearer header =
     (case header of
        None \<Rightarrow> Inl Unauthorized
      | Some v \<Rightarrow> (case strip_prefix (lit ''Bearer '') v of None \<Rightarrow> Inl Unauthorized | Some t \<Rightarrow> Inr t))"

section \<open>Runtimes\<close>

definition asserted :: "rstr option \<Rightarrow> rstr \<Rightarrow> (rstr \<times> rstr \<times> rstr) relay_call" where
  "asserted header runtime_id =
     run_then (some_or Unauthorized header) (\<lambda>v.
     run_then (some_or Unauthorized (parse_runtime_header v)) (\<lambda>(i, timestamp, nonce, sig).
     run_then (ensure Unauthorized (i = runtime_id)) (\<lambda>u.
     giving (timestamp, nonce, sig))))"

definition check_assertion ::
  "crypto \<Rightarrow> (nat \<Rightarrow> int) \<Rightarrow> rstr \<Rightarrow> rstr \<Rightarrow> byte list \<Rightarrow> rstr \<times> rstr \<times> rstr \<Rightarrow> unit relay_call" where
  "check_assertion cx clk action runtime_id key a =
     (case a of (timestamp, nonce, sig) \<Rightarrow>
        run_then (pure_call (verify_signature cx key
          (utf8_encode (runtime_signing_input action runtime_id timestamp nonce)) sig)) (\<lambda>u.
        run_then (pure_call (within_window cx (clk 0) timestamp)) (\<lambda>u.
        spend_nonce runtime_id nonce (clk 1))))"

definition runtime_auth ::
  "crypto \<Rightarrow> (nat \<Rightarrow> int) \<Rightarrow> rstr option \<Rightarrow> rstr \<Rightarrow> rstr \<Rightarrow> unit relay_call" where
  "runtime_auth cx clk header action runtime_id =
     run_then (asserted header runtime_id) (\<lambda>a s.
     run_then (some_or Unauthorized (rl_keys s runtime_id)) (\<lambda>pubkey.
     run_then (pure_call (relay_key cx pubkey)) (\<lambda>key.
     check_assertion cx clk action runtime_id key a)) s)"

definition enroll_route ::
  "crypto \<Rightarrow> byte list option \<Rightarrow> (nat \<Rightarrow> int) \<Rightarrow> rstr option \<Rightarrow> rstr option \<Rightarrow> rstr \<Rightarrow> rstr \<Rightarrow> unit relay_call" where
  "enroll_route cx secret_hash clk auth header runtime_id pubkey =
     run_then (rate_limit (lit ''enroll'') 10 60 (clk 2)) (\<lambda>u.
     run_then (pure_call (require_valid_id runtime_id)) (\<lambda>u.
     run_then (pure_call (bearer auth)) (\<lambda>secret.
     run_then (asserted header runtime_id) (\<lambda>a.
     run_then (pure_call (relay_key cx pubkey)) (\<lambda>key.
     run_then (check_assertion cx clk (lit ''enroll'') runtime_id key a) (\<lambda>u.
     enroll_runtime cx secret_hash runtime_id pubkey secret))))))"

section \<open>Pairing and devices\<close>

definition pair_begin ::
  "crypto \<Rightarrow> rstr \<Rightarrow> (nat \<Rightarrow> int) \<Rightarrow> rstr option \<Rightarrow> rstr \<Rightarrow> (rstr \<times> rstr) relay_call" where
  "pair_begin cx secret clk header runtime_id =
     run_then (runtime_auth cx clk header (lit ''pair_begin'') runtime_id) (\<lambda>u.
     begin_pairing cx secret runtime_id (clk 2))"

definition pair_complete ::
  "crypto \<Rightarrow> (nat \<Rightarrow> int) \<Rightarrow> rstr \<Rightarrow> device_claim \<Rightarrow> rstr relay_call" where
  "pair_complete cx clk secret claim =
     run_then (rate_limit (lit ''pair_complete'') 10 60 (clk 0)) (\<lambda>u.
     run_then (pure_call (require_valid_id (cl_device_id claim))) (\<lambda>u.
     run_then (claim_pairing cx secret claim (clk 1)) (\<lambda>p.
     giving (pg_id p))))"

text \<open>\<open>None\<close> is the panic of the expectation that a claimed pairing names its device.\<close>

definition pair_pending ::
  "crypto \<Rightarrow> (nat \<Rightarrow> int) \<Rightarrow> rstr option \<Rightarrow> rstr \<Rightarrow> relay
     \<Rightarrow> ((relay_error + (rstr \<times> device_claim) option) option) \<times> relay" where
  "pair_pending cx clk header runtime_id s =
     (case runtime_auth cx clk header (lit ''pair_pending'') runtime_id s of
        (Inl e, s') \<Rightarrow> (Some (Inl e), s')
      | (Inr u, s') \<Rightarrow>
          ((case pending_confirm_for runtime_id s' of
              None \<Rightarrow> Some (Inr None)
            | Some p \<Rightarrow> (case pg_claimed p of
                           None \<Rightarrow> None
                         | Some c \<Rightarrow> Some (Inr (Some (pg_id p, c))))), s'))"

definition pair_confirm ::
  "crypto \<Rightarrow> (nat \<Rightarrow> int) \<Rightarrow> rstr option \<Rightarrow> rstr \<Rightarrow> rstr \<Rightarrow> bool \<Rightarrow> unit relay_call" where
  "pair_confirm cx clk header runtime_id pairing_id accept =
     run_then (runtime_auth cx clk header (lit ''pair_confirm'') runtime_id) (\<lambda>u.
     confirm_pairing pairing_id runtime_id accept (clk 2))"

definition list_devices ::
  "crypto \<Rightarrow> (nat \<Rightarrow> int) \<Rightarrow> rstr option \<Rightarrow> rstr \<Rightarrow> device_record list relay_call" where
  "list_devices cx clk header runtime_id =
     run_then (runtime_auth cx clk header (lit ''devices_list'') runtime_id) (\<lambda>u s.
     (Inr (devices_for runtime_id s), s))"

definition revoke_route ::
  "crypto \<Rightarrow> (nat \<Rightarrow> bool) \<Rightarrow> (nat \<Rightarrow> int) \<Rightarrow> rstr option \<Rightarrow> rstr \<Rightarrow> rstr \<Rightarrow> unit relay_call" where
  "revoke_route cx live clk header runtime_id device_id =
     run_then (runtime_auth cx clk header (lit ''device_revoke'') runtime_id) (\<lambda>u.
     revoke_relay_device live device_id runtime_id)"

section \<open>Tokens\<close>

definition live_device :: "rstr \<Rightarrow> device_record relay_call" where
  "live_device device_id s =
     (case relay_device device_id s of
        None \<Rightarrow> (Inl Unauthorized, s)
      | Some d \<Rightarrow> (if dv_revoked d then Inl RelayRevoked else Inr d, s))"

definition auth_session ::
  "crypto \<Rightarrow> rstr \<Rightarrow> rstr \<Rightarrow> (nat \<Rightarrow> int) \<Rightarrow> rstr \<Rightarrow> rstr \<Rightarrow> rstr \<Rightarrow> rstr \<Rightarrow> rstr
     \<Rightarrow> (rstr \<times> rstr \<times> pairing_scope) relay_call" where
  "auth_session cx access refresh clk device_id runtime_id timestamp nonce sig =
     run_then (rate_limit (lit ''auth_session'') 20 60 (clk 2)) (\<lambda>u.
     run_then (pure_call (require_valid_id device_id)) (\<lambda>u.
     run_then (pure_call (require_valid_id runtime_id)) (\<lambda>u.
     run_then (live_device device_id) (\<lambda>d.
     run_then (pure_call (relay_key cx (dv_pubkey d))) (\<lambda>key.
     run_then (pure_call (verify_signature cx key
       (utf8_encode (session_signing_input device_id runtime_id timestamp nonce)) sig)) (\<lambda>u.
     run_then (pure_call (within_window cx (clk 0) timestamp)) (\<lambda>u.
     run_then (spend_nonce device_id nonce (clk 1)) (\<lambda>u.
     issue_tokens access refresh device_id runtime_id (clk 3)))))))))"

text \<open>The body of a refresh: the token, the device, its timestamp and its signature.\<close>

definition auth_refresh ::
  "crypto \<Rightarrow> rstr \<Rightarrow> rstr \<Rightarrow> (nat \<Rightarrow> int) \<Rightarrow> (rstr \<times> rstr \<times> rstr \<times> rstr) option
     \<Rightarrow> (rstr \<times> rstr) relay_call" where
  "auth_refresh cx access refresh clk body =
     run_then (rate_limit (lit ''auth_refresh'') 30 60 (clk 2)) (\<lambda>u.
     run_then (some_or Unauthorized body) (\<lambda>(token, device_id, timestamp, sig).
     run_then (live_device device_id) (\<lambda>d.
     run_then (pure_call (relay_key cx (dv_pubkey d))) (\<lambda>key.
     run_then (pure_call (verify_signature cx key
       (utf8_encode (device_signing_input device_id timestamp)) sig)) (\<lambda>u.
     run_then (pure_call (within_window cx (clk 0) timestamp)) (\<lambda>u.
     rotate_refresh access refresh token (dv_id d) (clk 3)))))))"

section \<open>Hosts\<close>

definition list_hosts :: "(nat \<Rightarrow> int) \<Rightarrow> rstr option \<Rightarrow> (rstr \<times> rstr) list relay_call" where
  "list_hosts clk auth =
     run_then (pure_call (bearer auth)) (\<lambda>token s.
       (case authorize token None (clk 0) s of
          Inl e \<Rightarrow> (Inl e, s)
        | Inr c \<Rightarrow> (Inr (map (\<lambda>h. (on_runtime h, on_display h)) (hosts_for_device (tk_sub c) s)), s)))"

text \<open>A request up to the wait, and the answer after it: \<open>None\<close> is a dropped sender or the timeout.\<close>

definition host_rpc ::
  "(nat \<Rightarrow> bool) \<Rightarrow> (nat \<Rightarrow> int) \<Rightarrow> rstr \<Rightarrow> rstr option \<Rightarrow> signed_envelope option \<Rightarrow> nat \<Rightarrow> rstr relay_call" where
  "host_rpc live clk host_id auth body answer =
     run_then (pure_call (bearer auth)) (\<lambda>token s.
     run_then (pure_call (authorize token (Some host_id) (clk 0) s)) (\<lambda>c.
     run_then (some_or InvalidPairing body) (\<lambda>envelope.
     run_then (ensure Unauthorized (se_sender_id envelope = tk_sub c \<and> se_recipient_id envelope = host_id)) (\<lambda>u.
     begin_rpc live host_id envelope answer))) s)"

datatype rpc_reply = RpcBody signed_envelope | RpcBadGateway rstr rstr | RpcRefused relay_error

fun rpc_answered :: "rpc_outcome option \<Rightarrow> rpc_reply" where
  "rpc_answered (Some (RpcSigned e)) = RpcBody e"
| "rpc_answered (Some (RpcFailed code message)) = RpcBadGateway code message"
| "rpc_answered None = RpcRefused RuntimeOffline"

section \<open>The sockets\<close>

definition agent_tunnel_auth :: "crypto \<Rightarrow> int \<Rightarrow> rstr \<Rightarrow> rstr \<Rightarrow> rstr \<Rightarrow> unit relay_call" where
  "agent_tunnel_auth cx now runtime_id timestamp sig s =
     run_then (some_or Unauthorized (rl_keys s runtime_id)) (\<lambda>pubkey.
     run_then (pure_call (relay_key cx pubkey)) (\<lambda>key.
     run_then (pure_call (verify_signature cx key
       (utf8_encode (register_signing_input runtime_id timestamp)) sig)) (\<lambda>u.
     pure_call (within_window cx now timestamp)))) s"

definition handle_agent_frame :: "(nat \<Rightarrow> bool) \<Rightarrow> agent_to_relay \<Rightarrow> relay \<Rightarrow> relay" where
  "handle_agent_frame live frame s =
     (case frame of
        ForwardDownstream stream_id envelope \<Rightarrow> snd (forward_downstream live stream_id envelope s)
      | RpcResponse rpc_id envelope err \<Rightarrow>
          (case envelope of
             Some e \<Rightarrow>
               (case complete_rpc live rpc_id (RpcSigned e) s of
                  (None, s') \<Rightarrow> s'
                | (Some x, s') \<Rightarrow> snd (forward_downstream live (se_stream_id e) e s'))
           | None \<Rightarrow> (case err of
                        None \<Rightarrow> s
                      | Some (code, message) \<Rightarrow> snd (complete_rpc live rpc_id (RpcFailed code message) s)))
      | StreamRejected stream_id code \<Rightarrow> relay_close_stream live stream_id code s
      | StreamClosedByAgent stream_id reason \<Rightarrow> relay_close_stream live stream_id reason s
      | _ \<Rightarrow> s)"

text \<open>
  The tunnel of an agent, from its registration on.  Its loop ends when the socket does, and
  also when nobody holds the sender of its outbox any more: the only one that is kept is in
  the registration of its runtime.
\<close>

definition serve_agent_start :: "rstr \<Rightarrow> rstr option \<Rightarrow> nat \<Rightarrow> relay \<Rightarrow> relay" where
  "serve_agent_start runtime_id display_name ch s =
     register_runtime runtime_id (case display_name of None \<Rightarrow> runtime_id | Some n \<Rightarrow> n) ch s"

definition outbox_dropped :: "rstr \<Rightarrow> nat \<Rightarrow> relay \<Rightarrow> bool" where
  "outbox_dropped runtime_id ch s =
     (case rl_online s runtime_id of None \<Rightarrow> True | Some h \<Rightarrow> on_agent h \<noteq> ch)"

definition serve_agent_end :: "rstr \<Rightarrow> relay \<Rightarrow> relay" where
  "serve_agent_end runtime_id s = unregister_runtime runtime_id s"

text \<open>The session of a device: the check before the upgrade, and the stream after it.\<close>

definition app_session_auth :: "int \<Rightarrow> rstr \<Rightarrow> rstr option \<Rightarrow> token_claims relay_call" where
  "app_session_auth now host_id auth =
     run_then (pure_call (bearer auth)) (\<lambda>token s.
     run_then (pure_call (authorize token (Some host_id) now s)) (\<lambda>c.
     run_then (pure_call (require_online host_id s)) (\<lambda>h. giving c)) s)"

definition serve_app_start ::
  "(nat \<Rightarrow> bool) \<Rightarrow> rstr \<Rightarrow> rstr option \<Rightarrow> token_claims \<Rightarrow> nat \<Rightarrow> rstr relay_call" where
  "serve_app_start live host_id project_id c app =
     relay_open_stream live (tk_sub c) host_id project_id (tk_pairing_scope c) (tk_jti c) app"

end
