(* ===== verification/Relay_Correct.thy ===== *)
theory Relay_Correct
  imports Relay_Routes Remote_Protocol_Correct Interfaces
begin

text \<open>
  What the relay guarantees over any sequence of calls, and where it does not: tokens of a
  revoked device are worth nothing, a refresh token is spent once, an assertion is used
  once, nothing is kept for a host that is not connected; but an agent that reconnects takes
  itself offline, and a device paired with a second host keeps its access to the first.
\<close>

section \<open>Basics\<close>

lemma xor_zero_iff: "xor x y = 0 \<longleftrightarrow> x = (y :: nat)"
  by (simp add: bit_eq_iff [of "xor x y" 0] bit_eq_iff [of x y] bit_xor_iff)

lemma or_zero_iff: "or x y = 0 \<longleftrightarrow> x = 0 \<and> y = (0 :: nat)"
  by (simp add: bit_eq_iff [of "or x y" 0] bit_eq_iff [of x 0] bit_eq_iff [of y 0] bit_or_iff all_conj_distrib)

lemma fold_diff: "foldl (\<lambda>diff (x, y). or diff (xor x y)) d ps = 0 \<longleftrightarrow>
    d = (0 :: nat) \<and> (\<forall>(x, y) \<in> set ps. x = y)"
proof (induction ps arbitrary: d)
  case (Cons p ps)
  obtain x y where p: "p = (x, y)" by (cases p)
  have "foldl (\<lambda>diff (x, y). or diff (xor x y)) d (p # ps) = 0 \<longleftrightarrow>
      or d (xor x y) = 0 \<and> (\<forall>(x, y) \<in> set ps. x = y)"
    using Cons.IH [of "or d (xor x y)"] by (simp add: p)
  also have "\<dots> \<longleftrightarrow> d = 0 \<and> (\<forall>(x, y) \<in> set (p # ps). x = y)"
    unfolding or_zero_iff xor_zero_iff by (simp add: p)
  finally show ?case .
qed simp

lemma constant_time_eq_iff: "constant_time_eq a b \<longleftrightarrow> a = b"
proof (cases "length a = length b")
  case True
  have "(\<forall>(x, y) \<in> set (zip a b). x = y) \<longleftrightarrow> a = b"
    using True by (induction a b rule: list_induct2) auto
  with True show ?thesis by (simp add: constant_time_eq_def fold_diff)
qed (auto simp: constant_time_eq_def)

section \<open>Runs\<close>

text \<open>A call of a method of the state, by whichever handler.\<close>

datatype relay_act =
    Enroll "byte list option" rstr rstr rstr
  | Spend rstr rstr int
  | Limit rstr nat int int
  | BeginPairing rstr rstr int
  | Claim rstr device_claim int
  | Confirm rstr rstr bool int
  | Revoke rstr rstr
  | Issue rstr rstr rstr rstr int
  | Rotate rstr rstr rstr rstr int
  | Register rstr rstr nat
  | Unregister rstr
  | BeginRpc rstr signed_envelope nat
  | CompleteRpc rstr rpc_outcome
  | OpenApp rstr rstr "rstr option" pairing_scope rstr nat
  | CloseApp rstr rstr
  | Upstream rstr signed_envelope
  | Downstream rstr signed_envelope

fun relay_apply :: "crypto \<Rightarrow> (nat \<Rightarrow> bool) \<Rightarrow> relay_act \<Rightarrow> relay \<Rightarrow> relay" where
  "relay_apply cx live (Enroll h rt k x) s = snd (enroll_runtime cx h rt k x s)"
| "relay_apply cx live (Spend subj n now) s = snd (spend_nonce subj n now s)"
| "relay_apply cx live (Limit b l w now) s = snd (rate_limit b l w now s)"
| "relay_apply cx live (BeginPairing x rt now) s = snd (begin_pairing cx x rt now s)"
| "relay_apply cx live (Claim x c now) s = snd (claim_pairing cx x c now s)"
| "relay_apply cx live (Confirm i rt a now) s = snd (confirm_pairing i rt a now s)"
| "relay_apply cx live (Revoke d rt) s = snd (revoke_relay_device live d rt s)"
| "relay_apply cx live (Issue a r d rt now) s = snd (issue_tokens a r d rt now s)"
| "relay_apply cx live (Rotate a r tok d now) s = snd (rotate_refresh a r tok d now s)"
| "relay_apply cx live (Register rt n ch) s = register_runtime rt n ch s"
| "relay_apply cx live (Unregister rt) s = unregister_runtime rt s"
| "relay_apply cx live (BeginRpc rt e ch) s = snd (begin_rpc live rt e ch s)"
| "relay_apply cx live (CompleteRpc i x) s = snd (complete_rpc live i x s)"
| "relay_apply cx live (OpenApp d rt p sc j ch) s = snd (relay_open_stream live d rt p sc j ch s)"
| "relay_apply cx live (CloseApp i x) s = relay_close_stream live i x s"
| "relay_apply cx live (Upstream i e) s = snd (forward_upstream live i e s)"
| "relay_apply cx live (Downstream i e) s = snd (forward_downstream live i e s)"

fun act_time :: "relay_act \<Rightarrow> int option" where
  "act_time (Spend subj n now) = Some now"
| "act_time (Limit b l w now) = Some now"
| "act_time (BeginPairing x rt now) = Some now"
| "act_time (Claim x c now) = Some now"
| "act_time (Confirm i rt a now) = Some now"
| "act_time (Issue a r d rt now) = Some now"
| "act_time (Rotate a r tok d now) = Some now"
| "act_time act = None"

definition next_time :: "relay_act \<Rightarrow> int \<Rightarrow> int" where
  "next_time act t = (case act_time act of None \<Rightarrow> t | Some n \<Rightarrow> n)"

text \<open>A run: the last reading of a clock that does not go back, and the state.\<close>

inductive relay_step :: "crypto \<Rightarrow> int \<times> relay \<Rightarrow> int \<times> relay \<Rightarrow> bool" for cx where
  act: "t \<le> next_time a t \<Longrightarrow> relay_step cx (t, s) (next_time a t, relay_apply cx live a s)"

section \<open>What a call leaves alone\<close>

lemma post_fields [simp]:
  "rl_pairings (post live ch x s) = rl_pairings s" "rl_devices (post live ch x s) = rl_devices s"
  "rl_access (post live ch x s) = rl_access s" "rl_refresh (post live ch x s) = rl_refresh s"
  "rl_retired (post live ch x s) = rl_retired s" "rl_online (post live ch x s) = rl_online s"
  "rl_streams (post live ch x s) = rl_streams s" "rl_nonces (post live ch x s) = rl_nonces s"
  "rl_pending (post live ch x s) = rl_pending s"
  by (simp_all add: post_def)

lemma close_fields [simp]:
  "rl_pairings (relay_close_stream live i x s) = rl_pairings s"
  "rl_devices (relay_close_stream live i x s) = rl_devices s"
  "rl_access (relay_close_stream live i x s) = rl_access s"
  "rl_refresh (relay_close_stream live i x s) = rl_refresh s"
  "rl_retired (relay_close_stream live i x s) = rl_retired s"
  "rl_online (relay_close_stream live i x s) = rl_online s"
  "rl_nonces (relay_close_stream live i x s) = rl_nonces s"
  "rl_pending (relay_close_stream live i x s) = rl_pending s"
  by (simp_all add: relay_close_stream_def Let_def split: option.split)

lemma close_streams [simp]: "rl_streams (relay_close_stream live i x s) = AList.delete i (rl_streams s)"
  by (simp add: relay_close_stream_def Let_def table_sum_absent split: option.split)

lemma close_all_fields [simp]:
  "rl_pairings (fold (\<lambda>i. relay_close_stream live i x) is s) = rl_pairings s"
  "rl_devices (fold (\<lambda>i. relay_close_stream live i x) is s) = rl_devices s"
  "rl_access (fold (\<lambda>i. relay_close_stream live i x) is s) = rl_access s"
  "rl_refresh (fold (\<lambda>i. relay_close_stream live i x) is s) = rl_refresh s"
  "rl_retired (fold (\<lambda>i. relay_close_stream live i x) is s) = rl_retired s"
  "rl_online (fold (\<lambda>i. relay_close_stream live i x) is s) = rl_online s"
  "rl_nonces (fold (\<lambda>i. relay_close_stream live i x) is s) = rl_nonces s"
  "rl_pending (fold (\<lambda>i. relay_close_stream live i x) is s) = rl_pending s"
  by (induction "is" arbitrary: s) simp_all

lemma close_all_streams:
  "rl_streams (fold (\<lambda>i. relay_close_stream live i x) is s) = filter (\<lambda>(i, r). i \<notin> set is) (rl_streams s)"
  by (induction "is" arbitrary: s) (auto simp: AList.delete_eq case_prod_beta intro: filter_cong)

lemmas relay_method_defs =
  enroll_runtime_def spend_nonce_def rate_limit_def begin_pairing_def claim_pairing_def confirm_pairing_def
  issue_tokens_def rotate_refresh_def mint_pair_def register_runtime_def unregister_runtime_def begin_rpc_def
  complete_rpc_def relay_open_stream_def forward_upstream_def forward_downstream_def revoke_relay_device_def

section \<open>Refresh tokens\<close>

lemma retired_stays:
  assumes "rl_retired s tok = Some d"
  shows "rl_retired (relay_apply cx live a s) tok = Some d"
  using assms
  by (cases a) (auto simp: relay_method_defs Let_def split: option.split prod.split)

context transition_system
begin

lemma run_inv: "step\<^sup>*\<^sup>* s t \<Longrightarrow> inv s \<Longrightarrow> inv t"
  by (induction rule: rtranclp_induct) (auto intro: inv_step)

end

interpretation retired: transition_system "\<lambda>x. rl_retired (snd x) tok = Some d" "relay_step cx"
  "\<lambda>x. rl_retired (snd x) tok = Some d" for cx tok d
  by unfold_locales (auto elim!: relay_step.cases intro: retired_stays)

lemma rotateD:
  assumes "rotate_refresh a r tok d now s = (Inr p, s1)"
  obtains c v where "rl_retired s tok = None" and "rl_refresh s tok = Some c" and "now < tk_exp c"
    and "tk_sub c = d" and "map_of (rl_devices s) d = Some v" and "\<not> dv_revoked v"
    and "rl_retired s1 = (rl_retired s)(tok \<mapsto> d)" and "p = (a, r)"
proof (cases "rl_retired s tok")
  case (Some d')
  with assms show ?thesis by (simp add: rotate_refresh_def)
next
  case None
  show ?thesis
  proof (cases "rl_refresh s tok")
    case refresh: None
    with None assms show ?thesis by (simp add: rotate_refresh_def)
  next
    case (Some c)
    show ?thesis
    proof (cases "map_of (rl_devices s) (tk_sub c)")
      case no: None
      with None Some assms show ?thesis by (simp add: rotate_refresh_def Let_def split: if_splits)
    next
      case v: (Some v)
      with None Some assms that [of c v] show ?thesis
        by (simp add: rotate_refresh_def Let_def mint_pair_def split: if_splits) auto
    qed
  qed
qed

text \<open>
  C27. A refresh token is spent once.  After a rotation, whatever happens on the relay, the old
  token never yields another pair: presenting it is answered as a theft, whoever presents it,
  and leaves no token of its device behind, neither the thief's nor the owner's.
\<close>

theorem refresh_token_spent_once:
  assumes "rotate_refresh a r tok d now s = (Inr pair, s1)"
    and "(relay_step cx)\<^sup>*\<^sup>* (now, s1) (t, s2)"
    and "rotate_refresh a' r' tok d' later s2 = (res, s3)"
  shows "res = Inl ReuseDetected \<and>
    (\<forall>k c. rl_access s3 k = Some c \<or> rl_refresh s3 k = Some c \<longrightarrow> tk_sub c \<noteq> d)"
proof -
  obtain c where "rl_retired s1 = (rl_retired s)(tok \<mapsto> d)" by (rule rotateD [OF assms(1)])
  then have "rl_retired s2 tok = Some d" using retired.run_inv [OF assms(2), of tok d] by simp
  with assms(3) show ?thesis by (auto simp: rotate_refresh_def)
qed

definition demo_relay_device :: device_record where
  "demo_relay_device = \<lparr>dv_id = lit ''d'', dv_runtime = lit ''r'', dv_pubkey = replicate 32 1009,
     dv_scope = Interactive, dv_revoked = False\<rparr>"

text \<open>A relay with one device, and the tokens it was issued.\<close>

definition demo_paired :: relay where
  "demo_paired = relay_new\<lparr>rl_devices := [(lit ''d'', demo_relay_device)],
     rl_keys := [lit ''r'' \<mapsto> replicate 32 1009]\<rparr>"

definition demo_relay :: relay where
  "demo_relay = snd (issue_tokens (lit ''a'') (lit ''t'') (lit ''d'') (lit ''r'') 0 demo_paired)"

lemma demo_relay_tokens:
  "rl_devices demo_relay = [(lit ''d'', demo_relay_device)]" "rl_retired demo_relay = Map.empty"
  "\<exists>c. rl_access demo_relay (lit ''a'') = Some c \<and> tk_sub c = lit ''d'' \<and> tk_aud c = lit ''r'' \<and> tk_exp c = 900"
  "\<exists>c. rl_refresh demo_relay (lit ''t'') = Some c \<and> tk_sub c = lit ''d'' \<and> tk_aud c = lit ''r'' \<and> tk_exp c = 2592000"
  by (simp_all add: demo_relay_def demo_paired_def issue_tokens_def mint_pair_def Let_def relay_new_def
      demo_relay_device_def ACCESS_TOKEN_TTL_SECS_def REFRESH_TOKEN_TTL_SECS_def)

lemma demo_rotates:
  "\<exists>s. rotate_refresh (lit ''b'') (lit ''u'') (lit ''t'') (lit ''d'') 5 demo_relay = (Inr (lit ''b'', lit ''u''), s)"
proof -
  obtain c where "rl_refresh demo_relay (lit ''t'') = Some c" "tk_sub c = lit ''d''" "tk_exp c = 2592000"
    using demo_relay_tokens(4) by blast
  with demo_relay_tokens(1,2) show ?thesis
    by (simp add: rotate_refresh_def mint_pair_def Let_def demo_relay_device_def)
qed

theorem refresh_token_spent_once_witness:
  "\<exists>s1 s3. rotate_refresh (lit ''b'') (lit ''u'') (lit ''t'') (lit ''d'') 5 demo_relay = (Inr (lit ''b'', lit ''u''), s1) \<and>
    rotate_refresh (lit ''e'') (lit ''f'') (lit ''t'') (lit ''d'') 6 s1 = (Inl ReuseDetected, s3)"
proof -
  obtain s1 where r: "rotate_refresh (lit ''b'') (lit ''u'') (lit ''t'') (lit ''d'') 5 demo_relay =
      (Inr (lit ''b'', lit ''u''), s1)" using demo_rotates by blast
  obtain res s3 where again: "rotate_refresh (lit ''e'') (lit ''f'') (lit ''t'') (lit ''d'') 6 s1 = (res, s3)"
    by (cases "rotate_refresh (lit ''e'') (lit ''f'') (lit ''t'') (lit ''d'') 6 s1")
  from refresh_token_spent_once [OF r rtranclp.rtrancl_refl again] r again show ?thesis by blast
qed

section \<open>Revocation\<close>

text \<open>A step that does not let a device in again.\<close>

definition lets_in :: "rstr \<Rightarrow> relay_act \<Rightarrow> relay \<Rightarrow> bool" where
  "lets_in d a s \<longleftrightarrow> (\<exists>i rt n p c. a = Confirm i rt True n \<and> map_of (rl_pairings s) i = Some p \<and>
     pg_claimed p = Some c \<and> cl_device_id c = d)"

inductive other_step :: "crypto \<Rightarrow> rstr \<Rightarrow> relay \<Rightarrow> relay \<Rightarrow> bool" for cx d where
  other: "\<not> lets_in d a s \<Longrightarrow> other_step cx d s (relay_apply cx live a s)"

definition shut_out :: "rstr \<Rightarrow> relay \<Rightarrow> bool" where
  "shut_out d s \<longleftrightarrow>
     (\<exists>v. map_of (rl_devices s) d = Some v \<and> dv_revoked v) \<and>
     (\<forall>k c. rl_access s k = Some c \<longrightarrow> tk_sub c \<noteq> d) \<and>
     (\<forall>k c. rl_refresh s k = Some c \<longrightarrow> tk_sub c \<noteq> d)"

lemma mint_tokens:
  "snd (mint_pair a r d rt sc now s) = s' \<Longrightarrow>
     rl_devices s' = rl_devices s \<and>
     (\<forall>k c. rl_access s' k = Some c \<longrightarrow> tk_sub c = d \<or> rl_access s k = Some c) \<and>
     (\<forall>k c. rl_refresh s' k = Some c \<longrightarrow> tk_sub c = d \<or> rl_refresh s k = Some c)"
  by (auto simp: mint_pair_def Let_def split: if_splits)

lemma shut_out_stays:
  assumes "shut_out d s" and "\<not> lets_in d a s"
  shows "shut_out d (relay_apply cx live a s)"
proof (cases a)
  case (Confirm i rt acc n)
  with assms show ?thesis
    by (auto simp: shut_out_def lets_in_def confirm_pairing_def split: option.split)
next
  case (Revoke d' rt)
  with assms show ?thesis
    by (auto simp: shut_out_def revoke_relay_device_def Let_def split: option.split)
next
  case (Issue x y d' rt n)
  with assms(1) show ?thesis
    by (auto simp: shut_out_def issue_tokens_def mint_pair_def Let_def split: option.split prod.split)
next
  case (Rotate x y tok d' n)
  with assms(1) show ?thesis
    by (auto simp: shut_out_def rotate_refresh_def mint_pair_def Let_def split: option.split prod.split)
qed (use assms(1) in \<open>auto simp: shut_out_def relay_method_defs Let_def split: option.split prod.split\<close>)

interpretation shut: transition_system "shut_out d" "other_step cx d" "shut_out d" for cx d
  by unfold_locales (auto elim!: other_step.cases intro: shut_out_stays)

lemma revoke_shuts:
  assumes "revoke_relay_device live d rt s = (Inr u, s1)"
  shows "shut_out d s1" and "streams_for_device d s1 = []"
proof -
  show "shut_out d s1"
    using assms by (auto simp: revoke_relay_device_def shut_out_def Let_def split: option.splits if_splits)
  have "rl_streams s1 = filter (\<lambda>(i, r). i \<notin> set (streams_for_device d s)) (rl_streams s)"
    using assms
    by (auto simp: revoke_relay_device_def Let_def close_all_streams streams_for_device_def
        split: option.splits if_splits)
  then show "streams_for_device d s1 = []"
    by (force simp: streams_for_device_def filter_empty_conv image_iff)
qed

text \<open>
  C17. Revocation is complete and lasts.  When a runtime revokes its device, the device's streams
  are closed and its tokens are gone in the same call; and until a pairing the device claimed
  is accepted again, whatever happens on the relay, no token authorizes anything in its name,
  and it gets no token, neither for its key nor for a refresh token.
\<close>

theorem revoked_device_has_no_token:
  assumes "revoke_relay_device live d rt s = (Inr u, s1)" and "(other_step cx d)\<^sup>*\<^sup>* s1 s2"
  shows "streams_for_device d s1 = [] \<and>
    (\<forall>tok e now c. authorize tok e now s2 = Inr c \<longrightarrow> tk_sub c \<noteq> d) \<and>
    (\<forall>a r rt' now. fst (issue_tokens a r d rt' now s2) = Inl RelayRevoked) \<and>
    (\<forall>a r tok now p. fst (rotate_refresh a r tok d now s2) \<noteq> Inr p)"
proof -
  have s1: "shut_out d s1" "streams_for_device d s1 = []" by (rule revoke_shuts [OF assms(1)])+
  have s2: "shut_out d s2" by (rule shut.run_inv [OF assms(2) s1(1)])
  have "fst (rotate_refresh a r tok d now s2) \<noteq> Inr p" for a r tok now p
  proof
    assume "fst (rotate_refresh a r tok d now s2) = Inr p"
    then obtain s3 where "rotate_refresh a r tok d now s2 = (Inr p, s3)" by (cases "rotate_refresh a r tok d now s2") auto
    with s2 show False by (auto elim!: rotateD simp: shut_out_def)
  qed
  moreover have "tk_sub c \<noteq> d" if "authorize tok e now s2 = Inr c" for tok e now c
    using that s2 by (auto simp: authorize_def shut_out_def split: option.splits if_splits)
  moreover have "fst (issue_tokens a r d rt' now s2) = Inl RelayRevoked" for a r rt' now
    using s2 by (auto simp: issue_tokens_def shut_out_def)
  ultimately show ?thesis using s1(2) by blast
qed

theorem revoked_device_has_no_token_witness:
  "\<exists>s1. revoke_relay_device (\<lambda>ch. True) (lit ''d'') (lit ''r'') demo_relay = (Inr (), s1) \<and>
    (\<forall>tok e now c. authorize tok e now s1 = Inr c \<longrightarrow> tk_sub c \<noteq> lit ''d'')"
proof -
  obtain s1 where r: "revoke_relay_device (\<lambda>ch. True) (lit ''d'') (lit ''r'') demo_relay = (Inr (), s1)"
    using demo_relay_tokens(1) by (auto simp: revoke_relay_device_def demo_relay_device_def Let_def)
  with revoked_device_has_no_token [OF r rtranclp.rtrancl_refl] show ?thesis by blast
qed

section \<open>Assertions\<close>

lemma nonce_stays:
  assumes "t < t0 + 600 \<longrightarrow> rl_nonces s (subj, n) = Some t0" and "t \<le> next_time a t"
    and "next_time a t < t0 + 600"
  shows "rl_nonces (relay_apply cx live a s) (subj, n) = Some t0"
proof -
  have old: "rl_nonces s (subj, n) = Some t0" using assms by simp
  show ?thesis
  proof (cases a)
    case (Spend subj' n' now)
    with assms(3) have "now - t0 < 600" by (simp add: next_time_def)
    with old Spend show ?thesis by (auto simp: spend_nonce_def retain_def Let_def)
  qed (use old in \<open>simp_all add: relay_method_defs Let_def split: option.split prod.split\<close>)
qed

interpretation nonces: transition_system "\<lambda>(t, s). t < t0 + 600 \<longrightarrow> rl_nonces s k = Some t0" "relay_step cx"
  "\<lambda>(t, s). t < t0 + 600 \<longrightarrow> rl_nonces s k = Some t0" for t0 k cx
  by unfold_locales (cases k; auto elim!: relay_step.cases intro: nonce_stays)+

lemma spend_ok:
  "spend_nonce subj n now s = (Inr u, s1) \<Longrightarrow> rl_nonces s1 (subj, n) = Some now"
  by (auto simp: spend_nonce_def Let_def split: if_splits)

lemma spend_again:
  "rl_nonces s (subj, n) = Some t0 \<Longrightarrow> now < t0 + 600 \<Longrightarrow> fst (spend_nonce subj n now s) = Inl Unauthorized"
  by (simp add: spend_nonce_def Let_def retain_def)

lemma runtime_authD:
  assumes "runtime_auth cx clk header act rt s = (Inr u, s1)"
  obtains v ts n sg T where "header = Some v" and "parse_runtime_header v = Some (rt, ts, n, sg)"
    and "cx_time cx ts = Some T" and "\<bar>clk 0 - T\<bar> \<le> 120" and "spend_nonce rt n (clk 1) s = (Inr u, s1)"
  using assms
  by (auto simp: runtime_auth_def run_then_def asserted_def some_or_def ensure_def giving_def pure_call_def
      check_assertion_def within_window_def TIMESTAMP_WINDOW_SECS_def
      split: prod.splits sum.splits option.splits if_splits)

lemma runtime_auth_errors:
  assumes "\<And>u. fst (runtime_auth cx clk header act rt s) \<noteq> Inr u"
  shows "fst (runtime_auth cx clk header act rt s) = Inl Unauthorized"
  using assms
  by (auto simp: runtime_auth_def run_then_def asserted_def some_or_def ensure_def giving_def pure_call_def
      check_assertion_def within_window_def verify_signature_def relay_key_def spend_nonce_def Let_def
      split: prod.split sum.split option.split if_splits)

text \<open>
  C28. A signed assertion of a runtime is good for one call.  Once a request with it was let in,
  then, if the clock does not go back and a handler takes at most five minutes from its look
  at the timestamp to the nonce, no later request with the same header is let in: not for
  another operation, not for another runtime, and not after the relay has forgotten the
  nonce, since by then the timestamp is out of its window.
\<close>

theorem assertion_used_once:
  assumes "runtime_auth cx clk header action rt s = (Inr u, s1)" and "clk 0 \<le> clk 1"
    and "(relay_step cx)\<^sup>*\<^sup>* (clk 1, s1) (t, s2)"
    and "t \<le> clk' 1" and "clk' 1 \<le> clk' 0 + 300"
  shows "fst (runtime_auth cx clk' header action' rt' s2) = Inl Unauthorized"
proof (rule runtime_auth_errors)
  fix w
  show "fst (runtime_auth cx clk' header action' rt' s2) \<noteq> Inr w"
  proof
    assume "fst (runtime_auth cx clk' header action' rt' s2) = Inr w"
    then obtain s3 where again: "runtime_auth cx clk' header action' rt' s2 = (Inr w, s3)"
      by (cases "runtime_auth cx clk' header action' rt' s2") auto
    obtain v ts n sg T where h: "header = Some v" "parse_runtime_header v = Some (rt, ts, n, sg)"
      "cx_time cx ts = Some T" "\<bar>clk 0 - T\<bar> \<le> 120" and spent: "spend_nonce rt n (clk 1) s = (Inr u, s1)"
      by (rule runtime_authD [OF assms(1)])
    obtain v' ts' n' sg' T' where h': "header = Some v'" "parse_runtime_header v' = Some (rt', ts', n', sg')"
      "cx_time cx ts' = Some T'" "\<bar>clk' 0 - T'\<bar> \<le> 120" and spent': "spend_nonce rt' n' (clk' 1) s2 = (Inr w, s3)"
      by (rule runtime_authD [OF again])
    from h h' have same: "rt' = rt" "n' = n" "T' = T" by auto
    have in_time: "clk' 1 < clk 1 + 600" using assms(2,5) h(4) h'(4) same(3) by linarith
    then have "t < clk 1 + 600" using assms(4) by linarith
    moreover have "t < clk 1 + 600 \<longrightarrow> rl_nonces s2 (rt, n) = Some (clk 1)"
      using nonces.run_inv [OF assms(3), of "clk 1" "(rt, n)"] spend_ok [OF spent] by simp
    ultimately have "rl_nonces s2 (rt, n) = Some (clk 1)" by simp
    from spend_again [OF this in_time] spent' same show False by simp
  qed
qed

definition demo_signature :: rstr where
  "demo_signature = map (\<lambda>b. b + 1000) (replicate 32 9 @
     utf8_encode (runtime_signing_input (lit ''devices_list'') (lit ''r'') (lit ''120'') (lit ''n'')))"

definition demo_header :: rstr where
  "demo_header = join [124] [lit ''r'', lit ''120'', lit ''n'', demo_signature]"

lemma demo_header_parsed: "parse_runtime_header demo_header = Some (lit ''r'', lit ''120'', lit ''n'', demo_signature)"
proof -
  have "demo_signature \<noteq> []" by (simp add: demo_signature_def)
  then show ?thesis
    by (simp add: parse_runtime_header_def demo_header_def numeral_eq_Suc lit_def)
qed

lemma demo_auth:
  "\<exists>s1. runtime_auth (demo_crypto (\<lambda>m. True)) (\<lambda>i. 100 + int i) (Some demo_header) (lit ''devices_list'') (lit ''r'') demo_paired =
     (Inr (), s1)"
proof -
  have sig: "cx_unb64 (demo_crypto (\<lambda>m. True)) demo_signature = Some (replicate 32 9 @
      utf8_encode (runtime_signing_input (lit ''devices_list'') (lit ''r'') (lit ''120'') (lit ''n'')))"
    by (auto simp: demo_crypto_def demo_signature_def list_all_iff o_def)
  have t: "cx_time (demo_crypto (\<lambda>m. True)) (lit ''120'') = Some 120"
    by (simp add: demo_crypto_def lit_def is_ascii_digit_def)
  have k: "key_from_base64url (demo_crypto (\<lambda>m. True)) (replicate 32 1009) = Inr (replicate 32 9)"
    by (simp add: key_from_base64url_def demo_crypto_def list_all_iff)
  have c: "cx_check (demo_crypto (\<lambda>m. True)) key m sg \<longleftrightarrow> sg = key @ m" for key m sg
    by (simp add: demo_crypto_def)
  show ?thesis
    by (simp add: runtime_auth_def run_then_def asserted_def some_or_def ensure_def giving_def pure_call_def
        check_assertion_def verify_signature_def within_window_def TIMESTAMP_WINDOW_SECS_def relay_key_def
        demo_header_parsed sig t k c spend_nonce_def demo_paired_def relay_new_def retain_def Let_def)
qed

theorem assertion_used_once_witness:
  "\<exists>s1. runtime_auth (demo_crypto (\<lambda>m. True)) (\<lambda>i. 100 + int i) (Some demo_header) (lit ''devices_list'') (lit ''r'') demo_paired =
       (Inr (), s1) \<and>
     fst (runtime_auth (demo_crypto (\<lambda>m. True)) (\<lambda>i. 101 + int i) (Some demo_header) (lit ''devices_list'') (lit ''r'') s1) =
       Inl Unauthorized"
proof -
  obtain s1 where a: "runtime_auth (demo_crypto (\<lambda>m. True)) (\<lambda>i. 100 + int i) (Some demo_header)
      (lit ''devices_list'') (lit ''r'') demo_paired = (Inr (), s1)" using demo_auth by blast
  have "fst (runtime_auth (demo_crypto (\<lambda>m. True)) (\<lambda>i. 101 + int i) (Some demo_header) (lit ''devices_list'') (lit ''r'') s1) =
       Inl Unauthorized"
    by (rule assertion_used_once [OF a _ rtranclp.rtrancl_refl]) simp_all
  with a show ?thesis by blast
qed

section \<open>Nothing is kept for an absent host\<close>

definition pairings_ok :: "(rstr \<times> pairing) list \<Rightarrow> bool" where
  "pairings_ok t \<longleftrightarrow>
     table_ok t \<and>
     (\<forall>i p. map_of t i = Some p \<longrightarrow> pg_id p = i \<and> (pg_state p = PendingConfirm \<longrightarrow> pg_claimed p \<noteq> None)) \<and>
     (\<forall>i j p q. map_of t i = Some p \<longrightarrow> map_of t j = Some q \<longrightarrow> pg_runtime p = pg_runtime q \<longrightarrow> i = j)"

definition routes_ok :: "relay \<Rightarrow> bool" where
  "routes_ok s \<longleftrightarrow>
     table_ok (rl_streams s) \<and>
     (\<forall>i r. map_of (rl_streams s) i = Some r \<longrightarrow> rl_online s (sr_runtime r) \<noteq> None) \<and>
     (\<forall>i p. rl_pending s i = Some p \<longrightarrow> rl_online s (pr_runtime p) \<noteq> None)"

lemma table_ok_filter [simp]: "table_ok t \<Longrightarrow> table_ok (filter P t)"
  by (simp add: table_ok_def distinct_map_filter)

lemma map_of_filter_table:
  "table_ok t \<Longrightarrow> map_of (filter P t) k = Some v \<longleftrightarrow> map_of t k = Some v \<and> P (k, v)"
  by (auto simp: table_ok_def distinct_map_filter)

lemma begin_pairings_ok:
  assumes "pairings_ok (rl_pairings s)"
  shows "pairings_ok (rl_pairings (snd (begin_pairing cx x rt now s)))"
  using assms
  by (auto simp: pairings_ok_def begin_pairing_def Let_def map_of_filter_table split: if_splits)

lemma update_pairings_ok:
  assumes "pairings_ok t" and "map_of t i = Some p" and "pg_id p' = pg_id p"
    and "pg_runtime p' = pg_runtime p" and "pg_state p' = PendingConfirm \<longrightarrow> pg_claimed p' \<noteq> None"
  shows "pairings_ok (table_put i p' t)"
  using assms by (auto simp: pairings_ok_def split: if_splits)

lemma find_in_table:
  assumes "table_ok t" and "find P t = Some (i, p)"
  shows "map_of t i = Some p \<and> P (i, p)"
  using assms by (auto simp: table_ok_def find_Some_iff)

lemma claim_pairings_ok:
  assumes "pairings_ok (rl_pairings s)"
  shows "pairings_ok (rl_pairings (snd (claim_pairing cx x c now s)))"
proof (cases "find (claims_secret (cx_sha256 cx (utf8_encode x))) (rl_pairings s)")
  case None
  with assms show ?thesis by (simp add: claim_pairing_def)
next
  case (Some ip)
  obtain i p where ip: "ip = (i, p)" by (cases ip)
  have m: "map_of (rl_pairings s) i = Some p"
    using find_in_table Some ip assms by (metis pairings_ok_def)
  note put = update_pairings_ok [OF assms m]
  show ?thesis
    using Some ip by (simp add: claim_pairing_def Let_def put)
qed

lemma confirm_pairings_ok:
  assumes "pairings_ok (rl_pairings s)"
  shows "pairings_ok (rl_pairings (snd (confirm_pairing i rt acc now s)))"
proof (cases "map_of (rl_pairings s) i")
  case None
  with assms show ?thesis by (simp add: confirm_pairing_def)
next
  case (Some p)
  note put = update_pairings_ok [OF assms Some]
  show ?thesis using Some assms by (simp add: confirm_pairing_def put split: option.split)
qed

lemma other_pairings:
  "rl_pairings (snd (revoke_relay_device live d rt s)) = rl_pairings s"
  "rl_pairings (snd (rotate_refresh x y tok d now s)) = rl_pairings s"
  "rl_pairings (snd (issue_tokens x y d rt now s)) = rl_pairings s"
  by (simp_all add: revoke_relay_device_def rotate_refresh_def issue_tokens_def mint_pair_def Let_def
      split: option.split prod.split)

lemma pairings_stay_ok:
  "pairings_ok (rl_pairings s) \<Longrightarrow> pairings_ok (rl_pairings (relay_apply cx live a s))"
  by (cases a)
     (simp_all add: begin_pairings_ok claim_pairings_ok confirm_pairings_ok other_pairings enroll_runtime_def
      spend_nonce_def rate_limit_def register_runtime_def unregister_runtime_def begin_rpc_def
      complete_rpc_def relay_open_stream_def forward_upstream_def forward_downstream_def Let_def
      split: option.split)

lemma other_routes:
  "rl_streams (snd (rotate_refresh x y tok d now s)) = rl_streams s"
  "rl_online (snd (rotate_refresh x y tok d now s)) = rl_online s"
  "rl_pending (snd (rotate_refresh x y tok d now s)) = rl_pending s"
  "rl_streams (snd (issue_tokens x y d rt now s)) = rl_streams s"
  "rl_online (snd (issue_tokens x y d rt now s)) = rl_online s"
  "rl_pending (snd (issue_tokens x y d rt now s)) = rl_pending s"
  "rl_streams (snd (confirm_pairing i rt acc now s)) = rl_streams s"
  "rl_online (snd (confirm_pairing i rt acc now s)) = rl_online s"
  "rl_pending (snd (confirm_pairing i rt acc now s)) = rl_pending s"
  "rl_streams (snd (claim_pairing cx z c now s)) = rl_streams s"
  "rl_online (snd (claim_pairing cx z c now s)) = rl_online s"
  "rl_pending (snd (claim_pairing cx z c now s)) = rl_pending s"
  by (simp_all add: rotate_refresh_def issue_tokens_def mint_pair_def confirm_pairing_def claim_pairing_def
      Let_def split: option.split prod.split)

lemma revoke_routes:
  "routes_ok s \<Longrightarrow> routes_ok (snd (revoke_relay_device live d rt s))"
  by (auto simp: routes_ok_def revoke_relay_device_def Let_def close_all_streams map_of_filter_table
      split: option.split)

lemma routes_stay_ok: "routes_ok s \<Longrightarrow> routes_ok (relay_apply cx live a s)"
proof (cases a)
  case (Revoke d rt)
  then show "routes_ok s \<Longrightarrow> ?thesis" by (simp add: revoke_routes)
next
  case (Unregister rt)
  then show "routes_ok s \<Longrightarrow> ?thesis"
    by (auto simp: routes_ok_def unregister_runtime_def map_of_filter_table)
qed (auto simp: routes_ok_def other_routes enroll_runtime_def spend_nonce_def rate_limit_def begin_pairing_def
    register_runtime_def begin_rpc_def complete_rpc_def relay_open_stream_def forward_upstream_def
    forward_downstream_def Let_def split: option.split if_splits)

interpretation relay: transition_system "\<lambda>x. snd x = relay_new" "relay_step cx"
  "\<lambda>x. pairings_ok (rl_pairings (snd x)) \<and> routes_ok (snd x)" for cx
proof
  show "snd x = relay_new \<Longrightarrow> pairings_ok (rl_pairings (snd x)) \<and> routes_ok (snd x)" for x :: "int \<times> relay"
    by (simp add: relay_new_def pairings_ok_def routes_ok_def)
  show "pairings_ok (rl_pairings (snd x)) \<and> routes_ok (snd x) \<Longrightarrow> relay_step cx x y \<Longrightarrow>
      pairings_ok (rl_pairings (snd y)) \<and> routes_ok (snd y)" for x y
    by (auto elim!: relay_step.cases intro: pairings_stay_ok routes_stay_ok)
qed

lemma runtime_auth_pairings: "rl_pairings (snd (runtime_auth cx clk header action rt s)) = rl_pairings s"
  by (simp add: runtime_auth_def run_then_def asserted_def some_or_def ensure_def giving_def pure_call_def
      check_assertion_def spend_nonce_def Let_def split: prod.split sum.split option.split)

lemma pending_claimed:
  assumes "pairings_ok (rl_pairings s)" and "pending_confirm_for rt s = Some p"
  shows "pg_runtime p = rt \<and> pg_claimed p \<noteq> None"
proof -
  obtain i where f: "find (\<lambda>(i, p). pg_runtime p = rt \<and> pg_state p = PendingConfirm) (rl_pairings s) = Some (i, p)"
    using assms(2) by (auto simp: pending_confirm_for_def)
  have t: "table_ok (rl_pairings s)" using assms(1) by (simp add: pairings_ok_def)
  from find_in_table [OF t f] assms(1) show ?thesis by (auto simp: pairings_ok_def)
qed

text \<open>
  C39. The relay keeps no queue and loses no pairing.  In every state it can reach, whatever the
  order of its calls, each stream and each request that waits belongs to a runtime whose
  tunnel is up, so nothing a device sent can outlive the connection it was sent on; a runtime
  has at most one pairing, the last it began; and the poll for a pairing to confirm, which
  expects a claimed pairing to name its device, never fails that expectation.
\<close>

theorem relay_keeps_no_queue:
  assumes "relay.reach cx (t, s)"
  shows "(\<forall>i r. map_of (rl_streams s) i = Some r \<longrightarrow> is_online (sr_runtime r) s) \<and>
    (\<forall>i p. rl_pending s i = Some p \<longrightarrow> is_online (pr_runtime p) s) \<and>
    (\<forall>i j p q. map_of (rl_pairings s) i = Some p \<longrightarrow> map_of (rl_pairings s) j = Some q \<longrightarrow>
       pg_runtime p = pg_runtime q \<longrightarrow> i = j) \<and>
    fst (pair_pending cx clk header rt s) \<noteq> None"
proof -
  have inv: "pairings_ok (rl_pairings s)" "routes_ok s" using relay.reach_inv [OF assms] by simp_all
  have "fst (pair_pending cx clk header rt s) \<noteq> None"
  proof -
    obtain x s' where a: "runtime_auth cx clk header (lit ''pair_pending'') rt s = (x, s')"
      by (cases "runtime_auth cx clk header (lit ''pair_pending'') rt s")
    have "rl_pairings s' = rl_pairings s"
      using runtime_auth_pairings [of cx clk header "lit ''pair_pending''" rt s] a by simp
    with inv(1) have "pairings_ok (rl_pairings s')" by simp
    from pending_claimed [OF this, of rt] have "pg_claimed p \<noteq> None" if "pending_confirm_for rt s' = Some p" for p
      using that by blast
    with a show ?thesis by (cases x; cases "pending_confirm_for rt s'") (auto simp: pair_pending_def)
  qed
  with inv show ?thesis unfolding pairings_ok_def routes_ok_def is_online_def by blast
qed

theorem relay_keeps_no_queue_witness:
  "is_online (lit ''r'') (relay_apply (demo_crypto (\<lambda>m. True)) (\<lambda>ch. True)
      (OpenApp (lit ''d'') (lit ''r'') None Interactive [] 7)
      (relay_apply (demo_crypto (\<lambda>m. True)) (\<lambda>ch. True) (Register (lit ''r'') [] 3) relay_new))"
proof -
  let ?cx = "demo_crypto (\<lambda>m. True)" and ?live = "\<lambda>ch. True"
  let ?s1 = "relay_apply ?cx ?live (Register (lit ''r'') [] 3) relay_new"
  let ?a = "OpenApp (lit ''d'') (lit ''r'') None Interactive [] 7"
  have r0: "relay.reach ?cx (0, relay_new)" by (rule relay.reach_init) simp
  have "relay_step ?cx (0, relay_new) (0, ?s1)"
    using relay_step.act [of 0 "Register (lit ''r'') [] 3" ?cx relay_new ?live] by (simp add: next_time_def)
  from relay.reach_step [OF r0 this] have r1: "relay.reach ?cx (0, ?s1)" .
  have "relay_step ?cx (0, ?s1) (0, relay_apply ?cx ?live ?a ?s1)"
    using relay_step.act [of 0 ?a ?cx ?s1 ?live] by (simp add: next_time_def)
  from relay.reach_step [OF r1 this] have r2: "relay.reach ?cx (0, relay_apply ?cx ?live ?a ?s1)" .
  have "map_of (rl_streams (relay_apply ?cx ?live ?a ?s1)) (lit ''str_'' @ show_nat 1) =
      Some \<lparr>sr_device = lit ''d'', sr_runtime = lit ''r'', sr_app = 7\<rparr>"
    by (simp add: relay_open_stream_def register_runtime_def relay_new_def Let_def)
  with relay_keeps_no_queue [OF r2] show ?thesis by fastforce
qed

section \<open>Who a device is\<close>

lemma unpaired_devices:
  assumes "\<And>i rt acc n. a \<noteq> Confirm i rt acc n" and "\<And>d rt. a \<noteq> Revoke d rt"
  shows "rl_devices (relay_apply cx live a s) = rl_devices s"
  using assms
  by (cases a)
     (auto simp: enroll_runtime_def spend_nonce_def rate_limit_def begin_pairing_def claim_pairing_def
      issue_tokens_def rotate_refresh_def mint_pair_def register_runtime_def unregister_runtime_def begin_rpc_def
      complete_rpc_def relay_open_stream_def forward_upstream_def forward_downstream_def Let_def
      split: option.split prod.split)

text \<open>
  C38. A device gets in only by the host's word.  If a call leaves a device in force that was not
  in force as it is before, then that call is the acceptance, by the runtime the device is
  recorded under, of a pairing that runtime had begun and the device had claimed, no more
  than ten minutes ago, and the key, the identity and the scope on record are those it
  claimed with.
\<close>

theorem device_enters_by_confirmation:
  assumes "map_of (rl_devices (relay_apply cx live a s)) d = Some v" and "\<not> dv_revoked v"
    and "map_of (rl_devices s) d \<noteq> Some v"
  shows "\<exists>i n p c. a = Confirm i (dv_runtime v) True n \<and> map_of (rl_pairings s) i = Some p \<and>
    pg_runtime p = dv_runtime v \<and> pg_state p = PendingConfirm \<and> pg_claimed p = Some c \<and>
    n \<le> cl_at c + 600 \<and> cl_device_id c = d \<and> cl_pubkey c = dv_pubkey v \<and> cl_scope c = dv_scope v"
proof (cases "\<exists>i rt acc n. a = Confirm i rt acc n")
  case True
  then obtain i rt acc n where a: "a = Confirm i rt acc n" by blast
  with assms show ?thesis
    by (auto simp: confirm_pairing_def CONFIRM_TTL_SECS_def split: option.splits if_splits)
next
  case False
  show ?thesis
  proof (cases "\<exists>d' rt. a = Revoke d' rt")
    case True
    with assms show ?thesis
      by (auto simp: revoke_relay_device_def Let_def split: option.splits if_splits)
  next
    case no: False
    with False unpaired_devices [of a cx live s] assms(1,3) show ?thesis by auto
  qed
qed

definition demo_device_claim :: device_claim where
  "demo_device_claim = \<lparr>cl_device_id = lit ''d'', cl_pubkey = replicate 32 1009, cl_name = [], cl_platform = [],
     cl_scope = Interactive, cl_at = 10\<rparr>"

definition demo_pairing :: pairing where
  "demo_pairing = \<lparr>pg_id = lit ''p'', pg_runtime = lit ''q'', pg_secret_hash = [], pg_state = PendingConfirm,
     pg_created = 0, pg_claimed = Some demo_device_claim\<rparr>"

theorem device_enters_by_confirmation_witness:
  "\<exists>v (p :: pairing). map_of (rl_devices (relay_apply (demo_crypto (\<lambda>m. True)) (\<lambda>ch. True)
      (Confirm (lit ''p'') (lit ''q'') True 20) (relay_new\<lparr>rl_pairings := [(lit ''p'', demo_pairing)]\<rparr>))) (lit ''d'') = Some v \<and>
    pg_runtime p = dv_runtime v \<and> pg_state p = PendingConfirm"
proof -
  let ?s = "relay_new\<lparr>rl_pairings := [(lit ''p'', demo_pairing)]\<rparr>"
  let ?v = "\<lparr>dv_id = lit ''d'', dv_runtime = lit ''q'', dv_pubkey = replicate 32 1009, dv_scope = Interactive, dv_revoked = False\<rparr>"
  have v: "map_of (rl_devices (relay_apply (demo_crypto (\<lambda>m. True)) (\<lambda>ch. True) (Confirm (lit ''p'') (lit ''q'') True 20) ?s))
      (lit ''d'') = Some ?v"
    by (simp add: confirm_pairing_def demo_pairing_def demo_device_claim_def CONFIRM_TTL_SECS_def)
  have "\<not> dv_revoked ?v" "map_of (rl_devices ?s) (lit ''d'') \<noteq> Some ?v" by (simp_all add: relay_new_def)
  from device_enters_by_confirmation [OF v this]
  have "\<exists>p :: pairing. pg_runtime p = dv_runtime ?v \<and> pg_state p = PendingConfirm"
    by (elim exE conjE) (intro exI conjI)
  with v show ?thesis by (elim exE conjE) (intro exI conjI)
qed

section \<open>Metering\<close>

text \<open>The times at which a bucket lets an attempt through.\<close>

fun metered :: "rstr \<Rightarrow> nat \<Rightarrow> int \<Rightarrow> int list \<Rightarrow> relay \<Rightarrow> int list" where
  "metered bucket limit window [] s = []"
| "metered bucket limit window (now # ts) s =
     (case rate_limit bucket limit window now s of
        (Inl e, s') \<Rightarrow> metered bucket limit window ts s'
      | (Inr u, s') \<Rightarrow> now # metered bucket limit window ts s')"

definition attempts_of :: "rstr \<Rightarrow> relay \<Rightarrow> int list" where
  "attempts_of bucket s = (case rl_attempts s bucket of None \<Rightarrow> [] | Some xs \<Rightarrow> xs)"

text \<open>\<open>done\<close> are the attempts let through so far, of which the bucket keeps the recent ones.\<close>

lemma metered_window:
  assumes "sorted (latest # ts)" and "\<forall>x \<in> set past. x \<le> latest"
    and "filter (\<lambda>at. latest - at < window) (attempts_of bucket s) = filter (\<lambda>at. latest - at < window) past"
    and "\<And>x. length (filter (\<lambda>at. x - window < at \<and> at \<le> x) past) \<le> limit"
  shows "length (filter (\<lambda>at. x - window < at \<and> at \<le> x) (past @ metered bucket limit window ts s)) \<le> limit"
  using assms
proof (induction ts arbitrary: latest past s)
  case Nil
  then show ?case by simp
next
  case (Cons now ts)
  have now: "latest \<le> now" "sorted (now # ts)" using Cons.prems(1) by auto
  have "filter (\<lambda>at. now - at < window) xs =
      filter (\<lambda>at. now - at < window) (filter (\<lambda>at. latest - at < window) xs)" for xs
    using now(1) by (auto intro!: filter_cong)
  with Cons.prems(3) have seen: "filter (\<lambda>at. now - at < window) (attempts_of bucket s) =
      filter (\<lambda>at. now - at < window) past" by metis
  show ?case
  proof (cases "limit \<le> length (filter (\<lambda>at. now - at < window) (attempts_of bucket s))")
    case True
    let ?s = "s\<lparr>rl_attempts := (rl_attempts s)(bucket \<mapsto> filter (\<lambda>at. now - at < window) (attempts_of bucket s))\<rparr>"
    have r: "rate_limit bucket limit window now s = (Inl RateLimited, ?s)"
      using True by (simp add: rate_limit_def Let_def attempts_of_def)
    have "length (filter (\<lambda>at. x - window < at \<and> at \<le> x) (past @ metered bucket limit window ts ?s)) \<le> limit"
    proof (rule Cons.IH [OF now(2)])
      show "\<forall>x \<in> set past. x \<le> now" using Cons.prems(2) now(1) by force
      show "filter (\<lambda>at. now - at < window) (attempts_of bucket ?s) = filter (\<lambda>at. now - at < window) past"
        using seen by (simp add: attempts_of_def)
    qed (rule Cons.prems(4))
    with r show ?thesis by simp
  next
    case False
    let ?s = "s\<lparr>rl_attempts := (rl_attempts s)(bucket \<mapsto>
      filter (\<lambda>at. now - at < window) (attempts_of bucket s) @ [now])\<rparr>"
    have r: "rate_limit bucket limit window now s = (Inr (), ?s)"
      using False by (simp add: rate_limit_def Let_def attempts_of_def)
    have room: "length (filter (\<lambda>at. y - window < at \<and> at \<le> y) (past @ [now])) \<le> limit" for y
    proof (cases "y - window < now \<and> now \<le> y")
      case True
      have "length (filter (\<lambda>at. y - window < at \<and> at \<le> y) past) \<le> length (filter (\<lambda>at. now - at < window) past)"
      proof -
        have "filter (\<lambda>at. y - window < at \<and> at \<le> y) past =
            filter (\<lambda>at. y - window < at \<and> at \<le> y) (filter (\<lambda>at. now - at < window) past)"
          using True by (auto intro!: filter_cong)
        then show ?thesis by (metis length_filter_le)
      qed
      with False seen True show ?thesis by simp
    next
      case no: False
      with Cons.prems(4) [of y] show ?thesis by auto
    qed
    have "length (filter (\<lambda>at. x - window < at \<and> at \<le> x) ((past @ [now]) @ metered bucket limit window ts ?s)) \<le> limit"
    proof (rule Cons.IH [OF now(2)])
      show "\<forall>x \<in> set (past @ [now]). x \<le> now" using Cons.prems(2) now(1) by force
      show "filter (\<lambda>at. now - at < window) (attempts_of bucket ?s) = filter (\<lambda>at. now - at < window) (past @ [now])"
        using seen by (simp add: attempts_of_def)
    qed (rule room)
    with r show ?thesis by simp
  qed
qed

text \<open>
  C40. Metering is exact: whatever the times of the attempts, as long as the clock does not go
  back, a bucket never lets more than its limit through in any window of its length, wherever
  that window starts.
\<close>

theorem metering_bounds_every_window:
  assumes "sorted ts" and "rl_attempts s bucket = None"
  shows "length (filter (\<lambda>at. x - window < at \<and> at \<le> x) (metered bucket limit window ts s)) \<le> limit"
proof (cases ts)
  case Nil
  then show ?thesis by simp
next
  case (Cons t ts')
  have "length (filter (\<lambda>at. x - window < at \<and> at \<le> x) ([] @ metered bucket limit window ts s)) \<le> limit"
    by (rule metered_window [of t]) (use assms Cons in \<open>simp_all add: attempts_of_def\<close>)
  then show ?thesis by simp
qed

theorem metering_bounds_every_window_witness:
  "length (filter (\<lambda>at. 61 - 60 < at \<and> at \<le> 61) (metered (lit ''b'') 2 60 [0, 1, 2, 61, 62] relay_new)) \<le> 2"
  by (rule metering_bounds_every_window) (simp_all add: relay_new_def)

section \<open>Gaps\<close>

text \<open>
  An agent that reconnects takes itself offline.  When its new tunnel registers while the
  old one is still being served, the old one's outbox loses its sender and its loop ends; on
  its way out it unregisters the runtime, and with it the new tunnel: the runtime is then
  offline with its tunnel up, its streams are closed, requests to it are refused, and the
  new tunnel's loop ends too.
\<close>

theorem reconnect_takes_host_offline:
  assumes "\<not> outbox_dropped rt old s" and "new \<noteq> old" and "s1 = serve_agent_start rt name new s"
    and "s2 = serve_agent_end rt s1"
  shows "is_online rt s1 \<and> \<not> outbox_dropped rt new s1 \<and> outbox_dropped rt old s1 \<and>
    \<not> is_online rt s2 \<and> outbox_dropped rt new s2 \<and>
    (\<forall>i r. (i, r) \<in> set (rl_streams s2) \<longrightarrow> sr_runtime r \<noteq> rt) \<and>
    fst (begin_rpc live rt e ch s2) = Inl RuntimeOffline"
  using assms
  by (auto simp: serve_agent_start_def serve_agent_end_def register_runtime_def unregister_runtime_def
      outbox_dropped_def is_online_def begin_rpc_def Let_def)

theorem reconnect_takes_host_offline_witness:
  "is_online (lit ''r'') (serve_agent_start (lit ''r'') None 2 (serve_agent_start (lit ''r'') None 1 relay_new)) \<and>
   \<not> is_online (lit ''r'') (serve_agent_end (lit ''r'')
       (serve_agent_start (lit ''r'') None 2 (serve_agent_start (lit ''r'') None 1 relay_new)))"
proof -
  have "\<not> outbox_dropped (lit ''r'') 1 (serve_agent_start (lit ''r'') None 1 relay_new)"
    by (simp add: outbox_dropped_def serve_agent_start_def register_runtime_def)
  moreover have "(2 :: nat) \<noteq> 1" by simp
  ultimately show ?thesis
    using reconnect_takes_host_offline [of "lit ''r''" 1 _ 2, OF _ _ refl refl] by blast
qed

text \<open>
  A device that is paired with a second host keeps the first.  If a device holds tokens for
  one runtime and another runtime then accepts a pairing it claimed, its record moves to the
  second; its access token still opens the first, its refresh token is still renewed for the
  first, and the first can no longer revoke it.
\<close>

theorem moved_pairing_keeps_access:
  assumes "authorize token (Some home) now s = Inr c" and "tk_sub c = d"
    and "confirm_pairing i away True now s = (Inr u, s1)" and "map_of (rl_pairings s) i = Some p"
    and "pg_claimed p = Some cl" and "cl_device_id cl = d" and "away \<noteq> home"
    and "rl_refresh s rtoken = Some rc" and "rl_retired s rtoken = None" and "tk_sub rc = d"
    and "tk_aud rc = home" and "now < tk_exp rc"
  shows "authorize token (Some home) now s1 = Inr c \<and>
    revoke_relay_device live d home s1 = (Inl RelayNotFound, s1) \<and>
    (\<exists>s2 c2. rotate_refresh access refresh rtoken d now s1 = (Inr (access, refresh), s2) \<and>
       authorize access (Some home) now s2 = Inr c2)"
proof -
  have s1: "rl_access s1 = rl_access s" "rl_refresh s1 = rl_refresh s" "rl_retired s1 = rl_retired s"
    and dev: "map_of (rl_devices s1) d =
      Some \<lparr>dv_id = d, dv_runtime = away, dv_pubkey = cl_pubkey cl, dv_scope = cl_scope cl, dv_revoked = False\<rparr>"
    using assms(3-6) by (auto simp: confirm_pairing_def split: if_splits)
  have "authorize token (Some home) now s1 = Inr c"
    using assms(1,2) dev by (auto simp: authorize_def s1 split: option.splits if_splits)
  moreover have "revoke_relay_device live d home s1 = (Inl RelayNotFound, s1)"
    using dev assms(7) by (simp add: revoke_relay_device_def)
  moreover have "\<exists>s2 c2. rotate_refresh access refresh rtoken d now s1 = (Inr (access, refresh), s2) \<and>
       authorize access (Some home) now s2 = Inr c2"
    using assms(8-12) dev
    by (auto simp: rotate_refresh_def mint_pair_def authorize_def s1 Let_def ACCESS_TOKEN_TTL_SECS_def)
  ultimately show ?thesis by blast
qed

theorem moved_pairing_keeps_access_witness:
  "\<exists>c s1. authorize (lit ''a'') (Some (lit ''r'')) 20 demo_relay = Inr c \<and>
    confirm_pairing (lit ''p'') (lit ''q'') True 20 (demo_relay\<lparr>rl_pairings := [(lit ''p'', demo_pairing)]\<rparr>) = (Inr (), s1) \<and>
    authorize (lit ''a'') (Some (lit ''r'')) 20 s1 = Inr c"
proof -
  let ?s = "demo_relay\<lparr>rl_pairings := [(lit ''p'', demo_pairing)]\<rparr>"
  obtain c where c: "rl_access demo_relay (lit ''a'') = Some c" "tk_sub c = lit ''d''" "tk_aud c = lit ''r''" "tk_exp c = 900"
    using demo_relay_tokens(3) by blast
  obtain rc where rc: "rl_refresh demo_relay (lit ''t'') = Some rc" "tk_sub rc = lit ''d''" "tk_aud rc = lit ''r''"
    "tk_exp rc = 2592000" using demo_relay_tokens(4) by blast
  have a: "authorize (lit ''a'') (Some (lit ''r'')) 20 ?s = Inr c"
    using c demo_relay_tokens(1) by (simp add: authorize_def demo_relay_device_def)
  obtain s1 where s1: "confirm_pairing (lit ''p'') (lit ''q'') True 20 ?s = (Inr (), s1)"
    by (simp add: confirm_pairing_def demo_pairing_def demo_device_claim_def CONFIRM_TTL_SECS_def)
  have m: "map_of (rl_pairings ?s) (lit ''p'') = Some demo_pairing" "pg_claimed demo_pairing = Some demo_device_claim"
    "cl_device_id demo_device_claim = lit ''d''" "lit ''q'' \<noteq> lit ''r''"
    by (simp_all add: demo_pairing_def demo_device_claim_def)
  have t: "rl_refresh ?s (lit ''t'') = Some rc" "rl_retired ?s (lit ''t'') = None" "(20 :: int) < tk_exp rc"
    using rc demo_relay_tokens(2) by simp_all
  have "authorize (lit ''a'') (Some (lit ''r'')) 20 s1 = Inr c"
    using moved_pairing_keeps_access [OF a c(2) s1 m t(1,2) rc(2,3) t(3)] by blast
  moreover have "authorize (lit ''a'') (Some (lit ''r'')) 20 demo_relay = Inr c"
    using c demo_relay_tokens(1) by (simp add: authorize_def demo_relay_device_def)
  ultimately show ?thesis using s1 by blast
qed

text \<open>
  A stream can open after its device was revoked: the check stands before the upgrade of the
  socket, the stream is opened after it, and nothing looks at the device again.
\<close>

lemma stream_opens_after_revocation:
  assumes "app_session_auth now host auth s = (Inr c, s0)"
    and "revoke_relay_device live (tk_sub c) host s = (Inr u, s1)"
    and "rl_online s host = Some h" and "live (on_agent h)"
  shows "\<exists>sid s2 s3. serve_app_start live host project c app s1 = (Inr sid, s2) \<and>
    forward_upstream live sid frame s2 = (Inr (), s3) \<and>
    last (rl_sent s3) = (on_agent h, ToAgent (ForwardUpstream sid frame))"
proof -
  have "rl_online s1 host = Some h"
    using assms(2,3) by (auto simp: revoke_relay_device_def Let_def split: option.splits if_splits)
  with assms(4) show ?thesis
    by (simp add: serve_app_start_def relay_open_stream_def forward_upstream_def post_def Let_def)
qed

end
