(* ===== verification/Model_Message.thy ===== *)
theory Model_Message
  imports Prelude
begin

text \<open>
  The conversation vocabulary of \<open>leveler-model\<close>: messages and their parts
  (\<open>message.rs\<close>), why a transcript row exists and what authority its origin
  carries (\<open>authority.rs\<close>), the route that produced a turn and its deployment
  identity (\<open>provenance.rs\<close>), the retention arms (\<open>retention.rs\<close>) and the
  tool-exchange check (\<open>tool_exchange.rs\<close>).

  A JSON value (tool arguments, input schemas) is a type parameter \<open>'j\<close>: no
  definition looks inside one, and the accounting takes its rendering as an
  argument.
\<close>

section \<open>Authority and origin\<close>

datatype prompt_authority =
    CoreContract | UserIntent | ProjectInstruction | UserSelectedProcedure
  | RuntimeFact | AdvisoryContext | ExternalData | Unclassified

definition instruction_precedence :: "prompt_authority \<Rightarrow> nat option" where
  "instruction_precedence a =
     (case a of
        CoreContract \<Rightarrow> Some 3
      | UserIntent \<Rightarrow> Some 2
      | ProjectInstruction \<Rightarrow> Some 1
      | UserSelectedProcedure \<Rightarrow> Some 0
      | RuntimeFact \<Rightarrow> None
      | AdvisoryContext \<Rightarrow> None
      | ExternalData \<Rightarrow> None
      | Unclassified \<Rightarrow> None)"

definition instruction_outranks :: "prompt_authority \<Rightarrow> prompt_authority \<Rightarrow> bool option" where
  "instruction_outranks a b =
     (case instruction_precedence a of
        None \<Rightarrow> None
      | Some m \<Rightarrow> (case instruction_precedence b of None \<Rightarrow> None | Some n \<Rightarrow> Some (n < m)))"

definition is_instruction :: "prompt_authority \<Rightarrow> bool" where
  "is_instruction a = (instruction_precedence a \<noteq> None)"

datatype protocol_repair_kind =
    InvalidToolJson | TruncatedToolCall | MissingToolCall | LengthContinuation | EmptyAnswer
  | GoalUnresolved | PlanUnresolved | TaskRegistrationRefused | GoalSettledDelivery

datatype runtime_notice_kind =
    ChildSettlement | ChildRedelivery | ChildResumed | ChildLost | ChildRecovery | CrashRecovery
  | ChildTask | ObjectivePin | GoalCheckpointNotice | LoadedImage | BackgroundTaskResult
  | SideQuestion | ForeignSessionImport

datatype transcript_origin =
    UserInputOrigin
  | ProtocolRepairOrigin protocol_repair_kind
  | RuntimeNoticeOrigin runtime_notice_kind
  | BackgroundTaskResults "rstr list"
  | CompactionSummaryOrigin "rstr list"

definition delivered_background_task_ids :: "transcript_origin \<Rightarrow> rstr list" where
  "delivered_background_task_ids t =
     (case t of
        BackgroundTaskResults ids \<Rightarrow> ids
      | CompactionSummaryOrigin ids \<Rightarrow> ids
      | _ \<Rightarrow> [])"

datatype prompt_source =
    BasePrompt | TurnFacts | OperatingRules | WorkspaceListing | ProjectRulesSource "rstr list"
  | ScopedRule rstr | CommitTrailer | FinalDelivery | GoalProtocol | AgentRoleSource rstr
  | AgentBrief | SkillSource "rstr list" | SkillCatalog | AgentCatalog | ExecutionStateSource
  | ResumeSource | FinalizationSource | ModelStepCeiling | DelegationHint
  | InvestigationBatching | PostEditThroughput | CompactionSummarySource
  | ToolResultSource rstr | UserMessageSource | ProtocolRepairSource protocol_repair_kind
  | RuntimeNoticeSource runtime_notice_kind | LegacySystem | LegacyUser | UnspecifiedSource

datatype segment_lifecycle =
    SessionPrefix | TurnLifecycle | RequestEphemeral | TranscriptLifecycle | ScopedLifecycle
  | UnknownLifecycle

record origin_class =
  oc_source :: prompt_source
  oc_authority :: prompt_authority
  oc_authority_mismatch :: bool

definition notice_authority :: "runtime_notice_kind \<Rightarrow> prompt_authority" where
  "notice_authority n =
     (case n of
        ChildSettlement \<Rightarrow> AdvisoryContext
      | ChildRedelivery \<Rightarrow> AdvisoryContext
      | ChildTask \<Rightarrow> AdvisoryContext
      | LoadedImage \<Rightarrow> ExternalData
      | BackgroundTaskResult \<Rightarrow> ExternalData
      | SideQuestion \<Rightarrow> CoreContract
      | ForeignSessionImport \<Rightarrow> AdvisoryContext
      | ChildResumed \<Rightarrow> RuntimeFact
      | ChildLost \<Rightarrow> RuntimeFact
      | ChildRecovery \<Rightarrow> RuntimeFact
      | CrashRecovery \<Rightarrow> RuntimeFact
      | ObjectivePin \<Rightarrow> RuntimeFact
      | GoalCheckpointNotice \<Rightarrow> RuntimeFact)"

definition classify_runtime_notice :: "runtime_notice_kind \<Rightarrow> origin_class" where
  "classify_runtime_notice n =
     \<lparr>oc_source = RuntimeNoticeSource n, oc_authority = notice_authority n,
      oc_authority_mismatch = False\<rparr>"

definition classify_transcript_origin :: "transcript_origin option \<Rightarrow> origin_class" where
  "classify_transcript_origin t =
     (case t of
        Some UserInputOrigin \<Rightarrow>
          \<lparr>oc_source = UserMessageSource, oc_authority = UserIntent, oc_authority_mismatch = False\<rparr>
      | Some (ProtocolRepairOrigin r) \<Rightarrow>
          \<lparr>oc_source = ProtocolRepairSource r, oc_authority = CoreContract,
           oc_authority_mismatch = False\<rparr>
      | Some (CompactionSummaryOrigin ids) \<Rightarrow>
          \<lparr>oc_source = CompactionSummarySource, oc_authority = AdvisoryContext,
           oc_authority_mismatch = False\<rparr>
      | Some (RuntimeNoticeOrigin n) \<Rightarrow> classify_runtime_notice n
      | Some (BackgroundTaskResults ids) \<Rightarrow> classify_runtime_notice BackgroundTaskResult
      | None \<Rightarrow>
          \<lparr>oc_source = LegacyUser, oc_authority = Unclassified, oc_authority_mismatch = False\<rparr>)"

definition legacy_system_authority :: "rstr \<Rightarrow> prompt_authority" where
  "legacy_system_authority t = Unclassified"

definition scoped_rule_paths_in_legacy_system :: "rstr \<Rightarrow> rstr list" where
  "scoped_rule_paths_in_legacy_system t =
     List.map_filter
       (\<lambda>line. case strip_prefix (lit ''--- from '') line of
                 None \<Rightarrow> None
               | Some rest \<Rightarrow>
                   (case strip_prefix (rev (lit '' ---'')) (rev rest) of
                      None \<Rightarrow> None
                    | Some p \<Rightarrow> if p = [] then None else Some (rev p)))
       (str_lines t)"

section \<open>Routes\<close>

datatype protocol_kind = OpenAiChat | OpenAiResponses | AnthropicMessages | GeminiGenerateContent

record route_identity =
  ri_provider :: rstr
  ri_model :: rstr
  ri_api :: "protocol_kind option"
  ri_deployment :: "rstr option"

definition is_same_route :: "route_identity \<Rightarrow> route_identity \<Rightarrow> bool" where
  "is_same_route a c \<longleftrightarrow>
     ri_provider a = ri_provider c \<and> ri_model a = ri_model c \<and> ri_api a = ri_api c \<and>
     ri_deployment a = ri_deployment c"

definition conflicts_with :: "route_identity \<Rightarrow> route_identity \<Rightarrow> bool" where
  "conflicts_with a c \<longleftrightarrow>
     ri_provider a \<noteq> ri_provider c \<or> ri_model a \<noteq> ri_model c \<or>
     (ri_api a \<noteq> None \<and> ri_api c \<noteq> None \<and> ri_api a \<noteq> ri_api c) \<or>
     (case (ri_deployment a, ri_deployment c) of
        (Some x, Some y) \<Rightarrow> x \<noteq> y
      | _ \<Rightarrow> False)"

text \<open>\<open>str::rsplit_once\<close> at a character.\<close>

definition rsplit_once :: "rchar \<Rightarrow> rstr \<Rightarrow> (rstr \<times> rstr) option" where
  "rsplit_once c s = map_option (\<lambda>(a, b). (rev b, rev a)) (split_once c (rev s))"

text \<open>\<open>str::split_once\<close> at a string.\<close>

definition split_once_str :: "rstr \<Rightarrow> rstr \<Rightarrow> (rstr \<times> rstr) option" where
  "split_once_str p s =
     map_option (\<lambda>i. (take i s, drop (i + length p) s)) (find_sub p s)"

definition nonempty :: "rstr option \<Rightarrow> rstr option" where
  "nonempty x = (case x of Some [] \<Rightarrow> None | _ \<Rightarrow> x)"

definition authority_host_port :: "rstr \<Rightarrow> rstr \<times> rstr option" where
  "authority_host_port a =
     (case strip_prefix (lit ''['') a of
        Some rest \<Rightarrow>
          (case split_once 93 rest of
             Some (host, tl') \<Rightarrow>
               (lit ''['' @ host @ lit '']'', nonempty (strip_prefix (lit '':'') tl'))
           | None \<Rightarrow> (a, None))
      | None \<Rightarrow>
          (case rsplit_once 58 a of
             Some (host, port) \<Rightarrow> (host, nonempty (Some port))
           | None \<Rightarrow> (a, None)))"

definition default_port :: "rstr \<Rightarrow> rstr option" where
  "default_port scheme =
     (if scheme = lit ''http'' then Some (lit ''80'')
      else if scheme = lit ''https'' then Some (lit ''443'')
      else None)"

definition normalize_authority :: "rstr \<Rightarrow> rstr \<Rightarrow> rstr" where
  "normalize_authority a scheme =
     (let (h, port) = authority_host_port a;
          host = to_ascii_lowercase h
      in case port of
           Some p \<Rightarrow> if Some p \<noteq> default_port scheme then host @ lit '':'' @ p else host
         | None \<Rightarrow> host)"

definition deployment_identity :: "rstr \<Rightarrow> rstr" where
  "deployment_identity base_url =
     (let without_fragment = hd (split_char 35 (trim base_url));
          without_query = hd (split_char 63 without_fragment);
          (scheme, rest) = (case split_once_str (lit ''://'') without_query of
                              Some (s, r) \<Rightarrow> (to_ascii_lowercase s, r)
                            | None \<Rightarrow> ([], without_query));
          authority0 = takeWhile (\<lambda>c. c \<noteq> 47) rest;
          path0 = dropWhile (\<lambda>c. c \<noteq> 47) rest;
          authority1 = (case rsplit_once 64 authority0 of
                          Some (u, host) \<Rightarrow> host
                        | None \<Rightarrow> authority0);
          authority = normalize_authority authority1 scheme;
          path = trim_end_matches (\<lambda>c. c = 47) path0
      in if scheme = [] then authority @ path else scheme @ lit ''://'' @ authority @ path)"

section \<open>Messages\<close>

datatype role = SystemRole | UserRole | AssistantRole | ToolRole

record 'j tool_call =
  tc_id :: rstr
  tc_name :: rstr
  tc_arguments :: 'j

record tool_result_content =
  tr_call_id :: rstr
  tr_content :: rstr
  tr_is_error :: bool

datatype image_source = ImageUrl rstr | ImageBase64 rstr rstr

datatype 'j content_part =
    TextPart rstr
  | ReasoningPart rstr
  | SignedReasoning rstr rstr
  | RedactedReasoning rstr
  | ImagePart image_source
  | ToolCallPart "'j tool_call"
  | ToolResultPart tool_result_content

record 'j tool_definition =
  td_name :: rstr
  td_description :: rstr
  td_input_schema :: 'j

record 'j message =
  msg_role :: role
  msg_content :: "'j content_part list"
  msg_origin :: "transcript_origin option"
  msg_route :: "route_identity option"

definition is_protocol_repair :: "'j message \<Rightarrow> bool" where
  "is_protocol_repair m =
     (case msg_origin m of Some (ProtocolRepairOrigin r) \<Rightarrow> True | _ \<Rightarrow> False)"

fun text_content :: "'j content_part list \<Rightarrow> rstr" where
  "text_content [] = []"
| "text_content (TextPart t # ps) = t @ text_content ps"
| "text_content (p # ps) = text_content ps"

datatype tool_choice = ChoiceAuto | ChoiceNone | ChoiceRequired | ChoiceTool rstr

definition forces_tool_call :: "tool_choice \<Rightarrow> bool" where
  "forces_tool_call c = (case c of ChoiceRequired \<Rightarrow> True | ChoiceTool t \<Rightarrow> True | _ \<Rightarrow> False)"

section \<open>Retention arms\<close>

datatype reasoning_retention = RetainAll | LastTurns nat | RetainNone

definition is_reasoning_part :: "'j content_part \<Rightarrow> bool" where
  "is_reasoning_part p =
     (case p of
        ReasoningPart t \<Rightarrow> True
      | SignedReasoning t s \<Rightarrow> True
      | RedactedReasoning d \<Rightarrow> True
      | _ \<Rightarrow> False)"

definition is_tool_call_part :: "'j content_part \<Rightarrow> bool" where
  "is_tool_call_part p = (case p of ToolCallPart c \<Rightarrow> True | _ \<Rightarrow> False)"

definition carries_reasoning :: "'j message \<Rightarrow> bool" where
  "carries_reasoning m = list_ex is_reasoning_part (msg_content m)"

definition carries_tool_call :: "'j message \<Rightarrow> bool" where
  "carries_tool_call m = list_ex is_tool_call_part (msg_content m)"

definition reasoning_positions :: "'j message list \<Rightarrow> nat list" where
  "reasoning_positions ms =
     filter (\<lambda>i. msg_role (ms ! i) = AssistantRole \<and> carries_reasoning (ms ! i)) [0..<length ms]"

definition carried_positions :: "reasoning_retention \<Rightarrow> 'j message list \<Rightarrow> nat list" where
  "carried_positions r ms =
     (let positions = reasoning_positions ms
      in case r of
           RetainAll \<Rightarrow> positions
         | LastTurns keep \<Rightarrow> drop (length positions - keep) positions
         | RetainNone \<Rightarrow> [])"

definition retention_arm_name :: "reasoning_retention \<Rightarrow> rstr" where
  "retention_arm_name r =
     (case r of
        RetainAll \<Rightarrow> lit ''all''
      | LastTurns n \<Rightarrow> lit ''last_'' @ show_nat n
      | RetainNone \<Rightarrow> lit ''none'')"

section \<open>Tool exchanges\<close>

datatype tool_exchange_violation =
    OrphanResult nat rstr
  | UnknownCallId nat rstr
  | DuplicateResult nat rstr
  | UnansweredCall nat rstr

text \<open>The open exchange: the assistant's index, each call and whether it has
  been answered.\<close>

type_synonym open_exchange = "(nat \<times> (rstr \<times> bool) list) option"

fun mark_answered :: "rstr \<Rightarrow> (rstr \<times> bool) list \<Rightarrow> (rstr \<times> bool) list" where
  "mark_answered i [] = []"
| "mark_answered i ((j, b) # cs) = (if j = i then (j, True) # cs else (j, b) # mark_answered i cs)"

definition answer_call ::
  "nat \<Rightarrow> rstr \<Rightarrow> open_exchange \<Rightarrow> tool_exchange_violation + open_exchange" where
  "answer_call index call_id opn =
     (case opn of
        None \<Rightarrow> Inl (OrphanResult index call_id)
      | Some (a, calls) \<Rightarrow>
          (case find (\<lambda>(i, answered). i = call_id) calls of
             None \<Rightarrow> Inl (UnknownCallId index call_id)
           | Some (i, True) \<Rightarrow> Inl (DuplicateResult index call_id)
           | Some (i, False) \<Rightarrow> Inr (Some (a, mark_answered call_id calls))))"

fun answer_parts ::
  "nat \<Rightarrow> 'j content_part list \<Rightarrow> open_exchange \<Rightarrow> tool_exchange_violation + open_exchange" where
  "answer_parts index [] opn = Inr opn"
| "answer_parts index (ToolResultPart r # ps) opn =
     (case answer_call index (tr_call_id r) opn of
        Inl e \<Rightarrow> Inl e
      | Inr opn' \<Rightarrow> answer_parts index ps opn')"
| "answer_parts index (p # ps) opn = answer_parts index ps opn"

definition close_exchange :: "open_exchange \<Rightarrow> tool_exchange_violation option" where
  "close_exchange opn =
     (case opn of
        None \<Rightarrow> None
      | Some (index, calls) \<Rightarrow>
          (case find (\<lambda>(i, answered). \<not> answered) calls of
             Some (i, b) \<Rightarrow> Some (UnansweredCall index i)
           | None \<Rightarrow> None))"

fun call_ids :: "'j content_part list \<Rightarrow> rstr list" where
  "call_ids [] = []"
| "call_ids (ToolCallPart c # ps) = tc_id c # call_ids ps"
| "call_ids (p # ps) = call_ids ps"

definition open_calls :: "nat \<Rightarrow> 'j message \<Rightarrow> open_exchange" where
  "open_calls index m =
     (if msg_role m = AssistantRole \<and> call_ids (msg_content m) \<noteq> []
      then Some (index, map (\<lambda>i. (i, False)) (call_ids (msg_content m)))
      else None)"

fun validate_from ::
  "nat \<Rightarrow> open_exchange \<Rightarrow> 'j message list \<Rightarrow> tool_exchange_violation option" where
  "validate_from index opn [] = close_exchange opn"
| "validate_from index opn (m # ms) =
     (if msg_role m = ToolRole then
        (case answer_parts index (msg_content m) opn of
           Inl e \<Rightarrow> Some e
         | Inr opn' \<Rightarrow> validate_from (Suc index) opn' ms)
      else
        (case close_exchange opn of
           Some e \<Rightarrow> Some e
         | None \<Rightarrow> validate_from (Suc index) (open_calls index m) ms))"

text \<open>\<open>None\<close> is \<open>Ok(())\<close>.\<close>

definition validate_tool_exchange :: "'j message list \<Rightarrow> tool_exchange_violation option" where
  "validate_tool_exchange ms = validate_from 0 None ms"

end
