(* ===== verification/Model_Route.thy ===== *)
theory Model_Route
  imports Model_Message
begin

text \<open>
  What a configured model route declares and what follows from it: the profile
  (\<open>profile.rs\<close>), the reasoning-effort resolver, the thinking levels
  (\<open>thinking.rs\<close>), the reasoning-replay contract (\<open>projection.rs\<close>) and the
  requirements of the wire families (\<open>reasoning_route.rs\<close>).

  The price fields of a profile are binary floating point and are left out.
\<close>

section \<open>Limits\<close>

record model_limits =
  ml_context_window :: nat
  ml_reliable_context :: nat
  ml_max_output_tokens :: nat
  ml_max_tool_schema_bytes :: nat
  ml_max_parallel_tool_calls :: nat
  ml_max_tool_output_bytes :: "nat option"

text \<open>\<open>None\<close> is \<open>Ok(())\<close>.\<close>

definition validate_model_limits :: "model_limits \<Rightarrow> rstr option" where
  "validate_model_limits l =
     (if ml_context_window l = 0 then None
      else if ml_context_window l \<le> ml_max_output_tokens l then
        Some (lit ''max_output_tokens ('' @ show_nat (ml_max_output_tokens l)
              @ lit '') must be below context_window ('' @ show_nat (ml_context_window l)
              @ lit ''): a request for the full window would leave no room for its own completion'')
      else None)"

section \<open>Reasoning effort\<close>

datatype reasoning_effort =
  EffortMinimal | EffortLow | EffortMedium | EffortHigh | EffortXHigh | EffortMax

definition all_efforts :: "reasoning_effort list" where
  "all_efforts = [EffortMinimal, EffortLow, EffortMedium, EffortHigh, EffortXHigh, EffortMax]"

definition effort_as_wire :: "reasoning_effort \<Rightarrow> rstr" where
  "effort_as_wire e =
     (case e of
        EffortMinimal \<Rightarrow> lit ''minimal''
      | EffortLow \<Rightarrow> lit ''low''
      | EffortMedium \<Rightarrow> lit ''medium''
      | EffortHigh \<Rightarrow> lit ''high''
      | EffortXHigh \<Rightarrow> lit ''xhigh''
      | EffortMax \<Rightarrow> lit ''max'')"

definition effort_parse :: "rstr \<Rightarrow> reasoning_effort option" where
  "effort_parse raw =
     (let s = to_ascii_lowercase (trim raw)
      in if s = lit ''minimal'' then Some EffortMinimal
         else if s = lit ''low'' then Some EffortLow
         else if s = lit ''medium'' then Some EffortMedium
         else if s = lit ''high'' then Some EffortHigh
         else if s = lit ''xhigh'' then Some EffortXHigh
         else if s = lit ''max'' then Some EffortMax
         else None)"

definition effort_rank :: "reasoning_effort \<Rightarrow> nat" where
  "effort_rank e =
     (case e of
        EffortMinimal \<Rightarrow> 0 | EffortLow \<Rightarrow> 1 | EffortMedium \<Rightarrow> 2
      | EffortHigh \<Rightarrow> 3 | EffortXHigh \<Rightarrow> 4 | EffortMax \<Rightarrow> 5)"

datatype effort_source = UserOverride | ModelDefault

record resolved_reasoning =
  rr_requested :: "reasoning_effort option"
  rr_default :: "reasoning_effort option"
  rr_effective :: "reasoning_effort option"
  rr_source :: "effort_source option"

datatype reasoning_style =
    StyleNone | OpenAiEffort | ThinkingFlag | AdaptiveThinking | BudgetedThinking nat

record reasoning_config =
  rc_style :: reasoning_style
  rc_supported_efforts :: "reasoning_effort list"
  rc_default_effort :: "reasoning_effort option"
  rc_preserved_thinking :: "bool option"
  rc_forced :: bool

text \<open>\<open>sort_by_key\<close> (stable) followed by \<open>dedup\<close> (adjacent equals).\<close>

definition ordered_efforts :: "reasoning_effort list \<Rightarrow> reasoning_effort list" where
  "ordered_efforts es = remdups_adj (sort_key effort_rank es)"

definition last_opt :: "'a list \<Rightarrow> 'a option" where
  "last_opt xs = (if xs = [] then None else Some (last xs))"

definition normalize_reasoning_effort ::
  "reasoning_effort \<Rightarrow> reasoning_effort list \<Rightarrow> reasoning_effort option" where
  "normalize_reasoning_effort requested supported =
     (if supported = [] then None
      else case find (\<lambda>e. effort_rank requested \<le> effort_rank e) (ordered_efforts supported) of
             Some e \<Rightarrow> Some e
           | None \<Rightarrow> last_opt (ordered_efforts supported))"

definition supported_or_default :: "reasoning_config \<Rightarrow> reasoning_effort list" where
  "supported_or_default c =
     (if rc_supported_efforts c = [] then
        (case rc_default_effort c of Some e \<Rightarrow> [e] | None \<Rightarrow> [])
      else rc_supported_efforts c)"

definition resolve_reasoning_effort ::
  "reasoning_effort option \<Rightarrow> reasoning_config \<Rightarrow> resolved_reasoning" where
  "resolve_reasoning_effort requested c =
     (let supported = supported_or_default c;
          dflt = rc_default_effort c
      in if supported = [] then
           (case requested of
              Some r \<Rightarrow> \<lparr>rr_requested = requested, rr_default = dflt, rr_effective = Some r,
                         rr_source = Some UserOverride\<rparr>
            | None \<Rightarrow> \<lparr>rr_requested = requested, rr_default = dflt, rr_effective = dflt,
                       rr_source = map_option (\<lambda>_. ModelDefault) dflt\<rparr>)
         else
           (case requested of
              Some r \<Rightarrow> \<lparr>rr_requested = requested, rr_default = dflt,
                         rr_effective = normalize_reasoning_effort r supported,
                         rr_source = Some UserOverride\<rparr>
            | None \<Rightarrow>
                (case dflt of
                   Some d \<Rightarrow> \<lparr>rr_requested = requested, rr_default = dflt,
                              rr_effective = normalize_reasoning_effort d supported,
                              rr_source = Some ModelDefault\<rparr>
                 | None \<Rightarrow> \<lparr>rr_requested = requested, rr_default = dflt, rr_effective = None,
                            rr_source = None\<rparr>)))"

definition validate_reasoning_config :: "bool \<Rightarrow> reasoning_config \<Rightarrow> rstr option" where
  "validate_reasoning_config capable c =
     (if \<not> capable then
        (if rc_supported_efforts c \<noteq> [] \<or> rc_default_effort c \<noteq> None then
           Some (lit ''reasoning is disabled but supported_efforts/default_effort is set'')
         else if rc_preserved_thinking c \<noteq> None then
           Some (lit ''reasoning is disabled but preserved_thinking is declared'')
         else if rc_forced c then
           Some (lit ''reasoning is disabled but the route is declared forced-thinking'')
         else None)
      else if rc_forced c \<and> rc_style c = StyleNone then
        Some (lit ''style=none cannot be forced-thinking: there is no thinking request at all'')
      else if rc_style c = StyleNone then
        (if rc_supported_efforts c \<noteq> [] \<or> rc_default_effort c \<noteq> None then
           Some (lit ''style=none (no effort knob) cannot declare supported_efforts or default_effort'')
         else None)
      else
        (case (rc_style c, rc_supported_efforts c, rc_default_effort c) of
           (BudgetedThinking budget, [], None) \<Rightarrow>
             (if budget < 1024 then Some (lit ''budgeted thinking requires at least 1024 tokens'')
              else None)
         | (_, [], None) \<Rightarrow>
             Some (lit ''reasoning model must declare supported_efforts or default_effort'')
         | (_, _, None) \<Rightarrow> Some (lit ''reasoning model must declare default_effort'')
         | (_, _, Some d) \<Rightarrow>
             (if d \<notin> set (supported_or_default c) then
                Some (lit ''default_effort `'' @ effort_as_wire d
                      @ lit ''` is not in supported_efforts'')
              else None)))"

section \<open>Thinking levels\<close>

datatype thinking_level =
  ThinkAuto | ThinkOff | ThinkMinimal | ThinkLow | ThinkMedium | ThinkHigh | ThinkMax

definition all_levels :: "thinking_level list" where
  "all_levels = [ThinkAuto, ThinkOff, ThinkMinimal, ThinkLow, ThinkMedium, ThinkHigh, ThinkMax]"

definition level_as_str :: "thinking_level \<Rightarrow> rstr" where
  "level_as_str l =
     (case l of
        ThinkAuto \<Rightarrow> lit ''auto'' | ThinkOff \<Rightarrow> lit ''off'' | ThinkMinimal \<Rightarrow> lit ''minimal''
      | ThinkLow \<Rightarrow> lit ''low'' | ThinkMedium \<Rightarrow> lit ''medium'' | ThinkHigh \<Rightarrow> lit ''high''
      | ThinkMax \<Rightarrow> lit ''max'')"

definition level_parse :: "rstr \<Rightarrow> thinking_level option" where
  "level_parse raw =
     (let s = to_ascii_lowercase (trim raw)
      in if s = lit ''auto'' then Some ThinkAuto
         else if s = lit ''off'' then Some ThinkOff
         else if s = lit ''minimal'' then Some ThinkMinimal
         else if s = lit ''low'' then Some ThinkLow
         else if s = lit ''medium'' then Some ThinkMedium
         else if s = lit ''high'' then Some ThinkHigh
         else if s = lit ''max'' then Some ThinkMax
         else None)"

definition level_values :: rstr where
  "level_values = join (lit '', '') (map level_as_str all_levels)"

definition level_native :: "thinking_level \<Rightarrow> reasoning_effort option" where
  "level_native l =
     (case l of
        ThinkMinimal \<Rightarrow> Some EffortMinimal
      | ThinkLow \<Rightarrow> Some EffortLow
      | ThinkMedium \<Rightarrow> Some EffortMedium
      | ThinkHigh \<Rightarrow> Some EffortHigh
      | ThinkAuto \<Rightarrow> None
      | ThinkOff \<Rightarrow> None
      | ThinkMax \<Rightarrow> None)"

definition canonical_for :: "reasoning_effort \<Rightarrow> thinking_level" where
  "canonical_for e =
     (case e of
        EffortMinimal \<Rightarrow> ThinkMinimal
      | EffortLow \<Rightarrow> ThinkLow
      | EffortMedium \<Rightarrow> ThinkMedium
      | EffortHigh \<Rightarrow> ThinkHigh
      | EffortXHigh \<Rightarrow> ThinkMax
      | EffortMax \<Rightarrow> ThinkMax)"

datatype thinking_access = ThinkingUnsupported | ThinkingFixed | ThinkingAdjustable

datatype thinking_projection = OmitThinking | SendEffort reasoning_effort | DisableThinking

record thinking_capabilities =
  th_access :: thinking_access
  th_accepted :: "thinking_level list"
  th_visible :: "thinking_level list"
  th_supports_disable :: bool
  th_supported :: "reasoning_effort list"

definition push_new :: "'a \<Rightarrow> 'a list \<Rightarrow> 'a list" where
  "push_new x xs = (if x \<in> set xs then xs else xs @ [x])"

text \<open>The level a selector shows for each native level: the strongest is \<open>max\<close>.\<close>

fun visible_levels :: "reasoning_effort list \<Rightarrow> thinking_level list" where
  "visible_levels [] = []"
| "visible_levels [e] = [ThinkMax]"
| "visible_levels (e # f # es) = canonical_for e # visible_levels (f # es)"

definition capabilities_of :: "bool \<Rightarrow> reasoning_config \<Rightarrow> thinking_capabilities" where
  "capabilities_of reasoning c =
     (if \<not> (reasoning \<and> rc_style c \<noteq> StyleNone \<and>
             (rc_supported_efforts c \<noteq> [] \<or> rc_default_effort c \<noteq> None)) then
        \<lparr>th_access = (if reasoning then ThinkingFixed else ThinkingUnsupported),
         th_accepted = [], th_visible = [], th_supports_disable = False, th_supported = []\<rparr>
      else
        (let disable = (rc_style c = ThinkingFlag \<and> \<not> rc_forced c);
             supported = ordered_efforts (supported_or_default c);
             start = (if disable then [ThinkAuto, ThinkOff] else [ThinkAuto])
         in \<lparr>th_access = ThinkingAdjustable,
             th_accepted = push_new ThinkMax (fold push_new (map canonical_for supported) start),
             th_visible = push_new ThinkMax (fold push_new (visible_levels supported) start),
             th_supports_disable = disable,
             th_supported = supported\<rparr>))"

definition is_adjustable :: "thinking_capabilities \<Rightarrow> bool" where
  "is_adjustable t = (th_access t = ThinkingAdjustable)"

definition accepts_level :: "thinking_capabilities \<Rightarrow> thinking_level \<Rightarrow> bool" where
  "accepts_level t l = (l \<in> set (th_accepted t))"

definition project_level ::
  "thinking_capabilities \<Rightarrow> thinking_level \<Rightarrow> thinking_projection option" where
  "project_level t l =
     (if \<not> is_adjustable t then None
      else if l = ThinkAuto then Some OmitThinking
      else if l = ThinkOff then (if th_supports_disable t then Some DisableThinking else None)
      else if l = ThinkMax then map_option SendEffort (last_opt (th_supported t))
      else (case level_native l of
              None \<Rightarrow> None
            | Some e \<Rightarrow> if e \<in> set (th_supported t) then Some (SendEffort e) else None))"

definition request_level :: "thinking_capabilities \<Rightarrow> thinking_level \<Rightarrow> thinking_projection" where
  "request_level t l = (case project_level t l of Some p \<Rightarrow> p | None \<Rightarrow> OmitThinking)"

section \<open>The replay contract\<close>

datatype reasoning_representation = NoRepresentation | RawAssistantField | SignedBlock

datatype replay_scope = ScopeNever | ScopeWhenToolsPresent | ScopeAlways

datatype missing_replay = MissingOmit | MissingEmptyString

datatype reasoning_integrity = Unconstrained | RetainedExact

datatype state_ownership = ClientManaged | ProviderManaged

record native_capabilities =
  nc_reasoning_pruning :: bool
  nc_native_compaction :: bool
  nc_server_state :: bool

definition native_none :: native_capabilities where
  "native_none =
     \<lparr>nc_reasoning_pruning = False, nc_native_compaction = False, nc_server_state = False\<rparr>"

definition native_any :: "native_capabilities \<Rightarrow> bool" where
  "native_any n \<longleftrightarrow> nc_reasoning_pruning n \<or> nc_native_compaction n \<or> nc_server_state n"

record replay_contract =
  ct_representation :: reasoning_representation
  ct_scope :: replay_scope
  ct_missing :: missing_replay
  ct_integrity :: reasoning_integrity
  ct_state :: state_ownership
  ct_native :: native_capabilities

definition contract_none :: replay_contract where
  "contract_none =
     \<lparr>ct_representation = NoRepresentation, ct_scope = ScopeNever, ct_missing = MissingOmit,
      ct_integrity = Unconstrained, ct_state = ClientManaged, ct_native = native_none\<rparr>"

definition raw_field :: "replay_scope \<Rightarrow> missing_replay \<Rightarrow> replay_contract" where
  "raw_field s m =
     \<lparr>ct_representation = RawAssistantField, ct_scope = s, ct_missing = m,
      ct_integrity = RetainedExact, ct_state = ClientManaged, ct_native = native_none\<rparr>"

definition signed_block :: replay_contract where
  "signed_block =
     \<lparr>ct_representation = SignedBlock, ct_scope = ScopeNever, ct_missing = MissingOmit,
      ct_integrity = RetainedExact, ct_state = ClientManaged, ct_native = native_none\<rparr>"

record compatibility_config =
  cc_supports_temperature :: bool
  cc_thinking_supports_forced_tool_choice :: bool
  cc_replay_scope :: "replay_scope option"
  cc_key_required :: "bool option"

definition default_compatibility :: compatibility_config where
  "default_compatibility =
     \<lparr>cc_supports_temperature = True, cc_thinking_supports_forced_tool_choice = True,
      cc_replay_scope = None, cc_key_required = None\<rparr>"

text \<open>The legacy boolean spelling of the replay scope.\<close>

definition legacy_replay_scope :: "replay_scope + bool \<Rightarrow> replay_scope" where
  "legacy_replay_scope v =
     (case v of
        Inl s \<Rightarrow> s
      | Inr True \<Rightarrow> ScopeWhenToolsPresent
      | Inr False \<Rightarrow> ScopeNever)"

definition resolve_contract :: "protocol_kind \<Rightarrow> compatibility_config \<Rightarrow> replay_contract" where
  "resolve_contract p c =
     (case p of
        OpenAiChat \<Rightarrow>
          (let s = (case cc_replay_scope c of Some s \<Rightarrow> s | None \<Rightarrow> ScopeNever);
               k = (if s = ScopeNever then contract_none else raw_field s MissingOmit)
           in k\<lparr>ct_missing := (if cc_key_required c = Some True then MissingEmptyString
                               else MissingOmit)\<rparr>)
      | AnthropicMessages \<Rightarrow> signed_block
      | OpenAiResponses \<Rightarrow> contract_none
      | GeminiGenerateContent \<Rightarrow> contract_none)"

definition replays_captured :: "replay_contract \<Rightarrow> bool \<Rightarrow> bool" where
  "replays_captured k has_tools =
     (case ct_scope k of
        ScopeNever \<Rightarrow> False
      | ScopeWhenToolsPresent \<Rightarrow> has_tools
      | ScopeAlways \<Rightarrow> True)"

definition requires_empty_key :: "replay_contract \<Rightarrow> bool \<Rightarrow> bool" where
  "requires_empty_key k has_tools \<longleftrightarrow>
     ct_missing k = MissingEmptyString \<and> replays_captured k has_tools"

definition signed_blocks :: "replay_contract \<Rightarrow> bool" where
  "signed_blocks k = (ct_representation k = SignedBlock)"

definition requires_exact :: "replay_contract \<Rightarrow> bool \<Rightarrow> bool" where
  "requires_exact k has_tools \<longleftrightarrow>
     ct_integrity k = RetainedExact \<and> replays_captured k has_tools"

definition scope_as_str :: "replay_scope \<Rightarrow> rstr" where
  "scope_as_str s =
     (case s of
        ScopeNever \<Rightarrow> lit ''never''
      | ScopeWhenToolsPresent \<Rightarrow> lit ''when_tools_present''
      | ScopeAlways \<Rightarrow> lit ''always'')"

definition contract_arm_name :: "replay_contract \<Rightarrow> rstr" where
  "contract_arm_name k =
     (if signed_blocks k then lit ''signed_blocks''
      else case (ct_scope k, ct_missing k) of
             (ScopeNever, _) \<Rightarrow> lit ''never''
           | (ScopeWhenToolsPresent, MissingOmit) \<Rightarrow> lit ''when_tools''
           | (ScopeWhenToolsPresent, MissingEmptyString) \<Rightarrow> lit ''when_tools+empty''
           | (ScopeAlways, MissingOmit) \<Rightarrow> lit ''always''
           | (ScopeAlways, MissingEmptyString) \<Rightarrow> lit ''always+empty'')"

section \<open>Wire families\<close>

record model_profile =
  mp_id :: rstr
  mp_provider :: rstr
  mp_model_id :: rstr
  mp_protocol :: protocol_kind
  mp_limits :: model_limits
  mp_reasoning :: reasoning_config
  mp_compatibility :: compatibility_config
  mp_thinking :: "thinking_level option"

definition route_of_profile :: "model_profile \<Rightarrow> route_identity" where
  "route_of_profile p =
     \<lparr>ri_provider = mp_provider p, ri_model = mp_model_id p, ri_api = Some (mp_protocol p),
      ri_deployment = None\<rparr>"

datatype replay_enforcement = EnforceRequired | EnforceDefault

datatype preserved_wire = NoPreservedField | ClearThinking

record required_replay =
  rq_scope :: replay_scope
  rq_missing :: missing_replay
  rq_enforcement :: replay_enforcement

record route_conflict =
  cf_model_id :: rstr
  cf_detail :: rstr

datatype wire_reasoning_family = DeepSeek | Glm | KimiK3 | KimiK27

definition strip_kimi :: "rstr \<Rightarrow> rstr" where
  "strip_kimi wire =
     (case strip_prefix (lit ''kimi-'') wire of Some r \<Rightarrow> r | None \<Rightarrow> wire)"

definition is_kimi_k3 :: "rstr \<Rightarrow> bool" where
  "is_kimi_k3 wire =
     (let i = strip_kimi wire
      in i = lit ''k3'' \<or> starts_with (lit ''k3-'') i \<or> starts_with (lit ''k3.'') i)"

definition is_kimi_k27 :: "rstr \<Rightarrow> bool" where
  "is_kimi_k27 wire =
     (let i = strip_kimi wire
      in i \<in> {lit ''k2.7-code'', lit ''k2.7-code-highspeed'', lit ''k2.8-preview'',
              lit ''for-coding'', lit ''for-coding-highspeed''} \<or>
         starts_with (lit ''k2.7-'') i \<or> starts_with (lit ''k2.8-'') i)"

definition wire_family :: "rstr \<Rightarrow> wire_reasoning_family option" where
  "wire_family model_id =
     (let wire = to_ascii_lowercase (trim (last (split_char 47 model_id)))
      in if starts_with (lit ''deepseek'') wire then Some DeepSeek
         else if starts_with (lit ''glm'') wire then Some Glm
         else if is_kimi_k3 wire then Some KimiK3
         else if is_kimi_k27 wire then Some KimiK27
         else None)"

definition family_replay :: "wire_reasoning_family \<Rightarrow> bool \<Rightarrow> required_replay" where
  "family_replay f glm_preserves =
     (case f of
        DeepSeek \<Rightarrow>
          \<lparr>rq_scope = ScopeWhenToolsPresent, rq_missing = MissingEmptyString,
           rq_enforcement = EnforceRequired\<rparr>
      | Glm \<Rightarrow>
          \<lparr>rq_scope = (if glm_preserves then ScopeAlways else ScopeWhenToolsPresent),
           rq_missing = MissingOmit,
           rq_enforcement = (if glm_preserves then EnforceRequired else EnforceDefault)\<rparr>
      | KimiK3 \<Rightarrow>
          \<lparr>rq_scope = ScopeAlways, rq_missing = MissingEmptyString,
           rq_enforcement = EnforceRequired\<rparr>
      | KimiK27 \<Rightarrow>
          \<lparr>rq_scope = ScopeAlways, rq_missing = MissingEmptyString,
           rq_enforcement = EnforceRequired\<rparr>)"

definition required_replay_for_route_with ::
  "protocol_kind \<Rightarrow> rstr \<Rightarrow> bool option \<Rightarrow> required_replay option" where
  "required_replay_for_route_with p model_id preserves =
     (if p \<noteq> OpenAiChat then None
      else map_option (\<lambda>f. family_replay f (preserves = Some True)) (wire_family model_id))"

definition required_reasoning_replay_for :: "model_profile \<Rightarrow> required_replay option" where
  "required_reasoning_replay_for p =
     required_replay_for_route_with (mp_protocol p) (mp_model_id p)
       (rc_preserved_thinking (mp_reasoning p))"

definition preserved_thinking_wire :: "protocol_kind \<Rightarrow> rstr \<Rightarrow> preserved_wire" where
  "preserved_thinking_wire p model_id =
     (if p \<noteq> OpenAiChat then NoPreservedField
      else case wire_family model_id of
             Some Glm \<Rightarrow> ClearThinking
           | _ \<Rightarrow> NoPreservedField)"

definition takes_thinking_field :: "wire_reasoning_family \<Rightarrow> bool" where
  "takes_thinking_field f =
     (case f of DeepSeek \<Rightarrow> True | Glm \<Rightarrow> True | KimiK3 \<Rightarrow> False | KimiK27 \<Rightarrow> False)"

definition accepts_thinking_field :: "protocol_kind \<Rightarrow> rstr \<Rightarrow> bool" where
  "accepts_thinking_field p model_id =
     (if p \<noteq> OpenAiChat then True
      else case wire_family model_id of None \<Rightarrow> True | Some f \<Rightarrow> takes_thinking_field f)"

definition replay_rank :: "replay_scope \<Rightarrow> nat" where
  "replay_rank s =
     (case s of ScopeNever \<Rightarrow> 0 | ScopeWhenToolsPresent \<Rightarrow> 1 | ScopeAlways \<Rightarrow> 2)"

definition route_scope :: "required_replay \<Rightarrow> replay_scope option \<Rightarrow> replay_scope" where
  "route_scope required declared =
     (case declared of
        Some ScopeAlways \<Rightarrow> ScopeAlways
      | Some ScopeNever \<Rightarrow>
          (if rq_enforcement required = EnforceDefault then ScopeNever else rq_scope required)
      | _ \<Rightarrow> rq_scope required)"

definition for_route :: "model_profile \<Rightarrow> replay_contract" where
  "for_route p =
     (let declared = resolve_contract (mp_protocol p) (mp_compatibility p)
      in case required_reasoning_replay_for p of
           None \<Rightarrow> declared
         | Some required \<Rightarrow>
             (let s = route_scope required (cc_replay_scope (mp_compatibility p))
              in if s = ScopeNever then declared
                 else \<lparr>ct_representation = RawAssistantField, ct_scope = s,
                       ct_missing =
                         (if rq_missing required = MissingEmptyString \<or>
                             cc_key_required (mp_compatibility p) = Some True
                          then MissingEmptyString else MissingOmit),
                       ct_integrity = RetainedExact,
                       ct_state = ct_state declared, ct_native = ct_native declared\<rparr>))"

definition weaker_than :: "replay_scope option \<Rightarrow> replay_scope \<Rightarrow> replay_scope option" where
  "weaker_than declared s =
     (case declared of
        Some d \<Rightarrow> if replay_rank d < replay_rank s then Some d else None
      | None \<Rightarrow> None)"

text \<open>The dash of the diagnostics is U+2014.\<close>

definition em_dash :: rstr where "em_dash = [8212]"

definition thinking_flag_detail :: rstr where
  "thinking_flag_detail =
     lit ''this wire family takes no `thinking` request field '' @ em_dash
     @ lit '' its thinking (and, on K2.7 and later, its preservation) is unconditional, and ''
     @ lit ''K3/K3.1 address reasoning with a top-level `reasoning_effort`; ''
     @ lit ''`reasoning_style = thinking_flag` cannot be honoured here, so use ''
     @ lit ''`open_ai_effort` (or omit the style when the route has no effort knob)''"

definition preserved_detail :: rstr where
  "preserved_detail =
     lit ''this wire family has no preserved-thinking request field '' @ em_dash
     @ lit '' either the endpoint keeps nothing between requests, preservation is ''
     @ lit ''unconditional and cannot be asked for, or the route is not a supported model ''
     @ em_dash @ lit '' so `preserved_thinking` cannot be honoured; remove the declaration''"

definition preserved_scope_detail :: "replay_scope \<Rightarrow> rstr" where
  "preserved_scope_detail d =
     lit ''`preserved_thinking = true` asks this endpoint to keep its previous ''
     @ lit ''turns'' @ [39] @ lit '' thinking, which requires returning the complete, unmodified ''
     @ lit ''reasoning of every historical assistant turn, but `reasoning_replay_scope = ''
     @ scope_as_str d
     @ lit ''` returns none; set `preserved_thinking = false` so the request actually ''
     @ lit ''clears prior thinking, or remove the replay override''"

definition weaker_scope_detail :: "replay_scope \<Rightarrow> replay_scope \<Rightarrow> rstr" where
  "weaker_scope_detail required d =
     lit ''this wire protocol requires historical reasoning replay ''
     @ (if required = ScopeAlways then lit ''on every request''
        else lit ''on every tool-bearing request'')
     @ lit '', but `reasoning_replay_scope = '' @ scope_as_str d
     @ lit ''` returns less; the provider rejects such a request with HTTP 400 '' @ em_dash
     @ lit '' remove the override or declare `'' @ scope_as_str required @ lit ''`/`always`''"

definition missing_key_detail :: rstr where
  "missing_key_detail =
     lit ''this wire protocol requires the `reasoning_content` key on replayed ''
     @ lit ''assistant turns that captured no reasoning, but ''
     @ lit ''`reasoning_content_key_required = false` omits it; the provider rejects ''
     @ lit ''such a request with HTTP 400 '' @ em_dash
     @ lit '' remove the override or set it to true''"

definition check_route_detail :: "model_profile \<Rightarrow> rstr option" where
  "check_route_detail p =
     (if \<not> accepts_thinking_field (mp_protocol p) (mp_model_id p) \<and>
         rc_style (mp_reasoning p) = ThinkingFlag then Some thinking_flag_detail
      else if rc_preserved_thinking (mp_reasoning p) \<noteq> None \<and>
         preserved_thinking_wire (mp_protocol p) (mp_model_id p) = NoPreservedField then
        Some preserved_detail
      else
        (case required_reasoning_replay_for p of
           None \<Rightarrow> None
         | Some required \<Rightarrow>
             (if rq_enforcement required \<noteq> EnforceRequired then None
              else
                (case weaker_than (cc_replay_scope (mp_compatibility p)) (rq_scope required) of
                   Some d \<Rightarrow>
                     (if rc_preserved_thinking (mp_reasoning p) = Some True
                      then Some (preserved_scope_detail d)
                      else Some (weaker_scope_detail (rq_scope required) d))
                 | None \<Rightarrow>
                     (if rq_missing required = MissingEmptyString \<and>
                         cc_key_required (mp_compatibility p) = Some False
                      then Some missing_key_detail else None)))))"

text \<open>\<open>None\<close> is \<open>Ok(())\<close>.\<close>

definition check_route :: "model_profile \<Rightarrow> route_conflict option" where
  "check_route p =
     map_option (\<lambda>d. \<lparr>cf_model_id = mp_model_id p, cf_detail = d\<rparr>) (check_route_detail p)"

end
