(* ===== verification/Model_Estimate.thy ===== *)
theory Model_Estimate
  imports Model_Message Model_Reference
begin

text \<open>
  The one token estimator (\<open>estimate.rs\<close>) and the control context of a request
  (\<open>request.rs\<close>).

  The byte counters are natural numbers: they count bytes of strings held in
  memory, which a \<open>u64\<close> cannot overflow.  The rendering of a JSON value
  (\<open>serde_json\<close>'s \<open>to_string\<close>) is the argument \<open>render\<close>.
\<close>

section \<open>Byte buckets\<close>

record token_estimate =
  te_ascii_text :: nat
  te_ascii_tool :: nat
  te_wide :: nat
  te_flat :: nat

definition te_zero :: token_estimate where
  "te_zero = \<lparr>te_ascii_text = 0, te_ascii_tool = 0, te_wide = 0, te_flat = 0\<rparr>"

definition image_byte_equiv :: nat where "image_byte_equiv = 4096"

text \<open>An ASCII scalar is one byte; every byte of another scalar is non-ASCII.\<close>

definition ascii_bytes :: "rstr \<Rightarrow> nat" where
  "ascii_bytes s = length (filter (\<lambda>c. c < 128) s)"

definition split_bytes :: "rstr \<Rightarrow> nat \<times> nat" where
  "split_bytes s = (ascii_bytes s, byte_len s - ascii_bytes s)"

definition add_text :: "rstr \<Rightarrow> token_estimate \<Rightarrow> token_estimate" where
  "add_text t e =
     (let (a, w) = split_bytes t
      in e\<lparr>te_ascii_text := te_ascii_text e + a, te_wide := te_wide e + w\<rparr>)"

definition add_tool :: "rstr \<Rightarrow> token_estimate \<Rightarrow> token_estimate" where
  "add_tool t e =
     (let (a, w) = split_bytes t
      in e\<lparr>te_ascii_tool := te_ascii_tool e + a, te_wide := te_wide e + w\<rparr>)"

definition add_opaque_bytes :: "nat \<Rightarrow> token_estimate \<Rightarrow> token_estimate" where
  "add_opaque_bytes n e = e\<lparr>te_ascii_text := sat_add64 (te_ascii_text e) n\<rparr>"

definition add_image :: "token_estimate \<Rightarrow> token_estimate" where
  "add_image e = e\<lparr>te_flat := te_flat e + image_byte_equiv div 4\<rparr>"

definition add_part ::
  "('j \<Rightarrow> rstr) \<Rightarrow> 'j content_part \<Rightarrow> token_estimate \<Rightarrow> token_estimate" where
  "add_part render p e =
     (case p of
        TextPart t \<Rightarrow> add_text t e
      | ReasoningPart t \<Rightarrow> add_text t e
      | SignedReasoning t s \<Rightarrow> add_text s (add_text t e)
      | RedactedReasoning d \<Rightarrow> add_text d e
      | ToolCallPart c \<Rightarrow> add_tool (render (tc_arguments c)) (add_tool (tc_name c) e)
      | ToolResultPart r \<Rightarrow> add_tool (tr_content r) e
      | ImagePart i \<Rightarrow> add_image e)"

definition add_parts ::
  "('j \<Rightarrow> rstr) \<Rightarrow> 'j content_part list \<Rightarrow> token_estimate \<Rightarrow> token_estimate" where
  "add_parts render ps e = fold (add_part render) ps e"

definition add_message ::
  "('j \<Rightarrow> rstr) \<Rightarrow> 'j message \<Rightarrow> token_estimate \<Rightarrow> token_estimate" where
  "add_message render m e = add_parts render (msg_content m) e"

definition add_tool_definition ::
  "('j \<Rightarrow> rstr) \<Rightarrow> 'j tool_definition \<Rightarrow> token_estimate \<Rightarrow> token_estimate" where
  "add_tool_definition render d e =
     add_text (render (td_input_schema d)) (add_text (td_description d) (add_text (td_name d) e))"

definition tokens :: "token_estimate \<Rightarrow> nat" where
  "tokens e = te_ascii_text e div 4 + te_ascii_tool e * 2 div 5 + te_wide e div 3 + te_flat e"

definition estimate_text :: "rstr \<Rightarrow> nat" where
  "estimate_text t = tokens (add_text t te_zero)"

definition estimate_tokens :: "('j \<Rightarrow> rstr) \<Rightarrow> 'j message list \<Rightarrow> nat" where
  "estimate_tokens render ms = tokens (fold (add_message render) ms te_zero)"

definition estimate_message :: "('j \<Rightarrow> rstr) \<Rightarrow> 'j message \<Rightarrow> nat" where
  "estimate_message render m = tokens (add_message render m te_zero)"

definition estimate_tool_definitions :: "('j \<Rightarrow> rstr) \<Rightarrow> 'j tool_definition list \<Rightarrow> nat" where
  "estimate_tool_definitions render ds = tokens (fold (add_tool_definition render) ds te_zero)"

section \<open>Control context\<close>

record prompt_segment =
  sg_name :: rstr
  sg_source :: prompt_source
  sg_authority :: prompt_authority
  sg_lifecycle :: segment_lifecycle
  sg_stable :: bool
  sg_text :: rstr
  sg_token_estimate :: nat
  sg_authority_mismatch :: bool

type_synonym control_context = "prompt_segment list"

definition control_segment ::
  "rstr \<Rightarrow> prompt_source \<Rightarrow> prompt_authority \<Rightarrow> segment_lifecycle \<Rightarrow> bool \<Rightarrow> rstr
   \<Rightarrow> prompt_segment" where
  "control_segment name source authority lifecycle st t =
     \<lparr>sg_name = name, sg_source = source, sg_authority = authority, sg_lifecycle = lifecycle,
      sg_stable = st, sg_text = t, sg_token_estimate = estimate_text t,
      sg_authority_mismatch = False\<rparr>"

definition render_blocks :: "control_context \<Rightarrow> rstr" where
  "render_blocks bs = join [10, 10] (map sg_text bs)"

definition control_text :: "control_context \<Rightarrow> rstr" where
  "control_text c = render_blocks c"

definition control_prefix_text :: "control_context \<Rightarrow> rstr" where
  "control_prefix_text c = render_blocks (filter (\<lambda>b. sg_lifecycle b \<noteq> RequestEphemeral) c)"

definition control_trailing_text :: "control_context \<Rightarrow> rstr" where
  "control_trailing_text c = render_blocks (filter (\<lambda>b. sg_lifecycle b = RequestEphemeral) c)"

record segment_provenance =
  sp_name :: rstr
  sp_source :: prompt_source
  sp_authority :: prompt_authority
  sp_lifecycle :: segment_lifecycle
  sp_tokens :: nat
  sp_mismatch :: bool

definition segment_provenance_of :: "prompt_segment \<Rightarrow> segment_provenance" where
  "segment_provenance_of b =
     \<lparr>sp_name = sg_name b, sp_source = sg_source b, sp_authority = sg_authority b,
      sp_lifecycle = sg_lifecycle b, sp_tokens = sg_token_estimate b,
      sp_mismatch = sg_authority_mismatch b\<rparr>"

end
