(* ===== verification/Model_Projection.thy ===== *)
theory Model_Projection
  imports Model_Route Model_Estimate
begin

text \<open>
  The request projection (\<open>projection.rs\<close>): what of a conversation a provider
  sees.  A turn's blocks enter the request or not, its reasoning becomes the
  value of one named channel, and a summary counts what happened to the
  requested retention arm.

  The loop over the messages is the recursion \<open>project_from\<close>, whose index is
  the source's \<open>enumerate\<close> and whose summary is threaded through.  The control
  context is carried along unread.
\<close>

section \<open>One turn\<close>

datatype turn_provenance = SameRoute | ForeignRoute | UnknownRoute

definition turn_provenance_of ::
  "route_identity option \<Rightarrow> route_identity option \<Rightarrow> turn_provenance" where
  "turn_provenance_of author current =
     (case (author, current) of
        (Some a, Some c) \<Rightarrow>
          (if is_same_route a c then SameRoute
           else if conflicts_with a c then ForeignRoute
           else UnknownRoute)
      | _ \<Rightarrow> UnknownRoute)"

datatype projected_reasoning = ReasoningOmitted | CapturedReasoning rstr | RequiredEmpty

definition reasoning_as_wire :: "projected_reasoning \<Rightarrow> rstr option" where
  "reasoning_as_wire r =
     (case r of
        ReasoningOmitted \<Rightarrow> None
      | CapturedReasoning t \<Rightarrow> Some t
      | RequiredEmpty \<Rightarrow> Some [])"

definition reasoning_is_present :: "projected_reasoning \<Rightarrow> bool" where
  "reasoning_is_present r = (r \<noteq> ReasoningOmitted)"

record 'j projected_message =
  pm_role :: role
  pm_content :: "'j content_part list"
  pm_reasoning :: projected_reasoning
  pm_origin :: "transcript_origin option"

record projection_summary =
  ps_requested :: reasoning_retention
  ps_contract :: replay_contract
  ps_captured :: nat
  ps_carried :: nat
  ps_protected :: nat
  ps_foreign :: nat
  ps_unknown :: nat
  ps_unproven :: nat
  ps_empty :: nat

definition requested_arm_overridden :: "projection_summary \<Rightarrow> bool" where
  "requested_arm_overridden s = (0 < ps_protected s)"

definition effective_arm_name :: "projection_summary \<Rightarrow> rstr" where
  "effective_arm_name s =
     (if \<not> requested_arm_overridden s then retention_arm_name (ps_requested s)
      else retention_arm_name (ps_requested s) @ lit '' (protocol-protected)'')"

text \<open>The visible blocks of a turn, and the text its plain reasoning captured.\<close>

fun visible_parts :: "bool \<Rightarrow> 'j content_part list \<Rightarrow> 'j content_part list" where
  "visible_parts signed [] = []"
| "visible_parts signed (p # ps) =
     (case p of
        ReasoningPart t \<Rightarrow> visible_parts signed ps
      | SignedReasoning t s \<Rightarrow>
          if signed then p # visible_parts signed ps else visible_parts signed ps
      | RedactedReasoning d \<Rightarrow>
          if signed then p # visible_parts signed ps else visible_parts signed ps
      | _ \<Rightarrow> p # visible_parts signed ps)"

fun captured_text :: "'j content_part list \<Rightarrow> rstr" where
  "captured_text [] = []"
| "captured_text (ReasoningPart t # ps) = t @ captured_text ps"
| "captured_text (p # ps) = captured_text ps"

definition is_plain_reasoning :: "'j content_part \<Rightarrow> bool" where
  "is_plain_reasoning p = (case p of ReasoningPart t \<Rightarrow> True | _ \<Rightarrow> False)"

definition is_signed_reasoning :: "'j content_part \<Rightarrow> bool" where
  "is_signed_reasoning p =
     (case p of SignedReasoning t s \<Rightarrow> True | RedactedReasoning d \<Rightarrow> True | _ \<Rightarrow> False)"

definition has_reasoning_part :: "'j message \<Rightarrow> bool" where
  "has_reasoning_part m = list_ex is_plain_reasoning (msg_content m)"

definition has_signed_reasoning :: "'j message \<Rightarrow> bool" where
  "has_signed_reasoning m = list_ex is_signed_reasoning (msg_content m)"

definition count_provenance ::
  "'j message \<Rightarrow> turn_provenance \<Rightarrow> projection_summary \<Rightarrow> projection_summary" where
  "count_provenance m pv s =
     (if msg_role m \<noteq> AssistantRole then s
      else case pv of
             ForeignRoute \<Rightarrow> s\<lparr>ps_foreign := ps_foreign s + 1\<rparr>
           | UnknownRoute \<Rightarrow> s\<lparr>ps_unknown := ps_unknown s + 1\<rparr>
           | SameRoute \<Rightarrow>
               if \<not> has_reasoning_part m then s\<lparr>ps_empty := ps_empty s + 1\<rparr> else s)"

definition project_reasoning ::
  "replay_contract \<Rightarrow> bool \<Rightarrow> turn_provenance \<Rightarrow> bool \<Rightarrow> 'j message \<Rightarrow> projection_summary
   \<Rightarrow> projected_reasoning \<times> projection_summary" where
  "project_reasoning k has_tools pv requested m s =
     (if has_reasoning_part m then
        (let s1 = s\<lparr>ps_captured := ps_captured s + 1\<rparr>;
             s2 = (if pv = UnknownRoute then s1\<lparr>ps_unproven := ps_unproven s1 + 1\<rparr> else s1)
         in if \<not> (replays_captured k has_tools \<and> pv = SameRoute) then
              (if requires_empty_key k has_tools then RequiredEmpty else ReasoningOmitted, s2)
            else if requested then
              (CapturedReasoning (captured_text (msg_content m)),
               s2\<lparr>ps_carried := ps_carried s2 + 1\<rparr>)
            else if requires_exact k has_tools then
              (CapturedReasoning (captured_text (msg_content m)),
               s2\<lparr>ps_carried := ps_carried s2 + 1, ps_protected := ps_protected s2 + 1\<rparr>)
            else (ReasoningOmitted, s2))
      else if requires_empty_key k has_tools \<and> msg_role m = AssistantRole then (RequiredEmpty, s)
      else (ReasoningOmitted, s))"

definition count_signed ::
  "replay_contract \<Rightarrow> bool \<Rightarrow> 'j message \<Rightarrow> projection_summary \<Rightarrow> projection_summary" where
  "count_signed k requested m s =
     (if has_signed_reasoning m \<and> \<not> has_reasoning_part m then
        (let s1 = s\<lparr>ps_captured := ps_captured s + 1\<rparr>
         in if signed_blocks k then
              (let s2 = s1\<lparr>ps_carried := ps_carried s1 + 1\<rparr>
               in if \<not> requested then s2\<lparr>ps_protected := ps_protected s2 + 1\<rparr> else s2)
            else s1)
      else s)"

definition project_message ::
  "replay_contract \<Rightarrow> bool \<Rightarrow> route_identity option \<Rightarrow> bool \<Rightarrow> 'j message \<Rightarrow> projection_summary
   \<Rightarrow> 'j projected_message \<times> projection_summary" where
  "project_message k has_tools route requested m s =
     (let pv = turn_provenance_of (msg_route m) route;
          s1 = count_provenance m pv s;
          (r, s2) = project_reasoning k has_tools pv requested m s1;
          s3 = count_signed k requested m s2
      in (\<lparr>pm_role = msg_role m, pm_content = visible_parts (signed_blocks k) (msg_content m),
           pm_reasoning = r, pm_origin = msg_origin m\<rparr>, s3))"

section \<open>The request\<close>

fun project_from ::
  "replay_contract \<Rightarrow> bool \<Rightarrow> route_identity option \<Rightarrow> nat list \<Rightarrow> nat \<Rightarrow> 'j message list
   \<Rightarrow> projection_summary \<Rightarrow> 'j projected_message list \<times> projection_summary" where
  "project_from k has_tools route requested index [] s = ([], s)"
| "project_from k has_tools route requested index (m # ms) s =
     (let (p, s1) = project_message k has_tools route (index \<in> set requested) m s;
          (ps, s2) = project_from k has_tools route requested (Suc index) ms s1
      in (p # ps, s2))"

record 'j request_projection =
  rp_messages :: "'j projected_message list"
  rp_control :: control_context
  rp_tools :: "'j tool_definition list"
  rp_contract :: replay_contract
  rp_summary :: projection_summary

definition initial_summary :: "reasoning_retention \<Rightarrow> replay_contract \<Rightarrow> projection_summary" where
  "initial_summary r k =
     \<lparr>ps_requested = r, ps_contract = k, ps_captured = 0, ps_carried = 0, ps_protected = 0,
      ps_foreign = 0, ps_unknown = 0, ps_unproven = 0, ps_empty = 0\<rparr>"

definition project_with_control_context ::
  "'j message list \<Rightarrow> 'j tool_definition list \<Rightarrow> replay_contract \<Rightarrow> reasoning_retention
   \<Rightarrow> control_context \<Rightarrow> route_identity option \<Rightarrow> 'j request_projection" where
  "project_with_control_context ms tools k retention control route =
     (let (ps, s) = project_from k (tools \<noteq> []) route (carried_positions retention ms) 0 ms
                      (initial_summary retention k)
      in \<lparr>rp_messages = ps, rp_control = control, rp_tools = tools, rp_contract = k,
          rp_summary = s\<rparr>)"

definition project_request ::
  "'j message list \<Rightarrow> 'j tool_definition list \<Rightarrow> replay_contract \<Rightarrow> reasoning_retention
   \<Rightarrow> 'j request_projection" where
  "project_request ms tools k retention =
     project_with_control_context ms tools k retention [] None"

definition project_for_route ::
  "'j message list \<Rightarrow> 'j tool_definition list \<Rightarrow> replay_contract \<Rightarrow> reasoning_retention
   \<Rightarrow> route_identity option \<Rightarrow> 'j request_projection" where
  "project_for_route ms tools k retention route =
     project_with_control_context ms tools k retention [] route"

text \<open>The fields of \<open>ModelRequest\<close> the projection reads.\<close>

record 'j model_request =
  mq_messages :: "'j message list"
  mq_control :: control_context
  mq_projection :: "'j request_projection option"
  mq_tools :: "'j tool_definition list"

definition projection_for_request ::
  "'j model_request \<Rightarrow> replay_contract \<Rightarrow> 'j request_projection" where
  "projection_for_request r k =
     (case mq_projection r of
        Some p \<Rightarrow> p
      | None \<Rightarrow>
          project_with_control_context (mq_messages r) (mq_tools r) k RetainAll (mq_control r) None)"

section \<open>Authority of the transcript\<close>

record transcript_authority =
  ta_index :: nat
  ta_source :: prompt_source
  ta_authority :: prompt_authority
  ta_lifecycle :: segment_lifecycle
  ta_tokens :: nat
  ta_mismatch :: bool

definition compaction_marker :: rstr where
  "compaction_marker = lit ''[Earlier context was compacted''"

fun calls_of_parts :: "'j content_part list \<Rightarrow> (rstr \<rightharpoonup> rstr) \<Rightarrow> (rstr \<rightharpoonup> rstr)" where
  "calls_of_parts [] names = names"
| "calls_of_parts (ToolCallPart c # ps) names = calls_of_parts ps (names(tc_id c \<mapsto> tc_name c))"
| "calls_of_parts (p # ps) names = calls_of_parts ps names"

definition call_names :: "'j projected_message list \<Rightarrow> (rstr \<rightharpoonup> rstr)" where
  "call_names ms = fold (\<lambda>m. calls_of_parts (pm_content m)) ms Map.empty"

definition tool_name :: "(rstr \<rightharpoonup> rstr) \<Rightarrow> rstr \<Rightarrow> rstr \<Rightarrow> rstr" where
  "tool_name names i d = (case names i of Some n \<Rightarrow> n | None \<Rightarrow> d)"

fun result_authorities ::
  "(rstr \<rightharpoonup> rstr) \<Rightarrow> nat \<Rightarrow> 'j content_part list \<Rightarrow> transcript_authority list" where
  "result_authorities names index [] = []"
| "result_authorities names index (ToolResultPart r # ps) =
     \<lparr>ta_index = index, ta_source = ToolResultSource (tool_name names (tr_call_id r) (lit ''tool'')),
      ta_authority = ExternalData, ta_lifecycle = TranscriptLifecycle,
      ta_tokens = estimate_text (tr_content r), ta_mismatch = False\<rparr>
     # result_authorities names index ps"
| "result_authorities names index (p # ps) = result_authorities names index ps"

definition user_origin_class :: "'j projected_message \<Rightarrow> origin_class" where
  "user_origin_class m =
     (if pm_origin m = None \<and> contains compaction_marker (text_content (pm_content m))
      then classify_transcript_origin (Some (CompactionSummaryOrigin []))
      else classify_transcript_origin (pm_origin m))"

definition message_authorities ::
  "(rstr \<rightharpoonup> rstr) \<Rightarrow> nat \<Rightarrow> 'j projected_message \<Rightarrow> transcript_authority list" where
  "message_authorities names index m =
     (let t = text_content (pm_content m)
      in case pm_role m of
           SystemRole \<Rightarrow>
             (if t = [] then []
              else [\<lparr>ta_index = index, ta_source = LegacySystem,
                     ta_authority = legacy_system_authority t,
                     ta_lifecycle = TranscriptLifecycle, ta_tokens = estimate_text t,
                     ta_mismatch = False\<rparr>])
         | UserRole \<Rightarrow>
             (let c = user_origin_class m
              in [\<lparr>ta_index = index, ta_source = oc_source c, ta_authority = oc_authority c,
                   ta_lifecycle = TranscriptLifecycle, ta_tokens = estimate_text t,
                   ta_mismatch = oc_authority_mismatch c\<rparr>])
         | ToolRole \<Rightarrow> result_authorities names index (pm_content m)
         | AssistantRole \<Rightarrow> [])"

fun authorities_from ::
  "(rstr \<rightharpoonup> rstr) \<Rightarrow> nat \<Rightarrow> 'j projected_message list
   \<Rightarrow> transcript_authority list" where
  "authorities_from names index [] = []"
| "authorities_from names index (m # ms) =
     message_authorities names index m @ authorities_from names (Suc index) ms"

definition transcript_authority_of :: "'j request_projection \<Rightarrow> transcript_authority list" where
  "transcript_authority_of p = authorities_from (call_names (rp_messages p)) 0 (rp_messages p)"

section \<open>Estimated size\<close>

definition add_projected ::
  "('j \<Rightarrow> rstr) \<Rightarrow> 'j projected_message \<Rightarrow> token_estimate \<Rightarrow> token_estimate" where
  "add_projected render m e =
     (let e1 = add_parts render (pm_content m) e
      in case reasoning_as_wire (pm_reasoning m) of
           Some t \<Rightarrow> add_text t e1
         | None \<Rightarrow> e1)"

definition estimated_tokens :: "('j \<Rightarrow> rstr) \<Rightarrow> 'j request_projection \<Rightarrow> nat" where
  "estimated_tokens render p =
     tokens (fold (add_projected render) (rp_messages p)
               (add_text (control_text (rp_control p)) te_zero))
     + estimate_tool_definitions render (rp_tools p)"

end
