(* ===== verification/Model_Accounting.thy ===== *)
theory Model_Accounting
  imports Model_Projection "HOL-Library.Multiset"
begin

text \<open>
  Context accounting (\<open>context_accounting.rs\<close>) and the harness's context policy
  (\<open>coding/policy.rs\<close> of \<open>leveler-agent\<close>): what one projected request is made
  of, and when its size asks for a fold.

  A slice's state is one estimator accumulator and a call counter.  The
  \<open>HashMap\<close> of tool results with its first-seen order is an association list in
  that order.  Token figures and windows are natural numbers; the \<open>u32\<close> and
  \<open>u64\<close> operations that saturate are written out.
\<close>

section \<open>Fold requirement and pressure\<close>

datatype fold_requirement = FoldNone | FoldSoft | FoldHardRequired

definition classify_fold :: "nat \<Rightarrow> nat \<Rightarrow> nat option \<Rightarrow> fold_requirement" where
  "classify_fold projected threshold hard =
     (if (case hard of Some capacity \<Rightarrow> capacity < projected | None \<Rightarrow> False)
      then FoldHardRequired
      else if threshold < projected then FoldSoft
      else FoldNone)"

definition fold_is_mandatory :: "fold_requirement \<Rightarrow> bool" where
  "fold_is_mandatory f = (f = FoldHardRequired)"

datatype context_pressure = PressureNormal | PressureWarning | PressureCritical

definition or_max :: "nat option \<Rightarrow> nat" where
  "or_max x = (case x of Some n \<Rightarrow> n | None \<Rightarrow> u64_max)"

definition compute_pressure ::
  "nat \<Rightarrow> nat option \<Rightarrow> nat option \<Rightarrow> nat option \<Rightarrow> context_pressure" where
  "compute_pressure used window compact_at capacity =
     (if classify_fold used (or_max compact_at) capacity \<noteq> FoldNone then PressureCritical
      else if capacity = None \<and>
              (case window of Some w \<Rightarrow> 0 < w \<and> w \<le> used | None \<Rightarrow> False) then PressureCritical
      else if (case compact_at of Some t \<Rightarrow> 0 < t \<and> t * 8 div 10 \<le> used | None \<Rightarrow> False)
        then PressureWarning
      else PressureNormal)"

section \<open>Slices\<close>

record slice =
  sl_name :: rstr
  sl_label :: rstr
  sl_tokens :: token_estimate
  sl_calls :: nat

definition slice_new :: "string \<Rightarrow> string \<Rightarrow> slice" where
  "slice_new n l = \<lparr>sl_name = lit n, sl_label = lit l, sl_tokens = te_zero, sl_calls = 0\<rparr>"

datatype context_category =
  Category (cat_name: rstr) (cat_label: rstr) (cat_tokens: nat) (cat_calls: nat)
    (cat_children: "context_category list")

definition slice_finish :: "slice \<Rightarrow> context_category" where
  "slice_finish s = Category (sl_name s) (sl_label s) (tokens (sl_tokens s)) (sl_calls s) []"

definition slice_add :: "(token_estimate \<Rightarrow> token_estimate) \<Rightarrow> slice \<Rightarrow> slice" where
  "slice_add f s = s\<lparr>sl_tokens := f (sl_tokens s)\<rparr>"

definition slice_call :: "(token_estimate \<Rightarrow> token_estimate) \<Rightarrow> slice \<Rightarrow> slice" where
  "slice_call f s = s\<lparr>sl_tokens := f (sl_tokens s), sl_calls := sl_calls s + 1\<rparr>"

record slices =
  ss_system :: slice
  ss_user :: slice
  ss_assistant :: slice
  ss_reasoning :: slice
  ss_tool_calls :: slice
  ss_compaction :: slice
  ss_other :: slice
  ss_results :: "(rstr \<times> slice) list"

fun add_result :: "rstr \<Rightarrow> rstr \<Rightarrow> (rstr \<times> slice) list \<Rightarrow> (rstr \<times> slice) list" where
  "add_result name content [] =
     [(name, slice_call (add_tool content)
               \<lparr>sl_name = name, sl_label = name, sl_tokens = te_zero, sl_calls = 0\<rparr>)]"
| "add_result name content ((n, s) # rs) =
     (if n = name then (n, slice_call (add_tool content) s) # rs
      else (n, s) # add_result name content rs)"

definition add_text_part :: "role \<Rightarrow> rstr \<Rightarrow> slices \<Rightarrow> slices" where
  "add_text_part r t z =
     (case r of
        SystemRole \<Rightarrow> z\<lparr>ss_system := slice_add (add_text t) (ss_system z)\<rparr>
      | UserRole \<Rightarrow>
          (if contains compaction_marker t
           then z\<lparr>ss_compaction := slice_add (add_text t) (ss_compaction z)\<rparr>
           else z\<lparr>ss_user := slice_add (add_text t) (ss_user z)\<rparr>)
      | AssistantRole \<Rightarrow> z\<lparr>ss_assistant := slice_add (add_text t) (ss_assistant z)\<rparr>
      | ToolRole \<Rightarrow> z\<lparr>ss_other := slice_add (add_text t) (ss_other z)\<rparr>)"

definition account_part ::
  "('j \<Rightarrow> rstr) \<Rightarrow> (rstr \<rightharpoonup> rstr) \<Rightarrow> role \<Rightarrow> 'j content_part \<Rightarrow> slices \<Rightarrow> slices" where
  "account_part render names r p z =
     (case p of
        TextPart t \<Rightarrow> add_text_part r t z
      | SignedReasoning t s \<Rightarrow>
          z\<lparr>ss_reasoning := slice_add (add_part render p) (ss_reasoning z)\<rparr>
      | RedactedReasoning d \<Rightarrow>
          z\<lparr>ss_reasoning := slice_add (add_part render p) (ss_reasoning z)\<rparr>
      | ToolCallPart c \<Rightarrow>
          z\<lparr>ss_tool_calls :=
             slice_call (\<lambda>e. add_tool (render (tc_arguments c)) (add_tool (tc_name c) e))
               (ss_tool_calls z)\<rparr>
      | ToolResultPart t \<Rightarrow>
          z\<lparr>ss_results :=
             add_result (tool_name names (tr_call_id t) (lit ''other'')) (tr_content t)
               (ss_results z)\<rparr>
      | ImagePart i \<Rightarrow> z\<lparr>ss_other := slice_add add_image (ss_other z)\<rparr>
      | ReasoningPart t \<Rightarrow> z)"

definition account_message ::
  "('j \<Rightarrow> rstr) \<Rightarrow> (rstr \<rightharpoonup> rstr) \<Rightarrow> 'j projected_message \<Rightarrow> slices \<Rightarrow> slices" where
  "account_message render names m z =
     fold (account_part render names (pm_role m)) (pm_content m)
       (case reasoning_as_wire (pm_reasoning m) of
          Some t \<Rightarrow> z\<lparr>ss_reasoning := slice_add (add_text t) (ss_reasoning z)\<rparr>
        | None \<Rightarrow> z)"

definition initial_slices :: "control_context \<Rightarrow> slices" where
  "initial_slices control =
     \<lparr>ss_system = slice_add (add_text (control_text control)) (slice_new ''system'' ''System''),
      ss_user = slice_new ''user'' ''User'',
      ss_assistant = slice_new ''assistant'' ''Assistant'',
      ss_reasoning = slice_new ''reasoning'' ''Reasoning'',
      ss_tool_calls = slice_new ''tool_calls'' ''Tool calls'',
      ss_compaction = slice_new ''compaction_summary'' ''Compaction summary'',
      ss_other = slice_new ''other'' ''Other'',
      ss_results = []\<rparr>"

section \<open>The breakdown\<close>

text \<open>The comparator of \<open>sort_by\<close>: larger slices first, then by name.\<close>

fun str_less :: "rstr \<Rightarrow> rstr \<Rightarrow> bool" where
  "str_less [] [] = False"
| "str_less [] (d # ds) = True"
| "str_less (c # cs) [] = False"
| "str_less (c # cs) (d # ds) = (c < d \<or> (c = d \<and> str_less cs ds))"

definition cat_before :: "context_category \<Rightarrow> context_category \<Rightarrow> bool" where
  "cat_before a b \<longleftrightarrow>
     cat_tokens b < cat_tokens a \<or>
     (cat_tokens a = cat_tokens b \<and> str_less (cat_name a) (cat_name b))"

fun insert_cat :: "context_category \<Rightarrow> context_category list \<Rightarrow> context_category list" where
  "insert_cat c [] = [c]"
| "insert_cat c (d # ds) = (if cat_before d c then d # insert_cat c ds else c # d # ds)"

definition sort_cats :: "context_category list \<Rightarrow> context_category list" where
  "sort_cats cs = foldr insert_cat cs []"

definition total_tokens :: "context_category list \<Rightarrow> nat" where
  "total_tokens cs = sum_list (map cat_tokens cs)"

definition nonzero_cats :: "context_category list \<Rightarrow> context_category list" where
  "nonzero_cats cs = filter (\<lambda>c. 0 < cat_tokens c) cs"

definition tool_results_category :: "slices \<Rightarrow> context_category" where
  "tool_results_category z =
     (let leaves = sort_cats (map (\<lambda>(n, s). slice_finish s) (ss_results z))
      in Category (lit ''tool_results'') (lit ''Tool results'') (total_tokens leaves)
           (sum_list (map cat_calls leaves)) leaves)"

definition message_children :: "slices \<Rightarrow> context_category list" where
  "message_children z =
     [slice_finish (ss_user z), slice_finish (ss_assistant z), slice_finish (ss_reasoning z),
      slice_finish (ss_tool_calls z), tool_results_category z, slice_finish (ss_compaction z)]"

definition messages_category :: "slices \<Rightarrow> context_category" where
  "messages_category z =
     Category (lit ''messages'') (lit ''Messages'') (total_tokens (message_children z)) 0
       (nonzero_cats (message_children z))"

definition definitions_slice :: "('j \<Rightarrow> rstr) \<Rightarrow> 'j tool_definition list \<Rightarrow> slice" where
  "definitions_slice render ds =
     fold (\<lambda>d. slice_add (add_tool_definition render d)) ds
       (slice_new ''tool_definitions'' ''Tool definitions'')"

definition top_categories ::
  "('j \<Rightarrow> rstr) \<Rightarrow> 'j tool_definition list \<Rightarrow> slices \<Rightarrow> context_category list" where
  "top_categories render ds z =
     sort_cats (nonzero_cats
       [messages_category z, slice_finish (ss_system z),
        slice_finish (definitions_slice render ds), slice_finish (ss_other z)])"

record compaction_record =
  cr_before :: nat
  cr_after :: nat

definition reclaimed_tokens :: "compaction_record \<Rightarrow> nat" where
  "reclaimed_tokens c = cr_before c - cr_after c"

datatype token_count_kind = CountExact | CountEstimated | CountMixed

record context_accounting =
  ca_model :: model_ref
  ca_window :: "nat option"
  ca_compact_at :: "nat option"
  ca_reservation :: "nat option"
  ca_headroom :: "nat option"
  ca_capacity :: "nat option"
  ca_fold_state :: fold_requirement
  ca_used :: nat
  ca_free :: "nat option"
  ca_count_kind :: token_count_kind
  ca_pressure :: context_pressure
  ca_categories :: "context_category list"
  ca_last_compaction :: "compaction_record option"
  ca_projection :: "projection_summary option"

definition account_slices :: "('j \<Rightarrow> rstr) \<Rightarrow> 'j request_projection \<Rightarrow> slices" where
  "account_slices render p =
     fold (account_message render (call_names (rp_messages p))) (rp_messages p)
       (initial_slices (rp_control p))"

definition compute_accounting ::
  "('j \<Rightarrow> rstr) \<Rightarrow> model_ref \<Rightarrow> 'j request_projection \<Rightarrow> nat option \<Rightarrow> nat option
   \<Rightarrow> compaction_record option \<Rightarrow> context_accounting" where
  "compute_accounting render model p window compact_at last_compaction =
     (let top = top_categories render (rp_tools p) (account_slices render p);
          used = total_tokens top
      in \<lparr>ca_model = model, ca_window = window, ca_compact_at = compact_at,
          ca_reservation = None, ca_headroom = None, ca_capacity = None,
          ca_fold_state = classify_fold used (or_max compact_at) None,
          ca_used = used, ca_free = map_option (\<lambda>w. w - used) window,
          ca_count_kind = CountEstimated,
          ca_pressure = compute_pressure used window compact_at None,
          ca_categories = top, ca_last_compaction = last_compaction,
          ca_projection = Some (rp_summary p)\<rparr>)"

definition with_input_budget ::
  "nat option \<Rightarrow> nat option \<Rightarrow> nat option \<Rightarrow> context_accounting \<Rightarrow> context_accounting" where
  "with_input_budget capacity reservation headroom a =
     (let b = a\<lparr>ca_capacity := capacity, ca_reservation := reservation, ca_headroom := headroom\<rparr>
      in b\<lparr>ca_fold_state := classify_fold (ca_used b) (or_max (ca_compact_at b)) (ca_capacity b),
           ca_pressure :=
             compute_pressure (ca_used b) (ca_window b) (ca_compact_at b) (ca_capacity b)\<rparr>)"

definition percent :: "nat \<Rightarrow> nat \<Rightarrow> nat option" where
  "percent part whole = (if 0 < whole then Some (min u64_max (part * 100) div whole) else None)"

definition compaction_utilization :: "context_accounting \<Rightarrow> nat option" where
  "compaction_utilization a =
     (case ca_capacity a of Some c \<Rightarrow> percent (ca_used a) c | None \<Rightarrow> None)"

definition window_utilization :: "context_accounting \<Rightarrow> nat option" where
  "window_utilization a =
     (case ca_window a of Some w \<Rightarrow> percent (ca_used a) w | None \<Rightarrow> None)"

definition projected_reasoning_tokens :: "context_accounting \<Rightarrow> nat" where
  "projected_reasoning_tokens a =
     (case find (\<lambda>c. cat_name c = lit ''messages'') (ca_categories a) of
        None \<Rightarrow> 0
      | Some m \<Rightarrow>
          (case find (\<lambda>c. cat_name c = lit ''reasoning'') (cat_children m) of
             None \<Rightarrow> 0
           | Some r \<Rightarrow> cat_tokens r))"

section \<open>The context policy\<close>

record retention_policy =
  rt_keep_messages :: nat
  rt_keep_tokens :: nat

record context_policy =
  cp_window :: nat
  cp_quality :: nat
  cp_reservation :: nat
  cp_headroom :: nat
  cp_threshold :: nat
  cp_soft_percent :: nat
  cp_retention :: retention_policy

definition retention_from_threshold :: "nat \<Rightarrow> nat \<Rightarrow> retention_policy" where
  "retention_from_threshold keep_recent t =
     \<lparr>rt_keep_messages = keep_recent, rt_keep_tokens = t div 2\<rparr>"

definition validate_soft_percent :: "nat \<Rightarrow> rstr + nat" where
  "validate_soft_percent v =
     (if \<not> (1 \<le> v \<and> v \<le> 100) then
        Inl (lit ''context soft percent ('' @ show_nat v
             @ lit '') must be between 1 and 100; it is a share of the effective input capacity, ''
             @ lit ''and 100 means '' @ [39] @ lit ''fold only at the hard bound'' @ [39])
      else Inr v)"

definition input_capacity :: "nat \<Rightarrow> nat \<Rightarrow> nat \<Rightarrow> nat" where
  "input_capacity window reservation headroom = window - reservation - headroom"

definition quality_bound :: "nat \<Rightarrow> nat \<Rightarrow> nat \<Rightarrow> nat" where
  "quality_bound reliable capacity window =
     (if reliable = 0 then (if 0 < capacity then capacity else window) else reliable)"

definition pressure_threshold :: "nat \<Rightarrow> nat \<Rightarrow> nat \<Rightarrow> nat" where
  "pressure_threshold capacity soft quality =
     (if 0 < capacity then max 1 (min (capacity * soft div 100) quality) else max 1 quality)"

definition resolve_context_policy ::
  "nat \<Rightarrow> model_limits \<Rightarrow> nat \<Rightarrow> nat \<Rightarrow> nat \<Rightarrow> context_policy" where
  "resolve_context_policy keep_recent l output_reservation headroom soft_percent =
     (let window = ml_context_window l;
          reservation = (if 0 < output_reservation then output_reservation
                         else ml_max_output_tokens l);
          soft = max 1 (min soft_percent 100)
      in if window = 0 then
           \<lparr>cp_window = 0, cp_quality = ml_reliable_context l, cp_reservation = reservation,
            cp_headroom = headroom, cp_threshold = 0, cp_soft_percent = soft,
            cp_retention = retention_from_threshold keep_recent 0\<rparr>
         else
           (let capacity = input_capacity window reservation headroom;
                quality = quality_bound (ml_reliable_context l) capacity window;
                t = pressure_threshold capacity soft quality
            in \<lparr>cp_window = window, cp_quality = ml_reliable_context l,
                cp_reservation = reservation, cp_headroom = headroom, cp_threshold = t,
                cp_soft_percent = soft,
                cp_retention = retention_from_threshold keep_recent t\<rparr>))"

definition folding_enabled :: "context_policy \<Rightarrow> bool" where
  "folding_enabled p = (0 < cp_threshold p)"

definition hard_capacity :: "context_policy \<Rightarrow> nat option" where
  "hard_capacity p =
     (let capacity = input_capacity (cp_window p) (cp_reservation p) (cp_headroom p)
      in if 0 < cp_window p \<and> 0 < capacity then Some capacity else None)"

end
