(* ===== verification/Context_Compaction.thy ===== *)
theory Context_Compaction
  imports Model_Accounting
begin

text \<open>
  Anchored compaction (\<open>compaction.rs\<close> of \<open>leveler-context\<close>, with the markers of
  \<open>tool_output.rs\<close> in \<open>leveler-model\<close>): which messages a fold elides, what it
  leaves in their place, and the mechanical reduction of results whose content
  was saved elsewhere.

  A tool call's \<open>path\<close> argument is read by the argument \<open>path_of\<close> of the fold, as
  arguments are opaque JSON; \<open>shrink_externalized_results\<close> takes the measure its
  caller passes.
\<close>

section \<open>The span\<close>

definition compact_keep_recent :: nat where "compact_keep_recent = 12"

fun round_boundary_back :: "'j message list \<Rightarrow> nat \<Rightarrow> nat" where
  "round_boundary_back ms 0 = 0"
| "round_boundary_back ms (Suc s) =
     (if Suc s < length ms \<and> msg_role (ms ! Suc s) = ToolRole then round_boundary_back ms s
      else Suc s)"

definition round_boundary :: "'j message list \<Rightarrow> nat \<Rightarrow> nat" where
  "round_boundary ms start = round_boundary_back ms (min start (length ms))"

fun first_user :: "'j message list \<Rightarrow> nat option" where
  "first_user [] = None"
| "first_user (m # ms) =
     (if msg_role m = UserRole then Some 0 else map_option Suc (first_user ms))"

definition head_end_of :: "'j message list \<Rightarrow> nat" where
  "head_end_of ms = (case first_user ms of Some i \<Rightarrow> i + 1 | None \<Rightarrow> 0)"

text \<open>The loop that walks the tail's start forward while it is over its budget.\<close>

function shrink_tail :: "('j \<Rightarrow> rstr) \<Rightarrow> 'j message list \<Rightarrow> nat \<Rightarrow> nat \<Rightarrow> nat" where
  "shrink_tail render ms budget start =
     (if start < length ms - 1 \<and> budget < estimate_tokens render (drop start ms)
      then shrink_tail render ms budget (start + 1) else start)"
  by pat_completeness auto
termination shrink_tail
  by (relation "measure (\<lambda>(render, ms, budget, start). length ms - start)") auto

declare shrink_tail.simps [simp del]

definition compaction_span ::
  "('j \<Rightarrow> rstr) \<Rightarrow> 'j message list \<Rightarrow> nat \<Rightarrow> nat \<Rightarrow> (nat \<times> nat) option" where
  "compaction_span render ms keep_recent keep_recent_tokens =
     (let head_end = head_end_of ms;
          t0 = max (length ms - keep_recent) head_end;
          t1 = (if 0 < keep_recent_tokens then shrink_tail render ms keep_recent_tokens t0 else t0);
          t2 = max (round_boundary ms t1) head_end
      in if t2 \<le> head_end \<or> t2 - head_end < 2 then None else Some (head_end, t2))"

definition retention_tail_budget :: "nat \<Rightarrow> nat \<Rightarrow> nat \<Rightarrow> nat option" where
  "retention_tail_budget threshold non_foldable summary_budget =
     (if threshold < non_foldable then None
      else if threshold - non_foldable = 0 then None
      else Some ((threshold - non_foldable) div 2 - summary_budget))"

definition summary_budget_tokens :: nat where "summary_budget_tokens = 2048"

text \<open>\<open>ResolvedContextPolicy::retention_budget_from_projection\<close>.\<close>

definition non_foldable_base :: "'j message list \<Rightarrow> 'j message list" where
  "non_foldable_base ms =
     map snd (filter (\<lambda>(i, m). i < head_end_of ms \<or> msg_role m = SystemRole) (enumerate 0 ms))"

definition retention_budget_from_projection ::
  "context_policy \<Rightarrow> 'j message list \<Rightarrow> ('j message list \<Rightarrow> nat) \<Rightarrow> nat option \<times> nat" where
  "retention_budget_from_projection p ms measure_base =
     (if \<not> folding_enabled p then (None, 0)
      else (let n = measure_base (non_foldable_base ms)
            in (retention_tail_budget (cp_threshold p) n summary_budget_tokens, n)))"

section \<open>The objective pin\<close>

definition objective_marker :: rstr where
  "objective_marker = lit ''[Active objective '' @ em_dash @ lit '' host-pinned]''"

definition objective_pin_message :: "rstr \<Rightarrow> 'j message" where
  "objective_pin_message objective =
     \<lparr>msg_role = UserRole,
      msg_content =
        [TextPart (objective_marker @ [10] @ lit ''<objective>'' @ [10] @ trim objective @ [10]
                   @ lit ''</objective>'' @ [10]
                   @ lit ''This is the active request for this turn.'')],
      msg_origin = Some (RuntimeNoticeOrigin ObjectivePin), msg_route = None\<rparr>"

definition has_objective_pin :: "'j message list \<Rightarrow> rstr \<Rightarrow> bool" where
  "has_objective_pin ms objective =
     (let obj = trim objective
      in obj = [] \<or>
         list_ex (\<lambda>m. msg_role m = UserRole \<and>
                      contains objective_marker (text_content (msg_content m)) \<and>
                      contains obj (text_content (msg_content m))) ms)"

section \<open>The fold\<close>

text \<open>The paths the elided tool calls name, without repetition, in order.\<close>

definition call_path :: "('j \<Rightarrow> rstr option) \<Rightarrow> 'j content_part \<Rightarrow> rstr list" where
  "call_path path_of p =
     (case p of
        ToolCallPart c \<Rightarrow> (case path_of (tc_arguments c) of Some x \<Rightarrow> [x] | None \<Rightarrow> [])
      | _ \<Rightarrow> [])"

definition referenced_files :: "('j \<Rightarrow> rstr option) \<Rightarrow> 'j message list \<Rightarrow> rstr list" where
  "referenced_files path_of ms =
     take 20 (fold push_new (concat (map (\<lambda>m. concat (map (call_path path_of) (msg_content m))) ms)) [])"

definition origin_tasks :: "'j message \<Rightarrow> rstr list" where
  "origin_tasks m =
     (case msg_origin m of Some t \<Rightarrow> delivered_background_task_ids t | None \<Rightarrow> [])"

definition delivered_tasks :: "'j message list \<Rightarrow> rstr list" where
  "delivered_tasks ms = fold push_new (concat (map origin_tasks ms)) []"

definition files_note :: "rstr list \<Rightarrow> rstr" where
  "files_note files =
     (if files = [] then [] else lit '' Files referenced: '' @ join (lit '', '') files @ lit ''.'')"

definition breadcrumb_body :: "nat \<Rightarrow> rstr \<Rightarrow> rstr option \<Rightarrow> rstr" where
  "breadcrumb_body elided note summary =
     (case summary of
        Some s \<Rightarrow>
          lit ''[Earlier context was compacted to fit the window: '' @ show_nat elided
          @ lit '' steps elided.'' @ note @ lit '']'' @ [10, 10]
          @ lit ''Earlier conversation history was compacted. '' @ show_nat elided
          @ lit '' steps were elided.'' @ [10]
          @ lit ''The following summary was generated from the elided history and may omit details:''
          @ [10] @ s @ [10]
      | None \<Rightarrow>
          lit ''[Earlier context was compacted to fit the window: '' @ show_nat elided
          @ lit '' steps elided.'' @ note
          @ lit '' Summarization was unavailable. Some earlier details are no longer available ''
          @ lit ''in the active context.]'')"

definition breadcrumb :: "('j \<Rightarrow> rstr option) \<Rightarrow> 'j message list \<Rightarrow> rstr option \<Rightarrow> 'j message" where
  "breadcrumb path_of middle summary =
     \<lparr>msg_role = UserRole,
      msg_content =
        [TextPart (breadcrumb_body
           (length middle - length (filter (\<lambda>m. msg_role m = SystemRole) middle))
           (files_note (referenced_files path_of middle)) summary)],
      msg_origin = Some (CompactionSummaryOrigin (delivered_tasks middle)), msg_route = None\<rparr>"

definition objective_pin :: "rstr option \<Rightarrow> 'j message list" where
  "objective_pin active =
     (case active of
        None \<Rightarrow> []
      | Some o' \<Rightarrow> if trim o' = [] then [] else [objective_pin_message (trim o')])"

definition leading_system :: "'j message list \<Rightarrow> 'j message list" where
  "leading_system ms = takeWhile (\<lambda>m. msg_role m = SystemRole) ms"

definition compact_messages ::
  "('j \<Rightarrow> rstr) \<Rightarrow> ('j \<Rightarrow> rstr option) \<Rightarrow> 'j message list \<Rightarrow> nat \<Rightarrow> nat \<Rightarrow> rstr option
   \<Rightarrow> rstr option \<Rightarrow> 'j message list" where
  "compact_messages render path_of ms keep_recent keep_recent_tokens summary active =
     (case compaction_span render ms keep_recent keep_recent_tokens of
        None \<Rightarrow>
          (if objective_pin active \<noteq> ([] :: 'j message list) \<and>
              \<not> has_objective_pin ms (case active of Some o' \<Rightarrow> o' | None \<Rightarrow> [])
           then leading_system ms @ objective_pin active @ drop (length (leading_system ms)) ms
           else ms)
      | Some (head_end, tail_start) \<Rightarrow>
          (let middle = drop head_end (take tail_start ms)
           in take head_end ms @ objective_pin active
              @ filter (\<lambda>m. msg_role m = SystemRole) middle
              @ [breadcrumb path_of middle summary] @ drop tail_start ms))"

section \<open>Externalized results\<close>

definition saved_prefix :: rstr where "saved_prefix = lit ''[tool output saved:''"

definition elided_marker :: rstr where "elided_marker = lit ''elided to fit the context''"

definition ellipsis :: rstr where "ellipsis = [8230]"

definition is_elision_marker_line :: "rstr \<Rightarrow> bool" where
  "is_elision_marker_line line \<longleftrightarrow>
     starts_with (ellipsis @ lit '' ['') line \<and> ends_with (lit ''] '' @ ellipsis) line \<and>
     contains elided_marker line"

definition saved_reference :: "rstr \<Rightarrow> rstr \<Rightarrow> nat \<Rightarrow> rstr" where
  "saved_reference path sha256 bytes =
     saved_prefix @ lit '' '' @ path @ lit '' | sha256:'' @ sha256 @ lit '' | '' @ show_nat bytes
     @ lit '' bytes. The preview below is partial; read the full output with read_file, passing ''
     @ lit ''this absolute path and start_line to page.]''"

definition reference_only :: "rstr \<Rightarrow> rstr option" where
  "reference_only content =
     (if starts_with saved_prefix content then
        Some ((case str_lines content of l # ls \<Rightarrow> l | [] \<Rightarrow> saved_prefix) @ [10]
              @ lit ''[The preview was reduced to its saved reference to stay within ''
              @ lit ''the context window. The full output is at the path above.]'')
      else if list_ex is_elision_marker_line (str_lines content) then
        Some (lit ''[tool output truncated: the full result was not retained. Only a partial ''
              @ lit ''preview was kept, and it has now been reduced to stay within the context ''
              @ lit ''window. Re-run the tool if the output is needed again.]'')
      else None)"

definition is_externalized :: "'j content_part \<Rightarrow> bool" where
  "is_externalized p =
     (case p of ToolResultPart r \<Rightarrow> reference_only (tr_content r) \<noteq> None | _ \<Rightarrow> False)"

definition shrink_candidates :: "'j message list \<Rightarrow> (nat \<times> nat) list" where
  "shrink_candidates ms =
     concat (map (\<lambda>(i, m). map (\<lambda>(j, p). (i, j))
                             (filter (\<lambda>(j, p). is_externalized p) (enumerate 0 (msg_content m))))
              (enumerate 0 ms))"

definition reduce_part :: "'j content_part \<Rightarrow> 'j content_part option" where
  "reduce_part p =
     (case p of
        ToolResultPart r \<Rightarrow>
          map_option (\<lambda>t. ToolResultPart (r\<lparr>tr_content := t\<rparr>)) (reference_only (tr_content r))
      | _ \<Rightarrow> None)"

definition set_part :: "nat \<Rightarrow> nat \<Rightarrow> 'j content_part \<Rightarrow> 'j message list \<Rightarrow> 'j message list" where
  "set_part i j p ms = ms[i := (ms ! i)\<lparr>msg_content := (msg_content (ms ! i))[j := p]\<rparr>]"

fun shrink_loop ::
  "('j message list \<Rightarrow> nat) \<Rightarrow> nat \<Rightarrow> (nat \<times> nat) list \<Rightarrow> nat \<Rightarrow> 'j message list
   \<Rightarrow> 'j message list \<times> nat" where
  "shrink_loop measure_ms target [] reduced out = (out, reduced)"
| "shrink_loop measure_ms target ((i, j) # cs) reduced out =
     (case reduce_part (msg_content (out ! i) ! j) of
        None \<Rightarrow> shrink_loop measure_ms target cs reduced out
      | Some p \<Rightarrow>
          (let out' = set_part i j p out
           in if measure_ms out' \<le> target then (out', reduced + 1)
              else shrink_loop measure_ms target cs (reduced + 1) out'))"

definition shrink_externalized_results ::
  "'j message list \<Rightarrow> nat \<Rightarrow> ('j message list \<Rightarrow> nat) \<Rightarrow> 'j message list \<times> nat" where
  "shrink_externalized_results ms target measure_ms =
     (if shrink_candidates ms = [] then (ms, 0)
      else shrink_loop measure_ms target (shrink_candidates ms) 0 ms)"

section \<open>The briefing\<close>

definition has_prior_briefing :: "'j message list \<Rightarrow> bool" where
  "has_prior_briefing ms =
     list_ex (\<lambda>m. contains compaction_marker (text_content (msg_content m))) ms"

datatype finish_reason =
    FinishStop | FinishLength | FinishToolCalls | FinishContentFilter | FinishOther

definition accepted_summary :: "finish_reason \<Rightarrow> 'j message \<Rightarrow> rstr option" where
  "accepted_summary reason m =
     (if reason \<noteq> FinishStop \<or> carries_tool_call m then None
      else (let t = trim (text_content (msg_content m)) in if t = [] then None else Some t))"

end
