(* ===== verification/Tool_Exchange_Correct.thy ===== *)
theory Tool_Exchange_Correct
  imports Context_Compaction
begin

text \<open>
  Tool exchanges: what \<open>validate_tool_exchange\<close> accepts, and that a fold and the
  reduction of saved results keep it.
\<close>

section \<open>The accepted sequences\<close>

fun result_ids :: "'j content_part list \<Rightarrow> rstr list" where
  "result_ids [] = []"
| "result_ids (ToolResultPart r # ps) = tr_call_id r # result_ids ps"
| "result_ids (p # ps) = result_ids ps"

lemma result_ids_append [simp]: "result_ids (a @ b) = result_ids a @ result_ids b"
  by (induction a rule: result_ids.induct) auto

definition is_tool_row :: "'j message \<Rightarrow> bool" where
  "is_tool_row m = (msg_role m = ToolRole)"

text \<open>The results in the run of tool messages at the front of a sequence.\<close>

definition leading_results :: "'j message list \<Rightarrow> rstr list" where
  "leading_results ms = concat (map (\<lambda>m. result_ids (msg_content m)) (takeWhile is_tool_row ms))"

definition issued_calls :: "'j message \<Rightarrow> rstr list" where
  "issued_calls m = (if msg_role m = AssistantRole then call_ids (msg_content m) else [])"

text \<open>Every call of a message is answered exactly once by the tool messages directly
  after it, nothing else is answered there, and no result stands elsewhere.\<close>

definition well_paired :: "'j message list \<Rightarrow> bool" where
  "well_paired ms \<longleftrightarrow>
     leading_results ms = [] \<and>
     (\<forall>i < length ms. \<not> is_tool_row (ms ! i) \<longrightarrow>
        distinct (issued_calls (ms ! i)) \<and>
        mset (leading_results (drop (Suc i) ms)) = mset (issued_calls (ms ! i)))"

lemma leading_results_simps [simp]:
  "leading_results [] = []"
  "is_tool_row m \<Longrightarrow> leading_results (m # ms) = result_ids (msg_content m) @ leading_results ms"
  "\<not> is_tool_row m \<Longrightarrow> leading_results (m # ms) = []"
  by (simp_all add: leading_results_def)

text \<open>The part of the condition that does not ask what precedes the sequence.\<close>

definition paired_after :: "'j message list \<Rightarrow> bool" where
  "paired_after ms \<longleftrightarrow>
     (\<forall>i < length ms. \<not> is_tool_row (ms ! i) \<longrightarrow>
        distinct (issued_calls (ms ! i)) \<and>
        mset (leading_results (drop (Suc i) ms)) = mset (issued_calls (ms ! i)))"

lemma paired_after_Nil [simp]: "paired_after []"
  by (simp add: paired_after_def)

lemma paired_after_Cons:
  "paired_after (m # ms) \<longleftrightarrow>
     (\<not> is_tool_row m \<longrightarrow>
        distinct (issued_calls m) \<and> mset (leading_results ms) = mset (issued_calls m)) \<and>
     paired_after ms"
  unfolding paired_after_def by (auto simp: nth_Cons split: nat.splits)

lemma well_paired_alt: "well_paired ms \<longleftrightarrow> leading_results ms = [] \<and> paired_after ms"
  by (simp add: well_paired_def paired_after_def)

section \<open>The open exchange\<close>

text \<open>The ids still to be answered.\<close>

definition owed :: "(rstr \<times> bool) list \<Rightarrow> rstr list" where
  "owed calls = map fst (filter (\<lambda>(i, answered). \<not> answered) calls)"

text \<open>A state of the loop: each id occurs once unless the exchange already cannot close.\<close>

lemma find_call:
  "find (\<lambda>(i, answered). i = c) calls = Some (i, b) \<Longrightarrow>
     i = c \<and> (c, b) \<in> set calls \<and>
     (b = False \<longrightarrow> mset (owed calls) = add_mset c (mset (owed (mark_answered c calls))))"
  by (induction calls) (auto simp: owed_def split: if_splits)

lemma map_fst_mark [simp]: "map fst (mark_answered c calls) = map fst calls"
  by (induction calls) auto

lemma find_call_None: "find (\<lambda>(i, answered). i = c) calls = None \<longleftrightarrow> c \<notin> set (map fst calls)"
  by (force simp: find_None_iff)

lemma find_filter: "find P xs = None \<longleftrightarrow> filter P xs = []"
  by (induction xs) auto

lemma close_None_iff: "close_exchange opn = None \<longleftrightarrow> (\<forall>a calls. opn = Some (a, calls) \<longrightarrow> owed calls = [])"
proof (cases opn)
  case None
  then show ?thesis by (simp add: close_exchange_def)
next
  case (Some p)
  then show ?thesis
    by (cases p) (auto simp: close_exchange_def owed_def find_filter [symmetric] split: option.splits)
qed

definition open_ids :: "open_exchange \<Rightarrow> rstr list" where
  "open_ids opn = (case opn of None \<Rightarrow> [] | Some (a, calls) \<Rightarrow> map fst calls)"

definition open_owed :: "open_exchange \<Rightarrow> rstr list" where
  "open_owed opn = (case opn of None \<Rightarrow> [] | Some (a, calls) \<Rightarrow> owed calls)"

lemma close_None_owed: "close_exchange opn = None \<longleftrightarrow> open_owed opn = []"
  by (cases opn) (auto simp: close_None_iff open_owed_def)

text \<open>One result of an exchange with distinct ids is accepted when its id is owed.\<close>

lemma answer_call_distinct:
  assumes "distinct (open_ids opn)"
  shows "(\<exists>opn'. answer_call k c opn = Inr opn') \<longleftrightarrow> c \<in> set (open_owed opn)"
    and "answer_call k c opn = Inr opn' \<Longrightarrow>
           open_ids opn' = open_ids opn \<and> mset (open_owed opn) = add_mset c (mset (open_owed opn'))"
proof -
  have owed_mem: "c \<in> set (owed calls) \<longleftrightarrow> (c, False) \<in> set calls" for calls
    by (force simp: owed_def)
  have uniq: "(c, b) \<in> set calls \<Longrightarrow> (c, b') \<in> set calls \<Longrightarrow> b = b'"
    if "distinct (map fst calls)" for b b' and calls :: "(rstr \<times> bool) list"
    using that eq_key_imp_eq_value by fastforce
  show "(\<exists>opn'. answer_call k c opn = Inr opn') \<longleftrightarrow> c \<in> set (open_owed opn)"
  proof (cases opn)
    case None
    then show ?thesis by (simp add: answer_call_def open_owed_def)
  next
    case (Some p)
    obtain a calls where p: "p = (a, calls)" by (cases p)
    have d: "distinct (map fst calls)" using assms Some p by (simp add: open_ids_def)
    show ?thesis
    proof (cases "find (\<lambda>(i, answered). i = c) calls")
      case None
      then have "(c, False) \<notin> set calls" by (auto simp: find_None_iff)
      then show ?thesis using Some p None by (simp add: answer_call_def open_owed_def owed_mem)
    next
      case (Some q)
      obtain i b where q: "q = (i, b)" by (cases q)
      have "(c, b) \<in> set calls" using find_call [of c calls i b] Some q by simp
      then show ?thesis
        using \<open>opn = Some p\<close> p Some q uniq [OF d]
        by (cases b) (auto simp: answer_call_def open_owed_def owed_mem)
    qed
  qed
  show "answer_call k c opn = Inr opn' \<Longrightarrow>
          open_ids opn' = open_ids opn \<and> mset (open_owed opn) = add_mset c (mset (open_owed opn'))"
    by (auto simp: answer_call_def open_ids_def open_owed_def dest: find_call
        split: option.splits prod.splits bool.splits)
qed

lemma answer_parts_distinct:
  assumes "distinct (open_ids opn)"
  shows "answer_parts k ps opn = Inr opn' \<Longrightarrow>
           open_ids opn' = open_ids opn \<and>
           mset (open_owed opn) = mset (result_ids ps) + mset (open_owed opn')"
    and "mset (result_ids ps) \<subseteq># mset (open_owed opn) \<Longrightarrow>
           \<exists>opn'. answer_parts k ps opn = Inr opn'"
  using assms
proof (induction k ps opn arbitrary: opn' rule: answer_parts.induct)
  case (2 k r ps opn)
  {
    case 1
    then obtain o1 where o1: "answer_call k (tr_call_id r) opn = Inr o1"
        "answer_parts k ps o1 = Inr opn'"
      by (auto split: sum.splits)
    with 1(2) answer_call_distinct(2) [of opn k "tr_call_id r" o1] "2.IH"(1) [of o1 opn']
    show ?case by simp
  next
    case 2
    then have "tr_call_id r \<in># mset (open_owed opn)"
      using mset_subset_eqD [OF 2(1), of "tr_call_id r"] by simp
    then have "tr_call_id r \<in> set (open_owed opn)" by simp
    then obtain o1 where o1: "answer_call k (tr_call_id r) opn = Inr o1"
      using answer_call_distinct(1) [OF 2(2)] by blast
    with answer_call_distinct(2) [OF 2(2) o1] 2
    have "mset (result_ids ps) \<subseteq># mset (open_owed o1)" "distinct (open_ids o1)" by simp_all
    with "2.IH"(2) [OF o1] o1 show ?case by simp
  }
qed simp_all

text \<open>An id issued twice can never be answered twice.\<close>

fun shadowed :: "(rstr \<times> bool) list \<Rightarrow> bool" where
  "shadowed [] = False"
| "shadowed ((i, b) # cs) = ((i, False) \<in> set cs \<or> shadowed cs)"

lemma mark_other: "(i, False) \<in> set cs \<Longrightarrow> i \<noteq> c \<Longrightarrow> (i, False) \<in> set (mark_answered c cs)"
  by (induction cs) auto

lemma shadowed_mark: "shadowed cs \<Longrightarrow> shadowed (mark_answered c cs)"
  by (induction cs) (auto dest: mark_other)

lemma owed_Nil_iff: "owed cs = [] \<longleftrightarrow> (\<forall>i. (i, False) \<notin> set cs)"
  by (auto simp: owed_def filter_empty_conv)

lemma shadowed_owed: "shadowed cs \<Longrightarrow> owed cs \<noteq> []"
  unfolding owed_Nil_iff by (induction cs rule: shadowed.induct) auto

lemma shadowed_new: "\<not> distinct ids \<Longrightarrow> shadowed (map (\<lambda>i. (i, False)) ids)"
  by (induction ids) auto

lemma shadowed_answer_call:
  "answer_call k c (Some (a, cs)) = Inr opn' \<Longrightarrow> shadowed cs \<Longrightarrow>
     \<exists>cs'. opn' = Some (a, cs') \<and> shadowed cs'"
  by (auto simp: answer_call_def intro: shadowed_mark split: option.splits prod.splits bool.splits)

lemma shadowed_answer_parts:
  "answer_parts k ps opn = Inr opn' \<Longrightarrow> opn = Some (a, cs) \<Longrightarrow> shadowed cs \<Longrightarrow>
     \<exists>cs'. opn' = Some (a, cs') \<and> shadowed cs'"
proof (induction k ps opn arbitrary: cs rule: answer_parts.induct)
  case (2 k r ps opn)
  then obtain o1 where o1: "answer_call k (tr_call_id r) opn = Inr o1"
      "answer_parts k ps o1 = Inr opn'"
    by (auto split: sum.splits)
  with 2 shadowed_answer_call [of k "tr_call_id r" a cs o1]
  obtain cs1 where "o1 = Some (a, cs1)" "shadowed cs1" by blast
  with 2 o1 show ?case by blast
qed auto

lemma shadowed_refused:
  "shadowed cs \<Longrightarrow> validate_from k (Some (a, cs)) ms \<noteq> None"
proof (induction ms arbitrary: k cs)
  case Nil
  then show ?case by (simp add: close_None_iff shadowed_owed)
next
  case (Cons m ms)
  have "close_exchange (Some (a, cs)) \<noteq> None"
    using Cons.prems by (simp add: close_None_iff shadowed_owed)
  moreover have "validate_from (Suc k) opn' ms \<noteq> None"
    if "answer_parts k (msg_content m) (Some (a, cs)) = Inr opn'" for opn'
    using shadowed_answer_parts [OF that refl Cons.prems] Cons.IH by blast
  ultimately show ?case by (auto split: sum.splits)
qed

section \<open>Equivalence\<close>

lemma open_calls_ids: "open_ids (open_calls k m) = issued_calls m"
  by (simp add: open_calls_def open_ids_def issued_calls_def o_def)

lemma open_calls_owed: "open_owed (open_calls k m) = issued_calls m"
  by (simp add: open_calls_def open_owed_def issued_calls_def owed_def o_def)

lemma open_calls_shadowed:
  "\<not> distinct (issued_calls m) \<Longrightarrow>
     \<exists>cs. open_calls k m = Some (k, cs) \<and> shadowed cs"
  by (auto simp: open_calls_def issued_calls_def shadowed_new split: if_splits)

lemma validate_from_iff:
  "distinct (open_ids opn) \<Longrightarrow>
     validate_from k opn ms = None \<longleftrightarrow>
       mset (leading_results ms) = mset (open_owed opn) \<and> paired_after ms"
proof (induction ms arbitrary: k opn)
  case Nil
  then show ?case by (auto simp: close_None_owed)
next
  case (Cons m ms)
  show ?case
  proof (cases "is_tool_row m")
    case True
    show ?thesis
    proof (cases "answer_parts k (msg_content m) opn")
      case (Inl e)
      then have "\<not> mset (result_ids (msg_content m)) \<subseteq># mset (open_owed opn)"
        using answer_parts_distinct(2) [OF Cons.prems, of "msg_content m" k] by auto
      with Inl True show ?thesis
        by (auto simp: is_tool_row_def [symmetric])
          (metis mset_subset_eq_add_left)
    next
      case (Inr o1)
      note o1 = answer_parts_distinct(1) [OF Cons.prems Inr]
      with Cons.prems have "distinct (open_ids o1)" by simp
      from Cons.IH [OF this] o1 Inr True show ?thesis
        by (simp add: is_tool_row_def [symmetric] paired_after_Cons)
    qed
  next
    case False
    show ?thesis
    proof (cases "distinct (issued_calls m)")
      case True
      then have "distinct (open_ids (open_calls k m))" by (simp add: open_calls_ids)
      from Cons.IH [OF this] False True show ?thesis
        using close_None_owed [of opn]
        by (auto simp: is_tool_row_def [symmetric] paired_after_Cons open_calls_owed
            split: option.splits)
    next
      case dup: False
      with open_calls_shadowed [of m k] shadowed_refused
      have "validate_from (Suc k) (open_calls k m) ms \<noteq> None" by metis
      with False dup show ?thesis
        by (auto simp: is_tool_row_def [symmetric] paired_after_Cons split: option.splits)
    qed
  qed
qed

lemma validate_iff: "validate_tool_exchange ms = None \<longleftrightarrow> well_paired ms"
  by (simp add: validate_tool_exchange_def validate_from_iff open_ids_def open_owed_def
      well_paired_alt)

section \<open>Cuts between messages\<close>

text \<open>A sequence may be cut before any message that is not a tool row.\<close>

lemma leading_results_append:
  "(\<exists>m \<in> set xs. \<not> is_tool_row m) \<Longrightarrow> leading_results (xs @ ys) = leading_results xs"
  by (auto simp: leading_results_def takeWhile_append1)

lemma leading_results_cut:
  "ys = [] \<or> \<not> is_tool_row (hd ys) \<Longrightarrow> leading_results (xs @ ys) = leading_results xs"
proof (cases "\<exists>m \<in> set xs. \<not> is_tool_row m")
  case True
  then show ?thesis by (rule leading_results_append)
next
  case False
  then have all: "\<And>x. x \<in> set xs \<Longrightarrow> is_tool_row x" by blast
  then have tw: "takeWhile is_tool_row xs = xs" by (simp add: takeWhile_eq_all_conv)
  assume "ys = [] \<or> \<not> is_tool_row (hd ys)"
  then have "takeWhile is_tool_row ys = []" by (cases ys) auto
  with all tw show ?thesis
    by (simp only: leading_results_def takeWhile_append2 append_Nil2)
qed

lemma paired_after_cut:
  "ys = [] \<or> \<not> is_tool_row (hd ys) \<Longrightarrow> paired_after (xs @ ys) \<longleftrightarrow> paired_after xs \<and> paired_after ys"
  by (induction xs) (auto simp: paired_after_Cons leading_results_cut)

lemma leading_results_Nil_of:
  "ys = [] \<or> \<not> is_tool_row (hd ys) \<Longrightarrow> leading_results ys = []"
  by (cases ys) auto

text \<open>Messages that neither issue a call nor are tool rows.\<close>

definition is_plain_row :: "'j message \<Rightarrow> bool" where
  "is_plain_row m \<longleftrightarrow> \<not> is_tool_row m \<and> issued_calls m = []"

lemma paired_after_plain:
  "list_all is_plain_row xs \<Longrightarrow> ys = [] \<or> \<not> is_tool_row (hd ys) \<Longrightarrow>
     paired_after (xs @ ys) \<longleftrightarrow> paired_after ys"
proof (induction xs)
  case (Cons x xs)
  have "leading_results (xs @ ys) = []"
    using Cons.prems by (cases xs) (auto simp: is_plain_row_def leading_results_Nil_of)
  with Cons show ?case by (simp add: paired_after_Cons is_plain_row_def)
qed simp

lemma paired_after_plain_inv:
  "list_all is_plain_row xs \<Longrightarrow> paired_after (xs @ ys) \<Longrightarrow>
     paired_after ys \<and> (xs \<noteq> [] \<longrightarrow> leading_results ys = [])"
proof (induction xs)
  case (Cons x xs)
  then have "paired_after (xs @ ys)" "leading_results (xs @ ys) = []"
    by (auto simp: paired_after_Cons is_plain_row_def)
  with Cons show ?case by (cases xs) auto
qed simp

section \<open>The span of a fold\<close>

lemma round_boundary_back_le: "round_boundary_back ms s \<le> s"
  by (induction s) auto

lemma round_boundary_back_row:
  "round_boundary_back ms s \<noteq> 0 \<Longrightarrow> s \<le> length ms \<Longrightarrow>
     round_boundary_back ms s < length ms \<Longrightarrow>
     \<not> is_tool_row (ms ! round_boundary_back ms s)"
  by (induction s) (auto simp: is_tool_row_def split: if_splits)

lemma round_boundary_hd:
  "round_boundary ms s \<noteq> 0 \<Longrightarrow>
     drop (round_boundary ms s) ms = [] \<or> \<not> is_tool_row (hd (drop (round_boundary ms s) ms))"
  using round_boundary_back_row [of ms "min s (length ms)"]
  by (cases "round_boundary ms s < length ms") (auto simp: round_boundary_def hd_drop_conv_nth)

lemma round_boundary_le: "round_boundary ms s \<le> length ms"
  using round_boundary_back_le [of ms "min s (length ms)"] by (simp add: round_boundary_def)

lemma first_user_Some:
  "first_user ms = Some i \<Longrightarrow> i < length ms \<and> msg_role (ms ! i) = UserRole"
  by (induction ms arbitrary: i) (auto split: if_splits)

lemma head_end_cases:
  "head_end_of ms = 0 \<or>
     (\<exists>i. head_end_of ms = Suc i \<and> i < length ms \<and> msg_role (ms ! i) = UserRole)"
  using first_user_Some by (auto simp: head_end_of_def split: option.splits)

lemma compaction_span_Some:
  "compaction_span render ms k b = Some (h, t) \<Longrightarrow>
     h = head_end_of ms \<and> h + 2 \<le> t \<and> t \<le> length ms \<and>
     (drop t ms = [] \<or> \<not> is_tool_row (hd (drop t ms)))"
proof -
  assume a: "compaction_span render ms k b = Some (h, t)"
  define t1 where
    "t1 = (if 0 < b then shrink_tail render ms b (max (length ms - k) (head_end_of ms))
           else max (length ms - k) (head_end_of ms))"
  have h: "h = head_end_of ms" and t: "t = max (round_boundary ms t1) h"
      and lt: "\<not> t \<le> h" "\<not> t - h < 2"
    using a by (auto simp: compaction_span_def Let_def t1_def split: if_splits)
  from t lt(1) have tr: "t = round_boundary ms t1" by (simp split: if_splits add: max_def)
  with lt(1) have "round_boundary ms t1 \<noteq> 0" by simp
  from round_boundary_hd [OF this] tr h lt round_boundary_le [of ms t1] show ?thesis by auto
qed

section \<open>A fold keeps the pairing\<close>

lemma objective_pin_plain: "list_all is_plain_row (objective_pin active)"
  by (simp add: objective_pin_def objective_pin_message_def is_plain_row_def is_tool_row_def
      issued_calls_def split: option.splits)

lemma system_plain: "msg_role m = SystemRole \<Longrightarrow> is_plain_row m"
  by (simp add: is_plain_row_def is_tool_row_def issued_calls_def)

lemma breadcrumb_plain: "is_plain_row (breadcrumb path_of middle summary)"
  by (simp add: breadcrumb_def is_plain_row_def is_tool_row_def issued_calls_def)

lemma user_plain: "msg_role m = UserRole \<Longrightarrow> is_plain_row m"
  by (simp add: is_plain_row_def is_tool_row_def issued_calls_def)

lemma plain_hd: "list_all is_plain_row xs \<Longrightarrow> xs \<noteq> [] \<Longrightarrow> \<not> is_tool_row (hd (xs @ ys))"
  by (cases xs) (auto simp: is_plain_row_def)

text \<open>What a fold inserts between the head and the tail.\<close>

lemma paired_splice:
  assumes ms: "well_paired ms" and h: "h = head_end_of ms"
    and t: "drop t ms = [] \<or> \<not> is_tool_row (hd (drop t ms))"
    and plain: "list_all is_plain_row ins" "ins \<noteq> []"
  shows "well_paired (take h ms @ ins @ drop t ms)"
proof -
  have lead: "leading_results ms = []" and pa: "paired_after ms"
    using ms by (auto simp: well_paired_alt)
  have cut: "ins @ drop t ms = [] \<or> \<not> is_tool_row (hd (ins @ drop t ms))"
    using plain_hd [OF plain, of "drop t ms"] by blast
  have tail: "paired_after (drop t ms)"
    using paired_after_cut [OF t, of "take t ms"] pa by simp
  have head: "leading_results (take h ms) = [] \<and> paired_after (take h ms)"
  proof (cases "h = 0")
    case False
    with h head_end_cases [of ms] obtain i where i: "h = Suc i" "i < length ms"
        "msg_role (ms ! i) = UserRole" by auto
    have u: "take h ms = take i ms @ [ms ! i]" using i by (simp add: take_Suc_conv_app_nth)
    have split: "ms = take i ms @ ms ! i # drop (Suc i) ms" using i by (simp add: id_take_nth_drop)
    have nt: "\<not> is_tool_row (ms ! i)" using user_plain [OF i(3)] by (simp add: is_plain_row_def)
    have "paired_after (take i ms)"
      using pa paired_after_cut [of "ms ! i # drop (Suc i) ms" "take i ms"] split nt by simp
    then have "paired_after (take h ms)"
      using paired_after_cut [of "[ms ! i]" "take i ms"] nt user_plain [OF i(3)]
      by (simp add: u paired_after_Cons is_plain_row_def)
    moreover have "leading_results (take h ms) = []"
    proof -
      have "\<exists>m \<in> set (take h ms). \<not> is_tool_row m" using nt unfolding u by simp
      from leading_results_append [OF this, of "drop h ms"] lead show ?thesis by simp
    qed
    ultimately show ?thesis by simp
  qed simp
  have "paired_after (ins @ drop t ms)" using paired_after_plain [OF plain(1) t] tail by simp
  then show ?thesis
    unfolding well_paired_alt leading_results_cut [OF cut] paired_after_cut [OF cut]
    using head by simp
qed

lemma leading_system_split: "leading_system ms @ drop (length (leading_system ms)) ms = ms"
  by (metis leading_system_def takeWhile_dropWhile_id dropWhile_eq_drop)

lemma paired_pin:
  assumes ms: "well_paired ms" and p: "list_all is_plain_row pin"
  shows "well_paired (leading_system ms @ pin @ drop (length (leading_system ms)) ms)"
proof (cases "pin = []")
  case True
  with ms show ?thesis by (simp add: leading_system_split)
next
  case False
  define ls where "ls = leading_system ms"
  define rest where "rest = drop (length ls) ms"
  have ms': "ms = ls @ rest"
    by (simp add: ls_def rest_def leading_system_split)
  have pl: "list_all is_plain_row ls"
    by (auto simp: ls_def leading_system_def list_all_iff system_plain dest: set_takeWhileD)
  have lead: "leading_results ms = []" and pa: "paired_after ms"
    using ms by (auto simp: well_paired_alt)
  have "paired_after rest \<and> leading_results rest = []"
    using paired_after_plain_inv [OF pl] pa lead ms' by (cases ls) auto
  then have rest: "paired_after (pin @ rest)" "leading_results (pin @ rest) = []"
  proof -
    assume r: "paired_after rest \<and> leading_results rest = []"
    show "leading_results (pin @ rest) = []"
      using plain_hd [OF p False, of rest] by (intro leading_results_Nil_of) simp
    from p r show "paired_after (pin @ rest)"
    proof (induction pin)
      case (Cons x xs)
      then have "leading_results (xs @ rest) = []"
        by (cases xs) (auto simp: is_plain_row_def)
      with Cons show ?case by (simp add: paired_after_Cons is_plain_row_def)
    qed simp
  qed
  have hd: "pin @ rest = [] \<or> \<not> is_tool_row (hd (pin @ rest))"
    using plain_hd [OF p False] by simp
  have "leading_results (ls @ pin @ rest) = []"
    unfolding leading_results_cut [OF hd] using pl by (cases ls) (auto simp: is_plain_row_def)
  moreover have "paired_after (ls @ pin @ rest)" using paired_after_plain [OF pl hd] rest by simp
  ultimately show ?thesis by (simp add: well_paired_alt ls_def rest_def)
qed

lemma compact_well_paired:
  assumes "well_paired ms"
  shows "well_paired (compact_messages render path_of ms k b summary active)"
proof (cases "compaction_span render ms k b")
  case None
  then show ?thesis
    using assms paired_pin [OF assms objective_pin_plain] by (simp add: compact_messages_def)
next
  case (Some p)
  obtain h t where p: "p = (h, t)" by (cases p)
  define middle where "middle = drop h (take t ms)"
  define ins where
    "ins = objective_pin active @ filter (\<lambda>m. msg_role m = SystemRole) middle
           @ [breadcrumb path_of middle summary]"
  have "list_all is_plain_row ins"
    using objective_pin_plain [of active] breadcrumb_plain [of path_of middle summary]
    by (auto simp: ins_def list_all_iff system_plain)
  moreover have "ins \<noteq> []" by (simp add: ins_def)
  ultimately have "well_paired (take h ms @ ins @ drop t ms)"
    using compaction_span_Some [of render ms k b h t] Some p assms
    by (intro paired_splice) auto
  with Some p show ?thesis
    by (simp add: compact_messages_def ins_def middle_def Let_def)
qed

section \<open>What the check reads\<close>

fun answer_ids :: "nat \<Rightarrow> rstr list \<Rightarrow> open_exchange \<Rightarrow> tool_exchange_violation + open_exchange" where
  "answer_ids k [] opn = Inr opn"
| "answer_ids k (c # cs) opn =
     (case answer_call k c opn of Inl e \<Rightarrow> Inl e | Inr opn' \<Rightarrow> answer_ids k cs opn')"

lemma answer_parts_ids: "answer_parts k ps opn = answer_ids k (result_ids ps) opn"
  by (induction k ps opn rule: answer_parts.induct) (auto split: sum.splits)

definition same_exchange_row :: "'j message \<Rightarrow> 'j message \<Rightarrow> bool" where
  "same_exchange_row m n \<longleftrightarrow>
     msg_role n = msg_role m \<and> call_ids (msg_content n) = call_ids (msg_content m) \<and>
     result_ids (msg_content n) = result_ids (msg_content m)"

lemma validate_from_same:
  "list_all2 same_exchange_row ms ns \<Longrightarrow> validate_from k opn ns = validate_from k opn ms"
proof (induction arbitrary: k opn rule: list_all2_induct)
  case (Cons m ms n ns)
  then show ?case
    by (auto simp: same_exchange_row_def answer_parts_ids open_calls_def split: sum.splits option.splits)
qed simp

lemma validate_same:
  "list_all2 same_exchange_row ms ns \<Longrightarrow> validate_tool_exchange ns = validate_tool_exchange ms"
  by (simp add: validate_tool_exchange_def validate_from_same)

section \<open>Reducing saved results\<close>

definition reduced :: "'j content_part \<Rightarrow> 'j content_part" where
  "reduced p = (case reduce_part p of Some q \<Rightarrow> q | None \<Rightarrow> p)"

text \<open>The transcript with the results at the positions \<open>S\<close> reduced.\<close>

definition reduce_at :: "(nat \<times> nat) set \<Rightarrow> 'j message list \<Rightarrow> 'j message list" where
  "reduce_at S ms =
     map (\<lambda>i. (ms ! i)\<lparr>msg_content :=
            map (\<lambda>j. if (i, j) \<in> S then reduced (msg_content (ms ! i) ! j)
                      else msg_content (ms ! i) ! j) [0..<length (msg_content (ms ! i))]\<rparr>)
       [0..<length ms]"

lemma length_reduce_at [simp]: "length (reduce_at S ms) = length ms"
  by (simp add: reduce_at_def)

lemma reduce_at_content [simp]:
  "i < length ms \<Longrightarrow> length (msg_content (reduce_at S ms ! i)) = length (msg_content (ms ! i))"
  by (simp add: reduce_at_def)

lemma reduce_at_part:
  "i < length ms \<Longrightarrow> j < length (msg_content (ms ! i)) \<Longrightarrow>
     msg_content (reduce_at S ms ! i) ! j =
       (if (i, j) \<in> S then reduced (msg_content (ms ! i) ! j) else msg_content (ms ! i) ! j)"
  by (simp add: reduce_at_def)

lemma reduce_at_row:
  "i < length ms \<Longrightarrow> msg_role (reduce_at S ms ! i) = msg_role (ms ! i) \<and>
     msg_origin (reduce_at S ms ! i) = msg_origin (ms ! i) \<and>
     msg_route (reduce_at S ms ! i) = msg_route (ms ! i)"
  by (simp add: reduce_at_def)

lemma message_eqI:
  "msg_role m = msg_role n \<Longrightarrow> msg_content m = msg_content n \<Longrightarrow> msg_origin m = msg_origin n \<Longrightarrow>
     msg_route m = msg_route n \<Longrightarrow> m = (n :: 'j message)"
  by simp

lemma reduce_at_empty: "reduce_at {} ms = ms"
  by (rule nth_equalityI)
    (auto intro!: message_eqI nth_equalityI simp: reduce_at_row reduce_at_part)

lemma reduce_at_insert:
  assumes i: "i < length ms" and j: "j < length (msg_content (ms ! i))" and new: "(i, j) \<notin> S"
    and p: "reduce_part (msg_content (ms ! i) ! j) = Some p"
  shows "set_part i j p (reduce_at S ms) = reduce_at (insert (i, j) S) ms"
proof (rule nth_equalityI)
  show "length (set_part i j p (reduce_at S ms)) = length (reduce_at (insert (i, j) S) ms)"
    by (simp add: set_part_def)
  fix n assume "n < length (set_part i j p (reduce_at S ms))"
  then have n: "n < length ms" by (simp add: set_part_def)
  have r: "reduced (msg_content (ms ! i) ! j) = p" using p by (simp add: reduced_def)
  show "set_part i j p (reduce_at S ms) ! n = reduce_at (insert (i, j) S) ms ! n"
  proof (cases "n = i")
    case True
    then show ?thesis
      using i j r
      by (auto intro!: message_eqI nth_equalityI
          simp: set_part_def reduce_at_row reduce_at_part nth_list_update)
  next
    case False
    then show ?thesis
      using n by (auto intro!: message_eqI nth_equalityI
          simp: set_part_def reduce_at_row reduce_at_part)
  qed
qed

definition reducible_at :: "'j message list \<Rightarrow> nat \<times> nat \<Rightarrow> bool" where
  "reducible_at ms p \<longleftrightarrow>
     fst p < length ms \<and> snd p < length (msg_content (ms ! fst p)) \<and>
     is_externalized (msg_content (ms ! fst p) ! snd p)"

lemma externalized_reduce: "is_externalized p \<Longrightarrow> \<exists>q. reduce_part p = Some q"
  by (auto simp: is_externalized_def reduce_part_def split: content_part.splits)

lemma shrink_loop_prefix:
  assumes "distinct cs" and "set cs \<inter> S = {}" and "\<forall>p \<in> set cs. reducible_at ms p"
  shows "\<exists>done_cs rest. cs = done_cs @ rest \<and>
           shrink_loop measure_ms target cs n (reduce_at S ms) =
             (reduce_at (S \<union> set done_cs) ms, n + length done_cs) \<and>
           (rest = [] \<or> done_cs \<noteq> [] \<and> measure_ms (reduce_at (S \<union> set done_cs) ms) \<le> target) \<and>
           (\<forall>a b. done_cs = a @ b \<and> a \<noteq> [] \<and> b \<noteq> [] \<longrightarrow>
              target < measure_ms (reduce_at (S \<union> set a) ms))"
  using assms
proof (induction cs arbitrary: S n)
  case Nil
  show ?case by (rule exI [of _ "[]"]) simp
next
  case (Cons c cs)
  obtain i j where c: "c = (i, j)" by (cases c)
  have ij: "i < length ms" "j < length (msg_content (ms ! i))" "(i, j) \<notin> S"
    and ext: "is_externalized (msg_content (ms ! i) ! j)"
    using Cons.prems c by (auto simp: reducible_at_def)
  obtain q where q: "reduce_part (msg_content (ms ! i) ! j) = Some q"
    using externalized_reduce [OF ext] by blast
  let ?S = "insert (i, j) S"
  have part: "reduce_part (msg_content (reduce_at S ms ! i) ! j) = Some q"
    using ij q by (simp add: reduce_at_part)
  note step = reduce_at_insert [OF ij q]
  show ?case
  proof (cases "measure_ms (reduce_at ?S ms) \<le> target")
    case True
    show ?thesis
    proof (intro exI conjI)
      show "c # cs = [c] @ cs" by simp
      show "shrink_loop measure_ms target (c # cs) n (reduce_at S ms) =
              (reduce_at (S \<union> set [c]) ms, n + length [c])"
        using True by (simp add: c part step Let_def)
      show "cs = [] \<or> [c] \<noteq> [] \<and> measure_ms (reduce_at (S \<union> set [c]) ms) \<le> target"
        using True by (simp add: c)
      show "\<forall>a b. [c] = a @ b \<and> a \<noteq> [] \<and> b \<noteq> [] \<longrightarrow>
              target < measure_ms (reduce_at (S \<union> set a) ms)"
        by (auto simp: Cons_eq_append_conv)
    qed
  next
    case False
    have pre: "distinct cs" "set cs \<inter> ?S = {}" "\<forall>p \<in> set cs. reducible_at ms p"
      using Cons.prems c by auto
    from Cons.IH [OF pre, of "n + 1"] obtain dn rest where dr:
        "cs = dn @ rest"
        "shrink_loop measure_ms target cs (n + 1) (reduce_at ?S ms) =
           (reduce_at (?S \<union> set dn) ms, n + 1 + length dn)"
        "rest = [] \<or> dn \<noteq> [] \<and> measure_ms (reduce_at (?S \<union> set dn) ms) \<le> target"
        "\<forall>a b. dn = a @ b \<and> a \<noteq> [] \<and> b \<noteq> [] \<longrightarrow>
           target < measure_ms (reduce_at (?S \<union> set a) ms)"
      by blast
    show ?thesis
    proof (intro exI conjI)
      show "c # cs = (c # dn) @ rest" using dr(1) by simp
      show "shrink_loop measure_ms target (c # cs) n (reduce_at S ms) =
              (reduce_at (S \<union> set (c # dn)) ms, n + length (c # dn))"
        using False dr(2) by (simp add: c part step Let_def)
      show "rest = [] \<or> c # dn \<noteq> [] \<and> measure_ms (reduce_at (S \<union> set (c # dn)) ms) \<le> target"
        using dr(3) by (auto simp: c)
      show "\<forall>a b. c # dn = a @ b \<and> a \<noteq> [] \<and> b \<noteq> [] \<longrightarrow>
              target < measure_ms (reduce_at (S \<union> set a) ms)"
      proof (intro allI impI, elim conjE)
        fix a b assume ab: "c # dn = a @ b" "a \<noteq> []" "b \<noteq> []"
        then obtain a' where a': "a = c # a'" "dn = a' @ b" by (cases a) auto
        show "target < measure_ms (reduce_at (S \<union> set a) ms)"
        proof (cases "a' = []")
          case True
          then show ?thesis using False a' c by simp
        next
          case ne: False
          with dr(4) a' ab(3) have "target < measure_ms (reduce_at (?S \<union> set a') ms)" by blast
          then show ?thesis by (simp add: a' c)
        qed
      qed
    qed
  qed
qed

lemma candidates_reducible: "p \<in> set (shrink_candidates ms) \<Longrightarrow> reducible_at ms p"
  by (auto simp: shrink_candidates_def reducible_at_def in_set_enumerate_eq)

lemma candidates_complete: "reducible_at ms p \<Longrightarrow> p \<in> set (shrink_candidates ms)"
  by (cases p) (force simp: shrink_candidates_def reducible_at_def in_set_enumerate_eq)

lemma distinct_row:
  "distinct (map (\<lambda>(j, p). (i, j)) (filter P (enumerate n l)))"
proof -
  have "map (\<lambda>(j, p). (i, j)) (filter P (enumerate n l)) = map (Pair i) (map fst (filter P (enumerate n l)))"
    by (simp add: case_prod_unfold)
  moreover have "distinct (map fst (filter P (enumerate n l)))"
    by (rule distinct_map_filter) simp
  ultimately show ?thesis by (simp add: distinct_map inj_on_def)
qed

definition row_candidates :: "nat \<times> 'j message \<Rightarrow> (nat \<times> nat) list" where
  "row_candidates im =
     map (\<lambda>(j, p). (fst im, j))
       (filter (\<lambda>(j, p). is_externalized p) (enumerate 0 (msg_content (snd im))))"

lemma shrink_candidates_rows:
  "shrink_candidates ms = concat (map row_candidates (enumerate 0 ms))"
  unfolding shrink_candidates_def
  by (intro arg_cong [where f = concat] map_cong refl)
    (simp add: row_candidates_def case_prod_unfold)

lemma row_candidates_fst: "q \<in> set (row_candidates im) \<Longrightarrow> fst q = fst im"
  by (auto simp: row_candidates_def)

lemma distinct_candidates_from: "distinct (concat (map row_candidates (enumerate n ms)))"
proof (induction ms arbitrary: n)
  case (Cons m ms)
  have "fst q \<noteq> n" if "q \<in> set (concat (map row_candidates (enumerate (Suc n) ms)))" for q
    using that by (auto dest!: row_candidates_fst simp: in_set_enumerate_eq)
  moreover have "fst q = n" if "q \<in> set (row_candidates (n, m))" for q
    using row_candidates_fst [OF that] by simp
  ultimately have "set (row_candidates (n, m)) \<inter>
      set (concat (map row_candidates (enumerate (Suc n) ms))) = {}"
    by blast
  moreover have "distinct (row_candidates (n, m))"
    unfolding row_candidates_def by (rule distinct_row)
  moreover note Cons.IH [of "Suc n"]
  ultimately show ?case by (simp only: enumerate_simps list.map concat.simps distinct_append simp_thms)
qed simp

lemma distinct_candidates: "distinct (shrink_candidates ms)"
  unfolding shrink_candidates_rows by (rule distinct_candidates_from)

lemma reduced_ids [simp]:
  "call_ids [reduced p] = call_ids [p]" "result_ids [reduced p] = result_ids [p]"
  by (auto simp: reduced_def reduce_part_def split: content_part.splits option.splits)

lemma call_ids_concat: "call_ids ps = concat (map (\<lambda>p. call_ids [p]) ps)"
  by (induction ps rule: call_ids.induct) auto

lemma result_ids_concat: "result_ids ps = concat (map (\<lambda>p. result_ids [p]) ps)"
  by (induction ps rule: result_ids.induct) auto

lemma ids_pointwise:
  assumes "length qs = length ps"
    and "\<And>j. j < length ps \<Longrightarrow> qs ! j = ps ! j \<or> qs ! j = reduced (ps ! j)"
  shows "call_ids qs = call_ids ps \<and> result_ids qs = result_ids ps"
proof -
  have "call_ids [qs ! j] = call_ids [ps ! j] \<and> result_ids [qs ! j] = result_ids [ps ! j]"
    if "j < length ps" for j
    using assms(2) [OF that] by auto
  then have "map (\<lambda>p. call_ids [p]) qs = map (\<lambda>p. call_ids [p]) ps"
      "map (\<lambda>p. result_ids [p]) qs = map (\<lambda>p. result_ids [p]) ps"
    using assms(1) by (auto intro!: nth_equalityI)
  then show ?thesis by (metis call_ids_concat result_ids_concat)
qed

lemma reduce_at_same: "list_all2 same_exchange_row ms (reduce_at S ms)"
proof (rule list_all2_all_nthI)
  fix i assume i: "i < length ms"
  have "call_ids (msg_content (reduce_at S ms ! i)) = call_ids (msg_content (ms ! i)) \<and>
        result_ids (msg_content (reduce_at S ms ! i)) = result_ids (msg_content (ms ! i))"
    using i by (intro ids_pointwise) (auto simp: reduce_at_part)
  then show "same_exchange_row (ms ! i) (reduce_at S ms ! i)"
    using reduce_at_row [OF i, of S] by (simp add: same_exchange_row_def)
qed simp

lemma shrink_prefix:
  "\<exists>done_cs rest. shrink_candidates ms = done_cs @ rest \<and>
     shrink_externalized_results ms target measure_ms =
       (reduce_at (set done_cs) ms, length done_cs) \<and>
     (rest = [] \<or> done_cs \<noteq> [] \<and> measure_ms (reduce_at (set done_cs) ms) \<le> target) \<and>
     (\<forall>a b. done_cs = a @ b \<and> a \<noteq> [] \<and> b \<noteq> [] \<longrightarrow> target < measure_ms (reduce_at (set a) ms))"
proof (cases "shrink_candidates ms = []")
  case True
  then show ?thesis
    by (intro exI [of _ "[]"]) (simp add: shrink_externalized_results_def reduce_at_empty)
next
  case False
  then show ?thesis
    using shrink_loop_prefix [OF distinct_candidates, of ms "{}" ms measure_ms target 0]
      candidates_reducible [of _ ms]
    unfolding shrink_externalized_results_def by (simp add: reduce_at_empty)
qed

section \<open>What a fold keeps\<close>

lemma set_push_new [simp]: "set (push_new x xs) = insert x (set xs)"
  by (auto simp: push_new_def)

lemma set_fold_push [simp]: "set (fold push_new xs acc) = set acc \<union> set xs"
  by (induction xs arbitrary: acc) auto

lemma set_delivered: "set (delivered_tasks ms) = (\<Union>m \<in> set ms. set (origin_tasks m))"
  by (simp add: delivered_tasks_def)

lemma origin_pin: "m \<in> set (objective_pin active) \<Longrightarrow> origin_tasks m = [] \<and> msg_role m = UserRole"
  by (auto simp: objective_pin_def objective_pin_message_def origin_tasks_def
      delivered_background_task_ids_def split: option.splits if_splits)

lemma origin_breadcrumb: "origin_tasks (breadcrumb path_of middle summary) = delivered_tasks middle"
  by (simp add: breadcrumb_def origin_tasks_def delivered_background_task_ids_def)

lemma compact_shape:
  "\<exists>pre middle post ins.
     ms = pre @ middle @ post \<and>
     compact_messages render path_of ms k b summary active = pre @ ins @ post \<and>
     (ins = [] \<and> middle = [] \<or> ins = objective_pin active \<and> middle = [] \<or>
      ins = objective_pin active @ filter (\<lambda>m. msg_role m = SystemRole) middle
            @ [breadcrumb path_of middle summary])"
proof (cases "compaction_span render ms k b")
  case None
  show ?thesis
  proof (cases "compact_messages render path_of ms k b summary active = ms")
    case True
    then show ?thesis by (intro exI [of _ ms] exI [of _ "[]"]) simp
  next
    case False
    with None have c: "compact_messages render path_of ms k b summary active =
        leading_system ms @ objective_pin active @ drop (length (leading_system ms)) ms"
      by (simp add: compact_messages_def split: if_splits)
    show ?thesis
      by (intro exI [of _ "leading_system ms"] exI [of _ "[]"]
          exI [of _ "drop (length (leading_system ms)) ms"] exI [of _ "objective_pin active"])
        (simp add: c leading_system_split)
  qed
next
  case (Some p)
  obtain h t where p: "p = (h, t)" by (cases p)
  from compaction_span_Some [of render ms k b h t] Some p have le: "h \<le> t" by auto
  let ?m = "drop h (take t ms)"
  have "take h ms @ ?m @ drop t ms = ms"
    using le by (metis append.assoc append_take_drop_id min.absorb1 take_take)
  moreover have "compact_messages render path_of ms k b summary active =
      take h ms @ (objective_pin active @ filter (\<lambda>m. msg_role m = SystemRole) ?m
        @ [breadcrumb path_of ?m summary]) @ drop t ms"
    using Some p by (simp add: compact_messages_def Let_def)
  ultimately show ?thesis by metis
qed

section \<open>Properties\<close>

text \<open>
  \<open>validate_tool_exchange\<close> accepts a sequence exactly when every call of an
  assistant message is answered once by the tool messages directly after it and
  no other result stands anywhere.
\<close>

theorem tool_exchange_accepted:
  "validate_tool_exchange ms = None \<longleftrightarrow> well_paired ms"
  by (rule validate_iff)

definition demo_call :: "nat \<Rightarrow> unit message" where
  "demo_call i =
     \<lparr>msg_role = AssistantRole,
      msg_content = [ToolCallPart \<lparr>tc_id = [i], tc_name = lit ''read'', tc_arguments = ()\<rparr>],
      msg_origin = None, msg_route = None\<rparr>"

definition demo_result :: "nat \<Rightarrow> rstr \<Rightarrow> unit message" where
  "demo_result i t =
     \<lparr>msg_role = ToolRole,
      msg_content = [ToolResultPart \<lparr>tr_call_id = [i], tr_content = t, tr_is_error = False\<rparr>],
      msg_origin = None, msg_route = None\<rparr>"

definition demo_task :: "unit message" where
  "demo_task =
     \<lparr>msg_role = UserRole, msg_content = [TextPart (lit ''task'')],
      msg_origin = Some UserInputOrigin, msg_route = None\<rparr>"

definition demo_transcript :: "unit message list" where
  "demo_transcript =
     [demo_task, demo_call 1, demo_result 1 [], demo_call 2, demo_result 2 []]"

lemmas demo_defs = demo_transcript_def demo_task_def demo_call_def demo_result_def

lemma demo_valid: "validate_tool_exchange demo_transcript = None"
  by (simp add: demo_defs validate_tool_exchange_def open_calls_def answer_call_def
      close_exchange_def)

text \<open>
  A fold forgets no delivered background task and invents none, and it keeps
  every system row, in order.
\<close>

theorem fold_keeps_facts:
  "set (delivered_tasks (compact_messages render path_of ms keep budget summary active))
     = set (delivered_tasks ms) \<and>
   filter (\<lambda>m. msg_role m = SystemRole)
     (compact_messages render path_of ms keep budget summary active)
     = filter (\<lambda>m. msg_role m = SystemRole) ms"
proof -
  obtain pre middle post ins where c: "ms = pre @ middle @ post"
      "compact_messages render path_of ms keep budget summary active = pre @ ins @ post"
      "ins = [] \<and> middle = [] \<or> ins = objective_pin active \<and> middle = [] \<or>
       ins = objective_pin active @ filter (\<lambda>m. msg_role m = SystemRole) middle
             @ [breadcrumb path_of middle summary]"
    using compact_shape [of ms render path_of keep budget summary active] by blast
  have pin: "\<And>m. m \<in> set (objective_pin active) \<Longrightarrow> origin_tasks m = []"
      "filter (\<lambda>m. msg_role m = SystemRole) (objective_pin active) = []"
    using origin_pin [of _ active] by (fastforce simp: filter_empty_conv)+
  have crumb: "set (origin_tasks (breadcrumb path_of middle summary))
      = (\<Union>m \<in> set middle. set (origin_tasks m))"
      "msg_role (breadcrumb path_of middle summary) = UserRole"
    by (simp_all add: origin_breadcrumb set_delivered) (simp add: breadcrumb_def)
  show ?thesis
    using c(3) unfolding c(2) unfolding c(1) set_delivered
    by (auto simp: pin(2) crumb dest!: origin_pin)
qed

text \<open>
  C9. A fold loses nothing it must not lose.  Whatever the count window, the token budget, the
  briefing and the objective, a fold of a transcript in which every tool call is answered
  once, directly after it, and nothing else is answered, is such a transcript again, which
  the check accepts; every system row stands in it, in order; and the background tasks that
  count as delivered are the same as before, though the rows that delivered them may be gone.
\<close>

theorem fold_keeps_exchanges:
  assumes "well_paired ms"
  shows "let folded = compact_messages render path_of ms keep budget summary active
         in well_paired folded \<and> validate_tool_exchange folded = None \<and>
            filter (\<lambda>m. msg_role m = SystemRole) folded = filter (\<lambda>m. msg_role m = SystemRole) ms \<and>
            set (delivered_tasks folded) = set (delivered_tasks ms)"
  using compact_well_paired [OF assms, of render path_of keep budget summary active]
    fold_keeps_facts [of render path_of ms keep budget summary active]
  by (simp add: validate_iff Let_def)

theorem fold_keeps_exchanges_witness:
  "compact_messages (\<lambda>_. []) (\<lambda>_. None) demo_transcript 1 0 None None \<noteq> demo_transcript \<and>
   well_paired demo_transcript \<and>
   well_paired (compact_messages (\<lambda>_. []) (\<lambda>_. None) demo_transcript 1 0 None None)"
proof -
  have sp: "compaction_span (\<lambda>_. []) demo_transcript 1 0 = Some (1, 3)" by code_simp
  have mid: "filter (\<lambda>m. msg_role m = SystemRole) (drop 1 (take 3 demo_transcript)) = []"
    by code_simp
  have len: "length demo_transcript = 5" by (simp add: demo_transcript_def)
  have "length (compact_messages (\<lambda>_. []) (\<lambda>_. None) demo_transcript 1 0 None None) = 4"
    using mid by (simp add: compact_messages_def sp len objective_pin_def Let_def del: One_nat_def)
  with len have "compact_messages (\<lambda>_. []) (\<lambda>_. None) demo_transcript 1 0 None None \<noteq> demo_transcript"
    by fastforce
  moreover have w: "well_paired demo_transcript" using demo_valid by (simp add: validate_iff)
  ultimately show ?thesis
    using fold_keeps_exchanges [OF w, of "\<lambda>_. []" "\<lambda>_. None" 1 0 None None] by (simp add: Let_def)
qed

text \<open>
  The reduction of saved results rewrites the oldest of them and no more than
  it needs: the results it reduces are a prefix of the externalized ones, nothing
  else of the transcript changes, it stops at the first prefix that fits, and the
  exchange check answers as before.
\<close>

theorem shrink_reduces_oldest:
  "\<exists>done_cs rest. shrink_candidates ms = done_cs @ rest \<and>
     shrink_externalized_results ms target measure_ms =
       (reduce_at (set done_cs) ms, length done_cs) \<and>
     (rest = [] \<or> measure_ms (reduce_at (set done_cs) ms) \<le> target) \<and>
     (\<forall>n. 0 < n \<and> n < length done_cs \<longrightarrow>
        target < measure_ms (reduce_at (set (take n done_cs)) ms)) \<and>
     validate_tool_exchange (reduce_at (set done_cs) ms) = validate_tool_exchange ms"
proof -
  obtain dn rest where d: "shrink_candidates ms = dn @ rest"
      "shrink_externalized_results ms target measure_ms = (reduce_at (set dn) ms, length dn)"
      "rest = [] \<or> dn \<noteq> [] \<and> measure_ms (reduce_at (set dn) ms) \<le> target"
      "\<forall>a b. dn = a @ b \<and> a \<noteq> [] \<and> b \<noteq> [] \<longrightarrow> target < measure_ms (reduce_at (set a) ms)"
    using shrink_prefix [of ms target measure_ms] by blast
  have "target < measure_ms (reduce_at (set (take n dn)) ms)" if "0 < n" "n < length dn" for n
  proof -
    have "dn \<noteq> []" using that by auto
    then show ?thesis using that d(4) [rule_format, of "take n dn" "drop n dn"] by simp
  qed
  with d validate_same [OF reduce_at_same [of ms "set dn"]] show ?thesis by blast
qed

definition demo_saved :: "unit message list" where
  "demo_saved = [demo_task, demo_call 1, demo_result 1 (saved_prefix @ lit '' f]'')]"

theorem shrink_reduces_oldest_witness:
  "shrink_candidates demo_saved = [(2, 0)] \<and>
   (\<exists>done_cs rest. shrink_candidates demo_saved = done_cs @ rest \<and>
      shrink_externalized_results demo_saved 0 length =
        (reduce_at (set done_cs) demo_saved, length done_cs) \<and> rest = [])"
proof -
  have c: "shrink_candidates demo_saved = [(2, 0)]" by code_simp
  obtain dn rest where d: "shrink_candidates demo_saved = dn @ rest"
      "shrink_externalized_results demo_saved 0 length = (reduce_at (set dn) demo_saved, length dn)"
      "rest = [] \<or> length (reduce_at (set dn) demo_saved) \<le> 0"
    using shrink_reduces_oldest [of demo_saved 0 length] by blast
  then have "rest = []" by (simp add: demo_saved_def)
  with c d show ?thesis by blast
qed

end
