(* ===== verification/Model_Projection_Correct.thy ===== *)
theory Model_Projection_Correct
  imports Tool_Exchange_Correct
begin

text \<open>
  What a request projection carries: whose reasoning, of which turns, and what
  the requested retention arm and the exchange check see of it.
\<close>

section \<open>One row\<close>

text \<open>The channel value of a turn, without the counters.\<close>

definition channel ::
  "replay_contract \<Rightarrow> bool \<Rightarrow> turn_provenance \<Rightarrow> bool \<Rightarrow> 'j message \<Rightarrow> projected_reasoning" where
  "channel k has_tools pv requested m =
     (if has_reasoning_part m then
        (if \<not> (replays_captured k has_tools \<and> pv = SameRoute) then
           (if requires_empty_key k has_tools then RequiredEmpty else ReasoningOmitted)
         else if requested \<or> requires_exact k has_tools then
           CapturedReasoning (captured_text (msg_content m))
         else ReasoningOmitted)
      else if requires_empty_key k has_tools \<and> msg_role m = AssistantRole then RequiredEmpty
      else ReasoningOmitted)"

definition projected_row ::
  "replay_contract \<Rightarrow> bool \<Rightarrow> route_identity option \<Rightarrow> bool \<Rightarrow> 'j message \<Rightarrow> 'j projected_message" where
  "projected_row k has_tools route requested m =
     \<lparr>pm_role = msg_role m, pm_content = visible_parts (signed_blocks k) (msg_content m),
      pm_reasoning = channel k has_tools (turn_provenance_of (msg_route m) route) requested m,
      pm_origin = msg_origin m\<rparr>"

lemma project_reasoning_channel:
  "fst (project_reasoning k has_tools pv requested m s) = channel k has_tools pv requested m"
  by (simp add: project_reasoning_def channel_def Let_def)

lemma project_message_row:
  "fst (project_message k has_tools route requested m s) = projected_row k has_tools route requested m"
  using project_reasoning_channel [of k has_tools "turn_provenance_of (msg_route m) route" requested m]
  by (simp add: project_message_def projected_row_def Let_def case_prod_unfold)

lemma project_from_rows:
  "fst (project_from k has_tools route req i ms s) =
     map (\<lambda>(j, m). projected_row k has_tools route (j \<in> set req) m) (enumerate i ms)"
proof (induction ms arbitrary: i s)
  case (Cons m ms)
  show ?case
    using project_message_row [of k has_tools route "i \<in> set req" m s]
      Cons.IH [of "Suc i"]
    by (simp add: Let_def case_prod_unfold)
qed simp

lemma rp_messages_rows:
  "rp_messages (project_with_control_context ms tools k arm control route) =
     map (\<lambda>(j, m). projected_row k (tools \<noteq> []) route (j \<in> set (carried_positions arm ms)) m)
       (enumerate 0 ms)"
  using project_from_rows [of k "tools \<noteq> []" route "carried_positions arm ms" 0 ms
      "initial_summary arm k"]
  by (simp add: project_with_control_context_def case_prod_unfold Let_def)

lemma length_rp_messages [simp]:
  "length (rp_messages (project_with_control_context ms tools k arm control route)) = length ms"
  by (simp add: rp_messages_rows)

lemma rp_messages_nth:
  "i < length ms \<Longrightarrow>
     rp_messages (project_with_control_context ms tools k arm control route) ! i =
       projected_row k (tools \<noteq> []) route (i \<in> set (carried_positions arm ms)) (ms ! i)"
  by (simp add: rp_messages_rows nth_enumerate_eq)

section \<open>Visible blocks\<close>

lemma visible_parts_filter:
  "visible_parts signed ps =
     filter (\<lambda>p. \<not> is_plain_reasoning p \<and> (signed \<or> \<not> is_signed_reasoning p)) ps"
proof (induction ps)
  case (Cons p ps)
  then show ?case
    by (cases p; cases signed) (simp_all add: is_plain_reasoning_def is_signed_reasoning_def)
qed simp

lemma visible_ids [simp]:
  "call_ids (visible_parts signed ps) = call_ids ps"
  "result_ids (visible_parts signed ps) = result_ids ps"
  by (induction ps) (auto split: content_part.splits)

text \<open>A projected message read as a message again.\<close>

definition as_message :: "'j projected_message \<Rightarrow> 'j message" where
  "as_message p =
     \<lparr>msg_role = pm_role p, msg_content = pm_content p, msg_origin = pm_origin p, msg_route = None\<rparr>"

lemma projection_same_rows:
  "list_all2 same_exchange_row ms
     (map as_message (rp_messages (project_with_control_context ms tools k arm control route)))"
  by (rule list_all2_all_nthI)
    (auto simp: rp_messages_nth same_exchange_row_def as_message_def projected_row_def)

section \<open>Provenance\<close>

lemma same_route_refl_sym:
  "is_same_route a c \<longleftrightarrow> a = c"
  by (auto simp: is_same_route_def)

lemma turn_same_iff:
  "turn_provenance_of author current = SameRoute \<longleftrightarrow> (\<exists>a. author = Some a \<and> current = Some a)"
  by (auto simp: turn_provenance_of_def same_route_refl_sym split: option.splits)

section \<open>Contracts a route resolves to\<close>

definition exact_contract :: "replay_contract \<Rightarrow> bool" where
  "exact_contract k \<longleftrightarrow> (ct_scope k \<noteq> ScopeNever \<longrightarrow> ct_integrity k = RetainedExact)"

lemma exact_resolve: "exact_contract (resolve_contract p c)"
  by (simp add: exact_contract_def resolve_contract_def contract_none_def raw_field_def
      signed_block_def Let_def split: protocol_kind.splits)

lemma exact_for_route: "exact_contract (for_route p)"
  using exact_resolve [of "mp_protocol p" "mp_compatibility p"]
  by (simp add: for_route_def exact_contract_def Let_def split: option.splits)

lemma exact_requires: "exact_contract k \<Longrightarrow> replays_captured k has_tools \<Longrightarrow> requires_exact k has_tools"
  by (auto simp: exact_contract_def requires_exact_def replays_captured_def split: replay_scope.splits)

lemma channel_requested:
  "exact_contract k \<Longrightarrow> channel k has_tools pv r1 m = channel k has_tools pv r2 m"
  using exact_requires [of k has_tools] by (auto simp: channel_def)

section \<open>The counters\<close>

lemma carries_reasoning_iff: "carries_reasoning m \<longleftrightarrow> has_reasoning_part m \<or> has_signed_reasoning m"
  by (auto simp: carries_reasoning_def has_reasoning_part_def has_signed_reasoning_def
      list_ex_iff is_reasoning_part_def is_plain_reasoning_def is_signed_reasoning_def
      split: content_part.splits)

definition is_captured :: "projected_reasoning \<Rightarrow> bool" where
  "is_captured r = (case r of CapturedReasoning t \<Rightarrow> True | _ \<Rightarrow> False)"

definition signed_row :: "replay_contract \<Rightarrow> 'j message \<Rightarrow> bool" where
  "signed_row k m \<longleftrightarrow> signed_blocks k \<and> has_signed_reasoning m \<and> \<not> has_reasoning_part m"

lemma project_message_counts:
  fixes m :: "'j message" and s :: projection_summary
    and k has_tools and route :: "route_identity option" and requested
  defines "s' \<equiv> snd (project_message k has_tools route requested m s)"
  shows "ps_captured s' = ps_captured s + of_bool (carries_reasoning m)"
    and "ps_carried s' = ps_carried s + of_bool (is_captured (channel k has_tools
           (turn_provenance_of (msg_route m) route) requested m) \<or> signed_row k m)"
    and "ps_protected s' = ps_protected s + of_bool (\<not> requested \<and> (is_captured (channel k has_tools
           (turn_provenance_of (msg_route m) route) requested m) \<or> signed_row k m))"
    and "ps_foreign s' = ps_foreign s + of_bool (msg_role m = AssistantRole \<and>
           turn_provenance_of (msg_route m) route = ForeignRoute)"
    and "ps_unknown s' = ps_unknown s + of_bool (msg_role m = AssistantRole \<and>
           turn_provenance_of (msg_route m) route = UnknownRoute)"
    and "ps_empty s' = ps_empty s + of_bool (msg_role m = AssistantRole \<and>
           turn_provenance_of (msg_route m) route = SameRoute \<and> \<not> has_reasoning_part m)"
    and "ps_unproven s' = ps_unproven s + of_bool (has_reasoning_part m \<and>
           turn_provenance_of (msg_route m) route = UnknownRoute)"
  unfolding s'_def
  by (auto simp: project_message_def count_provenance_def project_reasoning_def count_signed_def
      channel_def is_captured_def signed_row_def carries_reasoning_iff Let_def
      split: turn_provenance.splits prod.splits)

definition channel_at ::
  "replay_contract \<Rightarrow> bool \<Rightarrow> route_identity option \<Rightarrow> nat list \<Rightarrow> nat \<times> 'j message
   \<Rightarrow> projected_reasoning" where
  "channel_at k has_tools route req im =
     channel k has_tools (turn_provenance_of (msg_route (snd im)) route) (fst im \<in> set req) (snd im)"

definition carried_row ::
  "replay_contract \<Rightarrow> bool \<Rightarrow> route_identity option \<Rightarrow> nat list \<Rightarrow> nat \<times> 'j message \<Rightarrow> bool" where
  "carried_row k has_tools route req im \<longleftrightarrow>
     is_captured (channel_at k has_tools route req im) \<or> signed_row k (snd im)"

definition authored ::
  "turn_provenance \<Rightarrow> route_identity option \<Rightarrow> 'j message \<Rightarrow> bool" where
  "authored pv route m \<longleftrightarrow>
     msg_role m = AssistantRole \<and> turn_provenance_of (msg_route m) route = pv"

lemma project_from_counts:
  "ps_captured (snd (project_from k ht route req i ms s)) =
     ps_captured s + length (filter carries_reasoning ms) \<and>
   ps_carried (snd (project_from k ht route req i ms s)) =
     ps_carried s + length (filter (carried_row k ht route req) (enumerate i ms)) \<and>
   ps_protected (snd (project_from k ht route req i ms s)) =
     ps_protected s + length (filter (\<lambda>im. fst im \<notin> set req \<and> carried_row k ht route req im)
                                (enumerate i ms)) \<and>
   ps_foreign (snd (project_from k ht route req i ms s)) =
     ps_foreign s + length (filter (authored ForeignRoute route) ms) \<and>
   ps_unknown (snd (project_from k ht route req i ms s)) =
     ps_unknown s + length (filter (authored UnknownRoute route) ms) \<and>
   ps_empty (snd (project_from k ht route req i ms s)) =
     ps_empty s + length (filter (\<lambda>m. authored SameRoute route m \<and> \<not> has_reasoning_part m) ms)"
proof (induction ms arbitrary: i s)
  case (Cons m ms)
  define s1 where "s1 = snd (project_message k ht route (i \<in> set req) m s)"
  have step: "snd (project_from k ht route req i (m # ms) s) =
      snd (project_from k ht route req (Suc i) ms s1)"
    by (simp add: s1_def Let_def case_prod_unfold)
  note c = project_message_counts [of k ht route "i \<in> set req" m s, folded s1_def]
  show ?case
    unfolding step using Cons.IH [of "Suc i" s1] c
    by (auto simp: carried_row_def channel_at_def authored_def of_bool_def)
qed simp

lemma rp_summary_from:
  "rp_summary (project_with_control_context ms tools k arm control route) =
     snd (project_from k (tools \<noteq> []) route (carried_positions arm ms) 0 ms (initial_summary arm k))"
  by (simp add: project_with_control_context_def case_prod_unfold Let_def)

lemma channel_captured:
  "channel k ht pv r m = CapturedReasoning t \<Longrightarrow>
     pv = SameRoute \<and> replays_captured k ht \<and> t = captured_text (msg_content m)"
  by (auto simp: channel_def split: if_splits)

section \<open>Properties\<close>

text \<open>
  C18. Reasoning on the channel is a turn's own captured text, and only of a turn
  the addressed route itself is recorded to have produced: foreign reasoning, and
  reasoning whose author nobody recorded, never reaches a provider on it.  The channel is
  plain reasoning; signed blocks are content and not on it.
\<close>

theorem reasoning_stays_on_its_route:
  assumes "(m, p) \<in> set (zip ms
             (rp_messages (project_with_control_context ms tools k arm control route)))"
    and "pm_reasoning p = CapturedReasoning t"
  shows "\<exists>r. msg_route m = Some r \<and> route = Some r \<and> t = captured_text (msg_content m)"
proof -
  from assms(1) obtain i where "i < length ms" "m = ms ! i"
      "p = rp_messages (project_with_control_context ms tools k arm control route) ! i"
    by (auto simp: set_zip)
  with assms(2) have "channel k (tools \<noteq> []) (turn_provenance_of (msg_route m) route)
      (i \<in> set (carried_positions arm ms)) m = CapturedReasoning t"
    by (simp add: rp_messages_nth projected_row_def)
  from channel_captured [OF this] show ?thesis by (auto simp: turn_same_iff)
qed

definition demo_route :: route_identity where
  "demo_route =
     \<lparr>ri_provider = lit ''p'', ri_model = lit ''m'', ri_api = Some OpenAiChat,
      ri_deployment = None\<rparr>"

definition demo_turn :: "route_identity option \<Rightarrow> unit content_part list \<Rightarrow> unit message" where
  "demo_turn r c =
     \<lparr>msg_role = AssistantRole, msg_content = c, msg_origin = None, msg_route = r\<rparr>"

definition demo_thought :: "unit message" where
  "demo_thought = demo_turn (Some demo_route) [ReasoningPart [7], TextPart [8]]"

definition demo_projected :: "unit request_projection" where
  "demo_projected =
     project_with_control_context [demo_thought] [] (raw_field ScopeAlways MissingOmit) RetainNone
       [] (Some demo_route)"

theorem reasoning_stays_on_its_route_witness:
  "\<exists>p. (demo_thought, p) \<in> set (zip [demo_thought] (rp_messages demo_projected)) \<and>
     pm_reasoning p = CapturedReasoning [7] \<and>
     (\<exists>r. msg_route demo_thought = Some r \<and> Some demo_route = Some r \<and>
          [7] = captured_text (msg_content demo_thought))"
proof -
  have "rp_messages demo_projected =
      [projected_row (raw_field ScopeAlways MissingOmit) False (Some demo_route) False demo_thought]"
    by (simp add: demo_projected_def rp_messages_rows carried_positions_def)
  moreover have "pm_reasoning (projected_row (raw_field ScopeAlways MissingOmit) False
      (Some demo_route) False demo_thought) = CapturedReasoning [7]"
    by code_simp
  ultimately obtain p where p: "(demo_thought, p) \<in> set (zip [demo_thought] (rp_messages demo_projected))"
      "pm_reasoning p = CapturedReasoning [7]" by simp
  with reasoning_stays_on_its_route [OF p(1) [unfolded demo_projected_def] p(2)]
  show ?thesis by blast
qed

text \<open>
  The projection changes nothing else: every block that is not reasoning is
  sent, in order, under its role and origin, so the exchange check answers for
  the projected request exactly as for the transcript.
\<close>

theorem projection_keeps_the_conversation:
  "map (\<lambda>p. (pm_role p, pm_origin p, filter (\<lambda>b. \<not> is_reasoning_part b) (pm_content p)))
     (rp_messages (project_with_control_context ms tools k arm control route))
     = map (\<lambda>m. (msg_role m, msg_origin m, filter (\<lambda>b. \<not> is_reasoning_part b) (msg_content m))) ms \<and>
   validate_tool_exchange (map as_message
     (rp_messages (project_with_control_context ms tools k arm control route)))
     = validate_tool_exchange ms"
proof -
  have row: "filter (\<lambda>b. \<not> is_reasoning_part b) (visible_parts signed ps)
      = filter (\<lambda>b. \<not> is_reasoning_part b) ps" for signed and ps :: "'a content_part list"
    by (auto simp: visible_parts_filter is_reasoning_part_def is_plain_reasoning_def
        is_signed_reasoning_def intro!: filter_cong split: content_part.splits)
  have "map (\<lambda>p. (pm_role p, pm_origin p, filter (\<lambda>b. \<not> is_reasoning_part b) (pm_content p)))
     (rp_messages (project_with_control_context ms tools k arm control route))
     = map (\<lambda>m. (msg_role m, msg_origin m, filter (\<lambda>b. \<not> is_reasoning_part b) (msg_content m))) ms"
    by (rule nth_equalityI) (auto simp: rp_messages_nth projected_row_def row)
  with validate_same [OF projection_same_rows] show ?thesis by blast
qed

text \<open>
  On a route the configuration resolves, the requested retention arm cannot
  change what the provider sees: the projected messages are those of the arm that
  keeps everything.
\<close>

theorem retention_arm_is_inert:
  "rp_messages (project_with_control_context ms tools (for_route p) arm control route) =
   rp_messages (project_with_control_context ms tools (for_route p) RetainAll control route)"
  by (rule nth_equalityI)
    (auto simp: rp_messages_nth projected_row_def intro: channel_requested exact_for_route)

text \<open>
  The summary counts what happened: the turns that captured reasoning, those
  whose reasoning is carried, those the arm would have dropped, and the assistant
  turns of another route, of no recorded route, and of this route without plain
  reasoning.
\<close>

theorem projection_summary_counts:
  "let req = carried_positions arm ms;
       s = rp_summary (project_with_control_context ms tools k arm control route)
   in ps_captured s = length (filter carries_reasoning ms) \<and>
      ps_carried s = length (filter (carried_row k (tools \<noteq> []) route req) (enumerate 0 ms)) \<and>
      ps_protected s = length (filter (\<lambda>im. fst im \<notin> set req \<and>
                         carried_row k (tools \<noteq> []) route req im) (enumerate 0 ms)) \<and>
      ps_foreign s = length (filter (authored ForeignRoute route) ms) \<and>
      ps_unknown s = length (filter (authored UnknownRoute route) ms) \<and>
      ps_empty s = length (filter (\<lambda>m. authored SameRoute route m \<and> \<not> has_reasoning_part m) ms)"
  using project_from_counts [of k "tools \<noteq> []" route "carried_positions arm ms" 0 ms
      "initial_summary arm k"]
  by (simp add: rp_summary_from initial_summary_def Let_def)

text \<open>A turn of this route whose only reasoning is signed is counted as captured and
  as a turn that captured none; and a signed block of another route is sent.\<close>

definition demo_signed :: "unit message" where
  "demo_signed = demo_turn (Some demo_route) [SignedReasoning [7] [9]]"

lemma signed_turn_counted_twice:
  "ps_captured (rp_summary (project_with_control_context [demo_signed] [] signed_block RetainAll []
     (Some demo_route))) = 1 \<and>
   ps_empty (rp_summary (project_with_control_context [demo_signed] [] signed_block RetainAll []
     (Some demo_route))) = 1"
  by code_simp

lemma foreign_signed_block_sent:
  "ps_foreign (rp_summary (project_with_control_context [demo_signed] [] signed_block RetainNone []
     (Some (demo_route\<lparr>ri_model := lit ''other''\<rparr>)))) = 1 \<and>
   map pm_content (rp_messages (project_with_control_context [demo_signed] [] signed_block
     RetainNone [] (Some (demo_route\<lparr>ri_model := lit ''other''\<rparr>))))
     = [[SignedReasoning [7] [9]]]"
  by code_simp

end
