(* ===== verification/Model_Accounting_Correct.thy ===== *)
theory Model_Accounting_Correct
  imports Model_Projection_Correct
begin

text \<open>
  Context accounting against the estimator it shares with the fold decision: the
  slices add up, the total is within the rounding of the slices of the estimate
  of the same request, and the shown state is the fold decision.
\<close>

section \<open>A divided meter\<close>

text \<open>A meter whose readings lose at most \<open>slack\<close> when two accumulations are read
  together instead of apart.\<close>

locale divided_meter =
  fixes meter :: "'b \<Rightarrow> nat" and combine :: "'b \<Rightarrow> 'b \<Rightarrow> 'b" and zero :: 'b and slack :: nat
  assumes meter_zero: "meter zero = 0"
    and meter_low: "meter a + meter b \<le> meter (combine a b)"
    and meter_high: "meter (combine a b) \<le> meter a + meter b + slack"
    and combine_zero: "combine a zero = a"
begin

lemma parts_low: "sum_list (map meter as) \<le> meter (foldr combine as zero)"
proof (induction as)
  case (Cons a as)
  then show ?case using meter_low [of a "foldr combine as zero"] by simp
qed (simp add: meter_zero)

lemma parts_high:
  "as \<noteq> [] \<Longrightarrow> meter (foldr combine as zero) \<le> sum_list (map meter as) + slack * (length as - 1)"
proof (induction as)
  case (Cons a as)
  show ?case
  proof (cases "as = []")
    case True
    then show ?thesis by (simp add: combine_zero)
  next
    case False
    then obtain k where k: "length as = Suc k" by (cases as) auto
    have "meter (foldr combine (a # as) zero) \<le> meter a + meter (foldr combine as zero) + slack"
      using meter_high [of a "foldr combine as zero"] by simp
    also have "\<dots> \<le> meter a + (sum_list (map meter as) + slack * (length as - 1)) + slack"
      using Cons.IH [OF False] by simp
    also have "\<dots> = sum_list (map meter (a # as)) + slack * (length (a # as) - 1)"
      by (simp add: k)
    finally show ?thesis .
  qed
qed simp

end

definition te_plus :: "token_estimate \<Rightarrow> token_estimate \<Rightarrow> token_estimate" where
  "te_plus a b =
     \<lparr>te_ascii_text = te_ascii_text a + te_ascii_text b,
      te_ascii_tool = te_ascii_tool a + te_ascii_tool b,
      te_wide = te_wide a + te_wide b, te_flat = te_flat a + te_flat b\<rparr>"

lemma tokens_plus_low: "tokens a + tokens b \<le> tokens (te_plus a b)"
proof -
  have "m div k + n div k \<le> (m + n) div k" for m n k :: nat
    using div_add1_eq [of m n k] by linarith
  from this [of "te_ascii_text a" 4 "te_ascii_text b"]
    this [of "te_ascii_tool a * 2" 5 "te_ascii_tool b * 2"] this [of "te_wide a" 3 "te_wide b"]
  show ?thesis by (simp add: tokens_def te_plus_def add_mult_distrib)
qed

lemma tokens_plus_high: "tokens (te_plus a b) \<le> tokens a + tokens b + 3"
proof -
  have d: "(m + n) div k \<le> m div k + n div k + 1" if "0 < k" for m n k :: nat
  proof -
    have "m mod k + n mod k < 2 * k"
      using mod_less_divisor [OF that, of m] mod_less_divisor [OF that, of n] by linarith
    then have "(m mod k + n mod k) div k < 2" by (rule less_mult_imp_div_less)
    moreover have "(m + n) div k = m div k + n div k + (m mod k + n mod k) div k"
      by (rule div_add1_eq)
    ultimately show ?thesis by linarith
  qed
  from d [of 4 "te_ascii_text a" "te_ascii_text b"]
    d [of 5 "te_ascii_tool a * 2" "te_ascii_tool b * 2"] d [of 3 "te_wide a" "te_wide b"]
  show ?thesis by (simp add: tokens_def te_plus_def add_mult_distrib)
qed

interpretation estimator: divided_meter tokens te_plus te_zero 3
  by unfold_locales
    (simp_all add: tokens_plus_low tokens_plus_high, simp_all add: tokens_def te_zero_def te_plus_def)

section \<open>Additions are sums\<close>

lemma te_plus_ac:
  "te_plus (te_plus a b) c = te_plus a (te_plus b c)" "te_plus a b = te_plus b a"
  "te_plus a (te_plus b c) = te_plus b (te_plus a c)"
  by (simp_all add: te_plus_def)

lemma te_plus_zero [simp]: "te_plus a te_zero = a" "te_plus te_zero a = a"
  by (simp_all add: te_plus_def te_zero_def)

text \<open>An addition that adds the same buckets to any accumulator.\<close>

definition additive :: "(token_estimate \<Rightarrow> token_estimate) \<Rightarrow> bool" where
  "additive f \<longleftrightarrow> (\<forall>e. f e = te_plus (f te_zero) e)"

lemma additive_apply: "additive f \<Longrightarrow> f e = te_plus (f te_zero) e"
  unfolding additive_def by blast

lemma additive_plus: "additive f \<Longrightarrow> f (te_plus a b) = te_plus (f a) b"
  by (metis additive_apply te_plus_ac(1))

lemma additive_plus_right: "additive f \<Longrightarrow> f (te_plus a b) = te_plus a (f b)"
  by (metis additive_plus te_plus_ac(2))

lemma additive_comp: "additive f \<Longrightarrow> additive g \<Longrightarrow> additive (\<lambda>e. f (g e))"
  unfolding additive_def by (metis te_plus_ac(1))

lemma additive_id: "additive (\<lambda>e. e)"
  by (simp add: additive_def)

lemma additive_text: "additive (add_text t)"
  by (simp add: additive_def add_text_def split_bytes_def te_plus_def te_zero_def)

lemma additive_tool: "additive (add_tool t)"
  by (simp add: additive_def add_tool_def split_bytes_def te_plus_def te_zero_def)

lemma additive_image: "additive add_image"
  by (simp add: additive_def add_image_def te_plus_def te_zero_def)

lemma additive_part: "additive (add_part render p)"
  by (cases p) (simp_all add: add_part_def [abs_def] additive_text additive_tool additive_image
      additive_comp [OF additive_text additive_text] additive_comp [OF additive_tool additive_tool])

lemma additive_fold:
  assumes "\<And>x. additive (f x)"
  shows "additive (fold f xs)"
proof (induction xs)
  case Nil
  then show ?case by (simp add: additive_def)
next
  case (Cons x xs)
  show ?case using additive_comp [OF Cons.IH assms [of x]] by (simp add: comp_def)
qed

lemma additive_parts: "additive (add_parts render ps)"
  unfolding add_parts_def [abs_def] by (rule additive_fold) (rule additive_part)

lemma additive_definition: "additive (add_tool_definition render d)"
  unfolding add_tool_definition_def [abs_def]
  by (rule additive_comp [OF additive_text additive_comp [OF additive_text additive_text]])

lemma additive_commute: "additive f \<Longrightarrow> additive g \<Longrightarrow> f (g e) = g (f e)"
  by (metis additive_apply additive_plus_right)

section \<open>The slices of a request\<close>

definition fixed_slices :: "slices \<Rightarrow> slice list" where
  "fixed_slices z =
     [ss_system z, ss_user z, ss_assistant z, ss_reasoning z, ss_tool_calls z, ss_compaction z,
      ss_other z]"

definition all_slices :: "slices \<Rightarrow> slice list" where
  "all_slices z = fixed_slices z @ map snd (ss_results z)"

definition sum_slices :: "slice list \<Rightarrow> token_estimate" where
  "sum_slices ss = foldr te_plus (map sl_tokens ss) te_zero"

lemma sum_slices_simps [simp]:
  "sum_slices [] = te_zero"
  "sum_slices (s # ss) = te_plus (sl_tokens s) (sum_slices ss)"
  by (simp_all add: sum_slices_def)

lemma sum_slices_append: "sum_slices (a @ b) = te_plus (sum_slices a) (sum_slices b)"
  by (induction a) (simp_all add: te_plus_ac(1))

lemma sum_results_add:
  "sum_slices (map snd (add_result name content rs)) = add_tool content (sum_slices (map snd rs))"
proof (induction name content rs rule: add_result.induct)
  case (1 name content)
  then show ?case by (simp add: slice_call_def)
next
  case (2 name content n s rs)
  then show ?case
    by (auto simp: slice_call_def additive_plus [OF additive_tool, symmetric]
        additive_plus_right [OF additive_tool, symmetric])
qed

lemma sl_tokens_add [simp]:
  "sl_tokens (slice_add f s) = f (sl_tokens s)" "sl_tokens (slice_call f s) = f (sl_tokens s)"
  by (simp_all add: slice_add_def slice_call_def)

text \<open>An addition to one slice is an addition to the sum.\<close>

lemma sum_slice_update:
  assumes "additive f"
  shows "sum_slices (all_slices (z\<lparr>ss_system := slice_add f (ss_system z)\<rparr>)) = f (sum_slices (all_slices z))"
    and "sum_slices (all_slices (z\<lparr>ss_user := slice_add f (ss_user z)\<rparr>)) = f (sum_slices (all_slices z))"
    and "sum_slices (all_slices (z\<lparr>ss_assistant := slice_add f (ss_assistant z)\<rparr>)) = f (sum_slices (all_slices z))"
    and "sum_slices (all_slices (z\<lparr>ss_reasoning := slice_add f (ss_reasoning z)\<rparr>)) = f (sum_slices (all_slices z))"
    and "sum_slices (all_slices (z\<lparr>ss_tool_calls := slice_call f (ss_tool_calls z)\<rparr>)) = f (sum_slices (all_slices z))"
    and "sum_slices (all_slices (z\<lparr>ss_compaction := slice_add f (ss_compaction z)\<rparr>)) = f (sum_slices (all_slices z))"
    and "sum_slices (all_slices (z\<lparr>ss_other := slice_add f (ss_other z)\<rparr>)) = f (sum_slices (all_slices z))"
  by (simp_all add: all_slices_def fixed_slices_def additive_plus [OF assms]
      additive_plus_right [OF assms])
    (simp_all add: additive_plus [OF assms, symmetric] additive_plus_right [OF assms, symmetric])

lemma sum_result_update:
  "sum_slices (all_slices (z\<lparr>ss_results := add_result n c (ss_results z)\<rparr>)) =
     add_tool c (sum_slices (all_slices z))"
  by (simp add: all_slices_def fixed_slices_def sum_slices_append sum_results_add
      additive_plus_right [OF additive_tool])

lemma account_part_sum:
  assumes "\<not> is_plain_reasoning p"
  shows "sum_slices (all_slices (account_part render names r p z)) =
           add_part render p (sum_slices (all_slices z))"
proof (cases p)
  case (TextPart t)
  then show ?thesis
    by (simp add: account_part_def add_text_part_def add_part_def
        sum_slice_update [OF additive_text] split: role.splits)
next
  case (ReasoningPart t)
  with assms show ?thesis by (simp add: is_plain_reasoning_def)
next
  case (SignedReasoning t s)
  then show ?thesis
    by (simp add: account_part_def sum_slice_update(4) [OF additive_part])
next
  case (RedactedReasoning d)
  then show ?thesis
    by (simp add: account_part_def sum_slice_update(4) [OF additive_part])
next
  case (ImagePart i)
  then show ?thesis
    by (simp add: account_part_def add_part_def sum_slice_update(7) [OF additive_image])
next
  case (ToolCallPart c)
  then show ?thesis
    by (simp add: account_part_def add_part_def
        sum_slice_update(5) [OF additive_comp [OF additive_tool additive_tool]])
next
  case (ToolResultPart t)
  then show ?thesis by (simp add: account_part_def add_part_def sum_result_update)
qed

lemma account_parts_sum:
  "list_all (\<lambda>p. \<not> is_plain_reasoning p) ps \<Longrightarrow>
     sum_slices (all_slices (fold (account_part render names r) ps z)) =
       add_parts render ps (sum_slices (all_slices z))"
  by (induction ps arbitrary: z) (simp_all add: account_part_sum add_parts_def)

definition no_plain :: "'j projected_message \<Rightarrow> bool" where
  "no_plain m = list_all (\<lambda>p. \<not> is_plain_reasoning p) (pm_content m)"

lemma account_message_sum:
  assumes "no_plain m"
  shows "sum_slices (all_slices (account_message render names m z)) =
           add_projected render m (sum_slices (all_slices z))"
proof (cases "reasoning_as_wire (pm_reasoning m)")
  case None
  then show ?thesis
    using assms by (simp add: account_message_def add_projected_def no_plain_def account_parts_sum Let_def)
next
  case (Some t)
  then show ?thesis
    using assms additive_commute [OF additive_parts additive_text]
    by (simp add: account_message_def add_projected_def no_plain_def account_parts_sum Let_def
        sum_slice_update(4) [OF additive_text])
qed

lemma account_messages_sum:
  "list_all no_plain ms \<Longrightarrow>
     sum_slices (all_slices (fold (account_message render names) ms z)) =
       fold (add_projected render) ms (sum_slices (all_slices z))"
  by (induction ms arbitrary: z) (simp_all add: account_message_sum)

lemma initial_sum: "sum_slices (all_slices (initial_slices c)) = add_text (control_text c) te_zero"
  by (simp add: all_slices_def fixed_slices_def initial_slices_def slice_new_def)

lemma account_slices_sum:
  "list_all no_plain (rp_messages p) \<Longrightarrow>
     sum_slices (all_slices (account_slices render p)) =
       fold (add_projected render) (rp_messages p) (add_text (control_text (rp_control p)) te_zero)"
  by (simp add: account_slices_def account_messages_sum initial_sum)

lemma definitions_slice_tokens:
  "tokens (sl_tokens (definitions_slice render ds)) = estimate_tool_definitions render ds"
proof -
  have "sl_tokens (fold (\<lambda>d. slice_add (add_tool_definition render d)) ds s) =
      fold (add_tool_definition render) ds (sl_tokens s)" for s
    by (induction ds arbitrary: s) simp_all
  then show ?thesis
    by (simp add: definitions_slice_def estimate_tool_definitions_def slice_new_def)
qed

section \<open>The breakdown adds up\<close>

lemma total_insert [simp]: "total_tokens (insert_cat c cs) = cat_tokens c + total_tokens cs"
  by (induction cs) (simp_all add: total_tokens_def)

lemma total_sort [simp]: "total_tokens (sort_cats cs) = total_tokens cs"
  by (induction cs) (simp_all add: sort_cats_def total_tokens_def [of "[]"],
      simp_all add: total_tokens_def)

lemma total_nonzero [simp]: "total_tokens (nonzero_cats cs) = total_tokens cs"
  by (induction cs) (simp_all add: total_tokens_def nonzero_cats_def)

lemma tool_results_tokens:
  "cat_tokens (tool_results_category z) =
     sum_list (map (\<lambda>s. tokens (sl_tokens s)) (map snd (ss_results z)))"
  by (simp add: tool_results_category_def Let_def, simp add: total_tokens_def comp_def
      case_prod_unfold slice_finish_def)

lemma used_tokens_slices:
  "total_tokens (top_categories render ds z) =
     sum_list (map (\<lambda>s. tokens (sl_tokens s)) (all_slices z)) + estimate_tool_definitions render ds"
  by (simp add: top_categories_def, simp add: total_tokens_def messages_category_def
      message_children_def tool_results_tokens slice_finish_def definitions_slice_tokens
      all_slices_def fixed_slices_def)

text \<open>A category is the sum of its shown children, at every level that has some.\<close>

fun adds_up :: "context_category \<Rightarrow> bool" where
  "adds_up (Category n l t c cs) = ((cs = [] \<or> t = total_tokens cs) \<and> list_all adds_up cs)"

lemma adds_up_slice: "adds_up (slice_finish s)"
  by (simp add: slice_finish_def total_tokens_def)

lemma set_insert_cat [simp]: "set (insert_cat c cs) = insert c (set cs)"
  by (induction cs) auto

lemma set_sort_cats [simp]: "set (sort_cats cs) = set cs"
  by (induction cs) (auto simp: sort_cats_def)

lemma adds_up_results: "adds_up (tool_results_category z)"
  by (auto simp: tool_results_category_def Let_def list_all_iff adds_up_slice)

lemma set_nonzero_cats: "set (nonzero_cats cs) \<subseteq> set cs"
  by (auto simp: nonzero_cats_def)

lemma adds_up_nonzero: "list_all adds_up cs \<Longrightarrow> list_all adds_up (nonzero_cats cs)"
  using set_nonzero_cats [of cs] by (auto simp: list_all_iff)

lemma adds_up_children: "list_all adds_up (message_children z)"
  by (simp add: message_children_def adds_up_slice adds_up_results)

lemma adds_up_messages: "adds_up (messages_category z)"
  by (simp add: messages_category_def adds_up_nonzero adds_up_children)

lemma adds_up_sort: "list_all adds_up (sort_cats cs) = list_all adds_up cs"
  by (simp add: list_all_iff)

lemma adds_up_top: "list_all adds_up (top_categories render ds z)"
  unfolding top_categories_def adds_up_sort
  by (rule adds_up_nonzero) (simp add: adds_up_slice adds_up_messages)

section \<open>The breakdown and the estimate\<close>

lemma no_plain_row: "no_plain (projected_row k has_tools route requested m)"
  by (auto simp: no_plain_def projected_row_def visible_parts_filter list_all_iff)

lemma projected_no_plain:
  "list_all no_plain (rp_messages (project_with_control_context ms tools k arm control route))"
  by (simp add: list_all_length rp_messages_nth no_plain_row)

lemma estimated_tokens_slices:
  assumes "list_all no_plain (rp_messages p)"
  shows "estimated_tokens render p =
           tokens (sum_slices (all_slices (account_slices render p)))
           + estimate_tool_definitions render (rp_tools p)"
  by (simp add: estimated_tokens_def account_slices_sum [OF assms])

lemma sum_slices_bounds:
  fixes z :: slices
  shows "sum_list (map (\<lambda>s. tokens (sl_tokens s)) (all_slices z)) \<le> tokens (sum_slices (all_slices z))"
    and "tokens (sum_slices (all_slices z)) \<le>
           sum_list (map (\<lambda>s. tokens (sl_tokens s)) (all_slices z)) + 3 * (6 + length (ss_results z))"
proof -
  have m: "map tokens (map sl_tokens (all_slices z)) = map (\<lambda>s. tokens (sl_tokens s)) (all_slices z)"
    by simp
  have ne: "map sl_tokens (all_slices z) \<noteq> []" and
    len: "length (map sl_tokens (all_slices z)) - 1 = 6 + length (ss_results z)"
    by (simp_all add: all_slices_def fixed_slices_def)
  show "sum_list (map (\<lambda>s. tokens (sl_tokens s)) (all_slices z)) \<le> tokens (sum_slices (all_slices z))"
    using estimator.parts_low [of "map sl_tokens (all_slices z)"] unfolding m sum_slices_def .
  show "tokens (sum_slices (all_slices z)) \<le>
          sum_list (map (\<lambda>s. tokens (sl_tokens s)) (all_slices z)) + 3 * (6 + length (ss_results z))"
    using estimator.parts_high [OF ne] unfolding m len sum_slices_def .
qed

text \<open>
  The breakdown a user sees adds up, at every level, to the total it shows; and
  that total is the estimate the fold decision reads, up to rounding: never above
  it, and below it by at most three tokens for each of the six further slices and
  each tool with results.
\<close>

theorem accounting_within_rounding:
  fixes render :: "'j \<Rightarrow> rstr" and ms :: "'j message list" and tools :: "'j tool_definition list"
  shows "let p = project_with_control_context ms tools k arm control route;
             a = compute_accounting render model p window compact_at folded
         in list_all adds_up (ca_categories a) \<and>
            ca_used a = total_tokens (ca_categories a) \<and>
            ca_used a \<le> estimated_tokens render p \<and>
            estimated_tokens render p \<le>
              ca_used a + 3 * (6 + length (ss_results (account_slices render p)))"
proof -
  define p where "p = project_with_control_context ms tools k arm control route"
  have u: "ca_used (compute_accounting render model p window compact_at folded) =
      sum_list (map (\<lambda>s. tokens (sl_tokens s)) (all_slices (account_slices render p)))
      + estimate_tool_definitions render (rp_tools p)"
    by (simp add: compute_accounting_def Let_def used_tokens_slices)
  have e: "estimated_tokens render p =
      tokens (sum_slices (all_slices (account_slices render p)))
      + estimate_tool_definitions render (rp_tools p)"
    unfolding p_def by (rule estimated_tokens_slices [OF projected_no_plain])
  have "list_all adds_up (ca_categories (compute_accounting render model p window compact_at folded))"
    by (simp add: compute_accounting_def Let_def adds_up_top)
  moreover have "ca_used (compute_accounting render model p window compact_at folded) =
      total_tokens (ca_categories (compute_accounting render model p window compact_at folded))"
    by (simp add: compute_accounting_def Let_def)
  ultimately show ?thesis
    unfolding p_def [symmetric] Let_def u e
    using sum_slices_bounds [of "account_slices render p"] by (intro conjI) simp_all
qed

text \<open>The two numbers do differ: three characters are no token in any slice of their
  own, but one token together.\<close>

definition spoken :: "role \<Rightarrow> unit message" where
  "spoken r =
     \<lparr>msg_role = r, msg_content = [TextPart [97, 98, 99]], msg_origin = None, msg_route = None\<rparr>"

definition spoken_projection :: "unit request_projection" where
  "spoken_projection =
     project_with_control_context [spoken SystemRole, spoken AssistantRole] [] contract_none RetainAll
       [] None"

lemma spoken_rows:
  "rp_messages spoken_projection =
     map (\<lambda>r. \<lparr>pm_role = r, pm_content = [TextPart [97, 98, 99]], pm_reasoning = ReasoningOmitted,
               pm_origin = None\<rparr>) [SystemRole, AssistantRole]"
  by (simp add: spoken_projection_def rp_messages_rows projected_row_def spoken_def channel_def
      has_reasoning_part_def is_plain_reasoning_def requires_empty_key_def contract_none_def)

lemma accounting_below_estimate:
  "ca_used (compute_accounting (\<lambda>_. []) model spoken_projection None None None) = 0 \<and>
   estimated_tokens (\<lambda>_. []) spoken_projection = 1"
proof -
  have c: "rp_control spoken_projection = []" "rp_tools spoken_projection = []"
    by (simp_all add: spoken_projection_def project_with_control_context_def case_prod_unfold Let_def)
  have "account_slices (\<lambda>_. []) spoken_projection =
      (initial_slices [])\<lparr>
        ss_system := slice_add (add_text [97, 98, 99]) (ss_system (initial_slices [])),
        ss_assistant := slice_add (add_text [97, 98, 99]) (ss_assistant (initial_slices []))\<rparr>"
    by (simp add: account_slices_def spoken_rows c account_message_def reasoning_as_wire_def
        account_part_def add_text_part_def)
  then show ?thesis
    by (simp add: compute_accounting_def Let_def used_tokens_slices all_slices_def fixed_slices_def
        initial_slices_def slice_add_def slice_new_def estimated_tokens_def spoken_rows c
        add_projected_def add_parts_def add_part_def reasoning_as_wire_def estimate_tool_definitions_def
        add_text_def split_bytes_def ascii_bytes_def te_zero_def tokens_def control_text_def
        render_blocks_def utf8_len_def)
qed

section \<open>Thresholds\<close>

lemma or_max_some [simp]: "or_max (Some n) = n"
  by (simp add: or_max_def)

lemma threshold_resolved:
  "0 < ml_context_window l \<Longrightarrow>
     cp_threshold (resolve_context_policy keep l reservation headroom soft) =
       (let c = input_capacity (ml_context_window l)
                  (if 0 < reservation then reservation else ml_max_output_tokens l) headroom
        in pressure_threshold c (max 1 (min soft 100)) (quality_bound (ml_reliable_context l) c (ml_context_window l)))"
  by (simp add: resolve_context_policy_def Let_def)

lemma share_within:
  fixes c soft :: nat
  assumes "soft \<le> 100"
  shows "c * soft div 100 \<le> c"
  using assms div_le_mono [of "c * soft" "c * 100" 100] by simp

text \<open>
  Folding is on exactly for a model with a declared window.  The soft threshold
  is then at least one token, within the input capacity whenever there is one, and
  within the quality boundary whenever one is declared.
\<close>

theorem threshold_within_capacity:
  fixes l :: model_limits
  shows "let p = resolve_context_policy keep l reservation headroom soft
         in (folding_enabled p \<longleftrightarrow> 0 < ml_context_window l) \<and>
            (case hard_capacity p of
               None \<Rightarrow> True
             | Some c \<Rightarrow> 1 \<le> cp_threshold p \<and> cp_threshold p \<le> c \<and> c \<le> ml_context_window l) \<and>
            cp_threshold p \<le>
              (if ml_reliable_context l = 0 then ml_context_window l else ml_reliable_context l)"
proof (cases "ml_context_window l = 0")
  case True
  then show ?thesis
    by (simp add: resolve_context_policy_def folding_enabled_def hard_capacity_def Let_def)
next
  case False
  let ?p = "resolve_context_policy keep l reservation headroom soft"
  define c where "c = input_capacity (ml_context_window l)
              (if 0 < reservation then reservation else ml_max_output_tokens l) headroom"
  define q where "q = quality_bound (ml_reliable_context l) c (ml_context_window l)"
  have t: "cp_threshold ?p = pressure_threshold c (max 1 (min soft 100)) q"
    using False by (simp add: threshold_resolved Let_def c_def q_def)
  have c_le: "c \<le> ml_context_window l" by (simp add: c_def input_capacity_def)
  have share: "c * max 1 (min soft 100) div 100 \<le> c" by (rule share_within) simp
  have pos: "1 \<le> pressure_threshold c (max 1 (min soft 100)) q"
    by (simp add: pressure_threshold_def)
  have within: "pressure_threshold c (max 1 (min soft 100)) q \<le> c" if "0 < c"
    using that share by (simp add: pressure_threshold_def min_le_iff_disj)
  have quality: "pressure_threshold c (max 1 (min soft 100)) q \<le> max 1 q"
    by (simp add: pressure_threshold_def min_le_iff_disj)
  have q_le: "max 1 q \<le> (if ml_reliable_context l = 0 then ml_context_window l else ml_reliable_context l)"
    using False c_le by (simp add: q_def quality_bound_def)
  have cap: "hard_capacity ?p = (if 0 < c then Some c else None)"
    using False by (simp add: hard_capacity_def resolve_context_policy_def Let_def c_def)
  from False pos within c_le order_trans [OF quality q_le] show ?thesis
    by (simp add: Let_def folding_enabled_def cap t)
qed

text \<open>The threshold may be the capacity itself, which the field's comment rules out.\<close>

lemma threshold_at_capacity:
  "let p = resolve_context_policy 6
        \<lparr>ml_context_window = 1000, ml_reliable_context = 0, ml_max_output_tokens = 200,
         ml_max_tool_schema_bytes = 0, ml_max_parallel_tool_calls = 1,
         ml_max_tool_output_bytes = None\<rparr> 0 0 100
   in hard_capacity p = Some 800 \<and> cp_threshold p = 800"
  by (simp add: resolve_context_policy_def hard_capacity_def input_capacity_def pressure_threshold_def
      quality_bound_def Let_def)

end
