(* ===== verification/Model_Route_Correct.thy ===== *)
theory Model_Route_Correct
  imports Model_Projection "HOL-Library.Sublist"
begin

text \<open>
  What a route's declarations come to: the replay contract of a checked route,
  the thinking levels a selector offers, the effort a request resolves to, the
  identity of a deployment, and the authority a transcript row can have.
\<close>

section \<open>The contract of a route\<close>

lemma family_required:
  "required_reasoning_replay_for p = Some r \<Longrightarrow>
     mp_protocol p = OpenAiChat \<and>
     (\<exists>f. r = family_replay f (rc_preserved_thinking (mp_reasoning p) = Some True))"
  by (auto simp: required_reasoning_replay_for_def required_replay_for_route_with_def split: if_splits)

lemma family_missing:
  "rq_missing (family_replay f b) = MissingEmptyString \<Longrightarrow>
     rq_enforcement (family_replay f b) = EnforceRequired"
  by (cases f) (simp_all add: family_replay_def)

lemma family_default:
  "rq_enforcement (family_replay f b) = EnforceDefault \<Longrightarrow>
     rq_scope (family_replay f b) = ScopeWhenToolsPresent"
  by (cases f) (auto simp: family_replay_def split: if_splits)

lemma family_never: "rq_scope (family_replay f b) \<noteq> ScopeNever"
  by (cases f) (auto simp: family_replay_def)

lemma resolve_chat:
  "ct_scope (resolve_contract OpenAiChat c) =
     (case cc_replay_scope c of Some s \<Rightarrow> s | None \<Rightarrow> ScopeNever)"
  "ct_missing (resolve_contract OpenAiChat c) =
     (if cc_key_required c = Some True then MissingEmptyString else MissingOmit)"
  by (auto simp: resolve_contract_def contract_none_def raw_field_def Let_def split: option.splits)

lemma check_route_family:
  assumes "check_route p = None" and "required_reasoning_replay_for p = Some r"
    and "rq_enforcement r = EnforceRequired"
  shows "weaker_than (cc_replay_scope (mp_compatibility p)) (rq_scope r) = None"
    and "rq_missing r = MissingEmptyString \<Longrightarrow> cc_key_required (mp_compatibility p) \<noteq> Some False"
  using assms
  by (auto simp: check_route_def check_route_detail_def split: if_splits option.splits)

lemma not_weaker: "weaker_than (Some d) s = None \<Longrightarrow> replay_rank s \<le> replay_rank d"
  by (simp add: weaker_than_def split: if_splits)

lemma route_scope_declared:
  assumes r: "r = family_replay f b"
    and w: "rq_enforcement r = EnforceRequired \<Longrightarrow> weaker_than (Some d) (rq_scope r) = None"
  shows "route_scope r (Some d) = d"
proof (cases "rq_enforcement r")
  case EnforceRequired
  with w have "replay_rank (rq_scope r) \<le> replay_rank d" by (simp add: not_weaker)
  with family_never [of f b] EnforceRequired r show ?thesis
    by (cases d; cases "rq_scope r") (simp_all add: route_scope_def replay_rank_def)
next
  case EnforceDefault
  with family_default [of f b] r show ?thesis by (cases d) (simp_all add: route_scope_def)
qed

text \<open>
  A route that passes \<open>check_route\<close> gets exactly the replay scope and the key
  requirement it declared, whatever its wire family.
\<close>

theorem checked_route_keeps_declarations:
  assumes "check_route p = None" and "mp_protocol p = OpenAiChat"
  shows "(case cc_replay_scope (mp_compatibility p) of
            Some d \<Rightarrow> ct_scope (for_route p) = d | None \<Rightarrow> True) \<and>
         (case cc_key_required (mp_compatibility p) of
            Some b \<Rightarrow> ct_missing (for_route p) = (if b then MissingEmptyString else MissingOmit)
          | None \<Rightarrow> True)"
proof (cases "required_reasoning_replay_for p")
  case None
  then show ?thesis
    using assms(2) by (simp add: for_route_def Let_def resolve_chat split: option.splits)
next
  case (Some r)
  from family_required [OF Some] obtain f where
    f: "r = family_replay f (rc_preserved_thinking (mp_reasoning p) = Some True)" by blast
  let ?c = "mp_compatibility p"
  have scope: "route_scope r (Some d) = d" if "cc_replay_scope ?c = Some d" for d
    using that check_route_family(1) [OF assms(1) Some] by (intro route_scope_declared [OF f]) auto
  have key: "cc_key_required ?c \<noteq> Some False" if "rq_missing r = MissingEmptyString"
    using that check_route_family(2) [OF assms(1) Some] family_missing f by blast
  show ?thesis
  proof (cases "route_scope r (cc_replay_scope ?c) = ScopeNever")
    case True
    then have "for_route p = resolve_contract OpenAiChat ?c"
      using Some assms(2) by (simp add: for_route_def Let_def)
    then show ?thesis by (simp add: resolve_chat split: option.splits)
  next
    case False
    then have "ct_scope (for_route p) = route_scope r (cc_replay_scope ?c)"
      "ct_missing (for_route p) =
         (if rq_missing r = MissingEmptyString \<or> cc_key_required ?c = Some True
          then MissingEmptyString else MissingOmit)"
      using Some by (simp_all add: for_route_def Let_def)
    with scope key show ?thesis by (cases "rq_missing r") (auto split: option.splits)
  qed
qed

text \<open>
  No declaration weakens what a wire family requires: with or without the
  check, a required rule's scope, its empty key and verbatim replay are in the
  contract the route resolves to.
\<close>

theorem required_replay_is_kept:
  assumes "required_reasoning_replay_for p = Some r" and "rq_enforcement r = EnforceRequired"
  shows "replay_rank (rq_scope r) \<le> replay_rank (ct_scope (for_route p)) \<and>
         (rq_missing r = MissingEmptyString \<longrightarrow> ct_missing (for_route p) = MissingEmptyString) \<and>
         ct_integrity (for_route p) = RetainedExact"
proof -
  from family_required [OF assms(1)] obtain f b where f: "r = family_replay f b" by blast
  let ?d = "cc_replay_scope (mp_compatibility p)"
  have le: "replay_rank (rq_scope r) \<le> replay_rank (route_scope r ?d)"
    using assms(2) by (auto simp: route_scope_def replay_rank_def split: option.splits replay_scope.splits)
  have "route_scope r ?d \<noteq> ScopeNever"
    using assms(2) family_never [of f b] f
    by (auto simp: route_scope_def split: option.splits replay_scope.splits)
  with le show ?thesis using assms by (simp add: for_route_def Let_def)
qed

definition demo_profile :: "string \<Rightarrow> replay_scope option \<Rightarrow> model_profile" where
  "demo_profile wire d =
     \<lparr>mp_id = lit ''x'', mp_provider = lit ''p'', mp_model_id = lit wire, mp_protocol = OpenAiChat,
      mp_limits = \<lparr>ml_context_window = 0, ml_reliable_context = 0, ml_max_output_tokens = 0,
                   ml_max_tool_schema_bytes = 0, ml_max_parallel_tool_calls = 0,
                   ml_max_tool_output_bytes = None\<rparr>,
      mp_reasoning = \<lparr>rc_style = StyleNone, rc_supported_efforts = [], rc_default_effort = None,
                      rc_preserved_thinking = None, rc_forced = False\<rparr>,
      mp_compatibility = default_compatibility\<lparr>cc_replay_scope := d\<rparr>, mp_thinking = None\<rparr>"

theorem checked_route_keeps_declarations_witness:
  "check_route (demo_profile ''org/GLM-5'' (Some ScopeNever)) = None \<and>
   ct_scope (for_route (demo_profile ''org/GLM-5'' (Some ScopeNever))) = ScopeNever"
proof -
  have "wire_family (lit ''org/GLM-5'') = Some Glm" by code_simp
  then have "check_route (demo_profile ''org/GLM-5'' (Some ScopeNever)) = None"
    by (simp add: check_route_def check_route_detail_def demo_profile_def
        accepts_thinking_field_def takes_thinking_field_def required_reasoning_replay_for_def
        required_replay_for_route_with_def family_replay_def)
  with checked_route_keeps_declarations [OF this] show ?thesis
    by (simp add: demo_profile_def)
qed

theorem required_replay_is_kept_witness:
  "replay_rank ScopeWhenToolsPresent
     \<le> replay_rank (ct_scope (for_route (demo_profile ''deepseek-x'' (Some ScopeNever))))"
proof -
  let ?p = "demo_profile ''deepseek-x'' (Some ScopeNever)"
  let ?r = "family_replay DeepSeek False"
  have "required_reasoning_replay_for ?p = Some ?r" by code_simp
  moreover have "rq_enforcement ?r = EnforceRequired" by (simp add: family_replay_def)
  ultimately have "replay_rank (rq_scope ?r) \<le> replay_rank (ct_scope (for_route ?p))"
    using required_replay_is_kept by blast
  moreover have "rq_scope ?r = ScopeWhenToolsPresent" by (simp add: family_replay_def)
  ultimately show ?thesis by (simp only:)
qed

section \<open>Thinking levels\<close>

lemma effort_rank_inj: "inj effort_rank"
  by (rule injI) (auto simp: effort_rank_def split: reasoning_effort.splits)

lemma effort_rank_eq [simp]: "effort_rank a = effort_rank b \<longleftrightarrow> a = b"
  using effort_rank_inj by (auto simp: inj_def)

lemma all_efforts_set [simp]: "e \<in> set all_efforts"
  by (cases e) (simp_all add: all_efforts_def)

lemma remdups_adj_strict:
  "sorted (map effort_rank es) \<Longrightarrow> sorted_wrt (<) (map effort_rank (remdups_adj es))"
proof (induction es rule: remdups_adj.induct)
  case (3 x y xs)
  have "effort_rank x < effort_rank z" if "z \<in> set (y # xs)" "x \<noteq> y" for z
  proof -
    have "effort_rank x \<le> effort_rank y" "effort_rank y \<le> effort_rank z"
      using 3(3) that by auto
    with that(2) show ?thesis by (metis effort_rank_eq le_neq_implies_less order_le_less_trans)
  qed
  with 3 show ?case by auto
qed auto

lemma ordered_efforts_strict: "sorted_wrt (<) (map effort_rank (ordered_efforts es))"
  unfolding ordered_efforts_def by (rule remdups_adj_strict) simp

lemma ordered_efforts_set [simp]: "set (ordered_efforts es) = set es"
  by (simp add: ordered_efforts_def)

lemma strict_unique:
  "sorted_wrt (<) (map effort_rank xs) \<Longrightarrow> sorted_wrt (<) (map effort_rank ys) \<Longrightarrow>
     set xs = set ys \<Longrightarrow> xs = ys"
  by (metis effort_rank_inj inj_map_eq_map list.set_map strict_sorted_equal)

lemma ordered_efforts_filter: "ordered_efforts es = filter (\<lambda>e. e \<in> set es) all_efforts"
proof (rule strict_unique [OF ordered_efforts_strict])
  show "sorted_wrt (<) (map effort_rank (filter (\<lambda>e. e \<in> set es) all_efforts))"
    by (simp add: all_efforts_def effort_rank_def)
qed auto

lemma ordered_efforts_Nil: "ordered_efforts es = [] \<longleftrightarrow> es = []"
  by (metis ordered_efforts_set set_empty)

text \<open>The properties of a selector, for the strongest-last list of native levels.\<close>

definition selector_ok :: "thinking_capabilities \<Rightarrow> bool" where
  "selector_ok t \<longleftrightarrow>
     (\<forall>l. accepts_level t l \<longleftrightarrow> project_level t l \<noteq> None) \<and>
     set (th_visible t) \<subseteq> set (th_accepted t) \<and>
     distinct (map (project_level t) (th_visible t)) \<and>
     (\<forall>l \<in> set (th_accepted t). \<exists>v \<in> set (th_visible t). project_level t v = project_level t l)"

definition adjustable_caps :: "bool \<Rightarrow> reasoning_effort list \<Rightarrow> thinking_capabilities" where
  "adjustable_caps disable supported =
     (let start = (if disable then [ThinkAuto, ThinkOff] else [ThinkAuto])
      in \<lparr>th_access = ThinkingAdjustable,
          th_accepted = push_new ThinkMax (fold push_new (map canonical_for supported) start),
          th_visible = push_new ThinkMax (fold push_new (visible_levels supported) start),
          th_supports_disable = disable, th_supported = supported\<rparr>)"

lemma capabilities_cases:
  "(th_access (capabilities_of r c) \<noteq> ThinkingAdjustable \<and>
      th_accepted (capabilities_of r c) = [] \<and> th_visible (capabilities_of r c) = []) \<or>
   (\<exists>d es. es \<noteq> [] \<and> capabilities_of r c = adjustable_caps d (ordered_efforts es))"
proof (cases "r \<and> rc_style c \<noteq> StyleNone \<and> (rc_supported_efforts c \<noteq> [] \<or> rc_default_effort c \<noteq> None)")
  case True
  then have "supported_or_default c \<noteq> []" by (auto simp: supported_or_default_def)
  moreover have "capabilities_of r c = adjustable_caps (rc_style c = ThinkingFlag \<and> \<not> rc_forced c)
      (ordered_efforts (supported_or_default c))"
    using True by (simp add: capabilities_of_def adjustable_caps_def Let_def)
  ultimately show ?thesis by blast
next
  case False
  then show ?thesis by (auto simp: capabilities_of_def)
qed

definition selector_check :: "thinking_capabilities \<Rightarrow> bool" where
  "selector_check t \<longleftrightarrow>
     (\<forall>l \<in> set all_levels. accepts_level t l = (project_level t l \<noteq> None)) \<and>
     (\<forall>v \<in> set (th_visible t). accepts_level t v) \<and>
     distinct (map (project_level t) (th_visible t)) \<and>
     (\<forall>l \<in> set (th_accepted t).
        project_level t l \<in> set (map (project_level t) (th_visible t)))"

lemma all_levels_set [simp]: "l \<in> set all_levels"
  by (cases l) (simp_all add: all_levels_def)

lemma selector_check_ok: "selector_check t \<Longrightarrow> selector_ok t"
  by (fastforce simp: selector_check_def selector_ok_def accepts_level_def)

lemma selector_check_all:
  "\<forall>es \<in> set (subseqs all_efforts). es = [] \<or>
     selector_check (adjustable_caps False es) \<and> selector_check (adjustable_caps True es)"
  by code_simp

lemma ordered_efforts_subseq: "ordered_efforts es \<in> set (subseqs all_efforts)"
  unfolding ordered_efforts_filter by (simp add: set_subseqs_eq)

text \<open>
  On every model, a level is accepted exactly when it projects to a request;
  the levels a selector shows are accepted, make pairwise different requests, and
  cover every accepted level.
\<close>

theorem thinking_selector_offers_each_request_once:
  "selector_ok (capabilities_of reasoning config)"
proof -
  consider (fixed) "th_access (capabilities_of reasoning config) \<noteq> ThinkingAdjustable"
      "th_accepted (capabilities_of reasoning config) = []"
      "th_visible (capabilities_of reasoning config) = []"
    | (adjustable) d es where "es \<noteq> []"
      "capabilities_of reasoning config = adjustable_caps d (ordered_efforts es)"
    using capabilities_cases [of reasoning config] by blast
  then show ?thesis
  proof cases
    case fixed
    then show ?thesis
      by (simp add: selector_ok_def accepts_level_def project_level_def is_adjustable_def)
  next
    case adjustable
    then have "selector_check (adjustable_caps d (ordered_efforts es))"
      using selector_check_all ordered_efforts_subseq [of es] ordered_efforts_Nil [of es]
      by (cases d) auto
    with adjustable(2) show ?thesis by (simp add: selector_check_ok)
  qed
qed

section \<open>Effort\<close>

lemma find_sorted:
  "sorted_wrt (<) (map effort_rank es) \<Longrightarrow> find (\<lambda>e. n \<le> effort_rank e) es = Some x \<Longrightarrow>
     x \<in> set es \<and> n \<le> effort_rank x \<and>
     (\<forall>y \<in> set es. n \<le> effort_rank y \<longrightarrow> effort_rank x \<le> effort_rank y)"
  by (induction es) (fastforce split: if_splits)+

lemma last_sorted:
  "sorted_wrt (<) (map effort_rank es) \<Longrightarrow> es \<noteq> [] \<Longrightarrow>
     \<forall>y \<in> set es. effort_rank y \<le> effort_rank (last es)"
  by (induction es) (auto intro: less_imp_le split: if_splits)

text \<open>
  A requested effort becomes the weakest supported effort that is at least as
  strong, or the strongest supported one when none is; it is lost only on a model
  that supports nothing.
\<close>

theorem effort_is_nearest:
  "(case normalize_reasoning_effort requested supported of
      None \<Rightarrow> supported = []
    | Some e \<Rightarrow>
        e \<in> set supported \<and>
        (if \<exists>f \<in> set supported. effort_rank requested \<le> effort_rank f
         then effort_rank requested \<le> effort_rank e \<and>
              Min {effort_rank f | f. f \<in> set supported \<and> effort_rank requested \<le> effort_rank f}
                = effort_rank e
         else Max (effort_rank ` set supported) = effort_rank e))"
proof (cases "supported = []")
  case True
  then show ?thesis by (simp add: normalize_reasoning_effort_def)
next
  case False
  let ?o = "ordered_efforts supported"
  have strict: "sorted_wrt (<) (map effort_rank ?o)" by (rule ordered_efforts_strict)
  show ?thesis
  proof (cases "find (\<lambda>e. effort_rank requested \<le> effort_rank e) ?o")
    case None
    then have "\<not> (\<exists>f \<in> set supported. effort_rank requested \<le> effort_rank f)"
      by (auto simp: find_None_iff)
    moreover have mem: "last ?o \<in> set supported"
      using False last_in_set [of ?o] by (simp add: ordered_efforts_Nil)
    moreover have "Max (effort_rank ` set supported) = effort_rank (last ?o)"
      using last_sorted [OF strict] False mem
      by (intro Max_eqI) (auto simp: ordered_efforts_Nil)
    ultimately show ?thesis
      using None False
      by (simp add: normalize_reasoning_effort_def last_opt_def ordered_efforts_Nil)
  next
    case (Some e)
    note f = find_sorted [OF strict Some]
    have "Min {effort_rank f | f. f \<in> set supported \<and> effort_rank requested \<le> effort_rank f}
        = effort_rank e"
      using f by (intro Min_eqI) auto
    then show ?thesis using Some f False by (auto simp: normalize_reasoning_effort_def)
  qed
qed

section \<open>Deployments\<close>

lemma hd_split_char: "hd (split_char c s) = takeWhile (\<lambda>d. d \<noteq> c) s"
  by (induction s) (auto simp: split_char_def split: list.splits)

lemma find_sub_first:
  "c \<notin> set a \<Longrightarrow> find_sub (c # p) (a @ (c # p) @ b) = Some (length a)"
  by (induction a) (auto simp: starts_with_iff)

lemma split_once_str_first:
  "c \<notin> set a \<Longrightarrow> split_once_str (c # p) (a @ (c # p) @ b) = Some (a, b)"
  unfolding split_once_str_def find_sub_first by simp

lemma rsplit_once_last:
  "c \<notin> set b \<Longrightarrow> rsplit_once c (a @ c # b) = Some (a, b)"
  using split_once_at [of c "rev b" "rev a"] by (simp add: rsplit_once_def)

lemma route_split_none: "split_once c s = None \<longleftrightarrow> c \<notin> set s"
  by (induction s) auto

lemma rsplit_host_prefix:
  "(case rsplit_once c (u @ c # x) of Some (v, h) \<Rightarrow> h | None \<Rightarrow> u @ c # x) =
   (case rsplit_once c x of Some (v, h) \<Rightarrow> h | None \<Rightarrow> x)"
proof (cases "c \<in> set x")
  case True
  then obtain y z where x: "x = y @ c # z" "c \<notin> set z"
    by (metis split_list_last)
  have "u @ c # x = (u @ c # y) @ c # z" by (simp add: x)
  with rsplit_once_last [OF x(2), of "u @ c # y"] rsplit_once_last [OF x(2), of y] x(1)
  show ?thesis by simp
next
  case False
  then have "rsplit_once c x = None" by (simp add: rsplit_once_def route_split_none)
  with rsplit_once_last [OF False, of u] show ?thesis by simp
qed

lemma trim_end_visible:
  "a \<noteq> [] \<Longrightarrow> \<not> is_whitespace (last a) \<Longrightarrow> trim_end (a @ b) = a @ trim_end b"
  by (cases a rule: rev_cases)
    (auto simp: trim_end_def trim_end_matches_def dropWhile_append)

lemma trim_url:
  assumes "a \<noteq> []" and "\<not> is_whitespace (hd a)" and "\<not> is_whitespace (last a)"
  shows "trim (a @ b) = a @ trim_end b"
proof -
  have "trim_start (a @ b) = a @ b"
    using assms(1,2) by (cases a) (auto simp: trim_start_def trim_start_matches_def)
  then show ?thesis using trim_end_visible [OF assms(1,3)] by (simp add: trim_def)
qed

text \<open>The identity of \<open>scheme://rest\<close>, after the trim and the cuts.\<close>

definition identity_of :: "rstr \<Rightarrow> rstr \<Rightarrow> rstr" where
  "identity_of scheme rest =
     (let authority0 = takeWhile (\<lambda>c. c \<noteq> 47) rest
      in scheme @ lit ''://''
         @ normalize_authority
             (case rsplit_once 64 authority0 of Some (u, host) \<Rightarrow> host | None \<Rightarrow> authority0) scheme
         @ trim_end_matches (\<lambda>c. c = 47) (dropWhile (\<lambda>c. c \<noteq> 47) rest))"

definition cut_url :: "rstr \<Rightarrow> rstr" where
  "cut_url s = takeWhile (\<lambda>c. c \<noteq> 63) (takeWhile (\<lambda>c. c \<noteq> 35) (trim_end s))"

definition plain_scheme :: "rstr \<Rightarrow> bool" where
  "plain_scheme s \<longleftrightarrow> s \<noteq> [] \<and> list_all is_ascii_alphanumeric s"

lemma takeWhile_prefix: "\<forall>c \<in> set a. P c \<Longrightarrow> takeWhile P (a @ b) = a @ takeWhile P b"
  by (induction a) auto

lemma plain_scheme_chars:
  "plain_scheme s \<Longrightarrow> c \<in> set s \<Longrightarrow> c \<noteq> 58 \<and> c \<noteq> 35 \<and> c \<noteq> 63 \<and> c \<noteq> 47 \<and> \<not> is_whitespace c"
  by (auto simp: plain_scheme_def list_all_iff is_ascii_alphanumeric_def is_ascii_digit_def
      is_ascii_upper_def is_ascii_lower_def is_whitespace_def)

lemma deployment_identity_url:
  assumes s: "plain_scheme scheme"
  shows "deployment_identity (scheme @ lit ''://'' @ rest) =
           identity_of (to_ascii_lowercase scheme) (cut_url rest)"
proof -
  let ?a = "scheme @ lit ''://''"
  have sep: "lit ''://'' = [58, 47, 47]" by (simp add: lit_def)
  have ne: "scheme \<noteq> []" using s by (simp add: plain_scheme_def)
  have "hd ?a \<in> set scheme" using ne by simp
  then have hd: "\<not> is_whitespace (hd ?a)" using plain_scheme_chars [OF s] by blast
  have last: "\<not> is_whitespace (last ?a)" by (simp add: sep is_whitespace_def)
  have t: "trim (?a @ rest) = ?a @ trim_end rest"
    using trim_url [of ?a rest] hd last ne by simp
  have no: "\<forall>c \<in> set ?a. c \<noteq> 35" "\<forall>c \<in> set ?a. c \<noteq> 63"
    using plain_scheme_chars [OF s] by (auto simp: sep)
  have cut: "takeWhile (\<lambda>c. c \<noteq> 63) (takeWhile (\<lambda>c. c \<noteq> 35) (?a @ trim_end rest)) = ?a @ cut_url rest"
    unfolding takeWhile_prefix [OF no(1)] takeWhile_prefix [OF no(2)] cut_url_def ..
  have "58 \<notin> set scheme" using plain_scheme_chars [OF s] by blast
  then have once: "split_once_str (lit ''://'') (?a @ cut_url rest) = Some (scheme, cut_url rest)"
    using split_once_str_first [of 58 scheme "[47, 47]" "cut_url rest"] by (simp add: sep)
  have low: "to_ascii_lowercase scheme \<noteq> []" using ne by (simp add: to_ascii_lowercase_def)
  have "deployment_identity (?a @ rest) = identity_of (to_ascii_lowercase scheme) (cut_url rest)"
    unfolding deployment_identity_def Let_def hd_split_char t cut once
    using low by (simp add: identity_of_def Let_def)
  then show ?thesis by simp
qed

lemma cut_url_prefix:
  assumes "\<forall>c \<in> set u. c \<noteq> 35 \<and> c \<noteq> 63"
  shows "cut_url (u @ 64 # rest) = u @ 64 # cut_url rest"
proof -
  have "trim_end ((u @ [64]) @ rest) = (u @ [64]) @ trim_end rest"
    by (rule trim_end_visible) (simp_all add: is_whitespace_def)
  moreover have "\<forall>c \<in> set (u @ [64]). c \<noteq> 35" "\<forall>c \<in> set (u @ [64]). c \<noteq> (63 :: nat)"
    using assms by auto
  ultimately have "cut_url ((u @ [64]) @ rest) = (u @ [64]) @ cut_url rest"
    unfolding cut_url_def by (simp only: takeWhile_prefix)
  then show ?thesis by simp
qed

lemma identity_of_userinfo:
  assumes "47 \<notin> set u"
  shows "identity_of scheme (u @ 64 # rest) = identity_of scheme rest"
proof -
  have all: "\<forall>c \<in> set (u @ [64]). c \<noteq> 47" using assms by auto
  have "takeWhile (\<lambda>c. c \<noteq> 47) (u @ 64 # rest) = u @ 64 # takeWhile (\<lambda>c. c \<noteq> 47) rest"
    using takeWhile_prefix [OF all, of rest] by simp
  moreover have "dropWhile (\<lambda>c. c \<noteq> 47) (u @ 64 # rest) = dropWhile (\<lambda>c. c \<noteq> 47) rest"
    using dropWhile_append2 [of "u @ [64]" "\<lambda>c. c \<noteq> 47" rest] all by simp
  ultimately show ?thesis by (simp add: identity_of_def rsplit_host_prefix Let_def)
qed

text \<open>
  The identity recorded for a deployment does not depend on the credentials,
  the query or the fragment its URL carries.
\<close>

theorem deployment_identity_drops_secrets:
  assumes "plain_scheme scheme" and "\<forall>c \<in> set user. c \<notin> {47, 35, 63}"
    and "c \<in> {35, 63}" and "\<forall>d \<in> set rest. d \<notin> {35, 63}"
    and "rest \<noteq> [] \<and> \<not> is_whitespace (last rest)"
  shows "deployment_identity (scheme @ lit ''://'' @ user @ [64] @ rest @ [c] @ extra) =
         deployment_identity (scheme @ lit ''://'' @ rest)"
proof -
  have tail: "cut_url (rest @ c # extra) = rest"
  proof -
    have cw: "\<not> is_whitespace c" using assms(3) by (auto simp: is_whitespace_def)
    have "trim_end ((rest @ [c]) @ extra) = (rest @ [c]) @ trim_end extra"
      using cw by (intro trim_end_visible) auto
    moreover have "takeWhile (\<lambda>x. x \<noteq> 35) (rest @ y) = rest @ takeWhile (\<lambda>x. x \<noteq> 35) y"
        "takeWhile (\<lambda>x. x \<noteq> 63) (rest @ y) = rest @ takeWhile (\<lambda>x. x \<noteq> 63) y" for y
      using assms(4) by (intro takeWhile_prefix; auto)+
    ultimately show ?thesis using assms(3) by (auto simp: cut_url_def)
  qed
  have self: "cut_url rest = rest"
  proof -
    have "trim_end rest = rest" using assms(5) trim_end_visible [of rest "[]"]
      by (simp add: trim_end_def trim_end_matches_def)
    moreover have "takeWhile (\<lambda>x. x \<noteq> 35) rest = rest" "takeWhile (\<lambda>x. x \<noteq> 63) rest = rest"
      using assms(4) by (auto simp: takeWhile_eq_all_conv)
    ultimately show ?thesis unfolding cut_url_def by (simp only:)
  qed
  have "47 \<notin> set user" "\<forall>c \<in> set user. c \<noteq> 35 \<and> c \<noteq> 63" using assms(2) by auto
  then show ?thesis
    using deployment_identity_url [OF assms(1)] cut_url_prefix [of user "rest @ c # extra"]
      identity_of_userinfo [of user] tail self
    by simp
qed

theorem deployment_identity_drops_secrets_witness:
  "deployment_identity (lit ''https'' @ lit ''://'' @ lit ''u:key'' @ [64] @ lit ''h/v1'' @ [63] @ lit ''t=1'')
     = deployment_identity (lit ''https'' @ lit ''://'' @ lit ''h/v1'')"
proof -
  have 1: "plain_scheme (lit ''https'')" by code_simp
  have 2: "\<forall>c \<in> set (lit ''u:key''). c \<notin> {47, 35, 63}" by code_simp
  have 3: "\<forall>d \<in> set (lit ''h/v1''). d \<notin> {35, 63}" by code_simp
  have 4: "lit ''h/v1'' \<noteq> [] \<and> \<not> is_whitespace (last (lit ''h/v1''))" by code_simp
  show ?thesis using deployment_identity_drops_secrets [OF 1 2 _ 3 4, of 63 "lit ''t=1''"] by simp
qed

section \<open>Authority of a row\<close>

lemma authorities_from_at:
  "ta \<in> set (authorities_from names i ms) \<Longrightarrow>
     \<exists>j < length ms. ta_index ta = i + j \<and> ta \<in> set (message_authorities names (i + j) (ms ! j))"
proof (induction ms arbitrary: i)
  case (Cons m ms)
  then consider "ta \<in> set (message_authorities names i m)"
    | "ta \<in> set (authorities_from names (Suc i) ms)" by auto
  then show ?case
  proof cases
    case 1
    have res: "ta_index t = i" if "t \<in> set (result_authorities names i ps)" for t and ps :: "'a content_part list"
      using that by (induction names i ps rule: result_authorities.induct) auto
    from 1 have "ta_index ta = i"
      by (auto simp: message_authorities_def Let_def dest: res split: role.splits if_splits)
    with 1 show ?thesis by (intro exI [of _ 0]) simp
  next
    case 2
    from Cons.IH [OF this] obtain j where "j < length ms" "ta_index ta = Suc i + j"
        "ta \<in> set (message_authorities names (Suc i + j) (ms ! j))" by blast
    then show ?thesis by (intro exI [of _ "Suc j"]) simp
  qed
qed simp

lemma result_authority:
  "ta \<in> set (result_authorities names i ps) \<Longrightarrow> ta_authority ta = ExternalData"
  by (induction names i ps rule: result_authorities.induct) auto

lemma origin_authority:
  "is_instruction (oc_authority (classify_transcript_origin t)) \<Longrightarrow>
     t = Some UserInputOrigin \<and> oc_authority (classify_transcript_origin t) = UserIntent \<or>
     (\<exists>r. t = Some (ProtocolRepairOrigin r)) \<or> t = Some (RuntimeNoticeOrigin SideQuestion)"
  by (auto simp: classify_transcript_origin_def classify_runtime_notice_def notice_authority_def
      is_instruction_def instruction_precedence_def
      split: option.splits transcript_origin.splits runtime_notice_kind.splits)

text \<open>
  A transcript row is an instruction only by its recorded origin: a user row
  the harness recorded as typed input, as a protocol repair or as a side question.
  No text, no stored role and no tool result makes one, and only recorded input
  is user intent.
\<close>

theorem instructions_are_recorded:
  assumes "ta \<in> set (transcript_authority_of p)" and "is_instruction (ta_authority ta)"
  shows "ta_index ta < length (rp_messages p) \<and>
         pm_role (rp_messages p ! ta_index ta) = UserRole \<and>
         (case pm_origin (rp_messages p ! ta_index ta) of
            Some UserInputOrigin \<Rightarrow> ta_authority ta = UserIntent
          | Some (ProtocolRepairOrigin r) \<Rightarrow> ta_authority ta = CoreContract
          | Some (RuntimeNoticeOrigin n) \<Rightarrow> n = SideQuestion \<and> ta_authority ta = CoreContract
          | _ \<Rightarrow> False)"
proof -
  from assms(1) authorities_from_at [of ta "call_names (rp_messages p)" 0 "rp_messages p"]
  obtain j where j: "j < length (rp_messages p)" "ta_index ta = j"
      "ta \<in> set (message_authorities (call_names (rp_messages p)) j (rp_messages p ! j))"
    by (auto simp: transcript_authority_of_def)
  let ?m = "rp_messages p ! j"
  have user: "pm_role ?m = UserRole \<and> ta_authority ta = oc_authority (user_origin_class ?m)"
    using j(3) assms(2)
    by (auto simp: message_authorities_def Let_def legacy_system_authority_def is_instruction_def
        instruction_precedence_def dest: result_authority split: role.splits if_splits)
  then have "is_instruction (oc_authority (user_origin_class ?m))" using assms(2) by simp
  then have "user_origin_class ?m = classify_transcript_origin (pm_origin ?m)"
    and o: "is_instruction (oc_authority (classify_transcript_origin (pm_origin ?m)))"
    by (auto simp: user_origin_class_def classify_transcript_origin_def is_instruction_def
        instruction_precedence_def split: if_splits)
  with origin_authority [OF o] user j(1,2) show ?thesis
    by (auto simp: classify_transcript_origin_def classify_runtime_notice_def notice_authority_def)
qed

definition demo_input :: "unit request_projection" where
  "demo_input =
     project_request
       [\<lparr>msg_role = UserRole, msg_content = [TextPart [72]], msg_origin = Some UserInputOrigin,
         msg_route = None\<rparr>] [] contract_none RetainAll"

theorem instructions_are_recorded_witness:
  "\<exists>ta. transcript_authority_of demo_input = [ta] \<and> is_instruction (ta_authority ta) \<and>
     pm_role (rp_messages demo_input ! ta_index ta) = UserRole"
proof -
  let ?ta = "\<lparr>ta_index = 0, ta_source = UserMessageSource, ta_authority = UserIntent,
              ta_lifecycle = TranscriptLifecycle, ta_tokens = 0, ta_mismatch = False\<rparr>"
  have e: "transcript_authority_of demo_input = [?ta]" by code_simp
  have i: "is_instruction (ta_authority ?ta)" by code_simp
  have "?ta \<in> set (transcript_authority_of demo_input)" using e by simp
  from instructions_are_recorded [OF this i] e i show ?thesis by blast
qed

end
