(* ===== verification/Model_Failure.thy ===== *)
theory Model_Failure
  imports Prelude
begin

text \<open>
  Normalized model errors (\<open>error.rs\<close> of \<open>leveler-model\<close>): what went wrong, what
  the transport could prove about delivery, and what follows for a retry.
  The cut of a provider's text is \<open>truncate_head_bytes\<close> of \<open>leveler-core\<close>.
\<close>

section \<open>The error\<close>

datatype model_error_kind =
    KAuth | KInvalidRequest | KRateLimit | KProviderUnavailable | KTransport
  | KStreamInterrupted | KDecode | KTruncated | KContentFiltered | KTimeout | KCancelled
  | KConversationProtocol | KOther

datatype transport_fault = ConnectionRefused

record stream_progress =
  pg_text :: bool
  pg_reasoning :: bool
  pg_tool_args :: bool

definition progress_any :: "stream_progress \<Rightarrow> bool" where
  "progress_any p \<longleftrightarrow> pg_text p \<or> pg_reasoning p \<or> pg_tool_args p"

datatype delivery_state =
    NotSent | SentNoResponse | Responded | CutStream stream_progress | UnknownDelivery

datatype retryability = RetrySafe | RetryCaution | RetryUnknown | RetryNever

record provider_diagnostics =
  pd_code :: "rstr option"
  pd_request_id :: "rstr option"
  pd_model :: "rstr option"

record model_error =
  me_kind :: model_error_kind
  me_message :: rstr
  me_status :: "nat option"
  me_diagnostics :: "provider_diagnostics option"
  me_retry_after_ms :: "nat option"
  me_retries_exhausted :: bool
  me_retry_attempts :: "nat option"
  me_delivery :: delivery_state
  me_fault :: "transport_fault option"
  me_provider :: "rstr option"

definition model_error_new :: "model_error_kind \<Rightarrow> rstr \<Rightarrow> model_error" where
  "model_error_new k m =
     \<lparr>me_kind = k, me_message = m, me_status = None, me_diagnostics = None,
      me_retry_after_ms = None, me_retries_exhausted = False, me_retry_attempts = None,
      me_delivery = UnknownDelivery, me_fault = None, me_provider = None\<rparr>"

definition model_error_cancelled :: model_error where
  "model_error_cancelled = model_error_new KCancelled (lit ''request cancelled'')"

section \<open>Retry policy\<close>

definition never_retried :: "model_error_kind \<Rightarrow> bool" where
  "never_retried k =
     (case k of
        KAuth \<Rightarrow> True | KInvalidRequest \<Rightarrow> True | KDecode \<Rightarrow> True | KTruncated \<Rightarrow> True
      | KContentFiltered \<Rightarrow> True | KCancelled \<Rightarrow> True | KConversationProtocol \<Rightarrow> True
      | KOther \<Rightarrow> True
      | KRateLimit \<Rightarrow> False | KProviderUnavailable \<Rightarrow> False | KTransport \<Rightarrow> False
      | KStreamInterrupted \<Rightarrow> False | KTimeout \<Rightarrow> False)"

definition status_retryability :: "nat option \<Rightarrow> retryability" where
  "status_retryability s =
     (case s of
        Some n \<Rightarrow>
          if n = 429 then RetrySafe
          else if n = 504 then RetryCaution
          else if 500 \<le> n \<and> n \<le> 599 then RetrySafe
          else RetryNever
      | None \<Rightarrow> RetryNever)"

definition retryability_of :: "model_error \<Rightarrow> retryability" where
  "retryability_of e =
     (if never_retried (me_kind e) then RetryNever
      else case me_delivery e of
             NotSent \<Rightarrow> RetrySafe
           | Responded \<Rightarrow> status_retryability (me_status e)
           | CutStream p \<Rightarrow> if \<not> progress_any p then RetrySafe else RetryCaution
           | SentNoResponse \<Rightarrow> RetryUnknown
           | UnknownDelivery \<Rightarrow> RetryUnknown)"

definition is_safe_to_retry :: "model_error \<Rightarrow> bool" where
  "is_safe_to_retry e = (retryability_of e = RetrySafe)"

definition received_no_answer :: "model_error \<Rightarrow> bool" where
  "received_no_answer e =
     (case me_delivery e of
        NotSent \<Rightarrow> True
      | SentNoResponse \<Rightarrow> True
      | CutStream p \<Rightarrow> \<not> pg_text p \<and> \<not> pg_tool_args p
      | UnknownDelivery \<Rightarrow> me_kind e = KTransport
      | Responded \<Rightarrow> False)"

definition is_retryable_by_lifecycle :: "model_error \<Rightarrow> bool" where
  "is_retryable_by_lifecycle e =
     (case retryability_of e of
        RetrySafe \<Rightarrow> True
      | RetryNever \<Rightarrow> False
      | RetryCaution \<Rightarrow> received_no_answer e
      | RetryUnknown \<Rightarrow> received_no_answer e)"

section \<open>Provider statuses\<close>

definition status_kind :: "nat \<Rightarrow> model_error_kind" where
  "status_kind s =
     (if s = 401 \<or> s = 403 then KAuth
      else if s = 400 \<or> s = 404 \<or> s = 422 then KInvalidRequest
      else if s = 429 then KRateLimit
      else if 500 \<le> s \<and> s \<le> 599 then KProviderUnavailable
      else KOther)"

definition auth_codes :: "rstr list" where
  "auth_codes =
     [lit ''invalid_api_key'', lit ''invalid_apikey'', lit ''authentication_error'',
      lit ''authentication_failed'', lit ''invalid_authentication'', lit ''invalid_credentials'',
      lit ''unauthorized'', lit ''forbidden'', lit ''permission_denied'',
      lit ''insufficient_permissions'', lit ''account_deactivated'']"

definition structured_code_is_auth :: "rstr \<Rightarrow> bool" where
  "structured_code_is_auth c = (to_ascii_lowercase (trim c) \<in> set auth_codes)"

definition secret_prefixes :: "rstr list" where
  "secret_prefixes =
     map lit [''sk-'', ''sk_'', ''ghp_'', ''gho_'', ''ghu_'', ''ghs_'', ''ghr_'', ''github_pat_'',
              ''xoxb-'', ''xoxp-'', ''xoxa-'', ''xoxs-'', ''xoxe-'', ''aiza'', ''bearer'']"

text \<open>The characters \<open>trim_matches\<close> strips: quotes, comma, colon, braces, brackets.\<close>

definition wraps_token :: "rchar \<Rightarrow> bool" where
  "wraps_token c = (c \<in> {34, 39, 44, 58, 123, 125, 91, 93})"

definition is_secret_token :: "rstr \<Rightarrow> bool" where
  "is_secret_token t =
     (let trimmed = trim_end_matches wraps_token
                      (trim_start_matches wraps_token (to_ascii_lowercase t))
      in list_ex (\<lambda>p. starts_with p trimmed) secret_prefixes)"

definition redact_token :: "rstr \<Rightarrow> rstr" where
  "redact_token t = (if is_secret_token t then lit ''[redacted]'' else t)"

definition max_provider_text_bytes :: nat where "max_provider_text_bytes = 600"

text \<open>The longest prefix of whole characters within a byte budget.\<close>

fun head_within :: "nat \<Rightarrow> rstr \<Rightarrow> rstr" where
  "head_within n [] = []"
| "head_within n (c # cs) = (if utf8_len c \<le> n then c # head_within (n - utf8_len c) cs else [])"

definition truncate_head_bytes :: "rstr \<Rightarrow> nat \<Rightarrow> rstr \<Rightarrow> rstr" where
  "truncate_head_bytes s n marker =
     (if byte_len s \<le> n then s else head_within n s @ marker)"

definition sanitize_provider_text :: "rstr \<Rightarrow> rstr" where
  "sanitize_provider_text t =
     truncate_head_bytes (join (lit '' '') (map redact_token (split_whitespace t)))
       max_provider_text_bytes [8230]"

definition from_status_and_code ::
  "nat \<Rightarrow> rstr \<Rightarrow> rstr option \<Rightarrow> model_error" where
  "from_status_and_code s m code =
     (let k0 = status_kind s;
          k = (if (k0 = KInvalidRequest \<or> k0 = KOther) \<and>
                  (case code of Some c \<Rightarrow> structured_code_is_auth c | None \<Rightarrow> False)
               then KAuth else k0)
      in (model_error_new k (sanitize_provider_text m))
           \<lparr>me_status := Some s, me_delivery := Responded\<rparr>)"

end
