(* ===== verification/Model_Round.thy ===== *)
theory Model_Round
  imports Model_Failure Model_Projection Context_Compaction Agent_Loop
begin

text \<open>
  One model round (\<open>model_round.rs\<close> of \<open>leveler-agent-core\<close>): the assembly of one
  stream into an assistant message, and the bounded retry lifecycle around it.

  The world answers each \<open>select\<close>: a stream is the list of what its polls
  returned, ended by the end of the list, and an attempt is a record of what
  happened at each of its waiting points.  Clock readings are left out: no
  decision below reads one but the backoff, whose jitter is an argument.  Log
  lines are left out.
\<close>

section \<open>Events\<close>

datatype 'j model_event =
    MessageStarted rstr
  | TextDelta rstr
  | ReasoningDelta rstr
  | ReasoningMetadata nat
  | ToolCallStartedEvent nat "rstr option" "rstr option"
  | ToolCallArgumentsDelta nat rstr
  | ToolCallCompleted "'j tool_call"
  | MessageContentEvent "'j content_part list"
  | UsageUpdated token_usage
  | MessageCompleted finish_reason
  | ErrorEvent model_error

datatype 'j stream_poll =
    Polled "'j model_event"
  | PollFailed model_error
  | PollCancelled
  | PollDeadline
  | PolledWhileCancelled "'j model_event"
  | FailedWhileCancelled model_error

text \<open>\<open>AgentEvent\<close>, the variants a round emits; elapsed times are left out.\<close>

datatype agent_event =
    StreamAttemptStarted
  | AssistantDelta rstr
  | ReasoningStarted
  | ReasoningDeltaEvent rstr
  | ReasoningCompleted
  | UsageEvent token_usage
  | ModelRetrying nat nat nat

datatype core_failure = CoreModel model_error | CoreCancelled

section \<open>Assembly of a stream\<close>

record 'j round_assembly =
  as_text :: rstr
  as_reasoning :: rstr
  as_reasoning_started :: bool
  as_segment :: "rstr option"
  as_segments :: "rstr list"
  as_calls :: "'j tool_call list"
  as_tool_args :: bool
  as_completed :: bool
  as_canonical :: "'j content_part list option"
  as_usage :: token_usage
  as_observed :: "token_usage option"
  as_estimate :: token_estimate
  as_finish :: "finish_reason option"
  as_events :: "agent_event list"

definition zero_usage :: token_usage where
  "zero_usage =
     \<lparr>tu_input_tokens = 0, tu_output_tokens = 0, tu_cached_input_tokens = 0,
      tu_cache_creation_input_tokens = 0, tu_reasoning_tokens = None\<rparr>"

definition assembly_start :: "'j round_assembly" where
  "assembly_start =
     \<lparr>as_text = [], as_reasoning = [], as_reasoning_started = False, as_segment = None,
      as_segments = [], as_calls = [], as_tool_args = False, as_completed = False,
      as_canonical = None, as_usage = zero_usage, as_observed = None, as_estimate = te_zero,
      as_finish = None, as_events = []\<rparr>"

definition emit :: "agent_event \<Rightarrow> 'j round_assembly \<Rightarrow> 'j round_assembly" where
  "emit e a = a\<lparr>as_events := as_events a @ [e]\<rparr>"

definition close_reasoning_segment :: "'j round_assembly \<Rightarrow> 'j round_assembly" where
  "close_reasoning_segment a =
     (case as_segment a of
        None \<Rightarrow> a
      | Some t \<Rightarrow>
          (emit ReasoningCompleted a)\<lparr>as_segment := None, as_segments := as_segments a @ [t]\<rparr>)"

definition interrupted_error :: "model_error \<Rightarrow> bool \<Rightarrow> bool \<Rightarrow> bool \<Rightarrow> model_error" where
  "interrupted_error e text reasoning tool_args =
     (if me_kind e = KStreamInterrupted \<or> me_kind e = KTransport \<or> me_kind e = KTimeout
      then e\<lparr>me_delivery := CutStream \<lparr>pg_text = text, pg_reasoning = reasoning,
                                        pg_tool_args = tool_args\<rparr>\<rparr>
      else e)"

definition cut_error :: "model_error \<Rightarrow> 'j round_assembly \<Rightarrow> core_failure" where
  "cut_error e a =
     CoreModel (interrupted_error e (as_text a \<noteq> []) (as_reasoning_started a)
                  (as_tool_args a \<or> as_calls a \<noteq> []))"

definition take_text :: "rstr \<Rightarrow> 'j round_assembly \<Rightarrow> 'j round_assembly" where
  "take_text d a =
     (if d = [] then a
      else let b = close_reasoning_segment a
           in emit (AssistantDelta d)
                (b\<lparr>as_estimate := add_text d (as_estimate b), as_text := as_text b @ d\<rparr>))"

definition take_reasoning :: "rstr \<Rightarrow> 'j round_assembly \<Rightarrow> 'j round_assembly" where
  "take_reasoning d a =
     (if d = [] then a
      else let b = (if as_segment a = None
                    then (emit ReasoningStarted a)\<lparr>as_segment := Some []\<rparr> else a)
           in emit (ReasoningDeltaEvent d)
                (b\<lparr>as_segment := map_option (\<lambda>t. t @ d) (as_segment b),
                   as_reasoning_started := True, as_estimate := add_text d (as_estimate b),
                   as_reasoning := as_reasoning b @ d\<rparr>))"

definition take_usage :: "token_usage \<Rightarrow> 'j round_assembly \<Rightarrow> 'j round_assembly" where
  "take_usage u a =
     (let b = emit (UsageEvent u) a
      in if 0 < usage_total u \<or> usage_total (as_usage b) = 0
         then b\<lparr>as_usage := u, as_observed := Some u\<rparr> else b)"

definition take_event :: "'j model_event \<Rightarrow> 'j round_assembly \<Rightarrow> core_failure + 'j round_assembly" where
  "take_event e a =
     (case e of
        MessageContentEvent c \<Rightarrow>
          if as_completed a then Inr a
          else Inr ((close_reasoning_segment a)\<lparr>as_canonical := Some c\<rparr>)
      | TextDelta d \<Rightarrow> if as_completed a then Inr a else Inr (take_text d a)
      | ReasoningDelta d \<Rightarrow> if as_completed a then Inr a else Inr (take_reasoning d a)
      | ReasoningMetadata n \<Rightarrow>
          if as_completed a then Inr a
          else Inr (a\<lparr>as_reasoning_started := as_reasoning_started a \<or> 0 < n,
                      as_estimate := add_opaque_bytes n (as_estimate a)\<rparr>)
      | ToolCallCompleted c \<Rightarrow>
          if as_completed a then Inr a
          else (let b = close_reasoning_segment a in Inr (b\<lparr>as_calls := as_calls b @ [c]\<rparr>))
      | ToolCallArgumentsDelta i d \<Rightarrow>
          if as_completed a then Inr a
          else (let b = close_reasoning_segment a
                in Inr (b\<lparr>as_estimate := add_tool d (as_estimate b), as_tool_args := True\<rparr>))
      | ToolCallStartedEvent i n m \<Rightarrow>
          if as_completed a then Inr a
          else Inr ((close_reasoning_segment a)\<lparr>as_tool_args := True\<rparr>)
      | MessageCompleted r \<Rightarrow>
          Inr ((close_reasoning_segment a)\<lparr>as_finish := Some r, as_completed := True\<rparr>)
      | ErrorEvent err \<Rightarrow> Inl (cut_error err a)
      | UsageUpdated u \<Rightarrow> Inr (take_usage u a)
      | MessageStarted i \<Rightarrow> Inr a)"

text \<open>The loop over the polls: the assembly reached, and the failure that ended it.\<close>

fun poll_stream ::
  "'j stream_poll list \<Rightarrow> 'j round_assembly \<Rightarrow> 'j round_assembly \<times> core_failure option" where
  "poll_stream [] a = (a, None)"
| "poll_stream (p # ps) a =
     (case p of
        Polled e \<Rightarrow>
          (case take_event e a of
             Inl f \<Rightarrow> (a, Some f)
           | Inr b \<Rightarrow> poll_stream ps b)
      | PollFailed e \<Rightarrow>
          if me_kind e = KCancelled then (a, Some CoreCancelled)
          else (a, Some (cut_error e a))
      | PollCancelled \<Rightarrow> (a, Some CoreCancelled)
      | PollDeadline \<Rightarrow>
          (a, Some (CoreModel (model_error_new KTimeout (lit ''model request deadline elapsed''))))
      | PolledWhileCancelled e \<Rightarrow> (a, Some CoreCancelled)
      | FailedWhileCancelled e \<Rightarrow> (a, Some CoreCancelled))"

record 'j finished_round =
  mr_request_id :: rstr
  mr_message :: "'j message"
  mr_usage :: token_usage
  mr_finish_reason :: finish_reason
  mr_retry_count :: nat
  mr_segments :: "rstr list"

definition round_tool_calls :: "'j finished_round \<Rightarrow> 'j tool_call list" where
  "round_tool_calls r =
     List.map_filter (\<lambda>p. case p of ToolCallPart c \<Rightarrow> Some c | _ \<Rightarrow> None)
       (msg_content (mr_message r))"

definition assembled_content :: "'j round_assembly \<Rightarrow> 'j content_part list" where
  "assembled_content a =
     (case as_canonical a of
        Some c \<Rightarrow> c
      | None \<Rightarrow>
          (if as_reasoning a \<noteq> [] then [ReasoningPart (as_reasoning a)] else [])
          @ (if as_text a \<noteq> [] then [TextPart (as_text a)] else [])
          @ map ToolCallPart (as_calls a))"

definition no_terminal_error :: model_error where
  "no_terminal_error =
     model_error_new KStreamInterrupted
       (lit ''model stream ended without a terminal completion event'')"

text \<open>The start of the stream: what the first \<open>select\<close> returned.\<close>

datatype 'j stream_start =
    StartCancelled
  | StartDeadline
  | StartFailed model_error
  | StartFailedWhileCancelled model_error
  | Started "'j stream_poll list"

definition stream_round ::
  "rstr \<Rightarrow> route_identity option \<Rightarrow> 'j stream_start
   \<Rightarrow> (core_failure + 'j finished_round) \<times> 'j round_assembly" where
  "stream_round request_id route start =
     (case start of
        StartCancelled \<Rightarrow> (Inl CoreCancelled, assembly_start)
      | StartDeadline \<Rightarrow>
          (Inl (CoreModel (model_error_new KTimeout (lit ''model request deadline elapsed''))),
           assembly_start)
      | StartFailedWhileCancelled e \<Rightarrow> (Inl CoreCancelled, assembly_start)
      | StartFailed e \<Rightarrow>
          (Inl (if me_kind e = KCancelled then CoreCancelled else CoreModel e), assembly_start)
      | Started polls \<Rightarrow>
          (case poll_stream polls assembly_start of
             (a, Some f) \<Rightarrow> (Inl f, a)
           | (a, None) \<Rightarrow>
               (case as_finish a of
                  None \<Rightarrow> (Inl (cut_error no_terminal_error a), a)
                | Some r \<Rightarrow>
                    (let b = (if 0 < usage_total (as_usage a)
                              then emit (UsageEvent (as_usage a)) a else a)
                     in (Inr \<lparr>mr_request_id = request_id,
                              mr_message = \<lparr>msg_role = AssistantRole,
                                            msg_content = assembled_content b,
                                            msg_origin = None, msg_route = route\<rparr>,
                              mr_usage = as_usage b, mr_finish_reason = r,
                              mr_retry_count = 0, mr_segments = as_segments b\<rparr>, b)))))"

section \<open>Retries\<close>

definition max_retries :: nat where "max_retries = 10"

definition endpoint_max_retries :: nat where "endpoint_max_retries = 3"

definition endpoint_schedule :: "nat list" where "endpoint_schedule = [250, 500, 1000]"

definition backoff_schedule :: "nat list" where
  "backoff_schedule =
     [1000, 2000, 4000, 8000, 15000, 30000, 30000, 30000, 30000, 30000]"

definition is_immediate_endpoint_failure :: "model_error \<Rightarrow> bool" where
  "is_immediate_endpoint_failure e \<longleftrightarrow>
     me_delivery e = NotSent \<and> me_fault e = Some ConnectionRefused"

definition scheduled_backoff :: "nat \<Rightarrow> nat" where
  "scheduled_backoff retry = backoff_schedule ! min (retry - 1) (length backoff_schedule - 1)"

definition retry_backoff_delay :: "model_error \<Rightarrow> nat \<Rightarrow> nat" where
  "retry_backoff_delay e retry =
     (case me_retry_after_ms e of
        Some ms \<Rightarrow> min ms 120000
      | None \<Rightarrow> scheduled_backoff retry)"

definition max_retries_for :: "nat \<Rightarrow> model_error \<Rightarrow> nat" where
  "max_retries_for limit e =
     (if is_immediate_endpoint_failure e then min limit endpoint_max_retries else limit)"

text \<open>\<open>RetryPolicy::delay\<close> of the production policy.\<close>

definition retry_delay :: "(nat \<Rightarrow> nat) \<Rightarrow> model_error \<Rightarrow> nat \<Rightarrow> nat" where
  "retry_delay jitter e retry =
     (let base = (if is_immediate_endpoint_failure e
                  then endpoint_schedule ! min (retry - 1) (length endpoint_schedule - 1)
                  else retry_backoff_delay e retry)
      in if me_retry_after_ms e \<noteq> None then base else jitter base)"

datatype wait_outcome = Slept | WaitCancelled | WaitDeadline

text \<open>What happens at each waiting point of one attempt: cancellation and deadline
  before it, the host's admission and settlement, the stream, the token state
  after it and the wait before the next.\<close>

record ('e, 'j) attempt_world =
  aw_cancelled :: bool
  aw_deadline :: bool
  aw_admission :: "'e option"
  aw_start :: "'j stream_start"
  aw_settlement :: "'e option"
  aw_cancelled_after :: bool
  aw_wait :: wait_outcome

record round_attempt =
  ra_attempt :: nat
  ra_usage :: "token_usage option"
  ra_finish :: "finish_reason option"
  ra_partial_text :: "rstr option"
  ra_error :: "model_error option"
  ra_cost :: "nat option"
  ra_estimated :: "nat option"
  ra_projected_input :: nat

datatype ('e, 'j) round_result =
    RoundDone "'j finished_round"
  | RoundFailed core_failure
  | RoundHostError 'e

definition failure_error :: "core_failure \<Rightarrow> model_error" where
  "failure_error f = (case f of CoreModel e \<Rightarrow> e | CoreCancelled \<Rightarrow> model_error_cancelled)"

definition attempt_record ::
  "('j \<Rightarrow> rstr) \<Rightarrow> nat \<Rightarrow> nat \<Rightarrow> (core_failure + 'j finished_round) \<Rightarrow> 'j round_assembly
   \<Rightarrow> round_attempt" where
  "attempt_record render projected retries outcome a =
     (let error = (case outcome of Inl f \<Rightarrow> Some (failure_error f) | Inr r \<Rightarrow> None);
          not_sent = (case error of Some e \<Rightarrow> me_delivery e = NotSent | None \<Rightarrow> False)
      in \<lparr>ra_attempt = retries + 1, ra_usage = as_observed a, ra_finish = as_finish a,
          ra_partial_text =
            (case outcome of Inl f \<Rightarrow> if as_text a \<noteq> [] then Some (as_text a) else None
             | Inr r \<Rightarrow> None),
          ra_error = error, ra_cost = (if not_sent then Some 0 else None),
          ra_estimated =
            (if \<not> not_sent \<and>
                (case as_observed a of Some u \<Rightarrow> usage_total u = 0 | None \<Rightarrow> True)
             then Some (sat_add64 projected
                    (case outcome of
                       Inr r \<Rightarrow> estimate_tokens render [mr_message r]
                     | Inl f \<Rightarrow> tokens (as_estimate a)))
             else None),
          ra_projected_input = projected\<rparr>)"

record round_log =
  rg_events :: "agent_event list"
  rg_attempts :: "round_attempt list"

definition log_events :: "agent_event list \<Rightarrow> round_log \<Rightarrow> round_log" where
  "log_events es l = l\<lparr>rg_events := rg_events l @ es\<rparr>"

definition log_attempt :: "round_attempt \<Rightarrow> round_log \<Rightarrow> round_log" where
  "log_attempt a l = l\<lparr>rg_attempts := rg_attempts l @ [a]\<rparr>"

definition deadline_failure :: "string \<Rightarrow> core_failure" where
  "deadline_failure s = CoreModel (model_error_new KTimeout (lit s))"

text \<open>After a settled attempt: done, over, or another attempt after a wait.\<close>

datatype ('e, 'j) verdict = Finish "('e, 'j) round_result" | RetryAfter model_error

definition attempt_verdict ::
  "nat \<Rightarrow> nat \<Rightarrow> bool \<Rightarrow> (core_failure + 'j finished_round) \<Rightarrow> ('e, 'j) verdict" where
  "attempt_verdict limit retries cancelled outcome =
     (case outcome of
        Inr r \<Rightarrow> Finish (RoundDone (r\<lparr>mr_retry_count := retries\<rparr>))
      | Inl f \<Rightarrow>
          (if cancelled then Finish (RoundFailed f)
           else case f of
             CoreCancelled \<Rightarrow> Finish (RoundFailed CoreCancelled)
           | CoreModel e \<Rightarrow>
               (if \<not> is_retryable_by_lifecycle e then Finish (RoundFailed (CoreModel e))
                else if max_retries_for limit e \<le> retries then
                  Finish (RoundFailed (CoreModel (e\<lparr>me_retry_attempts := Some retries\<rparr>)))
                else RetryAfter e)))"

function run_model_round ::
  "('j \<Rightarrow> rstr) \<Rightarrow> (nat \<Rightarrow> nat) \<Rightarrow> rstr \<Rightarrow> route_identity option \<Rightarrow> nat
   \<Rightarrow> (nat \<Rightarrow> ('e, 'j) attempt_world) \<Rightarrow> nat \<Rightarrow> nat \<Rightarrow> round_log
   \<Rightarrow> ('e, 'j) round_result \<times> round_log" where
  "run_model_round render jitter request_id route projected world limit retries l =
     (let w = world retries
      in if aw_cancelled w then (RoundFailed CoreCancelled, l)
         else if aw_deadline w then
           (RoundFailed (deadline_failure ''model request deadline elapsed''), l)
         else
           (case aw_admission w of
              Some e \<Rightarrow> (RoundHostError e, l)
            | None \<Rightarrow>
                (let (outcome, a) = stream_round request_id route (aw_start w);
                     l1 = log_attempt (attempt_record render projected retries outcome a)
                            (log_events (StreamAttemptStarted # as_events a) l)
                 in case aw_settlement w of
                      Some e \<Rightarrow> (RoundHostError e, l1)
                    | None \<Rightarrow>
                        (case attempt_verdict limit retries (aw_cancelled_after w) outcome of
                           Finish r \<Rightarrow> (r, l1)
                         | RetryAfter e \<Rightarrow>
                             (let l2 = log_events
                                         [ModelRetrying (retries + 1) (max_retries_for limit e)
                                            (retry_delay jitter e (retries + 1))] l1
                              in case aw_wait w of
                                   WaitCancelled \<Rightarrow> (RoundFailed CoreCancelled, l2)
                                 | WaitDeadline \<Rightarrow>
                                     (RoundFailed (deadline_failure
                                        ''model request deadline elapsed during retry backoff''), l2)
                                 | Slept \<Rightarrow>
                                     run_model_round render jitter request_id route projected world
                                       limit (retries + 1) l2)))))"
  by pat_completeness auto

lemma attempt_verdict_retry:
  "attempt_verdict limit retries c outcome = RetryAfter e \<Longrightarrow>
     outcome = Inl (CoreModel e) \<and> \<not> c \<and> is_retryable_by_lifecycle e \<and>
     retries < max_retries_for limit e"
  by (auto simp: attempt_verdict_def split: sum.splits core_failure.splits if_splits)

lemma max_retries_for_le: "max_retries_for limit e \<le> limit"
  by (simp add: max_retries_for_def)

termination run_model_round
proof (relation "measure (\<lambda>(render, jitter, i, route, projected, world, limit, retries, l).
    limit - retries)", goal_cases)
  case 1
  show ?case by simp
next
  case (2 render jitter i route projected world limit retries l w outcome_a outcome a l1 e l2)
  then have "retries < max_retries_for limit e"
    using attempt_verdict_retry by blast
  then show ?case using max_retries_for_le [of limit e] by simp
qed

declare run_model_round.simps [simp del]

definition projected_input_tokens :: "('j \<Rightarrow> rstr) \<Rightarrow> 'j model_request \<Rightarrow> nat" where
  "projected_input_tokens render r =
     (case mq_projection r of
        Some p \<Rightarrow> estimated_tokens render p
      | None \<Rightarrow>
          estimate_tokens render (mq_messages r) + estimate_tool_definitions render (mq_tools r))"

end
