(* ===== verification/Model_Round_Correct.thy ===== *)
theory Model_Round_Correct
  imports Model_Round
begin

text \<open>
  What one logical model request may cost and deliver: its physical attempts are
  bounded, an attempt that delivered answer text or tool data is the last one, and
  a finished round's message is what the stream said before its completion.
\<close>

section \<open>The attempts of a round\<close>

definition attempt_outcome ::
  "rstr \<Rightarrow> route_identity option \<Rightarrow> (nat \<Rightarrow> ('e, 'j) attempt_world) \<Rightarrow> nat
   \<Rightarrow> (core_failure + 'j finished_round) \<times> 'j round_assembly" where
  "attempt_outcome i route world n = stream_round i route (aw_start (world n))"

definition attempt_entry ::
  "('j \<Rightarrow> rstr) \<Rightarrow> rstr \<Rightarrow> route_identity option \<Rightarrow> nat \<Rightarrow> (nat \<Rightarrow> ('e, 'j) attempt_world) \<Rightarrow> nat
   \<Rightarrow> round_attempt" where
  "attempt_entry render i route projected world n =
     attempt_record render projected n (fst (attempt_outcome i route world n))
       (snd (attempt_outcome i route world n))"

text \<open>
  What may be sent again, by itself: a passing failure whose delivery shows that no answer text
  and no tool-call data was received, or that a gateway refused before the model ran.  A refused
  connection may be tried three times, everything else as often as the budget says.
\<close>

definition may_be_sent_again :: "model_error \<Rightarrow> bool" where
  "may_be_sent_again e \<longleftrightarrow>
     me_kind e \<in> {KRateLimit, KProviderUnavailable, KTransport, KStreamInterrupted, KTimeout} \<and>
     (case me_delivery e of
        NotSent \<Rightarrow> True
      | SentNoResponse \<Rightarrow> True
      | Responded \<Rightarrow> (case me_status e of None \<Rightarrow> False | Some n \<Rightarrow> n = 429 \<or> n \<in> {500..599} - {504})
      | CutStream p \<Rightarrow> \<not> pg_text p \<and> \<not> pg_tool_args p
      | UnknownDelivery \<Rightarrow> me_kind e = KTransport)"

definition attempts_left :: "nat \<Rightarrow> model_error \<Rightarrow> nat \<Rightarrow> bool" where
  "attempts_left limit e n \<longleftrightarrow>
     n < limit \<and> (n < 3 \<or> me_delivery e \<noteq> NotSent \<or> me_fault e \<noteq> Some ConnectionRefused)"

lemma retryable_iff: "is_retryable_by_lifecycle e \<longleftrightarrow> may_be_sent_again e"
  by (cases "me_kind e"; cases "me_delivery e")
    (auto simp: is_retryable_by_lifecycle_def retryability_of_def never_retried_def may_be_sent_again_def
      status_retryability_def received_no_answer_def progress_any_def split: option.split)

lemma left_iff: "n < max_retries_for limit e \<longleftrightarrow> attempts_left limit e n"
  by (auto simp: max_retries_for_def attempts_left_def is_immediate_endpoint_failure_def endpoint_max_retries_def)

definition followed ::
  "rstr \<Rightarrow> route_identity option \<Rightarrow> nat \<Rightarrow> (nat \<Rightarrow> ('e, 'j) attempt_world) \<Rightarrow> nat \<Rightarrow> bool" where
  "followed i route limit world n \<longleftrightarrow>
     (\<exists>e. fst (attempt_outcome i route world n) = Inl (CoreModel e) \<and>
          may_be_sent_again e \<and> attempts_left limit e n)"

lemma followed_iff:
  "followed i route limit world n \<longleftrightarrow>
     (\<exists>e. fst (attempt_outcome i route world n) = Inl (CoreModel e) \<and>
          is_retryable_by_lifecycle e \<and> n < max_retries_for limit e)"
  by (simp add: followed_def retryable_iff left_iff)

definition attempts_from ::
  "('j \<Rightarrow> rstr) \<Rightarrow> rstr \<Rightarrow> route_identity option \<Rightarrow> nat \<Rightarrow> nat \<Rightarrow> (nat \<Rightarrow> ('e, 'j) attempt_world)
   \<Rightarrow> nat \<Rightarrow> round_log \<Rightarrow> ('e, 'j) round_result \<times> round_log \<Rightarrow> bool" where
  "attempts_from render i route projected limit world s l out \<longleftrightarrow>
     (\<exists>n. rg_attempts (snd out) =
            rg_attempts l @ map (attempt_entry render i route projected world) [s..<s + n] \<and>
          (\<forall>j. s \<le> j \<and> Suc j < s + n \<longrightarrow> followed i route limit world j) \<and>
          (\<forall>r. fst out = RoundDone r \<longrightarrow>
             0 < n \<and>
             (\<exists>q. fst (attempt_outcome i route world (s + n - 1)) = Inr q \<and>
                  r = q\<lparr>mr_retry_count := s + n - 1\<rparr>)))"

lemma rg_attempts_log [simp]:
  "rg_attempts (log_events es l) = rg_attempts l"
  "rg_attempts (log_attempt a l) = rg_attempts l @ [a]"
  by (simp_all add: log_events_def log_attempt_def)

lemma attempts_none:
  "(\<And>r. x \<noteq> RoundDone r) \<Longrightarrow> attempts_from render i route projected limit world s l (x, l)"
  unfolding attempts_from_def by (rule exI [of _ 0]) auto

lemma attempts_one:
  assumes "rg_attempts l' = rg_attempts l @ [attempt_entry render i route projected world s]"
    and "\<And>r. x = RoundDone r \<Longrightarrow>
           \<exists>q. fst (attempt_outcome i route world s) = Inr q \<and> r = q\<lparr>mr_retry_count := s\<rparr>"
  shows "attempts_from render i route projected limit world s l (x, l')"
  unfolding attempts_from_def using assms by (intro exI [of _ 1]) auto

lemma attempts_more:
  assumes "attempts_from render i route projected limit world (Suc s) l' out"
    and "rg_attempts l' = rg_attempts l @ [attempt_entry render i route projected world s]"
    and "followed i route limit world s"
  shows "attempts_from render i route projected limit world s l out"
proof -
  from assms(1) obtain n where n: "rg_attempts (snd out) =
        rg_attempts l' @ map (attempt_entry render i route projected world) [Suc s..<Suc s + n]"
    and f: "\<And>j. Suc s \<le> j \<and> Suc j < Suc s + n \<Longrightarrow> followed i route limit world j"
    and r: "\<And>r. fst out = RoundDone r \<Longrightarrow>
       0 < n \<and> (\<exists>q. fst (attempt_outcome i route world (Suc s + n - 1)) = Inr q \<and>
                    r = q\<lparr>mr_retry_count := Suc s + n - 1\<rparr>)"
    unfolding attempts_from_def by blast
  have "[s..<s + Suc n] = s # [Suc s..<Suc s + n]" by (simp add: upt_rec)
  moreover have "followed i route limit world j" if "s \<le> j \<and> Suc j < s + Suc n" for j
    using f [of j] assms(3) that by (cases "j = s") auto
  ultimately show ?thesis
    unfolding attempts_from_def using n assms(2) r by (intro exI [of _ "Suc n"]) auto
qed

lemma verdict_done:
  "attempt_verdict limit retries c outcome = Finish (RoundDone r) \<Longrightarrow>
     \<exists>q. outcome = Inr q \<and> r = q\<lparr>mr_retry_count := retries\<rparr>"
  by (auto simp: attempt_verdict_def split: sum.splits core_failure.splits if_splits)

lemma run_attempts:
  fixes world :: "nat \<Rightarrow> ('e, 'j) attempt_world"
  shows "attempts_from render i route projected limit world retries l
     (run_model_round render jitter i route projected world limit retries l)"
proof (induction render jitter i route projected world limit retries l rule: run_model_round.induct)
  case (1 render jitter i route projected world limit retries l)
  let ?w = "world retries"
  obtain outcome a where o: "stream_round i route (aw_start ?w) = (outcome, a)"
    by (cases "stream_round i route (aw_start ?w)")
  define l1 where "l1 = log_attempt (attempt_record render projected retries outcome a)
      (log_events (StreamAttemptStarted # as_events a) l)"
  have entry: "rg_attempts l1 = rg_attempts l @ [attempt_entry render i route projected world retries]"
    by (simp add: l1_def attempt_entry_def attempt_outcome_def o)
  have out: "fst (attempt_outcome i route world retries) = outcome"
    by (simp add: attempt_outcome_def o)
  show ?case
  proof (cases "aw_cancelled ?w \<or> aw_deadline ?w \<or> aw_admission ?w \<noteq> None")
    case True
    then show ?thesis
      by (subst run_model_round.simps) (auto simp: Let_def intro!: attempts_none split: option.splits)
  next
    case go: False
    show ?thesis
    proof (cases "aw_settlement ?w")
      case (Some e)
      with go show ?thesis
        by (subst run_model_round.simps)
          (auto simp: Let_def o l1_def [symmetric] intro!: attempts_one entry)
    next
      case settled: None
      show ?thesis
      proof (cases "attempt_verdict limit retries (aw_cancelled_after ?w) outcome :: ('e, 'j) verdict")
        case (Finish r)
        with go settled show ?thesis
          by (subst run_model_round.simps)
            (auto simp: Let_def o l1_def [symmetric] out intro!: attempts_one entry dest: verdict_done)
      next
        case (RetryAfter e)
        define l2 where "l2 = log_events [ModelRetrying (retries + 1) (max_retries_for limit e)
            (retry_delay jitter e (retries + 1))] l1"
        have e2: "rg_attempts l2 = rg_attempts l @ [attempt_entry render i route projected world retries]"
          by (simp add: l2_def entry)
        have fol: "followed i route limit world retries"
          using attempt_verdict_retry [OF RetryAfter] by (simp add: followed_iff out)
        show ?thesis
        proof (cases "aw_wait ?w")
          case Slept
          have "attempts_from render i route projected limit world (Suc retries) l2
              (run_model_round render jitter i route projected world limit (retries + 1) l2)"
            using "1.IH" [of ?w "(outcome, a)" outcome a l1 e l2] go settled RetryAfter Slept o
            by (simp add: l1_def [symmetric] l2_def)
          from attempts_more [OF this e2 fol, unfolded l2_def] show ?thesis
            using go settled RetryAfter Slept
            by (subst run_model_round.simps) (simp add: Let_def o l1_def [symmetric])
        next
          case WaitCancelled
          with go settled RetryAfter show ?thesis
            by (subst run_model_round.simps)
              (auto simp: Let_def o l1_def [symmetric] intro!: attempts_one entry)
        next
          case WaitDeadline
          with go settled RetryAfter show ?thesis
            by (subst run_model_round.simps)
              (auto simp: Let_def o l1_def [symmetric] intro!: attempts_one entry)
        qed
      qed
    qed
  qed
qed

definition empty_log :: round_log where
  "empty_log = \<lparr>rg_events = [], rg_attempts = []\<rparr>"


section \<open>Nothing delivered is replayed\<close>

text \<open>What an attempt delivered that a replay would repeat.\<close>

definition delivered_answer :: "'j round_assembly \<Rightarrow> bool" where
  "delivered_answer a \<longleftrightarrow> as_text a \<noteq> [] \<or> as_tool_args a \<or> as_calls a \<noteq> []"

definition rewritten_kind :: "model_error_kind \<Rightarrow> bool" where
  "rewritten_kind k \<longleftrightarrow> k = KStreamInterrupted \<or> k = KTransport \<or> k = KTimeout"

lemma cut_retryable:
  assumes "cut_error e a = CoreModel e'" and "is_retryable_by_lifecycle e'" and "rewritten_kind (me_kind e)"
  shows "\<not> delivered_answer a"
  using assms
  by (auto simp: cut_error_def interrupted_error_def rewritten_kind_def is_retryable_by_lifecycle_def
      retryability_of_def received_no_answer_def progress_any_def delivered_answer_def
      never_retried_def split: if_splits)

lemma cut_kind: "cut_error e a = CoreModel e' \<Longrightarrow> me_kind e' = me_kind e"
  by (auto simp: cut_error_def interrupted_error_def)

lemma take_event_failure:
  "take_event e a = Inl f \<Longrightarrow> \<exists>err. f = cut_error err a"
  by (auto simp: take_event_def Let_def split: model_event.splits if_splits)

lemma deadline_not_retryable:
  "\<not> is_retryable_by_lifecycle (model_error_new KTimeout m)"
  by (simp add: is_retryable_by_lifecycle_def retryability_of_def received_no_answer_def
      model_error_new_def never_retried_def)

lemma poll_failure:
  "poll_stream ps a = (b, Some (CoreModel e)) \<Longrightarrow>
     (\<exists>err. cut_error err b = CoreModel e) \<or> \<not> is_retryable_by_lifecycle e"
proof (induction ps a rule: poll_stream.induct)
  case (2 p ps a)
  then show ?case
    by (auto simp: deadline_not_retryable split: stream_poll.splits sum.splits if_splits
        dest!: take_event_failure)
qed simp

lemma no_terminal_kind: "rewritten_kind (me_kind no_terminal_error)"
  by (simp add: no_terminal_error_def model_error_new_def rewritten_kind_def)

lemma stream_failure_retryable:
  assumes "stream_round i route start = (Inl (CoreModel e), a)" and "is_retryable_by_lifecycle e"
    and "rewritten_kind (me_kind e)"
  shows "\<not> delivered_answer a"
proof -
  consider "a = assembly_start" | "\<exists>err. cut_error err a = CoreModel e"
    using assms(1,2)
    by (auto simp: stream_round_def deadline_not_retryable Let_def dest: poll_failure
        split: stream_start.splits prod.splits option.splits if_splits)
  then show ?thesis
  proof cases
    case 1
    then show ?thesis by (simp add: delivered_answer_def assembly_start_def)
  next
    case 2
    then obtain err where err: "cut_error err a = CoreModel e" by blast
    with cut_kind [OF err] assms(3) have "rewritten_kind (me_kind err)" by simp
    from cut_retryable [OF err assms(2) this] show ?thesis .
  qed
qed

lemma followed_kinds:
  assumes "followed i route limit world j" and "delivered_answer (snd (attempt_outcome i route world j))"
  shows "\<exists>e. fst (attempt_outcome i route world j) = Inl (CoreModel e) \<and>
             me_kind e \<in> {KRateLimit, KProviderUnavailable}"
proof -
  obtain a where a: "attempt_outcome i route world j = (fst (attempt_outcome i route world j), a)"
    by (metis prod.collapse)
  from assms(1) obtain e where e: "fst (attempt_outcome i route world j) = Inl (CoreModel e)"
    and r: "is_retryable_by_lifecycle e"
    by (auto simp: followed_iff)
  have "\<not> rewritten_kind (me_kind e)"
    using stream_failure_retryable [of i route "aw_start (world j)" e a] a e r assms(2)
    by (auto simp: attempt_outcome_def)
  moreover have "\<not> never_retried (me_kind e)"
    using r by (auto simp: is_retryable_by_lifecycle_def retryability_of_def)
  ultimately show ?thesis
    using e by (cases "me_kind e") (auto simp: rewritten_kind_def never_retried_def)
qed

text \<open>
  An attempt that delivered answer text or tool-call data is the last attempt
  of its request, unless it failed with one of the two kinds, rate limit and
  unavailable provider, whose delivery state a stream failure keeps as reported.
\<close>

theorem delivered_answer_is_not_replayed:
  fixes world :: "nat \<Rightarrow> ('e, 'j) attempt_world"
  shows "\<exists>n. rg_attempts (snd (run_model_round render jitter i route projected world limit 0 empty_log)) =
               map (attempt_entry render i route projected world) [0..<n] \<and>
             {j. Suc j < n \<and> delivered_answer (snd (attempt_outcome i route world j))} \<subseteq>
               {j. \<exists>e. fst (attempt_outcome i route world j) = Inl (CoreModel e) \<and>
                       me_kind e \<in> {KRateLimit, KProviderUnavailable}}"
proof -
  from run_attempts [of render i route projected limit world 0 empty_log jitter]
  obtain n where n: "rg_attempts (snd (run_model_round render jitter i route projected world limit 0 empty_log)) =
        map (attempt_entry render i route projected world) [0..<n]"
    and f: "\<And>j. Suc j < n \<Longrightarrow> followed i route limit world j"
    unfolding attempts_from_def by (auto simp: empty_log_def)
  then show ?thesis using followed_kinds [OF f] by blast
qed

text \<open>The exception is real: text, then a report of an unavailable provider, then the
  same text again from a second attempt.\<close>

definition busy_upstream :: model_error where
  "busy_upstream = (model_error_new KProviderUnavailable [])\<lparr>me_status := Some 503, me_delivery := Responded\<rparr>"

definition world_with :: "unit stream_poll list \<Rightarrow> (unit, unit) attempt_world" where
  "world_with ps =
     \<lparr>aw_cancelled = False, aw_deadline = False, aw_admission = None, aw_start = Started ps,
      aw_settlement = None, aw_cancelled_after = False, aw_wait = Slept\<rparr>"

definition overloaded_world :: "nat \<Rightarrow> (unit, unit) attempt_world" where
  "overloaded_world n =
     world_with (if n = 0 then [Polled (TextDelta [7]), PollFailed busy_upstream]
                 else [Polled (TextDelta [7]), Polled (MessageCompleted FinishStop)])"

lemma text_before_replay:
  "rg_events (snd (run_model_round (\<lambda>_. []) (\<lambda>d. d) [] None 0 overloaded_world 1 0 empty_log)) =
     [StreamAttemptStarted, AssistantDelta [7], ModelRetrying 1 1 1000,
      StreamAttemptStarted, AssistantDelta [7]]"
proof -
  have retry: "is_retryable_by_lifecycle busy_upstream" "max_retries_for (Suc 0) busy_upstream = Suc 0"
    "retry_delay (\<lambda>d. d) busy_upstream (Suc 0) = 1000"
    by (simp_all add: busy_upstream_def model_error_new_def is_retryable_by_lifecycle_def
        retryability_of_def never_retried_def status_retryability_def max_retries_for_def
        is_immediate_endpoint_failure_def retry_delay_def retry_backoff_delay_def
        scheduled_backoff_def backoff_schedule_def)
  have cut: "cut_error busy_upstream a = CoreModel busy_upstream" for a :: "unit round_assembly"
    by (simp add: cut_error_def interrupted_error_def busy_upstream_def model_error_new_def)
  have kind: "me_kind busy_upstream = KProviderUnavailable"
    by (simp add: busy_upstream_def model_error_new_def)
  show ?thesis
    by (subst run_model_round.simps, subst run_model_round.simps)
      (simp add: overloaded_world_def world_with_def stream_round_def take_event_def take_text_def
        close_reasoning_segment_def assembly_start_def emit_def kind cut retry Let_def
        attempt_verdict_def log_events_def log_attempt_def empty_log_def usage_total_def zero_usage_def wrap_add64_def)
qed

section \<open>The assembled message\<close>

definition is_completed_event :: "'j model_event \<Rightarrow> bool" where
  "is_completed_event e = (case e of MessageCompleted r \<Rightarrow> True | _ \<Rightarrow> False)"

definition is_error_event :: "'j model_event \<Rightarrow> bool" where
  "is_error_event e = (case e of ErrorEvent x \<Rightarrow> True | _ \<Rightarrow> False)"

text \<open>What a stream says, read off its events.\<close>

definition said_before :: "'j model_event list \<Rightarrow> 'j model_event list" where
  "said_before es = takeWhile (\<lambda>e. \<not> is_completed_event e) es"

definition said_text :: "'j model_event list \<Rightarrow> rstr" where
  "said_text es = concat (map (\<lambda>e. case e of TextDelta d \<Rightarrow> d | _ \<Rightarrow> []) es)"

definition said_reasoning :: "'j model_event list \<Rightarrow> rstr" where
  "said_reasoning es = concat (map (\<lambda>e. case e of ReasoningDelta d \<Rightarrow> d | _ \<Rightarrow> []) es)"

definition said_calls :: "'j model_event list \<Rightarrow> 'j tool_call list" where
  "said_calls es = concat (map (\<lambda>e. case e of ToolCallCompleted c \<Rightarrow> [c] | _ \<Rightarrow> []) es)"

definition said_content :: "'j model_event list \<Rightarrow> 'j content_part list option" where
  "said_content es =
     fold (\<lambda>e z. case e of MessageContentEvent c \<Rightarrow> Some c | _ \<Rightarrow> z) es None"

definition said_finish :: "'j model_event list \<Rightarrow> finish_reason option" where
  "said_finish es = fold (\<lambda>e z. case e of MessageCompleted r \<Rightarrow> Some r | _ \<Rightarrow> z) es None"

definition said_message :: "'j model_event list \<Rightarrow> 'j content_part list" where
  "said_message es =
     (case said_content es of
        Some c \<Rightarrow> c
      | None \<Rightarrow>
          (if said_reasoning es \<noteq> [] then [ReasoningPart (said_reasoning es)] else [])
          @ (if said_text es \<noteq> [] then [TextPart (said_text es)] else [])
          @ map ToolCallPart (said_calls es))"

lemma said_nil [simp]:
  "said_before [] = []" "said_text [] = []" "said_reasoning [] = []" "said_calls [] = []"
  "said_content [] = None" "said_finish [] = None"
  by (simp_all add: said_before_def said_text_def said_reasoning_def said_calls_def
      said_content_def said_finish_def)

lemma said_snoc [simp]:
  "said_text (es @ [e]) = said_text es @ (case e of TextDelta d \<Rightarrow> d | _ \<Rightarrow> [])"
  "said_reasoning (es @ [e]) = said_reasoning es @ (case e of ReasoningDelta d \<Rightarrow> d | _ \<Rightarrow> [])"
  "said_calls (es @ [e]) = said_calls es @ (case e of ToolCallCompleted c \<Rightarrow> [c] | _ \<Rightarrow> [])"
  "said_content (es @ [e]) = (case e of MessageContentEvent c \<Rightarrow> Some c | _ \<Rightarrow> said_content es)"
  "said_finish (es @ [e]) = (case e of MessageCompleted r \<Rightarrow> Some r | _ \<Rightarrow> said_finish es)"
  by (simp_all add: said_text_def said_reasoning_def said_calls_def said_content_def said_finish_def
      split: model_event.split)

lemma said_before_snoc:
  "said_before (es @ [e]) =
     (if list_ex is_completed_event es \<or> is_completed_event e then said_before es
      else said_before es @ [e])"
  by (induction es) (auto simp: said_before_def)

definition tracks :: "'j model_event list \<Rightarrow> 'j round_assembly \<Rightarrow> bool" where
  "tracks es a \<longleftrightarrow>
     as_text a = said_text (said_before es) \<and>
     as_reasoning a = said_reasoning (said_before es) \<and>
     as_calls a = said_calls (said_before es) \<and>
     as_canonical a = said_content (said_before es) \<and>
     as_completed a = list_ex is_completed_event es \<and>
     as_finish a = said_finish es \<and>
     as_reasoning a = concat (as_segments a) @ (case as_segment a of Some t \<Rightarrow> t | None \<Rightarrow> []) \<and>
     (as_completed a \<longrightarrow> as_segment a = None)"

lemma tracks_start: "tracks [] assembly_start"
  by (simp add: tracks_def assembly_start_def)

lemma close_segment_fields [simp]:
  "as_text (close_reasoning_segment a) = as_text a"
  "as_reasoning (close_reasoning_segment a) = as_reasoning a"
  "as_calls (close_reasoning_segment a) = as_calls a"
  "as_canonical (close_reasoning_segment a) = as_canonical a"
  "as_completed (close_reasoning_segment a) = as_completed a"
  "as_finish (close_reasoning_segment a) = as_finish a"
  "as_segment (close_reasoning_segment a) = None"
  "concat (as_segments (close_reasoning_segment a)) =
     concat (as_segments a) @ (case as_segment a of Some t \<Rightarrow> t | None \<Rightarrow> [])"
  by (simp_all add: close_reasoning_segment_def emit_def split: option.splits)

lemma tracks_step:
  assumes "tracks es a" and "take_event e a = Inr b"
  shows "tracks (es @ [e]) b"
proof (cases "as_completed a")
  case True
  with assms show ?thesis
    by (cases e) (auto simp: tracks_def take_event_def said_before_snoc is_completed_event_def
        take_usage_def emit_def Let_def split: if_splits)
next
  case False
  with assms show ?thesis
    by (cases e) (auto simp: tracks_def take_event_def said_before_snoc is_completed_event_def
        take_usage_def take_text_def take_reasoning_def emit_def Let_def
        split: if_splits option.splits)
qed

definition heard :: "'j stream_poll list \<Rightarrow> 'j model_event list" where
  "heard ps = concat (map (\<lambda>p. case p of Polled e \<Rightarrow> [e] | _ \<Rightarrow> []) ps)"

definition unbroken :: "'j stream_poll list \<Rightarrow> bool" where
  "unbroken ps =
     list_all (\<lambda>p. case p of Polled e \<Rightarrow> \<not> is_error_event e | _ \<Rightarrow> False) ps"

lemma take_event_error: "(\<exists>f. take_event e a = Inl f) \<longleftrightarrow> is_error_event e"
  by (cases e) (auto simp: take_event_def is_error_event_def Let_def)

lemma poll_stream_tracks:
  assumes "tracks es a"
  shows "case poll_stream ps a of
           (b, None) \<Rightarrow> unbroken ps \<and> tracks (es @ heard ps) b
         | (b, Some f) \<Rightarrow> \<not> unbroken ps"
  using assms
proof (induction ps a arbitrary: es rule: poll_stream.induct)
  case (1 a)
  then show ?case by (simp add: unbroken_def heard_def)
next
  case (2 p ps a)
  show ?case
  proof (cases p)
    case (Polled e)
    show ?thesis
    proof (cases "take_event e a")
      case (Inl f)
      with take_event_error [of e a] have "is_error_event e" by blast
      with Polled Inl show ?thesis by (simp add: unbroken_def)
    next
      case (Inr b)
      then have "\<not> is_error_event e" using take_event_error [of e a] by auto
      moreover have "tracks (es @ [e]) b" by (rule tracks_step [OF 2(2) Inr])
      ultimately show ?thesis
        using "2.IH" [OF Polled Inr, of "es @ [e]"] Polled Inr
        by (auto simp: unbroken_def heard_def split: prod.splits option.splits)
    qed
  qed (simp_all add: unbroken_def)
qed

lemma assembled_said: "tracks es a \<Longrightarrow> assembled_content a = said_message (said_before es)"
  by (cases "said_content (said_before es)")
    (simp_all add: tracks_def assembled_content_def said_message_def)

lemma tracks_closed:
  assumes "tracks es a"
  shows "as_finish a = Some r \<Longrightarrow> said_finish es = Some r"
    and "list_ex is_completed_event es \<Longrightarrow> concat (as_segments a) = said_reasoning (said_before es)"
  using assms by (auto simp: tracks_def)

lemma finish_said: "said_finish es = None \<longleftrightarrow> \<not> list_ex is_completed_event es"
proof (induction es rule: rev_induct)
  case (snoc e es)
  then show ?case by (cases e) (auto simp: is_completed_event_def)
qed simp

text \<open>
  C30. A round succeeds exactly when its stream reports no failure and a completion;
  its message then is what the stream said before its first completion, the
  provider's own content where it was given, and its reasoning segments, one after
  the other, are the reasoning text.
\<close>

theorem round_is_what_was_said:
  shows "case fst (stream_round i route (Started ps)) of
           Inl f \<Rightarrow> \<not> (unbroken ps \<and> list_ex is_completed_event (heard ps))
         | Inr q \<Rightarrow>
             unbroken ps \<and> list_ex is_completed_event (heard ps) \<and>
             msg_role (mr_message q) = AssistantRole \<and> msg_route (mr_message q) = route \<and>
             msg_content (mr_message q) = said_message (said_before (heard ps)) \<and>
             concat (mr_segments q) = said_reasoning (said_before (heard ps)) \<and>
             Some (mr_finish_reason q) = said_finish (heard ps)"
proof -
  obtain a f where p: "poll_stream ps assembly_start = (a, f)"
    by (cases "poll_stream ps assembly_start")
  note t = poll_stream_tracks [OF tracks_start, of ps, unfolded p]
  show ?thesis
  proof (cases f)
    case (Some x)
    with t p show ?thesis by (simp add: stream_round_def)
  next
    case None
    with t have u: "unbroken ps" and tr: "tracks (heard ps) a" by simp_all
    show ?thesis
    proof (cases "as_finish a")
      case None
      with tr finish_said [of "heard ps"] have "\<not> list_ex is_completed_event (heard ps)"
        by (simp add: tracks_def)
      with p \<open>f = None\<close> None show ?thesis by (simp add: stream_round_def)
    next
      case (Some r)
      with tracks_closed(1) [OF tr] finish_said [of "heard ps"]
      have "list_ex is_completed_event (heard ps)"
        by simp
      moreover have "assembled_content (emit e a) = assembled_content a" for e
        by (cases "as_canonical a") (simp_all add: assembled_content_def emit_def)
      ultimately show ?thesis
        using p \<open>f = None\<close> Some u assembled_said [OF tr] tracks_closed [OF tr]
        by (simp add: stream_round_def Let_def emit_def)
    qed
  qed
qed

end
