(* ===== verification/Spec2Isabelle.thy ===== *)
theory Spec2Isabelle
  imports Lifecycle_State_Correct User_Boundary_Correct Checkpoint
    Patch_Apply_Correct Patch_Parse_Correct Agent_Loop_Correct Sse_Decoder Update_Version
    Git_Effects_Correct Shell_Ast_Correct Permission_Correct Trust_Gate Network_Scope
    Schedule_Dispatch_Correct Schedule_Rows_Correct Remote_Tunnel_Correct Relay_Correct
    Model_Accounting_Correct Model_Route_Correct Model_Round_Correct
begin

text \<open>
  Verification library of CodeLeveler, a coding agent written in Rust (src/crates).

  The program.  A model-tool loop (leveler-agent-core) asks a model for a step: the transcript
  is projected to what the addressed route may see and measured (leveler-model), folded when it
  no longer fits (leveler-context), and sent as one logical request with its retries.  The
  answer is streamed through a protocol decoder (leveler-protocol), and the tools it calls are
  run (leveler-tools).  Before a tool runs, the execution layer (leveler-execution) decides
  whether it may: a command is read as a syntax tree and as Git effects, a permission
  profile, standing rules and a trust gate over repository configuration decide whether to
  run, ask or refuse, and a network scope bounds the destinations.  The lifecycle crate
  (leveler-lifecycle) holds what a long task remembers: its plan, progress, evidence,
  objective, the pauses the user asked for, and a compact checkpoint.  Schedules
  (leveler-schedule) run actions unattended under a stored grant; a paired phone reaches the
  sessions of a host through a relay that is not trusted (leveler-remote-protocol,
  leveler-remote-agent, services/leveler-relay); the updater (leveler-update) compares
  releases.

  How the model is laid out.  Data is a \<open>datatype\<close> or \<open>record\<close> with the source's
  constructors and fields, an operation a function of the state that returns the new one,
  an error a value of a sum type, a Rust string a list of code points (\<open>rstr\<close>) and a byte
  string a list of naturals below 256.  Integers that can wrap or saturate are words or
  carry the saturation written out.  What the source takes from elsewhere is an argument of
  the definitions: the bash grammar, the file system, clocks, DNS, time zones and cron,
  JSON and YAML, SHA-256, the model, the runtime client, the supply of identities.

  Theories and sources.
  \<^item> \<open>Prelude\<close>: Rust strings and the standard library functions the code calls on them,
    saturating arithmetic, generic lemmas.  \<open>Interfaces\<close>: the contracts several components
    share, as locales: persisted enums (\<open>wire_enum\<close>), transition systems with an invariant,
    incremental decoders, rankings and guarded folds; each is interpreted by the theory of
    the component that provides it.
  \<^item> \<open>Patch_Parse\<close>, \<open>Patch_Apply\<close> (leveler-tools/src/tools/patch): the patch envelope and
    unified diffs, locating and splicing hunks.  Their \<open>_Correct\<close> theories show the round trip
    of printing and parsing, that the written file has exactly the named lines replaced (and
    loses one blank line at its end), and that the reported positions are real.
  \<^item> \<open>Lifecycle_Vocabulary\<close>, \<open>Lifecycle_State\<close>, \<open>User_Boundary\<close>, \<open>Checkpoint\<close>
    (leveler-lifecycle): the enums with their spellings, plan, progress, evidence and
    objective, the reading of a pause out of a message, the checkpoint.  Shown: the
    invariant of a task epoch, the boundary in force as an abstract last-stated state.
  \<^item> \<open>Agent_Loop\<close> (leveler-agent-core: limits, usage, harness, agent): admission of a model
    step, the folded spend, the loop.  The loop is a function with fuel; the model-step
    ceiling bounds the iterations, and \<open>run_returns_within_ceiling\<close> shows that fuel above it is
    enough.
  \<^item> \<open>Sse_Decoder\<close> (leveler-protocol/src/sse.rs): the event-stream decoder; decoding does not
    depend on the chunks, up to what was handed over before an error, and undoes the
    encoding.
  \<^item> \<open>Update_Version\<close> (leveler-update/src/version.rs): precedence as an order.
  \<^item> \<open>Git_Effects\<close>, \<open>Shell_Words\<close>, \<open>Shell_Ast\<close> (leveler-execution: git_effects.rs,
    shell_ast.rs, approval.rs): what a command line does.  Nested scripts are analysed with
    \<open>bash_fuel\<close>, one more than the length of the script: a nested script is a proper part of
    its text, so it is enough (\<open>nesting_terminates\<close>).  What a script runs, and what ends a
    shell before its end, is stated over the syntax tree by itself (\<open>runs_in\<close>, \<open>exits\<close>): a
    script classified safe hides no privileged or unreadable command behind the flags and
    shells named there, and \<open>flag_cluster_hides_script\<close> and \<open>exit_proves_what_never_ran\<close> show
    where the code misses one.
  \<^item> \<open>Permission\<close>, \<open>Trust_Gate\<close>, \<open>Network_Scope\<close> (leveler-execution: risk.rs, policy.rs,
    permission_rules.rs, approval.rs, trust.rs, network.rs): the strictest rule decides, the
    glob matcher against a declarative relation on ASCII text, content-addressed trust, destinations.
  \<^item> \<open>Schedule_Rule\<close>, \<open>Schedule_Grant\<close>, \<open>Schedule_Rows\<close>, \<open>Schedule_Store\<close>,
    \<open>Schedule_Dispatch\<close> (leveler-schedule: rule.rs, lib.rs, store.rs, dispatch.rs): the rules
    and their next occurrence, the grant, the persisted rows, one function per SQL
    transaction and the operations over them, the dispatcher.  \<open>Schedule_Store_Correct\<close> treats
    any interleaving of transactions as a step relation with an invariant: slots are
    claimed at most once, a settled run is final, overlap bounds the active runs.
    \<open>Schedule_Passes_Correct\<close> shows that each operation is a sequence of transactions, that
    a schedule its calendar can answer never runs out of slots and that an outage is not made
    up for in a burst;
    \<open>Schedule_Rows_Correct\<close> that rows read back; \<open>Schedule_Dispatch_Correct\<close> that nothing starts
    without a grant that covers it now.  The wait for a shell is a partial function: \<open>None\<close>
    would be a wait that never ends, and \<open>run_shell_returns\<close> excludes it.
  \<^item> \<open>Remote_Protocol\<close>, \<open>Remote_Policy\<close> (leveler-remote-protocol, the commands of
    leveler-client-protocol): envelopes with the text that is signed, keys, assertions, the
    pairing code, and the gate over every client command.  \<open>Remote_Uploads\<close>,
    \<open>Remote_Devices\<close>, \<open>Remote_Bridge\<close>, \<open>Remote_Tunnel\<close> (leveler-remote-agent: attachments.rs,
    devices.rs, projects.rs, audit.rs, bridge.rs, tunnel.rs, approvals.rs): the state of the
    agent and one function per operation on it, up to the handler of a relay frame; the
    runtimes behind it are a world the environment acts on.  Shown: what verifies was
    signed as it stands; what reaches a runtime passed every check; a device another process revoked is
    refused as soon as the agent can read the file (and served until then,
    \<open>unreadable_file_serves_revoked\<close>); uploads are well formed, bounded and reassemble; an
    approval is denied automatically only after its whole window, and the presence that
    decides it counts the streams opened for interactive devices; every frame leaves its audit line; and two gaps of
    the code, a session with full access without the host's opt-in and a refusal that is
    not written down.
  \<^item> \<open>Relay_State\<close>, \<open>Relay_Routes\<close> (services/leveler-relay: state.rs, routes.rs, tunnel.rs):
    the relay between the two, one function per method of its locked state, the handlers over
    them and the frames of an agent.  \<open>Relay_Correct\<close> treats any sequence of calls as a step
    relation: a revoked device has no token, a refresh token and a signed assertion are good
    for one use, a device enters by confirmation only, nothing is kept for an absent host,
    and the meters bound every window; and it shows where the relay fails: a reconnecting agent
    takes itself offline, and a device paired with a second host keeps the first.
  \<^item> \<open>Model_Reference\<close>, \<open>Model_Message\<close>, \<open>Model_Route\<close>, \<open>Model_Estimate\<close>, \<open>Model_Projection\<close>,
    \<open>Model_Accounting\<close> (leveler-model: request.rs, message.rs, authority.rs, provenance.rs,
    retention.rs, tool_exchange.rs, profile.rs, thinking.rs, reasoning_route.rs, estimate.rs,
    projection.rs, context_accounting.rs; the context policy of leveler-agent's
    coding/policy.rs): the rows of a transcript with their recorded origin and route, what a
    route requires of replayed reasoning, the one projection of a request and its accounting.
    \<open>Context_Compaction\<close> (leveler-context/src/compaction.rs, leveler-model/src/tool_output.rs):
    the fold.  \<open>Tool_Exchange_Correct\<close> shows that a fold keeps every call with its results and
    forgets no delivered fact, \<open>Model_Projection_Correct\<close> that reasoning on a request's channel
    is the addressed route's own, \<open>Model_Route_Correct\<close> that a required replay is kept and that
    only recorded rows instruct, \<open>Model_Accounting_Correct\<close> that the breakdown adds up to the
    estimate within rounding.
  \<^item> \<open>Model_Failure\<close>, \<open>Model_Round\<close> (leveler-model/src/error.rs,
    leveler-agent-core/src/model_round.rs): the classification of failures, the assembly of one
    streamed attempt and the retries of a logical request, a recursion on the retries that are
    left.  \<open>Model_Round_Correct\<close> shows that attempts are bounded and settled once each, and that
    a round's message is what its stream said.

  Not modelled.  The user interfaces (leveler-tui, leveler-cli, leveler-app, the desktop,
  mobile and web clients) are rendering and wiring; the transports, the process runner and the
  sandboxes are operating-system effects; the SQL stores other than the schedule's, the
  provider protocols beyond the event stream, the rule and skill loaders, the authorization and
  drive loop of the agent crate, the session engine's log, the language-server codec and the
  management calls of the schedules are left for later.  The manifest lists each with its reason.  In a
  modelled component the texts of messages are kept as the parameters they render, and
  tracing is left out.
\<close>

end
